(* ===== verification/LVOS_Prelude.thy ===== *)
theory LVOS_Prelude
  imports Main "HOL-Library.Word" "HOL-Library.AList" "HOL-Library.Char_ord"
    "HOL-Library.List_Lexorder" "HOL-Library.Product_Lexorder"
begin

text \<open>
  Shared vocabulary of the LVOS development: Rust's fixed-width integers with their checked and
  saturating operations, \<open>Result\<close> values with the propagation of errors by \<open>?\<close>, keyed SQL
  tables as association lists together with the interface (a locale) the database components
  use them through, and byte-level string helpers (\<open>split\<close>, \<open>join\<close>, UTF-8).
\<close>

section \<open>Collections of rules\<close>

named_theorems res_simps \<open>evaluation and inversion of Result computations\<close>
named_theorems tbl_simps \<open>lookup after a table operation\<close>
named_theorems tbl_intros \<open>operations that keep table keys distinct\<close>
named_theorems int_defs \<open>checked, saturating and converting integer operations\<close>

section \<open>Fixed-width integers\<close>

text \<open>
  \<open>u32\<close>, \<open>u64\<close> and \<open>i64\<close> values are mathematical numbers; every operation of the code that can
  leave the range of its type is one of the operations below, with the range written out.
\<close>

type_synonym u32 = nat
type_synonym u64 = nat
type_synonym usize = nat
type_synonym i64 = int
type_synonym byte = "8 word"

definition i64_max :: int where
  [int_defs]: "i64_max = 9223372036854775807"

definition i64_min :: int where
  [int_defs]: "i64_min = -9223372036854775808"

definition u64_max :: nat where
  [int_defs]: "u64_max = 18446744073709551615"

definition u32_max :: nat where
  [int_defs]: "u32_max = 4294967295"

text \<open>\<open>u64::try_from(i64)\<close>, \<open>i64::try_from(u64)\<close> and \<open>u32::try_from(i64)\<close>.\<close>

definition u64_of_i64 :: "i64 \<Rightarrow> u64 option" where
  [int_defs]: "u64_of_i64 i = (if i < 0 then None else Some (nat i))"

definition i64_of_u64 :: "u64 \<Rightarrow> i64 option" where
  [int_defs]: "i64_of_u64 n = (if int n \<le> i64_max then Some (int n) else None)"

definition u32_of_i64 :: "i64 \<Rightarrow> u32 option" where
  [int_defs]: "u32_of_i64 i = (if 0 \<le> i \<and> i \<le> int u32_max then Some (nat i) else None)"

definition checked_add_u64 :: "u64 \<Rightarrow> u64 \<Rightarrow> u64 option" where
  [int_defs]: "checked_add_u64 a b = (if a + b \<le> u64_max then Some (a + b) else None)"

definition saturating_add_u64 :: "u64 \<Rightarrow> u64 \<Rightarrow> u64" where
  [int_defs]: "saturating_add_u64 a b = min u64_max (a + b)"

definition saturating_sub_u64 :: "u64 \<Rightarrow> u64 \<Rightarrow> u64" where
  [int_defs]: "saturating_sub_u64 a b = (if b \<le> a then a - b else 0)"

definition checked_add_i64 :: "i64 \<Rightarrow> i64 \<Rightarrow> i64 option" where
  [int_defs]: "checked_add_i64 a b = (if i64_min \<le> a + b \<and> a + b \<le> i64_max then Some (a + b) else None)"

definition saturating_sub_i64 :: "i64 \<Rightarrow> i64 \<Rightarrow> i64" where
  [int_defs]: "saturating_sub_i64 a b = max i64_min (min i64_max (a - b))"

text \<open>
  \<open>x + 1\<close> inside an SQL statement: SQLite computes on 64-bit integers and falls back to a
  floating-point value on overflow, which the typed column reader of the code then rejects.
\<close>

definition sql_succ :: "i64 \<Rightarrow> i64 option" where
  [int_defs]: "sql_succ i = (if i < i64_max then Some (i + 1) else None)"

text \<open>The same operations with the bounds compared as integers, for evaluation.\<close>

lemma checked_add_u64_code [code]:
  "checked_add_u64 a b = (if int a + int b \<le> 18446744073709551615 then Some (a + b) else None)"
  by (auto simp: checked_add_u64_def u64_max_def)

lemma u32_of_i64_code [code]:
  "u32_of_i64 i = (if 0 \<le> i \<and> i \<le> 4294967295 then Some (nat i) else None)"
  by (simp add: u32_of_i64_def u32_max_def)

lemma saturating_add_u64_code [code]:
  "saturating_add_u64 a b = (if int a + int b \<le> 18446744073709551615 then a + b else u64_max)"
  by (auto simp: saturating_add_u64_def u64_max_def)

lemma i64_of_u64_Some [simp]: "i64_of_u64 n = Some i \<longleftrightarrow> i = int n \<and> int n \<le> i64_max"
  by (auto simp: i64_of_u64_def)

lemma u64_of_i64_Some [simp]: "u64_of_i64 i = Some n \<longleftrightarrow> 0 \<le> i \<and> n = nat i"
  by (auto simp: u64_of_i64_def)

lemma u64_of_i64_int [simp]: "u64_of_i64 (int n) = Some n"
  by simp

lemma u32_of_i64_Some [simp]: "u32_of_i64 i = Some n \<longleftrightarrow> 0 \<le> i \<and> i \<le> int u32_max \<and> n = nat i"
  by (auto simp: u32_of_i64_def)

lemma u32_of_i64_int [simp]: "u32_of_i64 (int n) = (if n \<le> u32_max then Some n else None)"
  by (auto simp: u32_of_i64_def)

lemma checked_add_u64_Some [simp]:
  "checked_add_u64 a b = Some c \<longleftrightarrow> a + b \<le> u64_max \<and> c = a + b"
  by (auto simp: checked_add_u64_def)

lemma sql_succ_Some [simp]: "sql_succ i = Some j \<longleftrightarrow> i < i64_max \<and> j = i + 1"
  by (auto simp: sql_succ_def)

section \<open>Results\<close>

text \<open>
  \<open>Result<A, E>\<close> is \<open>'e + 'a\<close> with \<open>Inl\<close> for \<open>Err\<close>. \<open>rbind\<close> is the \<open>?\<close> operator followed by the
  rest of the function, \<open>ok_or\<close> and \<open>map_err\<close> are the methods of those names, \<open>mapM\<close> is
  \<open>collect::<Result<Vec<_>, _>>()\<close> and \<open>foldM\<close> a \<open>for\<close> loop over a mutable state that may
  return early with an error.
\<close>

primrec rbind :: "'e + 'a \<Rightarrow> ('a \<Rightarrow> 'e + 'b) \<Rightarrow> 'e + 'b" where
  "rbind (Inl e) f = Inl e"
| "rbind (Inr x) f = f x"

definition ok_or :: "'e \<Rightarrow> 'a option \<Rightarrow> 'e + 'a" where
  "ok_or e v = (case v of None \<Rightarrow> Inl e | Some x \<Rightarrow> Inr x)"

primrec map_err :: "('e \<Rightarrow> 'f) \<Rightarrow> 'e + 'a \<Rightarrow> 'f + 'a" where
  "map_err f (Inl e) = Inl (f e)"
| "map_err f (Inr x) = Inr x"

text \<open>\<open>opt.map(f).transpose()\<close> for a fallible \<open>f\<close>.\<close>

definition opt_transpose :: "('a \<Rightarrow> 'e + 'b) \<Rightarrow> 'a option \<Rightarrow> 'e + 'b option" where
  "opt_transpose f v = (case v of None \<Rightarrow> Inr None | Some x \<Rightarrow> rbind (f x) (\<lambda>y. Inr (Some y)))"

fun mapM :: "('a \<Rightarrow> 'e + 'b) \<Rightarrow> 'a list \<Rightarrow> 'e + 'b list" where
  "mapM f [] = Inr []"
| "mapM f (x # xs) = rbind (f x) (\<lambda>y. rbind (mapM f xs) (\<lambda>ys. Inr (y # ys)))"

fun foldM :: "('a \<Rightarrow> 's \<Rightarrow> 'e + 's) \<Rightarrow> 'a list \<Rightarrow> 's \<Rightarrow> 'e + 's" where
  "foldM f [] s = Inr s"
| "foldM f (x # xs) s = rbind (f x s) (foldM f xs)"

lemma rbind_Inr [res_simps]: "rbind m f = Inr y \<longleftrightarrow> (\<exists>x. m = Inr x \<and> f x = Inr y)"
  by (cases m) auto

lemma rbind_Inl [res_simps]:
  "rbind m f = Inl e \<longleftrightarrow> m = Inl e \<or> (\<exists>x. m = Inr x \<and> f x = Inl e)"
  by (cases m) auto

lemma ok_or_Inr [res_simps]: "ok_or e v = Inr x \<longleftrightarrow> v = Some x"
  by (auto simp: ok_or_def split: option.splits)

lemma ok_or_Inl [res_simps]: "ok_or e v = Inl e' \<longleftrightarrow> v = None \<and> e' = e"
  by (auto simp: ok_or_def split: option.splits)

lemma ok_or_simps [simp]: "ok_or e None = Inl e" "ok_or e (Some x) = Inr x"
  by (simp_all add: ok_or_def)

lemma map_err_Inr [res_simps]: "map_err f m = Inr x \<longleftrightarrow> m = Inr x"
  by (cases m) auto

lemma map_err_Inl [res_simps]: "map_err f m = Inl e \<longleftrightarrow> (\<exists>e'. m = Inl e' \<and> e = f e')"
  by (cases m) auto

lemma opt_transpose_simps [simp]:
  "opt_transpose f None = Inr None"
  "opt_transpose f (Some x) = rbind (f x) (\<lambda>y. Inr (Some y))"
  by (simp_all add: opt_transpose_def)

lemma opt_transpose_Inr [res_simps]:
  "opt_transpose f v = Inr w \<longleftrightarrow>
     (v = None \<and> w = None) \<or> (\<exists>x y. v = Some x \<and> f x = Inr y \<and> w = Some y)"
  by (cases v) (auto simp: res_simps)

lemma rbind_cong [fundef_cong]:
  "m = m' \<Longrightarrow> (\<And>x. m' = Inr x \<Longrightarrow> f x = g x) \<Longrightarrow> rbind m f = rbind m' g"
  by (cases m') auto

lemma mapM_Inr_length: "mapM f xs = Inr ys \<Longrightarrow> length ys = length xs"
  by (induction xs arbitrary: ys) (auto simp: res_simps)

lemma mapM_Inr_nth: "mapM f xs = Inr ys \<longleftrightarrow> list_all2 (\<lambda>x y. f x = Inr y) xs ys"
  by (induction xs arbitrary: ys) (auto simp: res_simps list_all2_Cons1)

lemma mapM_total: "(\<And>x. x \<in> set xs \<Longrightarrow> \<exists>y. f x = Inr y) \<Longrightarrow> \<exists>ys. mapM f xs = Inr ys"
proof (induction xs)
  case Nil
  then show ?case by simp
next
  case (Cons x xs)
  then obtain y ys where "f x = Inr y" "mapM f xs = Inr ys" by fastforce
  then show ?case by simp
qed

lemma mapM_map_Inr: "(\<And>x. x \<in> set xs \<Longrightarrow> f x = Inr (g x)) \<Longrightarrow> mapM f xs = Inr (map g xs)"
  by (induction xs) auto

lemma foldM_append: "foldM f (xs @ ys) s = rbind (foldM f xs s) (foldM f ys)"
proof (induction xs arbitrary: s)
  case Nil
  then show ?case by simp
next
  case (Cons x xs)
  then show ?case by (cases "f x s") auto
qed

text \<open>A loop keeps what every iteration keeps.\<close>

lemma foldM_invariant:
  assumes "foldM f xs s = Inr s'" and "I s"
    and "\<And>x s t. x \<in> set xs \<Longrightarrow> I s \<Longrightarrow> f x s = Inr t \<Longrightarrow> I t"
  shows "I s'"
  using assms
proof (induction xs arbitrary: s)
  case Nil
  then show ?case by simp
next
  case (Cons x xs)
  then obtain t where "f x s = Inr t" "foldM f xs t = Inr s'" by (auto simp: res_simps)
  with Cons show ?case by (metis list.set_intros)
qed

section \<open>Keyed tables\<close>

text \<open>
  An SQL table with a primary key is an association list from the key to the other columns, in
  row order. \<open>tbl_put\<close> is \<open>INSERT ... ON CONFLICT(key) DO UPDATE\<close> of every column, \<open>tbl_modify\<close>
  an \<open>UPDATE ... WHERE key = ?\<close>, \<open>tbl_del\<close> a \<open>DELETE ... WHERE key = ?\<close>, \<open>tbl_update_all\<close> an
  \<open>UPDATE\<close> of every row and \<open>tbl_keep\<close> a \<open>DELETE\<close> of the rows that fail a test.
\<close>

type_synonym ('k, 'v) table = "('k \<times> 'v) list"

definition tbl_get :: "('k, 'v) table \<Rightarrow> 'k \<Rightarrow> 'v option" where
  "tbl_get t k = map_of t k"

definition tbl_has :: "('k, 'v) table \<Rightarrow> 'k \<Rightarrow> bool" where
  "tbl_has t k = (map_of t k \<noteq> None)"

definition tbl_put :: "'k \<Rightarrow> 'v \<Rightarrow> ('k, 'v) table \<Rightarrow> ('k, 'v) table" where
  "tbl_put k v t = AList.update k v t"

definition tbl_update_all :: "('k \<Rightarrow> 'v \<Rightarrow> 'v) \<Rightarrow> ('k, 'v) table \<Rightarrow> ('k, 'v) table" where
  "tbl_update_all f t = map (\<lambda>(k, v). (k, f k v)) t"

definition tbl_modify :: "'k \<Rightarrow> ('v \<Rightarrow> 'v) \<Rightarrow> ('k, 'v) table \<Rightarrow> ('k, 'v) table" where
  "tbl_modify k f t = tbl_update_all (\<lambda>k' v. if k' = k then f v else v) t"

definition tbl_keep :: "('k \<Rightarrow> 'v \<Rightarrow> bool) \<Rightarrow> ('k, 'v) table \<Rightarrow> ('k, 'v) table" where
  "tbl_keep P t = filter (\<lambda>(k, v). P k v) t"

definition tbl_del :: "'k \<Rightarrow> ('k, 'v) table \<Rightarrow> ('k, 'v) table" where
  "tbl_del k t = tbl_keep (\<lambda>k' v. k' \<noteq> k) t"

definition tbl_wf :: "('k, 'v) table \<Rightarrow> bool" where
  "tbl_wf t = distinct (map fst t)"

lemma tbl_get_Nil [simp, tbl_simps]: "tbl_get [] k = None"
  by (simp add: tbl_get_def)

lemma tbl_has_get: "tbl_has t k \<longleftrightarrow> tbl_get t k \<noteq> None"
  by (simp add: tbl_has_def tbl_get_def)

lemma tbl_get_put [simp, tbl_simps]: "tbl_get (tbl_put k v t) = (tbl_get t)(k \<mapsto> v)"
  by (auto simp: tbl_get_def tbl_put_def update_conv' fun_eq_iff)

lemma tbl_get_update_all [simp, tbl_simps]:
  "tbl_get (tbl_update_all f t) k = map_option (f k) (tbl_get t k)"
  by (induction t) (auto simp: tbl_get_def tbl_update_all_def)

lemma tbl_get_modify [simp, tbl_simps]:
  "tbl_get (tbl_modify k f t) k' = (if k' = k then map_option f (tbl_get t k) else tbl_get t k')"
  by (auto simp: tbl_modify_def option.map_ident)

lemma tbl_get_keep [tbl_simps]:
  "tbl_wf t \<Longrightarrow> tbl_get (tbl_keep P t) k =
     (case tbl_get t k of None \<Rightarrow> None | Some v \<Rightarrow> if P k v then Some v else None)"
  by (induction t) (auto simp: tbl_get_def tbl_keep_def tbl_wf_def image_iff
      map_of_eq_None_iff split: option.splits)

lemma tbl_get_del [simp, tbl_simps]: "tbl_get (tbl_del k t) = (tbl_get t)(k := None)"
  by (induction t) (auto simp: tbl_get_def tbl_del_def tbl_keep_def fun_eq_iff)

lemma tbl_wf_Nil [simp, tbl_intros]: "tbl_wf []"
  by (simp add: tbl_wf_def)

lemma tbl_wf_put [simp, tbl_intros]: "tbl_wf t \<Longrightarrow> tbl_wf (tbl_put k v t)"
  by (simp add: tbl_wf_def tbl_put_def distinct_update)

lemma tbl_wf_update_all [simp, tbl_intros]: "tbl_wf (tbl_update_all f t) \<longleftrightarrow> tbl_wf t"
proof -
  have "map fst (tbl_update_all f t) = map fst t"
    by (induction t) (auto simp: tbl_update_all_def)
  then show ?thesis by (simp add: tbl_wf_def)
qed

lemma tbl_wf_modify [simp, tbl_intros]: "tbl_wf (tbl_modify k f t) \<longleftrightarrow> tbl_wf t"
  by (simp add: tbl_modify_def)

lemma tbl_wf_keep [simp, tbl_intros]: "tbl_wf t \<Longrightarrow> tbl_wf (tbl_keep P t)"
  by (induction t) (auto simp: tbl_wf_def tbl_keep_def)

lemma tbl_wf_del [simp, tbl_intros]: "tbl_wf t \<Longrightarrow> tbl_wf (tbl_del k t)"
  by (simp add: tbl_del_def)

lemma tbl_get_in_set: "tbl_wf t \<Longrightarrow> (k, v) \<in> set t \<longleftrightarrow> tbl_get t k = Some v"
  by (auto simp: tbl_wf_def tbl_get_def dest: map_of_SomeD)

lemma tbl_has_modify [simp]: "tbl_has (tbl_modify k f t) k' = tbl_has t k'"
  by (auto simp: tbl_has_get)

lemma tbl_has_put [simp]: "tbl_has (tbl_put k v t) k' \<longleftrightarrow> k' = k \<or> tbl_has t k'"
  by (auto simp: tbl_has_get)

lemma tbl_put_fresh: "\<not> tbl_has t k \<Longrightarrow> tbl_put k v t = t @ [(k, v)]"
  by (induction t) (auto simp: tbl_has_def tbl_put_def split: if_splits)

lemma map_tbl_modify:
  "(\<And>v. g (k, f v) = g (k, v)) \<Longrightarrow> map g (tbl_modify k f t) = map g t"
  by (induction t) (auto simp: tbl_modify_def tbl_update_all_def)

lemma map_tbl_update_all:
  "(\<And>k v. g (k, f k v) = g (k, v)) \<Longrightarrow> map g (tbl_update_all f t) = map g t"
  by (induction t) (auto simp: tbl_update_all_def)

lemma map_tbl_put_fresh: "\<not> tbl_has t k \<Longrightarrow> map g (tbl_put k v t) = map g t @ [g (k, v)]"
  by (simp add: tbl_put_fresh)

lemma find_unique:
  assumes "x \<in> set xs" and "P x" and "\<And>y. y \<in> set xs \<Longrightarrow> P y \<Longrightarrow> y = x"
  shows "find P xs = Some x"
proof (cases "find P xs")
  case None
  with assms(1,2) show ?thesis by (simp add: find_None_iff)
next
  case (Some y)
  then have "y \<in> set xs" "P y" by (metis find_Some_iff nth_mem)+
  then have "y = x" by (rule assms(3))
  with Some show ?thesis by simp
qed

lemma map_tbl_modify_to:
  "tbl_wf t \<Longrightarrow> tbl_get t k = Some v \<Longrightarrow> \<exists>xs ys. t = xs @ (k, v) # ys \<and> k \<notin> fst ` set xs
     \<and> k \<notin> fst ` set ys \<and> tbl_modify k f t = xs @ (k, f v) # ys"
proof -
  assume wf: "tbl_wf t" and "tbl_get t k = Some v"
  then have "(k, v) \<in> set t" by (simp add: tbl_get_in_set)
  then obtain xs ys where t: "t = xs @ (k, v) # ys" by (meson split_list)
  with wf have out: "k \<notin> fst ` set xs" "k \<notin> fst ` set ys" by (auto simp: tbl_wf_def)
  have "tbl_modify k f zs = zs" if "k \<notin> fst ` set zs" for zs :: "('a \<times> 'b) list"
    using that by (induction zs) (auto simp: tbl_modify_def tbl_update_all_def)
  with out have "tbl_modify k f t = xs @ (k, f v) # ys"
    by (simp add: t tbl_modify_def tbl_update_all_def)
  with t out show ?thesis by blast
qed

text \<open>Replacing one row's value of a unique column by a value no other row has.\<close>

lemma distinct_column_modify:
  assumes "tbl_wf t" and "tbl_get t k = Some v" and "distinct (map (\<lambda>(k, v). c v) t)"
    and "\<And>k' v'. (k', v') \<in> set t \<Longrightarrow> k' \<noteq> k \<Longrightarrow> c v' \<noteq> c (f v)"
  shows "distinct (map (\<lambda>(k, v). c v) (tbl_modify k f t))"
proof -
  from map_tbl_modify_to [OF assms(1,2)] obtain xs ys where t: "t = xs @ (k, v) # ys"
    and out: "k \<notin> fst ` set xs" "k \<notin> fst ` set ys" and m: "tbl_modify k f t = xs @ (k, f v) # ys"
    by blast
  have "c v' \<noteq> c (f v)" if "(k', v') \<in> set xs \<union> set ys" for k' v'
  proof (rule assms(4))
    show "(k', v') \<in> set t" using that by (auto simp: t)
    show "k' \<noteq> k" using that out by force
  qed
  then have "c (f v) \<notin> (\<lambda>(k, v). c v) ` (set xs \<union> set ys)"
    unfolding image_iff split_beta by (metis prod.collapse)
  with assms(3) [unfolded t] show ?thesis unfolding m by (auto simp: image_Un)
qed

text \<open>
  The interface the database components rely on: a store whose rows are found by key, and whose
  writes are seen by the reads that follow. The laws are the ones above; the consequences the
  components use are proved once here.
\<close>

locale keyed_store =
  fixes get :: "'t \<Rightarrow> 'k \<Rightarrow> 'v option"
    and put :: "'k \<Rightarrow> 'v \<Rightarrow> 't \<Rightarrow> 't"
    and modify :: "'k \<Rightarrow> ('v \<Rightarrow> 'v) \<Rightarrow> 't \<Rightarrow> 't"
    and del :: "'k \<Rightarrow> 't \<Rightarrow> 't"
    and wf :: "'t \<Rightarrow> bool"
  assumes get_put: "get (put k v t) = (get t)(k \<mapsto> v)"
    and get_modify: "get (modify k f t) = (get t)(k := map_option f (get t k))"
    and get_del: "get (del k t) = (get t)(k := None)"
    and wf_put: "wf t \<Longrightarrow> wf (put k v t)"
    and wf_modify: "wf t \<Longrightarrow> wf (modify k f t)"
    and wf_del: "wf t \<Longrightarrow> wf (del k t)"
begin

lemma read_your_write: "get (modify k f (put k v t)) k = Some (f v)"
  by (simp add: get_put get_modify)

lemma modify_absent: "get t k = None \<Longrightarrow> get (modify k f t) = get t"
  by (auto simp: get_modify fun_eq_iff)

lemma put_all_preserves:
  assumes "wf t" and "\<And>k v. get t k = Some v \<Longrightarrow> P k v" and "P k v"
  shows "wf (put k v t)" and "get (put k v t) k' = Some v' \<Longrightarrow> P k' v'"
  using assms by (auto simp: get_put wf_put split: if_splits)

lemma modify_all_preserves:
  assumes "wf t" and "\<And>k v. get t k = Some v \<Longrightarrow> P k v"
    and "\<And>v. get t k = Some v \<Longrightarrow> P k (f v)"
  shows "wf (modify k f t)" and "get (modify k f t) k' = Some v' \<Longrightarrow> P k' v'"
  using assms by (auto simp: get_modify wf_modify split: if_splits)

end

interpretation tbl: keyed_store tbl_get tbl_put tbl_modify tbl_del tbl_wf
  by unfold_locales auto

section \<open>Ordered and bounded result sets\<close>

text \<open>\<open>ORDER BY f LIMIT n\<close>: a stable sort by the key, then the first \<open>n\<close> rows.\<close>

definition sql_order_limit :: "('a \<Rightarrow> 'b::linorder) \<Rightarrow> nat \<Rightarrow> 'a list \<Rightarrow> 'a list" where
  "sql_order_limit f n xs = take n (sort_key f xs)"

lemma set_sql_order_limit: "set (sql_order_limit f n xs) \<subseteq> set xs"
  unfolding sql_order_limit_def using set_take_subset by fastforce

lemma length_sql_order_limit: "length (sql_order_limit f n xs) = min n (length xs)"
  by (simp add: sql_order_limit_def)

lemma sorted_sql_order_limit: "sorted (map f (sql_order_limit f n xs))"
  by (simp add: sql_order_limit_def take_map [symmetric] sorted_wrt_take)

lemma sql_order_limit_all: "length xs \<le> n \<Longrightarrow> set (sql_order_limit f n xs) = set xs"
  by (simp add: sql_order_limit_def)

section \<open>Strings\<close>

text \<open>
  Identifiers, language tags and other protocol fields are byte strings (\<open>string\<close>, the UTF-8
  bytes). User text is a list of Unicode scalar values, because the code counts and inspects
  characters there.
\<close>

type_synonym uchar = nat
type_synonym utext = "uchar list"

text \<open>An ASCII literal of the code as a text.\<close>

definition ascii :: "string \<Rightarrow> utext" where
  "ascii s = map of_char s"

definition valid_uchar :: "uchar \<Rightarrow> bool" where
  "valid_uchar c = (c < 0x110000 \<and> \<not> (0xD800 \<le> c \<and> c \<le> 0xDFFF))"

text \<open>UTF-8, the byte representation behind \<open>str::as_bytes\<close> and \<open>str::len\<close>.\<close>

definition utf8_char :: "uchar \<Rightarrow> nat list" where
  "utf8_char c =
     (if c < 0x80 then [c]
      else if c < 0x800 then [0xC0 + c div 64, 0x80 + c mod 64]
      else if c < 0x10000 then [0xE0 + c div 4096, 0x80 + c div 64 mod 64, 0x80 + c mod 64]
      else [0xF0 + c div 262144, 0x80 + c div 4096 mod 64, 0x80 + c div 64 mod 64, 0x80 + c mod 64])"

definition utf8 :: "utext \<Rightarrow> byte list" where
  "utf8 t = map word_of_nat (concat (map utf8_char t))"

definition utf8_len :: "utext \<Rightarrow> nat" where
  "utf8_len t = length (utf8 t)"

definition string_bytes :: "string \<Rightarrow> byte list" where
  "string_bytes s = map (\<lambda>c. word_of_nat (of_char c)) s"

text \<open>\<open>str::split(c)\<close> and \<open>join\<close>: splitting always yields at least one piece.\<close>

fun split_on :: "'a \<Rightarrow> 'a list \<Rightarrow> 'a list list" where
  "split_on d [] = [[]]"
| "split_on d (x # xs) =
     (if x = d then [] # split_on d xs
      else (case split_on d xs of [] \<Rightarrow> [[x]] | p # ps \<Rightarrow> (x # p) # ps))"

fun join_on :: "'a \<Rightarrow> 'a list list \<Rightarrow> 'a list" where
  "join_on d [] = []"
| "join_on d [p] = p"
| "join_on d (p # q # ps) = p @ d # join_on d (q # ps)"

lemma split_on_ne [simp]: "split_on d xs \<noteq> []"
  by (cases xs) (auto split: list.splits)

lemma join_split_on [simp]: "join_on d (split_on d xs) = xs"
proof (induction xs)
  case Nil
  then show ?case by simp
next
  case (Cons x xs)
  obtain p ps where "split_on d xs = p # ps" by (cases "split_on d xs") auto
  with Cons show ?case by (cases ps) auto
qed

lemma split_on_no_delim: "p \<in> set (split_on d xs) \<Longrightarrow> d \<notin> set p"
proof (induction xs arbitrary: p)
  case Nil
  then show ?case by simp
next
  case (Cons x xs)
  obtain q ps where "split_on d xs = q # ps" by (cases "split_on d xs") auto
  with Cons show ?case by (auto split: if_splits)
qed

lemma split_on_single: "d \<notin> set p \<Longrightarrow> split_on d p = [p]"
  by (induction p) auto

lemma split_on_append_delim: "d \<notin> set p \<Longrightarrow> split_on d (p @ d # xs) = p # split_on d xs"
  by (induction p) auto

lemma split_join_on:
  "ps \<noteq> [] \<Longrightarrow> (\<And>p. p \<in> set ps \<Longrightarrow> d \<notin> set p) \<Longrightarrow> split_on d (join_on d ps) = ps"
  by (induction d ps rule: join_on.induct) (auto simp: split_on_single split_on_append_delim)

lemma map_split_on:
  "(\<And>x. x \<in> set xs \<Longrightarrow> f x = d \<longleftrightarrow> x = d) \<Longrightarrow> f d = d \<Longrightarrow>
     split_on d (map f xs) = map (map f) (split_on d xs)"
proof (induction xs)
  case Nil
  then show ?case by simp
next
  case (Cons x xs)
  obtain q ps where "split_on d xs = q # ps" by (cases "split_on d xs") auto
  with Cons show ?case by auto
qed

section \<open>UTF-8 is a prefix code\<close>

lemma digits_unique:
  fixes c d :: nat
  shows "c div 64 = d div 64 \<Longrightarrow> c mod 64 = d mod 64 \<Longrightarrow> c = d"
  by (metis div_mult_mod_eq)

lemma digits_unique3:
  fixes c d :: nat
  assumes "c div 4096 = d div 4096" "c div 64 mod 64 = d div 64 mod 64" "c mod 64 = d mod 64"
  shows "c = d"
proof -
  have "c div 64 div 64 = d div 64 div 64" using assms(1) by (simp add: div_mult2_eq [symmetric])
  then have "c div 64 = d div 64" using assms(2) by (metis digits_unique)
  then show ?thesis using assms(3) by (metis digits_unique)
qed

lemma digits_unique4:
  fixes c d :: nat
  assumes "c div 262144 = d div 262144" "c div 4096 mod 64 = d div 4096 mod 64"
    "c div 64 mod 64 = d div 64 mod 64" "c mod 64 = d mod 64"
  shows "c = d"
proof -
  have "c div 4096 div 64 = d div 4096 div 64" using assms(1) by (simp add: div_mult2_eq [symmetric])
  then have "c div 4096 = d div 4096" using assms(2) by (metis digits_unique)
  then show ?thesis using assms(3,4) by (metis digits_unique3)
qed

lemma utf8_char_prefix_free:
  assumes "utf8_char c @ r = utf8_char d @ s" and "c < 0x110000" and "d < 0x110000"
  shows "c = d \<and> r = s"
proof -
  consider "c < 0x80" | "0x80 \<le> c" "c < 0x800" | "0x800 \<le> c" "c < 0x10000" | "0x10000 \<le> c"
    by linarith
  then show ?thesis
    using assms
    by cases (auto simp: utf8_char_def split: if_splits
        dest: digits_unique digits_unique3 digits_unique4)
qed
lemma utf8_char_bytes: "c < 0x110000 \<Longrightarrow> x \<in> set (utf8_char c) \<Longrightarrow> x < 256"
  by (auto simp: utf8_char_def split: if_splits)

lemma utf8_char_ne [simp]: "utf8_char c \<noteq> []"
  by (simp add: utf8_char_def)

lemma utf8_nats_inj:
  "concat (map utf8_char t) = concat (map utf8_char t') \<Longrightarrow>
   list_all valid_uchar t \<Longrightarrow> list_all valid_uchar t' \<Longrightarrow> t = t'"
proof (induction t arbitrary: t')
  case Nil
  then show ?case by (cases t') auto
next
  case (Cons c t)
  then obtain d u where t': "t' = d # u" by (cases t') auto
  with Cons.prems have "c = d \<and> concat (map utf8_char t) = concat (map utf8_char u)"
    by (intro utf8_char_prefix_free) (auto simp: valid_uchar_def)
  with Cons t' show ?case by auto
qed

lemma utf8_inj:
  assumes "utf8 t = utf8 t'" and "list_all valid_uchar t" and "list_all valid_uchar t'"
  shows "t = t'"
proof -
  have small: "x < 256" if "x \<in> set (concat (map utf8_char v))" "list_all valid_uchar v" for x v
    using that by (auto simp: list_all_iff valid_uchar_def dest: utf8_char_bytes)
  have "map unat (utf8 v) = concat (map utf8_char v)" if "list_all valid_uchar v" for v
    unfolding utf8_def map_map
    by (rule map_idI) (use small [OF _ that] in \<open>auto simp: unat_of_nat take_bit_eq_mod\<close>)
  with assms show ?thesis by (metis utf8_nats_inj)
qed

lemma string_bytes_inj: "string_bytes s = string_bytes t \<longleftrightarrow> s = t"
proof -
  have "inj (\<lambda>c. word_of_nat (of_char c) :: byte)"
  proof (rule injI)
    fix c d :: char
    assume "(word_of_nat (of_char c) :: byte) = word_of_nat (of_char d)"
    then have "unat (word_of_nat (of_char c) :: byte) = unat (word_of_nat (of_char d) :: byte)" by simp
    then have "(of_char c :: nat) = of_char d"
      by (simp add: unat_of_nat take_bit_eq_mod)
    then show "c = d" by (metis char_of_char)
  qed
  then show ?thesis unfolding string_bytes_def by (simp add: inj_map_eq_map)
qed

text \<open>A NUL-terminated field can be read back.\<close>

lemma delimited_prefix_eq:
  assumes "xs @ d # r = ys @ d # s" and "d \<notin> set xs" and "d \<notin> set ys"
  shows "xs = ys \<and> r = s"
  using assms
proof (induction xs arbitrary: ys)
  case Nil
  then show ?case by (cases ys) auto
next
  case (Cons x xs)
  then show ?case by (cases ys) auto
qed

end
