(* ===== verification/Core_Language.thy ===== *)
theory Core_Language
  imports LVOS_Prelude
begin

text \<open>
  \<open>crates/core/src/language.rs\<close>: the validated protocol language code. A \<open>LanguageCode\<close> is its
  canonical text; \<open>parse_language_code\<close> is \<open>LanguageCode::parse\<close> and is the only way the code
  makes one. The lemmas show that a parsed code is its own canonical form and that parsing does
  not depend on the letter case of its input.
\<close>

section \<open>ASCII classification of bytes\<close>

definition is_ascii_upper :: "char \<Rightarrow> bool" where
  "is_ascii_upper c = (CHR ''A'' \<le> c \<and> c \<le> CHR ''Z'')"

definition is_ascii_lower :: "char \<Rightarrow> bool" where
  "is_ascii_lower c = (CHR ''a'' \<le> c \<and> c \<le> CHR ''z'')"

definition is_ascii_alphabetic :: "char \<Rightarrow> bool" where
  "is_ascii_alphabetic c = (is_ascii_upper c \<or> is_ascii_lower c)"

definition is_ascii_digit :: "char \<Rightarrow> bool" where
  "is_ascii_digit c = (CHR ''0'' \<le> c \<and> c \<le> CHR ''9'')"

definition is_ascii_alphanumeric :: "char \<Rightarrow> bool" where
  "is_ascii_alphanumeric c = (is_ascii_alphabetic c \<or> is_ascii_digit c)"

definition is_ascii :: "char \<Rightarrow> bool" where
  "is_ascii c = (of_char c < (128::nat))"

definition to_ascii_lower :: "char \<Rightarrow> char" where
  "to_ascii_lower c = (if is_ascii_upper c then char_of (of_char c + 32 :: nat) else c)"

definition to_ascii_upper :: "char \<Rightarrow> char" where
  "to_ascii_upper c = (if is_ascii_lower c then char_of (of_char c - 32 :: nat) else c)"

section \<open>Language codes\<close>

type_synonym language_code = string

datatype language_code_error =
  LangEmpty | LangTooLong | LangInvalidCharacter | LangInvalidPrimarySubtag | LangInvalidSubtag

definition valid_primary_subtag :: "string \<Rightarrow> bool" where
  "valid_primary_subtag p = (2 \<le> length p \<and> length p \<le> 8 \<and> list_all is_ascii_alphabetic p)"

definition valid_subtag :: "string \<Rightarrow> bool" where
  "valid_subtag p = (p \<noteq> [] \<and> length p \<le> 8 \<and> list_all is_ascii_alphanumeric p)"

definition canonical_part :: "nat \<Rightarrow> string \<Rightarrow> string" where
  "canonical_part index part =
     (if index = 0 then map to_ascii_lower part
      else if length part = 2 \<and> list_all is_ascii_alphabetic part then map to_ascii_upper part
      else map to_ascii_lower part)"

definition canonicalize_tag :: "string \<Rightarrow> string" where
  "canonicalize_tag value =
     join_on (CHR ''-'')
       (map (\<lambda>(index, part). canonical_part index part) (enumerate 0 (split_on (CHR ''-'') value)))"

definition parse_language_code :: "string \<Rightarrow> language_code_error + language_code" where
  "parse_language_code value =
     (if value = [] then Inl LangEmpty
      else if length value > 35 then Inl LangTooLong
      else if \<not> list_all is_ascii value then Inl LangInvalidCharacter
      else case split_on (CHR ''-'') value of
        [] \<Rightarrow> Inl LangEmpty
      | primary # parts \<Rightarrow>
          if \<not> valid_primary_subtag primary then Inl LangInvalidPrimarySubtag
          else if \<not> list_all valid_subtag parts then Inl LangInvalidSubtag
          else Inr (canonicalize_tag value))"

section \<open>Letter case\<close>

lemma of_char_lower:
  "(of_char (to_ascii_lower c) :: nat) =
     (if 65 \<le> (of_char c :: nat) \<and> (of_char c :: nat) \<le> 90 then of_char c + 32 else of_char c)"
  by (auto simp: to_ascii_lower_def is_ascii_upper_def less_eq_char_def take_bit_eq_mod)

lemma of_char_upper:
  "(of_char (to_ascii_upper c) :: nat) =
     (if 97 \<le> (of_char c :: nat) \<and> (of_char c :: nat) \<le> 122 then of_char c - 32 else of_char c)"
  by (auto simp: to_ascii_upper_def is_ascii_lower_def less_eq_char_def take_bit_eq_mod)

lemma char_eq_of_char: "c = d \<longleftrightarrow> (of_char c :: nat) = of_char d"
  by (metis char_of_char)

lemmas char_class_defs =
  is_ascii_upper_def is_ascii_lower_def is_ascii_alphabetic_def is_ascii_digit_def
  is_ascii_alphanumeric_def is_ascii_def less_eq_char_def

lemma char_case_facts [simp]:
  "to_ascii_lower (to_ascii_lower c) = to_ascii_lower c"
  "to_ascii_lower (to_ascii_upper c) = to_ascii_lower c"
  "to_ascii_upper (to_ascii_lower c) = to_ascii_upper c"
  "to_ascii_upper (to_ascii_upper c) = to_ascii_upper c"
  "is_ascii_alphabetic (to_ascii_lower c) = is_ascii_alphabetic c"
  "is_ascii_alphabetic (to_ascii_upper c) = is_ascii_alphabetic c"
  "is_ascii_alphanumeric (to_ascii_lower c) = is_ascii_alphanumeric c"
  "is_ascii_alphanumeric (to_ascii_upper c) = is_ascii_alphanumeric c"
  "to_ascii_lower c = CHR ''-'' \<longleftrightarrow> c = CHR ''-''"
  "to_ascii_upper c = CHR ''-'' \<longleftrightarrow> c = CHR ''-''"
  "is_ascii (to_ascii_lower c) = is_ascii c"
  "is_ascii (to_ascii_upper c) = is_ascii c"
  by (auto simp: char_eq_of_char of_char_lower of_char_upper char_class_defs)

lemma list_all_map_case [simp]:
  "list_all is_ascii_alphabetic (map to_ascii_lower s) = list_all is_ascii_alphabetic s"
  "list_all is_ascii_alphabetic (map to_ascii_upper s) = list_all is_ascii_alphabetic s"
  "list_all is_ascii_alphanumeric (map to_ascii_lower s) = list_all is_ascii_alphanumeric s"
  "list_all is_ascii_alphanumeric (map to_ascii_upper s) = list_all is_ascii_alphanumeric s"
  "list_all is_ascii (map to_ascii_lower s) = list_all is_ascii s"
  by (simp_all add: list_all_iff)

section \<open>Canonical form\<close>

lemma length_canonical_part [simp]: "length (canonical_part i p) = length p"
  by (simp add: canonical_part_def)

lemma canonical_part_idem [simp]: "canonical_part i (canonical_part i p) = canonical_part i p"
  by (auto simp: canonical_part_def)

lemma canonical_part_lower [simp]: "canonical_part i (map to_ascii_lower p) = canonical_part i p"
  by (auto simp: canonical_part_def)

lemma canonical_part_no_dash: "CHR ''-'' \<notin> set p \<Longrightarrow> CHR ''-'' \<notin> set (canonical_part i p)"
  by (simp add: canonical_part_def image_iff eq_commute [of "CHR ''-''"])

lemma valid_parts_canonical [simp]:
  "valid_primary_subtag (canonical_part i p) = valid_primary_subtag p"
  "valid_subtag (canonical_part i p) = valid_subtag p"
  by (auto simp: valid_primary_subtag_def valid_subtag_def canonical_part_def)

lemma valid_parts_lower [simp]:
  "valid_primary_subtag (map to_ascii_lower p) = valid_primary_subtag p"
  "valid_subtag (map to_ascii_lower p) = valid_subtag p"
  by (auto simp: valid_primary_subtag_def valid_subtag_def)

definition canonical_parts :: "string list \<Rightarrow> string list" where
  "canonical_parts ps = map (\<lambda>(index, part). canonical_part index part) (enumerate 0 ps)"

lemma nth_canonical_parts [simp]:
  "i < length ps \<Longrightarrow> canonical_parts ps ! i = canonical_part i (ps ! i)"
  by (simp add: canonical_parts_def nth_enumerate_eq)

lemma length_canonical_parts [simp]: "length (canonical_parts ps) = length ps"
  by (simp add: canonical_parts_def)

lemma canonical_parts_idem [simp]: "canonical_parts (canonical_parts ps) = canonical_parts ps"
  by (rule nth_equalityI) auto

lemma canonical_parts_lower [simp]:
  "canonical_parts (map (map to_ascii_lower) ps) = canonical_parts ps"
  by (rule nth_equalityI) auto

lemma canonical_parts_Cons:
  "\<exists>qs. canonical_parts (p # ps) = canonical_part 0 p # qs
     \<and> list_all valid_subtag qs = list_all valid_subtag ps \<and> length qs = length ps"
proof -
  obtain q qs where eq: "canonical_parts (p # ps) = q # qs"
    by (cases "canonical_parts (p # ps)") (auto simp: canonical_parts_def)
  have len: "length qs = length ps" using arg_cong [OF eq, of length] by simp
  have q: "q = canonical_part 0 p"
    using nth_canonical_parts [of 0 "p # ps"] by (simp add: eq)
  have nth: "qs ! i = canonical_part (Suc i) (ps ! i)" if "i < length ps" for i
    using nth_canonical_parts [of "Suc i" "p # ps"] that by (simp add: eq)
  have "list_all valid_subtag qs = list_all valid_subtag ps"
    by (auto simp: list_all_length len nth)
  with eq q len show ?thesis by blast
qed

lemma split_canonicalize_tag:
  "split_on (CHR ''-'') (canonicalize_tag value) = canonical_parts (split_on (CHR ''-'') value)"
proof -
  let ?ps = "split_on (CHR ''-'') value"
  have "CHR ''-'' \<notin> set p" if "p \<in> set (canonical_parts ?ps)" for p
  proof -
    from that obtain i where "i < length ?ps" "p = canonical_part i (?ps ! i)"
      by (metis in_set_conv_nth length_canonical_parts nth_canonical_parts)
    then show ?thesis by (metis canonical_part_no_dash nth_mem split_on_no_delim)
  qed
  moreover have "canonical_parts ?ps \<noteq> []"
    by (metis length_0_conv length_canonical_parts split_on_ne)
  ultimately show ?thesis
    by (simp add: canonicalize_tag_def canonical_parts_def [symmetric] split_join_on)
qed

lemma canonicalize_tag_join:
  "canonicalize_tag value = join_on (CHR ''-'') (canonical_parts (split_on (CHR ''-'') value))"
  by (simp add: canonicalize_tag_def canonical_parts_def)

lemma canonicalize_tag_idem: "canonicalize_tag (canonicalize_tag value) = canonicalize_tag value"
  by (simp add: canonicalize_tag_join [of "canonicalize_tag value"] split_canonicalize_tag)
     (simp add: canonicalize_tag_join)

lemma map_lower_join_on:
  "map to_ascii_lower (join_on (CHR ''-'') ps) = join_on (CHR ''-'') (map (map to_ascii_lower) ps)"
  by (induction "CHR ''-''" ps rule: join_on.induct) auto

lemma lower_canonical_part: "map to_ascii_lower (canonical_part i p) = map to_ascii_lower p"
  by (simp add: canonical_part_def)

lemma lower_canonicalize_tag: "map to_ascii_lower (canonicalize_tag v) = map to_ascii_lower v"
proof -
  have "map (map to_ascii_lower) (canonical_parts ps) = map (map to_ascii_lower) ps" for ps
    by (rule nth_equalityI) (auto simp: lower_canonical_part)
  then show ?thesis
    by (simp add: canonicalize_tag_join map_lower_join_on)
       (metis join_split_on map_lower_join_on)
qed

lemma length_canonicalize_tag [simp]: "length (canonicalize_tag v) = length v"
  by (metis length_map lower_canonicalize_tag)

lemma ascii_canonicalize_tag [simp]: "list_all is_ascii (canonicalize_tag v) = list_all is_ascii v"
  by (metis list_all_map_case(5) lower_canonicalize_tag)

lemma parse_language_code_Inr:
  "parse_language_code v = Inr c \<longleftrightarrow>
     v \<noteq> [] \<and> length v \<le> 35 \<and> list_all is_ascii v \<and> c = canonicalize_tag v \<and>
     (\<exists>p ps. split_on (CHR ''-'') v = p # ps \<and> valid_primary_subtag p \<and> list_all valid_subtag ps)"
  by (auto simp: parse_language_code_def split: list.splits if_splits)

lemma canonicalize_lower: "canonicalize_tag (map to_ascii_lower v) = canonicalize_tag v"
  by (simp add: canonicalize_tag_join map_split_on)

lemma parse_language_code_lower: "parse_language_code (map to_ascii_lower v) = parse_language_code v"
proof -
  have "split_on (CHR ''-'') (map to_ascii_lower v)
      = map (map to_ascii_lower) (split_on (CHR ''-'') v)"
    by (simp add: map_split_on)
  then show ?thesis
    by (auto simp: parse_language_code_def canonicalize_lower list.pred_map comp_def
        split: list.splits)
qed

lemma parse_language_code_stable:
  assumes "parse_language_code v = Inr c"
  shows "parse_language_code c = Inr c"
proof -
  from assms have "c = canonicalize_tag v" by (simp add: parse_language_code_Inr)
  then have "map to_ascii_lower c = map to_ascii_lower v" by (simp add: lower_canonicalize_tag)
  then have "parse_language_code c = parse_language_code v"
    by (metis parse_language_code_lower)
  with assms show ?thesis by simp
qed

text \<open>The bytes of a code: letters, digits and hyphens, so never the NUL that separates the
  fields of a Content identity.\<close>

lemma parsed_language_chars:
  assumes "parse_language_code v = Inr c" and "x \<in> set c"
  shows "is_ascii_alphanumeric x \<or> x = CHR ''-''"
proof -
  from parse_language_code_stable [OF assms(1)] obtain p ps
    where sp: "split_on (CHR ''-'') c = p # ps" and "valid_primary_subtag p" "list_all valid_subtag ps"
    by (auto simp: parse_language_code_Inr)
  then have all: "list_all is_ascii_alphanumeric q" if "q \<in> set (p # ps)" for q
    using that by (auto simp: valid_primary_subtag_def valid_subtag_def list_all_iff
        is_ascii_alphanumeric_def)
  have "set (join_on d qs) \<subseteq> insert d (\<Union> (set ` set qs))" for d :: char and qs
    by (induction d qs rule: join_on.induct) auto
  from this [of "CHR ''-''" "p # ps"] assms(2) have "x = CHR ''-'' \<or> (\<exists>q \<in> set (p # ps). x \<in> set q)"
    using join_split_on [of "CHR ''-''" c] unfolding sp by auto
  with all show ?thesis by (auto simp: list_all_iff)
qed

section \<open>Properties\<close>

text \<open>
  Parsing is idempotent and case-insensitive: a \<open>LanguageCode\<close> obtained from any spelling is
  accepted again and unchanged, and every spelling that differs from it in ASCII letter case only
  parses to the same code.
\<close>

theorem language_code_canonical:
  assumes "parse_language_code v = Inr c"
  shows "parse_language_code c = Inr c
    \<and> (map to_ascii_lower w = map to_ascii_lower v \<longrightarrow> parse_language_code w = Inr c)
    \<and> 2 \<le> length c \<and> length c \<le> 35"
proof -
  have "2 \<le> length v" if "split_on (CHR ''-'') v = p # ps" "valid_primary_subtag p" for p ps
  proof -
    have "length (join_on d (q # qs)) \<ge> length q" for d :: char and q qs
      by (cases qs) auto
    then have "length v \<ge> length p" by (metis join_split_on that(1))
    with that(2) show ?thesis by (auto simp: valid_primary_subtag_def)
  qed
  then have "2 \<le> length c" "length c \<le> 35"
    using assms by (auto simp: parse_language_code_Inr)
  moreover have "parse_language_code w = Inr c" if "map to_ascii_lower w = map to_ascii_lower v"
    using that assms by (metis parse_language_code_lower)
  ultimately show ?thesis using parse_language_code_stable [OF assms] by blast
qed

theorem language_code_canonical_witness:
  "parse_language_code ''zh-cn'' = Inr ''zh-CN'' \<and> parse_language_code ''ZH-Cn'' = Inr ''zh-CN''"
proof -
  have h: "parse_language_code ''zh-cn'' = Inr ''zh-CN''" by code_simp
  have "map to_ascii_lower ''ZH-Cn'' = map to_ascii_lower ''zh-cn''" by code_simp
  with language_code_canonical [OF h, of "''ZH-Cn''"] h show ?thesis by simp
qed

end
