(* ===== verification/Core_Content.thy ===== *)
theory Core_Content
  imports Core_Language
begin

unbundle bit_operations_syntax

text \<open>
  \<open>crates/core/src/content.rs\<close>: the validation, classification and canonicalization of captured
  text, and the Content key that identifies it everywhere in the system. The Unicode tables and
  algorithms (\<open>unicode_script\<close>, \<open>unicode_normalization\<close>, \<open>unicode_casefold\<close> and the general
  categories behind \<open>char::is_alphabetic\<close>) and SHA-256 (\<open>sha2\<close>) are code outside the repository:
  they are the parameters \<open>u\<close> (a \<open>unicode_db\<close>) and \<open>sha\<close> of the definitions that use them.
\<close>

section \<open>Characters\<close>

record unicode_db =
  ud_alphabetic :: "uchar \<Rightarrow> bool"
  ud_numeric :: "uchar \<Rightarrow> bool"
  ud_combining_mark :: "uchar \<Rightarrow> bool"
  ud_latin_script :: "uchar \<Rightarrow> bool"
  ud_nfc :: "utext \<Rightarrow> utext"
  ud_case_fold :: "utext \<Rightarrow> utext"

type_synonym sha256 = "byte list \<Rightarrow> byte list"

text \<open>\<open>char::is_control\<close> (category Cc) and \<open>char::is_whitespace\<close> (White_Space).\<close>

definition is_control :: "uchar \<Rightarrow> bool" where
  "is_control c = (c < 32 \<or> (127 \<le> c \<and> c < 160))"

definition is_whitespace :: "uchar \<Rightarrow> bool" where
  "is_whitespace c =
     ((9 \<le> c \<and> c \<le> 13) \<or> c = 32 \<or> c = 133 \<or> c = 160 \<or> c = 5760 \<or> (8192 \<le> c \<and> c \<le> 8202)
      \<or> c = 8232 \<or> c = 8233 \<or> c = 8239 \<or> c = 8287 \<or> c = 12288)"

definition is_alphanumeric :: "unicode_db \<Rightarrow> uchar \<Rightarrow> bool" where
  "is_alphanumeric u c = (ud_alphabetic u c \<or> ud_numeric u c)"

text \<open>\<open>str::trim\<close>, \<open>str::trim_end_matches\<close> and \<open>str::split_whitespace\<close>.\<close>

definition trim_end_matches :: "(uchar \<Rightarrow> bool) \<Rightarrow> utext \<Rightarrow> utext" where
  "trim_end_matches P v = rev (dropWhile P (rev v))"

definition trim :: "utext \<Rightarrow> utext" where
  "trim v = trim_end_matches is_whitespace (dropWhile is_whitespace v)"

fun split_by :: "('a \<Rightarrow> bool) \<Rightarrow> 'a list \<Rightarrow> 'a list list" where
  "split_by P [] = [[]]"
| "split_by P (x # xs) =
     (if P x then [] # split_by P xs
      else (case split_by P xs of [] \<Rightarrow> [[x]] | p # ps \<Rightarrow> (x # p) # ps))"

definition split_whitespace :: "utext \<Rightarrow> utext list" where
  "split_whitespace v = filter (\<lambda>p. p \<noteq> []) (split_by is_whitespace v)"

section \<open>Content values\<close>

datatype text_kind = Word | Text

fun protocol_name :: "text_kind \<Rightarrow> string" where
  "protocol_name Word = ''word''"
| "protocol_name Text = ''text''"

type_synonym content_key = "byte list"

record canonical_content =
  cc_key_version :: u32
  cc_normalization_version :: u32
  cc_kind :: text_kind
  cc_source_lang :: language_code
  cc_text :: utext

record prepared_content =
  pc_source_text :: utext
  pc_canonical :: canonical_content
  pc_content_key :: content_key

datatype validation_error = VEmpty | VTooLong usize | VNoLatinText

definition content_key_version :: u32 where
  "content_key_version = 1"

definition normalization_version :: u32 where
  "normalization_version = 1"

text \<open>Decimal rendering of an unsigned integer (\<open>u32::to_string\<close>).\<close>

fun decimal :: "nat \<Rightarrow> string" where
  "decimal n =
     (if n < 10 then [char_of (48 + n)] else decimal (n div 10) @ [char_of (48 + n mod 10)])"

declare decimal.simps [simp del]

definition key_preimage :: "canonical_content \<Rightarrow> byte list" where
  "key_preimage c =
     string_bytes (decimal (cc_key_version c)) @ [0] @
     string_bytes (protocol_name (cc_kind c)) @ [0] @
     string_bytes (cc_source_lang c) @ [0] @
     utf8 (cc_text c)"

definition canonical_content_key :: "sha256 \<Rightarrow> canonical_content \<Rightarrow> content_key" where
  "canonical_content_key sha c = sha (key_preimage c)"

section \<open>Hexadecimal form of a Content key\<close>

datatype content_key_parse_error = InvalidLength | InvalidHex

definition hex_digit :: "nat \<Rightarrow> char" where
  "hex_digit n = (if n < 10 then char_of (48 + n) else char_of (87 + n))"

definition hex_byte :: "byte \<Rightarrow> string" where
  "hex_byte b = [hex_digit (unat b div 16), hex_digit (unat b mod 16)]"

definition to_hex :: "content_key \<Rightarrow> string" where
  "to_hex k = concat (map hex_byte k)"

definition decode_hex :: "char \<Rightarrow> content_key_parse_error + byte" where
  "decode_hex c =
     (let n = (of_char c :: nat) in
      if 48 \<le> n \<and> n \<le> 57 then Inr (word_of_nat (n - 48))
      else if 97 \<le> n \<and> n \<le> 102 then Inr (word_of_nat (n - 97 + 10))
      else Inl InvalidHex)"

fun decode_pairs :: "string \<Rightarrow> content_key_parse_error + byte list" where
  "decode_pairs (a # b # rest) =
     rbind (decode_hex a) (\<lambda>hi. rbind (decode_hex b) (\<lambda>lo.
       rbind (decode_pairs rest) (\<lambda>bs. Inr ((push_bit 4 hi OR lo) # bs))))"
| "decode_pairs _ = Inr []"

definition content_key_from_str :: "string \<Rightarrow> content_key_parse_error + content_key" where
  "content_key_from_str value =
     (if length value \<noteq> 64 then Inl InvalidLength else decode_pairs value)"

section \<open>Preparing captured text\<close>

definition clean_control_characters :: "utext \<Rightarrow> utext" where
  "clean_control_characters value = filter (\<lambda>c. \<not> is_control c \<or> is_whitespace c) value"

text \<open>The characters \<open>. , ! ? : ;\<close>, and \<open>-\<close>, the apostrophe and the right single quotation mark.\<close>

definition is_terminal_punctuation :: "uchar \<Rightarrow> bool" where
  "is_terminal_punctuation c = (c \<in> {46, 44, 33, 63, 58, 59})"

definition trim_terminal_word_punctuation :: "utext \<Rightarrow> utext" where
  "trim_terminal_word_punctuation value = trim_end_matches is_terminal_punctuation value"

definition is_word_character :: "unicode_db \<Rightarrow> uchar \<Rightarrow> bool" where
  "is_word_character u c =
     (is_alphanumeric u c \<or> ud_combining_mark u c \<or> c \<in> {45, 39, 8217})"

definition classify :: "unicode_db \<Rightarrow> utext \<Rightarrow> text_kind" where
  "classify u value =
     (let token = trim_terminal_word_punctuation value in
      if token \<noteq> [] \<and> list_ex (ud_alphabetic u) token \<and> list_all (is_word_character u) token
      then Word else Text)"

definition collapse_whitespace :: "utext \<Rightarrow> utext" where
  "collapse_whitespace value = join_on 32 (split_whitespace value)"

definition canonicalize :: "unicode_db \<Rightarrow> utext \<Rightarrow> text_kind \<Rightarrow> utext" where
  "canonicalize u value kind =
     (case kind of
        Word \<Rightarrow> ud_nfc u (ud_case_fold u (ud_nfc u
                 (collapse_whitespace (trim (trim_terminal_word_punctuation value)))))
      | Text \<Rightarrow> ud_nfc u (collapse_whitespace value))"

definition prepare_content ::
  "unicode_db \<Rightarrow> sha256 \<Rightarrow> utext \<Rightarrow> language_code \<Rightarrow> usize \<Rightarrow> validation_error + prepared_content" where
  "prepare_content u sha raw_text source_lang max_characters =
     (let source_text = trim (clean_control_characters raw_text) in
      if source_text = [] then Inl VEmpty
      else if length source_text > max_characters then Inl (VTooLong max_characters)
      else if \<not> list_ex (\<lambda>c. ud_latin_script u c \<and> ud_alphabetic u c) source_text then Inl VNoLatinText
      else
        let kind = classify u source_text;
            canonical = \<lparr>cc_key_version = content_key_version,
                         cc_normalization_version = normalization_version,
                         cc_kind = kind, cc_source_lang = source_lang,
                         cc_text = canonicalize u source_text kind\<rparr>
        in Inr \<lparr>pc_source_text = source_text, pc_canonical = canonical,
                pc_content_key = canonical_content_key sha canonical\<rparr>)"

section \<open>Hexadecimal codec\<close>

lemma unat_byte_of_nat: "m < 256 \<Longrightarrow> unat (word_of_nat m :: byte) = m"
  by (simp add: unat_of_nat take_bit_eq_mod)

lemma decode_hex_digit: "n < 16 \<Longrightarrow> decode_hex (hex_digit n) = Inr (word_of_nat n)"
  by (auto simp: decode_hex_def hex_digit_def Let_def take_bit_eq_mod)

lemma hex_digit_decode:
  assumes "decode_hex c = Inr v"
  shows "unat v < 16 \<and> hex_digit (unat v) = c"
proof -
  let ?n = "of_char c :: nat"
  have c: "char_of ?n = c" by simp
  from assms consider "48 \<le> ?n" "?n \<le> 57" "v = word_of_nat (?n - 48)"
    | "97 \<le> ?n" "?n \<le> 102" "v = word_of_nat (?n - 97 + 10)"
    unfolding decode_hex_def Let_def by (metis sum.distinct(1) sum.inject(2))
  then show ?thesis
  proof cases
    case 1
    then have "?n - 48 < 256" by linarith
    then have "unat v = ?n - 48" by (simp only: 1(3) unat_byte_of_nat)
    moreover have "?n - 48 < 10" "48 + (?n - 48) = ?n" using 1 by linarith+
    ultimately show ?thesis by (simp add: hex_digit_def c)
  next
    case 2
    then have "?n - 97 + 10 < 256" by linarith
    then have "unat v = ?n - 97 + 10" by (simp only: 2(3) unat_byte_of_nat)
    moreover have "?n - 97 + 10 < 16" "\<not> ?n - 97 + 10 < 10" "87 + (?n - 97 + 10) = ?n"
      using 2 by linarith+
    ultimately show ?thesis by (simp only: hex_digit_def c if_False)
  qed
qed

lemma nibbles_join_enum:
  "\<forall>a \<in> set [0..<16]. \<forall>b \<in> set [0..<16].
     unat (push_bit 4 (word_of_nat a :: byte) OR word_of_nat b) = 16 * a + b"
  by code_simp

lemma nibbles_join:
  "a < 16 \<Longrightarrow> b < 16 \<Longrightarrow> unat (push_bit 4 (word_of_nat a :: byte) OR word_of_nat b) = 16 * a + b"
  using nibbles_join_enum by simp

lemma unat_byte_less: "unat (b :: byte) < 256"
  using unsigned_less [of b] by simp

lemma byte_of_nibbles: "push_bit 4 (word_of_nat (unat b div 16) :: byte) OR word_of_nat (unat b mod 16) = b"
proof -
  have "unat b div 16 < 16" using unat_byte_less [of b] by simp
  then have "unat (push_bit 4 (word_of_nat (unat b div 16) :: byte) OR word_of_nat (unat b mod 16))
      = unat b"
    by (simp add: nibbles_join)
  then show ?thesis by (simp add: word_unat_eq_iff)
qed

lemma decode_hex_byte: "decode_pairs (hex_byte b @ s) = rbind (decode_pairs s) (\<lambda>bs. Inr (b # bs))"
proof -
  have "unat b div 16 < 16" using unat_byte_less [of b] by simp
  then show ?thesis by (simp add: hex_byte_def decode_hex_digit byte_of_nibbles)
qed

lemma length_to_hex [simp]: "length (to_hex k) = 2 * length k"
  by (induction k) (auto simp: to_hex_def hex_byte_def)

lemma decode_to_hex [simp]: "decode_pairs (to_hex k) = Inr k"
proof (induction k)
  case Nil
  then show ?case by (simp add: to_hex_def)
next
  case (Cons b k)
  then show ?case by (simp add: to_hex_def decode_hex_byte)
qed

lemma to_hex_decode:
  "decode_pairs s = Inr k \<Longrightarrow> even (length s) \<Longrightarrow> to_hex k = s \<and> 2 * length k = length s"
proof (induction s arbitrary: k rule: decode_pairs.induct)
  case (1 a b rest)
  then obtain hi lo bs where d: "decode_hex a = Inr hi" "decode_hex b = Inr lo"
      "decode_pairs rest = Inr bs" and k: "k = (push_bit 4 hi OR lo) # bs"
    by (auto simp: res_simps)
  from d(1,2) have n: "unat hi < 16" "unat lo < 16" "hex_digit (unat hi) = a" "hex_digit (unat lo) = b"
    by (auto dest: hex_digit_decode)
  have "unat (push_bit 4 hi OR lo) = 16 * unat hi + unat lo"
    using nibbles_join [OF n(1,2)] by simp
  then have "hex_byte (push_bit 4 hi OR lo) = [a, b]" using n by (simp add: hex_byte_def)
  moreover have "to_hex bs = rest \<and> 2 * length bs = length rest"
    using "1.IH" [OF d(1,2) d(3)] "1.prems"(2) by simp
  ultimately show ?case by (simp add: k to_hex_def)
qed (auto simp: to_hex_def)

lemma content_key_from_str_to_hex [simp]:
  "length k = 32 \<Longrightarrow> content_key_from_str (to_hex k) = Inr k"
  by (simp add: content_key_from_str_def)

lemma content_key_from_str_Inr:
  "content_key_from_str s = Inr k \<longleftrightarrow> length k = 32 \<and> s = to_hex k"
  using to_hex_decode [of s k] by (auto simp: content_key_from_str_def split: if_splits)

lemma to_hex_inj: "to_hex k = to_hex k' \<Longrightarrow> k = k'"
  by (metis decode_to_hex sum.inject(2))

section \<open>Whitespace\<close>

lemma split_by_ne [simp]: "split_by P xs \<noteq> []"
  by (cases xs) (auto split: list.splits)

lemma split_by_append_sep: "P x \<Longrightarrow> split_by P (a @ x # b) = split_by P a @ split_by P b"
proof (induction a)
  case Nil
  then show ?case by simp
next
  case (Cons y a)
  obtain q ps where "split_by P a = q # ps" by (cases "split_by P a") auto
  with Cons show ?case by auto
qed

lemma split_by_none: "\<not> list_ex P xs \<Longrightarrow> split_by P xs = [xs]"
  by (induction xs) auto

lemma words_append_ws:
  "is_whitespace x \<Longrightarrow> split_whitespace (a @ x # b) = split_whitespace a @ split_whitespace b"
  by (simp add: split_whitespace_def split_by_append_sep)

lemma words_Nil [simp]: "split_whitespace [] = []"
  by (simp add: split_whitespace_def)

lemma words_no_ws: "\<not> list_ex is_whitespace s \<Longrightarrow> s \<noteq> [] \<Longrightarrow> split_whitespace s = [s]"
  by (simp add: split_whitespace_def split_by_none)

lemma words_dropWhile [simp]: "split_whitespace (dropWhile is_whitespace v) = split_whitespace v"
proof (induction v)
  case (Cons x v)
  then show ?case using words_append_ws [of x "[]" v] by auto
qed simp

lemma words_trim_end [simp]: "split_whitespace (trim_end_matches is_whitespace v) = split_whitespace v"
proof (induction v rule: rev_induct)
  case (snoc x v)
  then show ?case using words_append_ws [of x v "[]"] by (auto simp: trim_end_matches_def)
qed (simp add: trim_end_matches_def)

lemma words_trim [simp]: "split_whitespace (trim v) = split_whitespace v"
  by (simp add: trim_def)

lemma words_nonempty: "x \<in> set s \<Longrightarrow> \<not> is_whitespace x \<Longrightarrow> split_whitespace s \<noteq> []"
proof (induction "length s" arbitrary: s rule: less_induct)
  case less
  show ?case
  proof (cases "list_ex is_whitespace s")
    case False
    with less.prems show ?thesis by (cases s) (auto simp: words_no_ws)
  next
    case True
    then obtain y where "y \<in> set s" "is_whitespace y" by (auto simp: list_ex_iff)
    then obtain a b where s: "s = a @ y # b" by (meson split_list)
    with less.prems \<open>is_whitespace y\<close> have "x \<in> set a \<or> x \<in> set b" by auto
    then have "split_whitespace a \<noteq> [] \<or> split_whitespace b \<noteq> []"
      using less.hyps [of a] less.hyps [of b] less.prems(2) by (auto simp: s)
    with \<open>is_whitespace y\<close> show ?thesis by (auto simp: s words_append_ws)
  qed
qed

lemma hd_trim: "trim v \<noteq> [] \<Longrightarrow> \<not> is_whitespace (hd (trim v))"
proof -
  assume ne: "trim v \<noteq> []"
  let ?w = "dropWhile is_whitespace v"
  obtain ys where w: "?w = trim v @ ys"
    unfolding trim_def trim_end_matches_def
    by (metis rev_append rev_rev_ident takeWhile_dropWhile_id)
  with ne have "hd (trim v) = hd ?w" by simp
  moreover have "?w \<noteq> []" using w ne by simp
  ultimately show ?thesis using hd_dropWhile by metis
qed

lemma last_trim: "trim v \<noteq> [] \<Longrightarrow> \<not> is_whitespace (last (trim v))"
  unfolding trim_def trim_end_matches_def by (metis hd_dropWhile last_rev rev.simps(1))

lemma trimmed_words_two:
  assumes "s = trim v" and "list_ex is_whitespace s"
  shows "2 \<le> length (split_whitespace s)"
proof -
  from assms(2) obtain y where y: "y \<in> set s" "is_whitespace y" by (auto simp: list_ex_iff)
  then obtain a b where s: "s = a @ y # b" by (meson split_list)
  have ne: "s \<noteq> []" using y by auto
  have "a \<noteq> []" using hd_trim [of v] ne y(2) s assms(1) by (metis append_Nil list.sel(1))
  then have "hd s \<in> set a" using s by simp
  then have "split_whitespace a \<noteq> []" using hd_trim [of v] ne assms(1) words_nonempty by metis
  moreover have "b \<noteq> []"
    using last_trim [of v] ne y(2) s assms(1) by (metis last_snoc)
  then have "last s \<in> set b" using s by simp
  then have "split_whitespace b \<noteq> []" using last_trim [of v] ne assms(1) words_nonempty by metis
  ultimately have "1 \<le> length (split_whitespace a)" "1 \<le> length (split_whitespace b)"
    by (simp_all add: Suc_leI)
  then show ?thesis by (simp add: s words_append_ws y(2))
qed

lemma trimmed_single_word:
  assumes "s = trim v" and "split_whitespace s = [w]"
  shows "s = w"
proof -
  have "\<not> list_ex is_whitespace s" using trimmed_words_two [OF assms(1)] assms(2) by auto
  moreover have "s \<noteq> []" using assms(2) by auto
  ultimately have "split_whitespace s = [s]" by (rule words_no_ws)
  with assms(2) show ?thesis by simp
qed

text \<open>The word/text classification looks at the words only: text with inner whitespace is never
  a \<open>Word\<close>. This uses that no whitespace character is a letter, a number or a combining mark.\<close>

definition whitespace_not_word :: "unicode_db \<Rightarrow> bool" where
  "whitespace_not_word u \<longleftrightarrow>
     (\<forall>c. is_whitespace c \<longrightarrow> \<not> ud_alphabetic u c \<and> \<not> ud_numeric u c \<and> \<not> ud_combining_mark u c)"

lemma whitespace_word_character:
  "whitespace_not_word u \<Longrightarrow> is_whitespace c \<Longrightarrow> \<not> is_word_character u c"
  by (auto simp: whitespace_not_word_def is_word_character_def is_alphanumeric_def)
     (auto simp: is_whitespace_def)

lemma set_trim_end_matches: "x \<in> set v \<Longrightarrow> \<not> P x \<Longrightarrow> x \<in> set (trim_end_matches P v)"
proof (induction v rule: rev_induct)
  case (snoc y v)
  then show ?case by (auto simp: trim_end_matches_def)
qed simp

lemma whitespace_not_punctuation: "is_whitespace c \<Longrightarrow> \<not> is_terminal_punctuation c"
  by (auto simp: is_whitespace_def is_terminal_punctuation_def)

lemma classify_whitespace:
  assumes "whitespace_not_word u" and "list_ex is_whitespace s"
  shows "classify u s = Text"
proof -
  from assms(2) obtain c where c: "c \<in> set s" "is_whitespace c" by (auto simp: list_ex_iff)
  then have "c \<in> set (trim_terminal_word_punctuation s)"
    unfolding trim_terminal_word_punctuation_def
    by (intro set_trim_end_matches whitespace_not_punctuation)
  moreover have "\<not> is_word_character u c" using assms(1) c(2) by (rule whitespace_word_character)
  ultimately show ?thesis by (auto simp: classify_def Let_def list_all_iff)
qed

lemma same_words_cases:
  assumes "s = trim v" and "t = trim w" and "split_whitespace s = split_whitespace t" and "s \<noteq> []"
    and "t \<noteq> []"
  shows "s = t \<or> (list_ex is_whitespace s \<and> list_ex is_whitespace t)"
proof (cases "list_ex is_whitespace s")
  case True
  have "list_ex is_whitespace t"
  proof (rule ccontr)
    assume "\<not> list_ex is_whitespace t"
    then have "split_whitespace t = [t]" using assms(5) by (rule words_no_ws)
    with trimmed_words_two [OF assms(1) True] assms(3) show False by simp
  qed
  with True show ?thesis by simp
next
  case False
  then have "split_whitespace t = [s]" using assms(3,4) by (simp add: words_no_ws)
  then have "t = s" using assms(2) by (rule trimmed_single_word [rotated])
  then show ?thesis by simp
qed

section \<open>Identity\<close>

lemma decimal_digits: "x \<in> set (decimal n) \<Longrightarrow> is_ascii_digit x"
proof (induction n rule: decimal.induct)
  case (1 n)
  have d: "is_ascii_digit (char_of (48 + m))" if "m < 10" for m :: nat
    using that by (simp add: is_ascii_digit_def less_eq_char_def take_bit_eq_mod)
  show ?case
    using "1.prems" "1.IH" d [of n] d [of "n mod 10"]
    by (subst (asm) decimal.simps) (auto split: if_splits)
qed

fun undecimal :: "string \<Rightarrow> nat" where
  "undecimal [] = 0"
| "undecimal (c # s) = (of_char c - 48) * 10 ^ length s + undecimal s"

lemma undecimal_append: "undecimal (s @ [c]) = undecimal s * 10 + (of_char c - 48)"
  by (induction s) (auto simp: algebra_simps)

lemma undecimal_decimal [simp]: "undecimal (decimal n) = n"
proof (induction n rule: decimal.induct)
  case (1 n)
  have d: "(of_char (char_of (48 + m) :: char) :: nat) = 48 + m" if "m < 10" for m :: nat
    using that by (simp add: take_bit_eq_mod)
  show ?case
    using "1.IH" d [of n] d [of "n mod 10"]
    by (subst decimal.simps) (auto simp: undecimal_append)
qed

lemma decimal_inj: "decimal m = decimal n \<longleftrightarrow> m = n"
  by (metis undecimal_decimal)

lemma string_bytes_no_nul: "CHR 0x00 \<notin> set s \<Longrightarrow> 0 \<notin> set (string_bytes s)"
proof
  assume nul: "CHR 0x00 \<notin> set s" and "0 \<in> set (string_bytes s)"
  then obtain c where c: "c \<in> set s" "(word_of_nat (of_char c) :: byte) = 0"
    by (auto simp: string_bytes_def)
  then have "string_bytes [c] = string_bytes [CHR 0x00]" by (simp add: string_bytes_def)
  then have "c = CHR 0x00" by (simp add: string_bytes_inj)
  with c nul show False by simp
qed

lemma alnum_not_nul: "is_ascii_alphanumeric c \<Longrightarrow> c \<noteq> CHR 0x00"
  by (auto simp: char_class_defs)

lemma protocol_name_inj [simp]: "protocol_name k = protocol_name k' \<longleftrightarrow> k = k'"
  by (cases k; cases k') auto

lemma fields_no_nul:
  "0 \<notin> set (string_bytes (decimal n))" "0 \<notin> set (string_bytes (protocol_name k))"
  "parse_language_code v = Inr l \<Longrightarrow> 0 \<notin> set (string_bytes l)"
proof -
  show "0 \<notin> set (string_bytes (decimal n))"
    by (rule string_bytes_no_nul) (auto dest!: decimal_digits simp: is_ascii_digit_def less_eq_char_def)
  show "0 \<notin> set (string_bytes (protocol_name k))"
    by (rule string_bytes_no_nul) (cases k; simp)
  show "0 \<notin> set (string_bytes l)" if "parse_language_code v = Inr l"
    by (rule string_bytes_no_nul) (auto dest!: parsed_language_chars [OF that] alnum_not_nul)
qed

section \<open>Properties\<close>

text \<open>
  The hexadecimal form of a Content key determines it and is the only accepted spelling:
  \<open>from_str\<close> accepts exactly the lowercase 64-character renderings of 32-byte keys and returns the
  key that renders so.
\<close>

theorem content_key_hex_codec:
  "content_key_from_str s = Inr k \<longleftrightarrow> length k = 32 \<and> s = to_hex k"
  by (rule content_key_from_str_Inr)

text \<open>
  The byte string that is hashed into a Content key encodes the identity without ambiguity: for
  validated languages and well-formed text, two contents hash the same bytes exactly when key version,
  kind, source language and canonical text agree.
\<close>

lemma key_preimage_injective:
  assumes "parse_language_code v = Inr (cc_source_lang c)"
    and "parse_language_code w = Inr (cc_source_lang d)"
    and "list_all valid_uchar (cc_text c)" and "list_all valid_uchar (cc_text d)"
  shows "key_preimage c = key_preimage d \<longleftrightarrow>
    cc_key_version c = cc_key_version d \<and> cc_kind c = cc_kind d \<and>
    cc_source_lang c = cc_source_lang d \<and> cc_text c = cc_text d"
proof
  note nul = fields_no_nul(1,2) fields_no_nul(3) [OF assms(1)] fields_no_nul(3) [OF assms(2)]
  assume eq: "key_preimage c = key_preimage d"
  then have 1: "string_bytes (decimal (cc_key_version c)) = string_bytes (decimal (cc_key_version d))"
    and r1: "string_bytes (protocol_name (cc_kind c)) @ 0 # string_bytes (cc_source_lang c) @ 0 # utf8 (cc_text c)
      = string_bytes (protocol_name (cc_kind d)) @ 0 # string_bytes (cc_source_lang d) @ 0 # utf8 (cc_text d)"
    using delimited_prefix_eq [OF _ nul(1) nul(1)] by (auto simp: key_preimage_def)
  from r1 have 2: "string_bytes (protocol_name (cc_kind c)) = string_bytes (protocol_name (cc_kind d))"
    and r2: "string_bytes (cc_source_lang c) @ 0 # utf8 (cc_text c)
      = string_bytes (cc_source_lang d) @ 0 # utf8 (cc_text d)"
    using delimited_prefix_eq [OF _ nul(2) nul(2)] by auto
  from r2 have 3: "string_bytes (cc_source_lang c) = string_bytes (cc_source_lang d)"
    and 4: "utf8 (cc_text c) = utf8 (cc_text d)"
    using delimited_prefix_eq [OF _ nul(3,4)] by auto
  from 1 2 3 utf8_inj [OF 4 assms(3,4)]
  show "cc_key_version c = cc_key_version d \<and> cc_kind c = cc_kind d \<and>
    cc_source_lang c = cc_source_lang d \<and> cc_text c = cc_text d"
    by (simp add: string_bytes_inj decimal_inj)
qed (simp add: key_preimage_def)

text \<open>
  Preparing keeps text well formed: it only drops characters and puts in blanks, and normalization and
  case folding map well-formed text to well-formed text.
\<close>

definition unicode_text :: "unicode_db \<Rightarrow> bool" where
  "unicode_text u \<longleftrightarrow> (\<forall>t. list_all valid_uchar t \<longrightarrow>
     list_all valid_uchar (ud_nfc u t) \<and> list_all valid_uchar (ud_case_fold u t))"

lemma trim_end_matches_subset: "set (trim_end_matches P v) \<subseteq> set v"
  by (auto simp: trim_end_matches_def dest: set_dropWhileD)

lemma trim_subset: "set (trim v) \<subseteq> set v"
  using trim_end_matches_subset by (fastforce simp: trim_def dest: set_dropWhileD)

lemma join_on_subset: "set (join_on c ps) \<subseteq> insert c (\<Union> (set ` set ps))"
  by (induction c ps rule: join_on.induct) auto

lemma split_by_subset: "p \<in> set (split_by P v) \<Longrightarrow> set p \<subseteq> set v"
  by (induction P v arbitrary: p rule: split_by.induct) (fastforce split: if_splits list.splits)+

lemma collapse_whitespace_valid:
  assumes "list_all valid_uchar v"
  shows "list_all valid_uchar (collapse_whitespace v)"
proof -
  have "set (collapse_whitespace v) \<subseteq> insert 32 (set v)"
    using join_on_subset [of 32 "split_whitespace v"] split_by_subset [of _ is_whitespace v]
    by (fastforce simp: collapse_whitespace_def split_whitespace_def)
  then show ?thesis using assms by (auto simp: list_all_iff valid_uchar_def)
qed

lemma list_all_subset: "list_all P xs \<Longrightarrow> set ys \<subseteq> set xs \<Longrightarrow> list_all P ys"
  by (auto simp: list_all_iff)

lemma canonicalize_valid:
  assumes "unicode_text u" "list_all valid_uchar v"
  shows "list_all valid_uchar (canonicalize u v kind)"
proof -
  let ?w = "trim (trim_terminal_word_punctuation v)"
  have "set ?w \<subseteq> set v"
    using trim_subset trim_end_matches_subset by (metis subset_trans trim_terminal_word_punctuation_def)
  then have "list_all valid_uchar (collapse_whitespace ?w)"
    by (rule collapse_whitespace_valid [OF list_all_subset [OF assms(2)]])
  then show ?thesis using assms collapse_whitespace_valid
    by (cases kind) (simp_all add: canonicalize_def unicode_text_def)
qed

lemma prepared_text_valid:
  assumes "unicode_text u" "list_all valid_uchar raw" "prepare_content u sha raw lang m = Inr p"
  shows "list_all valid_uchar (cc_text (pc_canonical p))"
proof -
  have "list_all valid_uchar (trim (clean_control_characters raw))"
    by (rule list_all_subset [OF assms(2)])
      (use trim_subset in \<open>fastforce simp: clean_control_characters_def\<close>)
  then show ?thesis using assms(3) canonicalize_valid [OF assms(1)]
    by (auto simp: prepare_content_def Let_def split: if_splits)
qed

text \<open>
  C9: a Content key identifies the content it was made from. Two captures prepared with validated source
  languages get the same Content key exactly when kind, source language and canonical text are the same,
  provided SHA-256 does not collide on the two byte strings that are hashed. Unicode normalization and
  case folding are assumed to turn well-formed text into well-formed text.
\<close>

theorem content_identity_injective:
  assumes "prepare_content u sha r1 l1 m1 = Inr p1" and "prepare_content u sha r2 l2 m2 = Inr p2"
    and "parse_language_code v1 = Inr l1" and "parse_language_code v2 = Inr l2"
    and "list_all valid_uchar r1" and "list_all valid_uchar r2" and "unicode_text u"
    and no_collision: "sha (key_preimage (pc_canonical p1)) = sha (key_preimage (pc_canonical p2)) \<Longrightarrow>
      key_preimage (pc_canonical p1) = key_preimage (pc_canonical p2)"
  shows "pc_content_key p1 = pc_content_key p2 \<longleftrightarrow>
    cc_kind (pc_canonical p1) = cc_kind (pc_canonical p2) \<and> l1 = l2
    \<and> cc_text (pc_canonical p1) = cc_text (pc_canonical p2)"
proof -
  have key: "pc_content_key p1 = sha (key_preimage (pc_canonical p1))" "pc_content_key p2 = sha (key_preimage (pc_canonical p2))"
    and lang: "cc_source_lang (pc_canonical p1) = l1" "cc_source_lang (pc_canonical p2) = l2"
    and version: "cc_key_version (pc_canonical p1) = cc_key_version (pc_canonical p2)"
    using assms(1,2) by (auto simp: prepare_content_def canonical_content_key_def Let_def split: if_splits)
  note texts = prepared_text_valid [OF assms(7,5,1)] prepared_text_valid [OF assms(7,6,2)]
  have "key_preimage (pc_canonical p1) = key_preimage (pc_canonical p2) \<longleftrightarrow>
      cc_kind (pc_canonical p1) = cc_kind (pc_canonical p2) \<and> l1 = l2
      \<and> cc_text (pc_canonical p1) = cc_text (pc_canonical p2)"
    using key_preimage_injective [of v1 "pc_canonical p1" v2 "pc_canonical p2"] assms(3,4) lang version texts by simp
  then show ?thesis using no_collision by (auto simp: key)
qed

text \<open>
  Content identity ignores the layout of whitespace: two captures with the same sequence of
  words, both accepted, get the same kind, canonical text and Content key, whatever whitespace
  separates or surrounds the words and whatever the two length limits were.
\<close>

theorem prepare_content_whitespace_insensitive:
  assumes "whitespace_not_word u"
    and "split_whitespace (clean_control_characters r1) = split_whitespace (clean_control_characters r2)"
    and "prepare_content u sha r1 lang m1 = Inr p1" and "prepare_content u sha r2 lang m2 = Inr p2"
  shows "pc_canonical p1 = pc_canonical p2 \<and> pc_content_key p1 = pc_content_key p2"
proof -
  let ?s = "trim (clean_control_characters r1)" and ?t = "trim (clean_control_characters r2)"
  have ne: "?s \<noteq> []" "?t \<noteq> []"
    using assms(3,4) by (auto simp: prepare_content_def Let_def split: if_splits)
  have words: "split_whitespace ?s = split_whitespace ?t" using assms(2) by simp
  have "classify u ?s = classify u ?t
      \<and> canonicalize u ?s (classify u ?s) = canonicalize u ?t (classify u ?t)"
    using same_words_cases [OF refl refl words ne]
  proof
    assume "?s = ?t"
    then show ?thesis by (simp only: simp_thms)
  next
    assume "list_ex is_whitespace ?s \<and> list_ex is_whitespace ?t"
    then show ?thesis using words
      by (simp add: classify_whitespace [OF assms(1)] canonicalize_def collapse_whitespace_def)
  qed
  with assms(3,4) show ?thesis
    by (auto simp: prepare_content_def Let_def split: if_splits)
qed

definition ascii_unicode_db :: unicode_db where
  "ascii_unicode_db = \<lparr>ud_alphabetic = (\<lambda>c. (65 \<le> c \<and> c \<le> 90) \<or> (97 \<le> c \<and> c \<le> 122)),
     ud_numeric = (\<lambda>c. 48 \<le> c \<and> c \<le> 57), ud_combining_mark = (\<lambda>c. False),
     ud_latin_script = (\<lambda>c. (65 \<le> c \<and> c \<le> 90) \<or> (97 \<le> c \<and> c \<le> 122)),
     ud_nfc = (\<lambda>t. t), ud_case_fold = map (\<lambda>c. if 65 \<le> c \<and> c \<le> 90 then c + 32 else c)\<rparr>"

lemma ascii_unicode_db_whitespace: "whitespace_not_word ascii_unicode_db"
  by (auto simp: whitespace_not_word_def ascii_unicode_db_def is_whitespace_def)

theorem prepare_content_whitespace_insensitive_witness:
  "\<exists>p1 p2. prepare_content ascii_unicode_db (\<lambda>_. []) [97, 10, 32, 98] ''en'' 10 = Inr p1
     \<and> prepare_content ascii_unicode_db (\<lambda>_. []) [32, 97, 9, 98, 32] ''en'' 3 = Inr p2
     \<and> pc_canonical p1 = pc_canonical p2 \<and> cc_text (pc_canonical p1) = [97, 32, 98]"
proof -
  have w: "split_whitespace (clean_control_characters [97, 10, 32, 98])
         = split_whitespace (clean_control_characters [32, 97, 9, 98, 32])"
    by code_simp
  have "\<exists>p. prepare_content ascii_unicode_db (\<lambda>_. []) [97, 10, 32, 98] ''en'' 10 = Inr p
      \<and> cc_text (pc_canonical p) = [97, 32, 98]"
    by (simp add: prepare_content_def clean_control_characters_def is_control_def is_whitespace_def
        trim_def trim_end_matches_def ascii_unicode_db_def classify_def is_word_character_def
        trim_terminal_word_punctuation_def is_terminal_punctuation_def is_alphanumeric_def
        canonicalize_def collapse_whitespace_def split_whitespace_def Let_def)
  moreover have "\<exists>p. prepare_content ascii_unicode_db (\<lambda>_. []) [32, 97, 9, 98, 32] ''en'' 3 = Inr p"
    by (simp add: prepare_content_def clean_control_characters_def is_control_def is_whitespace_def
        trim_def trim_end_matches_def ascii_unicode_db_def Let_def)
  ultimately show ?thesis
    using prepare_content_whitespace_insensitive [OF ascii_unicode_db_whitespace w] by blast
qed

lemma ascii_unicode_db_text: "unicode_text ascii_unicode_db"
  by (auto simp: unicode_text_def ascii_unicode_db_def list_all_iff valid_uchar_def)

theorem content_identity_injective_witness:
  "\<exists>p1 p2 p3. prepare_content ascii_unicode_db (\<lambda>bytes. bytes) [71] ''en'' 10 = Inr p1
     \<and> prepare_content ascii_unicode_db (\<lambda>bytes. bytes) [103, 46] ''en'' 10 = Inr p2
     \<and> prepare_content ascii_unicode_db (\<lambda>bytes. bytes) [71] ''de'' 10 = Inr p3
     \<and> pc_content_key p1 = pc_content_key p2 \<and> pc_content_key p1 \<noteq> pc_content_key p3"
proof -
  note unfolds = prepare_content_def clean_control_characters_def is_control_def is_whitespace_def
      trim_def trim_end_matches_def ascii_unicode_db_def classify_def is_word_character_def
      trim_terminal_word_punctuation_def is_terminal_punctuation_def is_alphanumeric_def
      canonicalize_def collapse_whitespace_def split_whitespace_def Let_def
  obtain p1 where p1: "prepare_content ascii_unicode_db (\<lambda>bytes. bytes) [71] ''en'' 10 = Inr p1"
      "cc_kind (pc_canonical p1) = Word" "cc_text (pc_canonical p1) = [103]"
    by (simp add: unfolds)
  obtain p2 where p2: "prepare_content ascii_unicode_db (\<lambda>bytes. bytes) [103, 46] ''en'' 10 = Inr p2"
      "cc_kind (pc_canonical p2) = Word" "cc_text (pc_canonical p2) = [103]"
    by (simp add: unfolds)
  obtain p3 where p3: "prepare_content ascii_unicode_db (\<lambda>bytes. bytes) [71] ''de'' 10 = Inr p3"
    by (simp add: unfolds)
  have parsed: "parse_language_code ''en'' = Inr ''en''" "parse_language_code ''de'' = Inr ''de''" by code_simp+
  have "pc_content_key p1 = pc_content_key p2"
    using content_identity_injective [OF p1(1) p2(1) parsed(1,1) _ _ ascii_unicode_db_text] p1(2,3) p2(2,3)
    by (simp add: valid_uchar_def)
  moreover have "pc_content_key p1 \<noteq> pc_content_key p3"
    using content_identity_injective [OF p1(1) p3(1) parsed(1,2) _ _ ascii_unicode_db_text]
    by (simp add: valid_uchar_def)
  ultimately show ?thesis using p1(1) p2(1) p3 by blast
qed

end
