(* ===== verification/Sync_Protocol.thy ===== *)
theory Sync_Protocol
  imports Core_Content
begin

text \<open>
  \<open>crates/sync/src/lib.rs\<close>: the transport-neutral synchronization protocol shared by the Desktop
  and the Server. Protocol identifiers are strings; user text is a list of characters. A \<open>Uuid\<close>
  is represented by its canonical hyphenated text, the form in which both sides exchange and
  store it.
\<close>

type_synonym uuid = string

datatype sync_operation = FavoriteUpsert | FavoriteDelete | QueryStatsUpsert

record favorite_snapshot =
  fs_kind :: string
  fs_source_lang :: string
  fs_target_lang :: string
  fs_source_text :: utext
  fs_canonical_text :: utext
  fs_translation :: utext
  fs_provider :: string
  fs_favorited_at :: i64
  fs_updated_at :: i64

record query_stats_snapshot =
  qss_query_count :: u64
  qss_first_queried_at :: i64
  qss_last_queried_at :: i64
  qss_updated_at :: i64

record push_event =
  pe_event_id :: string
  pe_operation :: sync_operation
  pe_content_key :: string
  pe_key_version :: u32
  pe_base_entity_revision :: u64
  pe_favorite :: "favorite_snapshot option"
  pe_query_stats :: "query_stats_snapshot option"

datatype ack_status = Applied | NoChange

record aggregate_query_stats =
  ag_query_count :: u64
  ag_first_queried_at :: i64
  ag_last_queried_at :: i64

record push_ack =
  pa_event_id :: string
  pa_status :: ack_status
  pa_entity_revision :: "u64 option"
  pa_user_revision :: u64
  pa_aggregate :: "aggregate_query_stats option"

record push_response =
  pr_acknowledgements :: "push_ack list"
  pr_latest_revision :: u64

record favorite_record =
  fr_content_key :: string
  fr_key_version :: u32
  fr_favorite :: favorite_snapshot
  fr_deleted_at :: "i64 option"
  fr_entity_revision :: u64
  fr_server_received_at :: i64
  fr_aggregate :: "aggregate_query_stats option"

record sync_change =
  sc_revision :: u64
  sc_operation :: sync_operation
  sc_favorite :: favorite_record

record changes_response =
  cr_changes :: "sync_change list"
  cr_next_revision :: u64
  cr_latest_revision :: u64
  cr_has_more :: bool

text \<open>The wire and column names of the operations (\<open>operation_name\<close>/\<open>parse_operation\<close> of the
  Server, \<open>OutboxOperation::as_str\<close>/\<open>parse_outbox_operation\<close> of the Desktop).\<close>

fun operation_name :: "sync_operation \<Rightarrow> string" where
  "operation_name FavoriteUpsert = ''favorite_upsert''"
| "operation_name FavoriteDelete = ''favorite_delete''"
| "operation_name QueryStatsUpsert = ''query_stats_upsert''"

definition operation_of_name :: "string \<Rightarrow> sync_operation option" where
  "operation_of_name v =
     (if v = ''favorite_upsert'' then Some FavoriteUpsert
      else if v = ''favorite_delete'' then Some FavoriteDelete
      else if v = ''query_stats_upsert'' then Some QueryStatsUpsert
      else None)"

lemma operation_of_name_name [simp]: "operation_of_name (operation_name op) = Some op"
  by (cases op) (simp_all add: operation_of_name_def)

lemma operation_name_inj [simp]: "operation_name a = operation_name b \<longleftrightarrow> a = b"
  by (cases a; cases b) simp_all

end
