(* ===== verification/Server_Store.thy ===== *)
theory Server_Store
  imports Sync_Protocol
begin

text \<open>
  The Server's SQLite store. The tables are those of \<open>apps/server/src/storage.rs\<close> (schema
  versions 1 and 2), each keyed by its primary key; the column checks, unique indexes and foreign
  keys of the schema (the Server turns \<open>foreign_keys\<close> on) are conditions of the insertions, and
  a violated one is the \<open>Database\<close> error the code maps it to. The operations are those of
  \<open>apps/server/src/repository.rs\<close>: users, devices, sessions, token rotation and revocation.
  Identifiers the code draws at random are arguments. Failures of the disk and poisoned mutexes
  are not modelled: every statement runs, so an operation fails only where the code or the schema
  refuses.
\<close>

section \<open>Tables\<close>

record user_row =
  us_username :: string
  us_password_hash :: string
  us_sync_revision :: i64
  us_created_at :: i64
  us_disabled_at :: "i64 option"

record device_row =
  dv_platform :: string
  dv_device_name :: "string option"
  dv_created_at :: i64
  dv_last_seen_at :: i64
  dv_revoked_at :: "i64 option"

record session_row =
  se_user_id :: string
  se_device_id :: string
  se_access_token_hash :: string
  se_refresh_token_hash :: string
  se_access_expires_at :: i64
  se_created_at :: i64
  se_last_refreshed_at :: i64
  se_last_seen_at :: i64
  se_revoked_at :: "i64 option"

record server_favorite_row =
  sf_key_version :: i64
  sf_snapshot :: favorite_snapshot
  sf_deleted_at :: "i64 option"
  sf_entity_revision :: i64
  sf_server_received_at :: i64

record device_stats_row =
  ds_query_count :: i64
  ds_first_queried_at :: i64
  ds_last_queried_at :: i64
  ds_updated_at :: i64

record processed_row =
  ps_event_fingerprint :: string
  ps_operation :: string
  ps_ack_status :: string
  ps_entity_revision :: "i64 option"
  ps_user_revision :: i64
  ps_aggregate_query_count :: "i64 option"
  ps_aggregate_first_queried_at :: "i64 option"
  ps_aggregate_last_queried_at :: "i64 option"
  ps_processed_at :: i64

record change_row =
  cl_content_key :: string
  cl_entity_revision :: i64
  cl_operation :: string
  cl_changed_at :: i64

record server_db =
  users :: "(string, user_row) table"
  devices :: "(string \<times> string, device_row) table"
  sessions :: "(string, session_row) table"
  server_favorites :: "(string \<times> string, server_favorite_row) table"
  device_query_stats :: "(string \<times> string \<times> string, device_stats_row) table"
  processed_sync_events :: "(string \<times> string, processed_row) table"
  change_log :: "(string \<times> i64, change_row) table"

definition empty_server_db :: server_db where
  "empty_server_db = \<lparr>users = [], devices = [], sessions = [], server_favorites = [],
     device_query_stats = [], processed_sync_events = [], change_log = []\<rparr>"

datatype repository_error =
  Database | Migration | Backup | Restore | Integrity | NotFound | SessionInvalid
  | AccessExpired | RefreshExpired | SessionRevoked | DeviceRevoked | UserDisabled

section \<open>Values returned by the repository\<close>

record user_credential =
  uc_user_id :: string
  uc_username :: string
  uc_password_hash :: string
  uc_sync_revision :: i64
  uc_disabled :: bool

record session_identity =
  si_session_id :: string
  si_user_id :: string
  si_username :: string
  si_device_id :: string
  si_platform :: string
  si_latest_revision :: i64

record device_record =
  dr_device_id :: string
  dr_platform :: string
  dr_device_name :: "string option"
  dr_created_at :: i64
  dr_last_seen_at :: i64
  dr_revoked_at :: "i64 option"

section \<open>Users\<close>

definition user_id_by_username :: "server_db \<Rightarrow> string \<Rightarrow> string option" where
  "user_id_by_username db username =
     map_option fst (find (\<lambda>(uid, r). us_username r = username) (users db))"

definition repo_bootstrap_user ::
  "server_db \<Rightarrow> string \<Rightarrow> string \<Rightarrow> i64 \<Rightarrow> string \<Rightarrow> repository_error + (string \<times> server_db)" where
  "repo_bootstrap_user db username password_hash now new_id =
     (case user_id_by_username db username of
        Some user_id \<Rightarrow> Inr (user_id, db)
      | None \<Rightarrow>
          if tbl_has (users db) new_id then Inl Database
          else Inr (new_id, db\<lparr>users := tbl_put new_id
            \<lparr>us_username = username, us_password_hash = password_hash, us_sync_revision = 0,
             us_created_at = now, us_disabled_at = None\<rparr> (users db)\<rparr>))"

definition user_by_username :: "server_db \<Rightarrow> string \<Rightarrow> user_credential option" where
  "user_by_username db username =
     map_option (\<lambda>(uid, r). \<lparr>uc_user_id = uid, uc_username = us_username r,
         uc_password_hash = us_password_hash r, uc_sync_revision = us_sync_revision r,
         uc_disabled = (us_disabled_at r \<noteq> None)\<rparr>)
       (find (\<lambda>(uid, r). us_username r = username) (users db))"

section \<open>Sessions and devices\<close>

definition valid_platform :: "string \<Rightarrow> bool" where
  "valid_platform p = (p = ''windows'' \<or> p = ''macos'')"

definition access_hash_used :: "server_db \<Rightarrow> string \<Rightarrow> bool" where
  "access_hash_used db h = list_ex (\<lambda>(sid, s). se_access_token_hash s = h) (sessions db)"

definition refresh_hash_used :: "server_db \<Rightarrow> string \<Rightarrow> bool" where
  "refresh_hash_used db h = list_ex (\<lambda>(sid, s). se_refresh_token_hash s = h) (sessions db)"

definition put_device ::
  "server_db \<Rightarrow> string \<Rightarrow> string \<Rightarrow> string \<Rightarrow> string option \<Rightarrow> i64 \<Rightarrow> repository_error + server_db" where
  "put_device db user_id device_id platform device_name now =
     (case tbl_get (devices db) (user_id, device_id) of
        Some row \<Rightarrow>
          if dv_revoked_at row \<noteq> None then Inl DeviceRevoked
          else if \<not> valid_platform platform then Inl Database
          else Inr (db\<lparr>devices := tbl_modify (user_id, device_id)
            (\<lambda>r. r\<lparr>dv_platform := platform, dv_device_name := device_name, dv_last_seen_at := now\<rparr>)
            (devices db)\<rparr>)
      | None \<Rightarrow>
          if \<not> valid_platform platform \<or> \<not> tbl_has (users db) user_id then Inl Database
          else Inr (db\<lparr>devices := tbl_put (user_id, device_id)
            \<lparr>dv_platform = platform, dv_device_name = device_name, dv_created_at = now,
             dv_last_seen_at = now, dv_revoked_at = None\<rparr> (devices db)\<rparr>))"

definition create_session ::
  "server_db \<Rightarrow> user_credential \<Rightarrow> string \<Rightarrow> string \<Rightarrow> string option \<Rightarrow> string \<Rightarrow> string \<Rightarrow> i64 \<Rightarrow> i64
    \<Rightarrow> string \<Rightarrow> repository_error + (session_identity \<times> server_db)" where
  "create_session db user device_id platform device_name access_hash refresh_hash
      access_expires_at now session_id =
     rbind (put_device db (uc_user_id user) device_id platform device_name now) (\<lambda>db1.
       if tbl_has (sessions db1) session_id \<or> access_hash_used db1 access_hash
          \<or> refresh_hash_used db1 refresh_hash
       then Inl Database
       else Inr (\<lparr>si_session_id = session_id, si_user_id = uc_user_id user,
                  si_username = uc_username user, si_device_id = device_id,
                  si_platform = platform, si_latest_revision = uc_sync_revision user\<rparr>,
         db1\<lparr>sessions := tbl_put session_id
           \<lparr>se_user_id = uc_user_id user, se_device_id = device_id,
            se_access_token_hash = access_hash, se_refresh_token_hash = refresh_hash,
            se_access_expires_at = access_expires_at, se_created_at = now,
            se_last_refreshed_at = now, se_last_seen_at = now, se_revoked_at = None\<rparr>
           (sessions db1)\<rparr>))"

text \<open>The join \<open>sessions s JOIN users u JOIN devices d\<close> of the token queries.\<close>

definition session_join ::
  "server_db \<Rightarrow> (session_row \<Rightarrow> bool) \<Rightarrow> (string \<times> session_row \<times> user_row \<times> device_row) option" where
  "session_join db P =
     (case find (\<lambda>(sid, s). P s) (sessions db) of
        None \<Rightarrow> None
      | Some (sid, s) \<Rightarrow>
          (case tbl_get (users db) (se_user_id s) of
             None \<Rightarrow> None
           | Some u \<Rightarrow>
               (case tbl_get (devices db) (se_user_id s, se_device_id s) of
                  None \<Rightarrow> None
                | Some d \<Rightarrow> Some (sid, s, u, d))))"

definition join_identity :: "string \<times> session_row \<times> user_row \<times> device_row \<Rightarrow> session_identity" where
  "join_identity row = (case row of (sid, s, u, d) \<Rightarrow>
     \<lparr>si_session_id = sid, si_user_id = se_user_id s, si_username = us_username u,
      si_device_id = se_device_id s, si_platform = dv_platform d,
      si_latest_revision = us_sync_revision u\<rparr>)"

text \<open>A \<open>Principal\<close> has the fields of a \<open>SessionIdentity\<close>; both are \<open>session_identity\<close> here.\<close>

definition authenticate_access ::
  "server_db \<Rightarrow> string \<Rightarrow> i64 \<Rightarrow> repository_error + (session_identity \<times> server_db)" where
  "authenticate_access db access_hash now =
     (case session_join db (\<lambda>s. se_access_token_hash s = access_hash) of
        None \<Rightarrow> Inl SessionInvalid
      | Some (sid, s, u, d) \<Rightarrow>
          if us_disabled_at u \<noteq> None then Inl UserDisabled
          else if dv_revoked_at d \<noteq> None then Inl DeviceRevoked
          else if se_revoked_at s \<noteq> None then Inl SessionRevoked
          else if se_access_expires_at s \<le> now then Inl AccessExpired
          else Inr (join_identity (sid, s, u, d),
            db\<lparr>sessions := tbl_modify sid (\<lambda>r. r\<lparr>se_last_seen_at := now\<rparr>) (sessions db),
               devices := tbl_modify (se_user_id s, se_device_id s)
                 (\<lambda>r. r\<lparr>dv_last_seen_at := now\<rparr>) (devices db)\<rparr>))"

text \<open>
  Rotation of a refresh token. An idle session is revoked and that revocation is committed even
  though the call fails, so the result carries the database on both branches.
\<close>

definition rotate_refresh ::
  "server_db \<Rightarrow> string \<Rightarrow> string \<Rightarrow> string \<Rightarrow> i64 \<Rightarrow> i64 \<Rightarrow> i64
    \<Rightarrow> (repository_error + session_identity) \<times> server_db" where
  "rotate_refresh db refresh_hash new_access_hash new_refresh_hash access_expires_at
      refresh_idle_ttl_seconds now =
     (case session_join db (\<lambda>s. se_refresh_token_hash s = refresh_hash) of
        None \<Rightarrow> (Inl SessionInvalid, db)
      | Some (sid, s, u, d) \<Rightarrow>
          if us_disabled_at u \<noteq> None then (Inl UserDisabled, db)
          else if dv_revoked_at d \<noteq> None then (Inl DeviceRevoked, db)
          else if se_revoked_at s \<noteq> None then (Inl SessionRevoked, db)
          else if saturating_sub_i64 now (se_last_seen_at s) \<ge> refresh_idle_ttl_seconds then
            (Inl RefreshExpired,
             db\<lparr>sessions := tbl_modify sid (\<lambda>r. r\<lparr>se_revoked_at := Some now\<rparr>) (sessions db)\<rparr>)
          else if list_ex (\<lambda>(sid', s'). sid' \<noteq> sid \<and>
                 (se_access_token_hash s' = new_access_hash
                  \<or> se_refresh_token_hash s' = new_refresh_hash)) (sessions db)
          then (Inl Database, db)
          else (Inr (join_identity (sid, s, u, d)),
            db\<lparr>sessions := tbl_modify sid
                 (\<lambda>r. r\<lparr>se_access_token_hash := new_access_hash,
                        se_refresh_token_hash := new_refresh_hash,
                        se_access_expires_at := access_expires_at,
                        se_last_refreshed_at := now, se_last_seen_at := now\<rparr>) (sessions db),
               devices := tbl_modify (se_user_id s, se_device_id s)
                 (\<lambda>r. r\<lparr>dv_last_seen_at := now\<rparr>) (devices db)\<rparr>))"

definition revoke_session :: "server_db \<Rightarrow> string \<Rightarrow> i64 \<Rightarrow> server_db" where
  "revoke_session db session_id now =
     db\<lparr>sessions := tbl_modify session_id
       (\<lambda>r. r\<lparr>se_revoked_at := (case se_revoked_at r of None \<Rightarrow> Some now | Some t \<Rightarrow> Some t)\<rparr>)
       (sessions db)\<rparr>"

definition devices_for_user :: "server_db \<Rightarrow> string \<Rightarrow> device_record list" where
  "devices_for_user db user_id =
     map (\<lambda>((uid, did), d). \<lparr>dr_device_id = did, dr_platform = dv_platform d,
          dr_device_name = dv_device_name d, dr_created_at = dv_created_at d,
          dr_last_seen_at = dv_last_seen_at d, dr_revoked_at = dv_revoked_at d\<rparr>)
       (sort_key (\<lambda>((uid, did), d). (dv_created_at d, did))
         (filter (\<lambda>((uid, did), d). uid = user_id) (devices db)))"

definition revoke_device ::
  "server_db \<Rightarrow> string \<Rightarrow> string \<Rightarrow> i64 \<Rightarrow> repository_error + server_db" where
  "revoke_device db user_id device_id now =
     (if \<not> tbl_has (devices db) (user_id, device_id) then Inl NotFound
      else Inr (db\<lparr>devices := tbl_modify (user_id, device_id)
          (\<lambda>r. r\<lparr>dv_revoked_at := (case dv_revoked_at r of None \<Rightarrow> Some now | Some t \<Rightarrow> Some t)\<rparr>)
          (devices db),
        sessions := tbl_update_all (\<lambda>sid s.
          if se_user_id s = user_id \<and> se_device_id s = device_id
          then s\<lparr>se_revoked_at := (case se_revoked_at s of None \<Rightarrow> Some now | Some t \<Rightarrow> Some t)\<rparr>
          else s) (sessions db)\<rparr>))"

section \<open>Steps of the identity store\<close>

text \<open>Every call of the repository that can change users, devices or sessions.\<close>

inductive repo_step :: "server_db \<Rightarrow> server_db \<Rightarrow> bool" where
  step_bootstrap: "repo_bootstrap_user db name pw now new_id = Inr (uid, db') \<Longrightarrow> repo_step db db'"
| step_login: "create_session db user did plat dname ah rh expires now sid = Inr (ident, db')
    \<Longrightarrow> repo_step db db'"
| step_access: "authenticate_access db ah now = Inr (ident, db') \<Longrightarrow> repo_step db db'"
| step_refresh: "rotate_refresh db rh ah' rh' expires ttl now = (r, db') \<Longrightarrow> repo_step db db'"
| step_logout: "repo_step db (revoke_session db sid now)"
| step_revoke: "revoke_device db uid did now = Inr db' \<Longrightarrow> repo_step db db'"

section \<open>Store invariant\<close>

definition identity_inv :: "server_db \<Rightarrow> bool" where
  "identity_inv db \<longleftrightarrow>
     tbl_wf (users db) \<and> tbl_wf (devices db) \<and> tbl_wf (sessions db) \<and>
     distinct (map (\<lambda>(uid, r). us_username r) (users db)) \<and>
     distinct (map (\<lambda>(sid, s). se_access_token_hash s) (sessions db)) \<and>
     distinct (map (\<lambda>(sid, s). se_refresh_token_hash s) (sessions db)) \<and>
     (\<forall>uid did d. tbl_get (devices db) (uid, did) = Some d \<longrightarrow>
        valid_platform (dv_platform d) \<and> tbl_has (users db) uid) \<and>
     (\<forall>sid s. tbl_get (sessions db) sid = Some s \<longrightarrow>
        tbl_has (devices db) (se_user_id s, se_device_id s))"

lemma identity_inv_empty: "identity_inv empty_server_db"
  by (simp add: identity_inv_def empty_server_db_def)

lemma identity_inv_users_put:
  assumes "identity_inv db" and fresh: "\<not> tbl_has (users db) uid"
    and "us_username row \<notin> set (map (\<lambda>(uid, r). us_username r) (users db))"
  shows "identity_inv (db\<lparr>users := tbl_put uid row (users db)\<rparr>)"
  using assms(1,3) unfolding identity_inv_def
  by (auto simp: map_tbl_put_fresh [OF fresh])

lemma bootstrap_identity_inv:
  assumes "identity_inv db" and "repo_bootstrap_user db name pw now new_id = Inr (uid, db')"
  shows "identity_inv db'"
proof (cases "user_id_by_username db name")
  case None
  then have "name \<notin> set (map (\<lambda>(uid, r). us_username r) (users db))"
    by (auto simp: user_id_by_username_def find_None_iff)
  with assms None show ?thesis
    by (auto simp: repo_bootstrap_user_def split: if_splits intro!: identity_inv_users_put)
next
  case (Some u)
  with assms show ?thesis by (simp add: repo_bootstrap_user_def)
qed

lemma put_device_Inr:
  assumes "put_device db uid did plat dname now = Inr db'"
  shows "\<exists>t. db' = db\<lparr>devices := t\<rparr> \<and> (tbl_wf (devices db) \<longrightarrow> tbl_wf t) \<and> valid_platform plat
    \<and> (\<exists>row. tbl_get t = (tbl_get (devices db))((uid, did) \<mapsto> row) \<and> dv_platform row = plat
             \<and> dv_revoked_at row = None)
    \<and> (tbl_has (devices db) (uid, did) \<or> tbl_has (users db) uid)
    \<and> (\<forall>row. tbl_get (devices db) (uid, did) = Some row \<longrightarrow> dv_revoked_at row = None)"
  using assms
  by (fastforce simp: put_device_def tbl_has_get fun_eq_iff split: option.splits if_splits)

lemma create_session_identity_inv:
  assumes inv: "identity_inv db"
    and ok: "create_session db user did plat dname ah rh expires now sid = Inr (ident, db')"
  shows "identity_inv db'"
proof -
  from ok obtain db1 where put: "put_device db (uc_user_id user) did plat dname now = Inr db1"
    and fresh: "\<not> tbl_has (sessions db1) sid" "\<not> access_hash_used db1 ah" "\<not> refresh_hash_used db1 rh"
    and db': "db' = db1\<lparr>sessions := tbl_put sid
           \<lparr>se_user_id = uc_user_id user, se_device_id = did,
            se_access_token_hash = ah, se_refresh_token_hash = rh,
            se_access_expires_at = expires, se_created_at = now,
            se_last_refreshed_at = now, se_last_seen_at = now, se_revoked_at = None\<rparr>
           (sessions db1)\<rparr>"
    by (auto simp: create_session_def res_simps split: if_splits)
  from put_device_Inr [OF put] obtain t row where db1: "db1 = db\<lparr>devices := t\<rparr>"
    and t: "tbl_wf (devices db) \<longrightarrow> tbl_wf t"
      "tbl_get t = (tbl_get (devices db))((uc_user_id user, did) \<mapsto> row)" "dv_platform row = plat"
      "valid_platform plat" "tbl_has (devices db) (uc_user_id user, did) \<or> tbl_has (users db) (uc_user_id user)"
    by blast
  have hashes: "ah \<notin> set (map (\<lambda>(sid, s). se_access_token_hash s) (sessions db))"
      "rh \<notin> set (map (\<lambda>(sid, s). se_refresh_token_hash s) (sessions db))"
    using fresh(2,3) by (auto simp: access_hash_used_def refresh_hash_used_def list_ex_iff db1)
  have fresh': "\<not> tbl_has (sessions db) sid" using fresh(1) by (simp add: db1)
  have has_t: "tbl_has t k \<longleftrightarrow> k = (uc_user_id user, did) \<or> tbl_has (devices db) k" for k
    by (auto simp: tbl_has_get t(2))
  have has_user: "tbl_has (users db) (uc_user_id user)"
    using inv t(5) by (auto simp: identity_inv_def tbl_has_get)
  show ?thesis
    using inv t(1,3,4) has_user hashes
    unfolding identity_inv_def db' db1
    by (auto simp: has_t t(2) map_tbl_put_fresh [OF fresh'] split: if_splits)
qed

lemma touch_identity_inv:
  assumes "identity_inv db"
    and "\<And>s. se_user_id (f s) = se_user_id s \<and> se_device_id (f s) = se_device_id s
           \<and> se_access_token_hash (f s) = se_access_token_hash s
           \<and> se_refresh_token_hash (f s) = se_refresh_token_hash s"
    and "\<And>d. dv_platform (g d) = dv_platform d"
  shows "identity_inv (db\<lparr>sessions := tbl_modify sid f (sessions db),
                          devices := tbl_modify dk g (devices db)\<rparr>)"
  using assms by (auto simp: identity_inv_def map_tbl_modify split: if_splits)

lemma touch_sessions_identity_inv:
  assumes "identity_inv db"
    and "\<And>s. se_user_id (f s) = se_user_id s \<and> se_device_id (f s) = se_device_id s
           \<and> se_access_token_hash (f s) = se_access_token_hash s
           \<and> se_refresh_token_hash (f s) = se_refresh_token_hash s"
  shows "identity_inv (db\<lparr>sessions := tbl_modify sid f (sessions db)\<rparr>)"
  using assms by (auto simp: identity_inv_def map_tbl_modify split: if_splits)

lemma authenticate_access_Inr:
  "authenticate_access db h now = Inr (ident, db') \<longleftrightarrow>
     (\<exists>sid s u d. session_join db (\<lambda>s. se_access_token_hash s = h) = Some (sid, s, u, d)
       \<and> us_disabled_at u = None \<and> dv_revoked_at d = None \<and> se_revoked_at s = None
       \<and> now < se_access_expires_at s \<and> ident = join_identity (sid, s, u, d)
       \<and> db' = db\<lparr>sessions := tbl_modify sid (\<lambda>r. r\<lparr>se_last_seen_at := now\<rparr>) (sessions db),
               devices := tbl_modify (se_user_id s, se_device_id s)
                 (\<lambda>r. r\<lparr>dv_last_seen_at := now\<rparr>) (devices db)\<rparr>)"
  by (auto simp: authenticate_access_def split: option.splits if_splits)

lemma session_join_Some:
  "session_join db P = Some (sid, s, u, d) \<Longrightarrow>
     (sid, s) \<in> set (sessions db) \<and> P s \<and> tbl_get (users db) (se_user_id s) = Some u
     \<and> tbl_get (devices db) (se_user_id s, se_device_id s) = Some d"
  by (auto simp: session_join_def find_Some_iff split: option.splits) (metis nth_mem)

lemma session_join_has: "session_join db P = Some (sid, s, u, d) \<Longrightarrow> tbl_wf (sessions db) \<Longrightarrow>
    tbl_get (sessions db) sid = Some s"
  by (auto dest!: session_join_Some simp: tbl_get_in_set)

lemma rotate_refresh_cases:
  assumes "rotate_refresh db rh ah' rh' expires ttl now = (r, db')"
  obtains (unchanged) "db' = db" "\<exists>e. r = Inl e"
  | (expired) sid s u d where "session_join db (\<lambda>s. se_refresh_token_hash s = rh) = Some (sid, s, u, d)"
      "r = Inl RefreshExpired"
      "db' = db\<lparr>sessions := tbl_modify sid (\<lambda>r. r\<lparr>se_revoked_at := Some now\<rparr>) (sessions db)\<rparr>"
  | (rotated) sid s u d where "session_join db (\<lambda>s. se_refresh_token_hash s = rh) = Some (sid, s, u, d)"
      "r = Inr (join_identity (sid, s, u, d))"
      "us_disabled_at u = None" "dv_revoked_at d = None" "se_revoked_at s = None"
      "\<And>sid' s'. (sid', s') \<in> set (sessions db) \<Longrightarrow> sid' \<noteq> sid \<Longrightarrow>
         se_access_token_hash s' \<noteq> ah' \<and> se_refresh_token_hash s' \<noteq> rh'"
      "db' = db\<lparr>sessions := tbl_modify sid
                 (\<lambda>r. r\<lparr>se_access_token_hash := ah', se_refresh_token_hash := rh',
                        se_access_expires_at := expires,
                        se_last_refreshed_at := now, se_last_seen_at := now\<rparr>) (sessions db),
               devices := tbl_modify (se_user_id s, se_device_id s)
                 (\<lambda>r. r\<lparr>dv_last_seen_at := now\<rparr>) (devices db)\<rparr>"
proof -
  consider "db' = db" "\<exists>e. r = Inl e"
    | sid s u d where "session_join db (\<lambda>s. se_refresh_token_hash s = rh) = Some (sid, s, u, d)"
      "r = Inl RefreshExpired"
      "db' = db\<lparr>sessions := tbl_modify sid (\<lambda>r. r\<lparr>se_revoked_at := Some now\<rparr>) (sessions db)\<rparr>"
    | sid s u d where "session_join db (\<lambda>s. se_refresh_token_hash s = rh) = Some (sid, s, u, d)"
      "r = Inr (join_identity (sid, s, u, d))"
      "us_disabled_at u = None" "dv_revoked_at d = None" "se_revoked_at s = None"
      "\<not> list_ex (\<lambda>(sid', s'). sid' \<noteq> sid \<and>
         (se_access_token_hash s' = ah' \<or> se_refresh_token_hash s' = rh')) (sessions db)"
      "db' = db\<lparr>sessions := tbl_modify sid
                 (\<lambda>r. r\<lparr>se_access_token_hash := ah', se_refresh_token_hash := rh',
                        se_access_expires_at := expires,
                        se_last_refreshed_at := now, se_last_seen_at := now\<rparr>) (sessions db),
               devices := tbl_modify (se_user_id s, se_device_id s)
                 (\<lambda>r. r\<lparr>dv_last_seen_at := now\<rparr>) (devices db)\<rparr>"
    using assms unfolding rotate_refresh_def
    by (simp split: option.splits prod.splits if_splits) blast+
  then show thesis
  proof cases
    case 3
    then show thesis by (intro rotated) (auto simp: list_ex_iff)
  qed (use unchanged expired in blast)+
qed

lemma rotate_refresh_identity_inv:
  assumes inv: "identity_inv db" and "rotate_refresh db rh ah' rh' expires ttl now = (r, db')"
  shows "identity_inv db'"
  using assms(2)
proof (cases rule: rotate_refresh_cases)
  case unchanged
  with inv show ?thesis by simp
next
  case (expired sid s u d)
  with inv show ?thesis by (simp add: touch_sessions_identity_inv)
next
  case (rotated sid s u d)
  have wf: "tbl_wf (sessions db)" using inv by (simp add: identity_inv_def)
  note get = session_join_has [OF rotated(1) wf]
  have other: "se_access_token_hash s' \<noteq> ah'" "se_refresh_token_hash s' \<noteq> rh'"
    if "(sid', s') \<in> set (sessions db)" "sid' \<noteq> sid" for sid' s'
    using rotated(6) that by auto
  show ?thesis
    using inv distinct_column_modify [OF wf get, of se_access_token_hash] other
      distinct_column_modify [OF wf get, of se_refresh_token_hash]
    unfolding identity_inv_def rotated(7)
    by (auto split: if_splits)
qed

lemma revoke_device_identity_inv:
  assumes "identity_inv db" and "revoke_device db uid did now = Inr db'"
  shows "identity_inv db'"
  using assms
  by (auto simp: identity_inv_def revoke_device_def map_tbl_update_all split: if_splits)

lemma repo_step_identity_inv: "repo_step db db' \<Longrightarrow> identity_inv db \<Longrightarrow> identity_inv db'"
proof (induction rule: repo_step.induct)
  case (step_access db ah now ident db')
  then show ?case by (auto simp: authenticate_access_Inr intro!: touch_identity_inv)
next
  case (step_logout db sid now)
  then show ?case by (simp add: revoke_session_def touch_sessions_identity_inv)
qed (auto intro: bootstrap_identity_inv create_session_identity_inv rotate_refresh_identity_inv
      revoke_device_identity_inv)

lemma repo_steps_identity_inv: "repo_step\<^sup>*\<^sup>* db db' \<Longrightarrow> identity_inv db \<Longrightarrow> identity_inv db'"
  by (induction rule: rtranclp_induct) (auto intro: repo_step_identity_inv)

section \<open>Revocation\<close>

definition device_revoked :: "server_db \<Rightarrow> string \<Rightarrow> string \<Rightarrow> bool" where
  "device_revoked db uid did \<longleftrightarrow>
     (case tbl_get (devices db) (uid, did) of None \<Rightarrow> False | Some d \<Rightarrow> dv_revoked_at d \<noteq> None)"

lemma device_revoked_touch:
  "(\<And>d. dv_revoked_at (g d) = dv_revoked_at d) \<Longrightarrow>
     device_revoked (db\<lparr>sessions := S, devices := tbl_modify k g (devices db)\<rparr>) uid did
       = device_revoked db uid did"
  by (auto simp: device_revoked_def split: option.splits)

lemma repo_step_device_revoked:
  "repo_step db db' \<Longrightarrow> device_revoked db uid did \<Longrightarrow> device_revoked db' uid did"
proof (induction rule: repo_step.induct)
  case (step_bootstrap db name pw now new_id u db')
  then show ?case
    by (auto simp: repo_bootstrap_user_def device_revoked_def split: option.splits if_splits)
next
  case (step_login db user did' plat dname ah rh expires now sid ident db')
  then obtain db1 where put: "put_device db (uc_user_id user) did' plat dname now = Inr db1"
    and dev: "devices db' = devices db1"
    by (auto simp: create_session_def res_simps split: if_splits)
  from put_device_Inr [OF put] step_login.prems dev show ?case
    by (auto simp: device_revoked_def split: option.splits)
next
  case (step_access db ah now ident db')
  then show ?case by (auto simp: authenticate_access_Inr device_revoked_touch)
next
  case (step_refresh db rh ah' rh' expires ttl now r db')
  from step_refresh.hyps show ?case
  proof (cases rule: rotate_refresh_cases)
    case (rotated sid s u d)
    then show ?thesis using step_refresh.prems by (simp add: device_revoked_touch)
  qed (use step_refresh.prems in \<open>auto simp: device_revoked_def\<close>)
next
  case (step_logout db sid now)
  then show ?case by (simp add: revoke_session_def device_revoked_def)
next
  case (step_revoke db u d now db')
  then show ?case
    by (auto simp: revoke_device_def device_revoked_def split: option.splits if_splits)
qed

lemma repo_steps_device_revoked:
  "repo_step\<^sup>*\<^sup>* db db' \<Longrightarrow> device_revoked db uid did \<Longrightarrow> device_revoked db' uid did"
  by (induction rule: rtranclp_induct) (auto intro: repo_step_device_revoked)

lemma revoked_device_refused:
  assumes "device_revoked db uid did"
  shows "authenticate_access db h now = Inr (ident, db') \<Longrightarrow> (si_user_id ident, si_device_id ident) \<noteq> (uid, did)"
    and "rotate_refresh db rh ah' rh' expires ttl now = (Inr ident, db') \<Longrightarrow>
           (si_user_id ident, si_device_id ident) \<noteq> (uid, did)"
    and "uc_user_id user = uid \<Longrightarrow>
           create_session db user did plat dname ah rh expires now sid = Inl DeviceRevoked"
proof -
  show "(si_user_id ident, si_device_id ident) \<noteq> (uid, did)"
    if "authenticate_access db h now = Inr (ident, db')"
    using that assms
    by (auto simp: authenticate_access_Inr join_identity_def device_revoked_def
        dest!: session_join_Some)
  show "(si_user_id ident, si_device_id ident) \<noteq> (uid, did)"
    if "rotate_refresh db rh ah' rh' expires ttl now = (Inr ident, db')"
    using that
  proof (cases rule: rotate_refresh_cases)
    case (rotated sid s u d)
    then show ?thesis using assms
      by (auto simp: join_identity_def device_revoked_def dest!: session_join_Some)
  qed auto
  show "create_session db user did plat dname ah rh expires now sid = Inl DeviceRevoked"
    if "uc_user_id user = uid"
    using assms that
    by (auto simp: create_session_def put_device_def device_revoked_def split: option.splits)
qed

section \<open>Properties\<close>

text \<open>
  C7: revocation of a device is permanent. After \<open>revoke_device\<close> succeeds, whatever the repository
  does afterwards, no access token and no refresh token authenticates as that device again, and a
  login for it is refused with \<open>DeviceRevoked\<close>.
\<close>

theorem device_revocation_permanent:
  assumes "revoke_device db uid did t = Inr db1" and "repo_step\<^sup>*\<^sup>* db1 db2"
  shows "(\<forall>h now ident db3. authenticate_access db2 h now = Inr (ident, db3) \<longrightarrow>
            (si_user_id ident, si_device_id ident) \<noteq> (uid, did))
       \<and> (\<forall>rh ah' rh' expires ttl now ident db3.
            rotate_refresh db2 rh ah' rh' expires ttl now = (Inr ident, db3) \<longrightarrow>
            (si_user_id ident, si_device_id ident) \<noteq> (uid, did))
       \<and> (\<forall>user plat dname ah rh expires now sid. uc_user_id user = uid \<longrightarrow>
            create_session db2 user did plat dname ah rh expires now sid = Inl DeviceRevoked)"
proof -
  have "device_revoked db1 uid did"
    using assms(1) by (auto simp: revoke_device_def device_revoked_def tbl_has_get split: if_splits option.splits)
  with assms(2) have r: "device_revoked db2 uid did" by (rule repo_steps_device_revoked)
  show ?thesis
    by (intro conjI allI impI)
       (erule revoked_device_refused(1) [OF r] revoked_device_refused(2) [OF r]
          revoked_device_refused(3) [OF r])+
qed

definition example_user :: user_credential where
  "example_user = \<lparr>uc_user_id = ''u1'', uc_username = ''ann'', uc_password_hash = ''h'',
     uc_sync_revision = 0, uc_disabled = False\<rparr>"

definition example_login_db :: server_db where
  "example_login_db =
     snd (projr (create_session
       (snd (projr (repo_bootstrap_user empty_server_db ''ann'' ''h'' 5 ''u1'')))
       example_user ''d1'' ''macos'' None ''a1'' ''r1'' 100 10 ''s1''))"

lemma example_login_inv: "identity_inv example_login_db"
proof -
  let ?db0 = "snd (projr (repo_bootstrap_user empty_server_db ''ann'' ''h'' 5 ''u1''))"
  have "repo_bootstrap_user empty_server_db ''ann'' ''h'' 5 ''u1'' = Inr (''u1'', ?db0)"
    by code_simp
  then have "identity_inv ?db0" using bootstrap_identity_inv identity_inv_empty by blast
  moreover have "isl (create_session ?db0 example_user ''d1'' ''macos'' None ''a1'' ''r1'' 100 10 ''s1'') = False"
    by code_simp
  then have "\<exists>i. create_session ?db0 example_user ''d1'' ''macos'' None ''a1'' ''r1'' 100 10 ''s1''
      = Inr (i, example_login_db)"
    unfolding example_login_db_def by (metis prod.collapse sum.collapse(2))
  ultimately show ?thesis using create_session_identity_inv by blast
qed

theorem device_revocation_permanent_witness:
  "\<exists>db1. revoke_device example_login_db ''u1'' ''d1'' 20 = Inr db1
     \<and> create_session db1 example_user ''d1'' ''macos'' None ''a2'' ''r2'' 200 30 ''s2'' = Inl DeviceRevoked"
proof -
  have "tbl_has (devices example_login_db) (''u1'', ''d1'')" by code_simp
  then obtain db1 where r: "revoke_device example_login_db ''u1'' ''d1'' 20 = Inr db1"
    by (auto simp: revoke_device_def)
  have "uc_user_id example_user = ''u1''" by (simp add: example_user_def)
  then have "create_session db1 example_user ''d1'' ''macos'' None ''a2'' ''r2'' 200 30 ''s2''
      = Inl DeviceRevoked"
    using device_revocation_permanent [OF r rtranclp.rtrancl_refl] by simp
  with r show ?thesis by simp
qed

lemma access_hash_session:
  assumes "identity_inv db" "tbl_get (sessions db) sid = Some s"
  shows "find (\<lambda>(k, v). se_access_token_hash v = se_access_token_hash s) (sessions db) = Some (sid, s)"
proof (rule find_unique)
  show mem: "(sid, s) \<in> set (sessions db)" using assms by (simp add: tbl_get_in_set identity_inv_def)
  fix p assume "p \<in> set (sessions db)" "(\<lambda>(k, v). se_access_token_hash v = se_access_token_hash s) p"
  then show "p = (sid, s)" using assms(1) mem unfolding identity_inv_def
    by (auto simp: distinct_map dest!: inj_onD [where x = p and y = "(sid, s)"])
qed simp

lemma refresh_hash_session:
  assumes "identity_inv db" "(k, v) \<in> set (sessions db)" "(sid, s) \<in> set (sessions db)"
    and "se_refresh_token_hash v = se_refresh_token_hash s"
  shows "k = sid"
  using assms unfolding identity_inv_def by (auto simp: distinct_map dest!: inj_onD [where x = "(k, v)" and y = "(sid, s)"])

text \<open>
  C8: refresh-token rotation. When \<open>rotate_refresh\<close> succeeds, the presented refresh token is dead
  (a replay is refused with \<open>SessionInvalid\<close> and changes nothing) and the new access token
  authenticates as the same user and device until it expires.
\<close>

theorem refresh_rotation:
  assumes "identity_inv db" and "rotate_refresh db rh ah' rh' expires ttl now = (Inr ident, db')"
    and "rh' \<noteq> rh" and "t < expires"
  shows "rotate_refresh db' rh ah2 rh2 e2 ttl2 now2 = (Inl SessionInvalid, db')
       \<and> (\<exists>ident' db''. authenticate_access db' ah' t = Inr (ident', db'')
            \<and> si_session_id ident' = si_session_id ident \<and> si_user_id ident' = si_user_id ident
            \<and> si_device_id ident' = si_device_id ident)"
  using assms(2)
proof (cases rule: rotate_refresh_cases)
  case (rotated sid s u d)
  let ?new = "s\<lparr>se_access_token_hash := ah', se_refresh_token_hash := rh',
      se_access_expires_at := expires, se_last_refreshed_at := now, se_last_seen_at := now\<rparr>"
  have inv': "identity_inv db'" using assms(1,2) by (rule rotate_refresh_identity_inv)
  have wf: "tbl_wf (sessions db)" "tbl_wf (sessions db')"
    using assms(1) inv' by (simp_all add: identity_inv_def)
  have get: "tbl_get (sessions db) sid = Some s" using rotated(1) wf(1) by (rule session_join_has)
  have get': "tbl_get (sessions db') sid = Some ?new" by (simp add: rotated(7) get)
  note join = session_join_Some [OF rotated(1)]
  have "se_refresh_token_hash v \<noteq> rh" if m: "(k, v) \<in> set (sessions db')" for k v
  proof (cases "k = sid")
    case True
    with m get' wf(2) have "v = ?new" by (simp add: tbl_get_in_set)
    with assms(3) show ?thesis by simp
  next
    case False
    with m wf have "(k, v) \<in> set (sessions db)" by (simp add: tbl_get_in_set rotated(7))
    then show ?thesis using refresh_hash_session [OF assms(1), of k v sid s] join False by auto
  qed
  then have "find (\<lambda>(k, v). se_refresh_token_hash v = rh) (sessions db') = None" by (auto simp: find_None_iff)
  then have "session_join db' (\<lambda>s. se_refresh_token_hash s = rh) = None" by (simp add: session_join_def)
  moreover have "session_join db' (\<lambda>s. se_access_token_hash s = ah')
      = Some (sid, ?new, u, d\<lparr>dv_last_seen_at := now\<rparr>)"
    using access_hash_session [OF inv' get'] join by (simp add: session_join_def rotated(7))
  ultimately show ?thesis
    using rotated(2-5) assms(4)
    by (auto simp: rotate_refresh_def authenticate_access_def join_identity_def)
qed auto

theorem refresh_rotation_witness:
  "\<exists>db'. rotate_refresh example_login_db ''r1'' ''a2'' ''r2'' 200 1000 20
      = (Inr \<lparr>si_session_id = ''s1'', si_user_id = ''u1'', si_username = ''ann'',
              si_device_id = ''d1'', si_platform = ''macos'', si_latest_revision = 0\<rparr>, db')
    \<and> fst (rotate_refresh db' ''r1'' ''a3'' ''r3'' 300 1000 30) = Inl SessionInvalid"
proof -
  have "fst (rotate_refresh example_login_db ''r1'' ''a2'' ''r2'' 200 1000 20)
      = Inr \<lparr>si_session_id = ''s1'', si_user_id = ''u1'', si_username = ''ann'',
              si_device_id = ''d1'', si_platform = ''macos'', si_latest_revision = 0\<rparr>"
    by code_simp
  then obtain db' where r: "rotate_refresh example_login_db ''r1'' ''a2'' ''r2'' 200 1000 20
      = (Inr \<lparr>si_session_id = ''s1'', si_user_id = ''u1'', si_username = ''ann'',
              si_device_id = ''d1'', si_platform = ''macos'', si_latest_revision = 0\<rparr>, db')"
    by (metis prod.collapse)
  show ?thesis using refresh_rotation [OF example_login_inv r, of 199] r by auto
qed

end
