(* ===== verification/Server_Sync.thy ===== *)
theory Server_Sync
  imports Server_Store
begin

text \<open>
  \<open>apps/server/src/sync_repository.rs\<close>: the Server side of synchronization. Every function takes
  the database of the open transaction and returns the changed one; an error (\<open>Inl\<close>) rolls the
  transaction back, so the caller keeps the database it had. The JSON encoding of an event
  (\<open>serde_json\<close>) and SHA-256 (\<open>sha2\<close>) are the parameters \<open>js\<close> and \<open>sha\<close> of the fingerprint.
\<close>

section \<open>Results and errors\<close>

record sync_conflict =
  cf_event_id :: "string option"
  cf_current :: "favorite_record option"
  cf_latest_revision :: u64

datatype sync_repository_error =
  Repository repository_error | Conflict sync_conflict | InvalidEvent

record 'a mutation_result =
  mr_value :: 'a
  mr_changed_revision :: "u64 option"

record event_outcome =
  eo_ack :: push_ack
  eo_changed_revision :: "u64 option"

type_synonym event_json = "push_event \<Rightarrow> byte list"

section \<open>Reads\<close>

definition user_revision :: "server_db \<Rightarrow> string \<Rightarrow> sync_repository_error + u64" where
  "user_revision db user_id =
     (case tbl_get (users db) user_id of
        None \<Rightarrow> Inl (Repository Database)
      | Some row \<Rightarrow> ok_or InvalidEvent (u64_of_i64 (us_sync_revision row)))"

definition stats_rows :: "server_db \<Rightarrow> string \<Rightarrow> string \<Rightarrow> device_stats_row list" where
  "stats_rows db user_id content_key =
     map snd (filter (\<lambda>((uid, did, key), r). uid = user_id \<and> key = content_key)
       (device_query_stats db))"

text \<open>\<open>SUM\<close>, \<open>MIN\<close> and \<open>MAX\<close> over no rows are \<open>NULL\<close>; a sum beyond 64 bits is an SQLite error.\<close>

definition aggregate_stats ::
  "server_db \<Rightarrow> string \<Rightarrow> string \<Rightarrow> sync_repository_error + aggregate_query_stats option" where
  "aggregate_stats db user_id content_key =
     (let rows = stats_rows db user_id content_key; count = sum_list (map ds_query_count rows) in
      if rows = [] then Inr None
      else if count > i64_max then Inl (Repository Database)
      else rbind (ok_or InvalidEvent (u64_of_i64 count)) (\<lambda>n.
        Inr (Some \<lparr>ag_query_count = n,
          ag_first_queried_at = Min (set (map ds_first_queried_at rows)),
          ag_last_queried_at = Max (set (map ds_last_queried_at rows))\<rparr>)))"

definition favorite_record ::
  "server_db \<Rightarrow> string \<Rightarrow> string \<Rightarrow> sync_repository_error + favorite_record option" where
  "favorite_record db user_id content_key =
     (case tbl_get (server_favorites db) (user_id, content_key) of
        None \<Rightarrow> Inr None
      | Some row \<Rightarrow>
          rbind (ok_or (Repository Database) (u32_of_i64 (sf_key_version row))) (\<lambda>key_version.
          rbind (ok_or (Repository Database) (u64_of_i64 (sf_entity_revision row))) (\<lambda>entity_revision.
          rbind (aggregate_stats db user_id content_key) (\<lambda>aggregate.
          Inr (Some \<lparr>fr_content_key = content_key, fr_key_version = key_version,
            fr_favorite = sf_snapshot row, fr_deleted_at = sf_deleted_at row,
            fr_entity_revision = entity_revision,
            fr_server_received_at = sf_server_received_at row, fr_aggregate = aggregate\<rparr>)))))"

definition parse_operation :: "string \<Rightarrow> sync_repository_error + sync_operation" where
  "parse_operation v = ok_or InvalidEvent (operation_of_name v)"

section \<open>Writes\<close>

definition upsert_favorite ::
  "server_db \<Rightarrow> string \<Rightarrow> push_event \<Rightarrow> favorite_snapshot \<Rightarrow> u64 \<Rightarrow> i64
    \<Rightarrow> sync_repository_error + server_db" where
  "upsert_favorite db user_id event snapshot entity_revision now =
     rbind (ok_or InvalidEvent (i64_of_u64 entity_revision)) (\<lambda>revision.
       if length (pe_content_key event) \<noteq> 64 \<or> pe_key_version event = 0
          \<or> \<not> (fs_kind snapshot = ''word'' \<or> fs_kind snapshot = ''text'') \<or> revision \<le> 0
          \<or> \<not> tbl_has (users db) user_id
       then Inl (Repository Database)
       else Inr (db\<lparr>server_favorites := tbl_put (user_id, pe_content_key event)
         \<lparr>sf_key_version = int (pe_key_version event), sf_snapshot = snapshot,
          sf_deleted_at = None, sf_entity_revision = revision, sf_server_received_at = now\<rparr>
         (server_favorites db)\<rparr>))"

text \<open>The \<open>UPDATE favorites SET deleted_at, updated_at, entity_revision, server_received_at\<close> of a
  deletion (\<open>Some now\<close>) and of a reactivation (\<open>None\<close>).\<close>

definition set_deleted ::
  "server_db \<Rightarrow> string \<Rightarrow> string \<Rightarrow> i64 option \<Rightarrow> u64 \<Rightarrow> i64 \<Rightarrow> sync_repository_error + server_db" where
  "set_deleted db user_id content_key deleted_at entity_revision now =
     rbind (ok_or InvalidEvent (i64_of_u64 entity_revision)) (\<lambda>revision.
       if revision \<le> 0 then Inl (Repository Database)
       else Inr (db\<lparr>server_favorites := tbl_modify (user_id, content_key)
         (\<lambda>r. r\<lparr>sf_snapshot := (sf_snapshot r)\<lparr>fs_updated_at := now\<rparr>, sf_deleted_at := deleted_at,
                sf_entity_revision := revision, sf_server_received_at := now\<rparr>)
         (server_favorites db)\<rparr>))"

definition merged_stats :: "device_stats_row option \<Rightarrow> query_stats_snapshot \<Rightarrow> i64 \<Rightarrow> device_stats_row" where
  "merged_stats existing stats query_count =
     (case existing of
        None \<Rightarrow> \<lparr>ds_query_count = query_count, ds_first_queried_at = qss_first_queried_at stats,
                 ds_last_queried_at = qss_last_queried_at stats, ds_updated_at = qss_updated_at stats\<rparr>
      | Some v \<Rightarrow> \<lparr>ds_query_count = max (ds_query_count v) query_count,
                   ds_first_queried_at = min (ds_first_queried_at v) (qss_first_queried_at stats),
                   ds_last_queried_at = max (ds_last_queried_at v) (qss_last_queried_at stats),
                   ds_updated_at = max (ds_updated_at v) (qss_updated_at stats)\<rparr>)"

definition merge_query_stats ::
  "server_db \<Rightarrow> string \<Rightarrow> string \<Rightarrow> string \<Rightarrow> query_stats_snapshot
    \<Rightarrow> sync_repository_error + (bool \<times> server_db)" where
  "merge_query_stats db user_id device_id content_key stats =
     rbind (ok_or InvalidEvent (i64_of_u64 (qss_query_count stats))) (\<lambda>query_count.
       let existing = tbl_get (device_query_stats db) (user_id, device_id, content_key);
           merged = merged_stats existing stats query_count
       in if existing = Some merged then Inr (False, db)
          else if ds_query_count merged < 0 \<or> \<not> tbl_has (devices db) (user_id, device_id)
                  \<or> \<not> tbl_has (server_favorites db) (user_id, content_key)
          then Inl (Repository Database)
          else Inr (True, db\<lparr>device_query_stats :=
            tbl_put (user_id, device_id, content_key) merged (device_query_stats db)\<rparr>))"

definition record_change ::
  "server_db \<Rightarrow> string \<Rightarrow> string \<Rightarrow> u64 \<Rightarrow> sync_operation \<Rightarrow> i64
    \<Rightarrow> sync_repository_error + (u64 \<times> server_db)" where
  "record_change db user_id content_key entity_revision operation now =
     (case tbl_get (users db) user_id of
        None \<Rightarrow> Inl (Repository Database)
      | Some row \<Rightarrow>
          rbind (ok_or (Repository Database) (sql_succ (us_sync_revision row))) (\<lambda>next.
          let db1 = db\<lparr>users := tbl_modify user_id (\<lambda>r. r\<lparr>us_sync_revision := next\<rparr>) (users db)\<rparr> in
          rbind (user_revision db1 user_id) (\<lambda>revision.
          rbind (ok_or InvalidEvent (i64_of_u64 revision)) (\<lambda>rev.
          rbind (ok_or InvalidEvent (i64_of_u64 entity_revision)) (\<lambda>entity.
            if rev \<le> 0 \<or> entity \<le> 0 \<or> tbl_has (change_log db1) (user_id, rev)
               \<or> \<not> tbl_has (server_favorites db1) (user_id, content_key)
            then Inl (Repository Database)
            else Inr (revision, db1\<lparr>change_log := tbl_put (user_id, rev)
              \<lparr>cl_content_key = content_key, cl_entity_revision = entity,
               cl_operation = operation_name operation, cl_changed_at = now\<rparr>
              (change_log db1)\<rparr>))))))"

section \<open>Events\<close>

text \<open>The entity part of \<open>apply_event\<close>: the new database, whether the favorite changed, and its
  revision afterwards.\<close>

definition apply_entity ::
  "server_db \<Rightarrow> string \<Rightarrow> push_event \<Rightarrow> favorite_record option \<Rightarrow> i64
    \<Rightarrow> sync_repository_error + (server_db \<times> bool \<times> u64 option)" where
  "apply_entity db user_id event current now =
     (let entity_revision = map_option fr_entity_revision current in
      case pe_operation event of
        FavoriteUpsert \<Rightarrow>
          rbind (ok_or InvalidEvent (pe_favorite event)) (\<lambda>snapshot.
          rbind (ok_or InvalidEvent
              (checked_add_u64 (case entity_revision of None \<Rightarrow> 0 | Some r \<Rightarrow> r) 1)) (\<lambda>next_revision.
            let matches = (case current of None \<Rightarrow> False
                  | Some v \<Rightarrow> fr_favorite v = snapshot \<and> fr_deleted_at v = None)
            in if \<not> matches then
                 rbind (upsert_favorite db user_id event snapshot next_revision now) (\<lambda>db1.
                   Inr (db1, True, Some next_revision))
               else Inr (db, False, entity_revision)))
      | FavoriteDelete \<Rightarrow>
          if pe_favorite event \<noteq> None then Inl InvalidEvent
          else (case current of
              None \<Rightarrow> Inl InvalidEvent
            | Some v \<Rightarrow>
                if fr_deleted_at v = None then
                  rbind (ok_or InvalidEvent (checked_add_u64 (fr_entity_revision v) 1)) (\<lambda>next_revision.
                  rbind (set_deleted db user_id (pe_content_key event) (Some now) next_revision now)
                    (\<lambda>db1. Inr (db1, True, Some next_revision)))
                else Inr (db, False, entity_revision))
      | QueryStatsUpsert \<Rightarrow>
          if pe_favorite event \<noteq> None \<or> current = None then Inl InvalidEvent
          else Inr (db, False, entity_revision))"

definition apply_event ::
  "server_db \<Rightarrow> string \<Rightarrow> string \<Rightarrow> push_event \<Rightarrow> i64
    \<Rightarrow> sync_repository_error + (event_outcome \<times> server_db)" where
  "apply_event db user_id device_id event now =
     rbind (favorite_record db user_id (pe_content_key event)) (\<lambda>current.
     if pe_operation event \<noteq> QueryStatsUpsert
        \<and> (case current of None \<Rightarrow> 0 | Some f \<Rightarrow> fr_entity_revision f) \<noteq> pe_base_entity_revision event
     then rbind (user_revision db user_id) (\<lambda>latest.
       Inl (Conflict \<lparr>cf_event_id = Some (pe_event_id event), cf_current = current,
                      cf_latest_revision = latest\<rparr>))
     else
     rbind (apply_entity db user_id event current now) (\<lambda>(db1, entity_changed, entity_revision).
     rbind (case pe_query_stats event of
              None \<Rightarrow> Inr (False, db1)
            | Some stats \<Rightarrow> merge_query_stats db1 user_id device_id (pe_content_key event) stats)
       (\<lambda>(stats_changed, db2).
     if pe_operation event = QueryStatsUpsert \<and> pe_query_stats event = None then Inl InvalidEvent
     else
     rbind (if pe_query_stats event \<noteq> None then aggregate_stats db2 user_id (pe_content_key event)
            else Inr None) (\<lambda>aggregate.
     let changed = (entity_changed \<or> stats_changed) in
     rbind (if changed then
              rbind (ok_or InvalidEvent entity_revision) (\<lambda>er.
                record_change db2 user_id (pe_content_key event) er (pe_operation event) now)
            else rbind (user_revision db2 user_id) (\<lambda>r. Inr (r, db2)))
       (\<lambda>(revision, db3).
     Inr (\<lparr>eo_ack = \<lparr>pa_event_id = pe_event_id event,
             pa_status = (if changed then Applied else NoChange),
             pa_entity_revision = (if pe_operation event = QueryStatsUpsert then None
                                   else entity_revision),
             pa_user_revision = revision, pa_aggregate = aggregate\<rparr>,
           eo_changed_revision = (if changed then Some revision else None)\<rparr>, db3))))))"

section \<open>Processed events\<close>

definition event_fingerprint :: "event_json \<Rightarrow> sha256 \<Rightarrow> push_event \<Rightarrow> string" where
  "event_fingerprint js sha event = to_hex (sha (js event))"

definition processed_ack ::
  "server_db \<Rightarrow> string \<Rightarrow> push_event \<Rightarrow> string \<Rightarrow> sync_repository_error + push_ack option" where
  "processed_ack db user_id event fingerprint =
     (case tbl_get (processed_sync_events db) (user_id, pe_event_id event) of
        None \<Rightarrow> Inr None
      | Some row \<Rightarrow>
          if ps_event_fingerprint row \<noteq> fingerprint then Inl InvalidEvent
          else
          rbind (case (ps_aggregate_query_count row, ps_aggregate_first_queried_at row,
                       ps_aggregate_last_queried_at row) of
                   (Some count, Some first_at, Some last_at) \<Rightarrow>
                     rbind (ok_or InvalidEvent (u64_of_i64 count)) (\<lambda>n.
                       Inr (Some \<lparr>ag_query_count = n, ag_first_queried_at = first_at,
                                  ag_last_queried_at = last_at\<rparr>))
                 | (None, None, None) \<Rightarrow> Inr None
                 | _ \<Rightarrow> Inl InvalidEvent) (\<lambda>aggregate.
          rbind (opt_transpose (\<lambda>i. ok_or InvalidEvent (u64_of_i64 i)) (ps_entity_revision row))
            (\<lambda>entity_revision.
          rbind (ok_or InvalidEvent (u64_of_i64 (ps_user_revision row))) (\<lambda>user_rev.
          Inr (Some \<lparr>pa_event_id = pe_event_id event,
            pa_status = (if ps_ack_status row = ''applied'' then Applied else NoChange),
            pa_entity_revision = entity_revision, pa_user_revision = user_rev,
            pa_aggregate = aggregate\<rparr>)))))"

definition store_ack ::
  "server_db \<Rightarrow> string \<Rightarrow> push_event \<Rightarrow> string \<Rightarrow> push_ack \<Rightarrow> i64 \<Rightarrow> sync_repository_error + server_db" where
  "store_ack db user_id event fingerprint ack now =
     rbind (opt_transpose (\<lambda>n. ok_or InvalidEvent (i64_of_u64 n)) (pa_entity_revision ack))
       (\<lambda>entity_revision.
     rbind (ok_or InvalidEvent (i64_of_u64 (pa_user_revision ack))) (\<lambda>user_rev.
     rbind (opt_transpose (\<lambda>a. ok_or InvalidEvent (i64_of_u64 (ag_query_count a))) (pa_aggregate ack))
       (\<lambda>count.
     if tbl_has (processed_sync_events db) (user_id, pe_event_id event) \<or> user_rev < 0
        \<or> \<not> tbl_has (users db) user_id
     then Inl (Repository Database)
     else Inr (db\<lparr>processed_sync_events := tbl_put (user_id, pe_event_id event)
       \<lparr>ps_event_fingerprint = fingerprint, ps_operation = operation_name (pe_operation event),
        ps_ack_status = (if pa_status ack = Applied then ''applied'' else ''no_change''),
        ps_entity_revision = entity_revision, ps_user_revision = user_rev,
        ps_aggregate_query_count = count,
        ps_aggregate_first_queried_at = map_option ag_first_queried_at (pa_aggregate ack),
        ps_aggregate_last_queried_at = map_option ag_last_queried_at (pa_aggregate ack),
        ps_processed_at = now\<rparr>
       (processed_sync_events db)\<rparr>))))"

section \<open>The operations of the repository\<close>

text \<open>\<open>Option::max\<close>: \<open>None\<close> is below every \<open>Some\<close>.\<close>

definition option_max :: "u64 option \<Rightarrow> u64 option \<Rightarrow> u64 option" where
  "option_max a b = (case (a, b) of (None, y) \<Rightarrow> y | (x, None) \<Rightarrow> x | (Some x, Some y) \<Rightarrow> Some (max x y))"

type_synonym push_state = "server_db \<times> push_ack list \<times> u64 option"

text \<open>One turn of the loop of \<open>push_events\<close>.\<close>

definition push_one ::
  "event_json \<Rightarrow> sha256 \<Rightarrow> string \<Rightarrow> string \<Rightarrow> i64 \<Rightarrow> push_event \<Rightarrow> push_state
    \<Rightarrow> sync_repository_error + push_state" where
  "push_one js sha user_id device_id now event st = (case st of (db, acks, changed) \<Rightarrow>
     let fingerprint = event_fingerprint js sha event in
     rbind (processed_ack db user_id event fingerprint) (\<lambda>known.
       case known of
         Some ack \<Rightarrow> Inr (db, acks @ [ack], changed)
       | None \<Rightarrow>
           rbind (apply_event db user_id device_id event now) (\<lambda>(outcome, db1).
           rbind (store_ack db1 user_id event fingerprint (eo_ack outcome) now) (\<lambda>db2.
             Inr (db2, acks @ [eo_ack outcome],
                  option_max changed (eo_changed_revision outcome))))))"

definition push_events ::
  "event_json \<Rightarrow> sha256 \<Rightarrow> server_db \<Rightarrow> string \<Rightarrow> string \<Rightarrow> push_event list \<Rightarrow> i64
    \<Rightarrow> sync_repository_error + (push_response mutation_result \<times> server_db)" where
  "push_events js sha db user_id device_id events now =
     rbind (foldM (push_one js sha user_id device_id now) events (db, [], None))
       (\<lambda>(db1, acks, changed).
     rbind (user_revision db1 user_id) (\<lambda>latest.
       Inr (\<lparr>mr_value = \<lparr>pr_acknowledgements = acks, pr_latest_revision = latest\<rparr>,
             mr_changed_revision = changed\<rparr>, db1)))"

definition change_rows :: "server_db \<Rightarrow> string \<Rightarrow> i64 \<Rightarrow> nat \<Rightarrow> (i64 \<times> change_row) list" where
  "change_rows db user_id since limit =
     sql_order_limit fst limit
       (map (\<lambda>((uid, rev), row). (rev, row))
         (filter (\<lambda>((uid, rev), row). uid = user_id \<and> rev > since) (change_log db)))"

definition sync_change_of_row ::
  "server_db \<Rightarrow> string \<Rightarrow> i64 \<times> change_row \<Rightarrow> sync_repository_error + sync_change" where
  "sync_change_of_row db user_id entry = (case entry of (revision, row) \<Rightarrow>
     rbind (favorite_record db user_id (cl_content_key row)) (\<lambda>found.
     rbind (ok_or InvalidEvent found) (\<lambda>favorite.
     rbind (ok_or InvalidEvent (u64_of_i64 revision)) (\<lambda>rev.
     rbind (parse_operation (cl_operation row)) (\<lambda>operation.
       Inr \<lparr>sc_revision = rev, sc_operation = operation, sc_favorite = favorite\<rparr>)))))"

definition changes_since ::
  "server_db \<Rightarrow> string \<Rightarrow> u64 \<Rightarrow> usize \<Rightarrow> sync_repository_error + changes_response" where
  "changes_since db user_id since limit =
     rbind (user_revision db user_id) (\<lambda>latest.
     rbind (ok_or InvalidEvent (i64_of_u64 since)) (\<lambda>since_database.
     rbind (ok_or InvalidEvent (i64_of_u64 limit)) (\<lambda>_.
     rbind (mapM (sync_change_of_row db user_id) (change_rows db user_id since_database limit))
       (\<lambda>changes.
       let next_revision = (if changes = [] then since else sc_revision (last changes)) in
       Inr \<lparr>cr_changes = changes, cr_next_revision = next_revision,
            cr_latest_revision = latest, cr_has_more = (next_revision < latest)\<rparr>))))"

definition active_favorites ::
  "server_db \<Rightarrow> string \<Rightarrow> sync_repository_error + (favorite_record list \<times> u64)" where
  "active_favorites db user_id =
     (let keys = map (\<lambda>((uid, key), row). key)
        (sort_key (\<lambda>((uid, key), row). (- fs_favorited_at (sf_snapshot row), key))
          (filter (\<lambda>((uid, key), row). uid = user_id \<and> sf_deleted_at row = None)
            (server_favorites db)))
      in rbind (mapM (\<lambda>key. rbind (favorite_record db user_id key) (ok_or InvalidEvent)) keys)
        (\<lambda>favorites. rbind (user_revision db user_id) (\<lambda>latest. Inr (favorites, latest))))"

definition set_favorite_state ::
  "server_db \<Rightarrow> string \<Rightarrow> string \<Rightarrow> bool \<Rightarrow> u64 \<Rightarrow> i64
    \<Rightarrow> sync_repository_error + (favorite_record mutation_result \<times> server_db)" where
  "set_favorite_state db user_id content_key active base_entity_revision now =
     rbind (favorite_record db user_id content_key) (\<lambda>found.
     rbind (ok_or (Repository NotFound) found) (\<lambda>current.
     if fr_entity_revision current \<noteq> base_entity_revision then
       rbind (user_revision db user_id) (\<lambda>latest.
         Inl (Conflict \<lparr>cf_event_id = None, cf_current = Some current,
                        cf_latest_revision = latest\<rparr>))
     else
     rbind (if (fr_deleted_at current = None) = active then Inr (None, db)
            else
              rbind (ok_or InvalidEvent (checked_add_u64 (fr_entity_revision current) 1))
                (\<lambda>entity_revision.
              rbind (set_deleted db user_id content_key (if active then None else Some now)
                       entity_revision now) (\<lambda>db1.
              rbind (record_change db1 user_id content_key entity_revision
                       (if active then FavoriteUpsert else FavoriteDelete) now)
                (\<lambda>(revision, db2). Inr (Some revision, db2)))))
       (\<lambda>(changed_revision, db3).
     rbind (favorite_record db3 user_id content_key) (\<lambda>again.
     rbind (ok_or InvalidEvent again) (\<lambda>result.
       Inr (\<lparr>mr_value = result, mr_changed_revision = changed_revision\<rparr>, db3))))))"

section \<open>Consistency of the synchronization tables\<close>

text \<open>
  What the tables promise each other. The change log of a user holds exactly the revisions
  \<open>1..sync_revision\<close>, every row names a favorite that exists and an operation that parses;
  favorites carry a positive revision; per-device counters belong to a device and a favorite and
  their sum fits a 64-bit column; a processed event can be read back as an acknowledgement.
\<close>

definition log_inv :: "server_db \<Rightarrow> bool" where
  "log_inv db \<longleftrightarrow> tbl_wf (users db) \<and> tbl_wf (change_log db)
     \<and> (\<forall>uid u. tbl_get (users db) uid = Some u \<longrightarrow>
          0 \<le> us_sync_revision u \<and> us_sync_revision u \<le> i64_max)
     \<and> (\<forall>uid rev. tbl_has (change_log db) (uid, rev) \<longleftrightarrow>
          (\<exists>u. tbl_get (users db) uid = Some u \<and> 1 \<le> rev \<and> rev \<le> us_sync_revision u))
     \<and> (\<forall>uid rev row. tbl_get (change_log db) (uid, rev) = Some row \<longrightarrow>
          tbl_has (server_favorites db) (uid, cl_content_key row)
          \<and> (\<exists>op. cl_operation row = operation_name op))"

definition fav_inv :: "server_db \<Rightarrow> bool" where
  "fav_inv db \<longleftrightarrow> tbl_wf (server_favorites db)
     \<and> (\<forall>uid key r. tbl_get (server_favorites db) (uid, key) = Some r \<longrightarrow>
          tbl_has (users db) uid \<and> 1 \<le> sf_entity_revision r \<and> sf_entity_revision r \<le> i64_max
          \<and> 1 \<le> sf_key_version r \<and> sf_key_version r \<le> int u32_max)"

definition stats_inv :: "server_db \<Rightarrow> bool" where
  "stats_inv db \<longleftrightarrow> tbl_wf (device_query_stats db)
     \<and> (\<forall>uid did key r. tbl_get (device_query_stats db) (uid, did, key) = Some r \<longrightarrow>
          tbl_has (devices db) (uid, did) \<and> tbl_has (server_favorites db) (uid, key)
          \<and> 0 \<le> ds_query_count r)"

definition sums_inv :: "server_db \<Rightarrow> bool" where
  "sums_inv db \<longleftrightarrow> (\<forall>uid key. sum_list (map ds_query_count (stats_rows db uid key)) \<le> i64_max)"

definition ack_row_ok :: "processed_row \<Rightarrow> bool" where
  "ack_row_ok row \<longleftrightarrow> 0 \<le> ps_user_revision row
     \<and> (\<forall>n. ps_entity_revision row = Some n \<longrightarrow> 0 \<le> n)
     \<and> (\<forall>n. ps_aggregate_query_count row = Some n \<longrightarrow> 0 \<le> n)
     \<and> (ps_aggregate_first_queried_at row = None \<longleftrightarrow> ps_aggregate_query_count row = None)
     \<and> (ps_aggregate_last_queried_at row = None \<longleftrightarrow> ps_aggregate_query_count row = None)"

definition processed_inv :: "server_db \<Rightarrow> bool" where
  "processed_inv db \<longleftrightarrow> tbl_wf (processed_sync_events db)
     \<and> (\<forall>k row. tbl_get (processed_sync_events db) k = Some row \<longrightarrow> ack_row_ok row)"

definition sync_inv :: "server_db \<Rightarrow> bool" where
  "sync_inv db \<longleftrightarrow> log_inv db \<and> fav_inv db \<and> stats_inv db \<and> sums_inv db \<and> processed_inv db"

text \<open>The ranges of the Rust types of an event's fields.\<close>

definition push_event_typed :: "push_event \<Rightarrow> bool" where
  "push_event_typed e \<longleftrightarrow> pe_key_version e \<le> u32_max \<and> pe_base_entity_revision e \<le> u64_max
     \<and> (\<forall>s. pe_query_stats e = Some s \<longrightarrow> qss_query_count s \<le> u64_max)"

lemma sync_inv_empty: "sync_inv empty_server_db"
  by (simp add: sync_inv_def log_inv_def fav_inv_def stats_inv_def sums_inv_def processed_inv_def
      empty_server_db_def stats_rows_def tbl_has_get i64_max_def)

section \<open>Reading a consistent store\<close>

lemma aggregate_stats_Inr:
  "aggregate_stats db uid key = Inr a \<Longrightarrow>
     sum_list (map ds_query_count (stats_rows db uid key)) \<le> i64_max
     \<and> (a = None \<longleftrightarrow> stats_rows db uid key = [])"
  by (auto simp: aggregate_stats_def Let_def res_simps i64_max_def split: if_splits)

lemma stats_rows_nonneg: "stats_inv db \<Longrightarrow> r \<in> set (stats_rows db uid key) \<Longrightarrow> 0 \<le> ds_query_count r"
  by (auto simp: stats_rows_def stats_inv_def tbl_get_in_set [symmetric])

lemma aggregate_stats_total:
  assumes "stats_inv db" and "sums_inv db"
  shows "\<exists>a. aggregate_stats db uid key = Inr a"
proof -
  have "0 \<le> sum_list (map ds_query_count (stats_rows db uid key))"
    by (rule sum_list_nonneg) (use stats_rows_nonneg [OF assms(1)] in auto)
  moreover have "sum_list (map ds_query_count (stats_rows db uid key)) \<le> i64_max"
    using assms(2) by (simp add: sums_inv_def)
  ultimately show ?thesis by (simp add: aggregate_stats_def Let_def u64_of_i64_def)
qed

text \<open>The record a consistent store holds for a key.\<close>

lemma favorite_record_total:
  assumes "sync_inv db"
  shows "\<exists>a. aggregate_stats db uid key = Inr a \<and> favorite_record db uid key =
     Inr (map_option (\<lambda>row. \<lparr>fr_content_key = key, fr_key_version = nat (sf_key_version row),
            fr_favorite = sf_snapshot row, fr_deleted_at = sf_deleted_at row,
            fr_entity_revision = nat (sf_entity_revision row),
            fr_server_received_at = sf_server_received_at row, fr_aggregate = a\<rparr>)
       (tbl_get (server_favorites db) (uid, key)))"
proof -
  obtain a where a: "aggregate_stats db uid key = Inr a"
    using assms aggregate_stats_total [of db uid key] by (auto simp: sync_inv_def)
  have "1 \<le> sf_entity_revision r \<and> 1 \<le> sf_key_version r \<and> sf_key_version r \<le> int u32_max"
    if "tbl_get (server_favorites db) (uid, key) = Some r" for r
    using that assms by (simp add: sync_inv_def fav_inv_def)
  with a show ?thesis
    by (cases "tbl_get (server_favorites db) (uid, key)")
       (auto simp: favorite_record_def u32_of_i64_def u64_of_i64_def)
qed

lemma user_revision_Inr:
  "user_revision db uid = Inr n \<longleftrightarrow>
     (\<exists>u. tbl_get (users db) uid = Some u \<and> 0 \<le> us_sync_revision u \<and> n = nat (us_sync_revision u))"
  by (auto simp: user_revision_def res_simps split: option.splits)

lemma favorite_record_cases:
  assumes "favorite_record db uid key = Inr found"
  obtains (absent) "found = None" "tbl_get (server_favorites db) (uid, key) = None"
  | (row) row f where "found = Some f" "tbl_get (server_favorites db) (uid, key) = Some row"
      "fr_content_key f = key" "fr_favorite f = sf_snapshot row" "fr_deleted_at f = sf_deleted_at row"
      "int (fr_entity_revision f) = sf_entity_revision row" "int (fr_key_version f) = sf_key_version row"
      "aggregate_stats db uid key = Inr (fr_aggregate f)"
proof (cases "tbl_get (server_favorites db) (uid, key)")
  case None
  with assms absent show thesis by (simp add: favorite_record_def)
next
  case (Some r)
  with assms obtain a where "aggregate_stats db uid key = Inr a"
    "0 \<le> sf_key_version r" "0 \<le> sf_entity_revision r"
    "found = Some \<lparr>fr_content_key = key, fr_key_version = nat (sf_key_version r),
            fr_favorite = sf_snapshot r, fr_deleted_at = sf_deleted_at r,
            fr_entity_revision = nat (sf_entity_revision r),
            fr_server_received_at = sf_server_received_at r, fr_aggregate = a\<rparr>"
    by (auto simp: favorite_record_def res_simps)
  with Some show thesis by (intro row) auto
qed

section \<open>What one event writes\<close>

lemma record_change_Inr:
  assumes "record_change db uid key er op now = Inr (n, db')"
  obtains u where "tbl_get (users db) uid = Some u" "us_sync_revision u < i64_max"
    "int n = us_sync_revision u + 1" "0 < er" "tbl_has (server_favorites db) (uid, key)"
    "\<not> tbl_has (change_log db) (uid, int n)" "int er \<le> i64_max"
    "db' = db\<lparr>users := tbl_modify uid (\<lambda>r. r\<lparr>us_sync_revision := int n\<rparr>) (users db),
              change_log := tbl_put (uid, int n) \<lparr>cl_content_key = key, cl_entity_revision = int er,
                 cl_operation = operation_name op, cl_changed_at = now\<rparr> (change_log db)\<rparr>"
  using assms
  by (auto simp: record_change_def Let_def res_simps user_revision_Inr split: option.splits if_splits)

lemma record_change_log_inv:
  assumes "log_inv db" and "record_change db uid key er op now = Inr (n, db')"
  shows "log_inv db'"
  using assms(2)
proof (rule record_change_Inr)
  fix u
  assume u: "tbl_get (users db) uid = Some u" "us_sync_revision u < i64_max"
    and nrev: "int n = us_sync_revision u + 1"
    and fav: "tbl_has (server_favorites db) (uid, key)"
    and db': "db' = db\<lparr>users := tbl_modify uid (\<lambda>r. r\<lparr>us_sync_revision := int n\<rparr>) (users db),
              change_log := tbl_put (uid, int n) \<lparr>cl_content_key = key, cl_entity_revision = int er,
                 cl_operation = operation_name op, cl_changed_at = now\<rparr> (change_log db)\<rparr>"
  from assms(1) u have "0 \<le> us_sync_revision u" by (simp add: log_inv_def)
  with assms(1) u nrev fav show ?thesis unfolding log_inv_def db'
    by auto
qed

lemma apply_entity_cases:
  assumes "apply_entity db uid e cur now = Inr (db1, ch, er)"
  obtains (same) "db1 = db" "\<not> ch" "er = map_option fr_entity_revision cur"
      "pe_operation e = FavoriteDelete \<or> pe_operation e = QueryStatsUpsert \<or>
         (\<exists>v. cur = Some v \<and> pe_favorite e = Some (fr_favorite v))"
  | (upserted) snapshot n where "pe_operation e = FavoriteUpsert" "pe_favorite e = Some snapshot"
      "ch" "er = Some n" "n = Suc (case cur of None \<Rightarrow> 0 | Some v \<Rightarrow> fr_entity_revision v)"
      "int n \<le> i64_max" "pe_key_version e \<noteq> 0" "tbl_has (users db) uid" "length (pe_content_key e) = 64"
      "db1 = db\<lparr>server_favorites := tbl_put (uid, pe_content_key e)
         \<lparr>sf_key_version = int (pe_key_version e), sf_snapshot = snapshot,
          sf_deleted_at = None, sf_entity_revision = int n, sf_server_received_at = now\<rparr>
         (server_favorites db)\<rparr>"
  | (deleted) v n where "pe_operation e = FavoriteDelete" "cur = Some v" "fr_deleted_at v = None"
      "ch" "er = Some n" "n = Suc (fr_entity_revision v)" "int n \<le> i64_max"
      "db1 = db\<lparr>server_favorites := tbl_modify (uid, pe_content_key e)
         (\<lambda>r. r\<lparr>sf_snapshot := (sf_snapshot r)\<lparr>fs_updated_at := now\<rparr>, sf_deleted_at := Some now,
                sf_entity_revision := int n, sf_server_received_at := now\<rparr>)
         (server_favorites db)\<rparr>"
proof (cases "pe_operation e")
  case op: FavoriteUpsert
  define n where "n = Suc (case cur of None \<Rightarrow> 0 | Some v \<Rightarrow> fr_entity_revision v)"
  from assms op obtain snapshot where fav: "pe_favorite e = Some snapshot"
    by (auto simp: apply_entity_def res_simps)
  show thesis
  proof (cases "\<exists>v. cur = Some v \<and> fr_favorite v = snapshot \<and> fr_deleted_at v = None")
    case True
    with assms op fav show thesis
      by (intro same) (auto simp: apply_entity_def res_simps)
  next
    case False
    then have "\<not> (case cur of None \<Rightarrow> False
                  | Some v \<Rightarrow> fr_favorite v = snapshot \<and> fr_deleted_at v = None)"
      by (auto split: option.splits)
    with assms op fav have "upsert_favorite db uid e snapshot n now = Inr db1" "ch" "er = Some n"
      by (cases cur; simp add: apply_entity_def res_simps n_def)+
    with op fav show thesis
      by (intro upserted [OF op fav _ _ n_def]) (auto simp: upsert_favorite_def res_simps split: if_splits)
  qed
next
  case op: FavoriteDelete
  with assms obtain v where cur: "cur = Some v"
    by (auto simp: apply_entity_def split: if_splits option.splits)
  show thesis
  proof (cases "fr_deleted_at v = None")
    case True
    with assms op cur have "set_deleted db uid (pe_content_key e) (Some now) (Suc (fr_entity_revision v)) now = Inr db1"
      "ch" "er = Some (Suc (fr_entity_revision v))"
      by (auto simp: apply_entity_def res_simps split: if_splits)
    then show thesis
      by (intro deleted [OF op cur True _ _ refl]) (auto simp: set_deleted_def res_simps split: if_splits)
  next
    case False
    with assms op cur show thesis by (intro same) (auto simp: apply_entity_def split: if_splits)
  qed
next
  case QueryStatsUpsert
  with assms show thesis by (intro same) (auto simp: apply_entity_def Let_def split: if_splits)
qed

text \<open>The entity write touches only the favorites table, never removes a row and changes at most the
  row of the event.\<close>

lemma apply_entity_frame:
  assumes "apply_entity db uid e cur now = Inr (db1, ch, er)"
  obtains t where "db1 = db\<lparr>server_favorites := t\<rparr>"
    "\<And>k. tbl_has (server_favorites db) k \<Longrightarrow> tbl_has t k"
    "\<And>k. k \<noteq> (uid, pe_content_key e) \<Longrightarrow> tbl_get t k = tbl_get (server_favorites db) k"
  using assms
  by (cases rule: apply_entity_cases) (auto intro: that [of "server_favorites db1"])

lemma apply_entity_fav_inv:
  assumes "apply_entity db uid e cur now = Inr (db1, ch, er)" and "fav_inv db" and "push_event_typed e"
  shows "fav_inv db1"
  using assms(1)
proof (cases rule: apply_entity_cases)
  case same
  with assms(2) show ?thesis by simp
next
  case (upserted snapshot n)
  with assms(2,3) show ?thesis
    by (auto simp: fav_inv_def push_event_typed_def tbl_has_get)
next
  case (deleted v n)
  with assms(2) show ?thesis by (auto simp: fav_inv_def)
qed

lemma sync_inv_favorites_grow:
  assumes "\<And>k. tbl_has (server_favorites db) k \<Longrightarrow> tbl_has t k"
  shows "log_inv db \<Longrightarrow> log_inv (db\<lparr>server_favorites := t\<rparr>)"
    and "stats_inv db \<Longrightarrow> stats_inv (db\<lparr>server_favorites := t\<rparr>)"
    and "sums_inv db \<Longrightarrow> sums_inv (db\<lparr>server_favorites := t\<rparr>)"
    and "processed_inv db \<Longrightarrow> processed_inv (db\<lparr>server_favorites := t\<rparr>)"
  using assms unfolding log_inv_def stats_inv_def sums_inv_def processed_inv_def stats_rows_def by auto

lemma apply_entity_sync_inv:
  assumes "apply_entity db uid e cur now = Inr (db1, ch, er)" and "sync_inv db" and "push_event_typed e"
  shows "sync_inv db1"
  using assms(1)
proof (rule apply_entity_frame)
  fix t
  assume "db1 = db\<lparr>server_favorites := t\<rparr>" "\<And>k. tbl_has (server_favorites db) k \<Longrightarrow> tbl_has t k"
  moreover have "fav_inv db1" using assms by (auto intro: apply_entity_fav_inv simp: sync_inv_def)
  ultimately show ?thesis using assms(2) sync_inv_favorites_grow by (simp add: sync_inv_def)
qed

lemma merge_query_stats_cases:
  assumes "merge_query_stats db uid did key stats = Inr (ch, db')"
  obtains (same) "\<not> ch" "db' = db"
      "tbl_get (device_query_stats db) (uid, did, key) =
         Some (merged_stats (tbl_get (device_query_stats db) (uid, did, key)) stats (int (qss_query_count stats)))"
  | (merged) row where "ch"
      "row = merged_stats (tbl_get (device_query_stats db) (uid, did, key)) stats (int (qss_query_count stats))"
      "db' = db\<lparr>device_query_stats := tbl_put (uid, did, key) row (device_query_stats db)\<rparr>"
      "0 \<le> ds_query_count row" "tbl_has (devices db) (uid, did)"
      "tbl_has (server_favorites db) (uid, key)"
proof -
  let ?old = "tbl_get (device_query_stats db) (uid, did, key)"
  let ?row = "merged_stats ?old stats (int (qss_query_count stats))"
  show thesis
  proof (cases "?old = Some ?row")
    case True
    with assms show thesis
      by (intro same) (auto simp: merge_query_stats_def Let_def res_simps)
  next
    case False
    with assms show thesis
      by (intro merged [OF _ refl]) (auto simp: merge_query_stats_def Let_def res_simps split: if_splits)
  qed
qed

lemma stats_rows_put_other:
  "(uid', key') \<noteq> (uid, key) \<Longrightarrow>
     stats_rows (db\<lparr>device_query_stats := tbl_put (uid, did, key) row (device_query_stats db)\<rparr>) uid' key'
     = stats_rows db uid' key'"
proof -
  have "filter (\<lambda>((u, d, k), r). u = uid' \<and> k = key') (tbl_put (uid, did, key) row t)
      = filter (\<lambda>((u, d, k), r). u = uid' \<and> k = key') t" if "(uid', key') \<noteq> (uid, key)"
    for t :: "(string \<times> string \<times> string, device_stats_row) table"
    using that by (induction t) (auto simp: tbl_put_def)
  then show "(uid', key') \<noteq> (uid, key) \<Longrightarrow> ?thesis" by (simp add: stats_rows_def)
qed

text \<open>A merge followed by a successful read of the sum, the order \<open>apply_event\<close> has them in.\<close>

lemma merge_query_stats_sync_inv:
  assumes "merge_query_stats db uid did key stats = Inr (ch, db')"
    and "aggregate_stats db' uid key = Inr a" and "sync_inv db"
  shows "sync_inv db'"
  using assms(1)
proof (cases rule: merge_query_stats_cases)
  case same
  with assms(3) show ?thesis by simp
next
  case (merged row)
  have "sums_inv db'" unfolding sums_inv_def
  proof (intro allI)
    fix uid' key'
    show "sum_list (map ds_query_count (stats_rows db' uid' key')) \<le> i64_max"
    proof (cases "(uid', key') = (uid, key)")
      case True
      with aggregate_stats_Inr [OF assms(2)] show ?thesis by simp
    next
      case False
      then have "stats_rows db' uid' key' = stats_rows db uid' key'"
        unfolding merged(3) by (rule stats_rows_put_other)
      with assms(3) show ?thesis by (simp add: sync_inv_def sums_inv_def)
    qed
  qed
  moreover have "stats_inv db'" using assms(3) merged by (auto simp: sync_inv_def stats_inv_def)
  moreover have "log_inv db'" "fav_inv db'" "processed_inv db'"
    using assms(3) unfolding merged(3)
    by (simp_all add: sync_inv_def log_inv_def fav_inv_def processed_inv_def)
  ultimately show ?thesis by (simp add: sync_inv_def)
qed

lemma record_change_sync_inv:
  assumes "record_change db uid key er op now = Inr (n, db')" and "sync_inv db"
  shows "sync_inv db'"
proof -
  have "log_inv db'" using assms by (auto simp: sync_inv_def intro: record_change_log_inv)
  moreover have "fav_inv db' \<and> stats_inv db' \<and> sums_inv db' \<and> processed_inv db'"
    using assms(1)
  proof (rule record_change_Inr)
    fix u
    assume "db' = db\<lparr>users := tbl_modify uid (\<lambda>r. r\<lparr>us_sync_revision := int n\<rparr>) (users db),
              change_log := tbl_put (uid, int n) \<lparr>cl_content_key = key, cl_entity_revision = int er,
                 cl_operation = operation_name op, cl_changed_at = now\<rparr> (change_log db)\<rparr>"
    with assms(2) show ?thesis
      by (simp add: sync_inv_def fav_inv_def stats_inv_def sums_inv_def processed_inv_def stats_rows_def)
  qed
  ultimately show ?thesis by (simp add: sync_inv_def)
qed

lemma apply_event_Inr:
  assumes "apply_event db uid did e now = Inr (out, db')"
  obtains cur db1 ch er sch db2 a n where
    "favorite_record db uid (pe_content_key e) = Inr cur"
    "pe_operation e = QueryStatsUpsert \<or>
       (case cur of None \<Rightarrow> 0 | Some f \<Rightarrow> fr_entity_revision f) = pe_base_entity_revision e"
    "apply_entity db uid e cur now = Inr (db1, ch, er)"
    "case pe_query_stats e of None \<Rightarrow> \<not> sch \<and> db2 = db1 \<and> a = None
       | Some s \<Rightarrow> merge_query_stats db1 uid did (pe_content_key e) s = Inr (sch, db2)
                   \<and> aggregate_stats db2 uid (pe_content_key e) = Inr a"
    "if ch \<or> sch then \<exists>r. er = Some r \<and> record_change db2 uid (pe_content_key e) r (pe_operation e) now = Inr (n, db')
     else user_revision db2 uid = Inr n \<and> db' = db2"
    "out = \<lparr>eo_ack = \<lparr>pa_event_id = pe_event_id e, pa_status = (if ch \<or> sch then Applied else NoChange),
             pa_entity_revision = (if pe_operation e = QueryStatsUpsert then None else er),
             pa_user_revision = n, pa_aggregate = a\<rparr>,
           eo_changed_revision = (if ch \<or> sch then Some n else None)\<rparr>"
proof -
  from assms obtain cur where cur: "favorite_record db uid (pe_content_key e) = Inr cur"
    by (auto simp: apply_event_def res_simps)
  with assms have base: "pe_operation e = QueryStatsUpsert \<or>
       (case cur of None \<Rightarrow> 0 | Some f \<Rightarrow> fr_entity_revision f) = pe_base_entity_revision e"
    by (auto simp: apply_event_def res_simps split: if_splits)
  from assms cur base obtain db1 ch er where ent: "apply_entity db uid e cur now = Inr (db1, ch, er)"
    by (auto simp: apply_event_def res_simps split: if_splits)
  let ?m = "case pe_query_stats e of None \<Rightarrow> Inr (False, db1)
            | Some stats \<Rightarrow> merge_query_stats db1 uid did (pe_content_key e) stats"
  from assms cur base ent obtain sch db2 where m: "?m = Inr (sch, db2)"
    by (auto simp: apply_event_def res_simps split: if_splits)
  let ?a = "if pe_query_stats e \<noteq> None then aggregate_stats db2 uid (pe_content_key e) else Inr None"
  from assms cur base ent m obtain a where a: "?a = Inr a"
    by (auto simp: apply_event_def res_simps split: if_splits)
  let ?r = "if ch \<or> sch then rbind (ok_or InvalidEvent er) (\<lambda>er.
                record_change db2 uid (pe_content_key e) er (pe_operation e) now)
            else rbind (user_revision db2 uid) (\<lambda>r. Inr (r, db2))"
  from assms cur base ent m a obtain n where r: "?r = Inr (n, db')"
    and out: "out = \<lparr>eo_ack = \<lparr>pa_event_id = pe_event_id e, pa_status = (if ch \<or> sch then Applied else NoChange),
             pa_entity_revision = (if pe_operation e = QueryStatsUpsert then None else er),
             pa_user_revision = n, pa_aggregate = a\<rparr>,
           eo_changed_revision = (if ch \<or> sch then Some n else None)\<rparr>"
    unfolding apply_event_def by (simp only: rbind.simps prod.case Let_def split: if_splits) (auto simp: res_simps)
  show thesis
  proof (rule that [OF cur base ent _ _ out])
    show "case pe_query_stats e of None \<Rightarrow> \<not> sch \<and> db2 = db1 \<and> a = None
       | Some s \<Rightarrow> merge_query_stats db1 uid did (pe_content_key e) s = Inr (sch, db2)
                   \<and> aggregate_stats db2 uid (pe_content_key e) = Inr a"
      using m a by (cases "pe_query_stats e") auto
    show "if ch \<or> sch then \<exists>r. er = Some r \<and> record_change db2 uid (pe_content_key e) r (pe_operation e) now = Inr (n, db')
     else user_revision db2 uid = Inr n \<and> db' = db2"
      using r by (auto simp: res_simps split: if_splits)
  qed
qed

lemma apply_event_sync_inv:
  assumes "apply_event db uid did e now = Inr (out, db')" and "sync_inv db" and "push_event_typed e"
  shows "sync_inv db'"
  using assms(1)
proof (rule apply_event_Inr)
  fix cur db1 ch er sch db2 a n
  assume ent: "apply_entity db uid e cur now = Inr (db1, ch, er)"
    and m: "case pe_query_stats e of None \<Rightarrow> \<not> sch \<and> db2 = db1 \<and> a = None
       | Some s \<Rightarrow> merge_query_stats db1 uid did (pe_content_key e) s = Inr (sch, db2)
                   \<and> aggregate_stats db2 uid (pe_content_key e) = Inr a"
    and r: "if ch \<or> sch then \<exists>r. er = Some r \<and> record_change db2 uid (pe_content_key e) r (pe_operation e) now = Inr (n, db')
     else user_revision db2 uid = Inr n \<and> db' = db2"
  have "sync_inv db1" using ent assms(2,3) by (rule apply_entity_sync_inv)
  with m have "sync_inv db2"
    by (auto split: option.splits intro: merge_query_stats_sync_inv)
  with r show "sync_inv db'" by (auto split: if_splits intro: record_change_sync_inv)
qed

text \<open>The statistics part of an event touches one row of one table.\<close>

lemma stats_phase_frame:
  assumes "case stats of None \<Rightarrow> \<not> sch \<and> db2 = db1 \<and> a = None
       | Some s \<Rightarrow> merge_query_stats db1 uid did key s = Inr (sch, db2)
                   \<and> aggregate_stats db2 uid key = Inr a"
  shows "\<exists>q. db2 = db1\<lparr>device_query_stats := q\<rparr>
     \<and> (\<forall>k. k \<noteq> (uid, did, key) \<longrightarrow> tbl_get q k = tbl_get (device_query_stats db1) k)
     \<and> (\<forall>u' k'. (u', k') \<noteq> (uid, key) \<longrightarrow> stats_rows db2 u' k' = stats_rows db1 u' k')"
proof (cases stats)
  case None
  with assms show ?thesis by (intro exI [of _ "device_query_stats db1"]) simp
next
  case (Some s)
  with assms have "merge_query_stats db1 uid did key s = Inr (sch, db2)" by simp
  then show ?thesis
  proof (cases rule: merge_query_stats_cases)
    case same
    then show ?thesis by (intro exI [of _ "device_query_stats db1"]) simp
  next
    case (merged row)
    then show ?thesis
      by (intro exI [of _ "device_query_stats db2"]) (auto simp: stats_rows_put_other)
  qed
qed

text \<open>One applied event advances the user's revision by exactly one, a no-op by none; other users
  and the table of processed events are untouched.\<close>

lemma record_change_frame:
  assumes "record_change db uid key er op now = Inr (n, db')"
  shows "processed_sync_events db' = processed_sync_events db \<and> server_favorites db' = server_favorites db
     \<and> device_query_stats db' = device_query_stats db \<and> devices db' = devices db
     \<and> sessions db' = sessions db
     \<and> user_revision db' uid = Inr n \<and> (0 \<le> us_sync_revision (the (tbl_get (users db) uid)) \<longrightarrow>
          user_revision db uid = Inr (n - 1) \<and> 0 < n)"
  using assms by (rule record_change_Inr) (auto simp: user_revision_Inr nat_add_distrib)

lemma apply_event_revision:
  assumes "apply_event db uid did e now = Inr (out, db')" and "sync_inv db"
  shows "processed_sync_events db' = processed_sync_events db"
    and "\<exists>n. user_revision db uid = Inr n
       \<and> user_revision db' uid = Inr (if pa_status (eo_ack out) = Applied then Suc n else n)
       \<and> pa_user_revision (eo_ack out) = (if pa_status (eo_ack out) = Applied then Suc n else n)
       \<and> eo_changed_revision out = (if pa_status (eo_ack out) = Applied then Some (Suc n) else None)"
    and "pa_event_id (eo_ack out) = pe_event_id e"
    and "tbl_has (users db') = tbl_has (users db)"
    and "devices db' = devices db" and "sessions db' = sessions db"
proof -
  obtain cur db1 ch er sch db2 a n where
    ent: "apply_entity db uid e cur now = Inr (db1, ch, er)"
    and m: "case pe_query_stats e of None \<Rightarrow> \<not> sch \<and> db2 = db1 \<and> a = None
       | Some s \<Rightarrow> merge_query_stats db1 uid did (pe_content_key e) s = Inr (sch, db2)
                   \<and> aggregate_stats db2 uid (pe_content_key e) = Inr a"
    and r: "if ch \<or> sch then \<exists>r. er = Some r \<and> record_change db2 uid (pe_content_key e) r (pe_operation e) now = Inr (n, db')
     else user_revision db2 uid = Inr n \<and> db' = db2"
    and out: "out = \<lparr>eo_ack = \<lparr>pa_event_id = pe_event_id e, pa_status = (if ch \<or> sch then Applied else NoChange),
             pa_entity_revision = (if pe_operation e = QueryStatsUpsert then None else er),
             pa_user_revision = n, pa_aggregate = a\<rparr>,
           eo_changed_revision = (if ch \<or> sch then Some n else None)\<rparr>"
    using assms(1) by (rule apply_event_Inr) blast
  obtain t where db1: "db1 = db\<lparr>server_favorites := t\<rparr>" using ent by (rule apply_entity_frame)
  obtain q where db2: "db2 = db\<lparr>server_favorites := t, device_query_stats := q\<rparr>"
    using stats_phase_frame [OF m] db1 by auto
  have ur: "user_revision db2 uid = user_revision db uid" by (simp add: db2 user_revision_def)
  have pos: "0 \<le> us_sync_revision (the (tbl_get (users db2) uid))" if "tbl_has (users db2) uid"
    using that assms(2) by (auto simp: db2 sync_inv_def log_inv_def tbl_has_get)
  have "processed_sync_events db' = processed_sync_events db \<and> devices db' = devices db
      \<and> sessions db' = sessions db \<and> tbl_has (users db') = tbl_has (users db) \<and>
    (\<exists>n0. user_revision db uid = Inr n0 \<and> n = (if ch \<or> sch then Suc n0 else n0) \<and> user_revision db' uid = Inr n)"
  proof (cases "ch \<or> sch")
    case True
    with r obtain v where rc: "record_change db2 uid (pe_content_key e) v (pe_operation e) now = Inr (n, db')"
      by auto
    have "tbl_has (users db2) uid \<and> tbl_has (users db') = tbl_has (users db2)"
      using rc by (rule record_change_Inr) (auto simp: tbl_has_get fun_eq_iff)
    with record_change_frame [OF rc] pos True show ?thesis
      by (auto simp: ur [symmetric] db2)
  next
    case False
    with r have "db' = db2" "user_revision db uid = Inr n" "user_revision db' uid = Inr n"
      by (auto simp: ur [symmetric])
    with False show ?thesis by (simp add: db2)
  qed
  then show "processed_sync_events db' = processed_sync_events db"
    and "\<exists>n. user_revision db uid = Inr n
       \<and> user_revision db' uid = Inr (if pa_status (eo_ack out) = Applied then Suc n else n)
       \<and> pa_user_revision (eo_ack out) = (if pa_status (eo_ack out) = Applied then Suc n else n)
       \<and> eo_changed_revision out = (if pa_status (eo_ack out) = Applied then Some (Suc n) else None)"
    and "tbl_has (users db') = tbl_has (users db)"
    and "devices db' = devices db" "sessions db' = sessions db"
    by (auto simp: out)
  show "pa_event_id (eo_ack out) = pe_event_id e" by (simp add: out)
qed

section \<open>Processed events are remembered\<close>

lemma store_ack_Inr:
  assumes "store_ack db uid e fp ack now = Inr db'"
  obtains row where "db' = db\<lparr>processed_sync_events := tbl_put (uid, pe_event_id e) row (processed_sync_events db)\<rparr>"
    "\<not> tbl_has (processed_sync_events db) (uid, pe_event_id e)" "ack_row_ok row"
    "row = \<lparr>ps_event_fingerprint = fp, ps_operation = operation_name (pe_operation e),
        ps_ack_status = (if pa_status ack = Applied then ''applied'' else ''no_change''),
        ps_entity_revision = map_option int (pa_entity_revision ack),
        ps_user_revision = int (pa_user_revision ack),
        ps_aggregate_query_count = map_option (\<lambda>a. int (ag_query_count a)) (pa_aggregate ack),
        ps_aggregate_first_queried_at = map_option ag_first_queried_at (pa_aggregate ack),
        ps_aggregate_last_queried_at = map_option ag_last_queried_at (pa_aggregate ack),
        ps_processed_at = now\<rparr>"
proof -
  let ?row = "\<lparr>ps_event_fingerprint = fp, ps_operation = operation_name (pe_operation e),
        ps_ack_status = (if pa_status ack = Applied then ''applied'' else ''no_change''),
        ps_entity_revision = map_option int (pa_entity_revision ack),
        ps_user_revision = int (pa_user_revision ack),
        ps_aggregate_query_count = map_option (\<lambda>a. int (ag_query_count a)) (pa_aggregate ack),
        ps_aggregate_first_queried_at = map_option ag_first_queried_at (pa_aggregate ack),
        ps_aggregate_last_queried_at = map_option ag_last_queried_at (pa_aggregate ack),
        ps_processed_at = now\<rparr>"
  from assms obtain er count where
    "opt_transpose (\<lambda>n. ok_or InvalidEvent (i64_of_u64 n)) (pa_entity_revision ack) = Inr er"
    "opt_transpose (\<lambda>a. ok_or InvalidEvent (i64_of_u64 (ag_query_count a))) (pa_aggregate ack) = Inr count"
    by (auto simp: store_ack_def rbind_Inr)
  then have "er = map_option int (pa_entity_revision ack)"
    "count = map_option (\<lambda>a. int (ag_query_count a)) (pa_aggregate ack)"
    "opt_transpose (\<lambda>n. ok_or InvalidEvent (i64_of_u64 n)) (pa_entity_revision ack)
       = (Inr (map_option int (pa_entity_revision ack)) :: sync_repository_error + _)"
    "opt_transpose (\<lambda>a. ok_or InvalidEvent (i64_of_u64 (ag_query_count a))) (pa_aggregate ack)
       = (Inr (map_option (\<lambda>a. int (ag_query_count a)) (pa_aggregate ack)) :: sync_repository_error + _)"
    by (auto simp: opt_transpose_Inr ok_or_Inr)
  with assms show thesis
    by (intro that [of ?row]) (auto simp: store_ack_def rbind_Inr ok_or_Inr ack_row_ok_def split: if_splits)
qed

lemma store_ack_roundtrip:
  assumes "store_ack db uid e fp ack now = Inr db'" and "pa_event_id ack = pe_event_id e"
  shows "processed_ack db' uid e fp = Inr (Some ack)"
  using assms(1)
proof (rule store_ack_Inr)
  fix row
  assume db': "db' = db\<lparr>processed_sync_events := tbl_put (uid, pe_event_id e) row (processed_sync_events db)\<rparr>"
    and row: "row = \<lparr>ps_event_fingerprint = fp, ps_operation = operation_name (pe_operation e),
        ps_ack_status = (if pa_status ack = Applied then ''applied'' else ''no_change''),
        ps_entity_revision = map_option int (pa_entity_revision ack),
        ps_user_revision = int (pa_user_revision ack),
        ps_aggregate_query_count = map_option (\<lambda>a. int (ag_query_count a)) (pa_aggregate ack),
        ps_aggregate_first_queried_at = map_option ag_first_queried_at (pa_aggregate ack),
        ps_aggregate_last_queried_at = map_option ag_last_queried_at (pa_aggregate ack),
        ps_processed_at = now\<rparr>"
  have st: "(if ps_ack_status row = ''applied'' then Applied else NoChange) = pa_status ack"
    by (cases "pa_status ack") (auto simp: row)
  have er: "opt_transpose (\<lambda>i. ok_or InvalidEvent (u64_of_i64 i)) (ps_entity_revision row)
      = Inr (pa_entity_revision ack)"
    by (cases "pa_entity_revision ack") (auto simp: row)
  show ?thesis
  proof (cases "pa_aggregate ack")
    case None
    with assms(2) st er show ?thesis by (simp add: processed_ack_def db' row)
  next
    case (Some a)
    with assms(2) st er show ?thesis by (simp add: processed_ack_def db' row)
  qed
qed

text \<open>The acknowledgement of a known event depends on its row alone, and rows are never rewritten.\<close>

definition processed_le :: "server_db \<Rightarrow> server_db \<Rightarrow> bool" where
  "processed_le db db' \<longleftrightarrow> (\<forall>k row. tbl_get (processed_sync_events db) k = Some row \<longrightarrow>
     tbl_get (processed_sync_events db') k = Some row)"

lemma processed_le_refl [simp]: "processed_le db db"
  by (simp add: processed_le_def)

lemma processed_le_trans: "processed_le a b \<Longrightarrow> processed_le b c \<Longrightarrow> processed_le a c"
  by (simp add: processed_le_def)

lemma processed_le_eq: "processed_sync_events db' = processed_sync_events db \<Longrightarrow> processed_le db db'"
  by (simp add: processed_le_def)

lemma processed_ack_mono:
  "processed_ack db uid e fp = Inr (Some ack) \<Longrightarrow> processed_le db db' \<Longrightarrow>
     processed_ack db' uid e fp = Inr (Some ack)"
  unfolding processed_ack_def processed_le_def
  by (cases "tbl_get (processed_sync_events db) (uid, pe_event_id e)") auto

lemma store_ack_sync_inv:
  assumes "store_ack db uid e fp ack now = Inr db'" and "sync_inv db"
  shows "sync_inv db'" and "processed_le db db'"
proof -
  obtain row where db': "db' = db\<lparr>processed_sync_events := tbl_put (uid, pe_event_id e) row (processed_sync_events db)\<rparr>"
    and fresh: "\<not> tbl_has (processed_sync_events db) (uid, pe_event_id e)" and ok: "ack_row_ok row"
    using assms(1) by (rule store_ack_Inr) blast
  show "sync_inv db'" using assms(2) ok unfolding db'
    by (simp add: sync_inv_def log_inv_def fav_inv_def stats_inv_def sums_inv_def stats_rows_def processed_inv_def)
  show "processed_le db db'" using fresh by (auto simp: db' processed_le_def tbl_has_get)
qed

section \<open>Batches\<close>

lemma push_one_cases:
  assumes "push_one js sha uid did now e (db, acks, ch) = Inr (db', acks', ch')"
  obtains (known) ack where "processed_ack db uid e (event_fingerprint js sha e) = Inr (Some ack)"
      "db' = db" "acks' = acks @ [ack]" "ch' = ch"
  | (fresh) out db1 where "processed_ack db uid e (event_fingerprint js sha e) = Inr None"
      "apply_event db uid did e now = Inr (out, db1)"
      "store_ack db1 uid e (event_fingerprint js sha e) (eo_ack out) now = Inr db'"
      "acks' = acks @ [eo_ack out]" "ch' = option_max ch (eo_changed_revision out)"
proof -
  from assms obtain k where k: "processed_ack db uid e (event_fingerprint js sha e) = Inr k"
    by (auto simp: push_one_def Let_def res_simps)
  show thesis
  proof (cases k)
    case None
    with assms k obtain out db1 where
      "apply_event db uid did e now = Inr (out, db1)"
      "store_ack db1 uid e (event_fingerprint js sha e) (eo_ack out) now = Inr db'"
      "acks' = acks @ [eo_ack out]" "ch' = option_max ch (eo_changed_revision out)"
      by (auto simp: push_one_def Let_def res_simps)
    with k None show thesis by (intro fresh) auto
  next
    case (Some ack)
    with assms k show thesis by (intro known) (auto simp: push_one_def Let_def res_simps)
  qed
qed

lemma push_one_effect:
  assumes "push_one js sha uid did now e (db, acks, ch) = Inr (db', acks', ch')" and "sync_inv db"
    and "push_event_typed e"
  shows "sync_inv db'" and "processed_le db db'"
    and "\<exists>ack. acks' = acks @ [ack] \<and> processed_ack db' uid e (event_fingerprint js sha e) = Inr (Some ack)"
  using assms(1)
proof (atomize (full), cases rule: push_one_cases)
  case (known ack)
  with assms(2) show "sync_inv db' \<and> processed_le db db' \<and> (\<exists>ack. acks' = acks @ [ack]
      \<and> processed_ack db' uid e (event_fingerprint js sha e) = Inr (Some ack))" by simp
next
  case (fresh out db1)
  have inv: "sync_inv db1" using fresh(2) assms(2,3) by (rule apply_event_sync_inv)
  have "processed_le db db1" using apply_event_revision(1) [OF fresh(2) assms(2)] by (rule processed_le_eq)
  then have "processed_le db db'" using store_ack_sync_inv(2) [OF fresh(3) inv] by (rule processed_le_trans)
  moreover have "processed_ack db' uid e (event_fingerprint js sha e) = Inr (Some (eo_ack out))"
    using fresh(3) apply_event_revision(3) [OF fresh(2) assms(2)] by (rule store_ack_roundtrip)
  ultimately show "sync_inv db' \<and> processed_le db db' \<and> (\<exists>ack. acks' = acks @ [ack]
      \<and> processed_ack db' uid e (event_fingerprint js sha e) = Inr (Some ack))"
    using store_ack_sync_inv(1) [OF fresh(3) inv] fresh(4) by simp
qed

lemma push_loop_effect:
  assumes "foldM (push_one js sha uid did now) es (db, acks, ch) = Inr (db', acks', ch')"
    and "sync_inv db" and "list_all push_event_typed es"
  shows "sync_inv db' \<and> processed_le db db' \<and> (\<exists>news. acks' = acks @ news
     \<and> list_all2 (\<lambda>e a. processed_ack db' uid e (event_fingerprint js sha e) = Inr (Some a)) es news)"
  using assms
proof (induction es arbitrary: db acks ch)
  case Nil
  then show ?case by auto
next
  case (Cons e es)
  from Cons.prems(1) obtain db1 acks1 ch1 where
    one: "push_one js sha uid did now e (db, acks, ch) = Inr (db1, acks1, ch1)"
    and rest: "foldM (push_one js sha uid did now) es (db1, acks1, ch1) = Inr (db', acks', ch')"
    by (auto simp: rbind_Inr)
  have ty: "push_event_typed e" "list_all push_event_typed es" using Cons.prems(3) by auto
  note o = push_one_effect [OF one Cons.prems(2) ty(1)]
  from o(3) obtain ack where ack: "acks1 = acks @ [ack]"
    "processed_ack db1 uid e (event_fingerprint js sha e) = Inr (Some ack)" by blast
  from Cons.IH [OF rest o(1) ty(2)] obtain news where ih: "sync_inv db'" "processed_le db1 db'"
    "acks' = acks1 @ news"
    "list_all2 (\<lambda>e a. processed_ack db' uid e (event_fingerprint js sha e) = Inr (Some a)) es news"
    by blast
  have "processed_ack db' uid e (event_fingerprint js sha e) = Inr (Some ack)"
    using ack(2) ih(2) by (rule processed_ack_mono)
  with ih ack(1) processed_le_trans [OF o(2) ih(2)] show ?case
    by (intro conjI exI [of _ "ack # news"]) auto
qed

lemma push_loop_replay:
  assumes "list_all2 (\<lambda>e a. processed_ack db uid e (event_fingerprint js sha e) = Inr (Some a)) es news"
  shows "foldM (push_one js sha uid did now) es (db, acks, ch) = Inr (db, acks @ news, ch)"
  using assms
  by (induction es news arbitrary: acks rule: list_all2_induct) (simp_all add: push_one_def)

section \<open>Revision accounting\<close>

text \<open>\<open>option_max\<close> of the revisions recorded so far and the next one, where revisions grow.\<close>

definition changed_ok :: "nat \<Rightarrow> nat \<Rightarrow> u64 option \<Rightarrow> bool" where
  "changed_ok start now_at ch \<longleftrightarrow> ch = (if now_at = start then None else Some now_at)"

lemma store_ack_frame:
  assumes "store_ack db uid e fp ack now = Inr db'"
  shows "users db' = users db \<and> change_log db' = change_log db \<and> server_favorites db' = server_favorites db
     \<and> device_query_stats db' = device_query_stats db \<and> devices db' = devices db \<and> sessions db' = sessions db"
  using assms by (rule store_ack_Inr) simp

lemma push_one_revision:
  assumes "push_one js sha uid did now e (db, acks, ch) = Inr (db', acks', ch')" and "sync_inv db"
    and "user_revision db uid = Inr n" and "changed_ok start n ch" and "start \<le> n"
  shows "\<exists>n'. user_revision db' uid = Inr n' \<and> changed_ok start n' ch' \<and> n \<le> n' \<and> n' \<le> Suc n"
  using assms(1)
proof (cases rule: push_one_cases)
  case (known ack)
  with assms show ?thesis by auto
next
  case (fresh out db1)
  have "user_revision db' uid = user_revision db1 uid"
    using store_ack_frame [OF fresh(3)] by (simp add: user_revision_def)
  moreover from apply_event_revision(2) [OF fresh(2) assms(2)] assms(3)
  have "user_revision db1 uid = Inr (if pa_status (eo_ack out) = Applied then Suc n else n)"
    "eo_changed_revision out = (if pa_status (eo_ack out) = Applied then Some (Suc n) else None)"
    by auto
  ultimately show ?thesis using assms(4,5) fresh(5)
    by (auto simp: changed_ok_def option_max_def split: if_splits option.splits)
qed

lemma push_loop_revision:
  assumes "foldM (push_one js sha uid did now) es (db, acks, ch) = Inr (db', acks', ch')"
    and "sync_inv db" and "list_all push_event_typed es"
    and "user_revision db uid = Inr n" and "changed_ok start n ch" and "start \<le> n"
  shows "\<exists>n'. user_revision db' uid = Inr n' \<and> changed_ok start n' ch' \<and> n \<le> n' \<and> n' \<le> n + length es"
  using assms
proof (induction es arbitrary: db acks ch n)
  case Nil
  then show ?case by auto
next
  case (Cons e es)
  from Cons.prems(1) obtain db1 acks1 ch1 where
    one: "push_one js sha uid did now e (db, acks, ch) = Inr (db1, acks1, ch1)"
    and rest: "foldM (push_one js sha uid did now) es (db1, acks1, ch1) = Inr (db', acks', ch')"
    by (auto simp: rbind_Inr)
  from push_one_revision [OF one Cons.prems(2,4-6)] obtain n1 where n1: "user_revision db1 uid = Inr n1"
    "changed_ok start n1 ch1" "n \<le> n1" "n1 \<le> Suc n" by blast
  have ty: "push_event_typed e" "list_all push_event_typed es" using Cons.prems(3) by auto
  have le: "start \<le> n1" using Cons.prems(6) n1(3) by simp
  from Cons.IH [OF rest push_one_effect(1) [OF one Cons.prems(2) ty(1)] ty(2) n1(1,2) le] n1(3,4)
  show ?case by auto
qed

section \<open>Isolation of users\<close>

text \<open>All the rows the sync repository reads for a user.\<close>

definition user_view :: "server_db \<Rightarrow> string \<Rightarrow> _" where
  "user_view db v = (tbl_get (users db) v,
     (\<lambda>key. tbl_get (server_favorites db) (v, key)),
     filter (\<lambda>((u, key), r). u = v) (server_favorites db),
     (\<lambda>key. stats_rows db v key),
     filter (\<lambda>((u, r), row). u = v) (change_log db))"

lemma filter_tbl_put: "(\<And>w. \<not> P (k, w)) \<Longrightarrow> filter P (tbl_put k v t) = filter P t"
  by (induction t) (auto simp: tbl_put_def)

lemma filter_tbl_modify: "(\<And>w. \<not> P (k, w)) \<Longrightarrow> filter P (tbl_modify k f t) = filter P t"
  by (induction t) (auto simp: tbl_modify_def tbl_update_all_def split: if_splits)

lemma apply_entity_view:
  assumes "apply_entity db uid e cur now = Inr (db1, ch, er)" and "v \<noteq> uid"
  shows "user_view db1 v = user_view db v"
  using assms
  by (cases rule: apply_entity_cases)
     (auto simp: user_view_def stats_rows_def filter_tbl_put filter_tbl_modify)

lemma stats_phase_view:
  assumes "case stats of None \<Rightarrow> \<not> sch \<and> db2 = db1 \<and> a = None
       | Some s \<Rightarrow> merge_query_stats db1 uid did key s = Inr (sch, db2)
                   \<and> aggregate_stats db2 uid key = Inr a" and "v \<noteq> uid"
  shows "user_view db2 v = user_view db1 v"
  using stats_phase_frame [OF assms(1)] assms(2) by (auto simp: user_view_def)

lemma record_change_view:
  assumes "record_change db uid key er op now = Inr (n, db')" and "v \<noteq> uid"
  shows "user_view db' v = user_view db v"
  using assms(1) by (rule record_change_Inr)
    (use assms(2) in \<open>auto simp: user_view_def stats_rows_def filter_tbl_put\<close>)

lemma apply_event_view:
  assumes "apply_event db uid did e now = Inr (out, db')" and "v \<noteq> uid"
  shows "user_view db' v = user_view db v"
  using assms(1)
proof (rule apply_event_Inr)
  fix cur db1 ch er sch db2 a n
  assume ent: "apply_entity db uid e cur now = Inr (db1, ch, er)"
    and m: "case pe_query_stats e of None \<Rightarrow> \<not> sch \<and> db2 = db1 \<and> a = None
       | Some s \<Rightarrow> merge_query_stats db1 uid did (pe_content_key e) s = Inr (sch, db2)
                   \<and> aggregate_stats db2 uid (pe_content_key e) = Inr a"
    and r: "if ch \<or> sch then \<exists>r. er = Some r \<and> record_change db2 uid (pe_content_key e) r (pe_operation e) now = Inr (n, db')
     else user_revision db2 uid = Inr n \<and> db' = db2"
  have "user_view db2 v = user_view db v"
    using stats_phase_view [OF m assms(2)] apply_entity_view [OF ent assms(2)] by simp
  with r assms(2) show ?thesis by (auto split: if_splits dest: record_change_view)
qed

lemma push_one_view:
  assumes "push_one js sha uid did now e (db, acks, ch) = Inr (db', acks', ch')" and "v \<noteq> uid"
  shows "user_view db' v = user_view db v"
  using assms(1)
proof (cases rule: push_one_cases)
  case (fresh out db1)
  have "user_view db' v = user_view db1 v"
    using store_ack_frame [OF fresh(3)] by (simp add: user_view_def stats_rows_def)
  with apply_event_view [OF fresh(2) assms(2)] show ?thesis by simp
qed simp

lemma push_loop_view:
  assumes "foldM (push_one js sha uid did now) es st = Inr st'" and "v \<noteq> uid"
  shows "user_view (fst st') v = user_view (fst st) v"
  using assms(1)
proof (rule foldM_invariant)
  show "user_view (fst st) v = user_view (fst st) v" by simp
next
  fix e s t
  assume "user_view (fst s) v = user_view (fst st) v" "push_one js sha uid did now e s = Inr t"
  then show "user_view (fst t) v = user_view (fst st) v"
    using push_one_view [OF _ assms(2)] by (metis prod.collapse)
qed

lemma view_reads:
  assumes "user_view db' v = user_view db v"
  shows "user_revision db' v = user_revision db v" and "aggregate_stats db' v = aggregate_stats db v"
    and "favorite_record db' v = favorite_record db v" and "active_favorites db' v = active_favorites db v"
    and "change_rows db' v = change_rows db v" and "changes_since db' v = changes_since db v"
proof -
  have eq: "tbl_get (users db') v = tbl_get (users db) v"
    "tbl_get (server_favorites db') (v, key) = tbl_get (server_favorites db) (v, key)"
    "filter (\<lambda>((u, key), r). u = v) (server_favorites db') = filter (\<lambda>((u, key), r). u = v) (server_favorites db)"
    "stats_rows db' v key = stats_rows db v key"
    "filter (\<lambda>((u, r), row). u = v) (change_log db') = filter (\<lambda>((u, r), row). u = v) (change_log db)" for key
    using assms by (auto simp: user_view_def fun_eq_iff)
  show r: "user_revision db' v = user_revision db v" by (simp add: user_revision_def eq)
  show a: "aggregate_stats db' v = aggregate_stats db v"
    by (rule ext) (simp only: aggregate_stats_def eq)
  show f: "favorite_record db' v = favorite_record db v"
    by (rule ext) (simp only: favorite_record_def eq a)
  have act: "filter (\<lambda>((u, key), r). u = v \<and> sf_deleted_at r = None) (server_favorites d)
      = filter (\<lambda>(k, r). sf_deleted_at r = None) (filter (\<lambda>((u, key), r). u = v) (server_favorites d))" for d
    by (simp add: conj_commute case_prod_unfold)
  show "active_favorites db' v = active_favorites db v"
    by (simp only: active_favorites_def act eq f r)
  have chg: "filter (\<lambda>((u, r), row). u = v \<and> s < r) (change_log d)
      = filter (\<lambda>((u, r), row). s < r) (filter (\<lambda>((u, r), row). u = v) (change_log d))" for d s
    by (simp add: conj_commute case_prod_unfold)
  show c: "change_rows db' v = change_rows db v"
    by (rule ext)+ (simp only: change_rows_def chg eq)
  have "sync_change_of_row db' v = sync_change_of_row db v"
    by (rule ext) (simp only: sync_change_of_row_def f)
  then show "changes_since db' v = changes_since db v"
    by (intro ext) (simp only: changes_since_def c r)
qed

section \<open>Paging through the change log\<close>

lemma map_sort_key_unique:
  fixes f :: "'a \<Rightarrow> 'b::linorder"
  assumes "distinct (map f L)" and "set (map f L) = set zs" and "sorted zs" and "distinct zs"
  shows "map f (sort_key f L) = zs"
proof (rule sorted_distinct_set_unique)
  show "sorted (map f (sort_key f L))" by simp
  show "distinct (map f (sort_key f L))" using assms(1) by (simp add: distinct_map)
  show "set (map f (sort_key f L)) = set zs" using assms(2) by simp
qed (rule assms(3,4))+

lemma sorted_map_int_upt: "sorted (map int [a..<b])"
  by (simp add: sorted_map)

lemma change_rows_revisions:
  assumes "log_inv db" and "tbl_get (users db) uid = Some u"
  shows "map fst (change_rows db uid (int since) limit)
     = map int (take limit [Suc since..<Suc (nat (us_sync_revision u))])"
proof -
  let ?L = "map (\<lambda>((v, n), row). (n, row)) (filter (\<lambda>((v, n), row). v = uid \<and> n > int since) (change_log db))"
  let ?full = "map int [Suc since..<Suc (nat (us_sync_revision u))]"
  have wf: "tbl_wf (change_log db)" using assms(1) by (simp add: log_inv_def)
  have pos: "0 \<le> us_sync_revision u" using assms by (simp add: log_inv_def)
  have "distinct (map fst ?L)"
  proof -
    have "map fst ?L = map (snd \<circ> fst) (filter (\<lambda>((v, n), row). v = uid \<and> n > int since) (change_log db))"
      by (simp add: case_prod_unfold)
    moreover have "distinct (map fst (filter P (change_log db)))" for P
      using wf by (simp add: tbl_wf_def distinct_map_filter)
    ultimately show ?thesis
      by (auto simp: distinct_map inj_on_def)
  qed
  moreover have "set (map fst ?L) = set ?full"
  proof (rule set_eqI)
    fix n
    have "n \<in> set (map fst ?L) \<longleftrightarrow> int since < n \<and> tbl_has (change_log db) (uid, n)"
      using wf by (auto simp: tbl_has_get tbl_get_in_set [symmetric] image_iff)
    also have "\<dots> \<longleftrightarrow> int since < n \<and> n \<le> us_sync_revision u"
      using assms by (auto simp: log_inv_def)
    also have "\<dots> \<longleftrightarrow> n \<in> set ?full"
    proof -
      have "n \<in> set ?full" if "int since < n" "n \<le> us_sync_revision u"
      proof -
        from that have "n = int (nat n)" "nat n \<in> set [Suc since..<Suc (nat (us_sync_revision u))]" by auto
        then show ?thesis by (metis image_eqI set_map)
      qed
      with pos show ?thesis by auto
    qed
    finally show "n \<in> set (map fst ?L) \<longleftrightarrow> n \<in> set ?full" .
  qed
  ultimately have "map fst (sort_key fst ?L) = ?full"
    by (intro map_sort_key_unique sorted_map_int_upt) (simp_all only: distinct_map, simp add: inj_on_def)
  then show ?thesis by (simp add: change_rows_def sql_order_limit_def take_map [symmetric])
qed

lemma sync_change_of_row_total:
  assumes "sync_inv db" and "(n, row) \<in> set (change_rows db uid (int since) limit)"
  shows "\<exists>c f. sync_change_of_row db uid (n, row) = Inr c \<and> int (sc_revision c) = n
     \<and> tbl_get (change_log db) (uid, n) = Some row
     \<and> favorite_record db uid (cl_content_key row) = Inr (Some (sc_favorite c))
     \<and> cl_operation row = operation_name (sc_operation c)"
proof -
  have "((uid, n), row) \<in> set (change_log db)" and n: "int since < n"
    using assms(2) by (auto simp: change_rows_def dest!: set_sql_order_limit [THEN subsetD])
  then have get: "tbl_get (change_log db) (uid, n) = Some row"
    using assms(1) by (simp add: sync_inv_def log_inv_def tbl_get_in_set)
  have "\<forall>uid n row. tbl_get (change_log db) (uid, n) = Some row \<longrightarrow>
      tbl_has (server_favorites db) (uid, cl_content_key row) \<and> (\<exists>op. cl_operation row = operation_name op)"
    using assms(1) by (simp add: sync_inv_def log_inv_def)
  with get obtain op where "tbl_has (server_favorites db) (uid, cl_content_key row)"
    "cl_operation row = operation_name op" by blast
  then obtain f where "favorite_record db uid (cl_content_key row) = Inr (Some f)"
    "parse_operation (cl_operation row) = Inr op" "cl_operation row = operation_name op"
    using favorite_record_total [OF assms(1), of uid "cl_content_key row"]
    by (auto simp: tbl_has_get parse_operation_def)
  with get n show ?thesis by (auto simp: sync_change_of_row_def u64_of_i64_def)
qed

lemma changes_since_total:
  assumes inv: "sync_inv db" and u: "tbl_get (users db) uid = Some u"
    and "int since \<le> i64_max" and "int limit \<le> i64_max"
  defines "latest \<equiv> nat (us_sync_revision u)"
  shows "\<exists>resp. changes_since db uid since limit = Inr resp
     \<and> map sc_revision (cr_changes resp) = take limit [Suc since..<Suc latest]
     \<and> list_all (\<lambda>c. \<exists>row. tbl_get (change_log db) (uid, int (sc_revision c)) = Some row
          \<and> favorite_record db uid (cl_content_key row) = Inr (Some (sc_favorite c))
          \<and> cl_operation row = operation_name (sc_operation c)) (cr_changes resp)
     \<and> cr_next_revision resp = (if cr_changes resp = [] then since else sc_revision (last (cr_changes resp)))
     \<and> cr_latest_revision resp = latest
     \<and> cr_has_more resp = (cr_next_revision resp < latest)"
proof -
  let ?rows = "change_rows db uid (int since) limit"
  have "\<exists>c. sync_change_of_row db uid x = Inr c" if "x \<in> set ?rows" for x
    using sync_change_of_row_total [OF inv, of "fst x" "snd x" uid since limit] that by auto
  then obtain cs where cs: "mapM (sync_change_of_row db uid) ?rows = Inr cs" by (meson mapM_total)
  then have each: "list_all2 (\<lambda>x c. int (sc_revision c) = fst x \<and>
      (\<exists>row. tbl_get (change_log db) (uid, int (sc_revision c)) = Some row
          \<and> favorite_record db uid (cl_content_key row) = Inr (Some (sc_favorite c))
          \<and> cl_operation row = operation_name (sc_operation c))) ?rows cs"
    unfolding mapM_Inr_nth
  proof (rule list.rel_mono_strong)
    fix x c assume "x \<in> set ?rows" "sync_change_of_row db uid x = Inr c"
    then show "int (sc_revision c) = fst x \<and>
      (\<exists>row. tbl_get (change_log db) (uid, int (sc_revision c)) = Some row
          \<and> favorite_record db uid (cl_content_key row) = Inr (Some (sc_favorite c))
          \<and> cl_operation row = operation_name (sc_operation c))"
      using sync_change_of_row_total [OF inv, of "fst x" "snd x" uid since limit] by fastforce
  qed
  then have "map int (map sc_revision cs) = map fst ?rows"
    by (auto simp: list_all2_conv_all_nth intro: nth_equalityI)
  also have "\<dots> = map int (take limit [Suc since..<Suc latest])"
    unfolding latest_def using inv u by (intro change_rows_revisions) (auto simp: sync_inv_def)
  finally have "map sc_revision cs = take limit [Suc since..<Suc latest]"
    by (simp add: inj_map_eq_map [OF inj_of_nat, where 'a1 = int] del: map_map)
  moreover have "user_revision db uid = Inr latest"
    using u inv by (auto simp: user_revision_Inr latest_def sync_inv_def log_inv_def)
  moreover have "list_all (\<lambda>c. \<exists>row. tbl_get (change_log db) (uid, int (sc_revision c)) = Some row
          \<and> favorite_record db uid (cl_content_key row) = Inr (Some (sc_favorite c))
          \<and> cl_operation row = operation_name (sc_operation c)) cs"
    using each by (auto simp: list_all2_conv_all_nth list_all_length)
  ultimately show ?thesis using assms(3,4) cs
    by (simp add: changes_since_def i64_of_u64_def Let_def)
qed

section \<open>The web client's activation switch\<close>

lemma set_favorite_state_cases:
  assumes "set_favorite_state db uid key active base now = Inr (r, db')"
  obtains (same) cur where "favorite_record db uid key = Inr (Some cur)" "fr_entity_revision cur = base"
      "(fr_deleted_at cur = None) = active" "db' = db" "mr_changed_revision r = None"
      "mr_value r = cur"
  | (switched) cur n db1 where "favorite_record db uid key = Inr (Some cur)" "fr_entity_revision cur = base"
      "(fr_deleted_at cur = None) \<noteq> active" "int (Suc base) \<le> i64_max"
      "db1 = db\<lparr>server_favorites := tbl_modify (uid, key)
         (\<lambda>r. r\<lparr>sf_snapshot := (sf_snapshot r)\<lparr>fs_updated_at := now\<rparr>,
                sf_deleted_at := (if active then None else Some now),
                sf_entity_revision := int (Suc base), sf_server_received_at := now\<rparr>)
         (server_favorites db)\<rparr>"
      "record_change db1 uid key (Suc base) (if active then FavoriteUpsert else FavoriteDelete) now = Inr (n, db')"
      "mr_changed_revision r = Some n" "favorite_record db' uid key = Inr (Some (mr_value r))"
proof -
  from assms obtain cur where cur: "favorite_record db uid key = Inr (Some cur)" "fr_entity_revision cur = base"
    by (auto simp: set_favorite_state_def res_simps split: if_splits)
  show thesis
  proof (cases "(fr_deleted_at cur = None) = active")
    case True
    with assms cur show thesis by (intro same [OF cur True]) (auto simp: set_favorite_state_def res_simps)
  next
    case False
    let ?db1 = "db\<lparr>server_favorites := tbl_modify (uid, key)
         (\<lambda>r. r\<lparr>sf_snapshot := (sf_snapshot r)\<lparr>fs_updated_at := now\<rparr>,
                sf_deleted_at := (if active then None else Some now),
                sf_entity_revision := int (Suc base), sf_server_received_at := now\<rparr>)
         (server_favorites db)\<rparr>"
    from assms cur False have "\<exists>db1 n.
      set_deleted db uid key (if active then None else Some now) (Suc base) now = Inr db1
      \<and> record_change db1 uid key (Suc base) (if active then FavoriteUpsert else FavoriteDelete) now = Inr (n, db')
      \<and> mr_changed_revision r = Some n \<and> favorite_record db' uid key = Inr (Some (mr_value r))"
      by (cases active) (auto simp: set_favorite_state_def res_simps)
    then obtain db1 n where
      "set_deleted db uid key (if active then None else Some now) (Suc base) now = Inr db1"
      "record_change db1 uid key (Suc base) (if active then FavoriteUpsert else FavoriteDelete) now = Inr (n, db')"
      "mr_changed_revision r = Some n" "favorite_record db' uid key = Inr (Some (mr_value r))" by blast
    then show thesis
      by (intro switched [OF cur False _ refl]) (auto simp: set_deleted_def res_simps split: if_splits)
  qed
qed

lemma set_favorite_state_sync_inv:
  assumes "set_favorite_state db uid key active base now = Inr (r, db')" and inv: "sync_inv db"
  shows "sync_inv db'" and "processed_le db db'"
  using assms(1)
proof (atomize (full), cases rule: set_favorite_state_cases)
  case (same cur)
  with inv show "sync_inv db' \<and> processed_le db db'" by simp
next
  case (switched cur n db1)
  have "fav_inv db1" using inv switched(4) unfolding switched(5) by (auto simp: sync_inv_def fav_inv_def)
  moreover have "log_inv db1" "stats_inv db1" "sums_inv db1" "processed_inv db1"
    using inv unfolding switched(5) sync_inv_def by (auto intro: sync_inv_favorites_grow)
  ultimately have "sync_inv db'" using record_change_sync_inv [OF switched(6)] by (simp add: sync_inv_def)
  moreover have "processed_le db db'"
    using record_change_frame [OF switched(6)] by (intro processed_le_eq) (simp add: switched(5))
  ultimately show "sync_inv db' \<and> processed_le db db'" by simp
qed

lemma set_favorite_state_view:
  assumes "set_favorite_state db uid key active base now = Inr (r, db')" and "v \<noteq> uid"
  shows "user_view db' v = user_view db v"
  using assms(1)
proof (cases rule: set_favorite_state_cases)
  case (switched cur n db1)
  have "user_view db1 v = user_view db v"
    using assms(2) by (simp add: switched(5) user_view_def stats_rows_def filter_tbl_modify)
  with record_change_view [OF switched(6) assms(2)] show ?thesis by simp
qed simp

section \<open>The Server as a transition system\<close>

text \<open>One committed transaction of the Server: an identity operation, a pushed batch or a switch of
  the web client. A refused call commits nothing (an expired refresh token apart, which
  \<open>repo_step\<close> covers).\<close>

inductive server_step :: "event_json \<Rightarrow> sha256 \<Rightarrow> server_db \<Rightarrow> server_db \<Rightarrow> bool" for js sha where
  srv_identity: "repo_step db db' \<Longrightarrow> server_step js sha db db'"
| srv_push: "push_events js sha db uid did events now = Inr (r, db') \<Longrightarrow> list_all push_event_typed events
    \<Longrightarrow> server_step js sha db db'"
| srv_state: "set_favorite_state db uid key active base now = Inr (v, db') \<Longrightarrow> server_step js sha db db'"

inductive_cases server_stepE: "server_step js sha db db'"

lemma push_events_Inr:
  "push_events js sha db uid did es now = Inr (r, db') \<longleftrightarrow>
     (\<exists>acks ch n. foldM (push_one js sha uid did now) es (db, [], None) = Inr (db', acks, ch)
        \<and> user_revision db' uid = Inr n
        \<and> r = \<lparr>mr_value = \<lparr>pr_acknowledgements = acks, pr_latest_revision = n\<rparr>, mr_changed_revision = ch\<rparr>)"
  by (auto simp: push_events_def res_simps)

text \<open>The identity operations only add users (with an empty log) and devices.\<close>

lemma repo_step_frame:
  assumes "repo_step db db'"
  shows "server_favorites db' = server_favorites db \<and> device_query_stats db' = device_query_stats db
     \<and> processed_sync_events db' = processed_sync_events db \<and> change_log db' = change_log db
     \<and> (\<forall>k. tbl_has (devices db) k \<longrightarrow> tbl_has (devices db') k)
     \<and> (users db' = users db \<or> (\<exists>uid row. \<not> tbl_has (users db) uid \<and> us_sync_revision row = 0
          \<and> users db' = tbl_put uid row (users db)))"
  using assms
proof (induction rule: repo_step.induct)
  case (step_bootstrap db name pw now new_id uid db')
  let ?row = "\<lparr>us_username = name, us_password_hash = pw, us_sync_revision = 0,
             us_created_at = now, us_disabled_at = None\<rparr>"
  from step_bootstrap have "db' = db \<or> \<not> tbl_has (users db) new_id \<and> us_sync_revision ?row = 0
      \<and> db' = db\<lparr>users := tbl_put new_id ?row (users db)\<rparr>"
    by (cases "user_id_by_username db name") (auto simp: repo_bootstrap_user_def split: if_splits)
  then show ?case
  proof
    assume "\<not> tbl_has (users db) new_id \<and> us_sync_revision ?row = 0
      \<and> db' = db\<lparr>users := tbl_put new_id ?row (users db)\<rparr>"
    then show ?thesis by (intro conjI disjI2 exI [of _ new_id] exI [of _ ?row]) simp_all
  qed simp
next
  case (step_login db user did plat dname ah rh expires now sid ident db')
  then obtain db1 where "put_device db (uc_user_id user) did plat dname now = Inr db1"
    and db': "\<exists>s. db' = db1\<lparr>sessions := s\<rparr>"
    by (auto simp: create_session_def res_simps split: if_splits)
  from put_device_Inr [OF this(1)] db' show ?case by (auto simp: tbl_has_get)
next
  case (step_access db ah now ident db')
  then show ?case by (auto simp: authenticate_access_Inr)
next
  case (step_refresh db rh ah' rh' expires ttl now r db')
  then show ?case by (cases rule: rotate_refresh_cases) auto
next
  case (step_logout db sid now)
  then show ?case by (simp add: revoke_session_def)
next
  case (step_revoke db uid did now db')
  then show ?case by (auto simp: revoke_device_def split: if_splits)
qed

lemma repo_step_sync_inv:
  assumes "repo_step db db'" and "sync_inv db"
  shows "sync_inv db'"
proof -
  note fr = repo_step_frame [OF assms(1)]
  have users: "tbl_has (users db) uid \<Longrightarrow> tbl_has (users db') uid" for uid using fr by auto
  have "log_inv db'"
  proof (cases "users db' = users db")
    case True
    with fr assms(2) show ?thesis by (simp add: sync_inv_def log_inv_def)
  next
    case False
    with fr obtain uid row where new: "\<not> tbl_has (users db) uid" "us_sync_revision row = 0"
      "users db' = tbl_put uid row (users db)" by blast
    have "\<not> tbl_has (change_log db) (uid, n)" for n
      using new(1) assms(2) by (auto simp: sync_inv_def log_inv_def tbl_has_get)
    with fr new assms(2) show ?thesis by (auto simp: sync_inv_def log_inv_def i64_max_def)
  qed
  moreover have "fav_inv db'" "stats_inv db'" "sums_inv db'" "processed_inv db'"
    using fr assms(2) users
    by (auto simp: sync_inv_def fav_inv_def stats_inv_def sums_inv_def processed_inv_def stats_rows_def)
  ultimately show ?thesis by (simp add: sync_inv_def)
qed

lemma server_step_sync_inv:
  "server_step js sha db db' \<Longrightarrow> sync_inv db \<Longrightarrow> sync_inv db' \<and> processed_le db db'"
proof (induction rule: server_step.induct)
  case (srv_identity db db')
  then show ?case using repo_step_sync_inv repo_step_frame processed_le_eq by metis
next
  case (srv_push db uid did events now r db')
  then show ?case by (auto simp: push_events_Inr dest: push_loop_effect)
next
  case (srv_state db uid key active base now v db')
  then show ?case using set_favorite_state_sync_inv by blast
qed

lemma server_steps_sync_inv:
  "(server_step js sha)\<^sup>*\<^sup>* db db' \<Longrightarrow> sync_inv db \<Longrightarrow> sync_inv db' \<and> processed_le db db'"
  by (induction rule: rtranclp_induct) (auto dest: server_step_sync_inv intro: processed_le_trans)

lemma identity_inv_cong:
  "users db' = users db \<Longrightarrow> devices db' = devices db \<Longrightarrow> sessions db' = sessions db \<Longrightarrow>
     identity_inv db' = identity_inv db"
  by (simp add: identity_inv_def)

lemma record_change_identity_inv:
  assumes "record_change db uid key er op now = Inr (n, db')" and "identity_inv db"
  shows "identity_inv db'"
  using assms(1)
proof (rule record_change_Inr)
  assume "db' = db\<lparr>users := tbl_modify uid (\<lambda>r. r\<lparr>us_sync_revision := int n\<rparr>) (users db),
              change_log := tbl_put (uid, int n) \<lparr>cl_content_key = key, cl_entity_revision = int er,
                 cl_operation = operation_name op, cl_changed_at = now\<rparr> (change_log db)\<rparr>"
  with assms(2) show ?thesis by (simp add: identity_inv_def map_tbl_modify)
qed

lemma apply_event_identity_inv:
  assumes "apply_event db uid did e now = Inr (out, db')" and "identity_inv db"
  shows "identity_inv db'"
  using assms(1)
proof (rule apply_event_Inr)
  fix cur db1 ch er sch db2 a n
  assume ent: "apply_entity db uid e cur now = Inr (db1, ch, er)"
    and m: "case pe_query_stats e of None \<Rightarrow> \<not> sch \<and> db2 = db1 \<and> a = None
       | Some s \<Rightarrow> merge_query_stats db1 uid did (pe_content_key e) s = Inr (sch, db2)
                   \<and> aggregate_stats db2 uid (pe_content_key e) = Inr a"
    and r: "if ch \<or> sch then \<exists>r. er = Some r \<and> record_change db2 uid (pe_content_key e) r (pe_operation e) now = Inr (n, db')
     else user_revision db2 uid = Inr n \<and> db' = db2"
  obtain t where "db1 = db\<lparr>server_favorites := t\<rparr>" using ent by (rule apply_entity_frame)
  then have "identity_inv db1" using assms(2) by (simp add: identity_inv_def)
  then have "identity_inv db2" using stats_phase_frame [OF m] by (auto simp: identity_inv_def)
  with r show ?thesis by (auto split: if_splits intro: record_change_identity_inv)
qed

lemma push_one_identity_inv:
  assumes "push_one js sha uid did now e (db, acks, ch) = Inr (db', acks', ch')" and "identity_inv db"
  shows "identity_inv db'"
  using assms(1)
proof (cases rule: push_one_cases)
  case (fresh out db1)
  with assms(2) have "identity_inv db1" by (auto intro: apply_event_identity_inv)
  moreover have "identity_inv db' = identity_inv db1"
    using store_ack_frame [OF fresh(3)] by (intro identity_inv_cong) simp_all
  ultimately show ?thesis by simp
qed (use assms(2) in simp)

lemma push_loop_identity_inv:
  assumes "foldM (push_one js sha uid did now) es st = Inr st'" and "identity_inv (fst st)"
  shows "identity_inv (fst st')"
  using assms
proof (rule foldM_invariant)
  fix e s t assume "identity_inv (fst s)" "push_one js sha uid did now e s = Inr t"
  then show "identity_inv (fst t)" using push_one_identity_inv by (metis prod.collapse)
qed

lemma server_step_identity_inv: "server_step js sha db db' \<Longrightarrow> identity_inv db \<Longrightarrow> identity_inv db'"
proof (induction rule: server_step.induct)
  case (srv_identity db db')
  then show ?case by (auto intro: repo_steps_identity_inv)
next
  case (srv_push db uid did events now r db')
  then show ?case using push_loop_identity_inv by (fastforce simp: push_events_Inr)
next
  case (srv_state db uid key active base now v db')
  from srv_state.hyps show ?case
  proof (cases rule: set_favorite_state_cases)
    case (switched cur n db1)
    then have "identity_inv db1" using srv_state.prems by (simp add: identity_inv_def)
    with switched(6) show ?thesis by (rule record_change_identity_inv)
  qed (use srv_state.prems in simp)
qed

section \<open>Compare-and-set on the entity revision\<close>

text \<open>The revision the Server holds for a favorite: 0 when it has none.\<close>

definition held_revision :: "server_db \<Rightarrow> string \<Rightarrow> string \<Rightarrow> u64" where
  "held_revision db uid key =
     (case tbl_get (server_favorites db) (uid, key) of None \<Rightarrow> 0 | Some r \<Rightarrow> nat (sf_entity_revision r))"

lemma held_revision_record:
  "favorite_record db uid key = Inr cur \<Longrightarrow>
     held_revision db uid key = (case cur of None \<Rightarrow> 0 | Some f \<Rightarrow> fr_entity_revision f)"
  by (erule favorite_record_cases) (auto simp: held_revision_def dest: sym)

lemma stats_phase_favorites:
  assumes "case stats of None \<Rightarrow> \<not> sch \<and> db2 = db1 \<and> a = None
       | Some s \<Rightarrow> merge_query_stats db1 uid did key s = Inr (sch, db2)
                   \<and> aggregate_stats db2 uid key = Inr a"
  shows "server_favorites db2 = server_favorites db1"
  using stats_phase_frame [OF assms] by auto

text \<open>What a successful event leaves in the favorites table.\<close>

lemma apply_event_favorites:
  assumes "apply_event db uid did e now = Inr (out, db')"
  obtains cur db1 ch er where "favorite_record db uid (pe_content_key e) = Inr cur"
    "pe_operation e = QueryStatsUpsert \<or> held_revision db uid (pe_content_key e) = pe_base_entity_revision e"
    "apply_entity db uid e cur now = Inr (db1, ch, er)" "server_favorites db' = server_favorites db1"
  using assms
proof (rule apply_event_Inr)
  fix cur db1 ch er sch db2 a n
  assume cur: "favorite_record db uid (pe_content_key e) = Inr cur"
    and base: "pe_operation e = QueryStatsUpsert \<or>
       (case cur of None \<Rightarrow> 0 | Some f \<Rightarrow> fr_entity_revision f) = pe_base_entity_revision e"
    and ent: "apply_entity db uid e cur now = Inr (db1, ch, er)"
    and m: "case pe_query_stats e of None \<Rightarrow> \<not> sch \<and> db2 = db1 \<and> a = None
       | Some s \<Rightarrow> merge_query_stats db1 uid did (pe_content_key e) s = Inr (sch, db2)
                   \<and> aggregate_stats db2 uid (pe_content_key e) = Inr a"
    and r: "if ch \<or> sch then \<exists>r. er = Some r \<and> record_change db2 uid (pe_content_key e) r (pe_operation e) now = Inr (n, db')
     else user_revision db2 uid = Inr n \<and> db' = db2"
  have "server_favorites db' = server_favorites db2"
    using r by (auto split: if_splits dest: record_change_frame)
  with stats_phase_favorites [OF m] base show thesis
    by (intro that [OF cur _ ent]) (simp_all add: held_revision_record [OF cur])
qed

lemma apply_event_conflict:
  assumes "sync_inv db" and "tbl_get (users db) uid = Some u" and "pe_operation e \<noteq> QueryStatsUpsert"
    and "held_revision db uid (pe_content_key e) \<noteq> pe_base_entity_revision e"
  obtains cur where "favorite_record db uid (pe_content_key e) = Inr cur"
    "apply_event db uid did e now = Inl (Conflict \<lparr>cf_event_id = Some (pe_event_id e), cf_current = cur,
       cf_latest_revision = nat (us_sync_revision u)\<rparr>)"
proof -
  from favorite_record_total [OF assms(1), of uid "pe_content_key e"]
  obtain cur where cur: "favorite_record db uid (pe_content_key e) = Inr cur" by blast
  moreover have "user_revision db uid = Inr (nat (us_sync_revision u))"
    using assms(1,2) by (simp add: user_revision_Inr sync_inv_def log_inv_def)
  ultimately show thesis
    using assms(3,4) by (intro that [OF cur]) (simp add: apply_event_def held_revision_record [OF cur])
qed

section \<open>Query counters form a join semilattice\<close>

text \<open>Folding the snapshots of a device into its row, in the order they arrive.\<close>

definition merge_snapshots :: "device_stats_row option \<Rightarrow> query_stats_snapshot list \<Rightarrow> device_stats_row option" where
  "merge_snapshots row xs =
     foldl (\<lambda>r s. Some (merged_stats r s (int (qss_query_count s)))) row xs"

definition row_of_snapshot :: "query_stats_snapshot \<Rightarrow> device_stats_row" where
  "row_of_snapshot s = \<lparr>ds_query_count = int (qss_query_count s), ds_first_queried_at = qss_first_queried_at s,
     ds_last_queried_at = qss_last_queried_at s, ds_updated_at = qss_updated_at s\<rparr>"

definition rows_join :: "device_stats_row set \<Rightarrow> device_stats_row" where
  "rows_join R = \<lparr>ds_query_count = Max (ds_query_count ` R), ds_first_queried_at = Min (ds_first_queried_at ` R),
     ds_last_queried_at = Max (ds_last_queried_at ` R), ds_updated_at = Max (ds_updated_at ` R)\<rparr>"

lemma rows_join_insert:
  assumes "finite R" and "R \<noteq> {}"
  shows "rows_join (insert (row_of_snapshot s) R)
     = merged_stats (Some (rows_join R)) s (int (qss_query_count s))"
  using assms by (simp add: rows_join_def merged_stats_def row_of_snapshot_def max.commute min.commute)

lemma merge_snapshots_Some:
  "finite R \<Longrightarrow> R \<noteq> {} \<Longrightarrow>
     merge_snapshots (Some (rows_join R)) xs = Some (rows_join (R \<union> row_of_snapshot ` set xs))"
proof (induction xs arbitrary: R)
  case Nil
  then show ?case by (simp add: merge_snapshots_def)
next
  case (Cons s xs)
  from Cons.IH [of "insert (row_of_snapshot s) R"] Cons.prems show ?case
    by (simp add: merge_snapshots_def rows_join_insert insert_commute)
qed

lemma rows_join_single [simp]: "rows_join {r} = r"
  by (simp add: rows_join_def)

lemma merge_snapshots_join:
  assumes "xs \<noteq> [] \<or> row \<noteq> None"
  shows "merge_snapshots row xs = Some (rows_join (set_option row \<union> row_of_snapshot ` set xs))"
proof (cases row)
  case None
  with assms obtain s ys where xs: "xs = s # ys" by (cases xs) auto
  have "merge_snapshots None xs = merge_snapshots (Some (rows_join {row_of_snapshot s})) ys"
    by (simp add: merge_snapshots_def xs merged_stats_def row_of_snapshot_def)
  also have "\<dots> = Some (rows_join ({row_of_snapshot s} \<union> row_of_snapshot ` set ys))"
    by (intro merge_snapshots_Some) simp_all
  finally show ?thesis using None by (simp add: xs)
next
  case (Some r)
  then show ?thesis using merge_snapshots_Some [of "{r}" xs] by simp
qed

lemma merge_query_stats_row:
  assumes "merge_query_stats db uid did key s = Inr (ch, db')"
  shows "tbl_get (device_query_stats db') (uid, did, key)
     = Some (merged_stats (tbl_get (device_query_stats db) (uid, did, key)) s (int (qss_query_count s)))"
  using assms by (cases rule: merge_query_stats_cases) simp_all

lemma merge_loop_row:
  "foldM (\<lambda>s d. rbind (merge_query_stats d uid did key s) (\<lambda>(ch, d'). Inr d')) xs db = Inr db' \<Longrightarrow>
     tbl_get (device_query_stats db') (uid, did, key)
     = merge_snapshots (tbl_get (device_query_stats db) (uid, did, key)) xs"
proof (induction xs arbitrary: db)
  case Nil
  then show ?case by (simp add: merge_snapshots_def)
next
  case (Cons s xs)
  then obtain ch db1 where one: "merge_query_stats db uid did key s = Inr (ch, db1)"
    and "foldM (\<lambda>s d. rbind (merge_query_stats d uid did key s) (\<lambda>(ch, d'). Inr d')) xs db1 = Inr db'"
    by (auto simp: rbind_Inr)
  from Cons.IH [OF this(2)] merge_query_stats_row [OF one] show ?case
    by (simp add: merge_snapshots_def)
qed

section \<open>Users are never removed\<close>

lemma record_change_users: "record_change db uid key er op now = Inr (n, db') \<Longrightarrow>
    tbl_has (users db') = tbl_has (users db)"
  by (erule record_change_Inr) (simp add: fun_eq_iff)

lemma server_step_users:
  "server_step js sha db db' \<Longrightarrow> sync_inv db \<Longrightarrow> tbl_has (users db) v \<Longrightarrow> tbl_has (users db') v"
proof (induction rule: server_step.induct)
  case (srv_identity db db')
  then show ?case using repo_step_frame [OF srv_identity.hyps] by auto
next
  case (srv_push db uid did events now r db')
  from srv_push.hyps(1) obtain acks ch n where
    loop: "foldM (push_one js sha uid did now) events (db, [], None) = Inr (db', acks, ch)"
    and n: "user_revision db' uid = Inr n" by (auto simp: push_events_Inr)
  show ?case
  proof (cases "v = uid")
    case True
    with n show ?thesis by (auto simp: user_revision_Inr tbl_has_get)
  next
    case False
    from push_loop_view [OF loop False] srv_push.prems show ?thesis
      by (simp add: user_view_def tbl_has_get)
  qed
next
  case (srv_state db uid key active base now w db')
  from srv_state.hyps show ?case
  proof (cases rule: set_favorite_state_cases)
    case (switched cur n db1)
    with record_change_users [OF switched(6)] srv_state.prems show ?thesis by simp
  qed (use srv_state.prems in simp)
qed

lemma server_steps_users:
  "(server_step js sha)\<^sup>*\<^sup>* db db' \<Longrightarrow> sync_inv db \<Longrightarrow> tbl_has (users db) v \<Longrightarrow> tbl_has (users db') v"
proof (induction rule: rtranclp_induct)
  case (step y z)
  then show ?case using server_steps_sync_inv [OF step.hyps(1)] server_step_users [OF step.hyps(2)] by blast
qed

section \<open>Properties\<close>

text \<open>A pushed favorite used by the examples below: one event of one device.\<close>

definition example_key :: string where
  "example_key = replicate 64 CHR ''a''"

definition example_snapshot :: favorite_snapshot where
  "example_snapshot = \<lparr>fs_kind = ''word'', fs_source_lang = ''en'', fs_target_lang = ''zh-Hans'',
     fs_source_text = [97], fs_canonical_text = [97], fs_translation = [98], fs_provider = ''p'',
     fs_favorited_at = 10, fs_updated_at = 10\<rparr>"

definition example_stats :: query_stats_snapshot where
  "example_stats = \<lparr>qss_query_count = 3, qss_first_queried_at = 5, qss_last_queried_at = 9,
     qss_updated_at = 9\<rparr>"

definition example_event :: push_event where
  "example_event = \<lparr>pe_event_id = ''e1'', pe_operation = FavoriteUpsert, pe_content_key = example_key,
     pe_key_version = 1, pe_base_entity_revision = 0, pe_favorite = Some example_snapshot,
     pe_query_stats = Some example_stats\<rparr>"

definition example_json :: event_json where
  "example_json e = (if pe_operation e = FavoriteUpsert then [] else [0])"

definition example_sha :: sha256 where
  "example_sha bytes = take 32 bytes"

definition example_pushed :: "push_response mutation_result \<times> server_db" where
  "example_pushed = projr (push_events example_json example_sha example_login_db ''u1'' ''d1'' [example_event] 30)"

lemma example_pushed_Inr:
  "push_events example_json example_sha example_login_db ''u1'' ''d1'' [example_event] 30
     = Inr (fst example_pushed, snd example_pushed)"
proof -
  have "\<not> isl (push_events example_json example_sha example_login_db ''u1'' ''d1'' [example_event] 30)"
    by code_simp
  then show ?thesis unfolding example_pushed_def by (metis prod.collapse sum.collapse(2))
qed

lemma example_typed: "list_all push_event_typed [example_event]"
  by (simp add: push_event_typed_def example_event_def example_stats_def u32_max_def u64_max_def)

lemma example_reachable:
  "(server_step example_json example_sha)\<^sup>*\<^sup>* empty_server_db example_login_db"
  "(server_step example_json example_sha)\<^sup>*\<^sup>* empty_server_db (snd example_pushed)"
proof -
  let ?db0 = "snd (projr (repo_bootstrap_user empty_server_db ''ann'' ''h'' 5 ''u1''))"
  have "repo_bootstrap_user empty_server_db ''ann'' ''h'' 5 ''u1'' = Inr (''u1'', ?db0)" by code_simp
  then have "server_step example_json example_sha empty_server_db ?db0"
    by (intro srv_identity step_bootstrap)
  moreover have "\<not> isl (create_session ?db0 example_user ''d1'' ''macos'' None ''a1'' ''r1'' 100 10 ''s1'')"
    by code_simp
  then have "create_session ?db0 example_user ''d1'' ''macos'' None ''a1'' ''r1'' 100 10 ''s1''
      = Inr (fst (projr (create_session ?db0 example_user ''d1'' ''macos'' None ''a1'' ''r1'' 100 10 ''s1'')),
             example_login_db)"
    unfolding example_login_db_def by (metis prod.collapse sum.collapse(2))
  then have "server_step example_json example_sha ?db0 example_login_db"
    by (intro srv_identity step_login)
  ultimately show login: "(server_step example_json example_sha)\<^sup>*\<^sup>* empty_server_db example_login_db"
    by (meson converse_rtranclp_into_rtranclp rtranclp.rtrancl_refl)
  have "server_step example_json example_sha example_login_db (snd example_pushed)"
    using example_pushed_Inr example_typed by (rule srv_push)
  with login show "(server_step example_json example_sha)\<^sup>*\<^sup>* empty_server_db (snd example_pushed)"
    by (rule rtranclp.rtrancl_into_rtrancl)
qed

lemma example_inv: "sync_inv example_login_db" "sync_inv (snd example_pushed)"
  using server_steps_sync_inv [OF example_reachable(1) sync_inv_empty]
    server_steps_sync_inv [OF example_reachable(2) sync_inv_empty] by simp_all

text \<open>
  C3: whatever sequence of logins, refreshes, revocations, pushed batches and web switches the
  Server commits from an empty database, its tables stay consistent: identities are unique, every
  device has a user and every session a device, the change log of a user holds exactly the
  revisions \<open>1..sync_revision\<close>, favorites carry positive revisions and counters never overflow
  their column.
\<close>

theorem server_store_invariant:
  assumes "(server_step js sha)\<^sup>*\<^sup>* empty_server_db db"
  shows "identity_inv db \<and> sync_inv db"
proof
  show "identity_inv db" using assms
    by (induction rule: rtranclp_induct) (auto intro: server_step_identity_inv identity_inv_empty)
  show "sync_inv db" using server_steps_sync_inv [OF assms sync_inv_empty] by simp
qed

theorem server_store_invariant_witness: "identity_inv (snd example_pushed) \<and> sync_inv (snd example_pushed)"
  using server_store_invariant [OF example_reachable(2)] by simp

text \<open>
  C1: pushes are idempotent. A batch that was accepted once can be delivered again at any later
  time, from any device of the user, whatever the Server has committed since: the acknowledgements
  are the ones of the first delivery, nothing is written and no change is announced.
\<close>

theorem push_replay:
  assumes "sync_inv db" and "list_all push_event_typed events"
    and "push_events js sha db uid did events now = Inr (r, db1)"
    and "(server_step js sha)\<^sup>*\<^sup>* db1 db2"
  shows "\<exists>latest. push_events js sha db2 uid did' events now' =
     Inr (\<lparr>mr_value = \<lparr>pr_acknowledgements = pr_acknowledgements (mr_value r),
                        pr_latest_revision = latest\<rparr>, mr_changed_revision = None\<rparr>, db2)
     \<and> user_revision db2 uid = Inr latest"
proof -
  from assms(3) obtain acks ch n where
    loop: "foldM (push_one js sha uid did now) events (db, [], None) = Inr (db1, acks, ch)"
    and rev1: "user_revision db1 uid = Inr n" and acks: "pr_acknowledgements (mr_value r) = acks"
    by (auto simp: push_events_Inr)
  from push_loop_effect [OF loop assms(1,2)] have inv1: "sync_inv db1"
    and known: "list_all2 (\<lambda>e a. processed_ack db1 uid e (event_fingerprint js sha e) = Inr (Some a)) events acks"
    by auto
  note later = server_steps_sync_inv [OF assms(4) inv1]
  have "list_all2 (\<lambda>e a. processed_ack db2 uid e (event_fingerprint js sha e) = Inr (Some a)) events acks"
    using known by (rule list_all2_mono) (use later processed_ack_mono in blast)
  from push_loop_replay [OF this] have
    "foldM (push_one js sha uid did' now') events (db2, [], None) = Inr (db2, acks, None)" by simp
  moreover have "\<exists>m. user_revision db2 uid = Inr m"
  proof -
    have "tbl_has (users db1) uid" using rev1 by (auto simp: user_revision_Inr tbl_has_get)
    then have "tbl_has (users db2) uid" using server_steps_users [OF assms(4) inv1] by simp
    with later show ?thesis by (auto simp: user_revision_Inr sync_inv_def log_inv_def tbl_has_get)
  qed
  ultimately show ?thesis by (auto simp: push_events_def acks)
qed

theorem push_replay_witness:
  "\<exists>latest. push_events example_json example_sha (snd example_pushed) ''u1'' ''d2'' [example_event] 99 =
     Inr (\<lparr>mr_value = \<lparr>pr_acknowledgements = pr_acknowledgements (mr_value (fst example_pushed)),
                        pr_latest_revision = latest\<rparr>, mr_changed_revision = None\<rparr>, snd example_pushed)"
  using push_replay [OF example_inv(1) example_typed example_pushed_Inr rtranclp.rtrancl_refl] by blast

text \<open>The row an accepted upsert or deletion leaves.\<close>

lemma apply_event_row:
  assumes "apply_event db uid did e now = Inr (out, db')" and "pe_operation e \<noteq> QueryStatsUpsert"
  shows "\<exists>row. tbl_get (server_favorites db') (uid, pe_content_key e) = Some row
     \<and> (sf_entity_revision row = int (pe_base_entity_revision e)
        \<or> sf_entity_revision row = int (pe_base_entity_revision e) + 1)
     \<and> (pe_operation e = FavoriteUpsert \<longrightarrow> sf_deleted_at row = None \<and> Some (sf_snapshot row) = pe_favorite e)
     \<and> (pe_operation e = FavoriteDelete \<longrightarrow> sf_deleted_at row \<noteq> None)"
  using assms(1)
proof (rule apply_event_favorites)
  fix cur db1 ch er
  assume cur: "favorite_record db uid (pe_content_key e) = Inr cur"
    and base: "pe_operation e = QueryStatsUpsert \<or> held_revision db uid (pe_content_key e) = pe_base_entity_revision e"
    and ent: "apply_entity db uid e cur now = Inr (db1, ch, er)"
    and fav: "server_favorites db' = server_favorites db1"
  have b: "(case cur of None \<Rightarrow> 0 | Some f \<Rightarrow> fr_entity_revision f) = pe_base_entity_revision e"
    using base assms(2) held_revision_record [OF cur] by simp
  from ent show ?thesis
  proof (cases rule: apply_entity_cases)
    case same
    with ent assms(2) obtain v where v: "cur = Some v" "pe_operation e = FavoriteDelete \<longrightarrow> fr_deleted_at v \<noteq> None"
      "pe_operation e = FavoriteUpsert \<longrightarrow> fr_deleted_at v = None \<and> Some (fr_favorite v) = pe_favorite e"
      by (cases "pe_operation e"; cases cur) (auto simp: apply_entity_def res_simps split: if_splits)
    from cur v(1) obtain row where "tbl_get (server_favorites db) (uid, pe_content_key e) = Some row"
      "fr_favorite v = sf_snapshot row" "fr_deleted_at v = sf_deleted_at row"
      "int (fr_entity_revision v) = sf_entity_revision row"
      by (auto elim!: favorite_record_cases)
    with v b same(1) fav show ?thesis by auto
  next
    case (upserted snapshot n)
    with b fav show ?thesis by simp
  next
    case (deleted v n)
    from cur deleted(2) obtain row where "tbl_get (server_favorites db) (uid, pe_content_key e) = Some row"
      by (auto elim!: favorite_record_cases)
    with deleted b fav show ?thesis by simp
  qed
qed

text \<open>
  C2: the change feed has no gaps. From a consistent store, a request with cursor \<open>since\<close> and page
  size \<open>limit\<close> always succeeds; the page holds exactly the first \<open>limit\<close> revisions after the
  cursor, in order, each with the operation that was logged and the record the Server holds now;
  \<open>has_more\<close> is true exactly when the feed goes on past the page.
\<close>

theorem changes_since_page:
  assumes "sync_inv db" and "tbl_get (users db) uid = Some u"
    and "int since \<le> i64_max" and "int limit \<le> i64_max" and "0 < limit"
  shows "\<exists>resp. changes_since db uid since limit = Inr resp
     \<and> map sc_revision (cr_changes resp) = take limit [Suc since..<Suc (nat (us_sync_revision u))]
     \<and> list_all (\<lambda>c. \<exists>row. tbl_get (change_log db) (uid, int (sc_revision c)) = Some row
          \<and> favorite_record db uid (cl_content_key row) = Inr (Some (sc_favorite c))
          \<and> cl_operation row = operation_name (sc_operation c)) (cr_changes resp)
     \<and> cr_latest_revision resp = nat (us_sync_revision u)
     \<and> cr_next_revision resp = max since (min (since + limit) (nat (us_sync_revision u)))
     \<and> cr_has_more resp = (since + limit < nat (us_sync_revision u))"
proof -
  let ?n = "nat (us_sync_revision u)"
  from changes_since_total [OF assms(1-4)] obtain resp where
    ok: "changes_since db uid since limit = Inr resp"
    and revs: "map sc_revision (cr_changes resp) = take limit [Suc since..<Suc ?n]"
    and rows: "list_all (\<lambda>c. \<exists>row. tbl_get (change_log db) (uid, int (sc_revision c)) = Some row
          \<and> favorite_record db uid (cl_content_key row) = Inr (Some (sc_favorite c))
          \<and> cl_operation row = operation_name (sc_operation c)) (cr_changes resp)"
    and nxt: "cr_next_revision resp = (if cr_changes resp = [] then since else sc_revision (last (cr_changes resp)))"
    and lat: "cr_latest_revision resp = ?n" and more: "cr_has_more resp = (cr_next_revision resp < ?n)"
    by blast
  have next_eq: "cr_next_revision resp = max since (min (since + limit) ?n)"
  proof (cases "since < ?n")
    case True
    have nz: "take limit [Suc since..<Suc ?n] \<noteq> []" using True assms(5) by (simp del: upt_Suc)
    then have "cr_changes resp \<noteq> []" using revs by force
    then have "cr_next_revision resp = last (map sc_revision (cr_changes resp))"
      using nxt by (simp add: last_map)
    also have "\<dots> = min (since + limit) ?n"
    proof -
      let ?m = "min limit (?n - since)"
      have "take limit [Suc since..<Suc ?n] = [Suc since..<Suc since + ?m]"
        by (cases "limit \<le> ?n - since") (use True in \<open>auto simp: take_upt simp del: upt_Suc\<close>)
      moreover have "0 < ?m" using True assms(5) by simp
      then have "last [Suc since..<Suc since + ?m] = since + ?m" by (subst last_upt) auto
      moreover have "since + ?m = min (since + limit) ?n" using True by simp
      ultimately show ?thesis unfolding revs by metis
    qed
    finally show ?thesis using True by simp
  next
    case False
    then have "take limit [Suc since..<Suc ?n] = []" by simp
    then have "cr_changes resp = []" using revs by (metis Nil_is_map_conv)
    with nxt False show ?thesis by simp
  qed
  moreover have "cr_has_more resp = (since + limit < ?n)"
    unfolding more next_eq using assms(5) by auto
  ultimately show ?thesis using ok revs rows lat by blast
qed

theorem changes_since_page_witness:
  "\<exists>resp. changes_since (snd example_pushed) ''u1'' 0 100 = Inr resp \<and> map sc_revision (cr_changes resp) = [1]
     \<and> \<not> cr_has_more resp"
proof -
  let ?u = "the (tbl_get (users (snd example_pushed)) ''u1'')"
  have u: "tbl_get (users (snd example_pushed)) ''u1'' = Some ?u" by code_simp
  have n: "us_sync_revision ?u = 1" by code_simp
  have "int 0 \<le> i64_max" "int 100 \<le> i64_max" "0 < (100::nat)" by (simp_all add: i64_max_def)
  from changes_since_page [OF example_inv(2) u this] show ?thesis
    by (auto simp: n)
qed

text \<open>
  An accepted batch advances the user's revision by at most one per event, and the Server
  announces a change exactly when the revision moved, with the new revision.
\<close>

theorem push_revision_accounting:
  assumes "sync_inv db" and "list_all push_event_typed events" and "user_revision db uid = Inr n"
    and "push_events js sha db uid did events now = Inr (r, db')"
  shows "user_revision db' uid = Inr (pr_latest_revision (mr_value r))
     \<and> n \<le> pr_latest_revision (mr_value r) \<and> pr_latest_revision (mr_value r) \<le> n + length events
     \<and> mr_changed_revision r = (if pr_latest_revision (mr_value r) = n then None
                                 else Some (pr_latest_revision (mr_value r)))
     \<and> length (pr_acknowledgements (mr_value r)) = length events
     \<and> map pa_event_id (pr_acknowledgements (mr_value r)) = map pe_event_id events"
proof -
  from assms(4) obtain acks ch m where
    loop: "foldM (push_one js sha uid did now) events (db, [], None) = Inr (db', acks, ch)"
    and m: "user_revision db' uid = Inr m"
    and r: "r = \<lparr>mr_value = \<lparr>pr_acknowledgements = acks, pr_latest_revision = m\<rparr>, mr_changed_revision = ch\<rparr>"
    by (auto simp: push_events_Inr)
  have "changed_ok n n None" by (simp add: changed_ok_def)
  from push_loop_revision [OF loop assms(1-3) this] m have
    "changed_ok n m ch" "n \<le> m" "m \<le> n + length events" by auto
  moreover from push_loop_effect [OF loop assms(1,2)]
  have "list_all2 (\<lambda>e a. processed_ack db' uid e (event_fingerprint js sha e) = Inr (Some a)) events acks"
    by auto
  then have "list_all2 (\<lambda>e a. pa_event_id a = pe_event_id e) events acks"
    by (rule list_all2_mono) (auto simp: processed_ack_def res_simps split: option.splits if_splits)
  then have "length acks = length events \<and> map pa_event_id acks = map pe_event_id events"
    by (auto simp: list_all2_conv_all_nth intro: nth_equalityI)
  ultimately show ?thesis using m by (simp add: r changed_ok_def)
qed

theorem push_revision_accounting_witness:
  "mr_changed_revision (fst example_pushed) = Some 1
   \<and> map pa_event_id (pr_acknowledgements (mr_value (fst example_pushed))) = [''e1'']"
proof -
  have n: "user_revision example_login_db ''u1'' = Inr 0" by code_simp
  have "pr_latest_revision (mr_value (fst example_pushed)) = 1" by code_simp
  with push_revision_accounting [OF example_inv(1) example_typed n example_pushed_Inr]
  show ?thesis by (simp add: example_event_def)
qed

text \<open>
  C4: favorites are changed by compare-and-set. An upsert or a deletion whose base revision is not
  the one the Server holds is refused with the Server's current record and latest revision; an
  accepted one had the right base and leaves a row whose revision is the base or the base plus one,
  which holds the pushed snapshot and is active (upsert), or is deleted (delete).
\<close>

theorem favorite_compare_and_set:
  assumes "sync_inv db" and "tbl_get (users db) uid = Some u" and "pe_operation e \<noteq> QueryStatsUpsert"
  shows "(held_revision db uid (pe_content_key e) \<noteq> pe_base_entity_revision e \<longrightarrow>
           (\<exists>cur. favorite_record db uid (pe_content_key e) = Inr cur \<and>
             apply_event db uid did e now = Inl (Conflict \<lparr>cf_event_id = Some (pe_event_id e),
               cf_current = cur, cf_latest_revision = nat (us_sync_revision u)\<rparr>)))
     \<and> (\<forall>out db'. apply_event db uid did e now = Inr (out, db') \<longrightarrow>
           held_revision db uid (pe_content_key e) = pe_base_entity_revision e
           \<and> (\<exists>row. tbl_get (server_favorites db') (uid, pe_content_key e) = Some row
                \<and> (sf_entity_revision row = int (pe_base_entity_revision e)
                   \<or> sf_entity_revision row = int (pe_base_entity_revision e) + 1)
                \<and> (pe_operation e = FavoriteUpsert \<longrightarrow>
                     sf_deleted_at row = None \<and> Some (sf_snapshot row) = pe_favorite e)
                \<and> (pe_operation e = FavoriteDelete \<longrightarrow> sf_deleted_at row \<noteq> None)))"
proof (intro conjI impI allI)
  assume "held_revision db uid (pe_content_key e) \<noteq> pe_base_entity_revision e"
  with assms show "\<exists>cur. favorite_record db uid (pe_content_key e) = Inr cur \<and>
             apply_event db uid did e now = Inl (Conflict \<lparr>cf_event_id = Some (pe_event_id e),
               cf_current = cur, cf_latest_revision = nat (us_sync_revision u)\<rparr>)"
    by (elim apply_event_conflict) blast+
next
  fix out db'
  assume ok: "apply_event db uid did e now = Inr (out, db')"
  then show "held_revision db uid (pe_content_key e) = pe_base_entity_revision e"
    using assms(3) by (elim apply_event_favorites) simp
  show "\<exists>row. tbl_get (server_favorites db') (uid, pe_content_key e) = Some row
                \<and> (sf_entity_revision row = int (pe_base_entity_revision e)
                   \<or> sf_entity_revision row = int (pe_base_entity_revision e) + 1)
                \<and> (pe_operation e = FavoriteUpsert \<longrightarrow>
                     sf_deleted_at row = None \<and> Some (sf_snapshot row) = pe_favorite e)
                \<and> (pe_operation e = FavoriteDelete \<longrightarrow> sf_deleted_at row \<noteq> None)"
    using ok assms(3) by (rule apply_event_row)
qed

theorem favorite_compare_and_set_witness:
  "\<exists>cur. favorite_record (snd example_pushed) ''u1'' example_key = Inr cur \<and>
     apply_event (snd example_pushed) ''u1'' ''d1'' example_event 40 =
       Inl (Conflict \<lparr>cf_event_id = Some ''e1'', cf_current = cur, cf_latest_revision = 1\<rparr>)"
proof -
  let ?u = "the (tbl_get (users (snd example_pushed)) ''u1'')"
  have u: "tbl_get (users (snd example_pushed)) ''u1'' = Some ?u" by code_simp
  have n: "us_sync_revision ?u = 1" by code_simp
  have h: "held_revision (snd example_pushed) ''u1'' example_key = 1" by code_simp
  have op: "pe_operation example_event \<noteq> QueryStatsUpsert" by (simp add: example_event_def)
  show ?thesis
    using favorite_compare_and_set [OF example_inv(2) u op] h by (simp add: n example_event_def)
qed

text \<open>
  C5: users are isolated. A batch pushed by one user changes nothing another user can read: his
  favorites, his change feed from every cursor and his revision stay the same.
\<close>

theorem push_user_isolation:
  assumes "push_events js sha db uid did events now = Inr (r, db')" and "v \<noteq> uid"
  shows "changes_since db' v since limit = changes_since db v since limit
     \<and> active_favorites db' v = active_favorites db v
     \<and> favorite_record db' v key = favorite_record db v key
     \<and> user_revision db' v = user_revision db v"
proof -
  from assms(1) obtain acks ch where
    loop: "foldM (push_one js sha uid did now) events (db, [], None) = Inr (db', acks, ch)"
    by (auto simp: push_events_Inr)
  from push_loop_view [OF loop assms(2)] have "user_view db' v = user_view db v" by simp
  from view_reads [OF this] show ?thesis by simp
qed

theorem push_user_isolation_witness:
  "changes_since (snd example_pushed) ''u2'' 0 10 = changes_since example_login_db ''u2'' 0 10"
  using push_user_isolation [OF example_pushed_Inr, of "''u2''" 0 10] by simp

text \<open>
  C6: the query counters of a device form a join semilattice. Whatever snapshots of a device
  arrive for a favorite, in whatever order and however often, its row ends as their join: the
  greatest count, the earliest first query and the latest last query and update.
\<close>

theorem device_stats_merge_join:
  assumes "foldM (\<lambda>s d. rbind (merge_query_stats d uid did key s) (\<lambda>(ch, d'). Inr d')) xs db = Inr db'"
    and "xs \<noteq> []"
  shows "tbl_get (device_query_stats db') (uid, did, key)
     = Some (rows_join (set_option (tbl_get (device_query_stats db) (uid, did, key)) \<union> row_of_snapshot ` set xs))"
  using merge_loop_row [OF assms(1)] merge_snapshots_join assms(2) by simp

theorem device_stats_merge_join_witness:
  "\<exists>db'. foldM (\<lambda>s d. rbind (merge_query_stats d ''u1'' ''d1'' example_key s) (\<lambda>(ch, d'). Inr d'))
        [example_stats\<lparr>qss_query_count := 7\<rparr>, example_stats\<lparr>qss_query_count := 2, qss_last_queried_at := 20\<rparr>]
        (snd example_pushed) = Inr db'
     \<and> tbl_get (device_query_stats db') (''u1'', ''d1'', example_key)
       = Some \<lparr>ds_query_count = 7, ds_first_queried_at = 5, ds_last_queried_at = 20, ds_updated_at = 9\<rparr>"
proof -
  let ?xs = "[example_stats\<lparr>qss_query_count := 7\<rparr>, example_stats\<lparr>qss_query_count := 2, qss_last_queried_at := 20\<rparr>]"
  let ?f = "foldM (\<lambda>s d. rbind (merge_query_stats d ''u1'' ''d1'' example_key s) (\<lambda>(ch, d'). Inr d')) ?xs (snd example_pushed)"
  have "\<not> isl ?f" by code_simp
  then obtain db' where f: "?f = Inr db'" by (cases ?f) auto
  have old: "tbl_get (device_query_stats (snd example_pushed)) (''u1'', ''d1'', example_key)
      = Some \<lparr>ds_query_count = 3, ds_first_queried_at = 5, ds_last_queried_at = 9, ds_updated_at = 9\<rparr>"
    by code_simp
  from device_stats_merge_join [OF f] old f show ?thesis
    by (simp add: rows_join_def row_of_snapshot_def example_stats_def)
qed

end
