(* ===== verification/Server_Config.thy ===== *)
theory Server_Config
  imports Core_Content
begin

text \<open>
  \<open>apps/server/src/config.rs\<close>: the Server's settings, read from environment variables and validated
  before anything starts. The environment is a map from names to texts. The parser of socket
  addresses of the standard library is an argument, used only to refuse a malformed address.
\<close>

section \<open>Settings\<close>

datatype app_environment = Development | Production

record server_config =
  environment :: app_environment
  bind_addr :: utext
  database_url :: utext
  public_server_url :: utext
  bootstrap_default_user :: bool
  default_username :: utext
  default_password :: "utext option"
  access_token_ttl_seconds :: i64
  refresh_idle_ttl_seconds :: i64
  login_rate_limit_enabled :: bool
  login_rate_limit_max_failures :: u32
  login_rate_limit_window_seconds :: i64
  max_request_body_bytes :: usize
  max_sync_body_bytes :: usize
  max_sync_events_per_batch :: usize
  sync_changes_default_limit :: usize
  sync_changes_max_limit :: usize
  backup_enabled :: bool
  backup_dir :: utext
  backup_retention_count :: usize
  backup_interval_seconds :: u64

datatype config_error =
  InvalidEnvironment | InvalidBindAddress | InvalidBoolean | InvalidNumber | InvalidBoundary
  | MissingBootstrapPassword | UnsafeProductionPassword | UnsafeProductionPublicUrl
  | UnsafeProductionDatabase

section \<open>Validation\<close>

definition example_password :: utext where
  "example_password = ascii ''change-me-dev''"

definition starts_with :: "'a list \<Rightarrow> 'a list \<Rightarrow> bool" where
  "starts_with p t = (take (length p) t = p)"

definition ends_with :: "'a list \<Rightarrow> 'a list \<Rightarrow> bool" where
  "ends_with p t = (length p \<le> length t \<and> drop (length t - length p) t = p)"

definition boundary_violated :: "server_config \<Rightarrow> bool" where
  "boundary_violated c =
     (trim (database_url c) = [] \<or> trim (default_username c) = []
      \<or> utf8_len (default_username c) > 128
      \<or> access_token_ttl_seconds c \<le> 0 \<or> refresh_idle_ttl_seconds c \<le> 0
      \<or> login_rate_limit_max_failures c = 0 \<or> login_rate_limit_window_seconds c \<le> 0
      \<or> max_request_body_bytes c = 0 \<or> max_sync_body_bytes c = 0
      \<or> max_sync_events_per_batch c = 0 \<or> sync_changes_default_limit c = 0
      \<or> sync_changes_max_limit c = 0 \<or> sync_changes_default_limit c > sync_changes_max_limit c
      \<or> backup_dir c = [] \<or> backup_retention_count c = 0 \<or> backup_interval_seconds c = 0)"

definition config_validate :: "server_config \<Rightarrow> config_error + unit" where
  "config_validate c =
     (if boundary_violated c then Inl InvalidBoundary
      else if bootstrap_default_user c \<and>
        (case default_password c of None \<Rightarrow> True
         | Some password \<Rightarrow> password = [] \<or> utf8_len password > 1024)
      then Inl MissingBootstrapPassword
      else if environment c = Production \<and> bootstrap_default_user c \<and>
        (case default_password c of None \<Rightarrow> True
         | Some password \<Rightarrow> utf8_len (trim password) < 12
             \<or> password \<in> {example_password, ascii ''password'', ascii ''admin''})
      then Inl UnsafeProductionPassword
      else if environment c = Production \<and>
        (\<not> starts_with (ascii ''https://'') (public_server_url c)
         \<or> utf8_len (public_server_url c) \<le> 8
         \<or> list_ex is_whitespace (public_server_url c))
      then Inl UnsafeProductionPublicUrl
      else if environment c = Production \<and>
        (database_url c = ascii '':memory:'' \<or> ends_with (ascii '':memory:'') (database_url c))
      then Inl UnsafeProductionDatabase
      else Inr ())"

section \<open>Reading the environment\<close>

type_synonym env = "string \<Rightarrow> utext option"

definition env_string :: "env \<Rightarrow> string \<Rightarrow> utext \<Rightarrow> utext" where
  "env_string env name default_value = (case env name of None \<Rightarrow> default_value | Some v \<Rightarrow> v)"

definition env_bool :: "env \<Rightarrow> string \<Rightarrow> bool \<Rightarrow> config_error + bool" where
  "env_bool env name default_value =
     (case env name of
        None \<Rightarrow> Inr default_value
      | Some v \<Rightarrow>
          if v = ascii ''true'' \<or> v = ascii ''1'' then Inr True
          else if v = ascii ''false'' \<or> v = ascii ''0'' then Inr False
          else Inl InvalidBoolean)"

text \<open>\<open>str::parse::<u64>\<close>: an optional \<open>+\<close>, at least one ASCII digit, no overflow.\<close>

definition digits_value :: "utext \<Rightarrow> nat" where
  "digits_value ds = foldl (\<lambda>n d. 10 * n + (d - 48)) 0 ds"

definition parse_u64 :: "utext \<Rightarrow> u64 option" where
  "parse_u64 t =
     (let ds = (case t of [] \<Rightarrow> [] | c # rest \<Rightarrow> if c = 43 then rest else t) in
      if ds = [] \<or> \<not> list_all (\<lambda>d. 48 \<le> d \<and> d \<le> 57) ds \<or> int (digits_value ds) > 18446744073709551615
      then None else Some (digits_value ds))"

definition env_u64 :: "env \<Rightarrow> string \<Rightarrow> u64 \<Rightarrow> config_error + u64" where
  "env_u64 env name default_value =
     (case env name of None \<Rightarrow> Inr default_value | Some v \<Rightarrow> ok_or InvalidNumber (parse_u64 v))"

definition checked_mul_u64 :: "u64 \<Rightarrow> u64 \<Rightarrow> u64 option" where
  "checked_mul_u64 a b = (if int a * int b \<le> 18446744073709551615 then Some (a * b) else None)"

definition minutes_to_seconds :: "u64 \<Rightarrow> config_error + i64" where
  "minutes_to_seconds minutes =
     rbind (ok_or InvalidNumber (checked_mul_u64 minutes 60)) (\<lambda>s. ok_or InvalidNumber (i64_of_u64 s))"

definition days_to_seconds :: "u64 \<Rightarrow> config_error + i64" where
  "days_to_seconds days =
     rbind (ok_or InvalidNumber (Option.bind (checked_mul_u64 days 24) (\<lambda>h. checked_mul_u64 h 3600)))
       (\<lambda>s. ok_or InvalidNumber (i64_of_u64 s))"

definition u32_of_u64 :: "u64 \<Rightarrow> u32 option" where
  "u32_of_u64 n = (if int n \<le> 4294967295 then Some n else None)"

text \<open>\<open>usize\<close> is 64 bits wide on every supported platform, so \<open>usize::try_from(u64)\<close> succeeds.\<close>

definition from_environment :: "(utext \<Rightarrow> bool) \<Rightarrow> env \<Rightarrow> config_error + server_config" where
  "from_environment socket_addr_ok env =
     rbind (let v = env_string env ''LVOS_APP_ENV'' (ascii ''development'') in
            if v = ascii ''development'' then Inr Development
            else if v = ascii ''production'' then Inr Production
            else Inl InvalidEnvironment) (\<lambda>app_env.
     let addr = env_string env ''LVOS_BIND_ADDR'' (ascii ''0.0.0.0:7770'') in
     rbind (if socket_addr_ok addr then Inr () else Inl InvalidBindAddress) (\<lambda>_.
     rbind (env_bool env ''LVOS_BOOTSTRAP_DEFAULT_USER'' True) (\<lambda>bootstrap.
     rbind (rbind (env_u64 env ''LVOS_ACCESS_TOKEN_TTL_MINUTES'' 60) minutes_to_seconds) (\<lambda>access_ttl.
     rbind (rbind (env_u64 env ''LVOS_REFRESH_SESSION_IDLE_TTL_DAYS'' 90) days_to_seconds) (\<lambda>refresh_ttl.
     rbind (env_bool env ''LVOS_LOGIN_RATE_LIMIT_ENABLED'' True) (\<lambda>rate_limit.
     rbind (rbind (env_u64 env ''LVOS_LOGIN_RATE_LIMIT_MAX_FAILURES'' 5)
              (\<lambda>n. ok_or InvalidNumber (u32_of_u64 n))) (\<lambda>max_failures.
     rbind (rbind (env_u64 env ''LVOS_LOGIN_RATE_LIMIT_WINDOW_SECONDS'' 60)
              (\<lambda>n. ok_or InvalidNumber (i64_of_u64 n))) (\<lambda>window.
     rbind (env_u64 env ''LVOS_MAX_REQUEST_BODY_BYTES'' 1048576) (\<lambda>request_body.
     rbind (env_u64 env ''LVOS_MAX_SYNC_BODY_BYTES'' 1048576) (\<lambda>sync_body.
     rbind (env_u64 env ''LVOS_MAX_SYNC_EVENTS_PER_BATCH'' 500) (\<lambda>batch.
     rbind (env_u64 env ''LVOS_SYNC_CHANGES_DEFAULT_LIMIT'' 100) (\<lambda>default_limit.
     rbind (env_u64 env ''LVOS_SYNC_CHANGES_MAX_LIMIT'' 500) (\<lambda>max_limit.
     rbind (env_bool env ''LVOS_BACKUP_ENABLED'' True) (\<lambda>backups.
     rbind (env_u64 env ''LVOS_BACKUP_RETENTION_COUNT'' 14) (\<lambda>retention.
     rbind (rbind (env_u64 env ''LVOS_BACKUP_INTERVAL_HOURS'' 24)
              (\<lambda>n. ok_or InvalidNumber (checked_mul_u64 n 3600))) (\<lambda>interval.
     let config = \<lparr>environment = app_env, bind_addr = addr,
        database_url = env_string env ''LVOS_DATABASE_URL'' (ascii ''sqlite://data/lvos.sqlite3''),
        public_server_url = env_string env ''LVOS_PUBLIC_SERVER_URL'' (ascii ''https://lvos.niuniu770.site''),
        bootstrap_default_user = bootstrap,
        default_username = env_string env ''LVOS_DEFAULT_USERNAME'' (ascii ''default''),
        default_password = (case env ''LVOS_DEFAULT_PASSWORD'' of Some v \<Rightarrow> Some v | None \<Rightarrow> Some example_password),
        access_token_ttl_seconds = access_ttl, refresh_idle_ttl_seconds = refresh_ttl,
        login_rate_limit_enabled = rate_limit, login_rate_limit_max_failures = max_failures,
        login_rate_limit_window_seconds = window, max_request_body_bytes = request_body,
        max_sync_body_bytes = sync_body, max_sync_events_per_batch = batch,
        sync_changes_default_limit = default_limit, sync_changes_max_limit = max_limit,
        backup_enabled = backups,
        backup_dir = env_string env ''LVOS_BACKUP_DIR'' (ascii ''./backups''),
        backup_retention_count = retention, backup_interval_seconds = interval\<rparr> in
     rbind (config_validate config) (\<lambda>_. Inr config)))))))))))))))))"

section \<open>Properties\<close>

lemma ascii_eq [simp]: "ascii s = ascii t \<longleftrightarrow> s = t"
  by (simp add: ascii_def inj_map_eq_map [OF inj_of_char])

lemma from_environment_Inr:
  assumes "from_environment addr_ok env = Inr c"
  shows "config_validate c = Inr ()
    \<and> default_password c = (case env ''LVOS_DEFAULT_PASSWORD'' of Some v \<Rightarrow> Some v | None \<Rightarrow> Some example_password)
    \<and> access_token_ttl_seconds c \<le> i64_max \<and> refresh_idle_ttl_seconds c \<le> i64_max"
  using assms unfolding from_environment_def Let_def
  by (auto simp: res_simps minutes_to_seconds_def days_to_seconds_def)

text \<open>
  A production Server fails closed. When the environment yields a production configuration, a
  bootstrap account comes with an explicitly set password of at least twelve bytes that is not the
  documented example, the public address is HTTPS and the database is persistent; token lifetimes
  are positive and the default page size is within the maximum. With no password set and the
  bootstrap account left on, the Server does not start.
\<close>

theorem production_fails_closed:
  assumes "from_environment addr_ok env = Inr c" and "environment c = Production"
  shows "(bootstrap_default_user c \<longrightarrow> (\<exists>pw. env ''LVOS_DEFAULT_PASSWORD'' = Some pw
            \<and> default_password c = Some pw \<and> 12 \<le> utf8_len (trim pw) \<and> pw \<noteq> example_password))
     \<and> starts_with (ascii ''https://'') (public_server_url c)
     \<and> \<not> ends_with (ascii '':memory:'') (database_url c)
     \<and> 0 < access_token_ttl_seconds c \<and> access_token_ttl_seconds c \<le> i64_max
     \<and> 0 < refresh_idle_ttl_seconds c \<and> refresh_idle_ttl_seconds c \<le> i64_max
     \<and> 0 < sync_changes_default_limit c \<and> sync_changes_default_limit c \<le> sync_changes_max_limit c"
proof -
  have env: "config_validate c = Inr ()"
    "default_password c = (case env ''LVOS_DEFAULT_PASSWORD'' of Some v \<Rightarrow> Some v | None \<Rightarrow> Some example_password)"
    "access_token_ttl_seconds c \<le> i64_max" "refresh_idle_ttl_seconds c \<le> i64_max"
    using from_environment_Inr [OF assms(1)] by simp_all
  have valid: "\<not> boundary_violated c"
    "bootstrap_default_user c \<Longrightarrow> (case default_password c of None \<Rightarrow> False
       | Some password \<Rightarrow> \<not> utf8_len (trim password) < 12
             \<and> password \<notin> {example_password, ascii ''password'', ascii ''admin''})"
    "starts_with (ascii ''https://'') (public_server_url c)"
    "\<not> ends_with (ascii '':memory:'') (database_url c)"
    using env(1) assms(2) unfolding config_validate_def by (auto split: if_splits option.splits)
  have pw: "\<exists>pw. env ''LVOS_DEFAULT_PASSWORD'' = Some pw
            \<and> default_password c = Some pw \<and> 12 \<le> utf8_len (trim pw) \<and> pw \<noteq> example_password"
    if "bootstrap_default_user c"
    using valid(2) [OF that] env(2) by (cases "env ''LVOS_DEFAULT_PASSWORD''") auto
  have "0 < access_token_ttl_seconds c" "0 < refresh_idle_ttl_seconds c"
    "0 < sync_changes_default_limit c" "sync_changes_default_limit c \<le> sync_changes_max_limit c"
    using valid(1) unfolding boundary_violated_def by linarith+
  with pw valid(3,4) env(3,4) show ?thesis by simp
qed

definition example_settings :: env where
  "example_settings name = (if name = ''LVOS_APP_ENV'' then Some (ascii ''production'')
     else if name = ''LVOS_DEFAULT_PASSWORD'' then Some (ascii ''correct horse battery'') else None)"

lemma example_settings_ok:
  "\<exists>c. from_environment (\<lambda>_. True) example_settings = Inr c \<and> environment c = Production
     \<and> bootstrap_default_user c"
proof -
  have pw: "utf8_len (ascii ''correct horse battery'') = 21" "utf8_len (trim (ascii ''correct horse battery'')) = 21"
    "trim (ascii ''sqlite://data/lvos.sqlite3'') \<noteq> []" "trim (ascii ''default'') \<noteq> []"
    "utf8_len (ascii ''default'') = 7" "starts_with (ascii ''https://'') (ascii ''https://lvos.niuniu770.site'')"
    "utf8_len (ascii ''https://lvos.niuniu770.site'') = 27"
    "\<not> list_ex is_whitespace (ascii ''https://lvos.niuniu770.site'')"
    "\<not> ends_with (ascii '':memory:'') (ascii ''sqlite://data/lvos.sqlite3'')" "ascii ''./backups'' \<noteq> []"
    "ascii ''correct horse battery'' \<noteq> []"
    by (simp_all add: ascii_def utf8_len_def utf8_def utf8_char_def trim_def trim_end_matches_def
        is_whitespace_def starts_with_def ends_with_def)
  then show ?thesis
    by (simp add: from_environment_def Let_def env_string_def env_bool_def env_u64_def example_settings_def
        minutes_to_seconds_def days_to_seconds_def checked_mul_u64_def u32_of_u64_def
        i64_of_u64_def i64_max_def config_validate_def boundary_violated_def example_password_def)
qed

theorem production_fails_closed_witness:
  "\<exists>c pw. from_environment (\<lambda>_. True) example_settings = Inr c \<and> default_password c = Some pw
     \<and> pw = ascii ''correct horse battery'' \<and> 12 \<le> utf8_len (trim pw)"
proof -
  obtain c where c: "from_environment (\<lambda>_. True) example_settings = Inr c" "environment c = Production"
    "bootstrap_default_user c" using example_settings_ok by blast
  from production_fails_closed [OF c(1,2)] c show ?thesis by (auto simp: example_settings_def)
qed

end
