(* ===== verification/Server_Api.thy ===== *)
theory Server_Api
  imports Server_Sync Server_Config
begin

text \<open>
  The Server's HTTP interface: \<open>apps/server/src/lib.rs\<close> (login, refresh, logout, devices, the bearer
  middleware, the login rate limiter, error bodies) and \<open>apps/server/src/sync_api.rs\<close> (validation of
  pushed events, the synchronization handlers, revision notices). A handler takes the decoded
  request, the clock and the identifiers drawn at random, and returns the response with the new
  application state. Argon2 verification, SHA-256, the UUID parser, the Unicode tables and the JSON
  encoder are fields of the environment record.
\<close>

section \<open>Environment, state and errors\<close>

record api_env =
  ev_config :: server_config
  ev_dummy_password_hash :: string
  ev_verify_password :: "string \<Rightarrow> string \<Rightarrow> bool"
  ev_sha256 :: sha256
  ev_unicode :: unicode_db
  ev_json :: event_json
  ev_uuid_version :: "string \<Rightarrow> nat option"

record attempt_bucket =
  bk_failures :: u32
  bk_window_started_at :: i64

text \<open>The hub keeps, per user that has ever had a subscriber, the revisions broadcast to them.\<close>

record app_state =
  as_db :: server_db
  as_limiter :: "(string, attempt_bucket) table"
  as_revision_hub :: "(string, u64 list) table"

record api_error =
  er_status :: nat
  er_code :: string
  er_message :: string
  er_re_registration_supported :: "bool option"

definition invalid_request :: "string \<Rightarrow> api_error" where
  "invalid_request message = \<lparr>er_status = 400, er_code = ''invalid_request'', er_message = message,
     er_re_registration_supported = None\<rparr>"

definition invalid_credentials :: api_error where
  "invalid_credentials = \<lparr>er_status = 401, er_code = ''invalid_credentials'',
     er_message = ''username or password is invalid'', er_re_registration_supported = None\<rparr>"

definition invalid_session :: api_error where
  "invalid_session = \<lparr>er_status = 401, er_code = ''invalid_session'',
     er_message = ''authentication is required'', er_re_registration_supported = None\<rparr>"

definition device_revoked_for_login :: api_error where
  "device_revoked_for_login = \<lparr>er_status = 403, er_code = ''device_revoked'',
     er_message = ''this device identity is permanently revoked for the user'',
     er_re_registration_supported = Some True\<rparr>"

definition rate_limited :: api_error where
  "rate_limited = \<lparr>er_status = 429, er_code = ''login_rate_limited'',
     er_message = ''too many failed login attempts'', er_re_registration_supported = None\<rparr>"

definition internal_error :: api_error where
  "internal_error = \<lparr>er_status = 500, er_code = ''internal_error'',
     er_message = ''the server could not complete the request'', er_re_registration_supported = None\<rparr>"

definition api_error_of :: "repository_error \<Rightarrow> api_error" where
  "api_error_of e =
     (case e of
        NotFound \<Rightarrow> \<lparr>er_status = 404, er_code = ''not_found'',
          er_message = ''the requested resource was not found'', er_re_registration_supported = None\<rparr>
      | AccessExpired \<Rightarrow> \<lparr>er_status = 401, er_code = ''access_token_expired'',
          er_message = ''the access token expired'', er_re_registration_supported = None\<rparr>
      | DeviceRevoked \<Rightarrow> \<lparr>er_status = 401, er_code = ''device_revoked'',
          er_message = ''the authenticated device is revoked'', er_re_registration_supported = Some True\<rparr>
      | RefreshExpired \<Rightarrow> invalid_session
      | SessionInvalid \<Rightarrow> invalid_session
      | SessionRevoked \<Rightarrow> invalid_session
      | UserDisabled \<Rightarrow> invalid_session
      | Database \<Rightarrow> internal_error
      | Migration \<Rightarrow> internal_error
      | Backup \<Rightarrow> internal_error
      | Restore \<Rightarrow> internal_error
      | Integrity \<Rightarrow> internal_error)"

text \<open>The clock is the system time in seconds relative to the epoch.\<close>

definition unix_timestamp :: "int \<Rightarrow> api_error + i64" where
  "unix_timestamp clock = (if clock < 0 \<or> i64_max < clock then Inl internal_error else Inr clock)"

section \<open>Login rate limiter\<close>

definition is_blocked ::
  "(string, attempt_bucket) table \<Rightarrow> string \<Rightarrow> i64 \<Rightarrow> u32 \<Rightarrow> i64
    \<Rightarrow> bool \<times> (string, attempt_bucket) table" where
  "is_blocked attempts username now max_failures window_seconds =
     (case tbl_get attempts username of
        None \<Rightarrow> (False, attempts)
      | Some bucket \<Rightarrow>
          if saturating_sub_i64 now (bk_window_started_at bucket) \<ge> window_seconds
          then (False, tbl_del username attempts)
          else (bk_failures bucket \<ge> max_failures, attempts))"

definition record_failure ::
  "(string, attempt_bucket) table \<Rightarrow> string \<Rightarrow> i64 \<Rightarrow> i64 \<Rightarrow> (string, attempt_bucket) table" where
  "record_failure attempts username now window_seconds =
     (let bucket = (case tbl_get attempts username of
            None \<Rightarrow> \<lparr>bk_failures = 0, bk_window_started_at = now\<rparr> | Some b \<Rightarrow> b);
          bucket1 = (if saturating_sub_i64 now (bk_window_started_at bucket) \<ge> window_seconds
            then \<lparr>bk_failures = 0, bk_window_started_at = now\<rparr> else bucket)
      in tbl_put username
           (bucket1\<lparr>bk_failures := min u32_max (bk_failures bucket1 + 1)\<rparr>) attempts)"

definition clear_attempts :: "(string, attempt_bucket) table \<Rightarrow> string \<Rightarrow> (string, attempt_bucket) table" where
  "clear_attempts attempts username = tbl_del username attempts"

section \<open>Tokens\<close>

text \<open>The UUIDs a token pair and a session are built from, in simple form.\<close>

record token_seed =
  sd_access :: "string \<times> string"
  sd_refresh :: "string \<times> string"
  sd_session_id :: string

record new_tokens =
  nt_access_token :: string
  nt_refresh_token :: string
  nt_access_hash :: string
  nt_refresh_hash :: string
  nt_access_expires_at :: i64

definition random_token :: "string \<Rightarrow> string \<times> string \<Rightarrow> string" where
  "random_token prefix uuids = prefix @ ''_'' @ fst uuids @ ''_'' @ snd uuids"

definition token_hash :: "sha256 \<Rightarrow> string \<Rightarrow> string" where
  "token_hash sha token = to_hex (sha (string_bytes token))"

definition generate_tokens :: "sha256 \<Rightarrow> token_seed \<Rightarrow> i64 \<Rightarrow> i64 \<Rightarrow> api_error + new_tokens" where
  "generate_tokens sha seed now ttl_seconds =
     (let access_token = random_token ''lvos_at'' (sd_access seed);
          refresh_token = random_token ''lvos_rt'' (sd_refresh seed) in
      rbind (ok_or internal_error (checked_add_i64 now ttl_seconds)) (\<lambda>expires.
      Inr \<lparr>nt_access_token = access_token, nt_refresh_token = refresh_token,
           nt_access_hash = token_hash sha access_token,
           nt_refresh_hash = token_hash sha refresh_token, nt_access_expires_at = expires\<rparr>))"

record token_response =
  tk_access_token :: string
  tk_access_expires_at :: i64
  tk_refresh_token :: string
  tk_user_id :: string
  tk_username :: string
  tk_device_id :: string
  tk_platform :: string
  tk_latest_revision :: i64

definition token_response_of :: "new_tokens \<Rightarrow> session_identity \<Rightarrow> token_response" where
  "token_response_of tokens identity =
     \<lparr>tk_access_token = nt_access_token tokens, tk_access_expires_at = nt_access_expires_at tokens,
      tk_refresh_token = nt_refresh_token tokens, tk_user_id = si_user_id identity,
      tk_username = si_username identity, tk_device_id = si_device_id identity,
      tk_platform = si_platform identity, tk_latest_revision = si_latest_revision identity\<rparr>"

section \<open>Authentication handlers\<close>

record login_request =
  lr_username :: string
  lr_password :: string
  lr_device_id :: string
  lr_platform :: string
  lr_device_name :: "string option"

definition validate_device_id :: "api_env \<Rightarrow> string \<Rightarrow> api_error + unit" where
  "validate_device_id ev device_id =
     (if ev_uuid_version ev device_id = None then Inl (invalid_request ''device_id must be a UUID'')
      else Inr ())"

definition validate_login_request :: "api_env \<Rightarrow> login_request \<Rightarrow> api_error + unit" where
  "validate_login_request ev r =
     (if lr_username r = [] \<or> length (lr_username r) > 128 \<or> lr_password r = []
         \<or> length (lr_password r) > 1024
         \<or> (case lr_device_name r of None \<Rightarrow> False | Some name \<Rightarrow> length name > 128)
      then Inl (invalid_request ''login fields are invalid'')
      else
      rbind (validate_device_id ev (lr_device_id r)) (\<lambda>_.
      if \<not> (lr_platform r = ''windows'' \<or> lr_platform r = ''macos'')
      then Inl (invalid_request ''platform must be windows or macos'')
      else Inr ()))"

text \<open>A failed password check runs against the dummy hash when the user does not exist.\<close>

definition checked_user :: "api_env \<Rightarrow> server_db \<Rightarrow> login_request \<Rightarrow> user_credential option" where
  "checked_user ev db r =
     (let user = user_by_username db (lr_username r);
          verification_hash = (case user of None \<Rightarrow> ev_dummy_password_hash ev
                               | Some u \<Rightarrow> uc_password_hash u);
          password_valid = ev_verify_password ev (lr_password r) verification_hash
      in case user of None \<Rightarrow> None
         | Some u \<Rightarrow> if password_valid \<and> \<not> uc_disabled u then Some u else None)"

text \<open>The handler is asynchronous. Up to the first \<open>await\<close> it validates, reads the clock and asks the
  limiter; the time it read is kept until the end.\<close>

definition login_begin ::
  "api_env \<Rightarrow> app_state \<Rightarrow> login_request \<Rightarrow> int \<Rightarrow> (api_error + i64) \<times> app_state" where
  "login_begin ev st r clock =
     (case rbind (validate_login_request ev r) (\<lambda>_. unix_timestamp clock) of
        Inl e \<Rightarrow> (Inl e, st)
      | Inr now \<Rightarrow>
          let cfg = ev_config ev;
              (blocked, limiter1) = (if login_rate_limit_enabled cfg
                then is_blocked (as_limiter st) (lr_username r) now
                       (login_rate_limit_max_failures cfg) (login_rate_limit_window_seconds cfg)
                else (False, as_limiter st))
          in (if blocked then Inl rate_limited else Inr now, st\<lparr>as_limiter := limiter1\<rparr>))"

text \<open>After the user was read and the password verified: the failure is recorded, or the name cleared.\<close>

definition login_reject :: "api_env \<Rightarrow> app_state \<Rightarrow> login_request \<Rightarrow> i64 \<Rightarrow> app_state" where
  "login_reject ev st r now =
     (if login_rate_limit_enabled (ev_config ev)
      then st\<lparr>as_limiter := record_failure (as_limiter st) (lr_username r) now
                 (login_rate_limit_window_seconds (ev_config ev))\<rparr>
      else st)"

definition login_accept :: "app_state \<Rightarrow> login_request \<Rightarrow> app_state" where
  "login_accept st r = st\<lparr>as_limiter := clear_attempts (as_limiter st) (lr_username r)\<rparr>"

definition login_session ::
  "api_env \<Rightarrow> app_state \<Rightarrow> login_request \<Rightarrow> user_credential \<Rightarrow> i64 \<Rightarrow> token_seed
    \<Rightarrow> (api_error + token_response) \<times> app_state" where
  "login_session ev st r user now seed =
     (case generate_tokens (ev_sha256 ev) seed now (access_token_ttl_seconds (ev_config ev)) of
        Inl e \<Rightarrow> (Inl e, st)
      | Inr tokens \<Rightarrow>
          (case create_session (as_db st) user (lr_device_id r) (lr_platform r)
                  (lr_device_name r) (nt_access_hash tokens) (nt_refresh_hash tokens)
                  (nt_access_expires_at tokens) now (sd_session_id seed) of
             Inl e \<Rightarrow> (Inl (if er_code (api_error_of e) = ''device_revoked''
                           then device_revoked_for_login else api_error_of e), st)
           | Inr (identity, db) \<Rightarrow>
               (Inr (token_response_of tokens identity), st\<lparr>as_db := db\<rparr>)))"

text \<open>The handler when no other request runs between its awaits; \<open>login_trace\<close> below interleaves the
  phases of many requests.\<close>

definition login ::
  "api_env \<Rightarrow> app_state \<Rightarrow> login_request \<Rightarrow> int \<Rightarrow> token_seed
    \<Rightarrow> (api_error + token_response) \<times> app_state" where
  "login ev st r clock seed =
     (case login_begin ev st r clock of
        (Inl e, st1) \<Rightarrow> (Inl e, st1)
      | (Inr now, st1) \<Rightarrow>
          (case checked_user ev (as_db st1) r of
             None \<Rightarrow> (Inl invalid_credentials, login_reject ev st1 r now)
           | Some user \<Rightarrow> login_session ev (login_accept st1 r) r user now seed))"

lemmas login_phases = login_def login_begin_def login_reject_def login_accept_def login_session_def

definition refresh ::
  "api_env \<Rightarrow> app_state \<Rightarrow> string \<Rightarrow> int \<Rightarrow> token_seed \<Rightarrow> (api_error + token_response) \<times> app_state" where
  "refresh ev st refresh_token clock seed =
     (if refresh_token = [] \<or> length refresh_token > 512 then (Inl invalid_session, st)
      else case rbind (unix_timestamp clock) (\<lambda>now.
              rbind (generate_tokens (ev_sha256 ev) seed now (access_token_ttl_seconds (ev_config ev)))
                (\<lambda>tokens. Inr (now, tokens))) of
        Inl e \<Rightarrow> (Inl e, st)
      | Inr (now, tokens) \<Rightarrow>
          (case rotate_refresh (as_db st) (token_hash (ev_sha256 ev) refresh_token)
                  (nt_access_hash tokens) (nt_refresh_hash tokens) (nt_access_expires_at tokens)
                  (refresh_idle_ttl_seconds (ev_config ev)) now of
             (Inl e, db) \<Rightarrow> (Inl (api_error_of e), st\<lparr>as_db := db\<rparr>)
           | (Inr identity, db) \<Rightarrow>
               (Inr (token_response_of tokens identity), st\<lparr>as_db := db\<rparr>)))"

text \<open>The \<open>Authorization\<close> header as \<open>HeaderValue::to_str\<close> reads it; \<open>None\<close> when absent or not text.\<close>

definition bearer_token :: "string option \<Rightarrow> api_error + string" where
  "bearer_token header =
     rbind (ok_or invalid_session header) (\<lambda>value.
     if take 7 value = ''Bearer '' \<and> drop 7 value \<noteq> [] \<and> length (drop 7 value) \<le> 512
     then Inr (drop 7 value) else Inl invalid_session)"

text \<open>The middleware in front of every protected route: the handler runs on the store the
  authentication left, with the authenticated principal.\<close>

definition require_access ::
  "api_env \<Rightarrow> app_state \<Rightarrow> string option \<Rightarrow> int
    \<Rightarrow> (session_identity \<Rightarrow> app_state \<Rightarrow> ('e + 'a) \<times> app_state) \<Rightarrow> (api_error \<Rightarrow> 'e)
    \<Rightarrow> ('e + 'a) \<times> app_state" where
  "require_access ev st header clock next wrap =
     (case rbind (bearer_token header) (\<lambda>token.
           rbind (unix_timestamp clock) (\<lambda>now.
             map_err api_error_of
               (authenticate_access (as_db st) (token_hash (ev_sha256 ev) token) now))) of
        Inl e \<Rightarrow> (Inl (wrap e), st)
      | Inr (who, db) \<Rightarrow> next who (st\<lparr>as_db := db\<rparr>))"

definition logout_handler ::
  "int \<Rightarrow> session_identity \<Rightarrow> app_state \<Rightarrow> (api_error + unit) \<times> app_state" where
  "logout_handler clock who st =
     (case unix_timestamp clock of
        Inl e \<Rightarrow> (Inl e, st)
      | Inr now \<Rightarrow> (Inr (), st\<lparr>as_db := revoke_session (as_db st) (si_session_id who) now\<rparr>))"

definition current_user ::
  "session_identity \<Rightarrow> app_state \<Rightarrow> (api_error + (string \<times> string \<times> string \<times> string \<times> i64)) \<times> app_state" where
  "current_user p st = (Inr (si_user_id p, si_username p, si_device_id p, si_platform p,
     si_latest_revision p), st)"

definition list_devices ::
  "session_identity \<Rightarrow> app_state \<Rightarrow> (api_error + device_record list) \<times> app_state" where
  "list_devices who st = (Inr (devices_for_user (as_db st) (si_user_id who)), st)"

definition revoke_device_handler ::
  "api_env \<Rightarrow> string \<Rightarrow> int \<Rightarrow> session_identity \<Rightarrow> app_state \<Rightarrow> (api_error + unit) \<times> app_state" where
  "revoke_device_handler ev device_id clock who st =
     (case rbind (validate_device_id ev device_id) (\<lambda>_.
           rbind (unix_timestamp clock) (\<lambda>now.
             map_err api_error_of (revoke_device (as_db st) (si_user_id who) device_id now))) of
        Inl e \<Rightarrow> (Inl e, st)
      | Inr db \<Rightarrow> (Inr (), st\<lparr>as_db := db\<rparr>))"

section \<open>Synchronization handlers\<close>

datatype sync_api_error = ApiBasic api_error | ApiInvalid string | ApiConflict sync_conflict

fun sync_api_error_of :: "sync_repository_error \<Rightarrow> sync_api_error" where
  "sync_api_error_of (Repository e) = ApiBasic (api_error_of e)"
| "sync_api_error_of (Conflict c) = ApiConflict c"
| "sync_api_error_of InvalidEvent = ApiInvalid ''synchronization event is invalid''"

text \<open>The error body: status, code and, for a conflict, its fields.\<close>

record error_response =
  rs_status :: nat
  rs_code :: string
  rs_conflict :: "sync_conflict option"

definition api_error_response :: "api_error \<Rightarrow> error_response" where
  "api_error_response e = \<lparr>rs_status = er_status e, rs_code = er_code e, rs_conflict = None\<rparr>"

fun sync_error_response :: "sync_api_error \<Rightarrow> error_response" where
  "sync_error_response (ApiBasic e) = api_error_response e"
| "sync_error_response (ApiInvalid message) =
     \<lparr>rs_status = 400, rs_code = ''invalid_request'', rs_conflict = None\<rparr>"
| "sync_error_response (ApiConflict c) =
     \<lparr>rs_status = 409, rs_code = ''favorite_conflict'', rs_conflict = Some c\<rparr>"

definition max_sync_text_characters :: usize where
  "max_sync_text_characters = 16384"

definition validate_content_key :: "string \<Rightarrow> sync_api_error + unit" where
  "validate_content_key v =
     map_err (\<lambda>_. ApiInvalid ''content_key is invalid'') (rbind (content_key_from_str v) (\<lambda>_. Inr ()))"

text \<open>The checks on the snapshot of an upsert.\<close>

definition validate_snapshot :: "api_env \<Rightarrow> push_event \<Rightarrow> favorite_snapshot \<Rightarrow> sync_api_error + unit" where
  "validate_snapshot ev event fav =
     rbind (map_err (\<lambda>_. ApiInvalid ''source language is invalid'')
              (parse_language_code (fs_source_lang fav))) (\<lambda>source_lang.
     rbind (map_err (\<lambda>_. ApiInvalid ''target language is invalid'')
              (parse_language_code (fs_target_lang fav))) (\<lambda>_.
     rbind (map_err (\<lambda>_. ApiInvalid ''favorite source text is invalid'')
              (prepare_content (ev_unicode ev) (ev_sha256 ev) (fs_source_text fav) source_lang
                 max_sync_text_characters)) (\<lambda>prepared.
     if to_hex (pc_content_key prepared) \<noteq> pe_content_key event
        \<or> cc_key_version (pc_canonical prepared) \<noteq> pe_key_version event
        \<or> protocol_name (cc_kind (pc_canonical prepared)) \<noteq> fs_kind fav
        \<or> cc_text (pc_canonical prepared) \<noteq> fs_canonical_text fav
        \<or> cc_source_lang (pc_canonical prepared) \<noteq> fs_source_lang fav
     then Inl (ApiInvalid ''favorite content identity is inconsistent'')
     else if fs_translation fav = [] \<or> utf8_len (fs_translation fav) > 65536
        \<or> fs_provider fav = [] \<or> length (fs_provider fav) > 128
     then Inl (ApiInvalid ''favorite translated fields are invalid'')
     else Inr ())))"

definition validate_event :: "api_env \<Rightarrow> push_event \<Rightarrow> sync_api_error + unit" where
  "validate_event ev event =
     (if ev_uuid_version ev (pe_event_id event) \<noteq> Some 7
      then Inl (ApiInvalid ''event_id must be a UUIDv7'')
      else
      rbind (validate_content_key (pe_content_key event)) (\<lambda>_.
      if pe_key_version event \<noteq> content_key_version
      then Inl (ApiInvalid ''unsupported content key version'')
      else
      rbind (case pe_operation event of
               FavoriteUpsert \<Rightarrow>
                 rbind (ok_or (ApiInvalid ''favorite snapshot is required'') (pe_favorite event))
                   (validate_snapshot ev event)
             | _ \<Rightarrow> if pe_favorite event \<noteq> None
                    then Inl (ApiInvalid ''favorite snapshot is not allowed'') else Inr ()) (\<lambda>_.
      if (case pe_query_stats event of None \<Rightarrow> False
          | Some s \<Rightarrow> qss_query_count s = 0 \<or> qss_first_queried_at s > qss_last_queried_at s)
      then Inl (ApiInvalid ''query statistics are invalid'')
      else if pe_operation event = QueryStatsUpsert \<and> pe_query_stats event = None
      then Inl (ApiInvalid ''query statistics are required'')
      else Inr ())))"

definition subscribe :: "string \<Rightarrow> app_state \<Rightarrow> app_state" where
  "subscribe user_id st =
     (if tbl_has (as_revision_hub st) user_id then st
      else st\<lparr>as_revision_hub := tbl_put user_id [] (as_revision_hub st)\<rparr>)"

definition notify :: "string \<Rightarrow> u64 option \<Rightarrow> app_state \<Rightarrow> app_state" where
  "notify user_id changed st =
     (case changed of None \<Rightarrow> st
      | Some revision \<Rightarrow> st\<lparr>as_revision_hub :=
          tbl_modify user_id (\<lambda>sent. sent @ [revision]) (as_revision_hub st)\<rparr>)"

definition push_handler ::
  "api_env \<Rightarrow> push_event list \<Rightarrow> int \<Rightarrow> session_identity \<Rightarrow> app_state
    \<Rightarrow> (sync_api_error + push_response) \<times> app_state" where
  "push_handler ev events clock who st =
     (if events = [] \<or> length events > max_sync_events_per_batch (ev_config ev)
      then (Inl (ApiInvalid ''sync batch size is invalid''), st)
      else case rbind (mapM (validate_event ev) events) (\<lambda>_.
              rbind (map_err ApiBasic (unix_timestamp clock)) (\<lambda>now.
                map_err sync_api_error_of (push_events (ev_json ev) (ev_sha256 ev) (as_db st)
                  (si_user_id who) (si_device_id who) events now))) of
        Inl e \<Rightarrow> (Inl e, st)
      | Inr (result, db) \<Rightarrow>
          (Inr (mr_value result),
           notify (si_user_id who) (mr_changed_revision result) (st\<lparr>as_db := db\<rparr>)))"

definition changes_handler ::
  "api_env \<Rightarrow> u64 \<Rightarrow> usize option \<Rightarrow> session_identity \<Rightarrow> app_state
    \<Rightarrow> (sync_api_error + changes_response) \<times> app_state" where
  "changes_handler ev since limit who st =
     (let n = (case limit of None \<Rightarrow> sync_changes_default_limit (ev_config ev) | Some n \<Rightarrow> n) in
      if n = 0 \<or> n > sync_changes_max_limit (ev_config ev)
      then (Inl (ApiInvalid ''sync change page limit is invalid''), st)
      else (map_err sync_api_error_of (changes_since (as_db st) (si_user_id who) since n), st))"

definition favorites_handler ::
  "session_identity \<Rightarrow> app_state \<Rightarrow> (sync_api_error + (favorite_record list \<times> u64)) \<times> app_state" where
  "favorites_handler who st =
     (map_err sync_api_error_of (active_favorites (as_db st) (si_user_id who)), st)"

definition set_favorite_state_handler ::
  "string \<Rightarrow> bool \<Rightarrow> u64 \<Rightarrow> int \<Rightarrow> session_identity \<Rightarrow> app_state
    \<Rightarrow> (sync_api_error + (favorite_record \<times> u64)) \<times> app_state" where
  "set_favorite_state_handler content_key active base_entity_revision clock who st =
     (case rbind (validate_content_key content_key) (\<lambda>_.
           rbind (map_err ApiBasic (unix_timestamp clock)) (\<lambda>now.
             map_err sync_api_error_of (set_favorite_state (as_db st) (si_user_id who) content_key
               active base_entity_revision now))) of
        Inl e \<Rightarrow> (Inl e, st)
      | Inr (result, db) \<Rightarrow>
          let st1 = notify (si_user_id who) (mr_changed_revision result) (st\<lparr>as_db := db\<rparr>) in
          (rbind (ok_or (ApiBasic internal_error) (u64_of_i64 (si_latest_revision who))) (\<lambda>seen.
             Inr (mr_value result,
               (case mr_changed_revision result of Some r \<Rightarrow> r | None \<Rightarrow> seen))), st1))"

text \<open>Opening the notice stream: the subscription comes first, then the current revision is read and
  sent as the first event, so no revision committed in between is missed.\<close>

definition stream_handler ::
  "session_identity \<Rightarrow> app_state \<Rightarrow> (sync_api_error + u64) \<times> app_state" where
  "stream_handler who st =
     (let st1 = subscribe (si_user_id who) st in
      (map_err sync_api_error_of (rbind (active_favorites (as_db st1) (si_user_id who))
         (\<lambda>(_, latest_revision). Inr latest_revision)), st1))"

section \<open>Requests as transitions\<close>

text \<open>Every request the router serves, with whatever arguments and clock; the phases of a login also
  one by one, for other requests may come between them.\<close>

inductive api_step :: "api_env \<Rightarrow> app_state \<Rightarrow> app_state \<Rightarrow> bool" for ev where
  a_login: "login ev st r clock seed = (res, st') \<Longrightarrow> api_step ev st st'"
| a_login_begin: "login_begin ev st r clock = (res, st') \<Longrightarrow> api_step ev st st'"
| a_login_reject: "api_step ev st (login_reject ev st r now)"
| a_login_accept: "api_step ev st (login_accept st r)"
| a_login_session: "login_session ev st r user now seed = (res, st') \<Longrightarrow> api_step ev st st'"
| a_refresh: "refresh ev st token clock seed = (res, st') \<Longrightarrow> api_step ev st st'"
| a_logout: "require_access ev st header c1 (logout_handler c2) id = (res, st') \<Longrightarrow> api_step ev st st'"
| a_me: "require_access ev st header c1 current_user id = (res, st') \<Longrightarrow> api_step ev st st'"
| a_devices: "require_access ev st header c1 list_devices id = (res, st') \<Longrightarrow> api_step ev st st'"
| a_revoke: "require_access ev st header c1 (revoke_device_handler ev did c2) id = (res, st') \<Longrightarrow> api_step ev st st'"
| a_push: "require_access ev st header c1 (push_handler ev events c2) ApiBasic = (res, st')
    \<Longrightarrow> list_all push_event_typed events \<Longrightarrow> api_step ev st st'"
| a_changes: "require_access ev st header c1 (changes_handler ev since limit) ApiBasic = (res, st') \<Longrightarrow> api_step ev st st'"
| a_favorites: "require_access ev st header c1 favorites_handler ApiBasic = (res, st') \<Longrightarrow> api_step ev st st'"
| a_state: "require_access ev st header c1 (set_favorite_state_handler key active base c2) ApiBasic = (res, st')
    \<Longrightarrow> api_step ev st st'"
| a_stream: "require_access ev st header c1 stream_handler ApiBasic = (res, st') \<Longrightarrow> api_step ev st st'"

section \<open>What a request does to the store\<close>

text \<open>One store transaction of a request: what the repository committed, with pushed events that
  passed the validation.\<close>

inductive store_step :: "api_env \<Rightarrow> server_db \<Rightarrow> server_db \<Rightarrow> bool" for ev where
  s_same: "store_step ev db db"
| s_identity: "repo_step db db' \<Longrightarrow> store_step ev db db'"
| s_push: "push_events (ev_json ev) (ev_sha256 ev) db uid did events now = Inr (r, db')
    \<Longrightarrow> list_all push_event_typed events \<Longrightarrow> \<forall>e \<in> set events. validate_event ev e = Inr ()
    \<Longrightarrow> store_step ev db db'"
| s_state: "set_favorite_state db uid key active base now = Inr (r, db') \<Longrightarrow> store_step ev db db'"

lemma notify_db [simp]: "as_db (notify uid ch st) = as_db st"
  by (simp add: notify_def split: option.splits)

lemma subscribe_db [simp]: "as_db (subscribe uid st) = as_db st"
  by (simp add: subscribe_def)

lemma login_session_store:
  assumes "login_session ev st r user now seed = (res, st')"
  shows "store_step ev (as_db st) (as_db st')"
proof -
  have "as_db st' = as_db st \<or> (\<exists>did plat dn ah rh ex sid ident.
      create_session (as_db st) user did plat dn ah rh ex now sid = Inr (ident, as_db st'))"
    using assms by (auto simp: login_session_def split: sum.splits prod.splits)
  then show ?thesis by (auto intro: s_same s_identity step_login)
qed

lemma login_begin_db: "login_begin ev st r clock = (res, st') \<Longrightarrow> as_db st' = as_db st"
  by (auto simp: login_begin_def Let_def split: sum.splits prod.splits if_splits)

lemma login_phases_db [simp]:
  "as_db (login_reject ev st r now) = as_db st" "as_db (login_accept st r) = as_db st"
  by (simp_all add: login_reject_def login_accept_def)

lemma login_store:
  assumes "login ev st r clock seed = (res, st')"
  shows "store_step ev (as_db st) (as_db st')"
proof -
  obtain res1 st1 where b: "login_begin ev st r clock = (res1, st1)" by fastforce
  from assms b have "as_db st' = as_db st1 \<or> (\<exists>user now. login_session ev (login_accept st1 r) r user now seed = (res, st'))"
    by (auto simp: login_def split: sum.splits option.splits)
  then show ?thesis using login_begin_db [OF b] by (auto intro: s_same dest: login_session_store)
qed

lemma refresh_store:
  assumes "refresh ev st token clock seed = (res, st')"
  shows "store_step ev (as_db st) (as_db st')"
proof -
  have "as_db st' = as_db st \<or> (\<exists>rh ah' rh' ex ttl now r.
      rotate_refresh (as_db st) rh ah' rh' ex ttl now = (r, as_db st'))"
    using assms by (auto simp: refresh_def split: sum.splits prod.splits if_splits)
  then show ?thesis by (auto intro: s_same s_identity step_refresh)
qed

lemma require_access_store:
  assumes "require_access ev st header clock nxt wrap = (res, st')"
    and "\<And>who s res s'. nxt who s = (res, s') \<Longrightarrow> store_step ev (as_db s) (as_db s')"
  shows "(store_step ev)\<^sup>*\<^sup>* (as_db st) (as_db st')"
proof -
  consider "st' = st"
    | who db ah now where "authenticate_access (as_db st) ah now = Inr (who, db)"
        "nxt who (st\<lparr>as_db := db\<rparr>) = (res, st')"
    using assms(1) by (auto simp: require_access_def res_simps split: sum.splits)
  then show ?thesis
  proof cases
    case 2
    then have "store_step ev (as_db st) db" by (auto intro: s_identity step_access)
    moreover have "store_step ev db (as_db st')" using assms(2) [OF 2(2)] by simp
    ultimately show ?thesis by (meson converse_rtranclp_into_rtranclp r_into_rtranclp)
  qed simp
qed

lemma mapM_unit_all: "mapM f xs = Inr ys \<Longrightarrow> x \<in> set xs \<Longrightarrow> f x = Inr (() :: unit)"
  by (induction xs arbitrary: ys) (auto simp: res_simps)

lemma push_handler_store:
  assumes "push_handler ev events clock who st = (res, st')" and "list_all push_event_typed events"
  shows "store_step ev (as_db st) (as_db st')"
proof -
  consider "st' = st"
    | vs now r where "mapM (validate_event ev) events = Inr vs"
        "push_events (ev_json ev) (ev_sha256 ev) (as_db st) (si_user_id who) (si_device_id who) events now
           = Inr (r, as_db st')"
    using assms(1) by (auto simp: push_handler_def res_simps split: sum.splits if_splits)
  then show ?thesis
    by cases (auto intro: s_same s_push [OF _ assms(2)] mapM_unit_all)
qed

lemma api_step_store: "api_step ev st st' \<Longrightarrow> (store_step ev)\<^sup>*\<^sup>* (as_db st) (as_db st')"
proof (induction rule: api_step.induct)
  case (a_login st r clock seed res st')
  then show ?case by (intro r_into_rtranclp login_store)
next
  case (a_login_begin st r clock res st')
  then show ?case by (simp add: login_begin_db)
next
  case (a_login_reject st r now)
  then show ?case by simp
next
  case (a_login_accept st r)
  then show ?case by simp
next
  case (a_login_session st r user now seed res st')
  then show ?case by (intro r_into_rtranclp login_session_store)
next
  case (a_refresh st token clock seed res st')
  then show ?case by (intro r_into_rtranclp refresh_store)
next
  case (a_logout st header c1 c2 res st')
  then show ?case
    by (rule require_access_store)
       (auto simp: logout_handler_def split: sum.splits intro: s_same s_identity step_logout)
next
  case (a_me st header c1 res st')
  then show ?case by (rule require_access_store) (auto simp: current_user_def intro: s_same)
next
  case (a_devices st header c1 res st')
  then show ?case by (rule require_access_store) (auto simp: list_devices_def intro: s_same)
next
  case (a_revoke st header c1 did c2 res st')
  then show ?case
    by (rule require_access_store)
       (auto simp: revoke_device_handler_def res_simps split: sum.splits intro: s_same s_identity step_revoke)
next
  case (a_push st header c1 events c2 res st')
  then show ?case using push_handler_store by (blast intro: require_access_store)
next
  case (a_changes st header c1 since limit res st')
  then show ?case
    by (rule require_access_store) (auto simp: changes_handler_def Let_def split: if_splits intro: s_same)
next
  case (a_favorites st header c1 res st')
  then show ?case by (rule require_access_store) (auto simp: favorites_handler_def intro: s_same)
next
  case (a_state st header c1 key active base c2 res st')
  then show ?case
    by (rule require_access_store)
       (auto simp: set_favorite_state_handler_def res_simps Let_def split: sum.splits intro: s_same s_state)
next
  case (a_stream st header c1 res st')
  then show ?case by (rule require_access_store) (auto simp: stream_handler_def Let_def intro: s_same)
qed

section \<open>Every stored favorite has a valid identity\<close>

text \<open>What a Desktop requires of a record before it accepts it: the current key version, parsable
  languages, and a source text whose key, canonical form and kind are those of the record.\<close>

definition snapshot_valid :: "unicode_db \<Rightarrow> sha256 \<Rightarrow> string \<Rightarrow> i64 \<Rightarrow> favorite_snapshot \<Rightarrow> bool" where
  "snapshot_valid u sha key version s \<longleftrightarrow> version = int content_key_version
     \<and> \<not> isl (parse_language_code (fs_target_lang s))
     \<and> (case rbind (map_err (\<lambda>_. ()) (parse_language_code (fs_source_lang s))) (\<lambda>lang.
          map_err (\<lambda>_. ()) (prepare_content u sha (fs_source_text s) lang max_sync_text_characters)) of
          Inl _ \<Rightarrow> False
        | Inr p \<Rightarrow> to_hex (pc_content_key p) = key
            \<and> cc_text (pc_canonical p) = fs_canonical_text s
            \<and> protocol_name (cc_kind (pc_canonical p)) = fs_kind s)"

definition favorites_valid :: "api_env \<Rightarrow> server_db \<Rightarrow> bool" where
  "favorites_valid ev db \<longleftrightarrow> (\<forall>uid key r. tbl_get (server_favorites db) (uid, key) = Some r \<longrightarrow>
     snapshot_valid (ev_unicode ev) (ev_sha256 ev) key (sf_key_version r) (sf_snapshot r))"

lemma snapshot_valid_touch [simp]:
  "snapshot_valid u sha key v (s\<lparr>fs_updated_at := t\<rparr>) = snapshot_valid u sha key v s"
  by (simp add: snapshot_valid_def split: sum.split)

lemma validate_snapshot_valid:
  assumes "validate_snapshot ev e s = Inr ()" and "pe_key_version e = content_key_version"
  shows "snapshot_valid (ev_unicode ev) (ev_sha256 ev) (pe_content_key e) (int (pe_key_version e)) s"
proof -
  from assms(1) obtain lang p tl where "parse_language_code (fs_source_lang s) = Inr lang"
    "parse_language_code (fs_target_lang s) = Inr tl"
    "prepare_content (ev_unicode ev) (ev_sha256 ev) (fs_source_text s) lang max_sync_text_characters = Inr p"
    "to_hex (pc_content_key p) = pe_content_key e" "protocol_name (cc_kind (pc_canonical p)) = fs_kind s"
    "cc_text (pc_canonical p) = fs_canonical_text s"
    unfolding validate_snapshot_def by (auto simp: res_simps split: if_splits)
  with assms(2) show ?thesis by (simp add: snapshot_valid_def)
qed

lemma validate_event_valid:
  assumes "validate_event ev e = Inr ()" and "pe_operation e = FavoriteUpsert" and "pe_favorite e = Some s"
  shows "snapshot_valid (ev_unicode ev) (ev_sha256 ev) (pe_content_key e) (int (pe_key_version e)) s"
  using assms by (intro validate_snapshot_valid) (auto simp: validate_event_def res_simps split: if_splits)

lemma apply_event_favorites_valid:
  assumes "apply_event db uid did e now = Inr (out, db')" and "favorites_valid ev db"
    and "validate_event ev e = Inr ()"
  shows "favorites_valid ev db'"
  using assms(1)
proof (rule apply_event_favorites)
  fix cur db1 ch er
  assume ent: "apply_entity db uid e cur now = Inr (db1, ch, er)"
    and eq: "server_favorites db' = server_favorites db1"
  from ent have "favorites_valid ev db1"
  proof (cases rule: apply_entity_cases)
    case (upserted snapshot n)
    from validate_event_valid [OF assms(3) upserted(1,2)] assms(2) show ?thesis
      unfolding upserted(10) by (auto simp: favorites_valid_def)
  next
    case (deleted v n)
    from assms(2) show ?thesis unfolding deleted(8) by (auto simp: favorites_valid_def)
  qed (use assms(2) in simp)
  with eq show ?thesis by (simp add: favorites_valid_def)
qed

lemma store_ack_favorites: "store_ack db uid e fp ack now = Inr db' \<Longrightarrow> server_favorites db' = server_favorites db"
  using store_ack_frame by blast

lemma push_loop_favorites_valid:
  assumes "foldM (push_one js sha uid did now) es st = Inr st'" and "favorites_valid ev (fst st)"
    and "\<forall>e \<in> set es. validate_event ev e = Inr ()"
  shows "favorites_valid ev (fst st')"
  using assms
proof (induction es arbitrary: st)
  case (Cons e es)
  then obtain s1 where one: "push_one js sha uid did now e st = Inr s1"
    and rest: "foldM (push_one js sha uid did now) es s1 = Inr st'" by (auto simp: rbind_Inr)
  obtain db acks ch db1 acks1 ch1 where st: "st = (db, acks, ch)" "s1 = (db1, acks1, ch1)"
    by (cases st; cases s1) auto
  from one have "favorites_valid ev db1" unfolding st
  proof (cases rule: push_one_cases)
    case (fresh out dbx)
    have "favorites_valid ev db" "validate_event ev e = Inr ()" using Cons.prems(2,3) by (simp_all add: st(1))
    with fresh(2) have "favorites_valid ev dbx" by (rule apply_event_favorites_valid)
    with store_ack_favorites [OF fresh(3)] show ?thesis by (simp add: favorites_valid_def)
  qed (use Cons.prems(2) st in simp)
  with Cons.IH [OF rest] Cons.prems(3) st show ?case by simp
qed simp

lemma store_step_favorites_valid:
  assumes "store_step ev db db'" and "favorites_valid ev db"
  shows "favorites_valid ev db'"
  using assms
proof (induction rule: store_step.induct)
  case (s_identity db db')
  then show ?case using repo_step_frame by (simp add: favorites_valid_def)
next
  case (s_push db uid did events now r db')
  then obtain acks ch where
    "foldM (push_one (ev_json ev) (ev_sha256 ev) uid did now) events (db, [], None) = Inr (db', acks, ch)"
    by (auto simp: push_events_Inr)
  from push_loop_favorites_valid [OF this] s_push show ?case by simp
next
  case (s_state db uid key active base now r db')
  from s_state(1) show ?case
  proof (cases rule: set_favorite_state_cases)
    case (switched cur n db1)
    have "server_favorites db' = server_favorites db1" using record_change_frame [OF switched(6)] by simp
    with s_state(2) show ?thesis unfolding switched(5) by (auto simp: favorites_valid_def)
  qed (use s_state(2) in simp)
qed simp

lemma store_step_server: "store_step ev db db' \<Longrightarrow> (server_step (ev_json ev) (ev_sha256 ev))\<^sup>*\<^sup>* db db'"
  by (induction rule: store_step.induct) (auto intro: srv_identity srv_push srv_state)

lemma store_steps_server:
  "(store_step ev)\<^sup>*\<^sup>* db db' \<Longrightarrow> (server_step (ev_json ev) (ev_sha256 ev))\<^sup>*\<^sup>* db db'"
  by (induction rule: rtranclp_induct) (auto dest: store_step_server intro: rtranclp_trans)

lemma store_steps_inv:
  assumes "(store_step ev)\<^sup>*\<^sup>* db db'" and "identity_inv db" and "sync_inv db" and "favorites_valid ev db"
  shows "identity_inv db' \<and> sync_inv db' \<and> favorites_valid ev db'"
proof -
  have "favorites_valid ev db'"
    using assms(1,4) by (induction rule: rtranclp_induct) (auto intro: store_step_favorites_valid)
  moreover have "identity_inv db'"
    using store_steps_server [OF assms(1)] assms(2)
    by (induction rule: rtranclp_induct) (auto intro: server_step_identity_inv)
  ultimately show ?thesis using server_steps_sync_inv [OF store_steps_server [OF assms(1)] assms(3)] by simp
qed

lemma api_steps_store: "(api_step ev)\<^sup>*\<^sup>* st st' \<Longrightarrow> (store_step ev)\<^sup>*\<^sup>* (as_db st) (as_db st')"
  by (induction rule: rtranclp_induct) (auto dest: api_step_store intro: rtranclp_trans)

text \<open>The state \<open>build_app\<close> starts from on an empty database without a bootstrap user.\<close>

definition empty_app :: app_state where
  "empty_app = \<lparr>as_db = empty_server_db, as_limiter = [], as_revision_hub = []\<rparr>"

lemma favorites_valid_empty: "favorites_valid ev empty_server_db"
  by (simp add: favorites_valid_def empty_server_db_def)

section \<open>Guessing passwords\<close>

text \<open>The limiter is asked before the password is verified and told afterwards, so other logins may come
  between. A login that passed the limiter is a task with the time it read: its user has to be read and
  its password verified, or the verdict is known, or its session has to be made.\<close>

datatype login_task =
    Checking (task_request: login_request) (task_now: i64)
  | Checked (task_request: login_request) (task_now: i64) "user_credential option"
  | Granting (task_request: login_request) (task_now: i64) user_credential

datatype login_label =
    Began login_request int "api_error + i64"
  | Rejected login_request
  | Accepted login_request
  | Silent

text \<open>One step of the Server. Tasks go on in any order, a client may hang up (its task is dropped), and
  any other request may do what it likes to the rest of the state.\<close>

inductive login_step :: "api_env \<Rightarrow> app_state \<times> login_task list \<Rightarrow> login_label
    \<Rightarrow> app_state \<times> login_task list \<Rightarrow> bool" for ev where
  l_refused: "login_begin ev st r clock = (Inl e, st')
    \<Longrightarrow> login_step ev (st, ts) (Began r clock (Inl e)) (st', ts)"
| l_admitted: "login_begin ev st r clock = (Inr now, st')
    \<Longrightarrow> login_step ev (st, ts) (Began r clock (Inr now)) (st', Checking r now # ts)"
| l_checked: "login_step ev (st, ts1 @ Checking r now # ts2) Silent
    (st, ts1 @ Checked r now (checked_user ev (as_db st) r) # ts2)"
| l_rejected: "login_step ev (st, ts1 @ Checked r now None # ts2) (Rejected r)
    (login_reject ev st r now, ts1 @ ts2)"
| l_accepted: "login_step ev (st, ts1 @ Checked r now (Some user) # ts2) (Accepted r)
    (login_accept st r, ts1 @ Granting r now user # ts2)"
| l_session: "login_session ev st r user now seed = (res, st')
    \<Longrightarrow> login_step ev (st, ts1 @ Granting r now user # ts2) Silent (st', ts1 @ ts2)"
| l_dropped: "login_step ev (st, ts1 @ t # ts2) Silent (st, ts1 @ ts2)"
| l_other: "as_limiter st' = as_limiter st \<Longrightarrow> login_step ev (st, ts) Silent (st', ts)"

text \<open>A run of the Server: every step with its label and the state after it.\<close>

fun login_trace :: "api_env \<Rightarrow> app_state \<times> login_task list
    \<Rightarrow> (login_label \<times> app_state \<times> login_task list) list \<Rightarrow> bool" where
  "login_trace ev s [] \<longleftrightarrow> True"
| "login_trace ev s ((l, s') # tr) \<longleftrightarrow> login_step ev s l s' \<and> login_trace ev s' tr"

definition in_flight :: "string \<Rightarrow> app_state \<times> login_task list \<Rightarrow> nat" where
  "in_flight name s = length (filter (\<lambda>t. lr_username (task_request t) = name) (snd s))"

fun rejected_for :: "string \<Rightarrow> login_label \<Rightarrow> bool" where
  "rejected_for name (Rejected r) \<longleftrightarrow> lr_username r = name"
| "rejected_for name _ \<longleftrightarrow> False"

definition rejections :: "string \<Rightarrow> (login_label \<times> app_state \<times> login_task list) list \<Rightarrow> nat" where
  "rejections name tr = length (filter (\<lambda>(l, _). rejected_for name l) tr)"

text \<open>Steps that begin a login for the name outside the window, or present the name's password.\<close>

fun guess_label :: "string \<Rightarrow> i64 \<Rightarrow> i64 \<Rightarrow> login_label \<Rightarrow> bool" where
  "guess_label name t0 w (Began r clock _) \<longleftrightarrow> lr_username r = name \<longrightarrow> t0 \<le> clock \<and> clock < t0 + w"
| "guess_label name t0 w (Accepted r) \<longleftrightarrow> lr_username r \<noteq> name"
| "guess_label name t0 w _ \<longleftrightarrow> True"

text \<open>The answer to a login for a name that is blocked.\<close>

fun refused_label :: "api_env \<Rightarrow> string \<Rightarrow> login_label \<Rightarrow> bool" where
  "refused_label ev name (Began r clock a) \<longleftrightarrow> lr_username r = name \<longrightarrow>
     a = (case validate_login_request ev r of Inl e \<Rightarrow> Inl e | Inr _ \<Rightarrow> Inl rate_limited)"
| "refused_label ev name _ \<longleftrightarrow> True"

lemma rejections_simps [simp]:
  "rejections name [] = 0"
  "rejections name ((l, s) # tr) = (if rejected_for name l then 1 else 0) + rejections name tr"
  by (simp_all add: rejections_def)

text \<open>The bucket of a name that has failed \<open>c\<close> times since \<open>t0\<close>; the counter saturates.\<close>

definition bucket_counts :: "string \<Rightarrow> i64 \<Rightarrow> nat \<Rightarrow> (string, attempt_bucket) table \<Rightarrow> bool" where
  "bucket_counts name t0 c limiter \<longleftrightarrow> (case tbl_get limiter name of
     None \<Rightarrow> c = 0 | Some b \<Rightarrow> bk_failures b = min u32_max c \<and> t0 \<le> bk_window_started_at b)"

lemma window_open:
  assumes "0 \<le> t0" "t0 \<le> now" "now < t0 + w" "t0 + w \<le> i64_max" "t0 \<le> started"
  shows "saturating_sub_i64 now started < w"
  using assms by (auto simp: saturating_sub_i64_def i64_min_def i64_max_def)

lemma is_blocked_counts:
  assumes "bucket_counts name t0 c limiter" and "0 \<le> t0" "t0 \<le> now" "now < t0 + w" "t0 + w \<le> i64_max"
    and "0 < mx" "mx \<le> u32_max"
  shows "is_blocked limiter name now mx w = (mx \<le> c, limiter)"
  using assms window_open [OF assms(2-5)]
  by (auto simp: is_blocked_def bucket_counts_def split: option.splits dest: leD)

lemma is_blocked_other:
  "u \<noteq> name \<Longrightarrow> is_blocked t u now mf w = (b, t') \<Longrightarrow> tbl_get t' name = tbl_get t name"
  by (auto simp: is_blocked_def split: option.splits if_splits)

lemma record_failure_counts:
  assumes "bucket_counts name t0 c limiter" and "0 \<le> t0" "t0 \<le> now" "now < t0 + w" "t0 + w \<le> i64_max"
  shows "bucket_counts name t0 (Suc c) (record_failure limiter name now w)"
proof (cases "tbl_get limiter name")
  case None
  with assms window_open [OF assms(2-5), of now] show ?thesis
    by (auto simp: bucket_counts_def record_failure_def Let_def u32_max_def)
next
  case (Some b)
  with assms window_open [OF assms(2-5), of "bk_window_started_at b"] show ?thesis
    by (auto simp: bucket_counts_def record_failure_def Let_def)
qed

text \<open>What holds after \<open>c\<close> rejections: the bucket counts them, the pending logins for the name read
  their clock in the window, and once the limit is reached only those can add to the count.\<close>

definition attempts_inv :: "nat \<Rightarrow> nat \<Rightarrow> string \<Rightarrow> i64 \<Rightarrow> i64 \<Rightarrow> nat \<Rightarrow> app_state \<times> login_task list \<Rightarrow> bool" where
  "attempts_inv mx p name t0 w c s \<longleftrightarrow> bucket_counts name t0 c (as_limiter (fst s))
     \<and> (\<forall>t \<in> set (snd s). lr_username (task_request t) = name \<longrightarrow> t0 \<le> task_now t \<and> task_now t < t0 + w)
     \<and> (c < mx \<or> c + in_flight name s < mx + p)"

lemma begin_counts:
  assumes "login_begin ev st r clock = (res, st')" and "bucket_counts name t0 c (as_limiter st)"
    and "login_rate_limit_enabled (ev_config ev)" and "0 \<le> t0"
    and "t0 + login_rate_limit_window_seconds (ev_config ev) \<le> i64_max"
    and "0 < login_rate_limit_max_failures (ev_config ev)" "login_rate_limit_max_failures (ev_config ev) \<le> u32_max"
    and "lr_username r = name \<Longrightarrow> t0 \<le> clock \<and> clock < t0 + login_rate_limit_window_seconds (ev_config ev)"
  shows "bucket_counts name t0 c (as_limiter st')"
    and "lr_username r = name \<Longrightarrow> res = (case validate_login_request ev r of Inl e \<Rightarrow> Inl e
      | Inr _ \<Rightarrow> if login_rate_limit_max_failures (ev_config ev) \<le> c then Inl rate_limited else Inr clock)"
proof -
  let ?w = "login_rate_limit_window_seconds (ev_config ev)" and ?mx = "login_rate_limit_max_failures (ev_config ev)"
  have both: "bucket_counts name t0 c (as_limiter st') \<and> (lr_username r = name \<longrightarrow>
     res = (case validate_login_request ev r of Inl e \<Rightarrow> Inl e | Inr _ \<Rightarrow> if ?mx \<le> c then Inl rate_limited else Inr clock))"
  proof (cases "lr_username r = name")
    case True
    with assms(8) have now: "t0 \<le> clock" "clock < t0 + ?w" by auto
    then have ts: "unix_timestamp clock = Inr clock" using assms(4,5) by (simp add: unix_timestamp_def)
    note blk = is_blocked_counts [OF assms(2,4) now assms(5-7)]
    from assms(1,2,3) True ts blk show ?thesis
      by (cases "validate_login_request ev r") (auto simp: login_begin_def Let_def)
  next
    case False
    have "tbl_get (as_limiter st') name = tbl_get (as_limiter st) name"
      using assms(1) False is_blocked_other [OF False]
      by (auto simp: login_begin_def Let_def split: sum.splits prod.splits if_splits)
    with False assms(2) show ?thesis by (simp add: bucket_counts_def)
  qed
  then show "bucket_counts name t0 c (as_limiter st')" by simp
  from both show "res = (case validate_login_request ev r of Inl e \<Rightarrow> Inl e
      | Inr _ \<Rightarrow> if ?mx \<le> c then Inl rate_limited else Inr clock)" if "lr_username r = name"
    using that by simp
qed

lemma reject_counts:
  assumes "bucket_counts name t0 c (as_limiter st)" and "login_rate_limit_enabled (ev_config ev)"
    and "0 \<le> t0" "t0 + login_rate_limit_window_seconds (ev_config ev) \<le> i64_max"
    and "lr_username r = name \<Longrightarrow> t0 \<le> now \<and> now < t0 + login_rate_limit_window_seconds (ev_config ev)"
  shows "bucket_counts name t0 (if lr_username r = name then Suc c else c) (as_limiter (login_reject ev st r now))"
proof (cases "lr_username r = name")
  case True
  with assms(5) have now: "t0 \<le> now" "now < t0 + login_rate_limit_window_seconds (ev_config ev)" by auto
  from record_failure_counts [OF assms(1,3) now assms(4)] True assms(2) show ?thesis by (simp add: login_reject_def)
next
  case False
  then have "tbl_get (as_limiter (login_reject ev st r now)) name = tbl_get (as_limiter st) name"
    by (simp add: login_reject_def record_failure_def Let_def)
  with False assms(1) show ?thesis by (simp add: bucket_counts_def)
qed

lemma session_limiter: "login_session ev st r user now seed = (res, st') \<Longrightarrow> as_limiter st' = as_limiter st"
  by (auto simp: login_session_def split: sum.splits prod.splits)

lemma login_step_attempts:
  assumes step: "login_step ev s l s'" and inv: "attempts_inv (login_rate_limit_max_failures (ev_config ev)) p name t0
      (login_rate_limit_window_seconds (ev_config ev)) c s"
    and on: "login_rate_limit_enabled (ev_config ev)" and t0: "0 \<le> t0"
    and w: "t0 + login_rate_limit_window_seconds (ev_config ev) \<le> i64_max"
    and mx: "0 < login_rate_limit_max_failures (ev_config ev)" "login_rate_limit_max_failures (ev_config ev) \<le> u32_max"
    and l: "guess_label name t0 (login_rate_limit_window_seconds (ev_config ev)) l"
    and p: "in_flight name s \<le> p"
  shows "attempts_inv (login_rate_limit_max_failures (ev_config ev)) p name t0
      (login_rate_limit_window_seconds (ev_config ev)) ((if rejected_for name l then 1 else 0) + c) s'"
    and "login_rate_limit_max_failures (ev_config ev) \<le> c \<Longrightarrow> refused_label ev name l"
proof -
  let ?w = "login_rate_limit_window_seconds (ev_config ev)" and ?mx = "login_rate_limit_max_failures (ev_config ev)"
  have "attempts_inv ?mx p name t0 ?w ((if rejected_for name l then 1 else 0) + c) s'
     \<and> (?mx \<le> c \<longrightarrow> refused_label ev name l)"
    using step
  proof cases
    case (l_refused st r clock e st' ts)
    with begin_counts [OF l_refused(4) _ on t0 w mx, of name c] inv l show ?thesis
      by (auto simp: attempts_inv_def in_flight_def split: sum.splits)
  next
    case (l_admitted st r clock now st' ts)
    with begin_counts [OF l_admitted(4) _ on t0 w mx, of name c] inv l show ?thesis
      by (auto simp: attempts_inv_def in_flight_def split: sum.splits if_splits)
  next
    case (l_checked st ts1 r now ts2)
    with inv show ?thesis by (auto simp: attempts_inv_def in_flight_def)
  next
    case (l_rejected st ts1 r now ts2)
    with reject_counts [OF _ on t0 w, of name c st r now] inv p show ?thesis
      by (auto simp: attempts_inv_def in_flight_def)
  next
    case (l_accepted st ts1 r now user ts2)
    with inv l show ?thesis
      by (auto simp: attempts_inv_def in_flight_def login_accept_def clear_attempts_def bucket_counts_def)
  next
    case (l_session st r user now seed res st' ts1 ts2)
    with inv session_limiter [OF l_session(4)] show ?thesis
      by (auto simp: attempts_inv_def in_flight_def split: if_splits)
  next
    case (l_dropped st ts1 t ts2)
    with inv show ?thesis by (auto simp: attempts_inv_def in_flight_def split: if_splits)
  next
    case (l_other st' st ts)
    with inv show ?thesis by (auto simp: attempts_inv_def in_flight_def)
  qed
  then show "attempts_inv ?mx p name t0 ?w ((if rejected_for name l then 1 else 0) + c) s'"
    and "?mx \<le> c \<Longrightarrow> refused_label ev name l" by simp_all
qed

text \<open>The steps of a run that come after \<open>n\<close> rejections of the name.\<close>

fun after_rejections :: "string \<Rightarrow> nat \<Rightarrow> (login_label \<times> app_state \<times> login_task list) list \<Rightarrow> login_label list" where
  "after_rejections name 0 tr = map fst tr"
| "after_rejections name (Suc n) [] = []"
| "after_rejections name (Suc n) ((l, s) # tr) = after_rejections name (if rejected_for name l then n else Suc n) tr"

lemma after_rejections_Cons:
  "after_rejections name n ((l, s) # tr) = (if n = 0 then [l] else [])
     @ after_rejections name (n - (if rejected_for name l then 1 else 0)) tr"
  by (cases n) auto

lemma login_trace_attempts:
  assumes "login_trace ev s tr" and "attempts_inv (login_rate_limit_max_failures (ev_config ev)) p name t0
      (login_rate_limit_window_seconds (ev_config ev)) c s"
    and "login_rate_limit_enabled (ev_config ev)" and "0 \<le> t0"
    and "t0 + login_rate_limit_window_seconds (ev_config ev) \<le> i64_max"
    and "0 < login_rate_limit_max_failures (ev_config ev)" "login_rate_limit_max_failures (ev_config ev) \<le> u32_max"
    and "\<forall>(l, _) \<in> set tr. guess_label name t0 (login_rate_limit_window_seconds (ev_config ev)) l"
    and "in_flight name s \<le> p" "\<forall>(_, s') \<in> set tr. in_flight name s' \<le> p"
  shows "rejections name tr + c < login_rate_limit_max_failures (ev_config ev) + p"
    and "\<forall>l \<in> set (after_rejections name (login_rate_limit_max_failures (ev_config ev) - c) tr). refused_label ev name l"
proof -
  have "rejections name tr + c < login_rate_limit_max_failures (ev_config ev) + p \<and>
    (\<forall>l \<in> set (after_rejections name (login_rate_limit_max_failures (ev_config ev) - c) tr). refused_label ev name l)"
    using assms(1,2,8-10)
  proof (induction tr arbitrary: s c)
    case Nil
    then show ?case by (cases "login_rate_limit_max_failures (ev_config ev) - c") (auto simp: attempts_inv_def)
  next
    case (Cons q tr)
    obtain l s' where q: "q = (l, s')" by (cases q)
    let ?c = "(if rejected_for name l then 1 else 0) + c"
    from Cons.prems q have step: "login_step ev s l s'"
      and l: "guess_label name t0 (login_rate_limit_window_seconds (ev_config ev)) l" by auto
    note one = login_step_attempts [OF step Cons.prems(2) assms(3-7) l Cons.prems(4)]
    from Cons.IH [OF _ one(1)] Cons.prems q
    have "rejections name tr + ?c < login_rate_limit_max_failures (ev_config ev) + p"
      "\<forall>l \<in> set (after_rejections name (login_rate_limit_max_failures (ev_config ev) - ?c) tr). refused_label ev name l"
      by auto
    then show ?case using one(2) unfolding q after_rejections_Cons
      by (auto simp: diff_diff_add add.commute split: if_splits)
  qed
  then show "rejections name tr + c < login_rate_limit_max_failures (ev_config ev) + p"
    and "\<forall>l \<in> set (after_rejections name (login_rate_limit_max_failures (ev_config ev) - c) tr). refused_label ev name l"
    by auto
qed

text \<open>
  C16: the rate limiter bounds password guessing, for logins that run concurrently. Let the logins for a
  name with no failure on record begin within one window, none of them with the right password, and at
  most \<open>p\<close> of them be in flight at a time. However the Server interleaves them with each other and with
  other requests, fewer than \<open>max_failures + p\<close> passwords are checked and rejected: at most
  \<open>max_failures\<close> when the logins come one after the other. Once \<open>max_failures\<close> rejections are recorded,
  every further well-formed login for the name is answered with 429 and no password is checked.
\<close>

theorem login_attempts_bounded:
  assumes "config_validate (ev_config ev) = Inr ()" and "login_rate_limit_enabled (ev_config ev)"
    and "login_rate_limit_max_failures (ev_config ev) \<le> u32_max"
    and "tbl_get (as_limiter (fst s)) name = None" and "in_flight name s = 0" and "0 \<le> t0"
    and "t0 + login_rate_limit_window_seconds (ev_config ev) \<le> i64_max"
    and "login_trace ev s tr"
    and "\<forall>(l, _) \<in> set tr. guess_label name t0 (login_rate_limit_window_seconds (ev_config ev)) l"
    and "\<forall>(_, s') \<in> set tr. in_flight name s' \<le> p"
  shows "rejections name tr < login_rate_limit_max_failures (ev_config ev) + p
    \<and> (\<forall>l \<in> set (after_rejections name (login_rate_limit_max_failures (ev_config ev)) tr). refused_label ev name l)"
proof -
  have pos: "0 < login_rate_limit_max_failures (ev_config ev)"
    using assms(1) by (auto simp: config_validate_def boundary_violated_def split: if_splits)
  have "attempts_inv (login_rate_limit_max_failures (ev_config ev)) p name t0
      (login_rate_limit_window_seconds (ev_config ev)) 0 s"
    using assms(4,5) pos by (auto simp: attempts_inv_def bucket_counts_def in_flight_def filter_empty_conv)
  note run = login_trace_attempts [OF assms(8) this assms(2,6,7) pos assms(3,9) _ assms(10)]
  show ?thesis using run assms(5) by simp
qed

section \<open>An example Server\<close>

definition example_config :: server_config where
  "example_config = \<lparr>environment = Development, bind_addr = ascii ''h'', database_url = ascii ''d'',
     public_server_url = ascii ''u'', bootstrap_default_user = False, default_username = ascii ''ann'',
     default_password = None, access_token_ttl_seconds = 3600, refresh_idle_ttl_seconds = 7200,
     login_rate_limit_enabled = True, login_rate_limit_max_failures = 2,
     login_rate_limit_window_seconds = 60, max_request_body_bytes = 9, max_sync_body_bytes = 9,
     max_sync_events_per_batch = 9, sync_changes_default_limit = 5, sync_changes_max_limit = 9,
     backup_enabled = False, backup_dir = ascii ''b'', backup_retention_count = 1,
     backup_interval_seconds = 9\<rparr>"

text \<open>A hash that copies the token, a password check that compares, and event ids that are all
  version 7.\<close>

definition example_env :: api_env where
  "example_env = \<lparr>ev_config = example_config, ev_dummy_password_hash = ''none'',
     ev_verify_password = (=), ev_sha256 = (\<lambda>bytes. bytes), ev_unicode = ascii_unicode_db,
     ev_json = (\<lambda>e. string_bytes (pe_event_id e)), ev_uuid_version = (\<lambda>_. Some 7)\<rparr>"

definition example_login :: "string \<Rightarrow> login_request" where
  "example_login password = \<lparr>lr_username = ''ann'', lr_password = password, lr_device_id = ''d1'',
     lr_platform = ''macos'', lr_device_name = None\<rparr>"

definition example_seed :: token_seed where
  "example_seed = \<lparr>sd_access = (''a'', ''b''), sd_refresh = (''c'', ''d''), sd_session_id = ''s1''\<rparr>"

definition example_app :: app_state where
  "example_app = empty_app\<lparr>as_db := snd (projr (repo_bootstrap_user empty_server_db ''ann'' ''pw'' 5 ''u1''))\<rparr>"

lemma example_config_valid: "config_validate example_config = Inr ()"
  by code_simp

lemma record_failure_code [code]:
  "record_failure attempts username now window_seconds =
     (let bucket = (case tbl_get attempts username of
            None \<Rightarrow> \<lparr>bk_failures = 0, bk_window_started_at = now\<rparr> | Some b \<Rightarrow> b);
          bucket1 = (if saturating_sub_i64 now (bk_window_started_at bucket) \<ge> window_seconds
            then \<lparr>bk_failures = 0, bk_window_started_at = now\<rparr> else bucket)
      in tbl_put username (bucket1\<lparr>bk_failures :=
           if int (bk_failures bucket1) < 4294967295 then bk_failures bucket1 + 1 else u32_max\<rparr>) attempts)"
proof -
  have "min u32_max (n + 1) = (if int n < 4294967295 then n + 1 else u32_max)" for n
    by (simp add: u32_max_def)
  then show ?thesis by (simp add: record_failure_def Let_def)
qed

lemma answers_distinct [simp]:
  "invalid_credentials \<noteq> rate_limited" "rate_limited \<noteq> invalid_credentials"
  by (auto simp: invalid_credentials_def rate_limited_def)

text \<open>Three guesses in flight at a time with a limit of two: one fails, three more pass the limiter
  together and fail, and the next is refused.\<close>

definition example_failed :: "nat \<Rightarrow> app_state" where
  "example_failed n = (if n = 0 then example_app
     else example_app\<lparr>as_limiter := [(''ann'', \<lparr>bk_failures = n, bk_window_started_at = 10\<rparr>)]\<rparr>)"

definition example_guess :: login_task where
  "example_guess = Checking (example_login ''x'') 10"

definition example_verdict :: login_task where
  "example_verdict = Checked (example_login ''x'') 10 None"

definition example_attempts :: "(login_label \<times> app_state \<times> login_task list) list" where
  "example_attempts =
     [(Began (example_login ''x'') 10 (Inr 10), example_failed 0, [example_guess]),
      (Silent, example_failed 0, [example_verdict]),
      (Rejected (example_login ''x''), example_failed 1, []),
      (Began (example_login ''x'') 10 (Inr 10), example_failed 1, [example_guess]),
      (Began (example_login ''x'') 10 (Inr 10), example_failed 1, [example_guess, example_guess]),
      (Began (example_login ''x'') 10 (Inr 10), example_failed 1, [example_guess, example_guess, example_guess]),
      (Silent, example_failed 1, [example_guess, example_guess, example_verdict]),
      (Silent, example_failed 1, [example_guess, example_verdict, example_verdict]),
      (Silent, example_failed 1, [example_verdict, example_verdict, example_verdict]),
      (Rejected (example_login ''x''), example_failed 2, [example_verdict, example_verdict]),
      (Rejected (example_login ''x''), example_failed 3, [example_verdict]),
      (Rejected (example_login ''x''), example_failed 4, []),
      (Began (example_login ''x'') 10 (Inl rate_limited), example_failed 4, [])]"

lemma example_begin:
  "login_begin example_env (example_failed n) (example_login ''x'') 10
     = (if n < 2 then Inr 10 else Inl rate_limited, example_failed n)"
  by (simp add: login_begin_def validate_login_request_def validate_device_id_def example_login_def
      example_env_def example_config_def unix_timestamp_def is_blocked_def example_failed_def
      tbl_get_def example_app_def empty_app_def saturating_sub_i64_def i64_min_def i64_max_def)

lemma example_reject:
  "n < u32_max \<Longrightarrow> login_reject example_env (example_failed n) (example_login ''x'') 10 = example_failed (Suc n)"
  by (auto simp: login_reject_def record_failure_def example_login_def example_env_def example_config_def
      tbl_get_def tbl_put_def tbl_del_def example_failed_def example_app_def empty_app_def
      saturating_sub_i64_def i64_min_def i64_max_def)

lemma example_wrong: "checked_user example_env (as_db example_app) (example_login ''x'') = None"
  by code_simp

lemma example_step_check:
  "login_step example_env (example_failed n, ts1 @ example_guess # ts2) Silent (example_failed n, ts1 @ example_verdict # ts2)"
proof -
  have "as_db (example_failed n) = as_db example_app" by (simp add: example_failed_def)
  with l_checked [of example_env "example_failed n" ts1 "example_login ''x''" 10 ts2] example_wrong show ?thesis
    by (simp add: example_guess_def example_verdict_def)
qed

lemma example_step_reject:
  "n < u32_max \<Longrightarrow> login_step example_env (example_failed n, ts1 @ example_verdict # ts2) (Rejected (example_login ''x''))
     (example_failed (Suc n), ts1 @ ts2)"
  using l_rejected [of example_env "example_failed n" ts1 "example_login ''x''" 10 ts2]
  by (simp add: example_reject example_verdict_def)

lemma example_step_begin:
  "n < 2 \<Longrightarrow> login_step example_env (example_failed n, ts) (Began (example_login ''x'') 10 (Inr 10)) (example_failed n, example_guess # ts)"
  "2 \<le> n \<Longrightarrow> login_step example_env (example_failed n, ts) (Began (example_login ''x'') 10 (Inl rate_limited)) (example_failed n, ts)"
  unfolding example_guess_def by (auto intro!: l_admitted l_refused simp: example_begin)

lemma example_attempts_run: "login_trace example_env (example_failed 0, []) example_attempts"
proof -
  have u: "(0::nat) < u32_max" "1 < u32_max" "2 < u32_max" "3 < u32_max" by (simp_all add: u32_max_def)
  note rj = u [THEN example_step_reject, of "[]"]
  show ?thesis
    unfolding example_attempts_def
    using example_step_begin example_step_check [of _ "[]"]
      example_step_check [of 1 "[example_guess, example_guess]" "[]"] example_step_check [of 1 "[example_guess]"] rj
    by (simp add: numeral_2_eq_2 numeral_3_eq_3 eval_nat_numeral)
qed

theorem login_attempts_bounded_witness:
  "login_trace example_env (example_failed 0, []) example_attempts
     \<and> rejections ''ann'' example_attempts = 4 \<and> rejections ''ann'' example_attempts < 2 + 3
     \<and> refused_label example_env ''ann'' (Began (example_login ''x'') 10 (Inl rate_limited))"
proof -
  let ?s = "(example_failed 0, [])"
  have cfg: "config_validate (ev_config example_env) = Inr ()" "login_rate_limit_enabled (ev_config example_env)"
    "login_rate_limit_max_failures (ev_config example_env) \<le> u32_max"
    "tbl_get (as_limiter (fst ?s)) ''ann'' = None" "in_flight ''ann'' ?s = 0" "(0::int) \<le> 10"
    "10 + login_rate_limit_window_seconds (ev_config example_env) \<le> i64_max"
    using example_config_valid
    by (simp_all add: example_env_def example_config_def example_failed_def example_app_def empty_app_def
        u32_max_def i64_max_def in_flight_def)
  have labels: "\<forall>(l, _) \<in> set example_attempts. guess_label ''ann'' 10 (login_rate_limit_window_seconds (ev_config example_env)) l"
    by (simp add: example_attempts_def example_env_def example_config_def)
  have name: "lr_username (example_login q) = ''ann''" for q by (simp add: example_login_def)
  have flights: "\<forall>(_, s') \<in> set example_attempts. in_flight ''ann'' s' \<le> 3"
    by (simp add: example_attempts_def in_flight_def example_guess_def example_verdict_def name)
  note bound = login_attempts_bounded [OF cfg example_attempts_run labels flights]
  have "after_rejections ''ann'' 2 example_attempts =
    [Rejected (example_login ''x''), Rejected (example_login ''x''), Began (example_login ''x'') 10 (Inl rate_limited)]"
    by (simp add: example_attempts_def name numeral_2_eq_2)
  moreover have "login_rate_limit_max_failures (ev_config example_env) = 2"
    by (simp add: example_env_def example_config_def)
  moreover have "rejections ''ann'' example_attempts = 4"
    by (simp add: example_attempts_def name)
  ultimately show ?thesis using bound example_attempts_run by simp
qed

section \<open>Tokens authenticate\<close>

lemma session_join_unique:
  assumes "identity_inv db" and "tbl_get (sessions db) sid = Some s"
    and "tbl_get (users db) (se_user_id s) = Some u"
    and "tbl_get (devices db) (se_user_id s, se_device_id s) = Some d"
  shows "session_join db (\<lambda>x. se_access_token_hash x = se_access_token_hash s) = Some (sid, s, u, d)"
proof -
  have mem: "(sid, s) \<in> set (sessions db)"
    using assms(1,2) by (simp add: identity_inv_def tbl_get_in_set)
  have "find (\<lambda>(k, x). se_access_token_hash x = se_access_token_hash s) (sessions db) = Some (sid, s)"
  proof (rule find_unique [OF mem])
    fix p assume "p \<in> set (sessions db)" "(\<lambda>(k, x). se_access_token_hash x = se_access_token_hash s) p"
    then show "p = (sid, s)"
      using assms(1) mem unfolding identity_inv_def
      by (auto simp: distinct_map dest!: inj_onD [where x = p and y = "(sid, s)"])
  qed simp
  with assms(3,4) show ?thesis by (simp add: session_join_def)
qed

lemma create_session_authenticates:
  assumes inv: "identity_inv db"
    and ok: "create_session db user did plat dname ah rh expires now sid = Inr (ident, db')"
    and u: "tbl_get (users db) (uc_user_id user) = Some u" "us_disabled_at u = None" and "t < expires"
  shows "\<exists>ident' db''. authenticate_access db' ah t = Inr (ident', db'') \<and> si_session_id ident' = sid
     \<and> si_user_id ident' = uc_user_id user \<and> si_device_id ident' = did \<and> si_platform ident' = plat"
proof -
  from ok obtain db1 where put: "put_device db (uc_user_id user) did plat dname now = Inr db1"
    and db': "db' = db1\<lparr>sessions := tbl_put sid
           \<lparr>se_user_id = uc_user_id user, se_device_id = did,
            se_access_token_hash = ah, se_refresh_token_hash = rh,
            se_access_expires_at = expires, se_created_at = now,
            se_last_refreshed_at = now, se_last_seen_at = now, se_revoked_at = None\<rparr>
           (sessions db1)\<rparr>"
    by (auto simp: create_session_def res_simps split: if_splits)
  from put obtain d where d: "tbl_get (devices db1) (uc_user_id user, did) = Some d" "dv_revoked_at d = None"
      "dv_platform d = plat" and users: "users db1 = users db"
    by (auto simp: put_device_def split: option.splits if_splits)
  let ?s = "\<lparr>se_user_id = uc_user_id user, se_device_id = did, se_access_token_hash = ah,
      se_refresh_token_hash = rh, se_access_expires_at = expires, se_created_at = now,
      se_last_refreshed_at = now, se_last_seen_at = now, se_revoked_at = None\<rparr>"
  have "session_join db' (\<lambda>x. se_access_token_hash x = se_access_token_hash ?s) = Some (sid, ?s, u, d)"
    by (rule session_join_unique [OF create_session_identity_inv [OF inv ok]])
       (use db' d users u in simp_all)
  with u(2) d assms(5) show ?thesis by (simp add: authenticate_access_def join_identity_def)
qed

text \<open>
  A login grants access. The access token of a successful login, sent as a bearer token before
  it expires, passes the middleware: the handler runs as the user that logged in, on the device
  and platform of the login.
\<close>

theorem login_grants_access:
  assumes "identity_inv (as_db st)" and "login ev st r clock seed = (Inr tk, st')"
    and "0 \<le> t" and "t < tk_access_expires_at tk" and "length (tk_access_token tk) \<le> 512"
  shows "\<exists>who db. require_access ev st' (Some (''Bearer '' @ tk_access_token tk)) t handler wrap
        = handler who (st'\<lparr>as_db := db\<rparr>)
     \<and> si_user_id who = tk_user_id tk \<and> si_device_id who = lr_device_id r \<and> si_platform who = lr_platform r
     \<and> tk_username tk = lr_username r"
proof -
  from assms(2) obtain now user tokens identity where
    user: "checked_user ev (as_db st) r = Some user"
    and tokens: "generate_tokens (ev_sha256 ev) seed now (access_token_ttl_seconds (ev_config ev)) = Inr tokens"
    and made: "create_session (as_db st) user (lr_device_id r) (lr_platform r) (lr_device_name r)
       (nt_access_hash tokens) (nt_refresh_hash tokens) (nt_access_expires_at tokens) now (sd_session_id seed)
       = Inr (identity, as_db st')"
    and tk: "tk = token_response_of tokens identity"
    by (auto simp: login_phases Let_def split: sum.splits prod.splits if_splits option.splits)
  from user have found: "user_by_username (as_db st) (lr_username r) = Some user" "\<not> uc_disabled user"
    by (auto simp: checked_user_def Let_def split: option.splits if_splits)
  then obtain u where u: "(uc_user_id user, u) \<in> set (users (as_db st))" "us_disabled_at u = None"
      "us_username u = lr_username r" "uc_username user = us_username u"
    by (auto simp: user_by_username_def find_Some_iff split: option.splits) (metis nth_mem)
  with assms(1) have get: "tbl_get (users (as_db st)) (uc_user_id user) = Some u"
    by (simp add: identity_inv_def tbl_get_in_set)
  have hash: "nt_access_hash tokens = token_hash (ev_sha256 ev) (tk_access_token tk)"
    and nonempty: "tk_access_token tk \<noteq> []"
    using tokens by (auto simp: tk token_response_of_def generate_tokens_def Let_def res_simps random_token_def)
  have ids: "tk_user_id tk = uc_user_id user" "tk_username tk = uc_username user"
    "tk_access_expires_at tk = nt_access_expires_at tokens"
    using made by (auto simp: tk token_response_of_def create_session_def res_simps split: if_splits)
  have "nt_access_expires_at tokens \<le> i64_max"
    using tokens by (auto simp: generate_tokens_def Let_def res_simps checked_add_i64_def split: if_splits)
  with assms(3,4) ids(3) have time: "unix_timestamp t = Inr t" by (simp add: unix_timestamp_def)
  from assms(4) ids(3) have "t < nt_access_expires_at tokens" by simp
  from create_session_authenticates [OF assms(1) made get u(2) this] obtain who db where
    "authenticate_access (as_db st') (nt_access_hash tokens) t = Inr (who, db)"
    "si_user_id who = uc_user_id user" "si_device_id who = lr_device_id r" "si_platform who = lr_platform r"
    by blast
  then show ?thesis using hash nonempty assms(5) time ids u(3,4)
    by (intro exI [of _ who] exI [of _ db]) (simp add: require_access_def bearer_token_def)
qed

lemma example_login_ok:
  "\<exists>tk st'. login example_env example_app (example_login ''pw'') 10 example_seed = (Inr tk, st')
     \<and> tk_access_expires_at tk = 3610 \<and> length (tk_access_token tk) = 11 \<and> tk_user_id tk = ''u1''"
proof -
  have "\<not> isl (fst (login example_env example_app (example_login ''pw'') 10 example_seed))"
    "tk_access_expires_at (projr (fst (login example_env example_app (example_login ''pw'') 10 example_seed))) = 3610"
    "length (tk_access_token (projr (fst (login example_env example_app (example_login ''pw'') 10 example_seed)))) = 11"
    "tk_user_id (projr (fst (login example_env example_app (example_login ''pw'') 10 example_seed))) = ''u1''"
    by code_simp+
  then show ?thesis by (metis prod.collapse sum.collapse(2))
qed

lemma example_app_inv: "identity_inv (as_db example_app)" "sync_inv (as_db example_app)"
  "favorites_valid ev (as_db example_app)"
proof -
  have "\<not> isl (repo_bootstrap_user empty_server_db ''ann'' ''pw'' 5 ''u1'')" by code_simp
  then obtain u where "repo_bootstrap_user empty_server_db ''ann'' ''pw'' 5 ''u1'' = Inr (u, as_db example_app)"
    by (cases "repo_bootstrap_user empty_server_db ''ann'' ''pw'' 5 ''u1''") (auto simp: example_app_def)
  then have "store_step ev empty_server_db (as_db example_app)" for ev by (intro s_identity step_bootstrap)
  then have "(store_step ev)\<^sup>*\<^sup>* empty_server_db (as_db example_app)" for ev by blast
  from store_steps_inv [OF this identity_inv_empty sync_inv_empty favorites_valid_empty]
  show "identity_inv (as_db example_app)" "sync_inv (as_db example_app)"
    "favorites_valid ev (as_db example_app)" by blast+
qed

theorem login_grants_access_witness:
  "\<exists>tk st' who db. login example_env example_app (example_login ''pw'') 10 example_seed = (Inr tk, st')
     \<and> require_access example_env st' (Some (''Bearer '' @ tk_access_token tk)) 20 list_devices id
        = list_devices who (st'\<lparr>as_db := db\<rparr>)
     \<and> si_user_id who = ''u1'' \<and> si_device_id who = ''d1''"
proof -
  obtain tk st' where l: "login example_env example_app (example_login ''pw'') 10 example_seed = (Inr tk, st')"
    "tk_access_expires_at tk = 3610" "length (tk_access_token tk) = 11" "tk_user_id tk = ''u1''"
    using example_login_ok by blast
  have "0 \<le> (20::int)" "20 < tk_access_expires_at tk" "length (tk_access_token tk) \<le> 512" using l by simp_all
  from login_grants_access [OF example_app_inv(1) l(1) this, of list_devices id] l show ?thesis
    by (auto simp: example_login_def)
qed

text \<open>
  C15: whatever requests the Server answers, starting from an empty database, its tables stay
  consistent, and every stored favorite has the identity its content determines: the key, canonical
  text and kind that any Desktop computes from the source text.
\<close>

theorem api_store_invariant:
  assumes "(api_step ev)\<^sup>*\<^sup>* st st'" and "as_db st = empty_server_db \<or>
     repo_bootstrap_user empty_server_db name pw now new_id = Inr (uid, as_db st)"
  shows "identity_inv (as_db st') \<and> sync_inv (as_db st') \<and> favorites_valid ev (as_db st')"
proof -
  have "(store_step ev)\<^sup>*\<^sup>* empty_server_db (as_db st)"
    using assms(2) by (auto intro: s_identity step_bootstrap)
  with api_steps_store [OF assms(1)] have "(store_step ev)\<^sup>*\<^sup>* empty_server_db (as_db st')"
    by (rule rtranclp_trans [rotated])
  then show ?thesis
    by (rule store_steps_inv) (simp_all add: identity_inv_empty sync_inv_empty favorites_valid_empty)
qed

theorem api_store_invariant_witness:
  "\<exists>st'. snd (login example_env empty_app (example_login ''pw'') 10 example_seed) = st'
     \<and> favorites_valid example_env (as_db st')"
proof -
  let ?st = "snd (login example_env empty_app (example_login ''pw'') 10 example_seed)"
  have "(api_step example_env)\<^sup>*\<^sup>* empty_app ?st"
    by (intro r_into_rtranclp a_login) (rule surjective_pairing)
  from api_store_invariant [OF this] show ?thesis by (simp add: empty_app_def)
qed

end
