(* ===== verification/Profile_Db.thy ===== *)
theory Profile_Db
  imports Sync_Protocol
begin

text \<open>
  The Desktop's Profile database: \<open>crates/storage/src/model.rs\<close>, \<open>codec.rs\<close> and \<open>profile.rs\<close>. The
  tables are those of \<open>MIGRATION_1\<close> and \<open>MIGRATION_2\<close>. History, statistics and favorites are keyed by
  the hexadecimal Content key; the Outbox is a list of rows, since it has two unique columns (the
  event id and the coalesce key). The JSON text of an Outbox payload is represented by the value
  it encodes: the code writes it and never reads it back. A transaction that fails (\<open>Inl\<close>) leaves
  the database as it was. Event identifiers, drawn by \<open>Uuid::now_v7\<close>, are arguments, and
  \<open>Uuid::parse_str\<close> is the parameter \<open>up\<close> of the readers that use it.
\<close>

section \<open>Errors\<close>

datatype storage_error =
  StIo | StJson | StSqlite | InvalidIdentifier string | InvalidData string | MissingHistory
  | StMigration u32 | StBackup

section \<open>Values (\<open>model.rs\<close>)\<close>

record stored_content =
  stc_content_key :: content_key
  stc_key_version :: u32
  stc_kind :: text_kind
  stc_source_lang :: language_code
  stc_source_text :: utext
  stc_canonical_text :: utext

record translation_snapshot =
  ts_target_lang :: language_code
  ts_translation :: utext
  ts_provider :: string
  ts_updated_at :: i64

record history_entry =
  he_content :: stored_content
  he_translation :: translation_snapshot
  he_last_queried_at :: i64

record query_stats =
  qs_device_query_count :: u64
  qs_first_queried_at :: i64
  qs_last_queried_at :: i64
  qs_last_synced_device_query_count :: u64
  qs_server_total_query_count :: u64
  qs_server_first_queried_at :: "i64 option"
  qs_server_last_queried_at :: "i64 option"
  qs_server_snapshot_at :: "i64 option"

definition effective_total :: "query_stats \<Rightarrow> u64" where
  "effective_total s =
     (if qs_server_snapshot_at s = None then qs_device_query_count s
      else saturating_add_u64 (qs_server_total_query_count s)
        (saturating_sub_u64 (qs_device_query_count s) (qs_last_synced_device_query_count s)))"

record favorite =
  fv_content :: stored_content
  fv_translation :: translation_snapshot
  fv_created_at :: i64
  fv_updated_at :: i64
  fv_deleted_at :: "i64 option"
  fv_entity_revision :: u64

record profile_metadata =
  pm_profile_id :: uuid
  pm_user_id :: "uuid option"
  pm_username :: "string option"
  pm_device_id :: uuid
  pm_platform :: string
  pm_server_origin :: "string option"
  pm_last_server_revision :: u64
  pm_created_at :: i64
  pm_updated_at :: i64

datatype outbox_operation = OutFavoriteUpsert | OutFavoriteDelete | OutQueryStatsUpsert

fun outbox_as_str :: "outbox_operation \<Rightarrow> string" where
  "outbox_as_str OutFavoriteUpsert = ''favorite_upsert''"
| "outbox_as_str OutFavoriteDelete = ''favorite_delete''"
| "outbox_as_str OutQueryStatsUpsert = ''query_stats_upsert''"

record query_stats_payload =
  qp_content_key :: string
  qp_device_query_count :: u64
  qp_first_queried_at :: i64
  qp_last_queried_at :: i64

record favorite_payload =
  fp_content_key :: string
  fp_desired_state :: string
  fp_base_entity_revision :: u64
  fp_query_stats :: query_stats_payload

datatype outbox_payload = StatsPayload query_stats_payload | FavoritePayload favorite_payload

record outbox_event =
  oe_event_id :: uuid
  oe_content_key :: content_key
  oe_operation :: outbox_operation
  oe_payload :: outbox_payload
  oe_coalesce_key :: string
  oe_base_entity_revision :: "u64 option"
  oe_created_at :: i64
  oe_updated_at :: i64
  oe_attempt_count :: u32
  oe_next_retry_at :: "i64 option"
  oe_last_error :: "utext option"
  oe_conflict_replay_count :: u32

section \<open>Tables\<close>

record history_row =
  hr_key_version :: i64
  hr_kind :: string
  hr_source_lang :: string
  hr_target_lang :: string
  hr_source_text :: utext
  hr_canonical_text :: utext
  hr_translation :: utext
  hr_provider :: string
  hr_last_queried_at :: i64
  hr_translation_updated_at :: i64

record stats_row =
  sr_device_query_count :: i64
  sr_first_queried_at :: i64
  sr_last_queried_at :: i64
  sr_last_synced_device_query_count :: i64
  sr_server_total_query_count :: i64
  sr_server_first_queried_at :: "i64 option"
  sr_server_last_queried_at :: "i64 option"
  sr_server_snapshot_at :: "i64 option"

record favorite_row =
  rf_key_version :: i64
  rf_kind :: string
  rf_source_lang :: string
  rf_target_lang :: string
  rf_source_text :: utext
  rf_canonical_text :: utext
  rf_translation :: utext
  rf_provider :: string
  rf_created_at :: i64
  rf_updated_at :: i64
  rf_deleted_at :: "i64 option"
  rf_entity_revision :: i64

record outbox_row =
  ob_event_id :: string
  ob_content_key :: string
  ob_operation :: string
  ob_payload :: "outbox_payload option"
  ob_coalesce_key :: "string option"
  ob_base_entity_revision :: "i64 option"
  ob_created_at :: i64
  ob_updated_at :: i64
  ob_attempt_count :: i64
  ob_next_retry_at :: "i64 option"
  ob_last_error :: "utext option"
  ob_conflict_replay_count :: i64

record meta_row =
  mt_profile_id :: string
  mt_user_id :: "string option"
  mt_username :: "string option"
  mt_device_id :: string
  mt_platform :: string
  mt_server_origin :: "string option"
  mt_last_server_revision :: i64
  mt_created_at :: i64
  mt_updated_at :: i64
  mt_last_successful_sync_at :: "i64 option"
  mt_last_sync_error :: "utext option"
  mt_sse_connected :: bool

record profile_db =
  profile_meta :: "meta_row option"
  history_entries :: "(string, history_row) table"
  stats_table :: "(string, stats_row) table"
  favorites :: "(string, favorite_row) table"
  sync_outbox :: "outbox_row list"

text \<open>The freshly migrated database.\<close>

definition migrated_profile_db :: profile_db where
  "migrated_profile_db = \<lparr>profile_meta = None, history_entries = [], stats_table = [], favorites = [],
     sync_outbox = []\<rparr>"

section \<open>Codecs (\<open>codec.rs\<close> and the row parsers)\<close>

definition parse_content_key :: "string \<Rightarrow> storage_error + content_key" where
  "parse_content_key v = map_err (\<lambda>_. InvalidData ''content key'') (content_key_from_str v)"

definition parse_outbox_operation :: "string \<Rightarrow> storage_error + outbox_operation" where
  "parse_outbox_operation v =
     (if v = ''favorite_upsert'' then Inr OutFavoriteUpsert
      else if v = ''favorite_delete'' then Inr OutFavoriteDelete
      else if v = ''query_stats_upsert'' then Inr OutQueryStatsUpsert
      else Inl (InvalidData ''outbox operation''))"

definition sqlite_u64 :: "i64 \<Rightarrow> storage_error + u64" where
  "sqlite_u64 v = ok_or (InvalidData ''negative integer'') (u64_of_i64 v)"

definition sqlite_i64 :: "u64 \<Rightarrow> storage_error + i64" where
  "sqlite_i64 v = ok_or (InvalidData ''integer exceeds SQLite range'') (i64_of_u64 v)"

definition parse_language :: "string \<Rightarrow> storage_error + language_code" where
  "parse_language v = map_err (\<lambda>_. InvalidData ''language code'') (parse_language_code v)"

definition parse_kind :: "string \<Rightarrow> storage_error + text_kind" where
  "parse_kind v = (if v = ''word'' then Inr Word else if v = ''text'' then Inr Text
                   else Inl (InvalidData ''text kind''))"

type_synonym uuid_parser = "string \<Rightarrow> uuid option"

definition parse_uuid :: "uuid_parser \<Rightarrow> string \<Rightarrow> string \<Rightarrow> storage_error + uuid" where
  "parse_uuid up v kind = ok_or (InvalidIdentifier kind) (up v)"

definition nil_uuid :: uuid where
  "nil_uuid = ''00000000-0000-0000-0000-000000000000''"

definition parse_history :: "string \<Rightarrow> history_row \<Rightarrow> storage_error + history_entry" where
  "parse_history k row =
     rbind (parse_content_key k) (\<lambda>key.
     rbind (ok_or (InvalidData ''key version'') (u32_of_i64 (hr_key_version row))) (\<lambda>key_version.
     rbind (parse_kind (hr_kind row)) (\<lambda>kind.
     rbind (parse_language (hr_source_lang row)) (\<lambda>source_lang.
     rbind (parse_language (hr_target_lang row)) (\<lambda>target_lang.
     Inr \<lparr>he_content = \<lparr>stc_content_key = key, stc_key_version = key_version, stc_kind = kind,
            stc_source_lang = source_lang, stc_source_text = hr_source_text row,
            stc_canonical_text = hr_canonical_text row\<rparr>,
          he_translation = \<lparr>ts_target_lang = target_lang, ts_translation = hr_translation row,
            ts_provider = hr_provider row, ts_updated_at = hr_translation_updated_at row\<rparr>,
          he_last_queried_at = hr_last_queried_at row\<rparr>)))))"

definition parse_query_stats :: "stats_row \<Rightarrow> storage_error + query_stats" where
  "parse_query_stats row =
     rbind (sqlite_u64 (sr_device_query_count row)) (\<lambda>device.
     rbind (sqlite_u64 (sr_last_synced_device_query_count row)) (\<lambda>synced.
     rbind (sqlite_u64 (sr_server_total_query_count row)) (\<lambda>server.
     Inr \<lparr>qs_device_query_count = device, qs_first_queried_at = sr_first_queried_at row,
          qs_last_queried_at = sr_last_queried_at row, qs_last_synced_device_query_count = synced,
          qs_server_total_query_count = server,
          qs_server_first_queried_at = sr_server_first_queried_at row,
          qs_server_last_queried_at = sr_server_last_queried_at row,
          qs_server_snapshot_at = sr_server_snapshot_at row\<rparr>)))"

definition parse_favorite :: "string \<Rightarrow> favorite_row \<Rightarrow> storage_error + favorite" where
  "parse_favorite k row =
     rbind (parse_content_key k) (\<lambda>key.
     rbind (ok_or (InvalidData ''key version'') (u32_of_i64 (rf_key_version row))) (\<lambda>key_version.
     rbind (parse_kind (rf_kind row)) (\<lambda>kind.
     rbind (parse_language (rf_source_lang row)) (\<lambda>source_lang.
     rbind (parse_language (rf_target_lang row)) (\<lambda>target_lang.
     rbind (sqlite_u64 (rf_entity_revision row)) (\<lambda>entity_revision.
     Inr \<lparr>fv_content = \<lparr>stc_content_key = key, stc_key_version = key_version, stc_kind = kind,
            stc_source_lang = source_lang, stc_source_text = rf_source_text row,
            stc_canonical_text = rf_canonical_text row\<rparr>,
          fv_translation = \<lparr>ts_target_lang = target_lang, ts_translation = rf_translation row,
            ts_provider = rf_provider row, ts_updated_at = rf_updated_at row\<rparr>,
          fv_created_at = rf_created_at row, fv_updated_at = rf_updated_at row,
          fv_deleted_at = rf_deleted_at row, fv_entity_revision = entity_revision\<rparr>))))))"

definition parse_outbox :: "uuid_parser \<Rightarrow> outbox_row \<Rightarrow> storage_error + outbox_event" where
  "parse_outbox up row =
     rbind (parse_uuid up (ob_event_id row) ''event'') (\<lambda>event_id.
     rbind (parse_content_key (ob_content_key row)) (\<lambda>content_key.
     rbind (parse_outbox_operation (ob_operation row)) (\<lambda>operation.
     rbind (ok_or (InvalidData ''outbox payload is null'') (ob_payload row)) (\<lambda>payload.
     rbind (ok_or (InvalidData ''outbox coalesce key is null'') (ob_coalesce_key row)) (\<lambda>coalesce_key.
     rbind (opt_transpose sqlite_u64 (ob_base_entity_revision row)) (\<lambda>base_revision.
     rbind (ok_or (InvalidData ''negative attempt count'') (u32_of_i64 (ob_attempt_count row))) (\<lambda>attempts.
     rbind (ok_or (InvalidData ''negative conflict replay count'')
              (u32_of_i64 (ob_conflict_replay_count row))) (\<lambda>replays.
     Inr \<lparr>oe_event_id = event_id, oe_content_key = content_key, oe_operation = operation,
          oe_payload = payload, oe_coalesce_key = coalesce_key,
          oe_base_entity_revision = base_revision, oe_created_at = ob_created_at row,
          oe_updated_at = ob_updated_at row, oe_attempt_count = attempts,
          oe_next_retry_at = ob_next_retry_at row, oe_last_error = ob_last_error row,
          oe_conflict_replay_count = replays\<rparr>))))))))"

section \<open>Keys of the Outbox\<close>

definition favorite_coalesce_key :: "content_key \<Rightarrow> string" where
  "favorite_coalesce_key key = ''favorite:'' @ to_hex key"

definition query_stats_coalesce_key :: "content_key \<Rightarrow> string \<Rightarrow> string" where
  "query_stats_coalesce_key key device_id = ''query_stats:'' @ device_id @ '':'' @ to_hex key"

section \<open>Reads\<close>

definition read_profile_metadata :: "uuid_parser \<Rightarrow> profile_db \<Rightarrow> storage_error + profile_metadata" where
  "read_profile_metadata up db =
     (case profile_meta db of
        None \<Rightarrow> Inl StSqlite
      | Some row \<Rightarrow>
          rbind (parse_uuid up (mt_profile_id row) ''profile'') (\<lambda>profile_id.
          rbind (opt_transpose (\<lambda>v. parse_uuid up v ''user'') (mt_user_id row)) (\<lambda>user_id.
          rbind (parse_uuid up (mt_device_id row) ''device'') (\<lambda>device_id.
          rbind (sqlite_u64 (mt_last_server_revision row)) (\<lambda>last_server_revision.
          Inr \<lparr>pm_profile_id = profile_id, pm_user_id = user_id, pm_username = mt_username row,
               pm_device_id = device_id, pm_platform = mt_platform row,
               pm_server_origin = mt_server_origin row,
               pm_last_server_revision = last_server_revision, pm_created_at = mt_created_at row,
               pm_updated_at = mt_updated_at row\<rparr>)))))"

definition profile_device_id :: "profile_db \<Rightarrow> storage_error + string" where
  "profile_device_id db = (case profile_meta db of None \<Rightarrow> Inl StSqlite | Some m \<Rightarrow> Inr (mt_device_id m))"

definition is_unbound :: "profile_db \<Rightarrow> storage_error + bool" where
  "is_unbound db =
     (case profile_meta db of None \<Rightarrow> Inl StSqlite | Some m \<Rightarrow> Inr (mt_user_id m = None))"

definition history_by_key :: "profile_db \<Rightarrow> content_key \<Rightarrow> storage_error + history_entry option" where
  "history_by_key db key =
     opt_transpose (parse_history (to_hex key)) (tbl_get (history_entries db) (to_hex key))"

definition query_stats_tx :: "profile_db \<Rightarrow> content_key \<Rightarrow> storage_error + query_stats option" where
  "query_stats_tx db key = opt_transpose parse_query_stats (tbl_get (stats_table db) (to_hex key))"

definition favorite_by_key :: "profile_db \<Rightarrow> content_key \<Rightarrow> storage_error + favorite option" where
  "favorite_by_key db key =
     opt_transpose (parse_favorite (to_hex key)) (tbl_get (favorites db) (to_hex key))"

text \<open>SQLite's \<open>LIKE\<close>: \<open>%\<close> (37) matches any sequence, \<open>_\<close> (95) any character, ASCII letters match
  in either case.\<close>

definition like_fold :: "uchar \<Rightarrow> uchar" where
  "like_fold c = (if 65 \<le> c \<and> c \<le> 90 then c + 32 else c)"

fun sql_like :: "utext \<Rightarrow> utext \<Rightarrow> bool" where
  "sql_like [] s = (s = [])"
| "sql_like (p # ps) [] = (p = 37 \<and> sql_like ps [])"
| "sql_like (p # ps) (c # s) =
     (if p = 37 then sql_like ps (c # s) \<or> sql_like (p # ps) s
      else (p = 95 \<or> like_fold p = like_fold c) \<and> sql_like ps s)"

definition like_contains :: "utext \<Rightarrow> utext \<Rightarrow> bool" where
  "like_contains term s = sql_like ([37] @ term @ [37]) s"

definition search_history :: "profile_db \<Rightarrow> utext \<Rightarrow> u32 \<Rightarrow> storage_error + history_entry list" where
  "search_history db term limit =
     mapM (\<lambda>(k, row). parse_history k row)
       (sql_order_limit (\<lambda>(k, row). - hr_last_queried_at row) limit
         (filter (\<lambda>(k, row). like_contains term (hr_source_text row)
                              \<or> like_contains term (hr_translation row))
           (history_entries db)))"

definition search_favorites :: "profile_db \<Rightarrow> utext \<Rightarrow> u32 \<Rightarrow> storage_error + favorite list" where
  "search_favorites db term limit =
     mapM (\<lambda>(k, row). parse_favorite k row)
       (sql_order_limit (\<lambda>(k, row). - rf_updated_at row) limit
         (filter (\<lambda>(k, row). rf_deleted_at row = None \<and> (like_contains term (rf_source_text row)
                              \<or> like_contains term (rf_translation row)))
           (favorites db)))"

definition outbox_events :: "uuid_parser \<Rightarrow> profile_db \<Rightarrow> storage_error + outbox_event list" where
  "outbox_events up db =
     mapM (parse_outbox up) (sort_key (\<lambda>r. (ob_created_at r, ob_event_id r)) (sync_outbox db))"

section \<open>Outbox writes\<close>

definition outbox_has_event :: "profile_db \<Rightarrow> string \<Rightarrow> bool" where
  "outbox_has_event db event_id = list_ex (\<lambda>r. ob_event_id r = event_id) (sync_outbox db)"

definition outbox_find :: "profile_db \<Rightarrow> string \<Rightarrow> outbox_row option" where
  "outbox_find db coalesce = find (\<lambda>r. ob_coalesce_key r = Some coalesce) (sync_outbox db)"

definition outbox_delete :: "string \<Rightarrow> profile_db \<Rightarrow> profile_db" where
  "outbox_delete coalesce db =
     db\<lparr>sync_outbox := filter (\<lambda>r. ob_coalesce_key r \<noteq> Some coalesce) (sync_outbox db)\<rparr>"

record pending_outbox =
  po_event_id :: uuid
  po_key :: content_key
  po_operation :: outbox_operation
  po_payload :: outbox_payload
  po_coalesce_key :: string
  po_revision :: "u64 option"
  po_now :: i64

text \<open>The insertion coalesces: a row with the same coalesce key keeps its place, its creation time and
  its replay count, and takes the new event. A second row with the same event id violates the
  primary key.\<close>

definition upsert_outbox :: "profile_db \<Rightarrow> pending_outbox \<Rightarrow> storage_error + profile_db" where
  "upsert_outbox db event =
     rbind (opt_transpose sqlite_i64 (po_revision event)) (\<lambda>revision.
       case outbox_find db (po_coalesce_key event) of
         Some old \<Rightarrow>
           if list_ex (\<lambda>r. ob_event_id r = po_event_id event
                           \<and> ob_coalesce_key r \<noteq> Some (po_coalesce_key event)) (sync_outbox db)
           then Inl StSqlite
           else Inr (db\<lparr>sync_outbox := map (\<lambda>r.
             if ob_coalesce_key r = Some (po_coalesce_key event)
             then r\<lparr>ob_event_id := po_event_id event,
                    ob_operation := outbox_as_str (po_operation event),
                    ob_payload := Some (po_payload event), ob_base_entity_revision := revision,
                    ob_updated_at := po_now event, ob_attempt_count := 0,
                    ob_next_retry_at := None, ob_last_error := None\<rparr>
             else r) (sync_outbox db)\<rparr>)
       | None \<Rightarrow>
           if outbox_has_event db (po_event_id event) then Inl StSqlite
           else Inr (db\<lparr>sync_outbox := sync_outbox db @
             [\<lparr>ob_event_id = po_event_id event, ob_content_key = to_hex (po_key event),
               ob_operation = outbox_as_str (po_operation event),
               ob_payload = Some (po_payload event),
               ob_coalesce_key = Some (po_coalesce_key event),
               ob_base_entity_revision = revision, ob_created_at = po_now event,
               ob_updated_at = po_now event, ob_attempt_count = 0, ob_next_retry_at = None,
               ob_last_error = None, ob_conflict_replay_count = 0\<rparr>]\<rparr>))"

definition stats_payload :: "content_key \<Rightarrow> query_stats \<Rightarrow> query_stats_payload" where
  "stats_payload key stats =
     \<lparr>qp_content_key = to_hex key, qp_device_query_count = qs_device_query_count stats,
      qp_first_queried_at = qs_first_queried_at stats, qp_last_queried_at = qs_last_queried_at stats\<rparr>"

definition upsert_query_stats_event ::
  "profile_db \<Rightarrow> content_key \<Rightarrow> query_stats \<Rightarrow> i64 \<Rightarrow> uuid \<Rightarrow> storage_error + profile_db" where
  "upsert_query_stats_event db key stats now event_id =
     rbind (profile_device_id db) (\<lambda>device_id.
       upsert_outbox db \<lparr>po_event_id = event_id, po_key = key, po_operation = OutQueryStatsUpsert,
         po_payload = StatsPayload (stats_payload key stats),
         po_coalesce_key = query_stats_coalesce_key key device_id, po_revision = None,
         po_now = now\<rparr>)"

definition upsert_favorite_event ::
  "profile_db \<Rightarrow> content_key \<Rightarrow> string \<Rightarrow> u64 \<Rightarrow> query_stats \<Rightarrow> i64 \<Rightarrow> outbox_operation \<Rightarrow> uuid
    \<Rightarrow> storage_error + profile_db" where
  "upsert_favorite_event db key desired_state revision stats now operation event_id =
     upsert_outbox db \<lparr>po_event_id = event_id, po_key = key, po_operation = operation,
       po_payload = FavoritePayload \<lparr>fp_content_key = to_hex key, fp_desired_state = desired_state,
         fp_base_entity_revision = revision, fp_query_stats = stats_payload key stats\<rparr>,
       po_coalesce_key = favorite_coalesce_key key, po_revision = Some revision, po_now = now\<rparr>"

section \<open>History and statistics\<close>

definition upsert_history :: "profile_db \<Rightarrow> history_entry \<Rightarrow> profile_db" where
  "upsert_history db entry =
     (let c = he_content entry; t = he_translation entry in
      db\<lparr>history_entries := tbl_put (to_hex (stc_content_key c))
        \<lparr>hr_key_version = int (stc_key_version c), hr_kind = protocol_name (stc_kind c),
         hr_source_lang = stc_source_lang c, hr_target_lang = ts_target_lang t,
         hr_source_text = stc_source_text c, hr_canonical_text = stc_canonical_text c,
         hr_translation = ts_translation t, hr_provider = ts_provider t,
         hr_last_queried_at = he_last_queried_at entry,
         hr_translation_updated_at = ts_updated_at t\<rparr> (history_entries db)\<rparr>)"

definition count_query :: "profile_db \<Rightarrow> string \<Rightarrow> i64 \<Rightarrow> storage_error + profile_db" where
  "count_query db k at =
     (case tbl_get (stats_table db) k of
        None \<Rightarrow> Inr (db\<lparr>stats_table := tbl_put k
          \<lparr>sr_device_query_count = 1, sr_first_queried_at = at, sr_last_queried_at = at,
           sr_last_synced_device_query_count = 0, sr_server_total_query_count = 0,
           sr_server_first_queried_at = None, sr_server_last_queried_at = None,
           sr_server_snapshot_at = None\<rparr> (stats_table db)\<rparr>)
      | Some row \<Rightarrow>
          rbind (ok_or StSqlite (sql_succ (sr_device_query_count row))) (\<lambda>count.
            Inr (db\<lparr>stats_table := tbl_modify k
              (\<lambda>r. r\<lparr>sr_device_query_count := count, sr_last_queried_at := at\<rparr>)
              (stats_table db)\<rparr>)))"

definition record_successful_query ::
  "profile_db \<Rightarrow> history_entry \<Rightarrow> uuid \<Rightarrow> storage_error + (query_stats \<times> profile_db)" where
  "record_successful_query db entry event_id =
     (let key = stc_content_key (he_content entry); db1 = upsert_history db entry in
      rbind (count_query db1 (to_hex key) (he_last_queried_at entry)) (\<lambda>db2.
      rbind (query_stats_tx db2 key) (\<lambda>found.
      rbind (ok_or (InvalidData ''query stats upsert disappeared'') found) (\<lambda>stats.
      rbind (if tbl_has (favorites db2) (to_hex key)
             then upsert_query_stats_event db2 key stats (he_last_queried_at entry) event_id
             else Inr db2) (\<lambda>db3.
      Inr (stats, db3))))))"

section \<open>Favorites\<close>

text \<open>The insertion or reactivation itself: a row that exists keeps its entity revision.\<close>

definition favorite_write ::
  "profile_db \<Rightarrow> content_key \<Rightarrow> history_entry \<Rightarrow> u64 \<Rightarrow> query_stats \<Rightarrow> i64 \<Rightarrow> uuid
    \<Rightarrow> storage_error + (favorite \<times> profile_db)" where
  "favorite_write db key history entity_revision stats now event_id =
     (let c = he_content history; t = he_translation history; k = to_hex key in
      rbind (sqlite_i64 entity_revision) (\<lambda>revision.
      let db1 = db\<lparr>favorites := tbl_put k
            \<lparr>rf_key_version = int (stc_key_version c), rf_kind = protocol_name (stc_kind c),
             rf_source_lang = stc_source_lang c, rf_target_lang = ts_target_lang t,
             rf_source_text = stc_source_text c, rf_canonical_text = stc_canonical_text c,
             rf_translation = ts_translation t, rf_provider = ts_provider t,
             rf_created_at = now, rf_updated_at = now, rf_deleted_at = None,
             rf_entity_revision = (case tbl_get (favorites db) k of
                None \<Rightarrow> revision | Some old \<Rightarrow> rf_entity_revision old)\<rparr> (favorites db)\<rparr> in
      rbind (upsert_favorite_event db1 key ''active'' entity_revision stats now OutFavoriteUpsert
               event_id) (\<lambda>db2.
      rbind (favorite_by_key db2 key) (\<lambda>f.
      rbind (ok_or (InvalidData ''favorite upsert disappeared'') f) (\<lambda>result.
        Inr (result, db2))))))"

definition favorite_from_history_tx ::
  "profile_db \<Rightarrow> content_key \<Rightarrow> i64 \<Rightarrow> uuid \<Rightarrow> storage_error + (favorite \<times> profile_db)" where
  "favorite_from_history_tx db key now event_id =
     rbind (history_by_key db key) (\<lambda>h.
     rbind (ok_or MissingHistory h) (\<lambda>history.
     rbind (query_stats_tx db key) (\<lambda>s.
     rbind (ok_or (InvalidData ''favorite query stats are missing'') s) (\<lambda>stats.
     rbind (favorite_by_key db key) (\<lambda>existing.
     case existing of
       Some f \<Rightarrow>
         if fv_deleted_at f = None then Inr (f, db)
         else favorite_write db key history (fv_entity_revision f) stats now event_id
     | None \<Rightarrow> favorite_write db key history 0 stats now event_id)))))"

text \<open>\<open>favorite\<close> and \<open>unfavorite\<close> read the row back after the commit: an error there is reported but the
  transaction stays.\<close>

definition favorite_content ::
  "profile_db \<Rightarrow> content_key \<Rightarrow> i64 \<Rightarrow> uuid \<Rightarrow> (storage_error + favorite) \<times> profile_db" where
  "favorite_content db key now event_id =
     (case favorite_from_history_tx db key now event_id of
        Inl e \<Rightarrow> (Inl e, db)
      | Inr (f, db1) \<Rightarrow>
          (rbind (favorite_by_key db1 key) (ok_or (InvalidData ''favorite upsert disappeared'')), db1))"

definition unfavorite_tx ::
  "profile_db \<Rightarrow> content_key \<Rightarrow> i64 \<Rightarrow> uuid \<Rightarrow> storage_error + (favorite option \<times> profile_db)" where
  "unfavorite_tx db key now event_id =
     rbind (favorite_by_key db key) (\<lambda>f.
     rbind (ok_or (InvalidData ''favorite does not exist'') f) (\<lambda>fav.
     if fv_deleted_at fav \<noteq> None then Inr (Some fav, db)
     else
     rbind (query_stats_tx db key) (\<lambda>s.
     rbind (ok_or (InvalidData ''favorite query stats are missing'') s) (\<lambda>stats.
     let db1 = db\<lparr>favorites := tbl_modify (to_hex key)
           (\<lambda>r. r\<lparr>rf_updated_at := now, rf_deleted_at := Some now\<rparr>) (favorites db)\<rparr> in
     rbind (profile_device_id db1) (\<lambda>device_id.
     let db2 = outbox_delete (query_stats_coalesce_key key device_id) db1 in
     if fv_entity_revision fav = 0
     then Inr (None, outbox_delete (favorite_coalesce_key key) db2)
     else rbind (upsert_favorite_event db2 key ''deleted'' (fv_entity_revision fav) stats now
                   OutFavoriteDelete event_id) (\<lambda>db3. Inr (None, db3)))))))"

definition unfavorite ::
  "profile_db \<Rightarrow> content_key \<Rightarrow> i64 \<Rightarrow> uuid \<Rightarrow> (storage_error + favorite) \<times> profile_db" where
  "unfavorite db key now event_id =
     (case unfavorite_tx db key now event_id of
        Inl e \<Rightarrow> (Inl e, db)
      | Inr (Some fav, db1) \<Rightarrow> (Inr fav, db1)
      | Inr (None, db1) \<Rightarrow>
          (rbind (favorite_by_key db1 key) (ok_or (InvalidData ''favorite tombstone disappeared'')), db1))"

definition acknowledge_favorite :: "profile_db \<Rightarrow> content_key \<Rightarrow> u64 \<Rightarrow> storage_error + profile_db" where
  "acknowledge_favorite db key entity_revision =
     (if entity_revision = 0 then Inl (InvalidData ''acknowledged entity revision is zero'')
      else rbind (sqlite_i64 entity_revision) (\<lambda>revision.
        if \<not> tbl_has (favorites db) (to_hex key) then Inl (InvalidData ''favorite does not exist'')
        else Inr (outbox_delete (favorite_coalesce_key key)
          (db\<lparr>favorites := tbl_modify (to_hex key) (\<lambda>r. r\<lparr>rf_entity_revision := revision\<rparr>)
             (favorites db)\<rparr>))))"

definition clear_history :: "profile_db \<Rightarrow> profile_db" where
  "clear_history db =
     db\<lparr>history_entries := [],
        stats_table := tbl_keep (\<lambda>k r. tbl_has (favorites db) k) (stats_table db)\<rparr>"

section \<open>Profile identity\<close>

definition validate_profile_metadata :: "profile_metadata \<Rightarrow> storage_error + unit" where
  "validate_profile_metadata m =
     (if pm_profile_id m = nil_uuid then Inl (InvalidIdentifier ''profile'')
      else if pm_device_id m = nil_uuid then Inl (InvalidIdentifier ''device'')
      else if \<not> (pm_platform m = ''windows'' \<or> pm_platform m = ''macos'')
        then Inl (InvalidData ''unsupported platform'')
      else Inr ())"

definition upsert_or_validate_profile ::
  "profile_db \<Rightarrow> profile_metadata \<Rightarrow> storage_error + profile_db" where
  "upsert_or_validate_profile db m =
     (case profile_meta db of
        Some row \<Rightarrow>
          if mt_profile_id row \<noteq> pm_profile_id m \<or> mt_device_id row \<noteq> pm_device_id m
          then Inl (InvalidData ''Profile identity does not match its database'')
          else Inr db
      | None \<Rightarrow>
          rbind (sqlite_i64 (pm_last_server_revision m)) (\<lambda>revision.
          if \<not> (pm_platform m = ''windows'' \<or> pm_platform m = ''macos'') then Inl StSqlite
          else Inr (db\<lparr>profile_meta := Some
            \<lparr>mt_profile_id = pm_profile_id m, mt_user_id = pm_user_id m, mt_username = pm_username m,
             mt_device_id = pm_device_id m, mt_platform = pm_platform m,
             mt_server_origin = pm_server_origin m, mt_last_server_revision = revision,
             mt_created_at = pm_created_at m, mt_updated_at = pm_updated_at m,
             mt_last_successful_sync_at = None, mt_last_sync_error = None,
             mt_sse_connected = False\<rparr>\<rparr>)))"

text \<open>The part of \<open>ProfileDatabase::open\<close> after the file is open and migrated.\<close>

definition open_profile :: "profile_db \<Rightarrow> profile_metadata \<Rightarrow> storage_error + profile_db" where
  "open_profile db m =
     rbind (validate_profile_metadata m) (\<lambda>_. upsert_or_validate_profile db m)"

definition update_account_identity ::
  "uuid_parser \<Rightarrow> profile_db \<Rightarrow> uuid \<Rightarrow> string \<Rightarrow> string \<Rightarrow> i64 \<Rightarrow> storage_error + profile_db" where
  "update_account_identity up db user_id username server_origin now =
     rbind (read_profile_metadata up db) (\<lambda>existing.
     if pm_user_id existing \<noteq> Some user_id
     then Inl (InvalidData ''Profile User identity does not match'')
     else Inr (db\<lparr>profile_meta := map_option (\<lambda>m. m\<lparr>mt_username := Some username,
            mt_server_origin := Some server_origin, mt_updated_at := now\<rparr>) (profile_meta db)\<rparr>))"

definition bind_user ::
  "profile_db \<Rightarrow> uuid \<Rightarrow> string \<Rightarrow> string \<Rightarrow> i64 \<Rightarrow> storage_error + profile_db" where
  "bind_user db user_id username server_origin now =
     (if user_id = nil_uuid then Inl (InvalidIdentifier ''user'')
      else case profile_meta db of
        None \<Rightarrow> Inl StSqlite
      | Some m \<Rightarrow>
          if mt_user_id m \<noteq> None \<and> mt_user_id m \<noteq> Some user_id
          then Inl (InvalidData ''Profile is already bound to another User'')
          else Inr (db\<lparr>profile_meta := Some (m\<lparr>mt_user_id := Some user_id,
            mt_username := Some username, mt_server_origin := Some server_origin,
            mt_updated_at := now\<rparr>)\<rparr>))"

text \<open>A new Device identity: query events are re-keyed to it, and the local contribution restarts at
  what the Server has not acknowledged. \<open>a - b\<close> in SQL on counts that are not negative cannot
  overflow; a negative result violates the column check. Two re-keyed rows with the same key
  violate the unique index.\<close>

definition replace_device_identity ::
  "profile_db \<Rightarrow> uuid \<Rightarrow> uuid \<Rightarrow> i64 \<Rightarrow> storage_error + profile_db" where
  "replace_device_identity db expected_current replacement now =
     (if expected_current = nil_uuid \<or> replacement = nil_uuid \<or> expected_current = replacement
      then Inl (InvalidIdentifier ''device'')
      else case profile_meta db of
        None \<Rightarrow> Inl (InvalidData ''Profile Device identity does not match'')
      | Some m \<Rightarrow>
          if mt_device_id m \<noteq> expected_current
          then Inl (InvalidData ''Profile Device identity does not match'')
          else
            let rows = map (\<lambda>r. if ob_operation r = ''query_stats_upsert''
                   then r\<lparr>ob_coalesce_key := Some (''query_stats:'' @ replacement @ '':'' @ ob_content_key r),
                          ob_updated_at := now\<rparr> else r) (sync_outbox db);
                stats = tbl_update_all (\<lambda>k r. r\<lparr>sr_device_query_count :=
                     sr_device_query_count r - sr_last_synced_device_query_count r,
                   sr_last_synced_device_query_count := 0\<rparr>) (stats_table db)
            in if \<not> distinct (filter (\<lambda>k. k \<noteq> None) (map ob_coalesce_key rows))
                  \<or> list_ex (\<lambda>(k, r). sr_device_query_count r < 0) stats
               then Inl StSqlite
               else Inr (db\<lparr>profile_meta := Some (m\<lparr>mt_device_id := replacement, mt_updated_at := now\<rparr>),
                            sync_outbox := rows, stats_table := stats\<rparr>))"

section \<open>Consistency of a Profile\<close>

text \<open>
  What the tables of a Profile promise: every stored value parses, every favorite and every history
  entry has statistics, and the Outbox holds at most one intent per coalesce key. A pending upsert
  belongs to an active favorite, a pending deletion to a tombstone, and a pending query count to a
  content in the favorite domain, under the Profile's own device.
\<close>

definition key_text :: "string \<Rightarrow> bool" where
  "key_text k \<longleftrightarrow> (\<exists>key. length key = 32 \<and> k = to_hex key)"

definition lang_text :: "string \<Rightarrow> bool" where
  "lang_text l \<longleftrightarrow> \<not> isl (parse_language_code l)"

definition favorite_row_ok :: "favorite_row \<Rightarrow> bool" where
  "favorite_row_ok r \<longleftrightarrow> 0 \<le> rf_key_version r \<and> rf_key_version r \<le> int u32_max
     \<and> (rf_kind r = ''word'' \<or> rf_kind r = ''text'') \<and> lang_text (rf_source_lang r)
     \<and> lang_text (rf_target_lang r) \<and> 0 \<le> rf_entity_revision r \<and> rf_entity_revision r \<le> i64_max"

definition history_row_ok :: "history_row \<Rightarrow> bool" where
  "history_row_ok r \<longleftrightarrow> 0 \<le> hr_key_version r \<and> hr_key_version r \<le> int u32_max
     \<and> (hr_kind r = ''word'' \<or> hr_kind r = ''text'') \<and> lang_text (hr_source_lang r)
     \<and> lang_text (hr_target_lang r)"

definition stats_row_ok :: "stats_row \<Rightarrow> bool" where
  "stats_row_ok r \<longleftrightarrow> 0 \<le> sr_device_query_count r \<and> sr_device_query_count r \<le> i64_max
     \<and> 0 \<le> sr_last_synced_device_query_count r \<and> sr_last_synced_device_query_count r \<le> i64_max
     \<and> 0 \<le> sr_server_total_query_count r \<and> sr_server_total_query_count r \<le> i64_max"

definition tables_inv :: "profile_db \<Rightarrow> bool" where
  "tables_inv db \<longleftrightarrow> tbl_wf (history_entries db) \<and> tbl_wf (stats_table db) \<and> tbl_wf (favorites db)
     \<and> (\<forall>k r. tbl_get (history_entries db) k = Some r \<longrightarrow>
          key_text k \<and> history_row_ok r \<and> tbl_has (stats_table db) k)
     \<and> (\<forall>k r. tbl_get (favorites db) k = Some r \<longrightarrow>
          key_text k \<and> favorite_row_ok r \<and> tbl_has (stats_table db) k)
     \<and> (\<forall>k r. tbl_get (stats_table db) k = Some r \<longrightarrow> stats_row_ok r)"

definition intent_ok :: "string \<Rightarrow> (string, favorite_row) table \<Rightarrow> outbox_row \<Rightarrow> bool" where
  "intent_ok dev favs r \<longleftrightarrow> (\<exists>key fr. length key = 32 \<and> ob_content_key r = to_hex key
     \<and> tbl_get favs (to_hex key) = Some fr \<and>
     (ob_operation r = ''favorite_upsert'' \<and> ob_coalesce_key r = Some (favorite_coalesce_key key)
        \<and> rf_deleted_at fr = None
      \<or> ob_operation r = ''favorite_delete'' \<and> ob_coalesce_key r = Some (favorite_coalesce_key key)
        \<and> rf_deleted_at fr \<noteq> None
      \<or> ob_operation r = ''query_stats_upsert''
        \<and> ob_coalesce_key r = Some (query_stats_coalesce_key key dev)))"

definition outbox_row_ok :: "outbox_row \<Rightarrow> bool" where
  "outbox_row_ok r \<longleftrightarrow> ob_payload r \<noteq> None \<and> 0 \<le> ob_attempt_count r
     \<and> 0 \<le> ob_conflict_replay_count r \<and> ob_conflict_replay_count r \<le> 1
     \<and> (\<forall>b. ob_base_entity_revision r = Some b \<longrightarrow> 0 \<le> b \<and> b \<le> i64_max)"

definition outbox_inv :: "string \<Rightarrow> (string, favorite_row) table \<Rightarrow> outbox_row list \<Rightarrow> bool" where
  "outbox_inv dev favs rows \<longleftrightarrow> distinct (map ob_event_id rows) \<and> distinct (map ob_coalesce_key rows)
     \<and> (\<forall>r \<in> set rows. outbox_row_ok r \<and> intent_ok dev favs r)"

definition meta_ok :: "meta_row \<Rightarrow> bool" where
  "meta_ok m \<longleftrightarrow> 0 \<le> mt_last_server_revision m \<and> mt_last_server_revision m \<le> i64_max"

definition profile_inv :: "profile_db \<Rightarrow> bool" where
  "profile_inv db \<longleftrightarrow> tables_inv db \<and> (\<exists>m. profile_meta db = Some m \<and> meta_ok m
     \<and> outbox_inv (mt_device_id m) (favorites db) (sync_outbox db))"

section \<open>Reading a consistent Profile\<close>

lemma coalesce_keys [simp]:
  "favorite_coalesce_key k = favorite_coalesce_key k' \<longleftrightarrow> k = k'"
  "query_stats_coalesce_key k d = query_stats_coalesce_key k' d \<longleftrightarrow> k = k'"
  "favorite_coalesce_key k \<noteq> query_stats_coalesce_key k' d"
  "query_stats_coalesce_key k d \<noteq> favorite_coalesce_key k'"
  by (auto simp: favorite_coalesce_key_def query_stats_coalesce_key_def dest: to_hex_inj)

lemma to_hex_eq [simp]: "to_hex k = to_hex k' \<longleftrightarrow> k = k'"
  by (auto dest: to_hex_inj)

lemma parse_content_key_Inr: "parse_content_key s = Inr k \<longleftrightarrow> length k = 32 \<and> s = to_hex k"
  by (simp add: parse_content_key_def map_err_Inr content_key_from_str_Inr)

lemma parse_content_key_hex [simp]: "length k = 32 \<Longrightarrow> parse_content_key (to_hex k) = Inr k"
  by (simp add: parse_content_key_Inr)

lemma parse_kind_name [simp]: "parse_kind (protocol_name k) = Inr k"
  by (cases k) (simp_all add: parse_kind_def)

lemma protocol_name_cases: "protocol_name k = ''word'' \<or> protocol_name k = ''text''"
  by (cases k) simp_all

lemma parse_kind_Inr: "parse_kind v = Inr k \<longleftrightarrow> v = protocol_name k"
  by (cases k) (auto simp: parse_kind_def)

lemma parse_outbox_operation_Inr: "parse_outbox_operation v = Inr op \<longleftrightarrow> v = outbox_as_str op"
  by (cases op) (auto simp: parse_outbox_operation_def)

lemma sqlite_u64_Inr [res_simps]: "sqlite_u64 v = Inr n \<longleftrightarrow> v = int n"
  by (auto simp: sqlite_u64_def ok_or_Inr)

lemma sqlite_u64_int [simp]: "sqlite_u64 (int n) = Inr n"
  by (simp add: sqlite_u64_Inr)

lemma sqlite_i64_Inr [res_simps]: "sqlite_i64 n = Inr v \<longleftrightarrow> v = int n \<and> int n \<le> i64_max"
  by (auto simp: sqlite_i64_def ok_or_Inr)

text \<open>The value a well-formed row is read as.\<close>

definition kind_of :: "string \<Rightarrow> text_kind" where
  "kind_of v = (if v = ''word'' then Word else Text)"

definition lang_of :: "string \<Rightarrow> language_code" where
  "lang_of v = projr (parse_language_code v)"

definition favorite_of_row :: "content_key \<Rightarrow> favorite_row \<Rightarrow> favorite" where
  "favorite_of_row key row =
     \<lparr>fv_content = \<lparr>stc_content_key = key, stc_key_version = nat (rf_key_version row),
        stc_kind = kind_of (rf_kind row), stc_source_lang = lang_of (rf_source_lang row),
        stc_source_text = rf_source_text row, stc_canonical_text = rf_canonical_text row\<rparr>,
      fv_translation = \<lparr>ts_target_lang = lang_of (rf_target_lang row),
        ts_translation = rf_translation row, ts_provider = rf_provider row,
        ts_updated_at = rf_updated_at row\<rparr>,
      fv_created_at = rf_created_at row, fv_updated_at = rf_updated_at row,
      fv_deleted_at = rf_deleted_at row, fv_entity_revision = nat (rf_entity_revision row)\<rparr>"

definition stats_of_row :: "stats_row \<Rightarrow> query_stats" where
  "stats_of_row row =
     \<lparr>qs_device_query_count = nat (sr_device_query_count row),
      qs_first_queried_at = sr_first_queried_at row, qs_last_queried_at = sr_last_queried_at row,
      qs_last_synced_device_query_count = nat (sr_last_synced_device_query_count row),
      qs_server_total_query_count = nat (sr_server_total_query_count row),
      qs_server_first_queried_at = sr_server_first_queried_at row,
      qs_server_last_queried_at = sr_server_last_queried_at row,
      qs_server_snapshot_at = sr_server_snapshot_at row\<rparr>"

lemma lang_text_parse: "lang_text l \<Longrightarrow> parse_language l = Inr (lang_of l)"
  unfolding lang_text_def parse_language_def lang_of_def by (cases "parse_language_code l") auto

lemma kind_text_parse: "v = ''word'' \<or> v = ''text'' \<Longrightarrow> parse_kind v = Inr (kind_of v)"
  by (auto simp: parse_kind_def kind_of_def)

lemma parse_favorite_ok:
  "favorite_row_ok row \<Longrightarrow> length key = 32 \<Longrightarrow> parse_favorite (to_hex key) row = Inr (favorite_of_row key row)"
  by (simp add: parse_favorite_def favorite_row_ok_def lang_text_parse kind_text_parse
      favorite_of_row_def u32_of_i64_def sqlite_u64_def u64_of_i64_def)

lemma parse_query_stats_ok: "stats_row_ok row \<Longrightarrow> parse_query_stats row = Inr (stats_of_row row)"
  by (simp add: parse_query_stats_def stats_row_ok_def stats_of_row_def sqlite_u64_def u64_of_i64_def)

lemma favorite_by_key_ok:
  assumes "tables_inv db" and "length key = 32"
  shows "favorite_by_key db key = Inr (map_option (favorite_of_row key) (tbl_get (favorites db) (to_hex key)))"
  using assms
  by (cases "tbl_get (favorites db) (to_hex key)")
     (auto simp: favorite_by_key_def tables_inv_def parse_favorite_ok)

lemma query_stats_tx_ok:
  assumes "tables_inv db"
  shows "query_stats_tx db key = Inr (map_option stats_of_row (tbl_get (stats_table db) (to_hex key)))"
  using assms
  by (cases "tbl_get (stats_table db) (to_hex key)")
     (auto simp: query_stats_tx_def tables_inv_def parse_query_stats_ok)

section \<open>The Outbox as a set of intents\<close>

lemma outbox_find_Some:
  "distinct (map ob_coalesce_key (sync_outbox db)) \<Longrightarrow>
     outbox_find db ck = Some r \<longleftrightarrow> r \<in> set (sync_outbox db) \<and> ob_coalesce_key r = Some ck"
proof
  assume "outbox_find db ck = Some r"
  then show "r \<in> set (sync_outbox db) \<and> ob_coalesce_key r = Some ck"
    by (auto simp: outbox_find_def find_Some_iff)
next
  assume d: "distinct (map ob_coalesce_key (sync_outbox db))"
    and r: "r \<in> set (sync_outbox db) \<and> ob_coalesce_key r = Some ck"
  show "outbox_find db ck = Some r" unfolding outbox_find_def
  proof (rule find_unique)
    fix y assume "y \<in> set (sync_outbox db)" "ob_coalesce_key y = Some ck"
    with r d show "y = r" by (metis distinct_map inj_onD)
  qed (use r in auto)
qed

lemma outbox_find_None:
  "outbox_find db ck = None \<longleftrightarrow> (\<forall>r \<in> set (sync_outbox db). ob_coalesce_key r \<noteq> Some ck)"
  by (auto simp: outbox_find_def find_None_iff)

lemma outbox_inv_filter: "outbox_inv dev favs rows \<Longrightarrow> outbox_inv dev favs (filter P rows)"
  by (auto simp: outbox_inv_def distinct_map_filter)

text \<open>An update of rows that keeps their identity, operation and well-formedness.\<close>

lemma outbox_inv_map:
  assumes "outbox_inv dev favs rows"
    and "\<And>r. ob_event_id (f r) = ob_event_id r \<and> ob_coalesce_key (f r) = ob_coalesce_key r
           \<and> ob_content_key (f r) = ob_content_key r \<and> ob_operation (f r) = ob_operation r"
    and "\<And>r. r \<in> set rows \<Longrightarrow> outbox_row_ok r \<Longrightarrow> outbox_row_ok (f r)"
  shows "outbox_inv dev favs (map f rows)"
  using assms by (auto simp: outbox_inv_def comp_def intent_ok_def)

text \<open>Favorites may change where no intent depends on the change.\<close>

lemma outbox_inv_favorites:
  assumes "outbox_inv dev favs rows"
    and "\<And>key fr. tbl_get favs (to_hex key) = Some fr \<Longrightarrow>
           (\<exists>fr'. tbl_get favs' (to_hex key) = Some fr' \<and> (rf_deleted_at fr' = None \<longleftrightarrow> rf_deleted_at fr = None))
           \<or> tbl_has favs' (to_hex key) \<and> (\<forall>r \<in> set rows. ob_coalesce_key r \<noteq> Some (favorite_coalesce_key key))"
  shows "outbox_inv dev favs' rows"
  unfolding outbox_inv_def
proof (intro conjI ballI)
  show "distinct (map ob_event_id rows)" "distinct (map ob_coalesce_key rows)"
    using assms(1) by (simp_all add: outbox_inv_def)
  fix r assume r: "r \<in> set rows"
  with assms(1) show "outbox_row_ok r" by (simp add: outbox_inv_def)
  from r assms(1) obtain key fr where k: "length key = 32" "ob_content_key r = to_hex key"
      "tbl_get favs (to_hex key) = Some fr" and
     d: "ob_operation r = ''favorite_upsert'' \<and> ob_coalesce_key r = Some (favorite_coalesce_key key)
        \<and> rf_deleted_at fr = None
      \<or> ob_operation r = ''favorite_delete'' \<and> ob_coalesce_key r = Some (favorite_coalesce_key key)
        \<and> rf_deleted_at fr \<noteq> None
      \<or> ob_operation r = ''query_stats_upsert''
        \<and> ob_coalesce_key r = Some (query_stats_coalesce_key key dev)"
    unfolding outbox_inv_def intent_ok_def by blast
  from assms(2) [OF k(3)] show "intent_ok dev favs' r"
  proof
    assume "\<exists>fr'. tbl_get favs' (to_hex key) = Some fr' \<and> (rf_deleted_at fr' = None \<longleftrightarrow> rf_deleted_at fr = None)"
    with k d show ?thesis unfolding intent_ok_def by metis
  next
    assume "tbl_has favs' (to_hex key) \<and> (\<forall>r \<in> set rows. ob_coalesce_key r \<noteq> Some (favorite_coalesce_key key))"
    with r d k show ?thesis unfolding intent_ok_def tbl_has_get by blast
  qed
qed

section \<open>Operations keep a Profile consistent\<close>

lemma outbox_inv_append:
  assumes "outbox_inv dev favs rows" and "ob_event_id row \<notin> ob_event_id ` set rows"
    and "ob_coalesce_key row \<notin> ob_coalesce_key ` set rows"
    and "outbox_row_ok row" and "intent_ok dev favs row"
  shows "outbox_inv dev favs (rows @ [row])"
  using assms by (auto simp: outbox_inv_def)

lemma outbox_inv_replace:
  assumes inv: "outbox_inv dev favs0 rows" and old: "old \<in> set rows" "ob_coalesce_key old = ck"
    and others: "\<And>r. r \<in> set rows \<Longrightarrow> ob_coalesce_key r \<noteq> ck \<Longrightarrow> intent_ok dev favs r"
    and keeps: "ob_coalesce_key (g old) = ck" and ok: "outbox_row_ok (g old)" "intent_ok dev favs (g old)"
    and fresh: "\<And>r. r \<in> set rows \<Longrightarrow> r \<noteq> old \<Longrightarrow> ob_event_id r \<noteq> ob_event_id (g old)"
  shows "outbox_inv dev favs (map (\<lambda>r. if ob_coalesce_key r = ck then g r else r) rows)"
proof -
  let ?f = "\<lambda>r. if ob_coalesce_key r = ck then g r else r"
  have d: "distinct rows" "inj_on ob_event_id (set rows)" "inj_on ob_coalesce_key (set rows)"
    using inv by (simp_all add: outbox_inv_def distinct_map)
  have f: "?f r = (if r = old then g old else r)" if "r \<in> set rows" for r
    using that old inj_onD [OF d(3)] by auto
  have ids: "inj_on (ob_event_id \<circ> ?f) (set rows)"
  proof (rule inj_onI)
    fix x y assume xy: "x \<in> set rows" "y \<in> set rows" and eq: "(ob_event_id \<circ> ?f) x = (ob_event_id \<circ> ?f) y"
    from eq have "ob_event_id (if x = old then g old else x) = ob_event_id (if y = old then g old else y)"
      using f xy by (simp only: comp_def)
    then show "x = y" using fresh [OF xy(1)] fresh [OF xy(2)] inj_onD [OF d(2) _ xy] by (auto split: if_splits)
  qed
  have "map ob_coalesce_key (map ?f rows) = map ob_coalesce_key rows"
    using f keeps old(2) by (auto simp: comp_def)
  moreover have "distinct (map ob_event_id (map ?f rows))"
    using ids d(1) by (simp only: map_map distinct_map)
  moreover have "\<forall>r \<in> set (map ?f rows). outbox_row_ok r \<and> intent_ok dev favs r"
    using inv ok f others old inj_onD [OF d(3)] by (auto simp: outbox_inv_def)
  ultimately show ?thesis using inv by (simp only: outbox_inv_def)
qed

text \<open>The shape of a new intent that the Outbox accepts.\<close>

definition intent_shape :: "string \<Rightarrow> favorite_row \<Rightarrow> pending_outbox \<Rightarrow> bool" where
  "intent_shape dev fr ev \<longleftrightarrow>
     po_operation ev = OutFavoriteUpsert \<and> po_coalesce_key ev = favorite_coalesce_key (po_key ev)
       \<and> rf_deleted_at fr = None
     \<or> po_operation ev = OutFavoriteDelete \<and> po_coalesce_key ev = favorite_coalesce_key (po_key ev)
       \<and> rf_deleted_at fr \<noteq> None
     \<or> po_operation ev = OutQueryStatsUpsert \<and> po_coalesce_key ev = query_stats_coalesce_key (po_key ev) dev"

text \<open>The Outbox after coalescing differs from the old one only under the event's key; other intents
  for the favorite are gone.\<close>

lemma upsert_outbox_inv:
  assumes inv: "outbox_inv dev favs0 (sync_outbox db)" and ok: "upsert_outbox db ev = Inr db'"
    and len: "length (po_key ev) = 32" and fr: "tbl_get favs (to_hex (po_key ev)) = Some fr"
    and shape: "intent_shape dev fr ev"
    and others: "\<And>r. r \<in> set (sync_outbox db) \<Longrightarrow> ob_coalesce_key r \<noteq> Some (po_coalesce_key ev) \<Longrightarrow>
                   intent_ok dev favs r"
  shows "outbox_inv dev favs (sync_outbox db') \<and> (\<exists>rows. db' = db\<lparr>sync_outbox := rows\<rparr>)"
proof -
  obtain revision where rev: "opt_transpose sqlite_i64 (po_revision ev) = Inr revision"
    using ok by (auto simp: upsert_outbox_def rbind_Inr)
  have rev_ok: "\<forall>b. revision = Some b \<longrightarrow> 0 \<le> b \<and> b \<le> i64_max"
    using rev by (cases "po_revision ev") (auto simp: rbind_Inr sqlite_i64_Inr)
  have dist: "distinct (map ob_coalesce_key (sync_outbox db))" using inv by (simp add: outbox_inv_def)
  show ?thesis
  proof (cases "outbox_find db (po_coalesce_key ev)")
    case None
    let ?row = "\<lparr>ob_event_id = po_event_id ev, ob_content_key = to_hex (po_key ev),
               ob_operation = outbox_as_str (po_operation ev),
               ob_payload = Some (po_payload ev), ob_coalesce_key = Some (po_coalesce_key ev),
               ob_base_entity_revision = revision, ob_created_at = po_now ev,
               ob_updated_at = po_now ev, ob_attempt_count = 0, ob_next_retry_at = None,
               ob_last_error = None, ob_conflict_replay_count = 0\<rparr>"
    from ok rev None have db': "db' = db\<lparr>sync_outbox := sync_outbox db @ [?row]\<rparr>"
      and fresh: "\<not> outbox_has_event db (po_event_id ev)"
      by (auto simp: upsert_outbox_def split: if_splits)
    have "outbox_inv dev favs (sync_outbox db)"
      using inv others None by (auto simp: outbox_inv_def outbox_find_None)
    moreover have "intent_ok dev favs ?row"
      using shape len fr unfolding intent_ok_def intent_shape_def by auto
    moreover have "outbox_row_ok ?row" using rev_ok by (simp add: outbox_row_ok_def)
    ultimately show ?thesis using fresh None unfolding db'
      by (auto intro!: outbox_inv_append simp: outbox_has_event_def list_ex_iff outbox_find_None)
  next
    case (Some old)
    let ?g = "\<lambda>r. r\<lparr>ob_event_id := po_event_id ev, ob_operation := outbox_as_str (po_operation ev),
                    ob_payload := Some (po_payload ev), ob_base_entity_revision := revision,
                    ob_updated_at := po_now ev, ob_attempt_count := 0,
                    ob_next_retry_at := None, ob_last_error := None\<rparr>"
    let ?rest = "map (\<lambda>r. if ob_coalesce_key r = Some (po_coalesce_key ev) then ?g r else r) (sync_outbox db)"
    from ok rev Some have db': "db' = db\<lparr>sync_outbox := ?rest\<rparr>"
      and fresh: "\<And>r. r \<in> set (sync_outbox db) \<Longrightarrow> ob_event_id r = po_event_id ev \<Longrightarrow>
          ob_coalesce_key r = Some (po_coalesce_key ev)"
      by (auto simp: upsert_outbox_def list_ex_iff split: if_splits)
    have old: "old \<in> set (sync_outbox db)" "ob_coalesce_key old = Some (po_coalesce_key ev)"
      using Some dist by (simp_all add: outbox_find_Some)
    have key: "ob_content_key old = to_hex (po_key ev)"
      using old inv shape unfolding outbox_inv_def intent_ok_def intent_shape_def by fastforce
    have new: "intent_ok dev favs (?g old)" "outbox_row_ok (?g old)"
      using shape len fr old inv rev_ok key
      unfolding intent_ok_def intent_shape_def outbox_inv_def outbox_row_ok_def by auto
    have "outbox_inv dev favs ?rest"
    proof (rule outbox_inv_replace [OF inv old others])
      show "ob_event_id r \<noteq> ob_event_id (?g old)" if "r \<in> set (sync_outbox db)" "r \<noteq> old" for r
        using that fresh [of r] old dist by (simp add: distinct_map) (metis inj_onD)
    qed (use new old in simp_all)
    then show ?thesis unfolding db' by auto
  qed
qed

text \<open>The ranges of the Rust types of a history entry: a 32-byte key, a \<open>u32\<close> version and language
  codes that were parsed.\<close>

definition history_entry_typed :: "history_entry \<Rightarrow> bool" where
  "history_entry_typed e \<longleftrightarrow> length (stc_content_key (he_content e)) = 32
     \<and> stc_key_version (he_content e) \<le> u32_max \<and> lang_text (stc_source_lang (he_content e))
     \<and> lang_text (ts_target_lang (he_translation e))"

lemma profile_invE:
  assumes "profile_inv db"
  obtains m where "tables_inv db" "profile_meta db = Some m" "meta_ok m"
    "outbox_inv (mt_device_id m) (favorites db) (sync_outbox db)"
  using assms by (auto simp: profile_inv_def)

lemma count_query_cases:
  assumes "count_query db k at = Inr db'"
  obtains (fresh) "tbl_get (stats_table db) k = None"
      "db' = db\<lparr>stats_table := tbl_put k
          \<lparr>sr_device_query_count = 1, sr_first_queried_at = at, sr_last_queried_at = at,
           sr_last_synced_device_query_count = 0, sr_server_total_query_count = 0,
           sr_server_first_queried_at = None, sr_server_last_queried_at = None,
           sr_server_snapshot_at = None\<rparr> (stats_table db)\<rparr>"
  | (counted) row where "tbl_get (stats_table db) k = Some row" "sr_device_query_count row < i64_max"
      "db' = db\<lparr>stats_table := tbl_modify k
        (\<lambda>r. r\<lparr>sr_device_query_count := sr_device_query_count row + 1, sr_last_queried_at := at\<rparr>)
        (stats_table db)\<rparr>"
proof (cases "tbl_get (stats_table db) k")
  case None
  with assms show thesis by (intro fresh) (simp_all add: count_query_def)
next
  case (Some row)
  with assms show thesis by (intro counted [OF Some]) (auto simp: count_query_def res_simps)
qed

lemma count_query_tables:
  assumes "count_query db k at = Inr db'" and "tables_inv db" and "key_text k"
  shows "tables_inv db'" and "tbl_has (stats_table db') k"
    and "profile_meta db' = profile_meta db \<and> favorites db' = favorites db
         \<and> sync_outbox db' = sync_outbox db \<and> history_entries db' = history_entries db"
  using assms(1)
proof (atomize (full), cases rule: count_query_cases)
  case fresh
  with assms(2) show "tables_inv db' \<and> tbl_has (stats_table db') k \<and>
      profile_meta db' = profile_meta db \<and> favorites db' = favorites db
         \<and> sync_outbox db' = sync_outbox db \<and> history_entries db' = history_entries db"
    by (auto simp: tables_inv_def stats_row_ok_def i64_max_def)
next
  case (counted row)
  with assms(2) show "tables_inv db' \<and> tbl_has (stats_table db') k \<and>
      profile_meta db' = profile_meta db \<and> favorites db' = favorites db
         \<and> sync_outbox db' = sync_outbox db \<and> history_entries db' = history_entries db"
    by (auto simp: tables_inv_def stats_row_ok_def tbl_has_get)
qed

text \<open>Counting comes first in the proof, since a history row needs its statistics; the two writes
  touch different tables.\<close>

lemma upsert_history_count:
  "count_query (upsert_history db e) k at = Inr db2 \<Longrightarrow>
     \<exists>db1. count_query db k at = Inr db1 \<and> db2 = upsert_history db1 e"
  by (erule count_query_cases) (simp_all add: upsert_history_def Let_def count_query_def sql_succ_def)

lemma record_query_tables:
  assumes "profile_inv db" and "history_entry_typed e"
    and "count_query (upsert_history db e) (to_hex (stc_content_key (he_content e))) at = Inr db2"
  shows "profile_inv db2" and "favorites db2 = favorites db"
proof -
  let ?k = "to_hex (stc_content_key (he_content e))"
  from upsert_history_count [OF assms(3)] obtain db1 where c: "count_query db ?k at = Inr db1"
    and db2: "db2 = upsert_history db1 e" by blast
  have key: "key_text ?k" using assms(2) by (auto simp: history_entry_typed_def key_text_def)
  obtain m where inv: "tables_inv db" and m: "profile_meta db = Some m" "meta_ok m"
    and out: "outbox_inv (mt_device_id m) (favorites db) (sync_outbox db)"
    using assms(1) by (rule profile_invE)
  note ct = count_query_tables [OF c inv key]
  have "tables_inv db2"
    using ct assms(2) key unfolding db2
    by (auto simp: tables_inv_def upsert_history_def Let_def history_row_ok_def history_entry_typed_def
        protocol_name_cases)
  with ct m out show "profile_inv db2" "favorites db2 = favorites db"
    by (simp_all add: profile_inv_def db2 upsert_history_def Let_def)
qed

lemma upsert_query_stats_event_inv:
  assumes "profile_inv db" and "upsert_query_stats_event db key stats now eid = Inr db'"
    and "length key = 32" and "tbl_has (favorites db) (to_hex key)"
  shows "profile_inv db'"
proof -
  obtain m where inv: "tables_inv db" "profile_meta db = Some m" "meta_ok m"
    "outbox_inv (mt_device_id m) (favorites db) (sync_outbox db)"
    using assms(1) by (rule profile_invE)
  obtain fr where fr: "tbl_get (favorites db) (to_hex key) = Some fr" using assms(4) by (auto simp: tbl_has_get)
  from assms(2) inv(2) have up: "upsert_outbox db \<lparr>po_event_id = eid, po_key = key,
      po_operation = OutQueryStatsUpsert, po_payload = StatsPayload (stats_payload key stats),
      po_coalesce_key = query_stats_coalesce_key key (mt_device_id m), po_revision = None, po_now = now\<rparr> = Inr db'"
    by (simp add: upsert_query_stats_event_def profile_device_id_def)
  have "outbox_inv (mt_device_id m) (favorites db) (sync_outbox db') \<and> (\<exists>rows. db' = db\<lparr>sync_outbox := rows\<rparr>)"
    by (rule upsert_outbox_inv [OF inv(4) up]) (use assms(3) fr inv(4) in \<open>auto simp: intent_shape_def outbox_inv_def\<close>)
  with inv show ?thesis by (auto simp: profile_inv_def tables_inv_def)
qed

lemma record_successful_query_inv:
  assumes "profile_inv db" and "history_entry_typed e" and "record_successful_query db e eid = Inr (stats, db')"
  shows "profile_inv db'"
proof -
  let ?key = "stc_content_key (he_content e)"
  from assms(3) obtain db2 where c: "count_query (upsert_history db e) (to_hex ?key) (he_last_queried_at e) = Inr db2"
    and rest: "(if tbl_has (favorites db2) (to_hex ?key)
             then upsert_query_stats_event db2 ?key stats (he_last_queried_at e) eid else Inr db2) = Inr db'"
    by (auto simp: record_successful_query_def Let_def rbind_Inr ok_or_Inr)
  have inv2: "profile_inv db2" using record_query_tables [OF assms(1,2) c] by simp
  have "length ?key = 32" using assms(2) by (simp add: history_entry_typed_def)
  with rest inv2 show ?thesis by (auto split: if_splits intro: upsert_query_stats_event_inv)
qed

lemma history_by_key_typed:
  assumes "tables_inv db" and "history_by_key db key = Inr (Some h)" and "length key = 32"
  shows "stc_key_version (he_content h) \<le> u32_max \<and> lang_text (stc_source_lang (he_content h))
     \<and> lang_text (ts_target_lang (he_translation h))"
proof -
  from assms(2) obtain row where p: "parse_history (to_hex key) row = Inr h"
    by (auto simp: history_by_key_def opt_transpose_Inr)
  then obtain l1 l2 where "stc_source_lang (he_content h) = l1" "parse_language_code (hr_source_lang row) = Inr l1"
    "ts_target_lang (he_translation h) = l2" "parse_language_code (hr_target_lang row) = Inr l2"
    "stc_key_version (he_content h) \<le> u32_max"
    by (auto simp: parse_history_def rbind_Inr ok_or_Inr parse_language_def map_err_Inr)
  moreover from this(2,4) have "parse_language_code l1 = Inr l1" "parse_language_code l2 = Inr l2"
    by (blast intro: parse_language_code_stable)+
  ultimately show ?thesis by (simp add: lang_text_def)
qed

text \<open>Rewriting a favorite leaves the intents of other keys, and query counts of the same key, valid.\<close>

lemma intent_ok_put:
  assumes "intent_ok dev favs r" and "ob_coalesce_key r \<noteq> Some (favorite_coalesce_key key)"
  shows "intent_ok dev (tbl_put (to_hex key) row favs) r"
proof -
  from assms(1) obtain k fr where k: "length k = 32" "ob_content_key r = to_hex k" "tbl_get favs (to_hex k) = Some fr"
    and d: "ob_operation r = ''favorite_upsert'' \<and> ob_coalesce_key r = Some (favorite_coalesce_key k)
        \<and> rf_deleted_at fr = None
      \<or> ob_operation r = ''favorite_delete'' \<and> ob_coalesce_key r = Some (favorite_coalesce_key k)
        \<and> rf_deleted_at fr \<noteq> None
      \<or> ob_operation r = ''query_stats_upsert''
        \<and> ob_coalesce_key r = Some (query_stats_coalesce_key k dev)"
    unfolding intent_ok_def by blast
  show ?thesis
  proof (cases "k = key")
    case True
    with d assms(2) have "ob_operation r = ''query_stats_upsert''
        \<and> ob_coalesce_key r = Some (query_stats_coalesce_key key dev)" by auto
    with k True show ?thesis by (auto simp: intent_ok_def)
  next
    case False
    then have "tbl_get (tbl_put (to_hex key) row favs) (to_hex k) = Some fr" using k(3) by simp
    with k(1,2) d show ?thesis unfolding intent_ok_def by blast
  qed
qed

lemma tbl_modify_as_put:
  "tbl_get t k = Some v \<Longrightarrow> tbl_get (tbl_modify k f t) = tbl_get (tbl_put k (f v) t)"
  by (auto simp: fun_eq_iff)

lemma intent_ok_cong: "tbl_get favs = tbl_get favs' \<Longrightarrow> intent_ok dev favs r = intent_ok dev favs' r"
  by (simp add: intent_ok_def)

lemma outbox_inv_cong: "tbl_get favs = tbl_get favs' \<Longrightarrow> outbox_inv dev favs rows = outbox_inv dev favs' rows"
  by (simp add: outbox_inv_def intent_ok_def)

lemma favorite_write_inv:
  assumes inv: "profile_inv db" and len: "length key = 32" and "tbl_has (stats_table db) (to_hex key)"
    and typed: "stc_key_version (he_content h) \<le> u32_max" "lang_text (stc_source_lang (he_content h))"
      "lang_text (ts_target_lang (he_translation h))"
    and ok: "favorite_write db key h n stats now eid = Inr (f, db')"
  shows "profile_inv db'"
proof -
  obtain m where t: "tables_inv db" and m: "profile_meta db = Some m" "meta_ok m"
    and out: "outbox_inv (mt_device_id m) (favorites db) (sync_outbox db)"
    using inv by (rule profile_invE)
  let ?row = "\<lparr>rf_key_version = int (stc_key_version (he_content h)), rf_kind = protocol_name (stc_kind (he_content h)),
             rf_source_lang = stc_source_lang (he_content h), rf_target_lang = ts_target_lang (he_translation h),
             rf_source_text = stc_source_text (he_content h), rf_canonical_text = stc_canonical_text (he_content h),
             rf_translation = ts_translation (he_translation h), rf_provider = ts_provider (he_translation h),
             rf_created_at = now, rf_updated_at = now, rf_deleted_at = None,
             rf_entity_revision = (case tbl_get (favorites db) (to_hex key) of
                None \<Rightarrow> int n | Some old \<Rightarrow> rf_entity_revision old)\<rparr>"
  let ?db1 = "db\<lparr>favorites := tbl_put (to_hex key) ?row (favorites db)\<rparr>"
  from ok have i64: "int n \<le> i64_max"
    and up: "upsert_favorite_event ?db1 key ''active'' n stats now OutFavoriteUpsert eid = Inr db'"
    by (auto simp: favorite_write_def Let_def rbind_Inr sqlite_i64_Inr)
  have row_ok: "favorite_row_ok ?row"
    using typed i64 t by (auto simp: favorite_row_ok_def protocol_name_cases tables_inv_def split: option.splits)
  then have t1: "tables_inv ?db1"
    using t len assms(3) by (auto simp: tables_inv_def key_text_def)
  have "outbox_inv (mt_device_id m) (favorites ?db1) (sync_outbox db') \<and> (\<exists>rows. db' = ?db1\<lparr>sync_outbox := rows\<rparr>)"
  proof (rule upsert_outbox_inv [OF _ up [unfolded upsert_favorite_event_def], where fr = ?row])
    show "outbox_inv (mt_device_id m) (favorites db) (sync_outbox ?db1)" using out by simp
  next
    fix r assume r: "r \<in> set (sync_outbox ?db1)"
      and "ob_coalesce_key r \<noteq> Some (po_coalesce_key \<lparr>po_event_id = eid, po_key = key,
       po_operation = OutFavoriteUpsert, po_payload = FavoritePayload \<lparr>fp_content_key = to_hex key,
         fp_desired_state = ''active'', fp_base_entity_revision = n, fp_query_stats = stats_payload key stats\<rparr>,
       po_coalesce_key = favorite_coalesce_key key, po_revision = Some n, po_now = now\<rparr>)"
    then have "ob_coalesce_key r \<noteq> Some (favorite_coalesce_key key)" by simp
    moreover from r out have "intent_ok (mt_device_id m) (favorites db) r" by (simp add: outbox_inv_def)
    ultimately show "intent_ok (mt_device_id m) (favorites ?db1) r"
      using intent_ok_put by simp
  qed (use len in \<open>simp_all add: intent_shape_def\<close>)
  with t1 m show ?thesis by (auto simp: profile_inv_def tables_inv_def)
qed

lemma favorite_from_history_inv:
  assumes inv: "profile_inv db" and len: "length key = 32"
    and ok: "favorite_from_history_tx db key now eid = Inr (f, db')"
  shows "profile_inv db'"
proof -
  from ok obtain h stats ex where h: "history_by_key db key = Inr (Some h)"
    and s: "query_stats_tx db key = Inr (Some stats)" and ex: "favorite_by_key db key = Inr ex"
    by (auto simp: favorite_from_history_tx_def rbind_Inr ok_or_Inr)
  have t: "tables_inv db" using inv by (rule profile_invE)
  have st: "tbl_has (stats_table db) (to_hex key)"
    using s by (auto simp: query_stats_tx_def opt_transpose_Inr tbl_has_get)
  note ty = history_by_key_typed [OF t h len]
  from ok h s ex have "db' = db \<or> (\<exists>n. favorite_write db key h n stats now eid = Inr (f, db'))"
    by (auto simp: favorite_from_history_tx_def split: option.splits if_splits)
  then show ?thesis using inv favorite_write_inv [OF inv len st] ty by blast
qed

lemma favorite_content_inv:
  assumes "profile_inv db" and "length key = 32" and "favorite_content db key now eid = (r, db')"
  shows "profile_inv db'"
  using assms by (auto simp: favorite_content_def split: sum.splits intro: favorite_from_history_inv)

lemma profile_inv_outbox_filter:
  "profile_inv db \<Longrightarrow> profile_inv (db\<lparr>sync_outbox := filter P (sync_outbox db)\<rparr>)"
  by (auto simp: profile_inv_def tables_inv_def outbox_inv_filter)

text \<open>A tombstone with its intent: the deletion replaces whatever was pending for the favorite.\<close>

lemma unfavorite_tx_inv:
  assumes inv: "profile_inv db" and len: "length key = 32"
    and ok: "unfavorite_tx db key now eid = Inr (res, db')"
  shows "profile_inv db'"
proof -
  obtain m where t: "tables_inv db" and m: "profile_meta db = Some m" "meta_ok m"
    and out: "outbox_inv (mt_device_id m) (favorites db) (sync_outbox db)"
    using inv by (rule profile_invE)
  from ok obtain fav where fav: "favorite_by_key db key = Inr (Some fav)"
    by (auto simp: unfavorite_tx_def rbind_Inr ok_or_Inr)
  then obtain row where row: "tbl_get (favorites db) (to_hex key) = Some row" "fav = favorite_of_row key row"
    using favorite_by_key_ok [OF t len] by auto
  show ?thesis
  proof (cases "fv_deleted_at fav = None")
    case False
    with ok fav have "db' = db" by (auto simp: unfavorite_tx_def)
    with inv show ?thesis by simp
  next
    case True
    let ?dead = "\<lambda>r. r\<lparr>rf_updated_at := now, rf_deleted_at := Some now\<rparr>"
    let ?favs = "tbl_modify (to_hex key) ?dead (favorites db)"
    let ?qk = "query_stats_coalesce_key key (mt_device_id m)"
    let ?db1 = "db\<lparr>favorites := ?favs\<rparr>"
    let ?db2 = "outbox_delete ?qk ?db1"
    have get: "tbl_get ?favs = tbl_get (tbl_put (to_hex key) (?dead row) (favorites db))"
      using row(1) by (rule tbl_modify_as_put)
    have t1: "tables_inv ?db1" using t row(1) by (auto simp: tables_inv_def favorite_row_ok_def)
    have others: "intent_ok (mt_device_id m) ?favs r"
      if "r \<in> set (sync_outbox db)" "ob_coalesce_key r \<noteq> Some (favorite_coalesce_key key)" for r
      using that out intent_ok_put by (auto simp: intent_ok_cong [OF get] outbox_inv_def)
    have out2: "outbox_inv (mt_device_id m) (favorites db) (sync_outbox ?db2)"
      using out by (simp add: outbox_delete_def outbox_inv_filter)
    from ok fav True m obtain stats where rest:
      "(if fv_entity_revision fav = 0 then Inr (None, outbox_delete (favorite_coalesce_key key) ?db2)
        else rbind (upsert_favorite_event ?db2 key ''deleted'' (fv_entity_revision fav) stats now
                   OutFavoriteDelete eid) (\<lambda>db3. Inr (None, db3))) = Inr (res, db')"
      by (auto simp: unfavorite_tx_def rbind_Inr ok_or_Inr profile_device_id_def Let_def)
    show ?thesis
    proof (cases "fv_entity_revision fav = 0")
      case True
      then have db': "db' = outbox_delete (favorite_coalesce_key key) ?db2" using rest by simp
      have "outbox_inv (mt_device_id m) ?favs (sync_outbox db')"
        using out others unfolding db' outbox_delete_def outbox_inv_def
        by (auto intro: distinct_map_filter)
      with t1 m show ?thesis by (auto simp: profile_inv_def tables_inv_def db' outbox_delete_def)
    next
      case False
      then have up: "upsert_favorite_event ?db2 key ''deleted'' (fv_entity_revision fav) stats now
                   OutFavoriteDelete eid = Inr db'" using rest by (auto simp: rbind_Inr)
      have "outbox_inv (mt_device_id m) ?favs (sync_outbox db') \<and> (\<exists>rows. db' = ?db2\<lparr>sync_outbox := rows\<rparr>)"
        by (rule upsert_outbox_inv [OF out2 up [unfolded upsert_favorite_event_def], where fr = "?dead row"])
           (use len row(1) others in \<open>auto simp: intent_shape_def outbox_delete_def\<close>)
      with t1 m show ?thesis by (auto simp: profile_inv_def tables_inv_def outbox_delete_def)
    qed
  qed
qed

lemma unfavorite_inv:
  assumes "profile_inv db" and "length key = 32" and "unfavorite db key now eid = (r, db')"
  shows "profile_inv db'"
  using assms by (auto simp: unfavorite_def split: sum.splits option.splits intro: unfavorite_tx_inv)

text \<open>Only the revision of a favorite changes.\<close>

lemma tables_inv_entity_revision:
  assumes "tables_inv db" and "0 \<le> n" and "n \<le> i64_max"
  shows "tables_inv (db\<lparr>favorites := tbl_modify k (\<lambda>r. r\<lparr>rf_entity_revision := n\<rparr>) (favorites db)\<rparr>)"
proof -
  have "favorite_row_ok r \<Longrightarrow> favorite_row_ok (r\<lparr>rf_entity_revision := n\<rparr>)" for r
    using assms(2,3) by (simp add: favorite_row_ok_def)
  with assms(1) show ?thesis by (auto simp: tables_inv_def)
qed

lemma outbox_inv_entity_revision:
  assumes "outbox_inv dev favs rows"
  shows "outbox_inv dev (tbl_modify k (\<lambda>r. r\<lparr>rf_entity_revision := n\<rparr>) favs) rows"
  by (rule outbox_inv_favorites [OF assms]) auto

lemma acknowledge_favorite_inv:
  assumes "profile_inv db" and "acknowledge_favorite db key n = Inr db'"
  shows "profile_inv db'"
proof -
  from assms(2) have i: "int n \<le> i64_max" and db': "db' = outbox_delete (favorite_coalesce_key key)
          (db\<lparr>favorites := tbl_modify (to_hex key) (\<lambda>r. r\<lparr>rf_entity_revision := int n\<rparr>) (favorites db)\<rparr>)"
    by (auto simp: acknowledge_favorite_def rbind_Inr sqlite_i64_Inr split: if_splits)
  have "profile_inv (db\<lparr>favorites := tbl_modify (to_hex key) (\<lambda>r. r\<lparr>rf_entity_revision := int n\<rparr>) (favorites db)\<rparr>)"
    using assms(1) i by (auto simp: profile_inv_def tables_inv_entity_revision outbox_inv_entity_revision)
  then show ?thesis unfolding db' outbox_delete_def by (rule profile_inv_outbox_filter)
qed

lemma clear_history_inv: "profile_inv db \<Longrightarrow> profile_inv (clear_history db)"
  by (auto simp: profile_inv_def clear_history_def tables_inv_def tbl_has_get tbl_get_keep
      split: option.splits if_splits) (metis option.distinct(1) option.exhaust)

lemma profile_inv_meta:
  assumes "profile_inv db" and "profile_meta db' = map_option f (profile_meta db)"
    and "\<And>m. meta_ok m \<Longrightarrow> meta_ok (f m)" and "\<And>m. mt_device_id (f m) = mt_device_id m"
    and "history_entries db' = history_entries db" and "stats_table db' = stats_table db"
    and "favorites db' = favorites db" and "sync_outbox db' = sync_outbox db"
  shows "profile_inv db'"
  using assms by (auto simp: profile_inv_def tables_inv_def)

lemma bind_user_inv:
  assumes "profile_inv db" and "bind_user db user name origin now = Inr db'"
  shows "profile_inv db'"
  using assms by (auto simp: bind_user_def profile_inv_def tables_inv_def meta_ok_def split: if_splits option.splits)

lemma update_account_identity_inv:
  assumes "profile_inv db" and "update_account_identity up db user name origin now = Inr db'"
  shows "profile_inv db'"
  using assms
  by (auto simp: update_account_identity_def rbind_Inr profile_inv_def tables_inv_def meta_ok_def split: if_splits)

lemma open_profile_inv:
  assumes "db = migrated_profile_db \<or> profile_inv db" and "open_profile db m = Inr db'"
  shows "profile_inv db'"
proof (cases "profile_meta db")
  case None
  with assms(1) have "db = migrated_profile_db" by (auto simp: profile_inv_def)
  with assms(2) show ?thesis
    by (auto simp: open_profile_def upsert_or_validate_profile_def migrated_profile_db_def rbind_Inr
        sqlite_i64_Inr profile_inv_def tables_inv_def outbox_inv_def meta_ok_def split: if_splits)
next
  case (Some row)
  with assms show ?thesis
    by (auto simp: open_profile_def upsert_or_validate_profile_def rbind_Inr migrated_profile_db_def
        split: if_splits)
qed

lemma replace_device_intents:
  assumes "intent_ok dev favs r"
  shows "intent_ok dev' favs (if ob_operation r = ''query_stats_upsert''
       then r\<lparr>ob_coalesce_key := Some (''query_stats:'' @ dev' @ '':'' @ ob_content_key r), ob_updated_at := now\<rparr>
       else r)"
  using assms by (fastforce simp: intent_ok_def query_stats_coalesce_key_def)

lemma replace_device_identity_inv:
  assumes inv: "profile_inv db" and ok: "replace_device_identity db old new now = Inr db'"
  shows "profile_inv db'"
proof -
  obtain m where t: "tables_inv db" and m: "profile_meta db = Some m" "meta_ok m"
    and out: "outbox_inv (mt_device_id m) (favorites db) (sync_outbox db)"
    using inv by (rule profile_invE)
  let ?f = "\<lambda>r. if ob_operation r = ''query_stats_upsert''
       then r\<lparr>ob_coalesce_key := Some (''query_stats:'' @ new @ '':'' @ ob_content_key r), ob_updated_at := now\<rparr>
       else r"
  let ?rows = "map ?f (sync_outbox db)"
  let ?stats = "tbl_update_all (\<lambda>k r. r\<lparr>sr_device_query_count :=
                     sr_device_query_count r - sr_last_synced_device_query_count r,
                   sr_last_synced_device_query_count := 0\<rparr>) (stats_table db)"
  from ok m have dist: "distinct (filter (\<lambda>k. k \<noteq> None) (map ob_coalesce_key ?rows))"
    and nonneg: "\<not> list_ex (\<lambda>(k, r). sr_device_query_count r < 0) ?stats"
    and db': "db' = db\<lparr>profile_meta := Some (m\<lparr>mt_device_id := new, mt_updated_at := now\<rparr>),
                            sync_outbox := ?rows, stats_table := ?stats\<rparr>"
    by (auto simp: replace_device_identity_def Let_def split: if_splits)
  have "ob_coalesce_key r \<noteq> None" if "r \<in> set (sync_outbox db)" for r
    using that out unfolding outbox_inv_def intent_ok_def by fastforce
  then have "filter (\<lambda>k. k \<noteq> None) (map ob_coalesce_key ?rows) = map ob_coalesce_key ?rows"
    by (intro filter_True) auto
  with dist have ck: "distinct (map ob_coalesce_key ?rows)" by simp
  have "map ob_event_id ?rows = map ob_event_id (sync_outbox db)" by simp
  then have ids: "distinct (map ob_event_id ?rows)" using out by (simp only: outbox_inv_def)
  have rows: "\<forall>r \<in> set ?rows. outbox_row_ok r \<and> intent_ok new (favorites db) r"
  proof
    fix r assume "r \<in> set ?rows"
    then obtain r0 where r: "r = ?f r0" and "r0 \<in> set (sync_outbox db)" unfolding set_map by blast
    then have r0: "outbox_row_ok r0" "intent_ok (mt_device_id m) (favorites db) r0"
      using out by (simp_all add: outbox_inv_def)
    have "outbox_row_ok (?f r0)" using r0(1) by (simp add: outbox_row_ok_def)
    moreover have "intent_ok new (favorites db) (?f r0)" using r0(2) by (rule replace_device_intents)
    ultimately have "outbox_row_ok (?f r0)" "intent_ok new (favorites db) (?f r0)" by blast+
    then show "outbox_row_ok r \<and> intent_ok new (favorites db) r" unfolding r by blast
  qed
  have out': "outbox_inv new (favorites db) ?rows"
    unfolding outbox_inv_def by (intro conjI ids ck rows)
  have "stats_row_ok r" if "tbl_get ?stats k = Some r" for k r
  proof -
    from that obtain r0 where r0: "tbl_get (stats_table db) k = Some r0"
      "r = r0\<lparr>sr_device_query_count := sr_device_query_count r0 - sr_last_synced_device_query_count r0,
              sr_last_synced_device_query_count := 0\<rparr>" by auto
    have "tbl_wf ?stats" using t by (simp add: tables_inv_def)
    with that have "(k, r) \<in> set ?stats" by (simp add: tbl_get_in_set)
    with nonneg have "0 \<le> sr_device_query_count r" by (auto simp: list_ex_iff)
    moreover have "stats_row_ok r0" using r0(1) t by (simp add: tables_inv_def)
    ultimately show ?thesis using r0(2) by (simp add: stats_row_ok_def i64_max_def)
  qed
  then have "tables_inv db'" using t unfolding db' by (auto simp: tables_inv_def tbl_has_get)
  with out' m show ?thesis by (simp add: profile_inv_def db' meta_ok_def)
qed

end
