(* ===== verification/Profile_Sync.thy ===== *)
theory Profile_Sync
  imports Profile_Db
begin

text \<open>
  \<open>crates/storage/src/sync.rs\<close>: the Desktop's side of synchronization in the Profile database. Outbox
  intents become protocol events, acknowledgements and remote pages are applied, conflicts are
  rebased at most once. Every function is one transaction: \<open>Inl\<close> leaves the database unchanged.
\<close>

section \<open>Values\<close>

definition max_remote_content_characters :: usize where
  "max_remote_content_characters = 16384"

definition conflict_error :: utext where
  "conflict_error = map of_char ''favorite_conflict''"

record acknowledged_event =
  ae_event :: outbox_event
  ae_acknowledgement :: push_ack
  ae_sent_query_count :: "u64 option"

datatype conflict_resolution = Converged | ReplayPrepared | ManualRetryRequired

record sync_diagnostics =
  sd_last_server_revision :: u64
  sd_pending_outbox :: u64
  sd_last_successful_sync_at :: "i64 option"
  sd_last_error :: "utext option"
  sd_sse_connected :: bool

fun protocol_operation :: "outbox_operation \<Rightarrow> sync_operation" where
  "protocol_operation OutFavoriteUpsert = FavoriteUpsert"
| "protocol_operation OutFavoriteDelete = FavoriteDelete"
| "protocol_operation OutQueryStatsUpsert = QueryStatsUpsert"

definition protocol_snapshot :: "favorite \<Rightarrow> favorite_snapshot" where
  "protocol_snapshot f =
     \<lparr>fs_kind = protocol_name (stc_kind (fv_content f)),
      fs_source_lang = stc_source_lang (fv_content f),
      fs_target_lang = ts_target_lang (fv_translation f),
      fs_source_text = stc_source_text (fv_content f),
      fs_canonical_text = stc_canonical_text (fv_content f),
      fs_translation = ts_translation (fv_translation f),
      fs_provider = ts_provider (fv_translation f),
      fs_favorited_at = fv_created_at f, fs_updated_at = fv_updated_at f\<rparr>"

text \<open>\<open>str::get(..n)\<close> is \<open>None\<close> when byte \<open>n\<close> is not a character boundary.\<close>

definition byte_prefix :: "nat \<Rightarrow> utext \<Rightarrow> utext option" where
  "byte_prefix n t =
     map_option (\<lambda>i. take i t) (find (\<lambda>i. utf8_len (take i t) = n) [0..<Suc (length t)])"

definition bounded_error :: "utext \<Rightarrow> utext" where
  "bounded_error e =
     (case byte_prefix (min (utf8_len e) 512) e of Some p \<Rightarrow> p | None \<Rightarrow> e)"

section \<open>Pushing\<close>

definition ready_outbox_events ::
  "uuid_parser \<Rightarrow> profile_db \<Rightarrow> i64 \<Rightarrow> u32 \<Rightarrow> storage_error + outbox_event list" where
  "ready_outbox_events up db now limit =
     (if limit = 0 then Inl (InvalidData ''Outbox batch limit is zero'')
      else mapM (parse_outbox up)
        (sql_order_limit (\<lambda>r. (ob_created_at r, ob_event_id r)) limit
          (filter (\<lambda>r. (case ob_next_retry_at r of None \<Rightarrow> True | Some t \<Rightarrow> t \<le> now)
                       \<and> ob_last_error r \<noteq> Some conflict_error) (sync_outbox db))))"

definition stats_snapshot :: "query_stats option \<Rightarrow> query_stats_snapshot option" where
  "stats_snapshot stats =
     (case stats of
        None \<Rightarrow> None
      | Some v \<Rightarrow>
          if 0 < qs_device_query_count v
          then Some \<lparr>qss_query_count = qs_device_query_count v,
                     qss_first_queried_at = qs_first_queried_at v,
                     qss_last_queried_at = qs_last_queried_at v,
                     qss_updated_at = qs_last_queried_at v\<rparr>
          else None)"

definition push_event_of :: "profile_db \<Rightarrow> outbox_event \<Rightarrow> storage_error + push_event" where
  "push_event_of db event =
     rbind (favorite_by_key db (oe_content_key event)) (\<lambda>fav.
     rbind (query_stats_tx db (oe_content_key event)) (\<lambda>stats.
     let stats_value = stats_snapshot stats in
     rbind (case oe_operation event of
              OutFavoriteUpsert \<Rightarrow>
                (case fav of
                   Some v \<Rightarrow> if fv_deleted_at v = None then Inr (Some (protocol_snapshot v))
                             else Inl (InvalidData ''active Favorite is missing'')
                 | None \<Rightarrow> Inl (InvalidData ''active Favorite is missing''))
            | OutFavoriteDelete \<Rightarrow> Inr None
            | OutQueryStatsUpsert \<Rightarrow> Inr None) (\<lambda>snapshot.
     if oe_operation event = OutQueryStatsUpsert \<and> stats_value = None
     then Inl (InvalidData ''sync QueryStats are missing'')
     else Inr \<lparr>pe_event_id = oe_event_id event,
       pe_operation = protocol_operation (oe_operation event),
       pe_content_key = to_hex (oe_content_key event),
       pe_key_version = (case fav of None \<Rightarrow> content_key_version
                         | Some v \<Rightarrow> stc_key_version (fv_content v)),
       pe_base_entity_revision = (case oe_base_entity_revision event of None \<Rightarrow> 0 | Some r \<Rightarrow> r),
       pe_favorite = snapshot, pe_query_stats = stats_value\<rparr>)))"

section \<open>Aggregates\<close>

text \<open>The row \<open>INSERT INTO query_stats(content_key, device_query_count, first_queried_at,
  last_queried_at) VALUES(?, 0, ?, ?)\<close> leaves, with the defaults of the other columns.\<close>

definition baseline_stats :: "i64 \<Rightarrow> i64 \<Rightarrow> stats_row" where
  "baseline_stats first_at last_at =
     \<lparr>sr_device_query_count = 0, sr_first_queried_at = first_at, sr_last_queried_at = last_at,
      sr_last_synced_device_query_count = 0, sr_server_total_query_count = 0,
      sr_server_first_queried_at = None, sr_server_last_queried_at = None,
      sr_server_snapshot_at = None\<rparr>"

definition update_aggregate ::
  "profile_db \<Rightarrow> content_key \<Rightarrow> aggregate_query_stats \<Rightarrow> u64 option \<Rightarrow> i64
    \<Rightarrow> storage_error + profile_db" where
  "update_aggregate db key aggregate sent_query_count now =
     (let k = to_hex key;
          db1 = (if tbl_has (stats_table db) k then db
                 else db\<lparr>stats_table := tbl_put k
                   (baseline_stats (ag_first_queried_at aggregate) (ag_last_queried_at aggregate))
                   (stats_table db)\<rparr>)
      in rbind (sqlite_i64 (case sent_query_count of None \<Rightarrow> 0 | Some n \<Rightarrow> n)) (\<lambda>sent.
         rbind (sqlite_i64 (ag_query_count aggregate)) (\<lambda>total.
           Inr (db1\<lparr>stats_table := tbl_modify k
             (\<lambda>r. r\<lparr>sr_last_synced_device_query_count := max (sr_last_synced_device_query_count r) sent,
                    sr_server_total_query_count := total,
                    sr_server_first_queried_at := Some (ag_first_queried_at aggregate),
                    sr_server_last_queried_at := Some (ag_last_queried_at aggregate),
                    sr_server_snapshot_at := Some now\<rparr>) (stats_table db1)\<rparr>))))"

definition update_aggregate_from_record ::
  "profile_db \<Rightarrow> favorite_record \<Rightarrow> i64 \<Rightarrow> storage_error + profile_db" where
  "update_aggregate_from_record db remote now =
     (case fr_aggregate remote of
        None \<Rightarrow> Inr db
      | Some aggregate \<Rightarrow>
          rbind (parse_content_key (fr_content_key remote)) (\<lambda>key.
            update_aggregate db key aggregate None now))"

section \<open>Acknowledgements and retries\<close>

definition set_entity_revision :: "string \<Rightarrow> i64 \<Rightarrow> profile_db \<Rightarrow> profile_db" where
  "set_entity_revision k revision db =
     db\<lparr>favorites := tbl_modify k (\<lambda>r. r\<lparr>rf_entity_revision := revision\<rparr>) (favorites db)\<rparr>"

definition acknowledge_one ::
  "i64 \<Rightarrow> acknowledged_event \<Rightarrow> profile_db \<Rightarrow> storage_error + profile_db" where
  "acknowledge_one now item db =
     (let event = ae_event item; ack = ae_acknowledgement item; k = to_hex (oe_content_key event) in
      if pa_event_id ack \<noteq> oe_event_id event
      then Inl (InvalidData ''acknowledgement event mismatch'')
      else
      rbind (case pa_entity_revision ack of
               None \<Rightarrow> Inr db
             | Some n \<Rightarrow> rbind (sqlite_i64 n) (\<lambda>revision.
                 Inr ((set_entity_revision k revision db)\<lparr>sync_outbox := map (\<lambda>r.
                   if ob_content_key r = k \<and> ob_event_id r \<noteq> oe_event_id event
                      \<and> (ob_operation r = ''favorite_upsert'' \<or> ob_operation r = ''favorite_delete'')
                   then r\<lparr>ob_base_entity_revision := Some revision\<rparr> else r) (sync_outbox db)\<rparr>)))
        (\<lambda>db1.
      rbind (case pa_aggregate ack of
               None \<Rightarrow> Inr db1
             | Some aggregate \<Rightarrow> update_aggregate db1 (oe_content_key event) aggregate
                 (ae_sent_query_count item) now) (\<lambda>db2.
      Inr (db2\<lparr>sync_outbox := filter (\<lambda>r. ob_event_id r \<noteq> oe_event_id event) (sync_outbox db2)\<rparr>))))"

definition set_meta :: "(meta_row \<Rightarrow> meta_row) \<Rightarrow> profile_db \<Rightarrow> profile_db" where
  "set_meta f db = db\<lparr>profile_meta := map_option f (profile_meta db)\<rparr>"

definition acknowledge_events ::
  "profile_db \<Rightarrow> acknowledged_event list \<Rightarrow> i64 \<Rightarrow> storage_error + profile_db" where
  "acknowledge_events db acknowledged now =
     rbind (foldM (acknowledge_one now) acknowledged db) (\<lambda>db1.
       Inr (set_meta (\<lambda>m. m\<lparr>mt_last_successful_sync_at := Some now, mt_last_sync_error := None,
                            mt_updated_at := now\<rparr>) db1))"

text \<open>The count of attempts is a SQLite integer that grows by one at a time; its width is not modelled.\<close>

definition mark_retry :: "profile_db \<Rightarrow> outbox_event list \<Rightarrow> i64 \<Rightarrow> utext \<Rightarrow> i64 \<Rightarrow> profile_db" where
  "mark_retry db events next_retry_at error now =
     set_meta (\<lambda>m. m\<lparr>mt_last_sync_error := Some (bounded_error error), mt_updated_at := now\<rparr>)
       (db\<lparr>sync_outbox := fold (\<lambda>event. map (\<lambda>r.
          if ob_event_id r = oe_event_id event
          then r\<lparr>ob_attempt_count := ob_attempt_count r + 1, ob_next_retry_at := Some next_retry_at,
                 ob_last_error := Some (bounded_error error), ob_updated_at := now\<rparr>
          else r)) events (sync_outbox db)\<rparr>)"

section \<open>Remote changes\<close>

text \<open>\<open>local_favorite\<close> reads what \<open>favorite_tx\<close> reads; only its messages differ.\<close>

definition local_favorite :: "profile_db \<Rightarrow> content_key \<Rightarrow> storage_error + favorite option" where
  "local_favorite db key =
     opt_transpose (\<lambda>row.
       rbind (ok_or (InvalidData ''key version'') (u32_of_i64 (rf_key_version row))) (\<lambda>key_version.
       rbind (parse_kind (rf_kind row)) (\<lambda>kind.
       rbind (map_err (\<lambda>_. InvalidData ''source language'') (parse_language_code (rf_source_lang row)))
         (\<lambda>source_lang.
       rbind (map_err (\<lambda>_. InvalidData ''target language'') (parse_language_code (rf_target_lang row)))
         (\<lambda>target_lang.
       rbind (sqlite_u64 (rf_entity_revision row)) (\<lambda>entity_revision.
       Inr \<lparr>fv_content = \<lparr>stc_content_key = key, stc_key_version = key_version, stc_kind = kind,
              stc_source_lang = source_lang, stc_source_text = rf_source_text row,
              stc_canonical_text = rf_canonical_text row\<rparr>,
            fv_translation = \<lparr>ts_target_lang = target_lang, ts_translation = rf_translation row,
              ts_provider = rf_provider row, ts_updated_at = rf_updated_at row\<rparr>,
            fv_created_at = rf_created_at row, fv_updated_at = rf_updated_at row,
            fv_deleted_at = rf_deleted_at row, fv_entity_revision = entity_revision\<rparr>))))))
     (tbl_get (favorites db) (to_hex key))"

definition desired_converged :: "outbox_operation \<Rightarrow> favorite \<Rightarrow> favorite_record \<Rightarrow> bool" where
  "desired_converged operation local remote =
     (case operation of
        OutFavoriteDelete \<Rightarrow> fr_deleted_at remote \<noteq> None
      | OutFavoriteUpsert \<Rightarrow>
          fr_deleted_at remote = None \<and> protocol_snapshot local = fr_favorite remote
      | OutQueryStatsUpsert \<Rightarrow> False)"

definition validate_remote ::
  "unicode_db \<Rightarrow> sha256 \<Rightarrow> favorite_record \<Rightarrow> storage_error + unit" where
  "validate_remote u sha remote =
     (if fr_key_version remote \<noteq> content_key_version \<or> fr_entity_revision remote = 0
      then Inl (InvalidData ''remote Favorite version is invalid'')
      else
      rbind (map_err (\<lambda>_. InvalidData ''remote source language'')
               (parse_language_code (fs_source_lang (fr_favorite remote)))) (\<lambda>source_lang.
      rbind (map_err (\<lambda>_. InvalidData ''remote target language'')
               (parse_language_code (fs_target_lang (fr_favorite remote)))) (\<lambda>_.
      rbind (map_err (\<lambda>_. InvalidData ''remote source content'')
               (prepare_content u sha (fs_source_text (fr_favorite remote)) source_lang
                  max_remote_content_characters)) (\<lambda>prepared.
      if to_hex (pc_content_key prepared) \<noteq> fr_content_key remote
         \<or> cc_text (pc_canonical prepared) \<noteq> fs_canonical_text (fr_favorite remote)
         \<or> protocol_name (cc_kind (pc_canonical prepared)) \<noteq> fs_kind (fr_favorite remote)
      then Inl (InvalidData ''remote content identity mismatch'')
      else Inr ()))))"

definition write_remote_favorite ::
  "profile_db \<Rightarrow> favorite_record \<Rightarrow> i64 \<Rightarrow> storage_error + profile_db" where
  "write_remote_favorite db remote now =
     rbind (parse_content_key (fr_content_key remote)) (\<lambda>key.
     rbind (sqlite_i64 (fr_entity_revision remote)) (\<lambda>revision.
     let s = fr_favorite remote in
     if \<not> (fs_kind s = ''word'' \<or> fs_kind s = ''text'') then Inl StSqlite
     else
     let db1 = db\<lparr>favorites := tbl_put (fr_content_key remote)
           \<lparr>rf_key_version = int (fr_key_version remote), rf_kind = fs_kind s,
            rf_source_lang = fs_source_lang s, rf_target_lang = fs_target_lang s,
            rf_source_text = fs_source_text s, rf_canonical_text = fs_canonical_text s,
            rf_translation = fs_translation s, rf_provider = fs_provider s,
            rf_created_at = fs_favorited_at s, rf_updated_at = fs_updated_at s,
            rf_deleted_at = fr_deleted_at remote, rf_entity_revision = revision\<rparr> (favorites db)\<rparr> in
     rbind (update_aggregate_from_record db1 remote now) (\<lambda>db2.
     if tbl_has (stats_table db2) (to_hex key) then Inr db2
     else
     let baseline = (case fr_aggregate remote of
            None \<Rightarrow> fs_favorited_at s | Some a \<Rightarrow> ag_first_queried_at a) in
     update_aggregate_from_record (db2\<lparr>stats_table := tbl_put (to_hex key)
         (baseline_stats baseline baseline) (stats_table db2)\<rparr>) remote now)))"

definition apply_remote_change ::
  "unicode_db \<Rightarrow> sha256 \<Rightarrow> profile_db \<Rightarrow> sync_change \<Rightarrow> i64 \<Rightarrow> storage_error + profile_db" where
  "apply_remote_change u sha db change now =
     (let remote = sc_favorite change in
      rbind (validate_remote u sha remote) (\<lambda>_.
      rbind (parse_content_key (fr_content_key remote)) (\<lambda>key.
      case outbox_find db (favorite_coalesce_key key) of
        Some row \<Rightarrow>
          rbind (parse_outbox_operation (ob_operation row)) (\<lambda>operation.
          rbind (local_favorite db key) (\<lambda>found.
          rbind (ok_or (InvalidData ''pending Favorite is missing'') found) (\<lambda>local.
          if desired_converged operation local remote then
            rbind (write_remote_favorite db remote now) (\<lambda>db1.
              Inr (outbox_delete (favorite_coalesce_key key) db1))
          else
            rbind (sqlite_i64 (fr_entity_revision remote)) (\<lambda>revision.
              let db1 = set_entity_revision (to_hex key) revision db;
                  db2 = db1\<lparr>sync_outbox := map (\<lambda>r.
                    if ob_coalesce_key r = Some (favorite_coalesce_key key)
                    then r\<lparr>ob_base_entity_revision := Some revision, ob_updated_at := now\<rparr>
                    else r) (sync_outbox db1)\<rparr>
              in update_aggregate_from_record db2 remote now))))
      | None \<Rightarrow> write_remote_favorite db remote now)))"

text \<open>One turn of the loop of \<open>apply_remote_page\<close>, on the database and the expected revision.\<close>

definition apply_page_change ::
  "unicode_db \<Rightarrow> sha256 \<Rightarrow> u64 \<Rightarrow> i64 \<Rightarrow> sync_change \<Rightarrow> profile_db \<times> u64
    \<Rightarrow> storage_error + (profile_db \<times> u64)" where
  "apply_page_change u sha next_revision now change st = (case st of (db, expected) \<Rightarrow>
     rbind (ok_or (InvalidData ''remote revision overflow'') (checked_add_u64 expected 1))
       (\<lambda>next_expected.
     if sc_revision change \<noteq> next_expected \<or> sc_revision change > next_revision
     then Inl (InvalidData ''remote change revision is invalid'')
     else rbind (apply_remote_change u sha db change now) (\<lambda>db1. Inr (db1, sc_revision change))))"

definition apply_remote_page ::
  "unicode_db \<Rightarrow> sha256 \<Rightarrow> profile_db \<Rightarrow> sync_change list \<Rightarrow> u64 \<Rightarrow> i64
    \<Rightarrow> storage_error + profile_db" where
  "apply_remote_page u sha db changes next_revision now =
     (case profile_meta db of
        None \<Rightarrow> Inl StSqlite
      | Some m \<Rightarrow>
          rbind (sqlite_u64 (mt_last_server_revision m)) (\<lambda>current_cursor.
          if next_revision < current_cursor
          then Inl (InvalidData ''remote cursor moved backwards'')
          else
          rbind (foldM (apply_page_change u sha next_revision now) changes (db, current_cursor))
            (\<lambda>(db1, expected).
          if expected \<noteq> next_revision then Inl (InvalidData ''remote page cursor is inconsistent'')
          else
          rbind (sqlite_i64 next_revision) (\<lambda>revision.
            Inr (set_meta (\<lambda>m. m\<lparr>mt_last_server_revision := revision,
                   mt_last_successful_sync_at := Some now, mt_last_sync_error := None,
                   mt_updated_at := now\<rparr>) db1)))))"

section \<open>Conflicts\<close>

definition mark_manual_conflict :: "profile_db \<Rightarrow> content_key \<Rightarrow> i64 \<Rightarrow> profile_db" where
  "mark_manual_conflict db key now =
     set_meta (\<lambda>m. m\<lparr>mt_last_sync_error := Some conflict_error, mt_updated_at := now\<rparr>)
       (db\<lparr>sync_outbox := map (\<lambda>r.
          if ob_coalesce_key r = Some (favorite_coalesce_key key)
          then r\<lparr>ob_last_error := Some conflict_error, ob_next_retry_at := None, ob_updated_at := now\<rparr>
          else r) (sync_outbox db)\<rparr>)"

definition resolve_conflict ::
  "profile_db \<Rightarrow> outbox_event \<Rightarrow> favorite_record option \<Rightarrow> i64
    \<Rightarrow> storage_error + (conflict_resolution \<times> profile_db)" where
  "resolve_conflict db event current now =
     (if oe_operation event = OutQueryStatsUpsert
      then Inl (InvalidData ''QueryStats cannot have a Favorite conflict'')
      else
      let key = oe_content_key event in
      rbind (local_favorite db key) (\<lambda>found.
      rbind (ok_or (InvalidData ''conflicted Favorite is missing'') found) (\<lambda>local.
      case current of
        None \<Rightarrow> Inr (ManualRetryRequired, mark_manual_conflict db key now)
      | Some remote \<Rightarrow>
          if desired_converged (oe_operation event) local remote then
            rbind (write_remote_favorite db remote now) (\<lambda>db1.
              Inr (Converged, outbox_delete (favorite_coalesce_key key) db1))
          else
            rbind (ok_or (InvalidData ''conflicted Outbox intent is missing'')
                     (map_option ob_conflict_replay_count
                       (outbox_find db (favorite_coalesce_key key)))) (\<lambda>replay_count.
            rbind (update_aggregate_from_record db remote now) (\<lambda>db1.
            if replay_count = 0 then
              rbind (sqlite_i64 (fr_entity_revision remote)) (\<lambda>revision.
                let db2 = set_entity_revision (to_hex key) revision db1 in
                Inr (ReplayPrepared, db2\<lparr>sync_outbox := map (\<lambda>r.
                  if ob_coalesce_key r = Some (favorite_coalesce_key key)
                  then r\<lparr>ob_base_entity_revision := Some revision, ob_conflict_replay_count := 1,
                         ob_attempt_count := 0, ob_next_retry_at := None, ob_last_error := None,
                         ob_updated_at := now\<rparr>
                  else r) (sync_outbox db2)\<rparr>))
            else Inr (ManualRetryRequired, mark_manual_conflict db1 key now))))))"

section \<open>Diagnostics\<close>

definition set_sse_connected :: "profile_db \<Rightarrow> bool \<Rightarrow> i64 \<Rightarrow> profile_db" where
  "set_sse_connected db connected now =
     set_meta (\<lambda>m. m\<lparr>mt_sse_connected := connected, mt_updated_at := now\<rparr>) db"

definition set_sync_error :: "profile_db \<Rightarrow> utext \<Rightarrow> i64 \<Rightarrow> profile_db" where
  "set_sync_error db error now =
     set_meta (\<lambda>m. m\<lparr>mt_last_sync_error := Some (bounded_error error), mt_updated_at := now\<rparr>) db"

definition read_sync_diagnostics :: "profile_db \<Rightarrow> storage_error + sync_diagnostics" where
  "read_sync_diagnostics db =
     (case profile_meta db of
        None \<Rightarrow> Inl StSqlite
      | Some m \<Rightarrow>
          rbind (sqlite_u64 (mt_last_server_revision m)) (\<lambda>revision.
            Inr \<lparr>sd_last_server_revision = revision, sd_pending_outbox = length (sync_outbox db),
                 sd_last_successful_sync_at = mt_last_successful_sync_at m,
                 sd_last_error = mt_last_sync_error m, sd_sse_connected = mt_sse_connected m\<rparr>))"

section \<open>Consistency is kept\<close>

lemma baseline_stats_ok [simp]: "stats_row_ok (baseline_stats a b)"
  by (simp add: stats_row_ok_def baseline_stats_def i64_max_def)

lemma update_aggregate_frame:
  assumes "update_aggregate db key ag sent now = Inr db'"
  shows "\<exists>t. db' = db\<lparr>stats_table := t\<rparr>
     \<and> (\<forall>k. k \<noteq> to_hex key \<longrightarrow> tbl_get t k = tbl_get (stats_table db) k)
     \<and> (\<exists>r. tbl_get t (to_hex key) = Some r
          \<and> sr_server_total_query_count r = int (ag_query_count ag)
          \<and> sr_server_first_queried_at r = Some (ag_first_queried_at ag)
          \<and> sr_server_last_queried_at r = Some (ag_last_queried_at ag)
          \<and> sr_server_snapshot_at r = Some now
          \<and> (case tbl_get (stats_table db) (to_hex key) of
               None \<Rightarrow> sr_device_query_count r = 0
             | Some old \<Rightarrow> sr_device_query_count r = sr_device_query_count old
                 \<and> sr_last_synced_device_query_count r
                   = max (sr_last_synced_device_query_count old) (int (case sent of None \<Rightarrow> 0 | Some n \<Rightarrow> n))))"
  using assms
  by (cases "tbl_get (stats_table db) (to_hex key)")
     (auto simp: update_aggregate_def Let_def rbind_Inr sqlite_i64_Inr tbl_has_get baseline_stats_def)

definition stats_part :: "(string, stats_row) table \<Rightarrow> bool" where
  "stats_part t \<longleftrightarrow> tbl_wf t \<and> (\<forall>k r. tbl_get t k = Some r \<longrightarrow> stats_row_ok r)"

lemma update_aggregate_tables:
  assumes "update_aggregate db key ag sent now = Inr db'"
  shows "stats_part (stats_table db) \<Longrightarrow> stats_part (stats_table db')" and "tables_inv db \<Longrightarrow> tables_inv db'"
proof -
  let ?base = "baseline_stats (ag_first_queried_at ag) (ag_last_queried_at ag)"
  let ?f = "\<lambda>r. r\<lparr>sr_last_synced_device_query_count := max (sr_last_synced_device_query_count r)
                 (int (case sent of None \<Rightarrow> 0 | Some n \<Rightarrow> n)),
               sr_server_total_query_count := int (ag_query_count ag),
               sr_server_first_queried_at := Some (ag_first_queried_at ag),
               sr_server_last_queried_at := Some (ag_last_queried_at ag),
               sr_server_snapshot_at := Some now\<rparr>"
  from assms(1) have i: "int (case sent of None \<Rightarrow> 0 | Some n \<Rightarrow> n) \<le> i64_max" "int (ag_query_count ag) \<le> i64_max"
    and db': "db' = db\<lparr>stats_table := tbl_modify (to_hex key) ?f
        (if tbl_has (stats_table db) (to_hex key) then stats_table db
         else tbl_put (to_hex key) ?base (stats_table db))\<rparr>"
    by (auto simp: update_aggregate_def Let_def rbind_Inr sqlite_i64_Inr)
  have "stats_row_ok r \<Longrightarrow> stats_row_ok (?f r)" for r using i by (simp add: stats_row_ok_def)
  then have "stats_part (stats_table db) \<Longrightarrow> stats_part (stats_table db')"
    by (auto simp: db' stats_part_def)
  moreover have "tbl_has (stats_table db) k \<Longrightarrow> tbl_has (stats_table db') k" for k
    by (simp add: db')
  ultimately show "stats_part (stats_table db) \<Longrightarrow> stats_part (stats_table db')"
    "tables_inv db \<Longrightarrow> tables_inv db'" by (auto simp: tables_inv_def stats_part_def db')
qed

lemma profile_inv_stats:
  "profile_inv db \<Longrightarrow> tables_inv (db\<lparr>stats_table := t\<rparr>) \<Longrightarrow> profile_inv (db\<lparr>stats_table := t\<rparr>)"
  by (auto simp: profile_inv_def)

lemma update_aggregate_inv:
  assumes "update_aggregate db key ag sent now = Inr db'" and "profile_inv db"
  shows "profile_inv db'"
proof -
  from update_aggregate_frame [OF assms(1)] obtain t where db': "db' = db\<lparr>stats_table := t\<rparr>" by blast
  have "tables_inv db'" using assms update_aggregate_tables by (auto simp: profile_inv_def)
  then show ?thesis using assms(2) unfolding db' by (rule profile_inv_stats [rotated])
qed

lemma update_aggregate_from_record_frame:
  assumes "update_aggregate_from_record db remote now = Inr db'"
  shows "\<exists>t. db' = db\<lparr>stats_table := t\<rparr> \<and> (\<forall>k. tbl_has (stats_table db) k \<longrightarrow> tbl_has t k)"
    and "stats_part (stats_table db) \<Longrightarrow> stats_part (stats_table db')"
    and "tables_inv db \<Longrightarrow> tables_inv db'" and "profile_inv db \<Longrightarrow> profile_inv db'"
proof -
  show "\<exists>t. db' = db\<lparr>stats_table := t\<rparr> \<and> (\<forall>k. tbl_has (stats_table db) k \<longrightarrow> tbl_has t k)"
  proof (cases "fr_aggregate remote")
    case None
    with assms show ?thesis
      by (intro exI [of _ "stats_table db"]) (simp add: update_aggregate_from_record_def)
  next
    case (Some a)
    with assms obtain key where "update_aggregate db key a None now = Inr db'"
      by (auto simp: update_aggregate_from_record_def rbind_Inr)
    from update_aggregate_frame [OF this] show ?thesis by (metis option.distinct(1) tbl_has_get)
  qed
  show "stats_part (stats_table db) \<Longrightarrow> stats_part (stats_table db')"
    "tables_inv db \<Longrightarrow> tables_inv db'" "profile_inv db \<Longrightarrow> profile_inv db'"
    using assms by (auto simp: update_aggregate_from_record_def rbind_Inr split: option.splits
        intro: update_aggregate_tables update_aggregate_inv)
qed

text \<open>A remote record whose content this device accepts.\<close>

definition remote_ok :: "favorite_record \<Rightarrow> bool" where
  "remote_ok remote \<longleftrightarrow> fr_key_version remote \<le> u32_max \<and> lang_text (fs_source_lang (fr_favorite remote))
     \<and> lang_text (fs_target_lang (fr_favorite remote))"

lemma validate_remote_ok:
  assumes "validate_remote u sha remote = Inr x"
  shows "remote_ok remote"
  using assms
  by (auto simp: validate_remote_def remote_ok_def lang_text_def rbind_Inr map_err_Inr content_key_version_def
      u32_max_def split: if_splits)

definition remote_row :: "favorite_record \<Rightarrow> favorite_row" where
  "remote_row remote =
     (let s = fr_favorite remote in
      \<lparr>rf_key_version = int (fr_key_version remote), rf_kind = fs_kind s,
       rf_source_lang = fs_source_lang s, rf_target_lang = fs_target_lang s,
       rf_source_text = fs_source_text s, rf_canonical_text = fs_canonical_text s,
       rf_translation = fs_translation s, rf_provider = fs_provider s,
       rf_created_at = fs_favorited_at s, rf_updated_at = fs_updated_at s,
       rf_deleted_at = fr_deleted_at remote, rf_entity_revision = int (fr_entity_revision remote)\<rparr>)"

lemma write_remote_phases:
  assumes "write_remote_favorite db remote now = Inr db'"
  obtains key db2 base where "length key = 32" "fr_content_key remote = to_hex key"
    "int (fr_entity_revision remote) \<le> i64_max"
    "fs_kind (fr_favorite remote) = ''word'' \<or> fs_kind (fr_favorite remote) = ''text''"
    "update_aggregate_from_record
       (db\<lparr>favorites := tbl_put (to_hex key) (remote_row remote) (favorites db)\<rparr>) remote now = Inr db2"
    "(if tbl_has (stats_table db2) (to_hex key) then Inr db2
      else update_aggregate_from_record (db2\<lparr>stats_table := tbl_put (to_hex key)
        (baseline_stats base base) (stats_table db2)\<rparr>) remote now) = Inr db'"
proof -
  let ?base = "case fr_aggregate remote of
            None \<Rightarrow> fs_favorited_at (fr_favorite remote) | Some a \<Rightarrow> ag_first_queried_at a"
  from assms obtain key where key: "length key = 32" "fr_content_key remote = to_hex key"
    and i: "int (fr_entity_revision remote) \<le> i64_max"
    and kind: "fs_kind (fr_favorite remote) = ''word'' \<or> fs_kind (fr_favorite remote) = ''text''"
    by (auto simp: write_remote_favorite_def Let_def rbind_Inr sqlite_i64_Inr parse_content_key_Inr split: if_splits)
  have i': "sqlite_i64 (fr_entity_revision remote) = Inr (int (fr_entity_revision remote))"
    using i by (simp add: sqlite_i64_Inr)
  from assms [unfolded write_remote_favorite_def Let_def] key kind i' obtain db2 where
    "update_aggregate_from_record
       (db\<lparr>favorites := tbl_put (to_hex key) (remote_row remote) (favorites db)\<rparr>) remote now = Inr db2"
    "(if tbl_has (stats_table db2) (to_hex key) then Inr db2
      else update_aggregate_from_record (db2\<lparr>stats_table := tbl_put (to_hex key)
        (baseline_stats ?base ?base) (stats_table db2)\<rparr>) remote now) = Inr db'"
    by (auto simp: rbind_Inr remote_row_def Let_def)
  with key i kind show thesis by (rule that)
qed

lemma write_remote_favorite_frame:
  assumes "write_remote_favorite db remote now = Inr db'"
  obtains key t where "length key = 32" "fr_content_key remote = to_hex key"
    "int (fr_entity_revision remote) \<le> i64_max"
    "fs_kind (fr_favorite remote) = ''word'' \<or> fs_kind (fr_favorite remote) = ''text''"
    "db' = db\<lparr>favorites := tbl_put (to_hex key) (remote_row remote) (favorites db), stats_table := t\<rparr>"
    "tbl_has t (to_hex key)" "stats_part (stats_table db) \<Longrightarrow> stats_part t"
    "\<And>k. tbl_has (stats_table db) k \<Longrightarrow> tbl_has t k"
  using assms
proof (rule write_remote_phases)
  fix key and db2 :: profile_db and base
  let ?db1 = "db\<lparr>favorites := tbl_put (to_hex key) (remote_row remote) (favorites db)\<rparr>"
  let ?db3 = "db2\<lparr>stats_table := tbl_put (to_hex key) (baseline_stats base base) (stats_table db2)\<rparr>"
  assume key: "length key = 32" "fr_content_key remote = to_hex key"
    and i: "int (fr_entity_revision remote) \<le> i64_max"
    and kind: "fs_kind (fr_favorite remote) = ''word'' \<or> fs_kind (fr_favorite remote) = ''text''"
    and db2: "update_aggregate_from_record ?db1 remote now = Inr db2"
    and rest: "(if tbl_has (stats_table db2) (to_hex key) then Inr db2
      else update_aggregate_from_record ?db3 remote now) = Inr db'"
  from update_aggregate_from_record_frame(1) [OF db2] obtain t2 where t2: "db2 = ?db1\<lparr>stats_table := t2\<rparr>"
    and g2: "\<forall>k. tbl_has (stats_table ?db1) k \<longrightarrow> tbl_has t2 k" by blast
  note p2 = update_aggregate_from_record_frame(2) [OF db2]
  show thesis
  proof (cases "tbl_has (stats_table db2) (to_hex key)")
    case True
    with rest t2 g2 p2 show thesis by (intro that [OF key i kind, of t2]) auto
  next
    case False
    then have r: "update_aggregate_from_record ?db3 remote now = Inr db'" using rest by simp
    from update_aggregate_from_record_frame(1) [OF r] obtain t where t: "db' = ?db3\<lparr>stats_table := t\<rparr>"
      and g: "\<forall>k. tbl_has (stats_table ?db3) k \<longrightarrow> tbl_has t k" by blast
    have "stats_part (stats_table db2) \<Longrightarrow> stats_part (stats_table ?db3)" by (simp add: stats_part_def)
    moreover have "stats_table db' = t" by (simp add: t)
    ultimately have "stats_part (stats_table db2) \<Longrightarrow> stats_part t"
      using update_aggregate_from_record_frame(2) [OF r] by metis
    with p2 t t2 g g2 show thesis by (intro that [OF key i kind, of t]) auto
  qed
qed

lemma write_remote_favorite_tables:
  assumes ok: "write_remote_favorite db remote now = Inr db'" and inv: "tables_inv db" and "remote_ok remote"
  shows "tables_inv db'"
proof -
  obtain key t where key: "length key = 32" "fr_content_key remote = to_hex key"
    and ranges: "int (fr_entity_revision remote) \<le> i64_max"
      "fs_kind (fr_favorite remote) = ''word'' \<or> fs_kind (fr_favorite remote) = ''text''"
    and db': "db' = db\<lparr>favorites := tbl_put (to_hex key) (remote_row remote) (favorites db), stats_table := t\<rparr>"
    and has: "tbl_has t (to_hex key)" and sp: "stats_part (stats_table db) \<Longrightarrow> stats_part t"
    and mono: "\<And>k. tbl_has (stats_table db) k \<Longrightarrow> tbl_has t k"
    using ok by (rule write_remote_favorite_frame) blast
  have "stats_part (stats_table db)" using inv by (simp add: tables_inv_def stats_part_def)
  then have t: "stats_part t" "\<forall>k. tbl_has (stats_table db) k \<longrightarrow> tbl_has t k"
    using sp mono by blast+
  have "favorite_row_ok (remote_row remote)"
    using assms(3) ranges by (simp add: remote_ok_def favorite_row_ok_def remote_row_def Let_def)
  with inv t has key show ?thesis unfolding db'
    by (auto simp: tables_inv_def stats_part_def key_text_def)
qed

text \<open>A remote record replaces a favorite that has no other pending intent.\<close>

lemma write_remote_inv:
  assumes ok: "write_remote_favorite db remote now = Inr db'" and inv: "profile_inv db"
    and "remote_ok remote" and key: "fr_content_key remote = to_hex key"
    and rows: "set rows \<subseteq> {r \<in> set (sync_outbox db). ob_coalesce_key r \<noteq> Some (favorite_coalesce_key key)}"
      "distinct (map ob_event_id rows)" "distinct (map ob_coalesce_key rows)"
  shows "profile_inv (db'\<lparr>sync_outbox := rows\<rparr>)"
proof -
  obtain m where t: "tables_inv db" and m: "profile_meta db = Some m" "meta_ok m"
    and out: "outbox_inv (mt_device_id m) (favorites db) (sync_outbox db)"
    using inv by (rule profile_invE)
  obtain key' t' where key': "fr_content_key remote = to_hex key'"
    and db': "db' = db\<lparr>favorites := tbl_put (to_hex key') (remote_row remote) (favorites db), stats_table := t'\<rparr>"
    using ok by (rule write_remote_favorite_frame) blast
  have "tables_inv db'" using ok t assms(3) by (rule write_remote_favorite_tables)
  moreover have "key' = key" using key key' by simp
  then have "outbox_inv (mt_device_id m) (favorites db') rows"
    using out rows intent_ok_put unfolding outbox_inv_def db' by auto
  ultimately show ?thesis using m by (auto simp: profile_inv_def tables_inv_def db')
qed

lemma profile_inv_outbox: "profile_inv db \<Longrightarrow> \<exists>dev. outbox_inv dev (favorites db) (sync_outbox db)"
  by (auto simp: profile_inv_def)

lemma set_entity_revision_simps [simp]:
  "sync_outbox (set_entity_revision k n db) = sync_outbox db"
  "stats_table (set_entity_revision k n db) = stats_table db"
  "profile_meta (set_entity_revision k n db) = profile_meta db"
  by (simp_all add: set_entity_revision_def)

lemma tables_inv_outbox [simp]: "tables_inv (db\<lparr>sync_outbox := x\<rparr>) = tables_inv db"
  by (simp add: tables_inv_def)

lemma tables_inv_meta [simp]: "tables_inv (db\<lparr>profile_meta := x\<rparr>) = tables_inv db"
  by (simp add: tables_inv_def)

lemma profile_inv_rebase:
  assumes "profile_inv db" and "0 \<le> n" and "n \<le> i64_max"
    and "\<And>r. ob_event_id (f r) = ob_event_id r \<and> ob_coalesce_key (f r) = ob_coalesce_key r
           \<and> ob_content_key (f r) = ob_content_key r \<and> ob_operation (f r) = ob_operation r"
    and "\<And>r. outbox_row_ok r \<Longrightarrow> outbox_row_ok (f r)"
  shows "profile_inv ((set_entity_revision k n db)\<lparr>sync_outbox := map f (sync_outbox db)\<rparr>)"
proof -
  obtain m where t: "tables_inv db" and m: "profile_meta db = Some m" "meta_ok m"
    and out: "outbox_inv (mt_device_id m) (favorites db) (sync_outbox db)"
    using assms(1) by (rule profile_invE)
  have "outbox_inv (mt_device_id m) (favorites (set_entity_revision k n db)) (map f (sync_outbox db))"
    using outbox_inv_map [OF outbox_inv_entity_revision [OF out] assms(4)] assms(5)
    by (simp add: set_entity_revision_def)
  with t m assms(2,3) show ?thesis
    by (simp add: profile_inv_def set_entity_revision_def tables_inv_entity_revision)
qed

lemma profile_inv_outbox_map:
  assumes "profile_inv db"
    and "\<And>r. ob_event_id (f r) = ob_event_id r \<and> ob_coalesce_key (f r) = ob_coalesce_key r
           \<and> ob_content_key (f r) = ob_content_key r \<and> ob_operation (f r) = ob_operation r"
    and "\<And>r. outbox_row_ok r \<Longrightarrow> outbox_row_ok (f r)"
  shows "profile_inv (db\<lparr>sync_outbox := map f (sync_outbox db)\<rparr>)"
  using assms by (auto simp: profile_inv_def intro!: outbox_inv_map)

lemma set_meta_inv:
  assumes "profile_inv db" and "\<And>m. meta_ok m \<Longrightarrow> meta_ok (f m)" and "\<And>m. mt_device_id (f m) = mt_device_id m"
  shows "profile_inv (set_meta f db)"
  by (rule profile_inv_meta [OF assms(1) _ assms(2,3)]) (simp_all add: set_meta_def)

lemma acknowledge_one_inv:
  assumes inv: "profile_inv db" and ok: "acknowledge_one now item db = Inr db'"
  shows "profile_inv db'"
proof -
  let ?e = "ae_event item" and ?k = "to_hex (oe_content_key (ae_event item))"
  from ok obtain db1 db2 where
    one: "(case pa_entity_revision (ae_acknowledgement item) of None \<Rightarrow> Inr db
             | Some n \<Rightarrow> rbind (sqlite_i64 n) (\<lambda>revision.
                 Inr ((set_entity_revision ?k revision db)\<lparr>sync_outbox := map (\<lambda>r.
                   if ob_content_key r = ?k \<and> ob_event_id r \<noteq> oe_event_id ?e
                      \<and> (ob_operation r = ''favorite_upsert'' \<or> ob_operation r = ''favorite_delete'')
                   then r\<lparr>ob_base_entity_revision := Some revision\<rparr> else r) (sync_outbox db)\<rparr>))) = Inr db1"
    and two: "(case pa_aggregate (ae_acknowledgement item) of None \<Rightarrow> Inr db1
             | Some ag \<Rightarrow> update_aggregate db1 (oe_content_key ?e) ag (ae_sent_query_count item) now) = Inr db2"
    and db': "db' = db2\<lparr>sync_outbox := filter (\<lambda>r. ob_event_id r \<noteq> oe_event_id ?e) (sync_outbox db2)\<rparr>"
    by (auto simp: acknowledge_one_def Let_def rbind_Inr split: if_splits)
  have "profile_inv db1"
  proof (cases "pa_entity_revision (ae_acknowledgement item)")
    case None
    with one inv show ?thesis by simp
  next
    case (Some n)
    with one have i: "int n \<le> i64_max" and db1: "db1 = (set_entity_revision ?k (int n) db)\<lparr>sync_outbox := map (\<lambda>r.
                   if ob_content_key r = ?k \<and> ob_event_id r \<noteq> oe_event_id ?e
                      \<and> (ob_operation r = ''favorite_upsert'' \<or> ob_operation r = ''favorite_delete'')
                   then r\<lparr>ob_base_entity_revision := Some (int n)\<rparr> else r) (sync_outbox db)\<rparr>"
      by (auto simp: rbind_Inr sqlite_i64_Inr)
    show ?thesis unfolding db1
      by (rule profile_inv_rebase [OF inv]) (use i in \<open>auto simp: outbox_row_ok_def\<close>)
  qed
  with two have "profile_inv db2" by (auto split: option.splits intro: update_aggregate_inv)
  then show ?thesis unfolding db' by (rule profile_inv_outbox_filter)
qed

lemma acknowledge_events_inv:
  assumes "profile_inv db" and "acknowledge_events db items now = Inr db'"
  shows "profile_inv db'"
proof -
  from assms(2) obtain db1 where f: "foldM (acknowledge_one now) items db = Inr db1"
    and db': "db' = set_meta (\<lambda>m. m\<lparr>mt_last_successful_sync_at := Some now, mt_last_sync_error := None,
                            mt_updated_at := now\<rparr>) db1"
    by (auto simp: acknowledge_events_def rbind_Inr)
  from f assms(1) have "profile_inv db1" by (rule foldM_invariant) (rule acknowledge_one_inv)
  then show ?thesis unfolding db' by (rule set_meta_inv) (simp_all add: meta_ok_def)
qed

lemma mark_retry_inv: "profile_inv db \<Longrightarrow> profile_inv (mark_retry db events at err now)"
proof -
  assume inv: "profile_inv db"
  let ?f = "\<lambda>event. map (\<lambda>r. if ob_event_id r = oe_event_id event
          then r\<lparr>ob_attempt_count := ob_attempt_count r + 1, ob_next_retry_at := Some at,
                 ob_last_error := Some (bounded_error err), ob_updated_at := now\<rparr> else r)"
  have "profile_inv (db\<lparr>sync_outbox := fold ?f events (sync_outbox db)\<rparr>)"
    using inv
  proof (induction events arbitrary: db)
    case Nil
    then show ?case by simp
  next
    case (Cons e es)
    have "profile_inv (db\<lparr>sync_outbox := ?f e (sync_outbox db)\<rparr>)"
      by (rule profile_inv_outbox_map [OF Cons.prems]) (auto simp: outbox_row_ok_def)
    from Cons.IH [OF this] show ?case by simp
  qed
  then show ?thesis unfolding mark_retry_def by (rule set_meta_inv) (simp_all add: meta_ok_def)
qed

lemma mark_manual_conflict_inv: "profile_inv db \<Longrightarrow> profile_inv (mark_manual_conflict db key now)"
  unfolding mark_manual_conflict_def
  by (intro set_meta_inv profile_inv_outbox_map) (auto simp: outbox_row_ok_def meta_ok_def)

lemma set_sse_connected_inv: "profile_inv db \<Longrightarrow> profile_inv (set_sse_connected db c now)"
  unfolding set_sse_connected_def by (rule set_meta_inv) (simp_all add: meta_ok_def)

lemma set_sync_error_inv: "profile_inv db \<Longrightarrow> profile_inv (set_sync_error db e now)"
  unfolding set_sync_error_def by (rule set_meta_inv) (simp_all add: meta_ok_def)

text \<open>Replacing the favorite and dropping its intent, as a converged change does.\<close>

lemma write_remote_drop_inv:
  assumes ok: "write_remote_favorite db remote now = Inr db'" and inv: "profile_inv db"
    and "remote_ok remote" and "fr_content_key remote = to_hex key"
  shows "profile_inv (outbox_delete (favorite_coalesce_key key) db')"
proof -
  obtain k t where "db' = db\<lparr>favorites := tbl_put (to_hex k) (remote_row remote) (favorites db), stats_table := t\<rparr>"
    using ok by (rule write_remote_favorite_frame) blast
  then have "sync_outbox db' = sync_outbox db" by simp
  moreover obtain dev where "outbox_inv dev (favorites db) (sync_outbox db)"
    using inv profile_inv_outbox by blast
  ultimately show ?thesis unfolding outbox_delete_def
    by (intro write_remote_inv [OF assms]) (auto simp: outbox_inv_def intro: distinct_map_filter)
qed

text \<open>A remote change meets no pending intent, an intent it fulfils, or an intent that stays.\<close>

lemma apply_remote_change_cases:
  assumes ok: "apply_remote_change u sha db change now = Inr db'"
  obtains key where "remote_ok (sc_favorite change)" "length key = 32"
      "fr_content_key (sc_favorite change) = to_hex key" "outbox_find db (favorite_coalesce_key key) = None"
      "write_remote_favorite db (sc_favorite change) now = Inr db'"
  | key row op local db1 where "remote_ok (sc_favorite change)" "length key = 32"
      "fr_content_key (sc_favorite change) = to_hex key" "outbox_find db (favorite_coalesce_key key) = Some row"
      "desired_converged op local (sc_favorite change)" "ob_operation row = outbox_as_str op"
      "write_remote_favorite db (sc_favorite change) now = Inr db1"
      "db' = outbox_delete (favorite_coalesce_key key) db1"
  | key row op local n where "remote_ok (sc_favorite change)" "length key = 32"
      "fr_content_key (sc_favorite change) = to_hex key" "outbox_find db (favorite_coalesce_key key) = Some row"
      "\<not> desired_converged op local (sc_favorite change)" "ob_operation row = outbox_as_str op"
      "n = int (fr_entity_revision (sc_favorite change))" "n \<le> i64_max"
      "update_aggregate_from_record ((set_entity_revision (to_hex key) n db)\<lparr>sync_outbox := map (\<lambda>r.
          if ob_coalesce_key r = Some (favorite_coalesce_key key)
          then r\<lparr>ob_base_entity_revision := Some n, ob_updated_at := now\<rparr>
          else r) (sync_outbox db)\<rparr>) (sc_favorite change) now = Inr db'"
proof -
  let ?remote = "sc_favorite change"
  from ok obtain key where v: "validate_remote u sha ?remote = Inr ()"
    and key: "length key = 32" "fr_content_key ?remote = to_hex key"
    by (auto simp: apply_remote_change_def Let_def rbind_Inr parse_content_key_Inr)
  have r: "remote_ok ?remote" using v by (rule validate_remote_ok)
  show thesis
  proof (cases "outbox_find db (favorite_coalesce_key key)")
    case None
    with ok v key show thesis by (intro that(1) [OF r key None]) (simp add: apply_remote_change_def)
  next
    case (Some row)
    with ok [unfolded apply_remote_change_def Let_def set_entity_revision_simps] v key obtain op local where op: "ob_operation row = outbox_as_str op" and
      rest: "(if desired_converged op local ?remote then
            rbind (write_remote_favorite db ?remote now) (\<lambda>db1. Inr (outbox_delete (favorite_coalesce_key key) db1))
          else
            rbind (sqlite_i64 (fr_entity_revision ?remote)) (\<lambda>revision.
              update_aggregate_from_record ((set_entity_revision (to_hex key) revision db)\<lparr>sync_outbox := map (\<lambda>r.
                    if ob_coalesce_key r = Some (favorite_coalesce_key key)
                    then r\<lparr>ob_base_entity_revision := Some revision, ob_updated_at := now\<rparr>
                    else r) (sync_outbox db)\<rparr>) ?remote now)) = Inr db'"
      by (auto simp: rbind_Inr ok_or_Inr parse_outbox_operation_Inr)
    show thesis
    proof (cases "desired_converged op local ?remote")
      case True
      with rest that(2) [OF r key Some True op] show thesis by (auto simp: rbind_Inr)
    next
      case False
      with rest that(3) [OF r key Some False op] show thesis by (auto simp: rbind_Inr sqlite_i64_Inr)
    qed
  qed
qed

lemma apply_remote_change_inv:
  assumes inv: "profile_inv db" and ok: "apply_remote_change u sha db change now = Inr db'"
  shows "profile_inv db'"
  using ok
proof (cases rule: apply_remote_change_cases)
  case (1 key)
  obtain dev where "outbox_inv dev (favorites db) (sync_outbox db)"
    using inv profile_inv_outbox by blast
  then have d: "distinct (map ob_event_id (sync_outbox db))" "distinct (map ob_coalesce_key (sync_outbox db))"
    by (simp_all add: outbox_inv_def)
  obtain k t where
    "db' = db\<lparr>favorites := tbl_put (to_hex k) (remote_row (sc_favorite change)) (favorites db), stats_table := t\<rparr>"
    using 1(5) by (rule write_remote_favorite_frame) blast
  then have same: "sync_outbox db' = sync_outbox db" by simp
  have "profile_inv (db'\<lparr>sync_outbox := sync_outbox db\<rparr>)"
    using 1(4) d by (intro write_remote_inv [OF 1(5) inv 1(1,3)]) (auto simp: outbox_find_None)
  then show ?thesis by (simp add: same [symmetric])
next
  case (2 key row op local db1)
  show ?thesis unfolding 2(8) by (rule write_remote_drop_inv [OF 2(7) inv 2(1,3)])
next
  case (3 key row op local n)
  then have n: "0 \<le> n" "n \<le> i64_max" by simp_all
  show ?thesis
    by (rule update_aggregate_from_record_frame(4) [OF 3(9)], rule profile_inv_rebase [OF inv n])
       (use n in \<open>auto simp: outbox_row_ok_def\<close>)
qed

lemma apply_remote_page_Inr:
  assumes "apply_remote_page u sha db changes next now = Inr db'"
  obtains m db1 where "profile_meta db = Some m" "0 \<le> mt_last_server_revision m"
    "nat (mt_last_server_revision m) \<le> next" "int next \<le> i64_max"
    "foldM (apply_page_change u sha next now) changes (db, nat (mt_last_server_revision m)) = Inr (db1, next)"
    "db' = set_meta (\<lambda>m. m\<lparr>mt_last_server_revision := int next,
                   mt_last_successful_sync_at := Some now, mt_last_sync_error := None,
                   mt_updated_at := now\<rparr>) db1"
proof -
  from assms obtain m where m: "profile_meta db = Some m"
    by (auto simp: apply_remote_page_def split: option.splits)
  with assms obtain c where c: "mt_last_server_revision m = int c"
    by (auto simp: apply_remote_page_def rbind_Inr sqlite_u64_Inr)
  with assms m that [OF m] show thesis
    by (auto simp: apply_remote_page_def rbind_Inr sqlite_u64_Inr sqlite_i64_Inr split: if_splits)
qed

lemma apply_page_change_Inr:
  "apply_page_change u sha next now c (db, expected) = Inr (db', e') \<longleftrightarrow>
     Suc expected \<le> u64_max \<and> sc_revision c = Suc expected \<and> sc_revision c \<le> next
     \<and> apply_remote_change u sha db c now = Inr db' \<and> e' = sc_revision c"
  by (auto simp: apply_page_change_def rbind_Inr ok_or_Inr)

lemma apply_page_inv:
  assumes "foldM (apply_page_change u sha next now) changes st = Inr st'" and "profile_inv (fst st)"
  shows "profile_inv (fst st')"
  using assms
proof (rule foldM_invariant)
  fix c s t assume "profile_inv (fst s)" "apply_page_change u sha next now c s = Inr t"
  then show "profile_inv (fst t)"
    by (cases s; cases t) (auto simp: apply_page_change_Inr intro: apply_remote_change_inv)
qed

lemma apply_remote_page_inv:
  assumes "profile_inv db" and "apply_remote_page u sha db changes next now = Inr db'"
  shows "profile_inv db'"
  using assms(2)
proof (rule apply_remote_page_Inr)
  fix m db1
  assume n: "int next \<le> i64_max"
    and loop: "foldM (apply_page_change u sha next now) changes (db, nat (mt_last_server_revision m)) = Inr (db1, next)"
    and db': "db' = set_meta (\<lambda>m. m\<lparr>mt_last_server_revision := int next,
                   mt_last_successful_sync_at := Some now, mt_last_sync_error := None, mt_updated_at := now\<rparr>) db1"
  have "profile_inv db1" using apply_page_inv [OF loop] assms(1) by simp
  then show ?thesis unfolding db' by (rule set_meta_inv) (simp_all add: meta_ok_def n)
qed

text \<open>The four ways a conflict is settled.\<close>

lemma resolve_conflict_cases:
  assumes ok: "resolve_conflict db event current now = Inr (res, db')"
  obtains (gone) "current = None" "res = ManualRetryRequired"
      "db' = mark_manual_conflict db (oe_content_key event) now"
  | (converged) r db1 local where "current = Some r" "res = Converged"
      "local_favorite db (oe_content_key event) = Inr (Some local)"
      "desired_converged (oe_operation event) local r" "write_remote_favorite db r now = Inr db1"
      "db' = outbox_delete (favorite_coalesce_key (oe_content_key event)) db1"
  | (replay) r row db1 n where "current = Some r" "res = ReplayPrepared"
      "outbox_find db (favorite_coalesce_key (oe_content_key event)) = Some row"
      "ob_conflict_replay_count row = 0" "update_aggregate_from_record db r now = Inr db1"
      "n = int (fr_entity_revision r)" "n \<le> i64_max"
      "db' = (set_entity_revision (to_hex (oe_content_key event)) n db1)\<lparr>sync_outbox := map (\<lambda>r.
          if ob_coalesce_key r = Some (favorite_coalesce_key (oe_content_key event))
          then r\<lparr>ob_base_entity_revision := Some n, ob_conflict_replay_count := 1,
                 ob_attempt_count := 0, ob_next_retry_at := None, ob_last_error := None,
                 ob_updated_at := now\<rparr>
          else r) (sync_outbox db1)\<rparr>"
  | (manual) r row db1 where "current = Some r" "res = ManualRetryRequired"
      "outbox_find db (favorite_coalesce_key (oe_content_key event)) = Some row"
      "ob_conflict_replay_count row \<noteq> 0" "update_aggregate_from_record db r now = Inr db1"
      "db' = mark_manual_conflict db1 (oe_content_key event) now"
proof -
  let ?key = "oe_content_key event"
  from ok obtain local where loc: "local_favorite db ?key = Inr (Some local)"
    and op: "oe_operation event \<noteq> OutQueryStatsUpsert"
    by (auto simp: resolve_conflict_def Let_def rbind_Inr ok_or_Inr split: if_splits)
  show thesis
  proof (cases current)
    case None
    with ok loc op show thesis by (intro gone) (auto simp: resolve_conflict_def Let_def)
  next
    case (Some r)
    show thesis
    proof (cases "desired_converged (oe_operation event) local r")
      case True
      with ok loc op Some converged [OF Some _ loc True] show thesis
        by (auto simp: resolve_conflict_def Let_def rbind_Inr)
    next
      case False
      with ok loc op Some obtain row where row: "outbox_find db (favorite_coalesce_key ?key) = Some row"
        by (auto simp: resolve_conflict_def Let_def rbind_Inr ok_or_Inr)
      with ok loc op Some False obtain db1 where up: "update_aggregate_from_record db r now = Inr db1"
        by (auto simp: resolve_conflict_def Let_def rbind_Inr)
      note unfolded = ok [unfolded resolve_conflict_def Let_def set_entity_revision_simps]
      show thesis
      proof (cases "ob_conflict_replay_count row = 0")
        case True
        show thesis
          by (rule replay [OF Some _ row True up]) (use unfolded loc op Some False row up True in
              \<open>auto simp: rbind_Inr sqlite_i64_Inr\<close>)
      next
        case count: False
        show thesis
          by (rule manual [OF Some _ row count up]) (use unfolded loc op Some False row up count in auto)
      qed
    qed
  qed
qed

lemma resolve_conflict_inv:
  assumes inv: "profile_inv db" and ok: "resolve_conflict db event current now = Inr (res, db')"
    and remote: "\<And>r. current = Some r \<Longrightarrow> remote_ok r \<and> fr_content_key r = to_hex (oe_content_key event)"
  shows "profile_inv db'"
  using ok
proof (cases rule: resolve_conflict_cases)
  case gone
  with inv show ?thesis by (simp add: mark_manual_conflict_inv)
next
  case (converged r db1 local)
  with remote show ?thesis using write_remote_drop_inv [OF converged(5) inv] by auto
next
  case (replay r row db1 n)
  have "profile_inv db1" using replay(5) inv by (rule update_aggregate_from_record_frame(4))
  moreover have n: "0 \<le> n" "n \<le> i64_max" using replay(6,7) by simp_all
  ultimately show ?thesis unfolding replay(8)
    by (rule profile_inv_rebase) (use n in \<open>auto simp: outbox_row_ok_def\<close>)
next
  case (manual r row db1)
  have "profile_inv db1" using manual(5) inv by (rule update_aggregate_from_record_frame(4))
  then show ?thesis unfolding manual(6) by (rule mark_manual_conflict_inv)
qed

section \<open>The Profile as a transition system\<close>

text \<open>Every call that writes the Profile database, from the user interface and from the sync engine. A
  conflict carries a record of the conflicting favorite with parsed languages, as the Server
  sends it.\<close>

inductive profile_step :: "unicode_db \<Rightarrow> sha256 \<Rightarrow> uuid_parser \<Rightarrow> profile_db \<Rightarrow> profile_db \<Rightarrow> bool"
  for u sha up where
  p_query: "record_successful_query db e eid = Inr (s, db') \<Longrightarrow> history_entry_typed e \<Longrightarrow> profile_step u sha up db db'"
| p_favorite: "favorite_content db key now eid = (r, db') \<Longrightarrow> length key = 32 \<Longrightarrow> profile_step u sha up db db'"
| p_unfavorite: "unfavorite db key now eid = (r, db') \<Longrightarrow> length key = 32 \<Longrightarrow> profile_step u sha up db db'"
| p_acknowledge: "acknowledge_favorite db key n = Inr db' \<Longrightarrow> profile_step u sha up db db'"
| p_clear: "profile_step u sha up db (clear_history db)"
| p_bind: "bind_user db user name origin now = Inr db' \<Longrightarrow> profile_step u sha up db db'"
| p_account: "update_account_identity up db user name origin now = Inr db' \<Longrightarrow> profile_step u sha up db db'"
| p_device: "replace_device_identity db old new now = Inr db' \<Longrightarrow> profile_step u sha up db db'"
| p_open: "open_profile db m = Inr db' \<Longrightarrow> profile_step u sha up db db'"
| p_acks: "acknowledge_events db items now = Inr db' \<Longrightarrow> profile_step u sha up db db'"
| p_retry: "profile_step u sha up db (mark_retry db events at err now)"
| p_page: "apply_remote_page u sha db changes next now = Inr db' \<Longrightarrow> profile_step u sha up db db'"
| p_conflict: "resolve_conflict db ev current now = Inr (res, db') \<Longrightarrow>
    (\<And>r. current = Some r \<Longrightarrow> remote_ok r \<and> fr_content_key r = to_hex (oe_content_key ev)) \<Longrightarrow>
    profile_step u sha up db db'"
| p_sse: "profile_step u sha up db (set_sse_connected db c now)"
| p_error: "profile_step u sha up db (set_sync_error db err now)"

lemma profile_step_inv: "profile_step u sha up db db' \<Longrightarrow> profile_inv db \<Longrightarrow> profile_inv db'"
  by (induction rule: profile_step.induct)
     (auto intro: record_successful_query_inv favorite_content_inv unfavorite_inv acknowledge_favorite_inv
        clear_history_inv bind_user_inv update_account_identity_inv replace_device_identity_inv
        open_profile_inv acknowledge_events_inv mark_retry_inv apply_remote_page_inv
        resolve_conflict_inv set_sse_connected_inv set_sync_error_inv)

lemma profile_steps_inv: "(profile_step u sha up)\<^sup>*\<^sup>* db db' \<Longrightarrow> profile_inv db \<Longrightarrow> profile_inv db'"
  by (induction rule: rtranclp_induct) (auto intro: profile_step_inv)

section \<open>Pending intents can be pushed\<close>

lemma outbox_as_str_cases [simp]:
  "outbox_as_str op = ''favorite_upsert'' \<longleftrightarrow> op = OutFavoriteUpsert"
  "outbox_as_str op = ''favorite_delete'' \<longleftrightarrow> op = OutFavoriteDelete"
  "outbox_as_str op = ''query_stats_upsert'' \<longleftrightarrow> op = OutQueryStatsUpsert"
  by (cases op; simp)+

lemma parse_outbox_Inr:
  "parse_outbox up row = Inr e \<Longrightarrow> ob_content_key row = to_hex (oe_content_key e)
     \<and> length (oe_content_key e) = 32 \<and> ob_operation row = outbox_as_str (oe_operation e)
     \<and> ob_coalesce_key row = Some (oe_coalesce_key e)"
  by (auto simp: parse_outbox_def rbind_Inr ok_or_Inr parse_content_key_Inr parse_outbox_operation_Inr)

lemma push_event_of_total:
  assumes inv: "profile_inv db" and row: "row \<in> set (sync_outbox db)" and e: "parse_outbox up row = Inr e"
  obtains fr st where "tbl_get (favorites db) (to_hex (oe_content_key e)) = Some fr"
    "tbl_get (stats_table db) (to_hex (oe_content_key e)) = Some st"
    "oe_operation e = OutFavoriteUpsert \<Longrightarrow> rf_deleted_at fr = None"
    "oe_operation e = OutFavoriteDelete \<Longrightarrow> rf_deleted_at fr \<noteq> None"
    "favorite_by_key db (oe_content_key e) = Inr (Some (favorite_of_row (oe_content_key e) fr))"
    "query_stats_tx db (oe_content_key e) = Inr (Some (stats_of_row st))"
proof -
  obtain dev where t: "tables_inv db" and out: "outbox_inv dev (favorites db) (sync_outbox db)"
    using inv by (auto elim: profile_invE)
  note p = parse_outbox_Inr [OF e]
  from out row have "intent_ok dev (favorites db) row" by (simp add: outbox_inv_def)
  with p obtain fr where fr: "tbl_get (favorites db) (to_hex (oe_content_key e)) = Some fr"
    "oe_operation e = OutFavoriteUpsert \<Longrightarrow> rf_deleted_at fr = None"
    "oe_operation e = OutFavoriteDelete \<Longrightarrow> rf_deleted_at fr \<noteq> None"
    by (auto simp: intent_ok_def)
  from fr(1) t obtain st where st: "tbl_get (stats_table db) (to_hex (oe_content_key e)) = Some st"
    unfolding tables_inv_def tbl_has_get by blast
  show thesis
    by (rule that [OF fr(1) st fr(2,3)])
       (use t p fr(1) st in \<open>simp_all add: favorite_by_key_ok query_stats_tx_ok\<close>)
qed

section \<open>Remote pages\<close>

lemma apply_page_revisions:
  "foldM (apply_page_change u sha next now) cs (db, e) = Inr (db', e') \<Longrightarrow>
     e' = e + length cs \<and> map sc_revision cs = [Suc e..<Suc e']"
proof (induction cs arbitrary: db e)
  case Nil
  then show ?case by simp
next
  case (Cons c cs)
  then obtain db1 where "sc_revision c = Suc e"
    and rest: "foldM (apply_page_change u sha next now) cs (db1, Suc e) = Inr (db', e')"
    by (auto simp: rbind_Inr apply_page_change_Inr)
  with Cons.IH [OF rest] show ?case by (simp add: upt_conv_Cons del: upt_Suc)
qed

lemma write_remote_outbox: "write_remote_favorite db r now = Inr db' \<Longrightarrow> sync_outbox db' = sync_outbox db"
  by (erule write_remote_favorite_frame) simp

lemma update_record_simps:
  assumes "update_aggregate_from_record db r now = Inr db'"
  shows "sync_outbox db' = sync_outbox db" "favorites db' = favorites db"
  using update_aggregate_from_record_frame(1) [OF assms] by auto

text \<open>A remote change never adds an Outbox row and never renames one.\<close>

lemma apply_remote_change_outbox:
  assumes "apply_remote_change u sha db c now = Inr db'"
  shows "\<exists>f P. sync_outbox db' = map f (filter P (sync_outbox db))
     \<and> (\<forall>r. ob_event_id (f r) = ob_event_id r \<and> ob_coalesce_key (f r) = ob_coalesce_key r
          \<and> ob_operation (f r) = ob_operation r \<and> ob_payload (f r) = ob_payload r)
     \<and> (\<forall>r. \<not> P r \<longrightarrow> (\<exists>key. ob_coalesce_key r = Some (favorite_coalesce_key key)
          \<and> fr_content_key (sc_favorite c) = to_hex key))"
  using assms
proof (cases rule: apply_remote_change_cases)
  case (1 key)
  then show ?thesis
    by (intro exI [of _ id] exI [of _ "\<lambda>_. True"]) (auto dest: write_remote_outbox)
next
  case (2 key row op local db1)
  then show ?thesis
    by (intro exI [of _ id] exI [of _ "\<lambda>r. ob_coalesce_key r \<noteq> Some (favorite_coalesce_key key)"])
       (auto simp: outbox_delete_def dest: write_remote_outbox)
next
  case (3 key row op local n)
  then show ?thesis
    by (intro exI [of _ "\<lambda>r. if ob_coalesce_key r = Some (favorite_coalesce_key key)
          then r\<lparr>ob_base_entity_revision := Some n, ob_updated_at := now\<rparr> else r"] exI [of _ "\<lambda>_. True"])
       (use update_record_simps(1) [OF 3(9)] in auto)
qed

lemma apply_remote_change_absent:
  assumes "apply_remote_change u sha db c now = Inr db'" and "outbox_find db ck = None"
  shows "outbox_find db' ck = None"
  using apply_remote_change_outbox [OF assms(1)] assms(2) by (fastforce simp: outbox_find_None)

text \<open>Without a pending intent the remote record wins; other favorites are untouched.\<close>

lemma apply_remote_change_favorites:
  assumes "apply_remote_change u sha db c now = Inr db'"
  shows "fr_content_key (sc_favorite c) = to_hex key \<Longrightarrow> outbox_find db (favorite_coalesce_key key) = None \<Longrightarrow>
           tbl_get (favorites db') (to_hex key) = Some (remote_row (sc_favorite c))"
    and "fr_content_key (sc_favorite c) \<noteq> k \<Longrightarrow> tbl_get (favorites db') k = tbl_get (favorites db) k"
  using assms
proof (atomize (full), cases rule: apply_remote_change_cases)
  case (1 key')
  obtain k' t where "fr_content_key (sc_favorite c) = to_hex k'"
    "db' = db\<lparr>favorites := tbl_put (to_hex k') (remote_row (sc_favorite c)) (favorites db), stats_table := t\<rparr>"
    using 1(5) by (rule write_remote_favorite_frame) blast
  then show "(fr_content_key (sc_favorite c) = to_hex key \<longrightarrow> outbox_find db (favorite_coalesce_key key) = None \<longrightarrow>
           tbl_get (favorites db') (to_hex key) = Some (remote_row (sc_favorite c)))
      \<and> (fr_content_key (sc_favorite c) \<noteq> k \<longrightarrow> tbl_get (favorites db') k = tbl_get (favorites db) k)" by auto
next
  case (2 key' row op local db1)
  obtain k' t where "fr_content_key (sc_favorite c) = to_hex k'"
    "db1 = db\<lparr>favorites := tbl_put (to_hex k') (remote_row (sc_favorite c)) (favorites db), stats_table := t\<rparr>"
    using 2(7) by (rule write_remote_favorite_frame) blast
  then show "(fr_content_key (sc_favorite c) = to_hex key \<longrightarrow> outbox_find db (favorite_coalesce_key key) = None \<longrightarrow>
           tbl_get (favorites db') (to_hex key) = Some (remote_row (sc_favorite c)))
      \<and> (fr_content_key (sc_favorite c) \<noteq> k \<longrightarrow> tbl_get (favorites db') k = tbl_get (favorites db) k)"
    by (auto simp: 2(8) outbox_delete_def)
next
  case (3 key' row op local n)
  from update_record_simps(2) [OF 3(9)] 3(3,4)
  show "(fr_content_key (sc_favorite c) = to_hex key \<longrightarrow> outbox_find db (favorite_coalesce_key key) = None \<longrightarrow>
           tbl_get (favorites db') (to_hex key) = Some (remote_row (sc_favorite c)))
      \<and> (fr_content_key (sc_favorite c) \<noteq> k \<longrightarrow> tbl_get (favorites db') k = tbl_get (favorites db) k)"
    by (auto simp: set_entity_revision_def)
qed

text \<open>The last change of a page for a key.\<close>

definition last_change :: "string \<Rightarrow> sync_change list \<Rightarrow> sync_change option" where
  "last_change k cs = find (\<lambda>c. fr_content_key (sc_favorite c) = k) (rev cs)"

lemma find_append: "find P (xs @ ys) = (case find P xs of None \<Rightarrow> find P ys | Some x \<Rightarrow> Some x)"
  by (induction xs) auto

lemma last_change_Cons: "last_change k (c # cs) = (case last_change k cs of
    None \<Rightarrow> if fr_content_key (sc_favorite c) = k then Some c else None | Some d \<Rightarrow> Some d)"
  by (simp add: last_change_def find_append split: option.splits)

lemma apply_page_replica:
  assumes "foldM (apply_page_change u sha next now) cs (db, e) = Inr (db', e')"
    and "outbox_find db (favorite_coalesce_key key) = None"
  shows "outbox_find db' (favorite_coalesce_key key) = None
     \<and> tbl_get (favorites db') (to_hex key) = (case last_change (to_hex key) cs of
          None \<Rightarrow> tbl_get (favorites db) (to_hex key) | Some c \<Rightarrow> Some (remote_row (sc_favorite c)))"
  using assms
proof (induction cs arbitrary: db e)
  case Nil
  then show ?case by (simp add: last_change_def)
next
  case (Cons c cs)
  then obtain db1 where one: "apply_remote_change u sha db c now = Inr db1"
    and rest: "foldM (apply_page_change u sha next now) cs (db1, Suc e) = Inr (db', e')"
    by (auto simp: rbind_Inr apply_page_change_Inr)
  have none: "outbox_find db1 (favorite_coalesce_key key) = None"
    using one Cons.prems(2) by (rule apply_remote_change_absent)
  from Cons.IH [OF rest none] apply_remote_change_favorites(1) [OF one, of key] Cons.prems(2)
    apply_remote_change_favorites(2) [OF one, of "to_hex key"]
  show ?case by (auto simp: last_change_Cons split: option.splits)
qed

text \<open>A favorite whose intent stays pending keeps everything but its revision.\<close>

definition same_but_revision :: "favorite_row option \<Rightarrow> favorite_row option \<Rightarrow> bool" where
  "same_but_revision a b \<longleftrightarrow> map_option (rf_entity_revision_update (\<lambda>_. 0)) a
     = map_option (rf_entity_revision_update (\<lambda>_. 0)) b"

lemma same_but_revision_refl [simp]: "same_but_revision a a"
  by (simp add: same_but_revision_def)

lemma same_but_revision_trans: "same_but_revision a b \<Longrightarrow> same_but_revision b c \<Longrightarrow> same_but_revision a c"
  by (simp add: same_but_revision_def)

lemma profile_inv_distinct: "profile_inv db \<Longrightarrow> distinct (map ob_coalesce_key (sync_outbox db))"
  by (auto simp: profile_inv_def outbox_inv_def)

lemma apply_remote_change_intent:
  assumes inv: "profile_inv db" and ok: "apply_remote_change u sha db c now = Inr db'"
    and r': "outbox_find db' (favorite_coalesce_key key) = Some r'"
  obtains r where "outbox_find db (favorite_coalesce_key key) = Some r" "ob_event_id r' = ob_event_id r"
    "ob_operation r' = ob_operation r"
    "same_but_revision (tbl_get (favorites db) (to_hex key)) (tbl_get (favorites db') (to_hex key))"
proof -
  have d: "distinct (map ob_coalesce_key (sync_outbox db))" "distinct (map ob_coalesce_key (sync_outbox db'))"
    using inv apply_remote_change_inv [OF inv ok] by (simp_all add: profile_inv_distinct)
  from r' d(2) have m: "r' \<in> set (sync_outbox db')" "ob_coalesce_key r' = Some (favorite_coalesce_key key)"
    by (simp_all add: outbox_find_Some)
  from apply_remote_change_outbox [OF ok] obtain f P where f: "sync_outbox db' = map f (filter P (sync_outbox db))"
    "\<And>r. ob_event_id (f r) = ob_event_id r \<and> ob_coalesce_key (f r) = ob_coalesce_key r
          \<and> ob_operation (f r) = ob_operation r \<and> ob_payload (f r) = ob_payload r" by blast
  with m obtain r where r: "r \<in> set (sync_outbox db)" "r' = f r" by auto
  then have find: "outbox_find db (favorite_coalesce_key key) = Some r"
    using f(2) [of r] m(2) d(1) by (simp add: outbox_find_Some)
  have "same_but_revision (tbl_get (favorites db) (to_hex key)) (tbl_get (favorites db') (to_hex key))"
  proof (cases "fr_content_key (sc_favorite c) = to_hex key")
    case False
    from apply_remote_change_favorites(2) [OF ok False] show ?thesis by simp
  next
    case True
    from ok show ?thesis
    proof (cases rule: apply_remote_change_cases)
      case (1 k)
      with True find show ?thesis by simp
    next
      case (2 k row op local db1)
      with True have "outbox_find db' (favorite_coalesce_key key) = None"
        by (auto simp: outbox_find_None outbox_delete_def)
      with r' show ?thesis by simp
    next
      case (3 k row op local n)
      with True update_record_simps(2) [OF 3(9)] show ?thesis
        by (auto simp: same_but_revision_def set_entity_revision_def option.map_comp comp_def)
    qed
  qed
  with find f(2) [of r] r(2) show thesis by (intro that) auto
qed

lemma apply_page_intent:
  assumes "foldM (apply_page_change u sha next now) cs (db, e) = Inr (db', e')" and "profile_inv db"
    and "outbox_find db' (favorite_coalesce_key key) = Some r'"
  shows "\<exists>r. outbox_find db (favorite_coalesce_key key) = Some r \<and> ob_event_id r' = ob_event_id r
     \<and> ob_operation r' = ob_operation r
     \<and> same_but_revision (tbl_get (favorites db) (to_hex key)) (tbl_get (favorites db') (to_hex key))"
  using assms
proof (induction cs arbitrary: db e)
  case Nil
  then show ?case by simp
next
  case (Cons c cs)
  then obtain db1 where one: "apply_remote_change u sha db c now = Inr db1"
    and rest: "foldM (apply_page_change u sha next now) cs (db1, Suc e) = Inr (db', e')"
    by (auto simp: rbind_Inr apply_page_change_Inr)
  have inv1: "profile_inv db1" using Cons.prems(2) one by (rule apply_remote_change_inv)
  from Cons.IH [OF rest inv1 Cons.prems(3)] obtain r1 where r1:
    "outbox_find db1 (favorite_coalesce_key key) = Some r1" "ob_event_id r' = ob_event_id r1"
    "ob_operation r' = ob_operation r1"
    "same_but_revision (tbl_get (favorites db1) (to_hex key)) (tbl_get (favorites db') (to_hex key))" by blast
  from apply_remote_change_intent [OF Cons.prems(2) one r1(1)] r1 same_but_revision_trans
  show ?case by metis
qed

lemma apply_remote_change_meta:
  assumes "apply_remote_change u sha db c now = Inr db'"
  shows "profile_meta db' = profile_meta db"
  using assms
proof (cases rule: apply_remote_change_cases)
  case (1 key)
  from 1(5) show ?thesis by (rule write_remote_favorite_frame) simp
next
  case (2 key row op local db1)
  from 2(7) show ?thesis by (rule write_remote_favorite_frame) (simp add: 2(8) outbox_delete_def)
next
  case (3 key row op local n)
  from update_aggregate_from_record_frame(1) [OF 3(9)] show ?thesis by auto
qed

lemma apply_page_outbox_ids:
  assumes "foldM (apply_page_change u sha next now) cs st = Inr st'"
  shows "set (map ob_event_id (sync_outbox (fst st'))) \<subseteq> set (map ob_event_id (sync_outbox (fst st)))
     \<and> profile_meta (fst st') = profile_meta (fst st)"
  using assms
proof (rule foldM_invariant)
  fix c s t
  assume I: "set (map ob_event_id (sync_outbox (fst s))) \<subseteq> set (map ob_event_id (sync_outbox (fst st)))
     \<and> profile_meta (fst s) = profile_meta (fst st)" and ok: "apply_page_change u sha next now c s = Inr t"
  then have one: "apply_remote_change u sha (fst s) c now = Inr (fst t)"
    by (cases s; cases t) (simp add: apply_page_change_Inr)
  from apply_remote_change_outbox [OF one] have
    "set (map ob_event_id (sync_outbox (fst t))) \<subseteq> set (map ob_event_id (sync_outbox (fst s)))" by fastforce
  moreover have "profile_meta (fst t) = profile_meta (fst s)" using one by (rule apply_remote_change_meta)
  ultimately show "set (map ob_event_id (sync_outbox (fst t))) \<subseteq> set (map ob_event_id (sync_outbox (fst st)))
     \<and> profile_meta (fst t) = profile_meta (fst st)" using I by auto
qed simp

section \<open>Acknowledgements\<close>

lemma acknowledge_one_rows:
  assumes "acknowledge_one now item db = Inr db'"
  shows "map (\<lambda>r. (ob_event_id r, ob_operation r, ob_coalesce_key r)) (sync_outbox db')
     = filter (\<lambda>(i, _). i \<noteq> oe_event_id (ae_event item))
         (map (\<lambda>r. (ob_event_id r, ob_operation r, ob_coalesce_key r)) (sync_outbox db))"
proof -
  let ?e = "ae_event item" and ?k = "to_hex (oe_content_key (ae_event item))"
  let ?p = "\<lambda>r. (ob_event_id r, ob_operation r, ob_coalesce_key r)"
  from assms obtain db1 db2 where
    one: "(case pa_entity_revision (ae_acknowledgement item) of None \<Rightarrow> Inr db
             | Some n \<Rightarrow> rbind (sqlite_i64 n) (\<lambda>revision.
                 Inr ((set_entity_revision ?k revision db)\<lparr>sync_outbox := map (\<lambda>r.
                   if ob_content_key r = ?k \<and> ob_event_id r \<noteq> oe_event_id ?e
                      \<and> (ob_operation r = ''favorite_upsert'' \<or> ob_operation r = ''favorite_delete'')
                   then r\<lparr>ob_base_entity_revision := Some revision\<rparr> else r) (sync_outbox db)\<rparr>))) = Inr db1"
    and two: "(case pa_aggregate (ae_acknowledgement item) of None \<Rightarrow> Inr db1
             | Some ag \<Rightarrow> update_aggregate db1 (oe_content_key ?e) ag (ae_sent_query_count item) now) = Inr db2"
    and db': "db' = db2\<lparr>sync_outbox := filter (\<lambda>r. ob_event_id r \<noteq> oe_event_id ?e) (sync_outbox db2)\<rparr>"
    by (auto simp: acknowledge_one_def Let_def rbind_Inr split: if_splits)
  have "map ?p (sync_outbox db1) = map ?p (sync_outbox db)"
    using one by (auto split: option.splits simp: rbind_Inr)
  moreover have "sync_outbox db2 = sync_outbox db1"
    using two by (auto split: option.splits dest!: update_aggregate_frame)
  moreover have p: "map ?p (filter (\<lambda>r. ob_event_id r \<noteq> i) xs) = filter (\<lambda>(j, _). j \<noteq> i) (map ?p xs)" for xs i
    by (induction xs) auto
  have "map ?p (sync_outbox db') = filter (\<lambda>(j, _). j \<noteq> oe_event_id ?e) (map ?p (sync_outbox db2))"
    unfolding db' using p by simp
  ultimately show ?thesis by simp
qed

lemma acknowledge_loop_rows:
  "foldM (acknowledge_one now) items db = Inr db' \<Longrightarrow>
     map (\<lambda>r. (ob_event_id r, ob_operation r, ob_coalesce_key r)) (sync_outbox db')
     = filter (\<lambda>(i, _). i \<notin> set (map (\<lambda>x. oe_event_id (ae_event x)) items))
         (map (\<lambda>r. (ob_event_id r, ob_operation r, ob_coalesce_key r)) (sync_outbox db))"
proof (induction items arbitrary: db)
  case Nil
  then show ?case by (simp add: case_prod_unfold)
next
  case (Cons x xs)
  then obtain db1 where one: "acknowledge_one now x db = Inr db1"
    and rest: "foldM (acknowledge_one now) xs db1 = Inr db'" by (auto simp: rbind_Inr)
  show ?case unfolding Cons.IH [OF rest] acknowledge_one_rows [OF one]
    by (auto simp: case_prod_unfold intro: filter_cong)
qed

end
