(* ===== verification/Profile_Properties.thy ===== *)
theory Profile_Properties
  imports Profile_Sync
begin

text \<open>
  What the Profile database promises to the user and to the sync engine, stated over the transactions
  of \<open>Profile_Db\<close> and \<open>Profile_Sync\<close>, with one small Profile on which every statement is instantiated.
\<close>

section \<open>An example Profile\<close>

definition example_content_key :: content_key where
  "example_content_key = replicate 32 0"

definition example_profile_sha :: sha256 where
  "example_profile_sha bytes = example_content_key"

definition example_entry :: history_entry where
  "example_entry = \<lparr>he_content = \<lparr>stc_content_key = example_content_key, stc_key_version = 1,
       stc_kind = Word, stc_source_lang = ''en'', stc_source_text = [97], stc_canonical_text = [97]\<rparr>,
     he_translation = \<lparr>ts_target_lang = ''zh'', ts_translation = [98], ts_provider = ''p'',
       ts_updated_at = 5\<rparr>,
     he_last_queried_at = 5\<rparr>"

definition example_metadata :: profile_metadata where
  "example_metadata = \<lparr>pm_profile_id = ''p1'', pm_user_id = None, pm_username = None,
     pm_device_id = ''d1'', pm_platform = ''macos'', pm_server_origin = None,
     pm_last_server_revision = 0, pm_created_at = 1, pm_updated_at = 1\<rparr>"

definition example_meta :: meta_row where
  "example_meta = \<lparr>mt_profile_id = ''p1'', mt_user_id = None, mt_username = None,
     mt_device_id = ''d1'', mt_platform = ''macos'', mt_server_origin = None,
     mt_last_server_revision = 0, mt_created_at = 1, mt_updated_at = 1,
     mt_last_successful_sync_at = None, mt_last_sync_error = None, mt_sse_connected = False\<rparr>"

definition example_fresh :: profile_db where
  "example_fresh = migrated_profile_db\<lparr>profile_meta := Some example_meta\<rparr>"

lemma example_key_length [simp]: "length example_content_key = 32"
  by (simp add: example_content_key_def)

lemma example_lang [simp]: "parse_language_code ''en'' = Inr ''en''" "parse_language_code ''zh'' = Inr ''zh''"
  by code_simp+

lemma example_open: "open_profile migrated_profile_db example_metadata = Inr example_fresh"
  by (simp add: open_profile_def validate_profile_metadata_def upsert_or_validate_profile_def example_metadata_def
     example_fresh_def example_meta_def nil_uuid_def migrated_profile_db_def sqlite_i64_def i64_of_u64_def i64_max_def)

definition example_history :: history_row where
  "example_history = \<lparr>hr_key_version = 1, hr_kind = ''word'', hr_source_lang = ''en'', hr_target_lang = ''zh'',
     hr_source_text = [97], hr_canonical_text = [97], hr_translation = [98], hr_provider = ''p'',
     hr_last_queried_at = 5, hr_translation_updated_at = 5\<rparr>"

definition example_stats :: stats_row where
  "example_stats = \<lparr>sr_device_query_count = 1, sr_first_queried_at = 5, sr_last_queried_at = 5,
     sr_last_synced_device_query_count = 0, sr_server_total_query_count = 0,
     sr_server_first_queried_at = None, sr_server_last_queried_at = None, sr_server_snapshot_at = None\<rparr>"

definition example_queried :: profile_db where
  "example_queried = example_fresh\<lparr>history_entries := [(to_hex example_content_key, example_history)],
     stats_table := [(to_hex example_content_key, example_stats)]\<rparr>"

lemma example_query:
  "record_successful_query example_fresh example_entry ''q1'' = Inr (stats_of_row example_stats, example_queried)"
  by (simp add: record_successful_query_def example_fresh_def migrated_profile_db_def example_entry_def Let_def
    upsert_history_def count_query_def query_stats_tx_def example_queried_def example_history_def example_stats_def
    tbl_put_def tbl_get_def tbl_has_def parse_query_stats_def stats_of_row_def sqlite_u64_def u64_of_i64_def)

definition example_favorite :: favorite_row where
  "example_favorite = \<lparr>rf_key_version = 1, rf_kind = ''word'', rf_source_lang = ''en'', rf_target_lang = ''zh'',
     rf_source_text = [97], rf_canonical_text = [97], rf_translation = [98], rf_provider = ''p'',
     rf_created_at = 10, rf_updated_at = 10, rf_deleted_at = None, rf_entity_revision = 0\<rparr>"

definition example_intent :: outbox_row where
  "example_intent = \<lparr>ob_event_id = ''e1'', ob_content_key = to_hex example_content_key,
     ob_operation = ''favorite_upsert'',
     ob_payload = Some (FavoritePayload \<lparr>fp_content_key = to_hex example_content_key,
       fp_desired_state = ''active'', fp_base_entity_revision = 0,
       fp_query_stats = stats_payload example_content_key (stats_of_row example_stats)\<rparr>),
     ob_coalesce_key = Some (favorite_coalesce_key example_content_key),
     ob_base_entity_revision = Some 0, ob_created_at = 10, ob_updated_at = 10, ob_attempt_count = 0,
     ob_next_retry_at = None, ob_last_error = None, ob_conflict_replay_count = 0\<rparr>"

definition example_favorited :: profile_db where
  "example_favorited = example_queried\<lparr>favorites := [(to_hex example_content_key, example_favorite)],
     sync_outbox := [example_intent]\<rparr>"

lemma example_favorite_step:
  "favorite_content example_queried example_content_key 10 ''e1''
     = (Inr (favorite_of_row example_content_key example_favorite), example_favorited)"
  by (simp add: parse_language_def favorite_content_def favorite_from_history_tx_def favorite_write_def history_by_key_def
    query_stats_tx_def favorite_by_key_def upsert_favorite_event_def upsert_outbox_def outbox_find_def
    outbox_has_event_def example_queried_def example_fresh_def migrated_profile_db_def
    tbl_get_def tbl_put_def opt_transpose_def parse_history_def example_history_def Let_def
    parse_query_stats_def example_stats_def sqlite_u64_def u64_of_i64_def sqlite_i64_def i64_of_u64_def i64_max_def
    u32_of_i64_def u32_max_def parse_kind_def parse_favorite_def favorite_of_row_def example_favorited_def
    example_favorite_def example_intent_def stats_of_row_def kind_of_def lang_of_def stats_payload_def)

lemma example_fresh_inv: "profile_inv example_fresh"
  using example_open by (intro open_profile_inv [of migrated_profile_db]) simp_all

lemma example_entry_typed: "history_entry_typed example_entry"
  by (simp add: history_entry_typed_def example_entry_def u32_max_def lang_text_def)

lemma example_queried_inv: "profile_inv example_queried"
  using record_successful_query_inv [OF example_fresh_inv example_entry_typed] example_query by blast

lemma example_favorited_inv: "profile_inv example_favorited"
  by (rule favorite_content_inv [OF example_queried_inv _ example_favorite_step]) simp

text \<open>The Server's record of that favorite, deleted there, as the first change of its log.\<close>

definition example_remote :: favorite_record where
  "example_remote = \<lparr>fr_content_key = to_hex example_content_key, fr_key_version = 1,
     fr_favorite = \<lparr>fs_kind = ''word'', fs_source_lang = ''en'', fs_target_lang = ''zh'',
       fs_source_text = [97], fs_canonical_text = [97], fs_translation = [98], fs_provider = ''p'',
       fs_favorited_at = 7, fs_updated_at = 8\<rparr>,
     fr_deleted_at = None, fr_entity_revision = 1, fr_server_received_at = 9, fr_aggregate = None\<rparr>"

definition example_change :: sync_change where
  "example_change = \<lparr>sc_revision = 1, sc_operation = FavoriteUpsert, sc_favorite = example_remote\<rparr>"

definition example_page :: "profile_db \<Rightarrow> storage_error + profile_db" where
  "example_page db = apply_remote_page ascii_unicode_db example_profile_sha db [example_change] 1 20"

lemma example_prepared:
  "prepare_content ascii_unicode_db example_profile_sha [97] ''en'' max_remote_content_characters
     = Inr \<lparr>pc_source_text = [97], pc_canonical = \<lparr>cc_key_version = content_key_version,
          cc_normalization_version = normalization_version, cc_kind = Word, cc_source_lang = ''en'', cc_text = [97]\<rparr>,
          pc_content_key = example_content_key\<rparr>"
  by (simp add: prepare_content_def clean_control_characters_def is_control_def is_whitespace_def
        trim_def trim_end_matches_def ascii_unicode_db_def classify_def is_word_character_def
        trim_terminal_word_punctuation_def is_terminal_punctuation_def is_alphanumeric_def
        canonicalize_def collapse_whitespace_def split_whitespace_def Let_def
        max_remote_content_characters_def canonical_content_key_def example_profile_sha_def)

lemma example_remote_valid: "validate_remote ascii_unicode_db example_profile_sha example_remote = Inr ()"
  by (simp add: validate_remote_def example_remote_def content_key_version_def
        example_prepared [unfolded content_key_version_def])

text \<open>The page on a Profile without intents writes the record; on one with an unconverged intent it
  only moves the base revision.\<close>

definition example_pulled :: profile_db where
  "example_pulled = example_queried\<lparr>favorites := [(to_hex example_content_key, remote_row example_remote)],
     profile_meta := Some (example_meta\<lparr>mt_last_server_revision := 1, mt_last_successful_sync_at := Some 20,
       mt_updated_at := 20\<rparr>)\<rparr>"

definition example_rebased :: profile_db where
  "example_rebased = example_queried\<lparr>
     favorites := [(to_hex example_content_key, example_favorite\<lparr>rf_entity_revision := 1\<rparr>)],
     sync_outbox := [example_intent\<lparr>ob_base_entity_revision := Some 1, ob_updated_at := 20\<rparr>],
     profile_meta := Some (example_meta\<lparr>mt_last_server_revision := 1, mt_last_successful_sync_at := Some 20,
       mt_updated_at := 20\<rparr>)\<rparr>"

lemmas example_page_eval = example_page_def apply_remote_page_def apply_page_change_def apply_remote_change_def
  example_change_def sqlite_u64_def u64_of_i64_def sqlite_i64_def i64_of_u64_def i64_max_def
  checked_add_u64_code outbox_find_def example_meta_def set_meta_def Let_def
  update_aggregate_from_record_def example_queried_def example_fresh_def migrated_profile_db_def

lemma example_page_queried: "example_page example_queried = Inr example_pulled"
  using example_remote_valid
  by (simp add: example_page_eval write_remote_favorite_def example_remote_def tbl_put_def tbl_has_def
      example_pulled_def remote_row_def)

lemma example_page_favorited: "example_page example_favorited = Inr example_rebased"
  using example_remote_valid
  by (simp add: example_page_eval example_favorited_def example_intent_def parse_outbox_operation_def
      local_favorite_def tbl_get_def example_favorite_def desired_converged_def protocol_snapshot_def
      example_remote_def set_entity_revision_def tbl_modify_def tbl_update_all_def example_rebased_def
      parse_kind_def u32_of_i64_code)

section \<open>Properties\<close>

text \<open>
  C10: whatever sequence of queries, favorites, imports of remote pages, acknowledgements, conflicts,
  retries and identity changes a Profile goes through, its database stays consistent: every row
  parses, favorites and history have statistics, and the Outbox holds at most one intent per key,
  an upsert for an active favorite and a deletion for a tombstone.
\<close>

theorem profile_store_invariant:
  assumes "open_profile migrated_profile_db m = Inr db0" and "(profile_step u sha up)\<^sup>*\<^sup>* db0 db"
  shows "profile_inv db"
  using profile_steps_inv [OF assms(2)] open_profile_inv [OF _ assms(1)] by simp

theorem profile_store_invariant_witness: "profile_inv example_favorited"
proof -
  have "profile_step ascii_unicode_db example_profile_sha Some example_fresh example_queried"
    using example_query example_entry_typed by (rule p_query)
  moreover have "profile_step ascii_unicode_db example_profile_sha Some example_queried example_favorited"
    using example_favorite_step by (rule p_favorite) simp
  ultimately have "(profile_step ascii_unicode_db example_profile_sha Some)\<^sup>*\<^sup>* example_fresh example_favorited"
    by (meson converse_rtranclp_into_rtranclp rtranclp.rtrancl_refl)
  with example_open show ?thesis by (rule profile_store_invariant)
qed

text \<open>
  A pending favorite intent can always be pushed. In a consistent Profile every Outbox row for
  a favorite becomes a protocol event: an upsert carries the active favorite's snapshot, a deletion
  none; the device's query count goes with it when there is one.
\<close>

theorem pending_favorite_pushable:
  assumes "profile_inv db" and "row \<in> set (sync_outbox db)" and "parse_outbox up row = Inr e"
    and "oe_operation e \<noteq> OutQueryStatsUpsert"
  shows "\<exists>pe. push_event_of db e = Inr pe \<and> pe_event_id pe = oe_event_id e
     \<and> pe_content_key pe = ob_content_key row
     \<and> pe_operation pe = protocol_operation (oe_operation e)
     \<and> (pe_favorite pe \<noteq> None \<longleftrightarrow> oe_operation e = OutFavoriteUpsert)"
proof -
  from assms(1-3) show ?thesis
  proof (rule push_event_of_total)
    fix fr st
    assume "oe_operation e = OutFavoriteUpsert \<Longrightarrow> rf_deleted_at fr = None"
      "favorite_by_key db (oe_content_key e) = Inr (Some (favorite_of_row (oe_content_key e) fr))"
      "query_stats_tx db (oe_content_key e) = Inr (Some (stats_of_row st))"
    note facts = this
    have key: "ob_content_key row = to_hex (oe_content_key e)" using parse_outbox_Inr [OF assms(3)] by simp
    show ?thesis
    proof (cases "oe_operation e")
      case OutFavoriteUpsert
      from facts(1) [OF this] have "rf_deleted_at fr = None" .
      with OutFavoriteUpsert facts(2,3) key show ?thesis
        by (simp add: push_event_of_def favorite_of_row_def)
    next
      case OutFavoriteDelete
      with facts(2,3) key show ?thesis by (simp add: push_event_of_def)
    next
      case OutQueryStatsUpsert
      with assms(4) show ?thesis by simp
    qed
  qed
qed

theorem pending_favorite_pushable_witness:
  "\<exists>e pe. parse_outbox Some example_intent = Inr e \<and> push_event_of example_favorited e = Inr pe
     \<and> pe_favorite pe \<noteq> None"
proof -
  obtain e where e: "parse_outbox Some example_intent = Inr e" "oe_operation e = OutFavoriteUpsert"
    by (simp add: parse_outbox_def example_intent_def parse_uuid_def ok_or_def parse_outbox_operation_def
        sqlite_u64_def u64_of_i64_def u32_of_i64_code)
  have "example_intent \<in> set (sync_outbox example_favorited)" by (simp add: example_favorited_def)
  from pending_favorite_pushable [OF example_favorited_inv this e(1)] e show ?thesis by auto
qed

text \<open>
  C11: a remote page is applied as a whole or not at all, and only in sequence. When
  \<open>apply_remote_page\<close> succeeds, the page held exactly the revisions from the stored cursor to the
  new one, the cursor is the new one, and no Outbox event was created.
\<close>

theorem remote_page_in_sequence:
  assumes "profile_meta db = Some m" and "apply_remote_page u sha db changes next now = Inr db'"
  shows "map sc_revision changes = [Suc (nat (mt_last_server_revision m))..<Suc next]
     \<and> (\<exists>m'. profile_meta db' = Some m' \<and> mt_last_server_revision m' = int next
          \<and> mt_last_sync_error m' = None \<and> mt_device_id m' = mt_device_id m)
     \<and> set (map ob_event_id (sync_outbox db')) \<subseteq> set (map ob_event_id (sync_outbox db))"
  using assms(2)
proof (rule apply_remote_page_Inr)
  fix m0 db1
  assume m0: "profile_meta db = Some m0" "0 \<le> mt_last_server_revision m0"
    and loop: "foldM (apply_page_change u sha next now) changes (db, nat (mt_last_server_revision m0)) = Inr (db1, next)"
    and db': "db' = set_meta (\<lambda>m. m\<lparr>mt_last_server_revision := int next,
                   mt_last_successful_sync_at := Some now, mt_last_sync_error := None, mt_updated_at := now\<rparr>) db1"
  from assms(1) m0(1) have m: "m0 = m" by simp
  from apply_page_revisions [OF loop] have revs: "map sc_revision changes = [Suc (nat (mt_last_server_revision m))..<Suc next]"
    unfolding m by simp
  from apply_page_outbox_ids [OF loop] have ids: "set (map ob_event_id (sync_outbox db1)) \<subseteq> set (map ob_event_id (sync_outbox db))"
    and meta: "profile_meta db1 = Some m" using assms(1) by simp_all
  have "profile_meta db' = Some (m\<lparr>mt_last_server_revision := int next,
      mt_last_successful_sync_at := Some now, mt_last_sync_error := None, mt_updated_at := now\<rparr>)"
    "sync_outbox db' = sync_outbox db1"
    unfolding db' using meta by (simp_all add: set_meta_def)
  with revs ids show ?thesis by simp
qed

theorem remote_page_in_sequence_witness:
  "\<exists>m'. profile_meta example_rebased = Some m' \<and> mt_last_server_revision m' = int 1
     \<and> mt_last_sync_error m' = None \<and> mt_device_id m' = mt_device_id example_meta"
proof -
  have "profile_meta example_favorited = Some example_meta"
    by (simp add: example_favorited_def example_queried_def example_fresh_def)
  from remote_page_in_sequence [OF this example_page_favorited [unfolded example_page_def]] show ?thesis by blast
qed

lemma apply_remote_page_replica:
  assumes "apply_remote_page u sha db changes next now = Inr db'"
    and "outbox_find db (favorite_coalesce_key key) = None"
  shows "tbl_get (favorites db') (to_hex key) = (case last_change (to_hex key) changes of
            None \<Rightarrow> tbl_get (favorites db) (to_hex key) | Some c \<Rightarrow> Some (remote_row (sc_favorite c)))
     \<and> outbox_find db' (favorite_coalesce_key key) = None"
  using assms(1)
proof (rule apply_remote_page_Inr)
  fix m db1
  assume "foldM (apply_page_change u sha next now) changes (db, nat (mt_last_server_revision m)) = Inr (db1, next)"
    and db': "db' = set_meta (\<lambda>m. m\<lparr>mt_last_server_revision := int next,
                   mt_last_successful_sync_at := Some now, mt_last_sync_error := None, mt_updated_at := now\<rparr>) db1"
  from apply_page_replica [OF this(1) assms(2)] show ?thesis
    unfolding db' set_meta_def outbox_find_def by simp
qed

text \<open>
  C12: pulled records replace local ones exactly where nothing is pending. After a page, a favorite
  without a pending intent is the last record the page holds for it, or what it was before when the
  page holds none.
\<close>

theorem remote_page_replica:
  assumes "apply_remote_page u sha db changes next now = Inr db'"
    and "outbox_find db (favorite_coalesce_key key) = None"
  shows "tbl_get (favorites db') (to_hex key) = (case last_change (to_hex key) changes of
            None \<Rightarrow> tbl_get (favorites db) (to_hex key) | Some c \<Rightarrow> Some (remote_row (sc_favorite c)))
     \<and> outbox_find db' (favorite_coalesce_key key) = None"
  using assms by (rule apply_remote_page_replica)

theorem remote_page_replica_witness:
  "tbl_get (favorites example_pulled) (to_hex example_content_key) = Some (remote_row example_remote)"
proof -
  have "outbox_find example_queried (favorite_coalesce_key example_content_key) = None"
    by (simp add: outbox_find_def example_queried_def example_fresh_def migrated_profile_db_def)
  from remote_page_replica [OF example_page_queried [unfolded example_page_def] this] show ?thesis
    by (simp add: last_change_def example_change_def example_remote_def)
qed

text \<open>
  A pull never overwrites what the user has not yet pushed. An intent that is still pending after
  a page was pending before it under the same event id and operation, and its favorite kept every
  column but the entity revision.
\<close>

theorem remote_page_keeps_intent:
  assumes "profile_inv db" and "apply_remote_page u sha db changes next now = Inr db'"
    and "outbox_find db' (favorite_coalesce_key key) = Some r'"
  shows "\<exists>r. outbox_find db (favorite_coalesce_key key) = Some r \<and> ob_event_id r' = ob_event_id r
     \<and> ob_operation r' = ob_operation r
     \<and> same_but_revision (tbl_get (favorites db) (to_hex key)) (tbl_get (favorites db') (to_hex key))"
  using assms(2)
proof (rule apply_remote_page_Inr)
  fix m db1
  assume loop: "foldM (apply_page_change u sha next now) changes (db, nat (mt_last_server_revision m)) = Inr (db1, next)"
    and db': "db' = set_meta (\<lambda>m. m\<lparr>mt_last_server_revision := int next,
                   mt_last_successful_sync_at := Some now, mt_last_sync_error := None, mt_updated_at := now\<rparr>) db1"
  have "outbox_find db1 (favorite_coalesce_key key) = Some r'" "favorites db' = favorites db1"
    using assms(3) unfolding db' set_meta_def outbox_find_def by simp_all
  with apply_page_intent [OF loop assms(1)] show ?thesis by simp
qed

theorem remote_page_keeps_intent_witness:
  "\<exists>r. outbox_find example_favorited (favorite_coalesce_key example_content_key) = Some r
     \<and> ob_event_id r = ''e1''
     \<and> same_but_revision (tbl_get (favorites example_favorited) (to_hex example_content_key))
         (tbl_get (favorites example_rebased) (to_hex example_content_key))"
proof -
  have "outbox_find example_rebased (favorite_coalesce_key example_content_key)
      = Some (example_intent\<lparr>ob_base_entity_revision := Some 1, ob_updated_at := 20\<rparr>)"
    by (simp add: outbox_find_def example_rebased_def example_intent_def)
  from remote_page_keeps_intent [OF example_favorited_inv example_page_favorited [unfolded example_page_def] this]
  show ?thesis by (auto simp: example_intent_def)
qed

text \<open>Acknowledging touches favorites only in their entity revision.\<close>

lemma acknowledge_one_favorites:
  assumes "acknowledge_one now item db = Inr db'"
  shows "same_but_revision (tbl_get (favorites db) k) (tbl_get (favorites db') k)
    \<and> history_entries db' = history_entries db"
proof -
  let ?e = "ae_event item" and ?k = "to_hex (oe_content_key (ae_event item))"
  from assms obtain db1 db2 where
    one: "(case pa_entity_revision (ae_acknowledgement item) of None \<Rightarrow> Inr db
             | Some n \<Rightarrow> rbind (sqlite_i64 n) (\<lambda>revision.
                 Inr ((set_entity_revision ?k revision db)\<lparr>sync_outbox := map (\<lambda>r.
                   if ob_content_key r = ?k \<and> ob_event_id r \<noteq> oe_event_id ?e
                      \<and> (ob_operation r = ''favorite_upsert'' \<or> ob_operation r = ''favorite_delete'')
                   then r\<lparr>ob_base_entity_revision := Some revision\<rparr> else r) (sync_outbox db)\<rparr>))) = Inr db1"
    and two: "(case pa_aggregate (ae_acknowledgement item) of None \<Rightarrow> Inr db1
             | Some ag \<Rightarrow> update_aggregate db1 (oe_content_key ?e) ag (ae_sent_query_count item) now) = Inr db2"
    and db': "db' = db2\<lparr>sync_outbox := filter (\<lambda>r. ob_event_id r \<noteq> oe_event_id ?e) (sync_outbox db2)\<rparr>"
    by (auto simp: acknowledge_one_def Let_def rbind_Inr split: if_splits)
  have "same_but_revision (tbl_get (favorites db) k) (tbl_get (favorites db1) k)
      \<and> history_entries db1 = history_entries db"
    using one by (auto split: option.splits simp: rbind_Inr set_entity_revision_def same_but_revision_def
        option.map_comp comp_def)
  moreover have "favorites db2 = favorites db1 \<and> history_entries db2 = history_entries db1"
    using two by (auto split: option.splits dest!: update_aggregate_frame)
  ultimately show ?thesis unfolding db' by simp
qed

lemma acknowledge_loop_favorites:
  assumes "foldM (acknowledge_one now) items db = Inr db'"
  shows "same_but_revision (tbl_get (favorites db) k) (tbl_get (favorites db') k)
    \<and> history_entries db' = history_entries db"
  using assms
proof (rule foldM_invariant)
  fix item s t
  assume "same_but_revision (tbl_get (favorites db) k) (tbl_get (favorites s) k)
      \<and> history_entries s = history_entries db" and ok: "acknowledge_one now item s = Inr t"
  with acknowledge_one_favorites [OF ok, of k] show
    "same_but_revision (tbl_get (favorites db) k) (tbl_get (favorites t) k)
      \<and> history_entries t = history_entries db"
    using same_but_revision_trans by metis
qed simp

text \<open>
  Acknowledging a batch removes exactly the events that were sent. The intents that remain are
  those with another event id, in their order and with their operation: an intent that was
  replaced by a newer one while its push was in flight stays. Favorites keep everything but
  their entity revision, and the history is untouched.
\<close>

theorem acknowledge_exact:
  assumes "acknowledge_events db items now = Inr db'"
  shows "map (\<lambda>r. (ob_event_id r, ob_operation r, ob_coalesce_key r)) (sync_outbox db')
       = filter (\<lambda>(i, _). i \<notin> set (map (\<lambda>x. oe_event_id (ae_event x)) items))
           (map (\<lambda>r. (ob_event_id r, ob_operation r, ob_coalesce_key r)) (sync_outbox db))
     \<and> same_but_revision (tbl_get (favorites db) k) (tbl_get (favorites db') k)
     \<and> history_entries db' = history_entries db"
proof -
  from assms obtain db1 where loop: "foldM (acknowledge_one now) items db = Inr db1"
    and db': "db' = set_meta (\<lambda>m. m\<lparr>mt_last_successful_sync_at := Some now, mt_last_sync_error := None,
        mt_updated_at := now\<rparr>) db1"
    by (auto simp: acknowledge_events_def rbind_Inr)
  have same: "sync_outbox db' = sync_outbox db1" "favorites db' = favorites db1"
    "history_entries db' = history_entries db1"
    unfolding db' set_meta_def by simp_all
  show ?thesis unfolding same using acknowledge_loop_rows [OF loop] acknowledge_loop_favorites [OF loop] by simp
qed
text \<open>The example intent as it was sent, and its acknowledgement.\<close>

definition example_sent :: outbox_event where
  "example_sent = \<lparr>oe_event_id = ''e1'', oe_content_key = example_content_key, oe_operation = OutFavoriteUpsert,
     oe_payload = FavoritePayload \<lparr>fp_content_key = to_hex example_content_key,
       fp_desired_state = ''active'', fp_base_entity_revision = 0,
       fp_query_stats = stats_payload example_content_key (stats_of_row example_stats)\<rparr>,
     oe_coalesce_key = favorite_coalesce_key example_content_key, oe_base_entity_revision = Some 0,
     oe_created_at = 10, oe_updated_at = 10, oe_attempt_count = 0, oe_next_retry_at = None,
     oe_last_error = None, oe_conflict_replay_count = 0\<rparr>"

lemma example_intent_parses: "parse_outbox Some example_intent = Inr example_sent"
  by (simp add: parse_outbox_def example_intent_def example_sent_def parse_uuid_def ok_or_def
      parse_outbox_operation_def sqlite_u64_def u64_of_i64_def u32_of_i64_code)

definition example_acknowledged :: acknowledged_event where
  "example_acknowledged = \<lparr>ae_event = example_sent,
     ae_acknowledgement = \<lparr>pa_event_id = ''e1'', pa_status = Applied, pa_entity_revision = Some 1,
       pa_user_revision = 1,
       pa_aggregate = Some \<lparr>ag_query_count = 4, ag_first_queried_at = 2, ag_last_queried_at = 5\<rparr>\<rparr>,
     ae_sent_query_count = Some 1\<rparr>"

definition example_acked :: profile_db where
  "example_acked = example_queried\<lparr>
     favorites := [(to_hex example_content_key, example_favorite\<lparr>rf_entity_revision := 1\<rparr>)],
     stats_table := [(to_hex example_content_key, example_stats\<lparr>sr_last_synced_device_query_count := 1,
       sr_server_total_query_count := 4, sr_server_first_queried_at := Some 2,
       sr_server_last_queried_at := Some 5, sr_server_snapshot_at := Some 20\<rparr>)]\<rparr>"

lemma example_acknowledge_one: "acknowledge_one 20 example_acknowledged example_favorited = Inr example_acked"
  by (simp add: acknowledge_one_def example_acknowledged_def example_sent_def Let_def set_entity_revision_def
      example_favorited_def example_queried_def example_fresh_def migrated_profile_db_def example_intent_def
      update_aggregate_def tbl_has_def sqlite_i64_def i64_of_u64_def i64_max_def tbl_modify_def
      tbl_update_all_def example_stats_def example_acked_def)

theorem acknowledge_exact_witness:
  "\<exists>db'. acknowledge_events example_favorited [example_acknowledged] 20 = Inr db' \<and> sync_outbox db' = []
     \<and> same_but_revision (tbl_get (favorites example_favorited) (to_hex example_content_key))
         (tbl_get (favorites db') (to_hex example_content_key))"
proof -
  obtain db' where db': "acknowledge_events example_favorited [example_acknowledged] 20 = Inr db'"
    by (simp add: acknowledge_events_def example_acknowledge_one)
  from acknowledge_exact [OF this, of "to_hex example_content_key"] db' show ?thesis
    by (simp add: example_favorited_def example_intent_def example_acknowledged_def example_sent_def)
qed

section \<open>Query counts\<close>

text \<open>The count the user sees for a content.\<close>

definition query_total :: "profile_db \<Rightarrow> content_key \<Rightarrow> u64" where
  "query_total db key = (case query_stats_tx db key of
      Inr (Some s) \<Rightarrow> effective_total s | _ \<Rightarrow> 0)"

text \<open>The device never counts as acknowledged more than it has counted.\<close>

definition synced_behind :: "profile_db \<Rightarrow> content_key \<Rightarrow> bool" where
  "synced_behind db key \<longleftrightarrow> (\<forall>r. tbl_get (stats_table db) (to_hex key) = Some r \<longrightarrow>
      sr_last_synced_device_query_count r \<le> sr_device_query_count r)"

lemma query_total_row:
  assumes "tables_inv db" and "tbl_get (stats_table db) (to_hex key) = Some r"
  shows "query_total db key = (if sr_server_snapshot_at r = None then nat (sr_device_query_count r)
     else nat (sr_server_total_query_count r)
       + (nat (sr_device_query_count r) - nat (sr_last_synced_device_query_count r)))"
proof -
  from assms have ok: "stats_row_ok r" by (auto simp: tables_inv_def)
  let ?unsynced = "nat (sr_device_query_count r) - nat (sr_last_synced_device_query_count r)"
  from ok have "int (nat (sr_server_total_query_count r)) + int ?unsynced \<le> 18446744073709551615"
    unfolding stats_row_ok_def i64_max_def by linarith
  then have sum: "saturating_add_u64 (nat (sr_server_total_query_count r)) ?unsynced
      = nat (sr_server_total_query_count r) + ?unsynced" unfolding saturating_add_u64_code by simp
  have sub: "saturating_sub_u64 a b = a - b" for a b by (simp add: saturating_sub_u64_def)
  have "query_total db key = effective_total (stats_of_row r)"
    using assms by (simp add: query_total_def query_stats_tx_ok)
  then show ?thesis by (simp add: effective_total_def stats_of_row_def sub sum)
qed

lemma query_total_none: "tables_inv db \<Longrightarrow> tbl_get (stats_table db) (to_hex key) = None \<Longrightarrow> query_total db key = 0"
  by (simp add: query_total_def query_stats_tx_ok)
lemma record_successful_query_stats:
  assumes "record_successful_query db e eid = Inr (s, db')" and "profile_inv db" and "history_entry_typed e"
  obtains db2 where
    "count_query (upsert_history db e) (to_hex (stc_content_key (he_content e))) (he_last_queried_at e) = Inr db2"
    "stats_table db' = stats_table db2" "query_stats_tx db2 (stc_content_key (he_content e)) = Inr (Some s)"
proof -
  let ?key = "stc_content_key (he_content e)"
  from assms(1) obtain db2 where c: "count_query (upsert_history db e) (to_hex ?key) (he_last_queried_at e) = Inr db2"
    and st: "query_stats_tx db2 ?key = Inr (Some s)"
    and rest: "(if tbl_has (favorites db2) (to_hex ?key)
             then upsert_query_stats_event db2 ?key s (he_last_queried_at e) eid else Inr db2) = Inr db'"
    by (auto simp: record_successful_query_def Let_def rbind_Inr ok_or_Inr)
  have "stats_table db' = stats_table db2"
  proof (cases "tbl_has (favorites db2) (to_hex ?key)")
    case True
    with rest obtain dev where "upsert_outbox db2 \<lparr>po_event_id = eid, po_key = ?key, po_operation = OutQueryStatsUpsert,
         po_payload = StatsPayload (stats_payload ?key s),
         po_coalesce_key = query_stats_coalesce_key ?key dev, po_revision = None,
         po_now = he_last_queried_at e\<rparr> = Inr db'"
      by (auto simp: upsert_query_stats_event_def rbind_Inr)
    then show ?thesis by (auto simp: upsert_outbox_def rbind_Inr split: option.splits if_splits)
  qed (use rest in simp)
  from that [OF c this st] show thesis .
qed

text \<open>
  Every successful query counts once. On a consistent Profile the total shown for the content,
  the Server's total plus what this device has not had acknowledged, grows by exactly one, and
  the statistics returned are those stored.
\<close>

theorem query_counted_once:
  assumes "profile_inv db" and "history_entry_typed e" and "record_successful_query db e eid = Inr (s, db')"
    and "synced_behind db (stc_content_key (he_content e))"
  shows "query_total db' (stc_content_key (he_content e)) = query_total db (stc_content_key (he_content e)) + 1
     \<and> effective_total s = query_total db' (stc_content_key (he_content e))
     \<and> synced_behind db' (stc_content_key (he_content e))"
proof -
  let ?key = "stc_content_key (he_content e)"
  obtain db2 where c: "count_query (upsert_history db e) (to_hex ?key) (he_last_queried_at e) = Inr db2"
    and st: "stats_table db' = stats_table db2" "query_stats_tx db2 ?key = Inr (Some s)"
    by (rule record_successful_query_stats [OF assms(3,1,2)])
  have inv: "tables_inv db" "tables_inv db'"
    using assms(1) record_successful_query_inv [OF assms(1-3)] by (auto elim: profile_invE)
  have h: "stats_table (upsert_history db e) = stats_table db" by (simp add: upsert_history_def Let_def)
  have "query_total db' ?key = query_total db2 ?key" by (simp add: query_total_def query_stats_tx_def st(1))
  then have s: "effective_total s = query_total db' ?key" by (simp add: query_total_def st(2))
  from c have "query_total db' ?key = query_total db ?key + 1 \<and> synced_behind db' ?key"
  proof (cases rule: count_query_cases)
    case fresh
    with st(1) h have "tbl_get (stats_table db') (to_hex ?key) = Some
       \<lparr>sr_device_query_count = 1, sr_first_queried_at = he_last_queried_at e, sr_last_queried_at = he_last_queried_at e,
           sr_last_synced_device_query_count = 0, sr_server_total_query_count = 0,
           sr_server_first_queried_at = None, sr_server_last_queried_at = None,
           sr_server_snapshot_at = None\<rparr>" by simp
    with fresh(1) inv h show ?thesis by (simp add: query_total_row query_total_none synced_behind_def)
  next
    case (counted row)
    from counted(1) h have row: "tbl_get (stats_table db) (to_hex ?key) = Some row" by simp
    with counted(3) st(1) h have row': "tbl_get (stats_table db') (to_hex ?key)
       = Some (row\<lparr>sr_device_query_count := sr_device_query_count row + 1, sr_last_queried_at := he_last_queried_at e\<rparr>)"
      by simp
    from inv(1) row have "stats_row_ok row" by (auto simp: tables_inv_def)
    moreover have "sr_last_synced_device_query_count row \<le> sr_device_query_count row"
      using assms(4) row by (simp add: synced_behind_def)
    ultimately show ?thesis
      by (simp add: query_total_row [OF inv(1) row] query_total_row [OF inv(2) row'] synced_behind_def row'
          stats_row_ok_def nat_add_distrib Suc_diff_le nat_mono)
  qed
  with s show ?thesis by simp
qed

theorem query_counted_once_witness: "query_total example_queried example_content_key = 1"
proof -
  have s: "synced_behind example_fresh (stc_content_key (he_content example_entry))"
    by (simp add: synced_behind_def example_fresh_def migrated_profile_db_def)
  have "query_total example_fresh example_content_key = 0"
    by (simp add: query_total_def query_stats_tx_def example_fresh_def migrated_profile_db_def)
  with query_counted_once [OF example_fresh_inv example_entry_typed example_query s] show ?thesis
    by (simp add: example_entry_def)
qed

text \<open>
  Queries made while a push is in flight are not lost. When the Server acknowledges a push that
  carried the device's count of \<open>n\<close>, the total shown becomes the Server's aggregate plus the queries
  counted since, whatever else the acknowledgement holds.
\<close>

theorem acknowledged_total:
  assumes "profile_inv db" and "acknowledge_one now item db = Inr db'"
    and "pa_aggregate (ae_acknowledgement item) = Some ag" and "ae_sent_query_count item = Some n"
    and "tbl_get (stats_table db) (to_hex (oe_content_key (ae_event item))) = Some r"
    and "sr_last_synced_device_query_count r \<le> int n" and "int n \<le> sr_device_query_count r"
  shows "query_total db' (oe_content_key (ae_event item))
       = ag_query_count ag + (nat (sr_device_query_count r) - n)
     \<and> synced_behind db' (oe_content_key (ae_event item))"
proof -
  let ?e = "ae_event item" let ?k = "to_hex (oe_content_key ?e)"
  from assms(2,3) obtain db1 db2 where
    one: "(case pa_entity_revision (ae_acknowledgement item) of None \<Rightarrow> Inr db
             | Some n \<Rightarrow> rbind (sqlite_i64 n) (\<lambda>revision.
                 Inr ((set_entity_revision ?k revision db)\<lparr>sync_outbox := map (\<lambda>r.
                   if ob_content_key r = ?k \<and> ob_event_id r \<noteq> oe_event_id ?e
                      \<and> (ob_operation r = ''favorite_upsert'' \<or> ob_operation r = ''favorite_delete'')
                   then r\<lparr>ob_base_entity_revision := Some revision\<rparr> else r) (sync_outbox db)\<rparr>))) = Inr db1"
    and two: "update_aggregate db1 (oe_content_key ?e) ag (ae_sent_query_count item) now = Inr db2"
    and db': "db' = db2\<lparr>sync_outbox := filter (\<lambda>r. ob_event_id r \<noteq> oe_event_id ?e) (sync_outbox db2)\<rparr>"
    by (auto simp: acknowledge_one_def Let_def rbind_Inr split: if_splits)
  have st1: "stats_table db1 = stats_table db" using one by (auto split: option.splits simp: rbind_Inr)
  have st': "stats_table db' = stats_table db2" unfolding db' by simp
  from update_aggregate_frame [OF two] assms(4,5) obtain r' where r':
    "tbl_get (stats_table db') ?k = Some r'" "sr_server_total_query_count r' = int (ag_query_count ag)"
    "sr_server_snapshot_at r' = Some now" "sr_device_query_count r' = sr_device_query_count r"
    "sr_last_synced_device_query_count r' = max (sr_last_synced_device_query_count r) (int n)"
    unfolding st1 st' by auto
  have inv: "tables_inv db'" using acknowledge_one_inv [OF assms(1,2)] by (auto elim: profile_invE)
  from r' assms(6,7) show ?thesis
    by (auto simp: query_total_row [OF inv r'(1)] synced_behind_def max_def)
qed

theorem acknowledged_total_witness: "query_total example_acked example_content_key = 4"
proof -
  have "query_total example_acked (oe_content_key (ae_event example_acknowledged)) = 4 + (nat 1 - 1)
      \<and> synced_behind example_acked (oe_content_key (ae_event example_acknowledged))"
    using acknowledged_total [OF example_favorited_inv example_acknowledge_one,
        of "\<lparr>ag_query_count = 4, ag_first_queried_at = 2, ag_last_queried_at = 5\<rparr>" 1 example_stats]
    by (simp add: example_acknowledged_def example_sent_def example_favorited_def example_queried_def
        example_stats_def tbl_get_def)
  then show ?thesis by (simp add: example_acknowledged_def example_sent_def)
qed

section \<open>Conflicts and races\<close>

lemma find_map_same:
  assumes "\<And>x. P (f x) = P x"
  shows "find P (map f xs) = map_option f (find P xs)"
  using assms by (induction xs) simp_all

lemma mapM_result_source: "mapM f xs = Inr ys \<Longrightarrow> y \<in> set ys \<Longrightarrow> \<exists>x \<in> set xs. f x = Inr y"
  by (fastforce simp: mapM_Inr_nth list_all2_conv_all_nth in_set_conv_nth)

definition example_replayed :: profile_db where
  "example_replayed = example_queried\<lparr>
     favorites := [(to_hex example_content_key, example_favorite\<lparr>rf_entity_revision := 1\<rparr>)],
     sync_outbox := [example_intent\<lparr>ob_base_entity_revision := Some 1, ob_conflict_replay_count := 1,
       ob_updated_at := 20\<rparr>]\<rparr>"

lemmas example_conflict_eval = resolve_conflict_def example_sent_def Let_def example_queried_def
  example_fresh_def migrated_profile_db_def local_favorite_def tbl_get_def example_favorite_def
  u32_of_i64_code parse_kind_def sqlite_u64_def u64_of_i64_def desired_converged_def protocol_snapshot_def
  example_remote_def outbox_find_def example_intent_def update_aggregate_from_record_def sqlite_i64_def
  i64_of_u64_def i64_max_def set_entity_revision_def tbl_modify_def tbl_update_all_def

lemma example_conflict: "resolve_conflict example_favorited example_sent (Some example_remote) 20
    = Inr (ReplayPrepared, example_replayed)"
  by (simp add: example_conflict_eval example_favorited_def example_replayed_def)

lemma example_conflict_again: "resolve_conflict example_replayed example_sent (Some example_remote) 30
    = Inr (ManualRetryRequired, mark_manual_conflict example_replayed example_content_key 30)"
  by (simp add: example_conflict_eval example_replayed_def)

text \<open>Once the intent of a favorite is gone, nothing but a new local change brings it back.\<close>

lemma acknowledge_events_absent:
  assumes "acknowledge_events db items now = Inr db'" and "outbox_find db ck = None"
  shows "outbox_find db' ck = None"
proof -
  from assms(1) obtain db1 where loop: "foldM (acknowledge_one now) items db = Inr db1"
    and db': "db' = set_meta (\<lambda>m. m\<lparr>mt_last_successful_sync_at := Some now, mt_last_sync_error := None,
        mt_updated_at := now\<rparr>) db1"
    by (auto simp: acknowledge_events_def rbind_Inr)
  from acknowledge_loop_rows [OF loop] have
    "(\<lambda>r. (ob_event_id r, ob_operation r, ob_coalesce_key r)) ` set (sync_outbox db1)
       \<subseteq> (\<lambda>r. (ob_event_id r, ob_operation r, ob_coalesce_key r)) ` set (sync_outbox db)"
    by (metis (no_types, lifting) filter_is_subset list.set_map)
  then have "\<forall>r \<in> set (sync_outbox db1). ob_coalesce_key r \<noteq> Some ck"
    using assms(2) by (auto simp: outbox_find_None image_subset_iff)
  then show ?thesis unfolding db' set_meta_def by (simp add: outbox_find_None)
qed

lemma unfavorite_unsynced:
  assumes "tables_inv db" and "length key = 32" and "tbl_get (favorites db) (to_hex key) = Some row"
    and "rf_deleted_at row = None" and "rf_entity_revision row = 0" and "profile_meta db = Some m"
    and "unfavorite db key now eid = (res, db')"
  shows "tbl_get (favorites db') (to_hex key) = Some (row\<lparr>rf_updated_at := now, rf_deleted_at := Some now\<rparr>)"
    and "outbox_find db' (favorite_coalesce_key key) = None"
proof -
  have f: "favorite_by_key db key = Inr (Some (favorite_of_row key row))"
    using assms(1-3) by (simp add: favorite_by_key_ok)
  obtain st where "tbl_get (stats_table db) (to_hex key) = Some st"
    using assms(1,3) unfolding tables_inv_def tbl_has_get by blast
  then have s: "query_stats_tx db key = Inr (Some (stats_of_row st))"
    using assms(1) by (simp add: query_stats_tx_ok)
  let ?db1 = "db\<lparr>favorites := tbl_modify (to_hex key)
           (\<lambda>r. r\<lparr>rf_updated_at := now, rf_deleted_at := Some now\<rparr>) (favorites db)\<rparr>"
  have "unfavorite_tx db key now eid = Inr (None, outbox_delete (favorite_coalesce_key key)
      (outbox_delete (query_stats_coalesce_key key (mt_device_id m)) ?db1))"
    using f s assms(4-6) by (simp add: unfavorite_tx_def favorite_of_row_def profile_device_id_def Let_def)
  with assms(7) have db': "db' = outbox_delete (favorite_coalesce_key key)
      (outbox_delete (query_stats_coalesce_key key (mt_device_id m)) ?db1)"
    by (simp add: unfavorite_def)
  show "tbl_get (favorites db') (to_hex key) = Some (row\<lparr>rf_updated_at := now, rf_deleted_at := Some now\<rparr>)"
    unfolding db' outbox_delete_def using assms(3) by simp
  show "outbox_find db' (favorite_coalesce_key key) = None"
    unfolding db' by (auto simp: outbox_find_None outbox_delete_def)
qed

text \<open>
  C14: removing a favorite while its first push is in flight is undone by the next pull. The removal
  finds entity revision 0, so it drops the pending intent and queues no deletion; the
  acknowledgement of the push then only sets the revision, and the pulled record makes the
  favorite active again although the user removed it last.
\<close>

theorem inflight_unfavorite_undone:
  assumes "profile_inv db" and "length key = 32"
    and "tbl_get (favorites db) (to_hex key) = Some row"
    and "rf_deleted_at row = None" and "rf_entity_revision row = 0"
    and "unfavorite db key t1 eid = (res, db1)"
    and "acknowledge_events db1 items t2 = Inr db2"
    and "apply_remote_page u sha db2 changes next t3 = Inr db3"
    and "last_change (to_hex key) changes = Some c" and "fr_deleted_at (sc_favorite c) = None"
  shows "(\<exists>gone. tbl_get (favorites db1) (to_hex key) = Some gone \<and> rf_deleted_at gone = Some t1)
     \<and> outbox_find db1 (favorite_coalesce_key key) = None
     \<and> outbox_find db3 (favorite_coalesce_key key) = None
     \<and> (\<exists>back. tbl_get (favorites db3) (to_hex key) = Some back \<and> rf_deleted_at back = None)"
proof -
  from assms(1) obtain m where m: "profile_meta db = Some m" and inv: "tables_inv db" by (rule profile_invE)
  note u = unfavorite_unsynced [OF inv assms(2-5) m assms(6)]
  have 2: "outbox_find db2 (favorite_coalesce_key key) = None"
    using assms(7) u(2) by (rule acknowledge_events_absent)
  from apply_remote_page_replica [OF assms(8) 2] u assms(9,10) show ?thesis
    by (auto simp: remote_row_def Let_def)
qed
definition example_removed :: profile_db where
  "example_removed = example_queried\<lparr>favorites := [(to_hex example_content_key,
     example_favorite\<lparr>rf_updated_at := 15, rf_deleted_at := Some 15\<rparr>)]\<rparr>"

definition example_removed_acked :: profile_db where
  "example_removed_acked = example_queried\<lparr>
     favorites := [(to_hex example_content_key,
       example_favorite\<lparr>rf_updated_at := 15, rf_deleted_at := Some 15, rf_entity_revision := 1\<rparr>)],
     stats_table := stats_table example_acked,
     profile_meta := Some (example_meta\<lparr>mt_last_successful_sync_at := Some 20, mt_updated_at := 20\<rparr>)\<rparr>"

lemmas example_removed_eval = example_queried_def example_fresh_def migrated_profile_db_def Let_def
  tbl_get_def tbl_has_def tbl_modify_def tbl_update_all_def sqlite_u64_def u64_of_i64_def
  sqlite_i64_def i64_of_u64_def i64_max_def example_meta_def example_favorite_def set_meta_def
  example_stats_def

lemma example_remove: "\<exists>res. unfavorite example_favorited example_content_key 15 ''e2'' = (res, example_removed)"
  by (simp add: example_removed_eval unfavorite_def unfavorite_tx_def favorite_by_key_def parse_favorite_def
     example_favorited_def u32_of_i64_code parse_kind_def parse_language_def query_stats_tx_def
     parse_query_stats_def profile_device_id_def outbox_delete_def example_intent_def example_removed_def)

lemma example_removed_acknowledge:
  "acknowledge_events example_removed [example_acknowledged] 20 = Inr example_removed_acked"
  by (simp add: example_removed_eval acknowledge_events_def acknowledge_one_def example_acknowledged_def example_sent_def
      example_removed_def set_entity_revision_def update_aggregate_def example_removed_acked_def example_acked_def)

lemma example_removed_pull: "\<exists>db3. example_page example_removed_acked = Inr db3"
  using example_remote_valid
  by (simp add: example_page_eval example_removed_eval write_remote_favorite_def example_remote_def tbl_put_def
      example_removed_acked_def example_acked_def)

theorem inflight_unfavorite_undone_witness:
  "\<exists>db3 back. example_page example_removed_acked = Inr db3
     \<and> tbl_get (favorites db3) (to_hex example_content_key) = Some back \<and> rf_deleted_at back = None"
proof -
  obtain res db3 where steps: "unfavorite example_favorited example_content_key 15 ''e2'' = (res, example_removed)"
    "example_page example_removed_acked = Inr db3"
    using example_remove example_removed_pull by blast
  have row: "tbl_get (favorites example_favorited) (to_hex example_content_key) = Some example_favorite"
    by (simp add: example_favorited_def tbl_get_def)
  have "rf_deleted_at example_favorite = None" "rf_entity_revision example_favorite = 0"
    "last_change (to_hex example_content_key) [example_change] = Some example_change"
    "fr_deleted_at (sc_favorite example_change) = None"
    by (simp_all add: example_favorite_def last_change_def example_change_def example_remote_def)
  with inflight_unfavorite_undone [OF example_favorited_inv example_key_length row _ _ steps(1)
      example_removed_acknowledge steps(2) [unfolded example_page_def]] steps(2)
  show ?thesis by blast
qed

end
