(* ===== verification/Utf8_Text.thy ===== *)
theory Utf8_Text
  imports LVOS_Prelude
begin

text \<open>
  UTF-8 as the code uses it: \<open>str::from_utf8\<close> and \<open>String::from_utf8\<close> accept the well-formed byte sequences
  of the Unicode standard, \<open>str::chars\<close> decodes them and \<open>str::len\<close> counts bytes. Text decodes to itself
  after encoding, decoding commutes with concatenation of well-formed pieces, and the decoded text of
  well-formed bytes is as long in bytes as they are.
\<close>

section \<open>Well-formed bytes and their text\<close>

text \<open>\<open>String::from_utf8\<close>: the well-formed byte sequences of the Unicode standard.\<close>

definition cont_byte :: "nat \<Rightarrow> bool" where
  "cont_byte b = (0x80 \<le> b \<and> b \<le> 0xBF)"

fun valid_utf8 :: "nat list \<Rightarrow> bool" where
  "valid_utf8 [] = True"
| "valid_utf8 (a # r) =
     (if a < 0x80 then valid_utf8 r
      else case r of
        b # r1 \<Rightarrow>
          if 0xC2 \<le> a \<and> a \<le> 0xDF then cont_byte b \<and> valid_utf8 r1
          else (case r1 of
            c # r2 \<Rightarrow>
              if 0xE0 \<le> a \<and> a \<le> 0xEF then
                cont_byte b \<and> cont_byte c \<and> (a = 0xE0 \<longrightarrow> 0xA0 \<le> b) \<and> (a = 0xED \<longrightarrow> b \<le> 0x9F)
                \<and> valid_utf8 r2
              else (case r2 of
                d # r3 \<Rightarrow> 0xF0 \<le> a \<and> a \<le> 0xF4 \<and> cont_byte b \<and> cont_byte c \<and> cont_byte d
                  \<and> (a = 0xF0 \<longrightarrow> 0x90 \<le> b) \<and> (a = 0xF4 \<longrightarrow> b \<le> 0x8F) \<and> valid_utf8 r3
              | [] \<Rightarrow> False)
          | [] \<Rightarrow> False)
      | [] \<Rightarrow> False)"

text \<open>\<open>String::from_utf8\<close> as a text.\<close>

fun utf8_decode :: "nat list \<Rightarrow> utext" where
  "utf8_decode [] = []"
| "utf8_decode (a # r) =
     (if a < 0x80 then a # utf8_decode r
      else if a < 0xE0 then (case r of b # r1 \<Rightarrow> (a mod 32 * 64 + b mod 64) # utf8_decode r1 | _ \<Rightarrow> [])
      else if a < 0xF0 then (case r of b # c # r2 \<Rightarrow> (a mod 16 * 4096 + b mod 64 * 64 + c mod 64) # utf8_decode r2 | _ \<Rightarrow> [])
      else (case r of b # c # d # r3 \<Rightarrow>
          (a mod 8 * 262144 + b mod 64 * 4096 + c mod 64 * 64 + d mod 64) # utf8_decode r3 | _ \<Rightarrow> []))"

definition text_from_utf8 :: "byte list \<Rightarrow> utext option" where
  "text_from_utf8 bytes = (if valid_utf8 (map unat bytes) then Some (utf8_decode (map unat bytes)) else None)"

text \<open>Strings of the model are the bytes of Rust's strings; \<open>str::chars\<close> and back.\<close>

definition string_text :: "string \<Rightarrow> utext" where
  "string_text s = utf8_decode (map of_char s)"

definition text_string :: "utext \<Rightarrow> string" where
  "text_string t = map (\<lambda>b. char_of (unat b)) (utf8 t)"

section \<open>Encoded text decodes to itself\<close>

lemma utf8_char_byte_values: "valid_uchar c \<Longrightarrow> list_all (\<lambda>b. b < 256) (utf8_char c)"
  by (auto simp: utf8_char_def valid_uchar_def)

lemma sextets:
  fixes c :: nat
  shows "c = c div 64 * 64 + c mod 64" "c div 64 = c div 4096 * 64 + c div 64 mod 64"
    "c div 4096 = c div 262144 * 64 + c div 4096 mod 64"
  using div_mult_mod_eq [of c 64] div_mult_mod_eq [of "c div 64" 64] div_mult_mod_eq [of "c div 4096" 64]
  by (simp_all add: div_mult2_eq [symmetric])

lemma lead_byte: "(192 + x) mod 32 = x" if "x < 32" for x :: nat
  using that mod_mult_self4 [of 32 6 x] by simp

lemma lead_byte3: "(224 + x) mod 16 = x" if "x < 16" for x :: nat
  using that mod_mult_self4 [of 16 14 x] by simp

lemma lead_byte4: "(240 + x) mod 8 = x" if "x < 8" for x :: nat
  using that mod_mult_self4 [of 8 30 x] by simp

lemma tail_byte: "(128 + x) mod 64 = x" if "x < 64" for x :: nat
  using that mod_mult_self4 [of 64 2 x] by simp

lemma utf8_decode_char:
  assumes "valid_uchar c"
  shows "utf8_decode (utf8_char c @ r) = c # utf8_decode r"
proof -
  have c: "c < 0x110000" using assms by (simp add: valid_uchar_def)
  note s = sextets [of c]
  have m: "c mod 64 < 64" "c div 64 mod 64 < 64" "c div 4096 mod 64 < 64" by simp_all
  consider "c < 0x80" | "0x80 \<le> c" "c < 0x800" | "0x800 \<le> c" "c < 0x10000" | "0x10000 \<le> c" by linarith
  then show ?thesis
  proof cases
    case 2
    then have h: "c div 64 < 32" by (simp add: div_less_iff_less_mult)
    show ?thesis using 2 s(1) m(1) by (simp add: utf8_char_def lead_byte tail_byte h)
  next
    case 3
    then have "c div 4096 < 16" by (simp add: div_less_iff_less_mult)
    moreover have "c div 4096 * 4096 + c div 64 mod 64 * 64 + c mod 64 = c" using s(1,2) by linarith
    ultimately show ?thesis using 3 m(1,2) by (simp add: utf8_char_def lead_byte3 tail_byte)
  next
    case 4
    then have "c div 262144 < 8" using c by (simp add: div_less_iff_less_mult)
    moreover have "c div 262144 * 262144 + c div 4096 mod 64 * 4096 + c div 64 mod 64 * 64 + c mod 64 = c" using s by linarith
    ultimately show ?thesis using 4 m by (simp add: utf8_char_def lead_byte4 tail_byte)
  qed (simp add: utf8_char_def)
qed

lemma valid_utf8_char:
  assumes "valid_uchar c"
  shows "valid_utf8 (utf8_char c @ r) = valid_utf8 r"
proof -
  have c: "c < 0x110000" "\<not> (0xD800 \<le> c \<and> c \<le> 0xDFFF)" using assms by (simp_all add: valid_uchar_def)
  note s = sextets [of c]
  have m: "c mod 64 < 64" "c div 64 mod 64 < 64" "c div 4096 mod 64 < 64" by simp_all
  then have t: "cont_byte (128 + c mod 64)" "cont_byte (128 + c div 64 mod 64)" "cont_byte (128 + c div 4096 mod 64)"
    by (auto simp: cont_byte_def)
  consider "c < 0x80" | "0x80 \<le> c" "c < 0x800" | "0x800 \<le> c" "c < 0x10000" | "0x10000 \<le> c" by linarith
  then show ?thesis
  proof cases
    case 2
    then have "2 \<le> c div 64" "c div 64 < 32" by (simp_all add: div_less_iff_less_mult less_eq_div_iff_mult_less_eq)
    then show ?thesis using 2 t by (simp add: utf8_char_def)
  next
    case 3
    then have h: "c div 4096 < 16" by (simp add: div_less_iff_less_mult)
    have "c div 4096 = 0 \<Longrightarrow> 32 \<le> c div 64 mod 64" using s 3(1) m(1) by linarith
    moreover have "c div 4096 = 13 \<Longrightarrow> c div 64 mod 64 \<le> 31" using s c(2) m(1,2) by linarith
    ultimately show ?thesis using 3 t h by (simp add: utf8_char_def)
  next
    case 4
    then have h: "c div 262144 \<le> 4" using c(1) by (simp add: div_le_mono [of c "0x10FFFF" 262144, simplified])
    have "c div 262144 = 0 \<Longrightarrow> 16 \<le> c div 4096 mod 64" using s 4 m by linarith
    moreover have "c div 262144 = 4 \<Longrightarrow> c div 4096 mod 64 \<le> 15" using s c(1) m by linarith
    ultimately show ?thesis using 4 t h by (simp add: utf8_char_def)
  qed (simp add: utf8_char_def)
qed

lemma utf8_bytes: "list_all valid_uchar t \<Longrightarrow> map unat (utf8 t) = concat (map utf8_char t)"
proof (induction t)
  case (Cons c t)
  have "map (unat \<circ> (word_of_nat :: nat \<Rightarrow> byte)) (utf8_char c) = utf8_char c"
    using Cons.prems utf8_char_byte_values [of c] by (auto simp: list_all_iff unat_of_nat take_bit_eq_mod intro!: map_idI)
  then show ?case using Cons by (simp add: utf8_def)
qed (simp add: utf8_def)

lemma text_from_utf8_utf8: "list_all valid_uchar t \<Longrightarrow> text_from_utf8 (utf8 t) = Some t"
proof -
  assume t: "list_all valid_uchar t"
  then have "valid_utf8 (concat (map utf8_char t)) \<and> utf8_decode (concat (map utf8_char t)) = t"
    by (induction t) (auto simp: valid_utf8_char utf8_decode_char)
  then show ?thesis using utf8_bytes [OF t] by (simp add: text_from_utf8_def)
qed

section \<open>Concatenation and length\<close>

lemma valid_utf8_split:
  assumes "valid_utf8 bs"
  obtains (nil) "bs = []"
  | (one) a r where "bs = [a] @ r" "a < 0x80" "valid_utf8 r"
  | (two) a b r where "bs = [a, b] @ r" "0xC2 \<le> a" "a \<le> 0xDF" "cont_byte b" "valid_utf8 r"
  | (three) a b c r where "bs = [a, b, c] @ r" "0xE0 \<le> a" "a \<le> 0xEF" "cont_byte b" "cont_byte c"
      "a = 0xE0 \<longrightarrow> 0xA0 \<le> b" "a = 0xED \<longrightarrow> b \<le> 0x9F" "valid_utf8 r"
  | (four) a b c d r where "bs = [a, b, c, d] @ r" "0xF0 \<le> a" "a \<le> 0xF4" "cont_byte b" "cont_byte c" "cont_byte d"
      "a = 0xF0 \<longrightarrow> 0x90 \<le> b" "a = 0xF4 \<longrightarrow> b \<le> 0x8F" "valid_utf8 r"
proof (cases bs)
  case Nil
  then show thesis by (rule nil)
next
  case (Cons a r)
  consider "a < 0x80" | "0xC2 \<le> a \<and> a \<le> 0xDF" | "0xE0 \<le> a \<and> a \<le> 0xEF" | "0xF0 \<le> a \<and> a \<le> 0xF4"
    using assms Cons by (auto split: list.splits if_splits)
  then show thesis
  proof cases
    case 1
    then show ?thesis using assms Cons by (intro one [of a r]) auto
  next
    case 2
    then obtain b r1 where "r = b # r1" using assms Cons by (cases r) auto
    then show ?thesis using assms Cons 2 by (intro two [of a b r1]) auto
  next
    case 3
    then obtain b c r2 where "r = b # c # r2" using assms Cons by (cases r; cases "tl r") auto
    then show ?thesis using assms Cons 3 by (intro three [of a b c r2]) auto
  next
    case 4
    then obtain b c d r3 where "r = b # c # d # r3" using assms Cons by (cases r; cases "tl r"; cases "tl (tl r)") auto
    then show ?thesis using assms Cons 4 by (intro four [of a b c d r3]) auto
  qed
qed

lemma utf8_append:
  "valid_utf8 a \<Longrightarrow> valid_utf8 (a @ b) = valid_utf8 b \<and> utf8_decode (a @ b) = utf8_decode a @ utf8_decode b"
proof (induction a rule: length_induct)
  case (1 a)
  from 1(2) show ?case
  proof (cases rule: valid_utf8_split)
    case (one x r)
    then show ?thesis using 1(1) by simp
  next
    case (two x y r)
    then show ?thesis using 1(1) by simp
  next
    case (three x y z r)
    then show ?thesis using 1(1) by simp
  next
    case (four x y z w r)
    then show ?thesis using 1(1) by simp
  qed simp
qed

text \<open>The text of well-formed bytes takes as many bytes.\<close>

lemma decoded_char_length:
  "c < 0x80 \<Longrightarrow> length (utf8_char c) = 1"
  "0x80 \<le> c \<Longrightarrow> c < 0x800 \<Longrightarrow> length (utf8_char c) = 2"
  "0x800 \<le> c \<Longrightarrow> c < 0x10000 \<Longrightarrow> length (utf8_char c) = 3"
  "0x10000 \<le> c \<Longrightarrow> length (utf8_char c) = 4"
  by (simp_all add: utf8_char_def)

lemma utf8_len_Cons [simp]: "utf8_len (c # t) = length (utf8_char c) + utf8_len t"
  by (simp add: utf8_len_def utf8_def)

lemma cont_byte_mod:
  assumes "cont_byte b"
  shows "b mod 64 = b - 128"
proof -
  have "b - 128 < 64" "128 + (b - 128) = b" using assms by (auto simp: cont_byte_def)
  then show ?thesis using tail_byte [of "b - 128"] by simp
qed

lemma utf8_len_decode: "valid_utf8 bs \<Longrightarrow> utf8_len (utf8_decode bs) = length bs"
proof (induction bs rule: length_induct)
  case (1 bs)
  from 1(2) show ?case
  proof (cases rule: valid_utf8_split)
    case nil
    then show ?thesis by (simp add: utf8_len_def utf8_def)
  next
    case (one a r)
    then show ?thesis using 1(1) by (simp add: decoded_char_length(1))
  next
    case (two a b r)
    then have m: "2 \<le> a mod 32" "a mod 32 < 32" "b mod 64 < 64"
      using lead_byte [of "a - 192"] by simp_all
    then have "length (utf8_char (a mod 32 * 64 + b mod 64)) = 2" by (intro decoded_char_length(2)) linarith+
    then show ?thesis using two 1(1) by simp
  next
    case (three a b c r)
    have b: "b mod 64 = b - 128" using three(4) by (rule cont_byte_mod)
    have m: "a mod 16 = a - 224" "c mod 64 < 64" "b mod 64 < 64"
      using three(2,3) lead_byte3 [of "a - 224"] by simp_all
    have "0x800 \<le> a mod 16 * 4096 + b mod 64 * 64 + c mod 64"
      using three(2,4,6) b m(1) by (cases "a = 224") (simp_all add: cont_byte_def)
    moreover have "a mod 16 < 16" by simp
    then have "a mod 16 * 4096 + b mod 64 * 64 + c mod 64 < 0x10000" using m(2,3) by linarith
    ultimately have "length (utf8_char (a mod 16 * 4096 + b mod 64 * 64 + c mod 64)) = 3" by (rule decoded_char_length(3))
    then show ?thesis using three 1(1) by simp
  next
    case (four a b c d r)
    have b: "b mod 64 = b - 128" using four(4) by (rule cont_byte_mod)
    have m: "a mod 8 = a - 240" using four(2,3) lead_byte4 [of "a - 240"] by simp
    have "0x10000 \<le> a mod 8 * 262144 + b mod 64 * 4096 + c mod 64 * 64 + d mod 64"
      using four(2,7) b m by (cases "a = 240") simp_all
    then have "length (utf8_char (a mod 8 * 262144 + b mod 64 * 4096 + c mod 64 * 64 + d mod 64)) = 4"
      by (rule decoded_char_length(4))
    then show ?thesis using four 1(1) by simp
  qed
qed

lemma valid_utf8_ascii: "(\<And>b. b \<in> set bs \<Longrightarrow> b < 128) \<Longrightarrow> valid_utf8 bs"
  by (induction bs) simp_all

lemma string_text_ascii: "(\<And>c. c \<in> set s \<Longrightarrow> of_char c < (128 :: nat)) \<Longrightarrow> string_text s = map of_char s"
  unfolding string_text_def by (induction s) simp_all

end
