(* ===== verification/Portable_Data.thy ===== *)
theory Portable_Data
  imports Profile_Properties Utf8_Text
begin

text \<open>
  Export and import of a Profile as a portable document, \<open>crates/storage/src/portable.rs\<close>: the document
  and its limits, its validation, the preview of an import and the merge that applies it. The theory
  shows that an import does what its preview announced, key by key, that importing twice is the same
  as importing once, and that history and favorites survive an export followed by an import.
\<close>

section \<open>The document\<close>

datatype portable_data_error =
  PdStorage storage_error | PdJson | PdTooLarge | PdTooManyRecords | PdUnsupportedVersion
  | PdWrongProfile | PdInvalid string

definition portable_format :: string where
  "portable_format = ''lvos-data-export''"

definition export_format_version :: u32 where
  "export_format_version = 1"

definition schema_version :: u32 where
  "schema_version = 2"

definition max_portable_json_bytes :: usize where
  "max_portable_json_bytes = 16777216"

definition max_portable_records :: usize where
  "max_portable_records = 100000"

definition max_source_characters :: usize where
  "max_source_characters = 16384"

record portable_content =
  ptc_content_key :: string
  ptc_key_version :: u32
  ptc_kind :: string
  ptc_source_lang :: string
  ptc_source_text :: utext
  ptc_canonical_text :: utext

record portable_translation =
  ptt_target_lang :: string
  ptt_translation :: utext
  ptt_provider :: string
  ptt_updated_at :: i64

record portable_history =
  pth_content :: portable_content
  pth_translation :: portable_translation
  pth_last_queried_at :: i64

record portable_favorite =
  ptf_content :: portable_content
  ptf_translation :: portable_translation
  ptf_favorited_at :: i64
  ptf_updated_at :: i64
  ptf_deleted_at :: "i64 option"

record portable_archive =
  pta_content_key :: string
  pta_query_count :: u64
  pta_first_queried_at :: i64
  pta_last_queried_at :: i64

record portable_export =
  pte_format :: string
  pte_export_version :: u32
  pte_app_version :: string
  pte_schema_version :: u32
  pte_username :: "string option"
  pte_history :: "portable_history list"
  pte_favorites :: "portable_favorite list"
  pte_query_stats_archive :: "portable_archive list"

record import_preview =
  ip_history_add :: u64
  ip_history_update :: u64
  ip_history_skip :: u64
  ip_favorite_add :: u64
  ip_favorite_reactivate :: u64
  ip_favorite_skip :: u64
  ip_tombstone_archive :: u64
  ip_query_stats_archive :: u64

record validated_export =
  ve_history :: "history_entry list"
  ve_favorites :: "favorite list"
  ve_history_keys :: "content_key list"
  ve_query_stats_count :: usize

record import_plan =
  pl_target_profile_id :: uuid
  pl_export :: validated_export
  pl_preview :: import_preview

text \<open>\<open>serde_json\<close> is a parameter: how a document is written, and what a byte string is read as.\<close>

record portable_json =
  pj_write :: "portable_export \<Rightarrow> byte list"
  pj_read :: "byte list \<Rightarrow> portable_export option"

abbreviation he_key :: "history_entry \<Rightarrow> content_key" where
  "he_key e \<equiv> stc_content_key (he_content e)"

abbreviation fv_key :: "favorite \<Rightarrow> content_key" where
  "fv_key f \<equiv> stc_content_key (fv_content f)"

section \<open>Export\<close>

definition portable_content_of :: "stored_content \<Rightarrow> portable_content" where
  "portable_content_of c =
     \<lparr>ptc_content_key = to_hex (stc_content_key c), ptc_key_version = stc_key_version c,
      ptc_kind = protocol_name (stc_kind c), ptc_source_lang = stc_source_lang c,
      ptc_source_text = stc_source_text c, ptc_canonical_text = stc_canonical_text c\<rparr>"

definition portable_translation_of :: "translation_snapshot \<Rightarrow> portable_translation" where
  "portable_translation_of t =
     \<lparr>ptt_target_lang = ts_target_lang t, ptt_translation = ts_translation t,
      ptt_provider = ts_provider t, ptt_updated_at = ts_updated_at t\<rparr>"

definition portable_history_of :: "history_entry \<Rightarrow> portable_history" where
  "portable_history_of e =
     \<lparr>pth_content = portable_content_of (he_content e),
      pth_translation = portable_translation_of (he_translation e),
      pth_last_queried_at = he_last_queried_at e\<rparr>"

definition portable_favorite_of :: "favorite \<Rightarrow> portable_favorite" where
  "portable_favorite_of f =
     \<lparr>ptf_content = portable_content_of (fv_content f),
      ptf_translation = portable_translation_of (fv_translation f),
      ptf_favorited_at = fv_created_at f, ptf_updated_at = fv_updated_at f,
      ptf_deleted_at = fv_deleted_at f\<rparr>"

definition export_history :: "profile_db \<Rightarrow> portable_data_error + portable_history list" where
  "export_history db =
     mapM (\<lambda>(k, row). map_err PdStorage (rbind (parse_history k row) (\<lambda>e. Inr (portable_history_of e))))
       (sort_key fst (history_entries db))"

definition export_favorites :: "profile_db \<Rightarrow> portable_data_error + portable_favorite list" where
  "export_favorites db =
     mapM (\<lambda>(k, row). map_err PdStorage (rbind (parse_favorite k row) (\<lambda>f. Inr (portable_favorite_of f))))
       (sort_key fst (favorites db))"

definition archive_of :: "content_key \<Rightarrow> query_stats \<Rightarrow> portable_archive" where
  "archive_of key stats =
     \<lparr>pta_content_key = to_hex key, pta_query_count = effective_total stats,
      pta_first_queried_at = (case qs_server_first_queried_at stats of
         None \<Rightarrow> qs_first_queried_at stats | Some t \<Rightarrow> min t (qs_first_queried_at stats)),
      pta_last_queried_at = (case qs_server_last_queried_at stats of
         None \<Rightarrow> qs_last_queried_at stats | Some t \<Rightarrow> max t (qs_last_queried_at stats))\<rparr>"

definition export_query_stats_archive :: "profile_db \<Rightarrow> portable_data_error + portable_archive list" where
  "export_query_stats_archive db =
     mapM (\<lambda>k.
       rbind (map_err (\<lambda>_. PdInvalid ''stored content key'') (content_key_from_str k)) (\<lambda>key.
       rbind (map_err PdStorage (query_stats_tx db key)) (\<lambda>found.
       rbind (ok_or (PdInvalid ''stored QueryStats disappeared'') found) (\<lambda>stats.
         Inr (archive_of key stats)))))
       (sort (map fst (stats_table db)))"

definition portable_record_count :: "profile_db \<Rightarrow> usize" where
  "portable_record_count db =
     length (history_entries db) + length (favorites db) + length (stats_table db)"

definition enforce_record_limit :: "usize \<Rightarrow> usize \<Rightarrow> usize \<Rightarrow> portable_data_error + unit" where
  "enforce_record_limit history favs query_stats =
     (case checked_add_u64 history favs of
        None \<Rightarrow> Inl PdTooManyRecords
      | Some n \<Rightarrow> (case checked_add_u64 n query_stats of
          None \<Rightarrow> Inl PdTooManyRecords
        | Some all \<Rightarrow> if all > max_portable_records then Inl PdTooManyRecords else Inr ()))"

definition export_document :: "uuid_parser \<Rightarrow> string \<Rightarrow> profile_db \<Rightarrow> portable_data_error + portable_export" where
  "export_document up software_version db =
     (if portable_record_count db > max_portable_records then Inl PdTooManyRecords
      else
      rbind (map_err PdStorage (read_profile_metadata up db)) (\<lambda>metadata.
      rbind (export_history db) (\<lambda>history.
      rbind (export_favorites db) (\<lambda>favs.
      rbind (export_query_stats_archive db) (\<lambda>archive.
      rbind (enforce_record_limit (length history) (length favs) (length archive)) (\<lambda>_.
      Inr \<lparr>pte_format = portable_format, pte_export_version = export_format_version,
           pte_app_version = software_version, pte_schema_version = schema_version,
           pte_username = pm_username metadata, pte_history = history, pte_favorites = favs,
           pte_query_stats_archive = archive\<rparr>))))))"

definition export_portable_json ::
  "portable_json \<Rightarrow> uuid_parser \<Rightarrow> string \<Rightarrow> profile_db \<Rightarrow> portable_data_error + byte list" where
  "export_portable_json js up software_version db =
     rbind (export_document up software_version db) (\<lambda>doc.
       let bytes = pj_write js doc in
       if length bytes > max_portable_json_bytes then Inl PdTooLarge else Inr bytes)"

section \<open>Validation\<close>

definition validate_content ::
  "unicode_db \<Rightarrow> sha256 \<Rightarrow> portable_content \<Rightarrow> portable_data_error + stored_content" where
  "validate_content u sha v =
     (if ptc_key_version v \<noteq> content_key_version then Inl PdUnsupportedVersion
      else if length (ptc_source_text v) > max_source_characters
      then Inl (PdInvalid ''source content length'')
      else
      rbind (map_err (\<lambda>_. PdInvalid ''source language'') (parse_language_code (ptc_source_lang v))) (\<lambda>source_lang.
      rbind (map_err (\<lambda>_. PdInvalid ''source content'')
               (prepare_content u sha (ptc_source_text v) source_lang max_source_characters)) (\<lambda>prepared.
      rbind (if ptc_kind v = ''word'' then Inr Word else if ptc_kind v = ''text'' then Inr Text
             else Inl (PdInvalid ''content kind'')) (\<lambda>kind.
      rbind (map_err (\<lambda>_. PdInvalid ''content key'') (content_key_from_str (ptc_content_key v))) (\<lambda>key.
      if pc_content_key prepared \<noteq> key \<or> cc_key_version (pc_canonical prepared) \<noteq> ptc_key_version v
         \<or> cc_kind (pc_canonical prepared) \<noteq> kind \<or> pc_source_text prepared \<noteq> ptc_source_text v
         \<or> cc_text (pc_canonical prepared) \<noteq> ptc_canonical_text v
      then Inl (PdInvalid ''content identity mismatch'')
      else Inr \<lparr>stc_content_key = key, stc_key_version = ptc_key_version v, stc_kind = kind,
                stc_source_lang = source_lang, stc_source_text = ptc_source_text v,
                stc_canonical_text = ptc_canonical_text v\<rparr>)))))"

definition validate_translation :: "portable_translation \<Rightarrow> portable_data_error + translation_snapshot" where
  "validate_translation v =
     (if ptt_translation v = [] \<or> utf8_len (ptt_translation v) > 65536
         \<or> ptt_provider v = [] \<or> length (ptt_provider v) > 128
         \<or> list_ex is_control (string_text (ptt_provider v))
         \<or> list_ex (\<lambda>c. is_control c \<and> \<not> is_whitespace c) (ptt_translation v)
         \<or> ptt_updated_at v < 0
      then Inl (PdInvalid ''translation snapshot'')
      else
      rbind (map_err (\<lambda>_. PdInvalid ''target language'') (parse_language_code (ptt_target_lang v))) (\<lambda>target_lang.
      Inr \<lparr>ts_target_lang = target_lang, ts_translation = ptt_translation v,
           ts_provider = ptt_provider v, ts_updated_at = ptt_updated_at v\<rparr>))"

definition validate_history ::
  "unicode_db \<Rightarrow> sha256 \<Rightarrow> portable_history \<Rightarrow> portable_data_error + history_entry" where
  "validate_history u sha v =
     (if pth_last_queried_at v < 0 then Inl (PdInvalid ''History timestamp'')
      else rbind (validate_translation (pth_translation v)) (\<lambda>translation.
      if ts_updated_at translation > pth_last_queried_at v
      then Inl (PdInvalid ''History timestamp order'')
      else rbind (validate_content u sha (pth_content v)) (\<lambda>content.
      Inr \<lparr>he_content = content, he_translation = translation,
           he_last_queried_at = pth_last_queried_at v\<rparr>)))"

definition validate_favorite ::
  "unicode_db \<Rightarrow> sha256 \<Rightarrow> portable_favorite \<Rightarrow> portable_data_error + favorite" where
  "validate_favorite u sha v =
     (if ptf_favorited_at v < 0 \<or> ptf_updated_at v < 0 \<or> ptf_favorited_at v > ptf_updated_at v
         \<or> (case ptf_deleted_at v of None \<Rightarrow> False | Some t \<Rightarrow> t < 0)
         \<or> (case ptf_deleted_at v of None \<Rightarrow> False | Some t \<Rightarrow> t < ptf_updated_at v)
      then Inl (PdInvalid ''Favorite timestamp'')
      else rbind (validate_translation (ptf_translation v)) (\<lambda>translation.
      if ts_updated_at translation \<noteq> ptf_updated_at v
      then Inl (PdInvalid ''Favorite translation timestamp'')
      else rbind (validate_content u sha (ptf_content v)) (\<lambda>content.
      Inr \<lparr>fv_content = content, fv_translation = translation, fv_created_at = ptf_favorited_at v,
           fv_updated_at = ptf_updated_at v, fv_deleted_at = ptf_deleted_at v,
           fv_entity_revision = 0\<rparr>)))"

definition validate_archive :: "content_key list \<Rightarrow> portable_archive \<Rightarrow> portable_data_error + content_key" where
  "validate_archive known_keys v =
     rbind (map_err (\<lambda>_. PdInvalid ''QueryStats archive content key'')
              (content_key_from_str (pta_content_key v))) (\<lambda>key.
     if key \<notin> set known_keys \<or> pta_first_queried_at v < 0
        \<or> pta_last_queried_at v < pta_first_queried_at v
     then Inl (PdInvalid ''QueryStats archive'') else Inr key)"

definition take_history ::
  "unicode_db \<Rightarrow> sha256 \<Rightarrow> portable_history \<Rightarrow> history_entry list \<Rightarrow> portable_data_error + history_entry list" where
  "take_history u sha v entries =
     rbind (validate_history u sha v) (\<lambda>entry.
     if he_key entry \<in> set (map he_key entries)
     then Inl (PdInvalid ''duplicate History content key'')
     else Inr (entries @ [entry]))"

definition take_favorite ::
  "unicode_db \<Rightarrow> sha256 \<Rightarrow> history_entry list \<Rightarrow> portable_favorite \<Rightarrow> favorite list
    \<Rightarrow> portable_data_error + favorite list" where
  "take_favorite u sha history v favs =
     rbind (validate_favorite u sha v) (\<lambda>fav.
     if fv_key fav \<in> set (map fv_key favs)
     then Inl (PdInvalid ''duplicate Favorite content key'')
     else if (case find (\<lambda>e. he_key e = fv_key fav) history of None \<Rightarrow> False
              | Some e \<Rightarrow> he_content e \<noteq> fv_content fav)
     then Inl (PdInvalid ''History and Favorite content mismatch'')
     else Inr (favs @ [fav]))"

definition take_archive ::
  "content_key list \<Rightarrow> portable_archive \<Rightarrow> content_key list \<Rightarrow> portable_data_error + content_key list" where
  "take_archive known_keys v keys =
     rbind (validate_archive known_keys v) (\<lambda>key.
     if key \<in> set keys then Inl (PdInvalid ''duplicate QueryStats archive content key'')
     else Inr (keys @ [key]))"

definition validate_export ::
  "unicode_db \<Rightarrow> sha256 \<Rightarrow> portable_export \<Rightarrow> portable_data_error + validated_export" where
  "validate_export u sha doc =
     (if pte_format doc \<noteq> portable_format \<or> pte_export_version doc \<noteq> export_format_version
      then Inl PdUnsupportedVersion
      else if pte_app_version doc = [] \<or> length (pte_app_version doc) > 64
        \<or> list_ex is_control (string_text (pte_app_version doc)) \<or> pte_schema_version doc = 0
      then Inl (PdInvalid ''export metadata'')
      else if (case pte_username doc of None \<Rightarrow> False | Some username \<Rightarrow>
          username = [] \<or> length username > 128 \<or> list_ex is_control (string_text username))
      then Inl (PdInvalid ''Profile label'')
      else
      rbind (enforce_record_limit (length (pte_history doc)) (length (pte_favorites doc))
               (length (pte_query_stats_archive doc))) (\<lambda>_.
      rbind (foldM (take_history u sha) (pte_history doc) []) (\<lambda>history.
      rbind (foldM (take_favorite u sha history) (pte_favorites doc) []) (\<lambda>favs.
      rbind (foldM (take_archive (map he_key history @ map fv_key favs)) (pte_query_stats_archive doc) []) (\<lambda>_.
      Inr \<lparr>ve_history = history, ve_favorites = favs, ve_history_keys = map he_key history,
           ve_query_stats_count = length (pte_query_stats_archive doc)\<rparr>)))))"

section \<open>Merge\<close>

definition empty_preview :: "validated_export \<Rightarrow> import_preview" where
  "empty_preview ex = \<lparr>ip_history_add = 0, ip_history_update = 0, ip_history_skip = 0,
     ip_favorite_add = 0, ip_favorite_reactivate = 0, ip_favorite_skip = 0, ip_tombstone_archive = 0,
     ip_query_stats_archive = ve_query_stats_count ex\<rparr>"

definition preview_history ::
  "profile_db \<Rightarrow> history_entry \<Rightarrow> import_preview \<Rightarrow> portable_data_error + import_preview" where
  "preview_history db entry p =
     rbind (map_err PdStorage (history_by_key db (he_key entry))) (\<lambda>found.
     Inr (case found of
        None \<Rightarrow> p\<lparr>ip_history_add := ip_history_add p + 1\<rparr>
      | Some local \<Rightarrow>
          if he_last_queried_at entry > he_last_queried_at local
          then p\<lparr>ip_history_update := ip_history_update p + 1\<rparr>
          else p\<lparr>ip_history_skip := ip_history_skip p + 1\<rparr>))"

definition preview_favorite ::
  "profile_db \<Rightarrow> content_key list \<Rightarrow> favorite \<Rightarrow> import_preview \<Rightarrow> portable_data_error + import_preview" where
  "preview_favorite db history_keys fav p =
     rbind (if fv_key fav \<in> set history_keys then Inr p
            else rbind (map_err PdStorage (history_by_key db (fv_key fav))) (\<lambda>found.
              Inr (if found = None then p\<lparr>ip_history_add := ip_history_add p + 1\<rparr> else p))) (\<lambda>p1.
     rbind (map_err PdStorage (favorite_by_key db (fv_key fav))) (\<lambda>existing.
     Inr (case (fv_deleted_at fav = None, existing) of
        (True, None) \<Rightarrow> p1\<lparr>ip_favorite_add := ip_favorite_add p1 + 1\<rparr>
      | (True, Some local) \<Rightarrow>
          if fv_deleted_at local \<noteq> None
          then p1\<lparr>ip_favorite_reactivate := ip_favorite_reactivate p1 + 1\<rparr>
          else p1\<lparr>ip_favorite_skip := ip_favorite_skip p1 + 1\<rparr>
      | (False, None) \<Rightarrow> p1\<lparr>ip_tombstone_archive := ip_tombstone_archive p1 + 1\<rparr>
      | (False, Some _) \<Rightarrow> p1\<lparr>ip_favorite_skip := ip_favorite_skip p1 + 1\<rparr>)))"

definition preview_merge :: "profile_db \<Rightarrow> validated_export \<Rightarrow> portable_data_error + import_preview" where
  "preview_merge db ex =
     rbind (foldM (preview_history db) (ve_history ex) (empty_preview ex))
       (foldM (preview_favorite db (ve_history_keys ex)) (ve_favorites ex))"

definition insert_history_with_zero_stats :: "profile_db \<Rightarrow> history_entry \<Rightarrow> profile_db" where
  "insert_history_with_zero_stats db entry =
     (let db1 = upsert_history db entry; k = to_hex (he_key entry); t = he_last_queried_at entry in
      if tbl_has (stats_table db1) k then db1
      else db1\<lparr>stats_table := tbl_put k (baseline_stats t t) (stats_table db1)\<rparr>)"

definition merge_history ::
  "history_entry \<Rightarrow> profile_db \<times> import_preview \<Rightarrow> portable_data_error + profile_db \<times> import_preview" where
  "merge_history imported st = (case st of (db, p) \<Rightarrow>
     rbind (map_err PdStorage (history_by_key db (he_key imported))) (\<lambda>found.
     Inr (case found of
        None \<Rightarrow> (insert_history_with_zero_stats db imported, p\<lparr>ip_history_add := ip_history_add p + 1\<rparr>)
      | Some local \<Rightarrow>
          if he_last_queried_at imported > he_last_queried_at local
          then (upsert_history db imported, p\<lparr>ip_history_update := ip_history_update p + 1\<rparr>)
          else (db, p\<lparr>ip_history_skip := ip_history_skip p + 1\<rparr>))))"

definition history_from_favorite :: "favorite \<Rightarrow> history_entry" where
  "history_from_favorite fav =
     \<lparr>he_content = fv_content fav, he_translation = fv_translation fav,
      he_last_queried_at = fv_updated_at fav\<rparr>"

definition archive_tombstone :: "profile_db \<Rightarrow> favorite \<Rightarrow> portable_data_error + profile_db" where
  "archive_tombstone db fav =
     (let c = fv_content fav; t = fv_translation fav; k = to_hex (stc_content_key c) in
      if tbl_has (favorites db) k then Inl (PdStorage StSqlite)
      else Inr (db\<lparr>favorites := tbl_put k
        \<lparr>rf_key_version = int (stc_key_version c), rf_kind = protocol_name (stc_kind c),
         rf_source_lang = stc_source_lang c, rf_target_lang = ts_target_lang t,
         rf_source_text = stc_source_text c, rf_canonical_text = stc_canonical_text c,
         rf_translation = ts_translation t, rf_provider = ts_provider t,
         rf_created_at = fv_created_at fav, rf_updated_at = fv_updated_at fav,
         rf_deleted_at = fv_deleted_at fav, rf_entity_revision = 0\<rparr> (favorites db)\<rparr>))"

definition favorite_history ::
  "content_key list \<Rightarrow> favorite \<Rightarrow> profile_db \<times> import_preview \<Rightarrow> portable_data_error + profile_db \<times> import_preview" where
  "favorite_history history_keys fav st = (case st of (db, p) \<Rightarrow>
     if fv_key fav \<in> set history_keys then Inr (db, p)
     else rbind (map_err PdStorage (history_by_key db (fv_key fav))) (\<lambda>found.
       Inr (if found = None
         then (insert_history_with_zero_stats db (history_from_favorite fav),
               p\<lparr>ip_history_add := ip_history_add p + 1\<rparr>)
         else (db, p))))"

text \<open>\<open>event_id\<close> is the identifier the code would draw for the intent of this favorite.\<close>

definition merge_favorite ::
  "content_key list \<Rightarrow> i64 \<Rightarrow> favorite \<Rightarrow> uuid \<Rightarrow> profile_db \<times> import_preview
    \<Rightarrow> portable_data_error + profile_db \<times> import_preview" where
  "merge_favorite history_keys now fav event_id st =
     rbind (favorite_history history_keys fav st) (\<lambda>(db, p).
     rbind (map_err PdStorage (favorite_by_key db (fv_key fav))) (\<lambda>existing.
     if fv_deleted_at fav = None then
       (case existing of
          Some local \<Rightarrow>
            if fv_deleted_at local = None
            then Inr (db, p\<lparr>ip_favorite_skip := ip_favorite_skip p + 1\<rparr>)
            else rbind (map_err PdStorage (favorite_from_history_tx db (fv_key fav) now event_id)) (\<lambda>(_, db1).
              Inr (db1, p\<lparr>ip_favorite_reactivate := ip_favorite_reactivate p + 1\<rparr>))
        | None \<Rightarrow>
            rbind (map_err PdStorage (favorite_from_history_tx db (fv_key fav) now event_id)) (\<lambda>(_, db1).
              Inr (db1, p\<lparr>ip_favorite_add := ip_favorite_add p + 1\<rparr>)))
     else if existing \<noteq> None then Inr (db, p\<lparr>ip_favorite_skip := ip_favorite_skip p + 1\<rparr>)
     else rbind (archive_tombstone db fav) (\<lambda>db1.
       Inr (db1, p\<lparr>ip_tombstone_archive := ip_tombstone_archive p + 1\<rparr>))))"

definition apply_merge ::
  "profile_db \<Rightarrow> validated_export \<Rightarrow> i64 \<Rightarrow> (nat \<Rightarrow> uuid) \<Rightarrow> portable_data_error + profile_db \<times> import_preview" where
  "apply_merge db ex now ids =
     rbind (foldM merge_history (ve_history ex) (db, empty_preview ex))
       (foldM (\<lambda>(i, fav). merge_favorite (ve_history_keys ex) now fav (ids i)) (enumerate 0 (ve_favorites ex)))"

section \<open>The three operations\<close>

definition preview_portable_import ::
  "portable_json \<Rightarrow> unicode_db \<Rightarrow> sha256 \<Rightarrow> uuid_parser \<Rightarrow> byte list \<Rightarrow> profile_db
    \<Rightarrow> portable_data_error + import_plan" where
  "preview_portable_import js u sha up bytes db =
     (if length bytes > max_portable_json_bytes then Inl PdTooLarge
      else if bytes = [] then Inl (PdInvalid ''empty document'')
      else
      rbind (ok_or PdJson (pj_read js bytes)) (\<lambda>doc.
      rbind (validate_export u sha doc) (\<lambda>export.
      rbind (preview_merge db export) (\<lambda>preview.
      rbind (map_err PdStorage (read_profile_metadata up db)) (\<lambda>metadata.
      Inr \<lparr>pl_target_profile_id = pm_profile_id metadata, pl_export = export,
           pl_preview = preview\<rparr>)))))"

definition apply_portable_import ::
  "uuid_parser \<Rightarrow> import_plan \<Rightarrow> i64 \<Rightarrow> (nat \<Rightarrow> uuid) \<Rightarrow> profile_db
    \<Rightarrow> (portable_data_error + import_preview) \<times> profile_db" where
  "apply_portable_import up plan now ids db =
     (case rbind (map_err PdStorage (read_profile_metadata up db)) (\<lambda>metadata.
           if pm_profile_id metadata \<noteq> pl_target_profile_id plan then Inl PdWrongProfile
           else apply_merge db (pl_export plan) now ids) of
        Inl e \<Rightarrow> (Inl e, db)
      | Inr (db', result) \<Rightarrow> (Inr result, db'))"

section \<open>What validation guarantees\<close>

definition favorite_typed :: "favorite \<Rightarrow> bool" where
  "favorite_typed f \<longleftrightarrow> length (fv_key f) = 32 \<and> stc_key_version (fv_content f) \<le> u32_max
     \<and> lang_text (stc_source_lang (fv_content f)) \<and> lang_text (ts_target_lang (fv_translation f))"

definition import_ok :: "validated_export \<Rightarrow> bool" where
  "import_ok ex \<longleftrightarrow> list_all history_entry_typed (ve_history ex) \<and> distinct (map he_key (ve_history ex))
     \<and> list_all favorite_typed (ve_favorites ex) \<and> distinct (map fv_key (ve_favorites ex))
     \<and> ve_history_keys ex = map he_key (ve_history ex)"

lemma lang_text_parsed: "parse_language_code v = Inr c \<Longrightarrow> lang_text c"
  using parse_language_code_stable by (auto simp: lang_text_def)

lemma validate_content_typed:
  assumes "validate_content u sha v = Inr c"
  shows "length (stc_content_key c) = 32 \<and> stc_key_version c \<le> u32_max \<and> lang_text (stc_source_lang c)"
  using assms
  by (auto simp: validate_content_def res_simps content_key_from_str_Inr u32_max_def content_key_version_def
      intro: lang_text_parsed split: if_splits)

lemma validate_translation_typed: "validate_translation v = Inr t \<Longrightarrow> lang_text (ts_target_lang t)"
  by (auto simp: validate_translation_def res_simps intro: lang_text_parsed split: if_splits)

lemma validate_history_typed: "validate_history u sha v = Inr e \<Longrightarrow> history_entry_typed e"
  by (auto simp: validate_history_def res_simps history_entry_typed_def
      dest: validate_content_typed validate_translation_typed split: if_splits)

lemma validate_favorite_typed: "validate_favorite u sha v = Inr f \<Longrightarrow> favorite_typed f"
  by (auto simp: validate_favorite_def res_simps favorite_typed_def
      dest: validate_content_typed validate_translation_typed split: if_splits)

lemma take_history_Inr: "take_history u sha v es = Inr es' \<Longrightarrow>
    \<exists>e. validate_history u sha v = Inr e \<and> he_key e \<notin> set (map he_key es) \<and> es' = es @ [e]"
  by (auto simp: take_history_def res_simps split: if_splits)

lemma take_favorite_Inr: "take_favorite u sha hs v fs = Inr fs' \<Longrightarrow>
    \<exists>f. validate_favorite u sha v = Inr f \<and> fv_key f \<notin> set (map fv_key fs) \<and> fs' = fs @ [f]"
  by (auto simp: take_favorite_def res_simps split: if_splits)

lemma take_histories:
  assumes "foldM (take_history u sha) vs es = Inr es'"
  shows "\<exists>new. es' = es @ new \<and> mapM (validate_history u sha) vs = Inr new
     \<and> (distinct (map he_key es) \<longrightarrow> distinct (map he_key es'))"
  using assms
proof (induction vs arbitrary: es)
  case (Cons v vs)
  then obtain e where e: "validate_history u sha v = Inr e" "he_key e \<notin> set (map he_key es)"
    "foldM (take_history u sha) vs (es @ [e]) = Inr es'"
    by (auto simp: rbind_Inr dest!: take_history_Inr)
  from Cons.IH [OF e(3)] obtain new where "es' = es @ [e] @ new" "mapM (validate_history u sha) vs = Inr new"
    "distinct (map he_key (es @ [e])) \<longrightarrow> distinct (map he_key es')" by auto
  then show ?case using e(1,2) by (intro exI [of _ "e # new"]) auto
qed simp

lemma take_favorites:
  assumes "foldM (take_favorite u sha hs) vs fs = Inr fs'"
  shows "\<exists>new. fs' = fs @ new \<and> mapM (validate_favorite u sha) vs = Inr new
     \<and> (distinct (map fv_key fs) \<longrightarrow> distinct (map fv_key fs'))"
  using assms
proof (induction vs arbitrary: fs)
  case (Cons v vs)
  then obtain f where f: "validate_favorite u sha v = Inr f" "fv_key f \<notin> set (map fv_key fs)"
    "foldM (take_favorite u sha hs) vs (fs @ [f]) = Inr fs'"
    by (auto simp: rbind_Inr dest!: take_favorite_Inr)
  from Cons.IH [OF f(3)] obtain new where "fs' = fs @ [f] @ new" "mapM (validate_favorite u sha) vs = Inr new"
    "distinct (map fv_key (fs @ [f])) \<longrightarrow> distinct (map fv_key fs')" by auto
  then show ?case using f(1,2) by (intro exI [of _ "f # new"]) auto
qed simp

lemma mapM_all: "mapM f xs = Inr ys \<Longrightarrow> (\<And>x y. f x = Inr y \<Longrightarrow> P y) \<Longrightarrow> list_all P ys"
  by (induction xs arbitrary: ys) (auto simp: res_simps)

lemma validate_export_cases:
  assumes "validate_export u sha doc = Inr ex"
  obtains "mapM (validate_history u sha) (pte_history doc) = Inr (ve_history ex)"
    "mapM (validate_favorite u sha) (pte_favorites doc) = Inr (ve_favorites ex)" "import_ok ex"
proof -
  from assms obtain hs fs where h: "foldM (take_history u sha) (pte_history doc) [] = Inr hs"
    and f: "foldM (take_favorite u sha hs) (pte_favorites doc) [] = Inr fs"
    and ex: "ve_history ex = hs" "ve_favorites ex = fs" "ve_history_keys ex = map he_key hs"
    by (auto simp: validate_export_def res_simps split: if_splits)
  note H = take_histories [OF h] and F = take_favorites [OF f]
  have m: "mapM (validate_history u sha) (pte_history doc) = Inr hs" "mapM (validate_favorite u sha) (pte_favorites doc) = Inr fs"
    using H F by auto
  have "import_ok ex" using H F mapM_all [OF m(1) validate_history_typed] mapM_all [OF m(2) validate_favorite_typed]
    by (auto simp: import_ok_def ex)
  then show thesis using that m by (simp add: ex)
qed

section \<open>Merging one record\<close>

definition history_of_row :: "content_key \<Rightarrow> history_row \<Rightarrow> history_entry" where
  "history_of_row key row =
     \<lparr>he_content = \<lparr>stc_content_key = key, stc_key_version = nat (hr_key_version row),
        stc_kind = kind_of (hr_kind row), stc_source_lang = lang_of (hr_source_lang row),
        stc_source_text = hr_source_text row, stc_canonical_text = hr_canonical_text row\<rparr>,
      he_translation = \<lparr>ts_target_lang = lang_of (hr_target_lang row),
        ts_translation = hr_translation row, ts_provider = hr_provider row,
        ts_updated_at = hr_translation_updated_at row\<rparr>,
      he_last_queried_at = hr_last_queried_at row\<rparr>"

lemma parse_history_ok:
  "history_row_ok row \<Longrightarrow> length key = 32 \<Longrightarrow> parse_history (to_hex key) row = Inr (history_of_row key row)"
  by (simp add: parse_history_def history_row_ok_def lang_text_parse kind_text_parse history_of_row_def u32_of_i64_def)

lemma history_by_key_ok:
  assumes "tables_inv db" and "length key = 32"
  shows "history_by_key db key = Inr (map_option (history_of_row key) (tbl_get (history_entries db) (to_hex key)))"
  using assms
  by (cases "tbl_get (history_entries db) (to_hex key)")
     (auto simp: history_by_key_def tables_inv_def parse_history_ok)

definition history_row_of :: "history_entry \<Rightarrow> history_row" where
  "history_row_of e =
     (let c = he_content e; t = he_translation e in
      \<lparr>hr_key_version = int (stc_key_version c), hr_kind = protocol_name (stc_kind c),
       hr_source_lang = stc_source_lang c, hr_target_lang = ts_target_lang t,
       hr_source_text = stc_source_text c, hr_canonical_text = stc_canonical_text c,
       hr_translation = ts_translation t, hr_provider = ts_provider t,
       hr_last_queried_at = he_last_queried_at e, hr_translation_updated_at = ts_updated_at t\<rparr>)"

lemma upsert_history_row:
  "upsert_history db e = db\<lparr>history_entries := tbl_put (to_hex (he_key e)) (history_row_of e) (history_entries db)\<rparr>"
  by (simp add: upsert_history_def history_row_of_def Let_def)

lemma history_row_of_ok: "history_entry_typed e \<Longrightarrow> history_row_ok (history_row_of e)"
  using protocol_name_cases by (auto simp: history_entry_typed_def history_row_ok_def history_row_of_def Let_def)

text \<open>The abstract merge of one history row: the newer query wins, the local one on a tie.\<close>

definition newer_history :: "history_row option \<Rightarrow> history_entry \<Rightarrow> history_row" where
  "newer_history local e = (case local of
     None \<Rightarrow> history_row_of e
   | Some r \<Rightarrow> if he_last_queried_at e > hr_last_queried_at r then history_row_of e else r)"

text \<open>Statistics are added with zero counts where there were none and never changed.\<close>

definition stats_grown :: "profile_db \<Rightarrow> profile_db \<Rightarrow> bool" where
  "stats_grown db db' \<longleftrightarrow> (\<forall>k. tbl_get (stats_table db') k = tbl_get (stats_table db) k
     \<or> tbl_get (stats_table db) k = None \<and> (\<exists>t. tbl_get (stats_table db') k = Some (baseline_stats t t)))"

lemma stats_grown_refl [simp]: "stats_grown db db"
  by (simp add: stats_grown_def)

lemma baseline_none: "baseline_stats t t = baseline_stats t' t' \<longleftrightarrow> t = t'"
  by (auto simp: baseline_stats_def)

lemma stats_grown_trans: "stats_grown a b \<Longrightarrow> stats_grown b c \<Longrightarrow> stats_grown a c"
  unfolding stats_grown_def by metis

lemma profile_inv_history_put:
  assumes "profile_inv db" and "history_entry_typed e"
  shows "profile_inv (insert_history_with_zero_stats db e)"
    and "tbl_get (history_entries db) (to_hex (he_key e)) \<noteq> None \<Longrightarrow> profile_inv (upsert_history db e)"
proof -
  let ?k = "to_hex (he_key e)"
  have key: "key_text ?k" using assms(2) by (auto simp: history_entry_typed_def key_text_def)
  note ok = history_row_of_ok [OF assms(2)]
  show "profile_inv (insert_history_with_zero_stats db e)"
    using assms(1) key ok
    by (auto simp: insert_history_with_zero_stats_def upsert_history_row Let_def profile_inv_def tables_inv_def tbl_has_get)
  assume "tbl_get (history_entries db) ?k \<noteq> None"
  then have "tbl_has (stats_table db) ?k"
    using assms(1) by (auto simp: profile_inv_def tables_inv_def)
  then show "profile_inv (upsert_history db e)"
    using assms(1) key ok by (auto simp: upsert_history_row profile_inv_def tables_inv_def)
qed

lemma insert_history_get:
  "tbl_get (history_entries (insert_history_with_zero_stats db e)) =
     (tbl_get (history_entries db))(to_hex (he_key e) \<mapsto> history_row_of e)"
  "favorites (insert_history_with_zero_stats db e) = favorites db"
  "sync_outbox (insert_history_with_zero_stats db e) = sync_outbox db"
  "profile_meta (insert_history_with_zero_stats db e) = profile_meta db"
  "stats_grown db (insert_history_with_zero_stats db e)"
  by (auto simp: insert_history_with_zero_stats_def upsert_history_row Let_def stats_grown_def tbl_has_get)

lemma merge_history_step:
  assumes "profile_inv db" and "history_entry_typed e"
  obtains db' p' where "merge_history e (db, p) = Inr (db', p')" "profile_inv db'"
    "\<And>db0. tables_inv db0 \<Longrightarrow> tbl_get (history_entries db0) (to_hex (he_key e)) = tbl_get (history_entries db) (to_hex (he_key e))
       \<Longrightarrow> preview_history db0 e p = Inr p'"
    "tbl_get (history_entries db') = (tbl_get (history_entries db))(to_hex (he_key e) \<mapsto>
        newer_history (tbl_get (history_entries db) (to_hex (he_key e))) e)"
    "favorites db' = favorites db" "sync_outbox db' = sync_outbox db" "profile_meta db' = profile_meta db"
    "stats_grown db db'"
proof -
  let ?h = "tbl_get (history_entries db) (to_hex (he_key e))"
  have t: "tables_inv db" using assms(1) by (rule profile_invE)
  have len: "length (he_key e) = 32" using assms(2) by (simp add: history_entry_typed_def)
  note look = history_by_key_ok [OF _ len]
  show thesis
  proof (cases ?h)
    case None
    show thesis
      by (rule that [of "insert_history_with_zero_stats db e" "p\<lparr>ip_history_add := ip_history_add p + 1\<rparr>"])
        (use None in \<open>simp_all add: merge_history_def preview_history_def look t insert_history_get newer_history_def
           profile_inv_history_put [OF assms]\<close>)
  next
    case (Some r)
    have "profile_inv (upsert_history db e)" using profile_inv_history_put(2) [OF assms] Some by simp
    then show thesis
      by (cases "he_last_queried_at e > hr_last_queried_at r")
        (rule that [of "upsert_history db e" "p\<lparr>ip_history_update := ip_history_update p + 1\<rparr>"],
         use Some assms(1) in \<open>auto simp: merge_history_def preview_history_def look t newer_history_def history_of_row_def
           upsert_history_row stats_grown_def intro!: that [of db "p\<lparr>ip_history_skip := ip_history_skip p + 1\<rparr>"]\<close>)
  qed
qed

text \<open>The row an active favorite gets from the history, and the row of an archived tombstone.\<close>

definition active_row :: "content_key \<Rightarrow> history_row \<Rightarrow> i64 \<Rightarrow> i64 \<Rightarrow> favorite_row" where
  "active_row key h now revision =
     (let c = he_content (history_of_row key h); t = he_translation (history_of_row key h) in
      \<lparr>rf_key_version = int (stc_key_version c), rf_kind = protocol_name (stc_kind c),
       rf_source_lang = stc_source_lang c, rf_target_lang = ts_target_lang t,
       rf_source_text = stc_source_text c, rf_canonical_text = stc_canonical_text c,
       rf_translation = ts_translation t, rf_provider = ts_provider t,
       rf_created_at = now, rf_updated_at = now, rf_deleted_at = None, rf_entity_revision = revision\<rparr>)"

definition tombstone_row :: "favorite \<Rightarrow> favorite_row" where
  "tombstone_row f =
     (let c = fv_content f; t = fv_translation f in
      \<lparr>rf_key_version = int (stc_key_version c), rf_kind = protocol_name (stc_kind c),
       rf_source_lang = stc_source_lang c, rf_target_lang = ts_target_lang t,
       rf_source_text = stc_source_text c, rf_canonical_text = stc_canonical_text c,
       rf_translation = ts_translation t, rf_provider = ts_provider t,
       rf_created_at = fv_created_at f, rf_updated_at = fv_updated_at f,
       rf_deleted_at = fv_deleted_at f, rf_entity_revision = 0\<rparr>)"

text \<open>The abstract merge of one favorite: an active one is added or reactivated from the history, a
  deleted one is only archived where nothing was known, everything else stays.\<close>

definition merged_favorite ::
  "i64 \<Rightarrow> history_row \<Rightarrow> favorite_row option \<Rightarrow> favorite \<Rightarrow> favorite_row" where
  "merged_favorite now h local f = (case local of
     None \<Rightarrow> if fv_deleted_at f = None then active_row (fv_key f) h now 0 else tombstone_row f
   | Some r \<Rightarrow> if fv_deleted_at f = None \<and> rf_deleted_at r \<noteq> None
       then active_row (fv_key f) h now (rf_entity_revision r) else r)"

lemma upsert_outbox_total:
  assumes "opt_transpose sqlite_i64 (po_revision ev) = Inr revision"
    and "po_event_id ev \<notin> ob_event_id ` set (sync_outbox db)"
  obtains rows where "upsert_outbox db ev = Inr (db\<lparr>sync_outbox := rows\<rparr>)"
    "ob_event_id ` set rows \<subseteq> insert (po_event_id ev) (ob_event_id ` set (sync_outbox db))"
proof (cases "outbox_find db (po_coalesce_key ev)")
  case None
  then show thesis using assms
    by (intro that) (auto simp: upsert_outbox_def outbox_has_event_def list_ex_iff image_iff)
next
  case (Some old)
  then show thesis using assms
    by (intro that) (auto simp: upsert_outbox_def list_ex_iff image_iff)
qed

lemma active_row_ok:
  assumes "history_row_ok h" and "0 \<le> n" and "n \<le> i64_max"
  shows "favorite_row_ok (active_row key h now n)"
proof -
  have "lang_text (lang_of l)" if "lang_text l" for l
    using that lang_text_parsed by (auto simp: lang_text_def lang_of_def isl_def)
  then show ?thesis
    using assms protocol_name_cases
    by (auto simp: active_row_def history_of_row_def favorite_row_ok_def history_row_ok_def Let_def)
qed

lemma favorite_from_history_total:
  assumes "profile_inv db" and "length key = 32" and h: "tbl_get (history_entries db) (to_hex key) = Some h"
    and off: "\<And>r. tbl_get (favorites db) (to_hex key) = Some r \<Longrightarrow> rf_deleted_at r \<noteq> None"
    and "eid \<notin> ob_event_id ` set (sync_outbox db)"
  defines "n \<equiv> (case tbl_get (favorites db) (to_hex key) of None \<Rightarrow> 0 | Some r \<Rightarrow> rf_entity_revision r)"
  obtains f rows where "favorite_from_history_tx db key now eid = Inr (f, db\<lparr>favorites :=
       tbl_put (to_hex key) (active_row key h now n) (favorites db), sync_outbox := rows\<rparr>)"
    "ob_event_id ` set rows \<subseteq> insert eid (ob_event_id ` set (sync_outbox db))"
proof -
  have t: "tables_inv db" using assms(1) by (rule profile_invE)
  let ?k = "to_hex key"
  obtain s where s: "tbl_get (stats_table db) ?k = Some s" using t h by (fastforce simp: tables_inv_def tbl_has_get)
  have hok: "history_row_ok h" using t h by (auto simp: tables_inv_def)
  have n: "0 \<le> n" "n \<le> i64_max" using t
    by (auto simp: n_def tables_inv_def favorite_row_ok_def i64_max_def split: option.splits)
  let ?db1 = "db\<lparr>favorites := tbl_put ?k (active_row key h now n) (favorites db)\<rparr>"
  let ?stats = "stats_of_row s"
  let ?ev = "\<lparr>po_event_id = eid, po_key = key, po_operation = OutFavoriteUpsert,
       po_payload = FavoritePayload \<lparr>fp_content_key = to_hex key, fp_desired_state = ''active'',
         fp_base_entity_revision = nat n, fp_query_stats = stats_payload key ?stats\<rparr>,
       po_coalesce_key = favorite_coalesce_key key, po_revision = Some (nat n), po_now = now\<rparr>"
  have out: "sync_outbox ?db1 = sync_outbox db" by simp
  obtain rows where up: "upsert_outbox ?db1 ?ev = Inr (?db1\<lparr>sync_outbox := rows\<rparr>)"
    and ids: "ob_event_id ` set rows \<subseteq> insert eid (ob_event_id ` set (sync_outbox db))"
    by (rule upsert_outbox_total [of ?ev "Some n" ?db1]) (use assms(5) n in \<open>auto simp: sqlite_i64_def i64_of_u64_def\<close>)
  have fav: "favorite_by_key (?db1\<lparr>sync_outbox := rows\<rparr>) key = Inr (Some (favorite_of_row key (active_row key h now n)))"
    using active_row_ok [OF hok n] assms(2) by (simp add: favorite_by_key_def parse_favorite_ok)
  have wrote: "favorite_write db key (history_of_row key h) (nat n) ?stats now eid
      = Inr (favorite_of_row key (active_row key h now n), ?db1\<lparr>sync_outbox := rows\<rparr>)"
  proof -
    have "(case tbl_get (favorites db) ?k of None \<Rightarrow> n | Some old \<Rightarrow> rf_entity_revision old) = n"
      by (simp add: n_def split: option.split)
    then show ?thesis
      using n up fav by (simp add: favorite_write_def Let_def sqlite_i64_def i64_of_u64_def active_row_def upsert_favorite_event_def)
  qed
  have "favorite_from_history_tx db key now eid = favorite_write db key (history_of_row key h) (nat n) ?stats now eid"
    using off by (cases "tbl_get (favorites db) ?k")
      (auto simp: favorite_from_history_tx_def history_by_key_ok [OF t assms(2)] query_stats_tx_ok [OF t]
        favorite_by_key_ok [OF t assms(2)] h s favorite_of_row_def n_def)
  then show thesis using that wrote ids by auto
qed

lemma archive_tombstone_inv:
  assumes "profile_inv db" and "favorite_typed f" and "tbl_get (favorites db) (to_hex (fv_key f)) = None"
    and "tbl_get (history_entries db) (to_hex (fv_key f)) \<noteq> None"
  shows "profile_inv (db\<lparr>favorites := tbl_put (to_hex (fv_key f)) (tombstone_row f) (favorites db)\<rparr>)"
proof -
  let ?k = "to_hex (fv_key f)"
  obtain m where t: "tables_inv db" and m: "profile_meta db = Some m" "meta_ok m"
    and out: "outbox_inv (mt_device_id m) (favorites db) (sync_outbox db)"
    using assms(1) by (rule profile_invE)
  have "outbox_inv (mt_device_id m) (tbl_put ?k (tombstone_row f) (favorites db)) (sync_outbox db)"
    using out by (rule outbox_inv_favorites) (use assms(3) in auto)
  moreover have "favorite_row_ok (tombstone_row f)"
    using assms(2) protocol_name_cases
    by (auto simp: favorite_typed_def tombstone_row_def favorite_row_ok_def Let_def i64_max_def)
  moreover have "key_text ?k" using assms(2) by (auto simp: favorite_typed_def key_text_def)
  moreover have "tbl_has (stats_table db) ?k" using t assms(4) by (auto simp: tables_inv_def)
  ultimately show ?thesis using t m by (auto simp: profile_inv_def tables_inv_def)
qed

text \<open>The history a favorite of the document is merged with.\<close>

definition history_for :: "history_row option \<Rightarrow> favorite \<Rightarrow> history_row" where
  "history_for local f = (case local of None \<Rightarrow> history_row_of (history_from_favorite f) | Some r \<Rightarrow> r)"

lemma history_from_favorite_typed: "favorite_typed f \<Longrightarrow> history_entry_typed (history_from_favorite f)"
  by (simp add: favorite_typed_def history_entry_typed_def history_from_favorite_def)

lemma favorite_history_step:
  assumes "profile_inv db" and "favorite_typed f"
    and "fv_key f \<in> set keys \<Longrightarrow> tbl_get (history_entries db) (to_hex (fv_key f)) \<noteq> None"
  obtains db' p' where "favorite_history keys f (db, p) = Inr (db', p')" "profile_inv db'"
    "\<And>db0. tables_inv db0 \<Longrightarrow> (fv_key f \<notin> set keys \<Longrightarrow> tbl_get (history_entries db0) (to_hex (fv_key f))
        = tbl_get (history_entries db) (to_hex (fv_key f))) \<Longrightarrow>
      (if fv_key f \<in> set keys then Inr p
            else rbind (map_err PdStorage (history_by_key db0 (fv_key f))) (\<lambda>found.
              Inr (if found = None then p\<lparr>ip_history_add := ip_history_add p + 1\<rparr> else p))) = Inr p'"
    "tbl_get (history_entries db') = (tbl_get (history_entries db))(to_hex (fv_key f) \<mapsto>
        history_for (tbl_get (history_entries db) (to_hex (fv_key f))) f)"
    "favorites db' = favorites db" "sync_outbox db' = sync_outbox db" "profile_meta db' = profile_meta db"
    "stats_grown db db'"
proof (cases "tbl_get (history_entries db) (to_hex (fv_key f))")
  case None
  let ?e = "history_from_favorite f"
  have t: "tables_inv db" using assms(1) by (rule profile_invE)
  have len: "length (fv_key f) = 32" using assms(2) by (simp add: favorite_typed_def)
  have key: "he_key ?e = fv_key f" by (simp add: history_from_favorite_def)
  have out: "fv_key f \<notin> set keys" using assms(3) None by blast
  show thesis
    by (rule that [of "insert_history_with_zero_stats db ?e" "p\<lparr>ip_history_add := ip_history_add p + 1\<rparr>"])
      (use None out assms in \<open>simp_all add: favorite_history_def history_by_key_ok [OF _ len] t insert_history_get key
        history_for_def profile_inv_history_put [OF assms(1) history_from_favorite_typed]\<close>)
next
  case (Some r)
  have t: "tables_inv db" using assms(1) by (rule profile_invE)
  have len: "length (fv_key f) = 32" using assms(2) by (simp add: favorite_typed_def)
  show thesis
    by (rule that [of db p]) (use Some assms(1) in \<open>auto simp: favorite_history_def history_by_key_ok [OF _ len] t history_for_def\<close>)
qed

lemma merge_favorite_step:
  assumes "profile_inv db" and "favorite_typed f" and "eid \<notin> ob_event_id ` set (sync_outbox db)"
    and "fv_key f \<in> set keys \<Longrightarrow> tbl_get (history_entries db) (to_hex (fv_key f)) \<noteq> None"
  defines "k \<equiv> to_hex (fv_key f)" and "h \<equiv> history_for (tbl_get (history_entries db) (to_hex (fv_key f))) f"
  obtains db' p' where "merge_favorite keys now f eid (db, p) = Inr (db', p')" "profile_inv db'"
    "\<And>db0. tables_inv db0 \<Longrightarrow> (fv_key f \<notin> set keys \<Longrightarrow> tbl_get (history_entries db0) k = tbl_get (history_entries db) k)
       \<Longrightarrow> tbl_get (favorites db0) k = tbl_get (favorites db) k \<Longrightarrow> preview_favorite db0 keys f p = Inr p'"
    "tbl_get (history_entries db') = (tbl_get (history_entries db))(k \<mapsto> h)"
    "tbl_get (favorites db') = (tbl_get (favorites db))(k \<mapsto> merged_favorite now h (tbl_get (favorites db) k) f)"
    "ob_event_id ` set (sync_outbox db') \<subseteq> insert eid (ob_event_id ` set (sync_outbox db))"
    "profile_meta db' = profile_meta db" "stats_grown db db'"
proof -
  obtain db1 p1 where one: "favorite_history keys f (db, p) = Inr (db1, p1)" "profile_inv db1"
    and prev: "\<And>db0. tables_inv db0 \<Longrightarrow> (fv_key f \<notin> set keys \<Longrightarrow> tbl_get (history_entries db0) k
        = tbl_get (history_entries db) k) \<Longrightarrow>
      (if fv_key f \<in> set keys then Inr p
            else rbind (map_err PdStorage (history_by_key db0 (fv_key f))) (\<lambda>found.
              Inr (if found = None then p\<lparr>ip_history_add := ip_history_add p + 1\<rparr> else p))) = Inr p1"
    and hist: "tbl_get (history_entries db1) = (tbl_get (history_entries db))(k \<mapsto> h)"
    and same: "favorites db1 = favorites db" "sync_outbox db1 = sync_outbox db" "profile_meta db1 = profile_meta db"
    and grown: "stats_grown db db1"
    unfolding k_def h_def by (rule favorite_history_step [where p = p, OF assms(1,2,4)]) auto
  have t: "tables_inv db1" using one(2) by (rule profile_invE)
  have len: "length (fv_key f) = 32" using assms(2) by (simp add: favorite_typed_def)
  note look = favorite_by_key_ok [OF t len, folded k_def, unfolded same]
  have h1: "tbl_get (history_entries db1) k = Some h" by (simp add: hist)
  have preview: "preview_favorite db0 keys f p = Inr (case (fv_deleted_at f = None, tbl_get (favorites db) k) of
        (True, None) \<Rightarrow> p1\<lparr>ip_favorite_add := ip_favorite_add p1 + 1\<rparr>
      | (True, Some r) \<Rightarrow> if rf_deleted_at r \<noteq> None
          then p1\<lparr>ip_favorite_reactivate := ip_favorite_reactivate p1 + 1\<rparr>
          else p1\<lparr>ip_favorite_skip := ip_favorite_skip p1 + 1\<rparr>
      | (False, None) \<Rightarrow> p1\<lparr>ip_tombstone_archive := ip_tombstone_archive p1 + 1\<rparr>
      | (False, Some _) \<Rightarrow> p1\<lparr>ip_favorite_skip := ip_favorite_skip p1 + 1\<rparr>)"
    if "tables_inv db0" "fv_key f \<notin> set keys \<Longrightarrow> tbl_get (history_entries db0) k = tbl_get (history_entries db) k"
      "tbl_get (favorites db0) k = tbl_get (favorites db) k" for db0
    using prev [OF that(1,2)] that(3) favorite_by_key_ok [OF that(1) len]
    by (auto simp: preview_favorite_def k_def favorite_of_row_def split: option.split bool.split)
  note mf = merge_favorite_def one(1) look favorite_of_row_def
  have keep: "tbl_get (favorites db) k = Some r \<Longrightarrow> tbl_get (favorites db1) = (tbl_get (favorites db))(k \<mapsto> r)" for r
    by (simp add: same fun_upd_idem)
  show thesis
  proof (cases "fv_deleted_at f = None \<and> (\<forall>r. tbl_get (favorites db) k = Some r \<longrightarrow> rf_deleted_at r \<noteq> None)")
    case True
    have new: "eid \<notin> ob_event_id ` set (sync_outbox db1)" using assms(3) same by simp
    obtain g rows where w: "favorite_from_history_tx db1 (fv_key f) now eid = Inr (g, db1\<lparr>favorites :=
         tbl_put k (active_row (fv_key f) h now (case tbl_get (favorites db) k of None \<Rightarrow> 0 | Some r \<Rightarrow> rf_entity_revision r))
           (favorites db), sync_outbox := rows\<rparr>)"
      and ids: "ob_event_id ` set rows \<subseteq> insert eid (ob_event_id ` set (sync_outbox db))"
      using favorite_from_history_total [OF one(2) len h1 [unfolded k_def] _ new, of now] True
      unfolding same k_def [symmetric] by metis
    note winv = favorite_from_history_inv [OF one(2) len w]
    show thesis
      by (rule that [OF _ winv preview])
        (use True w ids grown in \<open>auto simp: mf merged_favorite_def hist same stats_grown_def split: option.splits\<close>)
  next
    case False
    show thesis
    proof (cases "tbl_get (favorites db) k")
      case None
      then have "profile_inv (db1\<lparr>favorites := tbl_put k (tombstone_row f) (favorites db1)\<rparr>)"
        unfolding k_def by (intro archive_tombstone_inv one assms) (use h1 same in \<open>simp_all add: k_def\<close>)
      then show thesis
        by (rule that [OF _ _ preview, rotated])
          (use False None grown in \<open>auto simp: mf merged_favorite_def hist same stats_grown_def archive_tombstone_def
             tombstone_row_def tbl_has_get Let_def k_def\<close>)
    next
      case (Some r)
      show thesis
        by (rule that [OF _ one(2) preview])
          (use False Some grown keep [OF Some] in \<open>auto simp: mf merged_favorite_def hist same\<close>)
    qed
  qed
qed

section \<open>Merging a document\<close>

text \<open>The record of a document with a given key.\<close>

abbreviation history_with :: "history_entry list \<Rightarrow> string \<Rightarrow> history_entry option" where
  "history_with es k \<equiv> find (\<lambda>e. to_hex (he_key e) = k) es"

abbreviation favorite_with :: "favorite list \<Rightarrow> string \<Rightarrow> favorite option" where
  "favorite_with fs k \<equiv> find (\<lambda>f. to_hex (fv_key f) = k) fs"

text \<open>The abstract effect of each loop, key by key.\<close>

definition histories_merged :: "profile_db \<Rightarrow> history_entry list \<Rightarrow> profile_db \<Rightarrow> bool" where
  "histories_merged db es db' \<longleftrightarrow>
     (\<forall>k. tbl_get (history_entries db') k = (case history_with es k of
        None \<Rightarrow> tbl_get (history_entries db) k
      | Some e \<Rightarrow> Some (newer_history (tbl_get (history_entries db) k) e)))
     \<and> favorites db' = favorites db \<and> sync_outbox db' = sync_outbox db \<and> profile_meta db' = profile_meta db
     \<and> stats_grown db db'"

definition favorites_merged :: "i64 \<Rightarrow> profile_db \<Rightarrow> favorite list \<Rightarrow> profile_db \<Rightarrow> bool" where
  "favorites_merged now db fs db' \<longleftrightarrow>
     (\<forall>k. tbl_get (history_entries db') k = (case favorite_with fs k of
        None \<Rightarrow> tbl_get (history_entries db) k
      | Some f \<Rightarrow> Some (history_for (tbl_get (history_entries db) k) f)))
     \<and> (\<forall>k. tbl_get (favorites db') k = (case favorite_with fs k of
        None \<Rightarrow> tbl_get (favorites db) k
      | Some f \<Rightarrow> Some (merged_favorite now (history_for (tbl_get (history_entries db) k) f)
          (tbl_get (favorites db) k) f)))
     \<and> profile_meta db' = profile_meta db \<and> stats_grown db db'"

text \<open>The identifiers drawn for the new intents are new and differ.\<close>

definition fresh_ids :: "(nat \<Rightarrow> uuid) \<Rightarrow> nat \<Rightarrow> profile_db \<Rightarrow> bool" where
  "fresh_ids ids n db \<longleftrightarrow> inj ids \<and> (\<forall>i \<ge> n. ids i \<notin> ob_event_id ` set (sync_outbox db))"

lemma history_with_absent: "he_key e \<notin> set (map he_key es) \<Longrightarrow> history_with es (to_hex (he_key e)) = None"
  by (auto simp: find_None_iff image_iff)

lemma favorite_with_absent: "fv_key f \<notin> set (map fv_key fs) \<Longrightarrow> favorite_with fs (to_hex (fv_key f)) = None"
  by (auto simp: find_None_iff image_iff)

lemma merge_histories:
  assumes "profile_inv db" and "list_all history_entry_typed es" and "distinct (map he_key es)"
  shows "\<exists>db' p'. foldM merge_history es (db, p) = Inr (db', p') \<and> profile_inv db' \<and> histories_merged db es db'
     \<and> (\<forall>db0. tables_inv db0 \<longrightarrow> (\<forall>e \<in> set es. tbl_get (history_entries db0) (to_hex (he_key e))
            = tbl_get (history_entries db) (to_hex (he_key e))) \<longrightarrow> foldM (preview_history db0) es p = Inr p')"
  using assms
proof (induction es arbitrary: db p)
  case Nil
  then show ?case by (simp add: histories_merged_def)
next
  case (Cons e es)
  let ?k = "to_hex (he_key e)"
  have e: "history_entry_typed e" "he_key e \<notin> set (map he_key es)" using Cons.prems by simp_all
  obtain db1 p1 where step: "merge_history e (db, p) = Inr (db1, p1)" "profile_inv db1"
    and prev: "\<And>db0. tables_inv db0 \<Longrightarrow> tbl_get (history_entries db0) ?k = tbl_get (history_entries db) ?k
       \<Longrightarrow> preview_history db0 e p = Inr p1"
    and hist: "tbl_get (history_entries db1) = (tbl_get (history_entries db))(?k \<mapsto>
        newer_history (tbl_get (history_entries db) ?k) e)"
    and same: "favorites db1 = favorites db" "sync_outbox db1 = sync_outbox db" "profile_meta db1 = profile_meta db"
    and grown: "stats_grown db db1"
    by (rule merge_history_step [where p = p, OF Cons.prems(1) e(1)]) auto
  from Cons.IH [OF step(2), of p1] Cons.prems obtain db' p' where
    rest: "foldM merge_history es (db1, p1) = Inr (db', p')" "profile_inv db'" "histories_merged db1 es db'"
    and prevs: "\<And>db0. tables_inv db0 \<Longrightarrow> (\<And>x. x \<in> set es \<Longrightarrow> tbl_get (history_entries db0) (to_hex (he_key x))
            = tbl_get (history_entries db1) (to_hex (he_key x))) \<Longrightarrow> foldM (preview_history db0) es p1 = Inr p'"
    by auto
  have "histories_merged db (e # es) db'"
    using rest(3) hist same grown history_with_absent [OF e(2)] stats_grown_trans [OF grown]
    by (auto simp: histories_merged_def split: option.splits)
  moreover have "foldM (preview_history db0) (e # es) p = Inr p'"
    if "tables_inv db0" "\<forall>x \<in> set (e # es). tbl_get (history_entries db0) (to_hex (he_key x))
            = tbl_get (history_entries db) (to_hex (he_key x))" for db0
  proof -
    have "foldM (preview_history db0) es p1 = Inr p'"
      by (rule prevs [OF that(1)]) (use that(2) e(2) hist in \<open>auto simp: image_iff\<close>)
    then show ?thesis using prev [OF that(1)] that(2) by simp
  qed
  ultimately show ?case using step(1) rest(1,2) by auto
qed

lemma merge_favorites:
  assumes "profile_inv db" and "list_all favorite_typed fs" and "distinct (map fv_key fs)"
    and "\<And>f. f \<in> set fs \<Longrightarrow> fv_key f \<in> set keys \<Longrightarrow> tbl_get (history_entries db) (to_hex (fv_key f)) \<noteq> None"
    and "fresh_ids ids n db"
  shows "\<exists>db' p'. foldM (\<lambda>(i, f). merge_favorite keys now f (ids i)) (enumerate n fs) (db, p) = Inr (db', p')
     \<and> profile_inv db' \<and> favorites_merged now db fs db'
     \<and> (\<forall>db0. tables_inv db0 \<longrightarrow> (\<forall>f \<in> set fs. (fv_key f \<notin> set keys \<longrightarrow> tbl_get (history_entries db0) (to_hex (fv_key f))
            = tbl_get (history_entries db) (to_hex (fv_key f)))
            \<and> tbl_get (favorites db0) (to_hex (fv_key f)) = tbl_get (favorites db) (to_hex (fv_key f)))
          \<longrightarrow> foldM (preview_favorite db0 keys) fs p = Inr p')"
  using assms
proof (induction fs arbitrary: db p n)
  case Nil
  then show ?case by (simp add: favorites_merged_def)
next
  case (Cons f fs)
  let ?k = "to_hex (fv_key f)"
  let ?h = "history_for (tbl_get (history_entries db) ?k) f"
  have f: "favorite_typed f" "fv_key f \<notin> set (map fv_key fs)" using Cons.prems(2,3) by simp_all
  have eid: "ids n \<notin> ob_event_id ` set (sync_outbox db)" using Cons.prems(5) by (simp add: fresh_ids_def)
  have old: "fv_key f \<in> set keys \<Longrightarrow> tbl_get (history_entries db) ?k \<noteq> None" using Cons.prems(4) by simp
  obtain db1 p1 where step: "merge_favorite keys now f (ids n) (db, p) = Inr (db1, p1)" "profile_inv db1"
    and prev: "\<And>db0. tables_inv db0 \<Longrightarrow> (fv_key f \<notin> set keys \<Longrightarrow> tbl_get (history_entries db0) ?k = tbl_get (history_entries db) ?k)
       \<Longrightarrow> tbl_get (favorites db0) ?k = tbl_get (favorites db) ?k \<Longrightarrow> preview_favorite db0 keys f p = Inr p1"
    and hist: "tbl_get (history_entries db1) = (tbl_get (history_entries db))(?k \<mapsto> ?h)"
    and favs: "tbl_get (favorites db1) = (tbl_get (favorites db))(?k \<mapsto> merged_favorite now ?h (tbl_get (favorites db) ?k) f)"
    and out: "ob_event_id ` set (sync_outbox db1) \<subseteq> insert (ids n) (ob_event_id ` set (sync_outbox db))"
    and same: "profile_meta db1 = profile_meta db" and grown: "stats_grown db db1"
    by (rule merge_favorite_step [where p = p and now = now, OF Cons.prems(1) f(1) eid old]) auto
  have "fresh_ids ids (Suc n) db1" unfolding fresh_ids_def
  proof (intro conjI allI impI)
    show "inj ids" using Cons.prems(5) by (simp add: fresh_ids_def)
    fix i assume "Suc n \<le> i"
    moreover from this have "ids i \<noteq> ids n" using \<open>inj ids\<close> by (auto dest: injD)
    moreover have "ids i \<notin> ob_event_id ` set (sync_outbox db)"
      using Cons.prems(5) \<open>Suc n \<le> i\<close> by (simp add: fresh_ids_def)
    ultimately show "ids i \<notin> ob_event_id ` set (sync_outbox db1)" using out by blast
  qed
  moreover have "tbl_get (history_entries db1) (to_hex (fv_key x)) \<noteq> None"
    if "x \<in> set fs" "fv_key x \<in> set keys" for x using that Cons.prems(4) [of x] hist by auto
  moreover have "list_all favorite_typed fs" "distinct (map fv_key fs)" using Cons.prems(2,3) by simp_all
  ultimately obtain db' p' where
    rest: "foldM (\<lambda>(i, f). merge_favorite keys now f (ids i)) (enumerate (Suc n) fs) (db1, p1) = Inr (db', p')"
      "profile_inv db'" "favorites_merged now db1 fs db'"
    and prevs: "\<And>db0. tables_inv db0 \<Longrightarrow> (\<And>x. x \<in> set fs \<Longrightarrow> (fv_key x \<notin> set keys \<longrightarrow> tbl_get (history_entries db0) (to_hex (fv_key x))
            = tbl_get (history_entries db1) (to_hex (fv_key x)))
            \<and> tbl_get (favorites db0) (to_hex (fv_key x)) = tbl_get (favorites db1) (to_hex (fv_key x)))
            \<Longrightarrow> foldM (preview_favorite db0 keys) fs p1 = Inr p'"
    using Cons.IH [OF step(2), of "Suc n" p1] by auto
  have "favorites_merged now db (f # fs) db'"
    using rest(3) hist favs same favorite_with_absent [OF f(2)] stats_grown_trans [OF grown]
    by (auto simp: favorites_merged_def split: option.split)
  moreover have "foldM (preview_favorite db0 keys) (f # fs) p = Inr p'"
    if "tables_inv db0" and all: "\<forall>x \<in> set (f # fs). (fv_key x \<notin> set keys \<longrightarrow> tbl_get (history_entries db0) (to_hex (fv_key x))
            = tbl_get (history_entries db) (to_hex (fv_key x)))
            \<and> tbl_get (favorites db0) (to_hex (fv_key x)) = tbl_get (favorites db) (to_hex (fv_key x))" for db0
  proof -
    have "foldM (preview_favorite db0 keys) fs p1 = Inr p'"
      by (rule prevs [OF that(1)]) (use all f(2) hist favs in \<open>auto simp: image_iff\<close>)
    moreover have "preview_favorite db0 keys f p = Inr p1" by (rule prev [OF that(1)]) (use all in auto)
    ultimately show ?thesis by simp
  qed
  ultimately show ?case using step(1) rest(1,2) by auto
qed

text \<open>The whole import: first the history of the document, then its favorites.\<close>

definition merged_history :: "validated_export \<Rightarrow> profile_db \<Rightarrow> string \<Rightarrow> history_row option" where
  "merged_history ex db k = (case history_with (ve_history ex) k of
     None \<Rightarrow> tbl_get (history_entries db) k
   | Some e \<Rightarrow> Some (newer_history (tbl_get (history_entries db) k) e))"

definition import_merged :: "i64 \<Rightarrow> validated_export \<Rightarrow> profile_db \<Rightarrow> profile_db \<Rightarrow> bool" where
  "import_merged now ex db db' \<longleftrightarrow>
     (\<forall>k. tbl_get (history_entries db') k = (case favorite_with (ve_favorites ex) k of
        None \<Rightarrow> merged_history ex db k
      | Some f \<Rightarrow> Some (history_for (merged_history ex db k) f)))
     \<and> (\<forall>k. tbl_get (favorites db') k = (case favorite_with (ve_favorites ex) k of
        None \<Rightarrow> tbl_get (favorites db) k
      | Some f \<Rightarrow> Some (merged_favorite now (history_for (merged_history ex db k) f)
          (tbl_get (favorites db) k) f)))
     \<and> profile_meta db' = profile_meta db \<and> stats_grown db db'"

lemma apply_merge_total:
  assumes "profile_inv db" and "import_ok ex" and "fresh_ids ids 0 db"
  shows "\<exists>db' p. apply_merge db ex now ids = Inr (db', p) \<and> preview_merge db ex = Inr p
     \<and> profile_inv db' \<and> import_merged now ex db db'"
proof -
  have ok: "list_all history_entry_typed (ve_history ex)" "distinct (map he_key (ve_history ex))"
    "list_all favorite_typed (ve_favorites ex)" "distinct (map fv_key (ve_favorites ex))"
    "ve_history_keys ex = map he_key (ve_history ex)" using assms(2) by (simp_all add: import_ok_def)
  have t: "tables_inv db" using assms(1) by (rule profile_invE)
  from merge_histories [OF assms(1) ok(1,2), of "empty_preview ex"] obtain db1 p1 where
    one: "foldM merge_history (ve_history ex) (db, empty_preview ex) = Inr (db1, p1)" "profile_inv db1"
      "histories_merged db (ve_history ex) db1"
    and prev1: "foldM (preview_history db) (ve_history ex) (empty_preview ex) = Inr p1" using t by blast
  have hist: "tbl_get (history_entries db1) k = merged_history ex db k" for k
    using one(3) by (simp add: histories_merged_def merged_history_def)
  have same: "favorites db1 = favorites db" "sync_outbox db1 = sync_outbox db" "profile_meta db1 = profile_meta db"
    "stats_grown db db1" using one(3) by (simp_all add: histories_merged_def)
  have present: "tbl_get (history_entries db1) (to_hex (fv_key f)) \<noteq> None" if "fv_key f \<in> set (ve_history_keys ex)" for f
  proof -
    have "history_with (ve_history ex) (to_hex (fv_key f)) \<noteq> None"
      using that by (auto simp: ok(5) find_None_iff)
    then show ?thesis by (auto simp: hist merged_history_def)
  qed
  have absent: "tbl_get (history_entries db1) (to_hex (fv_key f)) = tbl_get (history_entries db) (to_hex (fv_key f))"
    if "fv_key f \<notin> set (ve_history_keys ex)" for f
  proof -
    have "history_with (ve_history ex) (to_hex (fv_key f)) = None"
      using that by (auto simp: ok(5) find_None_iff image_iff)
    then show ?thesis by (simp add: hist merged_history_def)
  qed
  have fresh: "fresh_ids ids 0 db1" using assms(3) same by (simp add: fresh_ids_def)
  from merge_favorites [where now = now and p = p1, OF one(2) ok(3,4) present fresh] obtain db' p where
    two: "foldM (\<lambda>(i, f). merge_favorite (ve_history_keys ex) now f (ids i)) (enumerate 0 (ve_favorites ex)) (db1, p1) = Inr (db', p)"
      "profile_inv db'" "favorites_merged now db1 (ve_favorites ex) db'"
    and prev2: "foldM (preview_favorite db (ve_history_keys ex)) (ve_favorites ex) p1 = Inr p"
    using t absent same(1) by metis
  have "import_merged now ex db db'"
    using two(3) same stats_grown_trans [OF same(4)] by (auto simp: import_merged_def favorites_merged_def hist split: option.split)
  then show ?thesis using one(1) two(1,2) prev1 prev2 by (simp add: apply_merge_def preview_merge_def)
qed

section \<open>Properties of the import\<close>

lemma preview_portable_import_cases:
  assumes "preview_portable_import js u sha up bytes db = Inr plan"
  obtains doc m where "pj_read js bytes = Some doc" "validate_export u sha doc = Inr (pl_export plan)"
    "preview_merge db (pl_export plan) = Inr (pl_preview plan)" "read_profile_metadata up db = Inr m"
    "pl_target_profile_id plan = pm_profile_id m" "length bytes \<le> max_portable_json_bytes"
  using assms by (auto simp: preview_portable_import_def res_simps split: if_splits)

text \<open>
  C24: what the preview of an import announces is what the import does. On a consistent Profile an
  import whose preview succeeded always succeeds, with exactly the counts of the preview, keeps the
  Profile consistent, and merges the document key by key: of two history entries the newer one wins, an
  active favorite is added or reactivated from the merged history, a deleted favorite never removes a
  local one, and the counters of the device are not touched.
\<close>

theorem portable_import_as_previewed:
  assumes "profile_inv db" and "preview_portable_import js u sha up bytes db = Inr plan" and "fresh_ids ids 0 db"
  shows "\<exists>db'. apply_portable_import up plan now ids db = (Inr (pl_preview plan), db')
     \<and> profile_inv db' \<and> import_merged now (pl_export plan) db db'"
  using assms(2)
proof (rule preview_portable_import_cases)
  fix doc m
  assume val: "validate_export u sha doc = Inr (pl_export plan)"
    and prev: "preview_merge db (pl_export plan) = Inr (pl_preview plan)"
    and m: "read_profile_metadata up db = Inr m" "pl_target_profile_id plan = pm_profile_id m"
  from val have "import_ok (pl_export plan)" by (rule validate_export_cases)
  from apply_merge_total [OF assms(1) this assms(3), of now] prev m show ?thesis
    by (auto simp: apply_portable_import_def)
qed

text \<open>A record that was merged once is skipped from then on.\<close>

lemma merge_history_skip:
  assumes "tables_inv db" and "history_entry_typed e"
    and "tbl_get (history_entries db) (to_hex (he_key e)) = Some r" and "he_last_queried_at e \<le> hr_last_queried_at r"
  shows "merge_history e (db, p) = Inr (db, p\<lparr>ip_history_skip := ip_history_skip p + 1\<rparr>)"
proof -
  have "length (he_key e) = 32" using assms(2) by (simp add: history_entry_typed_def)
  from history_by_key_ok [OF assms(1) this] assms(3,4) show ?thesis
    by (simp add: merge_history_def history_of_row_def)
qed

lemma merge_favorite_skip:
  assumes "tables_inv db" and "favorite_typed f" and "tbl_get (history_entries db) (to_hex (fv_key f)) \<noteq> None"
    and "tbl_get (favorites db) (to_hex (fv_key f)) = Some r" and "fv_deleted_at f = None \<Longrightarrow> rf_deleted_at r = None"
  shows "merge_favorite keys now f eid (db, p) = Inr (db, p\<lparr>ip_favorite_skip := ip_favorite_skip p + 1\<rparr>)"
proof -
  have len: "length (fv_key f) = 32" using assms(2) by (simp add: favorite_typed_def)
  have "favorite_history keys f (db, p) = Inr (db, p)"
    using history_by_key_ok [OF assms(1) len] assms(3) by (auto simp: favorite_history_def)
  then show ?thesis
    using favorite_by_key_ok [OF assms(1) len] assms(4,5) by (auto simp: merge_favorite_def favorite_of_row_def)
qed

lemma merge_histories_skip:
  assumes "tables_inv db" and "list_all history_entry_typed es"
    and "list_all (\<lambda>e. \<exists>r. tbl_get (history_entries db) (to_hex (he_key e)) = Some r
           \<and> he_last_queried_at e \<le> hr_last_queried_at r) es"
  shows "foldM merge_history es (db, p) = Inr (db, p\<lparr>ip_history_skip := ip_history_skip p + length es\<rparr>)"
  using assms(2,3)
proof (induction es arbitrary: p)
  case (Cons e es)
  then obtain r where r: "tbl_get (history_entries db) (to_hex (he_key e)) = Some r"
    "he_last_queried_at e \<le> hr_last_queried_at r" "history_entry_typed e" by auto
  show ?case using Cons merge_history_skip [OF assms(1) r(3,1,2)] by simp
qed simp

lemma merge_favorites_skip:
  assumes "tables_inv db" and "list_all favorite_typed fs"
    and "list_all (\<lambda>f. tbl_get (history_entries db) (to_hex (fv_key f)) \<noteq> None
           \<and> (\<exists>r. tbl_get (favorites db) (to_hex (fv_key f)) = Some r \<and> (fv_deleted_at f = None \<longrightarrow> rf_deleted_at r = None))) fs"
  shows "foldM (\<lambda>(i, f). merge_favorite keys now f (ids i)) (enumerate n fs) (db, p)
     = Inr (db, p\<lparr>ip_favorite_skip := ip_favorite_skip p + length fs\<rparr>)"
  using assms(2,3)
proof (induction fs arbitrary: p n)
  case (Cons f fs)
  then obtain r where r: "tbl_get (favorites db) (to_hex (fv_key f)) = Some r"
    "fv_deleted_at f = None \<Longrightarrow> rf_deleted_at r = None" "favorite_typed f"
    "tbl_get (history_entries db) (to_hex (fv_key f)) \<noteq> None" by auto
  show ?case using Cons merge_favorite_skip [OF assms(1) r(3,4,1,2)] by simp
qed simp

lemma history_with_member:
  assumes "distinct (map he_key es)" and "e \<in> set es"
  shows "history_with es (to_hex (he_key e)) = Some e"
proof (rule find_unique)
  fix y assume "y \<in> set es" "to_hex (he_key y) = to_hex (he_key e)"
  with assms show "y = e" by (auto simp: distinct_map dest: inj_onD)
qed (use assms in auto)

lemma favorite_with_member:
  assumes "distinct (map fv_key fs)" and "f \<in> set fs"
  shows "favorite_with fs (to_hex (fv_key f)) = Some f"
proof (rule find_unique)
  fix y assume "y \<in> set fs" "to_hex (fv_key y) = to_hex (fv_key f)"
  with assms show "y = f" by (auto simp: distinct_map dest: inj_onD)
qed (use assms in auto)

lemma newer_history_time: "he_last_queried_at e \<le> hr_last_queried_at (newer_history local e)"
  by (auto simp: newer_history_def history_row_of_def Let_def split: option.split)

lemma merged_favorite_active: "fv_deleted_at f = None \<Longrightarrow> rf_deleted_at (merged_favorite now h local f) = None"
  by (auto simp: merged_favorite_def active_row_def Let_def split: option.split)

lemma import_merged_covers:
  assumes "import_ok ex" and "import_merged now ex db db'"
  shows "list_all (\<lambda>e. \<exists>r. tbl_get (history_entries db') (to_hex (he_key e)) = Some r
           \<and> he_last_queried_at e \<le> hr_last_queried_at r) (ve_history ex)"
    and "list_all (\<lambda>f. tbl_get (history_entries db') (to_hex (fv_key f)) \<noteq> None
           \<and> (\<exists>r. tbl_get (favorites db') (to_hex (fv_key f)) = Some r \<and> (fv_deleted_at f = None \<longrightarrow> rf_deleted_at r = None)))
           (ve_favorites ex)"
proof -
  have d: "distinct (map he_key (ve_history ex))" "distinct (map fv_key (ve_favorites ex))"
    using assms(1) by (simp_all add: import_ok_def)
  have hist: "tbl_get (history_entries db') k = (case favorite_with (ve_favorites ex) k of
        None \<Rightarrow> merged_history ex db k | Some f \<Rightarrow> Some (history_for (merged_history ex db k) f))"
    and favs: "tbl_get (favorites db') k = (case favorite_with (ve_favorites ex) k of
        None \<Rightarrow> tbl_get (favorites db) k
      | Some f \<Rightarrow> Some (merged_favorite now (history_for (merged_history ex db k) f) (tbl_get (favorites db) k) f))" for k
    using assms(2) by (auto simp: import_merged_def)
  have "tbl_get (history_entries db') (to_hex (he_key e)) = Some (newer_history (tbl_get (history_entries db) (to_hex (he_key e))) e)"
    if "e \<in> set (ve_history ex)" for e
    using history_with_member [OF d(1) that] by (simp add: hist merged_history_def history_for_def split: option.split)
  then show "list_all (\<lambda>e. \<exists>r. tbl_get (history_entries db') (to_hex (he_key e)) = Some r
           \<and> he_last_queried_at e \<le> hr_last_queried_at r) (ve_history ex)"
    using newer_history_time by (auto simp: list_all_iff)
  show "list_all (\<lambda>f. tbl_get (history_entries db') (to_hex (fv_key f)) \<noteq> None
           \<and> (\<exists>r. tbl_get (favorites db') (to_hex (fv_key f)) = Some r \<and> (fv_deleted_at f = None \<longrightarrow> rf_deleted_at r = None)))
           (ve_favorites ex)"
    using favorite_with_member [OF d(2)] merged_favorite_active by (auto simp: list_all_iff hist favs)
qed

text \<open>
  An import is idempotent. Applying the same plan a second time, at whatever time, changes nothing
  at all: every history entry and every favorite of the document is skipped.
\<close>

theorem portable_import_idempotent:
  assumes "profile_inv db" and "preview_portable_import js u sha up bytes db = Inr plan" and "fresh_ids ids 0 db"
    and "apply_portable_import up plan now ids db = (Inr p, db')"
  shows "apply_portable_import up plan now' ids' db' = (Inr ((empty_preview (pl_export plan))\<lparr>
     ip_history_skip := length (ve_history (pl_export plan)),
     ip_favorite_skip := length (ve_favorites (pl_export plan))\<rparr>), db')"
  using assms(2)
proof (rule preview_portable_import_cases)
  let ?ex = "pl_export plan"
  fix doc m
  assume "validate_export u sha doc = Inr ?ex" and m: "read_profile_metadata up db = Inr m" "pl_target_profile_id plan = pm_profile_id m"
  then have ok: "import_ok ?ex" by (auto elim: validate_export_cases)
  from apply_merge_total [OF assms(1) ok assms(3), of now] assms(4) m
  have inv: "profile_inv db'" and merged: "import_merged now ?ex db db'" by (auto simp: apply_portable_import_def)
  have t: "tables_inv db'" using inv by (rule profile_invE)
  have typed: "list_all history_entry_typed (ve_history ?ex)" "list_all favorite_typed (ve_favorites ?ex)"
    using ok by (simp_all add: import_ok_def)
  note covers = import_merged_covers [OF ok merged]
  have "apply_merge db' ?ex now' ids' = Inr (db', (empty_preview ?ex)\<lparr>
     ip_history_skip := length (ve_history ?ex), ip_favorite_skip := length (ve_favorites ?ex)\<rparr>)"
    using merge_histories_skip [OF t typed(1) covers(1), of "empty_preview ?ex"] merge_favorites_skip [OF t typed(2) covers(2)]
    by (simp add: apply_merge_def empty_preview_def)
  moreover have "profile_meta db' = profile_meta db" using merged by (simp add: import_merged_def)
  then have "read_profile_metadata up db' = Inr m" using m(1) by (simp add: read_profile_metadata_def)
  ultimately show ?thesis using m(2) by (simp add: apply_portable_import_def)
qed

section \<open>Export followed by import\<close>

definition key_of :: "string \<Rightarrow> content_key" where
  "key_of k = projr (content_key_from_str k)"

lemma key_of_text: "key_text k \<Longrightarrow> to_hex (key_of k) = k \<and> length (key_of k) = 32"
  by (auto simp: key_text_def key_of_def content_key_from_str_Inr [THEN iffD2])

lemma key_of_hex [simp]: "length key = 32 \<Longrightarrow> key_of (to_hex key) = key"
  by (simp add: key_of_def content_key_from_str_Inr [THEN iffD2])

lemma lang_of_stable: "lang_text l \<Longrightarrow> parse_language_code (lang_of l) = Inr (lang_of l)"
  using parse_language_code_stable by (auto simp: lang_text_def lang_of_def isl_def)

lemma lang_of_parsed: "parse_language_code l = Inr l \<Longrightarrow> lang_of l = l"
  by (simp add: lang_of_def)

lemma validate_content_portable:
  assumes "validate_content u sha (portable_content_of c) = Inr c'"
    and "parse_language_code (stc_source_lang c) = Inr (stc_source_lang c)"
  shows "c' = c"
proof -
  have "stc_kind c = Word \<or> stc_kind c = Text" by (cases "stc_kind c") simp_all
  then show ?thesis using assms
    by (auto simp: validate_content_def portable_content_of_def res_simps content_key_from_str_Inr split: if_splits)
qed

lemma validate_translation_portable:
  assumes "validate_translation (portable_translation_of t) = Inr t'"
    and "parse_language_code (ts_target_lang t) = Inr (ts_target_lang t)"
  shows "t' = t"
  using assms by (auto simp: validate_translation_def portable_translation_of_def res_simps split: if_splits)

lemma validate_history_portable:
  assumes "validate_history u sha (portable_history_of (history_of_row key row)) = Inr e" and "history_row_ok row"
  shows "e = history_of_row key row"
proof -
  have l: "parse_language_code (lang_of (hr_source_lang row)) = Inr (lang_of (hr_source_lang row))"
    "parse_language_code (lang_of (hr_target_lang row)) = Inr (lang_of (hr_target_lang row))"
    using assms(2) lang_of_stable by (auto simp: history_row_ok_def)
  let ?e = "history_of_row key row"
  from assms(1) obtain t c where tc: "validate_translation (portable_translation_of (he_translation ?e)) = Inr t"
    "validate_content u sha (portable_content_of (he_content ?e)) = Inr c"
    "e = \<lparr>he_content = c, he_translation = t, he_last_queried_at = he_last_queried_at ?e\<rparr>"
    by (auto simp: validate_history_def portable_history_of_def res_simps split: if_splits)
  have "t = he_translation ?e" using tc(1) by (rule validate_translation_portable) (simp add: history_of_row_def l)
  moreover have "c = he_content ?e" using tc(2) by (rule validate_content_portable) (simp add: history_of_row_def l)
  ultimately show ?thesis using tc(3) by simp
qed

lemma validate_favorite_portable:
  assumes "validate_favorite u sha (portable_favorite_of (favorite_of_row key row)) = Inr f" and "favorite_row_ok row"
  shows "f = favorite_of_row key (row\<lparr>rf_entity_revision := 0\<rparr>)"
proof -
  have l: "parse_language_code (lang_of (rf_source_lang row)) = Inr (lang_of (rf_source_lang row))"
    "parse_language_code (lang_of (rf_target_lang row)) = Inr (lang_of (rf_target_lang row))"
    using assms(2) lang_of_stable by (auto simp: favorite_row_ok_def)
  let ?f = "favorite_of_row key row"
  from assms(1) obtain t c where tc: "validate_translation (portable_translation_of (fv_translation ?f)) = Inr t"
    "validate_content u sha (portable_content_of (fv_content ?f)) = Inr c"
    "f = \<lparr>fv_content = c, fv_translation = t, fv_created_at = fv_created_at ?f, fv_updated_at = fv_updated_at ?f,
       fv_deleted_at = fv_deleted_at ?f, fv_entity_revision = 0\<rparr>"
    by (auto simp: validate_favorite_def portable_favorite_of_def res_simps split: if_splits)
  have "t = fv_translation ?f" using tc(1) by (rule validate_translation_portable) (simp add: favorite_of_row_def l)
  moreover have "c = fv_content ?f" using tc(2) by (rule validate_content_portable) (simp add: favorite_of_row_def l)
  ultimately show ?thesis using tc(3) by (simp add: favorite_of_row_def)
qed

text \<open>A key-by-key reading of what an export contains.\<close>

lemma export_history_ok:
  assumes "tables_inv db"
  shows "export_history db = Inr (map (\<lambda>(k, row). portable_history_of (history_of_row (key_of k) row)) (sort_key fst (history_entries db)))"
  unfolding export_history_def
proof (rule mapM_map_Inr, clarify)
  fix k row assume "(k, row) \<in> set (sort_key fst (history_entries db))"
  then have "tbl_get (history_entries db) k = Some row"
    using assms by (simp add: tables_inv_def tbl_get_in_set)
  then have "key_text k" "history_row_ok row" using assms by (auto simp: tables_inv_def)
  from parse_history_ok [OF this(2), of "key_of k"] key_of_text [OF this(1)]
  show "map_err PdStorage (rbind (parse_history k row) (\<lambda>e. Inr (portable_history_of e)))
      = Inr (portable_history_of (history_of_row (key_of k) row))" by simp
qed

lemma export_favorites_ok:
  assumes "tables_inv db"
  shows "export_favorites db = Inr (map (\<lambda>(k, row). portable_favorite_of (favorite_of_row (key_of k) row)) (sort_key fst (favorites db)))"
  unfolding export_favorites_def
proof (rule mapM_map_Inr, clarify)
  fix k row assume "(k, row) \<in> set (sort_key fst (favorites db))"
  then have "tbl_get (favorites db) k = Some row"
    using assms by (simp add: tables_inv_def tbl_get_in_set)
  then have "key_text k" "favorite_row_ok row" using assms by (auto simp: tables_inv_def)
  from parse_favorite_ok [OF this(2), of "key_of k"] key_of_text [OF this(1)]
  show "map_err PdStorage (rbind (parse_favorite k row) (\<lambda>f. Inr (portable_favorite_of f)))
      = Inr (portable_favorite_of (favorite_of_row (key_of k) row))" by simp
qed

lemma mapM_eq_map:
  assumes "mapM f (map g xs) = Inr ys" and "\<And>x y. x \<in> set xs \<Longrightarrow> f (g x) = Inr y \<Longrightarrow> y = h x"
  shows "ys = map h xs"
  using assms by (induction xs arbitrary: ys) (auto simp: res_simps)

lemma exported_records:
  assumes "tables_inv src" and "export_document up v src = Inr doc" and "validate_export u sha doc = Inr ex"
  shows "ve_history ex = map (\<lambda>(k, row). history_of_row (key_of k) row) (sort_key fst (history_entries src))"
    and "ve_favorites ex = map (\<lambda>(k, row). favorite_of_row (key_of k) (row\<lparr>rf_entity_revision := 0\<rparr>)) (sort_key fst (favorites src))"
proof -
  have doc: "pte_history doc = map (\<lambda>(k, row). portable_history_of (history_of_row (key_of k) row)) (sort_key fst (history_entries src))"
    "pte_favorites doc = map (\<lambda>(k, row). portable_favorite_of (favorite_of_row (key_of k) row)) (sort_key fst (favorites src))"
    using assms(2) by (auto simp: export_document_def res_simps export_history_ok [OF assms(1)] export_favorites_ok [OF assms(1)] split: if_splits)
  from assms(3) have m: "mapM (validate_history u sha) (pte_history doc) = Inr (ve_history ex)"
    "mapM (validate_favorite u sha) (pte_favorites doc) = Inr (ve_favorites ex)" by (auto elim: validate_export_cases)
  have row: "history_row_ok r" if "(k, r) \<in> set (history_entries src)" for k r
    using that assms(1) by (auto simp: tables_inv_def tbl_get_in_set)
  have frow: "favorite_row_ok r" if "(k, r) \<in> set (favorites src)" for k r
    using that assms(1) by (auto simp: tables_inv_def tbl_get_in_set)
  show "ve_history ex = map (\<lambda>(k, row). history_of_row (key_of k) row) (sort_key fst (history_entries src))"
    using m(1) unfolding doc by (rule mapM_eq_map) (auto dest: row validate_history_portable)
  show "ve_favorites ex = map (\<lambda>(k, row). favorite_of_row (key_of k) (row\<lparr>rf_entity_revision := 0\<rparr>)) (sort_key fst (favorites src))"
    using m(2) unfolding doc by (rule mapM_eq_map) (auto dest: frow validate_favorite_portable)
qed

lemma taken_contents_agree:
  assumes "validate_export u sha doc = Inr ex" and "f \<in> set (ve_favorites ex)"
    and "history_with (ve_history ex) (to_hex (fv_key f)) = Some e"
  shows "he_content e = fv_content f"
proof -
  from assms(1) have f: "foldM (take_favorite u sha (ve_history ex)) (pte_favorites doc) [] = Inr (ve_favorites ex)"
    by (auto simp: validate_export_def res_simps split: if_splits)
  define agrees where "agrees f \<longleftrightarrow> (\<forall>e. history_with (ve_history ex) (to_hex (fv_key f)) = Some e \<longrightarrow> he_content e = fv_content f)" for f
  have step: "take_favorite u sha (ve_history ex) v fs = Inr fs' \<Longrightarrow> \<exists>f. fs' = fs @ [f] \<and> agrees f" for v fs fs'
    by (auto simp: take_favorite_def res_simps agrees_def split: if_splits option.splits)
  have more: "list_all agrees fs \<Longrightarrow> take_favorite u sha (ve_history ex) v fs = Inr fs' \<Longrightarrow> list_all agrees fs'" for v fs fs'
    using step [of v fs fs'] by auto
  have "list_all agrees (ve_favorites ex)"
    by (rule foldM_invariant [where I = "list_all agrees", OF f]) (simp, rule more)
  then have "agrees f" using assms(2) by (simp add: list_all_iff)
  then show ?thesis using assms(3) unfolding agrees_def by blast
qed

lemma he_key_of_row [simp]: "he_key (history_of_row key row) = key"
  by (simp add: history_of_row_def)

lemma fv_key_of_row [simp]: "fv_key (favorite_of_row key row) = key"
  by (simp add: favorite_of_row_def)

lemma exported_history_with:
  assumes "tables_inv src" and "export_document up v src = Inr doc" and "validate_export u sha doc = Inr ex" and "length key = 32"
  shows "history_with (ve_history ex) (to_hex key) = map_option (history_of_row key) (tbl_get (history_entries src) (to_hex key))"
proof (cases "tbl_get (history_entries src) (to_hex key)")
  case None
  then have "k \<noteq> to_hex key" if "(k, row) \<in> set (history_entries src)" for k row
    using that assms(1) by (auto simp: tables_inv_def tbl_get_in_set)
  moreover have "to_hex (key_of k) = k" if "(k, row) \<in> set (history_entries src)" for k row
    using that assms(1) key_of_text by (auto simp: tables_inv_def tbl_get_in_set)
  ultimately have "history_with (ve_history ex) (to_hex key) = None"
    unfolding find_None_iff exported_records(1) [OF assms(1-3)] by fastforce
  with None show ?thesis by simp
next
  case (Some row)
  then have "(to_hex key, row) \<in> set (history_entries src)" using assms(1) by (auto simp: tables_inv_def tbl_get_in_set)
  then have "history_of_row key row \<in> set (ve_history ex)"
    unfolding exported_records(1) [OF assms(1-3)] using assms(4) by force
  moreover from assms(3) have "import_ok ex" by (rule validate_export_cases)
  then have "distinct (map he_key (ve_history ex))" by (simp add: import_ok_def)
  ultimately show ?thesis using history_with_member [of "ve_history ex" "history_of_row key row"] Some by simp
qed

lemma exported_favorite_with:
  assumes "tables_inv src" and "export_document up v src = Inr doc" and "validate_export u sha doc = Inr ex" and "length key = 32"
  shows "favorite_with (ve_favorites ex) (to_hex key) = map_option (\<lambda>row. favorite_of_row key (row\<lparr>rf_entity_revision := 0\<rparr>))
     (tbl_get (favorites src) (to_hex key))"
proof (cases "tbl_get (favorites src) (to_hex key)")
  case None
  then have "k \<noteq> to_hex key" if "(k, row) \<in> set (favorites src)" for k row
    using that assms(1) by (auto simp: tables_inv_def tbl_get_in_set)
  moreover have "to_hex (key_of k) = k" if "(k, row) \<in> set (favorites src)" for k row
    using that assms(1) key_of_text by (auto simp: tables_inv_def tbl_get_in_set)
  ultimately have "favorite_with (ve_favorites ex) (to_hex key) = None"
    unfolding find_None_iff exported_records(2) [OF assms(1-3)] by fastforce
  with None show ?thesis by simp
next
  case (Some row)
  then have "(to_hex key, row) \<in> set (favorites src)" using assms(1) by (auto simp: tables_inv_def tbl_get_in_set)
  then have "favorite_of_row key (row\<lparr>rf_entity_revision := 0\<rparr>) \<in> set (ve_favorites ex)"
    unfolding exported_records(2) [OF assms(1-3)] using assms(4) by force
  moreover from assms(3) have "import_ok ex" by (rule validate_export_cases)
  then have "distinct (map fv_key (ve_favorites ex))" by (simp add: import_ok_def)
  ultimately show ?thesis
    using favorite_with_member [of "ve_favorites ex" "favorite_of_row key (row\<lparr>rf_entity_revision := 0\<rparr>)"] Some by simp
qed

lemma kind_of_name [simp]: "kind_of (protocol_name k) = k"
  by (cases k) (simp_all add: kind_of_def)

lemma history_of_row_again:
  assumes "history_row_ok row" and "length key = 32"
  shows "history_of_row key (history_row_of (history_of_row key row)) = history_of_row key row"
proof -
  have l: "parse_language_code (lang_of (hr_source_lang row)) = Inr (lang_of (hr_source_lang row))"
    "parse_language_code (lang_of (hr_target_lang row)) = Inr (lang_of (hr_target_lang row))"
    using assms(1) lang_of_stable by (auto simp: history_row_ok_def)
  show ?thesis using l lang_of_parsed by (simp add: history_of_row_def history_row_of_def Let_def)
qed

lemma imported_history:
  assumes "tables_inv src" and "export_document up v src = Inr doc" and "validate_export u sha doc = Inr ex"
    and "tables_inv db'" and "import_merged now ex db db'" and "history_entries db = []" and "length key = 32"
    and "tbl_has (history_entries src) (to_hex key)"
  shows "history_by_key db' key = history_by_key src key"
proof -
  from assms(8) obtain row where row: "tbl_get (history_entries src) (to_hex key) = Some row" by (auto simp: tbl_has_get)
  have ok: "history_row_ok row" using assms(1) row by (auto simp: tables_inv_def)
  have "merged_history ex db (to_hex key) = Some (history_row_of (history_of_row key row))"
    using exported_history_with [OF assms(1-3,7)] row assms(6) by (simp add: merged_history_def newer_history_def)
  then have "tbl_get (history_entries db') (to_hex key) = Some (history_row_of (history_of_row key row))"
    using assms(5) by (simp add: import_merged_def history_for_def split: option.split)
  then show ?thesis
    using history_by_key_ok [OF assms(4,7)] history_by_key_ok [OF assms(1,7)] row history_of_row_again [OF ok assms(7)] by simp
qed

lemma merged_rows_deleted [simp]:
  "rf_deleted_at (active_row key h now n) = None"
  "rf_deleted_at (tombstone_row f) = fv_deleted_at f"
  "fv_deleted_at (favorite_of_row key row) = rf_deleted_at row"
  by (simp_all add: active_row_def tombstone_row_def favorite_of_row_def Let_def)

lemma active_row_favorite:
  assumes "history_row_ok h"
  shows "favorite_of_row key (active_row key h now 0) = \<lparr>fv_content = he_content (history_of_row key h),
     fv_translation = (he_translation (history_of_row key h))\<lparr>ts_updated_at := now\<rparr>,
     fv_created_at = now, fv_updated_at = now, fv_deleted_at = None, fv_entity_revision = 0\<rparr>"
  using assms lang_of_stable [THEN lang_of_parsed]
  by (simp add: favorite_of_row_def active_row_def Let_def history_of_row_def history_row_ok_def)

lemma tombstone_row_favorite:
  assumes "favorite_row_ok row"
  shows "favorite_of_row key (tombstone_row (favorite_of_row key row)) = (favorite_of_row key row)\<lparr>fv_entity_revision := 0\<rparr>"
  using assms lang_of_stable [THEN lang_of_parsed]
  by (simp add: favorite_of_row_def tombstone_row_def Let_def favorite_row_ok_def)

lemma history_from_favorite_row:
  assumes "favorite_row_ok row"
  shows "history_of_row key (history_row_of (history_from_favorite (favorite_of_row key row)))
    = history_from_favorite (favorite_of_row key row)"
  using assms lang_of_stable [THEN lang_of_parsed]
  by (simp add: favorite_of_row_def history_from_favorite_def history_row_of_def history_of_row_def Let_def favorite_row_ok_def)

text \<open>The history entry an imported favorite meets: the one the document has for its content, or one made
  from the favorite itself.\<close>

lemma imported_favorite_history:
  assumes "tables_inv src" and "export_document up v src = Inr doc" and "validate_export u sha doc = Inr ex"
    and "history_entries db = []" and "length key = 32" and "tbl_get (favorites src) (to_hex key) = Some row"
  defines "f \<equiv> favorite_of_row key (row\<lparr>rf_entity_revision := 0\<rparr>)"
  shows "history_of_row key (history_for (merged_history ex db (to_hex key)) f)
    = (case tbl_get (history_entries src) (to_hex key) of None \<Rightarrow> history_from_favorite f | Some r \<Rightarrow> history_of_row key r)"
    and "he_content (history_of_row key (history_for (merged_history ex db (to_hex key)) f)) = fv_content f"
proof -
  have ok0: "favorite_row_ok (row\<lparr>rf_entity_revision := 0\<rparr>)"
    using assms(1,6) by (auto simp: tables_inv_def favorite_row_ok_def i64_max_def)
  note hw = exported_history_with [OF assms(1-3,5)]
  have merged: "merged_history ex db (to_hex key)
      = map_option (\<lambda>r. history_row_of (history_of_row key r)) (tbl_get (history_entries src) (to_hex key))"
    using hw assms(4) by (auto simp: merged_history_def newer_history_def split: option.split)
  have "history_row_ok r" if "tbl_get (history_entries src) (to_hex key) = Some r" for r
    using that assms(1) by (auto simp: tables_inv_def)
  then show one: "history_of_row key (history_for (merged_history ex db (to_hex key)) f)
    = (case tbl_get (history_entries src) (to_hex key) of None \<Rightarrow> history_from_favorite f | Some r \<Rightarrow> history_of_row key r)"
    using history_of_row_again assms(5) history_from_favorite_row [OF ok0]
    by (auto simp: merged history_for_def f_def split: option.split)
  have mem: "f \<in> set (ve_favorites ex)"
  proof -
    have "(to_hex key, row) \<in> set (favorites src)" using assms(1,6) by (auto simp: tables_inv_def tbl_get_in_set)
    then show ?thesis unfolding exported_records(2) [OF assms(1-3)] f_def using assms(5) by force
  qed
  have "he_content (history_of_row key r) = fv_content f" if "tbl_get (history_entries src) (to_hex key) = Some r" for r
    using taken_contents_agree [OF assms(3) mem] hw that by (simp add: f_def)
  then show "he_content (history_of_row key (history_for (merged_history ex db (to_hex key)) f)) = fv_content f"
    unfolding one by (auto simp: history_from_favorite_def split: option.split)
qed

text \<open>What an imported favorite becomes: a deleted one comes back as it was, but unknown to the Server; an active
  one is made new at the time of the import, with the translation of its history entry.\<close>

definition restored_favorite :: "i64 \<Rightarrow> history_entry option \<Rightarrow> favorite \<Rightarrow> favorite" where
  "restored_favorite now entry f =
     (if fv_deleted_at f \<noteq> None then f\<lparr>fv_entity_revision := 0\<rparr>
      else f\<lparr>fv_translation := (case entry of None \<Rightarrow> fv_translation f | Some e \<Rightarrow> he_translation e)\<lparr>ts_updated_at := now\<rparr>,
             fv_created_at := now, fv_updated_at := now, fv_entity_revision := 0\<rparr>)"

lemma imported_favorite:
  assumes "tables_inv src" and "export_document up v src = Inr doc" and "validate_export u sha doc = Inr ex"
    and "tables_inv db'" and "import_merged now ex db db'" and "history_entries db = []" and "favorites db = []"
    and "length key = 32"
  shows "favorite_by_key db' key = Inr (map_option (\<lambda>row. restored_favorite now
      (map_option (history_of_row key) (tbl_get (history_entries src) (to_hex key))) (favorite_of_row key row))
    (tbl_get (favorites src) (to_hex key)))"
proof (cases "tbl_get (favorites src) (to_hex key)")
  case None
  then have "favorite_with (ve_favorites ex) (to_hex key) = None" using exported_favorite_with [OF assms(1-3,8)] by simp
  then show ?thesis using None assms(5,7) favorite_by_key_ok [OF assms(4,8)] by (simp add: import_merged_def)
next
  case (Some row)
  let ?k = "to_hex key" and ?row = "row\<lparr>rf_entity_revision := 0\<rparr>"
  let ?f = "favorite_of_row key ?row"
  have ok: "favorite_row_ok ?row" using assms(1) Some by (auto simp: tables_inv_def favorite_row_ok_def i64_max_def)
  note fw = exported_favorite_with [OF assms(1-3,8), unfolded Some, simplified]
  define h where "h = history_for (merged_history ex db ?k) ?f"
  have "tbl_get (history_entries db') ?k = Some h" using assms(5) by (simp add: import_merged_def fw h_def)
  then have hok: "history_row_ok h" using assms(4) by (auto simp: tables_inv_def)
  note hist = imported_favorite_history [OF assms(1-3,6,8) Some, folded h_def]
  have "tbl_get (favorites db') ?k = Some (merged_favorite now h None ?f)"
    using assms(5,7) by (simp add: import_merged_def fw h_def)
  then have "favorite_by_key db' key = Inr (Some (favorite_of_row key (merged_favorite now h None ?f)))"
    using favorite_by_key_ok [OF assms(4,8)] by simp
  moreover have "favorite_of_row key (merged_favorite now h None ?f)
      = restored_favorite now (map_option (history_of_row key) (tbl_get (history_entries src) ?k)) (favorite_of_row key row)"
  proof (cases "rf_deleted_at row")
    case None
    then have "merged_favorite now h None ?f = active_row key h now 0" by (simp add: merged_favorite_def)
    then have restored: "favorite_of_row key (merged_favorite now h None ?f) = \<lparr>fv_content = fv_content ?f,
        fv_translation = (he_translation (history_of_row key h))\<lparr>ts_updated_at := now\<rparr>,
        fv_created_at = now, fv_updated_at = now, fv_deleted_at = None, fv_entity_revision = 0\<rparr>"
      using active_row_favorite [OF hok, of key now] hist(2) by simp
    show ?thesis unfolding restored hist(1) using None
      by (cases "tbl_get (history_entries src) ?k")
        (simp_all add: restored_favorite_def favorite_of_row_def history_from_favorite_def)
  next
    case (Some t)
    then have "merged_favorite now h None ?f = tombstone_row ?f" by (simp add: merged_favorite_def)
    then show ?thesis using tombstone_row_favorite [OF ok] Some by (simp add: restored_favorite_def favorite_of_row_def)
  qed
  ultimately show ?thesis using Some by simp
qed

section \<open>Which Profiles can be exported and imported\<close>

text \<open>
  The conditions validation puts on the records of a Profile: texts within their limits and without control
  characters, times in order, contents whose key and canonical text are what preparing their source
  text gives, statistics only of contents that are in the history or a favorite.
\<close>

definition snapshot_portable :: "translation_snapshot \<Rightarrow> bool" where
  "snapshot_portable t \<longleftrightarrow> ts_translation t \<noteq> [] \<and> utf8_len (ts_translation t) \<le> 65536
     \<and> ts_provider t \<noteq> [] \<and> length (ts_provider t) \<le> 128 \<and> \<not> list_ex is_control (string_text (ts_provider t))
     \<and> \<not> list_ex (\<lambda>c. is_control c \<and> \<not> is_whitespace c) (ts_translation t) \<and> 0 \<le> ts_updated_at t"

definition content_portable :: "unicode_db \<Rightarrow> sha256 \<Rightarrow> stored_content \<Rightarrow> bool" where
  "content_portable u sha c \<longleftrightarrow> stc_key_version c = content_key_version
     \<and> length (stc_source_text c) \<le> max_source_characters
     \<and> (case prepare_content u sha (stc_source_text c) (stc_source_lang c) max_source_characters of
          Inl _ \<Rightarrow> False
        | Inr p \<Rightarrow> pc_content_key p = stc_content_key c \<and> cc_kind (pc_canonical p) = stc_kind c
            \<and> pc_source_text p = stc_source_text c \<and> cc_text (pc_canonical p) = stc_canonical_text c)"

definition history_portable :: "unicode_db \<Rightarrow> sha256 \<Rightarrow> history_entry \<Rightarrow> bool" where
  "history_portable u sha e \<longleftrightarrow> snapshot_portable (he_translation e) \<and> content_portable u sha (he_content e)
     \<and> ts_updated_at (he_translation e) \<le> he_last_queried_at e"

definition favorite_portable :: "unicode_db \<Rightarrow> sha256 \<Rightarrow> favorite \<Rightarrow> bool" where
  "favorite_portable u sha f \<longleftrightarrow> snapshot_portable (fv_translation f) \<and> content_portable u sha (fv_content f)
     \<and> 0 \<le> fv_created_at f \<and> fv_created_at f \<le> fv_updated_at f
     \<and> (case fv_deleted_at f of None \<Rightarrow> True | Some t \<Rightarrow> fv_updated_at f \<le> t)"

definition label_portable :: "nat \<Rightarrow> string \<Rightarrow> bool" where
  "label_portable limit v \<longleftrightarrow> v \<noteq> [] \<and> length v \<le> limit \<and> \<not> list_ex is_control (string_text v)"

definition profile_portable :: "unicode_db \<Rightarrow> sha256 \<Rightarrow> profile_db \<Rightarrow> bool" where
  "profile_portable u sha db \<longleftrightarrow>
     (\<forall>(k, row) \<in> set (history_entries db). history_portable u sha (history_of_row (key_of k) row))
   \<and> (\<forall>(k, row) \<in> set (favorites db). favorite_portable u sha (favorite_of_row (key_of k) row)
        \<and> (case tbl_get (history_entries db) k of None \<Rightarrow> True
           | Some h \<Rightarrow> he_content (history_of_row (key_of k) h) = fv_content (favorite_of_row (key_of k) row)))
   \<and> (\<forall>(k, row) \<in> set (stats_table db). (tbl_has (history_entries db) k \<or> tbl_has (favorites db) k)
        \<and> 0 \<le> pta_first_queried_at (archive_of (key_of k) (stats_of_row row))
        \<and> pta_first_queried_at (archive_of (key_of k) (stats_of_row row))
            \<le> pta_last_queried_at (archive_of (key_of k) (stats_of_row row)))
   \<and> (case profile_meta db of None \<Rightarrow> True | Some m \<Rightarrow>
        (case mt_username m of None \<Rightarrow> True | Some name \<Rightarrow> label_portable 128 name))"

lemma validate_translation_total:
  assumes "snapshot_portable t" "parse_language_code (ts_target_lang t) = Inr (ts_target_lang t)"
  shows "validate_translation (portable_translation_of t) = Inr t"
  using assms by (auto simp: validate_translation_def portable_translation_of_def snapshot_portable_def)

lemma validate_content_total:
  assumes "content_portable u sha c" "parse_language_code (stc_source_lang c) = Inr (stc_source_lang c)"
    "length (stc_content_key c) = 32"
  shows "validate_content u sha (portable_content_of c) = Inr c"
proof -
  obtain p where p: "prepare_content u sha (stc_source_text c) (stc_source_lang c) max_source_characters = Inr p"
    "pc_content_key p = stc_content_key c" "cc_kind (pc_canonical p) = stc_kind c"
    "pc_source_text p = stc_source_text c" "cc_text (pc_canonical p) = stc_canonical_text c"
    using assms(1) by (auto simp: content_portable_def split: sum.splits)
  have "cc_key_version (pc_canonical p) = content_key_version"
    using p(1) by (auto simp: prepare_content_def Let_def split: if_splits)
  moreover have "content_key_from_str (to_hex (stc_content_key c)) = Inr (stc_content_key c)"
    using assms(3) by (simp add: content_key_from_str_Inr)
  ultimately show ?thesis using assms p
    by (cases "stc_kind c") (auto simp: validate_content_def portable_content_of_def content_portable_def)
qed

lemma validate_history_total:
  assumes "history_portable u sha (history_of_row key row)" "history_row_ok row" "length key = 32"
  shows "validate_history u sha (portable_history_of (history_of_row key row)) = Inr (history_of_row key row)"
proof -
  let ?e = "history_of_row key row"
  have l: "parse_language_code (stc_source_lang (he_content ?e)) = Inr (stc_source_lang (he_content ?e))"
    "parse_language_code (ts_target_lang (he_translation ?e)) = Inr (ts_target_lang (he_translation ?e))"
    using assms(2) lang_of_stable by (auto simp: history_row_ok_def history_of_row_def)
  have p: "snapshot_portable (he_translation ?e)" "content_portable u sha (he_content ?e)"
    "ts_updated_at (he_translation ?e) \<le> he_last_queried_at ?e" using assms(1) by (simp_all add: history_portable_def)
  moreover have "0 \<le> ts_updated_at (he_translation ?e)" using p(1) by (simp add: snapshot_portable_def)
  ultimately show ?thesis
    using validate_translation_total [OF p(1) l(2)] validate_content_total [OF p(2) l(1)] assms(3)
    by (simp add: validate_history_def portable_history_of_def)
qed

lemma validate_favorite_total:
  assumes "favorite_portable u sha (favorite_of_row key row)" "favorite_row_ok row" "length key = 32"
  shows "validate_favorite u sha (portable_favorite_of (favorite_of_row key row))
    = Inr (favorite_of_row key (row\<lparr>rf_entity_revision := 0\<rparr>))"
proof -
  let ?f = "favorite_of_row key row"
  have l: "parse_language_code (stc_source_lang (fv_content ?f)) = Inr (stc_source_lang (fv_content ?f))"
    "parse_language_code (ts_target_lang (fv_translation ?f)) = Inr (ts_target_lang (fv_translation ?f))"
    using assms(2) lang_of_stable by (auto simp: favorite_row_ok_def favorite_of_row_def)
  have p: "snapshot_portable (fv_translation ?f)" "content_portable u sha (fv_content ?f)"
    "0 \<le> fv_created_at ?f" "fv_created_at ?f \<le> fv_updated_at ?f"
    "case fv_deleted_at ?f of None \<Rightarrow> True | Some t \<Rightarrow> fv_updated_at ?f \<le> t"
    using assms(1) by (simp_all add: favorite_portable_def)
  have "ts_updated_at (fv_translation ?f) = fv_updated_at ?f" by (simp add: favorite_of_row_def)
  moreover have "\<not> (case fv_deleted_at ?f of None \<Rightarrow> False | Some t \<Rightarrow> t < 0)"
    "\<not> (case fv_deleted_at ?f of None \<Rightarrow> False | Some t \<Rightarrow> t < fv_updated_at ?f)"
    using p(3-5) by (auto split: option.splits)
  ultimately have "validate_favorite u sha (portable_favorite_of ?f) = Inr (?f\<lparr>fv_entity_revision := 0\<rparr>)"
    using validate_translation_total [OF p(1) l(2)] validate_content_total [OF p(2) l(1)] assms(3) p(3,4)
    by (simp add: validate_favorite_def portable_favorite_of_def cong: option.case_cong)
  then show ?thesis by (simp add: favorite_of_row_def)
qed

text \<open>The checks for duplicates pass when the validated keys are distinct.\<close>

lemma take_histories_total:
  "mapM (validate_history u sha) vs = Inr new \<Longrightarrow> distinct (map he_key (es @ new)) \<Longrightarrow>
     foldM (take_history u sha) vs es = Inr (es @ new)"
proof (induction vs arbitrary: es new)
  case (Cons v vs)
  then obtain e rest where e: "validate_history u sha v = Inr e" "mapM (validate_history u sha) vs = Inr rest" "new = e # rest"
    by (auto simp: res_simps)
  then have "foldM (take_history u sha) vs (es @ [e]) = Inr ((es @ [e]) @ rest)"
    using Cons.prems(2) by (intro Cons.IH) auto
  moreover have "take_history u sha v es = Inr (es @ [e])" using e Cons.prems(2) by (simp add: take_history_def)
  ultimately show ?case using e(3) by simp
qed simp

lemma take_favorites_total:
  "mapM (validate_favorite u sha) vs = Inr new \<Longrightarrow> distinct (map fv_key (fs @ new)) \<Longrightarrow>
     list_all (\<lambda>f. case find (\<lambda>e. he_key e = fv_key f) history of None \<Rightarrow> True | Some e \<Rightarrow> he_content e = fv_content f) new \<Longrightarrow>
     foldM (take_favorite u sha history) vs fs = Inr (fs @ new)"
proof (induction vs arbitrary: fs new)
  case (Cons v vs)
  then obtain f rest where f: "validate_favorite u sha v = Inr f" "mapM (validate_favorite u sha) vs = Inr rest" "new = f # rest"
    by (auto simp: res_simps)
  then have "foldM (take_favorite u sha history) vs (fs @ [f]) = Inr ((fs @ [f]) @ rest)"
    using Cons.prems(2,3) by (intro Cons.IH) auto
  moreover have "take_favorite u sha history v fs = Inr (fs @ [f])"
    using f Cons.prems(2,3) by (auto simp: take_favorite_def split: option.splits)
  ultimately show ?case using f(3) by simp
qed simp

lemma take_archives_total:
  "mapM (validate_archive known) vs = Inr new \<Longrightarrow> distinct (keys @ new) \<Longrightarrow>
     foldM (take_archive known) vs keys = Inr (keys @ new)"
proof (induction vs arbitrary: keys new)
  case (Cons v vs)
  then obtain k rest where k: "validate_archive known v = Inr k" "mapM (validate_archive known) vs = Inr rest" "new = k # rest"
    by (auto simp: res_simps)
  then have "foldM (take_archive known) vs (keys @ [k]) = Inr ((keys @ [k]) @ rest)"
    using Cons.prems(2) by (intro Cons.IH) auto
  moreover have "take_archive known v keys = Inr (keys @ [k])" using k Cons.prems(2) by (simp add: take_archive_def)
  ultimately show ?case using k(3) by simp
qed simp

lemma mapM_over_map: "(\<And>x. x \<in> set xs \<Longrightarrow> f (g x) = Inr (h x)) \<Longrightarrow> mapM f (map g xs) = Inr (map h xs)"
  by (induction xs) auto

lemma mapM_inverse: "mapM f xs = Inr ys \<Longrightarrow> (\<And>x y. f x = Inr y \<Longrightarrow> g y = x) \<Longrightarrow> map g ys = xs"
  by (induction xs arbitrary: ys) (auto simp: res_simps)

lemma exported_archives:
  assumes "tables_inv src" and "export_query_stats_archive src = Inr as"
  shows "map pta_content_key as = sort (map fst (stats_table src))"
    and "a \<in> set as \<Longrightarrow> \<exists>row. (pta_content_key a, row) \<in> set (stats_table src)
      \<and> content_key_from_str (pta_content_key a) = Inr (key_of (pta_content_key a))
      \<and> a = archive_of (key_of (pta_content_key a)) (stats_of_row row)"
proof -
  let ?f = "\<lambda>k. rbind (map_err (\<lambda>_. PdInvalid ''stored content key'') (content_key_from_str k)) (\<lambda>key.
       rbind (map_err PdStorage (query_stats_tx src key)) (\<lambda>found.
       rbind (ok_or (PdInvalid ''stored QueryStats disappeared'') found) (\<lambda>stats. Inr (archive_of key stats))))"
  have m: "mapM ?f (sort (map fst (stats_table src))) = Inr as" using assms(2) by (simp add: export_query_stats_archive_def)
  have one: "pta_content_key a = k \<and> (\<exists>row. (k, row) \<in> set (stats_table src)
      \<and> content_key_from_str k = Inr (key_of k) \<and> a = archive_of (key_of k) (stats_of_row row))" if "?f k = Inr a" for k a
  proof -
    from that obtain key row where key: "content_key_from_str k = Inr key" "tbl_get (stats_table src) (to_hex key) = Some row"
      "a = archive_of key (stats_of_row row)"
      by (auto simp: res_simps query_stats_tx_ok [OF assms(1)])
    then have "to_hex key = k" "key_of k = key" by (simp_all add: content_key_from_str_Inr key_of_def)
    then show ?thesis using key by (auto simp: archive_of_def tbl_get_def dest: map_of_SomeD)
  qed
  show "map pta_content_key as = sort (map fst (stats_table src))" using m by (rule mapM_inverse) (use one in blast)
  show "\<exists>row. (pta_content_key a, row) \<in> set (stats_table src)
      \<and> content_key_from_str (pta_content_key a) = Inr (key_of (pta_content_key a))
      \<and> a = archive_of (key_of (pta_content_key a)) (stats_of_row row)" if "a \<in> set as"
    using mapM_result_source [OF m that] one by blast
qed

text \<open>The records of a portable Profile in the order of the document.\<close>

definition exported_history :: "profile_db \<Rightarrow> history_entry list" where
  "exported_history src = map (\<lambda>(k, row). history_of_row (key_of k) row) (sort_key fst (history_entries src))"

definition exported_favorites :: "profile_db \<Rightarrow> favorite list" where
  "exported_favorites src =
     map (\<lambda>(k, row). favorite_of_row (key_of k) (row\<lparr>rf_entity_revision := 0\<rparr>)) (sort_key fst (favorites src))"

lemma portable_rows:
  assumes "tables_inv src" and "profile_portable u sha src"
  shows "(k, h) \<in> set (history_entries src) \<Longrightarrow> key_text k \<and> history_row_ok h
      \<and> history_portable u sha (history_of_row (key_of k) h) \<and> tbl_get (history_entries src) k = Some h"
    and "(k, f) \<in> set (favorites src) \<Longrightarrow> key_text k \<and> favorite_row_ok f
      \<and> favorite_portable u sha (favorite_of_row (key_of k) f)"
  using assms by (auto simp: tables_inv_def tbl_get_in_set profile_portable_def)

lemma portable_contents_agree:
  assumes "profile_portable u sha src" "(k, f) \<in> set (favorites src)" "tbl_get (history_entries src) k = Some h"
  shows "he_content (history_of_row (key_of k) h) = fv_content (favorite_of_row (key_of k) f)"
proof -
  have "\<forall>(k, row) \<in> set (favorites src). case tbl_get (history_entries src) k of None \<Rightarrow> True
           | Some h \<Rightarrow> he_content (history_of_row (key_of k) h) = fv_content (favorite_of_row (key_of k) row)"
    using assms(1) by (auto simp: profile_portable_def)
  from bspec [OF this assms(2)] assms(3) show ?thesis by simp
qed

lemma exported_keys:
  "map he_key (exported_history src) = map (key_of \<circ> fst) (sort_key fst (history_entries src))"
  "map fv_key (exported_favorites src) = map (key_of \<circ> fst) (sort_key fst (favorites src))"
  by (auto simp: comp_def exported_history_def exported_favorites_def)

lemma key_of_inj: "inj_on key_of {k. key_text k}"
  by (rule inj_onI) (metis key_of_text mem_Collect_eq)

lemma sorted_keys_distinct:
  assumes "distinct (map fst xs)" "\<And>k v. (k, v) \<in> set xs \<Longrightarrow> key_text k"
  shows "distinct (map (key_of \<circ> fst) (sort_key fst xs))"
proof -
  have "inj_on fst (set xs)" "distinct xs" using assms(1) by (simp_all add: distinct_map)
  moreover have "inj_on key_of (fst ` set xs)" using assms(2) by (intro inj_on_subset [OF key_of_inj]) auto
  ultimately show ?thesis by (simp add: distinct_map comp_inj_on)
qed

lemma exported_validated:
  assumes "tables_inv src" and "export_document up v src = Inr doc" and "profile_portable u sha src"
  shows "mapM (validate_history u sha) (pte_history doc) = Inr (exported_history src)"
    and "mapM (validate_favorite u sha) (pte_favorites doc) = Inr (exported_favorites src)"
    and "distinct (map he_key (exported_history src))" and "distinct (map fv_key (exported_favorites src))"
proof -
  note rows = portable_rows [OF assms(1,3)]
  have doc: "pte_history doc = map (\<lambda>(k, row). portable_history_of (history_of_row (key_of k) row)) (sort_key fst (history_entries src))"
    "pte_favorites doc = map (\<lambda>(k, row). portable_favorite_of (favorite_of_row (key_of k) row)) (sort_key fst (favorites src))"
    using assms(2) by (auto simp: export_document_def res_simps export_history_ok [OF assms(1)] export_favorites_ok [OF assms(1)] split: if_splits)
  show "mapM (validate_history u sha) (pte_history doc) = Inr (exported_history src)"
    unfolding doc exported_history_def by (rule mapM_over_map) (auto simp: validate_history_total key_of_text dest!: rows(1))
  show "mapM (validate_favorite u sha) (pte_favorites doc) = Inr (exported_favorites src)"
    unfolding doc exported_favorites_def by (rule mapM_over_map) (auto simp: validate_favorite_total key_of_text dest!: rows(2))
  have wf: "distinct (map fst (history_entries src))" "distinct (map fst (favorites src))"
    using assms(1) by (simp_all add: tables_inv_def tbl_wf_def)
  show "distinct (map he_key (exported_history src))"
    unfolding exported_keys using wf(1) by (rule sorted_keys_distinct) (use rows(1) in blast)
  show "distinct (map fv_key (exported_favorites src))"
    unfolding exported_keys using wf(2) by (rule sorted_keys_distinct) (use rows(2) in blast)
qed

lemma exported_contents_agree:
  assumes "tables_inv src" and "profile_portable u sha src"
  shows "list_all (\<lambda>f. case find (\<lambda>e. he_key e = fv_key f) (exported_history src) of
      None \<Rightarrow> True | Some e \<Rightarrow> he_content e = fv_content f) (exported_favorites src)"
proof -
  note rows = portable_rows [OF assms]
  have "he_content e = fv_content (favorite_of_row (key_of k) (row\<lparr>rf_entity_revision := 0\<rparr>))"
    if kr: "(k, row) \<in> set (favorites src)" and e: "find (\<lambda>e. he_key e = key_of k) (exported_history src) = Some e" for k row e
  proof -
    from e have "e \<in> set (exported_history src)" "he_key e = key_of k" by (auto simp: find_Some_iff)
    then obtain k' h where h: "(k', h) \<in> set (history_entries src)" "e = history_of_row (key_of k') h" "key_of k' = key_of k"
      by (auto simp: exported_history_def)
    have "k' = k" using rows(1) [OF h(1)] rows(2) [OF kr] h(3) by (metis key_of_text)
    then have "tbl_get (history_entries src) k = Some h" using rows(1) [OF h(1)] by simp
    then have "he_content e = fv_content (favorite_of_row (key_of k) row)" using portable_contents_agree [OF assms(2) kr] h(2,3) by simp
    then show ?thesis by (simp add: favorite_of_row_def)
  qed
  note agree = this
  show ?thesis unfolding list_all_iff
  proof
    fix f assume "f \<in> set (exported_favorites src)"
    then obtain k row where f: "(k, row) \<in> set (favorites src)" "f = favorite_of_row (key_of k) (row\<lparr>rf_entity_revision := 0\<rparr>)"
      by (auto simp: exported_favorites_def)
    show "case find (\<lambda>e. he_key e = fv_key f) (exported_history src) of None \<Rightarrow> True | Some e \<Rightarrow> he_content e = fv_content f"
    proof (cases "find (\<lambda>e. he_key e = fv_key f) (exported_history src)")
      case (Some e)
      then have "find (\<lambda>e. he_key e = key_of k) (exported_history src) = Some e" using f(2) by simp
      from agree [OF f(1) this] have "he_content e = fv_content f" unfolding f(2) .
      then show ?thesis unfolding Some option.case .
    qed simp
  qed
qed

lemma exported_archives_valid:
  assumes t: "tables_inv src" and portable: "profile_portable u sha src" and as: "export_query_stats_archive src = Inr as"
  shows "mapM (validate_archive (map he_key (exported_history src) @ map fv_key (exported_favorites src))) as
      = Inr (map (key_of \<circ> pta_content_key) as)" (is "mapM (validate_archive ?known) as = _")
    and "distinct (map (key_of \<circ> pta_content_key) as)"
proof -
  show "mapM (validate_archive ?known) as = Inr (map (key_of \<circ> pta_content_key) as)"
  proof (rule mapM_map_Inr)
    fix a assume "a \<in> set as"
    from exported_archives(2) [OF t as this] obtain row where row: "(pta_content_key a, row) \<in> set (stats_table src)"
      "content_key_from_str (pta_content_key a) = Inr (key_of (pta_content_key a))"
      "a = archive_of (key_of (pta_content_key a)) (stats_of_row row)" by blast
    have st: "tbl_has (history_entries src) (pta_content_key a) \<or> tbl_has (favorites src) (pta_content_key a)"
      "0 \<le> pta_first_queried_at a" "pta_first_queried_at a \<le> pta_last_queried_at a"
      using portable row(1) row(3) [symmetric] by (auto simp: profile_portable_def)
    have "key_of (pta_content_key a) \<in> set ?known"
      unfolding set_append exported_keys using st(1) by (force simp: tbl_has_get tbl_get_def dest: map_of_SomeD)
    then show "validate_archive ?known a = Inr ((key_of \<circ> pta_content_key) a)"
      using row(2) st(2,3) by (simp add: validate_archive_def)
  qed
  have "content_key_from_str k = Inr (key_of k)" if "k \<in> set (map pta_content_key as)" for k
    using that exported_archives(2) [OF t as] by auto
  then have "inj_on key_of (set (map pta_content_key as))"
    by (intro inj_onI) (metis content_key_from_str_Inr)
  moreover have "distinct (map pta_content_key as)"
    using exported_archives(1) [OF t as] t by (simp add: tables_inv_def tbl_wf_def)
  ultimately have "distinct (map key_of (map pta_content_key as))" by (simp only: distinct_map)
  then show "distinct (map (key_of \<circ> pta_content_key) as)" by simp
qed

lemma validate_export_total:
  assumes t: "tables_inv src" and doc: "export_document up v src = Inr doc" and portable: "profile_portable u sha src"
    and v: "label_portable 64 v"
  shows "\<exists>ex. validate_export u sha doc = Inr ex"
proof -
  from doc obtain m as where m: "read_profile_metadata up src = Inr m" and as: "export_query_stats_archive src = Inr as"
    and limit: "enforce_record_limit (length (pte_history doc)) (length (pte_favorites doc)) (length as) = Inr ()"
    and fields: "pte_format doc = portable_format" "pte_export_version doc = export_format_version" "pte_app_version doc = v"
      "pte_schema_version doc = schema_version" "pte_username doc = pm_username m" "pte_query_stats_archive doc = as"
    by (auto simp: export_document_def res_simps split: if_splits)
  note records = exported_validated [OF t doc portable] and archives = exported_archives_valid [OF t portable as]
  have "foldM (take_history u sha) (pte_history doc) [] = Inr (exported_history src)"
    using take_histories_total [OF records(1), of "[]"] records(3) by simp
  moreover have "foldM (take_favorite u sha (exported_history src)) (pte_favorites doc) [] = Inr (exported_favorites src)"
    using take_favorites_total [OF records(2), of "[]"] records(4) exported_contents_agree [OF t portable] by simp
  moreover have "foldM (take_archive (map he_key (exported_history src) @ map fv_key (exported_favorites src))) as []
      = Inr (map (key_of \<circ> pta_content_key) as)"
    using take_archives_total [OF archives(1), of "[]"] archives(2) by simp
  moreover have "\<not> (case pte_username doc of None \<Rightarrow> False | Some username \<Rightarrow>
          username = [] \<or> length username > 128 \<or> list_ex is_control (string_text username))"
    using portable m fields(5)
    by (auto simp: profile_portable_def read_profile_metadata_def label_portable_def res_simps split: option.splits)
  moreover have "\<not> (v = [] \<or> length v > 64 \<or> list_ex is_control (string_text v) \<or> schema_version = 0)"
    using v by (simp add: label_portable_def schema_version_def)
  ultimately show ?thesis using limit unfolding validate_export_def fields by simp
qed

text \<open>
  C25: data survives an export and an import. When the records of a consistent Profile keep to the limits
  that validation knows, the document exported from it can be imported into every empty Profile, and
  the import does what its preview says. Every history entry comes back as it was. A deleted favorite
  comes back as it was, unknown to the Server; an active one comes back with its content, the
  translation of its history entry and the import time as its times; nothing else becomes a favorite.
  Assumed of the JSON library is that it reads back what it wrote and writes no empty document, and
  that the identifiers drawn for the new intents are fresh.
\<close>

theorem portable_export_roundtrip:
  assumes "profile_inv src" and "profile_portable u sha src" and "label_portable 64 v"
    and "export_portable_json js up v src = Inr bytes"
    and json: "\<And>doc. export_document up v src = Inr doc \<Longrightarrow> pj_write js doc \<noteq> [] \<and> pj_read js (pj_write js doc) = Some doc"
    and "profile_inv db" and "history_entries db = []" and "favorites db = []" and "read_profile_metadata up db = Inr m"
    and "fresh_ids ids 0 db" and "length key = 32"
  shows "\<exists>plan db'. preview_portable_import js u sha up bytes db = Inr plan
     \<and> apply_portable_import up plan now ids db = (Inr (pl_preview plan), db')
     \<and> (\<forall>e. history_by_key src key = Inr (Some e) \<longrightarrow> history_by_key db' key = Inr (Some e))
     \<and> favorite_by_key db' key = rbind (history_by_key src key) (\<lambda>entry.
          rbind (favorite_by_key src key) (\<lambda>found. Inr (map_option (restored_favorite now entry) found)))"
proof -
  from assms(4) obtain doc where doc: "export_document up v src = Inr doc" "bytes = pj_write js doc"
    and len: "length bytes \<le> max_portable_json_bytes"
    by (auto simp: export_portable_json_def res_simps Let_def split: if_splits)
  have t: "tables_inv src" using assms(1) by (rule profile_invE)
  obtain ex where ex: "validate_export u sha doc = Inr ex"
    using validate_export_total [OF t doc(1) assms(2,3)] by blast
  then have "import_ok ex" by (rule validate_export_cases)
  from apply_merge_total [OF assms(6) this assms(10), of now] obtain db' p where
    ap: "apply_merge db ex now ids = Inr (db', p)" and prev: "preview_merge db ex = Inr p" and inv: "profile_inv db'"
    and merged: "import_merged now ex db db'" by blast
  have t': "tables_inv db'" using inv by (rule profile_invE)
  let ?plan = "\<lparr>pl_target_profile_id = pm_profile_id m, pl_export = ex, pl_preview = p\<rparr>"
  have "preview_portable_import js u sha up bytes db = Inr ?plan"
    using len ex prev assms(9) json [OF doc(1)] by (simp add: preview_portable_import_def doc(2))
  moreover have "apply_portable_import up ?plan now ids db = (Inr (pl_preview ?plan), db')"
    using ap assms(9) by (simp add: apply_portable_import_def)
  moreover have "history_by_key db' key = Inr (Some e)" if "history_by_key src key = Inr (Some e)" for e
  proof -
    have "tbl_has (history_entries src) (to_hex key)" using that history_by_key_ok [OF t assms(11)] by (auto simp: tbl_has_get)
    then show ?thesis using imported_history [OF t doc(1) ex t' merged assms(7,11)] that by simp
  qed
  moreover have "favorite_by_key db' key = rbind (history_by_key src key) (\<lambda>entry.
          rbind (favorite_by_key src key) (\<lambda>found. Inr (map_option (restored_favorite now entry) found)))"
    using imported_favorite [OF t doc(1) ex t' merged assms(7,8,11)] history_by_key_ok [OF t assms(11)]
      favorite_by_key_ok [OF t assms(11)] by (simp add: option.map_comp comp_def)
  ultimately show ?thesis by blast
qed

section \<open>An example document\<close>

definition example_document :: portable_export where
  "example_document = \<lparr>pte_format = portable_format, pte_export_version = 1, pte_app_version = ''0.1.9'',
     pte_schema_version = 2, pte_username = None,
     pte_history = [portable_history_of (history_of_row example_content_key example_history)],
     pte_favorites = [portable_favorite_of (favorite_of_row example_content_key example_favorite)],
     pte_query_stats_archive = [archive_of example_content_key (stats_of_row Profile_Properties.example_stats)]\<rparr>"

definition example_portable_json :: portable_json where
  "example_portable_json = \<lparr>pj_write = (\<lambda>_. [1]), pj_read = (\<lambda>_. Some example_document)\<rparr>"

definition example_validated :: validated_export where
  "example_validated = \<lparr>ve_history = [history_of_row example_content_key example_history],
     ve_favorites = [favorite_of_row example_content_key example_favorite],
     ve_history_keys = [example_content_key], ve_query_stats_count = 1\<rparr>"

definition example_plan :: import_plan where
  "example_plan = \<lparr>pl_target_profile_id = ''p1'', pl_export = example_validated,
     pl_preview = (empty_preview example_validated)\<lparr>ip_history_add := 1, ip_favorite_add := 1\<rparr>\<rparr>"

definition example_ids :: "nat \<Rightarrow> uuid" where
  "example_ids n = replicate n CHR ''x''"

lemma example_fresh_ids: "fresh_ids example_ids 0 example_fresh"
proof -
  have "inj example_ids" unfolding example_ids_def by (rule injI) (metis length_replicate)
  then show ?thesis by (simp add: fresh_ids_def example_fresh_def migrated_profile_db_def)
qed

lemma example_export: "export_document Some ''0.1.9'' example_favorited = Inr example_document"
proof -
  have t: "tables_inv example_favorited" using example_favorited_inv by (rule profile_invE)
  have parts: "history_entries example_favorited = [(to_hex example_content_key, example_history)]"
    "favorites example_favorited = [(to_hex example_content_key, example_favorite)]"
    "stats_table example_favorited = [(to_hex example_content_key, Profile_Properties.example_stats)]"
    "profile_meta example_favorited = Some example_meta"
    by (simp_all add: example_favorited_def example_queried_def example_fresh_def)
  have "export_query_stats_archive example_favorited
      = Inr [archive_of example_content_key (stats_of_row Profile_Properties.example_stats)]"
    using query_stats_tx_ok [OF t, of example_content_key]
    by (simp add: export_query_stats_archive_def parts tbl_get_def content_key_from_str_Inr [THEN iffD2])
  moreover have "export_history example_favorited = Inr [portable_history_of (history_of_row example_content_key example_history)]"
    "export_favorites example_favorited = Inr [portable_favorite_of (favorite_of_row example_content_key example_favorite)]"
    by (simp_all add: export_history_ok [OF t] export_favorites_ok [OF t] parts)
  moreover have "enforce_record_limit 1 1 1 = Inr ()" "portable_record_count example_favorited \<le> max_portable_records"
    by (simp_all add: enforce_record_limit_def checked_add_u64_def u64_max_def max_portable_records_def
        portable_record_count_def parts)
  moreover have "read_profile_metadata Some example_favorited = Inr example_metadata"
    by (simp add: read_profile_metadata_def parts example_meta_def example_metadata_def parse_uuid_def ok_or_def
        sqlite_u64_def u64_of_i64_def)
  ultimately show ?thesis
    by (simp add: export_document_def example_document_def example_metadata_def export_format_version_def schema_version_def not_less)
qed

lemma example_content_valid:
  "validate_content ascii_unicode_db example_profile_sha (portable_content_of (he_content (history_of_row example_content_key example_history)))
     = Inr (he_content (history_of_row example_content_key example_history))"
  using example_prepared
  by (simp add: validate_content_def portable_content_of_def history_of_row_def example_history_def kind_of_def lang_of_def
      content_key_version_def max_source_characters_def max_remote_content_characters_def content_key_from_str_Inr [THEN iffD2])

lemma example_translation_valid:
  "0 \<le> t \<Longrightarrow> validate_translation \<lparr>ptt_target_lang = ''zh'', ptt_translation = [98], ptt_provider = ''p'', ptt_updated_at = t\<rparr>
     = Inr \<lparr>ts_target_lang = ''zh'', ts_translation = [98], ts_provider = ''p'', ts_updated_at = t\<rparr>"
  by (simp add: validate_translation_def utf8_len_def utf8_def utf8_char_def is_control_def string_text_def)

lemma example_valid: "validate_export ascii_unicode_db example_profile_sha example_document = Inr example_validated"
proof -
  let ?e = "history_of_row example_content_key example_history" and ?f = "favorite_of_row example_content_key example_favorite"
  have same: "fv_content ?f = he_content ?e"
    by (simp add: favorite_of_row_def history_of_row_def example_favorite_def example_history_def)
  have "validate_history ascii_unicode_db example_profile_sha (portable_history_of ?e) = Inr ?e"
    using example_content_valid example_translation_valid [of 5]
    by (simp add: validate_history_def portable_history_of_def portable_translation_of_def)
      (simp add: history_of_row_def example_history_def lang_of_def)
  moreover have "validate_favorite ascii_unicode_db example_profile_sha (portable_favorite_of ?f) = Inr ?f"
    using example_content_valid example_translation_valid [of 10] same
    by (simp add: validate_favorite_def portable_favorite_of_def portable_translation_of_def)
      (simp add: favorite_of_row_def example_favorite_def lang_of_def)
  moreover have "validate_archive [example_content_key, example_content_key]
      (archive_of example_content_key (stats_of_row Profile_Properties.example_stats)) = Inr example_content_key"
    by (simp add: validate_archive_def archive_of_def stats_of_row_def Profile_Properties.example_stats_def
        content_key_from_str_Inr [THEN iffD2])
  ultimately show ?thesis using same
    by (simp add: validate_export_def example_document_def example_validated_def export_format_version_def
        take_history_def take_favorite_def take_archive_def enforce_record_limit_def checked_add_u64_def u64_max_def
        max_portable_records_def is_control_def string_text_def)
qed

lemma example_preview:
  "preview_portable_import example_portable_json ascii_unicode_db example_profile_sha Some [1] example_fresh = Inr example_plan"
  using example_valid
  by (simp add: preview_portable_import_def example_portable_json_def max_portable_json_bytes_def example_plan_def
      preview_merge_def preview_history_def preview_favorite_def example_validated_def history_by_key_def favorite_by_key_def
      example_fresh_def migrated_profile_db_def read_profile_metadata_def example_meta_def parse_uuid_def ok_or_def
      sqlite_u64_def u64_of_i64_def example_favorite_def empty_preview_def)

theorem portable_import_as_previewed_witness:
  "\<exists>db'. apply_portable_import Some example_plan 30 example_ids example_fresh = (Inr (pl_preview example_plan), db')
     \<and> profile_inv db' \<and> import_merged 30 example_validated example_fresh db'"
  using portable_import_as_previewed [OF example_fresh_inv example_preview example_fresh_ids, of 30]
  by (simp add: example_plan_def)

theorem portable_import_idempotent_witness:
  "\<exists>p db'. apply_portable_import Some example_plan 30 example_ids example_fresh = (Inr p, db')
     \<and> apply_portable_import Some example_plan 40 example_ids db'
       = (Inr ((empty_preview example_validated)\<lparr>ip_history_skip := 1, ip_favorite_skip := 1\<rparr>), db')"
proof -
  obtain db' where "apply_portable_import Some example_plan 30 example_ids example_fresh = (Inr (pl_preview example_plan), db')"
    using apply_merge_total [OF example_fresh_inv _ example_fresh_ids, of example_validated 30] example_valid example_preview
    by (force simp: apply_portable_import_def example_plan_def read_profile_metadata_def elim: validate_export_cases
        preview_portable_import_cases)
  from portable_import_idempotent [OF example_fresh_inv example_preview example_fresh_ids this, of 40 example_ids] this
  show ?thesis by (auto simp: example_plan_def example_validated_def)
qed

lemma example_portable: "profile_portable ascii_unicode_db example_profile_sha example_favorited"
proof -
  have parts: "history_entries example_favorited = [(to_hex example_content_key, example_history)]"
    "favorites example_favorited = [(to_hex example_content_key, example_favorite)]"
    "stats_table example_favorited = [(to_hex example_content_key, Profile_Properties.example_stats)]"
    "profile_meta example_favorited = Some example_meta"
    by (simp_all add: example_favorited_def example_queried_def example_fresh_def)
  let ?e = "history_of_row example_content_key example_history" and ?f = "favorite_of_row example_content_key example_favorite"
  have same: "fv_content ?f = he_content ?e"
    by (simp add: favorite_of_row_def history_of_row_def example_favorite_def example_history_def)
  have c: "content_portable ascii_unicode_db example_profile_sha (he_content ?e)"
    using example_prepared by (simp add: content_portable_def history_of_row_def example_history_def kind_of_def lang_of_def
      content_key_version_def max_source_characters_def max_remote_content_characters_def)
  have snap: "snapshot_portable \<lparr>ts_target_lang = l, ts_translation = [98], ts_provider = ''p'', ts_updated_at = at\<rparr>" if "0 \<le> at" for l at
    using that by (simp add: snapshot_portable_def utf8_len_def utf8_def utf8_char_def is_control_def string_text_def)
  have "history_portable ascii_unicode_db example_profile_sha ?e"
    using c snap by (simp add: history_portable_def) (simp add: history_of_row_def example_history_def)
  moreover have "favorite_portable ascii_unicode_db example_profile_sha ?f"
    using c snap same by (simp add: favorite_portable_def) (simp add: favorite_of_row_def example_favorite_def)
  ultimately show ?thesis using same
    by (simp add: profile_portable_def parts tbl_get_def tbl_has_def archive_of_def stats_of_row_def
        Profile_Properties.example_stats_def example_meta_def)
qed

theorem portable_export_roundtrip_witness:
  "\<exists>plan db' f'. preview_portable_import example_portable_json ascii_unicode_db example_profile_sha Some [1] example_fresh = Inr plan
     \<and> apply_portable_import Some plan 30 example_ids example_fresh = (Inr (pl_preview plan), db')
     \<and> history_by_key db' example_content_key = Inr (Some (history_of_row example_content_key example_history))
     \<and> favorite_by_key db' example_content_key = Inr (Some f') \<and> fv_deleted_at f' = None \<and> fv_created_at f' = 30"
proof -
  have empty: "history_entries example_fresh = []" "favorites example_fresh = []"
    by (simp_all add: example_fresh_def migrated_profile_db_def)
  have js: "pj_write example_portable_json doc \<noteq> [] \<and> pj_read example_portable_json (pj_write example_portable_json doc) = Some doc"
    if "export_document Some ''0.1.9'' example_favorited = Inr doc" for doc
    using that example_export by (simp add: example_portable_json_def)
  have bytes: "export_portable_json example_portable_json Some ''0.1.9'' example_favorited = Inr [1]"
    using example_export by (simp add: export_portable_json_def example_portable_json_def max_portable_json_bytes_def)
  have version: "label_portable 64 ''0.1.9''" by (simp add: label_portable_def string_text_def is_control_def)
  have meta: "read_profile_metadata Some example_fresh = Inr example_metadata"
    by (simp add: read_profile_metadata_def example_fresh_def example_meta_def example_metadata_def parse_uuid_def ok_or_def
        sqlite_u64_def u64_of_i64_def)
  have t: "tables_inv example_favorited" using example_favorited_inv by (rule profile_invE)
  have src: "history_by_key example_favorited example_content_key = Inr (Some (history_of_row example_content_key example_history))"
    "favorite_by_key example_favorited example_content_key = Inr (Some (favorite_of_row example_content_key example_favorite))"
    using history_by_key_ok [OF t, of example_content_key] favorite_by_key_ok [OF t, of example_content_key]
    by (simp_all add: example_favorited_def example_queried_def tbl_get_def)
  from portable_export_roundtrip [OF example_favorited_inv example_portable version bytes js example_fresh_inv empty meta
      example_fresh_ids example_key_length, of 30] src
  show ?thesis by (auto simp: restored_favorite_def example_favorite_def)
qed

section \<open>An own export that is refused\<close>

text \<open>
  A favorite that was removed while the clock was set back carries an update time before its creation
  time. Validation refuses such a record, and with it the whole export of the Profile that wrote it.
\<close>

lemma mapM_Inr_each: "mapM f xs = Inr ys \<Longrightarrow> x \<in> set xs \<Longrightarrow> \<exists>y. f x = Inr y"
  by (induction xs arbitrary: ys) (auto simp: res_simps)

lemma backdated_favorite_not_importable:
  assumes inv: "tables_inv db" and doc: "export_document up version db = Inr doc"
    and row: "tbl_get (favorites db) k = Some row" and earlier: "rf_updated_at row < rf_created_at row"
  shows "\<exists>e. validate_export u sha doc = Inl e"
proof (rule ccontr)
  assume "\<not> ?thesis"
  then obtain ex where ex: "validate_export u sha doc = Inr ex" by (cases "validate_export u sha doc") auto
  from doc obtain fs where "export_favorites db = Inr fs" "pte_favorites doc = fs"
    by (auto simp: export_document_def res_simps split: if_splits)
  moreover have "(k, row) \<in> set (favorites db)"
    using row by (auto simp: tbl_get_def dest: map_of_SomeD)
  ultimately have "portable_favorite_of (favorite_of_row (key_of k) row) \<in> set (pte_favorites doc)"
    using export_favorites_ok [OF inv] by (auto intro!: rev_image_eqI [of "(k, row)"])
  with ex have "\<exists>f. validate_favorite u sha (portable_favorite_of (favorite_of_row (key_of k) row)) = Inr f"
    by (elim validate_export_cases) (rule mapM_Inr_each)
  then show False using earlier
    by (auto simp: validate_favorite_def portable_favorite_of_def favorite_of_row_def split: if_splits)
qed

end
