(* ===== verification/Database_Worker.thy ===== *)
theory Database_Worker
  imports Portable_Data
begin

text \<open>
  The database thread of the Desktop, \<open>apps/desktop/src/db_worker.rs\<close>. One thread owns the Profile
  databases and runs the jobs it is sent one after the other; a job is a function on the worker's
  state. The directory of Profile files is a table from file names to databases. Starting the
  thread, its channel and the typed result boxes are the runtime's and not modelled, so a worker here
  is one that is running.
\<close>

section \<open>State and errors\<close>

datatype database_worker_error = NoActiveProfile | WStorage storage_error | WPortable portable_data_error

record worker_state =
  ws_files :: "(string, profile_db) table"
  ws_active :: "string option"

definition profile_file :: "uuid \<Rightarrow> string" where
  "profile_file profile_id = ''profile-'' @ profile_id @ ''.sqlite3''"

definition is_profile_file :: "string \<Rightarrow> bool" where
  "is_profile_file name \<longleftrightarrow> take 8 name = ''profile-'' \<and> 8 \<le> length name
     \<and> drop (length name - 8) name = ''.sqlite3''"

text \<open>A database operation that either commits or leaves the file as it was.\<close>

definition tx :: "(profile_db \<Rightarrow> 'e + 'a \<times> profile_db) \<Rightarrow> profile_db \<Rightarrow> ('e + 'a) \<times> profile_db" where
  "tx f db = (case f db of Inl e \<Rightarrow> (Inl e, db) | Inr (x, db') \<Rightarrow> (Inr x, db'))"

definition reading :: "(profile_db \<Rightarrow> 'e + 'a) \<Rightarrow> profile_db \<Rightarrow> ('e + 'a) \<times> profile_db" where
  "reading f db = (f db, db)"

section \<open>Jobs\<close>

definition active_db :: "worker_state \<Rightarrow> profile_db option" where
  "active_db ws = (case ws_active ws of None \<Rightarrow> None | Some path \<Rightarrow> tbl_get (ws_files ws) path)"

definition execute ::
  "(profile_db \<Rightarrow> (storage_error + 'a) \<times> profile_db) \<Rightarrow> worker_state
    \<Rightarrow> (database_worker_error + 'a) \<times> worker_state" where
  "execute operation ws =
     (case ws_active ws of
        None \<Rightarrow> (Inl NoActiveProfile, ws)
      | Some path \<Rightarrow>
          (case tbl_get (ws_files ws) path of
             None \<Rightarrow> (Inl NoActiveProfile, ws)
           | Some db \<Rightarrow>
               (case operation db of
                  (r, db') \<Rightarrow> (map_err WStorage r, ws\<lparr>ws_files := tbl_put path db' (ws_files ws)\<rparr>))))"

text \<open>\<open>ProfileDatabase::open\<close> creates a missing file before it validates the identity in it.\<close>

definition switch_profile ::
  "profile_metadata \<Rightarrow> worker_state \<Rightarrow> (database_worker_error + string) \<times> worker_state" where
  "switch_profile m ws =
     (case validate_profile_metadata m of
        Inl e \<Rightarrow> (Inl (WStorage e), ws)
      | Inr _ \<Rightarrow>
          let path = profile_file (pm_profile_id m);
              db = (case tbl_get (ws_files ws) path of None \<Rightarrow> migrated_profile_db | Some db \<Rightarrow> db) in
          case upsert_or_validate_profile db m of
            Inl e \<Rightarrow> (Inl (WStorage e), ws\<lparr>ws_files := tbl_put path db (ws_files ws)\<rparr>)
          | Inr db' \<Rightarrow> (Inr path, ws\<lparr>ws_files := tbl_put path db' (ws_files ws), ws_active := Some path\<rparr>))"

definition active_profile_id :: "uuid_parser \<Rightarrow> worker_state \<Rightarrow> database_worker_error + uuid" where
  "active_profile_id up ws =
     rbind (fst (execute (reading (read_profile_metadata up)) ws)) (\<lambda>m. Inr (pm_profile_id m))"

fun find_user_profile ::
  "uuid_parser \<Rightarrow> uuid \<Rightarrow> (string \<times> profile_db) list \<Rightarrow> storage_error + profile_metadata option" where
  "find_user_profile up user_id [] = Inr None"
| "find_user_profile up user_id ((name, db) # rest) =
     (if \<not> is_profile_file name then find_user_profile up user_id rest
      else rbind (read_profile_metadata up db) (\<lambda>m.
        if pm_user_id m = Some user_id then Inr (Some m) else find_user_profile up user_id rest))"

definition find_profile_for_user ::
  "uuid_parser \<Rightarrow> uuid \<Rightarrow> worker_state \<Rightarrow> database_worker_error + profile_metadata option" where
  "find_profile_for_user up user_id ws = map_err WStorage (find_user_profile up user_id (ws_files ws))"

definition profile_database_paths :: "worker_state \<Rightarrow> string list" where
  "profile_database_paths ws = sort (filter is_profile_file (map fst (ws_files ws)))"

definition all_profile_metadata ::
  "uuid_parser \<Rightarrow> worker_state \<Rightarrow> database_worker_error + profile_metadata list" where
  "all_profile_metadata up ws =
     mapM (\<lambda>path. map_err WStorage (rbind (ok_or StSqlite (tbl_get (ws_files ws) path))
       (read_profile_metadata up))) (profile_database_paths ws)"

text \<open>\<open>replace_device_identity_at\<close>, on one file. Besides what it finds in the file, SQLite can fail for
  reasons of its own (the file is locked, the disk is full); \<open>writable\<close> says on which files it does not.
  The transaction then leaves the file as it was.\<close>

definition replace_at ::
  "(string \<Rightarrow> bool) \<Rightarrow> uuid \<Rightarrow> uuid \<Rightarrow> i64 \<Rightarrow> string \<Rightarrow> (string, profile_db) table
    \<Rightarrow> storage_error + (string, profile_db) table" where
  "replace_at writable expected_current replacement now path files =
     rbind (ok_or StSqlite (tbl_get files path)) (\<lambda>db.
     rbind (replace_device_identity db expected_current replacement now) (\<lambda>db'.
     if writable path then Inr (tbl_put path db' files) else Inl StSqlite))"

text \<open>A job writes a file at most once forward and once in its rollback, and either may fail.\<close>

record identity_writes =
  iw_forward :: "string \<Rightarrow> bool"
  iw_rollback :: "string \<Rightarrow> bool"

text \<open>The rollback goes on to the next file when one of its replacements fails, and drops the error.\<close>

definition rollback_identity ::
  "(string \<Rightarrow> bool) \<Rightarrow> uuid \<Rightarrow> uuid \<Rightarrow> i64 \<Rightarrow> string list \<Rightarrow> (string, profile_db) table \<Rightarrow> (string, profile_db) table" where
  "rollback_identity writable expected_current replacement now changed files =
     fold (\<lambda>path files. case replace_at writable replacement expected_current now path files of
             Inl _ \<Rightarrow> files | Inr files' \<Rightarrow> files') (rev changed) files"

fun replace_identities ::
  "identity_writes \<Rightarrow> uuid \<Rightarrow> uuid \<Rightarrow> i64 \<Rightarrow> string list \<Rightarrow> string list \<Rightarrow> (string, profile_db) table
    \<Rightarrow> (storage_error + unit) \<times> (string, profile_db) table" where
  "replace_identities io expected_current replacement now changed [] files = (Inr (), files)"
| "replace_identities io expected_current replacement now changed (path # paths) files =
     (case replace_at (iw_forward io) expected_current replacement now path files of
        Inl e \<Rightarrow> (Inl e, rollback_identity (iw_rollback io) expected_current replacement now changed files)
      | Inr files' \<Rightarrow>
          replace_identities io expected_current replacement now (changed @ [path]) paths files')"

definition replace_profile_device_identity ::
  "identity_writes \<Rightarrow> uuid \<Rightarrow> uuid \<Rightarrow> i64 \<Rightarrow> worker_state \<Rightarrow> (database_worker_error + unit) \<times> worker_state" where
  "replace_profile_device_identity io expected_current replacement now ws =
     (case replace_identities io expected_current replacement now [] (profile_database_paths ws) (ws_files ws) of
        (r, files) \<Rightarrow> (map_err WStorage r, ws\<lparr>ws_files := files\<rparr>))"

text \<open>\<open>update_account_identity\<close> and \<open>bind_user\<close>, each followed by a read of the metadata.\<close>

definition adopt_account ::
  "uuid_parser \<Rightarrow> uuid \<Rightarrow> string \<Rightarrow> string \<Rightarrow> i64 \<Rightarrow> profile_db
    \<Rightarrow> (storage_error + profile_metadata) \<times> profile_db" where
  "adopt_account up user_id username server_origin now db =
     (case update_account_identity up db user_id username server_origin now of
        Inl e \<Rightarrow> (Inl e, db)
      | Inr db' \<Rightarrow> (read_profile_metadata up db', db'))"

definition bind_unbound ::
  "uuid_parser \<Rightarrow> uuid \<Rightarrow> string \<Rightarrow> string \<Rightarrow> i64 \<Rightarrow> profile_db
    \<Rightarrow> (storage_error + profile_metadata) \<times> profile_db" where
  "bind_unbound up user_id username server_origin now db =
     (case is_unbound db of
        Inl e \<Rightarrow> (Inl e, db)
      | Inr unbound \<Rightarrow>
          if \<not> unbound
          then (Inl (InvalidData ''bound Profile cannot be rebound to another User''), db)
          else case bind_user db user_id username server_origin now of
            Inl e \<Rightarrow> (Inl e, db)
          | Inr db' \<Rightarrow> (read_profile_metadata up db', db'))"

definition resolve_account_profile ::
  "uuid_parser \<Rightarrow> uuid \<Rightarrow> string \<Rightarrow> string \<Rightarrow> i64 \<Rightarrow> worker_state
    \<Rightarrow> (database_worker_error + profile_metadata) \<times> worker_state" where
  "resolve_account_profile up user_id username server_origin now ws =
     (case find_profile_for_user up user_id ws of
        Inl e \<Rightarrow> (Inl e, ws)
      | Inr (Some existing) \<Rightarrow>
          (case switch_profile (existing\<lparr>pm_username := Some username,
                  pm_server_origin := Some server_origin, pm_updated_at := now\<rparr>) ws of
             (Inl e, ws1) \<Rightarrow> (Inl e, ws1)
           | (Inr _, ws1) \<Rightarrow> execute (adopt_account up user_id username server_origin now) ws1)
      | Inr None \<Rightarrow> execute (bind_unbound up user_id username server_origin now) ws)"

text \<open>The portable data jobs run on the active Profile.\<close>

definition worker_export_portable_json ::
  "portable_json \<Rightarrow> uuid_parser \<Rightarrow> string \<Rightarrow> worker_state \<Rightarrow> database_worker_error + byte list" where
  "worker_export_portable_json js up software_version ws =
     rbind (ok_or NoActiveProfile (active_db ws)) (\<lambda>db.
       map_err WPortable (export_portable_json js up software_version db))"

definition worker_preview_portable_import ::
  "portable_json \<Rightarrow> unicode_db \<Rightarrow> sha256 \<Rightarrow> uuid_parser \<Rightarrow> byte list \<Rightarrow> worker_state
    \<Rightarrow> database_worker_error + import_plan" where
  "worker_preview_portable_import js u sha up bytes ws =
     rbind (ok_or NoActiveProfile (active_db ws)) (\<lambda>db.
       map_err WPortable (preview_portable_import js u sha up bytes db))"

definition worker_apply_portable_import ::
  "uuid_parser \<Rightarrow> import_plan \<Rightarrow> i64 \<Rightarrow> (nat \<Rightarrow> uuid) \<Rightarrow> worker_state
    \<Rightarrow> (database_worker_error + import_preview) \<times> worker_state" where
  "worker_apply_portable_import up plan now ids ws =
     (case ws_active ws of
        None \<Rightarrow> (Inl NoActiveProfile, ws)
      | Some path \<Rightarrow>
          (case tbl_get (ws_files ws) path of
             None \<Rightarrow> (Inl NoActiveProfile, ws)
           | Some db \<Rightarrow>
               (case apply_portable_import up plan now ids db of
                  (r, db') \<Rightarrow> (map_err WPortable r, ws\<lparr>ws_files := tbl_put path db' (ws_files ws)\<rparr>))))"

section \<open>Accounts are kept apart\<close>

text \<open>The file a job works on, and what a user may find in it: data of nobody, or the user's own.\<close>

definition file_db :: "worker_state \<Rightarrow> string \<Rightarrow> profile_db" where
  "file_db ws path = (case tbl_get (ws_files ws) path of None \<Rightarrow> migrated_profile_db | Some db \<Rightarrow> db)"

definition owned_by :: "uuid_parser \<Rightarrow> uuid \<Rightarrow> profile_db \<Rightarrow> bool" where
  "owned_by up user db = (case profile_meta db of None \<Rightarrow> True
     | Some m \<Rightarrow> (case mt_user_id m of None \<Rightarrow> True | Some v \<Rightarrow> up v = Some user))"

lemma find_user_profile_owner:
  "find_user_profile up user files = Inr (Some m) \<Longrightarrow> pm_user_id m = Some user"
  by (induction up user files rule: find_user_profile.induct) (auto simp: rbind_Inr split: if_splits)

lemma execute_Inr:
  assumes "execute op ws = (Inr x, ws')"
  obtains path db db' where "ws_active ws = Some path" "tbl_get (ws_files ws) path = Some db"
    "op db = (Inr x, db')" "ws' = ws\<lparr>ws_files := tbl_put path db' (ws_files ws)\<rparr>"
  using assms by (auto simp: execute_def map_err_Inr split: option.splits prod.splits)

lemma switch_profile_Inr:
  assumes "switch_profile m ws = (Inr path, ws')"
  obtains db' where "upsert_or_validate_profile (file_db ws path) m = Inr db'"
    "path = profile_file (pm_profile_id m)"
    "ws' = ws\<lparr>ws_files := tbl_put path db' (ws_files ws), ws_active := Some path\<rparr>"
  using assms by (auto simp: switch_profile_def file_db_def Let_def split: sum.splits)

lemma read_metadata_user:
  assumes "read_profile_metadata up db = Inr m"
  shows "\<exists>row. profile_meta db = Some row \<and> pm_user_id m = (case mt_user_id row of None \<Rightarrow> None | Some v \<Rightarrow> up v)"
  using assms by (auto simp: read_profile_metadata_def rbind_Inr parse_uuid_def ok_or_Inr opt_transpose_def split: option.splits)

lemma upsert_profile_frame:
  "upsert_or_validate_profile db m = Inr db' \<Longrightarrow>
     db' = db \<or> profile_meta db = None \<and> db' = db\<lparr>profile_meta := profile_meta db'\<rparr>"
  by (auto simp: upsert_or_validate_profile_def rbind_Inr split: option.splits if_splits)

lemma adopt_account_Inr:
  assumes "adopt_account up user name origin now db = (Inr m, db')"
  shows "db' = db\<lparr>profile_meta := profile_meta db'\<rparr>" and "owned_by up user db"
    and "read_profile_metadata up db' = Inr m" and "pm_user_id m = Some user"
proof -
  from assms obtain m0 where m0: "read_profile_metadata up db = Inr m0" "pm_user_id m0 = Some user"
    and db': "db' = db\<lparr>profile_meta := map_option (\<lambda>m. m\<lparr>mt_username := Some name,
            mt_server_origin := Some origin, mt_updated_at := now\<rparr>) (profile_meta db)\<rparr>"
    and m: "read_profile_metadata up db' = Inr m"
    by (auto simp: adopt_account_def update_account_identity_def rbind_Inr split: sum.splits if_splits)
  obtain row where row: "profile_meta db = Some row"
    "Some user = (case mt_user_id row of None \<Rightarrow> None | Some v \<Rightarrow> up v)"
    using read_metadata_user [OF m0(1)] m0(2) by auto
  show "db' = db\<lparr>profile_meta := profile_meta db'\<rparr>" by (simp add: db')
  show "owned_by up user db" using row by (auto simp: owned_by_def split: option.splits)
  show "read_profile_metadata up db' = Inr m" by (fact m)
  show "pm_user_id m = Some user" using read_metadata_user [OF m] row by (auto simp: db')
qed

lemma bind_unbound_Inr:
  assumes "bind_unbound up user name origin now db = (Inr m, db')" and "up user = Some user"
  shows "db' = db\<lparr>profile_meta := profile_meta db'\<rparr>" and "owned_by up user db"
    and "read_profile_metadata up db' = Inr m" and "pm_user_id m = Some user"
proof -
  from assms(1) obtain row where row: "profile_meta db = Some row" "mt_user_id row = None"
    and db': "db' = db\<lparr>profile_meta := Some (row\<lparr>mt_user_id := Some user,
            mt_username := Some name, mt_server_origin := Some origin, mt_updated_at := now\<rparr>)\<rparr>"
    and m: "read_profile_metadata up db' = Inr m"
    by (auto simp: bind_unbound_def is_unbound_def bind_user_def split: option.splits if_splits)
  show "db' = db\<lparr>profile_meta := profile_meta db'\<rparr>" by (simp add: db')
  show "owned_by up user db" using row by (simp add: owned_by_def)
  show "read_profile_metadata up db' = Inr m" by (fact m)
  show "pm_user_id m = Some user" using read_metadata_user [OF m] assms(2) by (auto simp: db')
qed

text \<open>
  Signing in never opens the data of one account for another. When the worker resolves the
  Profile of a user, the active Profile is bound to that user, it was unbound or already the user's
  before, its history, favorites, statistics and Outbox are as they were, and no other Profile file
  changed.
\<close>

theorem account_profile_isolated:
  assumes "resolve_account_profile up user name origin now ws = (Inr m, ws')" and "up user = Some user"
  shows "\<exists>path db'. ws_active ws' = Some path \<and> tbl_get (ws_files ws') path = Some db'
     \<and> read_profile_metadata up db' = Inr m \<and> pm_user_id m = Some user
     \<and> owned_by up user (file_db ws path) \<and> db' = (file_db ws path)\<lparr>profile_meta := profile_meta db'\<rparr>
     \<and> (\<forall>other. other \<noteq> path \<longrightarrow> tbl_get (ws_files ws') other = tbl_get (ws_files ws) other)"
proof -
  from assms(1) obtain existing ws1 where
    "find_profile_for_user up user ws = Inr None \<and> execute (bind_unbound up user name origin now) ws = (Inr m, ws')
     \<or> (\<exists>x p. switch_profile x ws = (Inr p, ws1) \<and> execute (adopt_account up user name origin now) ws1 = (Inr m, ws'))"
    by (auto simp: resolve_account_profile_def split: sum.splits option.splits prod.splits)
  then show ?thesis
  proof (elim disjE exE conjE)
    assume "execute (bind_unbound up user name origin now) ws = (Inr m, ws')"
    then show ?thesis
    proof (rule execute_Inr)
      fix path db db'
      assume *: "ws_active ws = Some path" "tbl_get (ws_files ws) path = Some db"
        "bind_unbound up user name origin now db = (Inr m, db')"
        "ws' = ws\<lparr>ws_files := tbl_put path db' (ws_files ws)\<rparr>"
      then show ?thesis using bind_unbound_Inr [OF *(3) assms(2)] by (auto simp: file_db_def)
    qed
  next
    fix x p
    assume sw: "switch_profile x ws = (Inr p, ws1)"
      and ex: "execute (adopt_account up user name origin now) ws1 = (Inr m, ws')"
    from sw obtain db1 where db1: "upsert_or_validate_profile (file_db ws p) x = Inr db1"
      and ws1: "ws1 = ws\<lparr>ws_files := tbl_put p db1 (ws_files ws), ws_active := Some p\<rparr>"
      by (rule switch_profile_Inr)
    from ex obtain db' where ad: "adopt_account up user name origin now db1 = (Inr m, db')"
      and ws': "ws' = ws1\<lparr>ws_files := tbl_put p db' (ws_files ws1)\<rparr>"
      by (rule execute_Inr) (simp add: ws1)
    note adopt = adopt_account_Inr [OF ad]
    have "db' = (file_db ws p)\<lparr>profile_meta := profile_meta db'\<rparr> \<and> owned_by up user (file_db ws p)"
      using upsert_profile_frame [OF db1]
    proof (elim disjE conjE)
      assume "db1 = file_db ws p"
      with adopt(1,2) show ?thesis by simp
    next
      assume "profile_meta (file_db ws p) = None" "db1 = (file_db ws p)\<lparr>profile_meta := profile_meta db1\<rparr>"
      moreover from this(2) adopt(1) have "db' = (file_db ws p)\<lparr>profile_meta := profile_meta db'\<rparr>"
        by (metis profile_db.fold_congs(1) profile_db.update_convs(1) profile_db.surjective)
      ultimately show ?thesis by (simp add: owned_by_def)
    qed
    with adopt show ?thesis by (auto simp: ws' ws1)
  qed
qed
section \<open>A new Device identity reaches every Profile or none\<close>

text \<open>A replacement changes the identity, the coalesce keys of query events and the local counters.\<close>

definition identity_swapped :: "uuid \<Rightarrow> uuid \<Rightarrow> profile_db \<Rightarrow> profile_db \<Rightarrow> bool" where
  "identity_swapped old new db db' \<longleftrightarrow>
     map_option mt_device_id (profile_meta db) = Some old
   \<and> map_option mt_device_id (profile_meta db') = Some new
   \<and> history_entries db' = history_entries db \<and> favorites db' = favorites db
   \<and> map ob_event_id (sync_outbox db') = map ob_event_id (sync_outbox db)"

definition reversible :: "uuid \<Rightarrow> profile_db \<Rightarrow> bool" where
  "reversible dev db \<longleftrightarrow> profile_inv db \<and> map_option mt_device_id (profile_meta db) = Some dev
     \<and> (\<forall>k r. (k, r) \<in> set (stats_table db) \<longrightarrow> sr_last_synced_device_query_count r = 0)"

lemma replace_swapped:
  assumes "replace_device_identity db old new now = Inr db'"
  shows "identity_swapped old new db db'" and "old \<noteq> nil_uuid" and "new \<noteq> nil_uuid" and "old \<noteq> new"
proof -
  show "old \<noteq> nil_uuid" "new \<noteq> nil_uuid" "old \<noteq> new"
    using assms by (auto simp: replace_device_identity_def split: if_splits)
  show "identity_swapped old new db db'"
    using assms unfolding replace_device_identity_def identity_swapped_def Let_def
    by (simp split: if_splits option.splits) (auto simp: o_def if_distrib [of ob_event_id] cong: if_cong)
qed

lemma replace_reversible:
  assumes "profile_inv db" and "replace_device_identity db old new now = Inr db'"
  shows "reversible new db'"
proof -
  have "profile_inv db'" by (rule replace_device_identity_inv [OF assms])
  moreover have "\<forall>k r. (k, r) \<in> set (stats_table db') \<longrightarrow> sr_last_synced_device_query_count r = 0"
    using assms(2) by (auto simp: replace_device_identity_def Let_def tbl_update_all_def split: if_splits option.splits)
  ultimately show ?thesis
    using replace_swapped(1) [OF assms(2)] by (simp add: reversible_def identity_swapped_def)
qed

text \<open>Re-keying the query events of one Device to another keeps the keys apart.\<close>

lemma rekeyed_distinct:
  assumes "outbox_inv dev favs rows"
  shows "distinct (map ob_coalesce_key (map (\<lambda>r. if ob_operation r = ''query_stats_upsert''
      then r\<lparr>ob_coalesce_key := Some (''query_stats:'' @ new @ '':'' @ ob_content_key r), ob_updated_at := now\<rparr>
      else r) rows))"
proof -
  let ?f = "\<lambda>r. ob_coalesce_key (if ob_operation r = ''query_stats_upsert''
      then r\<lparr>ob_coalesce_key := Some (''query_stats:'' @ new @ '':'' @ ob_content_key r), ob_updated_at := now\<rparr> else r)"
  define f :: "outbox_row \<Rightarrow> string option" where "f = ?f"
  have key: "\<exists>k. f r = Some (favorite_coalesce_key k) \<and> ob_coalesce_key r = Some (favorite_coalesce_key k)
      \<or> f r = Some (query_stats_coalesce_key k new) \<and> ob_coalesce_key r = Some (query_stats_coalesce_key k dev)"
    if "intent_ok dev favs r" for r
    using that unfolding f_def intent_ok_def query_stats_coalesce_key_def by (elim exE disjE conjE) auto
  have "ob_coalesce_key r = ob_coalesce_key r'" if "r \<in> set rows" "r' \<in> set rows" "f r = f r'" for r r'
  proof -
    have ok: "intent_ok dev favs r" "intent_ok dev favs r'" using assms that by (auto simp: outbox_inv_def)
    from key [OF ok(1)] key [OF ok(2)] show ?thesis
      using that(3) by (elim exE disjE conjE) simp_all
  qed
  moreover have "inj_on ob_coalesce_key (set rows)" and "distinct rows"
    using assms by (auto simp: outbox_inv_def distinct_map)
  ultimately have "inj_on f (set rows)" unfolding inj_on_def by blast
  with \<open>distinct rows\<close> have "distinct (map f rows)" by (simp add: distinct_map)
  moreover have "map f rows = map ob_coalesce_key (map (\<lambda>r. if ob_operation r = ''query_stats_upsert''
      then r\<lparr>ob_coalesce_key := Some (''query_stats:'' @ new @ '':'' @ ob_content_key r), ob_updated_at := now\<rparr>
      else r) rows)"
    unfolding f_def map_map o_def ..
  ultimately show ?thesis by (simp only:)
qed

lemma replace_back:
  assumes "reversible new db" and "old \<noteq> nil_uuid" and "new \<noteq> nil_uuid" and "old \<noteq> new"
  shows "\<exists>db'. replace_device_identity db new old now = Inr db'"
proof -
  from assms(1) obtain m where m: "profile_meta db = Some m" "mt_device_id m = new"
    and out: "outbox_inv new (favorites db) (sync_outbox db)" and t: "tables_inv db"
    and z: "\<And>k r. (k, r) \<in> set (stats_table db) \<Longrightarrow> sr_last_synced_device_query_count r = 0"
    by (auto simp: reversible_def profile_inv_def)
  have "0 \<le> sr_device_query_count r" if "(k, r) \<in> set (stats_table db)" for k r
    using that t by (simp add: tbl_get_in_set tables_inv_def stats_row_ok_def)
  then have "\<not> list_ex (\<lambda>(k, r). sr_device_query_count r < 0) (tbl_update_all (\<lambda>k r. r\<lparr>sr_device_query_count :=
                     sr_device_query_count r - sr_last_synced_device_query_count r,
                   sr_last_synced_device_query_count := 0\<rparr>) (stats_table db))"
    using z by (auto simp: list_ex_iff tbl_update_all_def) (metis diff_zero not_less)
  moreover note distinct_filter [OF rekeyed_distinct [OF out, where new = old and now = now], of "\<lambda>k. k \<noteq> None"]
  ultimately show ?thesis
    using m assms(2-4) unfolding replace_device_identity_def Let_def by simp
qed

lemma replace_at_Inr:
  assumes "replace_at w old new now p files = Inr files'"
  obtains db db' where "tbl_get files p = Some db" "replace_device_identity db old new now = Inr db'"
    "files' = tbl_put p db' files" "w p"
  using assms by (auto simp: replace_at_def rbind_Inr ok_or_Inr split: if_splits)

lemma replace_at_other: "replace_at w old new now p files = Inr files' \<Longrightarrow> q \<noteq> p \<Longrightarrow> tbl_get files' q = tbl_get files q"
  by (auto elim!: replace_at_Inr)

text \<open>Undoing the replacement in one file: it works if SQLite lets it, and else changes nothing.\<close>

lemma replace_at_back:
  assumes "tbl_get files p = Some db" "reversible new db" and "old \<noteq> nil_uuid" "new \<noteq> nil_uuid" "old \<noteq> new"
  shows "w p \<Longrightarrow> \<exists>db'. replace_at w new old now p files = Inr (tbl_put p db' files) \<and> identity_swapped new old db db'"
    and "\<not> w p \<Longrightarrow> replace_at w new old now p files = Inl StSqlite"
proof -
  obtain db' where db': "replace_device_identity db new old now = Inr db'"
    using replace_back [OF assms(2-5)] by blast
  then show "w p \<Longrightarrow> \<exists>db'. replace_at w new old now p files = Inr (tbl_put p db' files) \<and> identity_swapped new old db db'"
    using assms(1) replace_swapped(1) [OF db'] by (auto simp: replace_at_def)
  show "\<not> w p \<Longrightarrow> replace_at w new old now p files = Inl StSqlite" using assms(1) db' by (simp add: replace_at_def)
qed

definition undo_all :: "(string \<Rightarrow> bool) \<Rightarrow> uuid \<Rightarrow> uuid \<Rightarrow> i64 \<Rightarrow> string list \<Rightarrow> (string, profile_db) table \<Rightarrow> (string, profile_db) table" where
  "undo_all w old new now ps files = fold (\<lambda>path files. case replace_at w new old now path files of
             Inl _ \<Rightarrow> files | Inr files' \<Rightarrow> files') ps files"

lemma undo_all_Cons:
  "undo_all w old new now (p # ps) files = undo_all w old new now ps
     (case replace_at w new old now p files of Inl _ \<Rightarrow> files | Inr files' \<Rightarrow> files')"
  by (simp add: undo_all_def)

lemma undo_all_other: "p \<notin> set ps \<Longrightarrow> tbl_get (undo_all w old new now ps files) p = tbl_get files p"
proof (induction ps arbitrary: files)
  case (Cons q ps)
  then show ?case
    by (cases "replace_at w new old now q files") (auto simp: undo_all_Cons replace_at_other)
qed (simp add: undo_all_def)

lemma undo_all_restores:
  assumes "distinct ps" and "old \<noteq> nil_uuid" "new \<noteq> nil_uuid" "old \<noteq> new"
    and "p \<in> set ps" "tbl_get files p = Some db" "reversible new db"
  shows "if w p then \<exists>db'. tbl_get (undo_all w old new now ps files) p = Some db' \<and> identity_swapped new old db db'
     else tbl_get (undo_all w old new now ps files) p = Some db"
  using assms(1,5,6)
proof (induction ps arbitrary: files)
  case (Cons q ps)
  show ?case
  proof (cases "p = q")
    case True
    then have "q \<notin> set ps" using Cons.prems(1) by simp
    note same = undo_all_other [OF this]
    from replace_at_back [OF Cons.prems(3) assms(7,2-4), of w now] show ?thesis
      using True Cons.prems(3) by (cases "w p") (auto simp: undo_all_Cons same)
  next
    case False
    let ?files = "case replace_at w new old now q files of Inl _ \<Rightarrow> files | Inr files' \<Rightarrow> files'"
    have "tbl_get ?files p = Some db"
      using Cons.prems(3) False by (auto simp: replace_at_other split: sum.splits)
    from Cons.IH [OF _ _ this] Cons.prems(1,2) False show ?thesis by (simp add: undo_all_Cons)
  qed
qed simp

definition identity_kept :: "profile_db \<Rightarrow> profile_db \<Rightarrow> bool" where
  "identity_kept db db' \<longleftrightarrow>
     map_option mt_device_id (profile_meta db') = map_option mt_device_id (profile_meta db)
   \<and> history_entries db' = history_entries db \<and> favorites db' = favorites db
   \<and> map ob_event_id (sync_outbox db') = map ob_event_id (sync_outbox db)"

text \<open>A Profile after a replacement that was taken back: as before, or, where the write that takes it back
  may have failed, still with the new identity.\<close>

definition identity_undone :: "bool \<Rightarrow> uuid \<Rightarrow> uuid \<Rightarrow> profile_db \<Rightarrow> profile_db \<Rightarrow> bool" where
  "identity_undone undo old new db db' \<longleftrightarrow> identity_kept db db' \<or> \<not> undo \<and> identity_swapped old new db db'"

lemma swapped_back: "identity_swapped old new db db' \<Longrightarrow> identity_swapped new old db' db'' \<Longrightarrow> identity_kept db db''"
  by (auto simp: identity_swapped_def identity_kept_def)

lemma swapped_kept: "identity_swapped old new db db' \<Longrightarrow> identity_kept db' db'' \<Longrightarrow> identity_swapped old new db db''"
  by (auto simp: identity_swapped_def identity_kept_def)

lemma identity_kept_refl: "rel_option identity_kept x x"
  by (cases x) (simp_all add: identity_kept_def)

lemma identity_undone_refl: "rel_option (identity_undone u old new) x x"
  by (cases x) (simp_all add: identity_kept_def identity_undone_def)

lemma replace_identities_result:
  assumes "replace_identities io old new now changed paths files = (r, files')" and "distinct (changed @ paths)"
    and "\<And>p. p \<in> set changed \<Longrightarrow> \<exists>db0 db. tbl_get files0 p = Some db0 \<and> tbl_get files p = Some db
           \<and> identity_swapped old new db0 db \<and> reversible new db \<and> old \<noteq> nil_uuid \<and> new \<noteq> nil_uuid \<and> old \<noteq> new"
    and "\<And>p. p \<notin> set changed \<Longrightarrow> tbl_get files p = tbl_get files0 p"
    and "\<And>p db. p \<in> set paths \<Longrightarrow> tbl_get files0 p = Some db \<Longrightarrow> profile_inv db"
  shows "(\<forall>p. p \<notin> set (changed @ paths) \<longrightarrow> tbl_get files' p = tbl_get files0 p)
     \<and> (case r of
          Inr _ \<Rightarrow> \<forall>p \<in> set (changed @ paths). \<exists>db db'. tbl_get files0 p = Some db
            \<and> tbl_get files' p = Some db' \<and> identity_swapped old new db db'
        | Inl _ \<Rightarrow> \<forall>p. rel_option (identity_undone (iw_rollback io p) old new) (tbl_get files0 p) (tbl_get files' p))"
  using assms
proof (induction paths arbitrary: changed files)
  case Nil
  then show ?case by fastforce
next
  case (Cons p ps)
  show ?case
  proof (cases "replace_at (iw_forward io) old new now p files")
    case (Inl e)
    then have r: "r = Inl e" and files': "files' = undo_all (iw_rollback io) old new now (rev changed) files"
      using Cons.prems(1) by (simp_all add: rollback_identity_def undo_all_def)
    have other: "tbl_get files' x = tbl_get files0 x" if "x \<notin> set changed" for x
      using that Cons.prems(4) [OF that] by (simp add: files' undo_all_other)
    have "rel_option (identity_undone (iw_rollback io x) old new) (tbl_get files0 x) (tbl_get files' x)" for x
    proof (cases "x \<in> set changed")
      case True
      from Cons.prems(3) [OF True] obtain db0 db where x: "tbl_get files0 x = Some db0" "tbl_get files x = Some db"
        "identity_swapped old new db0 db" "reversible new db" "old \<noteq> nil_uuid" "new \<noteq> nil_uuid" "old \<noteq> new" by blast
      have "distinct (rev changed)" "x \<in> set (rev changed)" using Cons.prems(2) True by simp_all
      from undo_all_restores [OF this(1) x(5-7) this(2) x(2,4), of "iw_rollback io" now] x(1,3) show ?thesis
        by (auto simp: files' identity_undone_def intro: swapped_back split: if_splits)
    next
      case False
      then show ?thesis using other by (simp add: identity_undone_refl)
    qed
    then show ?thesis using other by (simp add: r)
  next
    case (Inr files1)
    then obtain db db' where db: "tbl_get files p = Some db" "replace_device_identity db old new now = Inr db'"
      and files1: "files1 = tbl_put p db' files" by (rule replace_at_Inr)
    have p: "p \<notin> set changed" using Cons.prems(2) by simp
    have db0: "tbl_get files0 p = Some db" using Cons.prems(4) [OF p] db(1) by simp
    have inv: "profile_inv db" using Cons.prems(5) [OF _ db0] by simp
    note repl = replace_swapped [OF db(2)] replace_reversible [OF inv db(2)]
    have "replace_identities io old new now (changed @ [p]) ps files1 = (r, files')"
      using Cons.prems(1) Inr by simp
    then have "(\<forall>x. x \<notin> set ((changed @ [p]) @ ps) \<longrightarrow> tbl_get files' x = tbl_get files0 x)
     \<and> (case r of
          Inr _ \<Rightarrow> \<forall>x \<in> set ((changed @ [p]) @ ps). \<exists>db db'. tbl_get files0 x = Some db
            \<and> tbl_get files' x = Some db' \<and> identity_swapped old new db db'
        | Inl _ \<Rightarrow> \<forall>x. rel_option (identity_undone (iw_rollback io x) old new) (tbl_get files0 x) (tbl_get files' x))"
    proof (rule Cons.IH)
      show "distinct ((changed @ [p]) @ ps)" using Cons.prems(2) by simp
      show "\<exists>db0 db. tbl_get files0 x = Some db0 \<and> tbl_get files1 x = Some db \<and> identity_swapped old new db0 db
          \<and> reversible new db \<and> old \<noteq> nil_uuid \<and> new \<noteq> nil_uuid \<and> old \<noteq> new" if "x \<in> set (changed @ [p])" for x
        using that Cons.prems(3) [of x] p db0 repl by (cases "x = p") (auto simp: files1)
      show "tbl_get files1 x = tbl_get files0 x" if "x \<notin> set (changed @ [p])" for x
        using that Cons.prems(4) [of x] by (simp add: files1)
      show "profile_inv d" if "x \<in> set ps" "tbl_get files0 x = Some d" for x d
        using that Cons.prems(5) [of x d] by simp
    qed
    then show ?thesis by (cases r) simp_all
  qed
qed

text \<open>
  A new Device identity reaches every Profile of the installation, or it is taken back. When the worker
  reports success, every Profile file carries the new identity; when it reports an error, every Profile
  carries the identity it had, unless the write that takes the new one back failed too. Either way
  history, favorites and the pending events are the ones from before.
\<close>

theorem device_identity_all_or_none:
  assumes "replace_profile_device_identity io old new now ws = (r, ws')" and "tbl_wf (ws_files ws)"
    and "\<And>p db. tbl_get (ws_files ws) p = Some db \<Longrightarrow> profile_inv db"
  shows "ws_active ws' = ws_active ws
     \<and> (case r of
          Inr _ \<Rightarrow> \<forall>p. is_profile_file p \<and> tbl_has (ws_files ws) p \<longrightarrow>
            (\<exists>db db'. tbl_get (ws_files ws) p = Some db \<and> tbl_get (ws_files ws') p = Some db'
               \<and> identity_swapped old new db db')
        | Inl _ \<Rightarrow> \<forall>p. rel_option (identity_undone (iw_rollback io p) old new)
            (tbl_get (ws_files ws) p) (tbl_get (ws_files ws') p))"
proof -
  from assms(1) obtain r0 files' where
    run: "replace_identities io old new now [] (profile_database_paths ws) (ws_files ws) = (r0, files')"
    and r: "r = map_err WStorage r0" and ws': "ws' = ws\<lparr>ws_files := files'\<rparr>"
    by (auto simp: replace_profile_device_identity_def split: prod.splits)
  have paths: "p \<in> set (profile_database_paths ws) \<longleftrightarrow> is_profile_file p \<and> tbl_has (ws_files ws) p" for p
    by (auto simp: profile_database_paths_def tbl_has_def map_of_eq_None_iff)
  have "distinct ([] @ profile_database_paths ws)"
    using assms(2) by (simp add: profile_database_paths_def tbl_wf_def)
  from replace_identities_result [OF run this, of "ws_files ws"] assms(3)
  show ?thesis by (cases r0) (auto simp: r ws' paths)
qed

text \<open>The counters are not restored: a Profile that was changed and rolled back keeps only the queries
  that the Server had not yet seen.\<close>

lemma rollback_drops_synced_counts:
  assumes "replace_device_identity db old new now = Inr db1" and "replace_device_identity db1 new old now = Inr db2"
    and "tbl_get (stats_table db) k = Some r"
  shows "tbl_get (stats_table db2) k = Some (r\<lparr>sr_device_query_count :=
      sr_device_query_count r - sr_last_synced_device_query_count r, sr_last_synced_device_query_count := 0\<rparr>)"
proof -
  have step: "tbl_get (stats_table d') k = map_option (\<lambda>r. r\<lparr>sr_device_query_count :=
      sr_device_query_count r - sr_last_synced_device_query_count r, sr_last_synced_device_query_count := 0\<rparr>)
      (tbl_get (stats_table d) k)" if "replace_device_identity d a b now = Inr d'" for d d' a b
    using that unfolding replace_device_identity_def Let_def by (simp split: if_splits option.splits) auto
  show ?thesis using step [OF assms(2)] step [OF assms(1)] assms(3) by simp
qed

section \<open>An example installation\<close>

definition example_other :: profile_db where
  "example_other = migrated_profile_db\<lparr>profile_meta :=
     Some (example_meta\<lparr>mt_profile_id := ''p2'', mt_device_id := ''d2''\<rparr>)\<rparr>"

definition example_install :: worker_state where
  "example_install = \<lparr>ws_files = [(''profile-p1.sqlite3'', example_fresh), (''profile-p2.sqlite3'', example_other)],
     ws_active = Some ''profile-p1.sqlite3''\<rparr>"

lemma example_other_inv: "profile_inv example_other"
proof -
  have "open_profile migrated_profile_db (example_metadata\<lparr>pm_profile_id := ''p2'', pm_device_id := ''d2''\<rparr>)
      = Inr example_other"
    by (simp add: open_profile_def validate_profile_metadata_def upsert_or_validate_profile_def example_metadata_def
      example_other_def example_meta_def nil_uuid_def migrated_profile_db_def sqlite_i64_def i64_of_u64_def i64_max_def)
  then show ?thesis by (intro open_profile_inv [of migrated_profile_db]) simp_all
qed

lemma example_paths: "sort (filter is_profile_file [''profile-p1.sqlite3'', ''profile-p2.sqlite3''])
    = [''profile-p1.sqlite3'', ''profile-p2.sqlite3'']"
  by code_simp

definition all_writes :: identity_writes where
  "all_writes = \<lparr>iw_forward = (\<lambda>_. True), iw_rollback = (\<lambda>_. True)\<rparr>"

lemma example_replacement_fails: "\<exists>ws'. replace_profile_device_identity all_writes ''d1'' ''d3'' 9 example_install
    = (Inl (WStorage (InvalidData ''Profile Device identity does not match'')), ws')"
  by (simp add: replace_profile_device_identity_def profile_database_paths_def example_install_def
    is_profile_file_def example_paths [unfolded is_profile_file_def, simplified] replace_at_def tbl_get_def tbl_put_def replace_device_identity_def all_writes_def example_fresh_def example_other_def
    example_meta_def nil_uuid_def migrated_profile_db_def tbl_update_all_def)

theorem device_identity_all_or_none_witness:
  "\<exists>e ws'. replace_profile_device_identity all_writes ''d1'' ''d3'' 9 example_install = (Inl e, ws')
     \<and> rel_option identity_kept (Some example_fresh) (tbl_get (ws_files ws') ''profile-p1.sqlite3'')"
proof -
  obtain ws' where run: "replace_profile_device_identity all_writes ''d1'' ''d3'' 9 example_install
    = (Inl (WStorage (InvalidData ''Profile Device identity does not match'')), ws')"
    using example_replacement_fails by blast
  have wf: "tbl_wf (ws_files example_install)" by (simp add: example_install_def tbl_wf_def)
  have inv: "profile_inv db" if "tbl_get (ws_files example_install) p = Some db" for p db
    using that example_fresh_inv example_other_inv by (auto simp: example_install_def tbl_get_def split: if_splits)
  have "identity_undone (iw_rollback all_writes p) ''d1'' ''d3'' = identity_kept" for p
    by (auto simp: identity_undone_def all_writes_def fun_eq_iff)
  then have "\<forall>p. rel_option identity_kept (tbl_get (ws_files example_install) p) (tbl_get (ws_files ws') p)"
    using device_identity_all_or_none [OF run wf inv] by simp
  from spec [OF this, of "''profile-p1.sqlite3''"]
  have "rel_option identity_kept (Some example_fresh) (tbl_get (ws_files ws') ''profile-p1.sqlite3'')"
    by (simp add: example_install_def tbl_get_def)
  with run show ?thesis by blast
qed

lemma example_bound: "\<exists>m ws'. resolve_account_profile Some ''u1'' ''name'' ''https://server'' 9 example_install = (Inr m, ws')"
  by (simp add: resolve_account_profile_def find_profile_for_user_def example_install_def is_profile_file_def
    read_profile_metadata_def example_fresh_def example_other_def example_meta_def parse_uuid_def sqlite_u64_def
    u64_of_i64_def execute_def bind_unbound_def is_unbound_def bind_user_def nil_uuid_def tbl_get_def
    migrated_profile_db_def opt_transpose_def)

theorem account_profile_isolated_witness:
  "\<exists>m ws' path. resolve_account_profile Some ''u1'' ''name'' ''https://server'' 9 example_install = (Inr m, ws')
     \<and> ws_active ws' = Some path \<and> pm_user_id m = Some ''u1'' \<and> owned_by Some ''u1'' (file_db example_install path)"
  using example_bound account_profile_isolated [of Some "''u1''" "''name''" "''https://server''" 9 example_install]
  by blast

end
