(* ===== verification/Sync_Transport.thy ===== *)
theory Sync_Transport
  imports Sync_Protocol Core_Content Utf8_Text
begin

text \<open>
  \<open>apps/desktop/src/sync_transport.rs\<close>: how the Desktop reads the Server's answers. A response is its
  status, its declared length and the chunks of its body; the JSON decoders of serde are arguments.
  The classification of errors, the bounded body reader, the validation of token responses and the
  parser of the revision stream are modelled; sending the request is not.
\<close>

section \<open>Values\<close>

record login_identity =
  li_user_id :: string
  li_username :: string
  li_device_id :: string
  li_platform :: string
  li_access_token :: string
  li_access_expires_at :: i64
  li_refresh_token :: string
  li_latest_revision :: u64

record refreshed_tokens =
  rt_user_id :: string
  rt_username :: string
  rt_device_id :: string
  rt_platform :: string
  rt_access_token :: string
  rt_access_expires_at :: i64
  rt_refresh_token :: string

record login_credentials =
  lc_username :: string
  lc_password :: string
  lc_device_id :: string
  lc_platform :: string
  lc_device_name :: "string option"

record remote_device =
  rd_device_id :: string
  rd_platform :: string
  rd_device_name :: "string option"
  rd_created_at :: i64
  rd_last_seen_at :: i64
  rd_revoked_at :: "i64 option"

record favorite_conflict =
  fc_event_id :: "string option"
  fc_current :: "favorite_record option"
  fc_latest_revision :: u64

datatype transport_error =
  Offline | TAccessExpired | TSessionInvalid | TDeviceRevoked | TConflict favorite_conflict
  | Rejected | InvalidResponse | IncompatibleServer

datatype revision_stream_event = StreamConnected | StreamRevision u64

section \<open>Responses\<close>

text \<open>\<open>Inl ()\<close> in the chunks is a connection that broke.\<close>

record http_response =
  hp_status :: nat
  hp_content_length :: "u64 option"
  hp_chunks :: "(unit + byte list) list"

definition is_success :: "nat \<Rightarrow> bool" where
  "is_success status = (200 \<le> status \<and> status < 300)"

definition is_server_error :: "nat \<Rightarrow> bool" where
  "is_server_error status = (500 \<le> status \<and> status < 600)"

fun read_chunks :: "nat \<Rightarrow> byte list \<Rightarrow> (unit + byte list) list \<Rightarrow> transport_error + byte list" where
  "read_chunks limit body [] = Inr body"
| "read_chunks limit body (Inl _ # rest) = Inl Offline"
| "read_chunks limit body (Inr chunk # rest) =
     (if length body + length chunk > limit then Inl InvalidResponse
      else read_chunks limit (body @ chunk) rest)"

definition bounded_response_body :: "http_response \<Rightarrow> nat \<Rightarrow> transport_error + byte list" where
  "bounded_response_body response limit =
     (if (case hp_content_length response of None \<Rightarrow> False | Some n \<Rightarrow> n > limit)
      then Inl InvalidResponse
      else read_chunks limit [] (hp_chunks response))"

definition max_error_body_bytes :: nat where
  "max_error_body_bytes = 65536"

definition max_json_body_bytes :: nat where
  "max_json_body_bytes = 8 * 1024 * 1024"

text \<open>\<open>decode_error\<close> is the code of an error envelope, \<open>decode_conflict\<close> the body of a conflict.\<close>

definition response_error ::
  "(byte list \<Rightarrow> string option) \<Rightarrow> (byte list \<Rightarrow> favorite_conflict option) \<Rightarrow> http_response
    \<Rightarrow> transport_error" where
  "response_error decode_error decode_conflict response =
     (if (case hp_content_length response of None \<Rightarrow> False | Some n \<Rightarrow> n > max_error_body_bytes)
      then InvalidResponse
      else case bounded_response_body response max_error_body_bytes of
        Inl e \<Rightarrow> e
      | Inr body \<Rightarrow>
          let status = hp_status response; code = decode_error body in
          if status = 401 \<and> code = Some ''access_token_expired'' then TAccessExpired
          else if status = 401 \<and> code = Some ''device_revoked'' then TDeviceRevoked
          else if status = 401 \<or> status = 403 then TSessionInvalid
          else if status = 409 \<and> code = Some ''favorite_conflict'' then
            (case decode_conflict body of None \<Rightarrow> InvalidResponse | Some c \<Rightarrow> TConflict c)
          else if is_server_error status \<or> status = 429 then Offline
          else Rejected)"

definition json_response ::
  "(byte list \<Rightarrow> string option) \<Rightarrow> (byte list \<Rightarrow> favorite_conflict option) \<Rightarrow> (byte list \<Rightarrow> 'a option)
    \<Rightarrow> http_response \<Rightarrow> transport_error + 'a" where
  "json_response decode_error decode_conflict decode response =
     (if is_success (hp_status response) then
        rbind (bounded_response_body response max_json_body_bytes) (\<lambda>body.
          ok_or InvalidResponse (decode body))
      else Inl (response_error decode_error decode_conflict response))"

definition empty_response ::
  "(byte list \<Rightarrow> string option) \<Rightarrow> (byte list \<Rightarrow> favorite_conflict option) \<Rightarrow> http_response
    \<Rightarrow> transport_error + unit" where
  "empty_response decode_error decode_conflict response =
     (if is_success (hp_status response) then Inr ()
      else Inl (response_error decode_error decode_conflict response))"

section \<open>Token and device responses\<close>

definition valid_session_token :: "string \<Rightarrow> bool" where
  "valid_session_token v = (v \<noteq> [] \<and> length v \<le> 4096)"

definition tokens_validate :: "(string \<Rightarrow> bool) \<Rightarrow> login_identity \<Rightarrow> transport_error + unit" where
  "tokens_validate is_uuid t =
     (if \<not> is_uuid (li_user_id t) \<or> \<not> is_uuid (li_device_id t)
         \<or> li_username t = [] \<or> length (li_username t) > 128
         \<or> \<not> (li_platform t = ''windows'' \<or> li_platform t = ''macos'')
         \<or> \<not> valid_session_token (li_access_token t) \<or> \<not> valid_session_token (li_refresh_token t)
         \<or> li_access_expires_at t \<le> 0
      then Inl InvalidResponse else Inr ())"

definition into_refreshed_tokens :: "login_identity \<Rightarrow> refreshed_tokens" where
  "into_refreshed_tokens t =
     \<lparr>rt_user_id = li_user_id t, rt_username = li_username t, rt_device_id = li_device_id t,
      rt_platform = li_platform t, rt_access_token = li_access_token t,
      rt_access_expires_at = li_access_expires_at t, rt_refresh_token = li_refresh_token t\<rparr>"

definition devices_validate :: "(string \<Rightarrow> bool) \<Rightarrow> remote_device list \<Rightarrow> transport_error + remote_device list" where
  "devices_validate is_uuid ds =
     (if list_ex (\<lambda>d. \<not> is_uuid (rd_device_id d)
            \<or> \<not> (rd_platform d = ''windows'' \<or> rd_platform d = ''macos'')
            \<or> (case rd_device_name d of None \<Rightarrow> False | Some name \<Rightarrow> length name > 128)) ds
      then Inl InvalidResponse else Inr ds)"

section \<open>The revision stream\<close>

text \<open>\<open>str::find\<close> of a pattern: the first index it starts at.\<close>

fun find_sub :: "'a list \<Rightarrow> 'a list \<Rightarrow> nat option" where
  "find_sub p [] = (if p = [] then Some 0 else None)"
| "find_sub p (x # xs) =
     (if take (length p) (x # xs) = p then Some 0 else map_option Suc (find_sub p xs))"

definition crlf2 :: utext where
  "crlf2 = [13, 10, 13, 10]"

definition lf2 :: utext where
  "lf2 = [10, 10]"

definition sse_boundary :: "utext \<Rightarrow> nat option" where
  "sse_boundary buffer =
     (case (find_sub crlf2 buffer, find_sub lf2 buffer) of
        (Some a, Some b) \<Rightarrow> Some (min a b)
      | (Some a, None) \<Rightarrow> Some a
      | (None, Some b) \<Rightarrow> Some b
      | (None, None) \<Rightarrow> None)"

definition boundary_length :: "utext \<Rightarrow> nat" where
  "boundary_length rest = (if take 4 rest = crlf2 then 4 else 2)"

text \<open>\<open>str::lines\<close>: pieces between line feeds without a trailing carriage return; a final empty
  piece is no line.\<close>

definition strip_cr :: "utext \<Rightarrow> utext" where
  "strip_cr l = (if l \<noteq> [] \<and> last l = 13 then butlast l else l)"

definition str_lines :: "utext \<Rightarrow> utext list" where
  "str_lines t = (let ls = split_on 10 t in map strip_cr (if last ls = [] then butlast ls else ls))"

definition data_prefix :: utext where
  "data_prefix = ascii ''data:''"

text \<open>The loop over the lines of a frame: a line after non-empty data is separated by a line feed.\<close>

definition frame_data :: "utext \<Rightarrow> utext" where
  "frame_data frame = foldl (\<lambda>data line.
     if take 5 line = data_prefix
     then (if data = [] then [] else data @ [10]) @ dropWhile is_whitespace (drop 5 line)
     else data) [] (str_lines frame)"

definition parse_revision_frame :: "(utext \<Rightarrow> u64 option) \<Rightarrow> utext \<Rightarrow> transport_error + u64 option" where
  "parse_revision_frame decode_notice frame =
     (let data = frame_data frame in
      if data = [] then Inr None
      else rbind (ok_or InvalidResponse (decode_notice data)) (\<lambda>revision. Inr (Some revision)))"

text \<open>The inner \<open>while let\<close>: cut complete frames off the buffer.\<close>

lemma find_sub_bound: "find_sub p xs = Some i \<Longrightarrow> i + length p \<le> length xs \<and> take (length p) (drop i xs) = p"
proof (induction xs arbitrary: i)
  case Nil
  then show ?case by (auto split: if_splits)
next
  case (Cons x xs)
  show ?case
  proof (cases "take (length p) (x # xs) = p")
    case True
    then have "length p \<le> length (x # xs)" by (metis length_take min.cobounded1)
    with True Cons.prems show ?thesis by auto
  next
    case False
    with Cons.prems obtain j where "find_sub p xs = Some j" "i = Suc j" by auto
    with Cons.IH show ?thesis by auto
  qed
qed

lemma sse_boundary_bound:
  assumes "sse_boundary b = Some i"
  shows "i + boundary_length (drop i b) \<le> length b" and "0 < boundary_length (drop i b)"
proof -
  from assms have "find_sub crlf2 b = Some i \<or> find_sub lf2 b = Some i"
    by (auto simp: sse_boundary_def min_def split: option.splits if_splits)
  then show "i + boundary_length (drop i b) \<le> length b"
  proof
    assume "find_sub crlf2 b = Some i"
    from find_sub_bound [OF this] show ?thesis by (auto simp: boundary_length_def crlf2_def)
  next
    assume "find_sub lf2 b = Some i"
    from find_sub_bound [OF this] have "i + 2 \<le> length b" "take 2 (drop i b) = lf2" by (simp_all add: lf2_def numeral_2_eq_2)
    then have "take 4 (drop i b) \<noteq> crlf2"
      by (cases "drop i b"; cases "tl (drop i b)") (auto simp: lf2_def crlf2_def)
    with \<open>i + 2 \<le> length b\<close> show ?thesis by (simp add: boundary_length_def)
  qed
  show "0 < boundary_length (drop i b)" by (simp add: boundary_length_def)
qed

function drain_frames :: "utext \<Rightarrow> utext list \<times> utext" where
  "drain_frames buffer =
     (case sse_boundary buffer of
        None \<Rightarrow> ([], buffer)
      | Some i \<Rightarrow>
          let (frames, rest) = drain_frames (drop (i + boundary_length (drop i buffer)) buffer)
          in (take i buffer # frames, rest))"
  by pat_completeness auto
termination
proof (relation "measure length")
  fix buffer i
  assume "sse_boundary buffer = Some i"
  from sse_boundary_bound [OF this]
  show "(drop (i + boundary_length (drop i buffer)) buffer, buffer) \<in> measure length" by simp
qed simp

declare drain_frames.simps [simp del]

text \<open>Frames are parsed and sent in order; the first malformed one ends the stream.\<close>

fun send_frames :: "(utext \<Rightarrow> u64 option) \<Rightarrow> utext list \<Rightarrow> u64 list \<times> transport_error option" where
  "send_frames decode [] = ([], None)"
| "send_frames decode (f # fs) =
     (case parse_revision_frame decode f of
        Inl e \<Rightarrow> ([], Some e)
      | Inr None \<Rightarrow> send_frames decode fs
      | Inr (Some revision) \<Rightarrow> (case send_frames decode fs of (rs, e) \<Rightarrow> (revision # rs, e)))"

definition max_sse_buffer_bytes :: nat where
  "max_sse_buffer_bytes = 65536"

text \<open>What the stream delivers next: the bytes of a chunk, a broken or closed connection, or a cancellation.
  Each chunk is decoded on its own; the receiver of the revisions stays open.\<close>

datatype stream_input = Chunk "byte list" | Broken | Cancelled

fun stream_loop ::
  "(utext \<Rightarrow> u64 option) \<Rightarrow> utext \<Rightarrow> stream_input list \<Rightarrow> u64 list \<times> (transport_error + unit)" where
  "stream_loop decode buffer [] = ([], Inl Offline)"
| "stream_loop decode buffer (Cancelled # _) = ([], Inr ())"
| "stream_loop decode buffer (Broken # _) = ([], Inl Offline)"
| "stream_loop decode buffer (Chunk chunk # rest) =
     (case text_from_utf8 chunk of
        None \<Rightarrow> ([], Inl InvalidResponse)
      | Some text \<Rightarrow>
         let full = buffer @ text in
         if utf8_len full > max_sse_buffer_bytes then ([], Inl InvalidResponse)
         else let (frames, buffer1) = drain_frames full; (sent, failed) = send_frames decode frames in
         case failed of
           Some e \<Rightarrow> (sent, Inl e)
         | None \<Rightarrow> (case stream_loop decode buffer1 rest of (later, result) \<Rightarrow> (sent @ later, result)))"

section \<open>Chunks do not matter\<close>

text \<open>A boundary is a position where one of the two patterns starts; the code takes the first.\<close>

definition boundary_at :: "utext \<Rightarrow> nat \<Rightarrow> bool" where
  "boundary_at b i \<longleftrightarrow> take 4 (drop i b) = crlf2 \<or> take 2 (drop i b) = lf2"

lemma find_sub_first:
  assumes "p \<noteq> []"
  shows "find_sub p xs = Some i \<longleftrightarrow> take (length p) (drop i xs) = p \<and> (\<forall>j < i. take (length p) (drop j xs) \<noteq> p)"
proof (induction xs arbitrary: i)
  case Nil
  with assms show ?case by auto
next
  case (Cons x xs)
  show ?case
  proof (cases "take (length p) (x # xs) = p")
    case True
    then show ?thesis by (auto simp: gr0_conv_Suc)
  next
    case False
    have "find_sub p (x # xs) = Some i \<longleftrightarrow> (\<exists>j. i = Suc j \<and> find_sub p xs = Some j)"
      using False by auto
    also have "\<dots> \<longleftrightarrow> take (length p) (drop i (x # xs)) = p
        \<and> (\<forall>j < i. take (length p) (drop j (x # xs)) \<noteq> p)"
      using False by (cases i) (auto simp: Cons.IH All_less_Suc2)
    finally show ?thesis .
  qed
qed

lemma find_sub_none:
  assumes "p \<noteq> []"
  shows "find_sub p xs = None \<longleftrightarrow> (\<forall>i. take (length p) (drop i xs) \<noteq> p)"
proof (induction xs)
  case Nil
  with assms show ?case by simp
next
  case (Cons x xs)
  show ?case
  proof
    assume none: "find_sub p (x # xs) = None"
    then have "take (length p) (x # xs) \<noteq> p" "\<forall>i. take (length p) (drop i xs) \<noteq> p"
      using Cons.IH by (auto split: if_splits)
    then show "\<forall>i. take (length p) (drop i (x # xs)) \<noteq> p" by (metis drop0 drop_Suc_Cons not0_implies_Suc)
  next
    assume all: "\<forall>i. take (length p) (drop i (x # xs)) \<noteq> p"
    from all [rule_format, of 0] all Cons.IH show "find_sub p (x # xs) = None"
      by (metis drop0 drop_Suc_Cons find_sub.simps(2) option.simps(8))
  qed
qed

lemma first_of_two:
  fixes P Q :: "nat \<Rightarrow> bool"
  assumes a: "\<And>i. a = Some i \<longleftrightarrow> P i \<and> (\<forall>j < i. \<not> P j)" "a = None \<longleftrightarrow> (\<forall>i. \<not> P i)"
    and b: "\<And>i. b = Some i \<longleftrightarrow> Q i \<and> (\<forall>j < i. \<not> Q j)" "b = None \<longleftrightarrow> (\<forall>i. \<not> Q i)"
  shows "(case (a, b) of (Some x, Some y) \<Rightarrow> Some (min x y) | (Some x, None) \<Rightarrow> Some x
           | (None, Some y) \<Rightarrow> Some y | (None, None) \<Rightarrow> None) = Some i
     \<longleftrightarrow> (P i \<or> Q i) \<and> (\<forall>j < i. \<not> (P j \<or> Q j))"
proof (cases a)
  case None
  with a(2) have "\<not> P j" for j by blast
  with None b show ?thesis by (cases b) auto
next
  case (Some x)
  with a(1) have x: "P x" "\<And>j. j < x \<Longrightarrow> \<not> P j" by blast+
  show ?thesis
  proof (cases b)
    case None
    with b(2) have "\<not> Q j" for j by blast
    with None Some a(1) [of i] show ?thesis by simp
  next
    case b': (Some y)
    with b(1) have y: "Q y" "\<And>j. j < y \<Longrightarrow> \<not> Q j" by blast+
    have "min x y = i \<longleftrightarrow> (P i \<or> Q i) \<and> (\<forall>j < i. \<not> (P j \<or> Q j))"
    proof
      assume "min x y = i"
      with x y show "(P i \<or> Q i) \<and> (\<forall>j < i. \<not> (P j \<or> Q j))" by (auto simp: min_def split: if_splits)
    next
      assume R: "(P i \<or> Q i) \<and> (\<forall>j < i. \<not> (P j \<or> Q j))"
      then have "i \<le> x" "i \<le> y" using x(1) y(1) by (meson not_le)+
      moreover have "i = x \<or> i = y" using R x(2) y(2) \<open>i \<le> x\<close> \<open>i \<le> y\<close> by (metis le_neq_implies_less)
      ultimately show "min x y = i" by auto
    qed
    with Some b' show ?thesis by simp
  qed
qed

lemma sse_boundary_Some:
  "sse_boundary b = Some i \<longleftrightarrow> boundary_at b i \<and> (\<forall>j < i. \<not> boundary_at b j)"
proof -
  have ne: "crlf2 \<noteq> []" "lf2 \<noteq> []" and len: "length crlf2 = 4" "length lf2 = 2"
    by (simp_all add: crlf2_def lf2_def)
  show ?thesis unfolding sse_boundary_def boundary_at_def
    by (rule first_of_two [OF find_sub_first [OF ne(1), unfolded len] find_sub_none [OF ne(1), unfolded len]
         find_sub_first [OF ne(2), unfolded len] find_sub_none [OF ne(2), unfolded len]])
qed

lemma sse_boundary_None: "sse_boundary b = None \<longleftrightarrow> (\<forall>i. \<not> boundary_at b i)"
proof -
  have "(\<exists>i. sse_boundary b = Some i) \<longleftrightarrow> (\<exists>i. boundary_at b i)"
    unfolding sse_boundary_Some using exists_least_iff [of "boundary_at b"] by blast
  then show ?thesis by (metis option.exhaust option.simps(3))
qed

lemma boundary_at_bound: "boundary_at b i \<Longrightarrow> i + 2 \<le> length b"
  by (auto simp: boundary_at_def crlf2_def lf2_def dest!: arg_cong [where f = length])

text \<open>Text that arrives later neither moves the first boundary nor changes its length.\<close>

lemma boundary_stable:
  assumes "boundary_at b i"
  shows "boundary_at (b @ c) i" and "boundary_length (drop i (b @ c)) = boundary_length (drop i b)"
proof -
  have len: "i + 2 \<le> length b" using assms by (rule boundary_at_bound)
  have d: "drop i (b @ c) = drop i b @ c" using len by simp
  have four: "4 \<le> length (drop i b)" if "take 4 (drop i b) = crlf2"
    using arg_cong [OF that, of length] by (simp add: crlf2_def)
  have two: "2 \<le> length (drop i b)" using len by simp
  have "take 4 (drop i b @ c) \<noteq> crlf2" if t: "take 2 (drop i b) = lf2"
  proof
    assume "take 4 (drop i b @ c) = crlf2"
    then have "take 2 (take 4 (drop i b @ c)) = take 2 crlf2" by simp
    then show False using t two by (simp add: crlf2_def lf2_def min_def)
  qed
  moreover have "take 4 (drop i b) \<noteq> crlf2" if t: "take 2 (drop i b) = lf2"
  proof
    assume "take 4 (drop i b) = crlf2"
    then have "take 2 (take 4 (drop i b)) = take 2 crlf2" by simp
    then show False using t by (simp add: crlf2_def lf2_def min_def)
  qed
  ultimately show "boundary_at (b @ c) i" and "boundary_length (drop i (b @ c)) = boundary_length (drop i b)"
    using assms four two unfolding boundary_at_def boundary_length_def d by auto
qed

lemma boundary_not_earlier:
  assumes "boundary_at b i" and "boundary_at (b @ c) j" and "j < i"
  shows "\<exists>k \<le> j. boundary_at b k"
proof -
  have len: "i + 2 \<le> length b" using assms(1) by (rule boundary_at_bound)
  have d: "drop j (b @ c) = drop j b @ c" using len assms(3) by simp
  have l: "3 \<le> length (drop j b)" using len assms(3) by simp
  show ?thesis
  proof (cases "take 2 (drop j (b @ c)) = lf2")
    case True
    then have "take 2 (drop j b) = lf2" using l unfolding d by simp
    then show ?thesis by (auto simp: boundary_at_def)
  next
    case False
    with assms(2) have c4: "take 4 (drop j b @ c) = crlf2" unfolding boundary_at_def d by simp
    show ?thesis
    proof (cases "4 \<le> length (drop j b)")
      case True
      with c4 have "take 4 (drop j b) = crlf2" by simp
      then show ?thesis by (auto simp: boundary_at_def)
    next
      case False
      with len assms(3) have i: "i = Suc j" "length (drop j b) = 3" by auto
      have "take 3 (take 4 (drop j b @ c)) = take 3 crlf2" using c4 by simp
      then have "drop j b = [13, 10, 13]" using i(2) by (simp add: crlf2_def min_def)
      then have "drop i b = [10, 13]" by (metis i(1) drop_Suc list.sel(3) drop_tl)
      with assms(1) show ?thesis by (simp add: boundary_at_def crlf2_def lf2_def)
    qed
  qed
qed

lemma sse_boundary_append:
  assumes "sse_boundary b = Some i"
  shows "sse_boundary (b @ c) = Some i"
proof -
  from assms have i: "boundary_at b i" "\<And>j. j < i \<Longrightarrow> \<not> boundary_at b j" by (auto simp: sse_boundary_Some)
  have "\<not> boundary_at (b @ c) j" if "j < i" for j
    using boundary_not_earlier [OF i(1) _ that] i(2) that by (meson le_less_trans)
  with boundary_stable(1) [OF i(1)] show ?thesis by (simp add: sse_boundary_Some)
qed

text \<open>Frames cut from a buffer and then from the rest with more text are the frames of the whole.\<close>

lemma drain_frames_append:
  "drain_frames (b @ c) = (case drain_frames b of (frames, rest) \<Rightarrow>
     case drain_frames (rest @ c) of (frames', rest') \<Rightarrow> (frames @ frames', rest'))"
proof (induction b rule: drain_frames.induct)
  case (1 b)
  show ?case
  proof (cases "sse_boundary b")
    case None
    then show ?thesis by (simp add: drain_frames.simps [of b] split: prod.splits)
  next
    case (Some i)
    let ?n = "i + boundary_length (drop i b)"
    have at: "boundary_at b i" using Some by (simp add: sse_boundary_Some)
    have n: "?n \<le> length b" using Some by (rule sse_boundary_bound)
    have "drain_frames (b @ c) = (let (frames, rest) = drain_frames (drop ?n b @ c) in (take i b # frames, rest))"
      using n sse_boundary_append [OF Some, of c] boundary_stable(2) [OF at, of c]
      by (subst drain_frames.simps) simp
    also have "\<dots> = (case drain_frames b of (frames, rest) \<Rightarrow>
     case drain_frames (rest @ c) of (frames', rest') \<Rightarrow> (frames @ frames', rest'))"
      unfolding drain_frames.simps [of b] Some using 1 [OF Some]
      by (simp add: Let_def split: prod.splits)
    finally show ?thesis .
  qed
qed

lemma drain_frames_rest:
  "drain_frames b = (frames, rest) \<Longrightarrow> drain_frames rest = ([], rest) \<and> (\<exists>p. b = p @ rest)"
proof (induction b arbitrary: frames rule: drain_frames.induct)
  case (1 b)
  show ?case
  proof (cases "sse_boundary b")
    case None
    then have "drain_frames b = ([], b)" by (simp add: drain_frames.simps [of b])
    with 1(2) show ?thesis by simp
  next
    case (Some i)
    let ?b' = "drop (i + boundary_length (drop i b)) b"
    from Some 1(2) obtain fs where "drain_frames ?b' = (fs, rest)"
      unfolding drain_frames.simps [of b] by (auto simp: Let_def split: prod.splits)
    from 1(1) [OF Some this] obtain p where "drain_frames rest = ([], rest)" "?b' = p @ rest" by blast
    then show ?thesis by (metis append.assoc append_take_drop_id)
  qed
qed

lemma utf8_len_append: "utf8_len (a @ b) = utf8_len a + utf8_len b"
  by (simp add: utf8_len_def utf8_def)

lemma send_frames_append:
  "send_frames decode (fs @ gs) = (case send_frames decode fs of
     (sent, Some e) \<Rightarrow> (sent, Some e)
   | (sent, None) \<Rightarrow> (case send_frames decode gs of (sent', e) \<Rightarrow> (sent @ sent', e)))"
  by (induction fs) (auto split: sum.splits option.splits prod.splits)

text \<open>Chunks that are well formed on their own decode to the text of all their bytes.\<close>

lemma text_from_utf8_append:
  "text_from_utf8 a = Some t \<Longrightarrow> text_from_utf8 (a @ b) = map_option ((@) t) (text_from_utf8 b)"
  using utf8_append [of "map unat a" "map unat b"] by (auto simp: text_from_utf8_def split: if_splits)

lemma text_from_utf8_Nil [simp]: "text_from_utf8 [] = Some []"
  by (simp add: text_from_utf8_def)

lemma text_from_utf8_len: "text_from_utf8 b = Some t \<Longrightarrow> utf8_len t = length b"
  using utf8_len_decode [of "map unat b"] by (auto simp: text_from_utf8_def split: if_splits)

lemma text_from_utf8_concat:
  "list_all (\<lambda>c. text_from_utf8 c \<noteq> None) chunks \<Longrightarrow>
     text_from_utf8 (concat chunks) = Some (concat (map (the \<circ> text_from_utf8) chunks))"
  by (induction chunks) (auto simp: text_from_utf8_append)

lemma stream_loop_chunks:
  assumes "list_all (\<lambda>c. text_from_utf8 c \<noteq> None) chunks" and "drain_frames buffer = ([], buffer)"
    and "utf8_len buffer + length (concat chunks) \<le> max_sse_buffer_bytes"
  shows "stream_loop decode buffer (map Chunk chunks @ rest)
     = stream_loop decode buffer (Chunk (concat chunks) # rest)"
  using assms
proof (induction chunks arbitrary: buffer)
  case Nil
  then show ?case by (simp add: Let_def split: prod.splits)
next
  case (Cons c cs)
  then obtain t where t: "text_from_utf8 c = Some t" by auto
  obtain ts where ts: "text_from_utf8 (concat cs) = Some ts" using Cons.prems(1) text_from_utf8_concat by auto
  obtain frames b1 where one: "drain_frames (buffer @ t) = (frames, b1)" by fastforce
  obtain frames' b2 where two: "drain_frames (b1 @ ts) = (frames', b2)" by fastforce
  have whole: "drain_frames (buffer @ t @ ts) = (frames @ frames', b2)"
    using drain_frames_append [of "buffer @ t" ts] by (simp add: one two)
  from drain_frames_rest [OF one] obtain p where b1: "drain_frames b1 = ([], b1)" "buffer @ t = p @ b1" by blast
  note lens = text_from_utf8_len [OF t] text_from_utf8_len [OF ts]
  have len: "utf8_len (buffer @ t) \<le> max_sse_buffer_bytes" "utf8_len b1 + length (concat cs) \<le> max_sse_buffer_bytes"
    using Cons.prems(3) lens arg_cong [OF b1(2), of utf8_len] by (simp_all add: utf8_len_append)
  have ih: "stream_loop decode b1 (map Chunk cs @ rest) = stream_loop decode b1 (Chunk (concat cs) # rest)"
    using Cons.IH [OF _ b1(1) len(2)] Cons.prems(1) by simp
  have "text_from_utf8 (c @ concat cs) = Some (t @ ts)" using text_from_utf8_append [OF t] ts by simp
  then show ?case
    using Cons.prems(3) len one two whole t ts lens
    by (simp add: ih Let_def send_frames_append utf8_len_append split: prod.splits option.splits)
qed

text \<open>A chunk that is not UTF-8 ends the stream where it stands.\<close>

lemma stream_loop_bad_chunk:
  assumes "text_from_utf8 bad = None"
  shows "stream_loop decode buffer (map Chunk chunks @ Chunk bad # rest)
     = (case stream_loop decode buffer (map Chunk chunks @ [Cancelled]) of
          (sent, Inl e) \<Rightarrow> (sent, Inl e)
        | (sent, Inr _) \<Rightarrow> (sent, Inl InvalidResponse))"
  using assms
  by (induction chunks arbitrary: buffer) (auto simp: Let_def split: option.splits prod.splits sum.splits)

lemma drain_frames_Nil: "drain_frames [] = ([], [])"
proof -
  have "\<not> boundary_at [] i" for i by (simp add: boundary_at_def crlf2_def lf2_def)
  then have "sse_boundary [] = None" unfolding sse_boundary_None by blast
  then show ?thesis by (simp add: drain_frames.simps [of "[]"])
qed

text \<open>
  C17: how the network cuts the revision stream into chunks matters only where a cut splits a character.
  Up to 65,536 bytes received, any two ways of cutting them into chunks that are well-formed UTF-8 each
  give the same revisions, in the same order, and the same outcome, whatever follows. A chunk that is
  not well formed on its own, as a cut inside a character leaves it, ends the stream with an invalid
  response after exactly the revisions of the chunks before it, unless one of those had failed already.
\<close>

theorem stream_chunking_irrelevant:
  assumes "list_all (\<lambda>c. text_from_utf8 c \<noteq> None) chunks" and "list_all (\<lambda>c. text_from_utf8 c \<noteq> None) chunks'"
    and "concat chunks = concat chunks'" and "length (concat chunks) \<le> max_sse_buffer_bytes"
  shows "stream_loop decode [] (map Chunk chunks @ rest) = stream_loop decode [] (map Chunk chunks' @ rest)
    \<and> (text_from_utf8 bad = None \<longrightarrow>
         stream_loop decode [] (map Chunk chunks @ Chunk bad # rest)
           = (case stream_loop decode [] (map Chunk chunks @ [Cancelled]) of
                (sent, Inl e) \<Rightarrow> (sent, Inl e)
              | (sent, Inr _) \<Rightarrow> (sent, Inl InvalidResponse)))"
proof (intro conjI impI)
  have "utf8_len [] + length (concat chunks) \<le> max_sse_buffer_bytes" "utf8_len [] + length (concat chunks') \<le> max_sse_buffer_bytes"
    using assms(3,4) by (simp_all add: utf8_len_def utf8_def)
  note whole = stream_loop_chunks [OF assms(1) drain_frames_Nil this(1)] stream_loop_chunks [OF assms(2) drain_frames_Nil this(2)]
  show "stream_loop decode [] (map Chunk chunks @ rest) = stream_loop decode [] (map Chunk chunks' @ rest)"
    unfolding whole assms(3) by (rule refl)
qed (rule stream_loop_bad_chunk)

definition example_frame :: "byte list" where
  "example_frame = string_bytes ''data: 7'' @ [10, 10]"

definition example_decode :: "utext \<Rightarrow> u64 option" where
  "example_decode t = (if t = ascii ''7'' then Some 7 else None)"

lemmas example_stream_eval = ascii_def Let_def drain_frames.simps sse_boundary_def crlf2_def lf2_def boundary_length_def
  utf8_len_def utf8_def utf8_char_def max_sse_buffer_bytes_def parse_revision_frame_def frame_data_def
  str_lines_def strip_cr_def data_prefix_def is_whitespace_def example_decode_def text_from_utf8_def string_bytes_def

lemma example_stream_split:
  "stream_loop example_decode [] (map Chunk [string_bytes ''data: 7'' @ [10], [10]] @ [Cancelled]) = ([7], Inr ())"
  by (simp add: example_stream_eval)

theorem stream_chunking_irrelevant_witness:
  "stream_loop example_decode [] (map Chunk [example_frame] @ [Cancelled]) = ([7], Inr ())
   \<and> stream_loop example_decode [] (map Chunk [example_frame] @ Chunk [0xE4] # [Chunk [0xB8, 0xAD]]) = ([7], Inl InvalidResponse)"
proof -
  let ?split = "[string_bytes ''data: 7'' @ [10], [10]]"
  have u: "list_all (\<lambda>c. text_from_utf8 c \<noteq> None) [example_frame]" "list_all (\<lambda>c. text_from_utf8 c \<noteq> None) ?split"
    "concat [example_frame] = concat ?split" "length (concat [example_frame]) \<le> max_sse_buffer_bytes"
    by (simp_all add: example_frame_def text_from_utf8_def string_bytes_def max_sse_buffer_bytes_def)
  have bad: "text_from_utf8 [0xE4] = None" by (simp add: text_from_utf8_def)
  note whole = stream_chunking_irrelevant [OF u, of example_decode "[Cancelled]" "[]"]
    and cut = stream_chunking_irrelevant [OF u, of example_decode "[Chunk [0xB8, 0xAD]]" "[0xE4]"]
  from whole example_stream_split have "stream_loop example_decode [] (map Chunk [example_frame] @ [Cancelled]) = ([7], Inr ())"
    by simp
  with cut bad show ?thesis by (simp del: stream_loop.simps)
qed

lemma read_chunks_Inr:
  "read_chunks limit body chunks = Inr out \<Longrightarrow> length body \<le> limit \<Longrightarrow>
     length out \<le> limit \<and> list_all (\<lambda>c. \<not> isl c) chunks \<and> out = body @ concat (map projr chunks)"
  by (induction limit body chunks rule: read_chunks.induct) (auto split: if_splits)
text \<open>
  A response body never grows past its limit. Whatever the Server declares or sends, a body that
  is accepted is at most \<open>limit\<close> bytes long and is exactly the bytes of the chunks, all of which arrived.
\<close>

theorem response_body_bounded:
  assumes "bounded_response_body response limit = Inr body"
  shows "length body \<le> limit \<and> list_all (\<lambda>c. \<not> isl c) (hp_chunks response)
     \<and> body = concat (map projr (hp_chunks response))"
  using assms read_chunks_Inr [of limit "[]"] by (simp add: bounded_response_body_def split: if_splits)

theorem response_body_bounded_witness:
  "\<exists>body. bounded_response_body \<lparr>hp_status = 200, hp_content_length = None, hp_chunks = [Inr [1, 2], Inr [3]]\<rparr> 3
     = Inr body \<and> body = [1, 2, 3]"
proof -
  obtain body where "bounded_response_body \<lparr>hp_status = 200, hp_content_length = None,
      hp_chunks = [Inr [1, 2], Inr [3]]\<rparr> 3 = Inr body"
    by (simp add: bounded_response_body_def)
  from response_body_bounded [OF this] this show ?thesis by simp
qed

end
