(* ===== verification/Sync_Session.thy ===== *)
theory Sync_Session
  imports Sync_Transport
begin

text \<open>
  The Desktop's authenticated session: the credential types of \<open>crates/auth/src/lib.rs\<close>, the native
  credential stores of \<open>crates/platform/src/macos.rs\<close> and \<open>windows.rs\<close> (the same code over the keyring
  crate), and \<open>apps/desktop/src/sync_session.rs\<close>: every call is retried once after rotating the refresh
  token. The keyring crate and the transport are arguments; a call of either may change their state.
\<close>

section \<open>Credentials\<close>

datatype credential_key = RetiredTranslationApiKey | TencentTokenHubApiKey | ServerRefreshToken

record credential_scope =
  cs_server_origin :: string
  cs_user_id :: string
  cs_device_id :: string
  cs_key :: credential_key

datatype auth_error = CredentialStoreFailed | InvalidCredentials | SessionExpired | AuthDeviceRevoked

fun credential_key_name :: "credential_key \<Rightarrow> string" where
  "credential_key_name RetiredTranslationApiKey = ''google-api-key''"
| "credential_key_name TencentTokenHubApiKey = ''tokenhub-api-key''"
| "credential_key_name ServerRefreshToken = ''server-refresh-token''"

definition credential_account :: "credential_scope \<Rightarrow> string" where
  "credential_account scope = cs_server_origin scope @ ''|'' @ cs_user_id scope @ ''|''
     @ cs_device_id scope @ ''|'' @ credential_key_name (cs_key scope)"

text \<open>The keyring crate: an entry per account. \<open>Inl True\<close> is \<open>NoEntry\<close>, \<open>Inl False\<close> any other error.\<close>

record 'k keyring =
  kr_get_secret :: "string \<Rightarrow> 'k \<Rightarrow> bool + byte list"
  kr_set_secret :: "string \<Rightarrow> byte list \<Rightarrow> 'k \<Rightarrow> bool + 'k"
  kr_delete_credential :: "string \<Rightarrow> 'k \<Rightarrow> bool + 'k"

definition credential_get ::
  "'k keyring \<Rightarrow> credential_scope \<Rightarrow> 'k \<Rightarrow> auth_error + byte list option" where
  "credential_get kr scope k =
     (case kr_get_secret kr (credential_account scope) k of
        Inr secret \<Rightarrow> Inr (Some secret)
      | Inl True \<Rightarrow> Inr None
      | Inl False \<Rightarrow> Inl CredentialStoreFailed)"

definition credential_contains :: "'k keyring \<Rightarrow> credential_scope \<Rightarrow> 'k \<Rightarrow> auth_error + bool" where
  "credential_contains kr scope k =
     rbind (credential_get kr scope k) (\<lambda>secret. Inr (secret \<noteq> None))"

definition credential_set ::
  "'k keyring \<Rightarrow> credential_scope \<Rightarrow> byte list \<Rightarrow> 'k \<Rightarrow> auth_error + 'k" where
  "credential_set kr scope secret k =
     (if secret = [] then Inl InvalidCredentials
      else map_err (\<lambda>_. CredentialStoreFailed) (kr_set_secret kr (credential_account scope) secret k))"

definition credential_delete :: "'k keyring \<Rightarrow> credential_scope \<Rightarrow> 'k \<Rightarrow> auth_error + 'k" where
  "credential_delete kr scope k =
     (case kr_delete_credential kr (credential_account scope) k of
        Inr k' \<Rightarrow> Inr k'
      | Inl True \<Rightarrow> Inr k
      | Inl False \<Rightarrow> Inl CredentialStoreFailed)"

section \<open>The session\<close>

record 'n sync_transport =
  tr_login :: "string \<Rightarrow> login_credentials \<Rightarrow> 'n \<Rightarrow> (transport_error + login_identity) \<times> 'n"
  tr_refresh :: "string \<Rightarrow> string \<Rightarrow> 'n \<Rightarrow> (transport_error + refreshed_tokens) \<times> 'n"
  tr_logout :: "string \<Rightarrow> string \<Rightarrow> 'n \<Rightarrow> (transport_error + unit) \<times> 'n"
  tr_push :: "string \<Rightarrow> string \<Rightarrow> push_event list \<Rightarrow> 'n \<Rightarrow> (transport_error + push_response) \<times> 'n"
  tr_changes :: "string \<Rightarrow> string \<Rightarrow> u64 \<Rightarrow> u32 \<Rightarrow> 'n \<Rightarrow> (transport_error + changes_response) \<times> 'n"
  tr_devices :: "string \<Rightarrow> string \<Rightarrow> 'n \<Rightarrow> (transport_error + remote_device list) \<times> 'n"
  tr_revoke_device :: "string \<Rightarrow> string \<Rightarrow> string \<Rightarrow> 'n \<Rightarrow> (transport_error + unit) \<times> 'n"

datatype session_error =
  STransport transport_error | SCredentialStore auth_error | NoPersistentSession | InvalidCredential

text \<open>The identity of a session is fixed; its access token, the credential store and the Server
  behind the transport change.\<close>

record session_info =
  sx_server_origin :: string
  sx_user_id :: string
  sx_username :: string
  sx_device_id :: string
  sx_platform :: string

record ('k, 'n) session_world =
  sw_token :: string
  sw_expires_at :: i64
  sw_keyring :: 'k
  sw_net :: 'n

definition refresh_scope :: "string \<Rightarrow> string \<Rightarrow> string \<Rightarrow> credential_scope" where
  "refresh_scope server_origin user_id device_id =
     \<lparr>cs_server_origin = server_origin, cs_user_id = user_id, cs_device_id = device_id,
      cs_key = ServerRefreshToken\<rparr>"

definition session_scope :: "session_info \<Rightarrow> credential_scope" where
  "session_scope s = refresh_scope (sx_server_origin s) (sx_user_id s) (sx_device_id s)"

definition matches_identity :: "refreshed_tokens \<Rightarrow> session_info \<Rightarrow> bool" where
  "matches_identity t s = (rt_user_id t = sx_user_id s \<and> rt_username t = sx_username s
     \<and> rt_device_id t = sx_device_id s \<and> rt_platform t = sx_platform s)"

text \<open>\<open>String::from_utf8\<close>: the bytes, when they are well formed.\<close>

definition string_from_utf8 :: "byte list \<Rightarrow> string option" where
  "string_from_utf8 bs =
     (if valid_utf8 (map unat bs) then Some (map (\<lambda>b. char_of (unat b)) bs) else None)"

text \<open>The stored refresh token as text.\<close>

definition stored_refresh :: "'k keyring \<Rightarrow> credential_scope \<Rightarrow> 'k \<Rightarrow> session_error + string" where
  "stored_refresh kr scope k =
     rbind (map_err SCredentialStore (credential_get kr scope k)) (\<lambda>found.
     rbind (ok_or NoPersistentSession found) (\<lambda>secret.
       ok_or InvalidCredential (string_from_utf8 secret)))"

definition session_login ::
  "'n sync_transport \<Rightarrow> 'k keyring \<Rightarrow> string \<Rightarrow> login_credentials \<Rightarrow> 'k \<Rightarrow> 'n
    \<Rightarrow> (session_error + (session_info \<times> login_identity)) \<times> ('k, 'n) session_world option \<times> 'k \<times> 'n" where
  "session_login tr kr origin credentials k n =
     (case tr_login tr origin credentials n of
        (Inl e, n1) \<Rightarrow> (Inl (STransport e), None, k, n1)
      | (Inr identity, n1) \<Rightarrow>
          if li_device_id identity \<noteq> lc_device_id credentials \<or> li_platform identity \<noteq> lc_platform credentials
          then (Inl (STransport InvalidResponse), None, k, n1)
          else case credential_set kr (refresh_scope origin (li_user_id identity) (li_device_id identity))
                 (string_bytes (li_refresh_token identity)) k of
            Inl e \<Rightarrow> (Inl (SCredentialStore e), None, k, n1)
          | Inr k1 \<Rightarrow>
              (Inr (\<lparr>sx_server_origin = origin, sx_user_id = li_user_id identity,
                     sx_username = li_username identity, sx_device_id = li_device_id identity,
                     sx_platform = li_platform identity\<rparr>, identity),
               Some \<lparr>sw_token = li_access_token identity, sw_expires_at = li_access_expires_at identity,
                     sw_keyring = k1, sw_net = n1\<rparr>, k1, n1))"

text \<open>\<open>resume\<close> and \<open>refresh_after\<close> rotate the same way: present the stored token, check the identity,
  persist the new refresh token, and only then use its access token.\<close>

definition rotate ::
  "'n sync_transport \<Rightarrow> 'k keyring \<Rightarrow> session_info \<Rightarrow> 'k \<Rightarrow> 'n
    \<Rightarrow> (session_error + (refreshed_tokens \<times> 'k)) \<times> 'n" where
  "rotate tr kr s k n =
     (case stored_refresh kr (session_scope s) k of
        Inl e \<Rightarrow> (Inl e, n)
      | Inr refresh \<Rightarrow>
          (case tr_refresh tr (sx_server_origin s) refresh n of
             (Inl e, n1) \<Rightarrow> (Inl (STransport e), n1)
           | (Inr tokens, n1) \<Rightarrow>
               if \<not> matches_identity tokens s then (Inl (STransport InvalidResponse), n1)
               else (map_err SCredentialStore (rbind (credential_set kr (session_scope s)
                       (string_bytes (rt_refresh_token tokens)) k) (\<lambda>k1. Inr (tokens, k1))), n1)))"

definition session_resume ::
  "'n sync_transport \<Rightarrow> 'k keyring \<Rightarrow> session_info \<Rightarrow> 'k \<Rightarrow> 'n
    \<Rightarrow> (session_error + ('k, 'n) session_world) \<times> 'k \<times> 'n" where
  "session_resume tr kr s k n =
     (case rotate tr kr s k n of
        (Inl e, n1) \<Rightarrow> (Inl e, k, n1)
      | (Inr (tokens, k1), n1) \<Rightarrow>
          (Inr \<lparr>sw_token = rt_access_token tokens, sw_expires_at = rt_access_expires_at tokens,
                sw_keyring = k1, sw_net = n1\<rparr>, k1, n1))"

text \<open>\<open>refresh_after\<close> runs under the refresh gate; a token replaced meanwhile needs no rotation.\<close>

definition refresh_after ::
  "'n sync_transport \<Rightarrow> 'k keyring \<Rightarrow> session_info \<Rightarrow> string \<Rightarrow> ('k, 'n) session_world
    \<Rightarrow> (session_error + unit) \<times> ('k, 'n) session_world" where
  "refresh_after tr kr s rejected_token w =
     (if sw_token w \<noteq> rejected_token then (Inr (), w)
      else case rotate tr kr s (sw_keyring w) (sw_net w) of
        (Inl e, n1) \<Rightarrow> (Inl e, w\<lparr>sw_net := n1\<rparr>)
      | (Inr (tokens, k1), n1) \<Rightarrow>
          (Inr (), w\<lparr>sw_token := rt_access_token tokens, sw_expires_at := rt_access_expires_at tokens,
                     sw_keyring := k1, sw_net := n1\<rparr>))"

text \<open>The shape of \<open>push\<close>, \<open>changes\<close>, \<open>devices\<close>, \<open>revoke_device\<close>: one retry after an expired token.\<close>

definition call_with_refresh ::
  "'n sync_transport \<Rightarrow> 'k keyring \<Rightarrow> session_info
    \<Rightarrow> (string \<Rightarrow> 'n \<Rightarrow> (transport_error + 'a) \<times> 'n) \<Rightarrow> ('k, 'n) session_world
    \<Rightarrow> (session_error + 'a) \<times> ('k, 'n) session_world" where
  "call_with_refresh tr kr s call w =
     (case call (sw_token w) (sw_net w) of
        (Inl TAccessExpired, n1) \<Rightarrow>
          (case refresh_after tr kr s (sw_token w) (w\<lparr>sw_net := n1\<rparr>) of
             (Inl e, w1) \<Rightarrow> (Inl e, w1)
           | (Inr _, w1) \<Rightarrow>
               (case call (sw_token w1) (sw_net w1) of
                  (r, n2) \<Rightarrow> (map_err STransport r, w1\<lparr>sw_net := n2\<rparr>)))
      | (r, n1) \<Rightarrow> (map_err STransport r, w\<lparr>sw_net := n1\<rparr>))"

definition session_push ::
  "'n sync_transport \<Rightarrow> 'k keyring \<Rightarrow> session_info \<Rightarrow> push_event list \<Rightarrow> ('k, 'n) session_world
    \<Rightarrow> (session_error + push_response) \<times> ('k, 'n) session_world" where
  "session_push tr kr s events w =
     call_with_refresh tr kr s (\<lambda>token. tr_push tr (sx_server_origin s) token events) w"

definition session_changes ::
  "'n sync_transport \<Rightarrow> 'k keyring \<Rightarrow> session_info \<Rightarrow> u64 \<Rightarrow> u32 \<Rightarrow> ('k, 'n) session_world
    \<Rightarrow> (session_error + changes_response) \<times> ('k, 'n) session_world" where
  "session_changes tr kr s since limit w =
     call_with_refresh tr kr s (\<lambda>token. tr_changes tr (sx_server_origin s) token since limit) w"

definition session_devices ::
  "'n sync_transport \<Rightarrow> 'k keyring \<Rightarrow> session_info \<Rightarrow> ('k, 'n) session_world
    \<Rightarrow> (session_error + remote_device list) \<times> ('k, 'n) session_world" where
  "session_devices tr kr s w =
     call_with_refresh tr kr s (\<lambda>token. tr_devices tr (sx_server_origin s) token) w"

definition session_revoke_device ::
  "'n sync_transport \<Rightarrow> 'k keyring \<Rightarrow> session_info \<Rightarrow> string \<Rightarrow> ('k, 'n) session_world
    \<Rightarrow> (session_error + unit) \<times> ('k, 'n) session_world" where
  "session_revoke_device tr kr s device_id w =
     call_with_refresh tr kr s (\<lambda>token. tr_revoke_device tr (sx_server_origin s) token device_id) w"

definition session_logout ::
  "'n sync_transport \<Rightarrow> 'k keyring \<Rightarrow> session_info \<Rightarrow> ('k, 'n) session_world
    \<Rightarrow> (session_error + unit) \<times> ('k, 'n) session_world" where
  "session_logout tr kr s w =
     (let token = sw_token w;
          delete = (\<lambda>w result. case credential_delete kr (session_scope s) (sw_keyring w) of
             Inl e \<Rightarrow> (Inl (SCredentialStore e), w)
           | Inr k1 \<Rightarrow> (result, w\<lparr>sw_keyring := k1\<rparr>))
      in case tr_logout tr (sx_server_origin s) token (sw_net w) of
           (Inl TAccessExpired, n1) \<Rightarrow>
             (case refresh_after tr kr s token (w\<lparr>sw_net := n1\<rparr>) of
                (Inl e, w1) \<Rightarrow> delete w1 (Inl e)
              | (Inr _, w1) \<Rightarrow>
                  (case tr_logout tr (sx_server_origin s) (sw_token w1) (sw_net w1) of
                     (r, n2) \<Rightarrow> delete (w1\<lparr>sw_net := n2\<rparr>) (map_err STransport r)))
         | (r, n1) \<Rightarrow> delete (w\<lparr>sw_net := n1\<rparr>) (map_err STransport r))"

section \<open>The credential store contract\<close>

text \<open>What the keyring crate documents: an entry reads as last written, a deleted one is absent,
  and other accounts are not touched.\<close>

locale keyring_contract =
  fixes kr :: "'k keyring"
  assumes get_set: "kr_set_secret kr a secret k = Inr k' \<Longrightarrow>
      kr_get_secret kr b k' = (if b = a then Inr secret else kr_get_secret kr b k)"
    and get_delete: "kr_delete_credential kr a k = Inr k' \<Longrightarrow>
      kr_get_secret kr b k' = (if b = a then Inl True else kr_get_secret kr b k)"
    and delete_none: "kr_delete_credential kr a k = Inl True \<Longrightarrow> kr_get_secret kr a k = Inl True"

text \<open>What the session needs of \<open>CredentialStore\<close>, for scopes that are told apart.\<close>

locale credential_store =
  fixes get :: "'s \<Rightarrow> 'k \<Rightarrow> auth_error + byte list option"
    and set :: "'s \<Rightarrow> byte list \<Rightarrow> 'k \<Rightarrow> auth_error + 'k"
    and delete :: "'s \<Rightarrow> 'k \<Rightarrow> auth_error + 'k"
    and apart :: "'s \<Rightarrow> 's \<Rightarrow> bool"
  assumes set_get: "set sc secret k = Inr k' \<Longrightarrow> get sc k' = Inr (Some secret)"
    and set_apart: "set sc secret k = Inr k' \<Longrightarrow> apart sc other \<Longrightarrow> get other k' = get other k"
    and delete_get: "delete sc k = Inr k' \<Longrightarrow> get sc k' = Inr None"
    and delete_apart: "delete sc k = Inr k' \<Longrightarrow> apart sc other \<Longrightarrow> get other k' = get other k"
    and set_nonempty: "set sc secret k = Inr k' \<Longrightarrow> secret \<noteq> []"
begin

lemma get_nonempty_after_set: "set sc secret k = Inr k' \<Longrightarrow> \<exists>x. get sc k' = Inr (Some x) \<and> x \<noteq> []"
  using set_get set_nonempty by blast

end

definition accounts_apart :: "credential_scope \<Rightarrow> credential_scope \<Rightarrow> bool" where
  "accounts_apart s t = (credential_account s \<noteq> credential_account t)"

sublocale keyring_contract \<subseteq> credential_store "credential_get kr" "credential_set kr" "credential_delete kr"
    accounts_apart
proof
  fix sc secret k k'
  assume *: "credential_set kr sc secret k = Inr k'"
  then have ne: "secret \<noteq> []" and set: "kr_set_secret kr (credential_account sc) secret k = Inr k'"
    by (auto simp: credential_set_def map_err_Inr split: if_splits)
  show "secret \<noteq> []" by (fact ne)
  show "credential_get kr sc k' = Inr (Some secret)"
    by (simp add: credential_get_def get_set [OF set])
  show "accounts_apart sc other \<Longrightarrow> credential_get kr other k' = credential_get kr other k" for other
    by (simp add: credential_get_def get_set [OF set] accounts_apart_def)
next
  fix sc k k'
  assume *: "credential_delete kr sc k = Inr k'"
  then consider "kr_delete_credential kr (credential_account sc) k = Inr k'"
    | "kr_delete_credential kr (credential_account sc) k = Inl True" "k' = k"
    by (auto simp: credential_delete_def split: sum.splits bool.splits)
  note del = this
  show "credential_get kr sc k' = Inr None"
    using del by cases (simp_all add: credential_get_def get_delete delete_none)
  show "accounts_apart sc other \<Longrightarrow> credential_get kr other k' = credential_get kr other k" for other
    using del by cases (simp_all add: credential_get_def get_delete accounts_apart_def)
qed

context keyring_contract begin

lemma secret_stored: "credential_set kr sc secret k = Inr k' \<Longrightarrow> credential_get kr sc k' = Inr (Some secret)"
  by (rule set_get)

lemma secret_deleted: "credential_delete kr sc k = Inr k' \<Longrightarrow> credential_get kr sc k' = Inr None"
  by (rule delete_get)

lemma other_secret_kept:
  "credential_set kr sc secret k = Inr k' \<Longrightarrow> accounts_apart sc other \<Longrightarrow>
     credential_get kr other k' = credential_get kr other k"
  by (rule set_apart)

end

text \<open>The key names and the UUIDs of users and devices contain no separator, so the account of a
  scope determines it.\<close>

lemma takeWhile_before_sep: "c \<notin> List.set y \<Longrightarrow> takeWhile (\<lambda>d. d \<noteq> c) (y @ c # x) = y"
  by (induction y) auto

lemma append_sep_inj:
  assumes "x @ c # y = x' @ c # y'" and "c \<notin> List.set y" and "c \<notin> List.set y'"
  shows "x = x' \<and> y = y'"
proof -
  from assms(1) have "rev y @ c # rev x = rev y' @ c # rev x'"
    by (metis append_Cons append_Nil append_assoc rev.simps(2) rev_append)
  then have "rev y = rev y'"
    using takeWhile_before_sep [of c "rev y" "rev x"] takeWhile_before_sep [of c "rev y'" "rev x'"]
      assms(2,3) by simp
  with assms(1) show ?thesis by simp
qed

lemma credential_key_name_inj: "credential_key_name k = credential_key_name k' \<Longrightarrow> k = k'"
  by (cases k; cases k') simp_all

lemma credential_key_name_plain: "CHR ''|'' \<notin> List.set (credential_key_name k)"
  by (cases k) simp_all

lemma credential_account_inj:
  assumes "credential_account s = credential_account t"
    and "CHR ''|'' \<notin> List.set (cs_user_id s) \<union> List.set (cs_device_id s)"
    and "CHR ''|'' \<notin> List.set (cs_user_id t) \<union> List.set (cs_device_id t)"
  shows "s = t"
proof -
  from assms(1) have "(cs_server_origin s @ ''|'' @ cs_user_id s @ ''|'' @ cs_device_id s) @ CHR ''|'' # credential_key_name (cs_key s)
      = (cs_server_origin t @ ''|'' @ cs_user_id t @ ''|'' @ cs_device_id t) @ CHR ''|'' # credential_key_name (cs_key t)"
    by (simp add: credential_account_def)
  from append_sep_inj [OF this credential_key_name_plain credential_key_name_plain]
  have key: "cs_key s = cs_key t" and
    "(cs_server_origin s @ ''|'' @ cs_user_id s) @ CHR ''|'' # cs_device_id s
      = (cs_server_origin t @ ''|'' @ cs_user_id t) @ CHR ''|'' # cs_device_id t"
    by (auto dest: credential_key_name_inj)
  from append_sep_inj [OF this(2)] assms(2,3)
  have dev: "cs_device_id s = cs_device_id t" and
    "cs_server_origin s @ CHR ''|'' # cs_user_id s = cs_server_origin t @ CHR ''|'' # cs_user_id t"
    by auto
  from append_sep_inj [OF this(2)] assms(2,3) key dev show ?thesis by (cases s; cases t) auto
qed

text \<open>A keyring kept as a table, as the credential store of the session tests keeps it.\<close>

definition table_keyring :: "(string, byte list) table keyring" where
  "table_keyring = \<lparr>
     kr_get_secret = (\<lambda>a k. case tbl_get k a of None \<Rightarrow> Inl True | Some secret \<Rightarrow> Inr secret),
     kr_set_secret = (\<lambda>a secret k. Inr (tbl_put a secret k)),
     kr_delete_credential = (\<lambda>a k. if tbl_has k a then Inr (tbl_del a k) else Inl True)\<rparr>"

interpretation memory: keyring_contract table_keyring
  by unfold_locales (auto simp: table_keyring_def tbl_has_get split: option.splits if_splits)

text \<open>Tokens are ASCII, so a stored token is read back as it was issued.\<close>

lemma unat_of_char: "unat (word_of_nat (of_char c) :: byte) = of_char c"
  by (simp add: unat_of_nat take_bit_nat_eq_self of_char_def) 

lemma stored_ascii: "(\<And>c. c \<in> set t \<Longrightarrow> of_char c < (128 :: nat)) \<Longrightarrow> string_from_utf8 (string_bytes t) = Some t"
  by (auto simp: string_from_utf8_def string_bytes_def o_def unat_of_char intro!: valid_utf8_ascii map_idI)

section \<open>Tokens in use and tokens stored\<close>

text \<open>The token pairs the Server issued to the identity of a session, by a refresh or by the login
  the session started with.\<close>

definition pair_issued :: "'n sync_transport \<Rightarrow> session_info \<Rightarrow> string \<Rightarrow> string \<Rightarrow> bool" where
  "pair_issued tr s access refresh = (
     (\<exists>presented n t n'. tr_refresh tr (sx_server_origin s) presented n = (Inr t, n')
        \<and> matches_identity t s \<and> rt_access_token t = access \<and> rt_refresh_token t = refresh)
   \<or> (\<exists>credentials n i n'. tr_login tr (sx_server_origin s) credentials n = (Inr i, n')
        \<and> li_device_id i = lc_device_id credentials \<and> li_platform i = lc_platform credentials
        \<and> li_user_id i = sx_user_id s \<and> li_username i = sx_username s
        \<and> li_device_id i = sx_device_id s \<and> li_platform i = sx_platform s
        \<and> li_access_token i = access \<and> li_refresh_token i = refresh))"

text \<open>The stored token belongs to the access token; after a logout (\<open>out\<close>) it may be gone.\<close>

definition paired_with ::
  "'n sync_transport \<Rightarrow> 'k keyring \<Rightarrow> session_info \<Rightarrow> bool \<Rightarrow> string \<Rightarrow> 'k \<Rightarrow> bool" where
  "paired_with tr kr s out access k = (\<exists>refresh. pair_issued tr s access refresh
     \<and> (credential_get kr (session_scope s) k = Inr (Some (string_bytes refresh))
        \<or> out \<and> credential_get kr (session_scope s) k = Inr None))"

definition paired :: "'n sync_transport \<Rightarrow> 'k keyring \<Rightarrow> session_info \<Rightarrow> bool \<Rightarrow> ('k, 'n) session_world \<Rightarrow> bool" where
  "paired tr kr s out w = paired_with tr kr s out (sw_token w) (sw_keyring w)"

text \<open>What the tasks that share a session do to it. The refresh gate lets one rotation run at a time; where
  it stands is the second component of the state. A task that finds the gate free may run through at
  once, with its rotation; otherwise a rotation is cut at its awaits: the stored token is read and
  presented, the answer arrives, the new refresh token is stored, its access token becomes visible, and
  requests of other tasks, or the deletion at the end of a logout, which does not take the gate, happen in
  between. \<open>out\<close> says whether anything logs out.\<close>

datatype rotation = GateFree | Presented string | Answered refreshed_tokens | Persisted refreshed_tokens

inductive session_step ::
  "'n sync_transport \<Rightarrow> 'k keyring \<Rightarrow> session_info \<Rightarrow> bool
    \<Rightarrow> ('k, 'n) session_world \<times> rotation \<Rightarrow> ('k, 'n) session_world \<times> rotation \<Rightarrow> bool"
  for tr kr s out where
  push: "session_push tr kr s events w = (r, w') \<Longrightarrow> session_step tr kr s out (w, GateFree) (w', GateFree)"
| changes: "session_changes tr kr s since limit w = (r, w') \<Longrightarrow> session_step tr kr s out (w, GateFree) (w', GateFree)"
| devices: "session_devices tr kr s w = (r, w') \<Longrightarrow> session_step tr kr s out (w, GateFree) (w', GateFree)"
| revoke: "session_revoke_device tr kr s device w = (r, w') \<Longrightarrow> session_step tr kr s out (w, GateFree) (w', GateFree)"
| refreshed: "refresh_after tr kr s rejected w = (r, w') \<Longrightarrow> session_step tr kr s out (w, GateFree) (w', GateFree)"
| logout: "session_logout tr kr s w = (r, w') \<Longrightarrow> out \<Longrightarrow> session_step tr kr s out (w, GateFree) (w', GateFree)"
| present: "stored_refresh kr (session_scope s) (sw_keyring w) = Inr token \<Longrightarrow>
    session_step tr kr s out (w, GateFree) (w, Presented token)"
| refused: "tr_refresh tr (sx_server_origin s) token (sw_net w) = (a, n) \<Longrightarrow>
    (case a of Inl _ \<Rightarrow> True | Inr tokens \<Rightarrow> \<not> matches_identity tokens s) \<Longrightarrow>
    session_step tr kr s out (w, Presented token) (w\<lparr>sw_net := n\<rparr>, GateFree)"
| answered: "tr_refresh tr (sx_server_origin s) token (sw_net w) = (Inr tokens, n) \<Longrightarrow> matches_identity tokens s \<Longrightarrow>
    session_step tr kr s out (w, Presented token) (w\<lparr>sw_net := n\<rparr>, Answered tokens)"
| unstored: "credential_set kr (session_scope s) (string_bytes (rt_refresh_token tokens)) (sw_keyring w) = Inl e \<Longrightarrow>
    session_step tr kr s out (w, Answered tokens) (w, GateFree)"
| stored: "credential_set kr (session_scope s) (string_bytes (rt_refresh_token tokens)) (sw_keyring w) = Inr k \<Longrightarrow>
    session_step tr kr s out (w, Answered tokens) (w\<lparr>sw_keyring := k\<rparr>, Persisted tokens)"
| visible: "session_step tr kr s out (w, Persisted tokens)
    (w\<lparr>sw_token := rt_access_token tokens, sw_expires_at := rt_access_expires_at tokens\<rparr>, GateFree)"
| traffic: "session_step tr kr s out (w, g) (w\<lparr>sw_net := n\<rparr>, g)"
| forget: "credential_delete kr (session_scope s) (sw_keyring w) = Inr k \<Longrightarrow> out \<Longrightarrow>
    session_step tr kr s out (w, g) (w\<lparr>sw_keyring := k\<rparr>, g)"

lemma rotate_cases:
  assumes "rotate tr kr s k n = (r, n')"
  obtains (failed) e where "r = Inl e"
  | (rotated) presented tokens k1 where "r = Inr (tokens, k1)" "stored_refresh kr (session_scope s) k = Inr presented"
      "tr_refresh tr (sx_server_origin s) presented n = (Inr tokens, n')" "matches_identity tokens s"
      "credential_set kr (session_scope s) (string_bytes (rt_refresh_token tokens)) k = Inr k1"
  using assms that
  by (auto simp: rotate_def map_err_Inr rbind_Inr split: sum.splits prod.splits if_splits)
     (metis map_err_Inr rbind_Inr sum.exhaust)

lemma rotate_paired:
  assumes "keyring_contract kr" and "rotate tr kr s k n = (Inr (tokens, k1), n')"
  shows "pair_issued tr s (rt_access_token tokens) (rt_refresh_token tokens)"
    and "credential_get kr (session_scope s) k1 = Inr (Some (string_bytes (rt_refresh_token tokens)))"
  using assms(2) by (cases rule: rotate_cases; auto simp: pair_issued_def keyring_contract.secret_stored [OF assms(1)])+

lemma refresh_after_cases:
  assumes "refresh_after tr kr s rejected w = (r, w')"
  obtains (current) "sw_token w \<noteq> rejected" "r = Inr ()" "w' = w"
  | (failed) e n1 where "sw_token w = rejected" "r = Inl e" "w' = w\<lparr>sw_net := n1\<rparr>"
  | (rotated) tokens k1 n1 where "sw_token w = rejected" "r = Inr ()"
      "rotate tr kr s (sw_keyring w) (sw_net w) = (Inr (tokens, k1), n1)"
      "w' = w\<lparr>sw_token := rt_access_token tokens, sw_expires_at := rt_access_expires_at tokens,
                     sw_keyring := k1, sw_net := n1\<rparr>"
  using assms that
  by (auto simp: refresh_after_def split: sum.splits prod.splits if_splits)

lemma refresh_after_paired:
  assumes "keyring_contract kr" and "refresh_after tr kr s rejected w = (r, w')" and "paired tr kr s out w"
  shows "paired tr kr s out w'"
  using assms(2)
proof (cases rule: refresh_after_cases)
  case (rotated tokens k1 n1)
  with rotate_paired [OF assms(1) rotated(3)] show ?thesis by (auto simp: paired_def paired_with_def)
qed (use assms(3) in \<open>simp_all add: paired_def\<close>)

lemma call_with_refresh_cases:
  assumes "call_with_refresh tr kr s call w = (r, w')"
  obtains (direct) n1 where "w' = w\<lparr>sw_net := n1\<rparr>"
  | (refreshed) n1 r1 w1 n2 where "refresh_after tr kr s (sw_token w) (w\<lparr>sw_net := n1\<rparr>) = (r1, w1)"
      "w' = w1\<lparr>sw_net := n2\<rparr>"
proof -
  obtain r0 n1 where call: "call (sw_token w) (sw_net w) = (r0, n1)" by fastforce
  show thesis
  proof (cases "r0 = Inl TAccessExpired")
    case True
    obtain r1 w1 where again: "refresh_after tr kr s (sw_token w) (w\<lparr>sw_net := n1\<rparr>) = (r1, w1)" by fastforce
    have "\<exists>n2. w' = w1\<lparr>sw_net := n2\<rparr>"
    proof (cases r1)
      case (Inl e)
      with assms have "w' = w1\<lparr>sw_net := sw_net w1\<rparr>" by (simp add: call_with_refresh_def call True again)
      then show ?thesis ..
    next
      case (Inr u)
      with assms show ?thesis by (auto simp: call_with_refresh_def call True again split: prod.splits)
    qed
    then obtain n2 where "w' = w1\<lparr>sw_net := n2\<rparr>" ..
    with again show ?thesis by (rule refreshed)
  next
    case False
    then have "w' = w\<lparr>sw_net := n1\<rparr>"
      using assms by (auto simp: call_with_refresh_def call split: sum.splits transport_error.splits)
    then show ?thesis by (rule direct)
  qed
qed

lemma paired_net [simp]: "paired tr kr s out (w\<lparr>sw_net := n\<rparr>) = paired tr kr s out w"
  by (simp add: paired_def)

lemma call_with_refresh_paired:
  assumes "keyring_contract kr" and "call_with_refresh tr kr s call w = (r, w')" and "paired tr kr s out w"
  shows "paired tr kr s out w'"
  using assms(2)
proof (cases rule: call_with_refresh_cases)
  case (refreshed n1 r1 w1 n2)
  with refresh_after_paired [OF assms(1) refreshed(1)] assms(3) show ?thesis by simp
qed (simp add: assms(3))

text \<open>A logout may rotate the tokens first; then it deletes the stored one, or reports that it could not.\<close>

definition before_deletion ::
  "'n sync_transport \<Rightarrow> 'k keyring \<Rightarrow> session_info \<Rightarrow> ('k, 'n) session_world \<Rightarrow> ('k, 'n) session_world \<Rightarrow> bool" where
  "before_deletion tr kr s w w1 \<longleftrightarrow> (\<exists>n1. w1 = w\<lparr>sw_net := n1\<rparr>)
     \<or> (\<exists>n1 r1 w0 n2. refresh_after tr kr s (sw_token w) (w\<lparr>sw_net := n1\<rparr>) = (r1, w0) \<and> w1 = w0\<lparr>sw_net := n2\<rparr>)"

definition delete_stored ::
  "'k keyring \<Rightarrow> session_info \<Rightarrow> session_error + unit \<Rightarrow> ('k, 'n) session_world
    \<Rightarrow> (session_error + unit) \<times> ('k, 'n) session_world" where
  "delete_stored kr s q w = (case credential_delete kr (session_scope s) (sw_keyring w) of
       Inl e \<Rightarrow> (Inl (SCredentialStore e), w) | Inr k1 \<Rightarrow> (q, w\<lparr>sw_keyring := k1\<rparr>))"

lemma session_logout_split:
  assumes "session_logout tr kr s w = (r, w')"
  obtains w1 q where "before_deletion tr kr s w w1" "delete_stored kr s q w1 = (r, w')"
proof -
  obtain r0 n1 where call: "tr_logout tr (sx_server_origin s) (sw_token w) (sw_net w) = (r0, n1)" by fastforce
  show thesis
  proof (cases "r0 = Inl TAccessExpired")
    case True
    obtain r1 w0 where again: "refresh_after tr kr s (sw_token w) (w\<lparr>sw_net := n1\<rparr>) = (r1, w0)" by fastforce
    obtain r2 n2 where second: "tr_logout tr (sx_server_origin s) (sw_token w0) (sw_net w0) = (r2, n2)" by fastforce
    have b: "before_deletion tr kr s w (w0\<lparr>sw_net := n\<rparr>)" for n
      unfolding before_deletion_def using again by blast
    show ?thesis
    proof (cases r1)
      case (Inl e)
      show ?thesis
        by (rule that [of w0 "Inl e"]) (use assms again call True Inl b [of "sw_net w0"] in
          \<open>simp_all add: session_logout_def delete_stored_def Let_def\<close>)
    next
      case (Inr u)
      show ?thesis
        by (rule that [OF b [of n2], of "map_err STransport r2"]) (use assms again call True Inr second in
          \<open>simp add: session_logout_def delete_stored_def Let_def\<close>)
    qed
  next
    case False
    then have "session_logout tr kr s w = delete_stored kr s (map_err STransport r0) (w\<lparr>sw_net := n1\<rparr>)"
      by (cases r0 rule: sum.exhaust)
        (auto simp: session_logout_def delete_stored_def call Let_def cong: sum.case_cong split: transport_error.splits)
    with assms show ?thesis by (intro that [of "w\<lparr>sw_net := n1\<rparr>"]) (auto simp: before_deletion_def)
  qed
qed

lemma session_logout_paired:
  assumes "keyring_contract kr" and "session_logout tr kr s w = (r, w')" and "paired tr kr s True w"
  shows "paired tr kr s True w'"
proof -
  obtain w1 q where w1: "before_deletion tr kr s w w1" "delete_stored kr s q w1 = (r, w')"
    using assms(2) by (rule session_logout_split)
  have before: "paired tr kr s True w1"
    using w1(1) assms(3) unfolding before_deletion_def
    by (elim disjE exE conjE) (auto dest: refresh_after_paired [OF assms(1)])
  show ?thesis
  proof (cases "credential_delete kr (session_scope s) (sw_keyring w1)")
    case (Inl e)
    then show ?thesis using w1(2) before by (simp add: delete_stored_def)
  next
    case (Inr k)
    then show ?thesis using w1(2) before keyring_contract.secret_deleted [OF assms(1) Inr]
      by (auto simp: paired_def paired_with_def delete_stored_def)
  qed
qed

text \<open>While a new refresh token is stored and its access token not yet visible, it is the new pair that is
  stored.\<close>

definition rotation_paired ::
  "'n sync_transport \<Rightarrow> 'k keyring \<Rightarrow> session_info \<Rightarrow> bool \<Rightarrow> ('k, 'n) session_world \<times> rotation \<Rightarrow> bool" where
  "rotation_paired tr kr s out c = (case c of (w, g) \<Rightarrow>
     (case g of
        Persisted tokens \<Rightarrow> paired_with tr kr s out (rt_access_token tokens) (sw_keyring w)
      | Answered tokens \<Rightarrow> paired tr kr s out w \<and> pair_issued tr s (rt_access_token tokens) (rt_refresh_token tokens)
      | _ \<Rightarrow> paired tr kr s out w))"

lemma session_step_paired:
  assumes "keyring_contract kr" and "session_step tr kr s out c c'" and "rotation_paired tr kr s out c"
  shows "rotation_paired tr kr s out c'"
  using assms(2,3)
proof (induction rule: session_step.induct)
  case (logout w r w')
  then show ?case using session_logout_paired [OF assms(1)] by (auto simp: rotation_paired_def)
next
  case (answered token w tokens n)
  then show ?case by (auto simp: rotation_paired_def pair_issued_def)
next
  case (stored tokens w k)
  then show ?case using keyring_contract.secret_stored [OF assms(1) stored(1)]
    by (auto simp: rotation_paired_def paired_with_def)
next
  case (visible w tokens)
  then show ?case by (simp add: rotation_paired_def paired_def)
next
  case (traffic w g n)
  then show ?case by (cases g) (simp_all add: rotation_paired_def)
next
  case (forget w k g)
  then show ?case using keyring_contract.secret_deleted [OF assms(1) forget(1)]
    by (cases g) (auto simp: rotation_paired_def paired_def paired_with_def)
qed (auto simp: rotation_paired_def session_push_def session_changes_def session_devices_def session_revoke_device_def
      intro: call_with_refresh_paired [OF assms(1)] refresh_after_paired [OF assms(1)])

lemma session_steps_paired:
  assumes "keyring_contract kr" and "(session_step tr kr s out)\<^sup>*\<^sup>* c c'" and "rotation_paired tr kr s out c"
  shows "rotation_paired tr kr s out c'"
  using assms(2,3) by (induction rule: rtranclp_induct) (auto intro: session_step_paired [OF assms(1)])

lemma session_resume_paired:
  assumes "keyring_contract kr" and "session_resume tr kr s k n = (Inr w, k', n')"
  shows "paired tr kr s out w"
proof -
  from assms(2) obtain tokens k1 n1 where rot: "rotate tr kr s k n = (Inr (tokens, k1), n1)"
    and w: "w = \<lparr>sw_token = rt_access_token tokens, sw_expires_at = rt_access_expires_at tokens,
                sw_keyring = k1, sw_net = n1\<rparr>"
    by (auto simp: session_resume_def split: sum.splits prod.splits)
  show ?thesis using rotate_paired [OF assms(1) rot] by (auto simp: paired_def paired_with_def w)
qed

lemma session_login_paired:
  assumes "keyring_contract kr" and "session_login tr kr origin credentials k n = (Inr (s, i), Some w, k', n')"
  shows "paired tr kr s out w"
proof -
  from assms(2) obtain n1 k1 where login: "tr_login tr origin credentials n = (Inr i, n1)"
    and same: "li_device_id i = lc_device_id credentials" "li_platform i = lc_platform credentials"
    and set: "credential_set kr (refresh_scope origin (li_user_id i) (li_device_id i))
        (string_bytes (li_refresh_token i)) k = Inr k1"
    and s: "s = \<lparr>sx_server_origin = origin, sx_user_id = li_user_id i, sx_username = li_username i,
        sx_device_id = li_device_id i, sx_platform = li_platform i\<rparr>"
    and w: "w = \<lparr>sw_token = li_access_token i, sw_expires_at = li_access_expires_at i, sw_keyring = k1, sw_net = n1\<rparr>"
    by (auto simp: session_login_def split: sum.splits prod.splits if_splits)
  have "pair_issued tr s (li_access_token i) (li_refresh_token i)"
    unfolding pair_issued_def
    by (rule disjI2, rule exI [of _ credentials], rule exI [of _ n], rule exI [of _ i], rule exI [of _ n1])
      (simp add: s login same)
  moreover have "credential_get kr (session_scope s) k1 = Inr (Some (string_bytes (li_refresh_token i)))"
    using keyring_contract.secret_stored [OF assms(1) set] by (simp add: s session_scope_def)
  ultimately show ?thesis by (auto simp: paired_def paired_with_def w)
qed

section \<open>Properties\<close>

lemma session_logout_deletes:
  assumes "session_logout tr kr s w = (r, w')"
  shows "(\<exists>e. r = Inl (SCredentialStore e))
    \<or> (\<exists>k. credential_delete kr (session_scope s) k = Inr (sw_keyring w'))"
  using assms by (rule session_logout_split) (auto simp: delete_stored_def split: sum.splits)

text \<open>
  C18: a session that was opened by a login or resumed keeps the refresh token stored that was issued
  together with the access token in use, whatever calls its tasks make, however they interleave with
  the awaits of a rotation and however the network answers. Between storing a rotated token and using
  its access token the stored one is the newer of the two. If something logs out, also in the middle of
  a rotation, the stored token is such a one or there is none; without a logout it is never missing. A
  crash at any point can therefore resume the session, or finds it logged out: the token on disk is
  never older than the token in memory.
\<close>

theorem session_tokens_paired:
  assumes "keyring_contract kr"
    and "session_login tr kr (sx_server_origin s) credentials k0 n0 = (Inr (s, i), Some w, k, n)
       \<or> session_resume tr kr s k0 n0 = (Inr w, k, n)"
    and "(session_step tr kr s out)\<^sup>*\<^sup>* (w, GateFree) (w', g)"
  shows "\<exists>refresh.
      pair_issued tr s (case g of Persisted tokens \<Rightarrow> rt_access_token tokens | _ \<Rightarrow> sw_token w') refresh
    \<and> (credential_get kr (session_scope s) (sw_keyring w') = Inr (Some (string_bytes refresh))
       \<or> out \<and> credential_get kr (session_scope s) (sw_keyring w') = Inr None)"
proof -
  have "paired tr kr s out w"
    using assms(2) by (auto intro: session_login_paired [OF assms(1)] session_resume_paired [OF assms(1)])
  then have "rotation_paired tr kr s out (w', g)"
    using session_steps_paired [OF assms(1,3)] by (simp add: rotation_paired_def)
  then show ?thesis by (cases g) (auto simp: rotation_paired_def paired_def paired_with_def)
qed

text \<open>The callers that the same expired token was refused for, one after the other through the
  refresh gate, with the traffic \<open>fs\<close> of other requests in between.\<close>

fun refresh_queue ::
  "'n sync_transport \<Rightarrow> 'k keyring \<Rightarrow> session_info \<Rightarrow> string \<Rightarrow> ('n \<Rightarrow> 'n) list \<Rightarrow> ('k, 'n) session_world
    \<Rightarrow> (session_error + unit) list \<times> ('k, 'n) session_world" where
  "refresh_queue tr kr s rejected [] w = ([], w)"
| "refresh_queue tr kr s rejected (f # fs) w =
     (case refresh_after tr kr s rejected (w\<lparr>sw_net := f (sw_net w)\<rparr>) of
        (r, w1) \<Rightarrow> (case refresh_queue tr kr s rejected fs w1 of (rs, w2) \<Rightarrow> (r # rs, w2)))"

lemma refresh_queue_current:
  "sw_token w \<noteq> rejected \<Longrightarrow> refresh_queue tr kr s rejected fs w
     = (replicate (length fs) (Inr ()), w\<lparr>sw_net := fold (\<lambda>f. f) fs (sw_net w)\<rparr>)"
  by (induction fs arbitrary: w) (simp_all add: refresh_after_def)

text \<open>
  When several calls are refused for the same expired access token, the refresh token is presented
  to the Server once: after the first of them has rotated it, every other caller finds the new access
  token, succeeds, and leaves the credential store as the first one left it.
\<close>

theorem expired_token_rotated_once:
  assumes "refresh_after tr kr s rejected (w\<lparr>sw_net := f (sw_net w)\<rparr>) = (Inr (), w1)"
    and "sw_token w1 \<noteq> rejected"
  shows "refresh_queue tr kr s rejected (f # fs) w
    = (replicate (Suc (length fs)) (Inr ()), w1\<lparr>sw_net := fold (\<lambda>g. g) fs (sw_net w1)\<rparr>)"
  using refresh_queue_current [OF assms(2)] by (simp add: assms(1))

text \<open>
  After a logout no refresh token is left on the device, even when the Server could not be reached
  or refused the request, unless the credential store itself reported the failure. A later resume of
  the session stops before it sends anything.
\<close>

theorem logout_forgets_credential:
  assumes "keyring_contract kr" and "session_logout tr kr s w = (r, w')"
    and "\<And>e. r \<noteq> Inl (SCredentialStore e)"
  shows "credential_get kr (session_scope s) (sw_keyring w') = Inr None
    \<and> session_resume tr kr s (sw_keyring w') n = (Inl NoPersistentSession, sw_keyring w', n)"
proof -
  from session_logout_deletes [OF assms(2)] assms(3) obtain k
    where "credential_delete kr (session_scope s) k = Inr (sw_keyring w')" by blast
  then have "credential_get kr (session_scope s) (sw_keyring w') = Inr None"
    by (rule keyring_contract.secret_deleted [OF assms(1)])
  then show ?thesis by (simp add: session_resume_def rotate_def stored_refresh_def)
qed

section \<open>An example session\<close>

text \<open>A Server that numbers its token pairs; its state is the number of the live pair and whether the
  access token has expired.\<close>

definition example_access :: "nat \<Rightarrow> string" where
  "example_access n = ''at-'' @ replicate n CHR ''i''"

definition example_refresh :: "nat \<Rightarrow> string" where
  "example_refresh n = ''rt-'' @ replicate n CHR ''i''"

definition example_call :: "string \<Rightarrow> 'a \<Rightarrow> nat \<times> bool \<Rightarrow> (transport_error + 'a) \<times> nat \<times> bool" where
  "example_call token answer n =
     (if token = example_access (fst n) \<and> \<not> snd n then (Inr answer, n) else (Inl TAccessExpired, n))"

definition example_transport :: "(nat \<times> bool) sync_transport" where
  "example_transport = \<lparr>
     tr_login = (\<lambda>_ c n. (Inr \<lparr>li_user_id = ''user'', li_username = lc_username c,
        li_device_id = lc_device_id c, li_platform = lc_platform c,
        li_access_token = example_access (Suc (fst n)), li_access_expires_at = 100,
        li_refresh_token = example_refresh (Suc (fst n)), li_latest_revision = 0\<rparr>, (Suc (fst n), False))),
     tr_refresh = (\<lambda>_ presented n.
        if presented = example_refresh (fst n)
        then (Inr \<lparr>rt_user_id = ''user'', rt_username = ''name'', rt_device_id = ''device'',
          rt_platform = ''macos'', rt_access_token = example_access (Suc (fst n)),
          rt_access_expires_at = 200, rt_refresh_token = example_refresh (Suc (fst n))\<rparr>, (Suc (fst n), False))
        else (Inl TSessionInvalid, n)),
     tr_logout = (\<lambda>_ token n. (Inl Offline, n)),
     tr_push = (\<lambda>_ token events. example_call token \<lparr>pr_acknowledgements = [], pr_latest_revision = 1\<rparr>),
     tr_changes = (\<lambda>_ token since limit n. (Inl Offline, n)),
     tr_devices = (\<lambda>_ token. example_call token []),
     tr_revoke_device = (\<lambda>_ token device. example_call token ())\<rparr>"

definition example_session :: session_info where
  "example_session = \<lparr>sx_server_origin = ''https://server'', sx_user_id = ''user'', sx_username = ''name'',
     sx_device_id = ''device'', sx_platform = ''macos''\<rparr>"

definition example_world :: "nat \<Rightarrow> bool \<Rightarrow> ((string, byte list) table, nat \<times> bool) session_world" where
  "example_world n expired = \<lparr>sw_token = example_access n, sw_expires_at = int (100 * n),
     sw_keyring = [(credential_account (session_scope example_session), string_bytes (example_refresh n))],
     sw_net = (n, expired)\<rparr>"

lemma example_world_simps:
  "sw_token (example_world n b) = example_access n" "sw_net (example_world n b) = (n, b)"
  "example_world n b\<lparr>sw_net := (n, b)\<rparr> = example_world n b"
  by (simp_all add: example_world_def)

lemma example_access_differ: "example_access 2 \<noteq> example_access 1"
  by (simp add: example_access_def numeral_2_eq_2)

lemma example_bytes:
  "string_bytes (example_refresh n) \<noteq> []"
  "string_from_utf8 (string_bytes (example_refresh n)) = Some (example_refresh n)"
proof -
  show "string_bytes (example_refresh n) \<noteq> []" by (simp add: example_refresh_def string_bytes_def)
  show "string_from_utf8 (string_bytes (example_refresh n)) = Some (example_refresh n)"
    by (rule stored_ascii) (auto simp: example_refresh_def)
qed

lemmas example_session_eval = example_transport_def example_session_def example_world_def session_scope_def
  refresh_scope_def credential_set_def credential_get_def credential_delete_def table_keyring_def tbl_get_def
  tbl_put_def tbl_has_def tbl_del_def tbl_keep_def example_bytes matches_identity_def rotate_def
  stored_refresh_def refresh_after_def example_access_def

lemma example_login_session: "\<exists>i. session_login example_transport table_keyring ''https://server''
    \<lparr>lc_username = ''name'', lc_password = ''secret'', lc_device_id = ''device'', lc_platform = ''macos'',
     lc_device_name = None\<rparr> [] (0, False) = (Inr (example_session, i), Some (example_world 1 False),
       sw_keyring (example_world 1 False), (1, False))"
  by (simp add: session_login_def example_session_eval)

lemma example_refreshed: "refresh_after example_transport table_keyring example_session (example_access 1)
    (example_world 1 True) = (Inr (), example_world 2 False)"
  by (simp add: example_session_eval numeral_2_eq_2)

lemma example_pushed: "session_push example_transport table_keyring example_session [] (example_world 1 True)
    = (Inr \<lparr>pr_acknowledgements = [], pr_latest_revision = 1\<rparr>, example_world 2 False)"
proof -
  have "tr_push example_transport (sx_server_origin example_session) (example_access 1) [] (1, True)
      = (Inl TAccessExpired, (1, True))"
    and "tr_push example_transport (sx_server_origin example_session) (example_access 2) [] (2, False)
      = (Inr \<lparr>pr_acknowledgements = [], pr_latest_revision = 1\<rparr>, (2, False))"
    by (simp_all add: example_transport_def example_call_def)
  then show ?thesis
    using example_refreshed by (simp add: session_push_def call_with_refresh_def example_world_simps)
qed

text \<open>The token expires, a push rotates it, and a logout that finds the Server offline deletes the stored one.\<close>

lemma example_logged_out: "session_logout example_transport table_keyring example_session (example_world n False)
    = (Inl (STransport Offline), (example_world n False)\<lparr>sw_keyring := []\<rparr>)"
  by (simp add: session_logout_def example_session_eval)

lemma example_session_run:
  "(session_step example_transport table_keyring example_session out)\<^sup>*\<^sup>* (example_world 1 False, GateFree) (example_world 2 False, GateFree)"
proof -
  have "session_step example_transport table_keyring example_session out (example_world 1 False, GateFree) (example_world 1 True, GateFree)"
    using session_step.traffic [of example_transport table_keyring example_session out "example_world 1 False" GateFree "(1, True)"]
    by (simp add: example_world_def)
  then show ?thesis using session_step.push [OF example_pushed] by (meson converse_rtranclp_into_rtranclp rtranclp.rtrancl_refl)
qed

theorem session_tokens_paired_witness:
  "(\<exists>refresh. pair_issued example_transport example_session (sw_token (example_world 2 False)) refresh
     \<and> credential_get table_keyring (session_scope example_session) (sw_keyring (example_world 2 False))
         = Inr (Some (string_bytes refresh)))
   \<and> (\<exists>refresh. pair_issued example_transport example_session (sw_token (example_world 2 False)) refresh)
   \<and> credential_get table_keyring (session_scope example_session) [] = Inr None"
proof -
  obtain i where "session_login example_transport table_keyring (sx_server_origin example_session)
      \<lparr>lc_username = ''name'', lc_password = ''secret'', lc_device_id = ''device'', lc_platform = ''macos'',
       lc_device_name = None\<rparr> [] (0, False) = (Inr (example_session, i), Some (example_world 1 False),
         sw_keyring (example_world 1 False), (1, False))"
    using example_login_session by (auto simp: example_session_def)
  note paired = session_tokens_paired [OF memory.keyring_contract_axioms disjI1 [OF this]]
  have "(session_step example_transport table_keyring example_session True)\<^sup>*\<^sup>*
      (example_world 1 False, GateFree) (example_world 2 False\<lparr>sw_keyring := []\<rparr>, GateFree)"
    by (rule rtranclp.rtrancl_into_rtrancl [OF example_session_run session_step.logout [OF example_logged_out TrueI]])
  from paired [OF this] paired [OF example_session_run, of False] show ?thesis
    by (auto simp: credential_get_def table_keyring_def tbl_get_def)
qed

theorem expired_token_rotated_once_witness:
  "refresh_queue example_transport table_keyring example_session (example_access 1) [id, id, id] (example_world 1 True)
    = (replicate 3 (Inr ()), example_world 2 False)"
proof -
  have "refresh_after example_transport table_keyring example_session (example_access 1)
      (example_world 1 True\<lparr>sw_net := id (sw_net (example_world 1 True))\<rparr>) = (Inr (), example_world 2 False)"
    using example_refreshed by (simp only: example_world_simps id_apply)
  moreover have "sw_token (example_world 2 False) \<noteq> example_access 1"
    by (simp only: example_world_simps example_access_differ not_False_eq_True)
  ultimately have "refresh_queue example_transport table_keyring example_session (example_access 1)
      [id, id, id] (example_world 1 True) = (replicate (Suc (length [id, id :: nat \<times> bool \<Rightarrow> nat \<times> bool])) (Inr ()),
        example_world 2 False\<lparr>sw_net := fold (\<lambda>g. g) [id, id] (sw_net (example_world 2 False))\<rparr>)"
    by (rule expired_token_rotated_once)
  then show ?thesis by (simp only: example_world_simps fold_simps id_apply list.size) (simp add: numeral_3_eq_3)
qed

theorem logout_forgets_credential_witness:
  "session_logout example_transport table_keyring example_session (example_world 1 False)
     = (Inl (STransport Offline), (example_world 1 False)\<lparr>sw_keyring := []\<rparr>)
   \<and> session_resume example_transport table_keyring example_session [] (1, False)
     = (Inl NoPersistentSession, [], (1, False))"
proof -
  have out: "session_logout example_transport table_keyring example_session (example_world 1 False)
     = (Inl (STransport Offline), (example_world 1 False)\<lparr>sw_keyring := []\<rparr>)"
    by (simp add: session_logout_def example_session_eval)
  with logout_forgets_credential [OF memory.keyring_contract_axioms out, of "(1, False)"] show ?thesis by simp
qed

end
