(* ===== verification/Sync_Engine.thy ===== *)
theory Sync_Engine
  imports Database_Worker Sync_Session
begin

text \<open>
  The Desktop's sync engine, \<open>apps/desktop/src/sync_engine.rs\<close>: one cycle pushes a batch of pending
  events and then pulls every page of remote changes; the worker loop repeats cycles on local changes,
  revision notices and retry deadlines. The engine's state is the database worker together with the
  session. While a request is in flight, other jobs may run on the database thread: the field
  \<open>ee_meanwhile\<close> is whatever they do.
\<close>

section \<open>State, errors and messages\<close>

datatype sync_engine_error =
  EDatabase database_worker_error | ESession session_error | EInvalidResponse | EClock

record ('k, 'n) engine_state =
  es_worker :: worker_state
  es_session :: "('k, 'n) session_world"

record ('k, 'n) sync_engine =
  ee_unicode :: unicode_db
  ee_sha256 :: sha256
  ee_uuid :: uuid_parser
  ee_transport :: "'n sync_transport"
  ee_keyring :: "'k keyring"
  ee_info :: session_info
  ee_push_batch :: u32
  ee_pull_page :: u32
  ee_meanwhile :: "'n \<Rightarrow> worker_state \<Rightarrow> worker_state"

definition default_push_batch :: u32 where
  "default_push_batch = 100"

definition default_pull_page :: u32 where
  "default_pull_page = 200"

definition max_retry_seconds :: nat where
  "max_retry_seconds = 300"

fun transport_error_text :: "transport_error \<Rightarrow> string" where
  "transport_error_text Offline = ''the sync server is unavailable''"
| "transport_error_text TAccessExpired = ''the access token expired''"
| "transport_error_text TSessionInvalid = ''the sync session is invalid''"
| "transport_error_text TDeviceRevoked = ''the current device is revoked''"
| "transport_error_text (TConflict _) = ''the Favorite revision conflicts with the server''"
| "transport_error_text Rejected = ''the sync server rejected the request''"
| "transport_error_text InvalidResponse = ''the sync server returned an invalid response''"
| "transport_error_text IncompatibleServer = ''the sync server requires a different Desktop/API version''"

fun auth_error_text :: "auth_error \<Rightarrow> string" where
  "auth_error_text CredentialStoreFailed = ''the OS credential store operation failed''"
| "auth_error_text InvalidCredentials = ''the credentials are invalid''"
| "auth_error_text SessionExpired = ''the authentication session expired''"
| "auth_error_text AuthDeviceRevoked = ''the current device is revoked''"

fun session_error_text :: "session_error \<Rightarrow> string" where
  "session_error_text (STransport e) = ''Server session failed: '' @ transport_error_text e"
| "session_error_text (SCredentialStore e) = ''Credential Store failed: '' @ auth_error_text e"
| "session_error_text NoPersistentSession = ''no persistent Server session exists''"
| "session_error_text InvalidCredential = ''the persistent Server credential is invalid''"

datatype push_disposition =
  DContinue | DReplayPrepared | DManualConflict | DRetryAt i64 | DHalted string

datatype sync_run_outcome = Idle | WorkRemaining | RetryAt i64 | ManualConflict | Halted string

section \<open>Helpers\<close>

definition current_timestamp :: "int \<Rightarrow> sync_engine_error + i64" where
  "current_timestamp clock = (if clock < 0 \<or> i64_max < clock then Inl EClock else Inr clock)"

definition is_offline :: "session_error \<Rightarrow> bool" where
  "is_offline e = (e = STransport Offline)"

definition is_session_halted :: "session_error \<Rightarrow> bool" where
  "is_session_halted e = (e = STransport TSessionInvalid \<or> e = STransport TDeviceRevoked
     \<or> e = NoPersistentSession \<or> e = InvalidCredential)"

text \<open>The acknowledgements by event id; of two with the same id the later one stays in the map.\<close>

definition acknowledgement_map :: "push_ack list \<Rightarrow> (string, push_ack) table" where
  "acknowledgement_map acks = fold (\<lambda>ack t. tbl_put (pa_event_id ack) ack t) acks []"

definition match_acknowledgements ::
  "outbox_event list \<Rightarrow> push_event list \<Rightarrow> push_ack list \<Rightarrow> sync_engine_error + acknowledged_event list" where
  "match_acknowledgements events sent acks =
     (if length events \<noteq> length sent \<or> length events \<noteq> length acks then Inl EInvalidResponse
      else let by_id = acknowledgement_map acks in
      if length by_id \<noteq> length events then Inl EInvalidResponse
      else mapM (\<lambda>(event, pushed).
             rbind (ok_or EInvalidResponse (tbl_get by_id (oe_event_id event))) (\<lambda>ack.
             Inr \<lparr>ae_event = event, ae_acknowledgement = ack,
                  ae_sent_query_count = map_option qss_query_count (pe_query_stats pushed)\<rparr>))
             (zip events sent))"

text \<open>\<open>Uuid::as_bytes()[15]\<close>, read off the canonical text of the identifier.\<close>

definition uuid_last_byte :: "uuid \<Rightarrow> nat" where
  "uuid_last_byte u = (case decode_pairs (drop (length u - 2) u) of Inr [b] \<Rightarrow> unat b | _ \<Rightarrow> 0)"

definition retry_delay :: "outbox_event list \<Rightarrow> nat" where
  "retry_delay events =
     (let attempt = min (fold max (map oe_attempt_count events) 0) 8;
          base = min u64_max (2 ^ (attempt + 1));
          jitter = (case events of [] \<Rightarrow> 0 | event # _ \<Rightarrow> uuid_last_byte (oe_event_id event) mod 3)
      in min (min u64_max (base + jitter)) max_retry_seconds)"

definition retry_timestamp :: "outbox_event list \<Rightarrow> i64 \<Rightarrow> sync_engine_error + i64" where
  "retry_timestamp events now =
     rbind (ok_or EClock (i64_of_u64 (retry_delay events))) (\<lambda>delay.
       ok_or EClock (checked_add_i64 now delay))"

section \<open>One cycle\<close>

definition db_job ::
  "(profile_db \<Rightarrow> (storage_error + 'a) \<times> profile_db) \<Rightarrow> ('k, 'n) engine_state
    \<Rightarrow> (sync_engine_error + 'a) \<times> ('k, 'n) engine_state" where
  "db_job operation st =
     (case execute operation (es_worker st) of
        (r, ws) \<Rightarrow> (map_err EDatabase r, st\<lparr>es_worker := ws\<rparr>))"

definition committing :: "(profile_db \<Rightarrow> 'e + profile_db) \<Rightarrow> profile_db \<Rightarrow> ('e + unit) \<times> profile_db" where
  "committing f = tx (\<lambda>db. rbind (f db) (\<lambda>db'. Inr ((), db')))"

text \<open>A request of the session, with what the database thread does until it is answered.\<close>

definition remote_call ::
  "('k, 'n) sync_engine \<Rightarrow> (('k, 'n) session_world \<Rightarrow> (session_error + 'a) \<times> ('k, 'n) session_world)
    \<Rightarrow> ('k, 'n) engine_state \<Rightarrow> (session_error + 'a) \<times> ('k, 'n) engine_state" where
  "remote_call en call st =
     (case call (es_session st) of
        (r, w) \<Rightarrow> (r, st\<lparr>es_session := w, es_worker := ee_meanwhile en (sw_net w) (es_worker st)\<rparr>))"

definition record_error ::
  "string \<Rightarrow> i64 \<Rightarrow> ('k, 'n) engine_state \<Rightarrow> (sync_engine_error + unit) \<times> ('k, 'n) engine_state" where
  "record_error message now = db_job (committing (\<lambda>db. Inr (set_sync_error db (ascii message) now)))"

definition engine_set_sse_connected ::
  "bool \<Rightarrow> int \<Rightarrow> ('k, 'n) engine_state \<Rightarrow> (sync_engine_error + unit) \<times> ('k, 'n) engine_state" where
  "engine_set_sse_connected connected clock st =
     (case current_timestamp clock of
        Inl e \<Rightarrow> (Inl e, st)
      | Inr now \<Rightarrow> db_job (committing (\<lambda>db. Inr (set_sse_connected db connected now))) st)"

text \<open>The event of the batch a conflict is about: the named one, or the only one.\<close>

definition conflict_event :: "favorite_conflict \<Rightarrow> outbox_event list \<Rightarrow> outbox_event option" where
  "conflict_event conflict events =
     (case (case fc_event_id conflict of None \<Rightarrow> None
            | Some event_id \<Rightarrow> find (\<lambda>event. oe_event_id event = event_id) events) of
        Some event \<Rightarrow> Some event
      | None \<Rightarrow> if length events = 1 then Some (hd events) else None)"

definition resolve_push_conflict ::
  "favorite_conflict \<Rightarrow> outbox_event list \<Rightarrow> i64 \<Rightarrow> ('k, 'n) engine_state
    \<Rightarrow> (sync_engine_error + push_disposition) \<times> ('k, 'n) engine_state" where
  "resolve_push_conflict conflict events now st =
     (case conflict_event conflict events of
        None \<Rightarrow> (Inl EInvalidResponse, st)
      | Some event \<Rightarrow>
          (case db_job (tx (\<lambda>db. resolve_conflict db event (fc_current conflict) now)) st of
             (Inl e, st1) \<Rightarrow> (Inl e, st1)
           | (Inr Converged, st1) \<Rightarrow> (Inr DContinue, st1)
           | (Inr ReplayPrepared, st1) \<Rightarrow> (Inr DReplayPrepared, st1)
           | (Inr ManualRetryRequired, st1) \<Rightarrow> (Inr DManualConflict, st1)))"

definition finish_push ::
  "outbox_event list \<Rightarrow> push_event list \<Rightarrow> session_error + push_response \<Rightarrow> i64 \<Rightarrow> ('k, 'n) engine_state
    \<Rightarrow> (sync_engine_error + push_disposition) \<times> ('k, 'n) engine_state" where
  "finish_push events sent answer now st =
     (case answer of
        Inr response \<Rightarrow>
          (case match_acknowledgements events sent (pr_acknowledgements response) of
             Inl e \<Rightarrow> (Inl e, st)
           | Inr acknowledged \<Rightarrow>
               (case db_job (committing (\<lambda>db. acknowledge_events db acknowledged now)) st of
                  (Inl e, st1) \<Rightarrow> (Inl e, st1)
                | (Inr _, st1) \<Rightarrow> (Inr DContinue, st1)))
      | Inl error \<Rightarrow>
          (case error of
             STransport (TConflict conflict) \<Rightarrow> resolve_push_conflict conflict events now st
           | _ \<Rightarrow>
             if is_offline error then
               (case retry_timestamp events now of
                  Inl e \<Rightarrow> (Inl e, st)
                | Inr retry_at \<Rightarrow>
                    (case db_job (committing (\<lambda>db. Inr (mark_retry db events retry_at
                             (ascii ''server_unavailable'') now))) st of
                       (Inl e, st1) \<Rightarrow> (Inl e, st1)
                     | (Inr _, st1) \<Rightarrow> (Inr (DRetryAt retry_at), st1)))
             else if is_session_halted error then
               (case record_error (session_error_text error) now st of
                  (Inl e, st1) \<Rightarrow> (Inl e, st1)
                | (Inr _, st1) \<Rightarrow> (Inr (DHalted (session_error_text error)), st1))
             else (Inl (ESession error), st)))"

definition engine_push_events ::
  "('k, 'n) sync_engine \<Rightarrow> outbox_event list \<Rightarrow> i64 \<Rightarrow> ('k, 'n) engine_state
    \<Rightarrow> (sync_engine_error + push_disposition) \<times> ('k, 'n) engine_state" where
  "engine_push_events en events now st =
     (case db_job (reading (\<lambda>db. mapM (push_event_of db) events)) st of
        (Inl e, st1) \<Rightarrow> (Inl e, st1)
      | (Inr sent, st1) \<Rightarrow>
          (case remote_call en (session_push (ee_transport en) (ee_keyring en) (ee_info en) sent) st1 of
             (answer, st2) \<Rightarrow> finish_push events sent answer now st2))"

text \<open>One round of the pull loop: \<open>True\<close> asks for the next page.\<close>

definition apply_page ::
  "('k, 'n) sync_engine \<Rightarrow> i64 \<Rightarrow> changes_response \<Rightarrow> ('k, 'n) engine_state
    \<Rightarrow> (sync_engine_error + bool) \<times> ('k, 'n) engine_state" where
  "apply_page en now response st =
     (case db_job (committing (\<lambda>db. apply_remote_page (ee_unicode en) (ee_sha256 en) db
             (cr_changes response) (cr_next_revision response) now)) st of
        (Inl e, st1) \<Rightarrow> (Inl e, st1)
      | (Inr _, st1) \<Rightarrow>
          if \<not> cr_has_more response then (Inr False, st1)
          else if cr_next_revision response \<ge> cr_latest_revision response then (Inl EInvalidResponse, st1)
          else (Inr True, st1))"

definition pull_round ::
  "('k, 'n) sync_engine \<Rightarrow> i64 \<Rightarrow> ('k, 'n) engine_state
    \<Rightarrow> (sync_engine_error + bool) \<times> ('k, 'n) engine_state" where
  "pull_round en now st =
     (case db_job (reading read_sync_diagnostics) st of
        (Inl e, st1) \<Rightarrow> (Inl e, st1)
      | (Inr diagnostics, st1) \<Rightarrow>
          (case remote_call en (session_changes (ee_transport en) (ee_keyring en) (ee_info en)
                  (sd_last_server_revision diagnostics) (ee_pull_page en)) st1 of
             (Inr response, st2) \<Rightarrow> apply_page en now response st2
           | (Inl error, st2) \<Rightarrow>
               if is_offline error then
                 (case record_error ''server_unavailable'' now st2 of
                    (Inl e, st3) \<Rightarrow> (Inl e, st3) | (Inr _, st3) \<Rightarrow> (Inr False, st3))
               else
                 (case record_error (session_error_text error) now st2 of
                    (Inl e, st3) \<Rightarrow> (Inl e, st3) | (Inr _, st3) \<Rightarrow> (Inl (ESession error), st3))))"

text \<open>The pull loop ends when the Server has no more pages; \<open>None\<close> when it never does.\<close>

partial_function (option) pull_all ::
  "('k, 'n) sync_engine \<Rightarrow> i64 \<Rightarrow> ('k, 'n) engine_state
    \<Rightarrow> ((sync_engine_error + unit) \<times> ('k, 'n) engine_state) option" where
  "pull_all en now st =
     (case pull_round en now st of
        (Inl e, st1) \<Rightarrow> Some (Inl e, st1)
      | (Inr again, st1) \<Rightarrow> if again then pull_all en now st1 else Some (Inr (), st1))"

definition finish_cycle ::
  "('k, 'n) sync_engine \<Rightarrow> outbox_event list \<Rightarrow> i64 \<Rightarrow> ('k, 'n) engine_state
    \<Rightarrow> ((sync_engine_error + sync_run_outcome) \<times> ('k, 'n) engine_state) option" where
  "finish_cycle en events now st =
     (case pull_all en now st of
        None \<Rightarrow> None
      | Some (Inl e, st1) \<Rightarrow> Some (Inl e, st1)
      | Some (Inr _, st1) \<Rightarrow>
          Some (Inr (if length events = ee_push_batch en then WorkRemaining else Idle), st1))"

definition synchronize_once ::
  "('k, 'n) sync_engine \<Rightarrow> int \<Rightarrow> ('k, 'n) engine_state
    \<Rightarrow> ((sync_engine_error + sync_run_outcome) \<times> ('k, 'n) engine_state) option" where
  "synchronize_once en clock st =
     (case current_timestamp clock of
        Inl e \<Rightarrow> Some (Inl e, st)
      | Inr now \<Rightarrow>
          (case db_job (reading (\<lambda>db. ready_outbox_events (ee_uuid en) db now (ee_push_batch en))) st of
             (Inl e, st1) \<Rightarrow> Some (Inl e, st1)
           | (Inr events, st1) \<Rightarrow>
               if events = [] then finish_cycle en events now st1
               else (case engine_push_events en events now st1 of
                  (Inl e, st2) \<Rightarrow> Some (Inl e, st2)
                | (Inr DContinue, st2) \<Rightarrow> finish_cycle en events now st2
                | (Inr DReplayPrepared, st2) \<Rightarrow> Some (Inr WorkRemaining, st2)
                | (Inr DManualConflict, st2) \<Rightarrow> Some (Inr ManualConflict, st2)
                | (Inr (DRetryAt t), st2) \<Rightarrow> Some (Inr (RetryAt t), st2)
                | (Inr (DHalted reason), st2) \<Rightarrow> Some (Inr (Halted reason), st2))))"

section \<open>The worker loop\<close>

text \<open>\<open>run_cycles\<close> either runs a cycle or waits; a wake-up, the retry deadline or a cancellation ends
  the wait.\<close>

datatype cycle_phase = Cycling | Waiting "i64 option" | Stopped

datatype cycle_input = CycleEnded "sync_engine_error + sync_run_outcome" | Woken | WakersGone | Slept | Cancelled_cycle

fun run_cycles :: "cycle_phase \<Rightarrow> cycle_input \<Rightarrow> cycle_phase" where
  "run_cycles Cycling (CycleEnded (Inr WorkRemaining)) = Cycling"
| "run_cycles Cycling (CycleEnded (Inr (RetryAt t))) = Waiting (Some t)"
| "run_cycles Cycling (CycleEnded (Inr (Halted _))) = Stopped"
| "run_cycles Cycling (CycleEnded (Inl _)) = Stopped"
| "run_cycles Cycling (CycleEnded (Inr Idle)) = Waiting None"
| "run_cycles Cycling (CycleEnded (Inr ManualConflict)) = Waiting None"
| "run_cycles (Waiting r) Woken = Cycling"
| "run_cycles (Waiting r) WakersGone = Stopped"
| "run_cycles (Waiting (Some t)) Slept = Cycling"
| "run_cycles (Waiting r) Cancelled_cycle = Stopped"
| "run_cycles phase _ = phase"

definition delay_until :: "int \<Rightarrow> i64 \<Rightarrow> nat" where
  "delay_until clock timestamp =
     (let now = (case current_timestamp clock of Inl _ \<Rightarrow> timestamp | Inr now \<Rightarrow> now)
      in nat (saturating_sub_i64 timestamp now))"

section \<open>The revision supervisor\<close>

text \<open>One connection of \<open>run_revision_supervisor\<close>: the events the stream delivered, each with the clock
  at that time, and how it ended. A result \<open>None\<close> stops the supervisor; otherwise it returns the seconds
  it waits before it reconnects and the backoff of the next connection.\<close>

definition handle_stream_event ::
  "int \<Rightarrow> revision_stream_event \<Rightarrow> ('k, 'n) engine_state \<times> nat \<times> nat \<Rightarrow> ('k, 'n) engine_state \<times> nat \<times> nat" where
  "handle_stream_event clock event s =
     (case s of (st, backoff, wakes) \<Rightarrow>
      case event of
        StreamConnected \<Rightarrow> (snd (engine_set_sse_connected True clock st), 1, Suc wakes)
      | StreamRevision _ \<Rightarrow> (st, backoff, Suc wakes))"

definition supervise_stream ::
  "int \<Rightarrow> (int \<times> revision_stream_event) list \<Rightarrow> session_error + unit \<Rightarrow> ('k, 'n) engine_state \<Rightarrow> nat
    \<Rightarrow> ('k, 'n) engine_state \<times> nat \<times> (nat \<times> nat) option" where
  "supervise_stream clock events result st backoff =
     (case fold (\<lambda>(t, event). handle_stream_event t event) events
             (snd (engine_set_sse_connected False clock st), backoff, 0) of
        (st1, backoff1, wakes) \<Rightarrow>
          (snd (engine_set_sse_connected False clock st1), wakes,
           if result = Inl (STransport TDeviceRevoked) \<or> result = Inl (STransport TSessionInvalid)
           then None else Some (backoff1, min 60 (backoff1 * 2))))"

section \<open>Matching acknowledgements\<close>

lemma acknowledgement_map_get:
  "tbl_get (fold (\<lambda>ack t. tbl_put (pa_event_id ack) ack t) acks t) k =
     (case find (\<lambda>ack. pa_event_id ack = k) (rev acks) of None \<Rightarrow> tbl_get t k | Some ack \<Rightarrow> Some ack)"
  by (induction acks arbitrary: t) (auto simp: find_append split: option.splits)

lemma acknowledgement_map_keys:
  fixes acks
  assumes "distinct (map fst t)"
  defines "t' \<equiv> fold (\<lambda>ack t. tbl_put (pa_event_id ack) ack t) acks t"
  shows "distinct (map fst t') \<and> set (map fst t') = set (map fst t) \<union> pa_event_id ` set acks"
  using assms(1) unfolding t'_def
  by (induction acks arbitrary: t) (auto simp: tbl_put_def distinct_update dom_update)

lemma acknowledgement_map_length:
  "length (acknowledgement_map acks) = card (pa_event_id ` set acks)"
proof -
  note keys = acknowledgement_map_keys [of "[]" acks, folded acknowledgement_map_def, simplified]
  have "length (map fst (acknowledgement_map acks)) = card (set (map fst (acknowledgement_map acks)))"
    using keys by (simp only: distinct_card)
  with keys show ?thesis by simp
qed

lemma acknowledgement_map_complete:
  "length (acknowledgement_map acks) = length acks \<longleftrightarrow> distinct (map pa_event_id acks)"
  by (metis acknowledgement_map_length card_distinct distinct_card length_map list.set_map)

lemma mapM_fails:
  assumes "\<And>x. f x = Inl c \<or> (\<exists>y. f x = Inr y)" and "x \<in> set xs" and "f x = Inl c"
  shows "mapM f xs = Inl c"
  using assms(2)
proof (induction xs)
  case (Cons y ys)
  from assms(1) consider "f y = Inl c" | z where "f y = Inr z" by blast
  then show ?case
  proof cases
    case 2
    then have "x \<in> set ys" using Cons.prems assms(3) by auto
    then show ?thesis using Cons.IH 2 by simp
  qed simp
qed simp

lemma find_distinct_rev:
  "distinct (map k xs) \<Longrightarrow> find (\<lambda>x. k x = a) (rev xs) = find (\<lambda>x. k x = a) xs"
proof (induction xs)
  case (Cons x xs)
  then have "k x = a \<Longrightarrow> find (\<lambda>x. k x = a) xs = None" by (simp add: find_None_iff image_iff) metis
  with Cons show ?case by (auto simp: find_append split: option.split)
qed simp

text \<open>
  The acknowledgements of a push are accepted exactly when there is one for every event sent, no
  event id is acknowledged twice, and the events sent are the ones acknowledged. Then every event of
  the batch is paired, in order, with the acknowledgement of its own id and with the query count that
  was sent for it; anything else is refused as an inconsistent response.
\<close>

theorem acknowledgements_matched:
  "match_acknowledgements events sent acks =
     (if length events = length sent \<and> length events = length acks \<and> distinct (map pa_event_id acks)
         \<and> set (map oe_event_id events) \<subseteq> set (map pa_event_id acks)
      then Inr (map (\<lambda>(event, pushed). \<lparr>ae_event = event,
             ae_acknowledgement = the (find (\<lambda>ack. pa_event_id ack = oe_event_id event) acks),
             ae_sent_query_count = map_option qss_query_count (pe_query_stats pushed)\<rparr>) (zip events sent))
      else Inl EInvalidResponse)"
proof (cases "length events = length sent \<and> length events = length acks \<and> distinct (map pa_event_id acks)")
  case True
  have get: "tbl_get (acknowledgement_map acks) k = find (\<lambda>ack. pa_event_id ack = k) acks" for k
    using True by (simp add: acknowledgement_map_def acknowledgement_map_get find_distinct_rev split: option.split)
  have len: "length (acknowledgement_map acks) = length events"
    using True acknowledgement_map_complete [of acks] by simp
  let ?f = "\<lambda>(event, pushed). rbind (ok_or EInvalidResponse (find (\<lambda>ack. pa_event_id ack = oe_event_id event) acks))
      (\<lambda>ack. Inr \<lparr>ae_event = event, ae_acknowledgement = ack,
         ae_sent_query_count = map_option qss_query_count (pe_query_stats pushed)\<rparr>) :: sync_engine_error + acknowledged_event"
  have eq: "match_acknowledgements events sent acks = mapM ?f (zip events sent)"
    using True len by (simp add: match_acknowledgements_def Let_def get)
  show ?thesis
  proof (cases "set (map oe_event_id events) \<subseteq> set (map pa_event_id acks)")
    case sub: True
    have "?f x = Inr ((\<lambda>(event, pushed). \<lparr>ae_event = event,
             ae_acknowledgement = the (find (\<lambda>ack. pa_event_id ack = oe_event_id event) acks),
             ae_sent_query_count = map_option qss_query_count (pe_query_stats pushed)\<rparr>) x)"
      if "x \<in> set (zip events sent)" for x
    proof -
      obtain e p where x: "x = (e, p)" by fastforce
      with that have "oe_event_id e \<in> set (map oe_event_id events)" by (auto dest: set_zip_leftD)
      with sub have "oe_event_id e \<in> set (map pa_event_id acks)" by blast
      then have "find (\<lambda>ack. pa_event_id ack = oe_event_id e) acks \<noteq> None"
        unfolding find_None_iff by auto
      then show ?thesis by (auto simp: x)
    qed
    from mapM_map_Inr [OF this] show ?thesis using True sub by (simp add: eq)
  next
    case False
    then obtain e where e: "e \<in> set events" "oe_event_id e \<notin> set (map pa_event_id acks)" by auto
    then obtain p where p: "(e, p) \<in> set (zip events sent)"
      using True by (metis in_set_impl_in_set_zip1)
    have none: "find (\<lambda>ack. pa_event_id ack = oe_event_id e) acks = None"
      using e(2) unfolding find_None_iff by (metis image_eqI list.set_map)
    have fails: "?f (e, p) = Inl EInvalidResponse" by (simp only: prod.case none ok_or_simps rbind.simps)
    have "?f x = Inl EInvalidResponse \<or> (\<exists>y. ?f x = Inr y)" for x
      by (cases "find (\<lambda>ack. pa_event_id ack = oe_event_id (fst x)) acks") (auto split: prod.split)
    from mapM_fails [of ?f, OF this p fails] show ?thesis using False by (simp only: eq) simp
  qed
next
  case False
  then show ?thesis
    using acknowledgement_map_complete [of acks] by (auto simp: match_acknowledgements_def Let_def)
qed

section \<open>Retries\<close>

lemma fold_max: "fold max xs (a :: nat) = (if xs = [] then a else max a (Max (set xs)))"
proof (induction xs arbitrary: a)
  case (Cons x xs)
  then show ?case by (cases xs) (auto simp: max.assoc)
qed simp

lemma retry_delay_bounds:
  "min 300 (2 ^ (min (fold max (map oe_attempt_count events) 0) 8 + 1)) \<le> retry_delay events
   \<and> 2 \<le> retry_delay events \<and> retry_delay events \<le> 300"
proof -
  define a where "a = min (fold max (map oe_attempt_count events) 0) 8"
  define b :: nat where "b = 2 ^ (a + 1)"
  define j where "j = (case events of [] \<Rightarrow> 0 | event # _ \<Rightarrow> uuid_last_byte (oe_event_id event) mod 3)"
  have "b \<le> 2 ^ 9" unfolding b_def by (rule power_increasing) (simp_all add: a_def)
  then have b: "b \<le> 512" "2 \<le> b" by (simp_all add: b_def)
  have u: "512 \<le> u64_max" by (simp add: u64_max_def)
  have d: "retry_delay events = min (min u64_max (min u64_max b + j)) 300"
    unfolding retry_delay_def Let_def a_def b_def j_def max_retry_seconds_def ..
  have "min 300 b \<le> min (min u64_max (min u64_max b + j)) 300 \<and> 2 \<le> min (min u64_max (min u64_max b + j)) 300"
    using b u by (auto simp: min_def)
  then show ?thesis unfolding d a_def [symmetric] b_def [symmetric] by simp
qed

lemma retry_timestamp_Inr:
  "retry_timestamp events now = Inr t \<Longrightarrow> t = now + int (retry_delay events)"
  by (auto simp: retry_timestamp_def rbind_Inr ok_or_Inr checked_add_i64_def split: if_splits)

text \<open>After \<open>mark_retry\<close> every row of the batch carries the deadline.\<close>

lemma mark_retry_rows:
  assumes "r' \<in> set (sync_outbox (mark_retry db events t err now))" and "ob_event_id r' \<in> oe_event_id ` set events"
  shows "ob_next_retry_at r' = Some t"
proof -
  let ?step = "\<lambda>event. map (\<lambda>r.
          if ob_event_id r = oe_event_id event
          then r\<lparr>ob_attempt_count := ob_attempt_count r + 1, ob_next_retry_at := Some t,
                 ob_last_error := Some (bounded_error err), ob_updated_at := now\<rparr>
          else r) :: outbox_row list \<Rightarrow> outbox_row list"
  have keep: "\<forall>r \<in> set (fold ?step es rows). ob_event_id r \<in> X \<longrightarrow> ob_next_retry_at r = Some t"
    if "\<forall>r \<in> set rows. ob_event_id r \<in> X \<longrightarrow> ob_next_retry_at r = Some t" for es rows X
    using that
  proof (induction es arbitrary: rows)
    case (Cons e es)
    from Cons.prems have "\<forall>r \<in> set (?step e rows). ob_event_id r \<in> X \<longrightarrow> ob_next_retry_at r = Some t" by auto
    from Cons.IH [OF this] show ?case by simp
  qed simp
  have "\<forall>r \<in> set (fold ?step es rows). ob_event_id r \<in> oe_event_id ` set es \<longrightarrow> ob_next_retry_at r = Some t" for es rows
  proof (induction es arbitrary: rows)
    case (Cons e es)
    have "\<forall>r \<in> set (?step e rows). ob_event_id r \<in> {oe_event_id e} \<longrightarrow> ob_next_retry_at r = Some t" by auto
    from keep [OF this, of es] Cons.IH [of "?step e rows"] show ?case by auto
  qed simp
  from this [of events "sync_outbox db"] assms show ?thesis by (simp add: mark_retry_def set_meta_def)
qed

lemma ready_outbox_row:
  assumes "ready_outbox_events up db now limit = Inr es" and "e \<in> set es"
  shows "\<exists>r \<in> set (sync_outbox db). (case ob_next_retry_at r of None \<Rightarrow> True | Some t \<Rightarrow> t \<le> now)
     \<and> up (ob_event_id r) = Some (oe_event_id e)"
proof -
  let ?rows = "sql_order_limit (\<lambda>r. (ob_created_at r, ob_event_id r)) limit
          (filter (\<lambda>r. (case ob_next_retry_at r of None \<Rightarrow> True | Some t \<Rightarrow> t \<le> now)
                       \<and> ob_last_error r \<noteq> Some conflict_error) (sync_outbox db))"
  have "mapM (parse_outbox up) ?rows = Inr es"
    using assms(1) by (simp add: ready_outbox_events_def split: if_splits)
  from mapM_result_source [OF this assms(2)] obtain r where "r \<in> set ?rows" and p: "parse_outbox up r = Inr e"
    by blast
  then have "r \<in> set (sync_outbox db) \<and> (case ob_next_retry_at r of None \<Rightarrow> True | Some t \<Rightarrow> t \<le> now)"
    unfolding sql_order_limit_def by (auto dest!: in_set_takeD)
  moreover have "up (ob_event_id r) = Some (oe_event_id e)"
    using p by (auto simp: parse_outbox_def rbind_Inr parse_uuid_def ok_or_Inr)
  ultimately show ?thesis by blast
qed

lemma db_job_Inr:
  assumes "db_job op st = (Inr x, st')"
  obtains path db db' where "ws_active (es_worker st) = Some path" "tbl_get (ws_files (es_worker st)) path = Some db"
    "op db = (Inr x, db')"
    "st' = st\<lparr>es_worker := (es_worker st)\<lparr>ws_files := tbl_put path db' (ws_files (es_worker st))\<rparr>\<rparr>"
proof -
  from assms obtain ws where "execute op (es_worker st) = (Inr x, ws)" and st': "st' = st\<lparr>es_worker := ws\<rparr>"
    by (auto simp: db_job_def map_err_Inr split: prod.splits)
  from this(1) show thesis by (rule execute_Inr) (auto intro: that simp: st')
qed

text \<open>
  C19: when the Server cannot be reached, the batch is retried after an exponentially growing delay:
  at least two and at most three hundred seconds, and never less than two to the power of the number
  of attempts. Until the deadline no cycle picks any event of the batch up again.
\<close>

theorem offline_push_backs_off:
  assumes "finish_push events sent (Inl (STransport Offline)) now st = (Inr (DRetryAt t), st')"
  shows "now + 2 \<le> t \<and> t \<le> now + 300
     \<and> min 300 (2 ^ (min (fold max (map oe_attempt_count events) 0) 8 + 1)) \<le> nat (t - now)
     \<and> (\<exists>db'. active_db (es_worker st') = Some db'
          \<and> (\<forall>up u limit es e. (\<forall>r \<in> set (sync_outbox db'). up (ob_event_id r) = Some (ob_event_id r))
               \<and> u < t \<and> ready_outbox_events up db' u limit = Inr es \<and> e \<in> set es
               \<longrightarrow> oe_event_id e \<notin> oe_event_id ` set events))"
proof -
  from assms have t: "retry_timestamp events now = Inr t"
    and job: "db_job (committing (\<lambda>db. Inr (mark_retry db events t (ascii ''server_unavailable'') now))) st = (Inr (), st')"
    by (auto simp: finish_push_def is_offline_def is_session_halted_def split: sum.splits prod.splits)
  from job obtain path db where
    "st' = st\<lparr>es_worker := (es_worker st)\<lparr>ws_files := tbl_put path (mark_retry db events t (ascii ''server_unavailable'') now)
        (ws_files (es_worker st))\<rparr>\<rparr>" and "ws_active (es_worker st) = Some path"
    by (rule db_job_Inr) (auto simp: committing_def tx_def)
  then have active: "active_db (es_worker st') = Some (mark_retry db events t (ascii ''server_unavailable'') now)"
    (is "_ = Some ?db'") by (simp add: active_db_def)
  have "oe_event_id e \<notin> oe_event_id ` set events"
    if canon: "\<forall>r \<in> set (sync_outbox ?db'). up (ob_event_id r) = Some (ob_event_id r)"
      and early: "u < t" and ready: "ready_outbox_events up ?db' u limit = Inr es" "e \<in> set es"
    for up u limit es e
  proof
    assume e: "oe_event_id e \<in> oe_event_id ` set events"
    obtain r where r: "r \<in> set (sync_outbox ?db')" "case ob_next_retry_at r of None \<Rightarrow> True | Some t \<Rightarrow> t \<le> u"
      "up (ob_event_id r) = Some (oe_event_id e)"
      using ready_outbox_row [OF ready] by blast
    with canon have "ob_event_id r = oe_event_id e" by auto
    with mark_retry_rows [OF r(1)] e have "ob_next_retry_at r = Some t" by simp
    with r(2) early show False by simp
  qed
  with active have "\<exists>db'. active_db (es_worker st') = Some db'
          \<and> (\<forall>up u limit es e. (\<forall>r \<in> set (sync_outbox db'). up (ob_event_id r) = Some (ob_event_id r))
               \<and> u < t \<and> ready_outbox_events up db' u limit = Inr es \<and> e \<in> set es
               \<longrightarrow> oe_event_id e \<notin> oe_event_id ` set events)"
    by (intro exI [of _ ?db'] conjI allI impI) blast+
  with retry_timestamp_Inr [OF t] retry_delay_bounds [of events] show ?thesis by simp
qed

section \<open>The pull loop\<close>

text \<open>What the pull loop relies on, for the states of the Server that an invariant describes: a page
  that announces another one is not empty, and serving a page or a refresh keeps the invariant.\<close>

locale change_feed =
  fixes tr :: "'n sync_transport"
    and origin :: string
    and net_ok :: "'n \<Rightarrow> bool"
  assumes progress: "net_ok n \<Longrightarrow> tr_changes tr origin token since limit n = (Inr response, n')
      \<Longrightarrow> cr_has_more response \<Longrightarrow> cr_changes response \<noteq> []"
    and changes_inv: "net_ok n \<Longrightarrow> tr_changes tr origin token since limit n = (r, n') \<Longrightarrow> net_ok n'"
    and refresh_inv: "net_ok n \<Longrightarrow> tr_refresh tr origin presented n = (t, n') \<Longrightarrow> net_ok n'"
begin

lemma rotate_inv:
  assumes "rotate tr kr s k n = (r, n')" and "net_ok n" and "sx_server_origin s = origin"
  shows "net_ok n'"
  using assms by (auto simp: rotate_def split: sum.splits prod.splits if_splits dest: refresh_inv)

lemma refresh_after_inv:
  assumes "refresh_after tr kr s rejected w = (r, w')" and "net_ok (sw_net w)" and "sx_server_origin s = origin"
  shows "net_ok (sw_net w')"
  using assms by (auto simp: refresh_after_def split: sum.splits prod.splits if_splits dest: rotate_inv)

lemma session_changes_feed:
  assumes "session_changes tr kr s since limit w = (r, w')" and "net_ok (sw_net w)" and "sx_server_origin s = origin"
  shows "net_ok (sw_net w')" and "r = Inr response \<Longrightarrow> cr_has_more response \<Longrightarrow> 0 < length (cr_changes response)"
proof -
  let ?call = "\<lambda>token. tr_changes tr origin token since limit"
  obtain r0 n1 where call: "?call (sw_token w) (sw_net w) = (r0, n1)" by fastforce
  have n1: "net_ok n1" using changes_inv [OF assms(2) call] .
  have "net_ok (sw_net w') \<and> (r = Inr response \<longrightarrow> cr_has_more response \<longrightarrow> 0 < length (cr_changes response))"
  proof (cases "r0 = Inl TAccessExpired")
    case True
    obtain r1 w1 where again: "refresh_after tr kr s (sw_token w) (w\<lparr>sw_net := n1\<rparr>) = (r1, w1)" by fastforce
    have w1: "net_ok (sw_net w1)" using refresh_after_inv [OF again _ assms(3)] n1 by simp
    obtain r2 n2 where call2: "?call (sw_token w1) (sw_net w1) = (r2, n2)" by fastforce
    from assms(1,3) call True again call2
    have "r1 = Inr () \<and> r = map_err STransport r2 \<and> w' = w1\<lparr>sw_net := n2\<rparr> \<or> (\<exists>e. r = Inl e) \<and> w' = w1"
      by (cases r1) (auto simp: session_changes_def call_with_refresh_def)
    then show ?thesis
      using w1 changes_inv [OF w1 call2] progress [OF w1] call2 by (auto simp: map_err_Inr)
  next
    case False
    then have "r = map_err STransport r0 \<and> w' = w\<lparr>sw_net := n1\<rparr>"
      using assms(1,3) call
      by (auto simp: session_changes_def call_with_refresh_def split: sum.splits transport_error.splits)
    then show ?thesis using n1 progress [OF assms(2)] call by (auto simp: map_err_Inr)
  qed
  then show "net_ok (sw_net w')" and "r = Inr response \<Longrightarrow> cr_has_more response \<Longrightarrow> 0 < length (cr_changes response)"
    by blast+
qed

end

text \<open>The cursor of the active Profile.\<close>

definition worker_cursor :: "worker_state \<Rightarrow> i64 option" where
  "worker_cursor ws = (case active_db ws of None \<Rightarrow> None
     | Some db \<Rightarrow> map_option mt_last_server_revision (profile_meta db))"

lemma apply_page_more:
  assumes "apply_page en now response st = (Inr True, st')"
  obtains c where "worker_cursor (es_worker st) = Some (int c)"
    "worker_cursor (es_worker st') = Some (int (c + length (cr_changes response)))"
    "int (c + length (cr_changes response)) \<le> i64_max" "cr_has_more response"
    "cr_next_revision response = c + length (cr_changes response)"
proof -
  from assms have more: "cr_has_more response" and job: "db_job (committing (\<lambda>db. apply_remote_page (ee_unicode en)
      (ee_sha256 en) db (cr_changes response) (cr_next_revision response) now)) st = (Inr (), st')"
    by (auto simp: apply_page_def split: prod.splits sum.splits if_splits)
  from job show thesis
  proof (rule db_job_Inr)
    fix path db db'
    assume a: "ws_active (es_worker st) = Some path" "tbl_get (ws_files (es_worker st)) path = Some db"
      and "committing (\<lambda>db. apply_remote_page (ee_unicode en) (ee_sha256 en) db (cr_changes response)
        (cr_next_revision response) now) db = (Inr (), db')"
      and st': "st' = st\<lparr>es_worker := (es_worker st)\<lparr>ws_files := tbl_put path db' (ws_files (es_worker st))\<rparr>\<rparr>"
    then have page: "apply_remote_page (ee_unicode en) (ee_sha256 en) db (cr_changes response)
        (cr_next_revision response) now = Inr db'"
      by (auto simp: committing_def tx_def rbind_Inr split: sum.splits)
    then show thesis
    proof (rule apply_remote_page_Inr)
      fix m db1
      assume m: "profile_meta db = Some m" "0 \<le> mt_last_server_revision m" "int (cr_next_revision response) \<le> i64_max"
        and loop: "foldM (apply_page_change (ee_unicode en) (ee_sha256 en) (cr_next_revision response) now)
          (cr_changes response) (db, nat (mt_last_server_revision m)) = Inr (db1, cr_next_revision response)"
        and db': "db' = set_meta (\<lambda>m. m\<lparr>mt_last_server_revision := int (cr_next_revision response),
                   mt_last_successful_sync_at := Some now, mt_last_sync_error := None, mt_updated_at := now\<rparr>) db1"
      have n: "cr_next_revision response = nat (mt_last_server_revision m) + length (cr_changes response)"
        using apply_page_revisions [OF loop] by blast
      have "profile_meta db1 = Some m" using apply_page_outbox_ids [OF loop] m(1) by simp
      then have "profile_meta db' = Some (m\<lparr>mt_last_server_revision := int (cr_next_revision response),
                   mt_last_successful_sync_at := Some now, mt_last_sync_error := None, mt_updated_at := now\<rparr>)"
        by (simp add: db' set_meta_def)
      then show thesis using that [of "nat (mt_last_server_revision m)"] a m n more
        by (simp add: worker_cursor_def active_db_def st')
    qed
  qed
qed

lemma db_reading_cursor:
  assumes "db_job (reading f) st = (r, st')"
  shows "worker_cursor (es_worker st') = worker_cursor (es_worker st)" and "es_session st' = es_session st"
  using assms by (auto simp: db_job_def execute_def reading_def worker_cursor_def active_db_def
      split: option.splits prod.splits)

lemma db_job_session: "db_job op st = (r, st') \<Longrightarrow> es_session st' = es_session st"
  by (auto simp: db_job_def split: prod.splits)

lemma apply_page_session: "apply_page en now response st = (r, st') \<Longrightarrow> es_session st' = es_session st"
  by (auto simp: apply_page_def split: prod.splits sum.splits if_splits dest: db_job_session)

text \<open>Every page that announces another one moves the cursor forward.\<close>

lemma pull_round_again:
  assumes "pull_round en now st = (Inr True, st')"
    and "\<And>n ws. worker_cursor (ee_meanwhile en n ws) = worker_cursor ws"
    and feed: "change_feed (ee_transport en) (sx_server_origin (ee_info en)) net_ok" and "net_ok (sw_net (es_session st))"
  shows "net_ok (sw_net (es_session st'))
     \<and> (\<exists>c c'. worker_cursor (es_worker st) = Some c \<and> worker_cursor (es_worker st') = Some c' \<and> c < c' \<and> c' \<le> i64_max)"
proof -
  obtain r1 st1 where job: "db_job (reading read_sync_diagnostics) st = (r1, st1)" by fastforce
  with assms(1) obtain d where r1: "r1 = Inr d" by (cases r1) (simp_all add: pull_round_def)
  let ?call = "session_changes (ee_transport en) (ee_keyring en) (ee_info en)
                  (sd_last_server_revision d) (ee_pull_page en)"
  obtain r2 st2 where rc: "remote_call en ?call st1 = (r2, st2)" by fastforce
  with assms(1) job r1 obtain response where r2: "r2 = Inr response" and page: "apply_page en now response st2 = (Inr True, st')"
    by (cases r2) (auto simp: pull_round_def split: if_splits prod.splits sum.splits)
  from rc r2 obtain w where call: "?call (es_session st1) = (Inr response, w)"
    and st2: "st2 = st1\<lparr>es_session := w, es_worker := ee_meanwhile en (sw_net w) (es_worker st1)\<rparr>"
    by (auto simp: remote_call_def split: prod.splits)
  have "net_ok (sw_net (es_session st1))" using assms(4) db_reading_cursor(2) [OF job] by simp
  note fed = change_feed.session_changes_feed [OF feed call this refl]
  have "es_session st' = w"
    using apply_page_session [OF page] by (simp add: st2)
  moreover have "worker_cursor (es_worker st2) = worker_cursor (es_worker st)"
    using db_reading_cursor(1) [OF job] assms(2) by (simp add: st2)
  moreover obtain c where c: "worker_cursor (es_worker st2) = Some (int c)"
    "worker_cursor (es_worker st') = Some (int (c + length (cr_changes response)))"
    "int (c + length (cr_changes response)) \<le> i64_max" "cr_has_more response"
    using page by (rule apply_page_more)
  ultimately show ?thesis
    using fed(1) fed(2) [OF refl c(4)]
    by (intro conjI exI [of _ "int c"] exI [of _ "int (c + length (cr_changes response))"]) simp_all
qed

text \<open>
  C20: the pull loop ends. Whatever the Server answers and whatever else happens on the database
  thread, \<open>pull_all\<close> returns, as long as the Server never announces more changes behind an empty page
  and nothing but the pull itself moves the cursor.
\<close>

theorem pull_all_terminates:
  assumes "\<And>n ws. worker_cursor (ee_meanwhile en n ws) = worker_cursor ws"
    and "change_feed (ee_transport en) (sx_server_origin (ee_info en)) net_ok"
    and "net_ok (sw_net (es_session st))"
  shows "\<exists>r st'. pull_all en now st = Some (r, st')"
  using assms(3)
proof (induction st rule: measure_induct_rule
    [of "\<lambda>st. nat (i64_max - (case worker_cursor (es_worker st) of None \<Rightarrow> i64_max | Some c \<Rightarrow> c))"])
  case (less st)
  obtain r st1 where round: "pull_round en now st = (r, st1)" by fastforce
  show ?case
  proof (cases "r = Inr True")
    case True
    note again = pull_round_again [OF round [unfolded True] assms(1,2) less.prems]
    from again obtain c c' where "worker_cursor (es_worker st) = Some c" "worker_cursor (es_worker st1) = Some c'"
      "c < c'" "c' \<le> i64_max" by blast
    then have "\<exists>r st'. pull_all en now st1 = Some (r, st')" by (intro less.IH) (simp_all add: again)
    then show ?thesis by (simp add: pull_all.simps [of en now st] round True)
  next
    case False
    then show ?thesis by (cases r) (auto simp: pull_all.simps [of en now st] round)
  qed
qed

section \<open>An example cycle\<close>

definition example_engine_state :: "((string, byte list) table, nat \<times> bool) engine_state" where
  "example_engine_state = \<lparr>es_worker = \<lparr>ws_files = [(''profile-p1.sqlite3'', example_favorited)],
     ws_active = Some ''profile-p1.sqlite3''\<rparr>, es_session = example_world 1 False\<rparr>"

lemma example_retry: "retry_timestamp [example_sent] 20 = Inr 22"
proof -
  have "retry_delay [example_sent] = 2"
    by (simp add: retry_delay_def example_sent_def uuid_last_byte_def decode_hex_def max_retry_seconds_def u64_max_def
        take_bit_eq_mod)
  then show ?thesis by (simp add: retry_timestamp_def i64_of_u64_def checked_add_i64_def i64_max_def i64_min_def)
qed

lemma example_offline: "\<exists>st'. finish_push [example_sent] [] (Inl (STransport Offline)) 20 example_engine_state
    = (Inr (DRetryAt 22), st')"
  by (simp add: finish_push_def example_retry is_offline_def db_job_def execute_def committing_def tx_def
      example_engine_state_def tbl_get_def)

theorem offline_push_backs_off_witness:
  "\<exists>st' db'. finish_push [example_sent] [] (Inl (STransport Offline)) 20 example_engine_state = (Inr (DRetryAt 22), st')
     \<and> active_db (es_worker st') = Some db'
     \<and> \<not> (\<exists>es e. ready_outbox_events Some db' 21 10 = Inr es \<and> e \<in> set es \<and> oe_event_id e = ''e1'')"
proof -
  obtain st' where run: "finish_push [example_sent] [] (Inl (STransport Offline)) 20 example_engine_state
    = (Inr (DRetryAt 22), st')" using example_offline by blast
  from offline_push_backs_off [OF run] obtain db' where db': "active_db (es_worker st') = Some db'"
    and no: "\<And>up u limit es e. (\<forall>r \<in> set (sync_outbox db'). up (ob_event_id r) = Some (ob_event_id r))
               \<and> u < 22 \<and> ready_outbox_events up db' u limit = Inr es \<and> e \<in> set es
               \<Longrightarrow> oe_event_id e \<notin> oe_event_id ` set [example_sent]" by blast
  have "oe_event_id e \<noteq> ''e1''" if "ready_outbox_events Some db' 21 10 = Inr es" "e \<in> set es" for es e
    using no [of Some 21 10 es e] that by (simp add: example_sent_def)
  with run db' show ?thesis by blast
qed

end
