(* ===== verification/Sync_Composition.thy ===== *)
theory Sync_Composition
  imports Server_Api Sync_Engine
begin

text \<open>
  The Desktop and the Server together. The requests of \<open>HttpSyncTransport\<close>
  (\<open>apps/desktop/src/sync_transport.rs\<close>) are answered by the handlers of the Server's router
  (\<open>apps/server/src/lib.rs\<close>), so that the sync engine runs against the Server's model. The theory shows
  that the two sides agree: the Desktop accepts every record the Server hands out, understands every
  error it answers with, and a pull brings the Profile to the Server's state.
\<close>

section \<open>Every record of the Server is acceptable to the Desktop\<close>

text \<open>What the transport of a record relies on: the record is valid and its numbers fit SQLite.\<close>

definition record_acceptable :: "unicode_db \<Rightarrow> sha256 \<Rightarrow> favorite_record \<Rightarrow> bool" where
  "record_acceptable u sha r \<longleftrightarrow> validate_remote u sha r = Inr () \<and> int (fr_entity_revision r) \<le> i64_max
     \<and> (\<forall>a. fr_aggregate r = Some a \<longrightarrow> int (ag_query_count a) \<le> i64_max)"

lemma aggregate_count_bound:
  "aggregate_stats db uid key = Inr (Some a) \<Longrightarrow> int (ag_query_count a) \<le> i64_max"
  by (auto simp: aggregate_stats_def Let_def rbind_Inr ok_or_Inr split: if_splits)

lemma snapshot_valid_remote:
  assumes "snapshot_valid u sha (fr_content_key r) (int (fr_key_version r)) (fr_favorite r)"
    and "0 < fr_entity_revision r"
  shows "validate_remote u sha r = Inr ()"
proof -
  from assms(1) obtain lang p where "parse_language_code (fs_source_lang (fr_favorite r)) = Inr lang"
    and "prepare_content u sha (fs_source_text (fr_favorite r)) lang max_sync_text_characters = Inr p"
    and "to_hex (pc_content_key p) = fr_content_key r"
    and "cc_text (pc_canonical p) = fs_canonical_text (fr_favorite r)"
    and "protocol_name (cc_kind (pc_canonical p)) = fs_kind (fr_favorite r)"
    by (auto simp: snapshot_valid_def rbind_Inr map_err_Inr split: sum.splits)
  moreover from assms(1) obtain tl where "parse_language_code (fs_target_lang (fr_favorite r)) = Inr tl"
    by (auto simp: snapshot_valid_def isl_def) (metis sum.exhaust)
  moreover have "max_sync_text_characters = max_remote_content_characters"
    by (simp add: max_sync_text_characters_def max_remote_content_characters_def)
  ultimately show ?thesis
    using assms by (simp add: validate_remote_def snapshot_valid_def)
qed

lemma server_record_acceptable:
  assumes "sync_inv db" and "favorites_valid ev db" and "Server_Sync.favorite_record db uid key = Inr (Some r)"
  shows "record_acceptable (ev_unicode ev) (ev_sha256 ev) r" and "fr_content_key r = key"
proof -
  from assms(3) obtain row where row: "tbl_get (server_favorites db) (uid, key) = Some row"
      "fr_content_key r = key" "fr_favorite r = sf_snapshot row"
      "int (fr_entity_revision r) = sf_entity_revision row" "int (fr_key_version r) = sf_key_version row"
      "aggregate_stats db uid key = Inr (fr_aggregate r)"
    by (cases rule: favorite_record_cases) auto
  have "1 \<le> sf_entity_revision row" "sf_entity_revision row \<le> i64_max"
    using assms(1) row(1) by (auto simp: sync_inv_def fav_inv_def)
  moreover have "snapshot_valid (ev_unicode ev) (ev_sha256 ev) key (sf_key_version row) (sf_snapshot row)"
    using assms(2) row(1) by (auto simp: favorites_valid_def)
  ultimately show "record_acceptable (ev_unicode ev) (ev_sha256 ev) r"
    using row aggregate_count_bound [of db uid key] unfolding record_acceptable_def
    by (auto intro!: snapshot_valid_remote)
  show "fr_content_key r = key" by (fact row(2))
qed

section \<open>An acceptable page is applied\<close>

lemma not_isl_Inr: "\<not> isl x \<longleftrightarrow> (\<exists>y. x = Inr y)"
  by (cases x) simp_all

text \<open>SHA-256 digests have 32 bytes.\<close>

definition digests_32 :: "sha256 \<Rightarrow> bool" where
  "digests_32 sha \<longleftrightarrow> (\<forall>bytes. length (sha bytes) = 32)"

lemma validate_remote_key:
  assumes "validate_remote u sha r = Inr ()" and "digests_32 sha"
  shows "\<exists>key. length key = 32 \<and> fr_content_key r = to_hex key"
proof -
  from assms(1) obtain lang p where "prepare_content u sha (fs_source_text (fr_favorite r)) lang
      max_remote_content_characters = Inr p" "to_hex (pc_content_key p) = fr_content_key r"
    by (auto simp: validate_remote_def rbind_Inr map_err_Inr split: if_splits)
  moreover from this(1) have "length (pc_content_key p) = 32"
    by (auto simp: prepare_content_def Let_def canonical_content_key_def assms(2) [unfolded digests_32_def] split: if_splits)
  ultimately show ?thesis by metis
qed

lemma update_aggregate_total:
  assumes "\<And>a. fr_aggregate r = Some a \<Longrightarrow> int (ag_query_count a) \<le> i64_max"
    and "length key = 32" and "fr_content_key r = to_hex key"
  shows "\<exists>db'. update_aggregate_from_record db r now = Inr db'"
  using assms by (cases "fr_aggregate r")
    (simp_all add: update_aggregate_from_record_def update_aggregate_def Let_def sqlite_i64_def i64_of_u64_def)

lemma write_remote_total:
  assumes "record_acceptable u sha r" and "length key = 32" and "fr_content_key r = to_hex key"
  shows "\<exists>db'. write_remote_favorite db r now = Inr db'"
proof -
  have agg: "\<exists>db'. update_aggregate_from_record d r now = Inr db'" for d
    using assms by (intro update_aggregate_total) (auto simp: record_acceptable_def)
  from assms(1) obtain k where "protocol_name k = fs_kind (fr_favorite r)"
    by (auto simp: record_acceptable_def validate_remote_def rbind_Inr split: if_splits)
  then have kind: "fs_kind (fr_favorite r) = ''word'' \<or> fs_kind (fr_favorite r) = ''text''"
    using protocol_name_cases [of k] by simp
  have "sqlite_i64 (fr_entity_revision r) = Inr (int (fr_entity_revision r))"
    using assms(1) by (simp add: record_acceptable_def sqlite_i64_def i64_of_u64_def)
  then have "write_remote_favorite db r now = (let s = fr_favorite r;
      db1 = db\<lparr>favorites := tbl_put (fr_content_key r) (remote_row r) (favorites db)\<rparr> in
      rbind (update_aggregate_from_record db1 r now) (\<lambda>db2.
      if tbl_has (stats_table db2) (to_hex key) then Inr db2
      else let baseline = (case fr_aggregate r of None \<Rightarrow> fs_favorited_at s | Some a \<Rightarrow> ag_first_queried_at a) in
        update_aggregate_from_record (db2\<lparr>stats_table := tbl_put (to_hex key)
          (baseline_stats baseline baseline) (stats_table db2)\<rparr>) r now))"
    unfolding write_remote_favorite_def remote_row_def Let_def using kind assms(2,3) by auto
  moreover obtain db2 where "update_aggregate_from_record
      (db\<lparr>favorites := tbl_put (fr_content_key r) (remote_row r) (favorites db)\<rparr>) r now = Inr db2"
    using agg by blast
  ultimately show ?thesis using agg by (simp add: Let_def)
qed

lemma local_favorite_total:
  assumes "tables_inv db" and "tbl_get (favorites db) (to_hex key) = Some row"
  shows "\<exists>fav. local_favorite db key = Inr (Some fav)"
proof -
  have "favorite_row_ok row" using assms by (auto simp: tables_inv_def)
  then have "\<exists>k. parse_kind (rf_kind row) = Inr k" "\<exists>l. parse_language_code (rf_source_lang row) = Inr l"
    "\<exists>l. parse_language_code (rf_target_lang row) = Inr l" "0 \<le> rf_entity_revision row"
    "0 \<le> rf_key_version row" "rf_key_version row \<le> int u32_max"
    by (auto simp: favorite_row_ok_def parse_kind_def lang_text_def not_isl_Inr)
  then show ?thesis
    using assms(2) by (auto simp: local_favorite_def opt_transpose_def u32_of_i64_def sqlite_u64_def u64_of_i64_def)
qed

lemma apply_remote_change_total:
  assumes "profile_inv db" and "record_acceptable u sha (sc_favorite c)" and "digests_32 sha"
  shows "\<exists>db'. apply_remote_change u sha db c now = Inr db'"
proof -
  let ?r = "sc_favorite c"
  have valid: "validate_remote u sha ?r = Inr ()" and rev: "int (fr_entity_revision ?r) \<le> i64_max"
    and agg: "\<And>a. fr_aggregate ?r = Some a \<Longrightarrow> int (ag_query_count a) \<le> i64_max"
    using assms(2) by (auto simp: record_acceptable_def)
  obtain key where key: "length key = 32" "fr_content_key ?r = to_hex key"
    using validate_remote_key [OF valid assms(3)] by blast
  obtain db1 where w: "write_remote_favorite db ?r now = Inr db1"
    using write_remote_total [OF assms(2) key] by blast
  show ?thesis
  proof (cases "outbox_find db (favorite_coalesce_key key)")
    case None
    then show ?thesis using w by (simp add: apply_remote_change_def Let_def valid key)
  next
    case (Some row)
    obtain m where t: "tables_inv db" and "profile_meta db = Some m" "meta_ok m"
      and out: "outbox_inv (mt_device_id m) (favorites db) (sync_outbox db)"
      using assms(1) by (rule profile_invE)
    from Some have "row \<in> set (sync_outbox db)" and ck: "ob_coalesce_key row = Some (favorite_coalesce_key key)"
      using profile_inv_distinct [OF assms(1)] by (simp_all add: outbox_find_Some)
    then have "intent_ok (mt_device_id m) (favorites db) row" using out by (simp add: outbox_inv_def)
    then obtain fr where fr: "tbl_get (favorites db) (to_hex key) = Some fr"
      and op: "ob_operation row = ''favorite_upsert'' \<or> ob_operation row = ''favorite_delete''"
      using ck by (auto simp: intent_ok_def)
    obtain fav where fav: "local_favorite db key = Inr (Some fav)" using local_favorite_total [OF t fr] by blast
    obtain op' where op': "parse_outbox_operation (ob_operation row) = Inr op'"
      using op by (auto simp: parse_outbox_operation_def)
    have "\<exists>db'. update_aggregate_from_record d ?r now = Inr db'" for d
      by (rule update_aggregate_total [OF agg key])
    then show ?thesis
      using w rev by (simp add: apply_remote_change_def Let_def valid key Some fav op' sqlite_i64_def i64_of_u64_def)
  qed
qed

text \<open>A page whose revisions continue the cursor and whose records are acceptable is always applied.\<close>

lemma apply_page_total:
  assumes "profile_inv db" and "digests_32 sha"
    and "list_all (\<lambda>c. record_acceptable u sha (sc_favorite c)) cs"
    and "map sc_revision cs = [Suc e..<Suc (e + length cs)]" and "e + length cs \<le> next" and "int next \<le> i64_max"
  shows "\<exists>db'. foldM (apply_page_change u sha next now) cs (db, e) = Inr (db', e + length cs)"
  using assms(1,3-5)
proof (induction cs arbitrary: db e)
  case (Cons c cs)
  from Cons.prems(3) have rev: "sc_revision c = Suc e" "map sc_revision cs = [Suc (Suc e)..<Suc (Suc e + length cs)]"
    by (simp_all add: upt_conv_Cons del: upt_Suc)
  obtain db1 where one: "apply_remote_change u sha db c now = Inr db1"
    using apply_remote_change_total [OF Cons.prems(1) _ assms(2), of u c] Cons.prems(2) by auto
  have "int (Suc e) \<le> i64_max" using Cons.prems(4) assms(6) by simp
  then have "Suc e \<le> u64_max" unfolding i64_max_def u64_max_def by linarith
  then have step: "apply_page_change u sha next now c (db, e) = Inr (db1, Suc e)"
    using one rev Cons.prems(4) by (simp add: apply_page_change_Inr)
  have "\<exists>db'. foldM (apply_page_change u sha next now) cs (db1, Suc e) = Inr (db', Suc e + length cs)"
    by (rule Cons.IH [OF apply_remote_change_inv [OF Cons.prems(1) one]]) (use Cons.prems rev in simp_all)
  then show ?case by (simp add: step)
qed simp

lemma apply_remote_page_total:
  assumes "profile_inv db" and "profile_meta db = Some m" and "mt_last_server_revision m = int e"
    and "digests_32 sha"
    and "list_all (\<lambda>c. record_acceptable u sha (sc_favorite c)) cs"
    and "map sc_revision cs = [Suc e..<Suc (e + length cs)]" and "int (e + length cs) \<le> i64_max"
  shows "\<exists>db'. apply_remote_page u sha db cs (e + length cs) now = Inr db'"
proof -
  obtain db' where "foldM (apply_page_change u sha (e + length cs) now) cs (db, e) = Inr (db', e + length cs)"
    using apply_page_total [OF assms(1,4-6) order_refl assms(7)] by blast
  then show ?thesis
    using assms(2,3,7) by (simp add: apply_remote_page_def sqlite_u64_def u64_of_i64_def sqlite_i64_def i64_of_u64_def)
qed

section \<open>The Server behind the transport\<close>

text \<open>JSON bodies as serde writes and reads them, the sizes the router limits, and the identifiers the
  Server draws are parameters. A request is answered by the handler of its route on the current state
  of the Server; the Desktop reads the answer with the functions of \<open>Sync_Transport\<close>.\<close>

record 'a codec =
  cd_encode :: "'a \<Rightarrow> byte list"
  cd_decode :: "byte list \<Rightarrow> 'a option"

record wire =
  wr_seed :: "nat \<Rightarrow> token_seed"
  wr_push_bytes :: "push_event list \<Rightarrow> nat"
  wr_error_body :: "error_response \<Rightarrow> byte list"
  wr_read_code :: "byte list \<Rightarrow> string option"
  wr_read_conflict :: "byte list \<Rightarrow> favorite_conflict option"
  wr_tokens :: "login_identity codec"
  wr_pushed :: "push_response codec"
  wr_page :: "changes_response codec"
  wr_devices :: "remote_device list codec"

record server_net =
  sn_app :: app_state
  sn_clock :: int
  sn_drawn :: nat

definition ok_http :: "byte list \<Rightarrow> http_response" where
  "ok_http body = \<lparr>hp_status = 200, hp_content_length = Some (length body), hp_chunks = [Inr body]\<rparr>"

definition error_http :: "wire \<Rightarrow> error_response \<Rightarrow> http_response" where
  "error_http wr e = \<lparr>hp_status = rs_status e, hp_content_length = Some (length (wr_error_body wr e)),
     hp_chunks = [Inr (wr_error_body wr e)]\<rparr>"

text \<open>\<open>RequestBodyLimitLayer\<close> answers 413 before the handler runs.\<close>

definition too_large_http :: http_response where
  "too_large_http = \<lparr>hp_status = 413, hp_content_length = None, hp_chunks = []\<rparr>"

definition exchange ::
  "wire \<Rightarrow> 'a codec \<Rightarrow> ('e \<Rightarrow> error_response) \<Rightarrow> 'e + 'a \<Rightarrow> transport_error + 'a" where
  "exchange wr codec to_response answer =
     json_response (wr_read_code wr) (wr_read_conflict wr) (cd_decode codec)
       (case answer of Inr x \<Rightarrow> ok_http (cd_encode codec x) | Inl e \<Rightarrow> error_http wr (to_response e))"

definition exchange_empty :: "wire \<Rightarrow> ('e \<Rightarrow> error_response) \<Rightarrow> 'e + unit \<Rightarrow> transport_error + unit" where
  "exchange_empty wr to_response answer =
     empty_response (wr_read_code wr) (wr_read_conflict wr)
       (case answer of Inr _ \<Rightarrow> ok_http [] | Inl e \<Rightarrow> error_http wr (to_response e))"

definition identity_of_tokens :: "token_response \<Rightarrow> login_identity" where
  "identity_of_tokens t =
     \<lparr>li_user_id = tk_user_id t, li_username = tk_username t, li_device_id = tk_device_id t,
      li_platform = tk_platform t, li_access_token = tk_access_token t,
      li_access_expires_at = tk_access_expires_at t, li_refresh_token = tk_refresh_token t,
      li_latest_revision = nat (tk_latest_revision t)\<rparr>"

definition remote_device_of :: "device_record \<Rightarrow> remote_device" where
  "remote_device_of d =
     \<lparr>rd_device_id = dr_device_id d, rd_platform = dr_platform d, rd_device_name = dr_device_name d,
      rd_created_at = dr_created_at d, rd_last_seen_at = dr_last_seen_at d,
      rd_revoked_at = dr_revoked_at d\<rparr>"

definition bearer :: "string \<Rightarrow> string option" where
  "bearer token = Some (''Bearer '' @ token)"

definition map_ok :: "('a \<Rightarrow> 'b) \<Rightarrow> 'e + 'a \<Rightarrow> 'e + 'b" where
  "map_ok f r = (case r of Inl e \<Rightarrow> Inl e | Inr x \<Rightarrow> Inr (f x))"

definition serve ::
  "api_env \<Rightarrow> server_net \<Rightarrow> string \<Rightarrow> (session_identity \<Rightarrow> app_state \<Rightarrow> ('e + 'a) \<times> app_state)
    \<Rightarrow> (api_error \<Rightarrow> 'e) \<Rightarrow> ('e + 'a) \<times> server_net" where
  "serve ev n token handler wrap =
     (case require_access ev (sn_app n) (bearer token) (sn_clock n) handler wrap of
        (r, app) \<Rightarrow> (r, n\<lparr>sn_app := app\<rparr>))"

definition http_login ::
  "api_env \<Rightarrow> wire \<Rightarrow> login_credentials \<Rightarrow> server_net \<Rightarrow> (transport_error + login_identity) \<times> server_net" where
  "http_login ev wr c n =
     (case login ev (sn_app n) \<lparr>lr_username = lc_username c, lr_password = lc_password c,
             lr_device_id = lc_device_id c, lr_platform = lc_platform c, lr_device_name = lc_device_name c\<rparr>
             (sn_clock n) (wr_seed wr (sn_drawn n)) of
        (r, app) \<Rightarrow>
          (rbind (exchange wr (wr_tokens wr) api_error_response (map_ok identity_of_tokens r)) (\<lambda>t.
           rbind (tokens_validate (\<lambda>u. ev_uuid_version ev u \<noteq> None) t) (\<lambda>_. Inr t)),
           n\<lparr>sn_app := app, sn_drawn := Suc (sn_drawn n)\<rparr>))"

definition http_refresh ::
  "api_env \<Rightarrow> wire \<Rightarrow> string \<Rightarrow> server_net \<Rightarrow> (transport_error + refreshed_tokens) \<times> server_net" where
  "http_refresh ev wr refresh_token n =
     (case refresh ev (sn_app n) refresh_token (sn_clock n) (wr_seed wr (sn_drawn n)) of
        (r, app) \<Rightarrow>
          (rbind (exchange wr (wr_tokens wr) api_error_response (map_ok identity_of_tokens r)) (\<lambda>t.
           rbind (tokens_validate (\<lambda>u. ev_uuid_version ev u \<noteq> None) t) (\<lambda>_. Inr (into_refreshed_tokens t))),
           n\<lparr>sn_app := app, sn_drawn := Suc (sn_drawn n)\<rparr>))"

definition http_logout ::
  "api_env \<Rightarrow> wire \<Rightarrow> string \<Rightarrow> server_net \<Rightarrow> (transport_error + unit) \<times> server_net" where
  "http_logout ev wr token n =
     (case serve ev n token (logout_handler (sn_clock n)) (\<lambda>e. e) of
        (r, n1) \<Rightarrow> (exchange_empty wr api_error_response r, n1))"

text \<open>The outer body limit acts before the authentication, the one of the sync routes after it.\<close>

definition limited_push ::
  "api_env \<Rightarrow> wire \<Rightarrow> push_event list \<Rightarrow> int \<Rightarrow> session_identity \<Rightarrow> app_state
    \<Rightarrow> (sync_api_error + push_response option) \<times> app_state" where
  "limited_push ev wr events clock who app =
     (if wr_push_bytes wr events > max_sync_body_bytes (ev_config ev) then (Inr None, app)
      else case push_handler ev events clock who app of (r, app1) \<Rightarrow> (map_ok Some r, app1))"

definition http_push ::
  "api_env \<Rightarrow> wire \<Rightarrow> string \<Rightarrow> push_event list \<Rightarrow> server_net \<Rightarrow> (transport_error + push_response) \<times> server_net" where
  "http_push ev wr token events n =
     (let refused = json_response (wr_read_code wr) (wr_read_conflict wr) (cd_decode (wr_pushed wr)) too_large_http in
      if wr_push_bytes wr events > max_request_body_bytes (ev_config ev) then (refused, n)
      else case serve ev n token (limited_push ev wr events (sn_clock n)) ApiBasic of
        (Inr None, n1) \<Rightarrow> (refused, n1)
      | (Inr (Some response), n1) \<Rightarrow> (exchange wr (wr_pushed wr) sync_error_response (Inr response), n1)
      | (Inl e, n1) \<Rightarrow> (exchange wr (wr_pushed wr) sync_error_response (Inl e), n1))"

definition http_changes ::
  "api_env \<Rightarrow> wire \<Rightarrow> string \<Rightarrow> u64 \<Rightarrow> u32 \<Rightarrow> server_net \<Rightarrow> (transport_error + changes_response) \<times> server_net" where
  "http_changes ev wr token since limit n =
     (case serve ev n token (changes_handler ev since (Some limit)) ApiBasic of
        (r, n1) \<Rightarrow> (exchange wr (wr_page wr) sync_error_response r, n1))"

definition http_devices ::
  "api_env \<Rightarrow> wire \<Rightarrow> string \<Rightarrow> server_net \<Rightarrow> (transport_error + remote_device list) \<times> server_net" where
  "http_devices ev wr token n =
     (case serve ev n token list_devices (\<lambda>e. e) of
        (r, n1) \<Rightarrow> (rbind (exchange wr (wr_devices wr) api_error_response (map_ok (map remote_device_of) r))
           (devices_validate (\<lambda>u. ev_uuid_version ev u \<noteq> None)), n1))"

definition http_revoke_device ::
  "api_env \<Rightarrow> wire \<Rightarrow> string \<Rightarrow> string \<Rightarrow> server_net \<Rightarrow> (transport_error + unit) \<times> server_net" where
  "http_revoke_device ev wr token device_id n =
     (if ev_uuid_version ev device_id = None then (Inl InvalidResponse, n)
      else case serve ev n token (revoke_device_handler ev device_id (sn_clock n)) (\<lambda>e. e) of
        (r, n1) \<Rightarrow> (exchange_empty wr api_error_response r, n1))"

definition api_transport :: "api_env \<Rightarrow> wire \<Rightarrow> server_net sync_transport" where
  "api_transport ev wr = \<lparr>tr_login = (\<lambda>_. http_login ev wr), tr_refresh = (\<lambda>_. http_refresh ev wr),
     tr_logout = (\<lambda>_. http_logout ev wr), tr_push = (\<lambda>_. http_push ev wr),
     tr_changes = (\<lambda>_. http_changes ev wr), tr_devices = (\<lambda>_. http_devices ev wr),
     tr_revoke_device = (\<lambda>_. http_revoke_device ev wr)\<rparr>"

section \<open>What the Desktop makes of the Server's errors\<close>

definition conflict_of :: "sync_conflict \<Rightarrow> favorite_conflict" where
  "conflict_of c = \<lparr>fc_event_id = cf_event_id c, fc_current = cf_current c,
     fc_latest_revision = cf_latest_revision c\<rparr>"

text \<open>An error body the Desktop's decoders read back as it was written.\<close>

definition error_readable :: "wire \<Rightarrow> error_response \<Rightarrow> bool" where
  "error_readable wr e \<longleftrightarrow> wr_read_code wr (wr_error_body wr e) = Some (rs_code e)
     \<and> (case rs_conflict e of None \<Rightarrow> True
        | Some c \<Rightarrow> wr_read_conflict wr (wr_error_body wr e) = Some (conflict_of c))"

fun desktop_error :: "sync_repository_error \<Rightarrow> transport_error" where
  "desktop_error (Repository AccessExpired) = TAccessExpired"
| "desktop_error (Repository DeviceRevoked) = TDeviceRevoked"
| "desktop_error (Repository RefreshExpired) = TSessionInvalid"
| "desktop_error (Repository SessionInvalid) = TSessionInvalid"
| "desktop_error (Repository SessionRevoked) = TSessionInvalid"
| "desktop_error (Repository UserDisabled) = TSessionInvalid"
| "desktop_error (Repository NotFound) = Rejected"
| "desktop_error (Repository _) = Offline"
| "desktop_error (Conflict c) = TConflict (conflict_of c)"
| "desktop_error InvalidEvent = Rejected"

lemma response_error_readable:
  assumes "error_readable wr e" and "length (wr_error_body wr e) \<le> max_error_body_bytes"
  shows "response_error (wr_read_code wr) (wr_read_conflict wr) (error_http wr e) =
     (if rs_status e = 401 \<and> rs_code e = ''access_token_expired'' then TAccessExpired
      else if rs_status e = 401 \<and> rs_code e = ''device_revoked'' then TDeviceRevoked
      else if rs_status e = 401 \<or> rs_status e = 403 then TSessionInvalid
      else if rs_status e = 409 \<and> rs_code e = ''favorite_conflict'' then
        (case wr_read_conflict wr (wr_error_body wr e) of None \<Rightarrow> InvalidResponse | Some c \<Rightarrow> TConflict c)
      else if is_server_error (rs_status e) \<or> rs_status e = 429 then Offline else Rejected)"
  using assms by (simp add: error_readable_def response_error_def error_http_def bounded_response_body_def Let_def)

lemma store_error_status:
  "\<not> is_success (rs_status (sync_error_response (sync_api_error_of e)))"
proof (cases e)
  case (Repository r)
  then show ?thesis
    by (cases r) (simp_all add: is_success_def api_error_of_def api_error_response_def invalid_session_def internal_error_def)
qed (simp_all add: is_success_def)

lemma oversized_error_invalid:
  assumes "max_error_body_bytes < length (wr_error_body wr (sync_error_response (sync_api_error_of e)))"
  shows "exchange wr codec sync_error_response (Inl (sync_api_error_of e)) = Inl InvalidResponse"
  using assms store_error_status [of e] by (simp add: exchange_def json_response_def error_http_def response_error_def)

lemma small_error_understood:
  assumes "error_readable wr (sync_error_response (sync_api_error_of e))"
    and "length (wr_error_body wr (sync_error_response (sync_api_error_of e))) \<le> max_error_body_bytes"
  shows "exchange wr codec sync_error_response (Inl (sync_api_error_of e)) = Inl (desktop_error e)"
proof -
  note carried = response_error_readable [OF assms]
  show ?thesis
  proof (cases e)
    case (Repository r)
    with carried show ?thesis
      by (cases r) (simp_all add: exchange_def json_response_def error_http_def [THEN arg_cong [of _ _ hp_status]]
        is_success_def is_server_error_def api_error_of_def api_error_response_def invalid_session_def internal_error_def)
  next
    case (Conflict c)
    with carried assms show ?thesis
      by (simp add: exchange_def json_response_def error_http_def [THEN arg_cong [of _ _ hp_status]]
        is_success_def error_readable_def)
  next
    case InvalidEvent
    with carried show ?thesis
      by (simp add: exchange_def json_response_def error_http_def [THEN arg_cong [of _ _ hp_status]]
        is_success_def is_server_error_def)
  qed
qed

text \<open>
  C21: every error of the Server's store whose body is at most 64 KiB reaches the sync engine as the error
  it acts on: an expired access token is rotated, a revoked device or a dead session halts the engine, a
  conflict arrives with the Server's current record, a failure of the Server is retried, and a request
  the Server cannot accept is reported as rejected. An error body over 64 KiB, as the record of a
  conflict with a long translation can make it, is an invalid response whatever it says. The only
  assumption is that the Desktop's JSON decoders read the code and the conflict the Server wrote.
\<close>

theorem server_errors_understood:
  assumes "error_readable wr (sync_error_response (sync_api_error_of e))"
  shows "exchange wr codec sync_error_response (Inl (sync_api_error_of e))
    = Inl (if length (wr_error_body wr (sync_error_response (sync_api_error_of e))) \<le> max_error_body_bytes
           then desktop_error e else InvalidResponse)"
proof (cases "length (wr_error_body wr (sync_error_response (sync_api_error_of e))) \<le> max_error_body_bytes")
  case True
  then show ?thesis using small_error_understood [OF assms True] by simp
next
  case False
  then have "max_error_body_bytes < length (wr_error_body wr (sync_error_response (sync_api_error_of e)))" by linarith
  from oversized_error_invalid [OF this] False show ?thesis by simp
qed

lemma oversized_batch_rejected:
  assumes "max_request_body_bytes (ev_config ev) < wr_push_bytes wr events"
  shows "http_push ev wr token events n = (Inl Rejected, n)"
  using assms by (simp add: http_push_def json_response_def too_large_http_def is_success_def response_error_def
      bounded_response_body_def is_server_error_def Let_def)

section \<open>Pages of a consistent Server\<close>

definition net_ok :: "api_env \<Rightarrow> server_net \<Rightarrow> bool" where
  "net_ok ev n \<longleftrightarrow> identity_inv (as_db (sn_app n)) \<and> sync_inv (as_db (sn_app n))
     \<and> favorites_valid ev (as_db (sn_app n))"

lemma net_ok_step:
  assumes "api_step ev (sn_app n) (sn_app n')" and "net_ok ev n"
  shows "net_ok ev n'"
  using store_steps_inv [OF api_steps_store [OF r_into_rtranclp [of "api_step ev", OF assms(1)]]] assms(2)
  by (simp add: net_ok_def)

lemma http_refresh_step: "http_refresh ev wr t n = (r, n') \<Longrightarrow> api_step ev (sn_app n) (sn_app n')"
  by (auto simp: http_refresh_def split: prod.splits intro: a_refresh)

lemma http_changes_step: "http_changes ev wr token since limit n = (r, n') \<Longrightarrow> api_step ev (sn_app n) (sn_app n')"
  by (auto simp: http_changes_def serve_def split: prod.splits intro: a_changes)

lemma exchange_Inr:
  assumes "exchange wr codec f r = Inr y" and "\<And>e. r = Inl e \<Longrightarrow> \<not> is_success (rs_status (f e))"
  shows "\<exists>x. r = Inr x \<and> cd_decode codec (cd_encode codec x) = Some y"
  using assms by (cases r) (auto simp: exchange_def json_response_def error_http_def ok_http_def
      bounded_response_body_def rbind_Inr ok_or_Inr split: if_splits)

lemma sync_error_not_success: "\<not> is_success (rs_status (sync_error_response (sync_api_error_of e)))"
  by (cases e) (auto simp: is_success_def api_error_of_def api_error_response_def invalid_session_def
      internal_error_def split: repository_error.splits)

text \<open>A page that announces more is not empty.\<close>

lemma changes_since_more:
  assumes "sync_inv db" and "changes_since db uid since limit = Inr resp" and "0 < limit" and "cr_has_more resp"
  shows "cr_changes resp \<noteq> []"
proof
  assume none: "cr_changes resp = []"
  from assms(2) have b: "int since \<le> i64_max" "int limit \<le> i64_max"
    by (auto simp: changes_since_def rbind_Inr ok_or_Inr)
  from assms(2) obtain u where u: "tbl_get (users db) uid = Some u"
    by (auto simp: changes_since_def rbind_Inr user_revision_def split: option.splits)
  from changes_since_total [OF assms(1) u b] assms(2)
  have "map sc_revision (cr_changes resp) = take limit [Suc since..<Suc (nat (us_sync_revision u))]"
    and "cr_next_revision resp = since" "cr_has_more resp = (cr_next_revision resp < nat (us_sync_revision u))"
    by (auto simp: none)
  with none assms(3,4) show False by (simp del: upt_Suc)
qed

lemma api_error_not_success: "\<not> is_success (rs_status (api_error_response (api_error_of e)))"
  using sync_error_not_success [of "Repository e"] by simp

lemma require_access_error:
  assumes "require_access ev st header clock handler wrap = (Inl e, st')"
  shows "(\<exists>r. e = wrap (api_error_of r)) \<or> e = wrap invalid_session \<or> e = wrap internal_error
     \<or> (\<exists>who db. handler who (st\<lparr>as_db := db\<rparr>) = (Inl e, st'))"
  using assms
  by (auto simp: require_access_def rbind_Inl rbind_Inr map_err_Inl bearer_token_def ok_or_Inl unix_timestamp_def
      split: sum.splits if_splits prod.splits)

lemma changes_error_status:
  assumes "serve ev n token (changes_handler ev since limit) ApiBasic = (Inl e, n')"
  shows "\<not> is_success (rs_status (sync_error_response e))"
proof -
  from assms obtain app where "require_access ev (sn_app n) (bearer token) (sn_clock n)
      (changes_handler ev since limit) ApiBasic = (Inl e, app)"
    by (auto simp: serve_def split: prod.splits)
  from require_access_error [OF this] consider r where "e = ApiBasic (api_error_of r)"
    | "e = ApiBasic invalid_session" | "e = ApiBasic internal_error"
    | who db where "changes_handler ev since limit who (sn_app n\<lparr>as_db := db\<rparr>) = (Inl e, app)" by blast
  then show ?thesis
  proof cases
    case 4
    then have "(\<exists>m. e = ApiInvalid m) \<or> (\<exists>e'. e = sync_api_error_of e')"
      by (auto simp: changes_handler_def Let_def map_err_Inl split: if_splits)
    then show ?thesis using sync_error_not_success by (auto simp: is_success_def [of 400])
  qed (simp_all add: api_error_not_success, simp_all add: is_success_def api_error_response_def invalid_session_def internal_error_def)
qed

lemma serve_changes_Inr:
  assumes "serve ev n token (changes_handler ev since (Some limit)) ApiBasic = (Inr resp, n')" and "net_ok ev n"
  shows "\<exists>uid. changes_since (as_db (sn_app n')) uid since limit = Inr resp" and "0 < limit" and "net_ok ev n'"
proof -
  from assms(1) obtain app where req: "require_access ev (sn_app n) (bearer token) (sn_clock n)
      (changes_handler ev since (Some limit)) ApiBasic = (Inr resp, app)" and n': "n' = n\<lparr>sn_app := app\<rparr>"
    by (auto simp: serve_def split: prod.splits)
  then show "\<exists>uid. changes_since (as_db (sn_app n')) uid since limit = Inr resp" and "0 < limit"
    by (auto simp: require_access_def changes_handler_def Let_def map_err_Inr split: sum.splits prod.splits if_splits)
  show "net_ok ev n'" using net_ok_step [of ev n n'] a_changes [OF req] assms(2) by (simp add: n')
qed

text \<open>A wire that delivers the page the Server wrote, or nothing, makes the Server a feed for the pull
  loop.\<close>

locale faithful_wire =
  fixes ev :: api_env
    and wr :: wire
    and origin :: string
  assumes page_sound: "cd_decode (wr_page wr) (cd_encode (wr_page wr) p) = Some q \<Longrightarrow> q = p"
begin

lemma http_changes_Inr:
  assumes "http_changes ev wr token since limit n = (Inr resp, n')" and "net_ok ev n"
  shows "\<exists>uid. changes_since (as_db (sn_app n')) uid since limit = Inr resp" and "0 < limit" and "net_ok ev n'"
proof -
  obtain r n1 where s: "serve ev n token (changes_handler ev since (Some limit)) ApiBasic = (r, n1)" by fastforce
  with assms(1) have n': "n' = n1" and ex: "exchange wr (wr_page wr) sync_error_response r = Inr resp"
    by (simp_all add: http_changes_def)
  from exchange_Inr [OF ex] changes_error_status s obtain p where "r = Inr p"
    "cd_decode (wr_page wr) (cd_encode (wr_page wr) p) = Some resp" by blast
  with page_sound have "r = Inr resp" by blast
  with s have s': "serve ev n token (changes_handler ev since (Some limit)) ApiBasic = (Inr resp, n1)" by simp
  note facts = serve_changes_Inr [OF s' assms(2)]
  show "\<exists>uid. changes_since (as_db (sn_app n')) uid since limit = Inr resp" "0 < limit" "net_ok ev n'"
    using facts unfolding n' by blast+
qed

end

sublocale faithful_wire \<subseteq> feed: change_feed "api_transport ev wr" origin "net_ok ev"
proof
  fix n n' token since limit response
  assume "net_ok ev n" "tr_changes (api_transport ev wr) origin token since limit n = (Inr response, n')"
    "cr_has_more response"
  then show "cr_changes response \<noteq> []"
    using http_changes_Inr [of token since limit n response n'] changes_since_more
    by (auto simp: api_transport_def net_ok_def)
next
  fix n n' token since limit r
  assume "net_ok ev n" "tr_changes (api_transport ev wr) origin token since limit n = (r, n')"
  then show "net_ok ev n'" by (auto simp: api_transport_def intro: net_ok_step http_changes_step)
next
  fix n n' presented t
  assume "net_ok ev n" "tr_refresh (api_transport ev wr) origin presented n = (t, n')"
  then show "net_ok ev n'" by (auto simp: api_transport_def intro: net_ok_step http_refresh_step)
qed

section \<open>A pull catches up\<close>

text \<open>The tables the change feed of the Server reads.\<close>

definition same_log :: "server_db \<Rightarrow> server_db \<Rightarrow> bool" where
  "same_log db db' \<longleftrightarrow> users db' = users db \<and> change_log db' = change_log db
     \<and> server_favorites db' = server_favorites db \<and> device_query_stats db' = device_query_stats db"

lemma favorite_record_same:
  assumes "same_log db db'"
  shows "Server_Sync.favorite_record db' = Server_Sync.favorite_record db"
proof -
  have "stats_rows db' = stats_rows db" using assms by (simp add: stats_rows_def fun_eq_iff same_log_def)
  then have "aggregate_stats db' = aggregate_stats db" by (simp add: aggregate_stats_def fun_eq_iff)
  moreover have "server_favorites db' = server_favorites db" using assms by (simp add: same_log_def)
  ultimately show ?thesis unfolding favorite_record_def by (intro ext) (simp split: option.split)
qed

lemma changes_since_same:
  assumes "same_log db db'"
  shows "changes_since db' uid since limit = changes_since db uid since limit"
proof -
  have "sync_change_of_row db' = sync_change_of_row db"
    using favorite_record_same [OF assms] by (simp add: sync_change_of_row_def fun_eq_iff)
  moreover have "change_rows db' = change_rows db" "user_revision db' = user_revision db"
    using assms by (simp_all add: change_rows_def user_revision_def fun_eq_iff same_log_def)
  ultimately show ?thesis by (simp add: changes_since_def)
qed

lemma authenticate_again:
  assumes "identity_inv db" and "authenticate_access db h now = Inr (who, db')"
  shows "same_log db db'" and "\<exists>who' db''. authenticate_access db' h now = Inr (who', db'') \<and> si_user_id who' = si_user_id who"
proof -
  from assms(2) obtain sid s u d where j: "session_join db (\<lambda>s. se_access_token_hash s = h) = Some (sid, s, u, d)"
    and ok: "us_disabled_at u = None" "dv_revoked_at d = None" "se_revoked_at s = None" "now < se_access_expires_at s"
    and who: "who = join_identity (sid, s, u, d)"
    and db': "db' = db\<lparr>sessions := tbl_modify sid (\<lambda>r. r\<lparr>se_last_seen_at := now\<rparr>) (sessions db),
               devices := tbl_modify (se_user_id s, se_device_id s) (\<lambda>r. r\<lparr>dv_last_seen_at := now\<rparr>) (devices db)\<rparr>"
    by (auto simp: authenticate_access_Inr)
  show "same_log db db'" by (simp add: same_log_def db')
  have s: "tbl_get (sessions db) sid = Some s" "se_access_token_hash s = h"
    "tbl_get (users db) (se_user_id s) = Some u" "tbl_get (devices db) (se_user_id s, se_device_id s) = Some d"
    using session_join_has [OF j] session_join_Some [OF j] assms(1) by (auto simp: identity_inv_def)
  have inv: "identity_inv db'" using repo_step_identity_inv [OF step_access [OF assms(2)] assms(1)] .
  let ?s = "s\<lparr>se_last_seen_at := now\<rparr>" and ?d = "d\<lparr>dv_last_seen_at := now\<rparr>"
  have "session_join db' (\<lambda>x. se_access_token_hash x = se_access_token_hash ?s) = Some (sid, ?s, u, ?d)"
    by (rule session_join_unique [OF inv]) (simp_all add: db' s)
  then have j': "session_join db' (\<lambda>x. se_access_token_hash x = h) = Some (sid, ?s, u, ?d)" by (simp add: s)
  show "\<exists>who' db''. authenticate_access db' h now = Inr (who', db'') \<and> si_user_id who' = si_user_id who"
    by (simp add: authenticate_access_def j' ok who join_identity_def not_le)
qed

text \<open>An access token the Server accepts for a user.\<close>

definition token_live :: "api_env \<Rightarrow> server_net \<Rightarrow> string \<Rightarrow> string \<Rightarrow> bool" where
  "token_live ev n token uid \<longleftrightarrow> token \<noteq> [] \<and> length token \<le> 512 \<and> 0 \<le> sn_clock n \<and> sn_clock n \<le> i64_max
     \<and> (\<exists>who db'. authenticate_access (as_db (sn_app n)) (token_hash (ev_sha256 ev) token) (sn_clock n) = Inr (who, db')
          \<and> si_user_id who = uid)"

text \<open>What the Desktop makes of a page: a body over 8 MiB is an invalid response.\<close>

definition page_answer :: "wire \<Rightarrow> changes_response \<Rightarrow> transport_error + changes_response" where
  "page_answer wr p =
     (if length (cd_encode (wr_page wr) p) \<le> max_json_body_bytes
      then ok_or InvalidResponse (cd_decode (wr_page wr) (cd_encode (wr_page wr) p)) else Inl InvalidResponse)"

lemma http_changes_live:
  assumes "net_ok ev n" and "token_live ev n token uid" and "0 < limit" "limit \<le> sync_changes_max_limit (ev_config ev)"
    and "changes_since (as_db (sn_app n)) uid since limit = Inr p"
  obtains n' where "http_changes ev wr token since limit n = (page_answer wr p, n')" "net_ok ev n'" "token_live ev n' token uid"
    "same_log (as_db (sn_app n)) (as_db (sn_app n'))"
proof -
  from assms(2) obtain who db' where auth: "authenticate_access (as_db (sn_app n)) (token_hash (ev_sha256 ev) token)
      (sn_clock n) = Inr (who, db')" and who: "si_user_id who = uid"
    and t: "token \<noteq> []" "length token \<le> 512" "0 \<le> sn_clock n" "sn_clock n \<le> i64_max"
    by (auto simp: token_live_def)
  have idinv: "identity_inv (as_db (sn_app n))" using assms(1) by (simp add: net_ok_def)
  note again = authenticate_again [OF idinv auth]
  let ?n' = "n\<lparr>sn_app := sn_app n\<lparr>as_db := db'\<rparr>\<rparr>"
  have "changes_since db' uid since limit = Inr p" using changes_since_same [OF again(1)] assms(5) by simp
  then have "serve ev n token (changes_handler ev since (Some limit)) ApiBasic = (Inr p, ?n')"
    using t auth who assms(3,4)
    by (simp add: serve_def require_access_def bearer_def bearer_token_def unix_timestamp_def changes_handler_def)
  then have "http_changes ev wr token since limit n = (page_answer wr p, ?n')"
    by (simp add: http_changes_def exchange_def json_response_def ok_http_def is_success_def
        bounded_response_body_def page_answer_def)
  moreover from this have "net_ok ev ?n'" using net_ok_step [OF http_changes_step] assms(1) by blast
  moreover have "token_live ev ?n' token uid" using again(2) t who by (simp add: token_live_def)
  ultimately show thesis using that again(1) by simp
qed

text \<open>Which favorites the change log of a user mentions between two revisions, and the local row the
  current record of a favorite becomes.\<close>

definition logged :: "server_db \<Rightarrow> string \<Rightarrow> nat \<Rightarrow> nat \<Rightarrow> string \<Rightarrow> bool" where
  "logged sdb uid e e' k \<longleftrightarrow> (\<exists>rev row. int e < rev \<and> rev \<le> int e'
     \<and> tbl_get (change_log sdb) (uid, rev) = Some row \<and> cl_content_key row = k)"

definition current_row :: "server_db \<Rightarrow> string \<Rightarrow> string \<Rightarrow> favorite_row option" where
  "current_row sdb uid k = (case Server_Sync.favorite_record sdb uid k of Inr (Some r) \<Rightarrow> Some (remote_row r) | _ \<Rightarrow> None)"

text \<open>The favorites without a pending intent follow the Server's log from one revision to another.\<close>

definition follows :: "server_db \<Rightarrow> string \<Rightarrow> nat \<Rightarrow> nat \<Rightarrow> profile_db \<Rightarrow> profile_db \<Rightarrow> bool" where
  "follows sdb uid e e' db db' \<longleftrightarrow> (\<forall>key. outbox_find db (favorite_coalesce_key key) = None \<longrightarrow>
     outbox_find db' (favorite_coalesce_key key) = None
     \<and> tbl_get (favorites db') (to_hex key) = (if logged sdb uid e e' (to_hex key)
         then current_row sdb uid (to_hex key) else tbl_get (favorites db) (to_hex key)))"

lemma follows_trans:
  assumes "follows sdb uid e e1 db db1" and "follows sdb uid e1 e2 db1 db2" and "e \<le> e1" and "e1 \<le> e2"
  shows "follows sdb uid e e2 db db2"
proof -
  have "logged sdb uid e e2 k \<longleftrightarrow> logged sdb uid e e1 k \<or> logged sdb uid e1 e2 k" for k
  proof -
    have "int e < rev \<and> rev \<le> int e2 \<longleftrightarrow> int e < rev \<and> rev \<le> int e1 \<or> int e1 < rev \<and> rev \<le> int e2" for rev
      using assms(3,4) by auto
    then show ?thesis unfolding logged_def by blast
  qed
  then show ?thesis using assms(1,2) unfolding follows_def by auto
qed

lemma page_follows:
  assumes "sync_inv sdb" and "favorites_valid ev sdb"
    and "apply_remote_page u sha db cs (e + length cs) now = Inr db'"
    and revs: "map sc_revision cs = [Suc e..<Suc (e + length cs)]"
    and rows: "list_all (\<lambda>c. \<exists>row. tbl_get (change_log sdb) (uid, int (sc_revision c)) = Some row
          \<and> Server_Sync.favorite_record sdb uid (cl_content_key row) = Inr (Some (sc_favorite c))
          \<and> cl_operation row = operation_name (sc_operation c)) cs"
  shows "follows sdb uid e (e + length cs) db db'"
  unfolding follows_def
proof (intro allI impI)
  fix key
  assume none: "outbox_find db (favorite_coalesce_key key) = None"
  let ?k = "to_hex key"
  note replica = apply_remote_page_replica [OF assms(3) none]
  have row: "\<exists>row. tbl_get (change_log sdb) (uid, int (sc_revision c)) = Some row
      \<and> cl_content_key row = fr_content_key (sc_favorite c)
      \<and> Server_Sync.favorite_record sdb uid (fr_content_key (sc_favorite c)) = Inr (Some (sc_favorite c))"
    if "c \<in> set cs" for c
    using that rows server_record_acceptable(2) [OF assms(1,2)] by (fastforce simp: list_all_iff)
  have "(case last_change ?k cs of None \<Rightarrow> tbl_get (favorites db) ?k | Some c \<Rightarrow> Some (remote_row (sc_favorite c)))
      = (if logged sdb uid e (e + length cs) ?k then current_row sdb uid ?k else tbl_get (favorites db) ?k)"
  proof (cases "last_change ?k cs")
    case None
    have "\<not> logged sdb uid e (e + length cs) ?k"
    proof
      assume "logged sdb uid e (e + length cs) ?k"
      then obtain rev row where rev: "int e < rev" "rev \<le> int (e + length cs)"
        "tbl_get (change_log sdb) (uid, rev) = Some row" "cl_content_key row = ?k" by (auto simp: logged_def)
      then have "nat rev \<in> set (map sc_revision cs)" unfolding revs by auto
      then obtain c where "c \<in> set cs" "sc_revision c = nat rev" by auto
      moreover have "int (nat rev) = rev" using rev(1) by simp
      ultimately have "fr_content_key (sc_favorite c) = ?k" using row [of c] rev(3,4) by auto
      with None \<open>c \<in> set cs\<close> show False by (auto simp: last_change_def find_None_iff)
    qed
    with None show ?thesis by simp
  next
    case (Some c)
    then have c: "c \<in> set cs" "fr_content_key (sc_favorite c) = ?k"
      by (auto simp: last_change_def find_Some_iff) (metis nth_mem set_rev length_rev)
    then have "sc_revision c \<in> set (map sc_revision cs)" by simp
    then have "e < sc_revision c" "sc_revision c \<le> e + length cs" unfolding revs by auto
    with row [OF c(1)] c(2) have "logged sdb uid e (e + length cs) ?k"
      unfolding logged_def by (intro exI [of _ "int (sc_revision c)"]) auto
    moreover have "current_row sdb uid ?k = Some (remote_row (sc_favorite c))"
      using row [OF c(1)] c(2) by (auto simp: current_row_def)
    ultimately show ?thesis using Some by simp
  qed
  with replica show "outbox_find db' (favorite_coalesce_key key) = None
     \<and> tbl_get (favorites db') ?k = (if logged sdb uid e (e + length cs) ?k then current_row sdb uid ?k
         else tbl_get (favorites db) ?k)" by simp
qed

text \<open>A Desktop between two pages: its active Profile is consistent and has seen the Server's log up to
  revision \<open>e\<close>, and its access token is live.\<close>

definition caught_up ::
  "api_env \<Rightarrow> server_db \<Rightarrow> string \<Rightarrow> nat \<Rightarrow> profile_db \<Rightarrow> ('k, server_net) engine_state \<Rightarrow> bool" where
  "caught_up ev sdb uid e db st \<longleftrightarrow> active_db (es_worker st) = Some db \<and> profile_inv db
     \<and> map_option mt_last_server_revision (profile_meta db) = Some (int e)
     \<and> net_ok ev (sw_net (es_session st)) \<and> token_live ev (sw_net (es_session st)) (sw_token (es_session st)) uid
     \<and> same_log sdb (as_db (sn_app (sw_net (es_session st))))"

definition engine_for :: "api_env \<Rightarrow> wire \<Rightarrow> ('k, server_net) sync_engine \<Rightarrow> bool" where
  "engine_for ev wr en \<longleftrightarrow> ee_transport en = api_transport ev wr \<and> ee_unicode en = ev_unicode ev
     \<and> ee_sha256 en = ev_sha256 ev \<and> ee_meanwhile en = (\<lambda>_ ws. ws)
     \<and> 0 < ee_pull_page en \<and> ee_pull_page en \<le> sync_changes_max_limit (ev_config ev)
     \<and> int (ee_pull_page en) \<le> i64_max"

lemma active_db_Some:
  "active_db ws = Some db \<longleftrightarrow> (\<exists>path. ws_active ws = Some path \<and> tbl_get (ws_files ws) path = Some db)"
  by (auto simp: active_db_def split: option.splits)

lemma db_job_active:
  assumes "active_db (es_worker st) = Some db" and "op db = (r, db')"
  obtains st' where "db_job op st = (map_err EDatabase (map_err WStorage r), st')"
    "active_db (es_worker st') = Some db'" "es_session st' = es_session st"
  using assms that by (auto simp: active_db_Some db_job_def execute_def)

text \<open>The next page of the Server's log.\<close>

lemma server_page:
  assumes "sync_inv sdb" and "tbl_get (users sdb) uid = Some u" and "e \<le> nat (us_sync_revision u)"
    and "0 < limit" and "int limit \<le> i64_max"
  defines "N \<equiv> nat (us_sync_revision u)"
  obtains p where "changes_since sdb uid e limit = Inr p"
    "map sc_revision (cr_changes p) = [Suc e..<Suc (e + length (cr_changes p))]"
    "e + length (cr_changes p) = min (e + limit) N"
    "list_all (\<lambda>c. \<exists>row. tbl_get (change_log sdb) (uid, int (sc_revision c)) = Some row
          \<and> Server_Sync.favorite_record sdb uid (cl_content_key row) = Inr (Some (sc_favorite c))
          \<and> cl_operation row = operation_name (sc_operation c)) (cr_changes p)"
    "cr_next_revision p = e + length (cr_changes p)" "cr_latest_revision p = N"
    "cr_has_more p = (e + limit < N)" "int N \<le> i64_max"
proof -
  have N: "int N \<le> i64_max" using assms(1,2) unfolding N_def sync_inv_def log_inv_def by (metis int_nat_eq order.refl)
  then have e: "int e \<le> i64_max" using assms(3) unfolding N_def by linarith
  from changes_since_total [OF assms(1,2) e assms(5)] obtain p where p: "changes_since sdb uid e limit = Inr p"
    and revs: "map sc_revision (cr_changes p) = take limit [Suc e..<Suc N]"
    and rows: "list_all (\<lambda>c. \<exists>row. tbl_get (change_log sdb) (uid, int (sc_revision c)) = Some row
          \<and> Server_Sync.favorite_record sdb uid (cl_content_key row) = Inr (Some (sc_favorite c))
          \<and> cl_operation row = operation_name (sc_operation c)) (cr_changes p)"
    and nxt: "cr_next_revision p = (if cr_changes p = [] then e else sc_revision (last (cr_changes p)))"
    and lat: "cr_latest_revision p = N" and more: "cr_has_more p = (cr_next_revision p < N)"
    unfolding N_def by blast
  let ?m = "length (cr_changes p)"
  have m: "?m = min limit (N - e)" using arg_cong [OF revs, of length] by (simp del: upt_Suc add: min.commute)
  have upt: "take limit [Suc e..<Suc N] = [Suc e..<Suc (e + ?m)]"
    using m assms(3) unfolding N_def [symmetric] by (cases "limit \<le> N - e") (auto simp: take_upt simp del: upt_Suc)
  have next_eq: "cr_next_revision p = e + ?m"
  proof (cases "cr_changes p = []")
    case False
    then have "sc_revision (last (cr_changes p)) = last (map sc_revision (cr_changes p))" by (simp add: last_map)
    also have "\<dots> = e + ?m" using False unfolding revs upt by (subst last_upt) auto
    finally show ?thesis using nxt False by simp
  qed (simp add: nxt)
  have len: "e + ?m = min (e + limit) N" using m assms(3) unfolding N_def by linarith
  show thesis
    by (rule that [OF p _ len rows next_eq lat _ N]) (use revs upt more next_eq len in auto)
qed

lemma apply_remote_page_cursor:
  assumes "apply_remote_page u sha db cs next now = Inr db'"
  shows "map_option mt_last_server_revision (profile_meta db') = Some (int next)"
  using assms
proof (rule apply_remote_page_Inr)
  fix m db1
  assume "profile_meta db = Some m"
    and loop: "foldM (apply_page_change u sha next now) cs (db, nat (mt_last_server_revision m)) = Inr (db1, next)"
    and db': "db' = set_meta (\<lambda>m. m\<lparr>mt_last_server_revision := int next,
               mt_last_successful_sync_at := Some now, mt_last_sync_error := None, mt_updated_at := now\<rparr>) db1"
  then have "profile_meta db1 = Some m" using apply_page_outbox_ids [OF loop] by simp
  then show ?thesis by (simp add: db' set_meta_def)
qed

lemma page_answer_cases: "page_answer wr p = Inl InvalidResponse \<or> (\<exists>q. page_answer wr p = Inr q)"
  by (auto simp: page_answer_def ok_or_def split: option.splits)

lemma session_changes_live:
  assumes "net_ok ev (sw_net w)" and "token_live ev (sw_net w) (sw_token w) uid"
    and "0 < limit" "limit \<le> sync_changes_max_limit (ev_config ev)"
    and "changes_since (as_db (sn_app (sw_net w))) uid since limit = Inr p"
  obtains n where "session_changes (api_transport ev wr) kr info since limit w
      = (map_err STransport (page_answer wr p), w\<lparr>sw_net := n\<rparr>)"
    "net_ok ev n" "token_live ev n (sw_token w) uid" "same_log (as_db (sn_app (sw_net w))) (as_db (sn_app n))"
proof -
  obtain n where n: "http_changes ev wr (sw_token w) since limit (sw_net w) = (page_answer wr p, n)" "net_ok ev n"
    "token_live ev n (sw_token w) uid" "same_log (as_db (sn_app (sw_net w))) (as_db (sn_app n))"
    by (rule http_changes_live [OF assms])
  have "session_changes (api_transport ev wr) kr info since limit w
      = (map_err STransport (page_answer wr p), w\<lparr>sw_net := n\<rparr>)"
    using n(1) page_answer_cases [of wr p] by (auto simp: session_changes_def call_with_refresh_def api_transport_def)
  then show thesis using that n(2-4) by blast
qed

text \<open>One page: the Server's next page is fetched and applied, and the cursor stands behind it.\<close>

lemma apply_page_caught_up:
  assumes "active_db (es_worker st) = Some db" and "profile_inv db"
    and "map_option mt_last_server_revision (profile_meta db) = Some (int e)"
    and "digests_32 (ee_sha256 en)"
    and "list_all (\<lambda>c. record_acceptable (ee_unicode en) (ee_sha256 en) (sc_favorite c)) (cr_changes p)"
    and "map sc_revision (cr_changes p) = [Suc e..<Suc (e + length (cr_changes p))]"
    and "cr_next_revision p = e + length (cr_changes p)" "int (e + length (cr_changes p)) \<le> i64_max"
    and "cr_has_more p = (cr_next_revision p < cr_latest_revision p)"
  obtains db' st' where "apply_page en now p st = (Inr (cr_has_more p), st')" "es_session st' = es_session st"
    "active_db (es_worker st') = Some db'"
    "apply_remote_page (ee_unicode en) (ee_sha256 en) db (cr_changes p) (e + length (cr_changes p)) now = Inr db'"
proof -
  from assms(3) obtain m where m: "profile_meta db = Some m" "mt_last_server_revision m = int e" by auto
  from apply_remote_page_total [OF assms(2) m assms(4-6,8)] obtain db' where
    page: "apply_remote_page (ee_unicode en) (ee_sha256 en) db (cr_changes p) (e + length (cr_changes p)) now = Inr db'"
    by blast
  then have op: "committing (\<lambda>db. apply_remote_page (ee_unicode en) (ee_sha256 en) db (cr_changes p)
      (cr_next_revision p) now) db = (Inr (), db')"
    by (simp add: committing_def tx_def assms(7))
  obtain st' where "db_job (committing (\<lambda>db. apply_remote_page (ee_unicode en) (ee_sha256 en) db (cr_changes p)
      (cr_next_revision p) now)) st = (map_err EDatabase (map_err WStorage (Inr ())), st')"
    "active_db (es_worker st') = Some db'" "es_session st' = es_session st"
    by (rule db_job_active [where op = "committing (\<lambda>db. apply_remote_page (ee_unicode en) (ee_sha256 en) db
        (cr_changes p) (cr_next_revision p) now)", OF assms(1) op])
  moreover from this(1) assms(9) have "apply_page en now p st = (Inr (cr_has_more p), st')"
    by (simp add: apply_page_def)
  ultimately show thesis using that page by blast
qed

text \<open>The page is fetched: what the round does depends on the answer only.\<close>

lemma pull_round_fetched:
  assumes "engine_for ev wr en" and "caught_up ev sdb uid e db st"
    and p: "changes_since sdb uid e (ee_pull_page en) = Inr p"
  obtains st2 n where "active_db (es_worker st2) = Some db" "es_session st2 = (es_session st)\<lparr>sw_net := n\<rparr>"
    "net_ok ev n" "token_live ev n (sw_token (es_session st)) uid" "same_log sdb (as_db (sn_app n))"
    "pull_round en now st = (case page_answer wr p of
       Inr response \<Rightarrow> apply_page en now response st2
     | Inl error \<Rightarrow> (case record_error (session_error_text (STransport error)) now st2 of
         (Inl e, st3) \<Rightarrow> (Inl e, st3) | (Inr _, st3) \<Rightarrow> (Inl (ESession (STransport error)), st3)))"
proof -
  let ?w = "es_session st" and ?limit = "ee_pull_page en"
  have en: "ee_transport en = api_transport ev wr" "ee_meanwhile en = (\<lambda>_ ws. ws)" "0 < ?limit"
    "?limit \<le> sync_changes_max_limit (ev_config ev)"
    using assms(1) by (auto simp: engine_for_def)
  have db: "active_db (es_worker st) = Some db" and cursor: "map_option mt_last_server_revision (profile_meta db) = Some (int e)"
    and net: "net_ok ev (sw_net ?w)" and live: "token_live ev (sw_net ?w) (sw_token ?w) uid"
    and log: "same_log sdb (as_db (sn_app (sw_net ?w)))"
    using assms(2) by (auto simp: caught_up_def)
  from cursor obtain m where m: "profile_meta db = Some m" "mt_last_server_revision m = int e" by auto
  have diag: "reading read_sync_diagnostics db = (Inr \<lparr>sd_last_server_revision = e, sd_pending_outbox = length (sync_outbox db),
                 sd_last_successful_sync_at = mt_last_successful_sync_at m,
                 sd_last_error = mt_last_sync_error m, sd_sse_connected = mt_sse_connected m\<rparr>, db)"
    by (simp add: reading_def read_sync_diagnostics_def m sqlite_u64_def u64_of_i64_def)
  obtain st1 where st1: "db_job (reading read_sync_diagnostics) st = (map_err EDatabase (map_err WStorage (Inr \<lparr>sd_last_server_revision = e, sd_pending_outbox = length (sync_outbox db),
                 sd_last_successful_sync_at = mt_last_successful_sync_at m,
                 sd_last_error = mt_last_sync_error m, sd_sse_connected = mt_sse_connected m\<rparr>)), st1)"
    "active_db (es_worker st1) = Some db" "es_session st1 = es_session st"
    by (rule db_job_active [where op = "reading read_sync_diagnostics", OF db diag])
  have p': "changes_since (as_db (sn_app (sw_net ?w))) uid e ?limit = Inr p"
    using changes_since_same [OF log] p by simp
  obtain n where call: "session_changes (api_transport ev wr) (ee_keyring en) (ee_info en) e ?limit ?w
      = (map_err STransport (page_answer wr p), ?w\<lparr>sw_net := n\<rparr>)"
    and n: "net_ok ev n" "token_live ev n (sw_token ?w) uid" "same_log (as_db (sn_app (sw_net ?w))) (as_db (sn_app n))"
    by (rule session_changes_live [OF net live en(3,4) p'])
  let ?st2 = "st1\<lparr>es_session := ?w\<lparr>sw_net := n\<rparr>\<rparr>"
  have remote: "remote_call en (session_changes (ee_transport en) (ee_keyring en) (ee_info en) e ?limit) st1
      = (map_err STransport (page_answer wr p), ?st2)"
    using call by (simp add: remote_call_def st1(3) en)
  show thesis
  proof (rule that [of ?st2 n])
    show "pull_round en now st = (case page_answer wr p of
       Inr response \<Rightarrow> apply_page en now response ?st2
     | Inl error \<Rightarrow> (case record_error (session_error_text (STransport error)) now ?st2 of
         (Inl e, st3) \<Rightarrow> (Inl e, st3) | (Inr _, st3) \<Rightarrow> (Inl (ESession (STransport error)), st3)))"
      using page_answer_cases [of wr p] by (auto simp: pull_round_def st1(1) remote is_offline_def)
  qed (use st1(2) n log in \<open>auto simp: same_log_def\<close>)
qed

lemma pull_round_caught_up:
  assumes "engine_for ev wr en" and "caught_up ev sdb uid e db st" and "digests_32 (ev_sha256 ev)"
    and "sync_inv sdb" and "favorites_valid ev sdb"
    and "tbl_get (users sdb) uid = Some u" and "e \<le> nat (us_sync_revision u)"
    and "\<And>p. changes_since sdb uid e (ee_pull_page en) = Inr p \<Longrightarrow> page_answer wr p = Inr p"
  defines "N \<equiv> nat (us_sync_revision u)" and "e' \<equiv> min (e + ee_pull_page en) (nat (us_sync_revision u))"
  obtains st' db' where "pull_round en now st = (Inr (e + ee_pull_page en < N), st')"
    "caught_up ev sdb uid e' db' st'" "follows sdb uid e e' db db'"
proof -
  let ?limit = "ee_pull_page en"
  have en: "ee_unicode en = ev_unicode ev" "ee_sha256 en = ev_sha256 ev" "0 < ?limit" "int ?limit \<le> i64_max"
    using assms(1) by (auto simp: engine_for_def)
  have db: "profile_inv db" and cursor: "map_option mt_last_server_revision (profile_meta db) = Some (int e)"
    using assms(2) by (auto simp: caught_up_def)
  obtain p where p: "changes_since sdb uid e ?limit = Inr p"
    and revs: "map sc_revision (cr_changes p) = [Suc e..<Suc (e + length (cr_changes p))]"
    and len: "e + length (cr_changes p) = e'"
    and rows: "list_all (\<lambda>c. \<exists>row. tbl_get (change_log sdb) (uid, int (sc_revision c)) = Some row
          \<and> Server_Sync.favorite_record sdb uid (cl_content_key row) = Inr (Some (sc_favorite c))
          \<and> cl_operation row = operation_name (sc_operation c)) (cr_changes p)"
    and nxt: "cr_next_revision p = e + length (cr_changes p)" and lat: "cr_latest_revision p = N"
    and more: "cr_has_more p = (e + ?limit < N)" and N: "int N \<le> i64_max"
    unfolding N_def e'_def by (rule server_page [OF assms(4,6,7) en(3,4)])
  have ok: "list_all (\<lambda>c. record_acceptable (ee_unicode en) (ee_sha256 en) (sc_favorite c)) (cr_changes p)"
    using rows server_record_acceptable(1) [OF assms(4,5)] unfolding en list_all_iff by blast
  obtain st2 n where st2: "active_db (es_worker st2) = Some db" "es_session st2 = (es_session st)\<lparr>sw_net := n\<rparr>"
    and n: "net_ok ev n" "token_live ev n (sw_token (es_session st)) uid" "same_log sdb (as_db (sn_app n))"
    and fetched: "pull_round en now st = (case page_answer wr p of
       Inr response \<Rightarrow> apply_page en now response st2
     | Inl error \<Rightarrow> (case record_error (session_error_text (STransport error)) now st2 of
         (Inl e, st3) \<Rightarrow> (Inl e, st3) | (Inr _, st3) \<Rightarrow> (Inl (ESession (STransport error)), st3)))"
    by (rule pull_round_fetched [OF assms(1,2) p])
  have round: "pull_round en now st = apply_page en now p st2" using fetched by (simp add: assms(8) [OF p])
  have "int (e + length (cr_changes p)) \<le> i64_max" using N unfolding len e'_def N_def by linarith
  moreover have "cr_has_more p = (cr_next_revision p < cr_latest_revision p)"
    unfolding more nxt lat len e'_def N_def by auto
  moreover have "digests_32 (ee_sha256 en)" using assms(3) en(2) by simp
  ultimately obtain db' st' where fin: "apply_page en now p st2 = (Inr (cr_has_more p), st')" "es_session st' = es_session st2"
    "active_db (es_worker st') = Some db'"
    and page: "apply_remote_page (ee_unicode en) (ee_sha256 en) db (cr_changes p) (e + length (cr_changes p)) now = Inr db'"
    using apply_page_caught_up [of st2 db e en p now] st2(1) db cursor ok revs nxt by blast
  have "pull_round en now st = (Inr (e + ?limit < N), st')" using fin(1) by (simp add: round more)
  moreover have "caught_up ev sdb uid e' db' st'"
    using n fin(2,3) st2(2) apply_remote_page_inv [OF db page] apply_remote_page_cursor [OF page]
    by (simp add: caught_up_def len)
  moreover have "follows sdb uid e e' db db'"
    using page_follows [OF assms(4,5) page revs rows] by (simp add: len)
  ultimately show thesis by (rule that)
qed

text \<open>A page that is not understood ends the pull; only the error is recorded.\<close>

lemma pull_round_invalid:
  assumes "engine_for ev wr en" and "caught_up ev sdb uid e db st"
    and "changes_since sdb uid e (ee_pull_page en) = Inr p" and "page_answer wr p = Inl InvalidResponse"
  obtains st' db' where "pull_round en now st = (Inl (ESession (STransport InvalidResponse)), st')"
    "caught_up ev sdb uid e db' st'" "follows sdb uid e e db db'"
proof -
  obtain st2 n where st2: "active_db (es_worker st2) = Some db" "es_session st2 = (es_session st)\<lparr>sw_net := n\<rparr>"
    and n: "net_ok ev n" "token_live ev n (sw_token (es_session st)) uid" "same_log sdb (as_db (sn_app n))"
    and fetched: "pull_round en now st = (case page_answer wr p of
       Inr response \<Rightarrow> apply_page en now response st2
     | Inl error \<Rightarrow> (case record_error (session_error_text (STransport error)) now st2 of
         (Inl e, st3) \<Rightarrow> (Inl e, st3) | (Inr _, st3) \<Rightarrow> (Inl (ESession (STransport error)), st3)))"
    by (rule pull_round_fetched [OF assms(1-3)])
  have round: "pull_round en now st = (case record_error (session_error_text (STransport InvalidResponse)) now st2 of
         (Inl e, st3) \<Rightarrow> (Inl e, st3) | (Inr _, st3) \<Rightarrow> (Inl (ESession (STransport InvalidResponse)), st3))"
    using fetched by (simp add: assms(4))
  let ?op = "committing (\<lambda>db. Inr (set_sync_error db (ascii (session_error_text (STransport InvalidResponse))) now))"
  let ?db' = "set_sync_error db (ascii (session_error_text (STransport InvalidResponse))) now"
  have "?op db = (Inr (), ?db')" by (simp add: committing_def tx_def)
  then obtain st3 where st3: "db_job ?op st2 = (map_err EDatabase (map_err WStorage (Inr ())), st3)"
    "active_db (es_worker st3) = Some ?db'" "es_session st3 = es_session st2"
    by (rule db_job_active [where op = ?op, OF st2(1)])
  have "pull_round en now st = (Inl (ESession (STransport InvalidResponse)), st3)"
    using st3(1) by (simp add: round record_error_def)
  moreover have "caught_up ev sdb uid e ?db' st3"
    using assms(2) st3 st2(2) n set_sync_error_inv by (simp add: caught_up_def set_sync_error_def set_meta_def option.map_comp comp_def)
  moreover have "follows sdb uid e e db ?db'"
    by (auto simp: follows_def logged_def set_sync_error_def set_meta_def outbox_find_def)
  ultimately show thesis by (rule that)
qed

text \<open>The page after revision \<open>since\<close>, and whether it is too long for the Desktop.\<close>

definition oversized_page :: "wire \<Rightarrow> server_db \<Rightarrow> string \<Rightarrow> u32 \<Rightarrow> u64 \<Rightarrow> bool" where
  "oversized_page wr sdb uid limit since = (case changes_since sdb uid since limit of
     Inl _ \<Rightarrow> False | Inr p \<Rightarrow> max_json_body_bytes < length (cd_encode (wr_page wr) p))"

definition pages_readable :: "wire \<Rightarrow> server_db \<Rightarrow> string \<Rightarrow> u32 \<Rightarrow> u64 \<Rightarrow> bool" where
  "pages_readable wr sdb uid limit latest \<longleftrightarrow> (\<forall>since \<le> latest. \<forall>p.
     changes_since sdb uid since limit = Inr p \<longrightarrow> cd_decode (wr_page wr) (cd_encode (wr_page wr) p) = Some p)"

lemma pull_all_caught_up:
  assumes "engine_for ev wr en" and "digests_32 (ev_sha256 ev)"
    and "sync_inv sdb" and "favorites_valid ev sdb"
    and "tbl_get (users sdb) uid = Some u" and "pages_readable wr sdb uid (ee_pull_page en) (nat (us_sync_revision u))"
    and "caught_up ev sdb uid e db st" and "e \<le> nat (us_sync_revision u)"
  shows "\<exists>r res st' db'. pull_all en now st = Some (res, st') \<and> e \<le> r \<and> r \<le> nat (us_sync_revision u)
     \<and> caught_up ev sdb uid r db' st' \<and> follows sdb uid e r db db'
     \<and> (res = Inr () \<and> r = nat (us_sync_revision u)
        \<or> res = Inl (ESession (STransport InvalidResponse)) \<and> oversized_page wr sdb uid (ee_pull_page en) r)"
  using assms(7,8)
proof (induction e arbitrary: db st rule: measure_induct_rule [of "\<lambda>e. nat (us_sync_revision u) - e"])
  case (less e)
  let ?N = "nat (us_sync_revision u)" and ?e' = "min (e + ee_pull_page en) (nat (us_sync_revision u))"
  have limit: "0 < ee_pull_page en" using assms(1) by (simp add: engine_for_def)
  show ?case
  proof (cases "oversized_page wr sdb uid (ee_pull_page en) e")
    case True
    then obtain p where p: "changes_since sdb uid e (ee_pull_page en) = Inr p" "page_answer wr p = Inl InvalidResponse"
      by (auto simp: oversized_page_def page_answer_def split: sum.splits)
    obtain st1 db1 where "pull_round en now st = (Inl (ESession (STransport InvalidResponse)), st1)"
      "caught_up ev sdb uid e db1 st1" "follows sdb uid e e db db1"
      by (rule pull_round_invalid [OF assms(1) less.prems(1) p])
    with True less.prems(2) show ?thesis by (auto simp: pull_all.simps [of en now st])
  next
    case False
    have answer: "page_answer wr p = Inr p" if "changes_since sdb uid e (ee_pull_page en) = Inr p" for p
      using assms(6) that less.prems(2) False by (auto simp: pages_readable_def page_answer_def oversized_page_def ok_or_def)
    obtain st1 db1 where round: "pull_round en now st = (Inr (e + ee_pull_page en < ?N), st1)"
      and up: "caught_up ev sdb uid ?e' db1 st1" and fol: "follows sdb uid e ?e' db db1"
      using pull_round_caught_up [OF assms(1) less.prems(1) assms(2-5) less.prems(2) answer] by metis
    show ?thesis
    proof (cases "e + ee_pull_page en < ?N")
      case True
      then have "?N - ?e' < ?N - e" "?e' \<le> ?N" using limit by auto
      from less.IH [OF this(1) up this(2)] obtain r res st' db' where all: "pull_all en now st1 = Some (res, st')"
        "?e' \<le> r" "r \<le> ?N" "caught_up ev sdb uid r db' st'" "follows sdb uid ?e' r db1 db'"
        "res = Inr () \<and> r = ?N \<or> res = Inl (ESession (STransport InvalidResponse)) \<and> oversized_page wr sdb uid (ee_pull_page en) r"
        by blast
      have "e \<le> ?e'" using less.prems(2) by simp
      then have "e \<le> r" "follows sdb uid e r db db'" using all(2) follows_trans [OF fol all(5)] by simp_all
      moreover have "pull_all en now st = Some (res, st')" using all(1) by (simp add: pull_all.simps [of en now st] round True)
      ultimately show ?thesis using all(3,4,6) by blast
    next
      case False
      then have "?e' = ?N" using less.prems(2) by simp
      with up fol less.prems(2) show ?thesis by (auto simp: pull_all.simps [of en now st] round False)
    qed
  qed
qed

text \<open>
  C22: a pull follows the Server's log until it is up to date or meets a page it cannot take. Starting from
  a consistent Profile that has seen the log of its user up to revision \<open>e\<close>, with an access token that
  stays live, while nobody else changes the Server or the Profile, \<open>pull_all\<close> returns, however many pages
  there are. It returns without an error with the cursor at the user's revision on the Server; or with an
  invalid response, with the cursor in front of a page longer than 8 MiB. Either way the Profile is
  consistent, and every favorite without a pending local intent is the Server's current record if the
  log mentions it between \<open>e\<close> and the cursor and unchanged otherwise. The JSON decoder is assumed to read
  back the pages the Server wrote.
\<close>

theorem pull_converges:
  assumes "engine_for ev wr en" and "digests_32 (ev_sha256 ev)"
    and "sdb = as_db (sn_app (sw_net (es_session st)))"
    and "tbl_get (users sdb) uid = Some u" and "pages_readable wr sdb uid (ee_pull_page en) (nat (us_sync_revision u))"
    and "caught_up ev sdb uid e db st" and "e \<le> nat (us_sync_revision u)"
  shows "\<exists>r res st' db'. pull_all en now st = Some (res, st') \<and> e \<le> r \<and> r \<le> nat (us_sync_revision u)
     \<and> caught_up ev sdb uid r db' st' \<and> follows sdb uid e r db db'
     \<and> (res = Inr () \<and> r = nat (us_sync_revision u)
        \<or> res = Inl (ESession (STransport InvalidResponse)) \<and> oversized_page wr sdb uid (ee_pull_page en) r)"
proof -
  have "net_ok ev (sw_net (es_session st))" using assms(6) by (simp add: caught_up_def)
  then have "sync_inv sdb" "favorites_valid ev sdb" by (simp_all add: net_ok_def assms(3))
  from pull_all_caught_up [OF assms(1,2) this assms(4-7)] show ?thesis .
qed

section \<open>An example installation\<close>

text \<open>A Server with one user, one signed-in device and one favorite, and a wire that carries its two
  pages.\<close>

definition pull_env :: api_env where
  "pull_env = example_env\<lparr>ev_sha256 := example_profile_sha, ev_json := example_json\<rparr>"

definition pull_login_db :: server_db where
  "pull_login_db =
     snd (projr (create_session
       (snd (projr (repo_bootstrap_user empty_server_db ''ann'' ''h'' 5 ''u1'')))
       example_user ''d1'' ''macos'' None (to_hex example_content_key) ''r1'' 100 10 ''s1''))"

definition pull_event :: push_event where
  "pull_event = example_event\<lparr>pe_content_key := to_hex example_content_key,
     pe_favorite := Some (fr_favorite example_remote)\<rparr>"

definition pull_db :: server_db where
  "pull_db = snd (projr (push_events example_json example_profile_sha pull_login_db ''u1'' ''d1'' [pull_event] 30))"

definition pull_page :: "nat \<Rightarrow> changes_response" where
  "pull_page since = projr (changes_since pull_db ''u1'' since 5)"

definition pull_codec :: "changes_response codec" where
  "pull_codec = \<lparr>cd_encode = (\<lambda>p. if p = pull_page 0 then [0] else if p = pull_page 1 then [1] else []),
     cd_decode = (\<lambda>bytes. if bytes = [0] then Some (pull_page 0) else if bytes = [1] then Some (pull_page 1) else None)\<rparr>"

definition nothing_codec :: "'a codec" where
  "nothing_codec = \<lparr>cd_encode = (\<lambda>_. []), cd_decode = (\<lambda>_. None)\<rparr>"

definition pull_wire :: wire where
  "pull_wire = \<lparr>wr_seed = (\<lambda>_. example_seed), wr_push_bytes = length, wr_error_body = (\<lambda>e. string_bytes (rs_code e)),
     wr_read_code = (\<lambda>bytes. Some (map (char_of :: nat \<Rightarrow> char) (map unat bytes))), wr_read_conflict = (\<lambda>_. None), wr_tokens = nothing_codec,
     wr_pushed = nothing_codec, wr_page = pull_codec, wr_devices = nothing_codec\<rparr>"

definition pull_engine :: "((string, byte list) table, server_net) sync_engine" where
  "pull_engine = \<lparr>ee_unicode = ascii_unicode_db, ee_sha256 = example_profile_sha, ee_uuid = Some,
     ee_transport = api_transport pull_env pull_wire, ee_keyring = table_keyring, ee_info = example_session,
     ee_push_batch = 5, ee_pull_page = 5, ee_meanwhile = (\<lambda>_ ws. ws)\<rparr>"

definition pull_state :: "((string, byte list) table, server_net) engine_state" where
  "pull_state = \<lparr>es_worker = \<lparr>ws_files = [(''profile-p1.sqlite3'', example_queried)],
       ws_active = Some ''profile-p1.sqlite3''\<rparr>,
     es_session = \<lparr>sw_token = ''t'', sw_expires_at = 100, sw_keyring = [],
       sw_net = \<lparr>sn_app = empty_app\<lparr>as_db := pull_db\<rparr>, sn_clock = 40, sn_drawn = 0\<rparr>\<rparr>\<rparr>"

interpretation wired: faithful_wire ev pull_wire origin for ev origin
  by unfold_locales (auto simp: pull_wire_def pull_codec_def split: if_splits)

lemma pull_event_valid: "validate_event pull_env pull_event = Inr ()"
proof -
  have "prepare_content ascii_unicode_db example_profile_sha [97] ''en'' max_sync_text_characters
     = Inr \<lparr>pc_source_text = [97], pc_canonical = \<lparr>cc_key_version = content_key_version,
          cc_normalization_version = normalization_version, cc_kind = Word, cc_source_lang = ''en'', cc_text = [97]\<rparr>,
          pc_content_key = example_content_key\<rparr>"
    using example_prepared by (simp add: max_sync_text_characters_def max_remote_content_characters_def)
  moreover have "validate_content_key (to_hex example_content_key) = Inr ()" by code_simp
  moreover have "content_key_version = 1" by (simp add: content_key_version_def)
  ultimately show ?thesis
    by (simp add: validate_snapshot_def Server_Sync.example_stats_def utf8_len_def utf8_def utf8_char_def validate_event_def pull_env_def example_env_def pull_event_def example_event_def example_remote_def Let_def)
qed

lemma pull_steps: "(store_step pull_env)\<^sup>*\<^sup>* empty_server_db pull_db"
proof -
  let ?db0 = "snd (projr (repo_bootstrap_user empty_server_db ''ann'' ''h'' 5 ''u1''))"
  let ?login = "create_session ?db0 example_user ''d1'' ''macos'' None (to_hex example_content_key) ''r1'' 100 10 ''s1''"
  let ?push = "push_events example_json example_profile_sha pull_login_db ''u1'' ''d1'' [pull_event] 30"
  have "repo_bootstrap_user empty_server_db ''ann'' ''h'' 5 ''u1'' = Inr (''u1'', ?db0)" by code_simp
  then have 1: "store_step pull_env empty_server_db ?db0" by (intro s_identity step_bootstrap)
  have "\<not> isl ?login" by code_simp
  then have "?login = Inr (fst (projr ?login), pull_login_db)"
    unfolding pull_login_db_def by (metis prod.collapse sum.collapse(2))
  then have 2: "store_step pull_env ?db0 pull_login_db" by (intro s_identity step_login)
  have "\<not> isl ?push" by code_simp
  then have "?push = Inr (fst (projr ?push), pull_db)"
    unfolding pull_db_def by (metis prod.collapse sum.collapse(2))
  moreover have "list_all push_event_typed [pull_event]"
    by (simp add: push_event_typed_def pull_event_def example_event_def Server_Sync.example_stats_def u32_max_def u64_max_def)
  ultimately have 3: "store_step pull_env pull_login_db pull_db"
    using pull_event_valid by (intro s_push) (auto simp: pull_env_def)
  from 1 2 3 show ?thesis by (meson converse_rtranclp_into_rtranclp rtranclp.rtrancl_refl)
qed

lemma pull_net_ok: "net_ok pull_env (sw_net (es_session pull_state))"
  using store_steps_inv [OF pull_steps identity_inv_empty sync_inv_empty favorites_valid_empty]
  by (simp add: net_ok_def pull_state_def)

theorem pull_all_terminates_witness: "\<exists>r st'. pull_all pull_engine 50 pull_state = Some (r, st')"
proof -
  have "change_feed (ee_transport pull_engine) (sx_server_origin (ee_info pull_engine)) (net_ok pull_env)"
    using wired.feed.change_feed_axioms by (simp add: pull_engine_def)
  from pull_all_terminates [OF _ this pull_net_ok, of 50] show ?thesis
    by (simp add: pull_engine_def)
qed

lemma pull_db_user: "\<exists>u. tbl_get (users pull_db) ''u1'' = Some u \<and> us_sync_revision u = 1"
proof -
  have "map_option us_sync_revision (tbl_get (users pull_db) ''u1'') = Some 1" by code_simp
  then show ?thesis by auto
qed

lemma pull_token_live: "token_live pull_env (sw_net (es_session pull_state)) ''t'' ''u1''"
proof -
  have "map_option (\<lambda>x. case x of Inl e \<Rightarrow> '''' | Inr (who, db) \<Rightarrow> si_user_id who)
    (Some (authenticate_access pull_db (to_hex example_content_key) 40)) = Some ''u1''" by code_simp
  then have "\<exists>who db'. authenticate_access pull_db (to_hex example_content_key) 40 = Inr (who, db') \<and> si_user_id who = ''u1''"
    by (auto split: sum.splits)
  then show ?thesis
    by (simp add: token_live_def pull_state_def pull_env_def token_hash_def example_profile_sha_def i64_max_def)
qed

lemma pull_page_of: "changes_since pull_db ''u1'' n 5 = Inr p \<Longrightarrow> p = pull_page n"
  by (simp add: pull_page_def)

lemma pull_pages: "pages_readable pull_wire pull_db ''u1'' 5 1"
proof -
  have "cd_decode (wr_page pull_wire) (cd_encode (wr_page pull_wire) (pull_page n)) = Some (pull_page n)" if "n = 0 \<or> n = 1" for n
    using that by (auto simp: pull_wire_def pull_codec_def)
  then show ?thesis unfolding pages_readable_def using pull_page_of by (metis le_eq_less_or_eq less_one)
qed

lemma pull_pages_short: "\<not> oversized_page pull_wire pull_db ''u1'' 5 r"
  by (auto simp: oversized_page_def pull_wire_def pull_codec_def max_json_body_bytes_def split: sum.splits)

lemma pull_log: "logged pull_db ''u1'' 0 1 (to_hex example_content_key)"
proof -
  have "map_option cl_content_key (tbl_get (change_log pull_db) (''u1'', 1)) = Some (to_hex example_content_key)" by code_simp
  then show ?thesis unfolding logged_def by (intro exI [of _ 1]) auto
qed

theorem pull_converges_witness:
  "\<exists>st' db'. pull_all pull_engine 50 pull_state = Some (Inr (), st') \<and> active_db (es_worker st') = Some db'
     \<and> map_option mt_last_server_revision (profile_meta db') = Some 1
     \<and> tbl_get (favorites db') (to_hex example_content_key) = current_row pull_db ''u1'' (to_hex example_content_key)"
proof -
  obtain u where u: "tbl_get (users pull_db) ''u1'' = Some u" "us_sync_revision u = 1" using pull_db_user by blast
  have a: "engine_for pull_env pull_wire pull_engine"
    by (simp add: engine_for_def pull_engine_def pull_env_def example_env_def example_config_def i64_max_def)
  have b: "digests_32 (ev_sha256 pull_env)" by (simp add: digests_32_def pull_env_def example_profile_sha_def)
  have c: "pull_db = as_db (sn_app (sw_net (es_session pull_state)))" by (simp add: pull_state_def)
  have d: "pages_readable pull_wire pull_db ''u1'' (ee_pull_page pull_engine) (nat (us_sync_revision u))"
    using pull_pages u by (simp add: pull_engine_def)
  have e: "caught_up pull_env pull_db ''u1'' 0 example_queried pull_state"
    using example_queried_inv pull_net_ok pull_token_live
    by (simp add: caught_up_def active_db_def pull_state_def tbl_get_def same_log_def example_queried_def example_fresh_def
        migrated_profile_db_def example_meta_def)
  have "0 \<le> nat (us_sync_revision u)" by simp
  note pull_converges [OF a b c u(1) d e this, of 50]
  moreover have "\<not> oversized_page pull_wire pull_db ''u1'' (ee_pull_page pull_engine) r" for r
    using pull_pages_short by (simp add: pull_engine_def)
  ultimately obtain st' db' where all: "pull_all pull_engine 50 pull_state = Some (Inr (), st')"
    and up: "caught_up pull_env pull_db ''u1'' 1 db' st'" and fol: "follows pull_db ''u1'' 0 1 example_queried db'"
    using u(2) by auto
  have "outbox_find example_queried (favorite_coalesce_key example_content_key) = None"
    by (simp add: outbox_find_def example_queried_def example_fresh_def migrated_profile_db_def)
  with fol pull_log have "tbl_get (favorites db') (to_hex example_content_key) = current_row pull_db ''u1'' (to_hex example_content_key)"
    by (simp add: follows_def)
  with all up show ?thesis by (auto simp: caught_up_def)
qed

text \<open>
  C23: what one Desktop got into the Server, every other Desktop takes out of it. Whatever the store
  of a Server has committed since its database was created, each record it hands out passes the
  Desktop's validation, and applying it to a consistent Profile succeeds and keeps the Profile
  consistent. A pull is never stuck on a record.
\<close>

theorem server_record_accepted:
  assumes "(store_step ev)\<^sup>*\<^sup>* empty_server_db sdb" and "Server_Sync.favorite_record sdb uid key = Inr (Some r)"
    and "digests_32 (ev_sha256 ev)" and "profile_inv db" and "sc_favorite c = r"
  shows "validate_remote (ev_unicode ev) (ev_sha256 ev) r = Inr ()
     \<and> (\<exists>db'. apply_remote_change (ev_unicode ev) (ev_sha256 ev) db c now = Inr db' \<and> profile_inv db')"
proof -
  have "sync_inv sdb" "favorites_valid ev sdb"
    using store_steps_inv [OF assms(1) identity_inv_empty sync_inv_empty favorites_valid_empty] by blast+
  from server_record_acceptable(1) [OF this assms(2)]
  have ok: "record_acceptable (ev_unicode ev) (ev_sha256 ev) (sc_favorite c)" by (simp add: assms(5))
  obtain db' where "apply_remote_change (ev_unicode ev) (ev_sha256 ev) db c now = Inr db'"
    using apply_remote_change_total [OF assms(4) ok assms(3)] by blast
  with apply_remote_change_inv [OF assms(4) this] ok assms(5) show ?thesis by (auto simp: record_acceptable_def)
qed

theorem server_record_accepted_witness:
  "\<exists>r. Server_Sync.favorite_record pull_db ''u1'' (to_hex example_content_key) = Inr (Some r)
     \<and> validate_remote ascii_unicode_db example_profile_sha r = Inr ()"
proof -
  have "\<exists>r. Server_Sync.favorite_record pull_db ''u1'' (to_hex example_content_key) = Inr (Some r)"
  proof -
    have "map_option (\<lambda>x. case x of Inr (Some _) \<Rightarrow> True | _ \<Rightarrow> False)
      (Some (Server_Sync.favorite_record pull_db ''u1'' (to_hex example_content_key))) = Some True" by code_simp
    then show ?thesis by (auto split: sum.splits option.splits)
  qed
  then obtain r where r: "Server_Sync.favorite_record pull_db ''u1'' (to_hex example_content_key) = Inr (Some r)" by blast
  have "digests_32 (ev_sha256 pull_env)" by (simp add: digests_32_def pull_env_def example_profile_sha_def)
  from server_record_accepted [OF pull_steps r this example_queried_inv, of "example_change\<lparr>sc_favorite := r\<rparr>"] r
  show ?thesis by (auto simp: pull_env_def example_env_def)
qed

definition conflict_wire :: "nat \<Rightarrow> sync_conflict \<Rightarrow> wire" where
  "conflict_wire padding c = pull_wire\<lparr>wr_error_body := (\<lambda>e. replicate padding 32), wr_read_code := (\<lambda>_. Some ''favorite_conflict''),
     wr_read_conflict := (\<lambda>_. Some (conflict_of c))\<rparr>"

definition example_refused :: sync_conflict where
  "example_refused = \<lparr>cf_event_id = Some ''e1'', cf_current = Some example_remote, cf_latest_revision = 1\<rparr>"

theorem server_errors_understood_witness:
  "exchange pull_wire pull_codec sync_error_response (Inl (sync_api_error_of (Repository AccessExpired))) = Inl TAccessExpired
   \<and> exchange (conflict_wire 900 example_refused) pull_codec sync_error_response (Inl (sync_api_error_of (Conflict example_refused)))
       = Inl (TConflict (conflict_of example_refused))
   \<and> exchange (conflict_wire 70000 example_refused) pull_codec sync_error_response (Inl (sync_api_error_of (Conflict example_refused)))
       = Inl InvalidResponse"
proof -
  let ?expired = "sync_error_response (sync_api_error_of (Repository AccessExpired))"
  have 1: "error_readable pull_wire ?expired" "length (wr_error_body pull_wire ?expired) \<le> max_error_body_bytes"
    by (simp_all add: error_readable_def pull_wire_def api_error_of_def api_error_response_def max_error_body_bytes_def
        string_bytes_def comp_def char_of_def bit_0)
  let ?refused = "sync_error_response (sync_api_error_of (Conflict example_refused))"
  have 2: "error_readable (conflict_wire padding example_refused) ?refused" for padding
    by (simp add: error_readable_def conflict_wire_def)
  have small: "length (wr_error_body (conflict_wire 900 example_refused) ?refused) \<le> max_error_body_bytes"
    and large: "\<not> length (wr_error_body (conflict_wire 70000 example_refused) ?refused) \<le> max_error_body_bytes"
    by (simp_all add: conflict_wire_def max_error_body_bytes_def)
  show ?thesis
    using server_errors_understood [OF 1(1), of pull_codec] 1(2)
      server_errors_understood [OF 2, of 900 pull_codec] small server_errors_understood [OF 2, of 70000 pull_codec] large
    by simp
qed

end
