(* ===== verification/Profile_Conflicts.thy ===== *)
theory Profile_Conflicts
  imports Profile_Properties
begin

text \<open>
  What becomes of an intent the Server refused (\<open>crates/storage/src/sync.rs\<close>, \<open>resolve_conflict\<close>), over
  everything the Profile goes through afterwards. The sync engine has one batch in flight: it takes the ready
  events, and an answer ends the batch by acknowledgements, by a conflict, by a retry or by an error that
  writes nothing. Jobs of the user interface and pulled pages may run at any time in between. Left out are
  only imports of portable documents and the changes the user makes to the favorite the intent is about. Event ids are stored in the spelling
  the parser returns, as the code that inserts them writes them.
\<close>

section \<open>The Profile with a batch in flight\<close>

inductive intent_step :: "unicode_db \<Rightarrow> sha256 \<Rightarrow> uuid_parser \<Rightarrow> content_key
    \<Rightarrow> profile_db \<times> outbox_event list \<Rightarrow> profile_db \<times> outbox_event list \<Rightarrow> bool"
  for u sha up key where
  i_take: "ready_outbox_events up db t n = Inr es \<Longrightarrow> (\<And>r. r \<in> set (sync_outbox db) \<Longrightarrow> up (ob_event_id r) = Some (ob_event_id r)) \<Longrightarrow>
    intent_step u sha up key (db, []) (db, es)"
| i_acks: "acknowledge_events db items now = Inr db' \<Longrightarrow> intent_step u sha up key (db, es) (db', [])"
| i_conflict: "resolve_conflict db ev current now = Inr (res, db') \<Longrightarrow> ev \<in> set es \<Longrightarrow>
    (\<And>r. current = Some r \<Longrightarrow> remote_ok r \<and> fr_content_key r = to_hex (oe_content_key ev)) \<Longrightarrow>
    intent_step u sha up key (db, es) (db', [])"
| i_retry: "intent_step u sha up key (db, es) (mark_retry db es at err now, [])"
| i_failed: "intent_step u sha up key (db, es) (db, [])"
| i_page: "apply_remote_page u sha db changes next now = Inr db' \<Longrightarrow> intent_step u sha up key (db, es) (db', es)"
| i_query: "record_successful_query db e eid = Inr (s, db') \<Longrightarrow> history_entry_typed e \<Longrightarrow>
    intent_step u sha up key (db, es) (db', es)"
| i_favorite: "favorite_content db k now eid = (r, db') \<Longrightarrow> length k = 32 \<Longrightarrow> k \<noteq> key \<Longrightarrow>
    intent_step u sha up key (db, es) (db', es)"
| i_unfavorite: "unfavorite db k now eid = (r, db') \<Longrightarrow> length k = 32 \<Longrightarrow> k \<noteq> key \<Longrightarrow>
    intent_step u sha up key (db, es) (db', es)"
| i_acknowledge: "acknowledge_favorite db k n = Inr db' \<Longrightarrow> intent_step u sha up key (db, es) (db', es)"
| i_clear: "intent_step u sha up key (db, es) (clear_history db, es)"
| i_bind: "bind_user db user name origin now = Inr db' \<Longrightarrow> intent_step u sha up key (db, es) (db', es)"
| i_account: "update_account_identity up db user name origin now = Inr db' \<Longrightarrow>
    intent_step u sha up key (db, es) (db', es)"
| i_device: "replace_device_identity db old new now = Inr db' \<Longrightarrow> intent_step u sha up key (db, es) (db', es)"
| i_open: "open_profile db m = Inr db' \<Longrightarrow> intent_step u sha up key (db, es) (db', es)"
| i_sse: "intent_step u sha up key (db, es) (set_sse_connected db c now, es)"
| i_error: "intent_step u sha up key (db, es) (set_sync_error db err now, es)"

lemma intent_step_profile: "intent_step u sha up key s s' \<Longrightarrow> fst s' = fst s \<or> profile_step u sha up (fst s) (fst s')"
  by (induction rule: intent_step.induct) (auto intro: profile_step.intros)

lemma intent_step_inv: "intent_step u sha up key s s' \<Longrightarrow> profile_inv (fst s) \<Longrightarrow> profile_inv (fst s')"
  using intent_step_profile profile_step_inv by metis

section \<open>Rows that keep their marks\<close>

text \<open>Every row with the coalesce key was there before, with the same event, replay count and error.\<close>

definition intent_kept :: "string \<Rightarrow> profile_db \<Rightarrow> profile_db \<Rightarrow> bool" where
  "intent_kept ck db db' \<longleftrightarrow> (\<forall>r' \<in> set (sync_outbox db'). ob_coalesce_key r' = Some ck \<longrightarrow>
     (\<exists>r \<in> set (sync_outbox db). ob_coalesce_key r = Some ck \<and> ob_event_id r' = ob_event_id r
        \<and> ob_conflict_replay_count r' = ob_conflict_replay_count r \<and> ob_last_error r' = ob_last_error r))"

lemma intent_kept_same: "sync_outbox db' = sync_outbox db \<Longrightarrow> intent_kept ck db db'"
  by (auto simp: intent_kept_def)

lemma intent_kept_filter:
  "sync_outbox db1 = filter P (sync_outbox db') \<Longrightarrow> intent_kept ck db db' \<Longrightarrow> intent_kept ck db db1"
  by (auto simp: intent_kept_def)

lemma intent_kept_trans: "intent_kept ck a b \<Longrightarrow> intent_kept ck b c \<Longrightarrow> intent_kept ck a c"
  unfolding intent_kept_def by metis

lemma intent_kept_delete: "intent_kept ck db (outbox_delete k db)"
  by (auto simp: intent_kept_def outbox_delete_def)

lemma upsert_outbox_kept:
  assumes "upsert_outbox db ev = Inr db'" and "po_coalesce_key ev \<noteq> ck"
  shows "intent_kept ck db db'"
  using assms by (auto simp: intent_kept_def upsert_outbox_def rbind_Inr split: option.splits if_splits)

lemma favorite_content_kept:
  assumes "favorite_content db k now eid = (r, db')" and "k \<noteq> key"
  shows "intent_kept (favorite_coalesce_key key) db db'"
proof -
  have w: "intent_kept (favorite_coalesce_key key) db db1" if "favorite_write db k h n st now eid = Inr (f, db1)" for h n st f db1
  proof -
    from that obtain row where "upsert_favorite_event (db\<lparr>favorites := row\<rparr>) k ''active'' n st now OutFavoriteUpsert eid = Inr db1"
      by (auto simp: favorite_write_def Let_def rbind_Inr)
    then have "intent_kept (favorite_coalesce_key key) (db\<lparr>favorites := row\<rparr>) db1"
      unfolding upsert_favorite_event_def by (rule upsert_outbox_kept) (simp add: assms(2))
    then show ?thesis by (simp add: intent_kept_def)
  qed
  show ?thesis
  proof (cases "favorite_from_history_tx db k now eid")
    case (Inl e)
    then show ?thesis using assms(1) by (auto simp: favorite_content_def intent_kept_same)
  next
    case (Inr p)
    then obtain f where p: "favorite_from_history_tx db k now eid = Inr (f, db')"
      using assms(1) by (cases p) (auto simp: favorite_content_def)
    then show ?thesis
      by (auto simp: favorite_from_history_tx_def rbind_Inr intent_kept_same w split: option.splits if_splits)
  qed
qed

lemma unfavorite_kept:
  assumes "unfavorite db k now eid = (r, db')" and "k \<noteq> key"
  shows "intent_kept (favorite_coalesce_key key) db db'"
proof (cases "unfavorite_tx db k now eid")
  case (Inl e)
  then show ?thesis using assms(1) by (auto simp: unfavorite_def intent_kept_same)
next
  case (Inr p)
  then obtain f where p: "unfavorite_tx db k now eid = Inr (f, db')"
    using assms(1) by (cases p) (auto simp: unfavorite_def split: option.splits)
  have d: "intent_kept (favorite_coalesce_key key) db (outbox_delete a (db\<lparr>favorites := t\<rparr>))" for a t
    by (auto simp: intent_kept_def outbox_delete_def)
  have w: "intent_kept (favorite_coalesce_key key) db db3"
    if "upsert_favorite_event (outbox_delete a (db\<lparr>favorites := t\<rparr>)) k st n s now OutFavoriteDelete eid = Inr db3" for a t st n s db3
    using that unfolding upsert_favorite_event_def
    by (rule intent_kept_trans [OF d upsert_outbox_kept]) (simp add: assms(2))
  have dd: "intent_kept (favorite_coalesce_key key) db (outbox_delete b (outbox_delete a (db\<lparr>favorites := t\<rparr>)))" for a b t
    by (rule intent_kept_trans [OF d intent_kept_delete])
  from p show ?thesis
    by (auto simp: unfavorite_tx_def Let_def rbind_Inr intent_kept_same w dd split: option.splits if_splits)
qed

lemma record_successful_query_kept:
  assumes "record_successful_query db e eid = Inr (s, db')"
  shows "intent_kept (favorite_coalesce_key key) db db'"
proof -
  let ?k = "stc_content_key (he_content e)"
  from assms obtain db2 st where c: "count_query (upsert_history db e) (to_hex ?k) (he_last_queried_at e) = Inr db2"
    and q: "(if tbl_has (favorites db2) (to_hex ?k)
             then upsert_query_stats_event db2 ?k st (he_last_queried_at e) eid else Inr db2) = Inr db'"
    by (auto simp: record_successful_query_def Let_def rbind_Inr)
  have "sync_outbox db2 = sync_outbox db"
    using c by (cases rule: count_query_cases) (simp_all add: upsert_history_def Let_def)
  then have 1: "intent_kept (favorite_coalesce_key key) db db2" by (rule intent_kept_same)
  have "intent_kept (favorite_coalesce_key key) db2 db'"
    using q by (auto simp: upsert_query_stats_event_def Let_def rbind_Inr intent_kept_same split: if_splits
        intro: upsert_outbox_kept)
  with 1 show ?thesis by (rule intent_kept_trans)
qed

lemma acknowledge_one_kept:
  assumes "acknowledge_one now item db = Inr db'"
  shows "intent_kept ck db db'"
proof -
  let ?e = "ae_event item" and ?k = "to_hex (oe_content_key (ae_event item))"
  from assms obtain db1 db2 where
    one: "(case pa_entity_revision (ae_acknowledgement item) of None \<Rightarrow> Inr db
             | Some n \<Rightarrow> rbind (sqlite_i64 n) (\<lambda>revision.
                 Inr ((set_entity_revision ?k revision db)\<lparr>sync_outbox := map (\<lambda>r.
                   if ob_content_key r = ?k \<and> ob_event_id r \<noteq> oe_event_id ?e
                      \<and> (ob_operation r = ''favorite_upsert'' \<or> ob_operation r = ''favorite_delete'')
                   then r\<lparr>ob_base_entity_revision := Some revision\<rparr> else r) (sync_outbox db)\<rparr>))) = Inr db1"
    and two: "(case pa_aggregate (ae_acknowledgement item) of None \<Rightarrow> Inr db1
             | Some ag \<Rightarrow> update_aggregate db1 (oe_content_key ?e) ag (ae_sent_query_count item) now) = Inr db2"
    and db': "db' = db2\<lparr>sync_outbox := filter (\<lambda>r. ob_event_id r \<noteq> oe_event_id ?e) (sync_outbox db2)\<rparr>"
    by (auto simp: acknowledge_one_def Let_def rbind_Inr split: if_splits)
  have "intent_kept ck db db1" using one by (fastforce split: option.splits simp: rbind_Inr intent_kept_def)
  moreover have "sync_outbox db2 = sync_outbox db1"
    using two by (auto split: option.splits dest!: update_aggregate_frame)
  ultimately have "intent_kept ck db db2" by (simp add: intent_kept_def)
  then show ?thesis unfolding db' by (rule intent_kept_filter [rotated]) simp
qed

lemma acknowledge_events_kept:
  assumes "acknowledge_events db items now = Inr db'"
  shows "intent_kept ck db db'"
proof -
  have loop: "foldM (acknowledge_one now) items db = Inr db1 \<Longrightarrow> intent_kept ck db db1" for db1
  proof (induction items arbitrary: db)
    case (Cons x xs)
    then show ?case by (auto simp: rbind_Inr intro: intent_kept_trans acknowledge_one_kept)
  qed (simp add: intent_kept_same)
  from assms show ?thesis
    by (auto simp: acknowledge_events_def rbind_Inr set_meta_def intent_kept_def dest!: loop)
qed

lemma apply_remote_change_kept:
  assumes "apply_remote_change u sha db c now = Inr db'"
  shows "intent_kept ck db db'"
  using assms
proof (cases rule: apply_remote_change_cases)
  case (1 key)
  then show ?thesis by (auto intro: intent_kept_same dest: write_remote_outbox)
next
  case (2 key row op local db1)
  have "intent_kept ck db db1" using 2 by (auto intro: intent_kept_same dest: write_remote_outbox)
  then show ?thesis unfolding 2(8) by (rule intent_kept_trans [OF _ intent_kept_delete])
next
  case (3 key row op local n)
  then show ?thesis using update_record_simps(1) [OF 3(9)] by (auto simp: intent_kept_def)
qed

lemma apply_remote_page_kept:
  assumes "apply_remote_page u sha db changes next now = Inr db'"
  shows "intent_kept ck db db'"
proof -
  have loop: "foldM (apply_page_change u sha next now) cs st = Inr st' \<Longrightarrow> intent_kept ck (fst st) (fst st')" for cs st st'
  proof (induction cs arbitrary: st)
    case (Cons c cs)
    then obtain st1 where one: "apply_page_change u sha next now c st = Inr st1"
      and rest: "foldM (apply_page_change u sha next now) cs st1 = Inr st'" by (auto simp: rbind_Inr)
    from one have "intent_kept ck (fst st) (fst st1)"
      by (cases st; cases st1) (auto simp: apply_page_change_Inr intro: apply_remote_change_kept)
    then show ?case using Cons.IH [OF rest] by (rule intent_kept_trans)
  qed (simp add: intent_kept_same)
  from assms show ?thesis
    by (auto simp: apply_remote_page_def rbind_Inr set_meta_def intent_kept_def split: option.splits if_splits
        dest!: loop)
qed

lemma other_jobs_kept:
  "acknowledge_favorite db k n = Inr db' \<Longrightarrow> intent_kept ck db db'"
  "intent_kept ck db (clear_history db)"
  "bind_user db user name origin now = Inr db' \<Longrightarrow> intent_kept ck db db'"
  "update_account_identity up db user name origin now = Inr db' \<Longrightarrow> intent_kept ck db db'"
  "open_profile db m = Inr db' \<Longrightarrow> intent_kept ck db db'"
  "intent_kept ck db (set_sse_connected db c now)"
  "intent_kept ck db (set_sync_error db err now)"
  by (auto simp: intent_kept_def acknowledge_favorite_def outbox_delete_def clear_history_def bind_user_def
      update_account_identity_def open_profile_def upsert_or_validate_profile_def set_sse_connected_def
      set_sync_error_def set_meta_def rbind_Inr split: if_splits option.splits)

lemma replace_device_identity_kept:
  assumes "replace_device_identity db old new now = Inr db'"
  shows "intent_kept (favorite_coalesce_key key) db db'"
  using assms by (auto simp: intent_kept_def replace_device_identity_def favorite_coalesce_key_def Let_def
      split: if_splits option.splits)

lemma resolve_other_kept:
  assumes "resolve_conflict db ev current now = Inr (res, db')" and "oe_content_key ev \<noteq> key"
  shows "intent_kept (favorite_coalesce_key key) db db'"
  using assms(1)
proof (cases rule: resolve_conflict_cases)
  case gone
  then show ?thesis using assms(2) by (auto simp: intent_kept_def mark_manual_conflict_def set_meta_def)
next
  case (converged r db1 local)
  have "intent_kept (favorite_coalesce_key key) db db1" using converged(5) by (auto intro: intent_kept_same dest: write_remote_outbox)
  then show ?thesis unfolding converged(6) by (rule intent_kept_trans [OF _ intent_kept_delete])
next
  case (replay r row db1 n)
  then show ?thesis using assms(2) update_record_simps(1) [OF replay(5)]
    by (auto simp: intent_kept_def set_entity_revision_def)
next
  case (manual r row db1)
  then show ?thesis using assms(2) update_record_simps(1) [OF manual(5)]
    by (auto simp: intent_kept_def mark_manual_conflict_def set_meta_def)
qed

lemmas intent_kept_rules = favorite_content_kept unfavorite_kept record_successful_query_kept
  acknowledge_events_kept apply_remote_page_kept other_jobs_kept replace_device_identity_kept

section \<open>The marks of a refused intent\<close>

definition intent_replayed :: "string \<Rightarrow> profile_db \<Rightarrow> bool" where
  "intent_replayed ck db \<longleftrightarrow>
     (\<forall>r \<in> set (sync_outbox db). ob_coalesce_key r = Some ck \<longrightarrow> ob_conflict_replay_count r \<noteq> 0)"

definition intent_stopped :: "string \<Rightarrow> profile_db \<times> outbox_event list \<Rightarrow> bool" where
  "intent_stopped ck s \<longleftrightarrow> intent_replayed ck (fst s)
     \<and> (\<forall>r \<in> set (sync_outbox (fst s)). ob_coalesce_key r = Some ck \<longrightarrow>
          ob_last_error r = Some conflict_error \<and> ob_event_id r \<notin> oe_event_id ` set (snd s))
     \<and> (\<forall>e \<in> set (snd s). oe_coalesce_key e \<noteq> ck)"

lemma intent_replayed_kept: "intent_kept ck db db' \<Longrightarrow> intent_replayed ck db \<Longrightarrow> intent_replayed ck db'"
  unfolding intent_kept_def intent_replayed_def by metis

lemma intent_stopped_kept:
  assumes "intent_kept ck db db'" "intent_stopped ck (db, es)" "set es' \<subseteq> set es"
  shows "intent_stopped ck (db', es')"
proof -
  have "intent_replayed ck db'" using assms(1,2) by (auto simp: intent_stopped_def intro: intent_replayed_kept)
  moreover have "ob_last_error r' = Some conflict_error \<and> ob_event_id r' \<notin> oe_event_id ` set es'"
    if r': "r' \<in> set (sync_outbox db')" "ob_coalesce_key r' = Some ck" for r'
  proof -
    obtain r where "r \<in> set (sync_outbox db)" "ob_coalesce_key r = Some ck" "ob_event_id r' = ob_event_id r"
      "ob_last_error r' = ob_last_error r"
      using r' assms(1) unfolding intent_kept_def by metis
    then show ?thesis using assms(2,3) by (auto simp: intent_stopped_def)
  qed
  ultimately show ?thesis using assms(2,3) by (auto simp: intent_stopped_def)
qed

text \<open>A retry writes only the error, the time and the attempts of the rows of the batch.\<close>

lemma retry_rows:
  assumes "r' \<in> set (sync_outbox (mark_retry db es at err now))"
  shows "\<exists>r \<in> set (sync_outbox db). ob_coalesce_key r' = ob_coalesce_key r \<and> ob_event_id r' = ob_event_id r
    \<and> ob_conflict_replay_count r' = ob_conflict_replay_count r
    \<and> (ob_event_id r \<notin> oe_event_id ` set es \<longrightarrow> ob_last_error r' = ob_last_error r)"
proof -
  let ?f = "\<lambda>event. map (\<lambda>r. if ob_event_id r = oe_event_id event
          then r\<lparr>ob_attempt_count := ob_attempt_count r + 1, ob_next_retry_at := Some at,
                 ob_last_error := Some (bounded_error err), ob_updated_at := now\<rparr> else r)"
  have "r' \<in> set (fold ?f es rows) \<Longrightarrow> \<exists>r \<in> set rows. ob_coalesce_key r' = ob_coalesce_key r \<and> ob_event_id r' = ob_event_id r
    \<and> ob_conflict_replay_count r' = ob_conflict_replay_count r
    \<and> (ob_event_id r \<notin> oe_event_id ` set es \<longrightarrow> ob_last_error r' = ob_last_error r)" for rows
  proof (induction es arbitrary: rows)
    case (Cons e es)
    from Cons.prems have "r' \<in> set (fold ?f es (?f e rows))" by simp
    from Cons.IH [OF this] show ?case by (fastforce split: if_splits)
  qed auto
  then show ?thesis using assms by (simp add: mark_retry_def set_meta_def)
qed

lemma ready_event_row:
  assumes "ready_outbox_events up db t n = Inr es" and "e \<in> set es"
  obtains row where "row \<in> set (sync_outbox db)" "ob_last_error row \<noteq> Some conflict_error"
    "ob_coalesce_key row = Some (oe_coalesce_key e)" "up (ob_event_id row) = Some (oe_event_id e)"
proof -
  let ?rows = "filter (\<lambda>r. (case ob_next_retry_at r of None \<Rightarrow> True | Some at \<Rightarrow> at \<le> t)
      \<and> ob_last_error r \<noteq> Some conflict_error) (sync_outbox db)"
  from assms obtain row where row: "row \<in> set ?rows" "parse_outbox up row = Inr e"
    using set_sql_order_limit [of "\<lambda>r. (ob_created_at r, ob_event_id r)" n ?rows]
    unfolding ready_outbox_events_def by (auto split: if_splits dest!: mapM_result_source)
  then show thesis by (intro that [of row]) (auto simp: parse_outbox_def parse_uuid_def rbind_Inr ok_or_Inr)
qed

lemma intent_stopped_not_ready:
  assumes "intent_stopped ck (db, es)" "ready_outbox_events up db t n = Inr batch" "e \<in> set batch"
  shows "oe_coalesce_key e \<noteq> ck"
  using ready_event_row [OF assms(2,3)] assms(1) by (auto simp: intent_stopped_def)

lemma intent_stopped_take:
  assumes "profile_inv db" "intent_stopped ck (db, [])" "ready_outbox_events up db t n = Inr es"
    and "\<And>r. r \<in> set (sync_outbox db) \<Longrightarrow> up (ob_event_id r) = Some (ob_event_id r)"
  shows "intent_stopped ck (db, es)"
proof -
  have "inj_on ob_event_id (set (sync_outbox db))"
    using profile_inv_outbox [OF assms(1)] by (auto simp: outbox_inv_def distinct_map)
  moreover have "ob_last_error r = Some conflict_error" if "r \<in> set (sync_outbox db)" "ob_coalesce_key r = Some ck" for r
    using assms(2) that by (simp add: intent_stopped_def)
  ultimately have "ob_event_id r \<noteq> oe_event_id e"
    if "r \<in> set (sync_outbox db)" "ob_coalesce_key r = Some ck" "e \<in> set es" for r e
    using ready_event_row [OF assms(3) that(3)] that assms(4) by (metis inj_onD option.inject)
  then show ?thesis using assms(2) intent_stopped_not_ready [OF assms(2,3)]
    by (fastforce simp: intent_stopped_def)
qed

lemma intent_replayed_resolve:
  assumes "resolve_conflict db ev current now = Inr (res, db')" and "intent_replayed (favorite_coalesce_key key) db"
  shows "intent_replayed (favorite_coalesce_key key) db'"
proof (cases "oe_content_key ev = key")
  case False
  from resolve_other_kept [OF assms(1) False] assms(2) show ?thesis by (rule intent_replayed_kept)
next
  case True
  from assms(1) show ?thesis
  proof (cases rule: resolve_conflict_cases)
    case (replay r row db1 n)
    then show ?thesis using True update_record_simps(1) [OF replay(5)]
      by (auto simp: intent_replayed_def set_entity_revision_def)
  qed (use True assms(2) in \<open>auto simp: intent_replayed_def mark_manual_conflict_def set_meta_def outbox_delete_def
      dest!: update_record_simps(1)\<close>)
qed

lemma replayed_not_again:
  assumes "resolve_conflict db ev current now = Inr (res, db')" "intent_replayed (favorite_coalesce_key (oe_content_key ev)) db"
  shows "res \<noteq> ReplayPrepared"
  using assms(1)
proof (cases rule: resolve_conflict_cases)
  case (replay r row db1 n)
  then have "row \<in> set (sync_outbox db)" "ob_coalesce_key row = Some (favorite_coalesce_key (oe_content_key ev))"
    by (auto simp: outbox_find_def find_Some_iff)
  then show ?thesis using replay(4) assms(2) by (auto simp: intent_replayed_def)
qed simp_all

lemma manual_stops:
  assumes "resolve_conflict db ev current now = Inr (ManualRetryRequired, db')"
    and "intent_replayed (favorite_coalesce_key (oe_content_key ev)) db"
  shows "intent_stopped (favorite_coalesce_key (oe_content_key ev)) (db', [])"
  using assms(1)
proof (cases rule: resolve_conflict_cases)
  case gone
  then show ?thesis using assms(2) by (auto simp: intent_stopped_def intent_replayed_def mark_manual_conflict_def set_meta_def)
next
  case (manual r row db1)
  then show ?thesis using assms(2) update_record_simps(1) [OF manual(5)]
    by (auto simp: intent_stopped_def intent_replayed_def mark_manual_conflict_def set_meta_def)
qed simp_all

lemma intent_stopped_resolve:
  assumes "resolve_conflict db ev current now = Inr (res, db')" and "intent_stopped (favorite_coalesce_key key) (db, es)"
  shows "intent_stopped (favorite_coalesce_key key) (db', [])"
proof (cases "oe_content_key ev = key")
  case False
  from resolve_other_kept [OF assms(1) False] assms(2) show ?thesis by (rule intent_stopped_kept) simp
next
  case True
  have replayed: "intent_replayed (favorite_coalesce_key (oe_content_key ev)) db" using assms(2) True by (simp add: intent_stopped_def)
  from assms(1) show ?thesis
  proof (cases rule: resolve_conflict_cases)
    case (converged r db1 local)
    then show ?thesis using True by (auto simp: intent_stopped_def intent_replayed_def outbox_delete_def)
  next
    case (replay r row db1 n)
    then show ?thesis using replayed_not_again [OF assms(1) replayed] by simp
  qed (use manual_stops replayed True assms(1) in auto)
qed

lemma intent_step_kinds:
  assumes "intent_step u sha up key s s'"
  obtains (kept) "intent_kept (favorite_coalesce_key key) (fst s) (fst s')" "set (snd s') \<subseteq> set (snd s)"
  | (take) db t n es where "s = (db, [])" "s' = (db, es)" "ready_outbox_events up db t n = Inr es"
      "\<And>r. r \<in> set (sync_outbox db) \<Longrightarrow> up (ob_event_id r) = Some (ob_event_id r)"
  | (conflict) db ev current now res db' es where "s = (db, es)" "s' = (db', [])"
      "resolve_conflict db ev current now = Inr (res, db')"
  | (retry) db es at err now where "s = (db, es)" "s' = (mark_retry db es at err now, [])"
  using assms
proof (cases rule: intent_step.cases)
  case (i_take db t n es)
  then show ?thesis by (rule take)
next
  case (i_conflict db ev current now res db' es)
  then show ?thesis by (intro conflict)
next
  case (i_retry db es at err now)
  then show ?thesis by (rule retry)
qed (rule kept, (simp, blast intro: intent_kept_rules intent_kept_same), simp)+

lemma intent_replayed_step:
  assumes "intent_step u sha up key s s'" "intent_replayed (favorite_coalesce_key key) (fst s)"
  shows "intent_replayed (favorite_coalesce_key key) (fst s')"
  using assms(1)
proof (cases rule: intent_step_kinds)
  case kept
  from kept(1) assms(2) show ?thesis by (rule intent_replayed_kept)
next
  case (retry db es at err now)
  then show ?thesis using assms(2) retry_rows [of _ db es at err now] by (fastforce simp: intent_replayed_def)
next
  case (conflict db ev current now res db' es)
  then show ?thesis using assms(2) intent_replayed_resolve by simp
qed (use assms(2) in simp)

lemma intent_stopped_step:
  assumes "intent_step u sha up key s s'" "profile_inv (fst s)" "intent_stopped (favorite_coalesce_key key) s"
  shows "intent_stopped (favorite_coalesce_key key) s'"
  using assms(1)
proof (cases rule: intent_step_kinds)
  case kept
  then show ?thesis using assms(3) intent_stopped_kept [of _ "fst s" "fst s'" "snd s" "snd s'"] by simp
next
  case (take db t n es)
  then show ?thesis using assms(2,3) intent_stopped_take by simp
next
  case (retry db es at err now)
  then show ?thesis using assms(3) retry_rows [of _ db es at err now]
    by (fastforce simp: intent_stopped_def intent_replayed_def)
next
  case (conflict db ev current now res db' es)
  then show ?thesis using assms(3) intent_stopped_resolve by simp
qed

lemma intent_replayed_steps:
  "(intent_step u sha up key)\<^sup>*\<^sup>* s s' \<Longrightarrow> intent_replayed (favorite_coalesce_key key) (fst s) \<Longrightarrow>
     intent_replayed (favorite_coalesce_key key) (fst s')"
  by (induction rule: rtranclp_induct) (auto intro: intent_replayed_step)

lemma intent_steps_inv: "(intent_step u sha up key)\<^sup>*\<^sup>* s s' \<Longrightarrow> profile_inv (fst s) \<Longrightarrow> profile_inv (fst s')"
  by (induction rule: rtranclp_induct) (auto intro: intent_step_inv)

lemma intent_stopped_steps:
  "(intent_step u sha up key)\<^sup>*\<^sup>* s s' \<Longrightarrow> profile_inv (fst s) \<Longrightarrow> intent_stopped (favorite_coalesce_key key) s \<Longrightarrow>
     intent_stopped (favorite_coalesce_key key) s'"
  by (induction rule: rtranclp_induct) (auto intro: intent_stopped_step intent_steps_inv)

lemma replay_prepared:
  assumes "resolve_conflict db event current now = Inr (ReplayPrepared, db1)"
  shows "\<exists>r old row. current = Some r
        \<and> outbox_find db (favorite_coalesce_key (oe_content_key event)) = Some old
        \<and> outbox_find db1 (favorite_coalesce_key (oe_content_key event)) = Some row
        \<and> ob_base_entity_revision row = Some (int (fr_entity_revision r))
        \<and> ob_event_id row = ob_event_id old \<and> ob_operation row = ob_operation old"
    and "intent_replayed (favorite_coalesce_key (oe_content_key event)) db1"
proof -
  let ?ck = "favorite_coalesce_key (oe_content_key event)"
  from assms obtain r old dbx n where 1: "current = Some r" "outbox_find db ?ck = Some old"
    "update_aggregate_from_record db r now = Inr dbx" "n = int (fr_entity_revision r)"
    and db1: "db1 = (set_entity_revision (to_hex (oe_content_key event)) n dbx)\<lparr>sync_outbox := map (\<lambda>r.
          if ob_coalesce_key r = Some ?ck
          then r\<lparr>ob_base_entity_revision := Some n, ob_conflict_replay_count := 1,
                 ob_attempt_count := 0, ob_next_retry_at := None, ob_last_error := None,
                 ob_updated_at := now\<rparr>
          else r) (sync_outbox dbx)\<rparr>"
    by (cases rule: resolve_conflict_cases) auto
  have ck: "ob_coalesce_key old = Some ?ck"
    using 1(2) unfolding outbox_find_def by (auto simp: find_Some_iff)
  have rows: "sync_outbox dbx = sync_outbox db" using 1(3) by (rule update_record_simps)
  then have "outbox_find db1 ?ck = Some (old\<lparr>ob_base_entity_revision := Some n, ob_conflict_replay_count := 1,
                 ob_attempt_count := 0, ob_next_retry_at := None, ob_last_error := None, ob_updated_at := now\<rparr>)"
    using 1(2) ck unfolding outbox_find_def db1 by (simp add: find_map_same)
  with 1 show "\<exists>r old row. current = Some r \<and> outbox_find db ?ck = Some old \<and> outbox_find db1 ?ck = Some row
        \<and> ob_base_entity_revision row = Some (int (fr_entity_revision r))
        \<and> ob_event_id row = ob_event_id old \<and> ob_operation row = ob_operation old" by auto
  show "intent_replayed ?ck db1" by (auto simp: db1 intent_replayed_def)
qed

section \<open>Properties\<close>

text \<open>
  C13: a conflicting intent is replayed on the Server's current record at most once. A conflict that
  prepares a replay keeps the event and its operation and moves the base to the record's revision.
  Whatever the Profile does afterwards short of an import or a change the user makes to that favorite - batches,
  acknowledgements, retries, pulled pages, further conflicts, queries, changes of other favorites,
  restarts, identity changes - no later conflict prepares a second replay: it is found to have converged
  or handed to the user. Once handed to the user, the intent is in no batch, taken or in flight, however
  long the Profile goes on that way.
\<close>

theorem conflict_replayed_once:
  assumes "profile_inv db" and "resolve_conflict db event current now = Inr (ReplayPrepared, db1)"
    and "\<And>r. current = Some r \<Longrightarrow> remote_ok r \<and> fr_content_key r = to_hex (oe_content_key event)"
    and "(intent_step u sha up (oe_content_key event))\<^sup>*\<^sup>* (db1, []) (db2, es2)"
    and "resolve_conflict db2 event' current' now' = Inr (res, db3)"
    and "oe_content_key event' = oe_content_key event"
    and "\<And>r. current' = Some r \<Longrightarrow> remote_ok r \<and> fr_content_key r = to_hex (oe_content_key event')"
    and "(intent_step u sha up (oe_content_key event))\<^sup>*\<^sup>* (db3, []) (db4, es4)"
  shows "(\<exists>r old row. current = Some r
        \<and> outbox_find db (favorite_coalesce_key (oe_content_key event)) = Some old
        \<and> outbox_find db1 (favorite_coalesce_key (oe_content_key event)) = Some row
        \<and> ob_base_entity_revision row = Some (int (fr_entity_revision r))
        \<and> ob_event_id row = ob_event_id old \<and> ob_operation row = ob_operation old)
     \<and> res \<noteq> ReplayPrepared
     \<and> (res = ManualRetryRequired \<longrightarrow>
          (\<forall>e \<in> set es4. oe_coalesce_key e \<noteq> favorite_coalesce_key (oe_content_key event))
          \<and> (\<forall>t n es e. ready_outbox_events up db4 t n = Inr es \<and> e \<in> set es
               \<longrightarrow> oe_coalesce_key e \<noteq> favorite_coalesce_key (oe_content_key event)))"
proof -
  let ?ck = "favorite_coalesce_key (oe_content_key event)"
  have replayed: "intent_replayed ?ck db2"
    using intent_replayed_steps [OF assms(4)] replay_prepared(2) [OF assms(2)] by simp
  have inv1: "profile_inv db1" by (rule resolve_conflict_inv [OF assms(1,2)]) (use assms(3) in auto)
  have inv2: "profile_inv db2" using intent_steps_inv [OF assms(4)] inv1 by simp
  have inv3: "profile_inv db3" by (rule resolve_conflict_inv [OF inv2 assms(5)]) (use assms(7) in auto)
  have "intent_stopped ?ck (db4, es4)" if "res = ManualRetryRequired"
  proof (rule intent_stopped_steps [OF assms(8)])
    show "intent_stopped ?ck (db3, [])" using manual_stops [of db2 event' current' now' db3] assms(5,6) replayed that by simp
  qed (simp add: inv3)
  then have "res = ManualRetryRequired \<longrightarrow> (\<forall>e \<in> set es4. oe_coalesce_key e \<noteq> ?ck)
      \<and> (\<forall>t n es e. ready_outbox_events up db4 t n = Inr es \<and> e \<in> set es \<longrightarrow> oe_coalesce_key e \<noteq> ?ck)"
    using intent_stopped_not_ready by (fastforce simp: intent_stopped_def)
  moreover have "res \<noteq> ReplayPrepared" using replayed_not_again [OF assms(5)] replayed assms(6) by simp
  ultimately show ?thesis using replay_prepared(1) [OF assms(2)] by simp
qed

text \<open>The example intent is taken and pushed again, conflicts again and is handed to the user; then a push of
  nothing fails and the history is cleared.\<close>

definition example_stopped :: profile_db where
  "example_stopped = clear_history (mark_retry (mark_manual_conflict example_replayed example_content_key 30) [] 50 [] 40)"

lemma example_stopped_batch: "ready_outbox_events Some example_stopped 60 10 = Inr []"
  by (simp add: ready_outbox_events_def mark_manual_conflict_def set_meta_def example_replayed_def
      example_queried_def example_fresh_def migrated_profile_db_def example_intent_def example_stopped_def
      clear_history_def mark_retry_def conflict_error_def Let_def sql_order_limit_def)

lemma example_replay_taken: "\<exists>es. ready_outbox_events Some example_replayed 25 10 = Inr es"
  by (simp add: ready_outbox_events_def example_replayed_def example_queried_def example_fresh_def
      migrated_profile_db_def example_intent_def sql_order_limit_def parse_outbox_def parse_uuid_def ok_or_def
      parse_outbox_operation_def opt_transpose_def sqlite_u64_def u64_of_i64_def u32_of_i64_code parse_content_key_def
      content_key_hex_codec)

lemma example_remote_ok: "remote_ok example_remote \<and> fr_content_key example_remote = to_hex (oe_content_key example_sent)"
  by (simp add: remote_ok_def example_remote_def example_sent_def u32_max_def lang_text_def)

theorem conflict_replayed_once_witness:
  "\<exists>es. ready_outbox_events Some example_stopped 60 10 = Inr es
     \<and> \<not> (\<exists>e. e \<in> set es \<and> oe_coalesce_key e = favorite_coalesce_key example_content_key)"
proof -
  let ?step = "intent_step ascii_unicode_db example_profile_sha Some (oe_content_key example_sent)"
  obtain es where "ready_outbox_events Some example_replayed 25 10 = Inr es" using example_replay_taken by blast
  then have "?step (example_replayed, []) (example_replayed, es)" by (rule i_take) simp
  moreover have "?step (example_replayed, es) (example_replayed, [])" by (rule i_failed)
  ultimately have a: "?step\<^sup>*\<^sup>* (example_replayed, []) (example_replayed, [])" by simp
  let ?manual = "mark_manual_conflict example_replayed example_content_key 30"
  have "?step (?manual, []) (mark_retry ?manual [] 50 [] 40, [])" by (rule i_retry)
  moreover have "?step (mark_retry ?manual [] 50 [] 40, []) (example_stopped, [])"
    unfolding example_stopped_def by (rule i_clear)
  ultimately have b: "?step\<^sup>*\<^sup>* (?manual, []) (example_stopped, [])" by simp
  show ?thesis
    using conflict_replayed_once [OF example_favorited_inv example_conflict _ a example_conflict_again refl _ b]
      example_remote_ok example_stopped_batch by (auto simp: example_sent_def)
qed

end
