(* ===== verification/Ipc_Protocol.thy ===== *)
theory Ipc_Protocol
  imports Sync_Protocol
begin

text \<open>
  \<open>crates/ipc/src/lib.rs\<close>: the messages the Agent and the GUI process exchange over a local stream,
  the envelope they travel in and the length-prefixed frames that carry the envelopes. JSON is a
  parameter. The theory shows that frames written one after the other are read back in order, that a
  cut frame is never taken for a message, and that neither side handles a frame over the limit.
\<close>

section \<open>Messages\<close>

type_synonym u8 = nat
type_synonym u16 = nat

definition protocol_version :: u16 where
  "protocol_version = 2"

definition max_frame_bytes :: usize where
  "max_frame_bytes = 1048576"

record 't envelope =
  en_protocol_version :: u16
  en_session_id :: uuid
  en_sequence :: u64
  en_message_id :: uuid
  en_payload :: 't

datatype process_role = RoleAgent | RoleUi

record hello =
  hl_role :: process_role
  hl_process_id :: u32
  hl_process_generation :: u64
  hl_authentication :: string

record ui_ready =
  rd_process_generation :: u64
  rd_applied_sequence :: u64

datatype lookup_error_kind =
  ProviderConfigurationRequired | ProviderUnauthorized | TranslationUnavailable | UnsupportedInput

datatype lookup_ui_state =
  UiLoading u64 utext
| UiLookupReady u64 string utext utext bool u64
| UiLookupError u64 utext lookup_error_kind

fun lookup_query_id :: "lookup_ui_state \<Rightarrow> u64" where
  "lookup_query_id (UiLoading query_id _) = query_id"
| "lookup_query_id (UiLookupReady query_id _ _ _ _ _) = query_id"
| "lookup_query_id (UiLookupError query_id _ _) = query_id"

record ui_record_snapshot =
  ur_key :: string
  ur_source :: utext
  ur_translation :: utext
  ur_count :: u64
  ur_favorite :: bool
  ur_metadata :: string

record device_snapshot =
  dn_id :: string
  dn_name :: string
  dn_platform :: string
  dn_last_seen :: string
  dn_current :: bool
  dn_revoked :: bool

record ui_preference_snapshot =
  up_popup_idle_timeout_secs :: u32
  up_launch_minimized :: bool
  up_global_hotkey :: string
  up_start_at_login :: bool

record main_ui_snapshot =
  mu_revision :: u64
  mu_history :: "ui_record_snapshot list"
  mu_favorites :: "ui_record_snapshot list"
  mu_devices :: "device_snapshot list"
  mu_tokenhub_model :: string
  mu_tokenhub_configured :: bool
  mu_proxy_kind :: u8
  mu_proxy_address :: string
  mu_provider_proxy_enabled :: bool
  mu_update_proxy_enabled :: bool
  mu_server_url :: string
  mu_username :: string
  mu_current_device :: string
  mu_sync_status :: string
  mu_update_status :: string
  mu_preferences :: ui_preference_snapshot

datatype feedback_level = FeedbackInfo | FeedbackSuccess | FeedbackError

record ui_feedback =
  fb_message :: string
  fb_level :: feedback_level

record main_ui_patch =
  mp_base_revision :: u64
  mp_revision :: u64
  mp_history :: "ui_record_snapshot list option"
  mp_favorites :: "ui_record_snapshot list option"
  mp_devices :: "device_snapshot list option"
  mp_tokenhub_model :: "string option"
  mp_tokenhub_configured :: "bool option"
  mp_proxy_kind :: "u8 option"
  mp_proxy_address :: "string option"
  mp_provider_proxy_enabled :: "bool option"
  mp_update_proxy_enabled :: "bool option"
  mp_server_url :: "string option"
  mp_username :: "string option"
  mp_current_device :: "string option"
  mp_sync_status :: "string option"
  mp_update_status :: "string option"
  mp_preferences :: "ui_preference_snapshot option"
  mp_feedback :: "ui_feedback option"

definition default_patch :: main_ui_patch where
  "default_patch = \<lparr>mp_base_revision = 0, mp_revision = 0, mp_history = None, mp_favorites = None,
     mp_devices = None, mp_tokenhub_model = None, mp_tokenhub_configured = None, mp_proxy_kind = None,
     mp_proxy_address = None, mp_provider_proxy_enabled = None, mp_update_proxy_enabled = None,
     mp_server_url = None, mp_username = None, mp_current_device = None, mp_sync_status = None,
     mp_update_status = None, mp_preferences = None, mp_feedback = None\<rparr>"

record ui_snapshot =
  sn_revision :: u64
  sn_main :: main_ui_snapshot

datatype ui_operation_name =
  NHistorySearch | NFavoritesSearch | NSetFavorite | NClearHistory | NSaveProviderSettings
| NSaveNetworkSettings | NTestProvider | NLogin | NLogout | NManualSync | NTestConnection
| NRevokeDevice | NRegenerateDeviceIdentity | NExportData | NPreviewImport | NApplyImport
| NCheckUpdate | NUpdateGlobalHotkey | NUpdateStartAtLogin | NUpdateLaunchMinimized
| NUpdatePopupIdleTimeout | NPopupFavoriteToggle | NPopupRefresh | NRequestSnapshot
| NOpenAccessibilitySettings | NRequestAccessibilityPermission | NRestartAgent

datatype ui_operation =
  HistorySearch utext
| FavoritesSearch utext
| SetFavorite string bool
| ClearHistory
| SaveProviderSettings string string bool
| SaveNetworkSettings string u8 bool bool
| TestProvider string string
| Login string string string
| Logout
| ManualSync
| TestConnection string
| RevokeDevice string
| RegenerateDeviceIdentity
| ExportData string
| PreviewImport string
| ApplyImport uuid
| CheckUpdate
| UpdateGlobalHotkey string
| UpdateStartAtLogin bool
| UpdateLaunchMinimized bool
| UpdatePopupIdleTimeout u32
| PopupFavoriteToggle bool
| PopupRefresh uuid
| RequestSnapshot
| OpenAccessibilitySettings
| RequestAccessibilityPermission
| RestartAgent

fun ui_operation_name_of :: "ui_operation \<Rightarrow> ui_operation_name" where
  "ui_operation_name_of (HistorySearch _) = NHistorySearch"
| "ui_operation_name_of (FavoritesSearch _) = NFavoritesSearch"
| "ui_operation_name_of (SetFavorite _ _) = NSetFavorite"
| "ui_operation_name_of ClearHistory = NClearHistory"
| "ui_operation_name_of (SaveProviderSettings _ _ _) = NSaveProviderSettings"
| "ui_operation_name_of (SaveNetworkSettings _ _ _ _) = NSaveNetworkSettings"
| "ui_operation_name_of (TestProvider _ _) = NTestProvider"
| "ui_operation_name_of (Login _ _ _) = NLogin"
| "ui_operation_name_of Logout = NLogout"
| "ui_operation_name_of ManualSync = NManualSync"
| "ui_operation_name_of (TestConnection _) = NTestConnection"
| "ui_operation_name_of (RevokeDevice _) = NRevokeDevice"
| "ui_operation_name_of RegenerateDeviceIdentity = NRegenerateDeviceIdentity"
| "ui_operation_name_of (ExportData _) = NExportData"
| "ui_operation_name_of (PreviewImport _) = NPreviewImport"
| "ui_operation_name_of (ApplyImport _) = NApplyImport"
| "ui_operation_name_of CheckUpdate = NCheckUpdate"
| "ui_operation_name_of (UpdateGlobalHotkey _) = NUpdateGlobalHotkey"
| "ui_operation_name_of (UpdateStartAtLogin _) = NUpdateStartAtLogin"
| "ui_operation_name_of (UpdateLaunchMinimized _) = NUpdateLaunchMinimized"
| "ui_operation_name_of (UpdatePopupIdleTimeout _) = NUpdatePopupIdleTimeout"
| "ui_operation_name_of (PopupFavoriteToggle _) = NPopupFavoriteToggle"
| "ui_operation_name_of (PopupRefresh _) = NPopupRefresh"
| "ui_operation_name_of RequestSnapshot = NRequestSnapshot"
| "ui_operation_name_of OpenAccessibilitySettings = NOpenAccessibilitySettings"
| "ui_operation_name_of RequestAccessibilityPermission = NRequestAccessibilityPermission"
| "ui_operation_name_of RestartAgent = NRestartAgent"

text \<open>\<open>ImportPreview\<close> carries the token and the counts of the preview in the order of the source.\<close>

datatype operation_output = OutputNone | OutputImportPreview uuid u64 u64 u64 u64 u64

record operation_result =
  or_response_to :: uuid
  or_operation :: ui_operation_name
  or_success :: bool
  or_feedback :: ui_feedback
  or_output :: operation_output

datatype agent_to_ui =
  HandshakeAccepted u64
| Snapshot ui_snapshot
| Patch main_ui_patch
| BeginLookup uuid lookup_ui_state
| UpdateLookup uuid lookup_ui_state
| HideLookup uuid
| OpenMainWindow
| HideMainWindow
| ShowPermission string
| SetDiagnosticAppearance bool bool
| OperationResult operation_result
| IdleExitApproved uuid u64
| Shutdown

datatype ui_to_agent =
  Hello hello
| Ready ui_ready
| Request uuid ui_operation
| LookupDismissed uuid
| LookupPresentationApplied uuid u64
| UiBlockingChanged bool
| RequestIdleExit uuid u64
| CancelIdleExit uuid u64
| Exiting u64

section \<open>Envelopes and frames\<close>

datatype protocol_error =
  VersionMismatch u16 u16
| SessionMismatch
| SequenceRegression u64 u64
| FrameTooLarge usize
| UnexpectedMessage
| AuthenticationFailed
| SerializationFailed

datatype frame_error = FrameIo | FrameProtocol protocol_error

definition new_envelope :: "uuid \<Rightarrow> u64 \<Rightarrow> uuid \<Rightarrow> 't \<Rightarrow> 't envelope" where
  "new_envelope session_id sequence message_id payload =
     \<lparr>en_protocol_version = protocol_version, en_session_id = session_id, en_sequence = sequence,
      en_message_id = message_id, en_payload = payload\<rparr>"

definition envelope_validate :: "uuid \<Rightarrow> 't envelope \<Rightarrow> protocol_error + unit" where
  "envelope_validate expected_session e =
     (if en_protocol_version e \<noteq> protocol_version
      then Inl (VersionMismatch protocol_version (en_protocol_version e))
      else if en_session_id e \<noteq> expected_session then Inl SessionMismatch
      else Inr ())"

text \<open>\<open>u32::to_be_bytes\<close> and \<open>u32::from_be_bytes\<close>.\<close>

definition to_be_bytes :: "u32 \<Rightarrow> byte list" where
  "to_be_bytes n = [of_nat (n div 16777216), of_nat (n div 65536), of_nat (n div 256), of_nat n]"

fun from_be_bytes :: "byte list \<Rightarrow> u32" where
  "from_be_bytes bs = fold (\<lambda>b n. n * 256 + unat b) bs 0"

text \<open>\<open>serde_json\<close> for one message type: whether a message can be written, and how; \<open>read_exact\<close> of a
  stream that ends.\<close>

record 't frame_json =
  fj_encodes :: "'t \<Rightarrow> bool"
  fj_write :: "'t \<Rightarrow> byte list"
  fj_read :: "byte list \<Rightarrow> 't option"

definition read_exact :: "usize \<Rightarrow> byte list \<Rightarrow> frame_error + byte list \<times> byte list" where
  "read_exact n stream =
     (if n \<le> length stream then Inr (take n stream, drop n stream) else Inl FrameIo)"

definition write_frame :: "'t frame_json \<Rightarrow> 't \<Rightarrow> byte list \<Rightarrow> frame_error + byte list" where
  "write_frame js value stream =
     (if \<not> fj_encodes js value then Inl (FrameProtocol SerializationFailed)
      else let bytes = fj_write js value in
      if length bytes > max_frame_bytes then Inl (FrameProtocol (FrameTooLarge (length bytes)))
      else Inr (stream @ to_be_bytes (length bytes) @ bytes))"

definition read_frame :: "'t frame_json \<Rightarrow> byte list \<Rightarrow> frame_error + 't \<times> byte list" where
  "read_frame js stream =
     rbind (read_exact 4 stream) (\<lambda>(header, stream).
       let len = from_be_bytes header in
       if len > max_frame_bytes then Inl (FrameProtocol (FrameTooLarge len))
       else rbind (read_exact len stream) (\<lambda>(bytes, stream).
         case fj_read js bytes of
           None \<Rightarrow> Inl (FrameProtocol SerializationFailed)
         | Some value \<Rightarrow> Inr (value, stream)))"

section \<open>Frames in sequence\<close>

fun read_frames :: "'t frame_json \<Rightarrow> nat \<Rightarrow> byte list \<Rightarrow> frame_error + 't list \<times> byte list" where
  "read_frames js 0 stream = Inr ([], stream)"
| "read_frames js (Suc n) stream =
     rbind (read_frame js stream) (\<lambda>(value, stream).
     rbind (read_frames js n stream) (\<lambda>(values, stream). Inr (value # values, stream)))"

lemma unat_byte: "unat (of_nat n :: byte) = n mod 256"
  by (simp add: unat_of_nat)

lemma length_to_be_bytes [simp]: "length (to_be_bytes n) = 4"
  by (simp add: to_be_bytes_def)

lemma from_to_be_bytes:
  assumes "n < 4294967296"
  shows "from_be_bytes (to_be_bytes n) = n"
proof -
  define a b c where "a = n div 256" and "b = a div 256" and "c = b div 256"
  have n: "n = a * 256 + n mod 256" and a: "a = b * 256 + a mod 256" and b: "b = c * 256 + b mod 256"
    unfolding a_def b_def c_def by (simp_all only: div_mult_mod_eq)
  have "c < 256" using assms n a b by linarith
  moreover have "n div 65536 = b" "n div 16777216 = c"
    by (simp_all add: a_def b_def c_def div_mult2_eq [symmetric])
  ultimately show ?thesis using n a b
    by (simp add: to_be_bytes_def unat_byte a_def [symmetric])
qed

lemma read_written_frame:
  assumes "length (fj_write js v) \<le> max_frame_bytes" "fj_read js (fj_write js v) = Some v"
  shows "read_frame js (to_be_bytes (length (fj_write js v)) @ fj_write js v @ rest) = Inr (v, rest)"
  using assms from_to_be_bytes [of "length (fj_write js v)"]
  by (simp add: read_frame_def read_exact_def max_frame_bytes_def Let_def del: from_be_bytes.simps)

lemma read_cut_frame:
  assumes "length (fj_write js v) \<le> max_frame_bytes"
    and cut: "n < 4 + length (fj_write js v)"
  shows "read_frame js (take n (to_be_bytes (length (fj_write js v)) @ fj_write js v)) = Inl FrameIo"
proof (cases "n < 4")
  case True
  then show ?thesis by (simp add: read_frame_def read_exact_def)
next
  case False
  then have "take 4 (take n (to_be_bytes (length (fj_write js v)) @ fj_write js v)) = to_be_bytes (length (fj_write js v))"
    by (simp add: min_def)
  moreover have "\<not> length (fj_write js v) \<le> n - 4" using False cut by linarith
  ultimately show ?thesis using False assms(1) from_to_be_bytes [of "length (fj_write js v)"]
    by (simp add: read_frame_def read_exact_def max_frame_bytes_def Let_def del: from_be_bytes.simps)
qed

lemma write_frames_roundtrip:
  assumes "\<And>v. v \<in> set vs \<Longrightarrow> length (fj_write js v) \<le> max_frame_bytes"
    and "\<And>v. v \<in> set vs \<Longrightarrow> fj_encodes js v \<and> fj_read js (fj_write js v) = Some v"
  shows "\<exists>out. (\<forall>stream. foldM (write_frame js) vs stream = Inr (stream @ out))
     \<and> (\<forall>rest. read_frames js (length vs) (out @ rest) = Inr (vs, rest))"
  using assms
proof (induction vs)
  case (Cons v vs)
  then obtain out where out: "\<forall>stream. foldM (write_frame js) vs stream = Inr (stream @ out)"
    "\<forall>rest. read_frames js (length vs) (out @ rest) = Inr (vs, rest)" by auto
  let ?frame = "to_be_bytes (length (fj_write js v)) @ fj_write js v"
  have "write_frame js v stream = Inr (stream @ ?frame)" for stream
    using Cons.prems [of v] by (simp add: write_frame_def Let_def not_less)
  moreover have "read_frame js (?frame @ out @ rest) = Inr (v, out @ rest)" for rest
    using Cons.prems [of v] read_written_frame [of js v "out @ rest"] by simp
  ultimately show ?case using out by (intro exI [of _ "?frame @ out"]) simp
qed simp

lemma read_frame_bound:
  assumes "read_frame js stream = Inr (v, rest)"
  shows "\<exists>used. stream = used @ rest \<and> length used \<le> 4 + max_frame_bytes"
proof -
  from assms have "length stream \<ge> 4 + from_be_bytes (take 4 stream)" "from_be_bytes (take 4 stream) \<le> max_frame_bytes"
    "rest = drop (from_be_bytes (take 4 stream)) (drop 4 stream)"
    by (auto simp: read_frame_def read_exact_def Let_def rbind_Inr simp del: from_be_bytes.simps split: if_splits option.splits)
  then show ?thesis
    by (intro exI [of _ "take (4 + from_be_bytes (take 4 stream)) stream"])
      (simp add: add.commute del: from_be_bytes.simps)
qed

text \<open>
  C30: the frame codec. Messages that fit the limit are written as frames one after the other and the
  reader gets exactly these messages back, in order, and leaves the rest of the stream; a stream that
  ends inside a frame is an I/O error and never a message; a message over the limit, or one that cannot be
  encoded, is refused before anything is written; and a read never takes more than the limit and the length prefix.
\<close>

theorem ipc_frames_roundtrip:
  assumes json: "\<And>v. v \<in> set vs \<Longrightarrow> fj_encodes js v \<and> fj_read js (fj_write js v) = Some v"
    and fits: "\<And>v. v \<in> set vs \<Longrightarrow> length (fj_write js v) \<le> max_frame_bytes"
  shows "(\<exists>out. foldM (write_frame js) vs [] = Inr out \<and> read_frames js (length vs) (out @ rest) = Inr (vs, rest))
    \<and> (v \<in> set vs \<longrightarrow> n < 4 + length (fj_write js v) \<longrightarrow>
        read_frame js (take n (to_be_bytes (length (fj_write js v)) @ fj_write js v)) = Inl FrameIo)
    \<and> (length (fj_write js big) > max_frame_bytes \<longrightarrow>
        write_frame js big stream = Inl (FrameProtocol (if fj_encodes js big then FrameTooLarge (length (fj_write js big)) else SerializationFailed)))
    \<and> (\<not> fj_encodes js unwritable \<longrightarrow> write_frame js unwritable stream = Inl (FrameProtocol SerializationFailed))
    \<and> (read_frame js stream = Inr (w, left) \<longrightarrow>
        (\<exists>used. stream = used @ left \<and> length used \<le> 4 + max_frame_bytes))"
proof (intro conjI impI)
  from write_frames_roundtrip [OF fits json]
  obtain out where "\<forall>stream. foldM (write_frame js) vs stream = Inr (stream @ out)"
    "\<forall>rest. read_frames js (length vs) (out @ rest) = Inr (vs, rest)" by blast
  then show "\<exists>out. foldM (write_frame js) vs [] = Inr out \<and> read_frames js (length vs) (out @ rest) = Inr (vs, rest)"
    by auto
next
  assume "v \<in> set vs" "n < 4 + length (fj_write js v)"
  then show "read_frame js (take n (to_be_bytes (length (fj_write js v)) @ fj_write js v)) = Inl FrameIo"
    by (intro read_cut_frame fits)
qed (auto simp: write_frame_def intro: read_frame_bound)

text \<open>A codec for two commands, and the two frames it writes.\<close>

definition example_frame_json :: "agent_to_ui frame_json" where
  "example_frame_json =
     \<lparr>fj_encodes = (\<lambda>_. True), fj_write = (\<lambda>m. if m = OpenMainWindow then [1, 2] else [3]),
      fj_read = (\<lambda>bs. if bs = [1, 2] then Some OpenMainWindow else if bs = [3] then Some Shutdown else None)\<rparr>"

theorem ipc_frames_roundtrip_witness:
  "\<exists>out. foldM (write_frame example_frame_json) [OpenMainWindow, Shutdown] [] = Inr out
     \<and> read_frames example_frame_json (length [OpenMainWindow, Shutdown]) (out @ [7]) = Inr ([OpenMainWindow, Shutdown], [7])"
proof -
  have "fj_encodes example_frame_json v \<and> fj_read example_frame_json (fj_write example_frame_json v) = Some v"
    "length (fj_write example_frame_json v) \<le> max_frame_bytes" if "v \<in> set [OpenMainWindow, Shutdown]" for v
    using that by (auto simp: example_frame_json_def max_frame_bytes_def)
  from ipc_frames_roundtrip [OF this, where rest = "[7]"] show ?thesis by (rule conjunct1)
qed

end
