(* ===== verification/Agent_Process.thy ===== *)
theory Agent_Process
  imports Ipc_Protocol
begin

text \<open>
  \<open>apps/agent/src/ui_process.rs\<close>: the Agent's side of the GUI process. A GUI is started on demand, has
  to present the session secret and its generation, and is stopped when it is idle, lost or when the
  Agent shuts down. Every critical section of the source (a stretch of code that holds the state lock)
  is one function here; an \<open>inductive\<close> relation interleaves them in any order. A message channel of
  \<open>tokio\<close> is a queue together with the fact whether its receiver still exists.
\<close>

section \<open>State\<close>

datatype ui_process_phase =
  PhaseStopped | PhaseStarting u64 | PhaseReady u64 | PhaseStopping u64

fun phase_generation :: "ui_process_phase \<Rightarrow> u64 option" where
  "phase_generation PhaseStopped = None"
| "phase_generation (PhaseStarting g) = Some g"
| "phase_generation (PhaseReady g) = Some g"
| "phase_generation (PhaseStopping g) = Some g"

text \<open>
  \<open>ps_sender\<close> is the number of the outbound channel, \<open>ps_kill_sender\<close> the generation of the child the
  kill channel belongs to.
\<close>

record process_state =
  ps_phase :: ui_process_phase
  ps_process_id :: "u32 option"
  ps_sender :: "nat option"
  ps_kill_sender :: "u64 option"
  ps_idle_exit_request :: "uuid option"

definition default_process_state :: process_state where
  "default_process_state = \<lparr>ps_phase = PhaseStopped, ps_process_id = None, ps_sender = None,
     ps_kill_sender = None, ps_idle_exit_request = None\<rparr>"

text \<open>One accepted connection: the generation it serves, its outbound queue and whether its task still runs.\<close>

record connection =
  cn_generation :: u64
  cn_queue :: "agent_to_ui list"
  cn_open :: bool

record ui_client =
  uc_session_id :: uuid
  uc_authentication :: string
  uc_next_generation :: u64
  uc_state :: process_state
  uc_connections :: "connection list"
  uc_kills :: "u64 list"
  uc_shutting_down :: bool

datatype ui_process_error =
  UpIo | UpFrame frame_error | UpProtocol protocol_error | UpStartupTimeout | UpStaleGeneration
| UpMissingExecutable | UpShuttingDown

definition ui_client_start :: "uuid \<Rightarrow> string \<Rightarrow> ui_client" where
  "ui_client_start session_id authentication =
     \<lparr>uc_session_id = session_id, uc_authentication = authentication, uc_next_generation = 1,
      uc_state = default_process_state, uc_connections = [], uc_kills = [], uc_shutting_down = False\<rparr>"

abbreviation uc_phase :: "ui_client \<Rightarrow> ui_process_phase" where
  "uc_phase c \<equiv> ps_phase (uc_state c)"

abbreviation uc_sender :: "ui_client \<Rightarrow> nat option" where
  "uc_sender c \<equiv> ps_sender (uc_state c)"

abbreviation uc_idle_exit_request :: "ui_client \<Rightarrow> uuid option" where
  "uc_idle_exit_request c \<equiv> ps_idle_exit_request (uc_state c)"

section \<open>Sending\<close>

text \<open>\<open>sender.send(command)\<close> succeeds as long as the task of the connection holds the receiver.\<close>

definition enqueue :: "nat \<Rightarrow> agent_to_ui \<Rightarrow> ui_client \<Rightarrow> ui_client" where
  "enqueue i m c = c\<lparr>uc_connections := (uc_connections c)[i := (uc_connections c ! i)\<lparr>cn_queue := cn_queue (uc_connections c ! i) @ [m]\<rparr>]\<rparr>"

definition channel_send :: "nat \<Rightarrow> agent_to_ui \<Rightarrow> ui_client \<Rightarrow> bool \<times> ui_client" where
  "channel_send i m c =
     (if i < length (uc_connections c) \<and> cn_open (uc_connections c ! i) then (True, enqueue i m c)
      else (False, c))"

datatype send_attempt = Delivered | NotReady | Disconnected

definition send_begin :: "ui_client \<Rightarrow> ui_process_error + unit" where
  "send_begin c = (if uc_shutting_down c then Inl UpShuttingDown else Inr ())"

definition send_attempt :: "agent_to_ui \<Rightarrow> ui_client \<Rightarrow> send_attempt \<times> ui_client" where
  "send_attempt command c =
     (case uc_phase c of
        PhaseReady _ \<Rightarrow>
          (case uc_sender c of
             None \<Rightarrow> (Disconnected, c)
           | Some i \<Rightarrow> (case channel_send i command c of
               (True, c') \<Rightarrow> (Delivered, c')
             | (False, c') \<Rightarrow> (Disconnected, c')))
      | _ \<Rightarrow> (NotReady, c))"

definition send_if_ready :: "agent_to_ui \<Rightarrow> ui_client \<Rightarrow> bool \<times> ui_client" where
  "send_if_ready command c =
     (case uc_phase c of
        PhaseReady _ \<Rightarrow> (case uc_sender c of None \<Rightarrow> (False, c) | Some i \<Rightarrow> channel_send i command c)
      | _ \<Rightarrow> (False, c))"

section \<open>Idle exit and shutdown\<close>

definition approve_idle_exit :: "uuid \<Rightarrow> u64 \<Rightarrow> ui_client \<Rightarrow> ui_client" where
  "approve_idle_exit request_id generation c =
     (if uc_phase c \<noteq> PhaseReady generation then c
      else case uc_sender c of
        None \<Rightarrow> c
      | Some i \<Rightarrow> (case channel_send i (IdleExitApproved request_id generation) c of
          (False, c') \<Rightarrow> c'
        | (True, c') \<Rightarrow> c'\<lparr>uc_state := (uc_state c')\<lparr>ps_phase := PhaseStopping generation,
                                  ps_idle_exit_request := Some request_id\<rparr>\<rparr>))"

definition cancel_idle_exit :: "uuid \<Rightarrow> u64 \<Rightarrow> ui_client \<Rightarrow> ui_client" where
  "cancel_idle_exit request_id generation c =
     (if uc_phase c = PhaseStopping generation \<and> uc_idle_exit_request c = Some request_id
         \<and> uc_sender c \<noteq> None \<and> \<not> uc_shutting_down c
      then c\<lparr>uc_state := (uc_state c)\<lparr>ps_phase := PhaseReady generation, ps_idle_exit_request := None\<rparr>\<rparr>
      else c)"

text \<open>The first part of \<open>shutdown\<close>: no later command is accepted and the GUI is told to stop.\<close>

definition kill :: "u64 \<Rightarrow> ui_client \<Rightarrow> ui_client" where
  "kill g c = c\<lparr>uc_kills := uc_kills c @ [g]\<rparr>"

definition shutdown :: "ui_client \<Rightarrow> ui_client" where
  "shutdown c =
     (let st = uc_state c;
          st1 = (case phase_generation (ps_phase st) of
                   None \<Rightarrow> st | Some g \<Rightarrow> st\<lparr>ps_phase := PhaseStopping g\<rparr>);
          c1 = c\<lparr>uc_shutting_down := True,
                 uc_state := st1\<lparr>ps_idle_exit_request := None, ps_sender := None\<rparr>\<rparr>
      in case ps_sender st of
           Some i \<Rightarrow> snd (channel_send i Shutdown c1)
         | None \<Rightarrow> (case ps_kill_sender st of Some g \<Rightarrow> kill g c1 | None \<Rightarrow> c1))"

text \<open>The second part, after the timeout: the child is killed if it is still there.\<close>

definition shutdown_timeout :: "ui_client \<Rightarrow> ui_client" where
  "shutdown_timeout c = (case ps_kill_sender (uc_state c) of Some g \<Rightarrow> kill g c | None \<Rightarrow> c)"

section \<open>Process lifecycle\<close>

definition mark_disconnected :: "u64 option \<Rightarrow> ui_client \<Rightarrow> ui_client" where
  "mark_disconnected generation c =
     (if (case generation of Some g \<Rightarrow> phase_generation (uc_phase c) \<noteq> Some g | None \<Rightarrow> False) then c
      else case phase_generation (uc_phase c) of
        None \<Rightarrow> c
      | Some current \<Rightarrow>
          (let c1 = c\<lparr>uc_state := (uc_state c)\<lparr>ps_phase := PhaseStopping current, ps_sender := None,
                        ps_process_id := None, ps_idle_exit_request := None\<rparr>\<rparr>
           in case ps_kill_sender (uc_state c) of Some g \<Rightarrow> kill g c1 | None \<Rightarrow> c1))"

definition mark_stopped :: "u64 \<Rightarrow> ui_client \<Rightarrow> ui_client" where
  "mark_stopped generation c =
     (if phase_generation (uc_phase c) = Some generation
      then c\<lparr>uc_state := default_process_state\<rparr> else c)"

datatype claim = ClaimReady | ClaimSpawn u64 | ClaimWait

text \<open>The critical section of \<open>ensure_ready\<close>; \<open>fetch_add\<close> on the generation counter wraps around.\<close>

definition ensure_ready :: "ui_client \<Rightarrow> claim \<times> ui_client" where
  "ensure_ready c =
     (case uc_phase c of
        PhaseReady _ \<Rightarrow> (ClaimReady, c)
      | PhaseStopped \<Rightarrow>
          (let generation = uc_next_generation c in
           (ClaimSpawn generation,
            c\<lparr>uc_next_generation := (generation + 1) mod 18446744073709551616,
              uc_state := (uc_state c)\<lparr>ps_phase := PhaseStarting generation\<rparr>\<rparr>))
      | _ \<Rightarrow> (ClaimWait, c))"

text \<open>
  \<open>spawn_ui\<close> after \<open>Command::spawn\<close>, whose outcome is the argument, together with the reaction of
  \<open>ensure_ready\<close> to an error.
\<close>

definition spawn_ui :: "u64 \<Rightarrow> bool \<Rightarrow> ui_client \<Rightarrow> (ui_process_error + unit) \<times> ui_client" where
  "spawn_ui generation spawned c =
     (if \<not> spawned then (Inl UpIo, mark_stopped generation c)
      else if uc_phase c \<noteq> PhaseStarting generation then (Inl UpStaleGeneration, mark_stopped generation c)
      else (Inr (), c\<lparr>uc_state := (uc_state c)\<lparr>ps_kill_sender := Some generation\<rparr>\<rparr>))"

section \<open>Serving a connection\<close>

text \<open>The first frame: version, session, role, secret and the generation that is being started.\<close>

definition accept_hello :: "ui_to_agent envelope \<Rightarrow> ui_client \<Rightarrow> ui_process_error + u32 \<times> u64" where
  "accept_hello e c =
     rbind (map_err UpProtocol (envelope_validate (uc_session_id c) e)) (\<lambda>_.
     case en_payload e of
       Hello h \<Rightarrow>
         (if hl_role h \<noteq> RoleUi then Inl (UpProtocol UnexpectedMessage)
          else if hl_authentication h \<noteq> uc_authentication c then Inl (UpProtocol AuthenticationFailed)
          else if uc_phase c \<noteq> PhaseStarting (hl_process_generation h) then Inl UpStaleGeneration
          else Inr (hl_process_id h, hl_process_generation h))
     | _ \<Rightarrow> Inl (UpProtocol UnexpectedMessage))"

text \<open>The second frame: the GUI has applied the snapshot that was sent as message 2.\<close>

definition accept_ready :: "u64 \<Rightarrow> ui_to_agent envelope \<Rightarrow> ui_client \<Rightarrow> ui_process_error + u64" where
  "accept_ready generation e c =
     rbind (map_err UpProtocol (envelope_validate (uc_session_id c) e)) (\<lambda>_.
     case en_payload e of
       Ready r \<Rightarrow>
         (if rd_process_generation r \<noteq> generation \<or> rd_applied_sequence r \<noteq> 2 then Inl UpStaleGeneration
          else Inr (en_sequence e))
     | _ \<Rightarrow> Inl (UpProtocol UnexpectedMessage))"

definition connection_ready :: "u32 \<Rightarrow> u64 \<Rightarrow> ui_client \<Rightarrow> ui_process_error + ui_client" where
  "connection_ready pid generation c =
     (if uc_phase c \<noteq> PhaseStarting generation then Inl UpStaleGeneration
      else Inr (c\<lparr>uc_connections := uc_connections c @ [\<lparr>cn_generation = generation, cn_queue = [], cn_open = True\<rparr>],
                  uc_state := (uc_state c)\<lparr>ps_phase := PhaseReady generation, ps_process_id := Some pid,
                     ps_sender := Some (length (uc_connections c)), ps_idle_exit_request := None\<rparr>\<rparr>))"

text \<open>One round of the reader task: a message is passed on only when its number grew.\<close>

definition accept_inbound ::
  "ui_client \<Rightarrow> u64 \<Rightarrow> ui_to_agent envelope \<Rightarrow> frame_error + u64 \<times> ui_to_agent" where
  "accept_inbound c last_sequence e =
     rbind (map_err FrameProtocol (envelope_validate (uc_session_id c) e)) (\<lambda>_.
     if en_sequence e \<le> last_sequence
     then Inl (FrameProtocol (SequenceRegression last_sequence (en_sequence e)))
     else Inr (en_sequence e, en_payload e))"

text \<open>One round of the writer task: the head of the queue goes out with the next number.\<close>

definition write_outbound :: "uuid \<Rightarrow> nat \<Rightarrow> u64 \<Rightarrow> uuid \<Rightarrow> ui_client \<Rightarrow> (agent_to_ui envelope \<times> u64 \<times> ui_client) option" where
  "write_outbound session_id i sequence message_id c =
     (case cn_queue (uc_connections c ! i) of
        [] \<Rightarrow> None
      | m # queue \<Rightarrow> Some (new_envelope session_id sequence message_id m,
          (sequence + 1) mod 18446744073709551616,
          c\<lparr>uc_connections := (uc_connections c)[i := (uc_connections c ! i)\<lparr>cn_queue := queue\<rparr>]\<rparr>))"

text \<open>The end of the connection task drops the receiver; \<open>mark_disconnected\<close> follows.\<close>

definition connection_close :: "nat \<Rightarrow> ui_client \<Rightarrow> ui_client" where
  "connection_close i c = c\<lparr>uc_connections := (uc_connections c)[i := (uc_connections c ! i)\<lparr>cn_open := False\<rparr>]\<rparr>"

section \<open>Interleaving\<close>

text \<open>
  The tasks of the Agent that are between two critical sections: commands inside the loop of \<open>send\<close>,
  claimed generations whose child is being started, children that are watched, greetings that were
  accepted, connections that ended and failed deliveries that will report a lost GUI.
\<close>

record agent_tasks =
  at_client :: ui_client
  at_sending :: "agent_to_ui list"
  at_claims :: "u64 list"
  at_children :: "u64 list"
  at_greeted :: "(u32 \<times> u64) list"
  at_ended :: "u64 list"
  at_lost :: nat

definition agent_tasks_start :: "uuid \<Rightarrow> string \<Rightarrow> agent_tasks" where
  "agent_tasks_start session_id authentication =
     \<lparr>at_client = ui_client_start session_id authentication, at_sending = [], at_claims = [],
      at_children = [], at_greeted = [], at_ended = [], at_lost = 0\<rparr>"

text \<open>
  What an action is: a step of the Agent alone, or the handling of an idle-exit message of the GUI.
  Starting a GUI supposes that the generation counter has not wrapped around.
\<close>

datatype agent_action = Internal | Approve uuid u64 | CancelExit uuid u64

inductive agent_step :: "agent_tasks \<Rightarrow> agent_action \<Rightarrow> agent_tasks \<Rightarrow> bool" where
  step_send_begin:
    "send_begin (at_client t) = Inr () \<Longrightarrow> command \<noteq> Shutdown \<Longrightarrow> (\<And>r g. command \<noteq> IdleExitApproved r g) \<Longrightarrow>
     agent_step t Internal (t\<lparr>at_sending := command # at_sending t\<rparr>)"
| step_claim:
    "at_sending t \<noteq> [] \<Longrightarrow> ensure_ready (at_client t) = (ClaimSpawn g, c) \<Longrightarrow> g < u64_max \<Longrightarrow>
     agent_step t Internal (t\<lparr>at_client := c, at_claims := g # at_claims t\<rparr>)"
| step_spawn:
    "g \<in> set (at_claims t) \<Longrightarrow> spawn_ui g spawned (at_client t) = (r, c) \<Longrightarrow>
     agent_step t Internal (t\<lparr>at_client := c, at_claims := remove1 g (at_claims t),
       at_children := (if isl r then [] else [g]) @ at_children t\<rparr>)"
| step_child_exit:
    "g \<in> set (at_children t) \<Longrightarrow>
     agent_step t Internal (t\<lparr>at_client := mark_stopped g (at_client t), at_children := remove1 g (at_children t)\<rparr>)"
| step_hello:
    "accept_hello e (at_client t) = Inr greeting \<Longrightarrow>
     agent_step t Internal (t\<lparr>at_greeted := greeting # at_greeted t\<rparr>)"
| step_connected:
    "(pid, g) \<in> set (at_greeted t) \<Longrightarrow> connection_ready pid g (at_client t) = Inr c \<Longrightarrow>
     agent_step t Internal (t\<lparr>at_client := c, at_greeted := remove1 (pid, g) (at_greeted t)\<rparr>)"
| step_send_attempt:
    "command \<in> set (at_sending t) \<Longrightarrow> send_attempt command (at_client t) = (outcome, c) \<Longrightarrow>
     agent_step t Internal (t\<lparr>at_client := c,
       at_sending := (if outcome = Delivered then remove1 command (at_sending t) else at_sending t),
       at_lost := at_lost t + (if outcome = Disconnected then 1 else 0)\<rparr>)"
| step_send_if_ready:
    "command \<noteq> Shutdown \<Longrightarrow> (\<And>r g. command \<noteq> IdleExitApproved r g) \<Longrightarrow> send_if_ready command (at_client t) = (ok, c) \<Longrightarrow>
     agent_step t Internal (t\<lparr>at_client := c\<rparr>)"
| step_close:
    "i < length (uc_connections (at_client t)) \<Longrightarrow> cn_open (uc_connections (at_client t) ! i) \<Longrightarrow>
     agent_step t Internal (t\<lparr>at_client := connection_close i (at_client t),
       at_ended := cn_generation (uc_connections (at_client t) ! i) # at_ended t\<rparr>)"
| step_ended:
    "g \<in> set (at_ended t) \<Longrightarrow>
     agent_step t Internal (t\<lparr>at_client := mark_disconnected (Some g) (at_client t), at_ended := remove1 g (at_ended t)\<rparr>)"
| step_lost:
    "at_lost t > 0 \<Longrightarrow>
     agent_step t Internal (t\<lparr>at_client := mark_disconnected None (at_client t), at_lost := at_lost t - 1\<rparr>)"
| step_shutdown:
    "agent_step t Internal (t\<lparr>at_client := shutdown (at_client t)\<rparr>)"
| step_shutdown_timeout:
    "uc_shutting_down (at_client t) \<Longrightarrow> agent_step t Internal (t\<lparr>at_client := shutdown_timeout (at_client t)\<rparr>)"
| step_approve:
    "agent_step t (Approve r g) (t\<lparr>at_client := approve_idle_exit r g (at_client t)\<rparr>)"
| step_cancel:
    "agent_step t (CancelExit r g) (t\<lparr>at_client := cancel_idle_exit r g (at_client t)\<rparr>)"

inductive_cases agent_approveE: "agent_step t (Approve r g) t'"
inductive_cases agent_cancelE: "agent_step t (CancelExit r g) t'"

inductive agent_reachable :: "agent_tasks \<Rightarrow> agent_tasks \<Rightarrow> bool" for t where
  reachable_refl: "agent_reachable t t"
| reachable_step: "agent_reachable t u \<Longrightarrow> agent_step u a v \<Longrightarrow> agent_reachable t v"

section \<open>The invariant\<close>

text \<open>Only the generations of the connections matter, not their queues.\<close>

definition control_inv :: "ui_process_phase \<Rightarrow> nat option \<Rightarrow> uuid option \<Rightarrow> u64 \<Rightarrow> u64 list \<Rightarrow> bool" where
  "control_inv phase sender idle next_generation gens \<longleftrightarrow>
     (\<forall>g. phase_generation phase = Some g \<longrightarrow> g < next_generation)
   \<and> (\<forall>i. sender = Some i \<longrightarrow> i < length gens \<and> (phase = PhaseReady (gens ! i) \<or> phase = PhaseStopping (gens ! i)))
   \<and> (\<forall>g. phase = PhaseReady g \<longrightarrow> sender \<noteq> None)
   \<and> (\<forall>r. idle = Some r \<longrightarrow> (\<exists>g. phase = PhaseStopping g) \<and> sender \<noteq> None)
   \<and> sorted_wrt (<) gens \<and> (\<forall>g \<in> set gens. g < next_generation)
   \<and> (\<forall>g. phase = PhaseStarting g \<longrightarrow> (\<forall>g' \<in> set gens. g' < g))"

definition client_inv :: "ui_client \<Rightarrow> bool" where
  "client_inv c \<longleftrightarrow> control_inv (uc_phase c) (uc_sender c) (uc_idle_exit_request c) (uc_next_generation c)
     (map cn_generation (uc_connections c))"

lemma control_approve: "control_inv (PhaseReady g) (Some i) idle n gens \<Longrightarrow> control_inv (PhaseStopping g) (Some i) (Some r) n gens"
  by (auto simp: control_inv_def)

lemma control_cancel: "control_inv (PhaseStopping g) (Some i) idle n gens \<Longrightarrow> control_inv (PhaseReady g) (Some i) None n gens"
  by (auto simp: control_inv_def)

lemma control_stopping:
  "control_inv phase s idle n gens \<Longrightarrow> phase_generation phase = Some g \<Longrightarrow> control_inv (PhaseStopping g) None None n gens"
  by (auto simp: control_inv_def)

lemma control_stopped: "control_inv phase s idle n gens \<Longrightarrow> control_inv PhaseStopped None None n gens"
  by (auto simp: control_inv_def)

lemma control_claim: "control_inv PhaseStopped s idle n gens \<Longrightarrow> control_inv (PhaseStarting n) s idle (n + 1) gens"
  by (auto simp: control_inv_def)

lemma control_ready:
  "control_inv (PhaseStarting g) s idle n gens \<Longrightarrow> control_inv (PhaseReady g) (Some (length gens)) None n (gens @ [g])"
  by (auto simp: control_inv_def sorted_wrt_append nth_append)

lemma map_update_kept: "f x = f (cs ! i) \<Longrightarrow> map f (cs[i := x]) = map f cs"
  by (induction cs arbitrary: i) (auto split: nat.split)

lemma generations_kept [simp]:
  "map cn_generation (cs[i := (cs ! i)\<lparr>cn_queue := q\<rparr>]) = map cn_generation cs"
  "map cn_generation (cs[i := (cs ! i)\<lparr>cn_open := b\<rparr>]) = map cn_generation cs"
  by (rule map_update_kept, simp)+

lemma channel_send_control [simp]:
  "map cn_generation (uc_connections (snd (channel_send i m c))) = map cn_generation (uc_connections c)"
  "uc_state (snd (channel_send i m c)) = uc_state c"
  "uc_next_generation (snd (channel_send i m c)) = uc_next_generation c"
  "uc_shutting_down (snd (channel_send i m c)) = uc_shutting_down c"
  by (simp_all add: channel_send_def enqueue_def)

lemma channel_send_inv: "client_inv c \<Longrightarrow> client_inv (snd (channel_send i m c))"
  by (simp add: client_inv_def)

lemma send_attempt_result:
  "send_attempt m c = (outcome, c') \<Longrightarrow>
     (\<exists>g i. uc_phase c = PhaseReady g \<and> uc_sender c = Some i \<and> i < length (uc_connections c)
        \<and> cn_open (uc_connections c ! i) \<and> c' = enqueue i m c \<and> outcome = Delivered)
   \<or> c' = c \<and> outcome \<noteq> Delivered"
  by (cases "uc_phase c"; cases "uc_sender c") (auto simp: send_attempt_def channel_send_def split: if_splits)

lemma send_if_ready_result:
  "send_if_ready m c = (ok, c') \<Longrightarrow>
     (\<exists>g i. uc_phase c = PhaseReady g \<and> uc_sender c = Some i \<and> i < length (uc_connections c)
        \<and> cn_open (uc_connections c ! i) \<and> c' = enqueue i m c \<and> ok)
   \<or> c' = c \<and> \<not> ok"
  by (cases "uc_phase c"; cases "uc_sender c") (auto simp: send_if_ready_def channel_send_def split: if_splits)

lemma approve_result:
  "(\<exists>i. uc_phase c = PhaseReady g \<and> uc_sender c = Some i \<and> i < length (uc_connections c)
      \<and> cn_open (uc_connections c ! i)
      \<and> approve_idle_exit r g c = (enqueue i (IdleExitApproved r g) c)
         \<lparr>uc_state := (uc_state c)\<lparr>ps_phase := PhaseStopping g, ps_idle_exit_request := Some r\<rparr>\<rparr>)
   \<or> approve_idle_exit r g c = c"
proof (cases "uc_phase c = PhaseReady g")
  case True
  show ?thesis
  proof (cases "uc_sender c")
    case (Some i)
    then show ?thesis using True by (simp add: approve_idle_exit_def channel_send_def enqueue_def)
  qed (simp add: approve_idle_exit_def)
qed (simp add: approve_idle_exit_def)

lemma enqueue_inv [simp]: "client_inv (enqueue i m c) = client_inv c"
  by (simp add: client_inv_def enqueue_def)

lemma enqueue_control [simp]:
  "uc_state (enqueue i m c) = uc_state c" "uc_next_generation (enqueue i m c) = uc_next_generation c"
  "map cn_generation (uc_connections (enqueue i m c)) = map cn_generation (uc_connections c)"
  "length (uc_connections (enqueue i m c)) = length (uc_connections c)"
  by (simp_all add: enqueue_def)

lemma approve_inv: "client_inv c \<Longrightarrow> client_inv (approve_idle_exit r g c)"
  using approve_result [of c g r] by (auto simp del: list.map simp: client_inv_def control_approve)

lemma cancel_inv: "client_inv c \<Longrightarrow> client_inv (cancel_idle_exit r g c)"
  by (auto simp: cancel_idle_exit_def client_inv_def control_cancel)

lemma kill_inv [simp]: "client_inv (kill g c) = client_inv c"
  by (simp add: client_inv_def kill_def)

lemma stopping_inv:
  assumes "client_inv c" "phase_generation (uc_phase c) = Some g" "uc_phase c' = PhaseStopping g" "uc_sender c' = None"
    "uc_idle_exit_request c' = None" "uc_next_generation c' = uc_next_generation c"
    "map cn_generation (uc_connections c') = map cn_generation (uc_connections c)"
  shows "client_inv c'"
  using control_stopping [OF assms(1) [unfolded client_inv_def] assms(2)]
  by (simp only: client_inv_def assms(3-7))

lemma stopped_inv:
  assumes "client_inv c" "uc_phase c' = PhaseStopped" "uc_sender c' = None"
    "uc_idle_exit_request c' = None" "uc_next_generation c' = uc_next_generation c"
    "map cn_generation (uc_connections c') = map cn_generation (uc_connections c)"
  shows "client_inv c'"
  using control_stopped [OF assms(1) [unfolded client_inv_def]] by (simp only: client_inv_def assms(2-6))

lemma phase_generation_None [simp]: "phase_generation p = None \<longleftrightarrow> p = PhaseStopped"
  by (cases p) auto

lemma shutdown_control:
  "uc_phase (shutdown c) = (case phase_generation (uc_phase c) of None \<Rightarrow> PhaseStopped | Some g \<Rightarrow> PhaseStopping g)"
  "uc_sender (shutdown c) = None" "uc_idle_exit_request (shutdown c) = None"
  "uc_next_generation (shutdown c) = uc_next_generation c"
  "map cn_generation (uc_connections (shutdown c)) = map cn_generation (uc_connections c)"
  "uc_shutting_down (shutdown c)"
  by (cases "uc_phase c"; cases "uc_sender c"; cases "ps_kill_sender (uc_state c)"; simp add: shutdown_def kill_def Let_def)+

lemma shutdown_inv: "client_inv c \<Longrightarrow> client_inv (shutdown c)"
proof (cases "phase_generation (uc_phase c)")
  case None
  then show "client_inv c \<Longrightarrow> ?thesis" by (rule_tac stopped_inv [of c]) (simp_all add: shutdown_control)
next
  case (Some g)
  then show "client_inv c \<Longrightarrow> ?thesis" by (rule_tac stopping_inv [of c]) (simp_all add: shutdown_control)
qed

lemma shutdown_timeout_inv: "client_inv c \<Longrightarrow> client_inv (shutdown_timeout c)"
  by (simp add: shutdown_timeout_def split: option.split)

lemma mark_disconnected_result:
  "mark_disconnected go c = c
   \<or> (\<exists>g. phase_generation (uc_phase c) = Some g \<and> uc_phase (mark_disconnected go c) = PhaseStopping g
        \<and> uc_sender (mark_disconnected go c) = None \<and> uc_idle_exit_request (mark_disconnected go c) = None
        \<and> uc_next_generation (mark_disconnected go c) = uc_next_generation c
        \<and> uc_connections (mark_disconnected go c) = uc_connections c
        \<and> uc_shutting_down (mark_disconnected go c) = uc_shutting_down c)"
  by (cases go; cases "phase_generation (uc_phase c)"; cases "ps_kill_sender (uc_state c)")
    (simp_all add: mark_disconnected_def kill_def Let_def)

lemma mark_disconnected_inv: "client_inv c \<Longrightarrow> client_inv (mark_disconnected go c)"
  using mark_disconnected_result [of go c] stopping_inv [of c _ "mark_disconnected go c"] by auto

lemma mark_stopped_inv: "client_inv c \<Longrightarrow> client_inv (mark_stopped g c)"
  by (auto simp: mark_stopped_def default_process_state_def intro: stopped_inv [of c])

lemma kill_sender_inv [simp]: "client_inv (c\<lparr>uc_state := (uc_state c)\<lparr>ps_kill_sender := k\<rparr>\<rparr>) = client_inv c"
  by (simp add: client_inv_def)

lemma spawn_ui_inv: "client_inv c \<Longrightarrow> spawn_ui g ok c = (r, c') \<Longrightarrow> client_inv c'"
  by (auto simp: spawn_ui_def mark_stopped_inv split: if_splits)

lemma ensure_ready_inv:
  assumes "client_inv c" "ensure_ready c = (ClaimSpawn g, c')" "g < u64_max"
  shows "client_inv c'"
proof -
  have c: "uc_phase c = PhaseStopped" "g = uc_next_generation c"
    "c' = c\<lparr>uc_next_generation := g + 1, uc_state := (uc_state c)\<lparr>ps_phase := PhaseStarting g\<rparr>\<rparr>"
    using assms(2,3) by (cases "uc_phase c"; auto simp: ensure_ready_def Let_def u64_max_def)+
  then show ?thesis using assms(1) by (simp add: client_inv_def control_claim [simplified])
qed

lemma connection_ready_inv:
  assumes "client_inv c" "connection_ready pid g c = Inr c'"
  shows "client_inv c'"
  using assms control_ready [of g "uc_sender c" "uc_idle_exit_request c" "uc_next_generation c" "map cn_generation (uc_connections c)"]
  by (auto simp: connection_ready_def client_inv_def split: if_splits)

lemma connection_close_inv: "client_inv c \<Longrightarrow> client_inv (connection_close i c)"
  by (simp add: client_inv_def connection_close_def)

lemma agent_step_inv:
  assumes "agent_step t a t'" "client_inv (at_client t)"
  shows "client_inv (at_client t')"
  using assms
proof cases
  case (step_send_attempt command outcome c)
  then show ?thesis using assms(2) by (auto dest!: send_attempt_result)
next
  case (step_send_if_ready command ok c)
  then show ?thesis using assms(2) by (auto dest!: send_if_ready_result)
next
  case (step_claim g c)
  then show ?thesis using assms(2) ensure_ready_inv by simp
next
  case (step_spawn g spawned r c)
  then show ?thesis using assms(2) spawn_ui_inv by simp
next
  case (step_connected pid g c)
  then show ?thesis using assms(2) connection_ready_inv by simp
qed (simp_all add: approve_inv cancel_inv shutdown_inv shutdown_timeout_inv mark_disconnected_inv mark_stopped_inv
      connection_close_inv)

lemma client_start_inv: "client_inv (ui_client_start session_id authentication)"
  by (simp add: client_inv_def control_inv_def ui_client_start_def default_process_state_def)

lemma agent_reachable_inv: "agent_reachable t u \<Longrightarrow> client_inv (at_client t) \<Longrightarrow> client_inv (at_client u)"
  by (induction rule: agent_reachable.induct) (auto intro: agent_step_inv)

section \<open>Properties\<close>

lemma agent_step_secret:
  "agent_step t a t' \<Longrightarrow> uc_authentication (at_client t') = uc_authentication (at_client t)
     \<and> uc_session_id (at_client t') = uc_session_id (at_client t)"
proof (induction rule: agent_step.induct)
  case (step_shutdown t)
  show ?case
    by (cases "uc_sender (at_client t)"; cases "ps_kill_sender (uc_state (at_client t))")
      (simp_all add: shutdown_def channel_send_def enqueue_def kill_def Let_def)
next
  case (step_approve t r g)
  show ?case using approve_result [of "at_client t" g r] by (auto simp: enqueue_def)
next
  case (step_ended g t)
  show ?case by (cases "phase_generation (uc_phase (at_client t))"; cases "ps_kill_sender (uc_state (at_client t))")
      (simp_all add: mark_disconnected_def kill_def Let_def)
next
  case (step_lost t)
  show ?case by (cases "phase_generation (uc_phase (at_client t))"; cases "ps_kill_sender (uc_state (at_client t))")
      (simp_all add: mark_disconnected_def kill_def Let_def)
next
  case (step_claim t g c)
  then show ?case by (cases "uc_phase (at_client t)") (auto simp: ensure_ready_def Let_def)
qed (auto dest!: send_attempt_result send_if_ready_result simp: enqueue_def spawn_ui_def mark_stopped_def connection_ready_def
      connection_close_def cancel_idle_exit_def shutdown_timeout_def kill_def split: if_splits option.splits)

lemma agent_reachable_secret:
  "agent_reachable t u \<Longrightarrow> uc_authentication (at_client u) = uc_authentication (at_client t)
     \<and> uc_session_id (at_client u) = uc_session_id (at_client t)"
  by (induction rule: agent_reachable.induct) (auto dest: agent_step_secret)

lemma accept_hello_secret:
  "accept_hello e c = Inr (pid, g) \<Longrightarrow> en_protocol_version e = protocol_version \<and> en_session_id e = uc_session_id c
     \<and> (\<exists>h. en_payload e = Hello h \<and> hl_role h = RoleUi \<and> hl_authentication h = uc_authentication c
          \<and> hl_process_generation h = g) \<and> uc_phase c = PhaseStarting g"
  by (cases "en_payload e") (auto simp: accept_hello_def envelope_validate_def rbind_Inr split: if_splits)

text \<open>
  C28: one GUI at a time. Whatever the tasks of the Agent do and in whatever order, the generations of the
  connections it accepted grow strictly; a new connection is accepted only for a generation above all
  earlier ones, after a greeting with the protocol version, the session and the secret of this Agent; a
  command that \<open>send\<close> reports as delivered was put at the end of the queue of the connection whose
  generation is Ready, and of no other.
\<close>

theorem ui_connection_exclusive:
  assumes "agent_reachable (agent_tasks_start session_id authentication) t" and c: "c = at_client t"
  shows "sorted_wrt (<) (map cn_generation (uc_connections c))
    \<and> (accept_hello e c = Inr (pid, g) \<longrightarrow> en_protocol_version e = protocol_version \<and> en_session_id e = session_id
         \<and> (\<exists>h. en_payload e = Hello h \<and> hl_role h = RoleUi \<and> hl_authentication h = authentication))
    \<and> (connection_ready pid g c = Inr c1 \<longrightarrow> list_all (\<lambda>cn. cn_generation cn < g) (uc_connections c)
         \<and> uc_phase c1 = PhaseReady g \<and> uc_sender c1 = Some (length (uc_connections c)))
    \<and> (send_attempt m c = (Delivered, c2) \<longrightarrow> (\<exists>i. i < length (uc_connections c)
         \<and> uc_phase c = PhaseReady (cn_generation (uc_connections c ! i)) \<and> c2 = enqueue i m c))"
proof -
  have inv: "client_inv c" unfolding c
    using assms(1) by (rule agent_reachable_inv) (simp add: agent_tasks_start_def client_start_inv)
  have s: "uc_authentication c = authentication" "uc_session_id c = session_id"
    using agent_reachable_secret [OF assms(1)] by (simp_all add: c agent_tasks_start_def ui_client_start_def)
  have "send_attempt m c = (Delivered, c2) \<longrightarrow> (\<exists>i. i < length (uc_connections c)
         \<and> uc_phase c = PhaseReady (cn_generation (uc_connections c ! i)) \<and> c2 = enqueue i m c)"
    using inv by (auto dest!: send_attempt_result simp: client_inv_def control_inv_def)
  moreover have "connection_ready pid g c = Inr c1 \<longrightarrow> list_all (\<lambda>cn. cn_generation cn < g) (uc_connections c)
         \<and> uc_phase c1 = PhaseReady g \<and> uc_sender c1 = Some (length (uc_connections c))"
    using inv by (auto simp: connection_ready_def client_inv_def control_inv_def list_all_iff split: if_splits)
  moreover have "sorted_wrt (<) (map cn_generation (uc_connections c))"
    using inv by (simp add: client_inv_def control_inv_def)
  ultimately show ?thesis using s by (auto dest!: accept_hello_secret)
qed

text \<open>A run: a command is sent, a first GUI is started, greets and connects.\<close>

definition example_hello :: "ui_to_agent envelope" where
  "example_hello = new_envelope ''agent'' 1 ''message''
     (Hello \<lparr>hl_role = RoleUi, hl_process_id = 7, hl_process_generation = 1, hl_authentication = ''secret''\<rparr>)"

definition started_tasks :: "agent_tasks \<Rightarrow> agent_tasks" where
  "started_tasks t = t\<lparr>at_client := snd (spawn_ui 1 True (snd (ensure_ready (at_client t)))), at_claims := [], at_children := [1],
     at_greeted := [(7, 1)]\<rparr>"

lemma reach_started:
  assumes "agent_reachable t0 t" and "at_sending t = [m]" and "at_claims t = []" "at_children t = []" "at_greeted t = []"
    and "uc_phase (at_client t) = PhaseStopped" and "uc_next_generation (at_client t) = 1"
    and "uc_session_id (at_client t) = ''agent''" and "uc_authentication (at_client t) = ''secret''"
  shows "agent_reachable t0 (started_tasks t)"
proof -
  let ?c1 = "(at_client t)\<lparr>uc_next_generation := 2, uc_state := (uc_state (at_client t))\<lparr>ps_phase := PhaseStarting 1\<rparr>\<rparr>"
  let ?c2 = "?c1\<lparr>uc_state := (uc_state ?c1)\<lparr>ps_kill_sender := Some 1\<rparr>\<rparr>"
  have claim: "ensure_ready (at_client t) = (ClaimSpawn 1, ?c1)" using assms(6,7) by (simp add: ensure_ready_def)
  have spawn: "spawn_ui 1 True ?c1 = (Inr (), ?c2)" by (simp add: spawn_ui_def)
  have "agent_reachable t0 (t\<lparr>at_client := ?c1, at_claims := [1]\<rparr>)"
    using step_claim [of t, OF _ claim] assms(1-3) by (auto intro: reachable_step simp: u64_max_def)
  then have "agent_reachable t0 (t\<lparr>at_client := ?c2, at_claims := [], at_children := [1]\<rparr>)"
    using step_spawn [of 1 "t\<lparr>at_client := ?c1, at_claims := [1]\<rparr>" True "Inr ()" ?c2] spawn assms(3,4)
    by (auto intro: reachable_step)
  moreover have "accept_hello example_hello ?c2 = Inr (7, 1)"
    using assms(8,9) by (simp add: accept_hello_def example_hello_def new_envelope_def envelope_validate_def)
  ultimately have "agent_reachable t0 (t\<lparr>at_client := ?c2, at_claims := [], at_children := [1], at_greeted := [(7, 1)]\<rparr>)"
    using step_hello [of example_hello "t\<lparr>at_client := ?c2, at_claims := [], at_children := [1]\<rparr>" "(7, 1)"] assms(5)
    by (auto intro: reachable_step)
  then show ?thesis by (simp add: started_tasks_def claim spawn_ui_def)
qed

definition example_tasks :: agent_tasks where
  "example_tasks = (agent_tasks_start ''agent'' ''secret'')\<lparr>at_sending := [OpenMainWindow]\<rparr>"

lemma example_tasks_reachable: "agent_reachable (agent_tasks_start ''agent'' ''secret'') example_tasks"
proof -
  let ?t = "agent_tasks_start ''agent'' ''secret''"
  have "agent_step ?t Internal (?t\<lparr>at_sending := OpenMainWindow # at_sending ?t\<rparr>)"
    by (rule step_send_begin) (simp_all add: agent_tasks_start_def ui_client_start_def send_begin_def)
  then show ?thesis
    by (auto intro: reachable_step reachable_refl simp: example_tasks_def agent_tasks_start_def)
qed

theorem ui_connection_exclusive_witness:
  "\<exists>t c1. agent_reachable (agent_tasks_start ''agent'' ''secret'') t \<and> connection_ready 7 1 (at_client t) = Inr c1
     \<and> uc_phase c1 = PhaseReady 1 \<and> uc_sender c1 = Some 0"
proof -
  let ?t = "started_tasks example_tasks"
  have r: "agent_reachable (agent_tasks_start ''agent'' ''secret'') ?t"
    by (rule reach_started [OF example_tasks_reachable])
      (simp_all add: example_tasks_def agent_tasks_start_def ui_client_start_def default_process_state_def)
  have e: "uc_phase (at_client ?t) = PhaseStarting 1" "uc_connections (at_client ?t) = []"
    by (simp_all add: started_tasks_def example_tasks_def agent_tasks_start_def ui_client_start_def
        default_process_state_def ensure_ready_def spawn_ui_def)
  obtain c1 where c1: "connection_ready 7 1 (at_client ?t) = Inr c1" by (simp add: connection_ready_def e)
  from ui_connection_exclusive [OF r refl, of example_hello 7 1 c1 OpenMainWindow c1] c1 e(2) r
  show ?thesis by auto
qed

text \<open>
  \<open>shutdown\<close> is documented to prevent a later respawn, but \<open>send\<close> checks the flag only before its
  loop. A command that is waiting in \<open>send\<close> while the Agent shuts down starts a new GUI process after the
  old one has stopped, and the new process becomes Ready.
\<close>

theorem shutdown_respawns_ui:
  "\<exists>t. agent_reachable (agent_tasks_start ''agent'' ''secret'') t \<and> uc_shutting_down (at_client t)
     \<and> uc_phase (at_client t) = PhaseReady 1 \<and> at_children t = [1]"
proof -
  let ?t = "example_tasks\<lparr>at_client := shutdown (at_client example_tasks)\<rparr>"
  let ?u = "started_tasks ?t"
  have "agent_reachable (agent_tasks_start ''agent'' ''secret'') ?t"
    using example_tasks_reachable step_shutdown by (rule reachable_step)
  then have u: "agent_reachable (agent_tasks_start ''agent'' ''secret'') ?u"
    by (rule reach_started)
      (simp_all add: shutdown_def example_tasks_def agent_tasks_start_def ui_client_start_def default_process_state_def)
  have e: "uc_phase (at_client ?u) = PhaseStarting 1" "uc_shutting_down (at_client ?u)" "at_greeted ?u = [(7, 1)]" "at_children ?u = [1]"
    by (simp_all add: shutdown_def started_tasks_def example_tasks_def agent_tasks_start_def ui_client_start_def
        default_process_state_def ensure_ready_def spawn_ui_def)
  obtain c where c: "connection_ready 7 1 (at_client ?u) = Inr c" by (simp add: connection_ready_def e)
  then have "uc_phase c = PhaseReady 1" "uc_shutting_down c" using e by (auto simp: connection_ready_def)
  then show ?thesis
    using reachable_step [OF u step_connected [of 7 1 ?u c]] c e by (intro exI [of _ "?u\<lparr>at_client := c, at_greeted := remove1 (7, 1) (at_greeted ?u)\<rparr>"]) simp
qed

end
