(* ===== verification/Ui_Session.thy ===== *)
theory Ui_Session
  imports Ipc_Protocol
begin

text \<open>
  The GUI process: the window hosts of \<open>apps/desktop/src/ui.rs\<close> with the retention of the lookup popup,
  the lookup card of \<open>ui_state.rs\<close>, and \<open>apps/desktop/src/ui_session.rs\<close>, which applies the messages of
  the Agent, caches its state, sends the user's requests and asks for permission to exit when nothing is
  shown. Slint and the native windows are arguments: the outcome of creating, showing and hiding a
  window is given to every operation that does so. The theory shows that the cache always is a
  snapshot of the Agent followed by its patches in order.
\<close>

section \<open>Lookup card\<close>

datatype lookup_card_error_kind =
  CardConfigurationRequired | CardUnauthorized | CardUnavailable | CardUnsupported

datatype lookup_card_state =
  CardHidden
| CardLoading u64 utext
| CardReady u64 content_key utext utext bool u64
| CardError u64 utext lookup_card_error_kind

fun card_generation :: "lookup_card_state \<Rightarrow> u64 option" where
  "card_generation CardHidden = None"
| "card_generation (CardLoading g _) = Some g"
| "card_generation (CardReady g _ _ _ _ _) = Some g"
| "card_generation (CardError g _ _) = Some g"

definition apply_if_current :: "lookup_card_state \<Rightarrow> lookup_card_state \<Rightarrow> bool \<times> lookup_card_state" where
  "apply_if_current completion crd =
     (if card_generation crd \<noteq> None \<and> card_generation crd = card_generation completion
      then (True, completion) else (False, crd))"

fun card_error_kind :: "lookup_error_kind \<Rightarrow> lookup_card_error_kind" where
  "card_error_kind ProviderConfigurationRequired = CardConfigurationRequired"
| "card_error_kind ProviderUnauthorized = CardUnauthorized"
| "card_error_kind TranslationUnavailable = CardUnavailable"
| "card_error_kind UnsupportedInput = CardUnsupported"

fun card_of_lookup :: "lookup_ui_state \<Rightarrow> string + lookup_card_state" where
  "card_of_lookup (UiLoading query_id source) = Inr (CardLoading query_id source)"
| "card_of_lookup (UiLookupReady query_id key source translation fav count) =
     rbind (map_err (\<lambda>_. ''invalid content key'') (content_key_from_str key)) (\<lambda>key.
     Inr (CardReady query_id key source translation fav count))"
| "card_of_lookup (UiLookupError query_id source kind) = Inr (CardError query_id source (card_error_kind kind))"

text \<open>The conversion of the Agent, \<open>service.rs\<close>; a hidden card is never sent.\<close>

fun lookup_error_kind_of :: "lookup_card_error_kind \<Rightarrow> lookup_error_kind" where
  "lookup_error_kind_of CardConfigurationRequired = ProviderConfigurationRequired"
| "lookup_error_kind_of CardUnauthorized = ProviderUnauthorized"
| "lookup_error_kind_of CardUnavailable = TranslationUnavailable"
| "lookup_error_kind_of CardUnsupported = UnsupportedInput"

fun lookup_of_card :: "lookup_card_state \<Rightarrow> string + lookup_ui_state" where
  "lookup_of_card CardHidden = Inl ''A hidden lookup state cannot be displayed.''"
| "lookup_of_card (CardLoading g source) = Inr (UiLoading g source)"
| "lookup_of_card (CardReady g key source translation fav count) =
     Inr (UiLookupReady g (to_hex key) source translation fav count)"
| "lookup_of_card (CardError g source kind) = Inr (UiLookupError g source (lookup_error_kind_of kind))"

section \<open>Window hosts\<close>

datatype popup_lifecycle_state = Cold | Active | Warm

definition default_popup_idle_timeout_secs :: u32 where
  "default_popup_idle_timeout_secs = 30"

definition max_popup_idle_timeout_secs :: u32 where
  "max_popup_idle_timeout_secs = 300"

text \<open>
  A popup host holds the card it shows. \<open>uh_timers\<close> are the generations whose release timer of Slint has
  not fired yet.
\<close>

record ui_hosts =
  uh_popup :: "lookup_card_state option"
  uh_main :: bool
  uh_permission :: bool
  uh_generation :: u64
  uh_lifecycle :: popup_lifecycle_state
  uh_popup_idle_timeout :: u32
  uh_timers :: "u64 list"

definition new_hosts :: ui_hosts where
  "new_hosts = \<lparr>uh_popup = None, uh_main = False, uh_permission = False, uh_generation = 0,
     uh_lifecycle = Cold, uh_popup_idle_timeout = default_popup_idle_timeout_secs, uh_timers = []\<rparr>"

definition has_live_ui :: "ui_hosts \<Rightarrow> bool" where
  "has_live_ui h \<longleftrightarrow> uh_main h \<or> uh_popup h \<noteq> None \<or> uh_permission h"

definition next_popup_generation :: "popup_lifecycle_state \<Rightarrow> ui_hosts \<Rightarrow> ui_hosts" where
  "next_popup_generation state h =
     h\<lparr>uh_generation := (uh_generation h + 1) mod 18446744073709551616, uh_lifecycle := state\<rparr>"

text \<open>\<open>activate\<close> and \<open>warm\<close> of \<open>PopupLifecycle\<close> are \<open>next_popup_generation\<close>; so is a release that applies.\<close>

definition release_if_current :: "u64 \<Rightarrow> ui_hosts \<Rightarrow> bool \<times> ui_hosts" where
  "release_if_current generation h =
     (if uh_generation h \<noteq> generation \<or> uh_lifecycle h \<noteq> Warm then (False, h)
      else (True, next_popup_generation Cold h))"

record native =
  nt_created :: bool
  nt_shown :: bool
  nt_hidden :: bool

definition ensure_main :: "native \<Rightarrow> ui_hosts \<Rightarrow> bool \<times> ui_hosts" where
  "ensure_main nt h = (if uh_main h then (True, h) else if nt_created nt then (True, h\<lparr>uh_main := True\<rparr>) else (False, h))"

definition ensure_permission :: "native \<Rightarrow> ui_hosts \<Rightarrow> bool \<times> ui_hosts" where
  "ensure_permission nt h =
     (if uh_permission h then (True, h) else if nt_created nt then (True, h\<lparr>uh_permission := True\<rparr>) else (False, h))"

definition ensure_popup :: "native \<Rightarrow> ui_hosts \<Rightarrow> bool \<times> ui_hosts" where
  "ensure_popup nt h =
     (if uh_popup h \<noteq> None then (True, h)
      else if nt_created nt then (True, h\<lparr>uh_popup := Some CardHidden\<rparr>) else (False, h))"

definition apply_lookup_state_to_popup :: "lookup_card_state \<Rightarrow> ui_hosts \<Rightarrow> ui_hosts" where
  "apply_lookup_state_to_popup crd h =
     (case crd of CardHidden \<Rightarrow> h | _ \<Rightarrow> h\<lparr>uh_popup := map_option (\<lambda>_. crd) (uh_popup h)\<rparr>)"

definition show_lookup_card :: "native \<Rightarrow> lookup_card_state \<Rightarrow> ui_hosts \<Rightarrow> bool \<times> ui_hosts" where
  "show_lookup_card nt crd h =
     (case ensure_popup nt h of
        (False, h) \<Rightarrow> (False, h)
      | (True, h) \<Rightarrow> (nt_shown nt, apply_lookup_state_to_popup crd (next_popup_generation Active h)))"

definition update_lookup_card_if_active :: "lookup_card_state \<Rightarrow> ui_hosts \<Rightarrow> bool \<times> ui_hosts" where
  "update_lookup_card_if_active crd h =
     (if uh_lifecycle h \<noteq> Active \<or> uh_popup h = None then (False, h)
      else (True, apply_lookup_state_to_popup crd h))"

section \<open>Session state\<close>

record ui_cache =
  ch_main :: "main_ui_snapshot option"
  ch_revision :: u64
  ch_last_sequence :: u64
  ch_resync_pending :: bool

record pending_request =
  pq_operation :: ui_operation_name
  pq_blocks_ui :: bool

text \<open>
  \<open>us_outgoing\<close> is what was handed to the connection and not yet received by the Agent; \<open>us_next_id\<close>
  counts the identifiers drawn from \<open>Uuid::new_v4\<close>, which is an argument \<open>ids\<close> of the operations.
  \<open>us_import_offers\<close> are the import tokens a confirmation dialog was opened for.
\<close>

record ui_session =
  us_generation :: u64
  us_cache :: ui_cache
  us_display :: "(uuid \<times> u64) option"
  us_pending :: "(uuid \<times> pending_request) list"
  us_local_operations :: u32
  us_armed :: bool
  us_exit_request :: "uuid option"
  us_presentation_ack :: "(uuid \<times> u64) option"
  us_hosts :: ui_hosts
  us_feedback :: "ui_feedback option"
  us_import_offers :: "uuid list"
  us_outgoing :: "ui_to_agent list"
  us_connected :: bool
  us_next_id :: nat
  us_idle_exit :: bool
  us_quit :: bool

definition install_session :: "u64 \<Rightarrow> ui_session" where
  "install_session generation =
     \<lparr>us_generation = generation,
      us_cache = \<lparr>ch_main = None, ch_revision = 0, ch_last_sequence = 0, ch_resync_pending = False\<rparr>,
      us_display = None, us_pending = [], us_local_operations = 0, us_armed = False,
      us_exit_request = None, us_presentation_ack = None, us_hosts = new_hosts, us_feedback = None,
      us_import_offers = [], us_outgoing = [], us_connected = True, us_next_id = 0,
      us_idle_exit = False, us_quit = False\<rparr>"

definition ui_event :: "ui_to_agent \<Rightarrow> ui_session \<Rightarrow> bool \<times> ui_session" where
  "ui_event m s = (if us_connected s then (True, s\<lparr>us_outgoing := us_outgoing s @ [m]\<rparr>) else (False, s))"

definition ui_show_feedback :: "ui_feedback \<Rightarrow> ui_session \<Rightarrow> ui_session" where
  "ui_show_feedback fb s = (if uh_main (us_hosts s) then s\<lparr>us_feedback := Some fb\<rparr> else s)"

section \<open>Idle exit\<close>

definition is_idle :: "ui_session \<Rightarrow> bool" where
  "is_idle s \<longleftrightarrow> us_armed s \<and> \<not> has_live_ui (us_hosts s) \<and> us_pending s = [] \<and> us_local_operations s = 0"

definition evaluate_exit :: "(nat \<Rightarrow> uuid) \<Rightarrow> ui_session \<Rightarrow> ui_session" where
  "evaluate_exit ids s =
     (case us_exit_request s of
        None \<Rightarrow>
          (if is_idle s
           then let r = ids (us_next_id s);
                    (sent, s1) = ui_event (RequestIdleExit r (us_generation s))
                       (s\<lparr>us_next_id := us_next_id s + 1, us_exit_request := Some r\<rparr>)
                in if sent then s1 else s1\<lparr>us_quit := True\<rparr>
           else s)
      | Some r \<Rightarrow>
          (if is_idle s then s
           else snd (ui_event (CancelIdleExit r (us_generation s)) (s\<lparr>us_exit_request := None\<rparr>))))"

definition apply_exit_approval :: "uuid \<Rightarrow> u64 \<Rightarrow> ui_session \<Rightarrow> ui_session" where
  "apply_exit_approval request_id process_generation s =
     (if process_generation \<noteq> us_generation s \<or> us_exit_request s \<noteq> Some request_id then s
      else if is_idle s
      then (snd (ui_event (Exiting (us_generation s)) s))\<lparr>us_quit := True, us_idle_exit := True\<rparr>
      else snd (ui_event (CancelIdleExit request_id (us_generation s)) (s\<lparr>us_exit_request := None\<rparr>)))"

section \<open>Requests\<close>

definition submit_request :: "(nat \<Rightarrow> uuid) \<Rightarrow> ui_operation \<Rightarrow> bool \<Rightarrow> ui_session \<Rightarrow> ui_session" where
  "submit_request ids operation blocks_ui s =
     (let r = ids (us_next_id s);
          (sent, s1) = ui_event (Request r operation) (s\<lparr>us_next_id := us_next_id s + 1\<rparr>);
          s2 = (if sent
                then s1\<lparr>us_pending := (r, \<lparr>pq_operation = ui_operation_name_of operation, pq_blocks_ui = blocks_ui\<rparr>) # us_pending s1\<rparr>
                else ui_show_feedback \<lparr>fb_message = ''The Agent connection is unavailable: Agent IPC disconnected'',
                        fb_level = FeedbackError\<rparr> s1)
      in evaluate_exit ids s2)"

definition request_resync :: "(nat \<Rightarrow> uuid) \<Rightarrow> ui_session \<Rightarrow> ui_session" where
  "request_resync ids s =
     (if ch_resync_pending (us_cache s) then s
      else submit_request ids RequestSnapshot False (s\<lparr>us_cache := (us_cache s)\<lparr>ch_resync_pending := True\<rparr>\<rparr>))"

definition begin_local_operation :: "(nat \<Rightarrow> uuid) \<Rightarrow> ui_session \<Rightarrow> ui_session" where
  "begin_local_operation ids s =
     evaluate_exit ids (s\<lparr>us_local_operations := min u32_max (us_local_operations s + 1)\<rparr>)"

definition end_local_operation :: "(nat \<Rightarrow> uuid) \<Rightarrow> ui_session \<Rightarrow> ui_session" where
  "end_local_operation ids s = evaluate_exit ids (s\<lparr>us_local_operations := us_local_operations s - 1\<rparr>)"

section \<open>Windows of the session\<close>

text \<open>The hooks of the session run when a host is destroyed or the popup dismissed.\<close>

definition release_popup :: "(nat \<Rightarrow> uuid) \<Rightarrow> u64 \<Rightarrow> ui_session \<Rightarrow> ui_session" where
  "release_popup ids generation s =
     (case release_if_current generation (us_hosts s) of
        (False, _) \<Rightarrow> s
      | (True, h) \<Rightarrow>
          (let s1 = s\<lparr>us_hosts := h\<lparr>uh_popup := None\<rparr>\<rparr> in
           if uh_popup h \<noteq> None then evaluate_exit ids s1 else s1))"

definition schedule_popup_release :: "(nat \<Rightarrow> uuid) \<Rightarrow> u64 \<Rightarrow> u32 \<Rightarrow> ui_session \<Rightarrow> ui_session" where
  "schedule_popup_release ids generation timeout s =
     (if timeout = 0 then release_popup ids generation s
      else s\<lparr>us_hosts := (us_hosts s)\<lparr>uh_timers := generation # uh_timers (us_hosts s)\<rparr>\<rparr>)"

definition popup_timer :: "(nat \<Rightarrow> uuid) \<Rightarrow> u64 \<Rightarrow> ui_session \<Rightarrow> ui_session" where
  "popup_timer ids generation s =
     release_popup ids generation (s\<lparr>us_hosts := (us_hosts s)\<lparr>uh_timers := remove1 generation (uh_timers (us_hosts s))\<rparr>\<rparr>)"

definition dismiss_popup :: "(nat \<Rightarrow> uuid) \<Rightarrow> native \<Rightarrow> ui_session \<Rightarrow> ui_session" where
  "dismiss_popup ids nt s =
     (let h = us_hosts s in
      if uh_lifecycle h \<noteq> Active \<or> uh_popup h = None \<or> \<not> nt_hidden nt then s
      else
        (let h1 = next_popup_generation Warm h;
             s1 = s\<lparr>us_hosts := h1, us_display := None\<rparr>;
             s2 = (case us_display s of None \<Rightarrow> s1 | Some (d, _) \<Rightarrow> snd (ui_event (LookupDismissed d) s1))
         in schedule_popup_release ids (uh_generation h1) (uh_popup_idle_timeout h1) (evaluate_exit ids s2)))"

definition set_popup_idle_timeout_secs :: "(nat \<Rightarrow> uuid) \<Rightarrow> u32 \<Rightarrow> ui_session \<Rightarrow> ui_session" where
  "set_popup_idle_timeout_secs ids timeout s =
     (if timeout > max_popup_idle_timeout_secs then s
      else let h = (us_hosts s)\<lparr>uh_popup_idle_timeout := timeout\<rparr> in
        if uh_lifecycle h = Warm
        then let h1 = next_popup_generation Warm h in
          schedule_popup_release ids (uh_generation h1) timeout (s\<lparr>us_hosts := h1\<rparr>)
        else s\<lparr>us_hosts := h\<rparr>)"

definition destroy_main :: "(nat \<Rightarrow> uuid) \<Rightarrow> native \<Rightarrow> ui_session \<Rightarrow> ui_session" where
  "destroy_main ids nt s =
     (if \<not> uh_main (us_hosts s) then s
      else let s1 = s\<lparr>us_hosts := (us_hosts s)\<lparr>uh_main := False\<rparr>\<rparr> in
        if nt_hidden nt then evaluate_exit ids s1 else s1)"

definition destroy_permission :: "(nat \<Rightarrow> uuid) \<Rightarrow> native \<Rightarrow> ui_session \<Rightarrow> ui_session" where
  "destroy_permission ids nt s =
     (if \<not> uh_permission (us_hosts s) then s
      else let s1 = s\<lparr>us_hosts := (us_hosts s)\<lparr>uh_permission := False\<rparr>\<rparr> in
        if nt_hidden nt then evaluate_exit ids s1 else s1)"

section \<open>Messages of the Agent\<close>

definition opt :: "'a option \<Rightarrow> 'a \<Rightarrow> 'a" where
  "opt v old = (case v of None \<Rightarrow> old | Some x \<Rightarrow> x)"

definition apply_main_patch :: "main_ui_patch \<Rightarrow> main_ui_snapshot \<Rightarrow> main_ui_snapshot" where
  "apply_main_patch p m =
     \<lparr>mu_revision = mp_revision p,
      mu_history = opt (mp_history p) (mu_history m),
      mu_favorites = opt (mp_favorites p) (mu_favorites m),
      mu_devices = opt (mp_devices p) (mu_devices m),
      mu_tokenhub_model = opt (mp_tokenhub_model p) (mu_tokenhub_model m),
      mu_tokenhub_configured = opt (mp_tokenhub_configured p) (mu_tokenhub_configured m),
      mu_proxy_kind = opt (mp_proxy_kind p) (mu_proxy_kind m),
      mu_proxy_address = opt (mp_proxy_address p) (mu_proxy_address m),
      mu_provider_proxy_enabled = opt (mp_provider_proxy_enabled p) (mu_provider_proxy_enabled m),
      mu_update_proxy_enabled = opt (mp_update_proxy_enabled p) (mu_update_proxy_enabled m),
      mu_server_url = opt (mp_server_url p) (mu_server_url m),
      mu_username = opt (mp_username p) (mu_username m),
      mu_current_device = opt (mp_current_device p) (mu_current_device m),
      mu_sync_status = opt (mp_sync_status p) (mu_sync_status m),
      mu_update_status = opt (mp_update_status p) (mu_update_status m),
      mu_preferences = opt (mp_preferences p) (mu_preferences m)\<rparr>"

definition apply_snapshot :: "(nat \<Rightarrow> uuid) \<Rightarrow> ui_snapshot \<Rightarrow> ui_session \<Rightarrow> ui_session" where
  "apply_snapshot ids snapshot s =
     (if sn_revision snapshot \<noteq> mu_revision (sn_main snapshot) then request_resync ids s
      else let s1 = set_popup_idle_timeout_secs ids (up_popup_idle_timeout_secs (mu_preferences (sn_main snapshot))) s in
        s1\<lparr>us_cache := (us_cache s1)\<lparr>ch_revision := sn_revision snapshot, ch_main := Some (sn_main snapshot),
             ch_resync_pending := False\<rparr>\<rparr>)"

definition apply_patch :: "(nat \<Rightarrow> uuid) \<Rightarrow> main_ui_patch \<Rightarrow> ui_session \<Rightarrow> ui_session" where
  "apply_patch ids p s =
     (let cache = us_cache s in
      if mp_base_revision p \<noteq> ch_revision cache \<or> mp_revision p \<le> ch_revision cache
      then request_resync ids s
      else case ch_main cache of
        None \<Rightarrow> request_resync ids s
      | Some main \<Rightarrow>
          (let main1 = apply_main_patch p main;
               s1 = s\<lparr>us_cache := cache\<lparr>ch_main := Some main1, ch_revision := mu_revision main1\<rparr>\<rparr>
           in case mp_preferences p of
                None \<Rightarrow> s1
              | Some pref \<Rightarrow> set_popup_idle_timeout_secs ids (up_popup_idle_timeout_secs pref) s1))"

definition begin_lookup :: "native \<Rightarrow> uuid \<Rightarrow> lookup_ui_state \<Rightarrow> ui_session \<Rightarrow> bool \<times> ui_session" where
  "begin_lookup nt display_session_id state s =
     (case card_of_lookup state of
        Inl _ \<Rightarrow> (False, s)
      | Inr crd \<Rightarrow>
          (let (shown, h) = show_lookup_card nt crd (us_hosts s)
           in (shown, s\<lparr>us_display := Some (display_session_id, lookup_query_id state), us_hosts := h\<rparr>)))"

definition update_lookup :: "uuid \<Rightarrow> lookup_ui_state \<Rightarrow> ui_session \<Rightarrow> bool \<times> ui_session" where
  "update_lookup display_session_id state s =
     (if us_display s \<noteq> Some (display_session_id, lookup_query_id state) then (False, s)
      else case card_of_lookup state of
        Inl _ \<Rightarrow> (False, s)
      | Inr crd \<Rightarrow>
          (case update_lookup_card_if_active crd (us_hosts s) of
             (True, h) \<Rightarrow> (True, s\<lparr>us_hosts := h\<rparr>)
           | (False, _) \<Rightarrow> (False, s\<lparr>us_display := None\<rparr>)))"

definition apply_operation_result :: "operation_result \<Rightarrow> ui_session \<Rightarrow> ui_session" where
  "apply_operation_result result s =
     (let s1 = s\<lparr>us_pending := filter (\<lambda>(r, _). r \<noteq> or_response_to result) (us_pending s)\<rparr>;
          s2 = (case map_of (us_pending s) (or_response_to result) of
                  Some expected \<Rightarrow>
                    (if pq_operation expected \<noteq> or_operation result
                     then ui_show_feedback \<lparr>fb_message = ''The Agent returned a mismatched operation response.'',
                            fb_level = FeedbackError\<rparr> s1
                     else s1)
                | None \<Rightarrow> s1);
          s3 = (if fb_message (or_feedback result) \<noteq> [] then ui_show_feedback (or_feedback result) s2 else s2)
      in case or_output result of
           OutputImportPreview token _ _ _ _ _ \<Rightarrow>
             (if or_success result \<and> uh_main (us_hosts s3)
              then s3\<lparr>us_import_offers := token # us_import_offers s3\<rparr> else s3)
         | OutputNone \<Rightarrow> s3)"

text \<open>A lookup message announces its presentation first and withdraws it when it was not shown.\<close>

definition acknowledged :: "uuid \<Rightarrow> u64 \<Rightarrow> bool \<times> ui_session \<Rightarrow> ui_session" where
  "acknowledged display_session_id query_id r =
     (case r of (shown, s) \<Rightarrow> s\<lparr>us_presentation_ack := (if shown then Some (display_session_id, query_id) else None)\<rparr>)"

fun apply_message :: "(nat \<Rightarrow> uuid) \<Rightarrow> native \<Rightarrow> agent_to_ui \<Rightarrow> ui_session \<Rightarrow> ui_session" where
  "apply_message ids nt (Snapshot snapshot) s = apply_snapshot ids snapshot s"
| "apply_message ids nt (Patch p) s = apply_patch ids p s"
| "apply_message ids nt (BeginLookup d state) s =
     acknowledged d (lookup_query_id state) (begin_lookup nt d state (s\<lparr>us_armed := True\<rparr>))"
| "apply_message ids nt (UpdateLookup d state) s =
     acknowledged d (lookup_query_id state) (update_lookup d state s)"
| "apply_message ids nt (HideLookup d) s =
     (case us_display s of Some (d', _) \<Rightarrow> (if d' = d then dismiss_popup ids nt s else s) | None \<Rightarrow> s)"
| "apply_message ids nt OpenMainWindow s =
     s\<lparr>us_armed := True, us_hosts := snd (ensure_main nt (us_hosts s))\<rparr>"
| "apply_message ids nt HideMainWindow s = destroy_main ids nt s"
| "apply_message ids nt (ShowPermission status) s =
     s\<lparr>us_armed := True, us_hosts := snd (ensure_permission nt (us_hosts s))\<rparr>"
| "apply_message ids nt (SetDiagnosticAppearance dark reduce) s = s"
| "apply_message ids nt (OperationResult result) s = apply_operation_result result s"
| "apply_message ids nt (IdleExitApproved r g) s = apply_exit_approval r g s"
| "apply_message ids nt Shutdown s = s\<lparr>us_quit := True\<rparr>"
| "apply_message ids nt (HandshakeAccepted g) s = s"

definition ui_apply :: "(nat \<Rightarrow> uuid) \<Rightarrow> native \<Rightarrow> u64 \<Rightarrow> agent_to_ui \<Rightarrow> ui_session \<Rightarrow> ui_session" where
  "ui_apply ids nt sequence message s =
     (if sequence \<le> ch_last_sequence (us_cache s) then s
      else evaluate_exit ids (apply_message ids nt message
             (s\<lparr>us_cache := (us_cache s)\<lparr>ch_last_sequence := sequence\<rparr>\<rparr>)))"

section \<open>What an operation leaves alone\<close>

lemma ui_event_kept [simp]:
  "us_cache (snd (ui_event m s)) = us_cache s" "us_generation (snd (ui_event m s)) = us_generation s"
  "us_exit_request (snd (ui_event m s)) = us_exit_request s" "us_next_id (snd (ui_event m s)) = us_next_id s"
  "us_idle_exit (snd (ui_event m s)) = us_idle_exit s" "us_connected (snd (ui_event m s)) = us_connected s"
  "us_hosts (snd (ui_event m s)) = us_hosts s" "us_pending (snd (ui_event m s)) = us_pending s"
  by (simp_all add: ui_event_def)

lemma ui_event_result: "ui_event m s = (us_connected s, if us_connected s then s\<lparr>us_outgoing := us_outgoing s @ [m]\<rparr> else s)"
  by (simp add: ui_event_def)

lemma show_feedback_kept [simp]:
  "us_cache (ui_show_feedback fb s) = us_cache s" "us_generation (ui_show_feedback fb s) = us_generation s"
  "us_exit_request (ui_show_feedback fb s) = us_exit_request s" "us_next_id (ui_show_feedback fb s) = us_next_id s"
  "us_idle_exit (ui_show_feedback fb s) = us_idle_exit s" "us_outgoing (ui_show_feedback fb s) = us_outgoing s"
  by (simp_all add: ui_show_feedback_def)

text \<open>
  The exit handshake seen from the outside: a step adds messages that have nothing to do with it, draws a
  fresh request, or withdraws the current one.
\<close>

fun exit_message :: "ui_to_agent \<Rightarrow> bool" where
  "exit_message (RequestIdleExit _ _) = True"
| "exit_message (CancelIdleExit _ _) = True"
| "exit_message _ = False"

inductive exit_step :: "(nat \<Rightarrow> uuid) \<Rightarrow> ui_session \<Rightarrow> ui_session \<Rightarrow> bool" for ids where
  exit_other:
    "us_generation s' = us_generation s \<Longrightarrow> us_exit_request s' = us_exit_request s \<Longrightarrow> us_idle_exit s' = us_idle_exit s \<Longrightarrow>
     us_outgoing s' = us_outgoing s @ ms \<Longrightarrow> list_all (\<lambda>m. \<not> exit_message m) ms \<Longrightarrow> us_next_id s \<le> us_next_id s' \<Longrightarrow>
     exit_step ids s s'"
| exit_requested:
    "us_generation s' = us_generation s \<Longrightarrow> us_exit_request s = None \<Longrightarrow> us_exit_request s' = Some (ids (us_next_id s)) \<Longrightarrow>
     us_idle_exit s' = us_idle_exit s \<Longrightarrow>
     us_outgoing s' = us_outgoing s @ ms \<Longrightarrow> ms \<in> {[], [RequestIdleExit (ids (us_next_id s)) (us_generation s)]} \<Longrightarrow>
     us_next_id s' = us_next_id s + 1 \<Longrightarrow> exit_step ids s s'"
| exit_cancelled:
    "us_generation s' = us_generation s \<Longrightarrow> us_exit_request s = Some r \<Longrightarrow> us_exit_request s' = None \<Longrightarrow>
     us_idle_exit s' = us_idle_exit s \<Longrightarrow>
     us_outgoing s' = us_outgoing s @ ms \<Longrightarrow> ms \<in> {[], [CancelIdleExit r (us_generation s)]} \<Longrightarrow>
     us_next_id s' = us_next_id s \<Longrightarrow> exit_step ids s s'"

abbreviation exit_steps :: "(nat \<Rightarrow> uuid) \<Rightarrow> ui_session \<Rightarrow> ui_session \<Rightarrow> bool" where
  "exit_steps ids \<equiv> (exit_step ids)\<^sup>*\<^sup>*"

named_theorems exit_intros \<open>operations that only take steps of the exit handshake\<close>

lemma exit_frame [exit_intros]:
  assumes "us_generation s' = us_generation s" "us_exit_request s' = us_exit_request s" "us_idle_exit s' = us_idle_exit s"
    "us_outgoing s' = us_outgoing s" "us_next_id s \<le> us_next_id s'"
  shows "exit_steps ids s s'"
  using assms by (intro r_into_rtranclp exit_other [where ms = "[]"]) simp_all

lemma evaluate_exit_steps: "exit_steps ids s (evaluate_exit ids s)"
proof (cases "us_exit_request s")
  case None
  then show ?thesis
    by (cases "is_idle s"; cases "us_connected s")
      (auto simp: evaluate_exit_def Let_def ui_event_result intro!: r_into_rtranclp exit_requested)
next
  case (Some r)
  then show ?thesis
    by (cases "is_idle s"; cases "us_connected s")
      (auto simp: evaluate_exit_def ui_event_result intro!: r_into_rtranclp exit_cancelled)
qed

lemma evaluate_exit_after: "exit_steps ids s s' \<Longrightarrow> exit_steps ids s (evaluate_exit ids s')"
  by (erule rtranclp_trans) (rule evaluate_exit_steps)

lemma ui_event_steps: "\<not> exit_message m \<Longrightarrow> exit_steps ids s (snd (ui_event m s))"
  by (cases "us_connected s")
    (auto simp: ui_event_result intro!: r_into_rtranclp exit_other [where ms = "[m]"])

lemma submit_request_steps: "exit_steps ids s (submit_request ids op b s)"
proof (cases "us_connected s")
  case True
  show ?thesis unfolding submit_request_def Let_def ui_event_result
    by (simp add: True, rule evaluate_exit_after, rule r_into_rtranclp,
        rule exit_other [where ms = "[Request (ids (us_next_id s)) op]"]) simp_all
next
  case False
  show ?thesis unfolding submit_request_def Let_def ui_event_result
    by (simp add: False, rule evaluate_exit_after, rule exit_frame) simp_all
qed

lemma request_resync_steps: "exit_steps ids s (request_resync ids s)"
proof -
  have "exit_steps ids s (s\<lparr>us_cache := (us_cache s)\<lparr>ch_resync_pending := True\<rparr>\<rparr>)" by (rule exit_frame) simp_all
  then show ?thesis
    unfolding request_resync_def by (auto intro: rtranclp_trans [OF _ submit_request_steps])
qed

lemma release_popup_steps: "exit_steps ids s (release_popup ids g s)"
  by (auto simp: release_popup_def release_if_current_def next_popup_generation_def Let_def
      intro!: exit_frame evaluate_exit_after split: option.splits)

lemma schedule_popup_release_steps: "exit_steps ids s (schedule_popup_release ids g t s)"
  by (auto simp: schedule_popup_release_def release_popup_steps intro!: exit_frame)

lemma popup_timer_steps: "exit_steps ids s (popup_timer ids g s)"
  unfolding popup_timer_def by (rule rtranclp_trans [OF _ release_popup_steps]) (rule exit_frame; simp)

lemma dismiss_popup_steps: "exit_steps ids s (dismiss_popup ids nt s)"
proof -
  let ?h = "next_popup_generation Warm (us_hosts s)"
  let ?s1 = "s\<lparr>us_hosts := ?h, us_display := None\<rparr>"
  let ?s2 = "case us_display s of None \<Rightarrow> ?s1 | Some (d, _) \<Rightarrow> snd (ui_event (LookupDismissed d) ?s1)"
  have "exit_steps ids s ?s1" by (rule exit_frame) simp_all
  then have "exit_steps ids s ?s2"
    by (cases "us_display s") (auto intro: rtranclp_trans [OF _ ui_event_steps])
  then show ?thesis unfolding dismiss_popup_def Let_def
    by (auto intro: rtranclp_trans [OF _ schedule_popup_release_steps] evaluate_exit_after)
qed

lemma set_popup_idle_timeout_steps: "exit_steps ids s (set_popup_idle_timeout_secs ids t s)"
proof -
  have "exit_steps ids s (s\<lparr>us_hosts := h\<rparr>)" for h by (rule exit_frame) simp_all
  then show ?thesis unfolding set_popup_idle_timeout_secs_def Let_def
    by (auto intro: rtranclp_trans [OF _ schedule_popup_release_steps])
qed

lemma destroy_main_steps: "exit_steps ids s (destroy_main ids nt s)"
  by (auto simp: destroy_main_def Let_def intro!: evaluate_exit_after exit_frame)

lemma destroy_permission_steps: "exit_steps ids s (destroy_permission ids nt s)"
  by (auto simp: destroy_permission_def Let_def intro!: evaluate_exit_after exit_frame)

lemma local_operation_steps: "exit_steps ids s (begin_local_operation ids s)" "exit_steps ids s (end_local_operation ids s)"
  by (auto simp: begin_local_operation_def end_local_operation_def intro!: evaluate_exit_after exit_frame)

lemma apply_snapshot_steps: "exit_steps ids s (apply_snapshot ids snapshot s)"
proof -
  have "exit_steps ids s (s1\<lparr>us_cache := c\<rparr>)" if "exit_steps ids s s1" for s1 c
    using that by (rule rtranclp_trans) (rule exit_frame; simp)
  then show ?thesis unfolding apply_snapshot_def Let_def
    by (auto intro: request_resync_steps set_popup_idle_timeout_steps)
qed

lemma apply_patch_steps: "exit_steps ids s (apply_patch ids p s)"
proof -
  have "exit_steps ids s (s\<lparr>us_cache := c\<rparr>)" for c by (rule exit_frame) simp_all
  then show ?thesis unfolding apply_patch_def Let_def
    by (auto intro: request_resync_steps rtranclp_trans [OF _ set_popup_idle_timeout_steps] split: option.splits)
qed

lemma lookup_kept:
  "us_generation (snd (begin_lookup nt d state s)) = us_generation s" "us_exit_request (snd (begin_lookup nt d state s)) = us_exit_request s"
  "us_idle_exit (snd (begin_lookup nt d state s)) = us_idle_exit s" "us_outgoing (snd (begin_lookup nt d state s)) = us_outgoing s"
  "us_next_id (snd (begin_lookup nt d state s)) = us_next_id s" "us_cache (snd (begin_lookup nt d state s)) = us_cache s"
  "us_generation (snd (update_lookup d state s)) = us_generation s" "us_exit_request (snd (update_lookup d state s)) = us_exit_request s"
  "us_idle_exit (snd (update_lookup d state s)) = us_idle_exit s" "us_outgoing (snd (update_lookup d state s)) = us_outgoing s"
  "us_next_id (snd (update_lookup d state s)) = us_next_id s" "us_cache (snd (update_lookup d state s)) = us_cache s"
  by (auto simp: begin_lookup_def update_lookup_def split: sum.splits prod.splits bool.splits)

lemma acknowledged_kept [simp]:
  "us_generation (acknowledged d q r) = us_generation (snd r)" "us_exit_request (acknowledged d q r) = us_exit_request (snd r)"
  "us_idle_exit (acknowledged d q r) = us_idle_exit (snd r)" "us_outgoing (acknowledged d q r) = us_outgoing (snd r)"
  "us_next_id (acknowledged d q r) = us_next_id (snd r)" "us_cache (acknowledged d q r) = us_cache (snd r)"
  by (simp_all add: acknowledged_def split: prod.split)

lemma apply_operation_result_kept [simp]:
  "us_generation (apply_operation_result r s) = us_generation s" "us_exit_request (apply_operation_result r s) = us_exit_request s"
  "us_idle_exit (apply_operation_result r s) = us_idle_exit s" "us_outgoing (apply_operation_result r s) = us_outgoing s"
  "us_next_id (apply_operation_result r s) = us_next_id s" "us_cache (apply_operation_result r s) = us_cache s"
  by (simp_all add: apply_operation_result_def Let_def split: option.split operation_output.split)

lemma apply_message_steps:
  assumes "\<And>r g. m \<noteq> IdleExitApproved r g"
  shows "exit_steps ids s (apply_message ids nt m s)"
  using assms
  by (cases m) (auto simp: lookup_kept apply_snapshot_steps apply_patch_steps dismiss_popup_steps destroy_main_steps
      intro!: exit_frame split: option.splits)

section \<open>The cache\<close>

lemma evaluate_exit_cache [simp]: "us_cache (evaluate_exit ids s) = us_cache s"
  by (simp add: evaluate_exit_def Let_def ui_event_result split: option.split)

lemma submit_request_cache [simp]: "us_cache (submit_request ids op b s) = us_cache s"
  by (simp add: submit_request_def Let_def ui_event_result)

lemma request_resync_cache [simp]: "us_cache (request_resync ids s) = (us_cache s)\<lparr>ch_resync_pending := True\<rparr>"
  by (simp add: request_resync_def)

lemma release_popup_cache [simp]: "us_cache (release_popup ids g s) = us_cache s"
  by (simp add: release_popup_def release_if_current_def Let_def)

lemma timer_cache [simp]:
  "us_cache (schedule_popup_release ids g t s) = us_cache s" "us_cache (popup_timer ids g s) = us_cache s"
  by (simp_all add: schedule_popup_release_def popup_timer_def)

lemma dismiss_popup_cache [simp]: "us_cache (dismiss_popup ids nt s) = us_cache s"
  by (cases "us_display s") (auto simp: dismiss_popup_def Let_def)

lemma set_popup_idle_timeout_cache [simp]: "us_cache (set_popup_idle_timeout_secs ids t s) = us_cache s"
  by (simp add: set_popup_idle_timeout_secs_def Let_def)

lemma destroy_cache [simp]:
  "us_cache (destroy_main ids nt s) = us_cache s" "us_cache (destroy_permission ids nt s) = us_cache s"
  by (simp_all add: destroy_main_def destroy_permission_def Let_def)

lemma exit_approval_cache [simp]: "us_cache (apply_exit_approval r g s) = us_cache s"
  by (simp add: apply_exit_approval_def)

lemma mu_revision_patched [simp]: "mu_revision (apply_main_patch p m) = mp_revision p"
  by (simp add: apply_main_patch_def)

definition cache_message :: "agent_to_ui \<Rightarrow> bool" where
  "cache_message m \<longleftrightarrow> (\<exists>sn. m = Snapshot sn) \<or> (\<exists>p. m = Patch p)"

lemma apply_message_cache: "\<not> cache_message m \<Longrightarrow> us_cache (apply_message ids nt m s) = us_cache s"
  by (cases m) (auto simp: cache_message_def lookup_kept split: option.split)

lemma apply_snapshot_cache:
  "us_cache (apply_snapshot ids sn s) =
     (if sn_revision sn = mu_revision (sn_main sn)
      then (us_cache s)\<lparr>ch_revision := sn_revision sn, ch_main := Some (sn_main sn), ch_resync_pending := False\<rparr>
      else (us_cache s)\<lparr>ch_resync_pending := True\<rparr>)"
  by (simp add: apply_snapshot_def Let_def)

lemma apply_patch_cache:
  "us_cache (apply_patch ids p s) =
     (case ch_main (us_cache s) of
        Some main \<Rightarrow>
          (if mp_base_revision p = ch_revision (us_cache s) \<and> ch_revision (us_cache s) < mp_revision p
           then (us_cache s)\<lparr>ch_main := Some (apply_main_patch p main), ch_revision := mp_revision p\<rparr>
           else (us_cache s)\<lparr>ch_resync_pending := True\<rparr>)
      | None \<Rightarrow> (us_cache s)\<lparr>ch_resync_pending := True\<rparr>)"
  by (cases "ch_main (us_cache s)") (auto simp: apply_patch_def Let_def split: option.split)

lemma ui_apply_cache:
  "us_cache (ui_apply ids nt q m s) =
     (if q \<le> ch_last_sequence (us_cache s) then us_cache s
      else us_cache (apply_message ids nt m (s\<lparr>us_cache := (us_cache s)\<lparr>ch_last_sequence := q\<rparr>\<rparr>)))"
  by (simp add: ui_apply_def)

text \<open>A session applies what the connection delivers, with the outcome of the native calls.\<close>

definition ui_run :: "(nat \<Rightarrow> uuid) \<Rightarrow> (native \<times> u64 \<times> agent_to_ui) list \<Rightarrow> ui_session \<Rightarrow> ui_session" where
  "ui_run ids = fold (\<lambda>(nt, q, m). ui_apply ids nt q m)"

definition delivered_snapshots :: "(native \<times> u64 \<times> agent_to_ui) list \<Rightarrow> ui_snapshot list" where
  "delivered_snapshots ms = concat (map (\<lambda>(_, _, m). case m of Snapshot sn \<Rightarrow> [sn] | _ \<Rightarrow> []) ms)"

definition delivered_patches :: "(native \<times> u64 \<times> agent_to_ui) list \<Rightarrow> main_ui_patch list" where
  "delivered_patches ms = concat (map (\<lambda>(_, _, m). case m of Patch p \<Rightarrow> [p] | _ \<Rightarrow> []) ms)"

text \<open>Entry \<open>k\<close> of the Agent's log is the patch from revision \<open>k\<close> to \<open>k + 1\<close>.\<close>

definition patch_log :: "main_ui_patch list \<Rightarrow> bool" where
  "patch_log log \<longleftrightarrow> (\<forall>k < length log. mp_base_revision (log ! k) = k \<and> mp_revision (log ! k) = k + 1)"

definition log_segment :: "nat \<Rightarrow> nat \<Rightarrow> main_ui_patch list \<Rightarrow> main_ui_patch list" where
  "log_segment a b log = take (b - a) (drop a log)"

lemma log_segment_extend: "a \<le> b \<Longrightarrow> b < length log \<Longrightarrow> log_segment a (b + 1) log = log_segment a b log @ [log ! b]"
  by (simp add: log_segment_def Suc_diff_le take_Suc_conv_app_nth)

definition cache_follows :: "main_ui_patch list \<Rightarrow> ui_snapshot set \<Rightarrow> ui_cache \<Rightarrow> bool" where
  "cache_follows log sns c \<longleftrightarrow>
     (\<forall>main. ch_main c = Some main \<longrightarrow>
        (\<exists>sn \<in> sns. sn_revision sn \<le> ch_revision c \<and> ch_revision c \<le> length log \<and> mu_revision main = ch_revision c
           \<and> main = fold apply_main_patch (log_segment (sn_revision sn) (ch_revision c) log) (sn_main sn)))"

lemma cache_follows_mono: "cache_follows log sns c \<Longrightarrow> sns \<subseteq> sns' \<Longrightarrow> ch_main c' = ch_main c \<Longrightarrow> ch_revision c' = ch_revision c
    \<Longrightarrow> cache_follows log sns' c'"
  unfolding cache_follows_def by auto

lemma cache_follows_snapshot:
  "sn \<in> sns \<Longrightarrow> sn_revision sn = mu_revision (sn_main sn) \<Longrightarrow> sn_revision sn \<le> length log \<Longrightarrow>
     ch_main c = Some (sn_main sn) \<Longrightarrow> ch_revision c = sn_revision sn \<Longrightarrow> cache_follows log sns c"
  unfolding cache_follows_def by (auto simp: log_segment_def intro!: bexI [of _ sn])

lemma cache_follows_patch:
  assumes "patch_log log" "p \<in> set log" "cache_follows log sns c" "ch_main c = Some main"
    "mp_base_revision p = ch_revision c" "ch_main c' = Some (apply_main_patch p main)" "ch_revision c' = mp_revision p"
  shows "cache_follows log sns c'"
proof -
  let ?r = "ch_revision c"
  obtain k where "k < length log" "log ! k = p" using assms(2) by (auto simp: in_set_conv_nth)
  then have p: "?r < length log" "p = log ! ?r" "mp_revision p = ?r + 1"
    using assms(1,5) by (auto simp: patch_log_def)
  obtain sn where sn: "sn \<in> sns" "sn_revision sn \<le> ?r" "main = fold apply_main_patch (log_segment (sn_revision sn) ?r log) (sn_main sn)"
    using assms(3,4) by (auto simp: cache_follows_def)
  have "apply_main_patch p main = fold apply_main_patch (log_segment (sn_revision sn) (ch_revision c') log) (sn_main sn)"
    using sn p log_segment_extend [OF sn(2) p(1)] by (simp add: assms(7))
  moreover have "mu_revision (apply_main_patch p main) = ch_revision c'" by (simp add: assms(7))
  ultimately show ?thesis unfolding cache_follows_def
    using sn(1,2) p(1,3) by (intro allI impI bexI [of _ sn]) (simp_all only: assms(6,7) option.inject, simp_all)
qed

lemma ui_apply_follows:
  assumes "patch_log log" "cache_follows log sns (us_cache s)"
    and "case m of Patch p \<Rightarrow> p \<in> set log | Snapshot sn \<Rightarrow> sn \<in> sns' \<and> sn_revision sn \<le> length log | _ \<Rightarrow> True" "sns \<subseteq> sns'"
  shows "cache_follows log sns' (us_cache (ui_apply ids nt q m s))"
proof (cases "q \<le> ch_last_sequence (us_cache s)")
  case True
  then show ?thesis using assms(2,4) by (auto simp: ui_apply_def intro: cache_follows_mono)
next
  case False
  let ?s = "s\<lparr>us_cache := (us_cache s)\<lparr>ch_last_sequence := q\<rparr>\<rparr>"
  have f: "cache_follows log sns' (us_cache ?s)" using assms(2,4) by (rule cache_follows_mono) simp_all
  have "cache_follows log sns' (us_cache (apply_message ids nt m ?s))"
  proof (cases "cache_message m")
    case False
    then show ?thesis using f by (simp add: apply_message_cache)
  next
    case True
    then consider sn where "m = Snapshot sn" | p where "m = Patch p" by (auto simp: cache_message_def)
    then show ?thesis
    proof cases
      case (1 sn)
      then show ?thesis using assms(3) f
        by (auto simp: apply_snapshot_cache intro: cache_follows_snapshot [of sn] cache_follows_mono [OF f])
    next
      case (2 p)
      then show ?thesis using assms(1,3) f
        by (auto simp: apply_patch_cache split: option.split
            intro: cache_follows_patch [of log p sns' "us_cache ?s"] cache_follows_mono [OF f])
    qed
  qed
  then show ?thesis using False by (simp add: ui_apply_cache)
qed

lemma ui_run_follows:
  assumes "patch_log log" "set (delivered_patches ms) \<subseteq> set log"
    "\<And>sn. sn \<in> set (delivered_snapshots ms) \<Longrightarrow> sn_revision sn \<le> length log"
    "cache_follows log sns (us_cache s)"
  shows "cache_follows log (sns \<union> set (delivered_snapshots ms)) (us_cache (ui_run ids ms s))"
  using assms
proof (induction ms arbitrary: s sns)
  case (Cons e ms)
  obtain nt q m where e: "e = (nt, q, m)" by (cases e)
  let ?new = "case m of Snapshot sn \<Rightarrow> {sn} | _ \<Rightarrow> {}"
  have "cache_follows log (sns \<union> ?new) (us_cache (ui_apply ids nt q m s))"
    using Cons.prems by (intro ui_apply_follows) (auto simp: e delivered_patches_def delivered_snapshots_def split: agent_to_ui.splits)
  moreover have "set (delivered_patches ms) \<subseteq> set log" "\<And>sn. sn \<in> set (delivered_snapshots ms) \<Longrightarrow> sn_revision sn \<le> length log"
    using Cons.prems by (auto simp: delivered_patches_def delivered_snapshots_def)
  ultimately have "cache_follows log (sns \<union> ?new \<union> set (delivered_snapshots ms)) (us_cache (ui_run ids ms (ui_apply ids nt q m s)))"
    using Cons.IH Cons.prems(1) by blast
  moreover have "sns \<union> ?new \<union> set (delivered_snapshots ms) = sns \<union> set (delivered_snapshots (e # ms))"
    by (auto simp: e delivered_snapshots_def split: agent_to_ui.splits)
  ultimately show ?case by (simp add: e ui_run_def)
qed (simp add: ui_run_def delivered_snapshots_def)

end
