(* ===== verification/Ui_Composition.thy ===== *)
theory Ui_Composition
  imports Agent_Process Ui_Session
begin

text \<open>
  The Agent and its GUI processes together: the queues of \<open>Agent_Process\<close> feed the sessions of
  \<open>Ui_Session\<close>, whose messages are handled by \<open>run_requests\<close> of \<open>apps/agent/src/service.rs\<close>. Every
  interleaving of the two sides, of several GUI generations and of the user's actions is a run. The
  theory shows that a GUI that exits because it is idle leaves no command behind.
\<close>

section \<open>The system\<close>

text \<open>What the user and the timers do in a GUI process, \<open>ui_session.rs\<close> and \<open>ui.rs\<close>.\<close>

inductive ui_local :: "(nat \<Rightarrow> uuid) \<Rightarrow> ui_session \<Rightarrow> ui_session \<Rightarrow> bool" for ids where
  local_submit: "has_live_ui (us_hosts s) \<Longrightarrow> ui_local ids s (submit_request ids op blocks s)"
| local_close_main: "ui_local ids s (destroy_main ids nt s)"
| local_close_permission: "ui_local ids s (destroy_permission ids nt s)"
| local_dismiss: "ui_local ids s (dismiss_popup ids nt s)"
| local_timer: "g \<in> set (uh_timers (us_hosts s)) \<Longrightarrow> ui_local ids s (popup_timer ids g s)"
| local_begin: "uh_main (us_hosts s) \<Longrightarrow> ui_local ids s (begin_local_operation ids s)"
| local_end: "ui_local ids s (end_local_operation ids s)"
| local_rendered:
    "us_presentation_ack s = Some (d, q) \<Longrightarrow>
     ui_local ids s (snd (ui_event (LookupPresentationApplied d q) (s\<lparr>us_presentation_ack := None\<rparr>)))"
| local_blocking: "ui_local ids s (snd (ui_event (UiBlockingChanged b) s))"
| local_connection_lost: "ui_local ids s (s\<lparr>us_connected := False, us_quit := True\<rparr>)"

record ui_system =
  sy_agent :: agent_tasks
  sy_uis :: "ui_session list"

abbreviation sy_client :: "ui_system \<Rightarrow> ui_client" where
  "sy_client s \<equiv> at_client (sy_agent s)"

abbreviation sy_queue :: "ui_system \<Rightarrow> nat \<Rightarrow> agent_to_ui list" where
  "sy_queue s i \<equiv> cn_queue (uc_connections (sy_client s) ! i)"

definition set_queue :: "nat \<Rightarrow> agent_to_ui list \<Rightarrow> agent_tasks \<Rightarrow> agent_tasks" where
  "set_queue i q t = t\<lparr>at_client := (at_client t)\<lparr>uc_connections :=
     (uc_connections (at_client t))[i := (uc_connections (at_client t) ! i)\<lparr>cn_queue := q\<rparr>]\<rparr>\<rparr>"

text \<open>
  \<open>run_requests\<close>: an idle-exit message is handled by the process client; a request is executed and
  answered by commands sent with \<open>send_if_ready\<close>. The commands \<open>ms\<close> are those sent before another task
  of the Agent runs; those sent later, among them the result, are steps of the Agent alone.
\<close>

definition answer_all :: "agent_to_ui list \<Rightarrow> ui_client \<Rightarrow> ui_client" where
  "answer_all ms c = fold (\<lambda>m c. snd (send_if_ready m c)) ms c"

inductive run_requests :: "agent_tasks \<Rightarrow> ui_to_agent \<Rightarrow> agent_tasks \<Rightarrow> bool" where
  handle_request:
    "list_all (\<lambda>m. m \<noteq> Shutdown \<and> (\<forall>r g. m \<noteq> IdleExitApproved r g)) ms \<Longrightarrow>
     run_requests t (Request r op) (t\<lparr>at_client := answer_all ms (at_client t)\<rparr>)"
| handle_idle_exit: "agent_step t (Approve r g) t' \<Longrightarrow> run_requests t (RequestIdleExit r g) t'"
| handle_cancel: "agent_step t (CancelExit r g) t' \<Longrightarrow> run_requests t (CancelIdleExit r g) t'"
| handle_other:
    "(\<And>r op. m \<noteq> Request r op) \<Longrightarrow> (\<And>r g. m \<noteq> RequestIdleExit r g) \<Longrightarrow> (\<And>r g. m \<noteq> CancelIdleExit r g) \<Longrightarrow>
     run_requests t m t"

text \<open>
  A connection becomes Ready after the GUI applied the snapshot, message 2; later messages carry the
  following numbers. \<open>ids i\<close> are the identifiers drawn by the GUI of connection \<open>i\<close>.
\<close>

inductive system_step :: "(nat \<Rightarrow> nat \<Rightarrow> uuid) \<Rightarrow> ui_system \<Rightarrow> ui_system \<Rightarrow> bool" for ids where
  agent_alone:
    "agent_step (sy_agent s) Internal t \<Longrightarrow> length (uc_connections (at_client t)) = length (uc_connections (sy_client s)) \<Longrightarrow>
     system_step ids s (s\<lparr>sy_agent := t\<rparr>)"
| ui_connects:
    "agent_step (sy_agent s) Internal t \<Longrightarrow> uc_connections (at_client t) = uc_connections (sy_client s) @ [cn] \<Longrightarrow>
     system_step ids s (s\<lparr>sy_agent := t, sy_uis := sy_uis s @
       [ui_apply (ids (length (sy_uis s))) nt 2 (Snapshot snapshot) (install_session (cn_generation cn))]\<rparr>)"
| ui_receives:
    "i < length (sy_uis s) \<Longrightarrow> \<not> us_quit (sy_uis s ! i) \<Longrightarrow> sy_queue s i = m # q \<Longrightarrow>
     system_step ids s (s\<lparr>sy_agent := set_queue i q (sy_agent s),
       sy_uis := (sy_uis s)[i := ui_apply (ids i) nt (ch_last_sequence (us_cache (sy_uis s ! i)) + 1) m (sy_uis s ! i)]\<rparr>)"
| ui_acts:
    "i < length (sy_uis s) \<Longrightarrow> \<not> us_quit (sy_uis s ! i) \<Longrightarrow> ui_local (ids i) (sy_uis s ! i) u \<Longrightarrow>
     system_step ids s (s\<lparr>sy_uis := (sy_uis s)[i := u]\<rparr>)"
| agent_receives:
    "i < length (sy_uis s) \<Longrightarrow> us_outgoing (sy_uis s ! i) = m # ms \<Longrightarrow> run_requests (sy_agent s) m t \<Longrightarrow>
     system_step ids s (s\<lparr>sy_agent := t, sy_uis := (sy_uis s)[i := (sy_uis s ! i)\<lparr>us_outgoing := ms\<rparr>]\<rparr>)"

definition system_start :: "uuid \<Rightarrow> string \<Rightarrow> ui_system" where
  "system_start session_id authentication = \<lparr>sy_agent = agent_tasks_start session_id authentication, sy_uis = []\<rparr>"

abbreviation system_steps :: "(nat \<Rightarrow> nat \<Rightarrow> uuid) \<Rightarrow> ui_system \<Rightarrow> ui_system \<Rightarrow> bool" where
  "system_steps ids \<equiv> (system_step ids)\<^sup>*\<^sup>*"

section \<open>The exit invariant of one GUI\<close>

text \<open>
  Everything the argument needs to know about connection \<open>i\<close>: its queue, the session, and whether the
  Agent still sends to it. \<open>link sender phase idle\<close> abstracts the process client to the three cases.
\<close>

datatype link = Open | Waiting uuid | Cut

definition link_of :: "ui_client \<Rightarrow> nat \<Rightarrow> link" where
  "link_of c i =
     (if uc_sender c \<noteq> Some i then Cut
      else case uc_phase c of
        PhaseReady _ \<Rightarrow> Open
      | _ \<Rightarrow> (case uc_idle_exit_request c of Some r \<Rightarrow> Waiting r | None \<Rightarrow> Cut))"

definition approvals :: "agent_to_ui list \<Rightarrow> uuid set" where
  "approvals q = {r. \<exists>g. IdleExitApproved r g \<in> set q}"

definition requested :: "ui_to_agent list \<Rightarrow> uuid list" where
  "requested ms = concat (map (\<lambda>m. case m of RequestIdleExit r _ \<Rightarrow> [r] | _ \<Rightarrow> []) ms)"

definition cancelled :: "ui_to_agent list \<Rightarrow> uuid list" where
  "cancelled ms = concat (map (\<lambda>m. case m of CancelIdleExit r _ \<Rightarrow> [r] | _ \<Rightarrow> []) ms)"

text \<open>The approval of the current request is the last thing the Agent sent, except for a shutdown.\<close>

definition approved_last :: "uuid \<Rightarrow> link \<Rightarrow> agent_to_ui list \<Rightarrow> bool" where
  "approved_last r l q \<longleftrightarrow> (\<exists>pre g rest. q = pre @ IdleExitApproved r g # rest \<and> r \<notin> approvals pre
     \<and> (rest = [] \<or> rest = [Shutdown] \<and> l = Cut))"

definition exit_inv :: "(nat \<Rightarrow> uuid) \<Rightarrow> link \<Rightarrow> agent_to_ui list \<Rightarrow> ui_session \<Rightarrow> bool" where
  "exit_inv ids l q u \<longleftrightarrow>
     approvals q \<union> set (requested (us_outgoing u)) \<union> set (cancelled (us_outgoing u)) \<union> set_option (us_exit_request u)
       \<subseteq> ids ` {n. n < us_next_id u}
   \<and> distinct (requested (us_outgoing u)) \<and> set (requested (us_outgoing u)) \<inter> approvals q = {}
   \<and> (\<forall>r. us_exit_request u = Some r \<longrightarrow> r \<notin> set (cancelled (us_outgoing u)))
   \<and> (\<forall>r. us_exit_request u = Some r \<longrightarrow> r \<in> approvals q \<longrightarrow>
        l \<in> {Waiting r, Cut} \<and> approved_last r l q)
   \<and> (us_idle_exit u \<longrightarrow> (\<exists>r. us_exit_request u = Some r \<and> l \<in> {Waiting r, Cut}) \<and> (q = [] \<or> q = [Shutdown] \<and> l = Cut))"

definition plain :: "agent_to_ui \<Rightarrow> bool" where
  "plain m \<longleftrightarrow> m \<noteq> Shutdown \<and> (\<forall>r g. m \<noteq> IdleExitApproved r g)"

lemma approvals_simps [simp]:
  "approvals [] = {}" "approvals (a @ b) = approvals a \<union> approvals b" "approvals (IdleExitApproved r g # q) = insert r (approvals q)"
  "approvals (Shutdown # q) = approvals q"
  by (auto simp: approvals_def)

lemma approvals_plain [simp]: "plain m \<Longrightarrow> approvals (m # q) = approvals q"
  by (auto simp: approvals_def plain_def)

lemma approvals_tail: "approvals q \<subseteq> approvals (m # q)"
  by (auto simp: approvals_def)

lemma outgoing_simps [simp]:
  "requested [] = []" "cancelled [] = []" "requested (a @ b) = requested a @ requested b" "cancelled (a @ b) = cancelled a @ cancelled b"
  "requested (RequestIdleExit r g # ms) = r # requested ms" "cancelled (RequestIdleExit r g # ms) = cancelled ms"
  "requested (CancelIdleExit r g # ms) = requested ms" "cancelled (CancelIdleExit r g # ms) = r # cancelled ms"
  by (simp_all add: requested_def cancelled_def)

lemma outgoing_other [simp]: "\<not> exit_message m \<Longrightarrow> requested (m # ms) = requested ms" "\<not> exit_message m \<Longrightarrow> cancelled (m # ms) = cancelled ms"
  by (cases m; simp add: requested_def cancelled_def)+

lemma outgoing_none: "list_all (\<lambda>m. \<not> exit_message m) ms \<Longrightarrow> requested ms = [] \<and> cancelled ms = []"
  by (induction ms) auto

subsection \<open>Steps of the GUI\<close>

lemma exit_inv_cong:
  assumes inv: "exit_inv ids l q u" and e: "us_exit_request u' = us_exit_request u" "us_idle_exit u' = us_idle_exit u"
    "requested (us_outgoing u') = requested (us_outgoing u)" "cancelled (us_outgoing u') = cancelled (us_outgoing u)"
    and n: "us_next_id u \<le> us_next_id u'"
  shows "exit_inv ids l q u'"
proof -
  have "ids ` {n. n < us_next_id u} \<subseteq> ids ` {n. n < us_next_id u'}" using n by auto
  from subset_trans [OF conjunct1 [OF inv [unfolded exit_inv_def]] this] conjunct2 [OF inv [unfolded exit_inv_def]]
  show ?thesis unfolding exit_inv_def e by (rule conjI)
qed

lemma exit_step_inv:
  assumes step: "exit_step ids u u'" and inv: "exit_inv ids l q u" and idle: "\<not> us_idle_exit u" and inj: "inj ids"
  shows "exit_inv ids l q u'"
  using step
proof cases
  case (exit_other ms)
  show ?thesis using inv
    by (rule exit_inv_cong) (use exit_other outgoing_none [OF exit_other(5)] in simp_all)
next
  case (exit_requested ms)
  let ?r = "ids (us_next_id u)"
  have new: "?r \<notin> ids ` {n. n < us_next_id u}" using inj by (auto dest: injD)
  have more: "ids ` {n. n < us_next_id u} \<subseteq> ids ` {n. n < us_next_id u'}" "?r \<in> ids ` {n. n < us_next_id u'}"
    using exit_requested(7) by auto
  have fresh: "?r \<notin> approvals q" "?r \<notin> set (requested (us_outgoing u))" "?r \<notin> set (cancelled (us_outgoing u))"
    using inv new by (auto simp: exit_inv_def)
  show ?thesis using inv idle exit_requested(3-6) fresh more by (auto simp: exit_inv_def)
next
  case (exit_cancelled r ms)
  then show ?thesis using inv idle by (auto simp: exit_inv_def)
qed

lemma exit_step_idle: "exit_step ids u u' \<Longrightarrow> us_idle_exit u' = us_idle_exit u"
  by (auto elim: exit_step.cases)

lemma exit_steps_inv:
  assumes "exit_steps ids u u'" "exit_inv ids l q u" "\<not> us_idle_exit u" "inj ids"
  shows "exit_inv ids l q u' \<and> \<not> us_idle_exit u'"
  using assms by (induction rule: rtranclp_induct) (auto dest: exit_step_inv exit_step_idle)

fun of_generation :: "u64 \<Rightarrow> ui_to_agent \<Rightarrow> bool" where
  "of_generation g (RequestIdleExit _ g') \<longleftrightarrow> g' = g"
| "of_generation g (CancelIdleExit _ g') \<longleftrightarrow> g' = g"
| "of_generation g _ \<longleftrightarrow> True"

definition gens_ok :: "ui_session \<Rightarrow> bool" where
  "gens_ok u \<longleftrightarrow> list_all (of_generation (us_generation u)) (us_outgoing u)"

lemma of_generation_other: "\<not> exit_message m \<Longrightarrow> of_generation g m"
  by (cases m) auto

lemma exit_step_gens:
  assumes "exit_step ids u u'" "gens_ok u"
  shows "gens_ok u' \<and> us_generation u' = us_generation u"
  using assms(1)
proof cases
  case (exit_other ms)
  then show ?thesis using assms(2) by (auto simp: gens_ok_def list_all_iff of_generation_other)
qed (use assms(2) in \<open>auto simp: gens_ok_def\<close>)

lemma exit_steps_gens: "exit_steps ids u u' \<Longrightarrow> gens_ok u \<Longrightarrow> gens_ok u' \<and> us_generation u' = us_generation u"
  by (induction rule: rtranclp_induct) (auto dest: exit_step_gens)

lemma ui_local_steps: "ui_local ids u u' \<Longrightarrow> exit_steps ids u u'"
proof (induction rule: ui_local.induct)
  case (local_rendered s d q)
  have "exit_steps ids s (s\<lparr>us_presentation_ack := None\<rparr>)" by (rule exit_frame) simp_all
  then show ?case by (rule rtranclp_trans) (rule ui_event_steps, simp)
next
  case (local_connection_lost s)
  show ?case by (rule exit_frame) simp_all
qed (simp_all add: submit_request_steps destroy_main_steps destroy_permission_steps dismiss_popup_steps popup_timer_steps
      local_operation_steps ui_event_steps)

lemma approved_last_Cons: "approved_last r l (m # q) \<Longrightarrow> r \<in> approvals q \<Longrightarrow> approved_last r l q"
  unfolding approved_last_def
proof (elim exE conjE)
  fix pre g rest assume a: "r \<in> approvals q" and d: "m # q = pre @ IdleExitApproved r g # rest" "r \<notin> approvals pre"
    "rest = [] \<or> rest = [Shutdown] \<and> l = Cut"
  have "pre \<noteq> []" using d a by auto
  then obtain pre' where "pre = m # pre'" using d(1) by (cases pre) auto
  then show "\<exists>pre g rest. q = pre @ IdleExitApproved r g # rest \<and> r \<notin> approvals pre \<and> (rest = [] \<or> rest = [Shutdown] \<and> l = Cut)"
    using d approvals_tail [of pre' m] by auto
qed

lemma approved_last_head: "approved_last r l (IdleExitApproved r g # q) \<Longrightarrow> q = [] \<or> q = [Shutdown] \<and> l = Cut"
  unfolding approved_last_def by (elim exE conjE) (case_tac pre, auto)

lemma exit_inv_pop:
  assumes "exit_inv ids l (m # q) u" "\<not> us_idle_exit u"
  shows "exit_inv ids l q u
     \<and> (\<forall>r g. m = IdleExitApproved r g \<longrightarrow> us_exit_request u = Some r \<longrightarrow>
          l \<in> {Waiting r, Cut} \<and> (q = [] \<or> q = [Shutdown] \<and> l = Cut))"
proof -
  have last: "l \<in> {Waiting r, Cut} \<and> approved_last r l (m # q)"
    if "us_exit_request u = Some r" "r \<in> approvals (m # q)" for r
    using assms(1) that by (auto simp: exit_inv_def)
  have keep: "l \<in> {Waiting r, Cut} \<and> approved_last r l q" if "us_exit_request u = Some r" "r \<in> approvals q" for r
    using last [OF that(1)] that(2) approvals_tail [of q m] approved_last_Cons by blast
  have now: "l \<in> {Waiting r, Cut} \<and> (q = [] \<or> q = [Shutdown] \<and> l = Cut)"
    if "m = IdleExitApproved r g" "us_exit_request u = Some r" for r g
    using last [OF that(2)] that(1) approved_last_head by auto
  have "exit_inv ids l q u" using assms keep approvals_tail [of q m] by (auto simp: exit_inv_def)
  then show ?thesis using now by blast
qed

lemma ui_receive_inv:
  assumes inv: "exit_inv ids l (m # q) u" and "\<not> us_idle_exit u" "inj ids"
  shows "exit_inv ids l q (ui_apply ids nt n m u)"
proof -
  let ?u = "u\<lparr>us_cache := (us_cache u)\<lparr>ch_last_sequence := n\<rparr>\<rparr>"
  note pop = exit_inv_pop [OF assms(1,2)]
  have u: "exit_inv ids l q ?u" "\<not> us_idle_exit ?u" using pop assms(2) by (simp_all add: exit_inv_def)
  show ?thesis
  proof (cases "n \<le> ch_last_sequence (us_cache u)")
    case True
    then show ?thesis using pop by (simp add: ui_apply_def)
  next
    case False
    then have a: "ui_apply ids nt n m u = evaluate_exit ids (apply_message ids nt m ?u)" by (simp add: ui_apply_def)
    show ?thesis
    proof (cases "\<exists>r g. m = IdleExitApproved r g \<and> us_exit_request u = Some r \<and> g = us_generation u \<and> is_idle ?u")
      case True
      then obtain r g where m: "m = IdleExitApproved r g" "us_exit_request u = Some r" "g = us_generation u" "is_idle ?u" by blast
      let ?v = "apply_message ids nt m ?u"
      have v: "us_exit_request ?v = Some r" "is_idle ?v" using m by (simp_all add: apply_exit_approval_def ui_event_result is_idle_def)
      then have "ui_apply ids nt n m u = ?v" by (simp add: a evaluate_exit_def)
      moreover have "exit_inv ids l q ?v" using u(1) m pop
        by (auto simp: exit_inv_def apply_exit_approval_def ui_event_result)
      ultimately show ?thesis by simp
    next
      case False
      have "exit_steps ids ?u (apply_message ids nt m ?u)"
      proof (cases "\<exists>r g. m = IdleExitApproved r g")
        case True
        then obtain r g where m: "m = IdleExitApproved r g" by blast
        show ?thesis
        proof (cases "g = us_generation u \<and> us_exit_request u = Some r")
          case True
          then show ?thesis using False m
            by (cases "us_connected u") (auto simp: apply_exit_approval_def ui_event_result intro!: r_into_rtranclp exit_cancelled)
        qed (auto simp: m apply_exit_approval_def)
      qed (simp add: apply_message_steps)
      then show ?thesis using exit_steps_inv [OF evaluate_exit_after u(1) u(2) assms(3)] by (simp add: a)
    qed
  qed
qed

lemma ui_receive_gens: "gens_ok u \<Longrightarrow> gens_ok (ui_apply ids nt n m u) \<and> us_generation (ui_apply ids nt n m u) = us_generation u"
proof (cases "\<exists>r g. m = IdleExitApproved r g")
  case True
  let ?u = "u\<lparr>us_cache := (us_cache u)\<lparr>ch_last_sequence := n\<rparr>\<rparr>"
  assume "gens_ok u"
  then have "gens_ok (apply_message ids nt m ?u) \<and> us_generation (apply_message ids nt m ?u) = us_generation u"
    using True by (auto simp: apply_exit_approval_def ui_event_result gens_ok_def)
  then show ?thesis using exit_steps_gens [OF evaluate_exit_steps] \<open>gens_ok u\<close> by (auto simp: ui_apply_def)
next
  case False
  let ?u = "u\<lparr>us_cache := (us_cache u)\<lparr>ch_last_sequence := n\<rparr>\<rparr>"
  assume "gens_ok u"
  then have "gens_ok ?u" "us_generation ?u = us_generation u" by (simp_all add: gens_ok_def)
  moreover have "exit_steps ids ?u (evaluate_exit ids (apply_message ids nt m ?u))"
    using False by (intro evaluate_exit_after apply_message_steps) auto
  ultimately show ?thesis using exit_steps_gens \<open>gens_ok u\<close> by (fastforce simp: ui_apply_def)
qed

subsection \<open>Steps of the Agent\<close>

text \<open>What a step of the Agent does to one connection: to its link and to its queue.\<close>

definition link_moves :: "link \<Rightarrow> agent_to_ui list \<Rightarrow> link \<Rightarrow> agent_to_ui list \<Rightarrow> bool" where
  "link_moves l q l' q' \<longleftrightarrow>
     l' = l \<and> q' = q \<or> l' = Cut \<and> q' = q \<or> l \<noteq> Cut \<and> l' = Cut \<and> q' = q @ [Shutdown]
   \<or> l = Open \<and> l' = Open \<and> (\<exists>m. plain m \<and> q' = q @ [m])"

lemma approved_last_cut: "approved_last r l q \<Longrightarrow> approved_last r Cut q"
  unfolding approved_last_def by blast

lemma approved_last_shutdown: "approved_last r l q \<Longrightarrow> l \<noteq> Cut \<Longrightarrow> approved_last r Cut (q @ [Shutdown])"
  unfolding approved_last_def
proof (elim exE conjE)
  fix pre g rest assume "q = pre @ IdleExitApproved r g # rest" "r \<notin> approvals pre" "rest = [] \<or> rest = [Shutdown] \<and> l = Cut" "l \<noteq> Cut"
  then show "\<exists>pre g rest. q @ [Shutdown] = pre @ IdleExitApproved r g # rest \<and> r \<notin> approvals pre \<and> (rest = [] \<or> rest = [Shutdown] \<and> Cut = Cut)"
    by (intro exI [of _ pre] exI [of _ g] exI [of _ "[Shutdown]"]) auto
qed

lemma link_moves_inv:
  assumes "link_moves l q l' q'" "exit_inv ids l q u"
  shows "exit_inv ids l' q' u"
proof -
  consider (same) "l' = l" "q' = q" | (cut) "l' = Cut" "q' = q" | (shut) "l \<noteq> Cut" "l' = Cut" "q' = q @ [Shutdown]"
    | (plain) m where "l = Open" "l' = Open" "plain m" "q' = q @ [m]"
    using assms(1) by (auto simp: link_moves_def)
  then show ?thesis
  proof cases
    case cut
    then show ?thesis using assms(2) by (auto simp: exit_inv_def approved_last_cut)
  next
    case shut
    then show ?thesis using assms(2) by (auto simp: exit_inv_def approved_last_shutdown)
  next
    case (plain m)
    then show ?thesis using assms(2) by (auto simp: exit_inv_def)
  qed (use assms(2) in simp)
qed

text \<open>A sender is held only while the process is Ready or its exit was approved.\<close>

definition sender_ok :: "ui_client \<Rightarrow> bool" where
  "sender_ok c \<longleftrightarrow> uc_sender c = None \<or> uc_idle_exit_request c \<noteq> None \<or> (\<exists>g. uc_phase c = PhaseReady g)"

abbreviation queue_of :: "ui_client \<Rightarrow> nat \<Rightarrow> agent_to_ui list" where
  "queue_of c i \<equiv> cn_queue (uc_connections c ! i)"

lemma enqueue_queue: "i < length (uc_connections c) \<Longrightarrow> queue_of (enqueue j m c) i = (if i = j then queue_of c i @ [m] else queue_of c i)"
  by (auto simp: enqueue_def nth_list_update)

lemma link_of_state: "uc_state c' = uc_state c \<Longrightarrow> link_of c' i = link_of c i"
  unfolding link_of_def by (simp only:)

lemma sender_ok_state: "uc_state c' = uc_state c \<Longrightarrow> sender_ok c' = sender_ok c"
  by (simp add: sender_ok_def)

lemma link_of_kill_sender: "link_of (c\<lparr>uc_state := (uc_state c)\<lparr>ps_kill_sender := k\<rparr>\<rparr>) i = link_of c i"
  by (cases "uc_phase c") (simp_all add: link_of_def)

lemma link_of_cut: "uc_sender c = None \<Longrightarrow> link_of c i = Cut"
  by (simp add: link_of_def)

lemma deliver_moves:
  assumes "uc_phase c = PhaseReady g" "uc_sender c = Some j" "plain m" "i < length (uc_connections c)"
  shows "link_moves (link_of c i) (queue_of c i) (link_of (enqueue j m c) i) (queue_of (enqueue j m c) i)"
  using assms by (cases "i = j") (auto simp: link_moves_def enqueue_queue link_of_def)

lemma send_if_ready_moves:
  assumes "send_if_ready m c = (ok, c')" "plain m" "i < length (uc_connections c)"
  shows "link_moves (link_of c i) (queue_of c i) (link_of c' i) (queue_of c' i)"
  using send_if_ready_result [OF assms(1)] deliver_moves [OF _ _ assms(2,3)] by (auto simp: link_moves_def)

lemma send_attempt_moves:
  assumes "send_attempt m c = (outcome, c')" "plain m" "i < length (uc_connections c)"
  shows "link_moves (link_of c i) (queue_of c i) (link_of c' i) (queue_of c' i)"
  using send_attempt_result [OF assms(1)] deliver_moves [OF _ _ assms(2,3)] by (auto simp: link_moves_def)

lemma cut_moves: "uc_sender c' = None \<Longrightarrow> queue_of c' i = queue_of c i \<Longrightarrow>
    link_moves (link_of c i) (queue_of c i) (link_of c' i) (queue_of c' i)"
  by (simp add: link_moves_def link_of_cut)

lemma shutdown_queue:
  assumes "i < length (uc_connections c)"
  shows "queue_of (shutdown c) i = queue_of c i \<or> uc_sender c = Some i \<and> queue_of (shutdown c) i = queue_of c i @ [Shutdown]"
  using assms
  by (cases "uc_sender c"; cases "ps_kill_sender (uc_state c)")
    (auto simp: shutdown_def kill_def Let_def channel_send_def enqueue_def nth_list_update)

lemma shutdown_moves:
  assumes "sender_ok c" "i < length (uc_connections c)" "client_inv c"
  shows "link_moves (link_of c i) (queue_of c i) (link_of (shutdown c) i) (queue_of (shutdown c) i)"
proof -
  have "link_of (shutdown c) i = Cut" by (simp add: link_of_cut shutdown_control)
  moreover have "link_of c i \<noteq> Cut" if "uc_sender c = Some i"
    using that assms(1,3) by (auto simp: sender_ok_def link_of_def client_inv_def control_inv_def split: ui_process_phase.split)
  ultimately show ?thesis using shutdown_queue [OF assms(2)] by (auto simp: link_moves_def)
qed

definition tasks_inv :: "agent_tasks \<Rightarrow> bool" where
  "tasks_inv t \<longleftrightarrow> client_inv (at_client t) \<and> sender_ok (at_client t) \<and> list_all plain (at_sending t)"

lemma plainI: "m \<noteq> Shutdown \<Longrightarrow> (\<And>r g. m \<noteq> IdleExitApproved r g) \<Longrightarrow> plain m"
  by (simp add: plain_def)

lemma internal_effect:
  assumes step: "agent_step t Internal t'" and inv: "tasks_inv t"
  shows "tasks_inv t' \<and> (\<forall>i < length (uc_connections (at_client t)).
     link_moves (link_of (at_client t) i) (queue_of (at_client t) i) (link_of (at_client t') i) (queue_of (at_client t') i))"
proof -
  let ?c = "at_client t" and ?c' = "at_client t'"
  have c': "client_inv ?c'" using agent_step_inv [OF step] inv by (simp add: tasks_inv_def)
  have state: ?thesis if "uc_state ?c' = uc_state ?c" "\<And>i. queue_of ?c' i = queue_of ?c i" "list_all plain (at_sending t')"
    using inv c' that(2,3) by (simp add: tasks_inv_def sender_ok_state [OF that(1)] link_of_state [OF that(1)] link_moves_def)
  have cut: ?thesis if "uc_sender ?c' = None" "\<And>i. i < length (uc_connections ?c) \<Longrightarrow> queue_of ?c' i = queue_of ?c i" "list_all plain (at_sending t')"
    using c' that by (simp add: tasks_inv_def sender_ok_def link_moves_def link_of_cut)
  have p: "list_all plain (at_sending t)" "sender_ok ?c" "client_inv ?c" using inv by (simp_all add: tasks_inv_def)
  have stopped: ?thesis if "?c' = mark_stopped g ?c" "at_sending t' = at_sending t" for g
  proof (cases "phase_generation (uc_phase ?c) = Some g")
    case True
    then show ?thesis using that p(1) by (intro cut) (simp_all add: mark_stopped_def default_process_state_def)
  next
    case False
    then show ?thesis using that p(1) by (intro state) (simp_all add: mark_stopped_def)
  qed
  have lost: ?thesis if "?c' = mark_disconnected go ?c" "at_sending t' = at_sending t" for go
    using mark_disconnected_result [of go ?c]
  proof
    assume "mark_disconnected go ?c = ?c"
    then show ?thesis using that p(1) by (intro state) simp_all
  next
    assume "\<exists>g. phase_generation (uc_phase ?c) = Some g \<and> uc_phase (mark_disconnected go ?c) = PhaseStopping g
        \<and> uc_sender (mark_disconnected go ?c) = None \<and> uc_idle_exit_request (mark_disconnected go ?c) = None
        \<and> uc_next_generation (mark_disconnected go ?c) = uc_next_generation ?c
        \<and> uc_connections (mark_disconnected go ?c) = uc_connections ?c
        \<and> uc_shutting_down (mark_disconnected go ?c) = uc_shutting_down ?c"
    then show ?thesis using that p(1) by (intro cut) auto
  qed
  from step show ?thesis
  proof cases
    case (step_send_begin command)
    then show ?thesis using p(1) by (intro state) (simp_all add: plainI)
  next
    case (step_claim g c)
    then have "uc_phase ?c = PhaseStopped" by (cases "uc_phase ?c") (auto simp: ensure_ready_def Let_def)
    then have "uc_sender ?c = None" using p(3) by (cases "uc_sender ?c") (auto simp: client_inv_def control_inv_def)
    moreover have "c = ?c\<lparr>uc_next_generation := (uc_next_generation ?c + 1) mod 18446744073709551616,
        uc_state := (uc_state ?c)\<lparr>ps_phase := PhaseStarting (uc_next_generation ?c)\<rparr>\<rparr>"
      using step_claim(3) \<open>uc_phase ?c = PhaseStopped\<close> by (auto simp: ensure_ready_def Let_def)
    ultimately show ?thesis using step_claim(1) p(1) by (intro cut) simp_all
  next
    case (step_spawn g spawned r c)
    then consider "c = mark_stopped g ?c" | "c = ?c\<lparr>uc_state := (uc_state ?c)\<lparr>ps_kill_sender := Some g\<rparr>\<rparr>"
      by (auto simp: spawn_ui_def split: if_splits)
    then show ?thesis
    proof cases
      case 1
      then show ?thesis using step_spawn(1) stopped by simp
    next
      case 2
      then show ?thesis using step_spawn(1) p c' by (simp add: tasks_inv_def sender_ok_def link_of_kill_sender link_moves_def)
    qed
  next
    case (step_child_exit g)
    then show ?thesis using stopped by simp
  next
    case (step_hello e greeting)
    then show ?thesis using p(1) by (intro state) simp_all
  next
    case (step_connected pid g c)
    then have "uc_phase ?c = PhaseStarting g" by (simp add: connection_ready_def split: if_splits)
    then have none: "uc_sender ?c = None" using p(3) by (cases "uc_sender ?c") (auto simp: client_inv_def control_inv_def)
    have c: "uc_connections c = uc_connections ?c @ [\<lparr>cn_generation = g, cn_queue = [], cn_open = True\<rparr>]"
      "uc_sender c = Some (length (uc_connections ?c))" "uc_phase c = PhaseReady g"
      using step_connected by (auto simp: connection_ready_def split: if_splits)
    have "link_moves (link_of ?c i) (queue_of ?c i) (link_of c i) (queue_of c i)" if "i < length (uc_connections ?c)" for i
      using that none c by (simp add: link_moves_def link_of_def nth_append)
    then show ?thesis using step_connected(1) c' p(1) c by (simp add: tasks_inv_def sender_ok_def)
  next
    case (step_send_attempt command outcome c)
    have "list_all plain (at_sending t')" "plain command" using step_send_attempt p(1) by (auto simp: list_all_iff dest: notin_set_remove1)
    moreover have "uc_state ?c' = uc_state ?c" using step_send_attempt by (auto dest!: send_attempt_result)
    then have "sender_ok ?c'" using p(2) sender_ok_state by blast
    ultimately show ?thesis using step_send_attempt c' by (auto simp: tasks_inv_def intro: send_attempt_moves)
  next
    case (step_send_if_ready command ok c)
    have "uc_state ?c' = uc_state ?c" using step_send_if_ready by (auto dest!: send_if_ready_result)
    then have "sender_ok ?c'" using p(2) sender_ok_state by blast
    then show ?thesis using step_send_if_ready c' p(1) by (auto simp: tasks_inv_def plainI intro!: send_if_ready_moves)
  next
    case (step_close i)
    have "queue_of (connection_close i ?c) j = queue_of ?c j" for j
      by (cases "i < length (uc_connections ?c)") (simp_all add: connection_close_def nth_list_update_eq nth_list_update list_update_beyond)
    then show ?thesis using step_close p(1) by (intro state) (simp_all add: connection_close_def)
  next
    case (step_ended g)
    then show ?thesis using lost by simp
  next
    case step_lost
    then show ?thesis using lost by simp
  next
    case step_shutdown
    then show ?thesis using p c' by (auto simp: tasks_inv_def sender_ok_def shutdown_control shutdown_moves)
  next
    case step_shutdown_timeout
    then show ?thesis using p(1) by (intro state) (auto simp: shutdown_timeout_def kill_def split: option.split)
  qed
qed

section \<open>The system invariant\<close>

lemma set_queue_client [simp]:
  "uc_state (at_client (set_queue i q t)) = uc_state (at_client t)"
  "length (uc_connections (at_client (set_queue i q t))) = length (uc_connections (at_client t))"
  "i < length (uc_connections (at_client t)) \<Longrightarrow> j < length (uc_connections (at_client t)) \<Longrightarrow>
     queue_of (at_client (set_queue i q t)) j = (if j = i then q else queue_of (at_client t) j)"
  "cn_generation (uc_connections (at_client (set_queue i q t)) ! j) = cn_generation (uc_connections (at_client t) ! j)"
  "at_sending (set_queue i q t) = at_sending t"
  by (simp_all add: set_queue_def nth_list_update,
      cases "i < length (uc_connections (at_client t))", simp_all add: nth_list_update list_update_beyond)

lemma set_queue_inv: "tasks_inv (set_queue i q t) = tasks_inv t"
  by (simp add: tasks_inv_def set_queue_def client_inv_def sender_ok_def)

lemma link_of_set_queue [simp]: "link_of (at_client (set_queue i q t)) j = link_of (at_client t) j"
  by (rule link_of_state) simp

text \<open>Answers to a request: the commands are sent one by one to a GUI that is Ready.\<close>

lemma answer_all_effect:
  assumes "client_inv c" "sender_ok c" "list_all plain ms"
  shows "client_inv (answer_all ms c) \<and> sender_ok (answer_all ms c)
     \<and> map cn_generation (uc_connections (answer_all ms c)) = map cn_generation (uc_connections c)
     \<and> (\<forall>i < length (uc_connections c). \<forall>ids u. exit_inv ids (link_of c i) (queue_of c i) u
          \<longrightarrow> exit_inv ids (link_of (answer_all ms c) i) (queue_of (answer_all ms c) i) u)"
  using assms
proof (induction ms arbitrary: c)
  case (Cons m ms)
  obtain ok d where d: "send_if_ready m c = (ok, d)" by (cases "send_if_ready m c")
  have e: "uc_state d = uc_state c" "client_inv d" "map cn_generation (uc_connections d) = map cn_generation (uc_connections c)"
    using send_if_ready_result [OF d] Cons.prems(1) by auto
  have l: "length (uc_connections d) = length (uc_connections c)" using e(3) by (metis length_map)
  have "sender_ok d" using e(1) Cons.prems(2) sender_ok_state by blast
  note rest = Cons.IH [OF e(2) this, unfolded l e(3)]
  have step: "exit_inv ids (link_of d i) (queue_of d i) u"
    if "i < length (uc_connections c)" "exit_inv ids (link_of c i) (queue_of c i) u" for i ids u
    using link_moves_inv [OF send_if_ready_moves [OF d _ that(1)] that(2)] Cons.prems(3) by simp
  have "answer_all (m # ms) c = answer_all ms d" by (simp add: answer_all_def d)
  then show ?case using rest step Cons.prems(3) by simp
qed (simp add: answer_all_def)

lemma exit_inv_outgoing:
  assumes "exit_inv ids l q u" "us_outgoing u = m # ms"
  shows "exit_inv ids l q (u\<lparr>us_outgoing := ms\<rparr>)"
proof (cases "exit_message m")
  case True
  then show ?thesis using assms by (cases m) (auto simp: exit_inv_def)
next
  case False
  show ?thesis by (rule exit_inv_cong [OF assms(1)]) (use assms(2) False in simp_all)
qed

lemma gens_ok_outgoing: "gens_ok u \<Longrightarrow> us_outgoing u = m # ms \<Longrightarrow> gens_ok (u\<lparr>us_outgoing := ms\<rparr>) \<and> of_generation (us_generation u) m"
  by (simp add: gens_ok_def)

lemma exit_inv_approved:
  assumes "exit_inv ids Open q u" "us_outgoing u = RequestIdleExit r g # ms"
  shows "exit_inv ids (Waiting r) (q @ [IdleExitApproved r g]) (u\<lparr>us_outgoing := ms\<rparr>)"
proof -
  have "approved_last r (Waiting r) (q @ [IdleExitApproved r g])" if "r \<notin> approvals q"
    unfolding approved_last_def using that by (intro exI [of _ q] exI [of _ g] exI [of _ "[]"]) simp
  then show ?thesis using assms by (auto simp: exit_inv_def)
qed

lemma exit_inv_resumed:
  assumes "exit_inv ids (Waiting r) q u" "us_outgoing u = CancelIdleExit r g # ms"
  shows "exit_inv ids Open q (u\<lparr>us_outgoing := ms\<rparr>)"
proof -
  have c: "r \<in> set (cancelled (us_outgoing u))" "set (cancelled ms) \<subseteq> set (cancelled (us_outgoing u))"
    "requested ms = requested (us_outgoing u)" using assms(2) by auto
  have other: "us_exit_request u \<noteq> Some r" using assms(1) c(1) unfolding exit_inv_def by blast
  have "\<not> us_idle_exit u" using assms(1) other unfolding exit_inv_def by auto
  moreover have "r' \<notin> approvals q" if "us_exit_request u = Some r'" for r'
    using assms(1) other that unfolding exit_inv_def by auto
  moreover have "approvals q \<union> set (requested (us_outgoing u)) \<union> set (cancelled (us_outgoing u)) \<union> set_option (us_exit_request u)
       \<subseteq> ids ` {n. n < us_next_id u}" "distinct (requested (us_outgoing u))" "set (requested (us_outgoing u)) \<inter> approvals q = {}"
    "\<And>r. us_exit_request u = Some r \<Longrightarrow> r \<notin> set (cancelled (us_outgoing u))"
    using assms(1) unfolding exit_inv_def by blast+
  ultimately show ?thesis using c(2,3) unfolding exit_inv_def by auto
qed

lemma generation_unique:
  "client_inv c \<Longrightarrow> i < length (uc_connections c) \<Longrightarrow> j < length (uc_connections c) \<Longrightarrow>
     cn_generation (uc_connections c ! i) = cn_generation (uc_connections c ! j) \<Longrightarrow> i = j"
proof -
  assume "client_inv c" and ij: "i < length (uc_connections c)" "j < length (uc_connections c)"
    "cn_generation (uc_connections c ! i) = cn_generation (uc_connections c ! j)"
  then have "sorted_wrt (<) (map cn_generation (uc_connections c))" by (simp add: client_inv_def control_inv_def)
  then have "distinct (map cn_generation (uc_connections c))" by (rule strict_sorted_iff [THEN iffD1, THEN conjunct2])
  then show "i = j" using ij nth_eq_iff_index_eq [of "map cn_generation (uc_connections c)" i j] by simp
qed

lemma sender_generation: "client_inv c \<Longrightarrow> uc_sender c = Some i \<Longrightarrow> i < length (uc_connections c)
    \<and> phase_generation (uc_phase c) = Some (cn_generation (uc_connections c ! i))"
  by (auto simp: client_inv_def control_inv_def)

lemma agent_step_connections:
  assumes "agent_step t a t'"
  shows "map cn_generation (uc_connections (at_client t')) = map cn_generation (uc_connections (at_client t))
    \<or> (\<exists>g. uc_connections (at_client t') = uc_connections (at_client t) @ [\<lparr>cn_generation = g, cn_queue = [], cn_open = True\<rparr>])"
  using assms
proof cases
  case (step_claim g c)
  then show ?thesis by (cases "uc_phase (at_client t)") (auto simp: ensure_ready_def Let_def)
next
  case (step_send_attempt command outcome c)
  then show ?thesis by (auto dest!: send_attempt_result)
next
  case (step_send_if_ready command ok c)
  then show ?thesis by (auto dest!: send_if_ready_result)
next
  case (step_spawn g spawned r c)
  then show ?thesis by (auto simp: spawn_ui_def mark_stopped_def split: if_splits)
next
  case (step_connected pid g c)
  then show ?thesis by (auto simp: connection_ready_def split: if_splits)
next
  case (step_close i)
  then show ?thesis by (simp add: connection_close_def)
next
  case (step_ended g)
  then show ?thesis using mark_disconnected_result [of "Some g" "at_client t"] by auto
next
  case step_lost
  then show ?thesis using mark_disconnected_result [of None "at_client t"] by auto
next
  case (step_approve r g)
  then show ?thesis using approve_result [of "at_client t" g r] by auto
qed (simp_all add: mark_stopped_def shutdown_control shutdown_timeout_def kill_def cancel_idle_exit_def split: option.split)

subsection \<open>A message of the GUI\<close>

text \<open>
  \<open>conn_inv\<close> is the invariant of one connection. The Agent's handling of a message of connection \<open>i\<close> keeps
  it for \<open>i\<close>, whose message is gone, and for every other connection.
\<close>

definition conn_inv :: "(nat \<Rightarrow> uuid) \<Rightarrow> ui_client \<Rightarrow> nat \<Rightarrow> ui_session \<Rightarrow> bool" where
  "conn_inv ids c i u \<longleftrightarrow> us_generation u = cn_generation (uc_connections c ! i) \<and> gens_ok u
     \<and> exit_inv ids (link_of c i) (queue_of c i) u \<and> (us_idle_exit u \<longrightarrow> us_quit u)"

lemma conn_inv_moves:
  assumes "conn_inv ids c i u" "cn_generation (uc_connections c' ! i) = cn_generation (uc_connections c ! i)"
    "link_moves (link_of c i) (queue_of c i) (link_of c' i) (queue_of c' i)"
  shows "conn_inv ids c' i u"
  using assms link_moves_inv [OF assms(3)] by (simp add: conn_inv_def)

lemma conn_inv_same:
  assumes "conn_inv ids c i u" "uc_connections c' ! i = uc_connections c ! i" "link_of c' i = link_of c i"
  shows "conn_inv ids c' i u"
  using assms by (simp add: conn_inv_def)

lemma conn_inv_outgoing:
  assumes "conn_inv ids c i u" "us_outgoing u = m # ms"
  shows "conn_inv ids c i (u\<lparr>us_outgoing := ms\<rparr>)"
  using assms exit_inv_outgoing gens_ok_outgoing by (simp add: conn_inv_def)

lemma approve_exit_inv:
  assumes t: "client_inv c" "sender_ok c" and u: "conn_inv ids c i u" "us_outgoing u = RequestIdleExit r g # ms"
    and i: "i < length (uc_connections c)" and d: "d = approve_idle_exit r g c"
  shows "sender_ok d \<and> conn_inv ids d i (u\<lparr>us_outgoing := ms\<rparr>)
    \<and> (\<forall>j ids v. j \<noteq> i \<longrightarrow> conn_inv ids c j v \<longrightarrow> conn_inv ids d j v)"
  using approve_result [of c g r, folded d]
proof
  assume "d = c"
  then show ?thesis using t(2) conn_inv_outgoing [OF u] by simp
next
  assume "\<exists>k. uc_phase c = PhaseReady g \<and> uc_sender c = Some k \<and> k < length (uc_connections c)
      \<and> cn_open (uc_connections c ! k) \<and> d = (enqueue k (IdleExitApproved r g) c)
         \<lparr>uc_state := (uc_state c)\<lparr>ps_phase := PhaseStopping g, ps_idle_exit_request := Some r\<rparr>\<rparr>"
  then obtain k where k: "uc_phase c = PhaseReady g" "uc_sender c = Some k" "k < length (uc_connections c)"
    and dk: "d = (enqueue k (IdleExitApproved r g) c)
         \<lparr>uc_state := (uc_state c)\<lparr>ps_phase := PhaseStopping g, ps_idle_exit_request := Some r\<rparr>\<rparr>" by blast
  have "g = us_generation u" using u by (simp add: conn_inv_def gens_ok_def)
  then have "g = cn_generation (uc_connections c ! i)" using u(1) by (simp add: conn_inv_def)
  moreover have "g = cn_generation (uc_connections c ! k)" using sender_generation [OF t(1) k(2)] k(1) by simp
  ultimately have ki: "k = i" using generation_unique [OF t(1) k(3) i] by simp
  have s: "uc_sender d = Some i" "uc_phase d = PhaseStopping g" "uc_idle_exit_request d = Some r"
    "uc_connections d = uc_connections (enqueue i (IdleExitApproved r g) c)" using k(2) dk ki by simp_all
  have "link_of c i = Open" "link_of d i = Waiting r" using k s ki by (simp_all add: link_of_def)
  moreover have "queue_of d i = queue_of c i @ [IdleExitApproved r g]" "cn_generation (uc_connections d ! i) = cn_generation (uc_connections c ! i)"
    using i s(4) by (simp_all add: enqueue_def)
  ultimately have "conn_inv ids d i (u\<lparr>us_outgoing := ms\<rparr>)"
    using u exit_inv_approved [OF _ u(2)] gens_ok_outgoing [OF _ u(2)] by (simp add: conn_inv_def)
  moreover have "conn_inv ids d j v" if "j \<noteq> i" "conn_inv ids c j v" for j ids v
    using that(2) by (rule conn_inv_same) (use that(1) k(2) ki s in \<open>simp_all add: link_of_def enqueue_def\<close>)
  ultimately show ?thesis using s by (simp add: sender_ok_def)
qed

lemma cancel_exit_inv:
  assumes t: "client_inv c" "sender_ok c" and u: "conn_inv ids c i u" "us_outgoing u = CancelIdleExit r g # ms"
    and i: "i < length (uc_connections c)" and d: "d = cancel_idle_exit r g c"
  shows "sender_ok d \<and> conn_inv ids d i (u\<lparr>us_outgoing := ms\<rparr>)
    \<and> (\<forall>j ids v. j \<noteq> i \<longrightarrow> conn_inv ids c j v \<longrightarrow> conn_inv ids d j v)"
proof (cases "d = c")
  case True
  then show ?thesis using t(2) conn_inv_outgoing [OF u] by simp
next
  case False
  then obtain k where k: "uc_phase c = PhaseStopping g" "uc_idle_exit_request c = Some r" "uc_sender c = Some k"
    and dk: "d = c\<lparr>uc_state := (uc_state c)\<lparr>ps_phase := PhaseReady g, ps_idle_exit_request := None\<rparr>\<rparr>"
    using d by (auto simp: cancel_idle_exit_def split: if_splits)
  have "g = us_generation u" using u by (simp add: conn_inv_def gens_ok_def)
  then have "g = cn_generation (uc_connections c ! i)" using u(1) by (simp add: conn_inv_def)
  moreover have "k < length (uc_connections c)" "g = cn_generation (uc_connections c ! k)"
    using sender_generation [OF t(1) k(3)] k(1) by simp_all
  ultimately have ki: "k = i" using generation_unique [OF t(1) _ i] by simp
  have s: "uc_sender d = Some i" "uc_phase d = PhaseReady g" "uc_connections d = uc_connections c" using k(3) dk ki by simp_all
  have "link_of c i = Waiting r" "link_of d i = Open" using k s ki by (simp_all add: link_of_def)
  then have "conn_inv ids d i (u\<lparr>us_outgoing := ms\<rparr>)"
    using u s(3) exit_inv_resumed [OF _ u(2)] gens_ok_outgoing [OF _ u(2)] by (simp add: conn_inv_def)
  moreover have "conn_inv ids d j v" if "j \<noteq> i" "conn_inv ids c j v" for j ids v
    using that(2) by (rule conn_inv_same) (use that(1) k(3) ki s in \<open>simp_all add: link_of_def\<close>)
  ultimately show ?thesis using s by (simp add: sender_ok_def)
qed

lemma run_requests_inv:
  assumes run: "run_requests t m t'" and t: "tasks_inv t" and u: "conn_inv ids (at_client t) i u" "us_outgoing u = m # ms"
    and i: "i < length (uc_connections (at_client t))"
  shows "tasks_inv t' \<and> length (uc_connections (at_client t')) = length (uc_connections (at_client t))
    \<and> conn_inv ids (at_client t') i (u\<lparr>us_outgoing := ms\<rparr>)
    \<and> (\<forall>j < length (uc_connections (at_client t)). \<forall>ids v. j \<noteq> i \<longrightarrow> conn_inv ids (at_client t) j v \<longrightarrow> conn_inv ids (at_client t') j v)"
proof -
  have c: "client_inv (at_client t)" "sender_ok (at_client t)" "list_all plain (at_sending t)" using t by (simp_all add: tasks_inv_def)
  note u' = conn_inv_outgoing [OF u]
  from run show ?thesis
  proof cases
    case (handle_request cs r op)
    let ?d = "answer_all cs (at_client t)"
    have "list_all plain cs" using handle_request by (simp add: list_all_iff plain_def)
    note d = answer_all_effect [OF c(1,2) this]
    have g: "cn_generation (uc_connections ?d ! j) = cn_generation (uc_connections (at_client t) ! j)" if "j < length (uc_connections (at_client t))" for j
      using that d nth_map [of j "uc_connections ?d" cn_generation] nth_map [OF that, of cn_generation] by (metis length_map)
    have l: "length (uc_connections ?d) = length (uc_connections (at_client t))" using d by (metis length_map)
    have "conn_inv ids ?d j v" if "j < length (uc_connections (at_client t))" "conn_inv ids (at_client t) j v" for j ids v
      using that g [OF that(1)] d unfolding conn_inv_def by metis
    then show ?thesis using handle_request(2) c d l u' i by (simp add: tasks_inv_def)
  next
    case (handle_idle_exit r g)
    then have t': "t' = t\<lparr>at_client := approve_idle_exit r g (at_client t)\<rparr>" by (auto elim: agent_approveE)
    have "us_outgoing u = RequestIdleExit r g # ms" using u(2) handle_idle_exit(1) by simp
    note d = approve_exit_inv [OF c(1,2) u(1) this i refl]
    show ?thesis using t' c d approve_inv [OF c(1)] approve_result [of "at_client t" g r] by (auto simp: tasks_inv_def enqueue_def)
  next
    case (handle_cancel r g)
    then have t': "t' = t\<lparr>at_client := cancel_idle_exit r g (at_client t)\<rparr>" by (auto elim: agent_cancelE)
    have "us_outgoing u = CancelIdleExit r g # ms" using u(2) handle_cancel(1) by simp
    note d = cancel_exit_inv [OF c(1,2) u(1) this i refl]
    show ?thesis using t' c d cancel_inv [OF c(1)] by (simp add: tasks_inv_def cancel_idle_exit_def)
  next
    case handle_other
    then show ?thesis using t u' by simp
  qed
qed

lemma evaluate_exit_quit: "us_quit s \<Longrightarrow> us_quit (evaluate_exit ids s)" "us_idle_exit (evaluate_exit ids s) = us_idle_exit s"
  by (auto simp: evaluate_exit_def Let_def ui_event_result split: option.split)

lemma ui_apply_quit: "\<not> us_idle_exit u \<Longrightarrow> us_idle_exit (ui_apply ids nt n m u) \<Longrightarrow> us_quit (ui_apply ids nt n m u)"
proof (cases "\<exists>r g. m = IdleExitApproved r g")
  case True
  then show "\<not> us_idle_exit u \<Longrightarrow> us_idle_exit (ui_apply ids nt n m u) \<Longrightarrow> ?thesis"
    by (auto simp: ui_apply_def evaluate_exit_quit apply_exit_approval_def ui_event_result split: if_splits)
next
  case False
  let ?u = "u\<lparr>us_cache := (us_cache u)\<lparr>ch_last_sequence := n\<rparr>\<rparr>"
  have "exit_steps ids ?u (apply_message ids nt m ?u)" using False by (intro apply_message_steps) blast
  then have "us_idle_exit (apply_message ids nt m ?u) = us_idle_exit u"
    by (induction rule: rtranclp_induct) (simp_all add: exit_step_idle)
  then show "\<not> us_idle_exit u \<Longrightarrow> us_idle_exit (ui_apply ids nt n m u) \<Longrightarrow> ?thesis"
    by (simp add: ui_apply_def evaluate_exit_quit split: if_splits)
qed

lemma conn_inv_receive:
  assumes "conn_inv ids c i u" "\<not> us_quit u" "queue_of c i = m # q" "inj ids"
    "cn_generation (uc_connections d ! i) = cn_generation (uc_connections c ! i)" "link_of d i = link_of c i" "queue_of d i = q"
  shows "conn_inv ids d i (ui_apply ids nt n m u)"
proof -
  have "\<not> us_idle_exit u" using assms(1,2) by (auto simp: conn_inv_def)
  then show ?thesis
    using assms ui_receive_inv [of ids "link_of c i" m q u nt n] ui_receive_gens [of u ids nt n m] ui_apply_quit [of u ids nt n m]
    by (simp add: conn_inv_def)
qed

lemma conn_inv_new:
  assumes "inj ids" "uc_connections c ! i = \<lparr>cn_generation = g, cn_queue = [], cn_open = True\<rparr>"
  shows "conn_inv ids c i (ui_apply ids nt 2 (Snapshot sn) (install_session g))"
proof -
  let ?u = "install_session g"
  have "exit_inv ids (link_of c i) [Snapshot sn] ?u" "gens_ok ?u" "\<not> us_idle_exit ?u" "us_generation ?u = g"
    by (simp_all add: exit_inv_def install_session_def gens_ok_def plain_def)
  then show ?thesis using assms ui_receive_inv [of ids "link_of c i" "Snapshot sn" "[]" ?u nt 2]
      ui_receive_gens [of ?u ids nt 2 "Snapshot sn"] ui_apply_quit [of ?u ids nt 2 "Snapshot sn"]
    by (simp add: conn_inv_def)
qed

lemma conn_inv_acts:
  assumes "conn_inv ids c i u" "\<not> us_quit u" "ui_local ids u v" "inj ids"
  shows "conn_inv ids c i v"
proof -
  have "\<not> us_idle_exit u" using assms(1,2) by (auto simp: conn_inv_def)
  then show ?thesis using assms(1) exit_steps_inv [OF ui_local_steps [OF assms(3)] _ _ assms(4)]
      exit_steps_gens [OF ui_local_steps [OF assms(3)]] by (auto simp: conn_inv_def)
qed

section \<open>The system invariant\<close>

definition system_inv :: "(nat \<Rightarrow> nat \<Rightarrow> uuid) \<Rightarrow> ui_system \<Rightarrow> bool" where
  "system_inv ids s \<longleftrightarrow> tasks_inv (sy_agent s) \<and> length (sy_uis s) = length (uc_connections (sy_client s))
     \<and> (\<forall>i < length (sy_uis s). conn_inv (ids i) (sy_client s) i (sy_uis s ! i))"

lemma system_invD:
  assumes "system_inv ids s"
  shows "tasks_inv (sy_agent s)" "length (sy_uis s) = length (uc_connections (sy_client s))"
    "i < length (sy_uis s) \<Longrightarrow> conn_inv (ids i) (sy_client s) i (sy_uis s ! i)"
  using assms by (simp_all add: system_inv_def)

lemma system_step_inv:
  assumes step: "system_step ids s s'" and inv: "system_inv ids s" and ids: "\<And>i. inj (ids i)"
  shows "system_inv ids s'"
proof -
  note t = system_invD(1) [OF inv] and l = system_invD(2) [OF inv] and u = system_invD(3) [OF inv]
  from step show ?thesis
  proof cases
    case (agent_alone t')
    note e = internal_effect [OF agent_alone(2) t]
    have "map cn_generation (uc_connections (at_client t')) = map cn_generation (uc_connections (sy_client s))"
      using agent_step_connections [OF agent_alone(2)] agent_alone(3) by auto
    then have g: "cn_generation (uc_connections (at_client t') ! i) = cn_generation (uc_connections (sy_client s) ! i)"
      if "i < length (sy_uis s)" for i using that l agent_alone(3) by (metis nth_map)
    have "conn_inv (ids i) (at_client t') i (sy_uis s ! i)" if "i < length (sy_uis s)" for i
      using u [OF that] g [OF that] by (rule conn_inv_moves) (use e that l in simp)
    then show ?thesis using agent_alone(1,3) e l by (simp add: system_inv_def)
  next
    case (ui_connects t' cn nt snapshot)
    note e = internal_effect [OF ui_connects(2) t]
    obtain g where cn: "cn = \<lparr>cn_generation = g, cn_queue = [], cn_open = True\<rparr>"
      using agent_step_connections [OF ui_connects(2)] ui_connects(3) by (auto dest: arg_cong [of _ _ length])
    have "conn_inv (ids i) (at_client t') i (sy_uis s ! i)" if "i < length (sy_uis s)" for i
      using u [OF that] by (rule conn_inv_moves) (use e that l ui_connects(3) in \<open>simp_all add: nth_append\<close>)
    moreover have "conn_inv (ids (length (sy_uis s))) (at_client t') (length (sy_uis s))
        (ui_apply (ids (length (sy_uis s))) nt 2 (Snapshot snapshot) (install_session g))"
      using ids by (rule conn_inv_new) (use l ui_connects(3) cn in simp)
    ultimately show ?thesis using ui_connects(1,3) e l cn by (auto simp: system_inv_def nth_append less_Suc_eq)
  next
    case (ui_receives i m q nt)
    let ?t = "set_queue i q (sy_agent s)"
    have "conn_inv (ids i) (at_client ?t) i (ui_apply (ids i) nt n m (sy_uis s ! i))" for n
      using u [OF ui_receives(2)] ui_receives(3,4) ids by (rule conn_inv_receive) (use ui_receives(2) l in simp_all)
    moreover have "conn_inv (ids j) (at_client ?t) j (sy_uis s ! j)" if "j < length (sy_uis s)" "j \<noteq> i" for j
      using u [OF that(1)] by (rule conn_inv_same) (use that in \<open>simp add: set_queue_def\<close>, simp)
    ultimately show ?thesis using ui_receives(1,2) l t by (simp add: system_inv_def set_queue_inv nth_list_update)
  next
    case (ui_acts i v)
    have "conn_inv (ids i) (sy_client s) i v" using u [OF ui_acts(2)] ui_acts(3,4) ids by (rule conn_inv_acts)
    then show ?thesis using ui_acts(1,2) t l u by (simp add: system_inv_def nth_list_update)
  next
    case (agent_receives i m ms t')
    note e = run_requests_inv [OF agent_receives(4) t u [OF agent_receives(2)] agent_receives(3)]
    show ?thesis using e agent_receives(1,2) u l by (simp add: system_inv_def nth_list_update)
  qed
qed

lemma system_steps_inv: "system_steps ids s s' \<Longrightarrow> system_inv ids s \<Longrightarrow> (\<And>i. inj (ids i)) \<Longrightarrow> system_inv ids s'"
  by (induction rule: rtranclp_induct) (auto intro: system_step_inv)

lemma system_start_inv: "system_inv ids (system_start session_id authentication)"
  by (simp add: system_inv_def system_start_def agent_tasks_start_def tasks_inv_def client_start_inv sender_ok_def)
    (simp add: ui_client_start_def default_process_state_def)

section \<open>Properties\<close>

text \<open>
  C27: a GUI that exits because it is idle loses no command. In every run of the Agent and its GUI processes,
  whatever the order in which messages cross, the user acts, tasks send and the Agent shuts down: when a
  GUI has quit on an approved idle exit, nothing but a shutdown notice is left in its queue, and a command
  the Agent sends from then on is not reported as delivered to it.
\<close>

theorem idle_exit_loses_no_command:
  assumes ids: "\<And>i. inj (ids i)" and run: "system_steps ids (system_start session_id authentication) s"
    and i: "i < length (sy_uis s)" and idle: "us_idle_exit (sy_uis s ! i)"
  shows "set (sy_queue s i) \<subseteq> {Shutdown}
    \<and> (send_attempt m (sy_client s) = (Delivered, c) \<longrightarrow> queue_of c i = sy_queue s i \<and> uc_sender c \<noteq> Some i)"
proof -
  have inv: "system_inv ids s" using run system_start_inv ids by (rule system_steps_inv)
  have c: "client_inv (sy_client s)" using system_invD(1) [OF inv] by (simp add: tasks_inv_def)
  have "exit_inv (ids i) (link_of (sy_client s) i) (sy_queue s i) (sy_uis s ! i)"
    using system_invD(3) [OF inv i] by (simp add: conn_inv_def)
  then have e: "link_of (sy_client s) i \<noteq> Open" "sy_queue s i = [] \<or> sy_queue s i = [Shutdown]"
    using idle by (auto simp: exit_inv_def)
  have "queue_of c i = sy_queue s i \<and> uc_sender c \<noteq> Some i" if "send_attempt m (sy_client s) = (Delivered, c)"
    using send_attempt_result [OF that] e(1) i system_invD(2) [OF inv] by (auto simp: link_of_def enqueue_queue)
  then show ?thesis using e(2) by auto
qed

text \<open>
  A run: the Agent opens the main window, the user closes it, the GUI asks to exit, the Agent approves and
  the GUI quits.
\<close>

definition example_ids :: "nat \<Rightarrow> nat \<Rightarrow> uuid" where
  "example_ids i n = replicate n CHR ''x''"

definition example_native :: native where
  "example_native = \<lparr>nt_created = True, nt_shown = True, nt_hidden = True\<rparr>"

definition example_snapshot :: ui_snapshot where
  "example_snapshot = \<lparr>sn_revision = 0, sn_main =
     \<lparr>mu_revision = 0, mu_history = [], mu_favorites = [], mu_devices = [], mu_tokenhub_model = [],
      mu_tokenhub_configured = False, mu_proxy_kind = 0, mu_proxy_address = [], mu_provider_proxy_enabled = False,
      mu_update_proxy_enabled = False, mu_server_url = [], mu_username = [], mu_current_device = [],
      mu_sync_status = [], mu_update_status = [],
      mu_preferences = \<lparr>up_popup_idle_timeout_secs = 30, up_launch_minimized = False, up_global_hotkey = [],
        up_start_at_login = False\<rparr>\<rparr>\<rparr>"

definition connected_session :: ui_session where
  "connected_session = ui_apply (example_ids 0) example_native 2 (Snapshot example_snapshot) (install_session 1)"

definition opened_session :: ui_session where
  "opened_session = ui_apply (example_ids 0) example_native 3 OpenMainWindow connected_session"

definition closed_session :: ui_session where
  "closed_session = destroy_main (example_ids 0) example_native opened_session"

definition exited_session :: ui_session where
  "exited_session = ui_apply (example_ids 0) example_native 4 (IdleExitApproved [] 1) (closed_session\<lparr>us_outgoing := []\<rparr>)"

lemmas example_session_defs = connected_session_def opened_session_def closed_session_def exited_session_def ui_apply_def
  install_session_def example_snapshot_def example_native_def example_ids_def apply_snapshot_def set_popup_idle_timeout_secs_def
  max_popup_idle_timeout_secs_def new_hosts_def default_popup_idle_timeout_secs_def evaluate_exit_def is_idle_def has_live_ui_def
  ensure_main_def destroy_main_def ui_event_def apply_exit_approval_def

lemma example_sessions:
  "ch_last_sequence (us_cache connected_session) = 2" "\<not> us_quit connected_session"
  "ch_last_sequence (us_cache opened_session) = 3" "\<not> us_quit opened_session"
  "ch_last_sequence (us_cache closed_session) = 3" "\<not> us_quit closed_session"
  "us_outgoing closed_session = [RequestIdleExit [] 1]" "us_idle_exit exited_session"
  by (simp_all add: example_session_defs)

definition example_client :: "ui_process_phase \<Rightarrow> uuid option \<Rightarrow> agent_to_ui list \<Rightarrow> ui_client" where
  "example_client phase idle queue =
     \<lparr>uc_session_id = ''agent'', uc_authentication = ''secret'', uc_next_generation = 2,
      uc_state = \<lparr>ps_phase = phase, ps_process_id = Some 7, ps_sender = Some 0, ps_kill_sender = Some 1, ps_idle_exit_request = idle\<rparr>,
      uc_connections = [\<lparr>cn_generation = 1, cn_queue = queue, cn_open = True\<rparr>], uc_kills = [], uc_shutting_down = False\<rparr>"

definition example_agent :: "ui_process_phase \<Rightarrow> uuid option \<Rightarrow> agent_to_ui list \<Rightarrow> agent_to_ui list \<Rightarrow> agent_tasks" where
  "example_agent phase idle queue sending =
     \<lparr>at_client = example_client phase idle queue, at_sending = sending, at_claims = [], at_children = [1], at_greeted = [],
      at_ended = [], at_lost = 0\<rparr>"

lemma agent_alone_steps:
  "system_steps ids s0 \<lparr>sy_agent = t, sy_uis = us\<rparr> \<Longrightarrow> agent_step t Internal t' \<Longrightarrow>
     length (uc_connections (at_client t')) = length (uc_connections (at_client t)) \<Longrightarrow> system_steps ids s0 \<lparr>sy_agent = t', sy_uis = us\<rparr>"
  using agent_alone [of "\<lparr>sy_agent = t, sy_uis = us\<rparr>" t' ids] by (auto intro: rtranclp.rtrancl_into_rtrancl)

lemma example_started:
  "system_steps ids (system_start ''agent'' ''secret'') \<lparr>sy_agent = started_tasks example_tasks, sy_uis = []\<rparr>"
proof -
  let ?t = "agent_tasks_start ''agent'' ''secret''"
  let ?c1 = "(at_client ?t)\<lparr>uc_next_generation := 2, uc_state := (uc_state (at_client ?t))\<lparr>ps_phase := PhaseStarting 1\<rparr>\<rparr>"
  let ?c2 = "?c1\<lparr>uc_state := (uc_state ?c1)\<lparr>ps_kill_sender := Some 1\<rparr>\<rparr>"
  note defs = agent_tasks_start_def ui_client_start_def default_process_state_def
  have "system_steps ids (system_start ''agent'' ''secret'') \<lparr>sy_agent = ?t, sy_uis = []\<rparr>" by (simp add: system_start_def)
  then have "system_steps ids (system_start ''agent'' ''secret'') \<lparr>sy_agent = ?t\<lparr>at_sending := [OpenMainWindow]\<rparr>, sy_uis = []\<rparr>"
    by (rule agent_alone_steps) (use step_send_begin [of ?t OpenMainWindow] in \<open>simp_all add: defs send_begin_def\<close>)
  then have "system_steps ids (system_start ''agent'' ''secret'')
      \<lparr>sy_agent = ?t\<lparr>at_sending := [OpenMainWindow], at_client := ?c1, at_claims := [1]\<rparr>, sy_uis = []\<rparr>"
    by (rule agent_alone_steps)
      (use step_claim [of "?t\<lparr>at_sending := [OpenMainWindow]\<rparr>" 1 ?c1] in \<open>simp_all add: defs ensure_ready_def u64_max_def\<close>)
  then have "system_steps ids (system_start ''agent'' ''secret'')
      \<lparr>sy_agent = ?t\<lparr>at_sending := [OpenMainWindow], at_client := ?c2, at_claims := [], at_children := [1]\<rparr>, sy_uis = []\<rparr>"
    by (rule agent_alone_steps)
      (use step_spawn [of 1 "?t\<lparr>at_sending := [OpenMainWindow], at_client := ?c1, at_claims := [1]\<rparr>" True "Inr ()" ?c2]
       in \<open>simp_all add: defs spawn_ui_def\<close>)
  then have "system_steps ids (system_start ''agent'' ''secret'')
      \<lparr>sy_agent = ?t\<lparr>at_sending := [OpenMainWindow], at_client := ?c2, at_claims := [], at_children := [1], at_greeted := [(7, 1)]\<rparr>, sy_uis = []\<rparr>"
    by (rule agent_alone_steps)
      (use step_hello [of example_hello "?t\<lparr>at_sending := [OpenMainWindow], at_client := ?c2, at_claims := [], at_children := [1]\<rparr>" "(7, 1)"]
       in \<open>simp_all add: defs accept_hello_def example_hello_def new_envelope_def envelope_validate_def\<close>)
  then show ?thesis by (simp add: started_tasks_def example_tasks_def defs ensure_ready_def spawn_ui_def numeral_2_eq_2)
qed

lemma example_connected:
  "system_steps example_ids (system_start ''agent'' ''secret'')
     \<lparr>sy_agent = example_agent (PhaseReady 1) None [] [OpenMainWindow], sy_uis = [connected_session]\<rparr>"
proof -
  let ?s = "\<lparr>sy_agent = started_tasks example_tasks, sy_uis = []\<rparr>"
  let ?t = "example_agent (PhaseReady 1) None [] [OpenMainWindow]"
  note defs = started_tasks_def example_tasks_def agent_tasks_start_def ui_client_start_def default_process_state_def
    ensure_ready_def spawn_ui_def example_agent_def example_client_def
  have "agent_step (sy_agent ?s) Internal ?t"
    using step_connected [of 7 1 "started_tasks example_tasks" "at_client ?t"] by (simp add: connection_ready_def defs)
  from ui_connects [OF this, of "\<lparr>cn_generation = 1, cn_queue = [], cn_open = True\<rparr>" example_ids example_native example_snapshot]
  have "system_step example_ids ?s \<lparr>sy_agent = ?t, sy_uis = [connected_session]\<rparr>" by (simp add: defs connected_session_def)
  with example_started show ?thesis by (rule rtranclp.rtrancl_into_rtrancl)
qed

lemma example_closed:
  "system_steps example_ids (system_start ''agent'' ''secret'')
     \<lparr>sy_agent = example_agent (PhaseReady 1) None [] [], sy_uis = [closed_session]\<rparr>"
proof -
  note defs = example_agent_def example_client_def set_queue_def
  have "system_steps example_ids (system_start ''agent'' ''secret'')
     \<lparr>sy_agent = example_agent (PhaseReady 1) None [OpenMainWindow] [], sy_uis = [connected_session]\<rparr>"
    using example_connected
    by (rule agent_alone_steps)
      (use step_send_attempt [of OpenMainWindow "example_agent (PhaseReady 1) None [] [OpenMainWindow]" Delivered
         "example_client (PhaseReady 1) None [OpenMainWindow]"]
       in \<open>simp_all add: defs send_attempt_def channel_send_def enqueue_def\<close>)
  moreover have "system_step example_ids \<lparr>sy_agent = example_agent (PhaseReady 1) None [OpenMainWindow] [], sy_uis = [connected_session]\<rparr>
     \<lparr>sy_agent = example_agent (PhaseReady 1) None [] [], sy_uis = [opened_session]\<rparr>"
    using ui_receives [of 0 "\<lparr>sy_agent = example_agent (PhaseReady 1) None [OpenMainWindow] [], sy_uis = [connected_session]\<rparr>"
        OpenMainWindow "[]" example_ids example_native] example_sessions by (simp add: defs opened_session_def)
  moreover have "system_step example_ids \<lparr>sy_agent = example_agent (PhaseReady 1) None [] [], sy_uis = [opened_session]\<rparr>
     \<lparr>sy_agent = example_agent (PhaseReady 1) None [] [], sy_uis = [closed_session]\<rparr>"
    using ui_acts [of 0 "\<lparr>sy_agent = example_agent (PhaseReady 1) None [] [], sy_uis = [opened_session]\<rparr>" example_ids closed_session]
      local_close_main [of "example_ids 0" opened_session example_native] example_sessions by (simp add: closed_session_def)
  ultimately show ?thesis by (meson rtranclp.rtrancl_into_rtrancl)
qed

lemma example_exited:
  "system_steps example_ids (system_start ''agent'' ''secret'')
     \<lparr>sy_agent = example_agent (PhaseStopping 1) (Some []) [] [], sy_uis = [exited_session]\<rparr>"
proof -
  note defs = example_agent_def example_client_def set_queue_def
  have "run_requests (example_agent (PhaseReady 1) None [] []) (RequestIdleExit [] 1)
      (example_agent (PhaseStopping 1) (Some []) [IdleExitApproved [] 1] [])"
    using handle_idle_exit [OF step_approve [of "example_agent (PhaseReady 1) None [] []" "[]" 1]]
    by (simp add: defs approve_idle_exit_def channel_send_def enqueue_def)
  then have "system_step example_ids \<lparr>sy_agent = example_agent (PhaseReady 1) None [] [], sy_uis = [closed_session]\<rparr>
     \<lparr>sy_agent = example_agent (PhaseStopping 1) (Some []) [IdleExitApproved [] 1] [], sy_uis = [closed_session\<lparr>us_outgoing := []\<rparr>]\<rparr>"
    using agent_receives [of 0 "\<lparr>sy_agent = example_agent (PhaseReady 1) None [] [], sy_uis = [closed_session]\<rparr>"]
      example_sessions by simp
  moreover have "system_step example_ids
     \<lparr>sy_agent = example_agent (PhaseStopping 1) (Some []) [IdleExitApproved [] 1] [], sy_uis = [closed_session\<lparr>us_outgoing := []\<rparr>]\<rparr>
     \<lparr>sy_agent = example_agent (PhaseStopping 1) (Some []) [] [], sy_uis = [exited_session]\<rparr>"
    using ui_receives [of 0 "\<lparr>sy_agent = example_agent (PhaseStopping 1) (Some []) [IdleExitApproved [] 1] [],
        sy_uis = [closed_session\<lparr>us_outgoing := []\<rparr>]\<rparr>" "IdleExitApproved [] 1" "[]" example_ids example_native] example_sessions
    by (simp add: defs exited_session_def)
  ultimately show ?thesis using example_closed by (meson rtranclp.rtrancl_into_rtrancl)
qed

theorem idle_exit_loses_no_command_witness:
  "\<exists>s. system_steps example_ids (system_start ''agent'' ''secret'') s \<and> us_idle_exit (sy_uis s ! 0)
     \<and> set (sy_queue s 0) \<subseteq> {Shutdown}"
proof -
  have "inj (example_ids i)" for i by (rule injI) (auto simp: example_ids_def dest: arg_cong [of _ _ length])
  from idle_exit_loses_no_command [OF this example_exited, of 0] example_exited example_sessions(8)
  show ?thesis by fastforce
qed

end
