(* ===== verification/Ui_Connection.thy ===== *)
theory Ui_Connection
  imports Agent_Process Server_Config
begin

text \<open>
  \<open>apps/desktop/src/ui_ipc.rs\<close>, the GUI's side of the connection, and the byte streams between it and
  \<open>serve_connection\<close> of \<open>apps/agent/src/ui_process.rs\<close>: the launch environment, the handshake as frames and
  the numbering of later messages. The theory shows that a GUI launched by the Agent reaches Ready, and
  that a snapshot over the frame limit keeps every GUI out.
\<close>

section \<open>Launch settings\<close>

type_synonym ui_environment = "string \<Rightarrow> string option"

text \<open>The variables \<open>spawn_ui\<close> adds to the environment it inherits.\<close>

definition spawn_environment :: "ui_environment \<Rightarrow> string \<Rightarrow> ui_client \<Rightarrow> u64 \<Rightarrow> ui_environment" where
  "spawn_environment inherited endpoint c generation =
     inherited(''SLINT_DESTROY_WINDOW_ON_HIDE'' \<mapsto> ''1'', ''LVOS_IPC_ENDPOINT'' \<mapsto> endpoint,
       ''LVOS_IPC_SESSION'' \<mapsto> uc_session_id c, ''LVOS_IPC_AUTH'' \<mapsto> uc_authentication c,
       ''LVOS_UI_GENERATION'' \<mapsto> decimal generation)"

datatype ui_ipc_error =
  InvalidConfiguration string | UiIo | UiFrame frame_error | UiProtocol protocol_error | SnapshotApplyTimeout
| UiDisconnected

record ui_connection_config =
  uk_endpoint :: string
  uk_session_id :: uuid
  uk_authentication :: string
  uk_generation :: u64

definition required_env :: "ui_environment \<Rightarrow> string \<Rightarrow> ui_ipc_error + string" where
  "required_env env name = ok_or (InvalidConfiguration name) (env name)"

text \<open>\<open>uuid\<close> is \<open>Uuid::from_str\<close>.\<close>

definition config_from_environment :: "(string \<Rightarrow> uuid option) \<Rightarrow> ui_environment \<Rightarrow> ui_ipc_error + ui_connection_config" where
  "config_from_environment uuid env =
     rbind (required_env env ''LVOS_IPC_ENDPOINT'') (\<lambda>endpoint.
     rbind (required_env env ''LVOS_IPC_SESSION'') (\<lambda>session.
     rbind (ok_or (InvalidConfiguration ''LVOS_IPC_SESSION'') (uuid session)) (\<lambda>session_id.
     rbind (required_env env ''LVOS_IPC_AUTH'') (\<lambda>authentication.
     rbind (required_env env ''LVOS_UI_GENERATION'') (\<lambda>generation.
     rbind (ok_or (InvalidConfiguration ''LVOS_UI_GENERATION'') (parse_u64 (ascii generation))) (\<lambda>generation.
     Inr \<lparr>uk_endpoint = endpoint, uk_session_id = session_id, uk_authentication = authentication, uk_generation = generation\<rparr>))))))"

section \<open>The GUI's side of the handshake\<close>

text \<open>
  The frames of the two directions are byte lists. \<open>pid\<close> is the process id, \<open>mid\<close> the fresh identifier of
  the envelope.
\<close>

type_synonym ui_json = "ui_to_agent envelope frame_json"
type_synonym agent_json = "agent_to_ui envelope frame_json"

definition hello_envelope :: "u32 \<Rightarrow> uuid \<Rightarrow> ui_connection_config \<Rightarrow> ui_to_agent envelope" where
  "hello_envelope pid mid config =
     new_envelope (uk_session_id config) 1 mid
       (Hello \<lparr>hl_role = RoleUi, hl_process_id = pid, hl_process_generation = uk_generation config,
               hl_authentication = uk_authentication config\<rparr>)"

definition ready_envelope :: "uuid \<Rightarrow> u64 \<Rightarrow> ui_connection_config \<Rightarrow> ui_to_agent envelope" where
  "ready_envelope mid applied config =
     new_envelope (uk_session_id config) 2 mid
       (Ready \<lparr>rd_process_generation = uk_generation config, rd_applied_sequence = applied\<rparr>)"

definition check_accepted :: "ui_connection_config \<Rightarrow> agent_to_ui envelope \<Rightarrow> ui_ipc_error + unit" where
  "check_accepted config accepted =
     rbind (map_err UiProtocol (envelope_validate (uk_session_id config) accepted)) (\<lambda>_.
     case en_payload accepted of
       HandshakeAccepted generation \<Rightarrow>
         (if en_sequence accepted \<noteq> 1 \<or> generation \<noteq> uk_generation config
          then Inl (UiProtocol (SequenceRegression 0 (en_sequence accepted))) else Inr ())
     | _ \<Rightarrow> Inl (UiProtocol UnexpectedMessage))"

definition check_snapshot :: "ui_connection_config \<Rightarrow> agent_to_ui envelope \<Rightarrow> ui_ipc_error + ui_snapshot" where
  "check_snapshot config e =
     rbind (map_err UiProtocol (envelope_validate (uk_session_id config) e)) (\<lambda>_.
     case en_payload e of
       Snapshot snapshot \<Rightarrow> (if en_sequence e \<noteq> 2 then Inl (UiProtocol UnexpectedMessage) else Inr snapshot)
     | _ \<Rightarrow> Inl (UiProtocol UnexpectedMessage))"

text \<open>\<open>run_connection\<close> up to the snapshot it hands to the session.\<close>

definition ui_open :: "ui_json \<Rightarrow> u32 \<Rightarrow> uuid \<Rightarrow> ui_connection_config \<Rightarrow> ui_ipc_error + byte list" where
  "ui_open js pid mid config = map_err UiFrame (write_frame js (hello_envelope pid mid config) [])"

definition ui_accept :: "agent_json \<Rightarrow> ui_connection_config \<Rightarrow> byte list \<Rightarrow> ui_ipc_error + ui_snapshot \<times> byte list" where
  "ui_accept js config stream =
     rbind (map_err UiFrame (read_frame js stream)) (\<lambda>(accepted, stream).
     rbind (check_accepted config accepted) (\<lambda>_.
     rbind (map_err UiFrame (read_frame js stream)) (\<lambda>(e, stream).
     rbind (check_snapshot config e) (\<lambda>snapshot. Inr (snapshot, stream)))))"

text \<open>The session answers through \<open>applied\<close>; \<open>None\<close> is the timeout, \<open>Some False\<close> a dropped sender.\<close>

definition ui_send_ready :: "ui_json \<Rightarrow> uuid \<Rightarrow> bool option \<Rightarrow> ui_connection_config \<Rightarrow> ui_ipc_error + byte list" where
  "ui_send_ready js mid applied config =
     (case applied of
        None \<Rightarrow> Inl SnapshotApplyTimeout
      | Some False \<Rightarrow> Inl UiDisconnected
      | Some True \<Rightarrow> map_err UiFrame (write_frame js (ready_envelope mid 2 config) []))"

text \<open>One round of the GUI's reader and of its writer.\<close>

definition ui_accept_inbound :: "uuid \<Rightarrow> u64 \<Rightarrow> agent_to_ui envelope \<Rightarrow> frame_error + u64 \<times> agent_to_ui" where
  "ui_accept_inbound session_id last_sequence e =
     rbind (map_err FrameProtocol (envelope_validate session_id e)) (\<lambda>_.
     if en_sequence e \<le> last_sequence
     then Inl (FrameProtocol (SequenceRegression last_sequence (en_sequence e)))
     else Inr (en_sequence e, en_payload e))"

definition ui_write_outbound :: "uuid \<Rightarrow> u64 \<Rightarrow> uuid \<Rightarrow> ui_to_agent \<Rightarrow> ui_to_agent envelope \<times> u64" where
  "ui_write_outbound session_id sequence mid m =
     (new_envelope session_id sequence mid m, (sequence + 1) mod 18446744073709551616)"

section \<open>The Agent's side\<close>

definition accepted_envelope :: "uuid \<Rightarrow> u64 \<Rightarrow> ui_client \<Rightarrow> agent_to_ui envelope" where
  "accepted_envelope mid generation c = new_envelope (uc_session_id c) 1 mid (HandshakeAccepted generation)"

definition snapshot_envelope :: "uuid \<Rightarrow> ui_snapshot \<Rightarrow> ui_client \<Rightarrow> agent_to_ui envelope" where
  "snapshot_envelope mid snapshot c = new_envelope (uc_session_id c) 2 mid (Snapshot snapshot)"

definition serve_hello ::
  "ui_json \<Rightarrow> agent_json \<Rightarrow> uuid \<times> uuid \<Rightarrow> ui_snapshot \<Rightarrow> ui_client \<Rightarrow> byte list \<Rightarrow>
   ui_process_error + (u32 \<times> u64) \<times> byte list \<times> byte list" where
  "serve_hello ju ja mids snapshot c stream =
     rbind (map_err UpFrame (read_frame ju stream)) (\<lambda>(hello, stream).
     rbind (accept_hello hello c) (\<lambda>(pid, generation).
     rbind (map_err UpFrame (write_frame ja (accepted_envelope (fst mids) generation c) [])) (\<lambda>out.
     rbind (map_err UpFrame (write_frame ja (snapshot_envelope (snd mids) snapshot c) out)) (\<lambda>out.
     Inr ((pid, generation), stream, out)))))"

definition serve_ready :: "ui_json \<Rightarrow> u32 \<times> u64 \<Rightarrow> ui_client \<Rightarrow> byte list \<Rightarrow> ui_process_error + ui_client \<times> u64 \<times> byte list" where
  "serve_ready ju greeted c stream =
     rbind (map_err UpFrame (read_frame ju stream)) (\<lambda>(ready, stream).
     rbind (accept_ready (snd greeted) ready c) (\<lambda>ready_sequence.
     rbind (connection_ready (fst greeted) (snd greeted) c) (\<lambda>c.
     Inr (c, ready_sequence, stream))))"

section \<open>The launch environment\<close>

lemma digits_value_decimal: "digits_value (ascii (decimal n)) = n"
proof (induction n rule: decimal.induct)
  case (1 n)
  have d: "(of_char (char_of (48 + m) :: char) :: nat) = 48 + m" if "m < 10" for m :: nat
    using that by (simp add: take_bit_eq_mod)
  show ?case
    using "1.IH" d [of n] d [of "n mod 10"]
    by (subst decimal.simps) (auto simp: digits_value_def ascii_def)
qed

lemma decimal_nonempty: "decimal n \<noteq> []"
  by (subst decimal.simps) simp

lemma ascii_decimal_digits: "list_all (\<lambda>d. 48 \<le> d \<and> d \<le> 57) (ascii (decimal n))"
  by (auto simp: list_all_iff ascii_def is_ascii_digit_def less_eq_char_def dest!: decimal_digits)

lemma parse_u64_decimal:
  assumes "n \<le> u64_max"
  shows "parse_u64 (ascii (decimal n)) = Some n"
proof -
  have "ascii (decimal n) \<noteq> []" using decimal_nonempty [of n] by (simp add: ascii_def)
  then obtain z zs where z: "ascii (decimal n) = z # zs" by (cases "ascii (decimal n)") auto
  then have "z \<noteq> 43" using ascii_decimal_digits [of n] by auto
  then show ?thesis using assms digits_value_decimal [of n] ascii_decimal_digits [of n]
    by (simp add: z parse_u64_def u64_max_def)
qed

lemma config_of_spawn:
  assumes "uuid (uc_session_id c) = Some (uc_session_id c)" "generation \<le> u64_max"
  shows "config_from_environment uuid (spawn_environment inherited endpoint c generation) =
    Inr \<lparr>uk_endpoint = endpoint, uk_session_id = uc_session_id c, uk_authentication = uc_authentication c, uk_generation = generation\<rparr>"
  using assms by (simp add: config_from_environment_def spawn_environment_def required_env_def parse_u64_decimal)

section \<open>Properties\<close>

text \<open>What is supposed of \<open>serde_json\<close> on one message, and that the frame fits.\<close>

definition frame_ok :: "'t frame_json \<Rightarrow> 't \<Rightarrow> bool" where
  "frame_ok js e \<longleftrightarrow> fj_encodes js e \<and> fj_read js (fj_write js e) = Some e \<and> length (fj_write js e) \<le> max_frame_bytes"

lemma write_ok: "frame_ok js e \<Longrightarrow> write_frame js e out = Inr (out @ to_be_bytes (length (fj_write js e)) @ fj_write js e)"
  by (simp add: frame_ok_def write_frame_def Let_def not_less)

lemma read_ok: "frame_ok js e \<Longrightarrow> read_frame js (to_be_bytes (length (fj_write js e)) @ fj_write js e @ rest) = Inr (e, rest)"
  by (simp add: frame_ok_def read_written_frame)

lemmas read_last = read_ok [where rest = "[]", simplified]

lemma serve_hello_oversized:
  assumes "length (fj_write ja (snapshot_envelope (snd mids) sn c)) > max_frame_bytes"
  shows "isl (serve_hello ju ja mids sn c stream)"
  using assms by (auto simp: serve_hello_def write_frame_def Let_def rbind_def split: sum.splits prod.splits)

text \<open>
  C29: a GUI the Agent launches becomes Ready. With the environment \<open>spawn_ui\<close> sets, the GUI reads its
  configuration, greets, accepts the two frames of the Agent as its handshake and its snapshot, and the
  Agent makes the connection of that generation the Ready one, provided the four frames fit the frame
  limit. When the snapshot does not fit, the Agent ends every connection before it is Ready, whatever the
  GUI sends.
\<close>

theorem launched_ui_becomes_ready:
  assumes phase: "uc_phase c = PhaseStarting g" "g \<le> u64_max"
    and uuid: "uuid (uc_session_id c) = Some (uc_session_id c)"
    and config: "config = \<lparr>uk_endpoint = endpoint, uk_session_id = uc_session_id c, uk_authentication = uc_authentication c, uk_generation = g\<rparr>"
    and ju: "frame_ok ju (hello_envelope pid m1 config)" "frame_ok ju (ready_envelope m2 2 config)"
    and ja: "frame_ok ja (accepted_envelope (fst mids) g c)"
  shows "config_from_environment uuid (spawn_environment inherited endpoint c g) = Inr config
    \<and> (frame_ok ja (snapshot_envelope (snd mids) sn c) \<longrightarrow>
        (\<exists>greeting answer ready c'. ui_open ju pid m1 config = Inr greeting
           \<and> serve_hello ju ja mids sn c greeting = Inr ((pid, g), [], answer)
           \<and> ui_accept ja config answer = Inr (sn, [])
           \<and> ui_send_ready ju m2 (Some True) config = Inr ready
           \<and> serve_ready ju (pid, g) c ready = Inr (c', 2, [])
           \<and> uc_phase c' = PhaseReady g \<and> uc_sender c' = Some (length (uc_connections c))))
    \<and> (length (fj_write ja (snapshot_envelope (snd mids) sn c)) > max_frame_bytes \<longrightarrow>
        isl (serve_hello ju ja mids sn c stream))"
proof (intro conjI impI)
  show "config_from_environment uuid (spawn_environment inherited endpoint c g) = Inr config"
    using uuid phase(2) by (simp add: config_of_spawn config)
next
  assume sn: "frame_ok ja (snapshot_envelope (snd mids) sn c)"
  let ?hello = "hello_envelope pid m1 config" and ?ready = "ready_envelope m2 2 config"
  let ?accepted = "accepted_envelope (fst mids) g c" and ?snapshot = "snapshot_envelope (snd mids) sn c"
  let ?frame = "\<lambda>bytes. to_be_bytes (length bytes) @ bytes"
  obtain c' where c': "connection_ready pid g c = Inr c'" "uc_phase c' = PhaseReady g" "uc_sender c' = Some (length (uc_connections c))"
    using phase(1) by (simp add: connection_ready_def)
  have "accept_hello ?hello c = Inr (pid, g)" "accept_ready g ?ready c = Inr 2"
    using phase(1) config
    by (simp_all add: accept_hello_def accept_ready_def hello_envelope_def ready_envelope_def new_envelope_def envelope_validate_def)
  moreover have "check_accepted config ?accepted = Inr ()" "check_snapshot config ?snapshot = Inr sn"
    using config
    by (simp_all add: check_accepted_def check_snapshot_def accepted_envelope_def snapshot_envelope_def new_envelope_def envelope_validate_def)
  ultimately show "\<exists>greeting answer ready c'. ui_open ju pid m1 config = Inr greeting
           \<and> serve_hello ju ja mids sn c greeting = Inr ((pid, g), [], answer)
           \<and> ui_accept ja config answer = Inr (sn, [])
           \<and> ui_send_ready ju m2 (Some True) config = Inr ready
           \<and> serve_ready ju (pid, g) c ready = Inr (c', 2, [])
           \<and> uc_phase c' = PhaseReady g \<and> uc_sender c' = Some (length (uc_connections c))"
    using c' ju ja sn
    by (intro exI [of _ "?frame (fj_write ju ?hello)"] exI [of _ "?frame (fj_write ja ?accepted) @ ?frame (fj_write ja ?snapshot)"]
        exI [of _ "?frame (fj_write ju ?ready)"] exI [of _ c'])
      (simp add: ui_open_def serve_hello_def ui_accept_def ui_send_ready_def serve_ready_def write_ok read_ok read_last)
qed (rule serve_hello_oversized)

definition example_ui_json :: ui_json where
  "example_ui_json =
     (let config = \<lparr>uk_endpoint = ''pipe'', uk_session_id = ''agent'', uk_authentication = ''secret'', uk_generation = 1\<rparr>;
          h = hello_envelope 7 ''m1'' config; r = ready_envelope ''m2'' 2 config
      in \<lparr>fj_encodes = (\<lambda>_. True), fj_write = (\<lambda>e. if e = h then [1] else [2]), fj_read = (\<lambda>bs. if bs = [1] then Some h else Some r)\<rparr>)"

definition starting_client :: ui_client where
  "starting_client = (ui_client_start ''agent'' ''secret'')\<lparr>uc_next_generation := 2,
     uc_state := default_process_state\<lparr>ps_phase := PhaseStarting 1\<rparr>\<rparr>"

definition example_agent_json :: "ui_snapshot \<Rightarrow> agent_json" where
  "example_agent_json sn =
     (let a = accepted_envelope ''a1'' 1 starting_client; b = snapshot_envelope ''a2'' sn starting_client
      in \<lparr>fj_encodes = (\<lambda>_. True), fj_write = (\<lambda>e. if e = a then [1] else [2]), fj_read = (\<lambda>bs. if bs = [1] then Some a else Some b)\<rparr>)"

theorem launched_ui_becomes_ready_witness:
  "\<exists>sn greeting answer ready c'. ui_open example_ui_json 7 ''m1''
       \<lparr>uk_endpoint = ''pipe'', uk_session_id = ''agent'', uk_authentication = ''secret'', uk_generation = 1\<rparr> = Inr greeting
     \<and> serve_hello example_ui_json (example_agent_json sn) (''a1'', ''a2'') sn starting_client greeting = Inr ((7, 1), [], answer)
     \<and> serve_ready example_ui_json (7, 1) starting_client ready = Inr (c', 2, []) \<and> uc_phase c' = PhaseReady 1"
proof -
  fix sn :: ui_snapshot
  let ?config = "\<lparr>uk_endpoint = ''pipe'', uk_session_id = ''agent'', uk_authentication = ''secret'', uk_generation = 1\<rparr>"
  have c: "uc_phase starting_client = PhaseStarting 1" "(1 :: nat) \<le> u64_max"
    "Some (uc_session_id starting_client) = Some (uc_session_id starting_client)"
    "?config = \<lparr>uk_endpoint = ''pipe'', uk_session_id = uc_session_id starting_client,
       uk_authentication = uc_authentication starting_client, uk_generation = 1\<rparr>"
    by (simp_all add: starting_client_def ui_client_start_def u64_max_def)
  have "frame_ok example_ui_json (hello_envelope 7 ''m1'' ?config)" "frame_ok example_ui_json (ready_envelope ''m2'' 2 ?config)"
    by (simp_all add: frame_ok_def example_ui_json_def Let_def hello_envelope_def ready_envelope_def new_envelope_def max_frame_bytes_def)
  moreover have "frame_ok (example_agent_json sn) (accepted_envelope (fst (''a1'', ''a2'')) 1 starting_client)"
    "frame_ok (example_agent_json sn) (snapshot_envelope (snd (''a1'', ''a2'')) sn starting_client)"
    by (simp_all add: frame_ok_def example_agent_json_def Let_def accepted_envelope_def snapshot_envelope_def new_envelope_def max_frame_bytes_def)
  ultimately show ?thesis
    using launched_ui_becomes_ready [OF c(1,2), of Some "?config" "''pipe''" example_ui_json 7 "''m1''" "''m2''" "example_agent_json sn"
        "(''a1'', ''a2'')" "\<lambda>_. None" sn "[]"] c(3,4) by blast
qed

end
