(* ===== verification/Translation_Provider.thy ===== *)
theory Translation_Provider
  imports Sync_Session Ui_Session
begin

text \<open>
  \<open>crates/translation\<close>: the Provider boundary, the reading of the API key from the credential store, the
  Tencent TokenHub client and its bounded HTTP transport. \<open>serde_json\<close>, \<open>reqwest\<close> and the network are
  arguments.
\<close>

section \<open>The Provider boundary\<close>

record translation_request =
  tq_text :: utext
  tq_source_language :: language_code
  tq_target_language :: language_code

record translation_result =
  tl_text :: utext
  tl_provider :: string

datatype translation_error =
  TeMissingConfiguration | TeNetwork | TeConnectTimeout | TeRequestTimeout | TeRateLimited | TeUnauthorized
| TeProviderUnavailable | TeInvalidResponse | TeUnsupportedInput

fun lookup_card_kind :: "translation_error \<Rightarrow> lookup_card_error_kind" where
  "lookup_card_kind TeMissingConfiguration = CardConfigurationRequired"
| "lookup_card_kind TeUnauthorized = CardUnauthorized"
| "lookup_card_kind TeUnsupportedInput = CardUnsupported"
| "lookup_card_kind _ = CardUnavailable"

section \<open>The API key\<close>

datatype provider_credential_error = PcMissing | PcInvalidUtf8 | PcStore auth_error

definition credential_read ::
  "'k keyring \<Rightarrow> string \<Rightarrow> string \<Rightarrow> string \<Rightarrow> credential_key \<Rightarrow> 'k \<Rightarrow> provider_credential_error + utext" where
  "credential_read kr server_origin user_id device_id key k =
     rbind (map_err PcStore (credential_get kr
       \<lparr>cs_server_origin = server_origin, cs_user_id = user_id, cs_device_id = device_id, cs_key = key\<rparr> k)) (\<lambda>found.
     rbind (ok_or PcMissing found) (\<lambda>bytes.
     rbind (ok_or PcInvalidUtf8 (text_from_utf8 bytes)) (\<lambda>value.
     if trim value = [] then Inl PcMissing else Inr value)))"

definition tokenhub_api_key ::
  "'k keyring \<Rightarrow> string \<Rightarrow> string \<Rightarrow> string \<Rightarrow> 'k \<Rightarrow> provider_credential_error + utext" where
  "tokenhub_api_key kr server_origin user_id device_id k =
     credential_read kr server_origin user_id device_id TencentTokenHubApiKey k"

section \<open>HTTP transport\<close>

definition max_provider_response_bytes :: usize where
  "max_provider_response_bytes = 1048576"

record timeout_config =
  to_connect :: u64
  to_request :: u64

definition default_timeout :: timeout_config where
  "default_timeout = \<lparr>to_connect = 5, to_request = 15\<rparr>"

datatype http_method = Post
datatype header_value = Public utext | Secret utext

fun header_expose :: "header_value \<Rightarrow> utext" where
  "header_expose (Public v) = v"
| "header_expose (Secret v) = v"

record provider_http_request =
  hq_method :: http_method
  hq_url :: string
  hq_headers :: "(string \<times> header_value) list"
  hq_body :: "byte list"
  hq_request_timeout :: u64

record provider_http_response =
  hr_status :: u16
  hr_body :: "byte list"

datatype provider_transport_error =
  PtConfiguration | PtNetwork | PtConnectTimeout | PtRequestTimeout | PtResponseTooLarge

text \<open>What \<open>reqwest\<close> reports of an error and of a response.\<close>

record reqwest_error =
  re_is_timeout :: bool
  re_is_connect :: bool

record reqwest_response =
  rw_status :: u16
  rw_content_length :: "u64 option"
  rw_chunks :: "(reqwest_error + byte list) list"

definition classify_reqwest_error :: "reqwest_error \<Rightarrow> provider_transport_error" where
  "classify_reqwest_error e =
     (if re_is_timeout e \<and> re_is_connect e then PtConnectTimeout
      else if re_is_timeout e then PtRequestTimeout else PtNetwork)"

definition reqwest_transport_new :: "(string \<Rightarrow> bool) \<Rightarrow> bool \<Rightarrow> timeout_config \<Rightarrow> string option \<Rightarrow> provider_transport_error + unit" where
  "reqwest_transport_new valid_proxy buildable timeout proxy_url =
     (if to_connect timeout = 0 \<or> to_request timeout = 0 then Inl PtConfiguration
      else if (case proxy_url of None \<Rightarrow> False | Some url \<Rightarrow> \<not> valid_proxy url) then Inl PtConfiguration
      else if buildable then Inr () else Inl PtConfiguration)"

fun read_provider_body ::
  "byte list \<Rightarrow> (reqwest_error + byte list) list \<Rightarrow> provider_transport_error + byte list" where
  "read_provider_body body [] = Inr body"
| "read_provider_body body (Inl e # rest) = Inl (classify_reqwest_error e)"
| "read_provider_body body (Inr chunk # rest) =
     (if length body + length chunk > max_provider_response_bytes then Inl PtResponseTooLarge
      else read_provider_body (body @ chunk) rest)"

text \<open>\<open>wire\<close> is the request \<open>reqwest\<close> makes: method, url, exposed headers, body, timeout.\<close>

definition transport_send ::
  "(string \<Rightarrow> (string \<times> utext) list \<Rightarrow> byte list \<Rightarrow> u64 \<Rightarrow> 'n \<Rightarrow> (reqwest_error + reqwest_response) \<times> 'n) \<Rightarrow>
   provider_http_request \<Rightarrow> 'n \<Rightarrow> (provider_transport_error + provider_http_response) \<times> 'n" where
  "transport_send wire request n =
     (case wire (hq_url request) (map (\<lambda>(name, v). (name, header_expose v)) (hq_headers request))
             (hq_body request) (hq_request_timeout request) n of
        (Inl e, n1) \<Rightarrow> (Inl (classify_reqwest_error e), n1)
      | (Inr response, n1) \<Rightarrow>
          (if (case rw_content_length response of None \<Rightarrow> False | Some len \<Rightarrow> len > max_provider_response_bytes)
           then (Inl PtResponseTooLarge, n1)
           else (rbind (read_provider_body [] (rw_chunks response)) (\<lambda>body.
                   Inr \<lparr>hr_status = rw_status response, hr_body = body\<rparr>), n1)))"

section \<open>TokenHub\<close>

definition default_tokenhub_model :: utext where
  "default_tokenhub_model = ascii ''hy-mt2-lite''"

definition max_tokenhub_model_chars :: usize where
  "max_tokenhub_model_chars = 128"

definition tokenhub_translate_endpoint :: string where
  "tokenhub_translate_endpoint = ''https://tokenhub.tencentmaas.com/v1/api/translations''"

definition tokenhub_provider_id :: string where
  "tokenhub_provider_id = ''tencent-tokenhub''"

definition validate_tokenhub_model :: "utext \<Rightarrow> translation_error + utext" where
  "validate_tokenhub_model model =
     (let model = trim model in
      if model = [] \<or> length model > max_tokenhub_model_chars \<or> list_ex (\<lambda>c. is_whitespace c \<or> is_control c) model
      then Inl TeMissingConfiguration else Inr model)"

record tokenhub_provider =
  tp_api_key :: utext
  tp_model :: utext
  tp_timeout :: timeout_config

definition tokenhub_new :: "utext \<Rightarrow> timeout_config \<Rightarrow> tokenhub_provider" where
  "tokenhub_new api_key timeout = \<lparr>tp_api_key = api_key, tp_model = default_tokenhub_model, tp_timeout = timeout\<rparr>"

definition with_model :: "utext \<Rightarrow> tokenhub_provider \<Rightarrow> translation_error + tokenhub_provider" where
  "with_model model p = rbind (validate_tokenhub_model model) (\<lambda>model. Inr (p\<lparr>tp_model := model\<rparr>))"

definition tokenhub_languages :: "string list" where
  "tokenhub_languages = [''zh'', ''en'', ''fr'', ''pt'', ''es'', ''ja'', ''tr'', ''ru'', ''ar'', ''ko'', ''th'', ''it'',
     ''de'', ''vi'', ''ms'', ''id'', ''fil'', ''hi'', ''pl'', ''cs'', ''nl'', ''km'', ''my'', ''fa'', ''gu'', ''ur'',
     ''te'', ''mr'', ''he'', ''bn'', ''ta'', ''uk'', ''bo'', ''kk'', ''mn'', ''ug'', ''yue'']"

definition tokenhub_language :: "language_code \<Rightarrow> translation_error + string" where
  "tokenhub_language language =
     (if language = ''zh-CN'' then Inr ''zh''
      else if language \<in> set tokenhub_languages then Inr language else Inl TeUnsupportedInput)"

record tokenhub_request =
  kq_model :: utext
  kq_text :: utext
  kq_source :: string
  kq_target :: string
  kq_stream :: bool

record tokenhub_choice =
  kc_finish_reason :: "utext option"
  kc_content :: utext

record tokenhub_error =
  ke_code :: "utext option"
  ke_kind :: "utext option"
  ke_message :: "utext option"

text \<open>\<open>serde_json\<close> on the request, the response and the error envelope.\<close>

record tokenhub_json =
  tj_request :: "tokenhub_request \<Rightarrow> byte list option"
  tj_response :: "byte list \<Rightarrow> tokenhub_choice list option"
  tj_error :: "byte list \<Rightarrow> tokenhub_error option option"

definition text_lowercase :: "utext \<Rightarrow> utext" where
  "text_lowercase = map (\<lambda>c. if 65 \<le> c \<and> c \<le> 90 then c + 32 else c)"

definition contains_text :: "utext \<Rightarrow> utext \<Rightarrow> bool" where
  "contains_text needle t = list_ex (\<lambda>i. take (length needle) (drop i t) = needle) [0..<Suc (length t)]"

definition unwrap_text :: "utext option \<Rightarrow> utext" where
  "unwrap_text t = (case t of None \<Rightarrow> [] | Some t \<Rightarrow> t)"

definition classify_http_error :: "tokenhub_json \<Rightarrow> u16 \<Rightarrow> byte list \<Rightarrow> translation_error" where
  "classify_http_error js status body =
     (if status = 401 \<or> status = 403 then TeUnauthorized
      else if status = 429 then TeRateLimited
      else if status \<ge> 500 then TeProviderUnavailable
      else
        let detail = (case tj_error js body of
              Some (Some e) \<Rightarrow> text_lowercase (unwrap_text (ke_code e) @ ascii '' '' @ unwrap_text (ke_kind e)
                 @ ascii '' '' @ unwrap_text (ke_message e))
            | _ \<Rightarrow> [])
        in if contains_text (ascii ''api_key'') detail \<or> contains_text (ascii ''apikey'') detail
             \<or> contains_text (ascii ''authentication'') detail \<or> contains_text (ascii ''unauthorized'') detail
           then TeUnauthorized
           else if status = 408 then TeRequestTimeout else TeUnsupportedInput)"

definition parse_response :: "tokenhub_json \<Rightarrow> u16 \<Rightarrow> byte list \<Rightarrow> translation_error + utext" where
  "parse_response js status body =
     (if \<not> (200 \<le> status \<and> status < 300) then Inl (classify_http_error js status body)
      else
        rbind (ok_or TeInvalidResponse (tj_response js body)) (\<lambda>choices.
        rbind (ok_or TeInvalidResponse (case choices of [] \<Rightarrow> None | c # _ \<Rightarrow> Some c)) (\<lambda>choice.
        if kc_finish_reason choice = Some (ascii ''sensitive'') then Inl TeUnsupportedInput
        else if kc_content choice = [] then Inl TeInvalidResponse
        else Inr (kc_content choice))))"

fun map_transport_error :: "provider_transport_error \<Rightarrow> translation_error" where
  "map_transport_error PtConfiguration = TeMissingConfiguration"
| "map_transport_error PtNetwork = TeNetwork"
| "map_transport_error PtConnectTimeout = TeConnectTimeout"
| "map_transport_error PtRequestTimeout = TeRequestTimeout"
| "map_transport_error PtResponseTooLarge = TeInvalidResponse"

definition tokenhub_http_request :: "tokenhub_provider \<Rightarrow> byte list \<Rightarrow> provider_http_request" where
  "tokenhub_http_request p body =
     \<lparr>hq_method = Post, hq_url = tokenhub_translate_endpoint,
      hq_headers = [(''content-type'', Public (ascii ''application/json'')),
                    (''authorization'', Secret (ascii ''Bearer '' @ tp_api_key p))],
      hq_body = body, hq_request_timeout = to_request (tp_timeout p)\<rparr>"

definition translate ::
  "tokenhub_json \<Rightarrow> (provider_http_request \<Rightarrow> 'n \<Rightarrow> (provider_transport_error + provider_http_response) \<times> 'n) \<Rightarrow>
   tokenhub_provider \<Rightarrow> translation_request \<Rightarrow> 'n \<Rightarrow> (translation_error + translation_result) \<times> 'n" where
  "translate js send p request n =
     (if tq_text request = [] then (Inl TeUnsupportedInput, n)
      else case tokenhub_language (tq_source_language request) of
        Inl e \<Rightarrow> (Inl e, n)
      | Inr source \<Rightarrow>
          (case tokenhub_language (tq_target_language request) of
             Inl e \<Rightarrow> (Inl e, n)
           | Inr target \<Rightarrow>
               (case tj_request js \<lparr>kq_model = tp_model p, kq_text = tq_text request, kq_source = source,
                       kq_target = target, kq_stream = False\<rparr> of
                  None \<Rightarrow> (Inl TeInvalidResponse, n)
                | Some body \<Rightarrow>
                    (case send (tokenhub_http_request p body) n of
                       (Inl e, n1) \<Rightarrow> (Inl (map_transport_error e), n1)
                     | (Inr response, n1) \<Rightarrow>
                         (rbind (parse_response js (hr_status response) (hr_body response)) (\<lambda>text.
                            Inr \<lparr>tl_text = text, tl_provider = tokenhub_provider_id\<rparr>), n1)))))"

section \<open>Diagnostics\<close>

text \<open>What the debug output of a request shows; \<open>None\<close> is a redacted header.\<close>

definition redact_query :: "string \<Rightarrow> string" where
  "redact_query url =
     (if CHR ''?'' \<in> set url then takeWhile (\<lambda>c. c \<noteq> CHR ''?'') url @ ''?[REDACTED]'' else url)"

fun header_debug :: "header_value \<Rightarrow> utext option" where
  "header_debug (Public v) = Some v"
| "header_debug (Secret v) = None"

definition request_debug :: "provider_http_request \<Rightarrow> string \<times> (string \<times> utext option) list \<times> nat \<times> u64" where
  "request_debug r = (redact_query (hq_url r), map (\<lambda>(name, v). (name, header_debug v)) (hq_headers r),
     length (hq_body r), hq_request_timeout r)"

section \<open>Properties\<close>

lemma read_provider_body_Inr:
  "read_provider_body body chunks = Inr out \<Longrightarrow> length body \<le> max_provider_response_bytes \<Longrightarrow>
     length out \<le> max_provider_response_bytes \<and> out = body @ concat (map projr chunks)"
  by (induction body chunks rule: read_provider_body.induct) (auto split: if_splits)

lemma transport_send_Inr:
  assumes "transport_send wire request n = (Inr response, n1)"
  shows "\<exists>raw. wire (hq_url request) (map (\<lambda>(name, v). (name, header_expose v)) (hq_headers request))
      (hq_body request) (hq_request_timeout request) n = (Inr raw, n1)
    \<and> hr_status response = rw_status raw \<and> hr_body response = concat (map projr (rw_chunks raw))
    \<and> length (hr_body response) \<le> max_provider_response_bytes"
  using assms read_provider_body_Inr [of "[]"]
  by (auto simp: transport_send_def rbind_Inr split: prod.splits sum.splits if_splits)

lemma parse_response_Inr:
  "parse_response js status body = Inr text \<longleftrightarrow> 200 \<le> status \<and> status < 300 \<and> text \<noteq> []
     \<and> (\<exists>choice rest. tj_response js body = Some (choice # rest) \<and> kc_finish_reason choice \<noteq> Some (ascii ''sensitive'')
          \<and> text = kc_content choice)"
  by (cases "tj_response js body") (auto simp: parse_response_def split: list.splits)

text \<open>
  C33: what a successful translation is. The text is the content of the first choice of a response with a
  2xx status, not empty and not withheld as sensitive, read from a body of at most 1 MiB; it came from one
  request to the TokenHub endpoint with the configured model, the text as it was asked and the languages
  TokenHub knows, with the key in the authorization header. A text that is empty or a language that is not
  known is refused without a request. The debug output of the request is the same whatever the key is.
\<close>

theorem provider_translation_sound:
  assumes t: "translate js (transport_send wire) p request n = (r, n1)"
  shows "(r = Inr result \<longrightarrow> tl_provider result = tokenhub_provider_id \<and> tl_text result \<noteq> []
      \<and> (\<exists>source target body raw choice rest.
           tokenhub_language (tq_source_language request) = Inr source \<and> tokenhub_language (tq_target_language request) = Inr target
         \<and> tj_request js \<lparr>kq_model = tp_model p, kq_text = tq_text request, kq_source = source, kq_target = target, kq_stream = False\<rparr>
             = Some body
         \<and> wire tokenhub_translate_endpoint [(''content-type'', ascii ''application/json''),
               (''authorization'', ascii ''Bearer '' @ tp_api_key p)] body (to_request (tp_timeout p)) n = (Inr raw, n1)
         \<and> 200 \<le> rw_status raw \<and> rw_status raw < 300 \<and> length (concat (map projr (rw_chunks raw))) \<le> max_provider_response_bytes
         \<and> tj_response js (concat (map projr (rw_chunks raw))) = Some (choice # rest)
         \<and> kc_finish_reason choice \<noteq> Some (ascii ''sensitive'') \<and> tl_text result = kc_content choice))
    \<and> (tq_text request = [] \<or> isl (tokenhub_language (tq_source_language request)) \<or> isl (tokenhub_language (tq_target_language request))
        \<longrightarrow> r = Inl TeUnsupportedInput \<and> n1 = n)
    \<and> request_debug (tokenhub_http_request p body) = request_debug (tokenhub_http_request (p\<lparr>tp_api_key := key\<rparr>) body)"
proof (intro conjI impI)
  have lang: "tokenhub_language l = Inl e \<Longrightarrow> e = TeUnsupportedInput" for l e
    by (auto simp: tokenhub_language_def split: if_splits)
  show "r = Inl TeUnsupportedInput" "n1 = n" if "tq_text request = [] \<or> isl (tokenhub_language (tq_source_language request))
      \<or> isl (tokenhub_language (tq_target_language request))"
    using that t lang by (auto simp: translate_def isl_def split: if_splits sum.splits)
  assume r: "r = Inr result"
  then obtain source target bytes response where f: "tokenhub_language (tq_source_language request) = Inr source"
    "tokenhub_language (tq_target_language request) = Inr target"
    "tj_request js \<lparr>kq_model = tp_model p, kq_text = tq_text request, kq_source = source, kq_target = target, kq_stream = False\<rparr> = Some bytes"
    and send: "transport_send wire (tokenhub_http_request p bytes) n = (Inr response, n1)"
    and parse: "parse_response js (hr_status response) (hr_body response) = Inr (tl_text result)"
    and id: "tl_provider result = tokenhub_provider_id"
    using t by (auto simp: translate_def rbind_Inr split: if_splits sum.splits option.splits prod.splits)
  show "tl_provider result = tokenhub_provider_id" by (fact id)
  show "tl_text result \<noteq> []" using parse by (simp add: parse_response_Inr)
  obtain raw where raw: "wire tokenhub_translate_endpoint [(''content-type'', ascii ''application/json''),
               (''authorization'', ascii ''Bearer '' @ tp_api_key p)] bytes (to_request (tp_timeout p)) n = (Inr raw, n1)"
    "hr_status response = rw_status raw" "hr_body response = concat (map projr (rw_chunks raw))"
    "length (hr_body response) \<le> max_provider_response_bytes"
    using transport_send_Inr [OF send] by (auto simp: tokenhub_http_request_def)
  then show "\<exists>source target body raw choice rest.
           tokenhub_language (tq_source_language request) = Inr source \<and> tokenhub_language (tq_target_language request) = Inr target
         \<and> tj_request js \<lparr>kq_model = tp_model p, kq_text = tq_text request, kq_source = source, kq_target = target, kq_stream = False\<rparr>
             = Some body
         \<and> wire tokenhub_translate_endpoint [(''content-type'', ascii ''application/json''),
               (''authorization'', ascii ''Bearer '' @ tp_api_key p)] body (to_request (tp_timeout p)) n = (Inr raw, n1)
         \<and> 200 \<le> rw_status raw \<and> rw_status raw < 300 \<and> length (concat (map projr (rw_chunks raw))) \<le> max_provider_response_bytes
         \<and> tj_response js (concat (map projr (rw_chunks raw))) = Some (choice # rest)
         \<and> kc_finish_reason choice \<noteq> Some (ascii ''sensitive'') \<and> tl_text result = kc_content choice"
    using f parse by (auto simp: parse_response_Inr)
qed (simp add: request_debug_def tokenhub_http_request_def)

definition example_tokenhub_json :: tokenhub_json where
  "example_tokenhub_json = \<lparr>tj_request = (\<lambda>_. Some [1]),
     tj_response = (\<lambda>_. Some [\<lparr>kc_finish_reason = None, kc_content = ascii ''ni hao''\<rparr>]), tj_error = (\<lambda>_. None)\<rparr>"

definition example_wire :: "string \<Rightarrow> (string \<times> utext) list \<Rightarrow> byte list \<Rightarrow> u64 \<Rightarrow> nat \<Rightarrow> (reqwest_error + reqwest_response) \<times> nat" where
  "example_wire url headers body timeout n =
     (Inr \<lparr>rw_status = 200, rw_content_length = None, rw_chunks = [Inr [2]]\<rparr>, n + 1)"

theorem provider_translation_sound_witness:
  "\<exists>result. translate example_tokenhub_json (transport_send example_wire) (tokenhub_new (ascii ''key'') default_timeout)
       \<lparr>tq_text = ascii ''hello'', tq_source_language = ''en'', tq_target_language = ''zh-CN''\<rparr> 0 = (Inr result, 1)
     \<and> tl_provider result = tokenhub_provider_id"
proof -
  let ?request = "\<lparr>tq_text = ascii ''hello'', tq_source_language = ''en'', tq_target_language = ''zh-CN''\<rparr>"
  let ?result = "\<lparr>tl_text = ascii ''ni hao'', tl_provider = tokenhub_provider_id\<rparr>"
  have "translate example_tokenhub_json (transport_send example_wire) (tokenhub_new (ascii ''key'') default_timeout) ?request 0
      = (Inr ?result, 1)"
    by (simp add: translate_def transport_send_def example_wire_def example_tokenhub_json_def tokenhub_language_def
        tokenhub_languages_def parse_response_def tokenhub_http_request_def max_provider_response_bytes_def ascii_def)
  from provider_translation_sound [OF this, of ?result "[]" "[]"] this show ?thesis by blast
qed

end
