(* ===== verification/Desktop_Lookup.thy ===== *)
theory Desktop_Lookup
  imports Database_Worker Translation_Provider
begin

text \<open>
  Looking a text up on the Desktop: \<open>apps/desktop/src/lookup.rs\<close> (cache or one Provider request, then one
  committed query), \<open>apps/desktop/src/generation.rs\<close> (which capture is admitted and which query is
  current) and \<open>apps/desktop/src/ui_service.rs\<close> (the lists and actions behind the main window).
\<close>

section \<open>The lookup service\<close>

datatype lookup_mode = UseCache | Refresh

record lookup_outcome =
  lo_history :: history_entry
  lo_query_stats :: query_stats
  lo_cache_hit :: bool

datatype lookup_error = LuDatabase database_worker_error | LuTranslation translation_error

text \<open>A Provider is its \<open>translate\<close>, which may change the state of the network.\<close>

type_synonym 'n provider = "translation_request \<Rightarrow> 'n \<Rightarrow> (translation_error + translation_result) \<times> 'n"

definition new_history :: "prepared_content \<Rightarrow> language_code \<Rightarrow> translation_result \<Rightarrow> i64 \<Rightarrow> history_entry" where
  "new_history content target_language translated now =
     (let c = pc_canonical content in
      \<lparr>he_content = \<lparr>stc_content_key = pc_content_key content, stc_key_version = cc_key_version c, stc_kind = cc_kind c,
         stc_source_lang = cc_source_lang c, stc_source_text = pc_source_text content, stc_canonical_text = cc_text c\<rparr>,
       he_translation = \<lparr>ts_target_lang = target_language, ts_translation = tl_text translated,
         ts_provider = tl_provider translated, ts_updated_at = now\<rparr>,
       he_last_queried_at = now\<rparr>)"

definition commit_query ::
  "bool \<Rightarrow> history_entry \<Rightarrow> uuid \<Rightarrow> worker_state \<Rightarrow> (lookup_error + lookup_outcome) \<times> worker_state" where
  "commit_query hit history event_id ws =
     (case execute (tx (\<lambda>db. record_successful_query db history event_id)) ws of
        (Inl e, ws1) \<Rightarrow> (Inl (LuDatabase e), ws1)
      | (Inr stats, ws1) \<Rightarrow> (Inr \<lparr>lo_history = history, lo_query_stats = stats, lo_cache_hit = hit\<rparr>, ws1))"

definition translate_and_commit ::
  "'n provider option \<Rightarrow> prepared_content \<Rightarrow> language_code \<Rightarrow> i64 \<Rightarrow> uuid \<Rightarrow> worker_state \<Rightarrow> 'n \<Rightarrow>
   (lookup_error + lookup_outcome) \<times> worker_state \<times> 'n" where
  "translate_and_commit provider content target_language now event_id ws n =
     (case provider of
        None \<Rightarrow> (Inl (LuTranslation TeMissingConfiguration), ws, n)
      | Some ask \<Rightarrow>
          (case ask \<lparr>tq_text = pc_source_text content, tq_source_language = cc_source_lang (pc_canonical content),
                  tq_target_language = target_language\<rparr> n of
             (Inl e, n1) \<Rightarrow> (Inl (LuTranslation e), ws, n1)
           | (Inr translated, n1) \<Rightarrow>
               (case commit_query False (new_history content target_language translated now) event_id ws of
                  (r, ws1) \<Rightarrow> (r, ws1, n1))))"

text \<open>The handler waits for the worker and for the Provider; this is the run in which no other job reaches
  the worker between its own.\<close>

definition lookup_content ::
  "'n provider option \<Rightarrow> prepared_content \<Rightarrow> language_code \<Rightarrow> lookup_mode \<Rightarrow> i64 \<Rightarrow> uuid \<Rightarrow> worker_state \<Rightarrow> 'n \<Rightarrow>
   (lookup_error + lookup_outcome) \<times> worker_state \<times> 'n" where
  "lookup_content provider content target_language mode now event_id ws n =
     (if mode = UseCache
      then case execute (reading (\<lambda>db. history_by_key db (pc_content_key content))) ws of
        (Inl e, ws1) \<Rightarrow> (Inl (LuDatabase e), ws1, n)
      | (Inr cached, ws1) \<Rightarrow>
          (case cached of
             Some history \<Rightarrow>
               (if ts_target_lang (he_translation history) = target_language
                then (case commit_query True (history\<lparr>he_last_queried_at := now\<rparr>) event_id ws1 of
                        (r, ws2) \<Rightarrow> (r, ws2, n))
                else translate_and_commit provider content target_language now event_id ws1 n)
           | None \<Rightarrow> translate_and_commit provider content target_language now event_id ws1 n)
      else translate_and_commit provider content target_language now event_id ws n)"

section \<open>Admission of captures and queries\<close>

datatype capture_admission = Admitted | Busy | Debounced

text \<open>
  A cancellation token is its number; \<open>cg_cancelled\<close> are the tokens that were cancelled. Instants are
  counted in milliseconds.
\<close>

record capture_gate =
  cg_debounce :: nat
  cg_capture_active :: bool
  cg_last_trigger :: "nat option"
  cg_current :: u64
  cg_token :: nat
  cg_cancelled :: "nat list"
  cg_in_flight :: "content_key list"

record query_ticket =
  qt_generation :: u64
  qt_token :: nat

definition gate_new :: "nat \<Rightarrow> capture_gate" where
  "gate_new debounce = \<lparr>cg_debounce = debounce, cg_capture_active = False, cg_last_trigger = None, cg_current = 0,
     cg_token = 0, cg_cancelled = [], cg_in_flight = []\<rparr>"

definition gate_default :: capture_gate where
  "gate_default = gate_new 250"

definition admit_capture :: "nat \<Rightarrow> capture_gate \<Rightarrow> capture_admission \<times> capture_gate" where
  "admit_capture now g =
     (if cg_capture_active g then (Busy, g)
      else if (case cg_last_trigger g of None \<Rightarrow> False | Some previous \<Rightarrow> now - previous < cg_debounce g) then (Debounced, g)
      else (Admitted, g\<lparr>cg_capture_active := True, cg_last_trigger := Some now\<rparr>))"

definition drop_capture :: "capture_gate \<Rightarrow> capture_gate" where
  "drop_capture g = g\<lparr>cg_capture_active := False\<rparr>"

definition begin_query :: "capture_gate \<Rightarrow> query_ticket \<times> capture_gate" where
  "begin_query g =
     (let generation = saturating_add_u64 (cg_current g) 1; token = cg_token g + 1 in
      (\<lparr>qt_generation = generation, qt_token = token\<rparr>,
       g\<lparr>cg_current := generation, cg_token := token, cg_cancelled := cg_token g # cg_cancelled g\<rparr>))"

definition gate_is_current :: "u64 \<Rightarrow> capture_gate \<Rightarrow> bool" where
  "gate_is_current generation g \<longleftrightarrow> cg_current g = generation"

definition begin_content_flight :: "content_key \<Rightarrow> capture_gate \<Rightarrow> bool \<times> capture_gate" where
  "begin_content_flight key g =
     (if key \<in> set (cg_in_flight g) then (False, g) else (True, g\<lparr>cg_in_flight := key # cg_in_flight g\<rparr>))"

definition drop_flight :: "content_key \<Rightarrow> capture_gate \<Rightarrow> capture_gate" where
  "drop_flight key g = g\<lparr>cg_in_flight := removeAll key (cg_in_flight g)\<rparr>"

section \<open>Lists and actions of the main window\<close>

record ui_record_data =
  ur_key :: content_key
  ur_source :: utext
  ur_translation :: utext
  ur_count :: u64
  ur_favorite :: bool
  ur_metadata :: string

datatype ui_data_error = UdInvalidContentKey | UdDatabase database_worker_error

definition stats_total :: "query_stats option \<Rightarrow> u64" where
  "stats_total s = (case s of None \<Rightarrow> 0 | Some s \<Rightarrow> effective_total s)"

definition history_record :: "profile_db \<Rightarrow> history_entry \<Rightarrow> storage_error + ui_record_data" where
  "history_record db entry =
     (let key = stc_content_key (he_content entry) in
      rbind (query_stats_tx db key) (\<lambda>stats.
      rbind (favorite_by_key db key) (\<lambda>fav.
      Inr \<lparr>ur_key = key, ur_source = stc_source_text (he_content entry), ur_translation = ts_translation (he_translation entry),
           ur_count = stats_total stats,
           ur_favorite = (case fav of None \<Rightarrow> False | Some f \<Rightarrow> fv_deleted_at f = None),
           ur_metadata = ts_provider (he_translation entry)\<rparr>)))"

definition favorite_record_data :: "profile_db \<Rightarrow> favorite \<Rightarrow> storage_error + ui_record_data" where
  "favorite_record_data db f =
     (let key = stc_content_key (fv_content f) in
      rbind (query_stats_tx db key) (\<lambda>stats.
      Inr \<lparr>ur_key = key, ur_source = stc_source_text (fv_content f), ur_translation = ts_translation (fv_translation f),
           ur_count = stats_total stats, ur_favorite = True, ur_metadata = ts_provider (fv_translation f)\<rparr>))"

definition data_history :: "utext \<Rightarrow> u32 \<Rightarrow> worker_state \<Rightarrow> (ui_data_error + ui_record_data list) \<times> worker_state" where
  "data_history term limit ws =
     (case execute (reading (\<lambda>db. rbind (search_history db term limit) (mapM (history_record db)))) ws of
        (r, ws1) \<Rightarrow> (map_err UdDatabase r, ws1))"

definition data_favorites :: "utext \<Rightarrow> u32 \<Rightarrow> worker_state \<Rightarrow> (ui_data_error + ui_record_data list) \<times> worker_state" where
  "data_favorites term limit ws =
     (case execute (reading (\<lambda>db. rbind (search_favorites db term limit) (mapM (favorite_record_data db)))) ws of
        (r, ws1) \<Rightarrow> (map_err UdDatabase r, ws1))"

text \<open>\<open>sync\<close> says whether a sync worker is attached; the last result says whether it was woken.\<close>

definition data_set_favorite ::
  "bool \<Rightarrow> string \<Rightarrow> bool \<Rightarrow> i64 \<Rightarrow> uuid \<Rightarrow> worker_state \<Rightarrow> (ui_data_error + bool) \<times> worker_state \<times> bool" where
  "data_set_favorite sync key active now event_id ws =
     (case content_key_from_str key of
        Inl _ \<Rightarrow> (Inl UdInvalidContentKey, ws, False)
      | Inr k \<Rightarrow>
          (case execute (\<lambda>db. if active then favorite_content db k now event_id else unfavorite db k now event_id) ws of
             (Inl e, ws1) \<Rightarrow> (Inl (UdDatabase e), ws1, False)
           | (Inr _, ws1) \<Rightarrow> (Inr active, ws1, sync)))"

definition data_clear_history :: "worker_state \<Rightarrow> (ui_data_error + unit) \<times> worker_state" where
  "data_clear_history ws =
     (case execute (\<lambda>db. (Inr (), clear_history db)) ws of (r, ws1) \<Rightarrow> (map_err UdDatabase r, ws1))"

section \<open>Recording a query\<close>

definition row_of_history :: "history_entry \<Rightarrow> history_row" where
  "row_of_history e =
     \<lparr>hr_key_version = int (stc_key_version (he_content e)), hr_kind = protocol_name (stc_kind (he_content e)),
      hr_source_lang = stc_source_lang (he_content e), hr_target_lang = ts_target_lang (he_translation e),
      hr_source_text = stc_source_text (he_content e), hr_canonical_text = stc_canonical_text (he_content e),
      hr_translation = ts_translation (he_translation e), hr_provider = ts_provider (he_translation e),
      hr_last_queried_at = he_last_queried_at e, hr_translation_updated_at = ts_updated_at (he_translation e)\<rparr>"

text \<open>The languages of an entry are canonical, as every parsed \<open>LanguageCode\<close> is.\<close>

definition canonical_languages :: "history_entry \<Rightarrow> bool" where
  "canonical_languages e \<longleftrightarrow> parse_language_code (stc_source_lang (he_content e)) = Inr (stc_source_lang (he_content e))
     \<and> parse_language_code (ts_target_lang (he_translation e)) = Inr (ts_target_lang (he_translation e))"

lemma written_history_parses:
  assumes "history_entry_typed e" "canonical_languages e"
  shows "parse_history (to_hex (stc_content_key (he_content e))) (row_of_history e) = Inr e"
  using assms by (simp add: parse_history_def row_of_history_def history_entry_typed_def canonical_languages_def u32_of_i64_def
      u32_max_def parse_language_def)

lemma record_query_effect:
  assumes "record_successful_query db e eid = Inr (s, db')"
  shows "history_entries db' = tbl_put (to_hex (stc_content_key (he_content e))) (row_of_history e) (history_entries db)
    \<and> favorites db' = favorites db"
proof -
  let ?key = "stc_content_key (he_content e)"
  from assms obtain db2 where c: "count_query (upsert_history db e) (to_hex ?key) (he_last_queried_at e) = Inr db2"
    and rest: "(if tbl_has (favorites db2) (to_hex ?key)
             then upsert_query_stats_event db2 ?key s (he_last_queried_at e) eid else Inr db2) = Inr db'"
    by (auto simp: record_successful_query_def Let_def rbind_Inr ok_or_Inr)
  have "history_entries db2 = history_entries (upsert_history db e)" "favorites db2 = favorites (upsert_history db e)"
    using c by (auto elim: count_query_cases)
  moreover have "history_entries db' = history_entries db2" "favorites db' = favorites db2"
    using rest by (auto simp: upsert_query_stats_event_def upsert_outbox_def rbind_Inr split: option.splits if_splits)
  ultimately show ?thesis by (simp add: upsert_history_def row_of_history_def Let_def)
qed

lemma recorded_history:
  assumes "record_successful_query db e eid = Inr (s, db')" "history_entry_typed e" "canonical_languages e"
  shows "history_by_key db' (stc_content_key (he_content e)) = Inr (Some e)"
  using record_query_effect [OF assms(1)] written_history_parses [OF assms(2,3)]
  by (simp add: history_by_key_def opt_transpose_def)

lemma history_found:
  assumes "profile_inv db" "length key = 32" "history_by_key db key = Inr (Some h)"
  shows "history_entry_typed h \<and> canonical_languages h \<and> stc_content_key (he_content h) = key"
proof -
  obtain row where p: "parse_history (to_hex key) row = Inr h"
    using assms(3) by (auto simp: history_by_key_def opt_transpose_Inr)
  then have k: "stc_content_key (he_content h) = key" using assms(2) by (auto simp: parse_history_def rbind_Inr)
  have "canonical_languages h" using p
    by (auto simp: parse_history_def rbind_Inr parse_language_def map_err_Inr canonical_languages_def intro: parse_language_code_stable)
  then show ?thesis using k assms history_by_key_typed [of db key h]
    by (auto simp: history_entry_typed_def elim: profile_invE)
qed

subsection \<open>Jobs on the active Profile\<close>

lemma active_db_cases: "active_db ws = Some db \<longleftrightarrow> (\<exists>path. ws_active ws = Some path \<and> tbl_get (ws_files ws) path = Some db)"
  by (auto simp: active_db_def split: option.splits)

lemma execute_active:
  assumes "active_db ws = Some db"
  shows "\<exists>ws'. execute f ws = (map_err WStorage (fst (f db)), ws') \<and> active_db ws' = Some (snd (f db))"
proof -
  from assms obtain path where "ws_active ws = Some path" "tbl_get (ws_files ws) path = Some db"
    by (auto simp: active_db_cases)
  then show ?thesis by (cases "f db") (auto simp: execute_def active_db_def)
qed

definition recorded :: "profile_db \<Rightarrow> history_entry \<Rightarrow> uuid \<Rightarrow> lookup_outcome \<Rightarrow> profile_db \<Rightarrow> bool" where
  "recorded db e eid outcome db' \<longleftrightarrow> record_successful_query db e eid = Inr (lo_query_stats outcome, db') \<and> lo_history outcome = e"

lemma commit_query_result:
  assumes "active_db ws = Some db" "commit_query hit e eid ws = (r, ws')"
  shows "(\<exists>err. r = Inl (LuDatabase err)) \<and> active_db ws' = Some db
    \<or> (\<exists>outcome db'. r = Inr outcome \<and> lo_cache_hit outcome = hit \<and> recorded db e eid outcome db' \<and> active_db ws' = Some db')"
proof (cases "record_successful_query db e eid")
  case (Inl err)
  then show ?thesis using execute_active [OF assms(1), of "tx (\<lambda>db. record_successful_query db e eid)"] assms(2)
    by (auto simp: commit_query_def tx_def)
next
  case (Inr v)
  obtain s db' where "v = (s, db')" by (cases v)
  then show ?thesis using Inr execute_active [OF assms(1), of "tx (\<lambda>db. record_successful_query db e eid)"] assms(2)
    by (auto simp: commit_query_def tx_def recorded_def)
qed

lemma translate_and_commit_result:
  assumes "active_db ws = Some db" "translate_and_commit provider content target now eid ws n = (r, ws', n')"
  shows "(\<exists>err. r = Inl err) \<and> active_db ws' = Some db
    \<or> (\<exists>outcome db' ask result. r = Inr outcome \<and> \<not> lo_cache_hit outcome \<and> provider = Some ask
        \<and> ask \<lparr>tq_text = pc_source_text content, tq_source_language = cc_source_lang (pc_canonical content),
             tq_target_language = target\<rparr> n = (Inr result, n')
        \<and> recorded db (new_history content target result now) eid outcome db' \<and> active_db ws' = Some db')"
proof (cases provider)
  case None
  then show ?thesis using assms by (auto simp: translate_and_commit_def)
next
  case (Some ask)
  obtain a n1 where a: "ask \<lparr>tq_text = pc_source_text content, tq_source_language = cc_source_lang (pc_canonical content),
             tq_target_language = target\<rparr> n = (a, n1)" by (meson surj_pair)
  show ?thesis
  proof (cases a)
    case (Inl e)
    then show ?thesis using assms a Some by (auto simp: translate_and_commit_def)
  next
    case (Inr result)
    obtain r1 ws1 where c: "commit_query False (new_history content target result now) eid ws = (r1, ws1)" by (meson surj_pair)
    then have "r = r1" "ws' = ws1" "n' = n1" using assms(2) a Some Inr by (simp_all add: translate_and_commit_def)
    then show ?thesis using commit_query_result [OF assms(1) c] a Some Inr by auto
  qed
qed

lemma lookup_content_result:
  assumes a: "active_db ws = Some db" and run: "lookup_content provider content target mode now eid ws n = (r, ws', n')"
  shows "(\<exists>err. r = Inl err) \<and> active_db ws' = Some db
    \<or> (\<exists>outcome db' ask result. r = Inr outcome \<and> \<not> lo_cache_hit outcome \<and> provider = Some ask
        \<and> ask \<lparr>tq_text = pc_source_text content, tq_source_language = cc_source_lang (pc_canonical content),
             tq_target_language = target\<rparr> n = (Inr result, n')
        \<and> recorded db (new_history content target result now) eid outcome db' \<and> active_db ws' = Some db')
    \<or> (\<exists>outcome db' h. r = Inr outcome \<and> lo_cache_hit outcome \<and> mode = UseCache \<and> n' = n
        \<and> history_by_key db (pc_content_key content) = Inr (Some h) \<and> ts_target_lang (he_translation h) = target
        \<and> recorded db (h\<lparr>he_last_queried_at := now\<rparr>) eid outcome db' \<and> active_db ws' = Some db')"
proof (cases "mode = UseCache")
  case False
  then show ?thesis using translate_and_commit_result [OF a] run by (simp add: lookup_content_def)
next
  case True
  let ?key = "pc_content_key content"
  obtain ws1 where ws1: "execute (reading (\<lambda>db. history_by_key db ?key)) ws = (map_err WStorage (history_by_key db ?key), ws1)"
    "active_db ws1 = Some db"
    using execute_active [OF a, of "reading (\<lambda>db. history_by_key db ?key)"] by (auto simp: reading_def)
  show ?thesis
  proof (cases "history_by_key db ?key")
    case (Inl e)
    then show ?thesis using True run ws1 by (auto simp: lookup_content_def)
  next
    case (Inr found)
    show ?thesis
    proof (cases "\<exists>h. found = Some h \<and> ts_target_lang (he_translation h) = target")
      case False
      then have "translate_and_commit provider content target now eid ws1 n = (r, ws', n')"
        using True run ws1 Inr by (auto simp: lookup_content_def split: option.splits if_splits)
      from translate_and_commit_result [OF ws1(2) this] show ?thesis
        by (rule disjE) (rule disjI1, assumption, rule disjI2, rule disjI1, assumption)
    next
      case hit: True
      then obtain h where h: "found = Some h" "ts_target_lang (he_translation h) = target" by blast
      obtain r2 ws2 where c: "commit_query True (h\<lparr>he_last_queried_at := now\<rparr>) eid ws1 = (r2, ws2)" by (meson surj_pair)
      then have "r = r2" "ws' = ws2" "n' = n" using True run ws1 Inr h by (simp_all add: lookup_content_def)
      then show ?thesis using commit_query_result [OF ws1(2) c] True Inr h by auto
    qed
  qed
qed

section \<open>Properties\<close>

text \<open>What a committed query leaves behind, for an entry with the ranges of the Rust types.\<close>

lemma recorded_effect:
  assumes "recorded db e eid outcome db'" "profile_inv db" "history_entry_typed e" "canonical_languages e"
    and "synced_behind db (stc_content_key (he_content e))" and key: "key = stc_content_key (he_content e)"
  shows "profile_inv db' \<and> favorites db' = favorites db \<and> history_by_key db' key = Inr (Some (lo_history outcome))
    \<and> effective_total (lo_query_stats outcome) = query_total db key + 1 \<and> query_total db' key = query_total db key + 1"
proof -
  have r: "record_successful_query db e eid = Inr (lo_query_stats outcome, db')" "lo_history outcome = e"
    using assms(1) by (simp_all add: recorded_def)
  show ?thesis
    using record_successful_query_inv [OF assms(2,3) r(1)] record_query_effect [OF r(1)] recorded_history [OF r(1) assms(3,4)]
      query_counted_once [OF assms(2,3) r(1) assms(5)] r(2) key by simp
qed

lemma cached_lookup:
  assumes "active_db ws = Some db" "history_by_key db (pc_content_key content) = Inr (Some h)" "ts_target_lang (he_translation h) = target"
    and run: "lookup_content provider content target UseCache now eid ws n = (r, ws', n')"
  shows "n' = n \<and> (\<forall>outcome. r = Inr outcome \<longrightarrow> lo_cache_hit outcome \<and> he_translation (lo_history outcome) = he_translation h)"
proof -
  obtain ws1 where ws1: "execute (reading (\<lambda>db. history_by_key db (pc_content_key content))) ws = (Inr (Some h), ws1)" "active_db ws1 = Some db"
    using execute_active [OF assms(1), of "reading (\<lambda>db. history_by_key db (pc_content_key content))"] assms(2) by (auto simp: reading_def)
  obtain r3 ws3 where c: "commit_query True (h\<lparr>he_last_queried_at := now\<rparr>) eid ws1 = (r3, ws3)" by (meson surj_pair)
  have "r = r3" "n' = n" using run ws1 c assms(3) by (simp_all add: lookup_content_def)
  then show ?thesis using commit_query_result [OF ws1(2) c] by (auto simp: recorded_def)
qed

text \<open>
  C32: a lookup counts once and is then cached. On a consistent Profile, a lookup that succeeds adds one to
  the total of the content and shows that total, keeps every favorite as it was, and stores the entry it
  shows. A cache hit shows the stored translation and asks no Provider; otherwise the translation is the
  Provider's answer to one request. A lookup that fails leaves the Profile as it was. After a success, a
  lookup of the same content and language that may use the cache asks no Provider and shows the same
  translation.
\<close>

theorem lookup_counts_and_caches:
  assumes a: "active_db ws = Some db" "profile_inv db" "synced_behind db key"
    and content: "key = pc_content_key content" "length key = 32" "cc_key_version (pc_canonical content) \<le> u32_max"
      "parse_language_code (cc_source_lang (pc_canonical content)) = Inr (cc_source_lang (pc_canonical content))"
      "parse_language_code target = Inr target"
    and run: "lookup_content provider content target mode now eid ws n = (r, ws', n')"
  shows "(case r of
      Inl _ \<Rightarrow> active_db ws' = Some db
    | Inr outcome \<Rightarrow>
        (\<exists>db'. active_db ws' = Some db' \<and> profile_inv db' \<and> favorites db' = favorites db
          \<and> history_by_key db' key = Inr (Some (lo_history outcome))
          \<and> effective_total (lo_query_stats outcome) = query_total db key + 1 \<and> query_total db' key = query_total db key + 1)
      \<and> (if lo_cache_hit outcome
         then n' = n \<and> mode = UseCache \<and> (\<exists>h. history_by_key db key = Inr (Some h) \<and> ts_target_lang (he_translation h) = target
                \<and> he_translation (lo_history outcome) = he_translation h)
         else (\<exists>ask result. provider = Some ask \<and> ask \<lparr>tq_text = pc_source_text content,
                tq_source_language = cc_source_lang (pc_canonical content), tq_target_language = target\<rparr> n = (Inr result, n')
                \<and> ts_translation (he_translation (lo_history outcome)) = tl_text result))
      \<and> (lookup_content other content target UseCache now2 eid2 ws' m = (r2, ws2, m2) \<longrightarrow>
           m2 = m \<and> (\<forall>again. r2 = Inr again \<longrightarrow> lo_cache_hit again \<and> he_translation (lo_history again) = he_translation (lo_history outcome))))"
proof (cases r)
  case (Inl e)
  then show ?thesis using lookup_content_result [OF a(1) run] by auto
next
  case (Inr outcome)
  obtain e db' where rec: "recorded db e eid outcome db'" "active_db ws' = Some db'"
    and e: "history_entry_typed e" "canonical_languages e" "stc_content_key (he_content e) = key" "ts_target_lang (he_translation e) = target"
    and how: "if lo_cache_hit outcome
         then n' = n \<and> mode = UseCache \<and> (\<exists>h. history_by_key db key = Inr (Some h) \<and> ts_target_lang (he_translation h) = target
                \<and> he_translation e = he_translation h)
         else (\<exists>ask result. provider = Some ask \<and> ask \<lparr>tq_text = pc_source_text content,
                tq_source_language = cc_source_lang (pc_canonical content), tq_target_language = target\<rparr> n = (Inr result, n')
                \<and> ts_translation (he_translation e) = tl_text result)"
    using lookup_content_result [OF a(1) run] Inr
  proof (elim disjE exE conjE)
    fix out d ask result assume *: "r = Inr out" "\<not> lo_cache_hit out" "provider = Some ask"
      "ask \<lparr>tq_text = pc_source_text content, tq_source_language = cc_source_lang (pc_canonical content),
             tq_target_language = target\<rparr> n = (Inr result, n')"
      "recorded db (new_history content target result now) eid out d" "active_db ws' = Some d"
    show thesis using * Inr content by (intro that [of "new_history content target result now" d])
        (auto simp: new_history_def Let_def history_entry_typed_def canonical_languages_def lang_text_def)
  next
    fix out d h assume *: "r = Inr out" "lo_cache_hit out" "mode = UseCache" "n' = n"
      "history_by_key db (pc_content_key content) = Inr (Some h)" "ts_target_lang (he_translation h) = target"
      "recorded db (h\<lparr>he_last_queried_at := now\<rparr>) eid out d" "active_db ws' = Some d"
    have "history_entry_typed h \<and> canonical_languages h \<and> stc_content_key (he_content h) = key"
      using a(2) content(1,2) *(5) history_found by simp
    then show thesis using * Inr content(1) by (intro that [of "h\<lparr>he_last_queried_at := now\<rparr>" d])
        (auto simp: history_entry_typed_def canonical_languages_def)
  qed simp
  have "synced_behind db (stc_content_key (he_content e))" using a(3) e(3) by simp
  note eff = recorded_effect [OF rec(1) a(2) e(1,2) this e(3) [symmetric]]
  have "ts_target_lang (he_translation (lo_history outcome)) = target" using rec(1) e(4) by (simp add: recorded_def)
  then have again: "m2 = m \<and> (\<forall>again. r2 = Inr again \<longrightarrow> lo_cache_hit again \<and> he_translation (lo_history again) = he_translation (lo_history outcome))"
    if "lookup_content other content target UseCache now2 eid2 ws' m = (r2, ws2, m2)"
    using cached_lookup [OF rec(2) _ _ that, of "lo_history outcome"] eff content(1) by auto
  have "lo_history outcome = e" using rec(1) by (simp add: recorded_def)
  then show ?thesis using rec(2) eff how again unfolding Inr sum.case by blast
qed

text \<open>The first lookup of a word through a Provider that answers, on a fresh Profile.\<close>

definition example_prepared :: prepared_content where
  "example_prepared = \<lparr>pc_source_text = [97], pc_canonical = \<lparr>cc_key_version = 1, cc_normalization_version = 1, cc_kind = Word,
     cc_source_lang = ''en'', cc_text = [97]\<rparr>, pc_content_key = example_content_key\<rparr>"

definition example_provider :: "nat provider" where
  "example_provider request n = (Inr \<lparr>tl_text = [98], tl_provider = ''p''\<rparr>, n + 1)"

lemma example_lookup:
  "\<exists>outcome ws'. lookup_content (Some example_provider) example_prepared ''zh'' UseCache 5 ''q1'' example_install 0
     = (Inr outcome, ws', 1) \<and> \<not> lo_cache_hit outcome"
proof -
  have "new_history example_prepared ''zh'' \<lparr>tl_text = [98], tl_provider = ''p''\<rparr> 5 = example_entry"
    by (simp add: new_history_def example_prepared_def example_entry_def)
  then have c: "commit_query False (new_history example_prepared ''zh'' \<lparr>tl_text = [98], tl_provider = ''p''\<rparr> 5) ''q1'' example_install
      = (Inr \<lparr>lo_history = example_entry, lo_query_stats = stats_of_row example_stats, lo_cache_hit = False\<rparr>,
         example_install\<lparr>ws_files := tbl_put ''profile-p1.sqlite3'' example_queried (ws_files example_install)\<rparr>)"
    using example_query by (simp add: commit_query_def execute_def tx_def example_install_def tbl_get_def)
  have "execute (reading (\<lambda>db. history_by_key db example_content_key)) example_install = (Inr None, example_install)"
    by (simp add: execute_def reading_def example_install_def tbl_get_def tbl_put_def history_by_key_def example_fresh_def
        migrated_profile_db_def opt_transpose_def)
  then show ?thesis using c
    by (simp add: lookup_content_def translate_and_commit_def example_prepared_def example_provider_def)
qed

theorem lookup_counts_and_caches_witness:
  "\<exists>outcome ws' db'. lookup_content (Some example_provider) example_prepared ''zh'' UseCache 5 ''q1'' example_install 0
       = (Inr outcome, ws', 1) \<and> active_db ws' = Some db' \<and> query_total db' example_content_key = 1"
proof -
  obtain outcome ws' where run: "lookup_content (Some example_provider) example_prepared ''zh'' UseCache 5 ''q1'' example_install 0
     = (Inr outcome, ws', 1)" using example_lookup by blast
  have a: "active_db example_install = Some example_fresh" by (simp add: active_db_def example_install_def tbl_get_def)
  have b: "synced_behind example_fresh example_content_key" "query_total example_fresh example_content_key = 0"
    by (simp_all add: synced_behind_def query_total_def query_stats_tx_def example_fresh_def migrated_profile_db_def opt_transpose_def)
  have c: "example_content_key = pc_content_key example_prepared" "length example_content_key = 32"
    "cc_key_version (pc_canonical example_prepared) \<le> u32_max"
    "parse_language_code (cc_source_lang (pc_canonical example_prepared)) = Inr (cc_source_lang (pc_canonical example_prepared))"
    by (simp_all add: example_prepared_def u32_max_def)
  have z: "parse_language_code ''zh'' = Inr ''zh''" by simp
  from lookup_counts_and_caches [OF a example_fresh_inv b(1) c z run, unfolded sum.case, THEN conjunct1]
  show ?thesis using b(2) run by auto
qed


section \<open>The gate\<close>

text \<open>
  Uses of the gate in any order: a capture is triggered or its permit dropped, a query begins, the flight
  of a content begins or its permit is dropped. A run keeps what the callers hold: the instants of the admitted
  captures and the tickets, newest first, the number of capture permits not yet dropped and the contents of
  the flight permits not yet dropped. A permit is a value that only an admission makes, so only a permit
  that is held can be dropped.
\<close>

datatype gate_use = Trigger nat | CaptureDone | Query | FlightBegin content_key | FlightEnd content_key

record gate_trace =
  gt_admitted :: "nat list"
  gt_tickets :: "query_ticket list"
  gt_permits :: nat
  gt_flights :: "content_key list"

fun use_gate :: "gate_use \<Rightarrow> gate_trace \<times> capture_gate \<Rightarrow> gate_trace \<times> capture_gate" where
  "use_gate (Trigger now) (t, g) =
     (case admit_capture now g of
        (Admitted, g1) \<Rightarrow> (t\<lparr>gt_admitted := now # gt_admitted t, gt_permits := Suc (gt_permits t)\<rparr>, g1)
      | (_, g1) \<Rightarrow> (t, g1))"
| "use_gate CaptureDone (t, g) =
     (if gt_permits t = 0 then (t, g) else (t\<lparr>gt_permits := gt_permits t - 1\<rparr>, drop_capture g))"
| "use_gate Query (t, g) = (case begin_query g of (ticket, g1) \<Rightarrow> (t\<lparr>gt_tickets := ticket # gt_tickets t\<rparr>, g1))"
| "use_gate (FlightBegin key) (t, g) =
     (case begin_content_flight key g of
        (granted, g1) \<Rightarrow> (if granted then t\<lparr>gt_flights := key # gt_flights t\<rparr> else t, g1))"
| "use_gate (FlightEnd key) (t, g) =
     (if key \<in> set (gt_flights t) then (t\<lparr>gt_flights := remove1 key (gt_flights t)\<rparr>, drop_flight key g) else (t, g))"

definition gate_trace_empty :: gate_trace where
  "gate_trace_empty = \<lparr>gt_admitted = [], gt_tickets = [], gt_permits = 0, gt_flights = []\<rparr>"

definition gate_run :: "nat \<Rightarrow> gate_use list \<Rightarrow> gate_trace \<times> capture_gate" where
  "gate_run debounce us = fold use_gate us (gate_trace_empty, gate_new debounce)"

definition queries :: "gate_use list \<Rightarrow> nat" where
  "queries us = length (filter (\<lambda>u. u = Query) us)"

definition ticket :: "nat \<Rightarrow> query_ticket" where
  "ticket k = \<lparr>qt_generation = k, qt_token = k\<rparr>"

definition gate_inv :: "nat \<Rightarrow> nat \<Rightarrow> gate_trace \<times> capture_gate \<Rightarrow> bool" where
  "gate_inv debounce k s \<longleftrightarrow> (case s of (t, g) \<Rightarrow> cg_debounce g = debounce
     \<and> cg_last_trigger g = (case gt_admitted t of [] \<Rightarrow> None | a # _ \<Rightarrow> Some a)
     \<and> successively (\<lambda>later earlier. debounce \<le> later - earlier) (gt_admitted t)
     \<and> gt_tickets t = map ticket (rev [1..<Suc k]) \<and> cg_current g = k \<and> cg_token g = k \<and> cg_cancelled g = rev [0..<k]
     \<and> gt_permits t = (if cg_capture_active g then 1 else 0) \<and> gt_flights t = cg_in_flight g \<and> distinct (cg_in_flight g))"

lemma use_gate_inv_query:
  assumes "gate_inv debounce k (t, g)" "k < u64_max"
  shows "gate_inv debounce (Suc k) (use_gate Query (t, g))"
  using assms by (auto simp: gate_inv_def begin_query_def Let_def saturating_add_u64_def ticket_def u64_max_def)

lemma use_gate_inv_other:
  assumes "gate_inv debounce k (t, g)" "u \<noteq> Query"
  shows "gate_inv debounce k (use_gate u (t, g))"
proof (cases u)
  case (Trigger now)
  then show ?thesis using assms
    by (cases "gt_admitted t") (auto simp: gate_inv_def admit_capture_def)
next
  case (FlightEnd key)
  then show ?thesis using assms by (auto simp: gate_inv_def drop_flight_def distinct_remove1_removeAll distinct_removeAll)
qed (use assms in \<open>auto simp: gate_inv_def drop_capture_def begin_content_flight_def split: if_splits\<close>)

lemma gate_run_inv:
  assumes "gate_inv debounce k s" "k + queries us \<le> u64_max"
  shows "gate_inv debounce (k + queries us) (fold use_gate us s)"
  using assms
proof (induction us arbitrary: k s)
  case (Cons u us)
  obtain t g where s: "s = (t, g)" by (cases s)
  show ?case
  proof (cases "u = Query")
    case True
    then have "k < u64_max" "k + queries (u # us) = Suc k + queries us" using Cons.prems(2) by (simp_all add: queries_def)
    moreover from this(1) have "gate_inv debounce (Suc k) (use_gate u s)"
      using Cons.prems(1) use_gate_inv_query [of debounce k t g] True s by simp
    ultimately show ?thesis using Cons.IH [of "Suc k" "use_gate u s"] Cons.prems(2) by simp
  next
    case False
    then have "gate_inv debounce k (use_gate u s)" using use_gate_inv_other [of debounce k t g u] Cons.prems(1) s by simp
    then show ?thesis using Cons.IH [of k "use_gate u s"] Cons.prems(2) False by (simp add: queries_def)
  qed
qed (simp add: queries_def)

text \<open>
  C37: the gate admits one capture at a time and the latest query wins. Whatever the order of its uses, at
  most one admitted capture has not been dropped; a trigger is answered busy exactly while there is one, and
  admitted exactly when there is none and the debounce time has passed since the last admission, so
  admitted captures are at least the debounce time apart. Tickets are numbered 1, 2, 3 and so on; of all
  tickets only the newest is current and only its token is not cancelled. No content has two flights that are
  granted and not dropped, and a flight is granted exactly when its content has none. The numbering
  supposes fewer than \<open>2^64\<close> queries, after which the saturating counter would give two tickets one
  number.
\<close>

theorem capture_gate_contract:
  assumes run: "gate_run debounce us = (t, g)" and bound: "queries us \<le> u64_max"
  shows "gt_permits t \<le> 1 \<and> (fst (admit_capture now g) = Busy \<longleftrightarrow> gt_permits t = 1)
    \<and> (fst (admit_capture now g) = Admitted \<longleftrightarrow>
         gt_permits t = 0 \<and> (gt_admitted t = [] \<or> debounce \<le> now - hd (gt_admitted t)))
    \<and> successively (\<lambda>later earlier. debounce \<le> later - earlier) (gt_admitted t)
    \<and> map qt_generation (gt_tickets t) = rev [1..<Suc (queries us)]
    \<and> (i < length (gt_tickets t) \<longrightarrow> (gate_is_current (qt_generation (gt_tickets t ! i)) g \<longleftrightarrow> i = 0)
        \<and> (qt_token (gt_tickets t ! i) \<in> set (cg_cancelled g) \<longleftrightarrow> i \<noteq> 0))
    \<and> distinct (gt_flights t) \<and> (fst (begin_content_flight key g) \<longleftrightarrow> key \<notin> set (gt_flights t))"
proof -
  let ?k = "queries us"
  have "gate_inv debounce 0 (gate_trace_empty, gate_new debounce)"
    by (simp add: gate_inv_def gate_new_def gate_trace_empty_def)
  from gate_run_inv [OF this, of us] have inv: "gate_inv debounce ?k (t, g)" using run bound by (simp add: gate_run_def)
  then have tickets: "gt_tickets t = map ticket (rev [1..<Suc ?k])" and g: "cg_current g = ?k" "cg_cancelled g = rev [0..<?k]"
    by (simp_all add: gate_inv_def)
  have "gt_tickets t ! i = ticket (?k - i)" if "i < ?k"
    using that by (simp add: tickets rev_nth Suc_diff_Suc del: upt_Suc)
  then have "i < length (gt_tickets t) \<longrightarrow> (gate_is_current (qt_generation (gt_tickets t ! i)) g \<longleftrightarrow> i = 0)
        \<and> (qt_token (gt_tickets t ! i) \<in> set (cg_cancelled g) \<longleftrightarrow> i \<noteq> 0)"
    by (auto simp: tickets g gate_is_current_def ticket_def simp del: upt_Suc)
  moreover have "map qt_generation (gt_tickets t) = rev [1..<Suc ?k]"
    by (simp add: tickets ticket_def comp_def del: upt_Suc)
  moreover have "fst (admit_capture now g) = Admitted \<longleftrightarrow>
      gt_permits t = 0 \<and> (gt_admitted t = [] \<or> debounce \<le> now - hd (gt_admitted t))"
    using inv by (cases "gt_admitted t") (auto simp: gate_inv_def admit_capture_def)
  moreover have "fst (admit_capture now g) = Busy \<longleftrightarrow> gt_permits t = 1"
    using inv by (auto simp: gate_inv_def admit_capture_def)
  ultimately show ?thesis using inv by (simp add: gate_inv_def begin_content_flight_def)
qed

theorem capture_gate_contract_witness:
  "\<exists>t g. gate_run 250 [Trigger 1000, Query, Trigger 1100, CaptureDone, Trigger 1200, Trigger 1300, Query,
       FlightBegin [1], FlightBegin [1], FlightBegin [2], FlightEnd [1]] = (t, g)
     \<and> map qt_generation (gt_tickets t) = [2, 1] \<and> gt_admitted t = [1300, 1000] \<and> gt_permits t = 1
     \<and> fst (admit_capture 9000 g) = Busy \<and> gt_flights t = [[2]] \<and> fst (begin_content_flight [1] g)
     \<and> \<not> fst (begin_content_flight [2] g)"
proof -
  let ?us = "[Trigger 1000, Query, Trigger 1100, CaptureDone, Trigger 1200, Trigger 1300, Query,
       FlightBegin [1], FlightBegin [1], FlightBegin [2], FlightEnd [1]]"
  obtain t g where run: "gate_run 250 ?us = (t, g)" by (meson surj_pair)
  then have t: "gt_admitted t = [1300, 1000]" "gt_permits t = 1" "gt_flights t = [[2]]"
    by (auto simp: gate_run_def gate_new_def gate_trace_empty_def admit_capture_def drop_capture_def begin_query_def
        begin_content_flight_def drop_flight_def Let_def)
  have q: "queries ?us = 2" by (simp add: queries_def)
  have "rev [1..<Suc (queries ?us)] = [2, 1]" unfolding q by (simp add: upt_rec)
  moreover note capture_gate_contract [OF run, of 9000 0 "[1]"] capture_gate_contract [OF run, of 9000 0 "[2]"]
  ultimately show ?thesis using run t q by (intro exI [of _ t] exI [of _ g] conjI) (simp_all add: u64_max_def)
qed

end
