(* ===== verification/Device_Identity.thy ===== *)
theory Device_Identity
  imports Desktop_Lookup
begin

text \<open>
  The identity of an installation: \<open>crates/storage/src/installation.rs\<close>, the file that holds it, and
  \<open>apps/desktop/src/device_identity.rs\<close>, its replacement after the Server revoked the Device. The file
  system decides whether a write succeeds; \<open>serde_json\<close> is an argument.
\<close>

section \<open>The installation file\<close>

datatype platform = Windows | Macos

fun platform_as_str :: "platform \<Rightarrow> string" where
  "platform_as_str Windows = ''windows''"
| "platform_as_str Macos = ''macos''"

record installation_metadata =
  im_device_id :: uuid
  im_platform :: platform
  im_device_name :: utext

record installation_json =
  ij_read :: "byte list \<Rightarrow> installation_metadata option"
  ij_write :: "installation_metadata \<Rightarrow> byte list"

text \<open>\<open>None\<close> is a file that does not exist.\<close>

type_synonym installation_file = "byte list option"

definition validate_metadata :: "installation_metadata \<Rightarrow> storage_error + unit" where
  "validate_metadata m =
     (if im_device_id m = nil_uuid then Inl (InvalidData ''device id is nil'')
      else if trim (im_device_name m) = [] then Inl (InvalidData ''device name is empty'') else Inr ())"

text \<open>\<open>persist\<close> writes a temporary file and renames it, so that it takes effect or not at all.\<close>

definition persist_installation ::
  "installation_json \<Rightarrow> bool \<Rightarrow> installation_metadata \<Rightarrow> installation_file \<Rightarrow> (storage_error + unit) \<times> installation_file" where
  "persist_installation js written m file = (if written then (Inr (), Some (ij_write js m)) else (Inl StIo, file))"

definition read_installation :: "installation_json \<Rightarrow> byte list \<Rightarrow> storage_error + installation_metadata" where
  "read_installation js bytes =
     rbind (ok_or StJson (ij_read js bytes)) (\<lambda>m. rbind (validate_metadata m) (\<lambda>_. Inr m))"

definition load_or_create ::
  "installation_json \<Rightarrow> bool \<Rightarrow> uuid \<Rightarrow> platform \<Rightarrow> utext \<Rightarrow> installation_file \<Rightarrow>
   (storage_error + installation_metadata) \<times> installation_file" where
  "load_or_create js written new_id platform device_name file =
     (case file of
        Some bytes \<Rightarrow> (read_installation js bytes, file)
      | None \<Rightarrow>
          (if trim device_name = [] then (Inl (InvalidData ''device name is empty''), file)
           else let m = \<lparr>im_device_id = new_id, im_platform = platform, im_device_name = trim device_name\<rparr>
                in case persist_installation js written m file of
                     (Inl e, file1) \<Rightarrow> (Inl e, file1)
                   | (Inr _, file1) \<Rightarrow> (Inr m, file1)))"

definition replace_revoked_identity ::
  "installation_json \<Rightarrow> bool \<Rightarrow> uuid \<Rightarrow> uuid \<Rightarrow> installation_file \<Rightarrow>
   (storage_error + installation_metadata) \<times> installation_file" where
  "replace_revoked_identity js written expected_current replacement file =
     (if replacement = nil_uuid \<or> replacement = expected_current
      then (Inl (InvalidData ''replacement device identity is invalid''), file)
      else case file of
        None \<Rightarrow> (Inl StIo, file)
      | Some bytes \<Rightarrow>
          (case read_installation js bytes of
             Inl e \<Rightarrow> (Inl e, file)
           | Inr m \<Rightarrow>
               (if im_device_id m \<noteq> expected_current
                then (Inl (InvalidData ''installation device identity changed''), file)
                else let m1 = m\<lparr>im_device_id := replacement\<rparr>
                     in case persist_installation js written m1 file of
                          (Inl e, file1) \<Rightarrow> (Inl e, file1)
                        | (Inr _, file1) \<Rightarrow> (Inr m1, file1))))"

section \<open>Replacement after a revocation\<close>

datatype device_identity_error =
  ConfirmationRequired | DiDatabase database_worker_error | DiStorage storage_error | DiCredentialStore auth_error

definition old_sessions :: "uuid \<Rightarrow> profile_metadata list \<Rightarrow> credential_scope list" where
  "old_sessions device_id profiles =
     concat (map (\<lambda>p. case (pm_user_id p, pm_server_origin p) of
         (Some user_id, Some server_origin) \<Rightarrow> [refresh_scope server_origin user_id device_id]
       | _ \<Rightarrow> []) profiles)"

fun delete_credentials :: "'k keyring \<Rightarrow> credential_scope list \<Rightarrow> 'k \<Rightarrow> (auth_error + unit) \<times> 'k" where
  "delete_credentials kr [] k = (Inr (), k)"
| "delete_credentials kr (scope # scopes) k =
     (case credential_delete kr scope k of Inl e \<Rightarrow> (Inl e, k) | Inr k1 \<Rightarrow> delete_credentials kr scopes k1)"

text \<open>What the file system and SQLite let a recovery write: the installation file, twice, and the Profile
  files when the new identity is set and when it is taken back.\<close>

record recovery_writes =
  rw_created :: bool
  rw_replaced :: bool
  rw_profiles :: identity_writes
  rw_undo :: identity_writes

text \<open>
  \<open>regenerate_after_revocation\<close>; \<open>written\<close> are the outcomes of the writes, \<open>replacement\<close> the new random
  identity. The state is the file, the Profile files and the credentials. The outcome of taking the new
  identity back is dropped, as in the code.
\<close>

definition regenerate_after_revocation ::
  "installation_json \<Rightarrow> 'k keyring \<Rightarrow> uuid_parser \<Rightarrow> recovery_writes \<Rightarrow> uuid \<Rightarrow> uuid \<Rightarrow> bool \<Rightarrow> platform \<Rightarrow> utext \<Rightarrow> i64 \<Rightarrow>
   installation_file \<Rightarrow> worker_state \<Rightarrow> 'k \<Rightarrow>
   (device_identity_error + installation_metadata) \<times> installation_file \<times> worker_state \<times> 'k" where
  "regenerate_after_revocation js kr up written new_id replacement confirmed platform device_name now file ws k =
     (if \<not> confirmed then (Inl ConfirmationRequired, file, ws, k)
      else case load_or_create js (rw_created written) new_id platform device_name file of
        (Inl e, file1) \<Rightarrow> (Inl (DiStorage e), file1, ws, k)
      | (Inr current, file1) \<Rightarrow>
          (case all_profile_metadata up ws of
             Inl e \<Rightarrow> (Inl (DiDatabase e), file1, ws, k)
           | Inr profiles \<Rightarrow>
               (case replace_profile_device_identity (rw_profiles written) (im_device_id current) replacement now ws of
                  (Inl e, ws1) \<Rightarrow> (Inl (DiDatabase e), file1, ws1, k)
                | (Inr _, ws1) \<Rightarrow>
                    (case replace_revoked_identity js (rw_replaced written) (im_device_id current) replacement file1 of
                       (Inl e, file2) \<Rightarrow>
                         (Inl (DiStorage e), file2,
                          snd (replace_profile_device_identity (rw_undo written) replacement (im_device_id current) now ws1), k)
                     | (Inr installation, file2) \<Rightarrow>
                         (case delete_credentials kr (old_sessions (im_device_id current) profiles) k of
                            (Inl e, k1) \<Rightarrow> (Inl (DiCredentialStore e), file2, ws1, k1)
                          | (Inr _, k1) \<Rightarrow> (Inr installation, file2, ws1, k1))))))"

section \<open>Deleting credentials\<close>

context keyring_contract begin

lemma deleted_stays: "credential_get kr sc k = Inr None \<Longrightarrow> credential_delete kr other k = Inr k' \<Longrightarrow> credential_get kr sc k' = Inr None"
  using delete_get [of other k k'] delete_apart [of other k k' sc]
  by (cases "accounts_apart other sc") (auto simp: accounts_apart_def credential_get_def)

lemma deleted_kept: "credential_get kr sc k = Inr None \<Longrightarrow> delete_credentials kr scopes k = (r, k') \<Longrightarrow> credential_get kr sc k' = Inr None"
  by (induction scopes arbitrary: k) (auto split: sum.splits intro: deleted_stays)

lemma all_deleted: "delete_credentials kr scopes k = (Inr (), k') \<Longrightarrow> sc \<in> List.set scopes \<Longrightarrow> credential_get kr sc k' = Inr None"
  by (induction scopes arbitrary: k) (auto split: sum.splits intro: deleted_kept delete_get)

lemma apart_kept:
  "delete_credentials kr scopes k = (r, k') \<Longrightarrow> list_all (\<lambda>other. accounts_apart other sc) scopes
     \<Longrightarrow> credential_get kr sc k' = credential_get kr sc k"
  by (induction scopes arbitrary: k) (auto split: sum.splits dest: delete_apart)

end

section \<open>Undoing a replacement\<close>

lemma tbl_put_keys: "tbl_get t k = Some x \<Longrightarrow> map fst (tbl_put k v t) = map fst t"
  by (induction t) (auto simp: tbl_get_def tbl_put_def split: if_splits)

definition all_reversible :: "uuid \<Rightarrow> uuid \<Rightarrow> string list \<Rightarrow> (string, profile_db) table \<Rightarrow> bool" where
  "all_reversible old new paths files \<longleftrightarrow> (\<forall>p \<in> set paths. \<exists>db. tbl_get files p = Some db \<and> reversible new db
     \<and> old \<noteq> nil_uuid \<and> new \<noteq> nil_uuid \<and> old \<noteq> new)"

lemma replaced_reversible:
  assumes "replace_identities io old new now changed paths files = (Inr (), files')" "distinct (changed @ paths)"
    "all_reversible old new changed files" "\<And>p db. p \<in> set paths \<Longrightarrow> tbl_get files p = Some db \<Longrightarrow> profile_inv db"
  shows "all_reversible old new (changed @ paths) files' \<and> map fst files' = map fst files"
  using assms
proof (induction paths arbitrary: changed files)
  case (Cons p ps)
  obtain files1 where f1: "replace_at (iw_forward io) old new now p files = Inr files1"
    "replace_identities io old new now (changed @ [p]) ps files1 = (Inr (), files')"
    using Cons.prems(1) by (auto split: sum.splits)
  obtain db db' where db: "tbl_get files p = Some db" "replace_device_identity db old new now = Inr db'" "files1 = tbl_put p db' files"
    using replace_at_Inr [OF f1(1)] by metis
  have "reversible new db'" using replace_reversible [OF _ db(2)] Cons.prems(4) [of p db] db(1) by simp
  then have "all_reversible old new (changed @ [p]) files1"
    using Cons.prems(2,3) replace_swapped(2-4) [OF db(2)] db(3) by (auto simp: all_reversible_def)
  moreover have "profile_inv d" if "q \<in> set ps" "tbl_get files1 q = Some d" for q d
    using that Cons.prems(2,4) db(3) by (auto split: if_splits)
  moreover have "map fst files1 = map fst files" using db(1,3) by (simp add: tbl_put_keys)
  ultimately show ?case using Cons.IH [OF f1(2)] Cons.prems(2) by simp
qed simp

lemma replace_back_all:
  assumes "all_reversible old new paths files" "distinct paths" "list_all (iw_forward io) paths"
  shows "\<exists>files'. replace_identities io new old now changed paths files = (Inr (), files')"
  using assms
proof (induction paths arbitrary: changed files)
  case (Cons p ps)
  then obtain db where db: "tbl_get files p = Some db" "reversible new db" "old \<noteq> nil_uuid" "new \<noteq> nil_uuid" "old \<noteq> new"
    by (auto simp: all_reversible_def)
  obtain db' where step: "replace_at (iw_forward io) new old now p files = Inr (tbl_put p db' files)"
    using replace_at_back(1) [OF db] Cons.prems(3) by fastforce
  moreover have "all_reversible old new ps (tbl_put p db' files)" using Cons.prems by (auto simp: all_reversible_def)
  ultimately show ?case using Cons.IH Cons.prems(2,3) by simp
qed simp

lemma profile_path_iff:
  "p \<in> set (profile_database_paths ws) \<longleftrightarrow> is_profile_file p \<and> tbl_has (ws_files ws) p"
  by (auto simp: profile_database_paths_def tbl_has_def map_of_eq_None_iff)

text \<open>A replacement of all Profiles followed by the opposite one. Where that one fails, its own rollback
  sets the new identity again.\<close>

lemma replace_twice:
  assumes one: "replace_profile_device_identity io old new now ws = (Inr (), ws1)"
    and two: "replace_profile_device_identity io' new old now ws1 = (r, ws2)"
    and wf: "tbl_wf (ws_files ws)" and inv: "\<forall>p db. tbl_get (ws_files ws) p = Some db \<longrightarrow> profile_inv db"
    and p: "is_profile_file p" "tbl_has (ws_files ws) p"
  shows "rel_option (identity_undone (list_all (iw_forward io') (profile_database_paths ws)) old new)
      (tbl_get (ws_files ws) p) (tbl_get (ws_files ws2) p)"
proof -
  let ?paths = "profile_database_paths ws"
  obtain files1 where f1: "replace_identities io old new now [] ?paths (ws_files ws) = (Inr (), files1)" "ws1 = ws\<lparr>ws_files := files1\<rparr>"
    using one by (cases "replace_identities io old new now [] ?paths (ws_files ws)")
      (auto simp: replace_profile_device_identity_def map_err_Inr)
  have d: "distinct ?paths" using wf by (simp add: profile_database_paths_def tbl_wf_def)
  have rv: "all_reversible old new ?paths files1" "map fst files1 = map fst (ws_files ws)"
    using replaced_reversible [OF f1(1)] d inv by (auto simp: all_reversible_def)
  have paths: "profile_database_paths ws1 = ?paths" using rv(2) f1(2) by (simp add: profile_database_paths_def)
  obtain r0 files2 where f2: "replace_identities io' new old now [] ?paths files1 = (r0, files2)" "ws_files ws2 = files2"
    using two paths f1(2) by (auto simp: replace_profile_device_identity_def split: prod.splits)
  have in_paths: "p \<in> set ?paths" using p by (simp add: profile_path_iff)
  have inv': "profile_inv db" if "tbl_get (ws_files ws) x = Some db" for x db using inv that by blast
  obtain db db1 where s1: "tbl_get (ws_files ws) p = Some db" "tbl_get files1 p = Some db1" "identity_swapped old new db db1"
    using device_identity_all_or_none [OF one wf] inv' p f1(2) by auto
  have rev_inv: "profile_inv db" if "p \<in> set ?paths" "tbl_get files1 p = Some db" for p db
    using rv(1) that by (auto simp: all_reversible_def reversible_def)
  have "(\<forall>p. p \<notin> set ([] @ ?paths) \<longrightarrow> tbl_get files2 p = tbl_get files1 p)
     \<and> (case r0 of
          Inr _ \<Rightarrow> \<forall>p \<in> set ([] @ ?paths). \<exists>db db'. tbl_get files1 p = Some db
            \<and> tbl_get files2 p = Some db' \<and> identity_swapped new old db db'
        | Inl e \<Rightarrow> \<forall>p. rel_option (identity_undone (iw_rollback io' p) new old) (tbl_get files1 p) (tbl_get files2 p))"
    by (rule replace_identities_result [OF f2(1)]) (use d rev_inv in auto)
  then show ?thesis
  proof (cases r0)
    case (Inr u)
    then obtain db2 where "tbl_get files2 p = Some db2" "identity_swapped new old db1 db2"
      using \<open>_ \<and> _\<close> in_paths s1(2) by fastforce
    then show ?thesis using swapped_back [OF s1(3)] s1(1) f2(2) by (simp add: identity_undone_def)
  next
    case (Inl e)
    then have "rel_option (identity_undone (iw_rollback io' p) new old) (tbl_get files1 p) (tbl_get files2 p)"
      using \<open>_ \<and> _\<close> by simp
    then obtain db2 where db2: "tbl_get files2 p = Some db2" "identity_kept db1 db2 \<or> identity_swapped new old db1 db2"
      using s1(2) by (auto simp: identity_undone_def option_rel_Some1)
    moreover have "\<not> list_all (iw_forward io') ?paths"
      using replace_back_all [OF rv(1) d, of io' now "[]"] f2(1) Inl by auto
    ultimately show ?thesis
      using swapped_kept [OF s1(3)] swapped_back [OF s1(3)] s1(1) f2(2) by (auto simp: identity_undone_def)
  qed
qed

section \<open>Properties\<close>

abbreviation profiles_undone :: "bool \<Rightarrow> uuid \<Rightarrow> uuid \<Rightarrow> worker_state \<Rightarrow> worker_state \<Rightarrow> bool" where
  "profiles_undone undo old new ws ws' \<equiv> (\<forall>p. is_profile_file p \<and> tbl_has (ws_files ws) p \<longrightarrow>
     rel_option (identity_undone undo old new) (tbl_get (ws_files ws) p) (tbl_get (ws_files ws') p))"

text \<open>The writes that take the new identity back, on every Profile file.\<close>

definition undo_works :: "recovery_writes \<Rightarrow> worker_state \<Rightarrow> bool" where
  "undo_works written ws \<longleftrightarrow> list_all (iw_rollback (rw_profiles written)) (profile_database_paths ws)
     \<and> list_all (iw_forward (rw_undo written)) (profile_database_paths ws)"

lemma undone_mono: "identity_undone u old new db db' \<Longrightarrow> (v \<Longrightarrow> u) \<Longrightarrow> identity_undone v old new db db'"
  by (auto simp: identity_undone_def)

abbreviation profiles_swapped :: "uuid \<Rightarrow> uuid \<Rightarrow> worker_state \<Rightarrow> worker_state \<Rightarrow> bool" where
  "profiles_swapped old new ws ws' \<equiv> (\<forall>p. is_profile_file p \<and> tbl_has (ws_files ws) p \<longrightarrow>
     (\<exists>db db'. tbl_get (ws_files ws) p = Some db \<and> tbl_get (ws_files ws') p = Some db' \<and> identity_swapped old new db db'))"

lemma replace_revoked_result:
  assumes "replace_revoked_identity js written old new file = (r, file')"
  shows "(\<exists>e. r = Inl e) \<and> file' = file
    \<or> (\<exists>m. r = Inr m \<and> im_device_id m = new \<and> file' = Some (ij_write js m))"
proof (cases "file")
  case None
  then show ?thesis using assms by (auto simp: replace_revoked_identity_def split: if_splits)
next
  case (Some bytes)
  show ?thesis
  proof (cases "read_installation js bytes")
    case (Inl e)
    have "(\<exists>e. r = Inl e) \<and> file' = file" using assms by (auto simp: replace_revoked_identity_def Some Inl split: if_splits)
    then show ?thesis ..
  next
    case (Inr m)
    then show ?thesis using assms Some
      by (auto simp: replace_revoked_identity_def persist_installation_def Let_def split: if_splits)
  qed
qed

lemma load_keeps_file: "load_or_create js written new_id platform name file = (r, file') \<Longrightarrow> file \<noteq> None \<Longrightarrow> file' = file"
  by (cases "file") (auto simp: load_or_create_def)

lemma confirmed_regeneration:
  assumes kr: "keyring_contract kr" and wf: "tbl_wf (ws_files ws)"
    and inv: "\<forall>p db. tbl_get (ws_files ws) p = Some db \<longrightarrow> profile_inv db"
    and run: "regenerate_after_revocation js kr up written new_id replacement True platform device_name now file ws k = (r, file', ws', k')"
    and l: "load_or_create js (rw_created written) new_id platform device_name file = (Inr current, file1)"
    and profiles: "all_profile_metadata up ws = Inr profiles"
  shows "case r of
      Inr m \<Rightarrow> im_device_id m = replacement \<and> file' = Some (ij_write js m) \<and> profiles_swapped (im_device_id current) replacement ws ws'
        \<and> list_all (\<lambda>sc. credential_get kr sc k' = Inr None) (old_sessions (im_device_id current) profiles)
        \<and> (\<forall>sc. list_all (\<lambda>other. accounts_apart other sc) (old_sessions (im_device_id current) profiles)
             \<longrightarrow> credential_get kr sc k' = credential_get kr sc k)
    | Inl (DiCredentialStore e) \<Rightarrow> (\<exists>m. im_device_id m = replacement \<and> file' = Some (ij_write js m))
        \<and> profiles_swapped (im_device_id current) replacement ws ws'
        \<and> (\<forall>sc. list_all (\<lambda>other. accounts_apart other sc) (old_sessions (im_device_id current) profiles)
             \<longrightarrow> credential_get kr sc k' = credential_get kr sc k)
    | Inl e \<Rightarrow> k' = k \<and> (file \<noteq> None \<longrightarrow> file' = file)
        \<and> profiles_undone (undo_works written ws) (im_device_id current) replacement ws ws'"
proof -
  let ?old = "im_device_id current"
  obtain q ws1 where one: "replace_profile_device_identity (rw_profiles written) ?old replacement now ws = (q, ws1)" by (meson surj_pair)
  note all = device_identity_all_or_none [OF one wf inv [rule_format]]
  obtain i file2 where i: "replace_revoked_identity js (rw_replaced written) ?old replacement file1 = (i, file2)" by (meson surj_pair)
  obtain d k1 where d: "delete_credentials kr (old_sessions ?old profiles) k = (d, k1)" by (meson surj_pair)
  note run' = run [unfolded regenerate_after_revocation_def l prod.case sum.case profiles one i d]
  note f1 = load_keeps_file [OF l]
  show ?thesis
  proof (cases q)
    case (Inl e)
    have "profiles_undone (undo_works written ws) ?old replacement ws ws1"
    proof (intro allI impI)
      fix p assume p: "is_profile_file p \<and> tbl_has (ws_files ws) p"
      have "rel_option (identity_undone (iw_rollback (rw_profiles written) p) ?old replacement)
          (tbl_get (ws_files ws) p) (tbl_get (ws_files ws1) p)" using all Inl by simp
      moreover have "undo_works written ws \<Longrightarrow> iw_rollback (rw_profiles written) p"
        using p by (simp add: undo_works_def list_all_iff profile_path_iff)
      ultimately show "rel_option (identity_undone (undo_works written ws) ?old replacement)
          (tbl_get (ws_files ws) p) (tbl_get (ws_files ws1) p)"
        by (elim option.rel_mono_strong undone_mono)
    qed
    then show ?thesis using run' Inl f1 by auto
  next
    case q: (Inr u)
    show ?thesis
    proof (cases i)
      case (Inl e)
      have one': "replace_profile_device_identity (rw_profiles written) ?old replacement now ws = (Inr (), ws1)" using one q by simp
      obtain r2 ws2 where two: "replace_profile_device_identity (rw_undo written) replacement ?old now ws1 = (r2, ws2)" by (meson surj_pair)
      have "profiles_undone (undo_works written ws) ?old replacement ws ws2"
      proof (intro allI impI)
        fix p assume p: "is_profile_file p \<and> tbl_has (ws_files ws) p"
        from replace_twice [OF one' two wf inv p [THEN conjunct1] p [THEN conjunct2]]
        show "rel_option (identity_undone (undo_works written ws) ?old replacement)
            (tbl_get (ws_files ws) p) (tbl_get (ws_files ws2) p)"
          by (rule option.rel_mono_strong) (auto simp: undo_works_def elim: undone_mono)
      qed
      then show ?thesis using run' q Inl replace_revoked_result [OF i] f1 two by auto
    next
      case (Inr m)
      have m: "im_device_id m = replacement" "file2 = Some (ij_write js m)" using replace_revoked_result [OF i] Inr by auto
      have s: "profiles_swapped ?old replacement ws ws1" using all q by simp
      have gone: "d = Inr () \<Longrightarrow> list_all (\<lambda>sc. credential_get kr sc k1 = Inr None) (old_sessions ?old profiles)"
        using keyring_contract.all_deleted [OF kr] d by (auto simp: list_all_iff)
      have apart: "\<forall>sc. list_all (\<lambda>other. accounts_apart other sc) (old_sessions ?old profiles)
             \<longrightarrow> credential_get kr sc k1 = credential_get kr sc k"
        using keyring_contract.apart_kept [OF kr d] by blast
      show ?thesis using run' q Inr m s gone apart by (cases d) auto
    qed
  qed
qed

text \<open>
  C34: what the replacement of a revoked Device identity leaves behind, whichever write fails. When it
  succeeds, the installation file and every Profile carry the new identity, the refresh tokens of the old
  one are gone and every other credential is as before. When a credential cannot be deleted, the new
  identity is in place everywhere and only tokens of the old one may be missing. On any other error, an
  unconfirmed request included, the credentials and an existing installation file are unchanged and every
  Profile has its history, favorites and pending events; it also has the old identity, except where the
  identity had been replaced and taking it back failed, which the code does not report. Counters are not
  part of the statement.
\<close>

theorem device_regeneration_consistent:
  assumes kr: "keyring_contract kr" and wf: "tbl_wf (ws_files ws)"
    and inv: "\<forall>p db. tbl_get (ws_files ws) p = Some db \<longrightarrow> profile_inv db"
    and run: "regenerate_after_revocation js kr up written new_id replacement confirmed platform device_name now file ws k
      = (r, file', ws', k')"
  shows "case r of
      Inr m \<Rightarrow> confirmed \<and> im_device_id m = replacement \<and> file' = Some (ij_write js m)
        \<and> (\<exists>old profiles. profiles_swapped old replacement ws ws' \<and> all_profile_metadata up ws = Inr profiles
             \<and> list_all (\<lambda>sc. credential_get kr sc k' = Inr None) (old_sessions old profiles)
             \<and> (\<forall>sc. list_all (\<lambda>other. accounts_apart other sc) (old_sessions old profiles)
                  \<longrightarrow> credential_get kr sc k' = credential_get kr sc k))
    | Inl (DiCredentialStore e) \<Rightarrow> (\<exists>m. im_device_id m = replacement \<and> file' = Some (ij_write js m))
        \<and> (\<exists>old profiles. profiles_swapped old replacement ws ws' \<and> all_profile_metadata up ws = Inr profiles
             \<and> (\<forall>sc. list_all (\<lambda>other. accounts_apart other sc) (old_sessions old profiles)
                  \<longrightarrow> credential_get kr sc k' = credential_get kr sc k))
    | Inl e \<Rightarrow> k' = k \<and> (file \<noteq> None \<longrightarrow> file' = file)
        \<and> (\<exists>old. profiles_undone (undo_works written ws) old replacement ws ws')"
proof (cases "load_or_create js (rw_created written) new_id platform device_name file")
  case (Pair l file1)
  have same: "\<exists>old. profiles_undone (undo_works written ws) old replacement ws ws" by (simp add: identity_undone_refl)
  note f1 = load_keeps_file [OF Pair]
  show ?thesis
  proof (cases "confirmed \<and> (\<exists>current profiles. l = Inr current \<and> all_profile_metadata up ws = Inr profiles)")
    case False
    then obtain e where "r = Inl e" "ws' = ws" "k' = k" "file \<noteq> None \<longrightarrow> file' = file" "\<forall>x. e \<noteq> DiCredentialStore x"
      using run Pair f1
      by (cases l; cases "all_profile_metadata up ws") (auto simp: regenerate_after_revocation_def split: if_splits)
    then show ?thesis using same by (cases e) simp_all
  next
    case True
    then obtain current profiles where c: "l = Inr current" "all_profile_metadata up ws = Inr profiles" "confirmed" by blast
    have "regenerate_after_revocation js kr up written new_id replacement True platform device_name now file ws k = (r, file', ws', k')"
      using run c(3) by simp
    note result = confirmed_regeneration [OF kr wf inv this Pair [unfolded c(1)] c(2)]
    show ?thesis
    proof (cases r)
      case (Inl e)
      then show ?thesis using result c(2) by (cases e) auto
    next
      case (Inr m)
      then show ?thesis using result c(2,3) by auto
    qed
  qed
qed

text \<open>An installation with one unbound Profile gets a new identity.\<close>

definition example_installation :: installation_metadata where
  "example_installation = \<lparr>im_device_id = ''d1'', im_platform = Macos, im_device_name = ascii ''mac''\<rparr>"

definition example_installation_json :: installation_json where
  "example_installation_json =
     \<lparr>ij_read = (\<lambda>bytes. if bytes = [1] then Some example_installation else None),
      ij_write = (\<lambda>m. if im_device_id m = ''d1'' then [1] else [2])\<rparr>"

definition example_single :: worker_state where
  "example_single = \<lparr>ws_files = [(''profile-p1.sqlite3'', example_fresh)], ws_active = Some ''profile-p1.sqlite3''\<rparr>"

definition example_recovery :: recovery_writes where
  "example_recovery = \<lparr>rw_created = True, rw_replaced = True, rw_profiles = all_writes, rw_undo = all_writes\<rparr>"

lemma example_regeneration:
  "\<exists>ws'. regenerate_after_revocation example_installation_json table_keyring Some example_recovery ''d0'' ''d9'' True Macos
      (ascii ''mac'') 9 (Some [1]) example_single k = (Inr (example_installation\<lparr>im_device_id := ''d9''\<rparr>), Some [2], ws', k)"
proof -
  have paths: "profile_database_paths example_single = [''profile-p1.sqlite3'']"
    by (simp add: profile_database_paths_def example_single_def is_profile_file_def)
  have "all_profile_metadata Some example_single = Inr [example_metadata]"
    unfolding all_profile_metadata_def paths
    by (simp add: example_single_def tbl_get_def read_profile_metadata_def example_fresh_def
        example_meta_def example_metadata_def migrated_profile_db_def parse_uuid_def sqlite_u64_def u64_of_i64_def opt_transpose_def)
  moreover obtain ws1 where "replace_profile_device_identity all_writes ''d1'' ''d9'' 9 example_single = (Inr (), ws1)"
    unfolding replace_profile_device_identity_def paths
    by (simp add: example_single_def replace_at_def tbl_get_def all_writes_def
        replace_device_identity_def example_fresh_def example_meta_def nil_uuid_def migrated_profile_db_def tbl_update_all_def)
  moreover have "trim (ascii ''mac'') \<noteq> []" by (simp add: trim_def trim_end_matches_def ascii_def is_whitespace_def)
  ultimately show ?thesis
    by (simp add: regenerate_after_revocation_def load_or_create_def replace_revoked_identity_def read_installation_def
        validate_metadata_def persist_installation_def example_installation_json_def example_installation_def nil_uuid_def
        old_sessions_def example_metadata_def example_recovery_def)
qed

theorem device_regeneration_consistent_witness:
  "\<exists>ws' old. regenerate_after_revocation example_installation_json table_keyring Some example_recovery ''d0'' ''d9'' True Macos
      (ascii ''mac'') 9 (Some [1]) example_single [] = (Inr (example_installation\<lparr>im_device_id := ''d9''\<rparr>), Some [2], ws', [])
    \<and> (\<exists>db db'. tbl_get (ws_files example_single) ''profile-p1.sqlite3'' = Some db
         \<and> tbl_get (ws_files ws') ''profile-p1.sqlite3'' = Some db' \<and> identity_swapped old ''d9'' db db')"
proof -
  obtain ws' where run: "regenerate_after_revocation example_installation_json table_keyring Some example_recovery ''d0'' ''d9'' True Macos
      (ascii ''mac'') 9 (Some [1]) example_single [] = (Inr (example_installation\<lparr>im_device_id := ''d9''\<rparr>), Some [2], ws', [])"
    using example_regeneration by blast
  have wf: "tbl_wf (ws_files example_single)" by (simp add: example_single_def tbl_wf_def)
  have inv: "\<forall>p db. tbl_get (ws_files example_single) p = Some db \<longrightarrow> profile_inv db"
    using example_fresh_inv by (auto simp: example_single_def tbl_get_def split: if_splits)
  have p: "is_profile_file ''profile-p1.sqlite3'' \<and> tbl_has (ws_files example_single) ''profile-p1.sqlite3''"
    by (simp add: is_profile_file_def example_single_def tbl_has_def)
  obtain old where "profiles_swapped old ''d9'' example_single ws'"
    using device_regeneration_consistent [OF memory.keyring_contract_axioms wf inv run] by auto
  with p run show ?thesis by blast
qed

end
