(* ===== verification/Desktop_Application.thy ===== *)
theory Desktop_Application
  imports Device_Identity
begin

text \<open>
  \<open>apps/desktop/src/application.rs\<close>, the composition root of the Desktop: network and Provider settings,
  the lookup service built from them, lookups and their generations, login, resume and logout, and the
  recovery of a revoked Device; with \<open>atomic_write\<close> of \<open>local_store.rs\<close>, \<open>preferences.rs\<close> and the
  compatibility handshake of \<open>sync_transport.rs\<close>. Operations run one after the other; the tasks of the
  sync worker are those of \<open>Sync_Engine\<close> and are not interleaved here. URLs, JSON, HTTP, versions and the
  keyring are arguments.
\<close>

section \<open>Settings\<close>

datatype proxy_kind = ProxyHttp | ProxySocks5

record network_preferences =
  np_proxy_kind :: proxy_kind
  np_proxy_address :: utext
  np_provider_proxy_enabled :: bool
  np_update_proxy_enabled :: bool

definition default_network_preferences :: network_preferences where
  "default_network_preferences = \<lparr>np_proxy_kind = ProxyHttp, np_proxy_address = [],
     np_provider_proxy_enabled = False, np_update_proxy_enabled = False\<rparr>"

record provider_preferences =
  pp_tokenhub_model :: utext

definition default_provider_preferences :: provider_preferences where
  "default_provider_preferences = \<lparr>pp_tokenhub_model = default_tokenhub_model\<rparr>"

datatype application_error =
  AeIo | AeStorage storage_error | AeDatabase database_worker_error | AeCredential auth_error
| AeTransport transport_error | AeSession session_error | AeProviderCredential provider_credential_error
| AeTranslation translation_error | AeDeviceIdentity device_identity_error | AeJson
| AeProviderSettings string | AeProxySettings string

text \<open>A parsed URL as the code reads it; \<open>url_port\<close> is \<open>None\<close> for the default port of the scheme.\<close>

record url =
  url_scheme :: string
  url_host :: "string option"
  url_port :: "nat option"
  url_username :: string
  url_password :: "string option"
  url_path :: string
  url_query :: "string option"
  url_fragment :: "string option"
  url_text :: string

fun proxy_scheme :: "proxy_kind \<Rightarrow> string" where
  "proxy_scheme ProxyHttp = ''http''"
| "proxy_scheme ProxySocks5 = ''socks5''"

definition proxy_url :: "(utext \<Rightarrow> url option) \<Rightarrow> network_preferences \<Rightarrow> application_error + string option" where
  "proxy_url parse p =
     (let address = trim (np_proxy_address p) in
      if address = [] then Inr None
      else if list_ex is_control address then Inl (AeProxySettings ''Proxy address contains a control character'')
      else rbind (ok_or (AeProxySettings ''Proxy address must be host:port'')
             (parse (ascii (proxy_scheme (np_proxy_kind p)) @ ascii ''://'' @ address))) (\<lambda>url.
        if url_host url = None \<or> url_port url = None \<or> url_username url \<noteq> [] \<or> url_password url \<noteq> None
           \<or> \<not> (url_path url = '''' \<or> url_path url = ''/'') \<or> url_query url \<noteq> None \<or> url_fragment url \<noteq> None
        then Inl (AeProxySettings ''Proxy address must be host:port without credentials'')
        else Inr (Some (url_text url))))"

definition proxy_proxy_url ::
  "(utext \<Rightarrow> url option) \<Rightarrow> network_preferences \<Rightarrow> bool \<Rightarrow> application_error + string option" where
  "proxy_proxy_url parse p enabled = (if enabled then proxy_url parse p else Inr None)"

definition validated_tokenhub_model :: "utext \<Rightarrow> application_error + utext" where
  "validated_tokenhub_model model =
     map_err (\<lambda>_. AeProviderSettings ''Tencent TokenHub model must be 1-128 characters without whitespace or control characters'')
       (validate_tokenhub_model model)"

section \<open>What the application relies on\<close>

record settings_json =
  sj_read_network :: "byte list \<Rightarrow> network_preferences option"
  sj_write_network :: "network_preferences \<Rightarrow> byte list"
  sj_read_provider :: "byte list \<Rightarrow> provider_preferences option"
  sj_write_provider :: "provider_preferences \<Rightarrow> byte list"

record health_response =
  hs_status :: string
  hs_server_api_version :: string
  hs_server_version :: string
  hs_minimum_desktop_version :: string

text \<open>
  \<open>ae_get\<close> is one GET request, \<open>None\<close> when no response arrives; \<open>ae_wire\<close> is a Provider request through
  the chosen proxy; \<open>ae_writable\<close> says which settings files can be written.
\<close>

record ('k, 'n) app_env =
  ae_parse_url :: "utext \<Rightarrow> url option"
  ae_join_url :: "url \<Rightarrow> string \<Rightarrow> url option"
  ae_get :: "string \<Rightarrow> 'n \<Rightarrow> http_response option \<times> 'n"
  ae_read_code :: "byte list \<Rightarrow> string option"
  ae_read_conflict :: "byte list \<Rightarrow> favorite_conflict option"
  ae_read_health :: "byte list \<Rightarrow> health_response option"
  ae_version :: "string \<Rightarrow> bool"
  ae_version_less :: "string \<Rightarrow> string \<Rightarrow> bool"
  ae_software_version :: string
  ae_valid_proxy :: "string \<Rightarrow> bool"
  ae_buildable :: bool
  ae_wire :: "string option \<Rightarrow> string \<Rightarrow> (string \<times> utext) list \<Rightarrow> byte list \<Rightarrow> u64 \<Rightarrow> 'n \<Rightarrow> (reqwest_error + reqwest_response) \<times> 'n"
  ae_tokenhub :: tokenhub_json
  ae_unicode :: unicode_db
  ae_sha256 :: sha256
  ae_settings :: settings_json
  ae_writable :: "string \<Rightarrow> bool"
  ae_uuid :: uuid_parser
  ae_installation_json :: installation_json
  ae_keyring :: "'k keyring"
  ae_transport :: "'n sync_transport"

text \<open>What outlives the process, and the application on top of it.\<close>

record ('k, 'n) desktop =
  dk_settings :: "(string, byte list) table"
  dk_installation_file :: installation_file
  dk_worker :: worker_state
  dk_keyring :: 'k
  dk_net :: 'n

text \<open>
  \<open>ap_lookup\<close> is the Provider of the lookup service with its proxy, \<open>ap_session\<close> the session with its
  access token and expiry, \<open>ap_wakes\<close> counts the wake-ups sent to the sync worker.
\<close>

record ('k, 'n) application = "('k, 'n) desktop" +
  ap_installation :: installation_metadata
  ap_profile :: profile_metadata
  ap_provider :: provider_preferences
  ap_network :: network_preferences
  ap_lookup :: "(tokenhub_provider \<times> string option) option"
  ap_generation :: u64
  ap_last_source :: "utext option"
  ap_session :: "(session_info \<times> string \<times> i64) option"
  ap_wakes :: nat

section \<open>Settings files\<close>

definition provider_path :: "uuid \<Rightarrow> string" where
  "provider_path profile_id = ''provider-settings-'' @ profile_id @ ''.json''"

definition network_path :: string where
  "network_path = ''network-settings.json''"

definition atomic_write ::
  "('k, 'n) app_env \<Rightarrow> string \<Rightarrow> byte list \<Rightarrow> (string, byte list) table \<Rightarrow> application_error + (string, byte list) table" where
  "atomic_write env path bytes files = (if ae_writable env path then Inr (tbl_put path bytes files) else Inl AeIo)"

definition read_network_preferences ::
  "('k, 'n) app_env \<Rightarrow> (string, byte list) table \<Rightarrow> application_error + network_preferences" where
  "read_network_preferences env files =
     (case tbl_get files network_path of
        None \<Rightarrow> Inr default_network_preferences
      | Some bytes \<Rightarrow>
          rbind (ok_or AeJson (sj_read_network (ae_settings env) bytes)) (\<lambda>p.
          rbind (proxy_url (ae_parse_url env) p) (\<lambda>_. Inr p)))"

definition read_provider_preferences ::
  "('k, 'n) app_env \<Rightarrow> string \<Rightarrow> (string, byte list) table \<Rightarrow> application_error + provider_preferences \<times> (string, byte list) table" where
  "read_provider_preferences env path files =
     (case tbl_get files path of
        None \<Rightarrow> Inr (default_provider_preferences, files)
      | Some bytes \<Rightarrow>
          rbind (ok_or AeJson (sj_read_provider (ae_settings env) bytes)) (\<lambda>p.
          rbind (validated_tokenhub_model (pp_tokenhub_model p)) (\<lambda>model.
          let p1 = p\<lparr>pp_tokenhub_model := model\<rparr> in
          rbind (atomic_write env path (sj_write_provider (ae_settings env) p1) files) (\<lambda>files1.
          Inr (p1, files1)))))"

section \<open>The lookup service\<close>

definition provider_scope_origin :: string where
  "provider_scope_origin = ''lvos://translation-provider''"

definition provider_scope :: "profile_metadata \<Rightarrow> credential_key \<Rightarrow> credential_scope" where
  "provider_scope profile key = \<lparr>cs_server_origin = provider_scope_origin, cs_user_id = pm_profile_id profile,
     cs_device_id = pm_device_id profile, cs_key = key\<rparr>"

definition profile_api_key :: "('k, 'n) app_env \<Rightarrow> profile_metadata \<Rightarrow> 'k \<Rightarrow> provider_credential_error + utext" where
  "profile_api_key env profile k =
     tokenhub_api_key (ae_keyring env) provider_scope_origin (pm_profile_id profile) (pm_device_id profile) k"

definition http_transport_for :: "('k, 'n) app_env \<Rightarrow> network_preferences \<Rightarrow> application_error + string option" where
  "http_transport_for env network =
     rbind (proxy_proxy_url (ae_parse_url env) network (np_provider_proxy_enabled network)) (\<lambda>proxy.
     rbind (map_err (\<lambda>_. AeProviderSettings ''HTTP transport unavailable'')
       (reqwest_transport_new (ae_valid_proxy env) (ae_buildable env) default_timeout proxy)) (\<lambda>_.
     Inr proxy))"

definition rebuild_lookup_service ::
  "('k, 'n) app_env \<Rightarrow> ('k, 'n) application \<Rightarrow> (application_error + unit) \<times> ('k, 'n) application" where
  "rebuild_lookup_service env a =
     (case credential_delete (ae_keyring env) (provider_scope (ap_profile a) RetiredTranslationApiKey) (dk_keyring a) of
        Inl e \<Rightarrow> (Inl (AeCredential e), a)
      | Inr k1 \<Rightarrow>
          let a1 = a\<lparr>dk_keyring := k1\<rparr> in
          case http_transport_for env (ap_network a1) of
            Inl e \<Rightarrow> (Inl e, a1)
          | Inr proxy \<Rightarrow>
              (case profile_api_key env (ap_profile a1) k1 of
                 Inl _ \<Rightarrow> (Inr (), a1\<lparr>ap_lookup := None\<rparr>)
               | Inr key \<Rightarrow>
                   (case with_model (pp_tokenhub_model (ap_provider a1)) (tokenhub_new key default_timeout) of
                      Inl e \<Rightarrow> (Inl (AeTranslation e), a1)
                    | Inr p \<Rightarrow> (Inr (), a1\<lparr>ap_lookup := Some (p, proxy)\<rparr>))))"

definition activate_profile ::
  "('k, 'n) app_env \<Rightarrow> profile_metadata \<Rightarrow> ('k, 'n) application \<Rightarrow> (application_error + unit) \<times> ('k, 'n) application" where
  "activate_profile env profile a =
     (case read_provider_preferences env (provider_path (pm_profile_id profile)) (dk_settings a) of
        Inl e \<Rightarrow> (Inl e, a)
      | Inr (preferences, files) \<Rightarrow>
          rebuild_lookup_service env (a\<lparr>dk_settings := files, ap_profile := profile, ap_provider := preferences\<rparr>))"

section \<open>Saving settings\<close>

definition save_network_preferences ::
  "('k, 'n) app_env \<Rightarrow> network_preferences \<Rightarrow> ('k, 'n) application \<Rightarrow> (application_error + unit) \<times> ('k, 'n) application" where
  "save_network_preferences env preferences a =
     (let p = preferences\<lparr>np_proxy_address := trim (np_proxy_address preferences)\<rparr> in
      case proxy_url (ae_parse_url env) p of
        Inl e \<Rightarrow> (Inl e, a)
      | Inr proxy \<Rightarrow>
          let p1 = (if proxy = None then p\<lparr>np_provider_proxy_enabled := False, np_update_proxy_enabled := False\<rparr> else p) in
          case atomic_write env network_path (sj_write_network (ae_settings env) p1) (dk_settings a) of
            Inl e \<Rightarrow> (Inl e, a)
          | Inr files \<Rightarrow> rebuild_lookup_service env (a\<lparr>dk_settings := files, ap_network := p1\<rparr>))"

definition provider_configuration :: "('k, 'n) app_env \<Rightarrow> ('k, 'n) application \<Rightarrow> application_error + bool" where
  "provider_configuration env a =
     map_err AeCredential (credential_contains (ae_keyring env) (provider_scope (ap_profile a) TencentTokenHubApiKey) (dk_keyring a))"

definition store_api_key ::
  "('k, 'n) app_env \<Rightarrow> utext \<Rightarrow> ('k, 'n) application \<Rightarrow> application_error + 'k" where
  "store_api_key env key a =
     rbind (provider_configuration env a) (\<lambda>configured.
     if \<not> configured \<and> key = [] then Inl (AeProviderSettings ''Tencent TokenHub API key is not configured'')
     else if key = [] then Inr (dk_keyring a)
     else map_err AeCredential (credential_set (ae_keyring env) (provider_scope (ap_profile a) TencentTokenHubApiKey)
            (utf8 key) (dk_keyring a)))"

definition save_provider_settings ::
  "('k, 'n) app_env \<Rightarrow> provider_preferences \<Rightarrow> utext \<Rightarrow> ('k, 'n) application \<Rightarrow> (application_error + unit) \<times> ('k, 'n) application" where
  "save_provider_settings env preferences tokenhub_key a =
     (case validated_tokenhub_model (pp_tokenhub_model preferences) of
        Inl e \<Rightarrow> (Inl e, a)
      | Inr model \<Rightarrow>
          let p = preferences\<lparr>pp_tokenhub_model := model\<rparr> in
          case store_api_key env (trim tokenhub_key) a of
            Inl e \<Rightarrow> (Inl e, a)
          | Inr k1 \<Rightarrow>
              let a1 = a\<lparr>dk_keyring := k1\<rparr> in
              case atomic_write env (provider_path (pm_profile_id (ap_profile a1)))
                     (sj_write_provider (ae_settings env) p) (dk_settings a1) of
                Inl e \<Rightarrow> (Inl e, a1)
              | Inr files \<Rightarrow> rebuild_lookup_service env (a1\<lparr>dk_settings := files, ap_provider := p\<rparr>))"

section \<open>Lookups\<close>

definition max_lookup_bytes :: usize where
  "max_lookup_bytes = 2000"

definition history_page_limit :: u32 where
  "history_page_limit = 200"

definition app_begin_lookup :: "utext \<Rightarrow> ('k, 'n) application \<Rightarrow> lookup_card_state \<times> ('k, 'n) application" where
  "app_begin_lookup source a =
     (let generation = (ap_generation a + 1) mod 2 ^ 64 in
      (CardLoading generation source, a\<lparr>ap_generation := generation, ap_last_source := Some source\<rparr>))"

definition lookup_provider :: "('k, 'n) app_env \<Rightarrow> ('k, 'n) application \<Rightarrow> 'n provider option" where
  "lookup_provider env a =
     map_option (\<lambda>(p, proxy). translate (ae_tokenhub env) (transport_send (ae_wire env proxy)) p) (ap_lookup a)"

definition complete_lookup ::
  "('k, 'n) app_env \<Rightarrow> i64 \<Rightarrow> uuid \<Rightarrow> u64 \<Rightarrow> utext \<Rightarrow> lookup_mode \<Rightarrow> ('k, 'n) application \<Rightarrow> lookup_card_state \<times> ('k, 'n) application" where
  "complete_lookup env now event_id generation source mode a =
     (case prepare_content (ae_unicode env) (ae_sha256 env) source ''en'' max_lookup_bytes of
        Inl _ \<Rightarrow> (CardError generation source CardUnsupported, a)
      | Inr content \<Rightarrow>
          (case lookup_content (lookup_provider env a) content ''zh-CN'' mode now event_id (dk_worker a) (dk_net a) of
             (Inl (LuTranslation e), ws, n) \<Rightarrow>
               (CardError generation source (lookup_card_kind e), a\<lparr>dk_worker := ws, dk_net := n\<rparr>)
           | (Inl (LuDatabase e), ws, n) \<Rightarrow>
               (CardError generation source CardUnavailable, a\<lparr>dk_worker := ws, dk_net := n\<rparr>)
           | (Inr outcome, ws, n) \<Rightarrow>
               let key = stc_content_key (he_content (lo_history outcome)) in
               case execute (reading (\<lambda>db. favorite_by_key db key)) ws of
                 (found, ws1) \<Rightarrow>
                   (CardReady generation key (stc_source_text (he_content (lo_history outcome)))
                      (ts_translation (he_translation (lo_history outcome)))
                      (case found of Inr (Some f) \<Rightarrow> fv_deleted_at f = None | _ \<Rightarrow> False)
                      (effective_total (lo_query_stats outcome)),
                    a\<lparr>dk_worker := ws1, dk_net := n\<rparr>)))"

definition app_lookup ::
  "('k, 'n) app_env \<Rightarrow> i64 \<Rightarrow> uuid \<Rightarrow> utext \<Rightarrow> lookup_mode \<Rightarrow> ('k, 'n) application \<Rightarrow> lookup_card_state \<times> ('k, 'n) application" where
  "app_lookup env now event_id source mode a =
     (case app_begin_lookup source a of
        (loading, a1) \<Rightarrow>
          complete_lookup env now event_id (case card_generation loading of None \<Rightarrow> 0 | Some g \<Rightarrow> g) source mode a1)"

definition app_is_current :: "lookup_card_state \<Rightarrow> ('k, 'n) application \<Rightarrow> bool" where
  "app_is_current state a = (case card_generation state of None \<Rightarrow> False | Some g \<Rightarrow> g = ap_generation a)"

definition begin_refresh_last :: "('k, 'n) application \<Rightarrow> lookup_card_state option \<times> ('k, 'n) application" where
  "begin_refresh_last a =
     (case ap_last_source a of
        None \<Rightarrow> (None, a)
      | Some source \<Rightarrow> (case app_begin_lookup source a of (loading, a1) \<Rightarrow> (Some loading, a1)))"

section \<open>Data\<close>

definition app_history :: "utext \<Rightarrow> ('k, 'n) application \<Rightarrow> (ui_data_error + ui_record_data list) \<times> ('k, 'n) application" where
  "app_history term a = (case data_history term history_page_limit (dk_worker a) of (r, ws) \<Rightarrow> (r, a\<lparr>dk_worker := ws\<rparr>))"

definition app_favorites :: "utext \<Rightarrow> ('k, 'n) application \<Rightarrow> (ui_data_error + ui_record_data list) \<times> ('k, 'n) application" where
  "app_favorites term a = (case data_favorites term history_page_limit (dk_worker a) of (r, ws) \<Rightarrow> (r, a\<lparr>dk_worker := ws\<rparr>))"

definition wake_sync :: "('k, 'n) application \<Rightarrow> ('k, 'n) application" where
  "wake_sync a = (if ap_session a = None then a else a\<lparr>ap_wakes := ap_wakes a + 1\<rparr>)"

text \<open>The data service of the application has no sync worker of its own; the application wakes it.\<close>

definition app_set_favorite ::
  "string \<Rightarrow> bool \<Rightarrow> i64 \<Rightarrow> uuid \<Rightarrow> ('k, 'n) application \<Rightarrow> (ui_data_error + bool) \<times> ('k, 'n) application" where
  "app_set_favorite key active now event_id a =
     (case data_set_favorite False key active now event_id (dk_worker a) of
        (Inl e, ws, _) \<Rightarrow> (Inl e, a\<lparr>dk_worker := ws\<rparr>)
      | (Inr result, ws, _) \<Rightarrow> (Inr result, wake_sync (a\<lparr>dk_worker := ws\<rparr>)))"

definition set_last_favorite ::
  "('k, 'n) app_env \<Rightarrow> bool \<Rightarrow> i64 \<Rightarrow> uuid \<Rightarrow> ('k, 'n) application \<Rightarrow> (ui_data_error + bool) \<times> ('k, 'n) application" where
  "set_last_favorite env active now event_id a =
     (case ap_last_source a of
        None \<Rightarrow> (Inl UdInvalidContentKey, a)
      | Some source \<Rightarrow>
          (case prepare_content (ae_unicode env) (ae_sha256 env) source ''en'' max_lookup_bytes of
             Inl _ \<Rightarrow> (Inl UdInvalidContentKey, a)
           | Inr content \<Rightarrow> app_set_favorite (to_hex (pc_content_key content)) active now event_id a))"

definition app_clear_history :: "('k, 'n) application \<Rightarrow> (ui_data_error + unit) \<times> ('k, 'n) application" where
  "app_clear_history a = (case data_clear_history (dk_worker a) of (r, ws) \<Rightarrow> (r, a\<lparr>dk_worker := ws\<rparr>))"

definition app_apply_portable_import ::
  "('k, 'n) app_env \<Rightarrow> import_plan \<Rightarrow> i64 \<Rightarrow> (nat \<Rightarrow> uuid) \<Rightarrow> ('k, 'n) application \<Rightarrow> (ui_data_error + import_preview) \<times> ('k, 'n) application" where
  "app_apply_portable_import env plan now ids a =
     (case worker_apply_portable_import (ae_uuid env) plan now ids (dk_worker a) of
        (Inl e, ws) \<Rightarrow> (Inl (UdDatabase e), a\<lparr>dk_worker := ws\<rparr>)
      | (Inr result, ws) \<Rightarrow> (Inr result, wake_sync (a\<lparr>dk_worker := ws\<rparr>)))"

definition select_provider_test_key ::
  "utext \<Rightarrow> provider_credential_error + utext \<Rightarrow> provider_credential_error + utext" where
  "select_provider_test_key entered_key stored_key =
     (let entered = trim entered_key in if entered = [] then stored_key else Inr entered)"

definition test_provider ::
  "('k, 'n) app_env \<Rightarrow> utext \<Rightarrow> utext \<Rightarrow> ('k, 'n) application \<Rightarrow> (application_error + unit) \<times> ('k, 'n) application" where
  "test_provider env tokenhub_model tokenhub_key a =
     (case rbind (http_transport_for env (ap_network a)) (\<lambda>proxy.
           rbind (validated_tokenhub_model tokenhub_model) (\<lambda>model.
           rbind (map_err AeProviderCredential (select_provider_test_key tokenhub_key
             (profile_api_key env (ap_profile a) (dk_keyring a)))) (\<lambda>key.
           rbind (map_err AeTranslation (with_model model (tokenhub_new key default_timeout))) (\<lambda>p.
           Inr (p, proxy))))) of
        Inl e \<Rightarrow> (Inl e, a)
      | Inr (p, proxy) \<Rightarrow>
          (case translate (ae_tokenhub env) (transport_send (ae_wire env proxy)) p
                  \<lparr>tq_text = ascii ''hello'', tq_source_language = ''en'', tq_target_language = ''zh-CN''\<rparr> (dk_net a) of
             (r, n) \<Rightarrow> (map_err AeTranslation (rbind r (\<lambda>_. Inr ())), a\<lparr>dk_net := n\<rparr>)))"

section \<open>Sessions\<close>

definition endpoint :: "('k, 'n) app_env \<Rightarrow> string \<Rightarrow> string \<Rightarrow> transport_error + url" where
  "endpoint env server_origin path =
     rbind (ok_or InvalidResponse (ae_parse_url env (string_text server_origin))) (\<lambda>origin.
     if \<not> (url_scheme origin = ''http'' \<or> url_scheme origin = ''https'') \<or> url_host origin = None then Inl InvalidResponse
     else if url_username origin \<noteq> [] \<or> url_password origin \<noteq> None \<or> url_query origin \<noteq> None \<or> url_fragment origin \<noteq> None
     then Inl InvalidResponse
     else ok_or InvalidResponse (ae_join_url env origin path))"

definition check_health :: "('k, 'n) app_env \<Rightarrow> health_response \<Rightarrow> transport_error + health_response" where
  "check_health env h =
     (if hs_status h \<noteq> ''ok'' \<or> hs_server_api_version h \<noteq> ''v1'' then Inl IncompatibleServer
      else if \<not> ae_version env (hs_server_version h) \<or> \<not> ae_version env (hs_minimum_desktop_version h)
        \<or> \<not> ae_version env (ae_software_version env) then Inl InvalidResponse
      else if ae_version_less env (ae_software_version env) (hs_minimum_desktop_version h) then Inl IncompatibleServer
      else Inr h)"

definition compatibility :: "('k, 'n) app_env \<Rightarrow> string \<Rightarrow> 'n \<Rightarrow> (transport_error + health_response) \<times> 'n" where
  "compatibility env server_origin n =
     (case endpoint env server_origin ''/api/v1/health'' of
        Inl e \<Rightarrow> (Inl e, n)
      | Inr url \<Rightarrow>
          (case ae_get env (url_text url) n of
             (None, n1) \<Rightarrow> (Inl Offline, n1)
           | (Some response, n1) \<Rightarrow>
               (rbind (json_response (ae_read_code env) (ae_read_conflict env) (ae_read_health env) response) (check_health env), n1)))"

definition test_connection ::
  "('k, 'n) app_env \<Rightarrow> string \<Rightarrow> ('k, 'n) application \<Rightarrow> (application_error + unit) \<times> ('k, 'n) application" where
  "test_connection env origin a =
     (case compatibility env origin (dk_net a) of
        (r, n) \<Rightarrow> (map_err AeTransport (rbind r (\<lambda>_. Inr ())), a\<lparr>dk_net := n\<rparr>))"

definition stop_sync :: "('k, 'n) application \<Rightarrow> ('k, 'n) application" where
  "stop_sync a = a\<lparr>ap_session := None\<rparr>"

definition start_sync :: "session_info \<Rightarrow> string \<Rightarrow> i64 \<Rightarrow> ('k, 'n) application \<Rightarrow> ('k, 'n) application" where
  "start_sync session token expires_at a = (stop_sync a)\<lparr>ap_session := Some (session, token, expires_at)\<rparr>"

text \<open>The Profile of the account that signed in.\<close>

definition login_profile ::
  "('k, 'n) app_env \<Rightarrow> uuid \<Rightarrow> string \<Rightarrow> string \<Rightarrow> i64 \<Rightarrow> uuid \<Rightarrow> ('k, 'n) application
    \<Rightarrow> (database_worker_error + profile_metadata) \<times> worker_state" where
  "login_profile env user_id username server_origin now new_id a =
     (case find_profile_for_user (ae_uuid env) user_id (dk_worker a) of
        Inl e \<Rightarrow> (Inl e, dk_worker a)
      | Inr (Some found) \<Rightarrow>
          let existing = found\<lparr>pm_username := Some username, pm_server_origin := Some server_origin, pm_updated_at := now\<rparr> in
          (case switch_profile existing (dk_worker a) of (r, ws) \<Rightarrow> (rbind r (\<lambda>_. Inr existing), ws))
      | Inr None \<Rightarrow>
          if pm_user_id (ap_profile a) = None
          then resolve_account_profile (ae_uuid env) user_id username server_origin now (dk_worker a)
          else
            let metadata = \<lparr>pm_profile_id = new_id, pm_user_id = Some user_id, pm_username = Some username,
                  pm_device_id = im_device_id (ap_installation a), pm_platform = platform_as_str (im_platform (ap_installation a)),
                  pm_server_origin = Some server_origin, pm_last_server_revision = 0, pm_created_at = now, pm_updated_at = now\<rparr> in
            (case switch_profile metadata (dk_worker a) of (r, ws) \<Rightarrow> (rbind r (\<lambda>_. Inr metadata), ws)))"

definition app_login ::
  "('k, 'n) app_env \<Rightarrow> i64 \<Rightarrow> uuid \<Rightarrow> string \<Rightarrow> string \<Rightarrow> string \<Rightarrow> ('k, 'n) application \<Rightarrow> (application_error + unit) \<times> ('k, 'n) application" where
  "app_login env now new_id server_origin username password a =
     (case compatibility env server_origin (dk_net a) of
        (Inl e, n) \<Rightarrow> (Inl (AeTransport e), a\<lparr>dk_net := n\<rparr>)
      | (Inr _, n) \<Rightarrow>
          let a1 = stop_sync (a\<lparr>dk_net := n\<rparr>); installation = ap_installation a1 in
          case session_login (ae_transport env) (ae_keyring env) server_origin
                 \<lparr>lc_username = username, lc_password = password, lc_device_id = im_device_id installation,
                  lc_platform = platform_as_str (im_platform installation),
                  lc_device_name = Some (text_string (im_device_name installation))\<rparr> (dk_keyring a1) (dk_net a1) of
            (r, _, k1, n1) \<Rightarrow>
              let a2 = a1\<lparr>dk_keyring := k1, dk_net := n1\<rparr> in
              case r of
                Inl e \<Rightarrow> (Inl (AeSession e), a2)
              | Inr (session, identity) \<Rightarrow>
                  (case ae_uuid env (li_user_id identity) of
                     None \<Rightarrow> (Inl (AeProviderSettings ''Server returned an invalid User identity''), a2)
                   | Some user_id \<Rightarrow>
                       (case login_profile env user_id (li_username identity) server_origin now new_id a2 of
                          (Inl e, ws) \<Rightarrow> (Inl (AeDatabase e), a2\<lparr>dk_worker := ws\<rparr>)
                        | (Inr metadata, ws) \<Rightarrow>
                            (case activate_profile env metadata (a2\<lparr>dk_worker := ws\<rparr>) of
                               (Inl e, a3) \<Rightarrow> (Inl e, a3)
                             | (Inr _, a3) \<Rightarrow>
                                 (Inr (), start_sync session (li_access_token identity) (li_access_expires_at identity) a3)))))"

definition resume_session ::
  "('k, 'n) app_env \<Rightarrow> ('k, 'n) application \<Rightarrow> (application_error + unit) \<times> ('k, 'n) application" where
  "resume_session env a =
     (let profile = ap_profile a in
      case rbind (ok_or (AeProviderSettings ''Profile is not bound to an account'') (pm_user_id profile)) (\<lambda>user_id.
           rbind (ok_or (AeProviderSettings ''Profile has no Server origin'') (pm_server_origin profile)) (\<lambda>origin.
           Inr (user_id, origin))) of
        Inl e \<Rightarrow> (Inl e, a)
      | Inr (user_id, origin) \<Rightarrow>
          (case compatibility env origin (dk_net a) of
             (Inl e, n) \<Rightarrow> (Inl (AeTransport e), a\<lparr>dk_net := n\<rparr>)
           | (Inr _, n) \<Rightarrow>
               let session = \<lparr>sx_server_origin = origin, sx_user_id = user_id,
                     sx_username = (case pm_username profile of None \<Rightarrow> '''' | Some name \<Rightarrow> name),
                     sx_device_id = pm_device_id profile, sx_platform = pm_platform profile\<rparr> in
               case session_resume (ae_transport env) (ae_keyring env) session (dk_keyring a) n of
                 (r, k1, n1) \<Rightarrow>
                   let a1 = a\<lparr>dk_keyring := k1, dk_net := n1\<rparr> in
                   case r of
                     Inl e \<Rightarrow> (Inl (AeSession e), a1)
                   | Inr w \<Rightarrow> (Inr (), start_sync session (sw_token w) (sw_expires_at w) a1)))"

definition session_view :: "string \<Rightarrow> i64 \<Rightarrow> ('k, 'n) application \<Rightarrow> ('k, 'n) session_world" where
  "session_view token expires_at a =
     \<lparr>sw_token = token, sw_expires_at = expires_at, sw_keyring = dk_keyring a, sw_net = dk_net a\<rparr>"

definition app_logout ::
  "('k, 'n) app_env \<Rightarrow> ('k, 'n) application \<Rightarrow> (application_error + unit) \<times> ('k, 'n) application" where
  "app_logout env a =
     (case ap_session a of
        None \<Rightarrow> (Inr (), stop_sync a)
      | Some (session, token, expires_at) \<Rightarrow>
          (case session_logout (ae_transport env) (ae_keyring env) session (session_view token expires_at a) of
             (r, w) \<Rightarrow> (map_err AeSession r, (stop_sync a)\<lparr>dk_keyring := sw_keyring w, dk_net := sw_net w\<rparr>)))"

definition with_session ::
  "(session_info \<Rightarrow> ('k, 'n) session_world \<Rightarrow> (session_error + 'a) \<times> ('k, 'n) session_world) \<Rightarrow> ('k, 'n) application
    \<Rightarrow> (application_error + 'a) \<times> ('k, 'n) application" where
  "with_session call a =
     (case ap_session a of
        None \<Rightarrow> (Inl (AeProviderSettings ''Login required''), a)
      | Some (session, token, expires_at) \<Rightarrow>
          (case call session (session_view token expires_at a) of
             (r, w) \<Rightarrow> (map_err AeSession r, a\<lparr>ap_session := Some (session, sw_token w, sw_expires_at w),
                dk_keyring := sw_keyring w, dk_net := sw_net w\<rparr>)))"

definition app_devices ::
  "('k, 'n) app_env \<Rightarrow> ('k, 'n) application \<Rightarrow> (application_error + remote_device list) \<times> ('k, 'n) application" where
  "app_devices env a = with_session (session_devices (ae_transport env) (ae_keyring env)) a"

definition app_revoke_device ::
  "('k, 'n) app_env \<Rightarrow> string \<Rightarrow> ('k, 'n) application \<Rightarrow> (application_error + unit) \<times> ('k, 'n) application" where
  "app_revoke_device env device_id a =
     with_session (\<lambda>s. session_revoke_device (ae_transport env) (ae_keyring env) s device_id) a"

definition manual_sync :: "('k, 'n) application \<Rightarrow> bool \<times> ('k, 'n) application" where
  "manual_sync a = (ap_session a \<noteq> None, wake_sync a)"

definition is_authenticated :: "('k, 'n) application \<Rightarrow> bool" where
  "is_authenticated a = (ap_session a \<noteq> None)"

definition recover_revoked_device ::
  "('k, 'n) app_env \<Rightarrow> recovery_writes \<Rightarrow> uuid \<Rightarrow> uuid \<Rightarrow> i64 \<Rightarrow> ('k, 'n) application \<Rightarrow> (application_error + unit) \<times> ('k, 'n) application" where
  "recover_revoked_device env written new_id replacement now a =
     (let a1 = stop_sync a; installation = ap_installation a1 in
      case regenerate_after_revocation (ae_installation_json env) (ae_keyring env) (ae_uuid env) written new_id replacement
             True (im_platform installation) (im_device_name installation) now (dk_installation_file a1) (dk_worker a1) (dk_keyring a1) of
        (r, file1, ws, k1) \<Rightarrow>
          let a2 = a1\<lparr>dk_installation_file := file1, dk_worker := ws, dk_keyring := k1\<rparr> in
          case r of
            Inl e \<Rightarrow> (Inl (AeDeviceIdentity e), a2)
          | Inr m \<Rightarrow>
              activate_profile env ((ap_profile a2)\<lparr>pm_device_id := im_device_id m, pm_updated_at := now\<rparr>)
                (a2\<lparr>ap_installation := m\<rparr>))"

section \<open>Start\<close>

definition new_unbound_profile :: "installation_metadata \<Rightarrow> uuid \<Rightarrow> i64 \<Rightarrow> profile_metadata" where
  "new_unbound_profile installation profile_id now =
     \<lparr>pm_profile_id = profile_id, pm_user_id = None, pm_username = None, pm_device_id = im_device_id installation,
      pm_platform = platform_as_str (im_platform installation), pm_server_origin = None, pm_last_server_revision = 0,
      pm_created_at = now, pm_updated_at = now\<rparr>"

text \<open>A failed start leaves what it wrote. The worker starts without an active Profile.\<close>

definition open_application ::
  "('k, 'n) app_env \<Rightarrow> bool \<Rightarrow> uuid \<Rightarrow> uuid \<Rightarrow> platform \<Rightarrow> utext \<Rightarrow> i64 \<Rightarrow> ('k, 'n) desktop
    \<Rightarrow> application_error \<times> ('k, 'n) desktop + ('k, 'n) application" where
  "open_application env written device_id profile_id platform device_name now d =
     (case load_or_create (ae_installation_json env) written device_id platform device_name (dk_installation_file d) of
        (Inl e, file1) \<Rightarrow> Inl (AeStorage e, d\<lparr>dk_installation_file := file1\<rparr>)
      | (Inr installation, file1) \<Rightarrow>
          let d1 = d\<lparr>dk_installation_file := file1, dk_worker := (dk_worker d)\<lparr>ws_active := None\<rparr>\<rparr> in
          case all_profile_metadata (ae_uuid env) (dk_worker d1) of
            Inl e \<Rightarrow> Inl (AeDatabase e, d1)
          | Inr profiles \<Rightarrow>
              let profile = (case find (\<lambda>p. pm_device_id p = im_device_id installation) profiles of
                    Some p \<Rightarrow> p | None \<Rightarrow> new_unbound_profile installation profile_id now) in
              case switch_profile profile (dk_worker d1) of
                (Inl e, ws) \<Rightarrow> Inl (AeDatabase e, d1\<lparr>dk_worker := ws\<rparr>)
              | (Inr _, ws) \<Rightarrow>
                  let d2 = d1\<lparr>dk_worker := ws\<rparr> in
                  case read_provider_preferences env (provider_path (pm_profile_id profile)) (dk_settings d2) of
                    Inl e \<Rightarrow> Inl (e, d2)
                  | Inr (preferences, files) \<Rightarrow>
                      let d3 = d2\<lparr>dk_settings := files\<rparr> in
                      case read_network_preferences env files of
                        Inl e \<Rightarrow> Inl (e, d3)
                      | Inr network \<Rightarrow>
                          if \<not> ae_buildable env then Inl (AeTransport InvalidResponse, d3)
                          else
                            (case rebuild_lookup_service env (desktop.extend d3 (application.fields
                                    installation profile preferences network None 0 None None 0)) of
                               (Inl e, a) \<Rightarrow> Inl (e, desktop.truncate a)
                             | (Inr _, a) \<Rightarrow> Inr a))"

section \<open>Credentials of the Provider\<close>

lemma credential_account_key:
  assumes "credential_account s = credential_account t"
  shows "cs_key s = cs_key t"
proof -
  have tail: "take 9 (rev (credential_account x)) = take 9 (rev (credential_key_name (cs_key x)))" for x
    by (cases "cs_key x") (simp_all add: credential_account_def)
  have "take 9 (rev (credential_key_name (cs_key s))) = take 9 (rev (credential_key_name (cs_key t)))"
    unfolding tail [symmetric] assms ..
  then show ?thesis by (cases "cs_key s"; cases "cs_key t") simp_all
qed

lemma scopes_apart: "cs_key s \<noteq> cs_key t \<Longrightarrow> accounts_apart s t"
  unfolding accounts_apart_def using credential_account_key by blast

lemma provider_scope_key [simp]: "cs_key (provider_scope p key) = key"
  by (simp add: provider_scope_def)

context keyring_contract begin

lemma other_key_deleted:
  "credential_delete kr sc k = Inr k' \<Longrightarrow> cs_key sc \<noteq> cs_key other \<Longrightarrow> credential_get kr other k' = credential_get kr other k"
  by (rule delete_apart) (auto intro: scopes_apart)

end

lemma profile_api_key_get:
  "credential_get (ae_keyring env) (provider_scope p TencentTokenHubApiKey) k' = credential_get (ae_keyring env) (provider_scope p TencentTokenHubApiKey) k
    \<Longrightarrow> profile_api_key env p k' = profile_api_key env p k"
  by (simp add: profile_api_key_def tokenhub_api_key_def credential_read_def provider_scope_def)

section \<open>The rebuilt lookup service\<close>

definition service_of :: "('k, 'n) app_env \<Rightarrow> profile_metadata \<Rightarrow> utext \<Rightarrow> string option \<Rightarrow> 'k \<Rightarrow> (tokenhub_provider \<times> string option) option" where
  "service_of env profile model proxy k =
     (case profile_api_key env profile k of Inl _ \<Rightarrow> None
      | Inr key \<Rightarrow> Some (\<lparr>tp_api_key = key, tp_model = model, tp_timeout = default_timeout\<rparr>, proxy))"

lemma rebuild_result:
  assumes run: "rebuild_lookup_service env a = (r, a')"
    and model: "validate_tokenhub_model (pp_tokenhub_model (ap_provider a)) = Inr model"
  obtains (built) k1 proxy where "credential_delete (ae_keyring env) (provider_scope (ap_profile a) RetiredTranslationApiKey) (dk_keyring a) = Inr k1"
      "http_transport_for env (ap_network a) = Inr proxy" "r = Inr ()"
      "a' = a\<lparr>dk_keyring := k1, ap_lookup := service_of env (ap_profile a) model proxy k1\<rparr>"
  | (failed) e where "r = Inl e" "ap_lookup a' = ap_lookup a"
proof (cases "credential_delete (ae_keyring env) (provider_scope (ap_profile a) RetiredTranslationApiKey) (dk_keyring a)")
  case (Inl e)
  then show thesis using run failed by (auto simp: rebuild_lookup_service_def)
next
  case (Inr k1)
  show thesis
  proof (cases "http_transport_for env (ap_network a)")
    case (Inl e)
    then show thesis using run failed Inr by (auto simp: rebuild_lookup_service_def Let_def)
  next
    case p: (Inr proxy)
    have "r = Inr ()" "a' = a\<lparr>dk_keyring := k1, ap_lookup := service_of env (ap_profile a) model proxy k1\<rparr>"
      using run Inr p model by (auto simp: rebuild_lookup_service_def Let_def service_of_def with_model_def tokenhub_new_def split: sum.splits)
    then show thesis using built Inr p by blast
  qed
qed

lemma dropWhile_idem: "dropWhile P (dropWhile P xs) = dropWhile P xs"
  by (induction xs) auto

lemma dropWhile_rev_dropWhile: "dropWhile P (rev (dropWhile P (rev (dropWhile P xs)))) = rev (dropWhile P (rev (dropWhile P xs)))"
proof (cases "dropWhile P xs")
  case (Cons y ys)
  then have y: "\<not> P y" by (metis hd_dropWhile list.distinct(1) list.sel(1))
  have "dropWhile P (rev (y # ys)) = (if \<forall>x\<in>set ys. P x then [] else dropWhile P (rev ys)) @ [y]"
    using y by (simp add: dropWhile_append)
  then show ?thesis using Cons y by simp
next
  case Nil
  show ?thesis unfolding Nil by simp
qed

lemma trim_idem [simp]: "trim (trim t) = trim t"
  by (simp add: trim_def trim_end_matches_def dropWhile_rev_dropWhile dropWhile_idem)

lemma set_trim: "set (trim t) \<subseteq> set t"
  unfolding trim_def trim_end_matches_def by (metis set_dropWhileD set_rev subsetI)

lemma validate_tokenhub_model_idem: "validate_tokenhub_model m = Inr model \<Longrightarrow> validate_tokenhub_model model = Inr model"
  by (auto simp: validate_tokenhub_model_def Let_def split: if_splits)

section \<open>Saving the Provider settings\<close>

definition usable_key :: "('k, 'n) app_env \<Rightarrow> utext \<Rightarrow> ('k, 'n) application \<Rightarrow> utext option" where
  "usable_key env entered a =
     (if trim entered \<noteq> [] then Some (trim entered)
      else case profile_api_key env (ap_profile a) (dk_keyring a) of Inl _ \<Rightarrow> None | Inr key \<Rightarrow> Some key)"

lemma stored_key_usable:
  assumes kr: "keyring_contract (ae_keyring env)" and valid: "list_all valid_uchar entered"
    and store: "store_api_key env (trim entered) a = Inr k1"
    and del: "credential_delete (ae_keyring env) (provider_scope (ap_profile a) RetiredTranslationApiKey) k1 = Inr k2"
  shows "service_of env (ap_profile a) model proxy k2
    = map_option (\<lambda>key. (\<lparr>tp_api_key = key, tp_model = model, tp_timeout = default_timeout\<rparr>, proxy)) (usable_key env entered a)"
proof -
  let ?sc = "provider_scope (ap_profile a) TencentTokenHubApiKey"
  have same: "credential_get (ae_keyring env) ?sc k2 = credential_get (ae_keyring env) ?sc k1"
    using keyring_contract.other_key_deleted [OF kr del] by simp
  show ?thesis
  proof (cases "trim entered = []")
    case True
    then have "k1 = dk_keyring a" using store by (auto simp: store_api_key_def rbind_Inr split: if_splits)
    then show ?thesis using profile_api_key_get [OF same] True
      by (simp add: service_of_def usable_key_def split: sum.splits)
  next
    case False
    then have "credential_set (ae_keyring env) ?sc (utf8 (trim entered)) (dk_keyring a) = Inr k1"
      using store by (auto simp: store_api_key_def rbind_Inr map_err_Inr split: if_splits)
    then have "credential_get (ae_keyring env) ?sc k2 = Inr (Some (utf8 (trim entered)))"
      using keyring_contract.secret_stored [OF kr] same by simp
    moreover have "list_all valid_uchar (trim entered)" using valid set_trim [of entered] by (auto simp: list_all_iff)
    ultimately have "profile_api_key env (ap_profile a) k2 = Inr (trim entered)"
      using False by (simp add: profile_api_key_def tokenhub_api_key_def credential_read_def provider_scope_def
          text_from_utf8_utf8 ok_or_def)
    then show ?thesis using False by (simp add: service_of_def usable_key_def)
  qed
qed

lemma save_provider_settings_cases:
  assumes run: "save_provider_settings env preferences entered a = (r, a')"
  obtains (refused) e where "r = Inl e" "ap_lookup a' = ap_lookup a"
  | (saved) model k1 files where "validate_tokenhub_model (pp_tokenhub_model preferences) = Inr model" "store_api_key env (trim entered) a = Inr k1"
      "ae_writable env (provider_path (pm_profile_id (ap_profile a)))"
      "files = tbl_put (provider_path (pm_profile_id (ap_profile a)))
        (sj_write_provider (ae_settings env) (preferences\<lparr>pp_tokenhub_model := model\<rparr>)) (dk_settings a)"
      "rebuild_lookup_service env (a\<lparr>dk_keyring := k1, dk_settings := files, ap_provider := preferences\<lparr>pp_tokenhub_model := model\<rparr>\<rparr>) = (r, a')"
  using run that
  by (cases "validate_tokenhub_model (pp_tokenhub_model preferences)"; cases "store_api_key env (trim entered) a")
    (auto simp: save_provider_settings_def validated_tokenhub_model_def atomic_write_def Let_def split: if_splits)

text \<open>
  C35: saved Provider settings take effect. When saving succeeds, the model is a valid one, lookups use the
  Provider with that model, through the configured proxy, and with the API key that was entered, or the
  stored one when none was entered; the settings file reads back as that model. When saving fails, lookups
  go on with the Provider they had.
\<close>

theorem provider_settings_take_effect:
  assumes kr: "keyring_contract (ae_keyring env)" and valid: "list_all valid_uchar entered"
    and json: "\<And>model. validate_tokenhub_model (pp_tokenhub_model preferences) = Inr model \<Longrightarrow>
      sj_read_provider (ae_settings env) (sj_write_provider (ae_settings env) (preferences\<lparr>pp_tokenhub_model := model\<rparr>))
        = Some (preferences\<lparr>pp_tokenhub_model := model\<rparr>)"
    and run: "save_provider_settings env preferences entered a = (r, a')"
  shows "case r of
      Inl _ \<Rightarrow> ap_lookup a' = ap_lookup a
    | Inr _ \<Rightarrow> (\<exists>model proxy files. validate_tokenhub_model (pp_tokenhub_model preferences) = Inr model
        \<and> proxy_proxy_url (ae_parse_url env) (ap_network a) (np_provider_proxy_enabled (ap_network a)) = Inr proxy
        \<and> ap_lookup a' = map_option (\<lambda>key. (\<lparr>tp_api_key = key, tp_model = model, tp_timeout = default_timeout\<rparr>, proxy))
            (usable_key env entered a)
        \<and> pp_tokenhub_model (ap_provider a') = model
        \<and> read_provider_preferences env (provider_path (pm_profile_id (ap_profile a'))) (dk_settings a') = Inr (ap_provider a', files))"
  using run
proof (cases rule: save_provider_settings_cases)
  case (saved model k1 files)
  note idem = validate_tokenhub_model_idem [OF saved(1)]
  let ?a = "a\<lparr>dk_keyring := k1, dk_settings := files, ap_provider := preferences\<lparr>pp_tokenhub_model := model\<rparr>\<rparr>"
  have m: "validate_tokenhub_model (pp_tokenhub_model (ap_provider ?a)) = Inr model" using idem by simp
  show ?thesis
  proof (rule rebuild_result [OF saved(5) m])
    fix e assume "r = Inl e" "ap_lookup a' = ap_lookup ?a"
    then show ?thesis by simp
  next
    fix k2 proxy
    assume del: "credential_delete (ae_keyring env) (provider_scope (ap_profile ?a) RetiredTranslationApiKey) (dk_keyring ?a) = Inr k2"
      and tr: "http_transport_for env (ap_network ?a) = Inr proxy" and r: "r = Inr ()"
      and a': "a' = ?a\<lparr>dk_keyring := k2, ap_lookup := service_of env (ap_profile ?a) model proxy k2\<rparr>"
    have "service_of env (ap_profile a) model proxy k2
        = map_option (\<lambda>key. (\<lparr>tp_api_key = key, tp_model = model, tp_timeout = default_timeout\<rparr>, proxy)) (usable_key env entered a)"
      using stored_key_usable [OF kr valid saved(2)] del by simp
    moreover have "proxy_proxy_url (ae_parse_url env) (ap_network a) (np_provider_proxy_enabled (ap_network a)) = Inr proxy"
      using tr by (auto simp: http_transport_for_def rbind_Inr map_err_Inr)
    ultimately show ?thesis unfolding r using a' saved(1,3,4) json [OF saved(1)] idem
      by (simp add: read_provider_preferences_def validated_tokenhub_model_def atomic_write_def ok_or_def Let_def)
  qed
qed simp

text \<open>An application on a fresh installation, and a Server that accepts the login of one user.\<close>

definition example_env :: "((string, byte list) table, bool) app_env" where
  "example_env = \<lparr>ae_parse_url = (\<lambda>t. Some \<lparr>url_scheme = ''https'', url_host = Some ''s'', url_port = None, url_username = [],
       url_password = None, url_path = ''/'', url_query = None, url_fragment = None, url_text = ''https://s/''\<rparr>),
     ae_join_url = (\<lambda>u path. Some u), ae_get = (\<lambda>_ n. (Some \<lparr>hp_status = 200, hp_content_length = None, hp_chunks = []\<rparr>, n)),
     ae_read_code = (\<lambda>_. None), ae_read_conflict = (\<lambda>_. None),
     ae_read_health = (\<lambda>_. Some \<lparr>hs_status = ''ok'', hs_server_api_version = ''v1'', hs_server_version = ''1'', hs_minimum_desktop_version = ''1''\<rparr>),
     ae_version = (\<lambda>_. True), ae_version_less = (\<lambda>_ _. False), ae_software_version = ''1'', ae_valid_proxy = (\<lambda>_. True),
     ae_buildable = True, ae_wire = (\<lambda>_ _ _ _ _ n. (Inl \<lparr>re_is_timeout = False, re_is_connect = True\<rparr>, n)),
     ae_tokenhub = example_tokenhub_json, ae_unicode = ascii_unicode_db, ae_sha256 = (\<lambda>b. replicate 32 0),
     ae_settings = \<lparr>sj_read_network = (\<lambda>_. None), sj_write_network = (\<lambda>_. []),
       sj_read_provider = (\<lambda>_. Some \<lparr>pp_tokenhub_model = [109]\<rparr>), sj_write_provider = (\<lambda>_. [1])\<rparr>,
     ae_writable = (\<lambda>_. True), ae_uuid = Some, ae_installation_json = example_installation_json, ae_keyring = table_keyring,
     ae_transport = \<lparr>tr_login = (\<lambda>_ c n. (Inr \<lparr>li_user_id = ''u1'', li_username = ''new'', li_device_id = lc_device_id c,
         li_platform = lc_platform c, li_access_token = ''t'', li_access_expires_at = 9, li_refresh_token = ''r'', li_latest_revision = 0\<rparr>, n)),
       tr_refresh = (\<lambda>_ _ n. (Inl Offline, n)), tr_logout = (\<lambda>_ _ n. (Inr (), n)), tr_push = (\<lambda>_ _ _ n. (Inl Offline, n)),
       tr_changes = (\<lambda>_ _ _ _ n. (Inl Offline, n)), tr_devices = (\<lambda>_ _ n. (Inr [], n)), tr_revoke_device = (\<lambda>_ _ _ n. (Inr (), n))\<rparr>\<rparr>"

definition example_application :: "profile_metadata \<Rightarrow> worker_state \<Rightarrow> (string, byte list) table \<Rightarrow> ((string, byte list) table, bool) application" where
  "example_application profile ws k = \<lparr>dk_settings = [], dk_installation_file = Some [1], dk_worker = ws, dk_keyring = k, dk_net = True,
     ap_installation = example_installation, ap_profile = profile, ap_provider = default_provider_preferences,
     ap_network = default_network_preferences, ap_lookup = None, ap_generation = 0, ap_last_source = None, ap_session = None, ap_wakes = 0\<rparr>"

lemma table_delete: "\<exists>k'. credential_delete table_keyring sc k = Inr k'"
  by (simp add: credential_delete_def table_keyring_def)

lemma example_rebuild:
  assumes "ap_network a = default_network_preferences" "validate_tokenhub_model (pp_tokenhub_model (ap_provider a)) = Inr m"
  shows "\<exists>a'. rebuild_lookup_service example_env a = (Inr (), a')"
proof -
  have "http_transport_for example_env (ap_network a) = Inr None"
    using assms(1) by (simp add: http_transport_for_def proxy_proxy_url_def default_network_preferences_def
        reqwest_transport_new_def default_timeout_def example_env_def)
  moreover obtain k1 where "credential_delete (ae_keyring example_env) (provider_scope (ap_profile a) RetiredTranslationApiKey) (dk_keyring a) = Inr k1"
    using table_delete by (auto simp: example_env_def)
  ultimately show ?thesis using assms(2)
    by (auto simp: rebuild_lookup_service_def Let_def with_model_def tokenhub_new_def split: sum.splits)
qed

text \<open>Entering a first API key on an installation without a Provider.\<close>

theorem provider_settings_take_effect_witness:
  "\<exists>a'. save_provider_settings example_env \<lparr>pp_tokenhub_model = [32, 109]\<rparr> [107, 32] (example_application example_metadata example_single []) = (Inr (), a')
    \<and> ap_lookup a' = Some (\<lparr>tp_api_key = [107], tp_model = [109], tp_timeout = default_timeout\<rparr>, None)"
proof -
  let ?a = "example_application example_metadata example_single []"
  have kr: "keyring_contract (ae_keyring example_env)" using memory.keyring_contract_axioms by (simp add: example_env_def)
  have trims: "trim [107, 32] = [107]" "trim [32, 109] = [109]" by (simp_all add: trim_def trim_end_matches_def is_whitespace_def)
  have model: "validate_tokenhub_model [32, 109] = Inr [109]"
    by (simp add: validate_tokenhub_model_def trims max_tokenhub_model_chars_def is_whitespace_def is_control_def)
  have valid: "list_all valid_uchar [107, 32]" by (simp add: valid_uchar_def)
  obtain r a' where run: "save_provider_settings example_env \<lparr>pp_tokenhub_model = [32, 109]\<rparr> [107, 32] ?a = (r, a')" by (meson surj_pair)
  have json: "sj_read_provider (ae_settings example_env) (sj_write_provider (ae_settings example_env) (\<lparr>pp_tokenhub_model = [32, 109]\<rparr>\<lparr>pp_tokenhub_model := m\<rparr>))
      = Some (\<lparr>pp_tokenhub_model = [32, 109]\<rparr>\<lparr>pp_tokenhub_model := m\<rparr>)"
    if "validate_tokenhub_model (pp_tokenhub_model \<lparr>pp_tokenhub_model = [32, 109]\<rparr>) = Inr m" for m
    using that model by (simp add: example_env_def)
  have "store_api_key example_env [107] ?a = Inr (tbl_put (credential_account (provider_scope example_metadata TencentTokenHubApiKey)) (utf8 [107]) [])"
    by (simp add: store_api_key_def provider_configuration_def credential_contains_def credential_get_def credential_set_def
        table_keyring_def example_env_def example_application_def tbl_get_def utf8_def utf8_char_def)
  then have "r = Inr ()"
    using run example_rebuild [of "?a\<lparr>dk_keyring := tbl_put (credential_account (provider_scope example_metadata TencentTokenHubApiKey)) (utf8 [107]) [],
        dk_settings := tbl_put (provider_path (pm_profile_id example_metadata)) [1] [], ap_provider := \<lparr>pp_tokenhub_model = [109]\<rparr>\<rparr>" "[109]"]
      validate_tokenhub_model_idem [OF model]
    by (auto simp: save_provider_settings_def validated_tokenhub_model_def model trims atomic_write_def Let_def example_env_def example_application_def)
  then show ?thesis
    using provider_settings_take_effect [OF kr valid json run] trims model run
    by (simp add: usable_key_def proxy_proxy_url_def example_application_def default_network_preferences_def)
qed

section \<open>Signing in\<close>

text \<open>The worker names every Profile file after the Profile in it, with its canonical id.\<close>

definition files_named :: "uuid_parser \<Rightarrow> worker_state \<Rightarrow> bool" where
  "files_named up ws \<longleftrightarrow> tbl_wf (ws_files ws) \<and> (\<forall>name db row. tbl_get (ws_files ws) name = Some db \<longrightarrow> profile_meta db = Some row
     \<longrightarrow> name = profile_file (mt_profile_id row) \<and> up (mt_profile_id row) = Some (mt_profile_id row))"

lemma find_user_profile_file:
  "find_user_profile up user files = Inr (Some m) \<Longrightarrow> \<exists>(name, db) \<in> set files. read_profile_metadata up db = Inr m"
  by (induction up user files rule: find_user_profile.induct) (auto simp: rbind_Inr split: if_splits)

lemma read_metadata_profile_id:
  assumes "read_profile_metadata up db = Inr m"
  shows "\<exists>row. profile_meta db = Some row \<and> up (mt_profile_id row) = Some (pm_profile_id m)"
  using assms by (auto simp: read_profile_metadata_def rbind_Inr parse_uuid_def ok_or_Inr opt_transpose_def split: option.splits)

lemma found_profile_file:
  assumes "find_profile_for_user up user ws = Inr (Some m)" "files_named up ws"
  shows "\<exists>db row. tbl_get (ws_files ws) (profile_file (pm_profile_id m)) = Some db \<and> profile_meta db = Some row \<and> owned_by up user db"
proof -
  have f0: "find_user_profile up user (ws_files ws) = Inr (Some m)" using assms(1) by (simp add: find_profile_for_user_def map_err_Inr)
  obtain name db where f: "(name, db) \<in> set (ws_files ws)" "read_profile_metadata up db = Inr m" "pm_user_id m = Some user"
    using find_user_profile_file [OF f0] find_user_profile_owner [OF f0] by auto
  have get: "tbl_get (ws_files ws) name = Some db" using f(1) assms(2) by (simp add: files_named_def tbl_wf_def tbl_get_def)
  obtain row where row: "profile_meta db = Some row" "up (mt_profile_id row) = Some (pm_profile_id m)"
    using read_metadata_profile_id [OF f(2)] by blast
  have "name = profile_file (pm_profile_id m)" using assms(2) get row unfolding files_named_def by fastforce
  moreover have "owned_by up user db" using read_metadata_user [OF f(2)] f(3) by (auto simp: owned_by_def split: option.splits)
  ultimately show ?thesis using get row by blast
qed

definition signed_in :: "uuid_parser \<Rightarrow> uuid \<Rightarrow> worker_state \<Rightarrow> worker_state \<Rightarrow> bool" where
  "signed_in up user ws ws' \<longleftrightarrow> (\<exists>path db'. ws_active ws' = Some path \<and> tbl_get (ws_files ws') path = Some db'
     \<and> owned_by up user (file_db ws path) \<and> db' = (file_db ws path)\<lparr>profile_meta := profile_meta db'\<rparr>
     \<and> (\<forall>other. other \<noteq> path \<longrightarrow> tbl_get (ws_files ws') other = tbl_get (ws_files ws) other))"

lemma switched_signed_in:
  assumes "switch_profile m ws = (Inr path, ws')" "owned_by up user (file_db ws path)"
  shows "signed_in up user ws ws'"
proof (rule switch_profile_Inr [OF assms(1)])
  fix db' assume up: "upsert_or_validate_profile (file_db ws path) m = Inr db'" "path = profile_file (pm_profile_id m)"
    "ws' = ws\<lparr>ws_files := tbl_put path db' (ws_files ws), ws_active := Some path\<rparr>"
  have "db' = (file_db ws path)\<lparr>profile_meta := profile_meta db'\<rparr>" using upsert_profile_frame [OF up(1)] by auto
  with up(3) assms(2) show ?thesis unfolding signed_in_def by auto
qed

lemma login_profile_result:
  assumes run: "login_profile env user name origin now new_id a = (Inr m, ws')" and user: "ae_uuid env user = Some user"
    and named: "files_named (ae_uuid env) (dk_worker a)" and fresh: "tbl_get (ws_files (dk_worker a)) (profile_file new_id) = None"
  shows "pm_user_id m = Some user \<and> signed_in (ae_uuid env) user (dk_worker a) ws'
    \<and> (\<forall>found. find_profile_for_user (ae_uuid env) user (dk_worker a) = Inr (Some found) \<longrightarrow>
         pm_server_origin m = Some origin \<and> tbl_get (ws_files ws') = tbl_get (ws_files (dk_worker a)))"
proof (cases "find_profile_for_user (ae_uuid env) user (dk_worker a)")
  case (Inl e)
  then show ?thesis using run by (simp add: login_profile_def)
next
  case (Inr f)
  show ?thesis
  proof (cases f)
    case (Some found)
    let ?m = "found\<lparr>pm_username := Some name, pm_server_origin := Some origin, pm_updated_at := now\<rparr>"
    obtain path where sw: "switch_profile ?m (dk_worker a) = (Inr path, ws')" and m: "m = ?m"
      using run Inr Some by (auto simp: login_profile_def rbind_Inr Let_def split: prod.splits)
    obtain db row where f: "tbl_get (ws_files (dk_worker a)) (profile_file (pm_profile_id found)) = Some db" "profile_meta db = Some row"
      "owned_by (ae_uuid env) user db" using found_profile_file Inr Some named by blast
    obtain db' where s: "upsert_or_validate_profile (file_db (dk_worker a) path) ?m = Inr db'" "path = profile_file (pm_profile_id ?m)"
      "ws' = (dk_worker a)\<lparr>ws_files := tbl_put path db' (ws_files (dk_worker a)), ws_active := Some path\<rparr>"
      using switch_profile_Inr [OF sw] by metis
    have fdb: "file_db (dk_worker a) path = db" using f(1) s(2) by (simp add: file_db_def)
    have "db' = db" using s(1) f(2) fdb by (auto simp: upsert_or_validate_profile_def split: if_splits)
    then have "tbl_get (ws_files ws') = tbl_get (ws_files (dk_worker a))" using s(2,3) f(1) by auto
    moreover have "pm_user_id m = Some user"
      using Inr Some m find_user_profile_owner by (auto simp: find_profile_for_user_def map_err_Inr)
    ultimately show ?thesis using m switched_signed_in [OF sw] f(3) fdb by simp
  next
    case None
    show ?thesis
    proof (cases "pm_user_id (ap_profile a)")
      case unbound: None
      then have "resolve_account_profile (ae_uuid env) user name origin now (dk_worker a) = (Inr m, ws')"
        using run Inr None by (simp add: login_profile_def)
      from account_profile_isolated [OF this user] show ?thesis unfolding signed_in_def using Inr None by auto
    next
      case (Some other)
      then obtain path metadata where sw: "switch_profile metadata (dk_worker a) = (Inr path, ws')" "m = metadata"
        "pm_user_id metadata = Some user" "pm_profile_id metadata = new_id"
        using run Inr None by (auto simp: login_profile_def rbind_Inr Let_def split: prod.splits)
      have "path = profile_file new_id" using switch_profile_Inr [OF sw(1)] sw(4) by metis
      then have "owned_by (ae_uuid env) user (file_db (dk_worker a) path)"
        using fresh by (simp add: file_db_def owned_by_def migrated_profile_db_def)
      then show ?thesis using switched_signed_in [OF sw(1)] sw(2,3) Inr None by simp
    qed
  qed
qed

lemma rebuild_frame:
  assumes "rebuild_lookup_service env a = (r, a')"
  shows "dk_worker a' = dk_worker a \<and> ap_profile a' = ap_profile a \<and> ap_session a' = ap_session a \<and> ap_installation a' = ap_installation a
    \<and> (\<forall>e. r \<noteq> Inl (AeTransport e))"
  using assms by (auto simp: rebuild_lookup_service_def Let_def http_transport_for_def proxy_proxy_url_def proxy_url_def rbind_Inl map_err_Inl
      ok_or_Inl split: sum.splits if_splits)

lemma activate_frame:
  assumes "activate_profile env profile a = (r, a')"
  shows "dk_worker a' = dk_worker a \<and> ap_session a' = ap_session a \<and> (\<forall>e. r \<noteq> Inl (AeTransport e)) \<and> (r = Inr () \<longrightarrow> ap_profile a' = profile)"
proof (cases "read_provider_preferences env (provider_path (pm_profile_id profile)) (dk_settings a)")
  case (Inl e)
  then have "e \<noteq> AeTransport t" for t
    by (auto simp: read_provider_preferences_def validated_tokenhub_model_def atomic_write_def rbind_Inl map_err_Inl ok_or_Inl Let_def
        split: option.splits if_splits)
  then show ?thesis using assms Inl by (auto simp: activate_profile_def)
next
  case (Inr x)
  then show ?thesis using assms rebuild_frame by (cases x) (auto simp: activate_profile_def dest!: rebuild_frame)
qed

text \<open>The ways a login ends: refused before it touches anything, failed with the session ended, or signed in.\<close>

lemma app_login_cases:
  fixes env :: "('k, 'n) app_env"
  assumes run: "app_login env now new_id origin username password a = (r, a')"
  obtains (incompatible) e where "r = Inl (AeTransport e)" "ap_session a' = ap_session a" "ap_profile a' = ap_profile a"
  | (ended) e where "r = Inl e" "\<not> (\<exists>t. e = AeTransport t)" "ap_session a' = None"
  | (signed) session :: session_info and identity :: login_identity and user :: uuid and a2 a3 :: "('k, 'n) application"
      and metadata :: profile_metadata and ws :: worker_state where "r = Inr ()"
      "sx_server_origin session = origin" "sx_device_id session = im_device_id (ap_installation a)"
      "ae_uuid env (sx_user_id session) = Some user" "dk_worker a2 = dk_worker a"
      "login_profile env user (li_username identity) origin now new_id a2 = (Inr metadata, ws)"
      "activate_profile env metadata (a2\<lparr>dk_worker := ws\<rparr>) = (Inr (), a3)"
      "a' = start_sync session (li_access_token identity) (li_access_expires_at identity) a3"
proof (cases "compatibility env origin (dk_net a)")
  case (Pair c n)
  show thesis
  proof (cases c)
    case (Inl e)
    then show thesis using run Pair by (intro incompatible [of e]) (auto simp: app_login_def)
  next
    case ok: (Inr h)
    let ?a1 = "stop_sync (a\<lparr>dk_net := n\<rparr>)"
    let ?cred = "\<lparr>lc_username = username, lc_password = password, lc_device_id = im_device_id (ap_installation ?a1),
                  lc_platform = platform_as_str (im_platform (ap_installation ?a1)),
                  lc_device_name = Some (text_string (im_device_name (ap_installation ?a1)))\<rparr>"
    obtain l w k1 n1 where l: "session_login (ae_transport env) (ae_keyring env) origin ?cred (dk_keyring ?a1) (dk_net ?a1) = (l, w, k1, n1)"
      by (metis prod_cases4)
    let ?a2 = "?a1\<lparr>dk_keyring := k1, dk_net := n1\<rparr>"
    note run' = run [unfolded app_login_def Pair ok prod.case sum.case Let_def l]
    show thesis
    proof (cases "\<exists>session identity user metadata ws a3. l = Inr (session, identity) \<and> ae_uuid env (li_user_id identity) = Some user
        \<and> login_profile env user (li_username identity) origin now new_id ?a2 = (Inr metadata, ws)
        \<and> activate_profile env metadata (?a2\<lparr>dk_worker := ws\<rparr>) = (Inr (), a3)")
      case False
      then show thesis using run'
        by (intro ended [of "projl r"]) (auto simp: stop_sync_def split: sum.splits prod.splits option.splits dest!: activate_frame)
    next
      case True
      then obtain session identity user metadata ws a3 where t: "l = Inr (session, identity)" "ae_uuid env (li_user_id identity) = Some user"
        "login_profile env user (li_username identity) origin now new_id ?a2 = (Inr metadata, ws)"
        "activate_profile env metadata (?a2\<lparr>dk_worker := ws\<rparr>) = (Inr (), a3)" by blast
      have "sx_server_origin session = origin \<and> sx_device_id session = im_device_id (ap_installation a) \<and> sx_user_id session = li_user_id identity"
        using l t(1) by (auto simp: session_login_def stop_sync_def split: sum.splits prod.splits if_splits)
      then show thesis using run' t by (intro signed [of session user ?a2 identity metadata ws a3]) (auto simp: stop_sync_def)
    qed
  qed
qed

text \<open>
  C31: signing in opens the account's own data. After a successful login the session belongs to this device
  and Server, the Profile in use is bound to the user the Server named, the active Profile file was unbound,
  new or the user's own, keeps its history, favorites, statistics and pending events, and no other Profile
  file changed. When the user already had a Profile, its file does not change at all: a new Server origin or
  user name is used until the next start only. A login refused by the compatibility check keeps the running
  session; a login that fails later has ended it.
\<close>

theorem login_opens_own_profile:
  assumes named: "files_named (ae_uuid env) (dk_worker a)" and fresh: "tbl_get (ws_files (dk_worker a)) (profile_file new_id) = None"
    and canonical: "\<forall>v u. ae_uuid env v = Some u \<longrightarrow> ae_uuid env u = Some u"
    and run: "app_login env now new_id origin username password a = (r, a')"
  shows "case r of
      Inr _ \<Rightarrow> (\<exists>session token expires_at user. ap_session a' = Some (session, token, expires_at)
        \<and> sx_server_origin session = origin \<and> sx_device_id session = im_device_id (ap_installation a)
        \<and> ae_uuid env (sx_user_id session) = Some user \<and> pm_user_id (ap_profile a') = Some user
        \<and> signed_in (ae_uuid env) user (dk_worker a) (dk_worker a')
        \<and> (\<forall>found. find_profile_for_user (ae_uuid env) user (dk_worker a) = Inr (Some found) \<longrightarrow>
             pm_server_origin (ap_profile a') = Some origin \<and> tbl_get (ws_files (dk_worker a')) = tbl_get (ws_files (dk_worker a))))
    | Inl (AeTransport _) \<Rightarrow> ap_session a' = ap_session a \<and> ap_profile a' = ap_profile a
    | Inl _ \<Rightarrow> ap_session a' = None"
  using run
proof (cases rule: app_login_cases)
  case (signed session identity user a2 a3 metadata ws)
  have "pm_user_id metadata = Some user \<and> signed_in (ae_uuid env) user (dk_worker a) ws
    \<and> (\<forall>found. find_profile_for_user (ae_uuid env) user (dk_worker a) = Inr (Some found) \<longrightarrow>
         pm_server_origin metadata = Some origin \<and> tbl_get (ws_files ws) = tbl_get (ws_files (dk_worker a)))"
    using login_profile_result [OF signed(6) canonical [rule_format, OF signed(4)]] named fresh unfolding signed(5) by blast
  then show ?thesis using activate_frame [OF signed(7)] signed(1-4,8) by (auto simp: start_sync_def stop_sync_def)
next
  case (ended e)
  then show ?thesis by (cases e) auto
qed simp

text \<open>A user whose Profile was bound at another Server signs in at a new one.\<close>

definition example_bound :: worker_state where
  "example_bound = \<lparr>ws_files = [(''profile-p1.sqlite3'', migrated_profile_db\<lparr>profile_meta := Some (example_meta\<lparr>mt_user_id := Some ''u1'',
       mt_username := Some ''old'', mt_server_origin := Some ''https://old''\<rparr>)\<rparr>)], ws_active = Some ''profile-p1.sqlite3''\<rparr>"

definition example_bound_metadata :: profile_metadata where
  "example_bound_metadata = example_metadata\<lparr>pm_user_id := Some ''u1'', pm_username := Some ''old'', pm_server_origin := Some ''https://old''\<rparr>"

lemma example_bound_found: "find_profile_for_user Some ''u1'' example_bound = Inr (Some example_bound_metadata)"
  by (simp add: find_profile_for_user_def example_bound_def is_profile_file_def read_profile_metadata_def migrated_profile_db_def
      example_meta_def example_bound_metadata_def example_metadata_def parse_uuid_def sqlite_u64_def u64_of_i64_def opt_transpose_def ok_or_def)

lemma example_activate:
  assumes "dk_settings x = []" "ap_network x = default_network_preferences"
  shows "\<exists>a'. activate_profile example_env m x = (Inr (), a')"
  using example_rebuild [of "x\<lparr>dk_settings := [], ap_profile := m, ap_provider := default_provider_preferences\<rparr>" default_tokenhub_model] assms
  by (simp add: activate_profile_def read_provider_preferences_def tbl_get_def default_provider_preferences_def validate_tokenhub_model_def
      default_tokenhub_model_def ascii_def trim_def trim_end_matches_def is_whitespace_def is_control_def max_tokenhub_model_chars_def)

lemma example_login:
  "\<exists>a'. app_login example_env 9 ''p2'' ''https://new'' ''new'' ''pw'' (example_application example_bound_metadata example_bound []) = (Inr (), a')
    \<and> pm_user_id (ap_profile a') = Some ''u1''"
proof -
  let ?a = "example_application example_bound_metadata example_bound []"
  let ?id = "\<lparr>li_user_id = ''u1'', li_username = ''new'', li_device_id = ''d1'', li_platform = ''macos'', li_access_token = ''t'',
     li_access_expires_at = 9, li_refresh_token = ''r'', li_latest_revision = 0\<rparr>"
  have comp: "compatibility example_env ''https://new'' True = (Inr \<lparr>hs_status = ''ok'', hs_server_api_version = ''v1'', hs_server_version = ''1'',
      hs_minimum_desktop_version = ''1''\<rparr>, True)"
    by (simp add: compatibility_def endpoint_def example_env_def ok_or_def json_response_def is_success_def bounded_response_body_def check_health_def)
  have login: "\<exists>w k1. session_login (ae_transport example_env) (ae_keyring example_env) ''https://new''
      \<lparr>lc_username = ''new'', lc_password = ''pw'', lc_device_id = ''d1'', lc_platform = ''macos'', lc_device_name = Some name\<rparr> [] True
      = (Inr (\<lparr>sx_server_origin = ''https://new'', sx_user_id = ''u1'', sx_username = ''new'', sx_device_id = ''d1'', sx_platform = ''macos''\<rparr>, ?id), w, k1, True)" for name
    by (simp add: session_login_def example_env_def credential_set_def table_keyring_def string_bytes_def)
  obtain ws where prof: "login_profile example_env ''u1'' ''new'' ''https://new'' 9 ''p2'' x
      = (Inr (example_bound_metadata\<lparr>pm_username := Some ''new'', pm_server_origin := Some ''https://new'', pm_updated_at := 9\<rparr>), ws)"
    if "dk_worker x = example_bound" for x :: "((string, byte list) table, bool) application"
    using example_bound_found
    by (auto simp: login_profile_def example_env_def switch_profile_def validate_profile_metadata_def example_bound_metadata_def example_metadata_def
        example_bound_def profile_file_def tbl_get_def upsert_or_validate_profile_def example_meta_def nil_uuid_def Let_def)
  obtain w k1 where l: "session_login (ae_transport example_env) (ae_keyring example_env) ''https://new''
      \<lparr>lc_username = ''new'', lc_password = ''pw'', lc_device_id = ''d1'', lc_platform = ''macos'', lc_device_name = Some (text_string (ascii ''mac''))\<rparr> [] True
      = (Inr (\<lparr>sx_server_origin = ''https://new'', sx_user_id = ''u1'', sx_username = ''new'', sx_device_id = ''d1'', sx_platform = ''macos''\<rparr>, ?id), w, k1, True)"
    using login by blast
  let ?a2 = "(stop_sync (?a\<lparr>dk_net := True\<rparr>))\<lparr>dk_keyring := k1, dk_net := True\<rparr>"
  obtain a3 where act3: "activate_profile example_env (example_bound_metadata\<lparr>pm_username := Some ''new'', pm_server_origin := Some ''https://new'', pm_updated_at := 9\<rparr>)
      (?a2\<lparr>dk_worker := ws\<rparr>) = (Inr (), a3)" using example_activate [of "?a2\<lparr>dk_worker := ws\<rparr>"] by (auto simp: example_application_def stop_sync_def)
  moreover have "ae_uuid example_env = Some" by (simp add: example_env_def)
  moreover have "pm_user_id example_bound_metadata = Some ''u1''" by (simp add: example_bound_metadata_def)
  ultimately show ?thesis using comp l prof [of ?a2] activate_frame [OF act3]
    by (simp add: start_sync_def app_login_def Let_def example_application_def stop_sync_def example_installation_def)
qed

theorem login_opens_own_profile_witness:
  "\<exists>a'. app_login example_env 9 ''p2'' ''https://new'' ''new'' ''pw'' (example_application example_bound_metadata example_bound []) = (Inr (), a')
    \<and> pm_server_origin (ap_profile a') = Some ''https://new'' \<and> tbl_get (ws_files (dk_worker a')) = tbl_get (ws_files example_bound)"
proof -
  let ?a = "example_application example_bound_metadata example_bound []"
  have u: "ae_uuid example_env = Some" by (simp add: example_env_def)
  have w: "dk_worker ?a = example_bound" by (simp add: example_application_def)
  obtain a' where run: "app_login example_env 9 ''p2'' ''https://new'' ''new'' ''pw'' ?a = (Inr (), a')" and pid: "pm_user_id (ap_profile a') = Some ''u1''"
    using example_login by blast
  have named: "files_named (ae_uuid example_env) (dk_worker ?a)" unfolding u w
    by (auto simp: files_named_def example_bound_def tbl_wf_def tbl_get_def profile_file_def example_meta_def split: if_splits)
  have fresh: "tbl_get (ws_files (dk_worker ?a)) (profile_file ''p2'') = None" unfolding w
    by (simp add: example_bound_def tbl_get_def profile_file_def)
  have canonical: "\<forall>v x. ae_uuid example_env v = Some x \<longrightarrow> ae_uuid example_env x = Some x" by (simp add: u)
  obtain session :: session_info and user where s: "ae_uuid example_env (sx_user_id session) = Some user"
     "find_profile_for_user (ae_uuid example_env) user (dk_worker ?a) = Inr (Some example_bound_metadata) \<longrightarrow>
             pm_server_origin (ap_profile a') = Some ''https://new'' \<and> tbl_get (ws_files (dk_worker a')) = tbl_get (ws_files (dk_worker ?a))"
     "pm_user_id (ap_profile a') = Some user" "signed_in (ae_uuid example_env) user (dk_worker ?a) (dk_worker a')"
    using login_opens_own_profile [OF named fresh canonical run] unfolding sum.case by blast
  have "user = ''u1''" using s(3) pid by simp
  then show ?thesis using run s(2) example_bound_found by (simp add: u w)
qed


section \<open>Recovering a revoked Device\<close>

context keyring_contract begin

lemma other_keys_kept:
  "delete_credentials kr scopes k = (r, k') \<Longrightarrow> \<forall>sc \<in> List.set scopes. cs_key sc \<noteq> cs_key other \<Longrightarrow>
     credential_get kr other k' = credential_get kr other k"
proof (induction scopes arbitrary: k)
  case (Cons sc scopes)
  show ?case
  proof (cases "credential_delete kr sc k")
    case (Inr k1)
    then show ?thesis using Cons other_key_deleted [OF Inr, of other] by simp
  qed (use Cons.prems in simp)
qed simp

end

lemma old_sessions_key: "sc \<in> set (old_sessions device profiles) \<Longrightarrow> cs_key sc = ServerRefreshToken"
  by (auto simp: old_sessions_def refresh_scope_def split: option.splits prod.splits)

lemma regenerated_keys:
  assumes "keyring_contract kr" "regenerate_after_revocation js kr up written new_id replacement confirmed platform device_name now file ws k = (Inr m, file', ws', k')"
  shows "im_device_id m = replacement \<and> (\<forall>sc. cs_key sc \<noteq> ServerRefreshToken \<longrightarrow> credential_get kr sc k' = credential_get kr sc k)"
proof -
  have "\<exists>(current :: installation_metadata) profiles file1. replace_revoked_identity js (rw_replaced written) (im_device_id current) replacement file1 = (Inr m, file')
    \<and> delete_credentials kr (old_sessions (im_device_id current) profiles) k = (Inr (), k')"
    using assms(2) unfolding regenerate_after_revocation_def by (auto split: if_splits prod.splits sum.splits)
  then obtain current :: installation_metadata and profiles file1 where steps: "replace_revoked_identity js (rw_replaced written) (im_device_id current) replacement file1 = (Inr m, file')"
    "delete_credentials kr (old_sessions (im_device_id current) profiles) k = (Inr (), k')" by blast
  have "im_device_id m = replacement"
    using steps(1) by (auto simp: replace_revoked_identity_def Let_def split: if_splits option.splits sum.splits prod.splits)
  moreover have "credential_get kr sc k' = credential_get kr sc k" if "cs_key sc \<noteq> ServerRefreshToken" for sc
    using keyring_contract.other_keys_kept [OF assms(1) steps(2)] that old_sessions_key by metis
  ultimately show ?thesis by blast
qed

text \<open>
  A recovered Device forgets its Provider. The API key is stored under the Device identity. When the
  identity has been replaced, which succeeds without the key being moved, lookups have no Provider and the
  settings report that none is configured, although the key is still in the credential store under the old
  identity.
\<close>

theorem recovered_device_loses_provider:
  assumes kr: "keyring_contract (ae_keyring env)"
    and unused: "credential_get (ae_keyring env) (provider_scope ((ap_profile a)\<lparr>pm_device_id := replacement\<rparr>) TencentTokenHubApiKey) (dk_keyring a) = Inr None"
    and run: "recover_revoked_device env written new_id replacement now a = (Inr (), a')"
  shows "pm_device_id (ap_profile a') = replacement \<and> ap_lookup a' = None \<and> provider_configuration env a' = Inr False
    \<and> credential_get (ae_keyring env) (provider_scope (ap_profile a) TencentTokenHubApiKey) (dk_keyring a')
      = credential_get (ae_keyring env) (provider_scope (ap_profile a) TencentTokenHubApiKey) (dk_keyring a)"
proof -
  let ?kr = "ae_keyring env"
  obtain m file1 ws k1 where reg: "regenerate_after_revocation (ae_installation_json env) ?kr (ae_uuid env) written new_id replacement
      True (im_platform (ap_installation a)) (im_device_name (ap_installation a)) now (dk_installation_file a) (dk_worker a) (dk_keyring a)
      = (Inr m, file1, ws, k1)"
    and act: "activate_profile env ((ap_profile a)\<lparr>pm_device_id := im_device_id m, pm_updated_at := now\<rparr>)
      ((stop_sync a)\<lparr>dk_installation_file := file1, dk_worker := ws, dk_keyring := k1, ap_installation := m\<rparr>) = (Inr (), a')"
    using run by (auto simp: recover_revoked_device_def Let_def stop_sync_def split: prod.splits sum.splits)
  have id: "im_device_id m = replacement" and kept: "\<And>sc. cs_key sc \<noteq> ServerRefreshToken \<Longrightarrow> credential_get ?kr sc k1 = credential_get ?kr sc (dk_keyring a)"
    using regenerated_keys [OF kr reg] by blast+
  let ?p = "(ap_profile a)\<lparr>pm_device_id := replacement, pm_updated_at := now\<rparr>"
  obtain a2 where reb: "rebuild_lookup_service env a2 = (Inr (), a')" and a2: "ap_profile a2 = ?p" "dk_keyring a2 = k1"
    using act id by (auto simp: activate_profile_def split: sum.splits prod.splits)
  obtain k2 where del: "credential_delete ?kr (provider_scope ?p RetiredTranslationApiKey) k1 = Inr k2" and k2: "dk_keyring a' = k2"
    and a': "ap_profile a' = ?p"
    using reb a2 by (auto simp: rebuild_lookup_service_def Let_def split: sum.splits)
  have get: "credential_get ?kr (provider_scope q TencentTokenHubApiKey) k2 = credential_get ?kr (provider_scope q TencentTokenHubApiKey) (dk_keyring a)" for q
    using keyring_contract.other_key_deleted [OF kr del] kept by simp
  have none: "credential_get ?kr (provider_scope ?p TencentTokenHubApiKey) k2 = Inr None"
    using get [of ?p] unused by (simp add: provider_scope_def)
  then have "profile_api_key env ?p k2 = Inl PcMissing"
    by (simp add: profile_api_key_def tokenhub_api_key_def credential_read_def provider_scope_def ok_or_def)
  then have "ap_lookup a' = None" using reb a2 del by (auto simp: rebuild_lookup_service_def Let_def split: sum.splits)
  with none get a' k2 show ?thesis by (simp add: provider_configuration_def credential_contains_def)
qed

text \<open>An installation with a stored API key replaces its identity.\<close>

theorem recovered_device_loses_provider_witness:
  "\<exists>a'. recover_revoked_device example_env example_recovery ''d0'' ''d9'' 9
      (example_application example_metadata example_single [(credential_account (provider_scope example_metadata TencentTokenHubApiKey), [107])]) = (Inr (), a')
    \<and> ap_lookup a' = None
    \<and> credential_get table_keyring (provider_scope example_metadata TencentTokenHubApiKey) (dk_keyring a') = Inr (Some [107])"
proof -
  let ?k = "[(credential_account (provider_scope example_metadata TencentTokenHubApiKey), [107])]"
  let ?a = "example_application example_metadata example_single ?k"
  have kr: "keyring_contract (ae_keyring example_env)" using memory.keyring_contract_axioms by (simp add: example_env_def)
  have p: "ap_profile ?a = example_metadata" "dk_keyring ?a = ?k" by (simp_all add: example_application_def)
  have unused: "credential_get (ae_keyring example_env) (provider_scope ((ap_profile ?a)\<lparr>pm_device_id := ''d9''\<rparr>) TencentTokenHubApiKey) (dk_keyring ?a) = Inr None"
    unfolding p by (simp add: example_env_def credential_get_def table_keyring_def tbl_get_def credential_account_def provider_scope_def example_metadata_def)
  obtain ws' where reg: "regenerate_after_revocation example_installation_json table_keyring Some example_recovery ''d0'' ''d9'' True Macos
      (ascii ''mac'') 9 (Some [1]) example_single ?k = (Inr (example_installation\<lparr>im_device_id := ''d9''\<rparr>), Some [2], ws', ?k)"
    using example_regeneration by blast
  let ?b = "(stop_sync ?a)\<lparr>dk_installation_file := Some [2], dk_worker := ws', dk_keyring := ?k,
      ap_installation := example_installation\<lparr>im_device_id := ''d9''\<rparr>\<rparr>"
  obtain a' where "activate_profile example_env (example_metadata\<lparr>pm_device_id := ''d9'', pm_updated_at := 9\<rparr>) ?b = (Inr (), a')"
    using example_activate [of ?b] by (auto simp: example_application_def stop_sync_def)
  then have run: "recover_revoked_device example_env example_recovery ''d0'' ''d9'' 9 ?a = (Inr (), a')"
    using reg by (simp add: recover_revoked_device_def Let_def stop_sync_def example_application_def example_installation_def) (simp add: example_env_def)
  from recovered_device_loses_provider [OF kr unused run] run show ?thesis
    unfolding p by (simp add: example_env_def credential_get_def table_keyring_def tbl_get_def)
qed

end
