(* ===== verification/Update_Check.thy ===== *)
theory Update_Check
  imports Desktop_Application
begin

text \<open>
  \<open>apps/desktop/src/update.rs\<close>: the check of GitHub Releases for a newer version. The release document and
  the manifest it links are fetched with a size limit and cross-checked; nothing is downloaded, the user is
  sent to the Release page. URLs, versions, JSON and the HTTP client are arguments.
\<close>

section \<open>Values\<close>

datatype update_error =
  UeNetwork | UeInvalidManifest | UeInvalidReleaseSource | UeInvalidVersion | UeUnsupportedChannel
| UeUnsupportedPlatform | UeIntegrityMismatch

record update_artifact =
  ua_version :: string
  ua_name :: string
  ua_platform :: string
  ua_architecture :: string
  ua_download_url :: string
  ua_sha256 :: string
  ua_size_bytes :: u64

record update_info =
  ui_current_version :: string
  ui_version :: string
  ui_channel :: string
  ui_release_page :: string
  ui_available :: bool
  ui_artifact :: update_artifact

record update_target =
  ut_platform :: string
  ut_architecture :: string

definition current_target :: "string \<Rightarrow> string \<Rightarrow> update_error + update_target" where
  "current_target os arch =
     (if (os, arch) = (''macos'', ''aarch64'') then Inr \<lparr>ut_platform = ''macos'', ut_architecture = ''arm64''\<rparr>
      else if (os, arch) = (''windows'', ''x86_64'') then Inr \<lparr>ut_platform = ''windows'', ut_architecture = ''x86_64''\<rparr>
      else Inl UeUnsupportedPlatform)"

definition github_releases_url :: string where
  "github_releases_url = ''https://github.com/wadaxiyang/LVOS/releases''"

definition github_latest_release_api :: string where
  "github_latest_release_api = ''https://api.github.com/repos/wadaxiyang/LVOS/releases/latest''"

definition default_update_channel :: string where
  "default_update_channel = ''stable''"

record update_config =
  gc_owner :: string
  gc_repository :: string
  gc_release_api_url :: string
  gc_release_page_root :: string
  gc_channel :: string
  gc_current_version :: string
  gc_target :: update_target

definition validate_channel :: "string \<Rightarrow> update_error + unit" where
  "validate_channel channel = (if channel = default_update_channel then Inr () else Inl UeUnsupportedChannel)"

definition lvos_config :: "string \<Rightarrow> string \<Rightarrow> string \<Rightarrow> string \<Rightarrow> update_error + update_config" where
  "lvos_config software_version os arch channel =
     rbind (validate_channel channel) (\<lambda>_. rbind (current_target os arch) (\<lambda>target.
     Inr \<lparr>gc_owner = ''wadaxiyang'', gc_repository = ''LVOS'', gc_release_api_url = github_latest_release_api,
          gc_release_page_root = github_releases_url, gc_channel = channel, gc_current_version = software_version,
          gc_target = target\<rparr>))"

record github_asset =
  gs_name :: string
  gs_state :: string
  gs_size :: u64
  gs_digest :: "string option"
  gs_browser_download_url :: string

record github_release =
  gr_tag_name :: string
  gr_html_url :: string
  gr_draft :: bool
  gr_prerelease :: bool
  gr_assets :: "github_asset list"

record manifest_artifact =
  ma_platform :: string
  ma_architecture :: string
  ma_name :: string
  ma_size_bytes :: u64
  ma_sha256 :: string
  ma_download_url :: string

record update_manifest =
  mf_manifest_version :: u32
  mf_product :: string
  mf_channel :: string
  mf_version :: string
  mf_release_page :: string
  mf_artifacts :: "manifest_artifact list"

record validated_release =
  vr_version :: string
  vr_release_page :: string
  vr_artifact :: update_artifact

definition max_github_release_bytes :: usize where
  "max_github_release_bytes = 1048576"

definition max_update_manifest_bytes :: usize where
  "max_update_manifest_bytes = 65536"

definition max_update_artifact_bytes :: u64 where
  "max_update_artifact_bytes = 536870912"

text \<open>\<open>ue_send\<close> is the request of the HTTP client, \<open>None\<close> when it fails.\<close>

record 'n update_env =
  ue_parse_url :: "utext \<Rightarrow> url option"
  ue_version :: "string \<Rightarrow> bool"
  ue_version_less :: "string \<Rightarrow> string \<Rightarrow> bool"
  ue_send :: "string \<Rightarrow> 'n \<Rightarrow> http_response option \<times> 'n"
  ue_read_release :: "byte list \<Rightarrow> github_release option"
  ue_read_manifest :: "byte list \<Rightarrow> update_manifest option"

section \<open>Fetching\<close>

fun read_update_body :: "usize \<Rightarrow> byte list \<Rightarrow> (unit + byte list) list \<Rightarrow> update_error + byte list" where
  "read_update_body limit body [] = Inr body"
| "read_update_body limit body (Inl _ # rest) = Inl UeNetwork"
| "read_update_body limit body (Inr chunk # rest) =
     (if length body + length chunk > limit then Inl UeNetwork else read_update_body limit (body @ chunk) rest)"

definition update_get :: "'n update_env \<Rightarrow> string \<Rightarrow> usize \<Rightarrow> 'n \<Rightarrow> (update_error + byte list) \<times> 'n" where
  "update_get env url maximum_bytes n =
     (case ue_parse_url env (ascii url) of
        None \<Rightarrow> (Inl UeInvalidReleaseSource, n)
      | Some u \<Rightarrow>
          if url_scheme u \<noteq> ''https'' \<or> url_host u = None \<or> url_username u \<noteq> [] \<or> url_password u \<noteq> None
          then (Inl UeInvalidReleaseSource, n)
          else case ue_send env (url_text u) n of
            (None, n1) \<Rightarrow> (Inl UeNetwork, n1)
          | (Some response, n1) \<Rightarrow>
              (if \<not> is_success (hp_status response)
                  \<or> (case hp_content_length response of None \<Rightarrow> False | Some len \<Rightarrow> len > maximum_bytes)
               then Inl UeNetwork else read_update_body maximum_bytes [] (hp_chunks response), n1))"

section \<open>Validation\<close>

definition validate_config :: "'n update_env \<Rightarrow> update_config \<Rightarrow> update_error + unit" where
  "validate_config env c =
     rbind (validate_channel (gc_channel c)) (\<lambda>_.
     if gc_owner c \<noteq> ''wadaxiyang'' \<or> gc_repository c \<noteq> ''LVOS'' \<or> gc_release_api_url c \<noteq> github_latest_release_api
        \<or> gc_release_page_root c \<noteq> github_releases_url
     then Inl UeInvalidReleaseSource
     else if ue_version env (gc_current_version c) then Inr () else Inl UeInvalidVersion)"

definition validate_manifest_header ::
  "'n update_env \<Rightarrow> update_config \<Rightarrow> github_release \<Rightarrow> update_manifest \<Rightarrow> update_error + unit" where
  "validate_manifest_header env c release manifest =
     (if \<not> ue_version env (mf_version manifest) then Inl UeInvalidVersion
      else
        let expected_tag = ''v'' @ mf_version manifest;
            expected_page = gc_release_page_root c @ ''/tag/'' @ expected_tag in
        if mf_manifest_version manifest \<noteq> 2 \<or> mf_product manifest \<noteq> ''LVOS'' \<or> mf_channel manifest \<noteq> gc_channel c
           \<or> gr_tag_name release \<noteq> expected_tag \<or> gr_html_url release \<noteq> expected_page
           \<or> mf_release_page manifest \<noteq> expected_page
        then Inl UeInvalidManifest else Inr ())"

definition unique_asset :: "github_asset list \<Rightarrow> string \<Rightarrow> update_error + github_asset" where
  "unique_asset assets name =
     (case filter (\<lambda>a. gs_name a = name) assets of [asset] \<Rightarrow> Inr asset | _ \<Rightarrow> Inl UeInvalidManifest)"

definition valid_sha256 :: "string \<Rightarrow> bool" where
  "valid_sha256 value \<longleftrightarrow> length value = 64
     \<and> list_all (\<lambda>c. CHR ''0'' \<le> c \<and> c \<le> CHR ''9'' \<or> CHR ''a'' \<le> c \<and> c \<le> CHR ''f'') value"

definition expected_artifact_name :: "string \<Rightarrow> string \<Rightarrow> string \<Rightarrow> string option" where
  "expected_artifact_name version platform architecture =
     (if (platform, architecture) = (''macos'', ''arm64'') then Some (''LVOS-'' @ version @ ''-macos-arm64.dmg'')
      else if (platform, architecture) = (''windows'', ''x86_64'') then Some (''LVOS-'' @ version @ ''-windows-x86_64-setup.exe'')
      else None)"

definition validate_manifest_artifact :: "update_config \<Rightarrow> string \<Rightarrow> manifest_artifact \<Rightarrow> update_error + unit" where
  "validate_manifest_artifact c version artifact =
     (case expected_artifact_name version (ma_platform artifact) (ma_architecture artifact) of
        None \<Rightarrow> Inl UeUnsupportedPlatform
      | Some expected_name \<Rightarrow>
          let expected_url = gc_release_page_root c @ ''/download/v'' @ version @ ''/'' @ expected_name in
          if ma_name artifact \<noteq> expected_name \<or> ma_download_url artifact \<noteq> expected_url \<or> ma_size_bytes artifact = 0
             \<or> ma_size_bytes artifact > max_update_artifact_bytes \<or> \<not> valid_sha256 (ma_sha256 artifact)
          then Inl UeInvalidManifest else Inr ())"

definition validate_asset_source :: "update_config \<Rightarrow> string \<Rightarrow> github_asset \<Rightarrow> update_error + unit" where
  "validate_asset_source c tag asset =
     (let expected = gc_release_page_root c @ ''/download/'' @ tag @ ''/'' @ gs_name asset in
      if gs_state asset \<noteq> ''uploaded'' \<or> gs_browser_download_url asset \<noteq> expected then Inl UeInvalidReleaseSource else Inr ())"

definition validate_release_artifact ::
  "update_config \<Rightarrow> string \<Rightarrow> manifest_artifact \<Rightarrow> github_asset \<Rightarrow> update_error + unit" where
  "validate_release_artifact c tag manifest release =
     rbind (validate_asset_source c tag release) (\<lambda>_.
     if gs_size release \<noteq> ma_size_bytes manifest \<or> gs_digest release \<noteq> Some (''sha256:'' @ ma_sha256 manifest)
        \<or> gs_browser_download_url release \<noteq> ma_download_url manifest
     then Inl UeIntegrityMismatch else Inr ())"

text \<open>The loop over the artifacts; \<open>targets\<close> are those seen, \<open>selected\<close> the one for this machine.\<close>

fun select_artifact ::
  "update_config \<Rightarrow> github_release \<Rightarrow> string \<Rightarrow> (string \<times> string) list \<Rightarrow> update_artifact option \<Rightarrow> manifest_artifact list
    \<Rightarrow> update_error + (string \<times> string) list \<times> update_artifact option" where
  "select_artifact c release version targets selected [] = Inr (targets, selected)"
| "select_artifact c release version targets selected (artifact # rest) =
     (let target = (ma_platform artifact, ma_architecture artifact) in
      if target \<in> set targets then Inl UeInvalidManifest
      else rbind (validate_manifest_artifact c version artifact) (\<lambda>_.
           rbind (ok_or UeInvalidManifest (find (\<lambda>a. gs_name a = ma_name artifact) (gr_assets release))) (\<lambda>asset.
           rbind (validate_release_artifact c (gr_tag_name release) artifact asset) (\<lambda>_.
           if ma_platform artifact = ut_platform (gc_target c) \<and> ma_architecture artifact = ut_architecture (gc_target c)
           then (if selected \<noteq> None then Inl UeInvalidManifest
                 else select_artifact c release version (target # targets)
                   (Some \<lparr>ua_version = version, ua_name = ma_name artifact, ua_platform = ma_platform artifact,
                      ua_architecture = ma_architecture artifact, ua_download_url = ma_download_url artifact,
                      ua_sha256 = ma_sha256 artifact, ua_size_bytes = ma_size_bytes artifact\<rparr>) rest)
           else select_artifact c release version (target # targets) selected rest))))"

definition check_release :: "'n update_env \<Rightarrow> update_config \<Rightarrow> github_release \<Rightarrow> update_manifest \<Rightarrow> update_error + validated_release" where
  "check_release env c release manifest =
     rbind (validate_manifest_header env c release manifest) (\<lambda>_.
     if \<not> distinct (map gs_name (gr_assets release)) then Inl UeInvalidManifest
     else rbind (select_artifact c release (mf_version manifest) [] None (mf_artifacts manifest)) (\<lambda>(targets, selected).
       if set targets \<noteq> {(''macos'', ''arm64''), (''windows'', ''x86_64'')} then Inl UeInvalidManifest
       else rbind (ok_or UeUnsupportedPlatform selected) (\<lambda>artifact.
         Inr \<lparr>vr_version = mf_version manifest, vr_release_page = mf_release_page manifest, vr_artifact = artifact\<rparr>)))"

definition manifest_asset :: "update_config \<Rightarrow> github_release \<Rightarrow> update_error + github_asset" where
  "manifest_asset c release =
     (if gr_draft release \<or> gc_channel c = default_update_channel \<and> gr_prerelease release then Inl UeInvalidManifest
      else rbind (unique_asset (gr_assets release) (''lvos-update-'' @ gc_channel c @ ''.json'')) (\<lambda>asset.
           rbind (validate_asset_source c (gr_tag_name release) asset) (\<lambda>_. Inr asset)))"

definition validated_release_of :: "'n update_env \<Rightarrow> update_config \<Rightarrow> 'n \<Rightarrow> (update_error + validated_release) \<times> 'n" where
  "validated_release_of env c n =
     (case validate_config env c of
        Inl e \<Rightarrow> (Inl e, n)
      | Inr _ \<Rightarrow>
          (case update_get env (gc_release_api_url c) max_github_release_bytes n of
             (Inl e, n1) \<Rightarrow> (Inl e, n1)
           | (Inr release_bytes, n1) \<Rightarrow>
               (case rbind (ok_or UeInvalidManifest (ue_read_release env release_bytes)) (\<lambda>release.
                     rbind (manifest_asset c release) (\<lambda>asset. Inr (release, asset))) of
                  Inl e \<Rightarrow> (Inl e, n1)
                | Inr (release, asset) \<Rightarrow>
                    (case update_get env (gs_browser_download_url asset) max_update_manifest_bytes n1 of
                       (Inl e, n2) \<Rightarrow> (Inl e, n2)
                     | (Inr manifest_bytes, n2) \<Rightarrow>
                         (rbind (ok_or UeInvalidManifest (ue_read_manifest env manifest_bytes)) (check_release env c release), n2)))))"

section \<open>The service\<close>

definition update_check :: "'n update_env \<Rightarrow> update_config \<Rightarrow> 'n \<Rightarrow> (update_error + update_info) \<times> 'n" where
  "update_check env c n =
     (case validated_release_of env c n of
        (r, n1) \<Rightarrow>
          (rbind r (\<lambda>release.
             if \<not> ue_version env (gc_current_version c) \<or> \<not> ue_version env (vr_version release) then Inl UeInvalidVersion
             else Inr \<lparr>ui_current_version = gc_current_version c, ui_version = vr_version release, ui_channel = gc_channel c,
                       ui_release_page = vr_release_page release,
                       ui_available = ue_version_less env (gc_current_version c) (vr_version release),
                       ui_artifact = vr_artifact release\<rparr>), n1))"

definition update_download :: "'n update_env \<Rightarrow> update_config \<Rightarrow> string \<Rightarrow> 'n \<Rightarrow> (update_error + update_artifact) \<times> 'n" where
  "update_download env c version n =
     (case validated_release_of env c n of
        (r, n1) \<Rightarrow> (rbind r (\<lambda>release. if vr_version release \<noteq> version then Inl UeInvalidVersion else Inr (vr_artifact release)), n1))"

datatype update_check_outcome = Skipped | UpToDate update_info | Available update_info

text \<open>The attempt file holds the time of the last check as text; a failed write is only logged.\<close>

definition update_check_interval_seconds :: i64 where
  "update_check_interval_seconds = 86400"

definition startup_check_due :: "(utext \<Rightarrow> i64 option) \<Rightarrow> utext option \<Rightarrow> i64 \<Rightarrow> bool" where
  "startup_check_due parse_i64 attempt now =
     (case attempt of
        None \<Rightarrow> True
      | Some value \<Rightarrow>
          (case parse_i64 (trim value) of
             None \<Rightarrow> True
           | Some previous \<Rightarrow> max i64_min (min i64_max (now - previous)) \<ge> update_check_interval_seconds))"

definition record_attempt :: "(i64 \<Rightarrow> utext) \<Rightarrow> bool \<Rightarrow> i64 \<Rightarrow> utext option \<Rightarrow> utext option" where
  "record_attempt print_i64 written now attempt = (if written then Some (print_i64 now) else attempt)"

definition coordinator_check :: "'n update_env \<Rightarrow> update_config \<Rightarrow> 'n \<Rightarrow> (update_error + update_check_outcome) \<times> 'n" where
  "coordinator_check env c n =
     (case update_check env c n of
        (r, n1) \<Rightarrow> (rbind r (\<lambda>info. Inr (if ui_available info then Available info else UpToDate info)), n1))"

definition manual_check ::
  "'n update_env \<Rightarrow> update_config \<Rightarrow> (i64 \<Rightarrow> utext) \<Rightarrow> bool \<Rightarrow> i64 \<Rightarrow> utext option \<Rightarrow> 'n
    \<Rightarrow> (update_error + update_check_outcome) \<times> utext option \<times> 'n" where
  "manual_check env c print_i64 written now attempt n =
     (case coordinator_check env c n of (r, n1) \<Rightarrow> (r, record_attempt print_i64 written now attempt, n1))"

definition startup_check ::
  "'n update_env \<Rightarrow> update_config \<Rightarrow> (utext \<Rightarrow> i64 option) \<Rightarrow> (i64 \<Rightarrow> utext) \<Rightarrow> bool \<Rightarrow> i64 \<Rightarrow> utext option \<Rightarrow> 'n
    \<Rightarrow> (update_error + update_check_outcome) \<times> utext option \<times> 'n" where
  "startup_check env c parse_i64 print_i64 written now attempt n =
     (if \<not> startup_check_due parse_i64 attempt now then (Inr Skipped, attempt, n)
      else manual_check env c print_i64 written now attempt n)"

definition validate_release_page_root :: "'n update_env \<Rightarrow> string \<Rightarrow> update_error + unit" where
  "validate_release_page_root env page =
     rbind (ok_or UeInvalidReleaseSource (ue_parse_url env (ascii page))) (\<lambda>u.
     let prefix = github_releases_url @ ''/tag/v'' in
     if take (length prefix) page \<noteq> prefix then Inl UeInvalidReleaseSource
     else if url_scheme u \<noteq> ''https'' \<or> url_host u \<noteq> Some ''github.com'' \<or> \<not> ue_version env (drop (length prefix) page)
        \<or> url_query u \<noteq> None \<or> url_fragment u \<noteq> None
     then Inl UeInvalidReleaseSource else Inr ())"

text \<open>\<open>open_available\<close> with the native opener; the result is the page handed to the browser.\<close>

definition open_available :: "'n update_env \<Rightarrow> update_info \<Rightarrow> update_error + string" where
  "open_available env info =
     (if \<not> ui_available info then Inl UeInvalidVersion
      else if ui_release_page info \<noteq> github_releases_url @ ''/tag/v'' @ ui_version info then Inl UeInvalidReleaseSource
      else rbind (validate_release_page_root env (ui_release_page info)) (\<lambda>_. Inr (ui_release_page info)))"

section \<open>Properties\<close>

lemma read_update_body_bound: "read_update_body limit body chunks = Inr out \<Longrightarrow> length body \<le> limit \<Longrightarrow> length out \<le> limit"
  by (induction limit body chunks rule: read_update_body.induct) (auto split: if_splits)

lemma update_get_bound: "update_get env url limit n = (Inr body, n') \<Longrightarrow> length body \<le> limit"
  by (auto simp: update_get_def split: option.splits if_splits prod.splits dest: read_update_body_bound)

definition artifact_of :: "string \<Rightarrow> manifest_artifact \<Rightarrow> update_artifact" where
  "artifact_of version a = \<lparr>ua_version = version, ua_name = ma_name a, ua_platform = ma_platform a, ua_architecture = ma_architecture a,
     ua_download_url = ma_download_url a, ua_sha256 = ma_sha256 a, ua_size_bytes = ma_size_bytes a\<rparr>"

definition official :: "update_config \<Rightarrow> github_release \<Rightarrow> string \<Rightarrow> update_artifact \<Rightarrow> bool" where
  "official c release version out \<longleftrightarrow> (\<exists>a asset. out = artifact_of version a \<and> validate_manifest_artifact c version a = Inr ()
     \<and> asset \<in> set (gr_assets release) \<and> gs_name asset = ma_name a \<and> validate_release_artifact c (gr_tag_name release) a asset = Inr ()
     \<and> ma_platform a = ut_platform (gc_target c) \<and> ma_architecture a = ut_architecture (gc_target c))"

lemma select_artifact_sound:
  "select_artifact c release version targets selected arts = Inr (ts, Some out) \<Longrightarrow> selected = Some out \<or> official c release version out"
proof (induction arts arbitrary: targets selected)
  case (Cons artifact rest)
  let ?target = "(ma_platform artifact, ma_architecture artifact)"
  obtain asset where a: "validate_manifest_artifact c version artifact = Inr ()"
    "find (\<lambda>a. gs_name a = ma_name artifact) (gr_assets release) = Some asset"
    "validate_release_artifact c (gr_tag_name release) artifact asset = Inr ()" "?target \<notin> set targets"
    using Cons.prems by (auto simp: Let_def rbind_Inr ok_or_Inr split: if_splits)
  have asset: "asset \<in> set (gr_assets release)" "gs_name asset = ma_name artifact"
    using a(2) by (auto simp: find_Some_iff)
  show ?case
  proof (cases "ma_platform artifact = ut_platform (gc_target c) \<and> ma_architecture artifact = ut_architecture (gc_target c)")
    case True
    then have "select_artifact c release version (?target # targets) (Some (artifact_of version artifact)) rest = Inr (ts, Some out)"
      using Cons.prems a by (auto simp: Let_def ok_or_def artifact_of_def split: if_splits)
    moreover have "official c release version (artifact_of version artifact)" using True a asset unfolding official_def by blast
    ultimately show ?thesis using Cons.IH by blast
  next
    case False
    then have "select_artifact c release version (?target # targets) selected rest = Inr (ts, Some out)"
      using Cons.prems a by (auto simp: Let_def ok_or_def split: if_splits)
    then show ?thesis by (rule Cons.IH)
  qed
qed simp

lemma validated_release_steps:
  assumes run: "validated_release_of env c n = (Inr vr, n')"
  shows "\<exists>body n1 release asset manifest. validate_config env c = Inr ()
    \<and> update_get env (gc_release_api_url c) max_github_release_bytes n = (Inr body, n1) \<and> ue_read_release env body = Some release
    \<and> manifest_asset c release = Inr asset \<and> check_release env c release manifest = Inr vr"
proof -
  obtain b n1 where get: "update_get env (gc_release_api_url c) max_github_release_bytes n = (b, n1)" by (meson surj_pair)
  have conf: "validate_config env c = Inr ()" using run by (cases "validate_config env c") (simp_all add: validated_release_of_def)
  show ?thesis
  proof (cases b)
    case (Inl e)
    then show ?thesis using run by (simp add: validated_release_of_def get conf)
  next
    case body: (Inr body)
    note run1 = run [unfolded validated_release_of_def conf get body sum.case prod.case]
    show ?thesis
    proof (cases "rbind (ok_or UeInvalidManifest (ue_read_release env body)) (\<lambda>release. rbind (manifest_asset c release) (\<lambda>asset. Inr (release, asset)))")
      case (Inl e)
      then show ?thesis using run1 by simp
    next
      case (Inr x)
      obtain release asset where x: "x = (release, asset)" by (cases x)
      have ra: "ue_read_release env body = Some release" "manifest_asset c release = Inr asset"
        using Inr unfolding x by (auto simp: rbind_Inr ok_or_Inr)
      obtain m n2 where get2: "update_get env (gs_browser_download_url asset) max_update_manifest_bytes n1 = (m, n2)" by (meson surj_pair)
      note run2 = run1 [unfolded Inr x sum.case prod.case get2]
      have "\<exists>manifest. check_release env c release manifest = Inr vr"
        using run2 by (cases m) (auto simp: rbind_Inr)
      then show ?thesis using conf get body ra by blast
    qed
  qed
qed

lemma guard_Inr: "(if P then Inl e else x) = Inr y \<longleftrightarrow> \<not> P \<and> x = Inr y"
  by simp

lemma check_release_steps:
  assumes "check_release env c release manifest = Inr vr"
  shows "validate_manifest_header env c release manifest = Inr () \<and> vr_version vr = mf_version manifest \<and> vr_release_page vr = mf_release_page manifest
    \<and> (\<exists>ts. select_artifact c release (mf_version manifest) [] None (mf_artifacts manifest) = Inr (ts, Some (vr_artifact vr)))"
proof -
  obtain u x where steps: "validate_manifest_header env c release manifest = Inr u"
    "select_artifact c release (mf_version manifest) [] None (mf_artifacts manifest) = Inr x"
    "(case x of (targets, selected) \<Rightarrow>
       if set targets \<noteq> {(''macos'', ''arm64''), (''windows'', ''x86_64'')} then Inl UeInvalidManifest
       else rbind (ok_or UeUnsupportedPlatform selected) (\<lambda>artifact.
         Inr \<lparr>vr_version = mf_version manifest, vr_release_page = mf_release_page manifest, vr_artifact = artifact\<rparr>)) = Inr vr"
    using assms unfolding check_release_def rbind_Inr [of "validate_manifest_header env c release manifest"] guard_Inr
      rbind_Inr [of "select_artifact c release (mf_version manifest) [] None (mf_artifacts manifest)"] by blast
  obtain ts sel where x: "x = (ts, sel)" by (cases x)
  have "rbind (ok_or UeUnsupportedPlatform sel) (\<lambda>artifact.
         Inr \<lparr>vr_version = mf_version manifest, vr_release_page = mf_release_page manifest, vr_artifact = artifact\<rparr>) = Inr vr"
    using steps(3) unfolding x prod.case guard_Inr by blast
  then show ?thesis using steps(1,2) unfolding x by (auto simp: rbind_Inr ok_or_Inr)
qed

text \<open>
  C36: an update is only reported from the official release. When the check succeeds, its answer comes from
  the release document of the fixed repository, within the size limit, which is neither a draft nor a
  prerelease; the version and the Release page belong to its tag; the artifact is the one for this machine,
  its address lies under the tag of the official releases, its size is within the limit and its hash is the
  digest GitHub computed for the uploaded asset; and an update is called available exactly when that version
  is newer. The only page ever opened is the official page of an available version.
\<close>

theorem update_check_sound:
  assumes run: "update_check env c n = (Inr info, n')"
  shows "ui_current_version info = gc_current_version c \<and> ui_available info = ue_version_less env (gc_current_version c) (ui_version info)
    \<and> ui_release_page info = github_releases_url @ ''/tag/v'' @ ui_version info
    \<and> ua_version (ui_artifact info) = ui_version info
    \<and> ua_platform (ui_artifact info) = ut_platform (gc_target c) \<and> ua_architecture (ui_artifact info) = ut_architecture (gc_target c)
    \<and> ua_download_url (ui_artifact info) = github_releases_url @ ''/download/v'' @ ui_version info @ ''/'' @ ua_name (ui_artifact info)
    \<and> 0 < ua_size_bytes (ui_artifact info) \<and> ua_size_bytes (ui_artifact info) \<le> max_update_artifact_bytes
    \<and> valid_sha256 (ua_sha256 (ui_artifact info))
    \<and> (\<exists>body n1 release asset. update_get env github_latest_release_api max_github_release_bytes n = (Inr body, n1)
         \<and> length body \<le> max_github_release_bytes \<and> ue_read_release env body = Some release
         \<and> \<not> gr_draft release \<and> \<not> gr_prerelease release \<and> gr_tag_name release = ''v'' @ ui_version info
         \<and> asset \<in> set (gr_assets release) \<and> gs_name asset = ua_name (ui_artifact info) \<and> gs_size asset = ua_size_bytes (ui_artifact info)
         \<and> gs_digest asset = Some (''sha256:'' @ ua_sha256 (ui_artifact info)))
    \<and> (\<forall>page. open_available env info = Inr page \<longrightarrow> ui_available info \<and> page = github_releases_url @ ''/tag/v'' @ ui_version info)"
proof -
  obtain vr where vr: "validated_release_of env c n = (Inr vr, n')"
    and info: "info = \<lparr>ui_current_version = gc_current_version c, ui_version = vr_version vr, ui_channel = gc_channel c,
        ui_release_page = vr_release_page vr, ui_available = ue_version_less env (gc_current_version c) (vr_version vr), ui_artifact = vr_artifact vr\<rparr>"
    using run by (auto simp: update_check_def rbind_Inr split: prod.splits if_splits)
  obtain body n1 release asset manifest where st: "validate_config env c = Inr ()"
    "update_get env (gc_release_api_url c) max_github_release_bytes n = (Inr body, n1)" "ue_read_release env body = Some release"
    "manifest_asset c release = Inr asset" "check_release env c release manifest = Inr vr"
    using validated_release_steps [OF vr] by blast
  note cr = check_release_steps [OF st(5)]
  have c: "gc_channel c = default_update_channel" "gc_release_api_url c = github_latest_release_api" "gc_release_page_root c = github_releases_url"
    using st(1) by (auto simp: validate_config_def validate_channel_def rbind_Inr split: if_splits)
  have kind: "\<not> gr_draft release" "\<not> gr_prerelease release" using st(4) c(1) by (auto simp: manifest_asset_def split: if_splits)
  have head: "gr_tag_name release = ''v'' @ vr_version vr" "vr_release_page vr = github_releases_url @ ''/tag/v'' @ vr_version vr"
    using cr c by (auto simp: validate_manifest_header_def Let_def split: if_splits)
  obtain a as where a: "vr_artifact vr = artifact_of (vr_version vr) a" "validate_manifest_artifact c (vr_version vr) a = Inr ()"
    "as \<in> set (gr_assets release)" "gs_name as = ma_name a" "validate_release_artifact c (gr_tag_name release) a as = Inr ()"
    "ma_platform a = ut_platform (gc_target c)" "ma_architecture a = ut_architecture (gc_target c)"
    using cr select_artifact_sound [of c release "vr_version vr" "[]" None "mf_artifacts manifest" _ "vr_artifact vr"] by (auto simp: official_def)
  have "ma_download_url a = github_releases_url @ ''/download/v'' @ vr_version vr @ ''/'' @ ma_name a" "0 < ma_size_bytes a"
    "ma_size_bytes a \<le> max_update_artifact_bytes" "valid_sha256 (ma_sha256 a)"
    using a(2) c by (auto simp: validate_manifest_artifact_def Let_def split: option.splits if_splits)
  moreover have "gs_size as = ma_size_bytes a" "gs_digest as = Some (''sha256:'' @ ma_sha256 a)"
    using a(5) by (auto simp: validate_release_artifact_def rbind_Inr split: if_splits)
  moreover have "open_available env info = Inr page \<Longrightarrow> ui_available info \<and> page = github_releases_url @ ''/tag/v'' @ ui_version info" for page
    by (auto simp: open_available_def rbind_Inr split: if_splits)
  ultimately show ?thesis using info head kind a st(2,3) update_get_bound [OF st(2)] unfolding c(2)
    by (auto simp: artifact_of_def)
qed

lemma startup_check_spaced:
  assumes "parse_i64 (trim (print_i64 t)) = Some t" "now - t < update_check_interval_seconds"
  shows "startup_check env c parse_i64 print_i64 written now (record_attempt print_i64 True t attempt) n
    = (Inr Skipped, record_attempt print_i64 True t attempt, n)"
  using assms by (auto simp: startup_check_def startup_check_due_def record_attempt_def update_check_interval_seconds_def i64_min_def i64_max_def)

text \<open>A release with artifacts for both targets, newer than the running version.\<close>

definition example_hash :: string where
  "example_hash = replicate 64 (CHR ''a'')"

definition example_asset :: "string \<Rightarrow> string option \<Rightarrow> github_asset" where
  "example_asset name digest = \<lparr>gs_name = name, gs_state = ''uploaded'', gs_size = 7, gs_digest = digest,
     gs_browser_download_url = github_releases_url @ ''/download/v2/'' @ name\<rparr>"

definition example_manifest_artifact :: "string \<Rightarrow> string \<Rightarrow> string \<Rightarrow> manifest_artifact" where
  "example_manifest_artifact platform arch name = \<lparr>ma_platform = platform, ma_architecture = arch, ma_name = name, ma_size_bytes = 7,
     ma_sha256 = example_hash, ma_download_url = github_releases_url @ ''/download/v2/'' @ name\<rparr>"

definition example_release :: github_release where
  "example_release = \<lparr>gr_tag_name = ''v2'', gr_html_url = github_releases_url @ ''/tag/v2'', gr_draft = False, gr_prerelease = False,
     gr_assets = [example_asset ''lvos-update-stable.json'' None, example_asset ''LVOS-2-macos-arm64.dmg'' (Some (''sha256:'' @ example_hash)),
       example_asset ''LVOS-2-windows-x86_64-setup.exe'' (Some (''sha256:'' @ example_hash))]\<rparr>"

definition example_manifest :: update_manifest where
  "example_manifest = \<lparr>mf_manifest_version = 2, mf_product = ''LVOS'', mf_channel = ''stable'', mf_version = ''2'',
     mf_release_page = github_releases_url @ ''/tag/v2'',
     mf_artifacts = [example_manifest_artifact ''macos'' ''arm64'' ''LVOS-2-macos-arm64.dmg'',
       example_manifest_artifact ''windows'' ''x86_64'' ''LVOS-2-windows-x86_64-setup.exe'']\<rparr>"

definition example_update_env :: "unit update_env" where
  "example_update_env = \<lparr>ue_parse_url = (\<lambda>_. Some \<lparr>url_scheme = ''https'', url_host = Some ''github.com'', url_port = None, url_username = [],
       url_password = None, url_path = ''/'', url_query = None, url_fragment = None, url_text = ''u''\<rparr>),
     ue_version = (\<lambda>_. True), ue_version_less = (\<lambda>a b. a = ''1'' \<and> b = ''2''),
     ue_send = (\<lambda>_ n. (Some \<lparr>hp_status = 200, hp_content_length = None, hp_chunks = [Inr [1]]\<rparr>, n)),
     ue_read_release = (\<lambda>_. Some example_release), ue_read_manifest = (\<lambda>_. Some example_manifest)\<rparr>"

definition example_config :: update_config where
  "example_config = \<lparr>gc_owner = ''wadaxiyang'', gc_repository = ''LVOS'', gc_release_api_url = github_latest_release_api,
     gc_release_page_root = github_releases_url, gc_channel = ''stable'', gc_current_version = ''1'',
     gc_target = \<lparr>ut_platform = ''macos'', ut_architecture = ''arm64''\<rparr>\<rparr>"

lemma example_hash_valid: "valid_sha256 example_hash"
  by (simp add: valid_sha256_def example_hash_def list_all_iff less_eq_char_def)

lemma example_get: "max_bytes \<ge> 1 \<Longrightarrow> update_get example_update_env url max_bytes () = (Inr [1], ())"
  by (simp add: update_get_def example_update_env_def is_success_def)

lemma example_check_release:
  "check_release example_update_env example_config example_release example_manifest = Inr \<lparr>vr_version = ''2'', vr_release_page = github_releases_url @ ''/tag/v2'',
     vr_artifact = artifact_of ''2'' (example_manifest_artifact ''macos'' ''arm64'' ''LVOS-2-macos-arm64.dmg'')\<rparr>"
proof -
  have "validate_manifest_header example_update_env example_config example_release example_manifest = Inr ()"
    by (simp add: validate_manifest_header_def example_update_env_def example_config_def example_release_def example_manifest_def)
  moreover have "distinct (map gs_name (gr_assets example_release))" by (simp add: example_release_def example_asset_def)
  moreover have "select_artifact example_config example_release ''2'' [] None (mf_artifacts example_manifest)
    = Inr ([(''windows'', ''x86_64''), (''macos'', ''arm64'')], Some (artifact_of ''2'' (example_manifest_artifact ''macos'' ''arm64'' ''LVOS-2-macos-arm64.dmg'')))"
    by (simp add: example_manifest_def example_manifest_artifact_def example_config_def example_release_def example_asset_def
        validate_manifest_artifact_def expected_artifact_name_def validate_release_artifact_def validate_asset_source_def ok_or_def
        max_update_artifact_bytes_def example_hash_valid artifact_of_def)
  ultimately show ?thesis
    by (simp add: check_release_def example_manifest_def ok_or_def insert_commute)
qed

theorem update_check_sound_witness:
  "\<exists>info. update_check example_update_env example_config () = (Inr info, ()) \<and> ui_available info
    \<and> ui_release_page info = github_releases_url @ ''/tag/v2'' \<and> ua_platform (ui_artifact info) = ''macos''"
proof -
  have "manifest_asset example_config example_release = Inr (example_asset ''lvos-update-stable.json'' None)"
    by (simp add: manifest_asset_def example_config_def example_release_def unique_asset_def example_asset_def validate_asset_source_def)
  moreover have "validate_config example_update_env example_config = Inr ()"
    by (simp add: validate_config_def validate_channel_def example_config_def default_update_channel_def example_update_env_def)
  moreover have "ue_read_release example_update_env b = Some example_release" "ue_read_manifest example_update_env b = Some example_manifest"
    "ue_version example_update_env v" for b v by (simp_all add: example_update_env_def)
  ultimately obtain info where run: "update_check example_update_env example_config () = (Inr info, ())" and v: "ui_version info = ''2''"
    by (auto simp: update_check_def validated_release_of_def example_get max_github_release_bytes_def max_update_manifest_bytes_def
        ok_or_def example_check_release)
  show ?thesis using update_check_sound [OF run] run v by (auto simp: example_update_env_def example_config_def)
qed

end
