(* ===== verification/Agent_Service.thy ===== *)
theory Agent_Service
  imports Ui_Composition Ui_Connection Update_Check
begin

text \<open>
  \<open>apps/agent/src/service.rs\<close>: the authoritative state behind the GUI. Every operation of the GUI is
  executed against the application, changes are announced as numbered patches, and each request is answered
  by one result; with \<open>apps/desktop/src/preferences.rs\<close> and the text store of \<open>local_store.rs\<close>. Operations
  run one after the other, as \<open>run_requests\<close> takes them, and a patch is handed over before the next one is
  numbered. The native event loop, the file dialogs' files and the wording of errors are arguments.
\<close>

section \<open>Preferences\<close>

record ui_preferences =
  ux_popup_idle_timeout_secs :: u32
  ux_launch_minimized :: bool

definition default_ui_preferences :: ui_preferences where
  "default_ui_preferences = \<lparr>ux_popup_idle_timeout_secs = default_popup_idle_timeout_secs, ux_launch_minimized = True\<rparr>"

datatype ui_preference_error = InvalidPopupIdleTimeout u32 | MalformedPopupIdleTimeout utext | PreferencePersistence

definition preference_name_ok :: "string \<Rightarrow> bool" where
  "preference_name_ok name \<longleftrightarrow> name \<noteq> [] \<and> list_all (\<lambda>c. CHR ''0'' \<le> c \<and> c \<le> CHR ''9'' \<or> CHR ''A'' \<le> c \<and> c \<le> CHR ''Z''
     \<or> CHR ''a'' \<le> c \<and> c \<le> CHR ''z'' \<or> c = CHR ''-'' \<or> c = CHR ''_'') name"

definition load_text :: "(string, utext) table \<Rightarrow> string \<Rightarrow> utext option" where
  "load_text files name = (if preference_name_ok name then tbl_get files name else None)"

text \<open>\<open>writable\<close> says whether the file can be replaced.\<close>

definition save_text :: "(string \<Rightarrow> bool) \<Rightarrow> string \<Rightarrow> utext \<Rightarrow> (string, utext) table \<Rightarrow> (string, utext) table option" where
  "save_text writable name value files =
     (if preference_name_ok name \<and> writable name then Some (tbl_put name value files) else None)"

definition save_boolean :: "(string \<Rightarrow> bool) \<Rightarrow> string \<Rightarrow> bool \<Rightarrow> (string, utext) table \<Rightarrow> (string, utext) table option" where
  "save_boolean writable name value = save_text writable name (ascii (if value then ''true'' else ''false''))"

definition popup_idle_timeout_key :: string where
  "popup_idle_timeout_key = ''popup_idle_timeout_secs''"

definition launch_minimized_key :: string where
  "launch_minimized_key = ''launch-minimized''"

definition validate_popup_idle_timeout :: "u32 \<Rightarrow> ui_preference_error + u32" where
  "validate_popup_idle_timeout value =
     (if value \<le> max_popup_idle_timeout_secs then Inr value else Inl (InvalidPopupIdleTimeout value))"

definition parse_u32 :: "utext \<Rightarrow> u32 option" where
  "parse_u32 t = Option.bind (parse_u64 t) u32_of_u64"

definition load_popup_idle_timeout :: "(string, utext) table \<Rightarrow> ui_preference_error + u32" where
  "load_popup_idle_timeout files =
     (case load_text files popup_idle_timeout_key of
        None \<Rightarrow> Inr (ux_popup_idle_timeout_secs default_ui_preferences)
      | Some value \<Rightarrow>
          rbind (ok_or (MalformedPopupIdleTimeout (trim value)) (parse_u32 (trim value))) validate_popup_idle_timeout)"

definition load_launch_minimized :: "(string, utext) table \<Rightarrow> bool" where
  "load_launch_minimized files =
     (case load_text files launch_minimized_key of
        None \<Rightarrow> ux_launch_minimized default_ui_preferences
      | Some value \<Rightarrow>
          if trim value = ascii ''false'' then False
          else if trim value = ascii ''true'' then True
          else ux_launch_minimized default_ui_preferences)"

definition load_ui_preferences :: "(string, utext) table \<Rightarrow> ui_preference_error + ui_preferences" where
  "load_ui_preferences files =
     rbind (load_popup_idle_timeout files) (\<lambda>secs.
     Inr \<lparr>ux_popup_idle_timeout_secs = secs, ux_launch_minimized = load_launch_minimized files\<rparr>)"

text \<open>\<open>load_ui_preferences\<close> of the Agent: what it starts with when the stored preferences cannot be read.\<close>

definition startup_preferences :: "(string, utext) table \<Rightarrow> ui_preferences" where
  "startup_preferences files = (case load_ui_preferences files of Inl _ \<Rightarrow> default_ui_preferences | Inr p \<Rightarrow> p)"

definition save_popup_idle_timeout ::
  "(string \<Rightarrow> bool) \<Rightarrow> u32 \<Rightarrow> (string, utext) table \<Rightarrow> ui_preference_error + (string, utext) table" where
  "save_popup_idle_timeout writable value files =
     rbind (validate_popup_idle_timeout value) (\<lambda>value.
     ok_or PreferencePersistence (save_text writable popup_idle_timeout_key (ascii (decimal value)) files))"

definition popup_idle_timeout_presets :: "u32 list" where
  "popup_idle_timeout_presets = [0, 15, 30, 60, 120]"

definition popup_idle_timeout_from_preset_index :: "int \<Rightarrow> u32 option" where
  "popup_idle_timeout_from_preset_index index =
     (if 0 \<le> index \<and> nat index < length popup_idle_timeout_presets then Some (popup_idle_timeout_presets ! nat index) else None)"

definition popup_idle_timeout_preset_index :: "u32 \<Rightarrow> int" where
  "popup_idle_timeout_preset_index value =
     (case find (\<lambda>i. popup_idle_timeout_presets ! i = value) [0..<length popup_idle_timeout_presets] of None \<Rightarrow> -1 | Some i \<Rightarrow> int i)"

section \<open>State\<close>

datatype native_event =
  NativeUpdateGlobalHotkey string | NativeUpdateStartAtLogin bool | NativeOpenAccessibilitySettings
| NativeRequestAccessibilityPermission | NativeRestartAgent | NativeQuit

text \<open>What becomes of an event sent to the native event loop.\<close>

datatype native_outcome = LoopGone | NoAnswer | AnswerDropped | Answer "string + unit"

text \<open>\<open>se_describe\<close> and \<open>se_describe_data\<close> are the messages of errors, \<open>se_io_message\<close> the one of a failed write; \<open>se_file\<close> reads a chosen file,
  \<open>se_write_file\<close> writes one; \<open>se_update_client\<close> says for which proxy an update client can be built.\<close>

record ('k, 'n) service_env =
  se_app :: "('k, 'n) app_env"
  se_update :: "'n update_env"
  se_config :: update_config
  se_describe :: "application_error \<Rightarrow> string"
  se_describe_data :: "ui_data_error \<Rightarrow> string"
  se_describe_preference :: "ui_preference_error \<Rightarrow> string"
  se_update_message :: "update_error \<Rightarrow> string"
  se_io_message :: string
  se_file :: "string \<Rightarrow> string + byte list"
  se_write_file :: "string \<Rightarrow> byte list \<Rightarrow> string option"
  se_native :: "native_event \<Rightarrow> native_outcome"
  se_start_at_login :: bool
  se_update_client :: "string option \<Rightarrow> bool"
  se_page_opened :: bool
  se_portable :: portable_json
  se_writable_preference :: "string \<Rightarrow> bool"
  se_print_i64 :: "i64 \<Rightarrow> utext"
  se_attempt_written :: bool
  se_recovery :: recovery_writes

text \<open>\<open>as_ui\<close> is the process client of the GUI, with the queues of its connections. \<open>as_sent\<close> records the
  messages the service handed to that client; the client drops them while no GUI is ready, so what a GUI
  can receive is in its connection's queue.\<close>

record ('k, 'n) agent_service =
  as_app :: "('k, 'n) application"
  as_preferences :: ui_preferences
  as_global_hotkey :: string
  as_sync_status :: string
  as_update_status :: string
  as_revision :: u64
  as_ui_blocked :: bool
  as_imports :: "(uuid, import_plan) table"
  as_update_proxy :: "string option"
  as_attempt :: "utext option"
  as_files :: "(string, utext) table"
  as_ui :: ui_client
  as_sent :: "agent_to_ui list"

section \<open>Messages to the GUI\<close>

definition send_ui :: "agent_to_ui \<Rightarrow> ('k, 'n) agent_service \<Rightarrow> bool \<times> ('k, 'n) agent_service" where
  "send_ui m s = (case send_if_ready m (as_ui s) of (ok, c) \<Rightarrow> (ok, s\<lparr>as_ui := c, as_sent := as_sent s @ [m]\<rparr>))"

definition service_patch :: "(main_ui_patch \<Rightarrow> main_ui_patch) \<Rightarrow> ('k, 'n) agent_service \<Rightarrow> main_ui_patch \<times> ('k, 'n) agent_service" where
  "service_patch build s =
     (let base_revision = as_revision s; revision = (base_revision + 1) mod 2 ^ 64 in
      (build (default_patch\<lparr>mp_base_revision := base_revision, mp_revision := revision\<rparr>), s\<lparr>as_revision := revision\<rparr>))"

definition push_patch :: "(main_ui_patch \<Rightarrow> main_ui_patch) \<Rightarrow> ('k, 'n) agent_service \<Rightarrow> ('k, 'n) agent_service" where
  "push_patch build s = (case service_patch build s of (p, s1) \<Rightarrow> snd (send_ui (Patch p) s1))"

definition records_of :: "ui_record_data list \<Rightarrow> ui_record_snapshot list" where
  "records_of = map (\<lambda>r. \<lparr>ui_record_snapshot.ur_key = to_hex (ui_record_data.ur_key r), ur_source = ui_record_data.ur_source r,
     ur_translation = ui_record_data.ur_translation r, ur_count = ui_record_data.ur_count r, ur_favorite = ui_record_data.ur_favorite r,
     ur_metadata = ui_record_data.ur_metadata r\<rparr>)"

definition device_snapshot_of :: "uuid \<Rightarrow> remote_device \<Rightarrow> device_snapshot" where
  "device_snapshot_of this device = \<lparr>dn_id = rd_device_id device,
     dn_name = (case rd_device_name device of None \<Rightarrow> rd_device_id device | Some name \<Rightarrow> name), dn_platform = rd_platform device,
     dn_last_seen = ''Unix '' @ (if rd_last_seen_at device < 0 then ''-'' else []) @ decimal (nat \<bar>rd_last_seen_at device\<bar>),
     dn_current = (rd_device_id device = this), dn_revoked = (rd_revoked_at device \<noteq> None)\<rparr>"

definition preference_snapshot :: "('k, 'n) service_env \<Rightarrow> ('k, 'n) agent_service \<Rightarrow> ui_preference_snapshot" where
  "preference_snapshot env s = \<lparr>up_popup_idle_timeout_secs = ux_popup_idle_timeout_secs (as_preferences s),
     up_launch_minimized = ux_launch_minimized (as_preferences s), up_global_hotkey = as_global_hotkey s,
     up_start_at_login = se_start_at_login env\<rparr>"

definition push_preferences :: "('k, 'n) service_env \<Rightarrow> ('k, 'n) agent_service \<Rightarrow> ('k, 'n) agent_service" where
  "push_preferences env s = (let p = preference_snapshot env s in push_patch (\<lambda>patch. patch\<lparr>mp_preferences := Some p\<rparr>) s)"

definition default_server_url :: string where
  "default_server_url = ''https://lvos.niuniu770.site''"

fun proxy_kind_index :: "proxy_kind \<Rightarrow> u8" where
  "proxy_kind_index ProxyHttp = 0"
| "proxy_kind_index ProxySocks5 = 1"

definition or_default :: "'d \<Rightarrow> 'e + 'd \<Rightarrow> 'd" where
  "or_default d r = (case r of Inl _ \<Rightarrow> d | Inr x \<Rightarrow> x)"

definition service_snapshot :: "('k, 'n) service_env \<Rightarrow> ('k, 'n) agent_service \<Rightarrow> ui_snapshot \<times> ('k, 'n) agent_service" where
  "service_snapshot env s =
     (case app_history [] (as_app s) of (history, a1) \<Rightarrow>
      case app_favorites [] a1 of (favs, a2) \<Rightarrow>
      case (if is_authenticated a2 then app_devices (se_app env) a2 else (Inr [], a2)) of (devices, a3) \<Rightarrow>
      let profile = ap_profile a3; installation = ap_installation a3; network = ap_network a3 in
      (\<lparr>sn_revision = as_revision s, sn_main = \<lparr>mu_revision = as_revision s,
         mu_history = records_of (or_default [] history), mu_favorites = records_of (or_default [] favs),
         mu_devices = map (device_snapshot_of (im_device_id installation)) (or_default [] devices),
         mu_tokenhub_model = text_string (pp_tokenhub_model (ap_provider a3)),
         mu_tokenhub_configured = or_default False (provider_configuration (se_app env) a3),
         mu_proxy_kind = proxy_kind_index (np_proxy_kind network), mu_proxy_address = text_string (np_proxy_address network),
         mu_provider_proxy_enabled = np_provider_proxy_enabled network, mu_update_proxy_enabled = np_update_proxy_enabled network,
         mu_server_url = (case pm_server_origin profile of None \<Rightarrow> default_server_url | Some origin \<Rightarrow> origin),
         mu_username = (case pm_username profile of None \<Rightarrow> [] | Some name \<Rightarrow> name),
         mu_current_device = text_string (im_device_name installation), mu_sync_status = as_sync_status s,
         mu_update_status = as_update_status s, mu_preferences = preference_snapshot env s\<rparr>\<rparr>,
       s\<lparr>as_app := a3\<rparr>))"

section \<open>Steps of an operation\<close>

type_synonym ('k, 'n, 'a) service_op = "('k, 'n) agent_service \<Rightarrow> (string + 'a) \<times> ('k, 'n) agent_service"

definition and_then :: "('k, 'n, 'a) service_op \<Rightarrow> ('a \<Rightarrow> ('k, 'n, 'b) service_op) \<Rightarrow> ('k, 'n, 'b) service_op" where
  "and_then m f s = (case m s of (Inl e, s1) \<Rightarrow> (Inl e, s1) | (Inr x, s1) \<Rightarrow> f x s1)"

definition done_with :: "'a \<Rightarrow> ('k, 'n, 'a) service_op" where
  "done_with x s = (Inr x, s)"

definition fails :: "string \<Rightarrow> ('k, 'n, 'a) service_op" where
  "fails e s = (Inl e, s)"

definition doing :: "(('k, 'n) agent_service \<Rightarrow> ('k, 'n) agent_service) \<Rightarrow> ('k, 'n, unit) service_op" where
  "doing f s = (Inr (), f s)"

definition reads :: "(('k, 'n) agent_service \<Rightarrow> 'a) \<Rightarrow> ('k, 'n, 'a) service_op" where
  "reads f s = (Inr (f s), s)"

definition app_call ::
  "('e \<Rightarrow> string) \<Rightarrow> (('k, 'n) application \<Rightarrow> ('e + 'a) \<times> ('k, 'n) application) \<Rightarrow> ('k, 'n, 'a) service_op" where
  "app_call describe f s = (case f (as_app s) of (r, a) \<Rightarrow> (map_err describe r, s\<lparr>as_app := a\<rparr>))"

definition app_does :: "(('k, 'n) application \<Rightarrow> 'a \<times> ('k, 'n) application) \<Rightarrow> ('k, 'n, 'a) service_op" where
  "app_does f s = (case f (as_app s) of (x, a) \<Rightarrow> (Inr x, s\<lparr>as_app := a\<rparr>))"

definition refresh_collections :: "('k, 'n) service_env \<Rightarrow> ('k, 'n, unit) service_op" where
  "refresh_collections env =
     and_then (app_call (se_describe_data env) (app_history [])) (\<lambda>history.
     and_then (app_call (se_describe_data env) (app_favorites [])) (\<lambda>favs.
     doing (push_patch (\<lambda>p. p\<lparr>mp_history := Some (records_of history), mp_favorites := Some (records_of favs)\<rparr>))))"

definition refresh_devices :: "('k, 'n) service_env \<Rightarrow> ('k, 'n, unit) service_op" where
  "refresh_devices env =
     and_then (reads as_app) (\<lambda>a.
     and_then (if is_authenticated a then app_call (se_describe env) (app_devices (se_app env)) else done_with []) (\<lambda>devices.
     doing (push_patch (\<lambda>p. p\<lparr>mp_devices := Some (map (device_snapshot_of (im_device_id (ap_installation a))) devices)\<rparr>))))"

definition refresh_account :: "('k, 'n) service_env \<Rightarrow> ('k, 'n, unit) service_op" where
  "refresh_account env =
     and_then (reads as_app) (\<lambda>a.
     and_then (app_call (se_describe env) (\<lambda>a. (provider_configuration (se_app env) a, a))) (\<lambda>configured.
     and_then (reads as_sync_status) (\<lambda>status.
     and_then (doing (push_patch (\<lambda>p. p\<lparr>
         mp_server_url := Some (case pm_server_origin (ap_profile a) of None \<Rightarrow> default_server_url | Some origin \<Rightarrow> origin),
         mp_username := Some (case pm_username (ap_profile a) of None \<Rightarrow> [] | Some name \<Rightarrow> name),
         mp_tokenhub_model := Some (text_string (pp_tokenhub_model (ap_provider a))),
         mp_tokenhub_configured := Some configured, mp_sync_status := Some status\<rparr>))) (\<lambda>_.
     refresh_devices env))))"

definition set_sync_status :: "string \<Rightarrow> ('k, 'n, unit) service_op" where
  "set_sync_status status = doing (\<lambda>s. s\<lparr>as_sync_status := status\<rparr>)"

definition native_request :: "('k, 'n) service_env \<Rightarrow> native_event \<Rightarrow> ('k, 'n, unit) service_op" where
  "native_request env event s =
     ((case se_native env event of
         LoopGone \<Rightarrow> Inl ''The Agent event loop is unavailable.''
       | NoAnswer \<Rightarrow> Inl ''The Agent did not apply the platform setting in time.''
       | AnswerDropped \<Rightarrow> Inl ''The Agent stopped while applying the platform setting.''
       | Answer r \<Rightarrow> r), s)"

definition apply_update_proxy :: "('k, 'n) service_env \<Rightarrow> network_preferences \<Rightarrow> ('k, 'n, unit) service_op" where
  "apply_update_proxy env network s =
     (case (if np_update_proxy_enabled network then map_err (se_describe env) (proxy_url (ae_parse_url (se_app env)) network) else Inr None) of
        Inl e \<Rightarrow> (Inl e, s)
      | Inr proxy \<Rightarrow>
          if se_update_client env proxy then (Inr (), s\<lparr>as_update_proxy := proxy\<rparr>)
          else (Inl (se_update_message env UeNetwork), s))"

definition middot :: string where
  "middot = text_string (ascii '' '' @ [183] @ ascii '' '')"

definition ellipsis :: string where
  "ellipsis = text_string [8230]"

definition manual_update_check :: "('k, 'n) service_env \<Rightarrow> i64 \<Rightarrow> ('k, 'n) agent_service \<Rightarrow> string \<times> ('k, 'n) agent_service" where
  "manual_update_check env now s =
     (case manual_check (se_update env) (se_config env) (se_print_i64 env) (se_attempt_written env) now (as_attempt s) (dk_net (as_app s)) of
        (r, attempt, n) \<Rightarrow>
          (case r of
             Inr (Available info) \<Rightarrow>
               (case open_available (se_update env) info of
                  Inr _ \<Rightarrow> if se_page_opened env
                    then ''Version '' @ ui_version info @ '' is available. GitHub Releases opened for manual download.''
                    else ''Version '' @ ui_version info @ '' is available, but the Release page could not be opened.''
                | Inl _ \<Rightarrow> ''Version '' @ ui_version info @ '' is available, but the Release page could not be opened.'')
           | Inr (UpToDate info) \<Rightarrow> ''Current '' @ ui_current_version info @ middot @ ui_channel info @ middot @ ''Up to date''
           | Inr Skipped \<Rightarrow> ''Current '' @ ae_software_version (se_app env) @ middot @ gc_channel (se_config env) @ middot @ ''Check skipped''
           | Inl _ \<Rightarrow> ''Update check failed. Try again later.'',
           s\<lparr>as_attempt := attempt, as_app := (as_app s)\<lparr>dk_net := n\<rparr>\<rparr>))"

text \<open>A chosen file is refused before it is read when it is over the limit of portable documents.\<close>

definition read_portable_file :: "('k, 'n) service_env \<Rightarrow> string \<Rightarrow> string + byte list" where
  "read_portable_file env path =
     rbind (se_file env path) (\<lambda>bytes. if length bytes > max_portable_json_bytes then Inl ''Portable JSON exceeds 16 MiB'' else Inr bytes)"

section \<open>Operations\<close>

definition ok :: "string \<Rightarrow> ('k, 'n, string \<times> operation_output) service_op" where
  "ok message = done_with (message, OutputNone)"

definition network_of_request :: "string \<Rightarrow> u8 \<Rightarrow> bool \<Rightarrow> bool \<Rightarrow> network_preferences" where
  "network_of_request proxy_address proxy_kind provider_proxy_enabled update_proxy_enabled =
     \<lparr>np_proxy_kind = (if proxy_kind = 1 then ProxySocks5 else ProxyHttp), np_proxy_address = string_text proxy_address,
      np_provider_proxy_enabled = provider_proxy_enabled, np_update_proxy_enabled = update_proxy_enabled\<rparr>"

definition preview_import :: "('k, 'n) service_env \<Rightarrow> uuid \<Rightarrow> string \<Rightarrow> ('k, 'n, string \<times> operation_output) service_op" where
  "preview_import env token path =
     and_then (\<lambda>s. (map_err (\<lambda>e. ''Import read failed: '' @ e) (read_portable_file env path), s)) (\<lambda>bytes.
     and_then (app_call (\<lambda>e. ''Import validation failed: '' @ se_describe_data env e) (\<lambda>a.
       (map_err UdDatabase (worker_preview_portable_import (se_portable env) (ae_unicode (se_app env)) (ae_sha256 (se_app env))
          (ae_uuid (se_app env)) bytes (dk_worker a)), a))) (\<lambda>plan.
     and_then (doing (\<lambda>s. s\<lparr>as_imports := [(token, plan)]\<rparr>)) (\<lambda>_.
     let preview = pl_preview plan in
     done_with (''Import preview ready.'', OutputImportPreview token (ip_history_add preview) (ip_history_update preview)
       (ip_favorite_add preview) (ip_favorite_reactivate preview) (ip_query_stats_archive preview)))))"

definition take_import :: "uuid \<Rightarrow> ('k, 'n, import_plan) service_op" where
  "take_import token s =
     (case tbl_get (as_imports s) token of
        None \<Rightarrow> (Inl ''Import preview expired; choose the file again.'', s)
      | Some plan \<Rightarrow> (Inr plan, s\<lparr>as_imports := tbl_del token (as_imports s)\<rparr>))"

definition popup_refresh :: "('k, 'n) service_env \<Rightarrow> i64 \<Rightarrow> uuid \<Rightarrow> uuid \<Rightarrow> ('k, 'n, string \<times> operation_output) service_op" where
  "popup_refresh env now event_id display_session_id =
     and_then (app_does begin_refresh_last) (\<lambda>started.
     case started of
       Some (CardLoading generation source) \<Rightarrow>
         and_then (\<lambda>s. case send_ui (BeginLookup display_session_id (UiLoading generation source)) s of
            (True, s1) \<Rightarrow> (Inr (), s1)
          | (False, s1) \<Rightarrow> (Inl ''The Popup closed before refresh could start.'', s1)) (\<lambda>_.
         and_then (app_does (complete_lookup (se_app env) now event_id generation source Refresh)) (\<lambda>state.
         and_then (\<lambda>s. if app_is_current state (as_app s)
            then case lookup_of_card state of Inl e \<Rightarrow> (Inl e, s)
               | Inr shown \<Rightarrow> (Inr (), snd (send_ui (UpdateLookup display_session_id shown) s))
            else (Inr (), s)) (\<lambda>_.
         ok [])))
     | Some _ \<Rightarrow> fails ''The refresh did not enter its loading state.''
     | None \<Rightarrow> fails ''There is no translation to refresh.'')"

fun execute_operation :: "('k, 'n) service_env \<Rightarrow> i64 \<Rightarrow> (nat \<Rightarrow> uuid) \<Rightarrow> ui_operation \<Rightarrow> ('k, 'n, string \<times> operation_output) service_op" where
  "execute_operation env now ids (HistorySearch term) =
     and_then (app_call (se_describe_data env) (app_history term)) (\<lambda>values.
     and_then (doing (push_patch (\<lambda>p. p\<lparr>mp_history := Some (records_of values)\<rparr>))) (\<lambda>_. ok []))"
| "execute_operation env now ids (FavoritesSearch term) =
     and_then (app_call (se_describe_data env) (app_favorites term)) (\<lambda>values.
     and_then (doing (push_patch (\<lambda>p. p\<lparr>mp_favorites := Some (records_of values)\<rparr>))) (\<lambda>_. ok []))"
| "execute_operation env now ids (SetFavorite key active) =
     and_then (app_call (se_describe_data env) (app_set_favorite key active now (ids 0))) (\<lambda>_.
     and_then (refresh_collections env) (\<lambda>_. ok ''Favorite updated.''))"
| "execute_operation env now ids ClearHistory =
     and_then (app_call (se_describe_data env) app_clear_history) (\<lambda>_.
     and_then (refresh_collections env) (\<lambda>_. ok ''History cleared.''))"
| "execute_operation env now ids (SaveProviderSettings model key provider_proxy_enabled) =
     and_then (app_call (se_describe env) (save_provider_settings (se_app env) \<lparr>pp_tokenhub_model = string_text model\<rparr> (string_text key))) (\<lambda>_.
     and_then (app_call (se_describe env) (\<lambda>a. save_network_preferences (se_app env)
       ((ap_network a)\<lparr>np_provider_proxy_enabled := provider_proxy_enabled\<rparr>) a)) (\<lambda>_.
     and_then (reads (\<lambda>s. ap_provider (as_app s))) (\<lambda>provider.
     and_then (app_call (se_describe env) (\<lambda>a. (provider_configuration (se_app env) a, a))) (\<lambda>configured.
     and_then (doing (push_patch (\<lambda>p. p\<lparr>mp_tokenhub_model := Some (text_string (pp_tokenhub_model provider)),
       mp_tokenhub_configured := Some configured, mp_provider_proxy_enabled := Some provider_proxy_enabled\<rparr>))) (\<lambda>_.
     ok ''Provider settings saved.'')))))"
| "execute_operation env now ids (SaveNetworkSettings address kind provider_proxy_enabled update_proxy_enabled) =
     (let preferences = network_of_request address kind provider_proxy_enabled update_proxy_enabled in
      and_then (app_call (se_describe env) (save_network_preferences (se_app env) preferences)) (\<lambda>_.
      and_then (apply_update_proxy env preferences) (\<lambda>_.
      and_then (doing (push_patch (\<lambda>p. p\<lparr>mp_proxy_kind := Some kind, mp_proxy_address := Some address,
        mp_provider_proxy_enabled := Some provider_proxy_enabled, mp_update_proxy_enabled := Some update_proxy_enabled\<rparr>))) (\<lambda>_.
      ok ''Network settings saved.''))))"
| "execute_operation env now ids (TestProvider model key) =
     and_then (app_call (\<lambda>e. ''Provider test failed: '' @ se_describe env e) (test_provider (se_app env) (string_text model) (string_text key))) (\<lambda>_.
     ok ''Provider test succeeded.'')"
| "execute_operation env now ids (Login server username password) =
     and_then (set_sync_status (''Signing in'' @ ellipsis)) (\<lambda>_.
     and_then (app_call (\<lambda>e. ''Login failed: '' @ se_describe env e) (app_login (se_app env) now (ids 0) server username password)) (\<lambda>_.
     and_then (set_sync_status ''Connected'') (\<lambda>_.
     and_then (refresh_account env) (\<lambda>_.
     and_then (refresh_collections env) (\<lambda>_. ok ''Signed in.'')))))"
| "execute_operation env now ids Logout =
     and_then (app_does (app_logout (se_app env))) (\<lambda>result.
     and_then (set_sync_status ''Login required'') (\<lambda>_.
     and_then (refresh_account env) (\<lambda>_.
     case result of Inr _ \<Rightarrow> ok ''Signed out.''
     | Inl e \<Rightarrow> ok (''Signed out locally; the Server returned: '' @ se_describe env e))))"
| "execute_operation env now ids ManualSync =
     and_then (app_does manual_sync) (\<lambda>woken.
     if woken then
       and_then (set_sync_status ''Sync requested'') (\<lambda>_.
       and_then (doing (push_patch (\<lambda>p. p\<lparr>mp_sync_status := Some ''Sync requested''\<rparr>))) (\<lambda>_. ok ''Sync requested.''))
     else fails ''Login required.'')"
| "execute_operation env now ids (TestConnection server) =
     and_then (app_call (\<lambda>e. ''Server check failed: '' @ se_describe env e) (test_connection (se_app env) server)) (\<lambda>_.
     ok ''Server compatibility check succeeded.'')"
| "execute_operation env now ids (RevokeDevice device_id) =
     and_then (reads (\<lambda>s. device_id = im_device_id (ap_installation (as_app s)))) (\<lambda>current.
     and_then (app_call (\<lambda>e. ''Device revoke failed: '' @ se_describe env e) (app_revoke_device (se_app env) device_id)) (\<lambda>_.
     and_then (if current then
         and_then (app_does (app_logout (se_app env))) (\<lambda>_.
         and_then (set_sync_status (''Device revoked'' @ middot @ ''Login required'')) (\<lambda>_. refresh_account env))
       else refresh_devices env) (\<lambda>_.
     ok ''Device revoked.'')))"
| "execute_operation env now ids RegenerateDeviceIdentity =
     and_then (app_call (\<lambda>e. ''Device recovery failed: '' @ se_describe env e)
       (recover_revoked_device (se_app env) (se_recovery env) (ids 0) (ids 1) now)) (\<lambda>_.
     and_then (set_sync_status (''Device identity replaced'' @ middot @ ''Login again'')) (\<lambda>_.
     and_then (refresh_account env) (\<lambda>_. ok ''Device identity replaced.'')))"
| "execute_operation env now ids (ExportData path) =
     and_then (app_call (\<lambda>e. ''Export failed: '' @ se_describe_data env e) (\<lambda>a.
       (map_err UdDatabase (worker_export_portable_json (se_portable env) (ae_uuid (se_app env)) (ae_software_version (se_app env)) (dk_worker a)), a))) (\<lambda>bytes.
     case se_write_file env path bytes of
       Some e \<Rightarrow> fails (''Export failed: '' @ e)
     | None \<Rightarrow> ok ''Export completed.'')"
| "execute_operation env now ids (PreviewImport path) = preview_import env (ids 0) path"
| "execute_operation env now ids (ApplyImport token) =
     and_then (take_import token) (\<lambda>plan.
     and_then (app_call (\<lambda>e. ''Import failed: '' @ se_describe_data env e) (app_apply_portable_import (se_app env) plan now ids)) (\<lambda>result.
     and_then (refresh_collections env) (\<lambda>_.
     ok (''Import completed: '' @ decimal (ip_history_add result) @ '' History added, ''
       @ decimal (saturating_add_u64 (ip_favorite_add result) (ip_favorite_reactivate result)) @ '' Favorites added/reactivated.''))))"
| "execute_operation env now ids CheckUpdate =
     and_then (\<lambda>s. case manual_update_check env now s of (status, s1) \<Rightarrow> (Inr status, s1)) (\<lambda>status.
     and_then (doing (\<lambda>s. s\<lparr>as_update_status := status\<rparr>)) (\<lambda>_.
     and_then (doing (push_patch (\<lambda>p. p\<lparr>mp_update_status := Some status\<rparr>))) (\<lambda>_.
     if take (length ''Update check failed'') status \<noteq> ''Update check failed'' then ok status else fails status)))"
| "execute_operation env now ids (UpdateGlobalHotkey shortcut) =
     and_then (native_request env (NativeUpdateGlobalHotkey shortcut)) (\<lambda>_.
     and_then (\<lambda>s. case save_text (se_writable_preference env) ''global-hotkey'' (trim (string_text shortcut)) (as_files s) of
         None \<Rightarrow> (Inl (se_io_message env), s)
       | Some files \<Rightarrow> (Inr (), s\<lparr>as_files := files\<rparr>)) (\<lambda>_.
     and_then (doing (\<lambda>s. s\<lparr>as_global_hotkey := shortcut\<rparr>)) (\<lambda>_.
     and_then (doing (push_preferences env)) (\<lambda>_. ok ''Shortcut saved.''))))"
| "execute_operation env now ids (UpdateStartAtLogin enabled) =
     and_then (native_request env (NativeUpdateStartAtLogin enabled)) (\<lambda>_.
     and_then (doing (push_preferences env)) (\<lambda>_. ok ''Startup preference saved.''))"
| "execute_operation env now ids (UpdateLaunchMinimized enabled) =
     and_then (\<lambda>s. case save_boolean (se_writable_preference env) launch_minimized_key enabled (as_files s) of
         None \<Rightarrow> (Inl (se_io_message env), s)
       | Some files \<Rightarrow> (Inr (), s\<lparr>as_files := files\<rparr>)) (\<lambda>_.
     and_then (doing (\<lambda>s. s\<lparr>as_preferences := (as_preferences s)\<lparr>ux_launch_minimized := enabled\<rparr>\<rparr>)) (\<lambda>_.
     and_then (doing (push_preferences env)) (\<lambda>_. ok ''Launch preference saved.'')))"
| "execute_operation env now ids (UpdatePopupIdleTimeout seconds) =
     and_then (\<lambda>s. case save_popup_idle_timeout (se_writable_preference env) seconds (as_files s) of
         Inl e \<Rightarrow> (Inl (se_describe_preference env e), s)
       | Inr files \<Rightarrow> (Inr (), s\<lparr>as_files := files\<rparr>)) (\<lambda>_.
     and_then (doing (\<lambda>s. s\<lparr>as_preferences := (as_preferences s)\<lparr>ux_popup_idle_timeout_secs := seconds\<rparr>\<rparr>)) (\<lambda>_.
     and_then (doing (push_preferences env)) (\<lambda>_. ok ''Lookup popup retention saved.'')))"
| "execute_operation env now ids (PopupFavoriteToggle active) =
     and_then (app_call (se_describe_data env) (set_last_favorite (se_app env) active now (ids 0))) (\<lambda>_. ok ''Favorite updated.'')"
| "execute_operation env now ids (PopupRefresh display_session_id) = popup_refresh env now (ids 0) display_session_id"
| "execute_operation env now ids RequestSnapshot =
     and_then (\<lambda>s. case service_snapshot env s of (sn, s1) \<Rightarrow> (Inr sn, s1)) (\<lambda>sn.
     and_then (\<lambda>s. case send_ui (Snapshot sn) s of
         (True, s1) \<Rightarrow> (Inr (), s1)
       | (False, s1) \<Rightarrow> (Inl ''The GUI disconnected before snapshot recovery.'', s1)) (\<lambda>_.
     ok []))"
| "execute_operation env now ids OpenAccessibilitySettings =
     and_then (native_request env NativeOpenAccessibilitySettings) (\<lambda>_. ok ''Accessibility settings opened.'')"
| "execute_operation env now ids RequestAccessibilityPermission =
     and_then (native_request env NativeRequestAccessibilityPermission) (\<lambda>_. ok ''Accessibility permission is available.'')"
| "execute_operation env now ids RestartAgent =
     and_then (native_request env NativeRestartAgent) (\<lambda>_. ok ''LVOS Agent is restarting.'')"

section \<open>Requests\<close>

definition result_of :: "uuid \<Rightarrow> ui_operation_name \<Rightarrow> string + string \<times> operation_output \<Rightarrow> operation_result" where
  "result_of request_id operation outcome =
     (let (success, message, output) = (case outcome of Inr (message, output) \<Rightarrow> (True, message, output) | Inl message \<Rightarrow> (False, message, OutputNone)) in
      \<lparr>or_response_to = request_id, or_operation = operation, or_success = success,
       or_feedback = \<lparr>fb_message = message, fb_level = (if success then FeedbackSuccess else FeedbackError)\<rparr>, or_output = output\<rparr>)"

definition handle_request ::
  "('k, 'n) service_env \<Rightarrow> i64 \<Rightarrow> (nat \<Rightarrow> uuid) \<Rightarrow> uuid \<Rightarrow> ui_operation \<Rightarrow> ('k, 'n) agent_service \<Rightarrow> ('k, 'n) agent_service" where
  "handle_request env now ids request_id operation s =
     (case execute_operation env now ids operation s of
        (outcome, s1) \<Rightarrow> snd (send_ui (OperationResult (result_of request_id (ui_operation_name_of operation) outcome)) s1))"

text \<open>\<open>run_requests\<close> on one message, and the other tasks that announce a change.\<close>

fun service_message :: "('k, 'n) service_env \<Rightarrow> i64 \<Rightarrow> (nat \<Rightarrow> uuid) \<Rightarrow> ui_to_agent \<Rightarrow> ('k, 'n) agent_service \<Rightarrow> ('k, 'n) agent_service" where
  "service_message env now ids (Request request_id operation) s = handle_request env now ids request_id operation s"
| "service_message env now ids (UiBlockingChanged blocked) s = s\<lparr>as_ui_blocked := blocked\<rparr>"
| "service_message env now ids (RequestIdleExit request_id generation) s = s\<lparr>as_ui := approve_idle_exit request_id generation (as_ui s)\<rparr>"
| "service_message env now ids (CancelIdleExit request_id generation) s = s\<lparr>as_ui := cancel_idle_exit request_id generation (as_ui s)\<rparr>"
| "service_message env now ids _ s = s"

definition service_resume_session :: "('k, 'n) service_env \<Rightarrow> ('k, 'n) agent_service \<Rightarrow> ('k, 'n) agent_service" where
  "service_resume_session env s =
     (if pm_user_id (ap_profile (as_app s)) = None then s
      else case resume_session (se_app env) (as_app s) of
        (r, a) \<Rightarrow>
          let status = (case r of Inr _ \<Rightarrow> if is_authenticated a then ''Connected'' else ''Login required''
                | Inl e \<Rightarrow> ''Session restore failed: '' @ se_describe env e) in
          push_patch (\<lambda>p. p\<lparr>mp_sync_status := Some status\<rparr>) (s\<lparr>as_app := a, as_sync_status := status\<rparr>))"

definition startup_update_check :: "('k, 'n) service_env \<Rightarrow> (utext \<Rightarrow> i64 option) \<Rightarrow> i64 \<Rightarrow> ('k, 'n) agent_service \<Rightarrow> ('k, 'n) agent_service" where
  "startup_update_check env parse_i64 now s =
     (case startup_check (se_update env) (se_config env) parse_i64 (se_print_i64 env) (se_attempt_written env) now (as_attempt s) (dk_net (as_app s)) of
        (r, attempt, n) \<Rightarrow>
          let s1 = s\<lparr>as_attempt := attempt, as_app := (as_app s)\<lparr>dk_net := n\<rparr>\<rparr>;
              status = (case r of
                 Inr (Available info) \<Rightarrow> Some (''Version '' @ ui_version info @ '' is available. Click Check for Updates to open GitHub Releases.'')
               | Inr (UpToDate info) \<Rightarrow> Some (''Current '' @ ui_current_version info @ middot @ ui_channel info @ middot @ ''Up to date'')
               | Inr Skipped \<Rightarrow> None
               | Inl _ \<Rightarrow> Some ''Automatic update check failed. Manual retry is available.'') in
          case status of
            None \<Rightarrow> s1
          | Some status \<Rightarrow> push_patch (\<lambda>p. p\<lparr>mp_update_status := Some status\<rparr>) (s1\<lparr>as_update_status := status\<rparr>))"

text \<open>\<open>AgentService::new\<close>: \<open>channel\<close> is the environment variable for the update channel. The configuration of the
  update check it builds is the one in which the service then runs.\<close>

definition service_start ::
  "('k, 'n) service_env \<Rightarrow> string \<Rightarrow> string \<Rightarrow> string option \<Rightarrow> ui_preferences \<Rightarrow> string \<Rightarrow> (string, utext) table \<Rightarrow> utext option \<Rightarrow> ui_client
    \<Rightarrow> ('k, 'n) application \<Rightarrow> string + update_config \<times> ('k, 'n) agent_service" where
  "service_start env os arch channel preferences hotkey files attempt client a =
     (let update_channel = (case channel of None \<Rightarrow> default_update_channel | Some c \<Rightarrow> c) in
      rbind (map_err (se_update_message env) (lvos_config (ae_software_version (se_app env)) os arch update_channel)) (\<lambda>config.
      rbind (if np_update_proxy_enabled (ap_network a) then map_err (se_describe env) (proxy_url (ae_parse_url (se_app env)) (ap_network a)) else Inr None) (\<lambda>proxy.
      if \<not> se_update_client env proxy then Inl (se_update_message env UeNetwork)
      else Inr (config, \<lparr>as_app = a, as_preferences = preferences, as_global_hotkey = hotkey,
        as_sync_status = (if pm_user_id (ap_profile a) \<noteq> None then ''Restoring session'' @ ellipsis else ''Login required''),
        as_update_status = ''Current '' @ ae_software_version (se_app env) @ middot @ update_channel @ middot @ ''Not checked'',
        as_revision = 0, as_ui_blocked = False, as_imports = [], as_update_proxy = proxy, as_attempt = attempt, as_files = files,
        as_ui = client, as_sent = []\<rparr>))))"

section \<open>What the steps of an operation keep\<close>

text \<open>A relation between the service before and after that every step of an operation satisfies.\<close>

locale service_relation =
  fixes R :: "('k, 'n) agent_service \<Rightarrow> ('k, 'n) agent_service \<Rightarrow> bool"
  assumes quiet: "as_ui s' = as_ui s \<Longrightarrow> as_sent s' = as_sent s \<Longrightarrow> as_revision s' = as_revision s \<Longrightarrow> as_imports s' = as_imports s
      \<Longrightarrow> as_files s' = as_files s \<Longrightarrow> as_preferences s' = as_preferences s \<Longrightarrow> R s s'"
    and trans: "R s s1 \<Longrightarrow> R s1 s2 \<Longrightarrow> R s s2"
    and push: "(\<And>p. mp_base_revision (build p) = mp_base_revision p \<and> mp_revision (build p) = mp_revision p) \<Longrightarrow> R s (push_patch build s)"
begin

definition keeps :: "('k, 'n, 'a) service_op \<Rightarrow> bool" where
  "keeps m \<longleftrightarrow> (\<forall>s. R s (snd (m s)))"

lemma keeps_and_then [intro]: "keeps m \<Longrightarrow> (\<And>x. keeps (f x)) \<Longrightarrow> keeps (and_then m f)"
  unfolding keeps_def and_then_def by (auto split: sum.split prod.split intro: trans) (metis snd_conv trans)+

lemma keeps_done_with [intro]: "keeps (done_with x)"
  by (simp add: keeps_def done_with_def quiet)

lemma keeps_ok [intro]: "keeps (ok message)"
  by (simp add: ok_def keeps_done_with)

lemma keeps_fails [intro]: "keeps (fails e)"
  by (simp add: keeps_def fails_def quiet)

lemma keeps_reads [intro]: "keeps (reads f)"
  by (simp add: keeps_def reads_def quiet)

lemma keeps_app_call [intro]: "keeps (app_call describe f)"
  by (auto simp: keeps_def app_call_def quiet split: prod.split)

lemma keeps_app_does [intro]: "keeps (app_does f)"
  by (auto simp: keeps_def app_does_def quiet split: prod.split)

lemma keeps_push [intro]: "(\<And>p. mp_base_revision (build p) = mp_base_revision p \<and> mp_revision (build p) = mp_revision p) \<Longrightarrow> keeps (doing (push_patch build))"
  by (simp add: keeps_def doing_def push)

lemma keeps_status [intro]: "keeps (set_sync_status status)"
  by (simp add: keeps_def set_sync_status_def doing_def quiet)

lemma keeps_quiet: "(\<And>s. as_ui (snd (m s)) = as_ui s \<and> as_sent (snd (m s)) = as_sent s \<and> as_revision (snd (m s)) = as_revision s \<and> as_imports (snd (m s)) = as_imports s
    \<and> as_files (snd (m s)) = as_files s \<and> as_preferences (snd (m s)) = as_preferences s) \<Longrightarrow> keeps m"
  by (simp add: keeps_def quiet)

lemma keeps_native [intro]: "keeps (native_request env event)"
  by (rule keeps_quiet) (simp add: native_request_def)

lemma keeps_update_proxy [intro]: "keeps (apply_update_proxy env network)"
  by (rule keeps_quiet) (auto simp: apply_update_proxy_def split: sum.split)

lemma keeps_refresh_collections [intro]: "keeps (refresh_collections env)"
  unfolding refresh_collections_def by (intro keeps_and_then keeps_app_call keeps_push) simp

lemma keeps_refresh_devices [intro]: "keeps (refresh_devices env)"
  unfolding refresh_devices_def by (auto intro!: keeps_and_then keeps_app_call keeps_push keeps_reads keeps_done_with)

lemma keeps_refresh_account [intro]: "keeps (refresh_account env)"
  unfolding refresh_account_def by (auto intro!: keeps_and_then keeps_app_call keeps_push keeps_reads keeps_refresh_devices)

lemma keeps_push_preferences [intro]: "keeps (doing (push_preferences env))"
  unfolding keeps_def doing_def push_preferences_def Let_def by (auto intro!: push)

lemmas keeps_intros = keeps_and_then keeps_ok keeps_fails keeps_reads keeps_app_call keeps_app_does keeps_push keeps_status keeps_native
  keeps_update_proxy keeps_refresh_collections keeps_refresh_devices keeps_refresh_account keeps_push_preferences keeps_done_with

end

text \<open>The numbering of what is sent: a patch leads from the current revision to the next, a snapshot is of the current one.\<close>

fun next_revision :: "u64 \<Rightarrow> agent_to_ui \<Rightarrow> u64 option" where
  "next_revision r (Patch p) = (if mp_base_revision p = r \<and> mp_revision p = (r + 1) mod 2 ^ 64 then Some ((r + 1) mod 2 ^ 64) else None)"
| "next_revision r (Snapshot sn) = (if sn_revision sn = r \<and> mu_revision (sn_main sn) = r then Some r else None)"
| "next_revision r _ = Some r"

fun numbered :: "u64 \<Rightarrow> agent_to_ui list \<Rightarrow> u64 option" where
  "numbered r [] = Some r"
| "numbered r (m # ms) = Option.bind (next_revision r m) (\<lambda>r1. numbered r1 ms)"

lemma numbered_append: "numbered r (xs @ ys) = Option.bind (numbered r xs) (\<lambda>r1. numbered r1 ys)"
  by (induction xs arbitrary: r) (auto split: Option.bind_split)

definition is_result :: "agent_to_ui \<Rightarrow> bool" where
  "is_result m \<longleftrightarrow> (\<exists>r. m = OperationResult r)"

text \<open>What the client makes of messages: it queues them on the connection of a GUI that is ready, in order,
  and drops them otherwise.\<close>

definition gui_connection :: "ui_client \<Rightarrow> nat option" where
  "gui_connection c = (case (uc_phase c, uc_sender c) of
     (PhaseReady _, Some i) \<Rightarrow> if i < length (uc_connections c) \<and> cn_open (uc_connections c ! i) then Some i else None
   | _ \<Rightarrow> None)"

definition delivered :: "agent_to_ui list \<Rightarrow> ui_client \<Rightarrow> ui_client" where
  "delivered ms c = (case gui_connection c of
     None \<Rightarrow> c
   | Some i \<Rightarrow> c\<lparr>uc_connections := (uc_connections c)[i := (uc_connections c ! i)\<lparr>cn_queue := cn_queue (uc_connections c ! i) @ ms\<rparr>]\<rparr>)"

lemma send_if_ready_delivered: "send_if_ready m c = (gui_connection c \<noteq> None, delivered [m] c)"
  by (auto simp: send_if_ready_def channel_send_def gui_connection_def delivered_def enqueue_def
      split: ui_process_phase.split option.split)

lemma delivered_Nil [simp]: "delivered [] c = c"
  by (simp add: delivered_def split: option.split)

lemma gui_connection_delivered [simp]: "gui_connection (delivered ms c) = gui_connection c"
  by (auto simp: delivered_def gui_connection_def nth_list_update split: option.split ui_process_phase.split)

lemma delivered_append: "delivered (xs @ ys) c = delivered ys (delivered xs c)"
proof (cases "gui_connection c")
  case None
  then show ?thesis by (simp add: delivered_def)
next
  case (Some i)
  then have "i < length (uc_connections c)"
    by (auto simp: gui_connection_def split: option.splits ui_process_phase.splits if_splits)
  moreover have "gui_connection (delivered xs c) = Some i" using Some by simp
  ultimately show ?thesis using Some by (simp add: delivered_def)
qed

definition announces :: "('k, 'n) agent_service \<Rightarrow> ('k, 'n) agent_service \<Rightarrow> bool" where
  "announces s s' \<longleftrightarrow> (\<exists>ms. as_sent s' = as_sent s @ ms \<and> as_ui s' = delivered ms (as_ui s) \<and> numbered (as_revision s) ms = Some (as_revision s') \<and> list_all (\<lambda>m. \<not> is_result m) ms)"

lemma announces_send:
  assumes "next_revision (as_revision s) m = Some (as_revision s)" "\<not> is_result m"
  shows "announces s (snd (send_ui m s))"
  using assms unfolding announces_def send_ui_def send_if_ready_delivered by auto

lemma announces_push:
  assumes "\<And>p. mp_base_revision (build p) = mp_base_revision p \<and> mp_revision (build p) = mp_revision p"
  shows "announces s (push_patch build s)"
  unfolding announces_def push_patch_def service_patch_def send_ui_def Let_def
  using assms by (auto simp: is_result_def default_patch_def send_if_ready_delivered)

lemma announces_trans:
  assumes "announces s s1" "announces s1 s2"
  shows "announces s s2"
proof -
  obtain xs where xs: "as_sent s1 = as_sent s @ xs" "as_ui s1 = delivered xs (as_ui s)" "numbered (as_revision s) xs = Some (as_revision s1)" "list_all (\<lambda>m. \<not> is_result m) xs"
    using assms(1) unfolding announces_def by blast
  obtain ys where "as_sent s2 = as_sent s1 @ ys" "as_ui s2 = delivered ys (as_ui s1)" "numbered (as_revision s1) ys = Some (as_revision s2)" "list_all (\<lambda>m. \<not> is_result m) ys"
    using assms(2) unfolding announces_def by blast
  with xs show ?thesis unfolding announces_def by (intro exI [of _ "xs @ ys"]) (simp add: numbered_append delivered_append)
qed

interpretation announced: service_relation announces
proof
  show "announces s s'" if "as_ui s' = as_ui s" "as_sent s' = as_sent s" "as_revision s' = as_revision s" for s s' :: "('k, 'n) agent_service"
    using that unfolding announces_def by (intro exI [of _ "[]"]) simp
qed (fact announces_trans, fact announces_push)

interpretation imports_kept: service_relation "\<lambda>s s'. as_imports s' = as_imports s"
  by unfold_locales (auto simp: push_patch_def service_patch_def send_ui_def Let_def split: prod.split)

section \<open>Every operation announces its changes\<close>

lemma snapshot_quiet:
  "as_ui (snd (service_snapshot env s)) = as_ui s \<and> as_sent (snd (service_snapshot env s)) = as_sent s \<and> as_revision (snd (service_snapshot env s)) = as_revision s
    \<and> as_imports (snd (service_snapshot env s)) = as_imports s
    \<and> as_files (snd (service_snapshot env s)) = as_files s \<and> as_preferences (snd (service_snapshot env s)) = as_preferences s
    \<and> sn_revision (fst (service_snapshot env s)) = as_revision s \<and> mu_revision (sn_main (fst (service_snapshot env s))) = as_revision s"
  by (auto simp: service_snapshot_def Let_def split: prod.split)

lemma update_check_quiet:
  "as_ui (snd (manual_update_check env now s)) = as_ui s \<and> as_sent (snd (manual_update_check env now s)) = as_sent s \<and> as_revision (snd (manual_update_check env now s)) = as_revision s
    \<and> as_imports (snd (manual_update_check env now s)) = as_imports s
    \<and> as_files (snd (manual_update_check env now s)) = as_files s \<and> as_preferences (snd (manual_update_check env now s)) = as_preferences s"
  by (auto simp: manual_update_check_def split: prod.split)

lemma send_announced:
  assumes "\<And>r. next_revision r m = Some r" "\<not> is_result m"
  shows "announced.keeps ((\<lambda>s. case send_ui m s of (True, s1) \<Rightarrow> (Inr (), s1) | (False, s1) \<Rightarrow> (Inl e, s1)) :: ('k, 'n, unit) service_op)"
proof -
  have "snd (case send_ui m s of (True, s1) \<Rightarrow> (Inr (), s1) | (False, s1) \<Rightarrow> (Inl e, s1)) = snd (send_ui m s)" for s :: "('k, 'n) agent_service"
    by (simp split: prod.split bool.split)
  then show ?thesis unfolding announced.keeps_def by (auto intro!: announces_send assms)
qed

lemma popup_refresh_announced: "announced.keeps (popup_refresh env now event_id display_session_id)"
proof -
  have upd: "announced.keeps (\<lambda>s. if app_is_current state (as_app s)
            then case lookup_of_card state of Inl e \<Rightarrow> (Inl e, s)
               | Inr shown \<Rightarrow> (Inr (), snd (send_ui (UpdateLookup display_session_id shown) s))
            else (Inr (), s))" for state
    unfolding announced.keeps_def
    by (auto split: sum.split intro: announced.quiet announces_send simp: is_result_def)
  show ?thesis unfolding popup_refresh_def
    by (intro announced.keeps_and_then announced.keeps_app_does)
      (auto split: option.split lookup_card_state.split simp: is_result_def
        intro!: announced.keeps_and_then announced.keeps_app_does announced.keeps_ok announced.keeps_fails send_announced upd)
qed

lemma preview_import_announced: "announced.keeps (preview_import env token path)"
  unfolding preview_import_def Let_def
  by (intro announced.keeps_and_then announced.keeps_app_call announced.keeps_done_with)
    (simp_all add: announced.keeps_def doing_def announces_def exI [of _ "[]"])

lemma take_import_announced: "announced.keeps (take_import token)"
  by (auto simp: announced.keeps_def take_import_def announces_def split: option.split)

lemma files_announced:
  "announced.keeps (\<lambda>s. case f s of None \<Rightarrow> (Inl (e s), s) | Some files \<Rightarrow> (Inr (), s\<lparr>as_files := files\<rparr>))"
  "announced.keeps (\<lambda>s. case g s of Inl x \<Rightarrow> (Inl (h x), s) | Inr files \<Rightarrow> (Inr (), s\<lparr>as_files := files\<rparr>))"
  by (auto simp: announced.keeps_def announces_def split: option.split sum.split)

lemma fields_announced:
  "announced.keeps (doing (\<lambda>s. s\<lparr>as_update_status := u s\<rparr>))" "announced.keeps (doing (\<lambda>s. s\<lparr>as_global_hotkey := x s\<rparr>))"
  "announced.keeps (doing (\<lambda>s. s\<lparr>as_preferences := p s\<rparr>))"
  by (auto simp: announced.keeps_def doing_def announces_def)

lemma update_check_announced: "announced.keeps (\<lambda>s. case manual_update_check env now s of (status, s1) \<Rightarrow> (Inr status, s1))"
  by (rule announced.keeps_quiet) (simp add: case_prod_unfold update_check_quiet)

lemma resync_announced:
  "announced.keeps (and_then (\<lambda>s. case service_snapshot env s of (sn, s1) \<Rightarrow> (Inr sn, s1)) (\<lambda>sn.
     and_then (\<lambda>s. case send_ui (Snapshot sn) s of (True, s1) \<Rightarrow> (Inr (), s1) | (False, s1) \<Rightarrow> (Inl e, s1)) (\<lambda>_. ok [])))"
  unfolding announced.keeps_def
proof
  fix s :: "('a, 'b) agent_service"
  obtain sn s1 where sn: "service_snapshot env s = (sn, s1)" by (meson surj_pair)
  have q: "as_ui s1 = as_ui s" "as_sent s1 = as_sent s" "as_revision s1 = as_revision s" "sn_revision sn = as_revision s1" "mu_revision (sn_main sn) = as_revision s1"
    using snapshot_quiet [of env s] sn by auto
  have "announces s1 (snd (send_ui (Snapshot sn) s1))" using q by (intro announces_send) (auto simp: is_result_def)
  then have "announces s (snd (send_ui (Snapshot sn) s1))" using q by (auto simp: announces_def)
  then show "announces s (snd (and_then (\<lambda>s. case service_snapshot env s of (sn, s1) \<Rightarrow> (Inr sn, s1)) (\<lambda>sn.
     and_then (\<lambda>s. case send_ui (Snapshot sn) s of (True, s1) \<Rightarrow> (Inr (), s1) | (False, s1) \<Rightarrow> (Inl e, s1)) (\<lambda>_. ok [])) s))"
    by (auto simp: and_then_def sn ok_def done_with_def split: prod.split bool.split)
qed

lemma execute_announced: "announced.keeps (execute_operation env now ids operation)"
  by (cases operation)
    (auto simp: Let_def is_result_def split: sum.split option.split
      intro!: announced.keeps_intros preview_import_announced take_import_announced files_announced fields_announced update_check_announced
        resync_announced popup_refresh_announced)

text \<open>
  C39: every request is answered once, last, to the GUI that is connected. When the GUI is ready, handling
  a request appends to the queue of its connection the messages of the operation and then the result:
  there is no other result among them, the result names the request and the operation, and it reports
  success exactly when the operation succeeded, with the message and the output of the operation, or the
  error. Nothing else about the client changes. When no GUI is ready nothing is queued. The GUI neither
  connects nor disconnects while the request is handled.
\<close>

theorem request_answered_once:
  "\<exists>ms outcome s1. execute_operation env now ids operation s = (outcome, s1) \<and> filter is_result ms = []
    \<and> as_ui (handle_request env now ids request_id operation s) = (case gui_connection (as_ui s) of
        None \<Rightarrow> as_ui s
      | Some i \<Rightarrow> (as_ui s)\<lparr>uc_connections := (uc_connections (as_ui s))[i := (uc_connections (as_ui s) ! i)
          \<lparr>cn_queue := cn_queue (uc_connections (as_ui s) ! i) @ ms
             @ [OperationResult \<lparr>or_response_to = request_id, or_operation = ui_operation_name_of operation,
                 or_success = (case outcome of Inr _ \<Rightarrow> True | Inl _ \<Rightarrow> False),
                 or_feedback = (case outcome of Inr (message, _) \<Rightarrow> \<lparr>fb_message = message, fb_level = FeedbackSuccess\<rparr>
                     | Inl message \<Rightarrow> \<lparr>fb_message = message, fb_level = FeedbackError\<rparr>),
                 or_output = (case outcome of Inr (_, output) \<Rightarrow> output | Inl _ \<Rightarrow> OutputNone)\<rparr>]\<rparr>]\<rparr>)"
proof -
  obtain outcome s1 where run: "execute_operation env now ids operation s = (outcome, s1)" by (meson surj_pair)
  have "announces s s1" using execute_announced [of env now ids operation] run by (metis announced.keeps_def snd_conv)
  then obtain ms where ms: "as_ui s1 = delivered ms (as_ui s)" "list_all (\<lambda>m. \<not> is_result m) ms" unfolding announces_def by blast
  let ?r = "OperationResult (result_of request_id (ui_operation_name_of operation) outcome)"
  have "as_ui (handle_request env now ids request_id operation s) = delivered (ms @ [?r]) (as_ui s)"
    by (simp add: handle_request_def run send_ui_def send_if_ready_delivered ms(1) delivered_append)
  then show ?thesis using run ms(2)
    by (intro exI [of _ ms] exI [of _ outcome] exI [of _ s1] conjI)
      (auto simp: delivered_def result_of_def filter_empty_conv list_all_iff split: option.split sum.split)
qed

section \<open>What the GUI shows\<close>

text \<open>The events that make the service announce something; a connecting GUI gets a snapshot.\<close>

datatype service_event = FromUi i64 "nat \<Rightarrow> uuid" ui_to_agent | SessionResumed | UpdatesChecked "utext \<Rightarrow> i64 option" i64 | UiConnected

fun service_step :: "('k, 'n) service_env \<times> service_event \<Rightarrow> ('k, 'n) agent_service \<Rightarrow> ('k, 'n) agent_service" where
  "service_step (env, FromUi now ids m) s = service_message env now ids m s"
| "service_step (env, SessionResumed) s = service_resume_session env s"
| "service_step (env, UpdatesChecked parse_i64 now) s = startup_update_check env parse_i64 now s"
| "service_step (env, UiConnected) s = (case service_snapshot env s of (sn, s1) \<Rightarrow> s1\<lparr>as_sent := as_sent s1 @ [Snapshot sn]\<rparr>)"

definition service_run :: "(('k, 'n) service_env \<times> service_event) list \<Rightarrow> ('k, 'n) agent_service \<Rightarrow> ('k, 'n) agent_service" where
  "service_run events = fold service_step events"

definition numbers :: "('k, 'n) agent_service \<Rightarrow> ('k, 'n) agent_service \<Rightarrow> bool" where
  "numbers s s' \<longleftrightarrow> (\<exists>ms. as_sent s' = as_sent s @ ms \<and> numbered (as_revision s) ms = Some (as_revision s'))"

lemma announces_numbers: "announces s s' \<Longrightarrow> numbers s s'"
  unfolding announces_def numbers_def by blast

lemma quiet_numbers: "as_sent s' = as_sent s \<Longrightarrow> as_revision s' = as_revision s \<Longrightarrow> numbers s s'"
  unfolding numbers_def by (intro exI [of _ "[]"]) simp

lemma numbers_trans:
  assumes "numbers s s1" "numbers s1 s2"
  shows "numbers s s2"
proof -
  obtain xs ys where "as_sent s1 = as_sent s @ xs" "numbered (as_revision s) xs = Some (as_revision s1)"
    "as_sent s2 = as_sent s1 @ ys" "numbered (as_revision s1) ys = Some (as_revision s2)"
    using assms unfolding numbers_def by blast
  then show ?thesis unfolding numbers_def by (intro exI [of _ "xs @ ys"]) (simp add: numbered_append)
qed

lemma handle_request_numbers: "numbers s (handle_request env now ids request_id operation s)"
proof -
  obtain outcome s1 where run: "execute_operation env now ids operation s = (outcome, s1)" by (meson surj_pair)
  have "announces s s1" using execute_announced [of env now ids operation] run by (metis announced.keeps_def snd_conv)
  moreover have "numbers s1 (snd (send_ui (OperationResult r) s1))" for r
    unfolding numbers_def by (intro exI [of _ "[OperationResult r]"]) (auto simp: send_ui_def split: prod.split)
  ultimately show ?thesis unfolding handle_request_def run by (auto intro: numbers_trans announces_numbers)
qed

lemma push_numbers:
  assumes "\<And>p. mp_base_revision (build p) = mp_base_revision p \<and> mp_revision (build p) = mp_revision p"
    and "as_sent s1 = as_sent s" "as_revision s1 = as_revision s"
  shows "numbers s (push_patch build s1)"
  using quiet_numbers [OF assms(2,3)] announces_numbers [OF announces_push [OF assms(1)]] by (rule numbers_trans)

lemma service_step_numbers: "numbers s (service_step e s)"
proof -
  obtain env ev where e: "e = (env, ev)" by (cases e)
  show ?thesis
  proof (cases ev)
    case (FromUi now ids m)
    then show ?thesis unfolding e by (cases m) (auto intro: handle_request_numbers quiet_numbers)
  next
    case SessionResumed
    then show ?thesis unfolding e by (auto simp: service_resume_session_def Let_def intro: quiet_numbers push_numbers split: prod.split)
  next
    case (UpdatesChecked parse now)
    then show ?thesis unfolding e
      by (auto simp: startup_update_check_def Let_def split: prod.split option.split intro: quiet_numbers push_numbers)
  next
    case UiConnected
    obtain sn s1 where sn: "service_snapshot env s = (sn, s1)" by (meson surj_pair)
    then show ?thesis unfolding e UiConnected numbers_def using snapshot_quiet [of env s]
      by (intro exI [of _ "[Snapshot sn]"]) auto
  qed
qed

lemma service_run_numbers: "numbers s (service_run events s)"
proof (induction events arbitrary: s)
  case (Cons e events)
  then show ?case unfolding service_run_def by (auto intro: numbers_trans [OF service_step_numbers])
qed (simp add: service_run_def quiet_numbers)

definition sent_patches :: "agent_to_ui list \<Rightarrow> main_ui_patch list" where
  "sent_patches ms = concat (map (\<lambda>m. case m of Patch p \<Rightarrow> [p] | _ \<Rightarrow> []) ms)"

lemma numbered_log:
  assumes "numbered 0 ms = Some r" "length (sent_patches ms) < 2 ^ 64"
  shows "r = length (sent_patches ms) \<and> patch_log (sent_patches ms) \<and> (\<forall>sn. Snapshot sn \<in> set ms \<longrightarrow> sn_revision sn \<le> length (sent_patches ms))"
  using assms
proof (induction ms arbitrary: r rule: rev_induct)
  case (snoc m ms)
  obtain r0 where r0: "numbered 0 ms = Some r0" "next_revision r0 m = Some r"
    using snoc.prems(1) by (auto simp: numbered_append split: Option.bind_splits)
  have len: "length (sent_patches ms) < 2 ^ 64" using snoc.prems(2) by (auto simp: sent_patches_def)
  note ih = snoc.IH [OF r0(1) len]
  show ?case
  proof (cases m)
    case (Patch p)
    have "length (sent_patches ms) + 1 < 2 ^ 64" using snoc.prems(2) Patch by (simp add: sent_patches_def)
    then have "r = length (sent_patches ms) + 1" "mp_base_revision p = length (sent_patches ms)" "mp_revision p = length (sent_patches ms) + 1"
      using ih r0(2) Patch by (auto split: if_splits)
    moreover have "sent_patches (ms @ [m]) = sent_patches ms @ [p]" by (simp add: Patch sent_patches_def)
    ultimately show ?thesis using ih Patch by (auto simp: patch_log_def nth_append less_Suc_eq)
  next
    case (Snapshot sn)
    then have "sent_patches (ms @ [m]) = sent_patches ms" by (simp add: sent_patches_def)
    then show ?thesis using ih r0(2) Snapshot by (auto split: if_splits)
  qed (use ih r0(2) in \<open>auto simp: sent_patches_def\<close>)
qed (simp add: sent_patches_def patch_log_def)

text \<open>
  C26: the GUI never shows a mixture. Whatever the service does, and whatever part of what it handed over
  reaches a GUI, late, twice or out of order, the main window the GUI holds is a snapshot the service made
  followed by the patches it made after it, without a gap, up to the revision the GUI holds. The service makes
  fewer than 2^64 patches in its lifetime.
\<close>

theorem ui_cache_follows_service:
  assumes start: "as_revision s0 = 0" "as_sent s0 = []"
    and bound: "length (sent_patches (as_sent (service_run events s0))) < 2 ^ 64"
    and delivered: "(\<lambda>(_, _, m). m) ` set ms \<subseteq> set (as_sent (service_run events s0))"
    and shown: "ch_main (us_cache (ui_run ids ms (install_session generation))) = Some main"
  shows "\<exists>sn. Snapshot sn \<in> set (as_sent (service_run events s0))
    \<and> sn_revision sn \<le> mu_revision main \<and> mu_revision main \<le> length (sent_patches (as_sent (service_run events s0)))
    \<and> main = fold apply_main_patch
        (log_segment (sn_revision sn) (mu_revision main) (sent_patches (as_sent (service_run events s0)))) (sn_main sn)"
proof -
  let ?sent = "as_sent (service_run events s0)"
  obtain r where "numbered 0 ?sent = Some r" using service_run_numbers [of s0 events] start by (auto simp: numbers_def)
  note log = numbered_log [OF this bound]
  have in_sent: "m \<in> set ?sent" if "(nt, q, m) \<in> set ms" for nt q m using delivered that by force
  have pat: "set (delivered_patches ms) \<subseteq> set (sent_patches ?sent)"
    using in_sent by (fastforce simp: delivered_patches_def sent_patches_def split: agent_to_ui.splits)
  have sns: "sn \<in> set (delivered_snapshots ms) \<Longrightarrow> Snapshot sn \<in> set ?sent" for sn
    using in_sent by (fastforce simp: delivered_snapshots_def split: agent_to_ui.splits)
  have "cache_follows (sent_patches ?sent) ({} \<union> set (delivered_snapshots ms)) (us_cache (ui_run ids ms (install_session generation)))"
    using log sns by (intro ui_run_follows [OF _ pat]) (auto simp: cache_follows_def install_session_def)
  then obtain sn where "sn \<in> set (delivered_snapshots ms)" "sn_revision sn \<le> mu_revision main" "mu_revision main \<le> length (sent_patches ?sent)"
    "main = fold apply_main_patch (log_segment (sn_revision sn) (mu_revision main) (sent_patches ?sent)) (sn_main sn)"
    using shown unfolding cache_follows_def by auto
  then show ?thesis using sns by blast
qed

text \<open>A service of a fresh installation, a GUI that connects and one change of a preference.\<close>

definition example_service_env :: "((string, byte list) table, bool) service_env" where
  "example_service_env = \<lparr>se_app = example_env, se_update = \<lparr>ue_parse_url = (\<lambda>_. None), ue_version = (\<lambda>_. True), ue_version_less = (\<lambda>_ _. False),
       ue_send = (\<lambda>_ n. (None, n)), ue_read_release = (\<lambda>_. None), ue_read_manifest = (\<lambda>_. None)\<rparr>,
     se_config = example_config, se_describe = (\<lambda>_. ''error''), se_describe_data = (\<lambda>_. ''error''), se_describe_preference = (\<lambda>_. ''error''), se_update_message = (\<lambda>_. ''error''), se_io_message = ''error'',
     se_file = (\<lambda>_. Inr [1]), se_write_file = (\<lambda>_ _. None), se_native = (\<lambda>_. Answer (Inr ())), se_start_at_login = True,
     se_update_client = (\<lambda>_. True), se_page_opened = True, se_portable = example_portable_json, se_writable_preference = (\<lambda>_. True),
     se_print_i64 = (\<lambda>_. []), se_attempt_written = True, se_recovery = example_recovery\<rparr>"

definition example_service :: "((string, byte list) table, bool) agent_service" where
  "example_service = \<lparr>as_app = example_application example_metadata example_single [], as_preferences = default_ui_preferences, as_global_hotkey = [],
     as_sync_status = [], as_update_status = [], as_revision = 0, as_ui_blocked = False, as_imports = [], as_update_proxy = None, as_attempt = None,
     as_files = [], as_ui = ui_client_start ''s1'' ''a'', as_sent = []\<rparr>"

definition example_events :: "(((string, byte list) table, bool) service_env \<times> service_event) list" where
  "example_events = [(example_service_env, UiConnected), (example_service_env, FromUi 5 (\<lambda>_. ''i'') (Request ''q'' (UpdateStartAtLogin True)))]"

lemma example_sent:
  "\<exists>sn p r. as_sent (service_run example_events example_service) = [Snapshot sn, Patch p, OperationResult r]
    \<and> sn_revision sn = 0 \<and> mu_revision (sn_main sn) = 0 \<and> mp_base_revision p = 0 \<and> mp_revision p = 1"
proof -
  obtain sn s1 where sn: "service_snapshot example_service_env example_service = (sn, s1)" by (meson surj_pair)
  have q: "as_sent s1 = []" "as_revision s1 = 0" "sn_revision sn = 0" "mu_revision (sn_main sn) = 0"
    using snapshot_quiet [of example_service_env example_service] sn by (auto simp: example_service_def)
  moreover have native: "se_native example_service_env e = Answer (Inr ())" for e by (simp add: example_service_env_def)
  ultimately show ?thesis
    by (auto simp: service_run_def example_events_def sn handle_request_def native_request_def native and_then_def doing_def
        push_preferences_def push_patch_def service_patch_def send_ui_def ok_def done_with_def default_patch_def Let_def split: prod.split)
qed

text \<open>The same request with a GUI that is ready.\<close>

definition example_ready_client :: ui_client where
  "example_ready_client = (ui_client_start ''s1'' ''a'')\<lparr>uc_next_generation := 2,
     uc_state := default_process_state\<lparr>ps_phase := PhaseReady 1, ps_sender := Some 0\<rparr>,
     uc_connections := [\<lparr>cn_generation = 1, cn_queue = [], cn_open = True\<rparr>]\<rparr>"

theorem request_answered_once_witness:
  "\<exists>ms r. cn_queue (uc_connections (as_ui (handle_request example_service_env 5 (\<lambda>_. ''i'') ''q'' (UpdateStartAtLogin True)
        (example_service\<lparr>as_ui := example_ready_client\<rparr>))) ! 0) = ms @ [OperationResult r]
    \<and> filter is_result ms = [] \<and> or_response_to r = ''q'' \<and> or_success r
    \<and> fb_message (or_feedback r) = ''Startup preference saved.''"
proof -
  let ?s = "example_service\<lparr>as_ui := example_ready_client\<rparr>"
  have c: "gui_connection example_ready_client = Some 0" "uc_connections example_ready_client = [\<lparr>cn_generation = 1, cn_queue = [], cn_open = True\<rparr>]"
    by (simp_all add: gui_connection_def example_ready_client_def)
  have native: "se_native example_service_env e = Answer (Inr ())" for e by (simp add: example_service_env_def)
  obtain s1 where run: "execute_operation example_service_env 5 (\<lambda>_. ''i'') (UpdateStartAtLogin True) ?s
      = (Inr (''Startup preference saved.'', OutputNone), s1)"
    by (simp add: and_then_def native_request_def native doing_def ok_def done_with_def)
  obtain ms outcome s2 where "execute_operation example_service_env 5 (\<lambda>_. ''i'') (UpdateStartAtLogin True) ?s = (outcome, s2)"
    "filter is_result ms = []"
    "as_ui (handle_request example_service_env 5 (\<lambda>_. ''i'') ''q'' (UpdateStartAtLogin True) ?s) = (case gui_connection (as_ui ?s) of
        None \<Rightarrow> as_ui ?s
      | Some i \<Rightarrow> (as_ui ?s)\<lparr>uc_connections := (uc_connections (as_ui ?s))[i := (uc_connections (as_ui ?s) ! i)
          \<lparr>cn_queue := cn_queue (uc_connections (as_ui ?s) ! i) @ ms
             @ [OperationResult \<lparr>or_response_to = ''q'', or_operation = ui_operation_name_of (UpdateStartAtLogin True),
                 or_success = (case outcome of Inr _ \<Rightarrow> True | Inl _ \<Rightarrow> False),
                 or_feedback = (case outcome of Inr (message, _) \<Rightarrow> \<lparr>fb_message = message, fb_level = FeedbackSuccess\<rparr>
                     | Inl message \<Rightarrow> \<lparr>fb_message = message, fb_level = FeedbackError\<rparr>),
                 or_output = (case outcome of Inr (_, output) \<Rightarrow> output | Inl _ \<Rightarrow> OutputNone)\<rparr>]\<rparr>]\<rparr>)"
    using request_answered_once by blast
  with run c show ?thesis by (intro exI [of _ ms]) auto
qed

theorem ui_cache_follows_service_witness:
  "\<exists>sn p main. as_sent (service_run example_events example_service) ! 0 = Snapshot sn \<and> as_sent (service_run example_events example_service) ! 1 = Patch p
    \<and> ch_main (us_cache (ui_run (\<lambda>_. ''i'') [(example_native, 1, Snapshot sn), (example_native, 2, Patch p)] (install_session 1))) = Some main
    \<and> mu_revision main = 1 \<and> main = apply_main_patch p (sn_main sn)"
proof -
  let ?sent = "as_sent (service_run example_events example_service)"
  obtain sn p r where s: "?sent = [Snapshot sn, Patch p, OperationResult r]" and rv: "sn_revision sn = 0" "mu_revision (sn_main sn) = 0"
    "mp_base_revision p = 0" "mp_revision p = 1" using example_sent by blast
  let ?ms = "[(example_native, 1, Snapshot sn), (example_native, 2, Patch p)]"
  obtain main where main: "ch_main (us_cache (ui_run (\<lambda>_. ''i'') ?ms (install_session 1))) = Some main"
    using rv by (simp add: ui_run_def ui_apply_cache apply_snapshot_cache apply_patch_cache install_session_def)
  have m1: "mu_revision main = 1"
    using main rv by (auto simp: ui_run_def ui_apply_cache apply_snapshot_cache apply_patch_cache install_session_def)
  have "\<exists>x. Snapshot x \<in> set ?sent \<and> main = fold apply_main_patch (log_segment (sn_revision x) (mu_revision main) (sent_patches ?sent)) (sn_main x)"
    using ui_cache_follows_service [OF _ _ _ _ main, of example_service example_events] s by (auto simp: example_service_def sent_patches_def)
  then have "main = fold apply_main_patch (log_segment (sn_revision sn) 1 (sent_patches ?sent)) (sn_main sn)" using s m1 by auto
  then have "main = apply_main_patch p (sn_main sn)" using s rv by (simp add: log_segment_def sent_patches_def)
  then show ?thesis using s main m1 by (intro exI [of _ sn] exI [of _ p] exI [of _ main]) simp
qed

section \<open>Imports and settings\<close>

lemma run_and_then:
  assumes "and_then m f s = (r, s')"
  obtains (failed) e where "m s = (Inl e, s')" "r = Inl e" | (went_on) x s1 where "m s = (Inr x, s1)" "f x s1 = (r, s')"
  using assms by (auto simp: and_then_def split: prod.splits sum.splits)

lemma take_import_taken: "take_import token s = (x, s1) \<Longrightarrow> tbl_get (as_imports s1) token = None"
  by (auto simp: take_import_def split: option.splits)

lemma apply_import_taken:
  assumes "execute_operation env now ids (ApplyImport token) s = (r, s')"
  shows "tbl_get (as_imports s') token = None"
proof -
  let ?rest = "\<lambda>plan. and_then (app_call (\<lambda>e. ''Import failed: '' @ se_describe_data env e) (app_apply_portable_import (se_app env) plan now ids)) (\<lambda>result.
     and_then (refresh_collections env) (\<lambda>_.
     ok (''Import completed: '' @ decimal (ip_history_add result) @ '' History added, ''
       @ decimal (saturating_add_u64 (ip_favorite_add result) (ip_favorite_reactivate result)) @ '' Favorites added/reactivated.'')))"
  have keep: "imports_kept.keeps (?rest plan)" for plan
    by (intro imports_kept.keeps_and_then imports_kept.keeps_app_call imports_kept.keeps_refresh_collections imports_kept.keeps_ok)
  have "and_then (take_import token) ?rest s = (r, s')" using assms by simp
  then show ?thesis
  proof (cases rule: run_and_then)
    case (failed e)
    show ?thesis by (rule take_import_taken, rule failed(1))
  next
    case (went_on plan s1)
    have "as_imports s' = as_imports s1"
      using keep [of plan, unfolded imports_kept.keeps_def, THEN spec, of s1] unfolding went_on(2) snd_conv .
    then show ?thesis using take_import_taken [OF went_on(1)] by (rule ssubst)
  qed
qed

text \<open>
  C40: an import is applied once, from the latest preview. After an attempt to apply a preview, successful or
  not, a second attempt with its token is refused and changes nothing; and after a new preview, every other
  token is refused.
\<close>

theorem import_applied_once:
  "(execute_operation env now ids (ApplyImport token) s = (r, s') \<longrightarrow>
      execute_operation env2 now2 ids2 (ApplyImport token) s' = (Inl ''Import preview expired; choose the file again.'', s'))
   \<and> (execute_operation env now ids (PreviewImport path) s = (Inr out, s1) \<and> other \<noteq> ids 0 \<longrightarrow>
      execute_operation env2 now2 ids2 (ApplyImport other) s1 = (Inl ''Import preview expired; choose the file again.'', s1))"
proof (intro conjI impI)
  have expired: "tbl_get (as_imports x) tk = None \<Longrightarrow>
      execute_operation env2 now2 ids2 (ApplyImport tk) x = (Inl ''Import preview expired; choose the file again.'', x)" for x tk
    by (simp add: and_then_def take_import_def)
  show "execute_operation env2 now2 ids2 (ApplyImport token) s' = (Inl ''Import preview expired; choose the file again.'', s')"
    if "execute_operation env now ids (ApplyImport token) s = (r, s')"
    by (rule expired, rule apply_import_taken, rule that)
  show "execute_operation env2 now2 ids2 (ApplyImport other) s1 = (Inl ''Import preview expired; choose the file again.'', s1)"
    if run: "execute_operation env now ids (PreviewImport path) s = (Inr out, s1) \<and> other \<noteq> ids 0"
  proof (rule expired)
    have "\<exists>plan. as_imports s1 = [(ids 0, plan)]"
      using run by (auto simp: preview_import_def and_then_def doing_def done_with_def Let_def split: prod.splits sum.splits)
    then show "tbl_get (as_imports s1) other = None" using run by (auto simp: tbl_get_def)
  qed
qed

text \<open>The document of the portable data example is previewed, applied and applied again.\<close>

definition example_import_env :: "((string, byte list) table, bool) service_env" where
  "example_import_env = example_service_env\<lparr>se_app := example_env\<lparr>ae_sha256 := example_profile_sha\<rparr>\<rparr>"

theorem import_applied_once_witness:
  "\<exists>out s1 r s2. execute_operation example_import_env 5 (\<lambda>_. ''t1'') (PreviewImport ''f'') example_service = (Inr out, s1)
    \<and> execute_operation example_import_env 6 (\<lambda>_. ''t3'') (ApplyImport ''t2'') s1 = (Inl ''Import preview expired; choose the file again.'', s1)
    \<and> execute_operation example_import_env 6 (\<lambda>_. ''t3'') (ApplyImport ''t1'') s1 = (r, s2)
    \<and> execute_operation example_import_env 6 (\<lambda>_. ''t3'') (ApplyImport ''t1'') s2 = (Inl ''Import preview expired; choose the file again.'', s2)"
proof -
  have e: "se_portable example_import_env = example_portable_json" "ae_unicode (se_app example_import_env) = ascii_unicode_db"
    "ae_sha256 (se_app example_import_env) = example_profile_sha" "ae_uuid (se_app example_import_env) = Some"
    "se_file example_import_env ''f'' = Inr [1]"
    by (simp_all add: example_import_env_def example_service_env_def example_env_def)
  have db: "active_db (dk_worker (as_app example_service)) = Some example_fresh"
    by (simp add: example_service_def example_application_def example_single_def active_db_def tbl_get_def)
  have "\<exists>out s1. preview_import example_import_env ''t1'' ''f'' example_service = (Inr out, s1)"
    by (simp add: preview_import_def and_then_def read_portable_file_def e max_portable_json_bytes_def app_call_def worker_preview_portable_import_def
        db ok_or_def example_preview doing_def done_with_def Let_def)
  then obtain out s1 where p: "execute_operation example_import_env 5 (\<lambda>_. ''t1'') (PreviewImport ''f'') example_service = (Inr out, s1)" by auto
  obtain r s2 where a: "execute_operation example_import_env 6 (\<lambda>_. ''t3'') (ApplyImport ''t1'') s1 = (r, s2)" by (meson surj_pair)
  have "execute_operation example_import_env 6 (\<lambda>_. ''t3'') (ApplyImport ''t2'') s1 = (Inl ''Import preview expired; choose the file again.'', s1)"
    by (rule import_applied_once [THEN conjunct2, THEN mp], rule conjI, rule p) simp
  moreover have "execute_operation example_import_env 6 (\<lambda>_. ''t3'') (ApplyImport ''t1'') s2 = (Inl ''Import preview expired; choose the file again.'', s2)"
    by (rule import_applied_once [THEN conjunct1, THEN mp], rule a)
  ultimately show ?thesis using p a by blast
qed

lemma rebuild_network: "rebuild_lookup_service env a = (r, a') \<Longrightarrow> ap_network a' = ap_network a"
  by (auto simp: rebuild_lookup_service_def Let_def split: sum.splits)

lemma trim_Nil: "trim [] = []"
  by (simp add: trim_def trim_end_matches_def)

text \<open>
  The GUI is shown proxy switches that were not saved. When the network settings are saved with a blank
  address and the proxy for the Provider switched on, the application stores it switched off, but the patch
  sent to the GUI says that it is on.
\<close>

theorem blank_proxy_patch_diverges:
  assumes run: "execute_operation env now ids (SaveNetworkSettings address kind True update_proxy) s = (Inr out, s')"
    and blank: "trim (string_text address) = []"
  shows "\<not> np_provider_proxy_enabled (ap_network (as_app s')) \<and> (\<exists>ms p. as_sent s' = ms @ [Patch p] \<and> mp_provider_proxy_enabled p = Some True)"
proof -
  let ?n = "network_of_request address kind True update_proxy"
  have run': "and_then (app_call (se_describe env) (save_network_preferences (se_app env) ?n)) (\<lambda>_. and_then (apply_update_proxy env ?n) (\<lambda>_.
      and_then (doing (push_patch (\<lambda>p. p\<lparr>mp_proxy_kind := Some kind, mp_proxy_address := Some address,
        mp_provider_proxy_enabled := Some True, mp_update_proxy_enabled := Some update_proxy\<rparr>))) (\<lambda>_. ok ''Network settings saved.''))) s = (Inr out, s')"
    using run by (simp add: Let_def)
  obtain a s2 where save: "save_network_preferences (se_app env) ?n (as_app s) = (Inr (), a)"
    and s2: "apply_update_proxy env ?n (s\<lparr>as_app := a\<rparr>) = (Inr (), s2)"
    and s': "s' = push_patch (\<lambda>p. p\<lparr>mp_proxy_kind := Some kind, mp_proxy_address := Some address,
        mp_provider_proxy_enabled := Some True, mp_update_proxy_enabled := Some update_proxy\<rparr>) s2"
    using run' by (auto simp: and_then_def app_call_def doing_def ok_def done_with_def map_err_Inr split: prod.splits sum.splits)
  have "proxy_url parse (?n\<lparr>np_proxy_address := trim (np_proxy_address ?n)\<rparr>) = Inr None" for parse
    using blank trim_Nil by (simp add: proxy_url_def network_of_request_def)
  then have "\<not> np_provider_proxy_enabled (ap_network a)"
    using save by (auto simp: save_network_preferences_def Let_def split: sum.splits dest!: rebuild_network)
  moreover have "as_app s2 = a" using s2 by (auto simp: apply_update_proxy_def split: sum.splits if_splits)
  ultimately show ?thesis unfolding s' by (auto simp: push_patch_def service_patch_def send_ui_def Let_def split: prod.split)
qed

theorem blank_proxy_patch_diverges_witness:
  "\<exists>out s' ms p. execute_operation example_service_env 5 (\<lambda>_. ''i'') (SaveNetworkSettings [] 0 True False) example_service = (Inr out, s')
    \<and> \<not> np_provider_proxy_enabled (ap_network (as_app s')) \<and> as_sent s' = ms @ [Patch p] \<and> mp_provider_proxy_enabled p = Some True"
proof -
  have blank: "trim (string_text []) = []" by (simp add: string_text_def trim_def trim_end_matches_def)
  let ?a = "as_app example_service"
  have model: "validate_tokenhub_model (pp_tokenhub_model (ap_provider ?a)) = Inr default_tokenhub_model"
    by (simp add: example_service_def example_application_def default_provider_preferences_def validate_tokenhub_model_def
      default_tokenhub_model_def ascii_def trim_def trim_end_matches_def is_whitespace_def is_control_def max_tokenhub_model_chars_def)
  obtain a' where reb: "rebuild_lookup_service example_env (?a\<lparr>dk_settings := tbl_put network_path [] (dk_settings ?a), ap_network := default_network_preferences\<rparr>) = (Inr (), a')"
    using example_rebuild [of "?a\<lparr>dk_settings := tbl_put network_path [] (dk_settings ?a), ap_network := default_network_preferences\<rparr>"] model by auto
  have net: "(network_of_request [] 0 True False)\<lparr>np_proxy_address := trim (np_proxy_address (network_of_request [] 0 True False)),
      np_provider_proxy_enabled := False, np_update_proxy_enabled := False\<rparr> = default_network_preferences"
    using blank by (simp add: network_of_request_def default_network_preferences_def)
  have "save_network_preferences example_env (network_of_request [] 0 True False) ?a = (Inr (), a')"
    using reb net blank by (simp add: save_network_preferences_def Let_def proxy_url_def network_of_request_def string_text_def atomic_write_def
        default_network_preferences_def) (simp add: example_env_def)
  moreover have "se_app example_service_env = example_env" "se_update_client example_service_env None" by (simp_all add: example_service_env_def)
  ultimately obtain out s' where run: "execute_operation example_service_env 5 (\<lambda>_. ''i'') (SaveNetworkSettings [] 0 True False) example_service = (Inr out, s')"
    by (auto simp: and_then_def app_call_def apply_update_proxy_def network_of_request_def doing_def ok_def done_with_def Let_def)
  show ?thesis using blank_proxy_patch_diverges [OF run blank] run by blast
qed

section \<open>Preferences survive a restart\<close>

text \<open>In the strict sense the stored preferences can be read and are the ones in memory; in the weaker one a
  restart starts with the retention in memory.\<close>

definition prefs_persisted :: "bool \<Rightarrow> ('k, 'n) agent_service \<Rightarrow> bool" where
  "prefs_persisted strict s \<longleftrightarrow> (if strict then load_ui_preferences (as_files s) = Inr (as_preferences s)
     else ux_popup_idle_timeout_secs (startup_preferences (as_files s)) = ux_popup_idle_timeout_secs (as_preferences s))"

definition prefs_step :: "('k, 'n) agent_service \<Rightarrow> ('k, 'n) agent_service \<Rightarrow> bool" where
  "prefs_step s s' \<longleftrightarrow> (\<forall>strict. prefs_persisted strict s \<longrightarrow> prefs_persisted strict s')"

lemma prefs_persisted_cong:
  "as_files s' = as_files s \<Longrightarrow> as_preferences s' = as_preferences s \<Longrightarrow> prefs_persisted strict s' = prefs_persisted strict s"
  by (simp add: prefs_persisted_def)

interpretation prefs_kept: service_relation prefs_step
proof
  show "prefs_step s s'" if "as_files s' = as_files s" "as_preferences s' = as_preferences s" for s s' :: "('k, 'n) agent_service"
    using prefs_persisted_cong [OF that] by (simp add: prefs_step_def)
  show "prefs_step s (push_patch build s)" for build and s :: "('k, 'n) agent_service"
    unfolding prefs_step_def by (auto simp: prefs_persisted_def push_patch_def service_patch_def send_ui_def Let_def split: prod.split if_splits)
qed (auto simp: prefs_step_def)

lemma dropWhile_none: "list_all (\<lambda>c. \<not> P c) xs \<Longrightarrow> dropWhile P xs = xs"
  by (cases xs) auto

lemma trim_no_space: "list_all (\<lambda>c. \<not> is_whitespace c) t \<Longrightarrow> trim t = t"
  by (simp add: trim_def trim_end_matches_def dropWhile_none)

lemma trim_decimal: "trim (ascii (decimal n)) = ascii (decimal n)"
  by (rule trim_no_space) (use ascii_decimal_digits [of n] in \<open>auto simp: list_all_iff is_whitespace_def\<close>)

lemma parse_u32_decimal: "n \<le> max_popup_idle_timeout_secs \<Longrightarrow> parse_u32 (ascii (decimal n)) = Some n"
  using parse_u64_decimal [of n] by (simp add: parse_u32_def max_popup_idle_timeout_secs_def u64_max_def u32_of_u64_def)

lemma preference_keys [simp]:
  "preference_name_ok popup_idle_timeout_key" "preference_name_ok launch_minimized_key"
  "popup_idle_timeout_key \<noteq> launch_minimized_key" "launch_minimized_key \<noteq> popup_idle_timeout_key"
  "popup_idle_timeout_key \<noteq> ''global-hotkey''" "launch_minimized_key \<noteq> ''global-hotkey''"
  by (simp_all add: preference_name_ok_def popup_idle_timeout_key_def launch_minimized_key_def)

lemma load_ui_preferences_Inr:
  "load_ui_preferences files = Inr p \<longleftrightarrow>
     load_popup_idle_timeout files = Inr (ux_popup_idle_timeout_secs p) \<and> ux_launch_minimized p = load_launch_minimized files"
  by (cases p) (auto simp: load_ui_preferences_def rbind_Inr)

lemma load_saved_timeout:
  assumes "load_ui_preferences files = Inr p" "save_popup_idle_timeout writable v files = Inr files'"
  shows "load_ui_preferences files' = Inr (p\<lparr>ux_popup_idle_timeout_secs := v\<rparr>)"
proof -
  have v: "v \<le> max_popup_idle_timeout_secs" and f: "files' = tbl_put popup_idle_timeout_key (ascii (decimal v)) files"
    using assms(2) by (auto simp: save_popup_idle_timeout_def validate_popup_idle_timeout_def save_text_def ok_or_def split: if_splits)
  have "load_popup_idle_timeout files' = Inr v"
    using v by (simp add: f load_popup_idle_timeout_def load_text_def trim_decimal parse_u32_decimal validate_popup_idle_timeout_def ok_or_def)
  moreover have "load_launch_minimized files' = load_launch_minimized files" by (simp add: f load_launch_minimized_def load_text_def)
  ultimately show ?thesis using assms(1) by (simp add: load_ui_preferences_Inr)
qed

lemma startup_timeout:
  "ux_popup_idle_timeout_secs (startup_preferences files) = (case load_popup_idle_timeout files of
     Inl _ \<Rightarrow> ux_popup_idle_timeout_secs default_ui_preferences | Inr v \<Rightarrow> v)"
  by (auto simp: startup_preferences_def load_ui_preferences_def split: sum.split)

lemma saved_timeout:
  assumes "save_popup_idle_timeout writable v files = Inr files'"
  shows "load_popup_idle_timeout files' = Inr v"
  using assms
  by (auto simp: save_popup_idle_timeout_def validate_popup_idle_timeout_def save_text_def ok_or_def load_popup_idle_timeout_def
      load_text_def trim_decimal parse_u32_decimal split: if_splits)

lemma saved_launch:
  assumes "save_boolean writable launch_minimized_key v files = Some files'"
  shows "load_popup_idle_timeout files' = load_popup_idle_timeout files"
  using assms by (auto simp: save_boolean_def save_text_def load_popup_idle_timeout_def load_text_def split: if_splits)

lemma trim_boolean: "trim (ascii (if b then ''true'' else ''false'')) = ascii (if b then ''true'' else ''false'')"
  by (rule trim_no_space) (simp add: ascii_def is_whitespace_def)

lemma load_saved_launch:
  assumes "load_ui_preferences files = Inr p" "save_boolean writable launch_minimized_key v files = Some files'"
  shows "load_ui_preferences files' = Inr (p\<lparr>ux_launch_minimized := v\<rparr>)"
proof -
  have f: "files' = tbl_put launch_minimized_key (ascii (if v then ''true'' else ''false'')) files"
    using assms(2) by (auto simp: save_boolean_def save_text_def split: if_splits)
  have "ascii ''true'' \<noteq> ascii ''false''" by (simp add: ascii_def)
  then have "load_launch_minimized files' = v" by (simp add: f load_launch_minimized_def load_text_def trim_boolean)
  moreover have "load_popup_idle_timeout files' = load_popup_idle_timeout files" by (simp add: f load_popup_idle_timeout_def load_text_def)
  ultimately show ?thesis using assms(1) by (simp add: load_ui_preferences_Inr)
qed

lemma load_saved_hotkey:
  assumes "save_text writable ''global-hotkey'' v files = Some files'"
  shows "load_ui_preferences files' = load_ui_preferences files"
proof -
  have "files' = tbl_put ''global-hotkey'' v files" using assms by (auto simp: save_text_def split: if_splits)
  then show ?thesis by (simp add: load_ui_preferences_def load_popup_idle_timeout_def load_launch_minimized_def load_text_def)
qed

lemma loaded_timeout_bounded: "load_ui_preferences files = Inr p \<Longrightarrow> ux_popup_idle_timeout_secs p \<le> 300"
  by (auto simp: load_ui_preferences_Inr load_popup_idle_timeout_def default_ui_preferences_def default_popup_idle_timeout_secs_def
      validate_popup_idle_timeout_def max_popup_idle_timeout_secs_def rbind_Inr split: option.splits if_splits)

lemma prefs_same:
  "(\<And>s. as_files (snd (m s)) = as_files s \<and> as_preferences (snd (m s)) = as_preferences s) \<Longrightarrow> prefs_kept.keeps m"
  by (simp add: prefs_kept.keeps_def prefs_step_def prefs_persisted_def)

text \<open>A setting is first written, then changed in memory.\<close>

lemma save_then_set:
  assumes "\<And>strict s files. prefs_persisted strict s \<Longrightarrow> save s = Inr files \<Longrightarrow> prefs_persisted strict (change (s\<lparr>as_files := files\<rparr>))"
    and "prefs_kept.keeps rest"
  shows "prefs_kept.keeps (and_then (\<lambda>s. case save s of Inl e \<Rightarrow> (Inl (f e), s) | Inr files \<Rightarrow> (Inr (), s\<lparr>as_files := files\<rparr>)) (\<lambda>_.
    and_then (doing change) (\<lambda>_. rest)))"
  using assms by (auto simp: prefs_kept.keeps_def prefs_step_def and_then_def doing_def split: sum.splits)

lemma save_then_set_option:
  assumes "\<And>strict s files. prefs_persisted strict s \<Longrightarrow> save s = Some files \<Longrightarrow> prefs_persisted strict (change (s\<lparr>as_files := files\<rparr>))"
    and "prefs_kept.keeps rest"
  shows "prefs_kept.keeps (and_then (\<lambda>s. case save s of None \<Rightarrow> (Inl e, s) | Some files \<Rightarrow> (Inr (), s\<lparr>as_files := files\<rparr>)) (\<lambda>_.
    and_then (doing change) (\<lambda>_. rest)))"
  using assms by (auto simp: prefs_kept.keeps_def prefs_step_def and_then_def doing_def split: option.splits)

lemma send_prefs: "as_files (snd (send_ui m s)) = as_files s \<and> as_preferences (snd (send_ui m s)) = as_preferences s"
  by (simp add: send_ui_def split: prod.split)

lemma send_prefs_kept:
  "prefs_kept.keeps (\<lambda>s. case send_ui m s of (True, s1) \<Rightarrow> (Inr x, s1) | (False, s1) \<Rightarrow> (Inl e, s1))"
proof (rule prefs_same)
  fix s
  show "as_files (snd (case send_ui m s of (True, s1) \<Rightarrow> (Inr x, s1) | (False, s1) \<Rightarrow> (Inl e, s1))) = as_files s
    \<and> as_preferences (snd (case send_ui m s of (True, s1) \<Rightarrow> (Inr x, s1) | (False, s1) \<Rightarrow> (Inl e, s1))) = as_preferences s"
    using send_prefs [of m s] by (auto split: prod.split bool.split)
qed

lemma popup_refresh_prefs: "prefs_kept.keeps (popup_refresh env now event_id display_session_id)"
proof -
  have upd: "prefs_kept.keeps (\<lambda>s. if app_is_current state (as_app s)
            then case lookup_of_card state of Inl e \<Rightarrow> (Inl e, s)
               | Inr shown \<Rightarrow> (Inr (), snd (send_ui (UpdateLookup display_session_id shown) s))
            else (Inr (), s))" for state
    by (rule prefs_same) (auto simp: send_prefs split: sum.split)
  show ?thesis unfolding popup_refresh_def
    by (intro prefs_kept.keeps_and_then prefs_kept.keeps_app_does)
      (auto split: option.split lookup_card_state.split
        intro!: prefs_kept.keeps_and_then prefs_kept.keeps_app_does prefs_kept.keeps_ok prefs_kept.keeps_fails send_prefs_kept upd)
qed

lemma import_prefs: "prefs_kept.keeps (preview_import env token path)" "prefs_kept.keeps (take_import token)"
proof -
  show "prefs_kept.keeps (preview_import env token path)" unfolding preview_import_def Let_def
    by (intro prefs_kept.keeps_and_then prefs_kept.keeps_app_call prefs_kept.keeps_done_with) (auto intro!: prefs_same simp: doing_def)
  show "prefs_kept.keeps (take_import token)" by (rule prefs_same) (auto simp: take_import_def split: option.split)
qed

lemma quiet_prefs:
  "prefs_kept.keeps (\<lambda>s. case manual_update_check env now s of (status, s1) \<Rightarrow> (Inr status, s1))"
  "prefs_kept.keeps (\<lambda>s. case service_snapshot env s of (sn, s1) \<Rightarrow> (Inr sn, s1))"
  "prefs_kept.keeps (doing (\<lambda>s. s\<lparr>as_update_status := u s\<rparr>))"
  by (auto intro!: prefs_same simp: case_prod_unfold update_check_quiet snapshot_quiet doing_def)

lemma timeout_kept:
  "prefs_persisted strict s \<Longrightarrow> save_popup_idle_timeout w v (as_files s) = Inr files
    \<Longrightarrow> prefs_persisted strict (s\<lparr>as_files := files, as_preferences := (as_preferences s)\<lparr>ux_popup_idle_timeout_secs := v\<rparr>\<rparr>)"
  by (auto simp: prefs_persisted_def startup_timeout saved_timeout split: if_splits dest: load_saved_timeout)

lemma launch_kept:
  "prefs_persisted strict s \<Longrightarrow> save_boolean w launch_minimized_key v (as_files s) = Some files
    \<Longrightarrow> prefs_persisted strict (s\<lparr>as_files := files, as_preferences := (as_preferences s)\<lparr>ux_launch_minimized := v\<rparr>\<rparr>)"
  by (auto simp: prefs_persisted_def startup_timeout saved_launch split: if_splits dest: load_saved_launch)

lemma hotkey_kept:
  "prefs_persisted strict s \<Longrightarrow> save_text w ''global-hotkey'' v (as_files s) = Some files
    \<Longrightarrow> prefs_persisted strict (s\<lparr>as_files := files, as_global_hotkey := h\<rparr>)"
  by (auto simp: prefs_persisted_def startup_preferences_def dest: load_saved_hotkey)

lemma preference_operations_kept:
  "prefs_kept.keeps (execute_operation env now ids (UpdateGlobalHotkey shortcut))"
  "prefs_kept.keeps (execute_operation env now ids (UpdateLaunchMinimized enabled))"
  "prefs_kept.keeps (execute_operation env now ids (UpdatePopupIdleTimeout seconds))"
proof -
  have rest: "prefs_kept.keeps (and_then (doing (push_preferences env)) (\<lambda>_. ok message))" for message
    by (intro prefs_kept.keeps_and_then prefs_kept.keeps_push_preferences prefs_kept.keeps_ok)
  show "prefs_kept.keeps (execute_operation env now ids (UpdateGlobalHotkey shortcut))"
    unfolding execute_operation.simps
    by (intro prefs_kept.keeps_and_then prefs_kept.keeps_native save_then_set_option rest) (simp add: hotkey_kept)
  show "prefs_kept.keeps (execute_operation env now ids (UpdateLaunchMinimized enabled))"
    unfolding execute_operation.simps by (rule save_then_set_option [OF _ rest]) (simp add: launch_kept)
  show "prefs_kept.keeps (execute_operation env now ids (UpdatePopupIdleTimeout seconds))"
    unfolding execute_operation.simps by (rule save_then_set [OF _ rest]) (simp add: timeout_kept)
qed

lemma execute_prefs_kept: "prefs_kept.keeps (execute_operation env now ids operation)"
proof (cases operation)
  case (UpdateGlobalHotkey shortcut)
  then show ?thesis by (simp only: preference_operations_kept)
next
  case (UpdateLaunchMinimized enabled)
  then show ?thesis by (simp only: preference_operations_kept)
next
  case (UpdatePopupIdleTimeout seconds)
  then show ?thesis by (simp only: preference_operations_kept)
qed (auto simp: Let_def split: sum.split option.split
      intro!: popup_refresh_prefs import_prefs quiet_prefs send_prefs_kept prefs_kept.keeps_intros)

lemma push_prefs: "prefs_persisted strict (push_patch build s) \<longleftrightarrow> prefs_persisted strict s"
  by (auto simp: prefs_persisted_def push_patch_def service_patch_def send_ui_def Let_def split: prod.split)

lemma handle_request_prefs: "prefs_persisted strict s \<Longrightarrow> prefs_persisted strict (handle_request env now ids request_id operation s)"
proof -
  obtain outcome s1 where run: "execute_operation env now ids operation s = (outcome, s1)" by (meson surj_pair)
  assume "prefs_persisted strict s"
  then have "prefs_persisted strict s1"
    using execute_prefs_kept [of env now ids operation, unfolded prefs_kept.keeps_def prefs_step_def, THEN spec, of s] run by simp
  then show ?thesis unfolding handle_request_def run by (simp add: prefs_persisted_def send_prefs)
qed

lemma service_step_prefs:
  assumes "prefs_persisted strict s"
  shows "prefs_persisted strict (service_step e s)"
proof -
  obtain env ev where e: "e = (env, ev)" by (cases e)
  show ?thesis
  proof (cases ev)
    case (FromUi now ids m)
    then show ?thesis using assms unfolding e by (cases m) (auto intro: handle_request_prefs simp: prefs_persisted_def [of strict "as_ui_update _ _"] prefs_persisted_def [of strict "as_ui_blocked_update _ _"] prefs_persisted_def [of strict s])
  next
    case SessionResumed
    then show ?thesis using assms unfolding e
      by (auto simp: service_resume_session_def Let_def push_prefs split: prod.split) (simp_all add: prefs_persisted_def)
  next
    case (UpdatesChecked parse now)
    then show ?thesis using assms unfolding e
      by (auto simp: startup_update_check_def Let_def push_prefs split: prod.split option.split) (simp_all add: prefs_persisted_def)
  next
    case UiConnected
    then show ?thesis using assms snapshot_quiet [of env s] unfolding e by (auto simp: prefs_persisted_def split: prod.split)
  qed
qed

lemma service_run_prefs: "prefs_persisted strict s \<Longrightarrow> prefs_persisted strict (service_run events s)"
  unfolding service_run_def by (induction events arbitrary: s) (auto simp: service_step_prefs)

lemma startup_timeout_bounded: "ux_popup_idle_timeout_secs (startup_preferences files) \<le> 300"
  using loaded_timeout_bounded [of files]
  by (auto simp: startup_preferences_def default_ui_preferences_def default_popup_idle_timeout_secs_def split: sum.split)

text \<open>
  C38: a restart finds the popup retention and the launch preference of the running service. Let the service
  have started with what the Agent reads from the stored files, or the defaults when they cannot be read,
  and gone through any requests, failed writes and other events. Then a restart begins with the retention
  in memory, which is at most 300 seconds. If the stored files could be read at the start, they can be read
  now and a restart begins with exactly the two preferences in memory.
\<close>

theorem preferences_survive_restart:
  assumes "service_start env os arch channel (startup_preferences files) hotkey files attempt client a = Inr (config, s)"
  shows "ux_popup_idle_timeout_secs (startup_preferences (as_files (service_run events s)))
      = ux_popup_idle_timeout_secs (as_preferences (service_run events s))
    \<and> ux_popup_idle_timeout_secs (as_preferences (service_run events s)) \<le> 300
    \<and> (\<forall>p. load_ui_preferences files = Inr p \<longrightarrow>
        load_ui_preferences (as_files (service_run events s)) = Inr (as_preferences (service_run events s))
        \<and> startup_preferences (as_files (service_run events s)) = as_preferences (service_run events s))"
proof -
  have start: "as_files s = files" "as_preferences s = startup_preferences files"
    using assms by (auto simp: service_start_def Let_def rbind_Inr split: if_splits)
  then have "prefs_persisted False (service_run events s)" by (intro service_run_prefs) (simp add: prefs_persisted_def)
  moreover have "prefs_persisted True (service_run events s)" if "load_ui_preferences files = Inr p" for p
    using start that by (intro service_run_prefs) (simp add: prefs_persisted_def startup_preferences_def)
  ultimately show ?thesis
    using startup_timeout_bounded [of "as_files (service_run events s)"]
    by (auto simp: prefs_persisted_def startup_preferences_def [of "as_files (service_run events s)"])
qed

theorem preferences_survive_restart_witness:
  "\<exists>config s. service_start example_service_env ''macos'' ''aarch64'' None (startup_preferences []) [] [] None (ui_client_start ''s1'' ''a'')
        (example_application example_metadata example_single []) = Inr (config, s)
    \<and> load_ui_preferences (as_files (service_run [(example_service_env, FromUi 5 (\<lambda>_. ''i'') (Request ''q'' (UpdatePopupIdleTimeout 60)))] s))
        = Inr \<lparr>ux_popup_idle_timeout_secs = 60, ux_launch_minimized = True\<rparr>"
proof -
  let ?events = "[(example_service_env, FromUi 5 (\<lambda>_. ''i'') (Request ''q'' (UpdatePopupIdleTimeout 60)))]"
  have e: "se_update_client example_service_env p" "ae_software_version (se_app example_service_env) = ae_software_version example_env"
    "se_writable_preference example_service_env n" for p n
    by (simp_all add: example_service_env_def)
  have net: "\<not> np_update_proxy_enabled (ap_network (example_application example_metadata example_single []))"
    by (simp add: example_application_def default_network_preferences_def)
  have files: "load_ui_preferences [] = Inr default_ui_preferences"
    by (simp add: load_ui_preferences_Inr load_popup_idle_timeout_def load_launch_minimized_def load_text_def tbl_get_def)
  obtain config s where s: "service_start example_service_env ''macos'' ''aarch64'' None (startup_preferences []) [] [] None (ui_client_start ''s1'' ''a'')
        (example_application example_metadata example_single []) = Inr (config, s)"
    by (simp add: service_start_def Let_def e net lvos_config_def validate_channel_def default_update_channel_def current_target_def)
  have start: "as_files s = []" "as_preferences s = default_ui_preferences"
    using s files by (auto simp: service_start_def startup_preferences_def Let_def rbind_Inr split: if_splits)
  have "as_preferences (service_run ?events s) = \<lparr>ux_popup_idle_timeout_secs = 60, ux_launch_minimized = True\<rparr>"
    by (auto simp: service_run_def handle_request_def and_then_def save_popup_idle_timeout_def validate_popup_idle_timeout_def
        max_popup_idle_timeout_secs_def save_text_def ok_or_def e start doing_def push_preferences_def push_patch_def service_patch_def send_ui_def
        Let_def ok_def done_with_def default_ui_preferences_def split: prod.split)
  then show ?thesis using preferences_survive_restart [OF s, of ?events] files s by auto
qed

text \<open>A retention that cannot be read hides the launch preference too: it is saved, shown and lost at the
  restart.\<close>

lemma unreadable_retention_hides_launch:
  assumes "load_popup_idle_timeout (as_files s) = Inl e" and "se_writable_preference env launch_minimized_key"
  shows "\<exists>s'. execute_operation env now ids (UpdateLaunchMinimized False) s = (Inr (''Launch preference saved.'', OutputNone), s')
    \<and> \<not> ux_launch_minimized (as_preferences s') \<and> ux_launch_minimized (startup_preferences (as_files s'))"
proof -
  obtain files where f: "save_boolean (se_writable_preference env) launch_minimized_key False (as_files s) = Some files"
    using assms(2) by (simp add: save_boolean_def save_text_def)
  have "startup_preferences files = default_ui_preferences"
    using saved_launch [OF f] assms(1) by (simp add: startup_preferences_def load_ui_preferences_def)
  with f show ?thesis
    by (auto simp: and_then_def doing_def push_preferences_def push_patch_def service_patch_def send_ui_def Let_def ok_def done_with_def
        default_ui_preferences_def split: prod.split)
qed

end
