(* ===== verification/Spec2Isabelle.thy ===== *)
theory Spec2Isabelle
  imports Sync_Composition Profile_Conflicts Agent_Service
begin

text \<open>
  LVOS is a vocabulary tool: a Desktop application looks words and texts up, keeps a history and
  favorites in a local Profile database, and synchronizes favorites and query counts through a Server.
  The Desktop is two processes: a background Agent that owns all data, and a GUI that shows copies of it.
  This development models the code of all sides that decides what is stored, sent, shown and accepted.

  \<^bold>\<open>The parts and their theories\<close>

  \<^item> \<open>LVOS_Prelude\<close>: result type and its combinators, tables with a primary key, machine integers,
    UTF-8 lengths, and the lemmas on them that all components share. \<open>Utf8_Text\<close>: which bytes are
    well-formed UTF-8 and the text they hold, as \<open>str::from_utf8\<close> decides it.
  \<^item> \<open>Core_Language\<close> (\<open>crates/core/src/language.rs\<close>) and \<open>Core_Content\<close> (\<open>crates/core/src/content.rs\<close>):
    language codes; validation, classification, canonical form and key of captured text. Unicode tables
    and SHA-256 are parameters.
  \<^item> \<open>Sync_Protocol\<close> (\<open>crates/sync/src/lib.rs\<close>): the messages.
  \<^item> \<open>Server_Store\<close> (\<open>apps/server/src/repository.rs\<close>, \<open>storage.rs\<close>): users, devices, sessions, token
    rotation and revocation. \<open>Server_Sync\<close> (\<open>sync_repository.rs\<close>): pushed batches, change feed, web
    switch.
  \<^item> \<open>Server_Config\<close> (\<open>config.rs\<close>) and \<open>Server_Api\<close> (\<open>lib.rs\<close>, \<open>sync_api.rs\<close>): environment and handlers,
    with \<open>api_step\<close> the relation of all requests and \<open>login_step\<close> the phases of concurrent logins.
  \<^item> \<open>Profile_Db\<close> (\<open>crates/storage/src/profile.rs\<close>) and \<open>Profile_Sync\<close> (\<open>sync.rs\<close>): the transactions of
    the Profile database and of its synchronization; \<open>Profile_Properties\<close>: their properties;
    \<open>Profile_Conflicts\<close>: what becomes of an intent in conflict while batches are in flight.
    \<open>Portable_Data\<close> (\<open>portable.rs\<close>): export, validation, preview and merge of the portable document.
  \<^item> \<open>Sync_Transport\<close> (\<open>apps/desktop/src/sync_transport.rs\<close>): reading of responses and of the event
    stream. \<open>Sync_Session\<close> (\<open>sync_session.rs\<close>, the credential store of \<open>crates/platform\<close>): tokens and
    the calls that renew them, with \<open>session_step\<close> the relation of its tasks between their awaits.
  \<^item> \<open>Database_Worker\<close> (\<open>db_worker.rs\<close>): the Profile files of an installation. \<open>Sync_Engine\<close>
    (\<open>sync_engine.rs\<close>): a sync cycle, the worker loop and the revision supervisor.
    \<open>Sync_Composition\<close>: the Desktop's requests answered by the Server's handlers.
  \<^item> \<open>Ipc_Protocol\<close> (\<open>crates/ipc/src/lib.rs\<close>): messages and frames between Agent and GUI.
    \<open>Agent_Process\<close> (\<open>apps/agent/src/ui_process.rs\<close>): the life of the GUI process as the Agent sees it,
    with \<open>agent_step\<close> the relation of its tasks. \<open>Ui_Session\<close> (\<open>apps/desktop/src/ui_session.rs\<close>, and the
    window lifetimes of \<open>ui.rs\<close> and \<open>ui_state.rs\<close>): the GUI's copy of the data, its requests and its
    exit. \<open>Ui_Composition\<close>: both processes with the queues between them. \<open>Ui_Connection\<close>
    (\<open>ui_ipc.rs\<close>, \<open>serve_connection\<close>): the handshake on the byte stream.
  \<^item> \<open>Translation_Provider\<close> (\<open>crates/translation\<close>): the TokenHub provider and its transport.
    \<open>Desktop_Lookup\<close> (\<open>lookup.rs\<close>, \<open>generation.rs\<close>, \<open>ui_service.rs\<close>): lookups, the capture gate and the
    lists shown. \<open>Device_Identity\<close> (\<open>installation.rs\<close>, \<open>device_identity.rs\<close>): the installation file and
    the replacement of a revoked identity.
  \<^item> \<open>Desktop_Application\<close> (\<open>application.rs\<close>): settings, lookups, login, logout and recovery on top of
    these. \<open>Update_Check\<close> (\<open>update.rs\<close>): validation of releases. \<open>Agent_Service\<close> (\<open>apps/agent/src/service.rs\<close>,
    \<open>preferences.rs\<close>, \<open>local_store.rs\<close>): every operation of the GUI executed against the application.

  \<^bold>\<open>Conventions\<close>

  A struct is a record, a SQL table or a map a list of key and row with distinct keys, an enum a datatype;
  fallible code returns \<open>error + value\<close> and, where it has effects, also the state it leaves. Integers are
  \<open>nat\<close> or \<open>int\<close> with checked, saturating or wrapping arithmetic written out; Unicode text is a list of code
  points, text that is only compared or forwarded a string. Time and fresh identifiers are arguments.
  Libraries the code calls (serde, reqwest, keyring, SHA-256, Unicode tables, semantic versions, URLs) are
  arguments too; what is assumed of them is a hypothesis of the theorem, or a locale such as
  \<open>keyring_contract\<close>, and each witness discharges it for a concrete function.

  \<^bold>\<open>What the lemmas show\<close>

  \<^item> Server: every transaction and every request keeps the store consistent; a batch delivered again
    changes nothing; favorites are compare-and-set; users do not see each other; revoked devices and
    rotated tokens stay dead; guesses of a password are bounded, by the limit and the number of
    logins in flight.
  \<^item> Profile: every transaction keeps the database consistent; pages are applied in sequence and
    make the favorites a replica; conflicts are replayed once, whatever happens in between; imports do
    what their preview says and bring an export back.
  \<^item> Both together: a pull returns, at the state of the Server or in front of a page that is too long;
    every record of the Server is accepted by the Desktop and every error whose body it can read is the
    one it acts on; the stored refresh token belongs to the access token in use.
  \<^item> Agent and GUI: frames round-trip; one GUI is connected at a time and a launched one becomes Ready;
    an idle exit loses no command; the GUI's copy is always a snapshot of the service with its patches
    applied in order; every request of a connected GUI is answered once, in its queue.
  \<^item> Desktop: lookups count once and are cached; the newest query wins; settings take effect and
    survive a restart; login opens the account's own Profile; the replacement of an identity leaves a
    known state whichever write fails; only official releases are reported.

  \<^bold>\<open>Loops\<close>

  Loops over data are recursion on it, with a measure where it is not structural; nothing takes fuel. The
  pull loop of the sync engine may run for as long as the Server announces more: \<open>pull_all\<close> is a partial
  function whose value is \<open>None\<close> when it does not return, \<open>pull_all_terminates\<close> and \<open>pull_converges\<close> show that
  it returns. The sync worker and the tasks of Agent and GUI run forever; they are state machines or step
  relations, with invariants over all runs.

  \<^bold>\<open>Not modelled\<close>

  The event loop, hotkeys and tray of \<open>agent_main.rs\<close>; the native bindings of \<open>crates/platform\<close>; placement
  and rendering of windows in \<open>ui.rs\<close>, and the callbacks of \<open>ui_bridge.rs\<close>, \<open>ui_process.rs\<close>,
  \<open>confirmation.rs\<close> and \<open>lifecycle.rs\<close> around them; sockets and pipes; opening, migrating and backing up
  database files; the start of the Server. They call the operating system or a framework and decide
  nothing about the data. SQLite and the file system fail only where an argument says so: for the files of
  settings and of the installation, and for the Profiles while an identity is replaced. Other database
  transactions fail for what they find, not for reasons of SQLite's own. A lookup and a request of the GUI
  run without other tasks between their awaits; logins, token rotations, sync batches and the
  messages of Agent and GUI are interleaved. In \<open>Agent_Service\<close> a task that numbers a patch also hands it over before
  another one is numbered; the GUI recovers from a patch out of order by asking for a snapshot, which
  \<open>ui_cache_follows_service\<close> covers by allowing any order of delivery.
\<close>

end
